(* ===== verification/Prelude.thy ===== *)
theory Prelude
  imports Complex_Main "HOL-Library.AList" "HOL-Library.Sublist"
begin

text \<open>
  Shared vocabulary of the development: operations of stateful TypeScript classes as state
  transformers that may throw (the state reached before the throw is kept, as it is in the
  program), a weakest-precondition calculus for them, insertion-ordered objects
  (\<open>Record<string, X>\<close> and \<open>Map\<close>) as association lists, and the few string operations the
  sources use.
\<close>

named_theorems op_defs \<open>definitions of the sequencing operators\<close>
named_theorems wp_simps \<open>weakest-precondition equations of the sequencing operators\<close>
named_theorems keeps_rules \<open>rules by which operations keep a state predicate\<close>

section \<open>Operations that change a state and may throw\<close>

text \<open>
  An \<open>async\<close> method of a class is a function from the object's state to a result and the state
  it leaves: \<open>Inr\<close> of the returned value, or \<open>Inl\<close> of the error it threw, in both cases with the
  state as it is at that moment.
\<close>

type_synonym ('s, 'e, 'a) op = "'s \<Rightarrow> ('e + 'a) \<times> 's"

definition returnE :: "'a \<Rightarrow> ('s, 'e, 'a) op" where
  "returnE x = (\<lambda>s. (Inr x, s))"

definition throwE :: "'e \<Rightarrow> ('s, 'e, 'a) op" where
  "throwE e = (\<lambda>s. (Inl e, s))"

definition liftE :: "'e + 'a \<Rightarrow> ('s, 'e, 'a) op" where
  "liftE r = (\<lambda>s. (r, s))"

definition bindE :: "('s, 'e, 'a) op \<Rightarrow> ('a \<Rightarrow> ('s, 'e, 'b) op) \<Rightarrow> ('s, 'e, 'b) op" where
  "bindE m f = (\<lambda>s. case m s of (Inl e, s') \<Rightarrow> (Inl e, s') | (Inr x, s') \<Rightarrow> f x s')"

definition getE :: "('s \<Rightarrow> 'a) \<Rightarrow> ('s, 'e, 'a) op" where
  "getE f = (\<lambda>s. (Inr (f s), s))"

definition modifyE :: "('s \<Rightarrow> 's) \<Rightarrow> ('s, 'e, unit) op" where
  "modifyE f = (\<lambda>s. (Inr (), f s))"

definition whenE :: "bool \<Rightarrow> ('s, 'e, unit) op \<Rightarrow> ('s, 'e, unit) op" where
  "whenE b m = (if b then m else returnE ())"

text \<open>\<open>try { m } catch (e) { h e }\<close>\<close>

definition catchE :: "('s, 'e, 'a) op \<Rightarrow> ('e \<Rightarrow> ('s, 'e, 'a) op) \<Rightarrow> ('s, 'e, 'a) op" where
  "catchE m h = (\<lambda>s. case m s of (Inl e, s') \<Rightarrow> h e s' | (Inr x, s') \<Rightarrow> (Inr x, s'))"

text \<open>\<open>try { m } finally { f }\<close> where \<open>f\<close> is a plain state change that cannot throw.\<close>

definition finallyE :: "('s, 'e, 'a) op \<Rightarrow> ('s \<Rightarrow> 's) \<Rightarrow> ('s, 'e, 'a) op" where
  "finallyE m f = (\<lambda>s. case m s of (r, s') \<Rightarrow> (r, f s'))"

text \<open>A block of statements, and a \<open>for\<close> loop over the entries of a list.\<close>

primrec block :: "('s, 'e, unit) op list \<Rightarrow> ('s, 'e, unit) op" where
  "block [] = returnE ()"
| "block (m # ms) = bindE m (\<lambda>_. block ms)"

primrec forE :: "'x list \<Rightarrow> ('x \<Rightarrow> ('s, 'e, unit) op) \<Rightarrow> ('s, 'e, unit) op" where
  "forE [] f = returnE ()"
| "forE (x # xs) f = bindE (f x) (\<lambda>_. forE xs f)"

text \<open>\<open>xs.map(f)\<close> where \<open>f\<close> changes the state and may throw.\<close>

primrec mapE :: "('x \<Rightarrow> ('s, 'e, 'y) op) \<Rightarrow> 'x list \<Rightarrow> ('s, 'e, 'y list) op" where
  "mapE f [] = returnE []"
| "mapE f (x # xs) = bindE (f x) (\<lambda>y. bindE (mapE f xs) (\<lambda>ys. returnE (y # ys)))"

lemmas op_basic_defs [op_defs] =
  returnE_def throwE_def liftE_def bindE_def getE_def modifyE_def whenE_def catchE_def finallyE_def

section \<open>Functions that throw and change nothing\<close>

definition andThen :: "'e + 'a \<Rightarrow> ('a \<Rightarrow> 'e + 'b) \<Rightarrow> 'e + 'b" where
  "andThen r f = (case r of Inl e \<Rightarrow> Inl e | Inr x \<Rightarrow> f x)"

text \<open>\<open>if (b) throw e\<close>\<close>

definition throw_if :: "bool \<Rightarrow> 'e \<Rightarrow> 'e + unit" where
  "throw_if b e = (if b then Inl e else Inr ())"

lemma andThen_simps [simp]: "andThen (Inl e) f = Inl e" "andThen (Inr x) f = f x"
  by (simp_all add: andThen_def)

lemma andThen_Inr_iff: "andThen r f = Inr y \<longleftrightarrow> (\<exists>x. r = Inr x \<and> f x = Inr y)"
  by (cases r) simp_all

lemma throw_if_Inr_iff [simp]: "throw_if b e = Inr u \<longleftrightarrow> \<not> b"
  by (simp add: throw_if_def)

primrec fold_sum :: "('x \<Rightarrow> 's \<Rightarrow> 'e + 's) \<Rightarrow> 'x list \<Rightarrow> 's \<Rightarrow> 'e + 's" where
  "fold_sum f [] s = Inr s"
| "fold_sum f (x # xs) s = andThen (f x s) (fold_sum f xs)"

lemma fold_sum_append: "fold_sum f (xs @ ys) s = andThen (fold_sum f xs s) (fold_sum f ys)"
  by (induction xs arbitrary: s) (simp_all add: andThen_def split: sum.splits)

lemma fold_sum_inv:
  assumes "fold_sum f xs s = Inr s'" and "P s"
    and "\<And>x s s'. x \<in> set xs \<Longrightarrow> P s \<Longrightarrow> f x s = Inr s' \<Longrightarrow> P s'"
  shows "P s'"
  using assms by (induction xs arbitrary: s) (auto simp: andThen_Inr_iff)

section \<open>Weakest preconditions\<close>

definition wpE :: "('s, 'e, 'a) op \<Rightarrow> ('a \<Rightarrow> 's \<Rightarrow> bool) \<Rightarrow> ('e \<Rightarrow> 's \<Rightarrow> bool) \<Rightarrow> 's \<Rightarrow> bool" where
  "wpE m Q E s = (case m s of (Inl e, s') \<Rightarrow> E e s' | (Inr x, s') \<Rightarrow> Q x s')"

lemma wpE_return [wp_simps]: "wpE (returnE x) Q E s = Q x s"
  by (simp add: wpE_def returnE_def)

lemma wpE_throw [wp_simps]: "wpE (throwE e) Q E s = E e s"
  by (simp add: wpE_def throwE_def)

lemma wpE_lift [wp_simps]:
  "wpE (liftE r) Q E s = (case r of Inl e \<Rightarrow> E e s | Inr x \<Rightarrow> Q x s)"
  by (simp add: wpE_def liftE_def split: sum.splits)

lemma wpE_bind [wp_simps]: "wpE (bindE m f) Q E s = wpE m (\<lambda>x. wpE (f x) Q E) E s"
  by (auto simp: wpE_def bindE_def split: prod.splits sum.splits)

lemma wpE_get [wp_simps]: "wpE (getE f) Q E s = Q (f s) s"
  by (simp add: wpE_def getE_def)

lemma wpE_modify [wp_simps]: "wpE (modifyE f) Q E s = Q () (f s)"
  by (simp add: wpE_def modifyE_def)

lemma wpE_when [wp_simps]: "wpE (whenE b m) Q E s = (if b then wpE m Q E s else Q () s)"
  by (simp add: whenE_def wpE_return)

lemma wpE_catch [wp_simps]: "wpE (catchE m h) Q E s = wpE m Q (\<lambda>e. wpE (h e) Q E) s"
  by (auto simp: wpE_def catchE_def split: prod.splits sum.splits)

lemma wpE_finally [wp_simps]:
  "wpE (finallyE m f) Q E s = wpE m (\<lambda>x s'. Q x (f s')) (\<lambda>e s'. E e (f s')) s"
  by (auto simp: wpE_def finallyE_def split: prod.splits sum.splits)

lemma wpE_if [wp_simps]: "wpE (if b then m else n) Q E s = (if b then wpE m Q E s else wpE n Q E s)"
  by simp

lemma wpE_block_Nil [wp_simps]: "wpE (block []) Q E s = Q () s"
  by (simp add: wpE_return)

lemma wpE_block_Cons [wp_simps]:
  "wpE (block (m # ms)) Q E s = wpE m (\<lambda>_. wpE (block ms) Q E) E s"
  by (simp add: wpE_bind)

lemma wpE_for_Nil [wp_simps]: "wpE (forE [] f) Q E s = Q () s"
  by (simp add: wpE_return)

lemma wpE_for_Cons [wp_simps]:
  "wpE (forE (x # xs) f) Q E s = wpE (f x) (\<lambda>_. wpE (forE xs f) Q E) E s"
  by (simp add: wpE_bind)

lemma wpE_mono:
  assumes "wpE m Q E s" and "\<And>x s'. Q x s' \<Longrightarrow> Q' x s'" and "\<And>e s'. E e s' \<Longrightarrow> E' e s'"
  shows "wpE m Q' E' s"
  using assms by (auto simp: wpE_def split: prod.splits sum.splits)

lemma wpE_conj: "wpE m Q E s \<Longrightarrow> wpE m Q' E' s \<Longrightarrow> wpE m (\<lambda>x s. Q x s \<and> Q' x s) (\<lambda>e s. E e s \<and> E' e s) s"
  by (auto simp: wpE_def split: prod.splits sum.splits)

lemma wpE_run:
  "wpE m Q E s \<Longrightarrow> (case fst (m s) of Inl e \<Rightarrow> E e (snd (m s)) | Inr x \<Rightarrow> Q x (snd (m s)))"
  by (auto simp: wpE_def split: prod.splits sum.splits)

lemma wpE_total:
  assumes "wpE m Q (\<lambda>_ _. False) s"
  obtains x s' where "m s = (Inr x, s')" and "Q x s'"
  using assms by (auto simp: wpE_def split: prod.splits sum.splits)

text \<open>A loop: an invariant over the entries still to come.\<close>

lemma wpE_for_inv:
  assumes "I xs s"
    and "\<And>y ys s'. I (y # ys) s' \<Longrightarrow> wpE (f y) (\<lambda>_. I ys) E s'"
    and "\<And>s'. I [] s' \<Longrightarrow> Q () s'"
  shows "wpE (forE xs f) Q E s"
  using assms(1)
proof (induction xs arbitrary: s)
  case Nil
  then show ?case by (simp add: wpE_return assms(3))
next
  case (Cons y ys)
  have "wpE (f y) (\<lambda>_. wpE (forE ys f) Q E) E s"
    by (rule wpE_mono [OF assms(2) [OF Cons.prems]]) (auto intro: Cons.IH)
  then show ?case by (simp add: wpE_bind)
qed

text \<open>
  A loop over a snapshot of a record that settles every entry whose value is \<open>v\<close>: each step ends the
  entry it is given and no other.
\<close>

lemma wpE_drain_loop:
  assumes "R s" and "distinct (map fst ys)" and "\<And>k. live s k \<longleftrightarrow> (k, v) \<in> set ys"
    and step: "\<And>s k. R s \<Longrightarrow> live s k \<Longrightarrow>
      wpE (m k) (\<lambda>_ s'. R s' \<and> (\<forall>j. live s' j \<longleftrightarrow> j \<noteq> k \<and> live s j)) (\<lambda>_ _. False) s"
  shows "wpE (forE ys (\<lambda>(k, x). whenE (x = v) (m k))) (\<lambda>_ s'. R s' \<and> (\<forall>k. \<not> live s' k)) (\<lambda>_ _. False) s"
proof (rule wpE_for_inv [where I = "\<lambda>zs s'. R s' \<and> distinct (map fst zs) \<and> (\<forall>k. live s' k \<longleftrightarrow> (k, v) \<in> set zs)"])
  fix y zs s'
  assume I: "R s' \<and> distinct (map fst (y # zs)) \<and> (\<forall>k. live s' k \<longleftrightarrow> (k, v) \<in> set (y # zs))"
  obtain k x where y: "y = (k, x)" by force
  show "wpE (case y of (k, x) \<Rightarrow> whenE (x = v) (m k))
      (\<lambda>_ s'. R s' \<and> distinct (map fst zs) \<and> (\<forall>k. live s' k \<longleftrightarrow> (k, v) \<in> set zs)) (\<lambda>_ _. False) s'"
  proof (cases "x = v")
    case True
    with I y have "wpE (m k) (\<lambda>_ s2. R s2 \<and> (\<forall>j. live s2 j \<longleftrightarrow> j \<noteq> k \<and> live s' j)) (\<lambda>_ _. False) s'"
      by (intro step) simp_all
    then show ?thesis
      using I y True by (simp add: wpE_when) (erule wpE_mono, auto simp: image_iff)
  qed (use I y in \<open>auto simp: wpE_when\<close>)
qed (use assms in auto)

section \<open>Operations that keep a state predicate\<close>

definition keeps :: "('s \<Rightarrow> bool) \<Rightarrow> ('s, 'e, 'a) op \<Rightarrow> bool" where
  "keeps P m \<longleftrightarrow> (\<forall>s. P s \<longrightarrow> P (snd (m s)))"

lemma keepsI [intro?]: "(\<And>s. P s \<Longrightarrow> P (snd (m s))) \<Longrightarrow> keeps P m"
  by (simp add: keeps_def)

lemma keepsD: "keeps P m \<Longrightarrow> P s \<Longrightarrow> P (snd (m s))"
  by (simp add: keeps_def)

lemma wpE_same: "wpE m (\<lambda>_. P) (\<lambda>_. P) s = P (snd (m s))"
  by (cases "m s"; cases "fst (m s)") (auto simp: wpE_def)

lemma keeps_wp: "keeps P m \<longleftrightarrow> (\<forall>s. P s \<longrightarrow> wpE m (\<lambda>_. P) (\<lambda>_. P) s)"
  by (simp add: keeps_def wpE_same)

lemma keeps_return [keeps_rules]: "keeps P (returnE x)"
  by (simp add: keeps_def returnE_def)

lemma keeps_throw [keeps_rules]: "keeps P (throwE e)"
  by (simp add: keeps_def throwE_def)

lemma keeps_lift [keeps_rules]: "keeps P (liftE r)"
  by (simp add: keeps_def liftE_def)

lemma keeps_get [keeps_rules]: "keeps P (getE f)"
  by (simp add: keeps_def getE_def)

lemma keeps_bind [keeps_rules]: "keeps P m \<Longrightarrow> (\<And>x. keeps P (f x)) \<Longrightarrow> keeps P (bindE m f)"
  by (simp add: keeps_wp wpE_bind) (blast intro: wpE_mono)

lemma keeps_modify: "(\<And>s. P s \<Longrightarrow> P (f s)) \<Longrightarrow> keeps P (modifyE f)"
  by (simp add: keeps_def modifyE_def)

lemma keeps_when [keeps_rules]: "(b \<Longrightarrow> keeps P m) \<Longrightarrow> keeps P (whenE b m)"
  by (simp add: whenE_def keeps_return)

lemma keeps_if [keeps_rules]:
  "(b \<Longrightarrow> keeps P m) \<Longrightarrow> (\<not> b \<Longrightarrow> keeps P n) \<Longrightarrow> keeps P (if b then m else n)"
  by simp

lemma keeps_case_option [keeps_rules]:
  "(x = None \<Longrightarrow> keeps P m) \<Longrightarrow> (\<And>y. x = Some y \<Longrightarrow> keeps P (f y)) \<Longrightarrow>
   keeps P (case x of None \<Rightarrow> m | Some y \<Rightarrow> f y)"
  by (cases x) simp_all

lemma keeps_case_prod [keeps_rules]: "(\<And>a b. keeps P (f a b)) \<Longrightarrow> keeps P (case x of (a, b) \<Rightarrow> f a b)"
  by (cases x) simp

lemma keeps_catch [keeps_rules]: "keeps P m \<Longrightarrow> (\<And>e. keeps P (h e)) \<Longrightarrow> keeps P (catchE m h)"
  by (simp add: keeps_wp wpE_catch) (blast intro: wpE_mono)

lemma keeps_block: "(\<And>m. m \<in> set ms \<Longrightarrow> keeps P m) \<Longrightarrow> keeps P (block ms)"
  by (induction ms) (auto intro!: keeps_rules)

lemma keeps_block_Nil [keeps_rules]: "keeps P (block [])"
  by (simp add: keeps_return)

lemma keeps_block_Cons [keeps_rules]: "keeps P m \<Longrightarrow> keeps P (block ms) \<Longrightarrow> keeps P (block (m # ms))"
  by (auto intro!: keeps_rules)

lemma keeps_for [keeps_rules]: "(\<And>x. keeps P (f x)) \<Longrightarrow> keeps P (forE xs f)"
  by (induction xs) (auto intro!: keeps_rules)

section \<open>Objects keyed by strings, in insertion order\<close>

text \<open>
  \<open>Record<string, X>\<close> objects and \<open>Map\<close>s iterate in insertion order, and assigning to a present
  key keeps its position: this is \<^const>\<open>AList.update\<close>. \<open>map_of\<close> is the lookup (\<open>None\<close> is
  \<open>undefined\<close>), and the list itself is \<open>Object.entries\<close>.
\<close>

type_synonym 'v js_record = "(string \<times> 'v) list"

abbreviation distinct_keys :: "('k \<times> 'v) list \<Rightarrow> bool" where
  "distinct_keys r \<equiv> distinct (map fst r)"

lemma map_of_update [simp]: "map_of (AList.update k v r) k' = (if k' = k then Some v else map_of r k')"
  by (simp add: update_conv')

lemma distinct_keys_update [simp]: "distinct_keys r \<Longrightarrow> distinct_keys (AList.update k v r)"
  by (rule distinct_update)

lemma update_fresh: "k \<notin> fst ` set r \<Longrightarrow> AList.update k v r = r @ [(k, v)]"
  by (induction r) auto

lemma list_all_entries_update:
  "list_all P r \<Longrightarrow> P (k, v) \<Longrightarrow> list_all P (AList.update k v r)"
  by (induction r) auto

lemma find_none_iff_all: "(List.find (\<lambda>x. \<not> P x) xs = None) = list_all P xs"
  by (auto simp: find_None_iff list_all_iff)

section \<open>Strings\<close>

text \<open>
  A TypeScript string is modelled by its list of code units; the sources only compare, cut and
  concatenate them.
\<close>

definition startsWith :: "string \<Rightarrow> string \<Rightarrow> bool" where
  "startsWith s p = prefix p s"

definition endsWith :: "string \<Rightarrow> string \<Rightarrow> bool" where
  "endsWith s p = suffix p s"

fun str_includes :: "string \<Rightarrow> string \<Rightarrow> bool" where
  "str_includes [] p = (p = [])"
| "str_includes (c # cs) p = (prefix p (c # cs) \<or> str_includes cs p)"

lemma str_includes_sublist: "str_includes s p = sublist p s"
proof (induction s)
  case Nil
  then show ?case by simp
next
  case (Cons c cs)
  then show ?case by (simp add: sublist_Cons_right)
qed

text \<open>JavaScript's truthiness of an optional string: \<open>undefined\<close> and the empty string are falsy.\<close>

fun truthy :: "string option \<Rightarrow> bool" where
  "truthy None = False"
| "truthy (Some s) = (s \<noteq> [])"

text \<open>\<open>toLowerCase\<close> on the code units below 256.\<close>

definition lower_char :: "char \<Rightarrow> char" where
  "lower_char c =
     (let n = of_char c :: nat in
      if 65 \<le> n \<and> n \<le> 90 \<or> 192 \<le> n \<and> n \<le> 222 \<and> n \<noteq> 215 then char_of (n + 32) else c)"

definition toLowerCase :: "string \<Rightarrow> string" where
  "toLowerCase s = map lower_char s"

text \<open>White space that \<open>String.prototype.trim\<close> removes, among the code units below 256.\<close>

definition is_space :: "char \<Rightarrow> bool" where
  "is_space c \<longleftrightarrow> of_char c \<in> {9, 10, 11, 12, 13, 32, 160 :: nat}"

definition trim :: "string \<Rightarrow> string" where
  "trim s = rev (dropWhile is_space (rev (dropWhile is_space s)))"

lemma trim_empty_iff: "trim s = [] \<longleftrightarrow> list_all is_space s"
proof -
  have "trim s = [] \<longleftrightarrow> (\<forall>c \<in> set (dropWhile is_space s). is_space c)"
    by (simp add: trim_def)
  also have "\<dots> \<longleftrightarrow> dropWhile is_space s = []"
  proof
    assume all: "\<forall>c \<in> set (dropWhile is_space s). is_space c"
    show "dropWhile is_space s = []"
    proof (rule ccontr)
      assume ne: "dropWhile is_space s \<noteq> []"
      then have "is_space (hd (dropWhile is_space s))"
        using all by simp
      with hd_dropWhile [OF ne] show False by simp
    qed
  qed (auto dest: set_dropWhileD)
  finally show ?thesis by (simp add: list_all_iff)
qed

text \<open>A natural number in a template literal: its decimal digits.\<close>

definition digit_char :: "nat \<Rightarrow> char" where
  "digit_char d = char_of (48 + d)"

fun string_of_nat :: "nat \<Rightarrow> string" where
  "string_of_nat n =
     (if n < 10 then [digit_char n] else string_of_nat (n div 10) @ [digit_char (n mod 10)])"

declare string_of_nat.simps [simp del]

definition nat_of_string :: "string \<Rightarrow> nat" where
  "nat_of_string s = foldl (\<lambda>n c. 10 * n + (of_char c - 48)) 0 s"

lemma of_digit_char: "d < 10 \<Longrightarrow> (of_char (digit_char d) :: nat) = 48 + d"
  by (simp add: digit_char_def)

lemma nat_of_string_of_nat [simp]: "nat_of_string (string_of_nat n) = n"
proof (induction n rule: string_of_nat.induct)
  case (1 n)
  show ?case
  proof (cases "n < 10")
    case True
    then show ?thesis
      by (simp add: string_of_nat.simps [of n] nat_of_string_def of_digit_char)
  next
    case False
    then have "nat_of_string (string_of_nat (n div 10)) = n div 10"
      by (rule "1.IH")
    with False show ?thesis
      by (simp add: string_of_nat.simps [of n] nat_of_string_def of_digit_char)
  qed
qed

definition string_of_int :: "int \<Rightarrow> string" where
  "string_of_int i = (if i < 0 then ''-'' @ string_of_nat (nat (- i)) else string_of_nat (nat i))"

lemma string_of_nat_inject [simp]: "string_of_nat m = string_of_nat n \<longleftrightarrow> m = n"
  by (metis nat_of_string_of_nat)

lemma string_of_nat_nonempty [simp]: "string_of_nat n \<noteq> []"
  by (subst string_of_nat.simps) simp

lemma digits_string_of_nat: "set (string_of_nat n) \<subseteq> digit_char ` {..<10}"
proof (induction n rule: string_of_nat.induct)
  case (1 n)
  show ?case
  proof (cases "n < 10")
    case True
    then show ?thesis by (simp add: string_of_nat.simps [of n])
  next
    case False
    with "1.IH" show ?thesis by (simp add: string_of_nat.simps [of n])
  qed
qed

end
