(* ===== verification/Lifecycle_Protocol.thy ===== *)
theory Lifecycle_Protocol
  imports Prelude
begin

text \<open>
  The canonical turn lifecycle of packages/platform-protocol/src/lifecycle.ts: the status
  enumerations, the legal-transition tables and the functions that enforce them, the terminal
  settlement check, the shape checks of the lifecycle snapshots, the event vocabulary and the event
  envelope. The zod schemas that validate an event at run time are third-party code: an event is a
  record here, and \<open>LifecycleEventSchema.parse\<close> is a parameter of the operations that call it.
\<close>

section \<open>Statuses\<close>

datatype TurnStatus =
    Ts_queued | Ts_in_progress | Ts_awaiting_approval | Ts_completed | Ts_interrupted
    | Ts_failed

datatype TurnTerminalStatus =
    Tt_completed | Tt_interrupted | Tt_failed

datatype RunAttemptStatus =
    Ra_queued | Ra_running | Ra_succeeded | Ra_interrupted | Ra_failed

datatype ItemStatus =
    Is_not_started | Is_active | Is_completed | Is_failed | Is_declined | Is_interrupted

text \<open>\<open>ToolCallStatusSchema\<close> lists the same six values as \<open>ItemStatusSchema\<close>.\<close>

type_synonym ToolCallStatus = ItemStatus

datatype ApprovalStatus =
    Ap_pending | Ap_approved | Ap_denied | Ap_timed_out | Ap_cancelled

datatype (plugins only: code size) ItemKind =
    Kind_user_message | Kind_commentary | Kind_reasoning | Kind_plan | Kind_assistant_message
    | Kind_tool_call | Kind_command_execution | Kind_file_change | Kind_git_operation
    | Kind_approval_request | Kind_user_input_request | Kind_artifact | Kind_context_compaction
    | Kind_warning

primrec turn_status_name :: "TurnStatus \<Rightarrow> string" where
  "turn_status_name Ts_queued = ''queued''"
| "turn_status_name Ts_in_progress = ''in_progress''"
| "turn_status_name Ts_awaiting_approval = ''awaiting_approval''"
| "turn_status_name Ts_completed = ''completed''"
| "turn_status_name Ts_interrupted = ''interrupted''"
| "turn_status_name Ts_failed = ''failed''"

primrec run_attempt_status_name :: "RunAttemptStatus \<Rightarrow> string" where
  "run_attempt_status_name Ra_queued = ''queued''"
| "run_attempt_status_name Ra_running = ''running''"
| "run_attempt_status_name Ra_succeeded = ''succeeded''"
| "run_attempt_status_name Ra_interrupted = ''interrupted''"
| "run_attempt_status_name Ra_failed = ''failed''"

primrec item_status_name :: "ItemStatus \<Rightarrow> string" where
  "item_status_name Is_not_started = ''not_started''"
| "item_status_name Is_active = ''active''"
| "item_status_name Is_completed = ''completed''"
| "item_status_name Is_failed = ''failed''"
| "item_status_name Is_declined = ''declined''"
| "item_status_name Is_interrupted = ''interrupted''"

primrec approval_status_name :: "ApprovalStatus \<Rightarrow> string" where
  "approval_status_name Ap_pending = ''pending''"
| "approval_status_name Ap_approved = ''approved''"
| "approval_status_name Ap_denied = ''denied''"
| "approval_status_name Ap_timed_out = ''timed_out''"
| "approval_status_name Ap_cancelled = ''cancelled''"

primrec turn_of_terminal :: "TurnTerminalStatus \<Rightarrow> TurnStatus" where
  "turn_of_terminal Tt_completed = Ts_completed"
| "turn_of_terminal Tt_interrupted = Ts_interrupted"
| "turn_of_terminal Tt_failed = Ts_failed"

text \<open>What blocks a turn, and how a turn ends.\<close>

datatype TurnBlockingState =
    Blocking_none
  | Waiting_for_approval (blocking_itemId: string) (blocking_approvalId: string)
  | Waiting_for_user_input string string
  | Retry_scheduled string

primrec blocking_kind :: "TurnBlockingState \<Rightarrow> string" where
  "blocking_kind Blocking_none = ''none''"
| "blocking_kind (Waiting_for_approval i a) = ''waiting_for_approval''"
| "blocking_kind (Waiting_for_user_input i r) = ''waiting_for_user_input''"
| "blocking_kind (Retry_scheduled r) = ''retry_scheduled''"

datatype (plugins only: code size) ProtocolErrorCode =
    Pc_validation_failed | Pc_unauthorized | Pc_forbidden | Pc_not_found | Pc_conflict
    | Pc_rate_limited | Pc_provider_unavailable | Pc_model_unavailable | Pc_worker_unavailable
    | Pc_workspace_prepare_failed | Pc_command_failed | Pc_command_timed_out
    | Pc_command_cancelled | Pc_file_not_found | Pc_path_denied | Pc_artifact_upload_failed
    | Pc_git_command_failed | Pc_capability_unsupported | Pc_tool_unavailable_in_backend
    | Pc_policy_denied | Pc_approval_required | Pc_illegal_lifecycle_transition
    | Pc_internal_error

text \<open>
  JSON values as the runtime holds them in memory. \<open>POpaque\<close> is any value that is not JSON (a
  function, \<open>undefined\<close>, \<open>NaN\<close>); the last constructors are the protocol's own objects, kept typed.
\<close>

datatype (plugins only: code size) pval =
    PNull | PBool bool | PNum rat | PStr string | PArr "pval list" | PObj "(string \<times> pval) list"
  | POpaque string
  | PKind ItemKind | PBlocking TurnBlockingState | PApproval ApprovalStatus
  | PFailure ProtocolErrorCode string bool "string option" "(string \<times> pval) list option"
  | POutcome TurnTerminalStatus "(string \<times> pval) list"

type_synonym JsonRecord = "pval js_record"

record ProtocolError =
  pe_code :: ProtocolErrorCode
  pe_message :: string
  pe_retryable :: bool
  pe_correlationId :: "string option"
  pe_details :: "JsonRecord option"

definition failure_value :: "ProtocolError \<Rightarrow> pval" where
  "failure_value e =
     PFailure (pe_code e) (pe_message e) (pe_retryable e) (pe_correlationId e) (pe_details e)"

datatype TurnTerminalOutcome =
    Outcome_completed
  | Outcome_interrupted string
  | Outcome_failed ProtocolError

primrec outcome_status :: "TurnTerminalOutcome \<Rightarrow> TurnTerminalStatus" where
  "outcome_status Outcome_completed = Tt_completed"
| "outcome_status (Outcome_interrupted r) = Tt_interrupted"
| "outcome_status (Outcome_failed e) = Tt_failed"

primrec outcome_value :: "TurnTerminalOutcome \<Rightarrow> pval" where
  "outcome_value Outcome_completed = POutcome Tt_completed []"
| "outcome_value (Outcome_interrupted r) = POutcome Tt_interrupted [(''reason'', PStr r)]"
| "outcome_value (Outcome_failed e) = POutcome Tt_failed [(''failure'', failure_value e)]"

section \<open>Errors\<close>

datatype LifecycleTransitionSubject =
    Sub_turn | Sub_run_attempt | Sub_item | Sub_tool_call | Sub_approval
    | Sub_terminal_settlement

datatype EventStoreErrorCode =
    Es_cursor_conflict | Es_cursor_not_found | Es_event_id_conflict | Es_idempotency_conflict
    | Es_invalid_replay_limit | Es_sequence_gap | Es_corrupt_event_stream | Es_terminal_stream

datatype (plugins only: code size) RuntimeKernelErrorCode =
    Kc_invalid_turn_identity | Kc_workspace_not_found | Kc_workspace_not_executable
    | Kc_model_final_missing | Kc_provider_failed | Kc_tool_loop_limit_exceeded
    | Kc_worker_failed | Kc_tool_not_registered | Kc_invalid_tool_input | Kc_tool_policy_denied
    | Kc_approval_denied | Kc_approval_timed_out | Kc_invalid_approval_grant_scope
    | Kc_approval_retry_required | Kc_invalid_approval_item | Kc_approval_not_active
    | Kc_approval_already_active | Kc_turn_not_active | Kc_turn_already_owned
    | Kc_turn_artifact_settlement_failed | Kc_turn_cancelled
    | Kc_context_compaction_unsupported

text \<open>
  Every error the runtime throws; \<open>ZodError\<close> is the schema library's rejection. \<open>ThrownObject\<close> is an object thrown
  by code behind a port: whether it is an \<open>Error\<close>, its message, its \<open>statusCode\<close> if that is a number, and the first
  of its \<open>causeError\<close>, \<open>cause\<close>, \<open>lastError\<close> and \<open>error\<close>; \<open>ThrownPrimitive\<close> is any other value it may throw.
\<close>

datatype js_error =
    LifecycleTransitionError LifecycleTransitionSubject string string string
  | ZodError
  | EventStoreError EventStoreErrorCode string
  | RuntimeLifecycleSettlementError TurnTerminalStatus js_error
  | RuntimeKernelError RuntimeKernelErrorCode string "js_error option"
  | ProtocolFailure ProtocolErrorCode string bool "string option" "JsonRecord option"
  | PlainError string
  | ThrownObject bool string "rat option" "js_error option"
  | ThrownPrimitive

section \<open>Transition tables\<close>

primrec TURN_TRANSITIONS :: "TurnStatus \<Rightarrow> TurnStatus list" where
  "TURN_TRANSITIONS Ts_queued = [Ts_in_progress, Ts_interrupted, Ts_failed]"
| "TURN_TRANSITIONS Ts_in_progress =
     [Ts_in_progress, Ts_awaiting_approval, Ts_completed, Ts_interrupted, Ts_failed]"
| "TURN_TRANSITIONS Ts_awaiting_approval =
     [Ts_in_progress, Ts_completed, Ts_interrupted, Ts_failed]"
| "TURN_TRANSITIONS Ts_completed = []"
| "TURN_TRANSITIONS Ts_interrupted = []"
| "TURN_TRANSITIONS Ts_failed = []"

primrec RUN_ATTEMPT_TRANSITIONS :: "RunAttemptStatus \<Rightarrow> RunAttemptStatus list" where
  "RUN_ATTEMPT_TRANSITIONS Ra_queued = [Ra_running, Ra_interrupted, Ra_failed]"
| "RUN_ATTEMPT_TRANSITIONS Ra_running = [Ra_succeeded, Ra_interrupted, Ra_failed]"
| "RUN_ATTEMPT_TRANSITIONS Ra_succeeded = []"
| "RUN_ATTEMPT_TRANSITIONS Ra_interrupted = []"
| "RUN_ATTEMPT_TRANSITIONS Ra_failed = []"

primrec ITEM_TRANSITIONS :: "ItemStatus \<Rightarrow> ItemStatus list" where
  "ITEM_TRANSITIONS Is_not_started = [Is_active]"
| "ITEM_TRANSITIONS Is_active = [Is_completed, Is_failed, Is_declined, Is_interrupted]"
| "ITEM_TRANSITIONS Is_completed = []"
| "ITEM_TRANSITIONS Is_failed = []"
| "ITEM_TRANSITIONS Is_declined = []"
| "ITEM_TRANSITIONS Is_interrupted = []"

primrec APPROVAL_TRANSITIONS :: "ApprovalStatus \<Rightarrow> ApprovalStatus list" where
  "APPROVAL_TRANSITIONS Ap_pending = [Ap_approved, Ap_denied, Ap_timed_out, Ap_cancelled]"
| "APPROVAL_TRANSITIONS Ap_approved = []"
| "APPROVAL_TRANSITIONS Ap_denied = []"
| "APPROVAL_TRANSITIONS Ap_timed_out = []"
| "APPROVAL_TRANSITIONS Ap_cancelled = []"

definition transition ::
  "LifecycleTransitionSubject \<Rightarrow> ('a \<Rightarrow> string) \<Rightarrow> ('a \<Rightarrow> 'a list) \<Rightarrow> 'a \<Rightarrow> 'a \<Rightarrow> js_error + 'a" where
  "transition subject name table from to =
     (if to \<notin> set (table from)
      then Inl (LifecycleTransitionError subject (name from) (name to)
                  ''the target state is not legal from the current state'')
      else Inr to)"

definition transitionTurnStatus :: "TurnStatus \<Rightarrow> TurnStatus \<Rightarrow> js_error + TurnStatus" where
  "transitionTurnStatus from to = transition Sub_turn turn_status_name TURN_TRANSITIONS from to"

definition transitionRunAttemptStatus ::
  "RunAttemptStatus \<Rightarrow> RunAttemptStatus \<Rightarrow> js_error + RunAttemptStatus" where
  "transitionRunAttemptStatus from to =
     transition Sub_run_attempt run_attempt_status_name RUN_ATTEMPT_TRANSITIONS from to"

definition transitionItemStatus :: "ItemStatus \<Rightarrow> ItemStatus \<Rightarrow> js_error + ItemStatus" where
  "transitionItemStatus from to = transition Sub_item item_status_name ITEM_TRANSITIONS from to"

definition transitionToolCallStatus ::
  "ToolCallStatus \<Rightarrow> ToolCallStatus \<Rightarrow> js_error + ToolCallStatus" where
  "transitionToolCallStatus from to =
     transition Sub_tool_call item_status_name ITEM_TRANSITIONS from to"

definition transitionApprovalStatus ::
  "ApprovalStatus \<Rightarrow> ApprovalStatus \<Rightarrow> js_error + ApprovalStatus" where
  "transitionApprovalStatus from to =
     transition Sub_approval approval_status_name APPROVAL_TRANSITIONS from to"

lemmas transition_defs =
  transition_def transitionTurnStatus_def transitionRunAttemptStatus_def transitionItemStatus_def
  transitionToolCallStatus_def transitionApprovalStatus_def

definition isTerminalTurnStatus :: "TurnStatus \<Rightarrow> bool" where
  "isTerminalTurnStatus s \<longleftrightarrow> s \<in> turn_of_terminal ` {Tt_completed, Tt_interrupted, Tt_failed}"

definition isTerminalItemStatus :: "ItemStatus \<Rightarrow> bool" where
  "isTerminalItemStatus s \<longleftrightarrow> s \<noteq> Is_not_started \<and> s \<noteq> Is_active"

definition isTerminalApprovalStatus :: "ApprovalStatus \<Rightarrow> bool" where
  "isTerminalApprovalStatus s \<longleftrightarrow> s \<noteq> Ap_pending"

lemma isTerminalTurnStatus_simps [simp]:
  "isTerminalTurnStatus Ts_completed" "isTerminalTurnStatus Ts_interrupted"
  "isTerminalTurnStatus Ts_failed" "\<not> isTerminalTurnStatus Ts_queued"
  "\<not> isTerminalTurnStatus Ts_in_progress" "\<not> isTerminalTurnStatus Ts_awaiting_approval"
  by (simp_all add: isTerminalTurnStatus_def)

lemma isTerminal_turn_of_terminal [simp]: "isTerminalTurnStatus (turn_of_terminal t)"
  by (cases t) simp_all

section \<open>Terminal settlement\<close>

record TerminalSettlementInput =
  ts_turnStatus :: TurnStatus
  ts_terminalOutcome :: "TurnTerminalOutcome option"
  ts_blockingState :: TurnBlockingState
  ts_itemStatuses :: "ItemStatus js_record"
  ts_approvalStatuses :: "ApprovalStatus js_record"

definition settlementError :: "string \<Rightarrow> string \<Rightarrow> string \<Rightarrow> js_error" where
  "settlementError from to reason = LifecycleTransitionError Sub_terminal_settlement from to reason"

definition assertAllSettled ::
  "TurnStatus \<Rightarrow> 'a js_record \<Rightarrow> ('a \<Rightarrow> bool) \<Rightarrow> ('a \<Rightarrow> string) \<Rightarrow> string \<Rightarrow> js_error + unit" where
  "assertAllSettled turnStatus states isSettled name label =
     (case List.find (\<lambda>(_, st). \<not> isSettled st) states of
        Some (k, st) \<Rightarrow> Inl (settlementError (turn_status_name turnStatus) ''terminal''
                              (label @ '' '' @ k @ '' remains '' @ name st))
      | None \<Rightarrow> Inr ())"

definition validateTerminalSettlement :: "TerminalSettlementInput \<Rightarrow> js_error + unit" where
  "validateTerminalSettlement inp =
     (let name = turn_status_name (ts_turnStatus inp) in
      if \<not> isTerminalTurnStatus (ts_turnStatus inp)
      then Inl (settlementError name ''terminal'' ''turn is not terminal'')
      else (case ts_terminalOutcome inp of
        None \<Rightarrow> Inl (settlementError name ''terminal'' ''terminal outcome is required'')
      | Some outcome \<Rightarrow>
          if turn_of_terminal (outcome_status outcome) \<noteq> ts_turnStatus inp
          then Inl (settlementError name (turn_status_name (turn_of_terminal (outcome_status outcome)))
                      ''terminal outcome must match the turn status'')
          else if ts_blockingState inp \<noteq> Blocking_none
          then Inl (settlementError name ''terminal'' ''blocking state must be cleared'')
          else (case assertAllSettled (ts_turnStatus inp) (ts_itemStatuses inp)
                       isTerminalItemStatus item_status_name ''item'' of
            Inl e \<Rightarrow> Inl e
          | Inr _ \<Rightarrow> assertAllSettled (ts_turnStatus inp) (ts_approvalStatuses inp)
                       isTerminalApprovalStatus approval_status_name ''approval'')))"

section \<open>Shape checks of the lifecycle snapshots\<close>

text \<open>
  The \<open>superRefine\<close> callbacks of the snapshot schemas add one issue per violated rule; the list of
  issue paths is what the callback adds, and a snapshot is accepted when the list is empty.
\<close>

record TurnLifecycle =
  tl_status :: TurnStatus
  tl_blockingState :: TurnBlockingState
  tl_completedAt :: "string option"
  tl_terminalOutcome :: "TurnTerminalOutcome option"

definition validateTurnLifecycleShape :: "TurnLifecycle \<Rightarrow> string list list" where
  "validateTurnLifecycleShape turn =
     (let isTerminal = isTerminalTurnStatus (tl_status turn) in
      (if isTerminal \<noteq> (tl_completedAt turn \<noteq> None) then [[''completedAt'']] else []) @
      (if isTerminal \<noteq> (tl_terminalOutcome turn \<noteq> None) then [[''terminalOutcome'']] else []) @
      (case tl_terminalOutcome turn of
         Some outcome \<Rightarrow>
           if turn_of_terminal (outcome_status outcome) \<noteq> tl_status turn
           then [[''terminalOutcome'', ''status'']] else []
       | None \<Rightarrow> []) @
      (if isTerminal \<and> tl_blockingState turn \<noteq> Blocking_none then [[''blockingState'']] else []))"

record RunAttemptLifecycle =
  ral_status :: RunAttemptStatus
  ral_completedAt :: "string option"
  ral_failure :: "ProtocolError option"

definition validateRunAttemptLifecycleShape :: "RunAttemptLifecycle \<Rightarrow> string list list" where
  "validateRunAttemptLifecycleShape attempt =
     (let isTerminal = (ral_status attempt \<notin> {Ra_queued, Ra_running}) in
      (if isTerminal \<noteq> (ral_completedAt attempt \<noteq> None) then [[''completedAt'']] else []) @
      (if (ral_status attempt = Ra_failed) \<noteq> (ral_failure attempt \<noteq> None)
       then [[''failure'']] else []))"

definition validateSettledTimestamp :: "ItemStatus \<Rightarrow> string option \<Rightarrow> string list list" where
  "validateSettledTimestamp status completedAt =
     (if isTerminalItemStatus status \<noteq> (completedAt \<noteq> None) then [[''completedAt'']] else [])"

section \<open>Events\<close>

datatype (plugins only: code size) LifecycleEventType =
    E_thread_created | E_thread_updated | E_thread_archived | E_turn_queued | E_turn_started
    | E_turn_input_accepted | E_turn_input_applied | E_turn_blocking_changed | E_turn_completed
    | E_turn_interrupted | E_turn_failed | E_run_attempt_started | E_run_attempt_succeeded
    | E_run_attempt_interrupted | E_run_attempt_failed | E_item_started | E_item_updated
    | E_item_completed | E_item_failed | E_item_declined | E_item_interrupted
    | E_tool_call_started | E_assistant_message_delta | E_reasoning_summary_delta
    | E_plan_updated | E_tool_call_input_delta | E_tool_call_output_delta
    | E_tool_call_completed | E_tool_call_failed | E_tool_call_declined
    | E_tool_call_interrupted | E_command_execution_output_delta | E_file_change_patch_updated
    | E_context_budget_updated | E_usage_updated | E_context_compaction_requested
    | E_context_compaction_started | E_context_compaction_completed
    | E_context_compaction_failed | E_turn_diff_updated | E_approval_requested
    | E_approval_decided | E_user_input_requested | E_user_input_responded | E_request_resolved
    | E_workspace_snapshot_captured | E_workspace_snapshot_unavailable
    | E_workspace_state_changed | E_artifact_created | E_artifact_finalized
    | E_hook_invocation_started | E_hook_invocation_completed | E_hook_invocation_failed
    | E_hook_invocation_timed_out | E_hook_invocation_cancelled

primrec event_type_name :: "LifecycleEventType \<Rightarrow> string" where
  "event_type_name E_thread_created = ''thread.created''"
| "event_type_name E_thread_updated = ''thread.updated''"
| "event_type_name E_thread_archived = ''thread.archived''"
| "event_type_name E_turn_queued = ''turn.queued''"
| "event_type_name E_turn_started = ''turn.started''"
| "event_type_name E_turn_input_accepted = ''turn.input.accepted''"
| "event_type_name E_turn_input_applied = ''turn.input.applied''"
| "event_type_name E_turn_blocking_changed = ''turn.blocking_changed''"
| "event_type_name E_turn_completed = ''turn.completed''"
| "event_type_name E_turn_interrupted = ''turn.interrupted''"
| "event_type_name E_turn_failed = ''turn.failed''"
| "event_type_name E_run_attempt_started = ''run_attempt.started''"
| "event_type_name E_run_attempt_succeeded = ''run_attempt.succeeded''"
| "event_type_name E_run_attempt_interrupted = ''run_attempt.interrupted''"
| "event_type_name E_run_attempt_failed = ''run_attempt.failed''"
| "event_type_name E_item_started = ''item.started''"
| "event_type_name E_item_updated = ''item.updated''"
| "event_type_name E_item_completed = ''item.completed''"
| "event_type_name E_item_failed = ''item.failed''"
| "event_type_name E_item_declined = ''item.declined''"
| "event_type_name E_item_interrupted = ''item.interrupted''"
| "event_type_name E_tool_call_started = ''tool_call.started''"
| "event_type_name E_assistant_message_delta = ''assistant_message.delta''"
| "event_type_name E_reasoning_summary_delta = ''reasoning.summary_delta''"
| "event_type_name E_plan_updated = ''plan.updated''"
| "event_type_name E_tool_call_input_delta = ''tool_call.input_delta''"
| "event_type_name E_tool_call_output_delta = ''tool_call.output_delta''"
| "event_type_name E_tool_call_completed = ''tool_call.completed''"
| "event_type_name E_tool_call_failed = ''tool_call.failed''"
| "event_type_name E_tool_call_declined = ''tool_call.declined''"
| "event_type_name E_tool_call_interrupted = ''tool_call.interrupted''"
| "event_type_name E_command_execution_output_delta = ''command_execution.output_delta''"
| "event_type_name E_file_change_patch_updated = ''file_change.patch_updated''"
| "event_type_name E_context_budget_updated = ''context_budget.updated''"
| "event_type_name E_usage_updated = ''usage.updated''"
| "event_type_name E_context_compaction_requested = ''context_compaction.requested''"
| "event_type_name E_context_compaction_started = ''context_compaction.started''"
| "event_type_name E_context_compaction_completed = ''context_compaction.completed''"
| "event_type_name E_context_compaction_failed = ''context_compaction.failed''"
| "event_type_name E_turn_diff_updated = ''turn.diff_updated''"
| "event_type_name E_approval_requested = ''approval.requested''"
| "event_type_name E_approval_decided = ''approval.decided''"
| "event_type_name E_user_input_requested = ''user_input.requested''"
| "event_type_name E_user_input_responded = ''user_input.responded''"
| "event_type_name E_request_resolved = ''request.resolved''"
| "event_type_name E_workspace_snapshot_captured = ''workspace.snapshot_captured''"
| "event_type_name E_workspace_snapshot_unavailable = ''workspace.snapshot_unavailable''"
| "event_type_name E_workspace_state_changed = ''workspace.state_changed''"
| "event_type_name E_artifact_created = ''artifact.created''"
| "event_type_name E_artifact_finalized = ''artifact.finalized''"
| "event_type_name E_hook_invocation_started = ''hook.invocation.started''"
| "event_type_name E_hook_invocation_completed = ''hook.invocation.completed''"
| "event_type_name E_hook_invocation_failed = ''hook.invocation.failed''"
| "event_type_name E_hook_invocation_timed_out = ''hook.invocation.timed_out''"
| "event_type_name E_hook_invocation_cancelled = ''hook.invocation.cancelled''"

definition LIFECYCLE_SCHEMA_VERSION :: nat where
  "LIFECYCLE_SCHEMA_VERSION = 1"

record LifecycleEvent =
  eventId :: string
  threadId :: string
  turnId :: string
  runAttemptId :: string
  sequence :: nat
  idempotencyKey :: string
  producerId :: string
  schemaVersion :: nat
  createdAt :: string
  etype :: LifecycleEventType
  itemId :: "string option"
  toolCallId :: "string option"
  approvalId :: "string option"
  payload :: JsonRecord

definition assertNextLifecycleSequence :: "nat \<Rightarrow> nat \<Rightarrow> js_error + unit" where
  "assertNextLifecycleSequence lastSequence nextSequence =
     (if nextSequence \<noteq> lastSequence + 1
      then Inl (LifecycleTransitionError Sub_turn (string_of_nat lastSequence)
                  (string_of_nat nextSequence)
                  ''lifecycle event sequence must be contiguous and monotonic'')
      else Inr ())"

definition assertTurnAcceptsLifecycleEvent ::
  "TurnStatus \<Rightarrow> LifecycleEventType \<Rightarrow> js_error + unit" where
  "assertTurnAcceptsLifecycleEvent status eventType =
     (if isTerminalTurnStatus status
      then Inl (LifecycleTransitionError Sub_turn (turn_status_name status)
                  (event_type_name eventType)
                  ''terminal turns cannot accept lifecycle events'')
      else Inr ())"

definition terminal_event_type :: "LifecycleEventType \<Rightarrow> bool" where
  "terminal_event_type t \<longleftrightarrow> t = E_turn_completed \<or> t = E_turn_failed \<or> t = E_turn_interrupted"

text \<open>\<open>isJsonValue\<close> and \<open>isJsonRecord\<close> of common.ts, behind \<open>JsonRecordSchema\<close>.\<close>

fun isJsonValue :: "pval \<Rightarrow> bool" where
  "isJsonValue (POpaque _) = False"
| "isJsonValue (PArr xs) = list_all isJsonValue xs"
| "isJsonValue (PObj kvs) = list_all (\<lambda>(k, v). isJsonValue v) kvs"
| "isJsonValue _ = True"

fun isJsonRecord :: "pval \<Rightarrow> bool" where
  "isJsonRecord (PObj kvs) = list_all (\<lambda>(k, v). isJsonValue v) kvs"
| "isJsonRecord (PBlocking _) = True"
| "isJsonRecord (PFailure _ _ _ _ _) = True"
| "isJsonRecord (POutcome _ _) = True"
| "isJsonRecord _ = False"

definition JsonRecordSchema_parse :: "pval \<Rightarrow> js_error + pval" where
  "JsonRecordSchema_parse v = (if isJsonRecord v then Inr v else Inl ZodError)"

text \<open>
  The sequence numbers \<open>EventSequenceSchema\<close> of common.ts takes: the safe integers of a number, up to
  \<open>Number.MAX_SAFE_INTEGER\<close>. \<open>iso_timestamp\<close> is the form in which \<open>Date.toISOString\<close> prints a time, one of the
  forms \<open>ProtocolTimestampSchema\<close> takes; the sample schemas of the development check both.
\<close>

definition MAX_SAFE_INTEGER :: int where
  "MAX_SAFE_INTEGER = 9007199254740991"

definition safe_sequence :: "nat \<Rightarrow> bool" where
  "safe_sequence n \<longleftrightarrow> int n \<le> MAX_SAFE_INTEGER"

lemma safe_sequence_le: "safe_sequence n \<Longrightarrow> m \<le> n \<Longrightarrow> safe_sequence m"
  by (simp add: safe_sequence_def)

definition iso_timestamp :: "string \<Rightarrow> bool" where
  "iso_timestamp t \<longleftrightarrow>
     list_all2 (\<lambda>p c. if p = CHR ''0'' then c \<in> set ''0123456789'' else c = p) ''0000-00-00T00:00:00.000Z'' t"

definition sample_time :: string where
  "sample_time = ''2025-01-01T00:00:00.000Z''"

lemma sample_time_iso [simp]: "iso_timestamp sample_time"
  by (simp add: iso_timestamp_def sample_time_def)

end
