(* ===== verification/Lifecycle_Store.thy ===== *)
theory Lifecycle_Store
  imports Lifecycle_Protocol "HOL-Library.List_Lexorder" "HOL-Library.Char_ord"
begin

text \<open>
  The append-only lifecycle event store (packages/event-store/src/MemoryLifecycleEventStore.ts and
  fingerprint.ts): one contiguous stream per turn, idempotent appends, atomic batches and replay
  from a sequence. The schema library's \<open>LifecycleEventSchema.parse\<close> is the parameter \<open>parse\<close>.
  The interface \<open>lifecycle_sink\<close> states what a writer may rely on; the store interprets it.
\<close>

section \<open>Fingerprints\<close>

text \<open>
  \<open>createStableEventFingerprint\<close> prints the event with the keys of every object sorted. Printing is
  injective on JSON values, so two fingerprints are equal exactly when the sorted values are: the
  model compares the sorted values themselves. The order of the keys is only used to make the form
  canonical; the model sorts by code units.
\<close>

fun sortJsonValue :: "pval \<Rightarrow> pval" and sortJsonEntry :: "string \<times> pval \<Rightarrow> string \<times> pval" where
  "sortJsonValue (PArr xs) = PArr (map sortJsonValue xs)"
| "sortJsonValue (PObj kvs) = PObj (sort_key fst (map sortJsonEntry kvs))"
| "sortJsonValue (PFailure c m r ci d) =
     PFailure c m r ci (map_option (\<lambda>kvs. sort_key fst (map sortJsonEntry kvs)) d)"
| "sortJsonValue (POutcome s kvs) = POutcome s (sort_key fst (map sortJsonEntry kvs))"
| "sortJsonValue v = v"
| "sortJsonEntry (k, v) = (k, sortJsonValue v)"

definition createStableEventFingerprint :: "LifecycleEvent \<Rightarrow> LifecycleEvent" where
  "createStableEventFingerprint ev =
     ev\<lparr>payload := sort_key fst (map sortJsonEntry (payload ev))\<rparr>"

section \<open>The store\<close>

record StoredLifecycleEvent =
  stored_event :: LifecycleEvent
  stored_fingerprint :: LifecycleEvent

record MemoryLifecycleEventStore =
  eventsByTurn :: "StoredLifecycleEvent list js_record"
  eventsById :: "StoredLifecycleEvent js_record"
  eventsByIdempotencyKey :: "StoredLifecycleEvent js_record"

definition empty_lifecycle_store :: MemoryLifecycleEventStore where
  "empty_lifecycle_store = \<lparr>eventsByTurn = [], eventsById = [], eventsByIdempotencyKey = []\<rparr>"

definition turn_stored :: "MemoryLifecycleEventStore \<Rightarrow> string \<Rightarrow> StoredLifecycleEvent list" where
  "turn_stored st t = (case map_of (eventsByTurn st) t of None \<Rightarrow> [] | Some evs \<Rightarrow> evs)"

definition idempotency_index :: "LifecycleEvent \<Rightarrow> string" where
  "idempotency_index ev = turnId ev @ '':'' @ idempotencyKey ev"

definition assertAppendable :: "LifecycleEvent \<Rightarrow> MemoryLifecycleEventStore \<Rightarrow> js_error + unit" where
  "assertAppendable ev st =
     (if map_of (eventsById st) (eventId ev) \<noteq> None
      then Inl (EventStoreError Es_event_id_conflict (''Event ID exists: '' @ eventId ev))
      else
        let evs = turn_stored st (turnId ev) in
        if evs \<noteq> [] \<and> terminal_event_type (etype (stored_event (last evs)))
        then Inl (EventStoreError Es_terminal_stream
                    (''Turn '' @ turnId ev @ '' already has terminal lifecycle evidence''))
        else
          let previous = (if evs = [] then 0 else sequence (stored_event (last evs))) in
          if sequence ev \<noteq> previous + 1
          then Inl (EventStoreError Es_sequence_gap
                      (''Lifecycle sequence must be '' @ string_of_nat (previous + 1) @
                       '', received '' @ string_of_nat (sequence ev)))
          else Inr ())"

definition store_event :: "LifecycleEvent \<Rightarrow> MemoryLifecycleEventStore \<Rightarrow> MemoryLifecycleEventStore" where
  "store_event ev st =
     (let stored = \<lparr>stored_event = ev, stored_fingerprint = createStableEventFingerprint ev\<rparr> in
      st\<lparr>eventsByTurn := AList.update (turnId ev) (turn_stored st (turnId ev) @ [stored]) (eventsByTurn st),
         eventsById := AList.update (eventId ev) stored (eventsById st),
         eventsByIdempotencyKey :=
           AList.update (idempotency_index ev) stored (eventsByIdempotencyKey st)\<rparr>)"

definition appendOne :: "LifecycleEvent \<Rightarrow> (MemoryLifecycleEventStore, js_error, LifecycleEvent) op" where
  "appendOne ev st =
     (case map_of (eventsByIdempotencyKey st) (idempotency_index ev) of
        Some existing \<Rightarrow>
          if stored_fingerprint existing \<noteq> createStableEventFingerprint ev
          then (Inl (EventStoreError Es_idempotency_conflict
                  (''Lifecycle idempotency key conflicts: '' @ idempotencyKey ev)), st)
          else (Inr (stored_event existing), st)
      | None \<Rightarrow>
          (case assertAppendable ev st of
             Inl e \<Rightarrow> (Inl e, st)
           | Inr _ \<Rightarrow> (Inr ev, store_event ev st)))"

type_synonym event_schema = "LifecycleEvent \<Rightarrow> LifecycleEvent option"

fun parse_all :: "event_schema \<Rightarrow> LifecycleEvent list \<Rightarrow> js_error + LifecycleEvent list" where
  "parse_all parse [] = Inr []"
| "parse_all parse (ev # evs) =
     (case parse ev of
        None \<Rightarrow> Inl ZodError
      | Some ev' \<Rightarrow> (case parse_all parse evs of Inl e \<Rightarrow> Inl e | Inr evs' \<Rightarrow> Inr (ev' # evs')))"

text \<open>The batch works on a clone of the three maps and is committed only when every append passed.\<close>

definition commitBatch ::
  "LifecycleEvent list \<Rightarrow> (MemoryLifecycleEventStore, js_error, LifecycleEvent list) op" where
  "commitBatch parsed st =
     (case mapE appendOne parsed st of
        (Inl e, draft) \<Rightarrow> (Inl e, st)
      | (Inr appended, draft) \<Rightarrow> (Inr appended, draft))"

definition appendBatch ::
  "event_schema \<Rightarrow> LifecycleEvent list \<Rightarrow> (MemoryLifecycleEventStore, js_error, LifecycleEvent list) op" where
  "appendBatch parse evs st =
     (case parse_all parse evs of
        Inl e \<Rightarrow> (Inl e, st)
      | Inr parsed \<Rightarrow> commitBatch parsed st)"

definition append ::
  "event_schema \<Rightarrow> LifecycleEvent \<Rightarrow> (MemoryLifecycleEventStore, js_error, LifecycleEvent) op" where
  "append parse ev = bindE (appendBatch parse [ev]) (\<lambda>evs. returnE (hd evs))"

section \<open>Replay\<close>

definition MAX_REPLAY_LIMIT :: int where
  "MAX_REPLAY_LIMIT = 1000"

definition is_safe_integer :: "int \<Rightarrow> bool" where
  "is_safe_integer n \<longleftrightarrow> \<bar>n\<bar> \<le> 2 ^ 53 - 1"

record ReplayLifecycleEventsInput =
  ri_turnId :: string
  ri_afterSequence :: "int option"
  ri_limit :: int

definition validateReplay :: "ReplayLifecycleEventsInput \<Rightarrow> js_error + unit" where
  "validateReplay inp =
     (if \<not> is_safe_integer (ri_limit inp) \<or> ri_limit inp < 1 \<or> ri_limit inp > MAX_REPLAY_LIMIT
      then Inl (EventStoreError Es_invalid_replay_limit ''Invalid lifecycle replay limit'')
      else case ri_afterSequence inp of
        None \<Rightarrow> Inr ()
      | Some n \<Rightarrow>
          if \<not> is_safe_integer n \<or> n < 0
          then Inl (EventStoreError Es_cursor_not_found ''Invalid lifecycle replay sequence'')
          else Inr ())"

fun assertReplayContinuity :: "nat \<Rightarrow> LifecycleEvent list \<Rightarrow> js_error + unit" where
  "assertReplayContinuity after [] = Inr ()"
| "assertReplayContinuity after (ev # evs) =
     (if sequence ev \<noteq> after + 1
      then Inl (EventStoreError Es_corrupt_event_stream
                  (''Lifecycle replay expected sequence '' @ string_of_nat (after + 1) @
                   '', received '' @ string_of_nat (sequence ev)))
      else assertReplayContinuity (after + 1) evs)"

definition replay ::
  "MemoryLifecycleEventStore \<Rightarrow> ReplayLifecycleEventsInput \<Rightarrow>
     js_error + LifecycleEvent list \<times> nat option" where
  "replay st inp =
     (case validateReplay inp of
        Inl e \<Rightarrow> Inl e
      | Inr _ \<Rightarrow>
          let after = (case ri_afterSequence inp of None \<Rightarrow> 0 | Some n \<Rightarrow> nat n);
              evs = take (nat (ri_limit inp))
                (filter (\<lambda>ev. after < sequence ev) (map stored_event (turn_stored st (ri_turnId inp))))
          in (case assertReplayContinuity after evs of
                Inl e \<Rightarrow> Inl e
              | Inr _ \<Rightarrow> Inr (evs, if evs = [] then None else Some (sequence (last evs)))))"

section \<open>The streams the store holds\<close>

definition lifecycle_log :: "MemoryLifecycleEventStore \<Rightarrow> string \<Rightarrow> LifecycleEvent list" where
  "lifecycle_log st t = map stored_event (turn_stored st t)"

definition contiguous_stream :: "string \<Rightarrow> LifecycleEvent list \<Rightarrow> bool" where
  "contiguous_stream t evs \<longleftrightarrow>
     list_all (\<lambda>ev. turnId ev = t) evs \<and>
     map sequence evs = [1..<Suc (length evs)] \<and>
     list_all (\<lambda>ev. \<not> terminal_event_type (etype ev)) (butlast evs)"

definition stored_indexed :: "MemoryLifecycleEventStore \<Rightarrow> StoredLifecycleEvent \<Rightarrow> bool" where
  "stored_indexed st se \<longleftrightarrow>
     se \<in> set (turn_stored st (turnId (stored_event se))) \<and>
     map_of (eventsById st) (eventId (stored_event se)) = Some se \<and>
     map_of (eventsByIdempotencyKey st) (idempotency_index (stored_event se)) = Some se \<and>
     stored_fingerprint se = createStableEventFingerprint (stored_event se)"

text \<open>
  The store's invariant: every stream is contiguous from 1 and ends at its terminal event, if it has
  one; the three maps hold the same events.
\<close>

definition store_inv :: "MemoryLifecycleEventStore \<Rightarrow> bool" where
  "store_inv st \<longleftrightarrow>
     (\<forall>t. contiguous_stream t (lifecycle_log st t)) \<and>
     (\<forall>t se. se \<in> set (turn_stored st t) \<longrightarrow> stored_indexed st se) \<and>
     (\<forall>i se. map_of (eventsById st) i = Some se \<longrightarrow> stored_indexed st se \<and> eventId (stored_event se) = i) \<and>
     (\<forall>k se. map_of (eventsByIdempotencyKey st) k = Some se \<longrightarrow>
        stored_indexed st se \<and> idempotency_index (stored_event se) = k)"

lemma store_inv_empty: "store_inv empty_lifecycle_store"
  by (simp add: store_inv_def empty_lifecycle_store_def lifecycle_log_def turn_stored_def
      contiguous_stream_def)

lemma turn_stored_store_event:
  "turn_stored (store_event ev st) t =
     (if t = turnId ev
      then turn_stored st t @
        [\<lparr>stored_event = ev, stored_fingerprint = createStableEventFingerprint ev\<rparr>]
      else turn_stored st t)"
  by (simp add: store_event_def turn_stored_def Let_def)

lemma log_store_event:
  "lifecycle_log (store_event ev st) t =
     (if t = turnId ev then lifecycle_log st t @ [ev] else lifecycle_log st t)"
  by (simp add: lifecycle_log_def turn_stored_store_event)

lemma log_last:
  "lifecycle_log st t \<noteq> [] \<Longrightarrow> last (lifecycle_log st t) = stored_event (last (turn_stored st t))"
  by (simp add: lifecycle_log_def last_map)

lemma contiguous_last:
  assumes "contiguous_stream t evs" and "evs \<noteq> []"
  shows "sequence (last evs) = length evs"
proof -
  have "last (map sequence evs) = last [1..<Suc (length evs)]"
    using assms by (simp add: contiguous_stream_def)
  moreover have "Suc 0 \<le> length evs"
    using assms(2) by (cases evs) simp_all
  ultimately show ?thesis
    using assms(2) by (simp add: last_map)
qed

text \<open>\<open>assertAppendable\<close> on a well-formed store: exactly the next event of an open stream.\<close>

lemma assertAppendable_iff:
  assumes "contiguous_stream (turnId ev) (lifecycle_log st (turnId ev))"
  shows "assertAppendable ev st = Inr () \<longleftrightarrow>
    map_of (eventsById st) (eventId ev) = None \<and>
    sequence ev = Suc (length (lifecycle_log st (turnId ev))) \<and>
    (lifecycle_log st (turnId ev) = [] \<or>
     \<not> terminal_event_type (etype (last (lifecycle_log st (turnId ev)))))"
proof (cases "turn_stored st (turnId ev) = []")
  case True
  then show ?thesis
    by (auto simp: assertAppendable_def Let_def lifecycle_log_def)
next
  case False
  then have ne: "lifecycle_log st (turnId ev) \<noteq> []"
    by (simp add: lifecycle_log_def)
  have "sequence (stored_event (last (turn_stored st (turnId ev)))) =
      length (lifecycle_log st (turnId ev))"
    using contiguous_last [OF assms ne] log_last [OF ne] by simp
  with False ne log_last [OF ne] show ?thesis
    by (auto simp: assertAppendable_def Let_def)
qed

lemma contiguous_snoc:
  assumes "contiguous_stream t evs" and "turnId ev = t" and "sequence ev = Suc (length evs)"
    and "evs = [] \<or> \<not> terminal_event_type (etype (last evs))"
  shows "contiguous_stream t (evs @ [ev])"
proof -
  have "list_all (\<lambda>e. \<not> terminal_event_type (etype e)) evs"
  proof (cases "evs = []")
    case False
    have "list_all (\<lambda>e. \<not> terminal_event_type (etype e)) (butlast evs)"
      using assms(1) by (simp add: contiguous_stream_def)
    moreover have "\<not> terminal_event_type (etype (last evs))"
      using False assms(4) by simp
    ultimately show ?thesis
      using False by (metis append_butlast_last_id list_all_append list.pred_inject)
  qed simp
  with assms show ?thesis by (simp add: contiguous_stream_def)
qed

lemma store_event_inv:
  assumes inv: "store_inv st"
    and key: "map_of (eventsByIdempotencyKey st) (idempotency_index ev) = None"
    and ok: "assertAppendable ev st = Inr ()"
  shows "store_inv (store_event ev st)"
proof -
  let ?se = "\<lparr>stored_event = ev, stored_fingerprint = createStableEventFingerprint ev\<rparr>"
  let ?st = "store_event ev st"
  have cs: "contiguous_stream t (lifecycle_log st t)" for t
    using inv by (simp add: store_inv_def)
  have next_ev: "map_of (eventsById st) (eventId ev) = None"
    "sequence ev = Suc (length (lifecycle_log st (turnId ev)))"
    "lifecycle_log st (turnId ev) = [] \<or>
     \<not> terminal_event_type (etype (last (lifecycle_log st (turnId ev))))"
    using ok assertAppendable_iff [OF cs] by simp_all
  have streams: "contiguous_stream t (lifecycle_log ?st t)" for t
    using cs contiguous_snoc [OF cs, of ev "turnId ev"] next_ev by (simp add: log_store_event)
  have new: "stored_indexed ?st ?se"
    by (simp add: stored_indexed_def turn_stored_store_event) (simp add: store_event_def Let_def)
  have old: "stored_indexed ?st se" if "stored_indexed st se" for se
    using that key next_ev(1)
    by (auto simp: stored_indexed_def turn_stored_store_event) (auto simp: store_event_def Let_def)
  show ?thesis
    unfolding store_inv_def
  proof (intro conjI allI impI)
    fix t
    show "contiguous_stream t (lifecycle_log ?st t)" by (rule streams)
  next
    fix t se
    assume "se \<in> set (turn_stored ?st t)"
    then have "se = ?se \<or> se \<in> set (turn_stored st t)"
      by (auto simp: turn_stored_store_event split: if_splits)
    then show "stored_indexed ?st se"
      using new old inv by (auto simp: store_inv_def)
  next
    fix i se
    assume "map_of (eventsById ?st) i = Some se"
    then have "(i = eventId ev \<and> se = ?se) \<or> map_of (eventsById st) i = Some se"
      by (auto simp: store_event_def Let_def split: if_splits)
    then have "stored_indexed ?st se \<and> eventId (stored_event se) = i"
      using new old inv by (auto simp: store_inv_def)
    then show "stored_indexed ?st se" and "eventId (stored_event se) = i" by simp_all
  next
    fix k se
    assume "map_of (eventsByIdempotencyKey ?st) k = Some se"
    then have "(k = idempotency_index ev \<and> se = ?se) \<or> map_of (eventsByIdempotencyKey st) k = Some se"
      by (auto simp: store_event_def Let_def split: if_splits)
    then have "stored_indexed ?st se \<and> idempotency_index (stored_event se) = k"
      using new old inv by (auto simp: store_inv_def)
    then show "stored_indexed ?st se" and "idempotency_index (stored_event se) = k" by simp_all
  qed
qed

lemma appendOne_inv: "store_inv st \<Longrightarrow> store_inv (snd (appendOne ev st))"
  by (auto simp: appendOne_def store_event_inv split: option.splits sum.splits)

lemma mapE_appendOne_inv: "store_inv st \<Longrightarrow> store_inv (snd (mapE appendOne evs st))"
proof (induction evs arbitrary: st)
  case Nil
  then show ?case by (simp add: returnE_def)
next
  case (Cons ev evs)
  have "store_inv (snd (appendOne ev st))"
    using Cons.prems by (rule appendOne_inv)
  with Cons.IH show ?case
    by (fastforce simp: bindE_def returnE_def split: prod.splits sum.splits)
qed

lemma commitBatch_inv: "store_inv st \<Longrightarrow> store_inv (snd (commitBatch evs st))"
  using mapE_appendOne_inv [of st evs] by (auto simp: commitBatch_def split: prod.splits sum.splits)

lemma appendBatch_inv: "store_inv st \<Longrightarrow> store_inv (snd (appendBatch parse evs st))"
  by (simp add: appendBatch_def commitBatch_inv split: sum.splits)

lemma commitBatch_error: "fst (commitBatch evs st) = Inl e \<Longrightarrow> snd (commitBatch evs st) = st"
  by (auto simp: commitBatch_def split: prod.splits sum.splits)

lemma appendBatch_error: "fst (appendBatch parse evs st) = Inl e \<Longrightarrow> snd (appendBatch parse evs st) = st"
  by (auto simp: appendBatch_def commitBatch_error split: sum.splits)

section \<open>Retried batches\<close>

text \<open>An event whose key is taken by an event with the same fingerprint: appending it changes nothing.\<close>

definition already_stored :: "MemoryLifecycleEventStore \<Rightarrow> LifecycleEvent \<Rightarrow> LifecycleEvent \<Rightarrow> bool" where
  "already_stored st ev r \<longleftrightarrow>
     (\<exists>se. map_of (eventsByIdempotencyKey st) (idempotency_index ev) = Some se \<and>
           stored_fingerprint se = createStableEventFingerprint ev \<and> stored_event se = r)"

lemma appendOne_already_stored: "already_stored st ev r \<Longrightarrow> appendOne ev st = (Inr r, st)"
  by (auto simp: already_stored_def appendOne_def)

lemma appendOne_stores: "appendOne ev st = (Inr r, st') \<Longrightarrow> already_stored st' ev r"
  by (auto simp: already_stored_def appendOne_def store_event_def Let_def
      split: option.splits sum.splits if_splits)

lemma already_stored_mono: "already_stored st x r \<Longrightarrow> already_stored (snd (appendOne ev st)) x r"
  by (auto simp: already_stored_def appendOne_def store_event_def Let_def
      split: option.splits sum.splits if_splits)

lemma already_stored_mapE: "already_stored st x r \<Longrightarrow> already_stored (snd (mapE appendOne evs st)) x r"
proof (induction evs arbitrary: st)
  case Nil
  then show ?case by (simp add: returnE_def)
next
  case (Cons ev evs)
  from already_stored_mono [OF Cons.prems, of ev] Cons.IH show ?case
    by (fastforce simp: bindE_def returnE_def split: prod.splits sum.splits)
qed

lemma mapE_appendOne_stores:
  "mapE appendOne evs st = (Inr rs, st') \<Longrightarrow> list_all2 (already_stored st') evs rs"
proof (induction evs arbitrary: st rs)
  case Nil
  then show ?case by (simp add: returnE_def)
next
  case (Cons ev evs)
  then obtain r st1 rs1 where one: "appendOne ev st = (Inr r, st1)"
    and rest: "mapE appendOne evs st1 = (Inr rs1, st')" and rs: "rs = r # rs1"
    by (auto simp: bindE_def returnE_def split: prod.splits sum.splits)
  have "already_stored st' ev r"
    using already_stored_mapE [OF appendOne_stores [OF one], of evs] rest by simp
  with Cons.IH [OF rest] rs show ?case by simp
qed

lemma mapE_already_stored:
  "list_all2 (already_stored st) evs rs \<Longrightarrow> mapE appendOne evs st = (Inr rs, st)"
  by (induction evs rs rule: list_all2_induct)
    (simp_all add: bindE_def returnE_def appendOne_already_stored)

lemma commitBatch_retry:
  "commitBatch evs st = (Inr rs, st') \<Longrightarrow> commitBatch evs st' = (Inr rs, st')"
  using mapE_already_stored [OF mapE_appendOne_stores, of evs st rs st']
  by (simp add: commitBatch_def split: prod.splits sum.splits)

section \<open>What an accepted batch adds\<close>

lemma fingerprint_fields:
  assumes "createStableEventFingerprint ev = createStableEventFingerprint ev'"
  shows "turnId ev = turnId ev'" and "sequence ev = sequence ev'" and "etype ev = etype ev'"
  using arg_cong [OF assms, of turnId] arg_cong [OF assms, of sequence] arg_cong [OF assms, of etype]
  by (simp_all add: createStableEventFingerprint_def)

lemma contiguous_sequence_bound:
  assumes "contiguous_stream t evs" and "ev \<in> set evs"
  shows "1 \<le> sequence ev \<and> sequence ev \<le> length evs"
proof -
  have "sequence ev \<in> set (map sequence evs)" using assms(2) by simp
  moreover have "map sequence evs = [1..<Suc (length evs)]"
    using assms(1) by (simp only: contiguous_stream_def)
  ultimately have "sequence ev \<in> set [1..<Suc (length evs)]" by metis
  then show ?thesis by (simp del: upt_Suc)
qed

lemma contiguous_append_Cons:
  assumes "contiguous_stream t (evs @ ev # rest)"
  shows "turnId ev = t" and "sequence ev = Suc (length evs)"
    and "evs = [] \<or> \<not> terminal_event_type (etype (last evs))"
proof -
  have "map sequence (evs @ ev # rest) ! length evs = [1..<Suc (length (evs @ ev # rest))] ! length evs"
    using assms by (simp add: contiguous_stream_def)
  then show "sequence ev = Suc (length evs)"
    by (simp add: nth_append del: upt_Suc)
  show "turnId ev = t"
    using assms by (simp add: contiguous_stream_def)
  show "evs = [] \<or> \<not> terminal_event_type (etype (last evs))"
    using assms by (auto simp: contiguous_stream_def butlast_append list_all_iff)
qed

text \<open>
  The identifiers \<open>createEvent\<close> of the runtime gives its events: unique for a turn and a sequence.
\<close>

definition canonical_event :: "LifecycleEvent \<Rightarrow> bool" where
  "canonical_event ev \<longleftrightarrow>
     startsWith (turnId ev) ''trn_'' \<and> CHR '':'' \<notin> set (turnId ev) \<and>
     eventId ev = ''evt_'' @ drop 4 (turnId ev) @ ''_'' @ string_of_nat (sequence ev) \<and>
     idempotencyKey ev =
       turnId ev @ '':'' @ string_of_nat (sequence ev) @ '':'' @ event_type_name (etype ev)"

lemma split_at_char:
  assumes "xs @ c # ys = xs' @ c # ys'" and "c \<notin> set xs" and "c \<notin> set xs'"
  shows "xs = xs' \<and> ys = ys'"
proof -
  have tw: "takeWhile (\<lambda>x. x \<noteq> c) (as @ c # bs) = as" if "c \<notin> set as" for as bs
    using that by (induction as) auto
  from tw [OF assms(2), of ys] tw [OF assms(3), of ys'] assms(1) have "xs = xs'" by simp
  with assms(1) show ?thesis by simp
qed

lemma split_at_last_char:
  assumes "xs @ c # ys = xs' @ c # ys'" and "c \<notin> set ys" and "c \<notin> set ys'"
  shows "xs = xs' \<and> ys = ys'"
proof -
  have "rev ys @ c # rev xs = rev ys' @ c # rev xs'"
    using arg_cong [OF assms(1), of rev] by simp
  from split_at_char [OF this] assms(2,3) show ?thesis by simp
qed

lemma digits_not:
  "CHR ''_'' \<notin> set (string_of_nat n)" "CHR '':'' \<notin> set (string_of_nat n)"
proof -
  have "c \<notin> set (string_of_nat n)" if "\<And>d. d < 10 \<Longrightarrow> of_char c \<noteq> 48 + (d :: nat)" for c
  proof
    assume "c \<in> set (string_of_nat n)"
    then obtain d where "d < 10" and "c = digit_char d"
      using digits_string_of_nat [of n] by auto
    with that [of d] of_digit_char [of d] show False by simp
  qed
  then show "CHR ''_'' \<notin> set (string_of_nat n)" and "CHR '':'' \<notin> set (string_of_nat n)"
    by simp_all
qed

lemma prefixed_inject:
  assumes "startsWith t ''trn_''" and "startsWith t' ''trn_''" and "drop 4 t = drop 4 t'"
  shows "t = t'"
  using assms by (auto simp: startsWith_def prefix_def)

lemma canonical_id_inject:
  assumes "canonical_event ev" and "canonical_event ev'" and "eventId ev = eventId ev'"
  shows "turnId ev = turnId ev' \<and> sequence ev = sequence ev'"
proof -
  have "drop 4 (turnId ev) @ CHR ''_'' # string_of_nat (sequence ev) =
      drop 4 (turnId ev') @ CHR ''_'' # string_of_nat (sequence ev')"
    using assms by (simp add: canonical_event_def)
  from split_at_last_char [OF this digits_not(1) digits_not(1)] assms(1,2) prefixed_inject
  show ?thesis by (auto simp: canonical_event_def)
qed

lemma canonical_key_inject:
  assumes "canonical_event ev" and "canonical_event ev'" and "idempotency_index ev = idempotency_index ev'"
  shows "turnId ev = turnId ev' \<and> sequence ev = sequence ev'"
proof -
  have turn: "turnId ev = turnId ev' \<and> idempotencyKey ev = idempotencyKey ev'"
    using split_at_char [of "turnId ev" "CHR '':''" "idempotencyKey ev" "turnId ev'"] assms
    by (simp add: canonical_event_def idempotency_index_def)
  then have "string_of_nat (sequence ev) @ CHR '':'' # event_type_name (etype ev) =
      string_of_nat (sequence ev') @ CHR '':'' # event_type_name (etype ev')"
    using assms(1,2) by (simp add: canonical_event_def)
  from split_at_char [OF this digits_not(2) digits_not(2)] turn show ?thesis by simp
qed

definition canonical_store :: "MemoryLifecycleEventStore \<Rightarrow> bool" where
  "canonical_store st \<longleftrightarrow>
     store_inv st \<and> (\<forall>t se. se \<in> set (turn_stored st t) \<longrightarrow> canonical_event (stored_event se))"

text \<open>The next event of a stream is always accepted: neither its identifier nor its key can be taken.\<close>

lemma appendOne_next:
  assumes inv: "canonical_store st" and can: "canonical_event ev"
    and nxt: "contiguous_stream t (lifecycle_log st t @ [ev])"
  shows "appendOne ev st = (Inr ev, store_event ev st)" and "canonical_store (store_event ev st)"
proof -
  have t: "turnId ev = t" and seq: "sequence ev = Suc (length (lifecycle_log st t))"
    and open_log: "lifecycle_log st t = [] \<or> \<not> terminal_event_type (etype (last (lifecycle_log st t)))"
    using contiguous_append_Cons [OF nxt] by simp_all
  have sinv: "store_inv st" using inv by (simp add: canonical_store_def)
  have new: "\<not> (turnId (stored_event se) = t \<and> sequence (stored_event se) = sequence ev)"
    if "stored_indexed st se" for se
  proof
    assume same: "turnId (stored_event se) = t \<and> sequence (stored_event se) = sequence ev"
    then have "stored_event se \<in> set (lifecycle_log st t)"
      using that by (auto simp: stored_indexed_def lifecycle_log_def)
    then have "sequence (stored_event se) \<le> length (lifecycle_log st t)"
      using contiguous_sequence_bound sinv by (auto simp: store_inv_def)
    with same seq show False by simp
  qed
  have canon: "canonical_event (stored_event se)" if "stored_indexed st se" for se
    using that inv by (auto simp: stored_indexed_def canonical_store_def)
  have key: "map_of (eventsByIdempotencyKey st) (idempotency_index ev) = None"
  proof (rule ccontr)
    assume "map_of (eventsByIdempotencyKey st) (idempotency_index ev) \<noteq> None"
    then obtain se where "stored_indexed st se" "idempotency_index (stored_event se) = idempotency_index ev"
      using sinv unfolding store_inv_def by blast
    with canonical_key_inject [OF canon can] new t show False by metis
  qed
  have "map_of (eventsById st) (eventId ev) = None"
  proof (rule ccontr)
    assume "map_of (eventsById st) (eventId ev) \<noteq> None"
    then obtain se where "stored_indexed st se" "eventId (stored_event se) = eventId ev"
      using sinv unfolding store_inv_def by blast
    with canonical_id_inject [OF canon can] new t show False by metis
  qed
  then have ok: "assertAppendable ev st = Inr ()"
    using assertAppendable_iff sinv seq open_log t by (simp add: store_inv_def)
  with key show "appendOne ev st = (Inr ev, store_event ev st)"
    by (simp add: appendOne_def)
  show "canonical_store (store_event ev st)"
    using store_event_inv [OF sinv key ok] inv can
    by (auto simp: canonical_store_def turn_stored_store_event split: if_splits)
qed

lemma contiguous_prefix: "contiguous_stream t (xs @ ys) \<Longrightarrow> contiguous_stream t xs"
proof (induction ys rule: rev_induct)
  case (snoc y ys)
  then have "contiguous_stream t (xs @ ys)"
    by (auto simp: contiguous_stream_def simp flip: append_assoc simp: list_all_iff
        dest: in_set_butlastD)
  then show ?case by (rule snoc.IH)
qed simp

lemma mapE_appendOne_next:
  assumes "canonical_store st" and "list_all canonical_event evs"
    and "contiguous_stream t (lifecycle_log st t @ evs)"
  shows "\<exists>st'. mapE appendOne evs st = (Inr evs, st') \<and> canonical_store st' \<and>
    lifecycle_log st' = (lifecycle_log st)(t := lifecycle_log st t @ evs)"
  using assms
proof (induction evs arbitrary: st)
  case Nil
  then show ?case by (simp add: returnE_def)
next
  case (Cons ev evs)
  let ?st = "store_event ev st"
  have nxt: "contiguous_stream t (lifecycle_log st t @ [ev])"
    using contiguous_prefix [of t "lifecycle_log st t @ [ev]" evs] Cons.prems(3) by simp
  have can: "canonical_event ev" using Cons.prems(2) by simp
  have one: "appendOne ev st = (Inr ev, ?st)" "canonical_store ?st"
    using appendOne_next [OF Cons.prems(1) can nxt] by simp_all
  have t: "turnId ev = t" using contiguous_append_Cons(1) [OF nxt] .
  have log: "lifecycle_log ?st = (lifecycle_log st)(t := lifecycle_log st t @ [ev])"
    using t by (auto simp: log_store_event fun_eq_iff)
  have "contiguous_stream t (lifecycle_log ?st t @ evs)"
    using Cons.prems(3) by (simp add: log)
  then obtain st' where "mapE appendOne evs ?st = (Inr evs, st')" "canonical_store st'"
    "lifecycle_log st' = (lifecycle_log ?st)(t := lifecycle_log ?st t @ evs)"
    using Cons.IH [OF one(2)] Cons.prems(2) by (metis list.pred_inject(2))
  with one log show ?case by (simp add: bindE_def returnE_def fun_eq_iff)
qed

section \<open>The interface a writer relies on\<close>

text \<open>
  A writer sees a log per turn. An accepted batch that continues its turn's log is appended to it
  and nothing else changes; a refused batch changes no log.
\<close>

locale lifecycle_sink =
  fixes append_events :: "LifecycleEvent list \<Rightarrow> ('st, js_error, LifecycleEvent list) op"
    and sink_log :: "'st \<Rightarrow> string \<Rightarrow> LifecycleEvent list"
    and sink_inv :: "'st \<Rightarrow> bool"
    and admissible :: "LifecycleEvent \<Rightarrow> bool"
  assumes log_contiguous: "sink_inv k \<Longrightarrow> contiguous_stream t (sink_log k t)"
    and append_next: "sink_inv k \<Longrightarrow> list_all admissible evs \<Longrightarrow>
      contiguous_stream t (sink_log k t @ evs) \<Longrightarrow> append_events evs k = (Inr rs, k') \<Longrightarrow>
      sink_inv k' \<and> sink_log k' = (sink_log k)(t := sink_log k t @ evs)"
    and append_error: "sink_inv k \<Longrightarrow> append_events evs k = (Inl e, k') \<Longrightarrow>
      sink_inv k' \<and> sink_log k' = sink_log k"

text \<open>A sink that takes every batch that continues a log.\<close>

locale reliable_sink = lifecycle_sink +
  assumes append_progress: "sink_inv k \<Longrightarrow> list_all admissible evs \<Longrightarrow>
    contiguous_stream t (sink_log k t @ evs) \<Longrightarrow> \<exists>rs k'. append_events evs k = (Inr rs, k')"

lemma commitBatch_next:
  assumes "canonical_store st" and "list_all canonical_event evs"
    and "contiguous_stream t (lifecycle_log st t @ evs)"
  shows "\<exists>st'. commitBatch evs st = (Inr evs, st') \<and> canonical_store st' \<and>
    lifecycle_log st' = (lifecycle_log st)(t := lifecycle_log st t @ evs)"
  using mapE_appendOne_next [OF assms] by (auto simp: commitBatch_def)

interpretation committed: reliable_sink commitBatch lifecycle_log canonical_store canonical_event
proof unfold_locales
  fix k t
  assume "canonical_store k"
  then show "contiguous_stream t (lifecycle_log k t)"
    by (simp add: canonical_store_def store_inv_def)
next
  fix k evs t rs k'
  assume "canonical_store k" and "list_all canonical_event evs"
    and "contiguous_stream t (lifecycle_log k t @ evs)" and "commitBatch evs k = (Inr rs, k')"
  then show "canonical_store k' \<and> lifecycle_log k' = (lifecycle_log k)(t := lifecycle_log k t @ evs)"
    using commitBatch_next by fastforce
next
  fix k evs e k'
  assume "canonical_store k" and "commitBatch evs k = (Inl e, k')"
  then show "canonical_store k' \<and> lifecycle_log k' = lifecycle_log k"
    using commitBatch_error [of evs k e] by simp
next
  fix k evs t
  assume "canonical_store k" and "list_all canonical_event evs"
    and "contiguous_stream t (lifecycle_log k t @ evs)"
  then show "\<exists>rs k'. commitBatch evs k = (Inr rs, k')"
    using commitBatch_next by blast
qed

text \<open>
  The whole \<open>appendBatch\<close>, for the events the schema accepts as they are (every event a writer
  passes on was parsed before).
\<close>

definition admissible_event :: "event_schema \<Rightarrow> LifecycleEvent \<Rightarrow> bool" where
  "admissible_event parse ev \<longleftrightarrow> parse ev = Some ev \<and> canonical_event ev"

lemma parse_all_admissible: "list_all (admissible_event parse) evs \<Longrightarrow> parse_all parse evs = Inr evs"
  by (induction evs) (simp_all add: admissible_event_def)

lemma reliable_sink_memory:
  "reliable_sink (appendBatch parse) lifecycle_log canonical_store (admissible_event parse)"
proof unfold_locales
  fix k evs t rs k'
  assume k: "canonical_store k" and ev: "list_all (admissible_event parse) evs"
    and c: "contiguous_stream t (lifecycle_log k t @ evs)" and "appendBatch parse evs k = (Inr rs, k')"
  then have "commitBatch evs k = (Inr rs, k')"
    by (simp add: appendBatch_def parse_all_admissible)
  moreover have "list_all canonical_event evs"
    using ev by (simp add: admissible_event_def list_all_iff)
  ultimately show "canonical_store k' \<and> lifecycle_log k' = (lifecycle_log k)(t := lifecycle_log k t @ evs)"
    using committed.append_next [OF k _ c] by blast
next
  fix k evs e k'
  assume "canonical_store k" and "appendBatch parse evs k = (Inl e, k')"
  then show "canonical_store k' \<and> lifecycle_log k' = lifecycle_log k"
    using appendBatch_error [of parse evs k e] by simp
next
  fix k evs t
  assume k: "canonical_store k" and ev: "list_all (admissible_event parse) evs"
    and c: "contiguous_stream t (lifecycle_log k t @ evs)"
  have "list_all canonical_event evs"
    using ev by (simp add: admissible_event_def list_all_iff)
  then show "\<exists>rs k'. appendBatch parse evs k = (Inr rs, k')"
    using committed.append_progress [OF k _ c] ev by (simp add: appendBatch_def parse_all_admissible)
qed (rule committed.log_contiguous)

lemma canonical_store_empty: "canonical_store empty_lifecycle_store"
  using store_inv_empty
  by (simp add: canonical_store_def empty_lifecycle_store_def turn_stored_def)

section \<open>Replay returns the stream\<close>

lemma filter_contiguous:
  assumes "contiguous_stream t evs"
  shows "filter (\<lambda>ev. after < sequence ev) evs = drop after evs"
  using assms
proof (induction evs rule: rev_induct)
  case (snoc ev evs)
  have seq: "sequence ev = Suc (length evs)"
    using contiguous_append_Cons(2) [OF snoc.prems] .
  have "contiguous_stream t evs"
    using snoc.prems by (rule contiguous_prefix)
  with snoc.IH seq show ?case
    by (cases "after \<le> length evs") simp_all
qed simp

lemma replay_continuous:
  "map sequence evs = [Suc after..<Suc after + length evs] \<Longrightarrow> assertReplayContinuity after evs = Inr ()"
proof (induction evs arbitrary: after)
  case (Cons ev evs)
  have "[Suc after..<Suc after + length (ev # evs)] =
      Suc after # [Suc (Suc after)..<Suc (Suc after) + length evs]"
    by (simp add: upt_rec)
  with Cons show ?case by simp
qed simp

lemma contiguous_page:
  assumes "contiguous_stream t evs"
  shows "map sequence (take n (drop m evs)) = [Suc m..<Suc m + length (take n (drop m evs))]"
proof -
  have "map sequence (take n (drop m evs)) = take n (drop m [1..<Suc (length evs)])"
    using assms by (simp add: contiguous_stream_def take_map [symmetric] drop_map [symmetric] del: upt_Suc)
  also have "\<dots> = [Suc m..<Suc m + length (take n (drop m evs))]"
    by (rule nth_equalityI) (auto simp del: upt_Suc)
  finally show ?thesis .
qed

lemma replay_page:
  assumes inv: "store_inv st" and ok: "validateReplay inp = Inr ()"
  shows "replay st inp =
    (let after = (case ri_afterSequence inp of None \<Rightarrow> 0 | Some n \<Rightarrow> nat n);
         page = take (nat (ri_limit inp)) (drop after (lifecycle_log st (ri_turnId inp)))
     in Inr (page, if page = [] then None else Some (after + length page)))"
proof -
  define after where "after = (case ri_afterSequence inp of None \<Rightarrow> 0 | Some n \<Rightarrow> nat n)"
  define page where "page = take (nat (ri_limit inp)) (drop after (lifecycle_log st (ri_turnId inp)))"
  have c: "contiguous_stream (ri_turnId inp) (lifecycle_log st (ri_turnId inp))"
    using inv by (simp add: store_inv_def)
  have seqs: "map sequence page = [Suc after..<Suc after + length page]"
    unfolding page_def by (rule contiguous_page [OF c])
  have final: "sequence (last page) = after + length page" if "page \<noteq> []"
  proof -
    have "sequence (last page) = last (map sequence page)" using that by (simp add: last_map)
    also have "\<dots> = after + length page" using that by (subst seqs) (cases page, simp_all)
    finally show ?thesis .
  qed
  have "filter (\<lambda>ev. after < sequence ev) (lifecycle_log st (ri_turnId inp)) =
      drop after (lifecycle_log st (ri_turnId inp))"
    by (rule filter_contiguous [OF c])
  then have "take (nat (ri_limit inp)) (filter (\<lambda>ev. after < sequence ev)
      (map stored_event (turn_stored st (ri_turnId inp)))) = page"
    by (simp add: page_def lifecycle_log_def)
  with ok replay_continuous [OF seqs] final show ?thesis
    unfolding replay_def Let_def after_def [symmetric] page_def [symmetric] by simp
qed

section \<open>Properties\<close>

text \<open>
  Whatever batches are appended to an empty store, accepted or refused, every turn's stream stays
  contiguous from sequence 1, belongs to its turn, and holds nothing after a terminal event; and
  the three indexes agree.
\<close>
theorem append_history_inv:
  "store_inv (fold (\<lambda>evs st. snd (appendBatch parse evs st)) batches empty_lifecycle_store)"
proof -
  have "store_inv st \<Longrightarrow> store_inv (fold (\<lambda>evs st. snd (appendBatch parse evs st)) batches st)" for st
    by (induction batches arbitrary: st) (simp_all add: appendBatch_inv)
  then show ?thesis using store_inv_empty by blast
qed

text \<open>
  C16. A batch is atomic and its retry is harmless: a refused batch leaves the store as it was, and an
  accepted batch submitted again returns the same events and changes nothing.
\<close>
theorem appendBatch_atomic_retry:
  "case appendBatch parse evs st of
     (Inl e, st') \<Rightarrow> st' = st
   | (Inr rs, st') \<Rightarrow> appendBatch parse evs st' = (Inr rs, st')"
proof (cases "appendBatch parse evs st")
  case (Pair r st')
  then show ?thesis
    using appendBatch_error [of parse evs st] commitBatch_retry [of _ st _ st']
    by (auto simp: appendBatch_def split: sum.splits)
qed

text \<open>
  On a well-formed store a valid replay request returns exactly the requested page of the
  stream, never a corruption error, with the sequence of the page's last event as the next cursor.
\<close>
theorem replay_returns_page:
  assumes "store_inv st" and "validateReplay inp = Inr ()"
    and "after = (case ri_afterSequence inp of None \<Rightarrow> 0 | Some n \<Rightarrow> nat n)"
    and "page = take (nat (ri_limit inp)) (drop after (lifecycle_log st (ri_turnId inp)))"
  shows "replay st inp = Inr (page, if page = [] then None else Some (after + length page))"
  using replay_page [OF assms(1,2)] unfolding assms(3,4) Let_def .

definition sample_store :: MemoryLifecycleEventStore where
  "sample_store = store_event
     \<lparr>eventId = ''evt_abcdef_1'', threadId = ''thr_abcdef'', turnId = ''trn_abcdef'',
      runAttemptId = ''att_abcdef'', sequence = 1,
      idempotencyKey = ''trn_abcdef:1:turn.queued'', producerId = ''kernel'', schemaVersion = 1,
      createdAt = ''t0'', etype = E_turn_queued, itemId = None, toolCallId = None,
      approvalId = None, payload = []\<rparr> empty_lifecycle_store"

lemma sample_store_inv: "store_inv sample_store"
  unfolding sample_store_def
  by (rule store_event_inv [OF store_inv_empty])
    (simp_all add: empty_lifecycle_store_def assertAppendable_def turn_stored_def)

lemma replay_returns_page_witness:
  "replay sample_store \<lparr>ri_turnId = ''trn_abcdef'', ri_afterSequence = Some 0, ri_limit = 10\<rparr> =
     Inr (lifecycle_log sample_store ''trn_abcdef'', Some 1)"
  using replay_returns_page [OF sample_store_inv _ refl refl,
      of "\<lparr>ri_turnId = ''trn_abcdef'', ri_afterSequence = Some 0, ri_limit = 10\<rparr>"]
  by (simp add: validateReplay_def is_safe_integer_def MAX_REPLAY_LIMIT_def sample_store_def
      log_store_event) (simp add: lifecycle_log_def turn_stored_def empty_lifecycle_store_def)

end
