(* ===== verification/Lifecycle_Coordinator.thy ===== *)
theory Lifecycle_Coordinator
  imports Lifecycle_Store
begin

text \<open>
  The lifecycle of one turn, packages/runtime-kernel/src/RuntimeLifecycleCoordinator.ts: the state
  of the coordinator, every operation that emits events, the two-phase settlement of a turn, and
  the restoration of an approval wait from stored events. Operations run one at a time (the source
  chains them on \<open>operationQueue\<close>), so an operation is a state transformer. The event sink, the
  clock and the schema library are the fields of the options record.
\<close>

section \<open>Options and state\<close>

record 'st lc_options =
  opt_threadId :: string
  opt_turnId :: string
  opt_runAttemptId :: string
  opt_producerId :: string
  opt_revisionOfTurnId :: "string option"
  opt_continuationOfTurnId :: "string option"
  opt_originalPromptId :: "string option"
  opt_executionCapability :: "string option"
  opt_now :: "nat \<Rightarrow> string"
  opt_parseEventId :: "string \<Rightarrow> string option"
  opt_parseEvent :: event_schema
  opt_appendBatch :: "LifecycleEvent list \<Rightarrow> ('st, js_error, LifecycleEvent list) op"

text \<open>\<open>lc_clock\<close> counts the readings of the clock and \<open>lc_sink\<close> is the state of the event store.\<close>

record 'st lc_state =
  lc_status :: TurnStatus
  lc_blockingState :: TurnBlockingState
  lc_runAttemptStatus :: RunAttemptStatus
  lc_itemStatuses :: "ItemStatus js_record"
  lc_itemKinds :: "ItemKind js_record"
  lc_toolCallStatuses :: "ToolCallStatus js_record"
  lc_toolCallNames :: "string js_record"
  lc_toolCallBatches :: "string js_record"
  lc_toolCallItems :: "string js_record"
  lc_approvalStatuses :: "ApprovalStatus js_record"
  lc_approvalItems :: "string js_record"
  lc_approvalParents :: "string js_record"
  lc_accepted :: bool
  lc_completionReserved :: bool
  lc_acceptedInputSequences :: "nat js_record"
  lc_sequence :: nat
  lc_clock :: nat
  lc_sink :: 'st

type_synonym ('st, 'a) lc_op = "('st lc_state, js_error, 'a) op"

definition lc_init :: "nat \<Rightarrow> nat \<Rightarrow> 'st \<Rightarrow> 'st lc_state" where
  "lc_init initialSequence ticks k =
     \<lparr>lc_status = Ts_queued, lc_blockingState = Blocking_none, lc_runAttemptStatus = Ra_queued,
      lc_itemStatuses = [], lc_itemKinds = [], lc_toolCallStatuses = [], lc_toolCallNames = [],
      lc_toolCallBatches = [], lc_toolCallItems = [], lc_approvalStatuses = [],
      lc_approvalItems = [], lc_approvalParents = [], lc_accepted = False,
      lc_completionReserved = False, lc_acceptedInputSequences = [],
      lc_sequence = initialSequence, lc_clock = ticks, lc_sink = k\<rparr>"

definition isTerminal :: "'st lc_state \<Rightarrow> bool" where
  "isTerminal s = isTerminalTurnStatus (lc_status s)"

record EventFields =
  f_type :: LifecycleEventType
  f_itemId :: "string option"
  f_toolCallId :: "string option"
  f_approvalId :: "string option"
  f_payload :: JsonRecord

abbreviation turn_event :: "LifecycleEventType \<Rightarrow> JsonRecord \<Rightarrow> EventFields" where
  "turn_event t p \<equiv> \<lparr>f_type = t, f_itemId = None, f_toolCallId = None, f_approvalId = None, f_payload = p\<rparr>"

abbreviation item_event :: "LifecycleEventType \<Rightarrow> string \<Rightarrow> JsonRecord \<Rightarrow> EventFields" where
  "item_event t i p \<equiv>
     \<lparr>f_type = t, f_itemId = Some i, f_toolCallId = None, f_approvalId = None, f_payload = p\<rparr>"

abbreviation tool_event :: "LifecycleEventType \<Rightarrow> string \<Rightarrow> string \<Rightarrow> JsonRecord \<Rightarrow> EventFields" where
  "tool_event t i c p \<equiv>
     \<lparr>f_type = t, f_itemId = Some i, f_toolCallId = Some c, f_approvalId = None, f_payload = p\<rparr>"

abbreviation approval_event :: "LifecycleEventType \<Rightarrow> string \<Rightarrow> string \<Rightarrow> JsonRecord \<Rightarrow> EventFields" where
  "approval_event t i a p \<equiv>
     \<lparr>f_type = t, f_itemId = Some i, f_toolCallId = None, f_approvalId = Some a, f_payload = p\<rparr>"

section \<open>Creating and emitting events\<close>

definition raw_event :: "'st lc_options \<Rightarrow> EventFields \<Rightarrow> nat \<Rightarrow> string \<Rightarrow> string \<Rightarrow> LifecycleEvent" where
  "raw_event env fs seq eid now =
     \<lparr>eventId = eid, threadId = opt_threadId env, turnId = opt_turnId env,
      runAttemptId = opt_runAttemptId env, sequence = seq,
      idempotencyKey =
        opt_turnId env @ '':'' @ string_of_nat seq @ '':'' @ event_type_name (f_type fs),
      producerId = opt_producerId env, schemaVersion = LIFECYCLE_SCHEMA_VERSION, createdAt = now,
      etype = f_type fs, itemId = f_itemId fs, toolCallId = f_toolCallId fs,
      approvalId = f_approvalId fs, payload = f_payload fs\<rparr>"

definition createEvent :: "'st lc_options \<Rightarrow> EventFields \<Rightarrow> nat \<Rightarrow> ('st, LifecycleEvent) lc_op" where
  "createEvent env fs offset s =
     (let seq = lc_sequence s + offset in
      case opt_parseEventId env (''evt_'' @ drop 4 (opt_turnId env) @ ''_'' @ string_of_nat seq) of
        None \<Rightarrow> (Inl ZodError, s)
      | Some eid \<Rightarrow>
          (let s' = s\<lparr>lc_clock := lc_clock s + 1\<rparr> in
           case opt_parseEvent env (raw_event env fs seq eid (opt_now env (lc_clock s))) of
             None \<Rightarrow> (Inl ZodError, s')
           | Some ev \<Rightarrow> (Inr ev, s')))"

definition call_sink :: "'st lc_options \<Rightarrow> LifecycleEvent list \<Rightarrow> ('st, LifecycleEvent list) lc_op" where
  "call_sink env evs s =
     (case opt_appendBatch env evs (lc_sink s) of (r, k) \<Rightarrow> (r, s\<lparr>lc_sink := k\<rparr>))"

definition emit :: "'st lc_options \<Rightarrow> EventFields \<Rightarrow> ('st, unit) lc_op" where
  "emit env fs =
     bindE (getE lc_status) (\<lambda>status.
     bindE (liftE (assertTurnAcceptsLifecycleEvent status (f_type fs))) (\<lambda>_.
     bindE (createEvent env fs 1) (\<lambda>ev.
     bindE (call_sink env [ev]) (\<lambda>_.
     modifyE (\<lambda>s. s\<lparr>lc_sequence := sequence ev\<rparr>)))))"

definition MAX_LIFECYCLE_OUTPUT_LENGTH :: nat where
  "MAX_LIFECYCLE_OUTPUT_LENGTH = 4000"

text \<open>\<open>chunks_from\<close> is the loop of \<open>splitLifecycleOutput\<close> from an offset on.\<close>

function chunks_from :: "string \<Rightarrow> nat \<Rightarrow> string list" where
  "chunks_from output offset =
     (if offset < length output
      then take MAX_LIFECYCLE_OUTPUT_LENGTH (drop offset output)
             # chunks_from output (offset + MAX_LIFECYCLE_OUTPUT_LENGTH)
      else [])"
  by pat_completeness auto
termination
  by (relation "measure (\<lambda>(output, offset). length output - offset)")
    (auto simp: MAX_LIFECYCLE_OUTPUT_LENGTH_def)

declare chunks_from.simps [simp del]

definition splitLifecycleOutput :: "string \<Rightarrow> string list" where
  "splitLifecycleOutput output = (if output = [] then [[]] else chunks_from output 0)"

section \<open>Items, tool calls and approvals\<close>

definition item_status :: "'st lc_state \<Rightarrow> string \<Rightarrow> ItemStatus" where
  "item_status s i = (case map_of (lc_itemStatuses s) i of None \<Rightarrow> Is_not_started | Some st \<Rightarrow> st)"

definition set_item :: "string \<Rightarrow> ItemStatus \<Rightarrow> 'st lc_state \<Rightarrow> 'st lc_state" where
  "set_item i st s = s\<lparr>lc_itemStatuses := AList.update i st (lc_itemStatuses s)\<rparr>"

definition set_tool_call :: "string \<Rightarrow> ToolCallStatus \<Rightarrow> 'st lc_state \<Rightarrow> 'st lc_state" where
  "set_tool_call c st s = s\<lparr>lc_toolCallStatuses := AList.update c st (lc_toolCallStatuses s)\<rparr>"

definition set_approval :: "string \<Rightarrow> ApprovalStatus \<Rightarrow> 'st lc_state \<Rightarrow> 'st lc_state" where
  "set_approval a st s = s\<lparr>lc_approvalStatuses := AList.update a st (lc_approvalStatuses s)\<rparr>"

definition startItem :: "'st lc_options \<Rightarrow> string \<Rightarrow> ItemKind \<Rightarrow> JsonRecord \<Rightarrow> ('st, unit) lc_op" where
  "startItem env i kind p =
     bindE (liftE (transitionItemStatus Is_not_started Is_active)) (\<lambda>nxt. block [
       emit env (item_event E_item_started i (AList.update ''kind'' (PKind kind) p)),
       modifyE (set_item i nxt)])"

text \<open>The suffix of \<open>item.${status}\<close> and \<open>tool_call.${status}\<close>; only settled statuses are passed.\<close>

primrec item_settled_event :: "ItemStatus \<Rightarrow> LifecycleEventType" where
  "item_settled_event Is_not_started = E_item_started"
| "item_settled_event Is_active = E_item_started"
| "item_settled_event Is_completed = E_item_completed"
| "item_settled_event Is_failed = E_item_failed"
| "item_settled_event Is_declined = E_item_declined"
| "item_settled_event Is_interrupted = E_item_interrupted"

primrec tool_call_settled_event :: "ItemStatus \<Rightarrow> LifecycleEventType" where
  "tool_call_settled_event Is_not_started = E_tool_call_started"
| "tool_call_settled_event Is_active = E_tool_call_started"
| "tool_call_settled_event Is_completed = E_tool_call_completed"
| "tool_call_settled_event Is_failed = E_tool_call_failed"
| "tool_call_settled_event Is_declined = E_tool_call_declined"
| "tool_call_settled_event Is_interrupted = E_tool_call_interrupted"

definition settleItem :: "'st lc_options \<Rightarrow> string \<Rightarrow> ItemStatus \<Rightarrow> JsonRecord \<Rightarrow> ('st, unit) lc_op" where
  "settleItem env i status p =
     bindE (getE (\<lambda>s. item_status s i)) (\<lambda>current.
     bindE (liftE (transitionItemStatus current status)) (\<lambda>nxt. block [
       emit env (item_event (item_settled_event status) i p),
       modifyE (set_item i nxt)]))"

definition requireActiveToolCall :: "string \<Rightarrow> ('st, ToolCallStatus) lc_op" where
  "requireActiveToolCall c =
     bindE (getE (\<lambda>s. case map_of (lc_toolCallStatuses s) c of None \<Rightarrow> Is_not_started | Some st \<Rightarrow> st)) (\<lambda>status.
     if status \<noteq> Is_active
     then bindE (liftE (transitionToolCallStatus status Is_completed)) (\<lambda>_. returnE Is_active)
     else returnE Is_active)"

definition requireToolCallItem :: "string \<Rightarrow> ('st, string) lc_op" where
  "requireToolCallItem c =
     bindE (getE (\<lambda>s. map_of (lc_toolCallItems s) c)) (\<lambda>i.
     if truthy i then returnE (the i)
     else throwE (LifecycleTransitionError Sub_tool_call ''missing'' ''active''
                    (''tool call '' @ c @ '' has no owning item'')))"

definition requireApprovalItem :: "string \<Rightarrow> ('st, string) lc_op" where
  "requireApprovalItem a =
     bindE (getE (\<lambda>s. map_of (lc_approvalItems s) a)) (\<lambda>i.
     if truthy i then returnE (the i)
     else throwE (LifecycleTransitionError Sub_approval ''missing'' ''decided''
                    (''approval '' @ a @ '' has no owning item'')))"

text \<open>\<open>{ ...base, ...extra }\<close>\<close>

definition spread :: "JsonRecord \<Rightarrow> JsonRecord \<Rightarrow> JsonRecord" where
  "spread base extra = fold (\<lambda>(k, v) r. AList.update k v r) extra base"

definition optional_entry :: "string \<Rightarrow> string option \<Rightarrow> JsonRecord" where
  "optional_entry k v = (if truthy v then [(k, PStr (the v))] else [])"

definition settleToolCall :: "'st lc_options \<Rightarrow> string \<Rightarrow> ToolCallStatus \<Rightarrow> JsonRecord \<Rightarrow> ('st, unit) lc_op" where
  "settleToolCall env c status p =
     bindE (requireActiveToolCall c) (\<lambda>current.
     bindE (liftE (transitionToolCallStatus current status)) (\<lambda>nxt.
     bindE (requireToolCallItem c) (\<lambda>i.
     bindE (getE (\<lambda>s. optional_entry ''toolName'' (map_of (lc_toolCallNames s) c) @
                      optional_entry ''callBatchId'' (map_of (lc_toolCallBatches s) c))) (\<lambda>metadata.
     block [
       emit env (tool_event (tool_call_settled_event status) i c (spread p metadata)),
       modifyE (set_tool_call c nxt),
       settleItem env i status p]))))"

definition changeBlocking :: "'st lc_options \<Rightarrow> TurnBlockingState \<Rightarrow> ('st, unit) lc_op" where
  "changeBlocking env blocking = block [
     emit env (turn_event E_turn_blocking_changed [(''blockingState'', PBlocking blocking)]),
     bindE (getE lc_status) (\<lambda>status.
       if blocking_kind blocking = ''waiting_for_approval''
       then bindE (liftE (transitionTurnStatus status Ts_awaiting_approval)) (\<lambda>nxt.
              modifyE (\<lambda>s. s\<lparr>lc_status := nxt\<rparr>))
       else whenE (status = Ts_awaiting_approval)
              (bindE (liftE (transitionTurnStatus status Ts_in_progress)) (\<lambda>nxt.
                modifyE (\<lambda>s. s\<lparr>lc_status := nxt\<rparr>)))),
     modifyE (\<lambda>s. s\<lparr>lc_blockingState := blocking\<rparr>)]"

definition requestApproval ::
  "'st lc_options \<Rightarrow> string \<Rightarrow> string \<Rightarrow> string \<Rightarrow> JsonRecord \<Rightarrow> ('st, unit) lc_op" where
  "requestApproval env parentItemId a i p = block [
     startItem env i Kind_approval_request [(''parentItemId'', PStr parentItemId)],
     emit env (approval_event E_approval_requested i a p),
     modifyE (set_approval a Ap_pending),
     modifyE (\<lambda>s. s\<lparr>lc_approvalItems := AList.update a i (lc_approvalItems s)\<rparr>),
     changeBlocking env (Waiting_for_approval i a)]"

definition decideApproval ::
  "'st lc_options \<Rightarrow> string \<Rightarrow> ApprovalStatus \<Rightarrow> JsonRecord \<Rightarrow> ('st, unit) lc_op" where
  "decideApproval env a status p =
     bindE (getE (\<lambda>s. case map_of (lc_approvalStatuses s) a of None \<Rightarrow> Ap_pending | Some st \<Rightarrow> st)) (\<lambda>current.
     bindE (liftE (transitionApprovalStatus current status)) (\<lambda>nxt.
     bindE (requireApprovalItem a) (\<lambda>i0. block [
       emit env (approval_event E_approval_decided i0 a (AList.update ''status'' (PApproval status) p)),
       modifyE (set_approval a nxt),
       changeBlocking env Blocking_none,
       bindE (requireApprovalItem a) (\<lambda>i.
         settleItem env i (if status = Ap_approved then Is_completed else Is_declined)
           (if status = Ap_approved then [(''result'', PObj [])]
            else [(''reason'', PStr (''Approval '' @ approval_status_name status))]))])))"

section \<open>Settling the turn\<close>

text \<open>The loop of two attempts, with the failure of the last one.\<close>

definition appendTerminalBatch ::
  "'st lc_options \<Rightarrow> LifecycleEvent list \<Rightarrow> TurnTerminalStatus \<Rightarrow> ('st, unit) lc_op" where
  "appendTerminalBatch env evs intended =
     catchE (bindE (call_sink env evs) (\<lambda>_. returnE ()))
       (\<lambda>_. catchE (bindE (call_sink env evs) (\<lambda>_. returnE ()))
         (\<lambda>failure. throwE (RuntimeLifecycleSettlementError intended failure)))"

primrec attempt_of_terminal :: "TurnTerminalStatus \<Rightarrow> RunAttemptStatus" where
  "attempt_of_terminal Tt_completed = Ra_succeeded"
| "attempt_of_terminal Tt_interrupted = Ra_interrupted"
| "attempt_of_terminal Tt_failed = Ra_failed"

primrec attempt_terminal_event :: "TurnTerminalStatus \<Rightarrow> LifecycleEventType" where
  "attempt_terminal_event Tt_completed = E_run_attempt_succeeded"
| "attempt_terminal_event Tt_interrupted = E_run_attempt_interrupted"
| "attempt_terminal_event Tt_failed = E_run_attempt_failed"

primrec turn_terminal_event :: "TurnTerminalStatus \<Rightarrow> LifecycleEventType" where
  "turn_terminal_event Tt_completed = E_turn_completed"
| "turn_terminal_event Tt_interrupted = E_turn_interrupted"
| "turn_terminal_event Tt_failed = E_turn_failed"

primrec attempt_payload :: "TurnTerminalOutcome \<Rightarrow> JsonRecord" where
  "attempt_payload Outcome_completed = []"
| "attempt_payload (Outcome_interrupted r) = []"
| "attempt_payload (Outcome_failed e) = [(''failure'', failure_value e)]"

definition settleTurn :: "'st lc_options \<Rightarrow> TurnTerminalOutcome \<Rightarrow> ('st, unit) lc_op" where
  "settleTurn env outcome =
     bindE (getE id) (\<lambda>s.
     if isTerminal s then returnE ()
     else
       let st = outcome_status outcome in
       bindE (liftE (transitionTurnStatus (lc_status s) (turn_of_terminal st))) (\<lambda>nextTurn.
       bindE (liftE (transitionRunAttemptStatus (lc_runAttemptStatus s) (attempt_of_terminal st))) (\<lambda>nextAttempt.
       bindE (liftE (validateTerminalSettlement
                \<lparr>ts_turnStatus = nextTurn, ts_terminalOutcome = Some outcome,
                 ts_blockingState = lc_blockingState s, ts_itemStatuses = lc_itemStatuses s,
                 ts_approvalStatuses = lc_approvalStatuses s\<rparr>)) (\<lambda>_.
       bindE (createEvent env (turn_event (attempt_terminal_event st) (attempt_payload outcome)) 1) (\<lambda>ev1.
       bindE (createEvent env (turn_event (turn_terminal_event st) [(''outcome'', outcome_value outcome)]) 2) (\<lambda>ev2.
       bindE (appendTerminalBatch env [ev1, ev2] st) (\<lambda>_.
       modifyE (\<lambda>s. s\<lparr>lc_sequence := lc_sequence s + 2, lc_runAttemptStatus := nextAttempt,
                       lc_status := nextTurn\<rparr>))))))))"

definition settleOpenWork :: "'st lc_options \<Rightarrow> ItemStatus \<Rightarrow> JsonRecord \<Rightarrow> ('st, unit) lc_op" where
  "settleOpenWork env status p = block [
     bindE (getE lc_toolCallStatuses) (\<lambda>calls.
       forE calls (\<lambda>(c, current). whenE (current = Is_active) (settleToolCall env c status p))),
     bindE (getE lc_itemStatuses) (\<lambda>items.
       forE items (\<lambda>(i, current). whenE (current = Is_active) (settleItem env i status p)))]"

definition cancelPendingApprovals :: "'st lc_options \<Rightarrow> string \<Rightarrow> ('st, unit) lc_op" where
  "cancelPendingApprovals env reason =
     bindE (getE lc_approvalStatuses) (\<lambda>approvals.
       forE approvals (\<lambda>(a, status).
         whenE (status = Ap_pending) (decideApproval env a Ap_cancelled [(''reason'', PStr reason)])))"

definition fail :: "'st lc_options \<Rightarrow> ProtocolError \<Rightarrow> ('st, unit) lc_op" where
  "fail env failure = block [
     cancelPendingApprovals env ''Turn failed before approval resolution'',
     settleOpenWork env Is_failed [(''failure'', failure_value failure)],
     settleTurn env (Outcome_failed failure)]"

definition interrupt :: "'st lc_options \<Rightarrow> string \<Rightarrow> ('st, unit) lc_op" where
  "interrupt env reason = block [
     cancelPendingApprovals env reason,
     settleOpenWork env Is_interrupted [(''reason'', PStr reason)],
     settleTurn env (Outcome_interrupted reason)]"

definition complete :: "'st lc_options \<Rightarrow> string \<Rightarrow> string \<Rightarrow> ('st, unit) lc_op" where
  "complete env output i = block [
     startItem env i Kind_assistant_message [],
     forE (splitLifecycleOutput output) (\<lambda>delta.
       emit env (item_event E_assistant_message_delta i
         [(''phase'', PStr ''final_answer''), (''delta'', PStr delta)])),
     settleItem env i Is_completed [(''result'', PObj [(''output'', PStr output)])],
     settleTurn env Outcome_completed]"

section \<open>The other operations\<close>

definition start :: "'st lc_options \<Rightarrow> ('st, LifecycleEvent \<times> LifecycleEvent) lc_op" where
  "start env =
     bindE (getE id) (\<lambda>s.
     if lc_accepted s
     then throwE (LifecycleTransitionError Sub_turn (turn_status_name (lc_status s)) ''turn.started''
                    ''runtime lifecycle already started'')
     else
       bindE (liftE (transitionTurnStatus (lc_status s) Ts_in_progress)) (\<lambda>nextTurn.
       bindE (liftE (transitionRunAttemptStatus (lc_runAttemptStatus s) Ra_running)) (\<lambda>nextAttempt.
       bindE (createEvent env (turn_event E_turn_queued []) 1) (\<lambda>ev1.
       bindE (createEvent env (turn_event E_turn_started
                (optional_entry ''revisionOfTurnId'' (opt_revisionOfTurnId env) @
                 optional_entry ''continuationOfTurnId'' (opt_continuationOfTurnId env) @
                 optional_entry ''originalPromptId'' (opt_originalPromptId env))) 2) (\<lambda>ev2.
       bindE (createEvent env (turn_event E_run_attempt_started
                (optional_entry ''executionCapability'' (opt_executionCapability env))) 3) (\<lambda>ev3.
       bindE (call_sink env [ev1, ev2, ev3]) (\<lambda>_.
       bindE (modifyE (\<lambda>s. s\<lparr>lc_sequence := lc_sequence s + 3, lc_accepted := True,
                              lc_status := nextTurn, lc_runAttemptStatus := nextAttempt\<rparr>)) (\<lambda>_.
       returnE (ev2, ev3)))))))))"

definition startToolCall ::
  "'st lc_options \<Rightarrow> string \<Rightarrow> string \<Rightarrow> string \<Rightarrow> JsonRecord \<Rightarrow> string option \<Rightarrow> pval option \<Rightarrow> ('st, unit) lc_op" where
  "startToolCall env i c toolName inp callBatchId display =
     (let shown = (case display of None \<Rightarrow> [] | Some d \<Rightarrow> [(''display'', d)]) in block [
     startItem env i Kind_tool_call shown,
     bindE (liftE (transitionToolCallStatus Is_not_started Is_active)) (\<lambda>nxt. block [
       emit env (tool_event E_tool_call_started i c
         ([(''toolName'', PStr toolName)] @ optional_entry ''callBatchId'' callBatchId @ shown)),
       modifyE (set_tool_call c nxt)]),
     modifyE (\<lambda>s. s\<lparr>lc_toolCallNames := AList.update c toolName (lc_toolCallNames s)\<rparr>),
     whenE (truthy callBatchId)
       (modifyE (\<lambda>s. s\<lparr>lc_toolCallBatches := AList.update c (the callBatchId) (lc_toolCallBatches s)\<rparr>)),
     modifyE (\<lambda>s. s\<lparr>lc_toolCallItems := AList.update c i (lc_toolCallItems s)\<rparr>),
     emit env (tool_event E_tool_call_input_delta i c [(''input'', PObj inp)])])"

definition appendAssistantCommentary :: "'st lc_options \<Rightarrow> string \<Rightarrow> string \<Rightarrow> ('st, unit) lc_op" where
  "appendAssistantCommentary env i txt =
     (if trim txt = [] then returnE () else block [
       startItem env i Kind_commentary [],
       forE (splitLifecycleOutput txt) (\<lambda>delta.
         emit env (item_event E_assistant_message_delta i
           [(''phase'', PStr ''commentary''), (''delta'', PStr delta)])),
       settleItem env i Is_completed [(''result'', PObj [])]])"

definition appendAssistantReasoning :: "'st lc_options \<Rightarrow> string \<Rightarrow> string \<Rightarrow> bool \<Rightarrow> ('st, unit) lc_op" where
  "appendAssistantReasoning env i txt displaySafe =
     (if \<not> displaySafe \<or> trim txt = [] then returnE () else block [
       startItem env i Kind_reasoning [],
       forE (splitLifecycleOutput txt) (\<lambda>delta.
         emit env (item_event E_reasoning_summary_delta i
           [(''delta'', PStr delta), (''displaySafe'', PBool True)])),
       settleItem env i Is_completed [(''result'', PObj [])]])"

definition appendToolOutput :: "'st lc_options \<Rightarrow> string \<Rightarrow> string \<Rightarrow> ('st, unit) lc_op" where
  "appendToolOutput env c output =
     bindE (requireActiveToolCall c) (\<lambda>_.
     bindE (requireToolCallItem c) (\<lambda>i.
     emit env (tool_event E_tool_call_output_delta i c
       [(''output'', PStr (take MAX_LIFECYCLE_OUTPUT_LENGTH output))])))"

definition createArtifact :: "'st lc_options \<Rightarrow> string \<Rightarrow> pval \<Rightarrow> ('st, unit) lc_op" where
  "createArtifact env i artifact =
     bindE (liftE (JsonRecordSchema_parse artifact)) (\<lambda>v.
     emit env (item_event E_artifact_created i [(''artifact'', v)]))"

definition captureWorkspaceSnapshot :: "'st lc_options \<Rightarrow> pval \<Rightarrow> ('st, unit) lc_op" where
  "captureWorkspaceSnapshot env snapshot =
     bindE (liftE (JsonRecordSchema_parse snapshot)) (\<lambda>v.
     emit env (turn_event E_workspace_snapshot_captured [(''snapshot'', v)]))"

definition markWorkspaceSnapshotUnavailable :: "'st lc_options \<Rightarrow> string \<Rightarrow> ('st, unit) lc_op" where
  "markWorkspaceSnapshotUnavailable env reason =
     emit env (turn_event E_workspace_snapshot_unavailable [(''reason'', PStr reason)])"

definition RUNTIME_HOOK_AUDIT_EVENT_TYPES :: "LifecycleEventType list" where
  "RUNTIME_HOOK_AUDIT_EVENT_TYPES =
     [E_hook_invocation_started, E_hook_invocation_completed, E_hook_invocation_failed,
      E_hook_invocation_timed_out, E_hook_invocation_cancelled]"

definition record_entries :: "pval \<Rightarrow> JsonRecord" where
  "record_entries v = (case v of PObj kvs \<Rightarrow> kvs | _ \<Rightarrow> [])"

definition appendHookAudit :: "'st lc_options \<Rightarrow> LifecycleEventType \<Rightarrow> JsonRecord \<Rightarrow> ('st, unit) lc_op" where
  "appendHookAudit env eventType p =
     (if eventType \<notin> set RUNTIME_HOOK_AUDIT_EVENT_TYPES
      then throwE (PlainError ''Unsupported runtime hook audit event type.'')
      else bindE (liftE (JsonRecordSchema_parse (PObj p))) (\<lambda>v.
        emit env (turn_event eventType (record_entries v))))"

definition createTurnArtifact :: "'st lc_options \<Rightarrow> pval \<Rightarrow> ('st, unit) lc_op" where
  "createTurnArtifact env artifact =
     bindE (liftE (JsonRecordSchema_parse artifact)) (\<lambda>v.
     emit env (turn_event E_artifact_created [(''artifact'', v)]))"

definition updateTurnDiff :: "'st lc_options \<Rightarrow> pval \<Rightarrow> ('st, unit) lc_op" where
  "updateTurnDiff env diff =
     bindE (liftE (JsonRecordSchema_parse diff)) (\<lambda>v.
     emit env (turn_event E_turn_diff_updated [(''diff'', v)]))"

definition updateContextBudget :: "'st lc_options \<Rightarrow> pval \<Rightarrow> ('st, unit) lc_op" where
  "updateContextBudget env snapshot =
     emit env (turn_event E_context_budget_updated [(''snapshot'', snapshot)])"

definition updateUsage :: "'st lc_options \<Rightarrow> pval \<Rightarrow> ('st, unit) lc_op" where
  "updateUsage env usage = emit env (turn_event E_usage_updated [(''usage'', usage)])"

record ContextCompactionPayload =
  cc_compactionId :: string
  cc_itemId :: string
  cc_mode :: string
  cc_phase :: string
  cc_preservedContextReference :: "string option"
  cc_summary :: "string option"
  cc_error :: "string option"

definition nullable :: "string option \<Rightarrow> pval" where
  "nullable v = (case v of None \<Rightarrow> PNull | Some x \<Rightarrow> PStr x)"

definition compaction_json :: "ContextCompactionPayload \<Rightarrow> JsonRecord" where
  "compaction_json p =
     [(''compactionId'', PStr (cc_compactionId p)), (''itemId'', PStr (cc_itemId p)),
      (''mode'', PStr (cc_mode p)), (''phase'', PStr (cc_phase p)),
      (''preservedContextReference'', nullable (cc_preservedContextReference p)),
      (''summary'', nullable (cc_summary p)), (''error'', nullable (cc_error p))]"

definition requestContextCompaction :: "'st lc_options \<Rightarrow> ContextCompactionPayload \<Rightarrow> ('st, unit) lc_op" where
  "requestContextCompaction env p = block [
     startItem env (cc_itemId p) Kind_context_compaction
       [(''kind'', PStr ''context_compaction''), (''mode'', PStr (cc_mode p))],
     emit env (item_event E_context_compaction_requested (cc_itemId p)
       (compaction_json (p\<lparr>cc_phase := ''requested''\<rparr>))),
     emit env (item_event E_context_compaction_started (cc_itemId p)
       (compaction_json (p\<lparr>cc_phase := ''compacting''\<rparr>)))]"

definition settleContextCompaction :: "'st lc_options \<Rightarrow> ContextCompactionPayload \<Rightarrow> ('st, unit) lc_op" where
  "settleContextCompaction env p =
     (if cc_phase p = ''failed'' then block [
        emit env (item_event E_context_compaction_failed (cc_itemId p) (compaction_json p)),
        settleItem env (cc_itemId p) Is_failed
          [(''reason'', PStr (case cc_error p of None \<Rightarrow> ''Context compaction failed'' | Some e \<Rightarrow> e))]]
      else block [
        emit env (item_event E_context_compaction_completed (cc_itemId p) (compaction_json p)),
        settleItem env (cc_itemId p) Is_completed
          [(''result'', PObj [(''preservedContextReference'', nullable (cc_preservedContextReference p))])]])"

definition completeToolCall :: "'st lc_options \<Rightarrow> string \<Rightarrow> JsonRecord \<Rightarrow> ('st, unit) lc_op" where
  "completeToolCall env c result = settleToolCall env c Is_completed [(''result'', PObj result)]"

definition failToolCall :: "'st lc_options \<Rightarrow> string \<Rightarrow> ProtocolError \<Rightarrow> ('st, unit) lc_op" where
  "failToolCall env c failure = settleToolCall env c Is_failed [(''failure'', failure_value failure)]"

definition declineToolCall :: "'st lc_options \<Rightarrow> string \<Rightarrow> string \<Rightarrow> ('st, unit) lc_op" where
  "declineToolCall env c reason = settleToolCall env c Is_declined [(''reason'', PStr reason)]"

record ThreadInput =
  ti_inputId :: string
  ti_clientInputId :: string
  ti_transcriptMessageId :: string

text \<open>\<open>afterAppend\<close> is the caller's callback: it does not touch the coordinator and may throw.\<close>

definition acceptThreadInput ::
  "'st lc_options \<Rightarrow> ThreadInput \<Rightarrow> (nat \<Rightarrow> js_error + unit) \<Rightarrow> ('st, nat) lc_op" where
  "acceptThreadInput env inp afterAppend =
     bindE (getE id) (\<lambda>s.
     case map_of (lc_acceptedInputSequences s) (ti_inputId inp) of
       Some existing \<Rightarrow> returnE existing
     | None \<Rightarrow>
         if lc_completionReserved s \<or> isTerminal s
         then throwE (LifecycleTransitionError Sub_turn (turn_status_name (lc_status s))
                        ''turn.input.accepted'' ''the turn is already settling'')
         else
           bindE (emit env (turn_event E_turn_input_accepted
                    [(''inputId'', PStr (ti_inputId inp)),
                     (''clientInputId'', PStr (ti_clientInputId inp)),
                     (''transcriptMessageId'', PStr (ti_transcriptMessageId inp))])) (\<lambda>_.
           bindE (getE lc_sequence) (\<lambda>seq.
           bindE (modifyE (\<lambda>s. s\<lparr>lc_acceptedInputSequences :=
                    AList.update (ti_inputId inp) seq (lc_acceptedInputSequences s)\<rparr>)) (\<lambda>_.
           bindE (liftE (afterAppend seq)) (\<lambda>_.
           returnE seq)))))"

definition reserveCompletion :: "bool \<Rightarrow> ('st, bool) lc_op" where
  "reserveCompletion hasPendingInputs =
     bindE (getE id) (\<lambda>s.
     if isTerminal s \<or> lc_completionReserved s \<or> hasPendingInputs then returnE False
     else bindE (modifyE (\<lambda>s. s\<lparr>lc_completionReserved := True\<rparr>)) (\<lambda>_. returnE True))"

definition applyThreadInput :: "'st lc_options \<Rightarrow> string \<Rightarrow> nat \<Rightarrow> nat \<Rightarrow> nat \<Rightarrow> ('st, nat) lc_op" where
  "applyThreadInput env inputId acceptedSequence modelStep contextRevision =
     bindE (emit env (turn_event E_turn_input_applied
              [(''inputId'', PStr inputId), (''acceptedSequence'', PNum (of_nat acceptedSequence)),
               (''modelStep'', PNum (of_nat modelStep)),
               (''contextRevision'', PNum (of_nat contextRevision))])) (\<lambda>_.
     getE lc_sequence)"

section \<open>The coordinator as a machine\<close>

text \<open>
  The public operations as commands. \<open>lc_exec\<close> runs one and drops its return value; a queue of
  operations is a list of commands, run one after the other whether or not they throw
  (\<open>operationQueue.then(operation, operation)\<close>).
\<close>

datatype (plugins only: code size) lc_command =
    Start
  | StartToolCall string string string JsonRecord "string option" "pval option"
  | AppendAssistantCommentary string string
  | AppendAssistantReasoning string string bool
  | AppendToolOutput string string
  | CreateArtifact string pval
  | CaptureWorkspaceSnapshot pval
  | MarkWorkspaceSnapshotUnavailable string
  | AppendHookAudit LifecycleEventType JsonRecord
  | CreateTurnArtifact pval
  | UpdateTurnDiff pval
  | UpdateContextBudget pval
  | UpdateUsage pval
  | RequestContextCompaction ContextCompactionPayload
  | SettleContextCompaction ContextCompactionPayload
  | CompleteToolCall string JsonRecord
  | FailToolCall string ProtocolError
  | DeclineToolCall string string
  | RequestApproval string string string JsonRecord
  | DecideApproval string ApprovalStatus JsonRecord
  | Complete string string
  | AcceptThreadInput ThreadInput "nat \<Rightarrow> js_error + unit"
  | ReserveCompletion bool
  | ApplyThreadInput string nat nat nat
  | Fail ProtocolError
  | Interrupt string

definition voidE :: "('s, 'e, 'a) op \<Rightarrow> ('s, 'e, unit) op" where
  "voidE m = bindE m (\<lambda>_. returnE ())"

primrec lc_exec :: "'st lc_options \<Rightarrow> lc_command \<Rightarrow> ('st, unit) lc_op" where
  "lc_exec env Start = voidE (start env)"
| "lc_exec env (StartToolCall i c n p b d) = startToolCall env i c n p b d"
| "lc_exec env (AppendAssistantCommentary i x) = appendAssistantCommentary env i x"
| "lc_exec env (AppendAssistantReasoning i x ds) = appendAssistantReasoning env i x ds"
| "lc_exec env (AppendToolOutput c x) = appendToolOutput env c x"
| "lc_exec env (CreateArtifact i v) = createArtifact env i v"
| "lc_exec env (CaptureWorkspaceSnapshot v) = captureWorkspaceSnapshot env v"
| "lc_exec env (MarkWorkspaceSnapshotUnavailable r) = markWorkspaceSnapshotUnavailable env r"
| "lc_exec env (AppendHookAudit t p) = appendHookAudit env t p"
| "lc_exec env (CreateTurnArtifact v) = createTurnArtifact env v"
| "lc_exec env (UpdateTurnDiff v) = updateTurnDiff env v"
| "lc_exec env (UpdateContextBudget v) = updateContextBudget env v"
| "lc_exec env (UpdateUsage v) = updateUsage env v"
| "lc_exec env (RequestContextCompaction p) = requestContextCompaction env p"
| "lc_exec env (SettleContextCompaction p) = settleContextCompaction env p"
| "lc_exec env (CompleteToolCall c r) = completeToolCall env c r"
| "lc_exec env (FailToolCall c f) = failToolCall env c f"
| "lc_exec env (DeclineToolCall c r) = declineToolCall env c r"
| "lc_exec env (RequestApproval par a i p) = requestApproval env par a i p"
| "lc_exec env (DecideApproval a st p) = decideApproval env a st p"
| "lc_exec env (Complete x i) = complete env x i"
| "lc_exec env (AcceptThreadInput inp f) = voidE (acceptThreadInput env inp f)"
| "lc_exec env (ReserveCompletion b) = voidE (reserveCompletion b)"
| "lc_exec env (ApplyThreadInput i a m r) = voidE (applyThreadInput env i a m r)"
| "lc_exec env (Fail f) = fail env f"
| "lc_exec env (Interrupt r) = interrupt env r"

definition lc_run :: "'st lc_options \<Rightarrow> lc_command list \<Rightarrow> 'st lc_state \<Rightarrow> 'st lc_state" where
  "lc_run env cs s = fold (\<lambda>c s. snd (lc_exec env c s)) cs s"

lemma lc_run_simps [simp]:
  "lc_run env [] s = s"
  "lc_run env (c # cs) s = lc_run env cs (snd (lc_exec env c s))"
  by (simp_all add: lc_run_def)

lemma lc_run_inv:
  assumes "\<And>c. keeps P (lc_exec env c)" and "P s"
  shows "P (lc_run env cs s)"
  using assms(2) by (induction cs arbitrary: s) (auto intro: keepsD [OF assms(1)])

section \<open>A settled turn is final\<close>

text \<open>
  \<open>frozen\<close>: in a terminal state the operation changes nothing. \<open>stuck\<close>: in a terminal state it
  throws and changes nothing.
\<close>

definition frozen :: "('st, 'a) lc_op \<Rightarrow> bool" where
  "frozen m \<longleftrightarrow> (\<forall>s. isTerminal s \<longrightarrow> snd (m s) = s)"

definition stuck :: "('st, 'a) lc_op \<Rightarrow> bool" where
  "stuck m \<longleftrightarrow> (\<forall>s. isTerminal s \<longrightarrow> (\<exists>e. m s = (Inl e, s)))"

named_theorems frozen_rules \<open>operations that leave a terminal state alone\<close>

lemma stuck_frozen: "stuck m \<Longrightarrow> frozen m"
  by (force simp: stuck_def frozen_def)

lemma frozen_basic [frozen_rules]:
  "frozen (returnE x)" "frozen (throwE e)" "frozen (liftE r)" "frozen (getE f)"
  by (simp_all add: frozen_def op_defs)

lemma frozen_bind [frozen_rules]:
  assumes "frozen m" and "\<And>x. frozen (f x)"
  shows "frozen (bindE m f)"
  unfolding frozen_def
proof (intro allI impI)
  fix s :: "'a lc_state"
  assume t: "isTerminal s"
  then have "snd (m s) = s" using assms(1) by (simp add: frozen_def)
  then obtain r where "m s = (r, s)" by (metis prod.collapse)
  with t assms(2) show "snd (bindE m f s) = s"
    by (cases r) (simp_all add: bindE_def frozen_def)
qed

lemma stuck_bind [frozen_rules]: "stuck m \<Longrightarrow> stuck (bindE m f)"
  by (force simp: stuck_def bindE_def)

lemma stuck_bind_after:
  assumes "frozen m" and "\<And>x. stuck (f x)"
  shows "stuck (bindE m f)"
  unfolding stuck_def
proof (intro allI impI)
  fix s :: "'a lc_state"
  assume t: "isTerminal s"
  then have "snd (m s) = s" using assms(1) by (simp add: frozen_def)
  then obtain r where "m s = (r, s)" by (metis prod.collapse)
  with t assms(2) show "\<exists>e. bindE m f s = (Inl e, s)"
    by (cases r) (simp_all add: bindE_def stuck_def)
qed

lemma stuck_block: "stuck m \<Longrightarrow> stuck (block (m # ms))"
  by (simp add: stuck_bind)

lemma stuck_if: "stuck m \<Longrightarrow> stuck n \<Longrightarrow> stuck (if b then m else n)"
  by simp

lemma frozen_if: "frozen m \<Longrightarrow> frozen n \<Longrightarrow> frozen (if b then m else n)"
  by simp

lemma frozen_when: "frozen m \<Longrightarrow> frozen (whenE b m)"
  by (simp add: whenE_def frozen_basic)

lemma frozen_block_Cons: "frozen m \<Longrightarrow> frozen (block ms) \<Longrightarrow> frozen (block (m # ms))"
  by (simp add: frozen_bind)

lemma frozen_block_Nil: "frozen (block [])"
  by (simp add: frozen_basic)

lemma frozen_for: "(\<And>x. frozen (f x)) \<Longrightarrow> frozen (forE xs f)"
  by (induction xs) (simp_all add: frozen_basic frozen_bind)

lemma stuck_emit: "stuck (emit env f)"
  by (auto simp: stuck_def emit_def isTerminal_def assertTurnAcceptsLifecycleEvent_def op_defs)

lemma stuck_startItem: "stuck (startItem env i kind p)"
  unfolding startItem_def by (intro stuck_bind_after frozen_basic stuck_block stuck_emit)

lemma stuck_settleItem: "stuck (settleItem env i st p)"
  unfolding settleItem_def by (intro stuck_bind_after frozen_basic stuck_block stuck_emit)

lemma frozen_require:
  "frozen (requireActiveToolCall c)" "frozen (requireToolCallItem c)" "frozen (requireApprovalItem a)"
  unfolding requireActiveToolCall_def requireToolCallItem_def requireApprovalItem_def
  by (intro frozen_bind frozen_basic frozen_if)+

lemma stuck_settleToolCall: "stuck (settleToolCall env c st p)"
  unfolding settleToolCall_def
  by (intro stuck_bind_after frozen_basic frozen_require stuck_block stuck_emit)

lemma stuck_decideApproval: "stuck (decideApproval env a st p)"
  unfolding decideApproval_def
  by (intro stuck_bind_after frozen_basic frozen_require stuck_block stuck_emit)

lemma frozen_settleTurn: "frozen (settleTurn env outcome)"
  by (simp add: frozen_def settleTurn_def op_defs)

lemma frozen_cancelPendingApprovals: "frozen (cancelPendingApprovals env r)"
  unfolding cancelPendingApprovals_def
  by (intro frozen_bind frozen_basic frozen_for)
    (simp add: frozen_when stuck_frozen stuck_decideApproval split: prod.splits)

lemma frozen_settleOpenWork: "frozen (settleOpenWork env st p)"
  unfolding settleOpenWork_def
  by (intro frozen_block_Cons frozen_block_Nil frozen_bind frozen_basic frozen_for)
    (simp_all add: frozen_when stuck_frozen stuck_settleToolCall stuck_settleItem split: prod.splits)

lemma frozen_start: "frozen (start env)"
  unfolding frozen_def
proof (intro allI impI)
  fix s :: "'a lc_state"
  assume "isTerminal s"
  then show "snd (start env s) = s"
    by (cases "lc_status s")
      (simp_all add: isTerminal_def start_def transition_defs op_defs)
qed

lemma frozen_acceptThreadInput: "frozen (acceptThreadInput env inp f)"
  by (auto simp: frozen_def acceptThreadInput_def op_defs split: option.splits)

lemma frozen_reserveCompletion: "frozen (reserveCompletion b)"
  by (auto simp: frozen_def reserveCompletion_def op_defs)

lemmas frozen_ops =
  stuck_emit stuck_startItem stuck_settleItem stuck_settleToolCall stuck_decideApproval
  frozen_settleTurn frozen_cancelPendingApprovals frozen_settleOpenWork frozen_start
  frozen_acceptThreadInput frozen_reserveCompletion frozen_require

lemmas frozen_intros =
  frozen_block_Cons frozen_block_Nil frozen_if frozen_basic stuck_frozen stuck_block stuck_bind

lemmas lc_op_defs =
  startToolCall_def appendAssistantCommentary_def appendAssistantReasoning_def appendToolOutput_def
  createArtifact_def captureWorkspaceSnapshot_def markWorkspaceSnapshotUnavailable_def
  appendHookAudit_def createTurnArtifact_def updateTurnDiff_def updateContextBudget_def
  updateUsage_def requestContextCompaction_def settleContextCompaction_def completeToolCall_def
  failToolCall_def declineToolCall_def requestApproval_def complete_def applyThreadInput_def
  fail_def interrupt_def voidE_def Let_def

lemma frozen_exec: "frozen (lc_exec env c)"
  by (cases c)
    (simp_all only: lc_exec.simps lc_op_defs stuck_frozen frozen_ops frozen_intros frozen_bind
      stuck_bind_after frozen_basic if_cancel)

end
