(* ===== verification/Lifecycle_Invariants.thy ===== *)
theory Lifecycle_Invariants
  imports Lifecycle_Coordinator
begin

text \<open>
  Invariants of the lifecycle coordinator that hold whatever the event sink does: the turn, its run
  attempt and its blocking state agree, a settled turn has no open work, and accepted inputs keep
  their sequence.
\<close>

section \<open>Predicates that emitting an event cannot affect\<close>

definition insensitive :: "('st lc_state \<Rightarrow> bool) \<Rightarrow> bool" where
  "insensitive P \<longleftrightarrow>
     (\<forall>s q. P (s\<lparr>lc_sequence := q\<rparr>) = P s) \<and> (\<forall>s q. P (s\<lparr>lc_clock := q\<rparr>) = P s) \<and>
     (\<forall>s q. P (s\<lparr>lc_sink := q\<rparr>) = P s)"

lemma insensitive_fields:
  assumes "insensitive P"
  shows "P (s\<lparr>lc_sequence := q\<rparr>) = P s" "P (s\<lparr>lc_clock := t\<rparr>) = P s" "P (s\<lparr>lc_sink := k\<rparr>) = P s"
  using assms by (simp_all add: insensitive_def)

lemma keeps_createEvent: "insensitive P \<Longrightarrow> keeps P (createEvent env f n)"
  by (auto simp: keeps_def createEvent_def Let_def insensitive_fields split: option.splits)

lemma keeps_call_sink: "insensitive P \<Longrightarrow> keeps P (call_sink env evs)"
  by (simp add: keeps_def call_sink_def insensitive_fields split: prod.splits)

lemma keeps_emit: "insensitive P \<Longrightarrow> keeps P (emit env f)"
  unfolding emit_def
  by (intro keeps_rules keeps_createEvent keeps_call_sink keeps_modify) (simp_all add: insensitive_fields)

lemma keeps_appendTerminalBatch: "insensitive P \<Longrightarrow> keeps P (appendTerminalBatch env evs st)"
  unfolding appendTerminalBatch_def by (intro keeps_rules keeps_call_sink)

lemma keeps_require:
  "keeps P (requireActiveToolCall c)" "keeps P (requireToolCallItem c)" "keeps P (requireApprovalItem a)"
  unfolding requireActiveToolCall_def requireToolCallItem_def requireApprovalItem_def
  by (intro keeps_rules)+

text \<open>
  A predicate on the turn, its attempt and its blocking state only: the bookkeeping of items, tool
  calls, approvals and inputs cannot affect it.
\<close>

definition turn_view ::
  "'st lc_state \<Rightarrow> TurnStatus \<times> TurnBlockingState \<times> RunAttemptStatus \<times> bool" where
  "turn_view s = (lc_status s, lc_blockingState s, lc_runAttemptStatus s, lc_accepted s)"

definition turn_only :: "('st lc_state \<Rightarrow> bool) \<Rightarrow> bool" where
  "turn_only P \<longleftrightarrow> (\<forall>s s'. turn_view s = turn_view s' \<longrightarrow> P s = P s')"

lemma turn_only_insensitive: "turn_only P \<Longrightarrow> insensitive P"
proof -
  assume "turn_only P"
  moreover have "turn_view (s\<lparr>lc_sequence := q\<rparr>) = turn_view s" "turn_view (s\<lparr>lc_clock := q\<rparr>) = turn_view s"
    "turn_view (s\<lparr>lc_sink := k\<rparr>) = turn_view s" for s q and k :: 'a
    by (simp_all add: turn_view_def)
  ultimately show ?thesis
    unfolding turn_only_def insensitive_def by blast
qed

lemma keeps_modify_turn_only:
  assumes "turn_only P" and "\<And>s. turn_view (f s) = turn_view s"
  shows "keeps P (modifyE f)"
  using assms by (intro keeps_modify) (metis turn_only_def)

lemma turn_view_updates:
  "turn_view (set_item i st s) = turn_view s" "turn_view (set_tool_call c st s) = turn_view s"
  "turn_view (set_approval a ap s) = turn_view s"
  "turn_view (s\<lparr>lc_approvalItems := ra\<rparr>) = turn_view s"
  "turn_view (s\<lparr>lc_toolCallNames := rb\<rparr>) = turn_view s"
  "turn_view (s\<lparr>lc_toolCallBatches := rb\<rparr>) = turn_view s"
  "turn_view (s\<lparr>lc_toolCallItems := ra\<rparr>) = turn_view s"
  "turn_view (s\<lparr>lc_acceptedInputSequences := rc\<rparr>) = turn_view s"
  "turn_view (s\<lparr>lc_completionReserved := rd\<rparr>) = turn_view s"
  by (simp_all add: turn_view_def set_item_def set_tool_call_def set_approval_def)

lemma settled_event_types:
  "\<not> terminal_event_type (item_settled_event st)" "\<not> terminal_event_type (tool_call_settled_event st)"
  by (cases st; simp add: terminal_event_type_def)+

section \<open>Predicates kept by every operation\<close>

text \<open>
  The contract of an invariant, in two steps. \<open>work_predicate\<close>: it is kept by emitting a non-terminal event,
  by accepting an input and by reserving the completion, and the bookkeeping of items and tool calls does not
  affect it; then it is kept by every operation that neither starts the turn, nor touches an approval, nor
  settles the turn. \<open>op_predicate\<close> adds the approvals and the start; once \<open>settleTurn\<close> keeps the predicate too,
  every operation does.
\<close>

locale work_predicate =
  fixes env :: "'st lc_options" and P :: "'st lc_state \<Rightarrow> bool"
  assumes emit_keeps: "\<not> terminal_event_type (f_type f) \<Longrightarrow> keeps P (emit env f)"
    and bookkeeping: "P (set_item i st s) = P s" "P (set_tool_call c st s) = P s"
      "P (s\<lparr>lc_toolCallNames := names\<rparr>) = P s" "P (s\<lparr>lc_toolCallBatches := names\<rparr>) = P s"
      "P (s\<lparr>lc_toolCallItems := ids\<rparr>) = P s"
    and keeps_accept: "keeps P (acceptThreadInput env inp after_append)"
    and keeps_reserve: "keeps P (reserveCompletion pending)"
begin

lemma updates_keep:
  "keeps P (modifyE (set_item i st))" "keeps P (modifyE (set_tool_call c st))"
  "keeps P (modifyE (\<lambda>s. s\<lparr>lc_toolCallNames := f1 s\<rparr>))" "keeps P (modifyE (\<lambda>s. s\<lparr>lc_toolCallBatches := f2 s\<rparr>))"
  "keeps P (modifyE (\<lambda>s. s\<lparr>lc_toolCallItems := f3 s\<rparr>))"
  by (rule keeps_modify, simp add: bookkeeping)+

lemma startItem_keeps: "keeps P (startItem env i kind p)"
  unfolding startItem_def
  by (intro keeps_rules emit_keeps updates_keep) (simp_all add: terminal_event_type_def)

lemma settleItem_keeps: "keeps P (settleItem env i st p)"
  unfolding settleItem_def
  by (intro keeps_rules emit_keeps updates_keep) (simp_all add: settled_event_types)

lemma settleToolCall_keeps: "keeps P (settleToolCall env c st p)"
  unfolding settleToolCall_def
  by (intro keeps_rules keeps_require emit_keeps updates_keep settleItem_keeps)
    (simp_all add: settled_event_types)

lemma settleOpenWork_keeps: "keeps P (settleOpenWork env st p)"
  unfolding settleOpenWork_def by (intro keeps_rules settleToolCall_keeps settleItem_keeps)

lemma appendHookAudit_keeps: "keeps P (appendHookAudit env t p)"
  unfolding appendHookAudit_def
  by (intro keeps_rules emit_keeps)
    (auto simp: RUNTIME_HOOK_AUDIT_EVENT_TYPES_def terminal_event_type_def)

lemmas item_keeps =
  startItem_keeps settleItem_keeps settleToolCall_keeps settleOpenWork_keeps keeps_accept keeps_reserve
  emit_keeps updates_keep keeps_require

lemma exec_keeps_work:
  assumes "c \<noteq> Start" and "\<And>q a i p. c \<noteq> RequestApproval q a i p" and "\<And>a st p. c \<noteq> DecideApproval a st p"
    and "\<And>x i. c \<noteq> Complete x i" and "\<And>f. c \<noteq> Fail f" and "\<And>r. c \<noteq> Interrupt r"
  shows "keeps P (lc_exec env c)"
proof (cases c)
  case (AppendHookAudit t p)
  then show ?thesis by (simp add: appendHookAudit_keeps)
qed (use assms in \<open>(simp only: lc_exec.simps lc_op_defs)?;
       ((intro keeps_rules item_keeps; simp add: terminal_event_type_def) | blast)\<close>)+

end

locale op_predicate = work_predicate +
  assumes approval_bookkeeping: "P (set_approval a ap s) = P s" "P (s\<lparr>lc_approvalItems := ids\<rparr>) = P s"
    and keeps_unblock: "keeps P (changeBlocking env Blocking_none)"
    and keeps_wait: "keeps P (changeBlocking env (Waiting_for_approval i a))"
    and keeps_start: "keeps P (start env)"
begin

lemma approval_updates_keep:
  "keeps P (modifyE (set_approval a ap))" "keeps P (modifyE (\<lambda>s. s\<lparr>lc_approvalItems := f0 s\<rparr>))"
  by (rule keeps_modify, simp add: approval_bookkeeping)+

lemma decideApproval_keeps: "keeps P (decideApproval env a st p)"
  unfolding decideApproval_def
  by (intro keeps_rules item_keeps approval_updates_keep keeps_unblock)
    (simp_all add: terminal_event_type_def)

lemma requestApproval_keeps: "keeps P (requestApproval env q a i p)"
  unfolding requestApproval_def
  by (intro keeps_rules item_keeps approval_updates_keep keeps_wait)
    (simp_all add: terminal_event_type_def)

lemma cancelPendingApprovals_keeps: "keeps P (cancelPendingApprovals env r)"
  unfolding cancelPendingApprovals_def by (intro keeps_rules decideApproval_keeps)

lemmas work_keeps = item_keeps decideApproval_keeps cancelPendingApprovals_keeps keeps_unblock keeps_wait keeps_start
  approval_updates_keep

lemma exec_keeps_unless_settling:
  assumes "\<And>x i. c \<noteq> Complete x i" and "\<And>f. c \<noteq> Fail f" and "\<And>r. c \<noteq> Interrupt r"
  shows "keeps P (lc_exec env c)"
proof (cases "c = Start \<or> (\<exists>q a i p. c = RequestApproval q a i p) \<or> (\<exists>a st p. c = DecideApproval a st p)")
  case True
  then show ?thesis
    by (auto simp: requestApproval_keeps decideApproval_keeps voidE_def intro!: keeps_rules keeps_start)
next
  case False
  with assms show ?thesis by (intro exec_keeps_work) auto
qed

end

locale settling_predicate = op_predicate +
  assumes keeps_settle: "keeps P (settleTurn env outcome)"
begin

lemma settling_keeps: "keeps P (complete env x i)" "keeps P (fail env f)" "keeps P (interrupt env r)"
  unfolding complete_def fail_def interrupt_def
  by (intro keeps_rules work_keeps keeps_settle; simp add: terminal_event_type_def)+

lemma exec_keeps: "keeps P (lc_exec env c)"
proof (cases "(\<exists>x i. c = Complete x i) \<or> (\<exists>f. c = Fail f) \<or> (\<exists>r. c = Interrupt r)")
  case True
  then show ?thesis by (auto simp: settling_keeps)
next
  case False
  then show ?thesis by (intro exec_keeps_unless_settling) auto
qed

lemma run_keeps: "P s \<Longrightarrow> P (lc_run env cs s)"
  by (rule lc_run_inv [OF exec_keeps])

end

text \<open>A predicate on the turn, its attempt and its blocking state only.\<close>

locale turn_predicate =
  fixes env :: "'st lc_options" and P :: "'st lc_state \<Rightarrow> bool"
  assumes only_turn: "turn_only P"
    and turn_unblock: "keeps P (changeBlocking env Blocking_none)"
    and turn_wait: "keeps P (changeBlocking env (Waiting_for_approval i a))"
    and turn_start: "keeps P (start env)"
begin

lemma turn_emit: "keeps P (emit env f)"
  by (rule keeps_emit [OF turn_only_insensitive [OF only_turn]])

lemma turn_bookkeeping:
  "P (set_item i st s) = P s" "P (set_tool_call c st s) = P s" "P (set_approval a ap s) = P s"
  "P (s\<lparr>lc_approvalItems := ids\<rparr>) = P s" "P (s\<lparr>lc_toolCallNames := names\<rparr>) = P s"
  "P (s\<lparr>lc_toolCallBatches := names\<rparr>) = P s" "P (s\<lparr>lc_toolCallItems := ids\<rparr>) = P s"
  "P (s\<lparr>lc_acceptedInputSequences := rc\<rparr>) = P s" "P (s\<lparr>lc_completionReserved := rd\<rparr>) = P s"
  using only_turn unfolding turn_only_def by (metis turn_view_updates)+

lemma turn_updates:
  "keeps P (modifyE (set_item i st))" "keeps P (modifyE (set_tool_call c st))"
  "keeps P (modifyE (set_approval a ap))" "keeps P (modifyE (\<lambda>s. s\<lparr>lc_approvalItems := f0 s\<rparr>))"
  "keeps P (modifyE (\<lambda>s. s\<lparr>lc_toolCallNames := f1 s\<rparr>))" "keeps P (modifyE (\<lambda>s. s\<lparr>lc_toolCallBatches := f2 s\<rparr>))"
  "keeps P (modifyE (\<lambda>s. s\<lparr>lc_toolCallItems := f3 s\<rparr>))" "keeps P (modifyE (\<lambda>s. s\<lparr>lc_acceptedInputSequences := f4 s\<rparr>))"
  "keeps P (modifyE (\<lambda>s. s\<lparr>lc_completionReserved := f5 s\<rparr>))"
  by (rule keeps_modify, simp add: turn_bookkeeping)+

lemma turn_accept: "keeps P (acceptThreadInput env inp f)"
  unfolding acceptThreadInput_def by (intro keeps_rules turn_emit turn_updates)

lemma turn_reserve: "keeps P (reserveCompletion b)"
  unfolding reserveCompletion_def by (intro keeps_rules turn_updates)

end

sublocale turn_predicate \<subseteq> op_predicate
  by unfold_locales
    (rule turn_emit turn_bookkeeping turn_unblock turn_wait turn_start turn_accept turn_reserve)+

section \<open>The turn, its attempt and its blocking state agree\<close>

primrec attempt_of_turn :: "TurnStatus \<Rightarrow> RunAttemptStatus" where
  "attempt_of_turn Ts_queued = Ra_queued"
| "attempt_of_turn Ts_in_progress = Ra_running"
| "attempt_of_turn Ts_awaiting_approval = Ra_running"
| "attempt_of_turn Ts_completed = Ra_succeeded"
| "attempt_of_turn Ts_interrupted = Ra_interrupted"
| "attempt_of_turn Ts_failed = Ra_failed"

definition turn_agrees :: "'st lc_state \<Rightarrow> bool" where
  "turn_agrees s \<longleftrightarrow>
     lc_runAttemptStatus s = attempt_of_turn (lc_status s) \<and>
     (if lc_status s = Ts_awaiting_approval
      then \<exists>i a. lc_blockingState s = Waiting_for_approval i a
      else lc_blockingState s = Blocking_none) \<and>
     (lc_accepted s \<longrightarrow> lc_status s \<noteq> Ts_queued) \<and>
     (\<not> lc_accepted s \<longrightarrow> lc_status s \<in> {Ts_queued, Ts_interrupted, Ts_failed})"

lemma turn_agrees_insensitive: "insensitive turn_agrees"
  by (simp add: insensitive_def turn_agrees_def)

lemma keeps_via_wp: "(\<And>s. P s \<Longrightarrow> wpE m (\<lambda>_. P) (\<lambda>_. P) s) \<Longrightarrow> keeps P m"
  by (simp add: keeps_wp)

text \<open>Emitting keeps everything but the sequence, the clock and the sink.\<close>

lemma wpE_createEvent_frame:
  assumes "\<And>ev t. Q ev (s\<lparr>lc_clock := t\<rparr>)" and "\<And>t. E ZodError (s\<lparr>lc_clock := t\<rparr>)"
  shows "wpE (createEvent env f n) Q E s"
  using assms assms(2) [of "lc_clock s"]
  by (simp add: wpE_def createEvent_def Let_def split: option.splits)

lemma wpE_call_sink_frame:
  assumes "\<And>evs k. Q evs (s\<lparr>lc_sink := k\<rparr>)" and "\<And>e k. E e (s\<lparr>lc_sink := k\<rparr>)"
  shows "wpE (call_sink env evs) Q E s"
  using assms by (simp add: wpE_def call_sink_def split: prod.splits sum.splits)

lemma wpE_appendTerminalBatch_frame:
  assumes "\<And>k. Q () (s\<lparr>lc_sink := k\<rparr>)" and "\<And>e k. E e (s\<lparr>lc_sink := k\<rparr>)"
  shows "wpE (appendTerminalBatch env evs st) Q E s"
  unfolding appendTerminalBatch_def wp_simps
  by (rule wpE_call_sink_frame, rule assms, rule wpE_call_sink_frame) (simp_all add: assms)

lemma wpE_emit_frame:
  assumes Q: "\<And>q t k. Q () (s\<lparr>lc_clock := t, lc_sink := k, lc_sequence := q\<rparr>)"
    and "\<And>e t k. E e (s\<lparr>lc_clock := t, lc_sink := k\<rparr>)"
  shows "wpE (emit env f) Q E s"
proof -
  have E: "E e s" "E e (s\<lparr>lc_clock := t\<rparr>)" for e t
    using assms(2) [where e = e and t = "lc_clock s" and k = "lc_sink s"]
      assms(2) [where e = e and t = t and k = "lc_sink s"] by simp_all
  show ?thesis
    unfolding emit_def wp_simps assertTurnAcceptsLifecycleEvent_def
    using E Q assms(2)
    by (auto simp: wp_simps intro!: wpE_createEvent_frame wpE_call_sink_frame)
qed

lemma changeBlocking_agrees:
  assumes "b = Blocking_none \<or> (\<exists>i a. b = Waiting_for_approval i a)"
  shows "keeps turn_agrees (changeBlocking env b)"
proof (rule keeps_via_wp)
  fix s :: "'a lc_state"
  assume s: "turn_agrees s"
  show "wpE (changeBlocking env b) (\<lambda>_. turn_agrees) (\<lambda>_. turn_agrees) s"
    unfolding changeBlocking_def wpE_block_Cons
    using s assms
    by (intro wpE_emit_frame; cases "lc_status s")
      (auto simp: wp_simps transition_defs turn_agrees_def)
qed

lemma start_agrees: "keeps turn_agrees (start env)"
proof (rule keeps_via_wp)
  fix s :: "'a lc_state"
  assume s: "turn_agrees s"
  show "wpE (start env) (\<lambda>_. turn_agrees) (\<lambda>_. turn_agrees) s"
    unfolding start_def wp_simps
    using s
    by (cases "lc_status s")
      (auto simp: wp_simps transition_defs turn_agrees_def
        intro!: wpE_createEvent_frame wpE_call_sink_frame)
qed

lemma settleTurn_agrees: "keeps turn_agrees (settleTurn env outcome)"
proof (rule keeps_via_wp)
  fix s :: "'a lc_state"
  assume s: "turn_agrees s"
  show "wpE (settleTurn env outcome) (\<lambda>_. turn_agrees) (\<lambda>_. turn_agrees) s"
    unfolding settleTurn_def wp_simps Let_def
    using s
    by (cases "lc_status s"; cases outcome)
      (auto simp: wp_simps transition_defs turn_agrees_def validateTerminalSettlement_def Let_def
        isTerminal_def split: sum.splits
        intro!: wpE_createEvent_frame wpE_appendTerminalBatch_frame)
qed

interpretation agreeing_turn: turn_predicate env turn_agrees for env
  by unfold_locales
    (auto simp: turn_only_def turn_view_def turn_agrees_def
      intro: changeBlocking_agrees start_agrees settleTurn_agrees)

interpretation agreeing: settling_predicate env turn_agrees for env
  by unfold_locales (rule settleTurn_agrees)

section \<open>A settled turn has no open work\<close>

definition settled_work :: "'st lc_state \<Rightarrow> bool" where
  "settled_work s \<longleftrightarrow>
     lc_blockingState s = Blocking_none \<and>
     list_all (\<lambda>(i, st). isTerminalItemStatus st) (lc_itemStatuses s) \<and>
     list_all (\<lambda>(a, st). isTerminalApprovalStatus st) (lc_approvalStatuses s)"

definition terminal_settled :: "'st lc_state \<Rightarrow> bool" where
  "terminal_settled s \<longleftrightarrow> (isTerminal s \<longrightarrow> settled_work s)"

lemma assertAllSettled_Inr:
  "assertAllSettled t r P name label = Inr u \<longleftrightarrow> list_all (\<lambda>(k, st). P st) r"
  by (induction r) (auto simp: assertAllSettled_def split: option.splits)

lemma assertAllSettled_Inl:
  "assertAllSettled t r P name label = Inl e \<Longrightarrow> \<not> list_all (\<lambda>(k, st). P st) r"
  by (metis Inl_Inr_False assertAllSettled_Inr)

lemma validateTerminalSettlement_Inr:
  "validateTerminalSettlement inp = Inr u \<longleftrightarrow>
     isTerminalTurnStatus (ts_turnStatus inp) \<and>
     (\<exists>outcome. ts_terminalOutcome inp = Some outcome \<and>
        turn_of_terminal (outcome_status outcome) = ts_turnStatus inp) \<and>
     ts_blockingState inp = Blocking_none \<and>
     list_all (\<lambda>(i, st). isTerminalItemStatus st) (ts_itemStatuses inp) \<and>
     list_all (\<lambda>(a, st). isTerminalApprovalStatus st) (ts_approvalStatuses inp)"
  by (cases "ts_terminalOutcome inp")
    (auto simp: validateTerminalSettlement_def Let_def assertAllSettled_Inr split: sum.splits
      dest: assertAllSettled_Inl)

lemma changeBlocking_open: "keeps (\<lambda>s. \<not> isTerminal s) (changeBlocking env b)"
proof (rule keeps_via_wp)
  fix s :: "'a lc_state"
  assume s: "\<not> isTerminal s"
  show "wpE (changeBlocking env b) (\<lambda>_ s. \<not> isTerminal s) (\<lambda>_ s. \<not> isTerminal s) s"
    unfolding changeBlocking_def wpE_block_Cons
    using s by (intro wpE_emit_frame) (auto simp: wp_simps transition_defs isTerminal_def)
qed

lemma start_open: "keeps (\<lambda>s. \<not> isTerminal s) (start env)"
proof (rule keeps_via_wp)
  fix s :: "'a lc_state"
  assume s: "\<not> isTerminal s"
  show "wpE (start env) (\<lambda>_ s. \<not> isTerminal s) (\<lambda>_ s. \<not> isTerminal s) s"
    unfolding start_def wp_simps
    using s by (auto simp: wp_simps transition_defs isTerminal_def
        intro!: wpE_createEvent_frame wpE_call_sink_frame)
qed

interpretation open_turn: turn_predicate env "\<lambda>s. \<not> isTerminal s" for env
  by unfold_locales
    (auto simp: turn_only_def turn_view_def isTerminal_def
      intro: changeBlocking_open [unfolded isTerminal_def] start_open [unfolded isTerminal_def])

lemma keeps_terminal_settled:
  assumes "frozen m" and "keeps (\<lambda>s. \<not> isTerminal s) m"
  shows "keeps terminal_settled m"
  using assms unfolding frozen_def keeps_def terminal_settled_def by metis

lemma settleTurn_settled: "keeps terminal_settled (settleTurn env outcome)"
proof (rule keeps_via_wp)
  fix s :: "'a lc_state"
  assume s: "terminal_settled s"
  show "wpE (settleTurn env outcome) (\<lambda>_. terminal_settled) (\<lambda>_. terminal_settled) s"
  proof (cases "isTerminal s")
    case False
    then show ?thesis
      unfolding settleTurn_def wp_simps Let_def
      by (auto simp: wp_simps terminal_settled_def isTerminal_def transition_defs
          validateTerminalSettlement_Inr settled_work_def split: sum.splits
          intro!: wpE_createEvent_frame wpE_appendTerminalBatch_frame)
  qed (use s in \<open>simp add: settleTurn_def wp_simps\<close>)
qed

lemma exec_terminal_settled: "keeps terminal_settled (lc_exec env c)"
proof -
  have part: "keeps terminal_settled m" if "frozen m" and "keeps (\<lambda>s. \<not> isTerminal s) m" for m :: "('a, unit) lc_op"
    using that by (rule keeps_terminal_settled)
  note parts = part [OF frozen_cancelPendingApprovals open_turn.cancelPendingApprovals_keeps]
    part [OF frozen_settleOpenWork open_turn.settleOpenWork_keeps]
    part [OF stuck_frozen [OF stuck_startItem] open_turn.startItem_keeps]
    part [OF stuck_frozen [OF stuck_settleItem] open_turn.settleItem_keeps]
    part [OF stuck_frozen [OF stuck_emit] open_turn.turn_emit] settleTurn_settled
  consider (settling) "(\<exists>x i. c = Complete x i) \<or> (\<exists>f. c = Fail f) \<or> (\<exists>r. c = Interrupt r)"
    | (other) "\<And>x i. c \<noteq> Complete x i" "\<And>f. c \<noteq> Fail f" "\<And>r. c \<noteq> Interrupt r"
    by blast
  then show ?thesis
  proof cases
    case settling
    then show ?thesis
      by (auto simp: complete_def fail_def interrupt_def simp del: block.simps intro!: keeps_rules parts)
  next
    case other
    then show ?thesis
      by (intro part frozen_exec open_turn.exec_keeps_unless_settling)
  qed
qed

section \<open>Accepted inputs\<close>

text \<open>A predicate on the accepted inputs and the reservation of the completion only.\<close>

definition input_view :: "'st lc_state \<Rightarrow> bool \<times> nat js_record" where
  "input_view s = (lc_completionReserved s, lc_acceptedInputSequences s)"

definition input_only :: "('st lc_state \<Rightarrow> bool) \<Rightarrow> bool" where
  "input_only P \<longleftrightarrow> (\<forall>s s'. input_view s = input_view s' \<longrightarrow> P s = P s')"

lemma input_view_updates:
  "input_view (s\<lparr>lc_sequence := q\<rparr>) = input_view s" "input_view (s\<lparr>lc_clock := q\<rparr>) = input_view s"
  "input_view (s\<lparr>lc_sink := k\<rparr>) = input_view s" "input_view (s\<lparr>lc_status := st\<rparr>) = input_view s"
  "input_view (s\<lparr>lc_blockingState := b\<rparr>) = input_view s"
  "input_view (s\<lparr>lc_approvalItems := d\<rparr>) = input_view s"
  "input_view (s\<lparr>lc_toolCallItems := d\<rparr>) = input_view s"
  "input_view (s\<lparr>lc_toolCallNames := d\<rparr>) = input_view s"
  "input_view (s\<lparr>lc_toolCallBatches := d\<rparr>) = input_view s"
  "input_view (set_item i ist s) = input_view s" "input_view (set_tool_call i ist s) = input_view s"
  "input_view (set_approval i ap s) = input_view s"
  by (simp_all add: input_view_def set_item_def set_tool_call_def set_approval_def)

locale input_predicate =
  fixes env :: "'st lc_options" and P :: "'st lc_state \<Rightarrow> bool"
  assumes only_inputs: "input_only P"
    and input_accept: "keeps P (acceptThreadInput env inp f)"
    and input_reserve: "keeps P (reserveCompletion b)"
begin

lemma view_eq: "input_view s' = input_view s \<Longrightarrow> P s' = P s"
  using only_inputs unfolding input_only_def by blast

lemma input_insensitive: "insensitive P"
  unfolding insensitive_def by (intro conjI allI view_eq input_view_updates)

lemma input_emit: "keeps P (emit env g)"
  by (rule keeps_emit [OF input_insensitive])

lemma input_bookkeeping:
  "P (set_item i st s) = P s" "P (set_tool_call c st s) = P s" "P (set_approval a ap s) = P s"
  "P (s\<lparr>lc_approvalItems := ids\<rparr>) = P s" "P (s\<lparr>lc_toolCallNames := names\<rparr>) = P s"
  "P (s\<lparr>lc_toolCallBatches := names\<rparr>) = P s" "P (s\<lparr>lc_toolCallItems := ids\<rparr>) = P s"
  "P (s\<lparr>lc_status := ts\<rparr>) = P s" "P (s\<lparr>lc_blockingState := bs\<rparr>) = P s"
  by (rule view_eq, rule input_view_updates)+

lemma input_blocking: "keeps P (changeBlocking env bs)"
  unfolding changeBlocking_def
  by (intro keeps_rules input_emit keeps_modify) (simp_all add: input_bookkeeping)

lemma input_start: "keeps P (start env)"
  unfolding start_def
  by (intro keeps_rules keeps_createEvent [OF input_insensitive] keeps_call_sink [OF input_insensitive]
      keeps_modify) (erule view_eq [THEN iffD2, rotated], simp add: input_view_def)

lemma input_settle: "keeps P (settleTurn env outcome)"
  unfolding settleTurn_def Let_def
  by (intro keeps_rules keeps_createEvent [OF input_insensitive]
      keeps_appendTerminalBatch [OF input_insensitive] keeps_modify)
    (erule view_eq [THEN iffD2, rotated], simp add: input_view_def)

end

sublocale input_predicate \<subseteq> settling_predicate
  by unfold_locales
    (rule input_emit input_bookkeeping input_blocking input_start input_accept input_reserve input_settle)+

definition inputs_kept :: "nat js_record \<Rightarrow> 'st lc_state \<Rightarrow> bool" where
  "inputs_kept r s \<longleftrightarrow> (\<forall>i n. map_of r i = Some n \<longrightarrow> map_of (lc_acceptedInputSequences s) i = Some n)"

definition inputs_closed :: "nat js_record \<Rightarrow> 'st lc_state \<Rightarrow> bool" where
  "inputs_closed r s \<longleftrightarrow> lc_completionReserved s \<and> lc_acceptedInputSequences s = r"

lemma accept_fresh_wp:
  assumes "map_of (lc_acceptedInputSequences s) (ti_inputId inp) = None \<Longrightarrow> \<not> lc_completionReserved s \<Longrightarrow>
      (\<And>n s'. input_view s' = (False, AList.update (ti_inputId inp) n (lc_acceptedInputSequences s)) \<Longrightarrow> P s')"
    and "\<And>s'. input_view s' = input_view s \<Longrightarrow> P s'"
  shows "wpE (acceptThreadInput env inp f) (\<lambda>_. P) (\<lambda>_. P) s"
proof (cases "map_of (lc_acceptedInputSequences s) (ti_inputId inp) = None \<and> \<not> lc_completionReserved s")
  case True
  have old: "P s'" if "input_view s' = input_view s" for s'
    using that by (rule assms(2))
  have new: "P s'" if "input_view s' = (False, AList.update (ti_inputId inp) n (lc_acceptedInputSequences s))" for n s'
    using True that by (intro assms(1)) simp_all
  have fresh: "P (s\<lparr>lc_clock := t, lc_sink := k, lc_sequence := q, lc_acceptedInputSequences :=
      AList.update (ti_inputId inp) q (lc_acceptedInputSequences s)\<rparr>)" for t k q
    using True by (intro new [of _ q]) (simp add: input_view_def)
  have same: "P (s\<lparr>lc_clock := t, lc_sink := k\<rparr>)" "P s" for t k
    by (rule old, simp add: input_view_def)+
  show ?thesis
    unfolding acceptThreadInput_def wp_simps
    using True by (auto simp: wp_simps fresh same intro!: wpE_emit_frame split: sum.splits)
next
  case False
  then show ?thesis
    unfolding acceptThreadInput_def wp_simps
    by (auto simp: wp_simps intro!: assms(2) split: option.splits)
qed

interpretation kept_inputs: input_predicate env "inputs_kept r" for env r
proof unfold_locales
  show "input_only (inputs_kept r)"
    by (simp add: input_only_def inputs_kept_def input_view_def)
  show "keeps (inputs_kept r) (acceptThreadInput env inp f)" for inp f
    by (rule keeps_via_wp, rule accept_fresh_wp) (auto simp: inputs_kept_def input_view_def)
  show "keeps (inputs_kept r) (reserveCompletion b)" for b
    by (auto simp: keeps_def reserveCompletion_def inputs_kept_def op_defs)
qed

interpretation closed_inputs: input_predicate env "inputs_closed r" for env r
proof unfold_locales
  show "input_only (inputs_closed r)"
    by (simp add: input_only_def inputs_closed_def input_view_def)
  show "keeps (inputs_closed r) (acceptThreadInput env inp f)" for inp f
    by (rule keeps_via_wp, rule accept_fresh_wp) (auto simp: inputs_closed_def input_view_def)
  show "keeps (inputs_closed r) (reserveCompletion b)" for b
    by (auto simp: keeps_def reserveCompletion_def inputs_closed_def op_defs)
qed

end
