(* ===== verification/Lifecycle_Log.thy ===== *)
theory Lifecycle_Log
  imports Lifecycle_Invariants
begin

text \<open>
  The coordinator and the event store together: the stored stream of a turn is what the
  coordinator believes it is, and a turn can always be interrupted when the store takes events.
\<close>

section \<open>The schema library\<close>

text \<open>
  What the coordinator relies on of \<open>EventIdSchema.parse\<close> and \<open>LifecycleEventSchema.parse\<close>: parsing
  an identifier returns it, parsing an event keeps its envelope and its type, and parsing a parsed
  event returns it; turn identifiers match \<open>trn_\<close> followed by letters, digits, \<open>_\<close> and \<open>-\<close>.
\<close>

definition same_envelope :: "LifecycleEvent \<Rightarrow> LifecycleEvent \<Rightarrow> bool" where
  "same_envelope ev ev' \<longleftrightarrow>
     eventId ev' = eventId ev \<and> threadId ev' = threadId ev \<and> turnId ev' = turnId ev \<and>
     runAttemptId ev' = runAttemptId ev \<and> sequence ev' = sequence ev \<and>
     idempotencyKey ev' = idempotencyKey ev \<and> etype ev' = etype ev \<and> itemId ev' = itemId ev \<and>
     toolCallId ev' = toolCallId ev \<and> approvalId ev' = approvalId ev"

definition lawful_schema :: "event_schema \<Rightarrow> bool" where
  "lawful_schema parse \<longleftrightarrow>
     (\<forall>ev ev'. parse ev = Some ev' \<longrightarrow>
        same_envelope ev ev' \<and> parse ev' = Some ev' \<and>
        startsWith (turnId ev) ''trn_'' \<and> CHR '':'' \<notin> set (turnId ev))"

definition lawful_ids :: "(string \<Rightarrow> string option) \<Rightarrow> bool" where
  "lawful_ids parseId \<longleftrightarrow> (\<forall>x y. parseId x = Some y \<longrightarrow> y = x)"

definition event_id :: "'st lc_options \<Rightarrow> nat \<Rightarrow> string" where
  "event_id env n = ''evt_'' @ drop 4 (opt_turnId env) @ ''_'' @ string_of_nat n"

text \<open>A coordinator whose events a sink admits.\<close>

definition lawful_writer ::
  "(LifecycleEvent list \<Rightarrow> ('st, js_error, LifecycleEvent list) op) \<Rightarrow> (LifecycleEvent \<Rightarrow> bool) \<Rightarrow>
     'st lc_options \<Rightarrow> bool" where
  "lawful_writer append_events admissible env \<longleftrightarrow>
     opt_appendBatch env = append_events \<and>
     (\<forall>f n eid now ev. opt_parseEventId env (event_id env n) = Some eid \<longrightarrow>
        opt_parseEvent env (raw_event env f n eid now) = Some ev \<longrightarrow>
        admissible ev \<and> turnId ev = opt_turnId env \<and> sequence ev = n \<and> etype ev = f_type f)"

lemma lawful_writer_memory:
  assumes sink: "opt_appendBatch env = appendBatch (opt_parseEvent env)"
    and schema: "lawful_schema (opt_parseEvent env)" and ids: "lawful_ids (opt_parseEventId env)"
  shows "lawful_writer (appendBatch (opt_parseEvent env)) (admissible_event (opt_parseEvent env)) env"
  unfolding lawful_writer_def
proof (intro conjI allI impI)
  fix f n eid now ev
  assume eid: "opt_parseEventId env (event_id env n) = Some eid"
    and ev: "opt_parseEvent env (raw_event env f n eid now) = Some ev"
  have eid_eq: "eid = event_id env n"
    using ids eid by (simp add: lawful_ids_def)
  have tid: "turnId (raw_event env f n eid now) = opt_turnId env"
    by (simp add: raw_event_def)
  have same: "same_envelope (raw_event env f n eid now) ev" "opt_parseEvent env ev = Some ev"
    "startsWith (opt_turnId env) ''trn_''" "CHR '':'' \<notin> set (opt_turnId env)"
    using schema ev tid unfolding lawful_schema_def by metis+
  with eid_eq show "admissible_event (opt_parseEvent env) ev"
    by (simp add: admissible_event_def canonical_event_def same_envelope_def raw_event_def event_id_def)
  from same show "turnId ev = opt_turnId env" "sequence ev = n" "etype ev = f_type f"
    by (simp_all add: same_envelope_def raw_event_def)
qed (rule sink)

section \<open>The log and the coordinator agree\<close>

primrec settled_status :: "LifecycleEventType option \<Rightarrow> TurnStatus option" where
  "settled_status None = None"
| "settled_status (Some t) =
     (if t = E_turn_completed then Some Ts_completed
      else if t = E_turn_interrupted then Some Ts_interrupted
      else if t = E_turn_failed then Some Ts_failed else None)"

definition log_end :: "LifecycleEvent list \<Rightarrow> LifecycleEventType option" where
  "log_end evs = (if evs = [] then None else Some (etype (last evs)))"

definition log_synced ::
  "('st \<Rightarrow> string \<Rightarrow> LifecycleEvent list) \<Rightarrow> ('st \<Rightarrow> bool) \<Rightarrow> string \<Rightarrow> 'st lc_state \<Rightarrow> bool" where
  "log_synced slog sinv t s \<longleftrightarrow>
     sinv (lc_sink s) \<and> length (slog (lc_sink s) t) = lc_sequence s \<and>
     settled_status (log_end (slog (lc_sink s) t)) = (if isTerminal s then Some (lc_status s) else None)"

lemma log_end_open:
  "settled_status (log_end evs) = None \<Longrightarrow> evs = [] \<or> \<not> terminal_event_type (etype (last evs))"
  by (auto simp: log_end_def terminal_event_type_def split: if_splits)

lemma settled_status_open: "\<not> terminal_event_type t \<Longrightarrow> settled_status (Some t) = None"
  by (simp add: terminal_event_type_def)

lemma log_end_snoc [simp]: "log_end (evs @ [ev]) = Some (etype ev)"
  by (simp add: log_end_def)

lemma settled_turn_terminal [simp]:
  "settled_status (Some (turn_terminal_event st)) = Some (turn_of_terminal st)"
  by (cases st) simp_all

context lifecycle_sink
begin

lemma wpE_createEvent_lawful:
  assumes "lawful_writer append_events admissible env"
    and "\<And>ev t. admissible ev \<Longrightarrow> turnId ev = opt_turnId env \<Longrightarrow> sequence ev = lc_sequence s + n \<Longrightarrow>
      etype ev = f_type f \<Longrightarrow> Q ev (s\<lparr>lc_clock := t\<rparr>)"
    and "\<And>t. E ZodError (s\<lparr>lc_clock := t\<rparr>)"
  shows "wpE (createEvent env f n) Q E s"
proof -
  have *: "Q ev (s\<lparr>lc_clock := t\<rparr>)"
    if "opt_parseEventId env (event_id env (lc_sequence s + n)) = Some eid"
      and "opt_parseEvent env (raw_event env f (lc_sequence s + n) eid now) = Some ev" for eid now ev t
    using assms(1) that unfolding lawful_writer_def by (intro assms(2)) blast+
  show ?thesis
    using * assms(3) assms(3) [of "lc_clock s"]
    by (auto simp: wpE_def createEvent_def Let_def event_id_def split: option.splits)
qed

text \<open>The sink on a batch that continues the log.\<close>

lemma wpE_call_sink_next:
  assumes "lawful_writer append_events admissible env" and "sink_inv (lc_sink s)"
    and "list_all admissible evs" and "contiguous_stream t (sink_log (lc_sink s) t @ evs)"
    and "\<And>rs k. sink_inv k \<Longrightarrow> sink_log k t = sink_log (lc_sink s) t @ evs \<Longrightarrow> Q rs (s\<lparr>lc_sink := k\<rparr>)"
    and "\<And>e k. sink_inv k \<Longrightarrow> sink_log k t = sink_log (lc_sink s) t \<Longrightarrow> E e (s\<lparr>lc_sink := k\<rparr>)"
  shows "wpE (call_sink env evs) Q E s"
proof (cases "append_events evs (lc_sink s)")
  case (Pair r k)
  have sink: "opt_appendBatch env evs (lc_sink s) = (r, k)"
    using assms(1) Pair by (simp add: lawful_writer_def)
  show ?thesis
  proof (cases r)
    case (Inl e)
    then show ?thesis
      using append_error [OF assms(2)] Pair sink assms(6) by (simp add: wpE_def call_sink_def)
  next
    case (Inr rs)
    then show ?thesis
      using append_next [OF assms(2,3,4)] Pair sink assms(5) by (simp add: wpE_def call_sink_def)
  qed
qed

lemma emit_synced:
  assumes env: "lawful_writer append_events admissible env" and f: "\<not> terminal_event_type (f_type f)"
  shows "keeps (log_synced sink_log sink_inv (opt_turnId env)) (emit env f)"
proof (rule keeps_via_wp)
  fix s
  let ?S = "log_synced sink_log sink_inv (opt_turnId env)"
  assume s: "?S s"
  show "wpE (emit env f) (\<lambda>_. ?S) (\<lambda>_. ?S) s"
  proof (cases "isTerminal s")
    case True
    then show ?thesis
      using s by (simp add: emit_def wp_simps assertTurnAcceptsLifecycleEvent_def isTerminal_def)
  next
    case False
    have c: "contiguous_stream (opt_turnId env) (sink_log (lc_sink s) (opt_turnId env) @ [ev])"
      if "turnId ev = opt_turnId env" "sequence ev = Suc (lc_sequence s)" for ev
      using contiguous_snoc [OF log_contiguous that(1)] s False that(2) log_end_open
      by (auto simp: log_synced_def)
    show ?thesis
      unfolding emit_def wp_simps
      using False s settled_status_open [OF f]
      by (auto simp: assertTurnAcceptsLifecycleEvent_def isTerminal_def wp_simps c log_synced_def
          intro!: wpE_createEvent_lawful [OF env] wpE_call_sink_next [OF env, where t = "opt_turnId env"])
  qed
qed


lemma contiguous_next:
  assumes "log_synced sink_log sink_inv t s" and "\<not> isTerminal s"
    and "\<And>ev. ev \<in> set evs \<Longrightarrow> turnId ev = t"
    and "map sequence evs = map (\<lambda>n. lc_sequence s + n) [1..<Suc (length evs)]"
    and "\<And>ev. ev \<in> set (butlast evs) \<Longrightarrow> \<not> terminal_event_type (etype ev)"
  shows "contiguous_stream t (sink_log (lc_sink s) t @ evs)"
  using assms(3-5)
proof (induction evs rule: rev_induct)
  case Nil
  show ?case using log_contiguous assms(1) by (simp add: log_synced_def)
next
  case (snoc ev evs)
  have seqs: "map sequence evs = map (\<lambda>n. lc_sequence s + n) [1..<Suc (length evs)]"
    "sequence ev = lc_sequence s + Suc (length evs)"
    using snoc.prems(2) by simp_all
  have open_evs: "\<not> terminal_event_type (etype e)" if "e \<in> set evs" for e
    using snoc.prems(3) that by simp
  have len: "length (sink_log (lc_sink s) t) = lc_sequence s"
    using assms(1) by (simp add: log_synced_def)
  have "sink_log (lc_sink s) t = [] \<or> \<not> terminal_event_type (etype (last (sink_log (lc_sink s) t)))"
    using assms(1,2) by (intro log_end_open) (simp add: log_synced_def)
  then have last_open: "sink_log (lc_sink s) t @ evs = [] \<or>
      \<not> terminal_event_type (etype (last (sink_log (lc_sink s) t @ evs)))"
    using open_evs by (cases "evs = []") simp_all
  have "contiguous_stream t (sink_log (lc_sink s) t @ evs)"
    using snoc.prems seqs(1) open_evs by (intro snoc.IH) (simp_all add: in_set_butlastD)
  from contiguous_snoc [OF this _ _ last_open, of ev] snoc.prems(1) seqs(2) len show ?case by simp
qed

lemma start_synced:
  assumes env: "lawful_writer append_events admissible env"
  shows "keeps (log_synced sink_log sink_inv (opt_turnId env)) (start env)"
proof (rule keeps_via_wp)
  fix s
  let ?S = "log_synced sink_log sink_inv (opt_turnId env)"
  assume s: "?S s"
  show "wpE (start env) (\<lambda>_. ?S) (\<lambda>_. ?S) s"
  proof (cases "isTerminal s")
    case True
    then show ?thesis
      using s by (cases "lc_status s") (auto simp: isTerminal_def start_def wp_simps transition_defs)
  next
    case False
    have c: "contiguous_stream (opt_turnId env) (sink_log (lc_sink s) (opt_turnId env) @ [ev1, ev2, ev3])"
      if "turnId ev1 = opt_turnId env" "turnId ev2 = opt_turnId env" "turnId ev3 = opt_turnId env"
        "sequence ev1 = Suc (lc_sequence s)" "sequence ev2 = Suc (Suc (lc_sequence s))"
        "sequence ev3 = lc_sequence s + 3" "etype ev1 = E_turn_queued" "etype ev2 = E_turn_started" for ev1 ev2 ev3
      using that by (intro contiguous_next [OF s False]) (auto simp: terminal_event_type_def upt_rec)
    show ?thesis
      unfolding start_def wp_simps
      using False s c
      by (auto simp: wp_simps transition_defs log_synced_def log_end_def isTerminal_def
          intro!: wpE_createEvent_lawful [OF env] wpE_call_sink_next [OF env, where t = "opt_turnId env"])
  qed
qed

lemma wpE_appendTerminalBatch_next:
  assumes env: "lawful_writer append_events admissible env" and "sink_inv (lc_sink s)"
    and "list_all admissible evs" and "contiguous_stream t (sink_log (lc_sink s) t @ evs)"
    and "\<And>k. sink_inv k \<Longrightarrow> sink_log k t = sink_log (lc_sink s) t @ evs \<Longrightarrow> Q () (s\<lparr>lc_sink := k\<rparr>)"
    and "\<And>e k. sink_inv k \<Longrightarrow> sink_log k t = sink_log (lc_sink s) t \<Longrightarrow> E e (s\<lparr>lc_sink := k\<rparr>)"
  shows "wpE (appendTerminalBatch env evs st) Q E s"
  unfolding appendTerminalBatch_def wp_simps
proof (rule wpE_call_sink_next [OF env assms(2-4)])
  fix e k
  assume k: "sink_inv k" "sink_log k t = sink_log (lc_sink s) t"
  show "wpE (call_sink env evs) (\<lambda>x. Q ()) (\<lambda>e. E (RuntimeLifecycleSettlementError st e)) (s\<lparr>lc_sink := k\<rparr>)"
    using k assms(3-6) by (intro wpE_call_sink_next [OF env, where t = t]) simp_all
qed (use assms(5) in simp)

lemma settleTurn_synced:
  assumes env: "lawful_writer append_events admissible env"
  shows "keeps (log_synced sink_log sink_inv (opt_turnId env)) (settleTurn env outcome)"
proof (rule keeps_via_wp)
  fix s
  let ?S = "log_synced sink_log sink_inv (opt_turnId env)"
  assume s: "?S s"
  show "wpE (settleTurn env outcome) (\<lambda>_. ?S) (\<lambda>_. ?S) s"
  proof (cases "isTerminal s")
    case False
    have c: "contiguous_stream (opt_turnId env) (sink_log (lc_sink s) (opt_turnId env) @ [ev1, ev2])"
      if "turnId ev1 = opt_turnId env" "turnId ev2 = opt_turnId env"
        "sequence ev1 = Suc (lc_sequence s)" "sequence ev2 = Suc (Suc (lc_sequence s))"
        "etype ev1 = attempt_terminal_event st" for ev1 ev2 st
      using that by (intro contiguous_next [OF s False])
        (cases st; auto simp: isTerminal_def terminal_event_type_def upt_rec)+
    show ?thesis
      unfolding settleTurn_def wp_simps Let_def
      using False s
      by (auto simp: wp_simps transition_defs log_synced_def log_end_def isTerminal_def c
          simp del: settled_status.simps split: sum.splits
          intro!: wpE_createEvent_lawful [OF env] wpE_appendTerminalBatch_next [OF env, where t = "opt_turnId env"])
  qed (use s in \<open>simp add: settleTurn_def wp_simps\<close>)
qed


lemma changeBlocking_synced:
  assumes env: "lawful_writer append_events admissible env"
  shows "keeps (log_synced sink_log sink_inv (opt_turnId env)) (changeBlocking env b)"
proof (rule keeps_via_wp)
  fix s
  let ?S = "log_synced sink_log sink_inv (opt_turnId env)"
  let ?f = "turn_event E_turn_blocking_changed [(''blockingState'', PBlocking b)]"
  assume s: "?S s"
  show "wpE (changeBlocking env b) (\<lambda>_. ?S) (\<lambda>_. ?S) s"
  proof (cases "isTerminal s")
    case True
    then have "stuck (changeBlocking env b)"
      unfolding changeBlocking_def by (intro stuck_block stuck_emit)
    then show ?thesis using True s by (force simp: stuck_def wpE_def)
  next
    case False
    have "keeps ?S (emit env ?f)" "keeps (\<lambda>s. \<not> isTerminal s) (emit env ?f)"
      by (rule emit_synced [OF env], simp add: terminal_event_type_def) (rule open_turn.turn_emit)
    then have "wpE (emit env ?f) (\<lambda>_ s. ?S s \<and> \<not> isTerminal s) (\<lambda>_ s. ?S s \<and> \<not> isTerminal s) s"
      using s False by (intro wpE_conj) (simp_all add: keeps_wp)
    then show ?thesis
      unfolding changeBlocking_def wpE_block_Cons
      by (rule wpE_mono) (auto simp: wp_simps transition_defs log_synced_def isTerminal_def)
  qed
qed

lemma synced_bookkeeping:
  "log_synced sink_log sink_inv t (set_item i ist s) = log_synced sink_log sink_inv t s"
  "log_synced sink_log sink_inv t (set_tool_call c ist s) = log_synced sink_log sink_inv t s"
  "log_synced sink_log sink_inv t (set_approval a ap s) = log_synced sink_log sink_inv t s"
  "log_synced sink_log sink_inv t (s\<lparr>lc_approvalItems := ids\<rparr>) = log_synced sink_log sink_inv t s"
  "log_synced sink_log sink_inv t (s\<lparr>lc_toolCallNames := ids\<rparr>) = log_synced sink_log sink_inv t s"
  "log_synced sink_log sink_inv t (s\<lparr>lc_toolCallBatches := ids\<rparr>) = log_synced sink_log sink_inv t s"
  "log_synced sink_log sink_inv t (s\<lparr>lc_toolCallItems := ids\<rparr>) = log_synced sink_log sink_inv t s"
  "log_synced sink_log sink_inv t (s\<lparr>lc_acceptedInputSequences := ins\<rparr>) = log_synced sink_log sink_inv t s"
  "log_synced sink_log sink_inv t (s\<lparr>lc_completionReserved := res\<rparr>) = log_synced sink_log sink_inv t s"
  by (simp_all add: log_synced_def isTerminal_def set_item_def set_tool_call_def set_approval_def)

lemma synced_predicate:
  assumes env: "lawful_writer append_events admissible env"
  shows "settling_predicate env (log_synced sink_log sink_inv (opt_turnId env))"
proof unfold_locales
  fix inp f
  have "keeps (log_synced sink_log sink_inv (opt_turnId env))
      (emit env (turn_event E_turn_input_accepted p))" for p
    by (rule emit_synced [OF env]) (simp add: terminal_event_type_def)
  then show "keeps (log_synced sink_log sink_inv (opt_turnId env)) (acceptThreadInput env inp f)"
    unfolding acceptThreadInput_def
    by (intro keeps_rules keeps_modify) (auto simp: synced_bookkeeping)
next
  show "keeps (log_synced sink_log sink_inv (opt_turnId env)) (reserveCompletion b)" for b
    unfolding reserveCompletion_def by (intro keeps_rules keeps_modify) (auto simp: synced_bookkeeping)
qed (rule emit_synced [OF env] synced_bookkeeping changeBlocking_synced [OF env] start_synced [OF env]
      settleTurn_synced [OF env] | assumption)+

end

end
