(* ===== verification/Lifecycle_Liveness.thy ===== *)
theory Lifecycle_Liveness
  imports Lifecycle_Log
begin

text \<open>
  A turn can be interrupted or failed: when the store takes the events and the schema accepts them,
  \<open>interrupt\<close> and \<open>fail\<close> cancel every pending approval, settle every open tool call and item, and
  settle the turn.
\<close>

section \<open>The bookkeeping of a turn\<close>

text \<open>The state without its sequence, clock and sink: what the operations below change on purpose.\<close>

definition work :: "'st lc_state \<Rightarrow> unit lc_state" where
  "work s =
     \<lparr>lc_status = lc_status s, lc_blockingState = lc_blockingState s,
      lc_runAttemptStatus = lc_runAttemptStatus s, lc_itemStatuses = lc_itemStatuses s,
      lc_itemKinds = lc_itemKinds s, lc_toolCallStatuses = lc_toolCallStatuses s,
      lc_toolCallNames = lc_toolCallNames s, lc_toolCallBatches = lc_toolCallBatches s,
      lc_toolCallItems = lc_toolCallItems s, lc_approvalStatuses = lc_approvalStatuses s,
      lc_approvalItems = lc_approvalItems s, lc_approvalParents = lc_approvalParents s,
      lc_accepted = lc_accepted s, lc_completionReserved = lc_completionReserved s,
      lc_acceptedInputSequences = lc_acceptedInputSequences s,
      lc_sequence = 0, lc_clock = 0, lc_sink = ()\<rparr>"

lemma work_fields [simp]:
  "lc_status (work s) = lc_status s" "lc_blockingState (work s) = lc_blockingState s"
  "lc_runAttemptStatus (work s) = lc_runAttemptStatus s"
  "lc_itemStatuses (work s) = lc_itemStatuses s" "lc_itemKinds (work s) = lc_itemKinds s"
  "lc_toolCallStatuses (work s) = lc_toolCallStatuses s"
  "lc_toolCallNames (work s) = lc_toolCallNames s" "lc_toolCallBatches (work s) = lc_toolCallBatches s"
  "lc_toolCallItems (work s) = lc_toolCallItems s"
  "lc_approvalStatuses (work s) = lc_approvalStatuses s" "lc_approvalItems (work s) = lc_approvalItems s"
  by (simp_all add: work_def)

lemma work_updates [simp]:
  "work (s\<lparr>lc_sequence := q\<rparr>) = work s" "work (s\<lparr>lc_clock := t\<rparr>) = work s" "work (s\<lparr>lc_sink := k\<rparr>) = work s"
  "work (set_item i ist s) = set_item i ist (work s)"
  "work (set_tool_call c ist s) = set_tool_call c ist (work s)"
  "work (set_approval a ap s) = set_approval a ap (work s)"
  "work (s\<lparr>lc_status := st\<rparr>) = (work s)\<lparr>lc_status := st\<rparr>"
  "work (s\<lparr>lc_blockingState := b\<rparr>) = (work s)\<lparr>lc_blockingState := b\<rparr>"
  by (simp_all add: work_def set_item_def set_tool_call_def set_approval_def)

lemma item_status_work [simp]: "item_status (work s) i = item_status s i"
  by (simp add: item_status_def)

lemma isTerminal_work [simp]: "isTerminal (work s) = isTerminal s"
  by (simp add: isTerminal_def)

lemma set_fields [simp]:
  "lc_sequence (set_item i ist s) = lc_sequence s" "lc_sequence (set_tool_call c ist s) = lc_sequence s"
  "lc_sequence (set_approval a ap s) = lc_sequence s"
  "lc_status (set_item i ist s) = lc_status s" "lc_blockingState (set_item i ist s) = lc_blockingState s"
  "lc_runAttemptStatus (set_item i ist s) = lc_runAttemptStatus s"
  "lc_itemStatuses (set_item i ist s) = AList.update i ist (lc_itemStatuses s)"
  "lc_toolCallStatuses (set_item i ist s) = lc_toolCallStatuses s"
  "lc_toolCallItems (set_item i ist s) = lc_toolCallItems s"
  "lc_toolCallNames (set_item i ist s) = lc_toolCallNames s"
  "lc_toolCallBatches (set_item i ist s) = lc_toolCallBatches s"
  "lc_approvalStatuses (set_item i ist s) = lc_approvalStatuses s"
  "lc_approvalItems (set_item i ist s) = lc_approvalItems s"
  "lc_status (set_tool_call c ist s) = lc_status s"
  "lc_blockingState (set_tool_call c ist s) = lc_blockingState s"
  "lc_runAttemptStatus (set_tool_call c ist s) = lc_runAttemptStatus s"
  "lc_itemStatuses (set_tool_call c ist s) = lc_itemStatuses s"
  "lc_toolCallStatuses (set_tool_call c ist s) = AList.update c ist (lc_toolCallStatuses s)"
  "lc_toolCallItems (set_tool_call c ist s) = lc_toolCallItems s"
  "lc_toolCallNames (set_tool_call c ist s) = lc_toolCallNames s"
  "lc_toolCallBatches (set_tool_call c ist s) = lc_toolCallBatches s"
  "lc_approvalStatuses (set_tool_call c ist s) = lc_approvalStatuses s"
  "lc_approvalItems (set_tool_call c ist s) = lc_approvalItems s"
  "lc_status (set_approval a ap s) = lc_status s"
  "lc_blockingState (set_approval a ap s) = lc_blockingState s"
  "lc_runAttemptStatus (set_approval a ap s) = lc_runAttemptStatus s"
  "lc_itemStatuses (set_approval a ap s) = lc_itemStatuses s"
  "lc_toolCallStatuses (set_approval a ap s) = lc_toolCallStatuses s"
  "lc_toolCallItems (set_approval a ap s) = lc_toolCallItems s"
  "lc_toolCallNames (set_approval a ap s) = lc_toolCallNames s"
  "lc_toolCallBatches (set_approval a ap s) = lc_toolCallBatches s"
  "lc_approvalStatuses (set_approval a ap s) = AList.update a ap (lc_approvalStatuses s)"
  "lc_approvalItems (set_approval a ap s) = lc_approvalItems s"
  by (simp_all add: set_item_def set_tool_call_def set_approval_def)

lemma item_status_set [simp]:
  "item_status (set_item i ist s) j = (if j = i then ist else item_status s j)"
  "item_status (set_tool_call c ist s) j = item_status s j"
  "item_status (set_approval a ap s) j = item_status s j"
  by (simp_all add: item_status_def)

text \<open>What unblocking, cancelling an approval and settling a tool call do to it.\<close>

definition unblock :: "'st lc_state \<Rightarrow> 'st lc_state" where
  "unblock s = s\<lparr>lc_status := if lc_status s = Ts_awaiting_approval then Ts_in_progress else lc_status s,
                 lc_blockingState := Blocking_none\<rparr>"

definition cancel_effect :: "string \<Rightarrow> string \<Rightarrow> 'st lc_state \<Rightarrow> 'st lc_state" where
  "cancel_effect a i s = set_item i Is_declined (unblock (set_approval a Ap_cancelled s))"

definition settle_call_effect :: "string \<Rightarrow> string \<Rightarrow> ItemStatus \<Rightarrow> 'st lc_state \<Rightarrow> 'st lc_state" where
  "settle_call_effect c i st s = set_item i st (set_tool_call c st s)"

section \<open>States that can be drained\<close>

text \<open>
  Every pending approval and every active tool call owns an active item of its own, the records have
  one entry per key, and a blocked turn waits for a pending approval.
\<close>

definition owner_of :: "string js_record \<Rightarrow> string \<Rightarrow> string" where
  "owner_of r k = (case map_of r k of None \<Rightarrow> [] | Some i \<Rightarrow> i)"

definition pending_approval :: "'st lc_state \<Rightarrow> string \<Rightarrow> bool" where
  "pending_approval s a \<longleftrightarrow> map_of (lc_approvalStatuses s) a = Some Ap_pending"

definition active_call :: "'st lc_state \<Rightarrow> string \<Rightarrow> bool" where
  "active_call s c \<longleftrightarrow> map_of (lc_toolCallStatuses s) c = Some Is_active"

definition owns_active_item :: "'st lc_state \<Rightarrow> string js_record \<Rightarrow> string \<Rightarrow> bool" where
  "owns_active_item s r k \<longleftrightarrow> owner_of r k \<noteq> [] \<and> item_status s (owner_of r k) = Is_active"

definition interruptible :: "'st lc_state \<Rightarrow> bool" where
  "interruptible s \<longleftrightarrow>
     turn_agrees s \<and> \<not> isTerminal s \<and>
     distinct_keys (lc_itemStatuses s) \<and> distinct_keys (lc_approvalStatuses s) \<and>
     distinct_keys (lc_toolCallStatuses s) \<and>
     (\<forall>i. map_of (lc_itemStatuses s) i \<noteq> Some Is_not_started) \<and>
     (\<forall>a. pending_approval s a \<longrightarrow> owns_active_item s (lc_approvalItems s) a) \<and>
     (\<forall>c. active_call s c \<longrightarrow> owns_active_item s (lc_toolCallItems s) c) \<and>
     (\<forall>a b. pending_approval s a \<longrightarrow> pending_approval s b \<longrightarrow>
        owner_of (lc_approvalItems s) a = owner_of (lc_approvalItems s) b \<longrightarrow> a = b) \<and>
     (\<forall>c d. active_call s c \<longrightarrow> active_call s d \<longrightarrow>
        owner_of (lc_toolCallItems s) c = owner_of (lc_toolCallItems s) d \<longrightarrow> c = d) \<and>
     (\<forall>a c. pending_approval s a \<longrightarrow> active_call s c \<longrightarrow>
        owner_of (lc_approvalItems s) a \<noteq> owner_of (lc_toolCallItems s) c) \<and>
     (lc_blockingState s \<noteq> Blocking_none \<longrightarrow> (\<exists>a. pending_approval s a))"

lemma owner_Some: "owner_of r k \<noteq> [] \<Longrightarrow> map_of r k = Some (owner_of r k)"
  by (simp add: owner_of_def split: option.splits)

lemma unblock_agrees: "turn_agrees s \<Longrightarrow> turn_agrees (unblock s)"
  by (auto simp: turn_agrees_def unblock_def)

lemma unblock_fields [simp]:
  "lc_itemStatuses (unblock s) = lc_itemStatuses s" "lc_toolCallStatuses (unblock s) = lc_toolCallStatuses s"
  "lc_toolCallItems (unblock s) = lc_toolCallItems s" "lc_toolCallNames (unblock s) = lc_toolCallNames s"
  "lc_toolCallBatches (unblock s) = lc_toolCallBatches s"
  "lc_approvalStatuses (unblock s) = lc_approvalStatuses s" "lc_approvalItems (unblock s) = lc_approvalItems s"
  "lc_blockingState (unblock s) = Blocking_none" "item_status (unblock s) i = item_status s i"
  "isTerminal (unblock s) = isTerminal s"
  by (simp_all add: unblock_def item_status_def isTerminal_def)

lemma set_agrees [simp]:
  "turn_agrees (set_item i ist s) = turn_agrees s" "turn_agrees (set_tool_call c ist s) = turn_agrees s"
  "turn_agrees (set_approval a ap s) = turn_agrees s"
  "isTerminal (set_item i ist s) = isTerminal s" "isTerminal (set_tool_call c ist s) = isTerminal s"
  "isTerminal (set_approval a ap s) = isTerminal s"
  by (simp_all add: turn_agrees_def isTerminal_def set_item_def set_tool_call_def set_approval_def)

lemma cancel_pending [simp]:
  "pending_approval (cancel_effect a i s) b \<longleftrightarrow> b \<noteq> a \<and> pending_approval s b"
  "active_call (cancel_effect a i s) c = active_call s c"
  by (simp_all add: pending_approval_def active_call_def cancel_effect_def)

lemma cancel_interruptible:
  assumes "interruptible s" and "pending_approval s a"
  shows "interruptible (cancel_effect a (owner_of (lc_approvalItems s) a) s)"
proof -
  let ?i = "owner_of (lc_approvalItems s) a"
  have fields: "lc_approvalItems (cancel_effect a ?i s) = lc_approvalItems s"
    "lc_toolCallItems (cancel_effect a ?i s) = lc_toolCallItems s"
    "lc_blockingState (cancel_effect a ?i s) = Blocking_none"
    "isTerminal (cancel_effect a ?i s) = isTerminal s"
    "turn_agrees s \<Longrightarrow> turn_agrees (cancel_effect a ?i s)"
    "lc_itemStatuses (cancel_effect a ?i s) = AList.update ?i Is_declined (lc_itemStatuses s)"
    "lc_approvalStatuses (cancel_effect a ?i s) = AList.update a Ap_cancelled (lc_approvalStatuses s)"
    "lc_toolCallStatuses (cancel_effect a ?i s) = lc_toolCallStatuses s"
    "item_status (cancel_effect a ?i s) j = (if j = ?i then Is_declined else item_status s j)" for j
    by (simp_all add: cancel_effect_def unblock_agrees)
  show ?thesis
    using assms unfolding interruptible_def owns_active_item_def
    by (simp only: cancel_pending fields) (auto simp: distinct_update; metis)
qed

lemma call_settled [simp]:
  "isTerminalItemStatus st \<Longrightarrow> active_call (settle_call_effect c i st s) d \<longleftrightarrow> d \<noteq> c \<and> active_call s d"
  "pending_approval (settle_call_effect c i st s) a = pending_approval s a"
  by (auto simp: pending_approval_def active_call_def settle_call_effect_def isTerminalItemStatus_def)

lemma call_interruptible:
  assumes "interruptible s" and "active_call s c" and "isTerminalItemStatus st"
  shows "interruptible (settle_call_effect c (owner_of (lc_toolCallItems s) c) st s)"
proof -
  let ?i = "owner_of (lc_toolCallItems s) c"
  have fields: "lc_approvalItems (settle_call_effect c ?i st s) = lc_approvalItems s"
    "lc_toolCallItems (settle_call_effect c ?i st s) = lc_toolCallItems s"
    "lc_blockingState (settle_call_effect c ?i st s) = lc_blockingState s"
    "isTerminal (settle_call_effect c ?i st s) = isTerminal s"
    "turn_agrees (settle_call_effect c ?i st s) = turn_agrees s"
    "lc_itemStatuses (settle_call_effect c ?i st s) = AList.update ?i st (lc_itemStatuses s)"
    "lc_approvalStatuses (settle_call_effect c ?i st s) = lc_approvalStatuses s"
    "lc_toolCallStatuses (settle_call_effect c ?i st s) = AList.update c st (lc_toolCallStatuses s)"
    "item_status (settle_call_effect c ?i st s) j = (if j = ?i then st else item_status s j)" for j
    by (simp_all add: settle_call_effect_def)
  have st: "st \<noteq> Is_not_started"
    using assms(3) by (simp add: isTerminalItemStatus_def)
  show ?thesis
    using assms(1,2) st unfolding interruptible_def owns_active_item_def
    by (simp only: call_settled(1) [OF assms(3)] call_settled(2) fields) (auto simp: distinct_update; metis)
qed

lemma item_interruptible:
  assumes "interruptible s" and "\<And>a. \<not> pending_approval s a" and "\<And>c. \<not> active_call s c"
    and "isTerminalItemStatus st"
  shows "interruptible (set_item i st s)"
proof -
  have "pending_approval (set_item i st s) a = pending_approval s a" "active_call (set_item i st s) c = active_call s c" for a c
    by (simp_all add: pending_approval_def active_call_def)
  with assms show ?thesis
    by (auto simp: interruptible_def isTerminalItemStatus_def distinct_update)
qed

section \<open>The events a state still needs\<close>

text \<open>
  Cancelling an approval writes three events, settling a tool call two, settling an item one. An item
  that an approval or a tool call owns is settled with it, so \<open>open_work\<close> counts each event once.
\<close>

definition count_with :: "'v \<Rightarrow> 'v js_record \<Rightarrow> nat" where
  "count_with v r = length (filter (\<lambda>(k, x). x = v) r)"

definition open_work :: "'st lc_state \<Rightarrow> nat" where
  "open_work s =
     2 * count_with Ap_pending (lc_approvalStatuses s) +
     count_with Is_active (lc_toolCallStatuses s) + count_with Is_active (lc_itemStatuses s)"

lemma count_with_update:
  "distinct_keys r \<Longrightarrow> map_of r k = Some v \<Longrightarrow> v' \<noteq> v \<Longrightarrow> Suc (count_with v (AList.update k v' r)) = count_with v r"
  by (induction r) (auto simp: count_with_def split: if_splits)

lemma active_item_entry: "item_status s i = Is_active \<Longrightarrow> map_of (lc_itemStatuses s) i = Some Is_active"
  by (simp add: item_status_def split: option.splits)

lemma open_work_work [simp]: "open_work (work s) = open_work s"
  by (simp add: open_work_def)

lemma open_work_item:
  assumes "distinct_keys (lc_itemStatuses s)" and "item_status s i = Is_active" and "st \<noteq> Is_active"
  shows "open_work (set_item i st s) + 1 = open_work s"
  using count_with_update [OF assms(1) active_item_entry [OF assms(2)] assms(3)]
  by (simp add: open_work_def)

lemma open_work_call:
  assumes "interruptible s" and "active_call s c" and "item_status s i = Is_active" and "st \<noteq> Is_active"
  shows "open_work (settle_call_effect c i st s) + 2 = open_work s"
  using count_with_update [OF _ active_item_entry [OF assms(3)] assms(4)]
    count_with_update [of "lc_toolCallStatuses s" c Is_active st] assms(1,2,4)
  by (simp add: open_work_def settle_call_effect_def interruptible_def active_call_def)

lemma open_work_cancel:
  assumes "interruptible s" and "pending_approval s a" and "item_status s i = Is_active"
  shows "open_work (cancel_effect a i s) + 3 = open_work s"
  using count_with_update [OF _ active_item_entry [OF assms(3)], of Is_declined]
    count_with_update [of "lc_approvalStatuses s" a Ap_pending Ap_cancelled] assms(1,2)
  by (simp add: open_work_def cancel_effect_def interruptible_def pending_approval_def)

section \<open>Events the schema accepts\<close>

text \<open>
  The event schema and the schema of event identifiers take the fields under every sequence number
  that is a safe integer and with every reading of the clock the coordinator was given.
\<close>

definition accepts :: "'st lc_options \<Rightarrow> EventFields \<Rightarrow> bool" where
  "accepts env f \<longleftrightarrow> (\<forall>n k. safe_sequence n \<longrightarrow>
     (\<exists>eid ev. opt_parseEventId env (event_id env n) = Some eid \<and>
        opt_parseEvent env (raw_event env f n eid (opt_now env k)) = Some ev))"

text \<open>The events by which a state is drained and settled.\<close>

definition cancel_events :: "'st lc_state \<Rightarrow> string \<Rightarrow> EventFields list" where
  "cancel_events s reason =
     turn_event E_turn_blocking_changed [(''blockingState'', PBlocking Blocking_none)] #
     concat (map (\<lambda>(a, i).
       [approval_event E_approval_decided i a
          (AList.update ''status'' (PApproval Ap_cancelled) [(''reason'', PStr reason)]),
        item_event E_item_declined i [(''reason'', PStr ''Approval cancelled'')]]) (lc_approvalItems s))"

definition call_metadata :: "'st lc_state \<Rightarrow> string \<Rightarrow> JsonRecord" where
  "call_metadata s c =
     optional_entry ''toolName'' (map_of (lc_toolCallNames s) c) @
     optional_entry ''callBatchId'' (map_of (lc_toolCallBatches s) c)"

definition work_events :: "'st lc_state \<Rightarrow> ItemStatus \<Rightarrow> JsonRecord \<Rightarrow> EventFields list" where
  "work_events s st p =
     map (\<lambda>(c, i). tool_event (tool_call_settled_event st) i c (spread p (call_metadata s c)))
       (lc_toolCallItems s) @
     map (\<lambda>(i, _). item_event (item_settled_event st) i p) (lc_itemStatuses s)"

definition outcome_events :: "TurnTerminalOutcome \<Rightarrow> EventFields list" where
  "outcome_events outcome =
     [turn_event (attempt_terminal_event (outcome_status outcome)) (attempt_payload outcome),
      turn_event (turn_terminal_event (outcome_status outcome)) [(''outcome'', outcome_value outcome)]]"

definition answer_events :: "string \<Rightarrow> string \<Rightarrow> EventFields list" where
  "answer_events out i =
     item_event E_item_started i (AList.update ''kind'' (PKind Kind_assistant_message) []) #
     map (\<lambda>delta. item_event E_assistant_message_delta i [(''phase'', PStr ''final_answer''), (''delta'', PStr delta)])
       (splitLifecycleOutput out) @
     item_event E_item_completed i [(''result'', PObj [(''output'', PStr out)])] # outcome_events Outcome_completed"

lemma set_update_subset: "set (AList.update k v al) \<subseteq> insert (k, v) (set al)"
  by (induction al) auto

context reliable_sink
begin

abbreviation synced :: "'a lc_options \<Rightarrow> 'a lc_state \<Rightarrow> bool" where
  "synced env s \<equiv> log_synced sink_log sink_inv (opt_turnId env) s"

lemma createEvent_ok:
  assumes "lawful_writer append_events admissible env" and "accepts env f" and "safe_sequence (lc_sequence s + n)"
  shows "\<exists>ev. createEvent env f n s = (Inr ev, s\<lparr>lc_clock := lc_clock s + 1\<rparr>) \<and> admissible ev \<and>
    turnId ev = opt_turnId env \<and> sequence ev = lc_sequence s + n \<and> etype ev = f_type f"
proof -
  obtain eid ev where eid: "opt_parseEventId env (event_id env (lc_sequence s + n)) = Some eid"
    and ev: "opt_parseEvent env (raw_event env f (lc_sequence s + n) eid (opt_now env (lc_clock s))) = Some ev"
    using assms(2,3) unfolding accepts_def by blast
  moreover have "admissible ev \<and> turnId ev = opt_turnId env \<and> sequence ev = lc_sequence s + n \<and> etype ev = f_type f"
    using assms(1) eid ev unfolding lawful_writer_def by blast
  ultimately show ?thesis
    by (simp add: createEvent_def event_id_def Let_def)
qed

lemma emit_ok:
  assumes env: "lawful_writer append_events admissible env" and s: "synced env s" "\<not> isTerminal s"
    and f: "accepts env f" "\<not> terminal_event_type (f_type f)" and room: "safe_sequence (lc_sequence s + 1)"
  shows "\<exists>s'. emit env f s = (Inr (), s') \<and> synced env s' \<and> work s' = work s \<and> lc_sequence s' = lc_sequence s + 1"
proof -
  let ?s = "s\<lparr>lc_clock := lc_clock s + 1\<rparr>"
  obtain ev where ev: "createEvent env f 1 s = (Inr ev, ?s)" "admissible ev" "turnId ev = opt_turnId env"
    "sequence ev = lc_sequence s + 1" "etype ev = f_type f"
    using createEvent_ok [OF env f(1) room] by blast
  have "contiguous_stream (opt_turnId env) (sink_log (lc_sink s) (opt_turnId env) @ [ev])"
    using ev by (intro contiguous_next [OF s]) simp_all
  then obtain rs k where k: "append_events [ev] (lc_sink s) = (Inr rs, k)"
    using append_progress [of "lc_sink s" "[ev]" "opt_turnId env"] s(1) ev(2)
    by (auto simp: log_synced_def)
  have run: "emit env f s = (Inr (), ?s\<lparr>lc_sink := k, lc_sequence := sequence ev\<rparr>)"
    using s(2) ev(1) k env
    by (simp add: emit_def op_defs assertTurnAcceptsLifecycleEvent_def isTerminal_def call_sink_def
        lawful_writer_def)
  then have "synced env (?s\<lparr>lc_sink := k, lc_sequence := sequence ev\<rparr>)"
    using keepsD [OF emit_synced [OF env f(2)] s(1)] by simp
  with run ev(4) show ?thesis by simp
qed

lemma settleItem_ok:
  assumes env: "lawful_writer append_events admissible env" and s: "synced env s" "\<not> isTerminal s"
    and i: "item_status s i = Is_active" "isTerminalItemStatus st"
    and f: "accepts env (item_event (item_settled_event st) i p)" and room: "safe_sequence (lc_sequence s + 1)"
  shows "\<exists>s'. settleItem env i st p s = (Inr (), s') \<and> synced env s' \<and> work s' = set_item i st (work s) \<and>
    lc_sequence s' = lc_sequence s + 1"
proof -
  obtain s' where s': "emit env (item_event (item_settled_event st) i p) s = (Inr (), s')"
    "synced env s'" "work s' = work s" "lc_sequence s' = lc_sequence s + 1"
    using emit_ok [OF env s f _ room] settled_event_types by auto
  moreover have "transitionItemStatus Is_active st = Inr st"
    using i(2) by (cases st) (simp_all add: transition_defs isTerminalItemStatus_def)
  ultimately show ?thesis
    using i(1) by (auto simp: settleItem_def op_defs synced_bookkeeping)
qed


lemma changeBlocking_none_ok:
  assumes env: "lawful_writer append_events admissible env" and s: "synced env s" "\<not> isTerminal s"
    and f: "accepts env (turn_event E_turn_blocking_changed [(''blockingState'', PBlocking Blocking_none)])"
    and room: "safe_sequence (lc_sequence s + 1)"
  shows "\<exists>s'. changeBlocking env Blocking_none s = (Inr (), s') \<and> synced env s' \<and> work s' = unblock (work s) \<and>
    lc_sequence s' = lc_sequence s + 1"
proof -
  obtain s1 where s1: "emit env (turn_event E_turn_blocking_changed [(''blockingState'', PBlocking Blocking_none)]) s
      = (Inr (), s1)" "synced env s1" "work s1 = work s" "lc_sequence s1 = lc_sequence s + 1"
    using emit_ok [OF env s f _ room] by (auto simp: terminal_event_type_def)
  have st: "lc_status s1 = lc_status s"
    using arg_cong [OF s1(3), of lc_status] by simp
  have "changeBlocking env Blocking_none s = (Inr (), unblock s1)"
    using s1(1) st
    by (auto simp: changeBlocking_def op_defs unblock_def transition_defs)
  moreover have "synced env (unblock s1)"
    using keepsD [OF changeBlocking_synced [OF env] s(1), of Blocking_none] calculation by simp
  ultimately show ?thesis using s1(3,4) st by (simp add: unblock_def)
qed

lemma decideApproval_ok:
  assumes env: "lawful_writer append_events admissible env" and s: "synced env s" "\<not> isTerminal s"
    and a: "map_of (lc_approvalStatuses s) a = Some Ap_pending" "map_of (lc_approvalItems s) a = Some i"
      "i \<noteq> []" "item_status s i = Is_active"
    and f: "list_all (accepts env) (cancel_events s r)" and room: "safe_sequence (lc_sequence s + 3)"
  shows "\<exists>s'. decideApproval env a Ap_cancelled [(''reason'', PStr r)] s = (Inr (), s') \<and>
    synced env s' \<and> work s' = cancel_effect a i (work s) \<and> lc_sequence s' = lc_sequence s + 3"
proof -
  let ?f1 = "approval_event E_approval_decided i a
      (AList.update ''status'' (PApproval Ap_cancelled) [(''reason'', PStr r)])"
  have f1: "accepts env ?f1" and f2: "accepts env (item_event (item_settled_event Is_declined) i [(''reason'', PStr ''Approval cancelled'')])"
    and f3: "accepts env (turn_event E_turn_blocking_changed [(''blockingState'', PBlocking Blocking_none)])"
    using f map_of_SomeD [OF a(2)] by (auto simp: cancel_events_def list_all_iff)
  note room' = safe_sequence_le [OF room]
  obtain s1 where s1: "emit env ?f1 s = (Inr (), s1)" "synced env s1" "work s1 = work s" "lc_sequence s1 = lc_sequence s + 1"
    using emit_ok [OF env s f1 _ room'] by (auto simp: terminal_event_type_def)
  let ?s1 = "set_approval a Ap_cancelled s1"
  have t1: "synced env ?s1" "\<not> isTerminal ?s1"
    using s1(2) s(2) arg_cong [OF s1(3), of isTerminal] by (simp_all add: synced_bookkeeping isTerminal_def)
  obtain s2 where s2: "changeBlocking env Blocking_none ?s1 = (Inr (), s2)" "synced env s2"
    "work s2 = unblock (set_approval a Ap_cancelled (work s))" "lc_sequence s2 = lc_sequence s + 2"
    using changeBlocking_none_ok [OF env t1 f3 room'] s1(3,4) by auto
  have t2: "\<not> isTerminal s2" "item_status s2 i = Is_active" "map_of (lc_approvalItems s2) a = Some i"
    using s(2) a arg_cong [OF s2(3), of isTerminal] arg_cong [OF s2(3), of "\<lambda>s. item_status s i"]
      arg_cong [OF s2(3), of lc_approvalItems]
    by (auto simp: unblock_def isTerminal_def item_status_def)
  obtain s3 where s3: "settleItem env i Is_declined [(''reason'', PStr ''Approval cancelled'')] s2 = (Inr (), s3)"
    "synced env s3" "work s3 = set_item i Is_declined (work s2)" "lc_sequence s3 = lc_sequence s + 3"
    using settleItem_ok [OF env s2(2) t2(1,2) _ f2 room'] s2(4) by (auto simp: isTerminalItemStatus_def)
  have "decideApproval env a Ap_cancelled [(''reason'', PStr r)] s = (Inr (), s3)"
    using a s1(1) s2(1) s3(1) t2(3)
    by (simp add: decideApproval_def op_defs transition_defs requireApprovalItem_def)
  with s3 s2(3) show ?thesis by (auto simp: cancel_effect_def)
qed

lemma settleToolCall_ok:
  assumes env: "lawful_writer append_events admissible env" and s: "synced env s" "\<not> isTerminal s"
    and c: "map_of (lc_toolCallStatuses s) c = Some Is_active" "map_of (lc_toolCallItems s) c = Some i"
      "i \<noteq> []" "item_status s i = Is_active" and st: "isTerminalItemStatus st"
    and f: "list_all (accepts env) (work_events s st p)" and room: "safe_sequence (lc_sequence s + 2)"
  shows "\<exists>s'. settleToolCall env c st p s = (Inr (), s') \<and>
    synced env s' \<and> work s' = settle_call_effect c i st (work s) \<and> lc_sequence s' = lc_sequence s + 2"
proof -
  let ?f1 = "tool_event (tool_call_settled_event st) i c (spread p (call_metadata s c))"
  have f1: "accepts env ?f1"
    using f map_of_SomeD [OF c(2)] by (auto simp: work_events_def list_all_iff)
  have "i \<in> fst ` set (lc_itemStatuses s)"
    using c(4) by (force simp: item_status_def split: option.splits dest: map_of_SomeD)
  then have f2: "accepts env (item_event (item_settled_event st) i p)"
    using f by (auto simp: work_events_def list_all_iff)
  note room' = safe_sequence_le [OF room]
  obtain s1 where s1: "emit env ?f1 s = (Inr (), s1)" "synced env s1" "work s1 = work s" "lc_sequence s1 = lc_sequence s + 1"
    using emit_ok [OF env s f1 _ room'] settled_event_types by auto
  let ?s1 = "set_tool_call c st s1"
  have t1: "synced env ?s1" "\<not> isTerminal ?s1" "item_status ?s1 i = Is_active"
    using s1(2) s(2) c(4) arg_cong [OF s1(3), of isTerminal] arg_cong [OF s1(3), of "\<lambda>s. item_status s i"]
    by (simp_all add: synced_bookkeeping isTerminal_def)
  obtain s2 where s2: "settleItem env i st p ?s1 = (Inr (), s2)" "synced env s2"
    "work s2 = set_item i st (work ?s1)" "lc_sequence s2 = lc_sequence s + 2"
    using settleItem_ok [OF env t1 st f2 room'] s1(4) by auto
  have "transitionToolCallStatus Is_active st = Inr st"
    using st by (cases st) (simp_all add: transition_defs isTerminalItemStatus_def)
  then have "settleToolCall env c st p s = (Inr (), s2)"
    using c s1(1) s2(1)
    by (simp add: settleToolCall_def op_defs requireActiveToolCall_def requireToolCallItem_def call_metadata_def)
  with s2 s1(3) show ?thesis by (auto simp: settle_call_effect_def)
qed


text \<open>
  The three loops. \<open>same_ids\<close>: draining a state changes neither the owners nor the set of items, so
  the events of the initial state are the events that are emitted.
\<close>

abbreviation same_ids :: "'x lc_state \<Rightarrow> 'y lc_state \<Rightarrow> bool" where
  "same_ids s0 s \<equiv> lc_approvalItems s = lc_approvalItems s0 \<and> lc_toolCallItems s = lc_toolCallItems s0 \<and>
     lc_toolCallNames s = lc_toolCallNames s0 \<and> lc_toolCallBatches s = lc_toolCallBatches s0 \<and>
     fst ` set (lc_itemStatuses s) = fst ` set (lc_itemStatuses s0)"

lemma events_same_ids:
  assumes "same_ids s0 s"
  shows "cancel_events s r = cancel_events s0 r"
    and "list_all (accepts env) (work_events s0 st p) \<Longrightarrow> list_all (accepts env) (work_events s st p)"
proof -
  show "cancel_events s r = cancel_events s0 r"
    using assms by (simp add: cancel_events_def)
  assume *: "list_all (accepts env) (work_events s0 st p)"
  have "accepts env (item_event (item_settled_event st) i p)" if "i \<in> fst ` set (lc_itemStatuses s0)" for i
    using * that by (auto simp: work_events_def list_all_iff)
  then have "accepts env (item_event (item_settled_event st) i p)" if "(i, x) \<in> set (lc_itemStatuses s)" for i x
    using assms that by (metis fst_conv image_eqI)
  moreover have "call_metadata s = call_metadata s0"
    using assms by (auto simp: call_metadata_def fun_eq_iff)
  ultimately show "list_all (accepts env) (work_events s st p)"
    using * assms by (auto simp: work_events_def list_all_iff)
qed

lemma update_present: "map_of r k \<noteq> None \<Longrightarrow> fst ` set (AList.update k v r) = fst ` set r"
  by (induction r) (auto split: if_splits)

lemma interruptible_work [simp]:
  "interruptible (work s) = interruptible s" "pending_approval (work s) a = pending_approval s a"
  "active_call (work s) c = active_call s c"
proof -
  have "turn_agrees (work s) = turn_agrees s"
    by (simp add: turn_agrees_def) (simp add: work_def)
  moreover show "pending_approval (work s) a = pending_approval s a" "active_call (work s) c = active_call s c" for a c
    by (simp_all add: pending_approval_def active_call_def)
  ultimately show "interruptible (work s) = interruptible s"
    by (simp add: interruptible_def owns_active_item_def)
qed

definition drainable :: "'a lc_options \<Rightarrow> 'a lc_state \<Rightarrow> 'a lc_state \<Rightarrow> bool" where
  "drainable env s0 s \<longleftrightarrow> synced env s \<and> interruptible s \<and> same_ids s0 s \<and>
     lc_sequence s + open_work s = lc_sequence s0 + open_work s0"

lemma active_item_present: "item_status s i = Is_active \<Longrightarrow> map_of (lc_itemStatuses s) i \<noteq> None"
  by (auto simp: item_status_def split: option.splits)

lemma cancel_step:
  assumes env: "lawful_writer append_events admissible env" and f: "list_all (accepts env) (cancel_events s0 r)"
    and room: "safe_sequence (lc_sequence s0 + open_work s0)"
    and s: "drainable env s0 s" "pending_approval s a"
  shows "wpE (decideApproval env a Ap_cancelled [(''reason'', PStr r)])
    (\<lambda>_ s'. drainable env s0 s' \<and> (\<forall>b. pending_approval s' b \<longleftrightarrow> b \<noteq> a \<and> pending_approval s b))
    (\<lambda>_ _. False) s"
proof -
  let ?i = "owner_of (lc_approvalItems s) a"
  have I: "interruptible s" and sync: "synced env s" and ids: "same_ids s0 s"
    and left: "lc_sequence s + open_work s = lc_sequence s0 + open_work s0"
    using s(1) by (simp_all add: drainable_def)
  have own: "?i \<noteq> []" "item_status s ?i = Is_active" and nt: "\<not> isTerminal s"
    using I s(2) by (auto simp: interruptible_def owns_active_item_def)
  have "list_all (accepts env) (cancel_events s r)"
    using f events_same_ids(1) [OF ids] by simp
  moreover have less: "open_work (cancel_effect a ?i (work s)) + 3 = open_work s"
    using open_work_cancel [of "work s" a ?i] I s(2) own(2) by simp
  then have "safe_sequence (lc_sequence s + 3)"
    using left by (intro safe_sequence_le [OF room]) simp
  ultimately obtain s2 where s2: "decideApproval env a Ap_cancelled [(''reason'', PStr r)] s = (Inr (), s2)"
    "synced env s2" "work s2 = cancel_effect a ?i (work s)" "lc_sequence s2 = lc_sequence s + 3"
    using decideApproval_ok [OF env sync nt _ owner_Some [OF own(1)] own] s(2) by (auto simp: pending_approval_def)
  have "lc_sequence s2 + open_work s2 = lc_sequence s + open_work s"
    using arg_cong [OF s2(3), of open_work] s2(4) less by simp
  moreover
  have "interruptible (work s2)"
    using cancel_interruptible [of "work s" a] I s(2) s2(3) by simp
  moreover have "pending_approval s2 b \<longleftrightarrow> b \<noteq> a \<and> pending_approval s b" for b
    using arg_cong [OF s2(3), of "\<lambda>w. pending_approval w b"] by simp
  moreover have "same_ids s (work s2)"
    using update_present [OF active_item_present [OF own(2)]] by (simp add: s2(3) cancel_effect_def)
  ultimately show ?thesis
    using s2(1,2) ids left by (simp add: wpE_def drainable_def)
qed

lemma call_step:
  assumes env: "lawful_writer append_events admissible env" and f: "list_all (accepts env) (work_events s0 st p)"
    and st: "isTerminalItemStatus st" and room: "safe_sequence (lc_sequence s0 + open_work s0)"
    and s: "drainable env s0 s \<and> (\<forall>a. \<not> pending_approval s a)" "active_call s c"
  shows "wpE (settleToolCall env c st p)
    (\<lambda>_ s'. (drainable env s0 s' \<and> (\<forall>a. \<not> pending_approval s' a)) \<and>
       (\<forall>d. active_call s' d \<longleftrightarrow> d \<noteq> c \<and> active_call s d)) (\<lambda>_ _. False) s"
proof -
  let ?i = "owner_of (lc_toolCallItems s) c"
  have I: "interruptible s" and sync: "synced env s" and ids: "same_ids s0 s"
    and left: "lc_sequence s + open_work s = lc_sequence s0 + open_work s0"
    using s(1) by (simp_all add: drainable_def)
  have own: "?i \<noteq> []" "item_status s ?i = Is_active" and nt: "\<not> isTerminal s"
    using I s(2) by (auto simp: interruptible_def owns_active_item_def)
  have less: "open_work (settle_call_effect c ?i st (work s)) + 2 = open_work s"
    using open_work_call [of "work s" c ?i st] I s(2) own(2) st by (auto simp: isTerminalItemStatus_def)
  then have "safe_sequence (lc_sequence s + 2)"
    using left by (intro safe_sequence_le [OF room]) simp
  from settleToolCall_ok [OF env sync nt _ owner_Some [OF own(1)] own st events_same_ids(2) [OF ids f] this] s(2)
  obtain s2 where s2: "settleToolCall env c st p s = (Inr (), s2)"
    "synced env s2" "work s2 = settle_call_effect c ?i st (work s)" "lc_sequence s2 = lc_sequence s + 2"
    by (auto simp: active_call_def)
  have "lc_sequence s2 + open_work s2 = lc_sequence s + open_work s"
    using arg_cong [OF s2(3), of open_work] s2(4) less by simp
  moreover
  have "interruptible (work s2)"
    using call_interruptible [of "work s" c st] I s(2) s2(3) st by simp
  moreover have "active_call s2 d \<longleftrightarrow> d \<noteq> c \<and> active_call s d" "pending_approval s2 a = pending_approval s a" for a d
    using arg_cong [OF s2(3), of "\<lambda>w. active_call w d"] arg_cong [OF s2(3), of "\<lambda>w. pending_approval w a"] st
    by simp_all
  moreover have "same_ids s (work s2)"
    using update_present [OF active_item_present [OF own(2)]] by (simp add: s2(3) settle_call_effect_def)
  ultimately show ?thesis
    using s2(1,2) s(1) ids left by (simp add: wpE_def drainable_def)
qed

lemma item_step:
  assumes env: "lawful_writer append_events admissible env" and f: "list_all (accepts env) (work_events s0 st p)"
    and st: "isTerminalItemStatus st" and room: "safe_sequence (lc_sequence s0 + open_work s0)"
    and s: "drainable env s0 s \<and> (\<forall>a. \<not> pending_approval s a) \<and> (\<forall>c. \<not> active_call s c)" "item_status s i = Is_active"
  shows "wpE (settleItem env i st p)
    (\<lambda>_ s'. (drainable env s0 s' \<and> (\<forall>a. \<not> pending_approval s' a) \<and> (\<forall>c. \<not> active_call s' c)) \<and>
       (\<forall>j. (item_status s' j = Is_active) = (j \<noteq> i \<and> item_status s j = Is_active))) (\<lambda>_ _. False) s"
proof -
  have I: "interruptible s" and sync: "synced env s" and ids: "same_ids s0 s"
    and left: "lc_sequence s + open_work s = lc_sequence s0 + open_work s0"
    using s(1) by (simp_all add: drainable_def)
  have nt: "\<not> isTerminal s"
    using I by (simp add: interruptible_def)
  have "i \<in> fst ` set (lc_itemStatuses s0)"
    using ids active_item_present [OF s(2)] by (metis domIff dom_map_of_conv_image_fst)
  then have acc: "accepts env (item_event (item_settled_event st) i p)"
    using f by (auto simp: work_events_def list_all_iff)
  have less: "open_work (set_item i st (work s)) + 1 = open_work s"
    using open_work_item [of "work s" i st] I s(2) st by (auto simp: interruptible_def isTerminalItemStatus_def)
  then have "safe_sequence (lc_sequence s + 1)"
    using left by (intro safe_sequence_le [OF room]) simp
  from settleItem_ok [OF env sync nt s(2) st acc this]
  obtain s2 where s2: "settleItem env i st p s = (Inr (), s2)" "synced env s2" "work s2 = set_item i st (work s)"
    "lc_sequence s2 = lc_sequence s + 1"
    by blast
  have "lc_sequence s2 + open_work s2 = lc_sequence s + open_work s"
    using arg_cong [OF s2(3), of open_work] s2(4) less by simp
  moreover
  have "interruptible (work s2)"
    unfolding s2(3) using I s(1) st by (intro item_interruptible) simp_all
  moreover have "active_call s2 c = active_call s c" "pending_approval s2 a = pending_approval s a" for a c
    using arg_cong [OF s2(3), of "\<lambda>w. active_call w c"] arg_cong [OF s2(3), of "\<lambda>w. pending_approval w a"]
    by (simp_all add: active_call_def pending_approval_def)
  moreover have "item_status s2 j = (if j = i then st else item_status s j)" for j
    using arg_cong [OF s2(3), of "\<lambda>w. item_status w j"] by simp
  moreover have "same_ids s (work s2)"
    using update_present [OF active_item_present [OF s(2)]] by (simp add: s2(3))
  ultimately show ?thesis
    using s2(1,2) s(1) ids st left by (auto simp: wpE_def drainable_def isTerminalItemStatus_def)
qed


text \<open>The whole drain, then the settlement.\<close>

lemma cancel_loop:
  assumes env: "lawful_writer append_events admissible env" and f: "list_all (accepts env) (cancel_events s r)"
    and s: "drainable env s s" and room: "safe_sequence (lc_sequence s + open_work s)"
  shows "wpE (cancelPendingApprovals env r)
    (\<lambda>_ s'. drainable env s s' \<and> (\<forall>a. \<not> pending_approval s' a)) (\<lambda>_ _. False) s"
  unfolding cancelPendingApprovals_def wp_simps
proof (rule wpE_drain_loop [where R = "drainable env s" and live = pending_approval])
  show "drainable env s s" by (rule s)
  show "distinct_keys (lc_approvalStatuses s)"
    using s by (simp add: drainable_def interruptible_def)
  then show "pending_approval s a \<longleftrightarrow> (a, Ap_pending) \<in> set (lc_approvalStatuses s)" for a
    by (simp add: pending_approval_def)
qed (rule cancel_step [OF env f room])

lemma work_loop:
  assumes env: "lawful_writer append_events admissible env" and f: "list_all (accepts env) (work_events s0 st p)"
    and st: "isTerminalItemStatus st" and room: "safe_sequence (lc_sequence s0 + open_work s0)"
    and s: "drainable env s0 s \<and> (\<forall>a. \<not> pending_approval s a)"
  shows "wpE (settleOpenWork env st p)
    (\<lambda>_ s'. (drainable env s0 s' \<and> (\<forall>a. \<not> pending_approval s' a) \<and> (\<forall>c. \<not> active_call s' c)) \<and>
       (\<forall>i. item_status s' i \<noteq> Is_active)) (\<lambda>_ _. False) s"
proof -
  have calls: "wpE (forE (lc_toolCallStatuses s) (\<lambda>(c, current). whenE (current = Is_active) (settleToolCall env c st p)))
      (\<lambda>_ s'. (drainable env s0 s' \<and> (\<forall>a. \<not> pending_approval s' a)) \<and> (\<forall>c. \<not> active_call s' c)) (\<lambda>_ _. False) s"
  proof (rule wpE_drain_loop [where live = active_call and
        R = "\<lambda>s. drainable env s0 s \<and> (\<forall>a. \<not> pending_approval s a)"])
    show "drainable env s0 s \<and> (\<forall>a. \<not> pending_approval s a)" by (rule s)
    show "distinct_keys (lc_toolCallStatuses s)"
      using s by (simp add: drainable_def interruptible_def)
    then show "active_call s c \<longleftrightarrow> (c, Is_active) \<in> set (lc_toolCallStatuses s)" for c
      by (simp add: active_call_def)
  qed (rule call_step [OF env f st room])
  have items: "wpE (forE (lc_itemStatuses s1) (\<lambda>(i, current). whenE (current = Is_active) (settleItem env i st p)))
      (\<lambda>_ s'. (drainable env s0 s' \<and> (\<forall>a. \<not> pending_approval s' a) \<and> (\<forall>c. \<not> active_call s' c)) \<and>
        (\<forall>i. item_status s' i \<noteq> Is_active)) (\<lambda>_ _. False) s1"
    if s1: "drainable env s0 s1 \<and> (\<forall>a. \<not> pending_approval s1 a) \<and> (\<forall>c. \<not> active_call s1 c)" for s1
  proof (rule wpE_drain_loop [where live = "\<lambda>s i. item_status s i = Is_active" and
        R = "\<lambda>s. drainable env s0 s \<and> (\<forall>a. \<not> pending_approval s a) \<and> (\<forall>c. \<not> active_call s c)"])
    show "drainable env s0 s1 \<and> (\<forall>a. \<not> pending_approval s1 a) \<and> (\<forall>c. \<not> active_call s1 c)" by (rule s1)
    show "distinct_keys (lc_itemStatuses s1)"
      using s1 by (simp add: drainable_def interruptible_def)
    then show "item_status s1 i = Is_active \<longleftrightarrow> (i, Is_active) \<in> set (lc_itemStatuses s1)" for i
      by (auto simp: item_status_def split: option.splits dest: eq_key_imp_eq_value)
  qed (rule item_step [OF env f st room])
  show ?thesis
    unfolding settleOpenWork_def wpE_block_Cons wpE_block_Nil wpE_bind wpE_get
    by (rule wpE_mono [OF calls], rule items) simp_all
qed

lemma drained_settled:
  assumes "interruptible s" and "\<And>a. \<not> pending_approval s a" and "\<And>i. item_status s i \<noteq> Is_active"
  shows "settled_work s"
proof -
  have "isTerminalItemStatus st" if "(i, st) \<in> set (lc_itemStatuses s)" for i st
  proof -
    have "map_of (lc_itemStatuses s) i = Some st"
      using that assms(1) by (simp add: interruptible_def)
    moreover from this have "st \<noteq> Is_active"
      using assms(3) [of i] by (simp add: item_status_def)
    ultimately show ?thesis
      using assms(1) by (auto simp: interruptible_def isTerminalItemStatus_def)
  qed
  moreover have "isTerminalApprovalStatus ap" if "(a, ap) \<in> set (lc_approvalStatuses s)" for a ap
    using that assms(1) assms(2) [of a]
    by (auto simp: interruptible_def pending_approval_def isTerminalApprovalStatus_def)
  moreover have "lc_blockingState s = Blocking_none"
    using assms(1,2) by (auto simp: interruptible_def)
  ultimately show ?thesis
    by (auto simp: settled_work_def list_all_iff)
qed

lemma settleTurn_ok:
  assumes env: "lawful_writer append_events admissible env" and s: "synced env s" "\<not> isTerminal s"
    and agree: "turn_agrees s" "settled_work s" and out: "outcome_status outcome \<noteq> Tt_completed \<or> lc_status s = Ts_in_progress"
    and f: "list_all (accepts env) (outcome_events outcome)" and room: "safe_sequence (lc_sequence s + 2)"
  shows "\<exists>s'. settleTurn env outcome s = (Inr (), s') \<and> lc_status s' = turn_of_terminal (outcome_status outcome) \<and>
    lc_toolCallStatuses s' = lc_toolCallStatuses s"
proof -
  let ?st = "outcome_status outcome"
  let ?s1 = "s\<lparr>lc_clock := lc_clock s + 1\<rparr>" and ?s2 = "s\<lparr>lc_clock := lc_clock s + 1 + 1\<rparr>"
  have f1: "accepts env (turn_event (attempt_terminal_event ?st) (attempt_payload outcome))"
    and f2: "accepts env (turn_event (turn_terminal_event ?st) [(''outcome'', outcome_value outcome)])"
    using f by (simp_all add: outcome_events_def)
  obtain ev1 where ev1: "createEvent env (turn_event (attempt_terminal_event ?st) (attempt_payload outcome)) 1 s = (Inr ev1, ?s1)"
    "admissible ev1" "turnId ev1 = opt_turnId env" "sequence ev1 = lc_sequence s + 1" "etype ev1 = attempt_terminal_event ?st"
    using createEvent_ok [OF env f1, of s 1] safe_sequence_le [OF room] by auto
  obtain ev2 where ev2: "createEvent env (turn_event (turn_terminal_event ?st) [(''outcome'', outcome_value outcome)]) 2 ?s1 = (Inr ev2, ?s2)"
    "admissible ev2" "turnId ev2 = opt_turnId env" "sequence ev2 = lc_sequence s + 2"
    using createEvent_ok [OF env f2, of ?s1 2] room by auto
  have "contiguous_stream (opt_turnId env) (sink_log (lc_sink s) (opt_turnId env) @ [ev1, ev2])"
    using ev1 ev2 by (intro contiguous_next [OF s])
      (cases ?st; auto simp: terminal_event_type_def upt_rec)+
  then obtain rs k where k: "append_events [ev1, ev2] (lc_sink s) = (Inr rs, k)"
    using append_progress [of "lc_sink s" "[ev1, ev2]" "opt_turnId env"] s(1) ev1(2) ev2(2)
    by (auto simp: log_synced_def)
  have tr: "transitionTurnStatus (lc_status s) (turn_of_terminal ?st) = Inr (turn_of_terminal ?st)"
    "transitionRunAttemptStatus (lc_runAttemptStatus s) (attempt_of_terminal ?st) = Inr (attempt_of_terminal ?st)"
    using s(2) agree(1) out
    by (cases "lc_status s"; cases ?st; simp add: transition_defs isTerminal_def turn_agrees_def)+
  have val: "validateTerminalSettlement
      \<lparr>ts_turnStatus = turn_of_terminal ?st, ts_terminalOutcome = Some outcome,
       ts_blockingState = lc_blockingState s, ts_itemStatuses = lc_itemStatuses s,
       ts_approvalStatuses = lc_approvalStatuses s\<rparr> = Inr ()"
    using agree(2) by (simp add: validateTerminalSettlement_Inr settled_work_def)
  have "appendTerminalBatch env [ev1, ev2] ?st ?s2 = (Inr (), ?s2\<lparr>lc_sink := k\<rparr>)"
    using env k by (simp add: appendTerminalBatch_def op_defs call_sink_def lawful_writer_def)
  with s(2) tr val ev1(1) ev2(1) show ?thesis
    by (simp add: settleTurn_def op_defs Let_def)
qed

lemma startItem_ok:
  assumes env: "lawful_writer append_events admissible env" and s: "synced env s" "\<not> isTerminal s"
    and f: "accepts env (item_event E_item_started i (AList.update ''kind'' (PKind k) p))"
    and room: "safe_sequence (lc_sequence s + 1)"
  shows "\<exists>s'. startItem env i k p s = (Inr (), s') \<and> synced env s' \<and> work s' = set_item i Is_active (work s) \<and>
    lc_sequence s' = lc_sequence s + 1"
proof -
  obtain s' where "emit env (item_event E_item_started i (AList.update ''kind'' (PKind k) p)) s = (Inr (), s')"
    "synced env s'" "work s' = work s" "lc_sequence s' = lc_sequence s + 1"
    using emit_ok [OF env s f _ room] by (auto simp: terminal_event_type_def)
  then show ?thesis by (simp add: startItem_def op_defs transition_defs synced_bookkeeping)
qed

lemma emits_ok:
  assumes env: "lawful_writer append_events admissible env" and s: "synced env s" "\<not> isTerminal s"
    and f: "\<And>d. d \<in> set ds \<Longrightarrow> accepts env (g d) \<and> \<not> terminal_event_type (f_type (g d))"
    and room: "safe_sequence (lc_sequence s + length ds)"
  shows "\<exists>s'. forE ds (\<lambda>d. emit env (g d)) s = (Inr (), s') \<and> synced env s' \<and> work s' = work s \<and>
    lc_sequence s' = lc_sequence s + length ds"
  using s f room
proof (induction ds arbitrary: s)
  case (Cons d ds)
  have "safe_sequence (lc_sequence s + 1)" by (rule safe_sequence_le [OF Cons.prems(4)]) simp
  then obtain s1 where s1: "emit env (g d) s = (Inr (), s1)" "synced env s1" "work s1 = work s" "lc_sequence s1 = lc_sequence s + 1"
    using emit_ok [OF env Cons.prems(1,2)] Cons.prems(3) by (metis list.set_intros(1))
  have "isTerminal s1 = isTerminal s" using arg_cong [OF s1(3), of lc_status] by (simp add: isTerminal_def)
  moreover have "safe_sequence (lc_sequence s1 + length ds)" using Cons.prems(4) s1(4) by simp
  ultimately obtain s2 where "forE ds (\<lambda>d. emit env (g d)) s1 = (Inr (), s2)" "synced env s2" "work s2 = work s1"
    "lc_sequence s2 = lc_sequence s1 + length ds"
    using Cons.IH [OF s1(2)] Cons.prems(2,3) by (metis list.set_intros(2))
  with s1 show ?case by (simp add: op_defs)
qed (simp add: op_defs)

text \<open>A turn whose other work is settled can be completed with its answer.\<close>

lemma complete_ok:
  assumes env: "lawful_writer append_events admissible env" and s: "synced env s"
    and agree: "turn_agrees s" "settled_work s" "lc_status s = Ts_in_progress"
    and f: "list_all (accepts env) (answer_events out i)"
    and room: "safe_sequence (lc_sequence s + length (answer_events out i))"
  shows "\<exists>s'. complete env out i s = (Inr (), s')"
proof -
  let ?g = "\<lambda>delta. item_event E_assistant_message_delta i [(''phase'', PStr ''final_answer''), (''delta'', PStr delta)]"
  note f' = f [unfolded answer_events_def, simplified]
  have open_s: "\<not> isTerminal s" using agree(3) by (simp add: isTerminal_def)
  note room' = safe_sequence_le [OF room [unfolded answer_events_def outcome_events_def, simplified]]
  obtain s1 where s1: "startItem env i Kind_assistant_message [] s = (Inr (), s1)" "synced env s1"
    "work s1 = set_item i Is_active (work s)" "lc_sequence s1 = lc_sequence s + 1"
    using startItem_ok [OF env s open_s, of i Kind_assistant_message "[]"] f' room' by auto
  have st1: "lc_status s1 = lc_status s" using arg_cong [OF s1(3), of lc_status] by (simp add: set_item_def)
  obtain s2 where s2: "forE (splitLifecycleOutput out) (\<lambda>d. emit env (?g d)) s1 = (Inr (), s2)" "synced env s2" "work s2 = work s1"
    "lc_sequence s2 = lc_sequence s + 1 + length (splitLifecycleOutput out)"
    using emits_ok [OF env s1(2), of "splitLifecycleOutput out" ?g] f' open_s st1 room' s1(4)
    by (auto simp: isTerminal_def terminal_event_type_def list_all_iff)
  have st2: "lc_status s2 = lc_status s" using arg_cong [OF s2(3), of lc_status] st1 by simp
  have "item_status s2 i = Is_active"
    using arg_cong [OF s2(3), of lc_itemStatuses] arg_cong [OF s1(3), of lc_itemStatuses]
    by (simp add: item_status_def set_item_def update_conv')
  then obtain s3 where s3: "settleItem env i Is_completed [(''result'', PObj [(''output'', PStr out)])] s2 = (Inr (), s3)"
    "synced env s3" "work s3 = set_item i Is_completed (work s2)"
    "lc_sequence s3 = lc_sequence s + 2 + length (splitLifecycleOutput out)"
    using settleItem_ok [OF env s2(2), of i Is_completed] f' open_s st2 room' s2(4) by (auto simp: isTerminal_def isTerminalItemStatus_def)
  have w3: "work s3 = set_item i Is_completed (work s)"
    using s3(3) s2(3) s1(3) by (simp add: set_item_def update_last)
  have st3: "lc_status s3 = lc_status s" using arg_cong [OF w3, of lc_status] by (simp add: set_item_def)
  have "turn_agrees s3"
    using agree(1) arg_cong [OF w3, of turn_view] by (simp add: turn_agrees_def turn_view_def set_item_def work_def)
  moreover have "settled_work s3"
    using agree(2) arg_cong [OF w3, of lc_itemStatuses] arg_cong [OF w3, of lc_approvalStatuses] arg_cong [OF w3, of lc_blockingState]
      set_update_subset [of i Is_completed "lc_itemStatuses s"]
    by (auto simp: settled_work_def set_item_def list_all_iff isTerminalItemStatus_def)
  ultimately obtain s4 where "settleTurn env Outcome_completed s3 = (Inr (), s4)"
    using settleTurn_ok [OF env s3(2), of Outcome_completed] f' open_s st3 agree(3) room' s3(4) by (auto simp: isTerminal_def)
  with s1(1) s2(1) s3(1) show ?thesis by (simp add: complete_def op_defs)
qed

lemma drain_and_settle:
  assumes env: "lawful_writer append_events admissible env" and s: "synced env s" "interruptible s"
    and f: "list_all (accepts env) (cancel_events s r @ work_events s st p @ outcome_events outcome)"
    and st: "isTerminalItemStatus st" and out: "outcome_status outcome \<noteq> Tt_completed"
    and room: "safe_sequence (lc_sequence s + open_work s + 2)"
  shows "wpE (block [cancelPendingApprovals env r, settleOpenWork env st p, settleTurn env outcome])
    (\<lambda>_ s'. lc_status s' = turn_of_terminal (outcome_status outcome) \<and> (\<forall>c. \<not> active_call s' c)) (\<lambda>_ _. False) s"
proof -
  have f': "list_all (accepts env) (cancel_events s r)" "list_all (accepts env) (work_events s st p)"
    "list_all (accepts env) (outcome_events outcome)"
    using f by simp_all
  have d: "drainable env s s" using s by (simp add: drainable_def)
  note room' = safe_sequence_le [OF room]
  have settle: "wpE (settleTurn env outcome)
      (\<lambda>_ s'. lc_status s' = turn_of_terminal (outcome_status outcome) \<and> (\<forall>c. \<not> active_call s' c)) (\<lambda>_ _. False) s2"
    if "drainable env s s2" "\<And>a. \<not> pending_approval s2 a" "\<And>c. \<not> active_call s2 c" "\<And>i. item_status s2 i \<noteq> Is_active" for s2
  proof -
    have "synced env s2" and i: "interruptible s2" and "safe_sequence (lc_sequence s2 + 2)"
      using that(1) by (auto simp: drainable_def intro!: room')
    moreover have "\<not> isTerminal s2" "turn_agrees s2"
      using i by (simp_all add: interruptible_def)
    ultimately show ?thesis
      using settleTurn_ok [OF env _ _ _ drained_settled disjI1 [OF out] f'(3)] that(2-4)
      by (fastforce simp: wpE_def active_call_def)
  qed
  show ?thesis
    unfolding wpE_block_Cons wpE_block_Nil
    by (rule wpE_mono [OF cancel_loop [OF env f'(1) d room']])
      (auto intro!: wpE_mono [OF work_loop [OF env f'(2) st room']] settle)
qed

end

section \<open>A concrete coordinator\<close>

text \<open>
  Options with the memory store and a schema that accepts the events of a well-formed turn whose sequence
  is a safe integer and whose timestamp has the form of \<open>Date.toISOString\<close>; the properties are evaluated on
  it.
\<close>

definition sample_schema :: event_schema where
  "sample_schema ev =
     (if startsWith (turnId ev) ''trn_'' \<and> CHR '':'' \<notin> set (turnId ev) \<and> safe_sequence (sequence ev) \<and>
         iso_timestamp (createdAt ev)
      then Some ev else None)"

definition sample_options :: "MemoryLifecycleEventStore lc_options" where
  "sample_options =
     \<lparr>opt_threadId = ''thr_abcdef'', opt_turnId = ''trn_abcdef'', opt_runAttemptId = ''att_abcdef'',
      opt_producerId = ''kernel'', opt_revisionOfTurnId = None, opt_continuationOfTurnId = None,
      opt_originalPromptId = None, opt_executionCapability = None, opt_now = (\<lambda>_. sample_time),
      opt_parseEventId = Some, opt_parseEvent = sample_schema,
      opt_appendBatch = appendBatch sample_schema\<rparr>"

lemma sample_lawful:
  "opt_appendBatch sample_options = appendBatch (opt_parseEvent sample_options)"
  "lawful_schema (opt_parseEvent sample_options)" "lawful_ids (opt_parseEventId sample_options)"
  by (auto simp: sample_options_def lawful_schema_def lawful_ids_def sample_schema_def same_envelope_def
      split: if_splits)

lemma sample_accepts: "accepts sample_options f"
  by (simp add: accepts_def sample_options_def sample_schema_def raw_event_def startsWith_def)

definition fresh_lc :: "MemoryLifecycleEventStore lc_state" where
  "fresh_lc = lc_init 0 0 empty_lifecycle_store"

lemma fresh_synced: "log_synced lifecycle_log canonical_store t (lc_init 0 n empty_lifecycle_store)"
  using canonical_store_empty
  by (simp add: log_synced_def lc_init_def isTerminal_def lifecycle_log_def turn_stored_def
      empty_lifecycle_store_def log_end_def)

lemma fresh_interruptible: "interruptible (lc_init n t k)"
  by (simp add: interruptible_def lc_init_def turn_agrees_def isTerminal_def pending_approval_def active_call_def)

section \<open>Properties\<close>

text \<open>
  A settled turn is final: whatever operation is called on a coordinator whose turn is completed,
  interrupted or failed, nothing of its state changes, no event is written and no clock is read.
\<close>
theorem settled_turn_is_final:
  assumes "isTerminal s"
  shows "snd (lc_exec env c s) = s"
  using assms frozen_exec [of env c] by (simp add: frozen_def)

lemma settled_turn_is_final_witness:
  "snd (lc_exec sample_options (Complete ''done'' ''itm_final'') (fresh_lc\<lparr>lc_status := Ts_failed\<rparr>)) =
     fresh_lc\<lparr>lc_status := Ts_failed\<rparr>"
  by (rule settled_turn_is_final) (simp add: isTerminal_def)


text \<open>
  Accepting an input is idempotent for the rest of the turn: after an input was accepted at a
  sequence, and whatever operations follow, accepting the same input again returns that sequence
  and changes nothing.
\<close>
theorem accepted_input_is_idempotent:
  assumes "acceptThreadInput env inp f s = (Inr n, s1)"
  shows "acceptThreadInput env inp g (lc_run env cs s1) = (Inr n, lc_run env cs s1)"
proof -
  have "map_of (lc_acceptedInputSequences s1) (ti_inputId inp) = Some n"
    using assms
    by (auto simp: acceptThreadInput_def op_defs split: option.splits if_splits prod.splits sum.splits)
  then have "map_of (lc_acceptedInputSequences (lc_run env cs s1)) (ti_inputId inp) = Some n"
    using kept_inputs.run_keeps [of "lc_acceptedInputSequences s1" s1 env cs] by (simp add: inputs_kept_def)
  then show ?thesis by (simp add: acceptThreadInput_def op_defs)
qed

lemma accepted_input_is_idempotent_witness:
  "acceptThreadInput sample_options \<lparr>ti_inputId = ''inp_1'', ti_clientInputId = ''c'', ti_transcriptMessageId = ''m''\<rparr>
     (\<lambda>_. Inr ()) (lc_run sample_options [Interrupt ''stop''] (fresh_lc\<lparr>lc_acceptedInputSequences := [(''inp_1'', 4)]\<rparr>)) =
   (Inr 4, lc_run sample_options [Interrupt ''stop''] (fresh_lc\<lparr>lc_acceptedInputSequences := [(''inp_1'', 4)]\<rparr>))"
  by (rule accepted_input_is_idempotent
      [where f = "\<lambda>_. Inr ()" and s = "fresh_lc\<lparr>lc_acceptedInputSequences := [(''inp_1'', 4)]\<rparr>"])
    (simp add: acceptThreadInput_def op_defs)

text \<open>
  C18. Reserving the completion closes the turn to new inputs: once \<open>reserveCompletion\<close> answered true,
  no later operation adds an accepted input, a new input is refused, and completion cannot be
  reserved twice.
\<close>
theorem reserved_completion_excludes_inputs:
  assumes "reserveCompletion pending s = (Inr True, s1)"
    and "map_of (lc_acceptedInputSequences s) (ti_inputId inp) = None"
  shows "lc_acceptedInputSequences (lc_run env cs s1) = lc_acceptedInputSequences s \<and>
    (\<exists>e. acceptThreadInput env inp g (lc_run env cs s1) = (Inl e, lc_run env cs s1)) \<and>
    reserveCompletion b (lc_run env cs s1) = (Inr False, lc_run env cs s1)"
proof -
  have "s1 = s\<lparr>lc_completionReserved := True\<rparr>"
    using assms(1) by (auto simp: reserveCompletion_def op_defs split: if_splits)
  then have "inputs_closed (lc_acceptedInputSequences s) s1"
    by (simp add: inputs_closed_def)
  from closed_inputs.run_keeps [OF this, of env cs] assms(2) show ?thesis
    by (simp add: inputs_closed_def acceptThreadInput_def reserveCompletion_def op_defs)
qed

lemma reserved_completion_excludes_inputs_witness:
  "lc_acceptedInputSequences (lc_run sample_options [Interrupt ''stop''] (fresh_lc\<lparr>lc_completionReserved := True\<rparr>)) = []"
proof -
  have "reserveCompletion False fresh_lc = (Inr True, fresh_lc\<lparr>lc_completionReserved := True\<rparr>)"
    by (simp add: reserveCompletion_def op_defs fresh_lc_def lc_init_def isTerminal_def)
  from reserved_completion_excludes_inputs [OF this, where
      inp = "\<lparr>ti_inputId = ''inp_1'', ti_clientInputId = ''c'', ti_transcriptMessageId = ''m''\<rparr>"]
  show ?thesis by (simp add: fresh_lc_def lc_init_def del: lc_run_simps)
qed

text \<open>
  The stored stream is what the coordinator believes it is. Whatever operations run on a fresh
  coordinator over the memory store, the turn's stream is contiguous, its length is the
  coordinator's sequence, and it ends with the terminal event of the turn's status exactly when the
  turn is settled.
\<close>
theorem stored_stream_matches_coordinator:
  assumes "opt_appendBatch env = appendBatch (opt_parseEvent env)"
    and "lawful_schema (opt_parseEvent env)" and "lawful_ids (opt_parseEventId env)"
    and "s = lc_run env cs (lc_init 0 ticks empty_lifecycle_store)"
    and "evs = lifecycle_log (lc_sink s) (opt_turnId env)"
  shows "contiguous_stream (opt_turnId env) evs \<and> length evs = lc_sequence s \<and>
    settled_status (log_end evs) = (if isTerminal s then Some (lc_status s) else None)"
proof -
  have sink: "lifecycle_sink (appendBatch (opt_parseEvent env)) lifecycle_log canonical_store
      (admissible_event (opt_parseEvent env))"
    using reliable_sink_memory by (rule reliable_sink.axioms(1))
  have "log_synced lifecycle_log canonical_store (opt_turnId env) s"
    unfolding assms(4)
    by (rule settling_predicate.run_keeps
        [OF lifecycle_sink.synced_predicate [OF sink lawful_writer_memory [OF assms(1-3)]]])
      (rule fresh_synced)
  then show ?thesis
    unfolding assms(5) by (simp add: log_synced_def canonical_store_def store_inv_def)
qed

lemma stored_stream_matches_coordinator_witness:
  "contiguous_stream ''trn_abcdef''
     (lifecycle_log (lc_sink (lc_run sample_options [Start, Interrupt ''stop''] fresh_lc)) ''trn_abcdef'')"
  using stored_stream_matches_coordinator [OF sample_lawful refl refl, of "[Start, Interrupt ''stop'']" 0]
  by (simp add: fresh_lc_def sample_options_def del: lc_run_simps)

lemma settled_status_Some: "settled_status x = Some st \<Longrightarrow>
  (st = Ts_interrupted \<longrightarrow> x = Some E_turn_interrupted) \<and> (st = Ts_failed \<longrightarrow> x = Some E_turn_failed)"
  by (cases x) (auto split: if_splits)

lemma memory_settles:
  assumes env: "opt_appendBatch env = appendBatch (opt_parseEvent env)"
    "lawful_schema (opt_parseEvent env)" "lawful_ids (opt_parseEventId env)"
    and s: "log_synced lifecycle_log canonical_store (opt_turnId env) s" "interruptible s"
    and f: "list_all (accepts env) (cancel_events s r @ work_events s st p @ outcome_events outcome)"
    and room: "safe_sequence (lc_sequence s + open_work s + 2)"
    and st: "isTerminalItemStatus st" and out: "outcome_status outcome \<noteq> Tt_completed"
    and c: "lc_exec env c = block [cancelPendingApprovals env r, settleOpenWork env st p, settleTurn env outcome]"
  shows "\<exists>s'. lc_exec env c s = (Inr (), s') \<and> lc_status s' = turn_of_terminal (outcome_status outcome) \<and>
    settled_work s' \<and> (\<forall>call. \<not> active_call s' call) \<and> settled_status (log_end (lifecycle_log (lc_sink s') (opt_turnId env))) = Some (lc_status s')"
proof -
  note lawful = lawful_writer_memory [OF env]
  have sink: "lifecycle_sink (appendBatch (opt_parseEvent env)) lifecycle_log canonical_store
      (admissible_event (opt_parseEvent env))"
    using reliable_sink_memory by (rule reliable_sink.axioms(1))
  obtain s' where s': "lc_exec env c s = (Inr (), s')" "lc_status s' = turn_of_terminal (outcome_status outcome)"
    "\<forall>call. \<not> active_call s' call"
    using reliable_sink.drain_and_settle [OF reliable_sink_memory lawful s f st out room]
    unfolding c by (rule wpE_total) auto
  have "log_synced lifecycle_log canonical_store (opt_turnId env) s'"
    using keepsD [OF settling_predicate.exec_keeps [OF lifecycle_sink.synced_predicate [OF sink lawful]] s(1), of c] s'(1)
    by simp
  moreover have "terminal_settled s"
    using s(2) by (simp add: terminal_settled_def interruptible_def)
  then have "terminal_settled s'"
    using keepsD [OF exec_terminal_settled, of s env c] s'(1) by simp
  moreover have "isTerminal s'"
    using s'(2) by (simp add: isTerminal_def)
  ultimately show ?thesis
    using s' by (simp add: log_synced_def terminal_settled_def)
qed

definition waiting_state :: "'st \<Rightarrow> 'st lc_state" where
  "waiting_state k = (lc_init 0 0 k)
     \<lparr>lc_status := Ts_awaiting_approval, lc_runAttemptStatus := Ra_running, lc_accepted := True,
      lc_blockingState := Waiting_for_approval ''itm_approval'' ''apr_aaaaaa'',
      lc_itemStatuses := [(''itm_call'', Is_active), (''itm_approval'', Is_active)],
      lc_toolCallStatuses := [(''call_aaaaaa'', Is_active)],
      lc_toolCallItems := [(''call_aaaaaa'', ''itm_call'')],
      lc_approvalStatuses := [(''apr_aaaaaa'', Ap_pending)],
      lc_approvalItems := [(''apr_aaaaaa'', ''itm_approval'')]\<rparr>"

lemma waiting_interruptible: "interruptible (waiting_state k)"
  by (auto simp: waiting_state_def lc_init_def interruptible_def turn_agrees_def isTerminal_def
      pending_approval_def active_call_def owns_active_item_def owner_of_def item_status_def split: if_splits)

lemma waiting_synced:
  "log_synced lifecycle_log canonical_store t (waiting_state empty_lifecycle_store)"
  using fresh_synced [of t 0]
  by (simp add: waiting_state_def log_synced_def isTerminal_def lc_init_def log_end_def)

lemma sample_accepts_all: "list_all (accepts sample_options) fs"
  by (simp add: sample_accepts list_all_iff)

lemma waiting_room: "safe_sequence (lc_sequence (waiting_state k) + open_work (waiting_state k) + 2)"
  by (simp add: waiting_state_def lc_init_def open_work_def count_with_def safe_sequence_def MAX_SAFE_INTEGER_def)

text \<open>
  C14. An unsettled turn can be interrupted. Suppose its turn, attempt and blocking state agree, every pending
  approval and every active tool call owns an active item of its own, a turn that is blocked waits for a
  pending approval (\<open>interruptible\<close>), the log of the memory store matches the coordinator, the schema accepts
  the events of the settlement, and the safe integers have room for their sequence numbers. Then \<open>interrupt\<close>
  returns, the turn is interrupted, every item and approval is settled, no tool call is left active, and the
  stored stream ends with the terminal event.
\<close>
theorem interrupt_settles_turn:
  assumes "opt_appendBatch env = appendBatch (opt_parseEvent env)"
    and "lawful_schema (opt_parseEvent env)" and "lawful_ids (opt_parseEventId env)"
    and "log_synced lifecycle_log canonical_store (opt_turnId env) s" and "interruptible s"
    and "list_all (accepts env) (cancel_events s reason @
      work_events s Is_interrupted [(''reason'', PStr reason)] @ outcome_events (Outcome_interrupted reason))"
    and "safe_sequence (lc_sequence s + open_work s + 2)"
  shows "\<exists>s'. interrupt env reason s = (Inr (), s') \<and> lc_status s' = Ts_interrupted \<and> settled_work s' \<and>
    (\<forall>c. \<not> active_call s' c) \<and> log_end (lifecycle_log (lc_sink s') (opt_turnId env)) = Some E_turn_interrupted"
  using memory_settles [OF assms, where c = "Interrupt reason"] settled_status_Some
  by (fastforce simp: interrupt_def isTerminalItemStatus_def simp del: block.simps)

lemma interrupt_settles_turn_witness:
  "\<exists>s'. interrupt sample_options ''stop'' (waiting_state empty_lifecycle_store) = (Inr (), s') \<and>
     lc_status s' = Ts_interrupted \<and> (\<forall>c. \<not> active_call s' c)"
  using interrupt_settles_turn [OF sample_lawful waiting_synced waiting_interruptible sample_accepts_all waiting_room] by blast

text \<open>
  A turn can be failed, under the same conditions and with the failure in place of the reason.
\<close>
theorem fail_settles_turn:
  assumes "opt_appendBatch env = appendBatch (opt_parseEvent env)"
    and "lawful_schema (opt_parseEvent env)" and "lawful_ids (opt_parseEventId env)"
    and "log_synced lifecycle_log canonical_store (opt_turnId env) s" and "interruptible s"
    and "list_all (accepts env) (cancel_events s ''Turn failed before approval resolution'' @
      work_events s Is_failed [(''failure'', failure_value failure)] @ outcome_events (Outcome_failed failure))"
    and "safe_sequence (lc_sequence s + open_work s + 2)"
  shows "\<exists>s'. fail env failure s = (Inr (), s') \<and> lc_status s' = Ts_failed \<and> settled_work s' \<and>
    (\<forall>c. \<not> active_call s' c) \<and> log_end (lifecycle_log (lc_sink s') (opt_turnId env)) = Some E_turn_failed"
  using memory_settles [OF assms, where c = "Fail failure"] settled_status_Some
  by (fastforce simp: fail_def isTerminalItemStatus_def simp del: block.simps)

lemma fail_settles_turn_witness:
  "\<exists>s'. fail sample_options \<lparr>pe_code = Pc_internal_error, pe_message = ''boom'', pe_retryable = False,
       pe_correlationId = None, pe_details = None\<rparr> (waiting_state empty_lifecycle_store) = (Inr (), s') \<and> lc_status s' = Ts_failed"
  using fail_settles_turn [OF sample_lawful waiting_synced waiting_interruptible sample_accepts_all waiting_room] by blast

section \<open>Output is cut, not lost\<close>

lemma chunks_from_concat: "concat (chunks_from out n) = drop n out"
proof (induction out n rule: chunks_from.induct)
  case (1 out n)
  have "take MAX_LIFECYCLE_OUTPUT_LENGTH (drop n out) @ drop (n + MAX_LIFECYCLE_OUTPUT_LENGTH) out = drop n out"
    by (metis add.commute append_take_drop_id drop_drop)
  with 1 show ?case
    by (subst chunks_from.simps) simp
qed

lemma chunks_from_bounds:
  "chunk \<in> set (chunks_from out n) \<Longrightarrow> chunk \<noteq> [] \<and> length chunk \<le> MAX_LIFECYCLE_OUTPUT_LENGTH"
proof (induction out n rule: chunks_from.induct)
  case (1 out n)
  show ?case
  proof (cases "n < length out")
    case True
    then have "chunk = take MAX_LIFECYCLE_OUTPUT_LENGTH (drop n out) \<or>
        chunk \<in> set (chunks_from out (n + MAX_LIFECYCLE_OUTPUT_LENGTH))"
      using "1.prems" by (simp add: chunks_from.simps [of out n])
    then show ?thesis
      using "1.IH" [OF True] True by (auto simp: MAX_LIFECYCLE_OUTPUT_LENGTH_def)
  next
    case False
    then show ?thesis using "1.prems" by (simp add: chunks_from.simps [of out n])
  qed
qed

text \<open>
  The deltas of an output are the output: they concatenate to it, there is at least one, each has at
  most 4000 code units, and only the delta of an empty output is empty.
\<close>
theorem splitLifecycleOutput_lossless:
  "concat (splitLifecycleOutput out) = out \<and> splitLifecycleOutput out \<noteq> [] \<and>
   list_all (\<lambda>chunk. length chunk \<le> 4000 \<and> (chunk = [] \<longleftrightarrow> out = [])) (splitLifecycleOutput out)"
proof (cases "out = []")
  case False
  have "concat (chunks_from out 0) = out"
    by (simp add: chunks_from_concat)
  moreover from this have "chunks_from out 0 \<noteq> []"
    using False by auto
  ultimately show ?thesis
    using False chunks_from_bounds [of _ out 0]
    by (auto simp: splitLifecycleOutput_def list_all_iff MAX_LIFECYCLE_OUTPUT_LENGTH_def)
qed (simp add: splitLifecycleOutput_def)

section \<open>A wait that lost its approval\<close>

text \<open>
  \<open>decideApproval\<close> records the decision before it clears the blocking state. When the second of
  the two writes fails, the turn keeps waiting for an approval that is no longer pending.
\<close>

definition approvals_recorded :: "'st lc_state \<Rightarrow> bool" where
  "approvals_recorded s \<longleftrightarrow> fst ` set (lc_approvalItems s) \<subseteq> fst ` set (lc_approvalStatuses s)"

definition orphaned_wait :: "'st lc_state \<Rightarrow> bool" where
  "orphaned_wait s \<longleftrightarrow>
     turn_agrees s \<and> lc_status s = Ts_awaiting_approval \<and> approvals_recorded s \<and>
     list_all (\<lambda>(a, st). st \<noteq> Ap_pending) (lc_approvalStatuses s)"

lemma orphaned_insensitive: "insensitive orphaned_wait"
  by (simp add: insensitive_def orphaned_wait_def approvals_recorded_def insensitive_fields [OF turn_agrees_insensitive])

lemma orphaned_bookkeeping:
  "orphaned_wait (set_item i st s) = orphaned_wait s" "orphaned_wait (set_tool_call c st s) = orphaned_wait s"
  "orphaned_wait (s\<lparr>lc_toolCallNames := names\<rparr>) = orphaned_wait s"
  "orphaned_wait (s\<lparr>lc_toolCallBatches := names\<rparr>) = orphaned_wait s"
  "orphaned_wait (s\<lparr>lc_toolCallItems := ids\<rparr>) = orphaned_wait s"
  "orphaned_wait (s\<lparr>lc_acceptedInputSequences := rc\<rparr>) = orphaned_wait s"
  "orphaned_wait (s\<lparr>lc_completionReserved := rd\<rparr>) = orphaned_wait s"
  by (simp_all add: orphaned_wait_def approvals_recorded_def) (simp_all add: turn_agrees_def)

interpretation orphaned: work_predicate env orphaned_wait for env
proof
  show "keeps orphaned_wait (acceptThreadInput env inp f)" for inp f
    unfolding acceptThreadInput_def
    by (intro keeps_rules keeps_emit [OF orphaned_insensitive] keeps_modify) (simp_all add: orphaned_bookkeeping)
  show "keeps orphaned_wait (reserveCompletion b)" for b
    unfolding reserveCompletion_def by (intro keeps_rules keeps_modify) (simp_all add: orphaned_bookkeeping)
qed (rule keeps_emit [OF orphaned_insensitive] orphaned_bookkeeping)+

text \<open>No approval can be decided any more, the turn cannot start again and it cannot be settled.\<close>

lemma orphaned_refuses:
  assumes "orphaned_wait s"
  shows "wpE (decideApproval env a decision p) (\<lambda>_ _. False) (\<lambda>_. orphaned_wait) s"
    and "wpE (start env) (\<lambda>_ _. False) (\<lambda>_. orphaned_wait) s"
    and "wpE (settleTurn env outcome) (\<lambda>_ _. False) (\<lambda>_. orphaned_wait) s"
proof -
  have "map_of (lc_approvalStatuses s) a = Some st \<Longrightarrow> st \<noteq> Ap_pending" for st
    using assms by (auto simp: orphaned_wait_def list_all_iff dest: map_of_SomeD)
  moreover have "map_of (lc_approvalStatuses s) a = None \<Longrightarrow> map_of (lc_approvalItems s) a = None"
    using assms by (auto simp: orphaned_wait_def approvals_recorded_def map_of_eq_None_iff)
  ultimately show "wpE (decideApproval env a decision p) (\<lambda>_ _. False) (\<lambda>_. orphaned_wait) s"
    using assms
    by (cases "map_of (lc_approvalStatuses s) a"; cases "the (map_of (lc_approvalStatuses s) a)")
      (auto simp: decideApproval_def wp_simps transition_defs requireApprovalItem_def)
  show "wpE (start env) (\<lambda>_ _. False) (\<lambda>_. orphaned_wait) s"
    using assms by (auto simp: start_def wp_simps orphaned_wait_def turn_agrees_def)
  show "wpE (settleTurn env outcome) (\<lambda>_ _. False) (\<lambda>_. orphaned_wait) s"
    using assms
    by (cases "outcome_status outcome")
      (auto simp: settleTurn_def wp_simps Let_def orphaned_wait_def turn_agrees_def isTerminal_def transition_defs
        validateTerminalSettlement_def)
qed

lemma refused_keeps: "(\<And>s. P s \<Longrightarrow> wpE m (\<lambda>_ _. False) (\<lambda>_. P) s) \<Longrightarrow> keeps P m"
  by (rule keeps_via_wp) (blast intro: wpE_mono)

lemmas orphaned_keeps = refused_keeps [of orphaned_wait, OF orphaned_refuses(1)]
  refused_keeps [of orphaned_wait, OF orphaned_refuses(2)] refused_keeps [of orphaned_wait, OF orphaned_refuses(3)]

lemma orphaned_cancel: "keeps orphaned_wait (cancelPendingApprovals env r)"
  unfolding cancelPendingApprovals_def by (intro keeps_rules orphaned_keeps)

lemma orphaned_settlement:
  assumes "orphaned_wait s" and "list_all (keeps orphaned_wait) ms"
  shows "wpE (block (ms @ [settleTurn env outcome])) (\<lambda>_ _. False) (\<lambda>_. orphaned_wait) s"
  using assms
proof (induction ms arbitrary: s)
  case Nil
  then show ?case by (auto simp: wpE_bind intro: wpE_mono [OF orphaned_refuses(3)])
next
  case (Cons m ms)
  then have "wpE m (\<lambda>_. orphaned_wait) (\<lambda>_. orphaned_wait) s" by (simp add: keeps_wp)
  with Cons show ?case unfolding append_Cons wpE_block_Cons by (auto elim!: wpE_mono)
qed

lemma orphaned_throws:
  assumes "orphaned_wait s"
  shows "wpE (interrupt env r) (\<lambda>_ _. False) (\<lambda>_. orphaned_wait) s"
    and "wpE (fail env f) (\<lambda>_ _. False) (\<lambda>_. orphaned_wait) s"
    and "wpE (complete env x i) (\<lambda>_ _. False) (\<lambda>_. orphaned_wait) s"
proof -
  note settles = orphaned_settlement [OF assms]
  show "wpE (interrupt env r) (\<lambda>_ _. False) (\<lambda>_. orphaned_wait) s"
    using settles [of "[cancelPendingApprovals env r, settleOpenWork env _ _]"] unfolding interrupt_def append_Cons append_Nil
    by (simp add: orphaned_cancel orphaned.settleOpenWork_keeps del: block.simps)
  show "wpE (fail env f) (\<lambda>_ _. False) (\<lambda>_. orphaned_wait) s"
    using settles [of "[cancelPendingApprovals env _, settleOpenWork env _ _]"] unfolding fail_def append_Cons append_Nil
    by (simp add: orphaned_cancel orphaned.settleOpenWork_keeps del: block.simps)
  show "wpE (complete env x i) (\<lambda>_ _. False) (\<lambda>_. orphaned_wait) s"
    using settles [of "[startItem env i Kind_assistant_message [], forE (splitLifecycleOutput x) (\<lambda>delta. emit env (item_event
        E_assistant_message_delta i [(''phase'', PStr ''final_answer''), (''delta'', PStr delta)])), settleItem env i _ _]"]
    unfolding complete_def append_Cons append_Nil
    by (simp add: orphaned.item_keeps keeps_for terminal_event_type_def del: block.simps)
qed

lemma orphaned_exec:
  assumes "\<And>q a i p. c \<noteq> RequestApproval q a i p"
  shows "keeps orphaned_wait (lc_exec env c)"
proof (cases "c = Start \<or> (\<exists>a st p. c = DecideApproval a st p) \<or> (\<exists>x i. c = Complete x i) \<or> (\<exists>f. c = Fail f) \<or>
    (\<exists>r. c = Interrupt r)")
  case True
  then show ?thesis
    using orphaned_keeps refused_keeps [of orphaned_wait, OF orphaned_throws(1)]
      refused_keeps [of orphaned_wait, OF orphaned_throws(2)] refused_keeps [of orphaned_wait, OF orphaned_throws(3)]
    by (auto simp: voidE_def intro!: keeps_rules)
next
  case False
  with assms show ?thesis by (intro orphaned.exec_keeps_work) auto
qed

lemma orphaned_run:
  assumes "orphaned_wait s" and "list_all (\<lambda>c. \<forall>q a i p. c \<noteq> RequestApproval q a i p) cs"
  shows "orphaned_wait (lc_run env cs s)"
  using assms
proof (induction cs arbitrary: s)
  case (Cons c cs)
  then have "orphaned_wait (snd (lc_exec env c s))"
    by (intro keepsD [OF orphaned_exec]) auto
  with Cons show ?case by simp
qed simp

lemma wp_never_returns: "wpE m (\<lambda>_ _. False) E s \<Longrightarrow> \<exists>e. fst (m s) = Inl e"
  by (auto simp: wpE_def split: prod.splits sum.splits)

definition only_pending :: "string \<Rightarrow> 'st lc_state \<Rightarrow> bool" where
  "only_pending a s \<longleftrightarrow>
     distinct_keys (lc_approvalStatuses s) \<and> list_all (\<lambda>(b, st). b = a \<or> st \<noteq> Ap_pending) (lc_approvalStatuses s)"

lemma only_pending_decide: "keeps (only_pending a) (decideApproval env a decision p)"
proof -
  have ins: "insensitive (only_pending a)"
    by (simp add: insensitive_def only_pending_def)
  have "keeps (only_pending a) (changeBlocking env b)" for b
    unfolding changeBlocking_def
    by (intro keeps_rules keeps_emit [OF ins] keeps_modify) (simp_all add: only_pending_def)
  moreover have "keeps (only_pending a) (settleItem env i st q)" for i st q
    unfolding settleItem_def
    by (intro keeps_rules keeps_emit [OF ins] keeps_modify) (simp add: only_pending_def)
  moreover have "keeps (only_pending a) (modifyE (set_approval a nxt))" for nxt
    by (rule keeps_modify) (simp add: only_pending_def list_all_entries_update distinct_update)
  ultimately show ?thesis
    unfolding decideApproval_def by (intro keeps_rules keeps_require keeps_emit [OF ins])
qed

lemma recorded_decide: "keeps approvals_recorded (decideApproval env a decision p)"
proof -
  have ins: "insensitive approvals_recorded"
    by (simp add: insensitive_def approvals_recorded_def)
  have "keeps approvals_recorded (changeBlocking env b)" for b
    unfolding changeBlocking_def
    by (intro keeps_rules keeps_emit [OF ins] keeps_modify) (simp_all add: approvals_recorded_def)
  moreover have "keeps approvals_recorded (settleItem env i st q)" for i st q
    unfolding settleItem_def
    by (intro keeps_rules keeps_emit [OF ins] keeps_modify) (simp add: approvals_recorded_def)
  moreover have "keeps approvals_recorded (modifyE (set_approval a nxt))" for nxt
    by (rule keeps_modify) (auto simp: approvals_recorded_def dom_update)
  ultimately show ?thesis
    unfolding decideApproval_def by (intro keeps_rules keeps_require keeps_emit [OF ins])
qed

text \<open>
  C19. When the write that clears the blocking state fails after the decision was recorded, the turn is
  stuck. Take a state in which \<open>a\<close> is the only pending approval and every approval that owns an item has a
  recorded status, and suppose \<open>decideApproval\<close> throws after it recorded the decision and leaves the turn
  awaiting approval. Then, whatever operations follow other than a further \<open>requestApproval\<close> and whatever the
  sink does then, the turn stays awaiting approval, and \<open>interrupt\<close>, \<open>fail\<close> and \<open>complete\<close> throw.
\<close>
theorem failed_unblock_wedges_turn:
  assumes "turn_agrees s" and "only_pending a s" and "approvals_recorded s" and "decision \<noteq> Ap_pending"
    and "decideApproval env a decision p s = (Inl e, s1)"
    and "map_of (lc_approvalStatuses s1) a = Some decision" and "lc_status s1 = Ts_awaiting_approval"
    and "list_all (\<lambda>c. \<forall>q b i p'. c \<noteq> RequestApproval q b i p') cs"
  shows "lc_status (lc_run env' cs s1) = Ts_awaiting_approval \<and>
    (\<exists>e. fst (interrupt env' r (lc_run env' cs s1)) = Inl e) \<and>
    (\<exists>e. fst (fail env' f (lc_run env' cs s1)) = Inl e) \<and>
    (\<exists>e. fst (complete env' x i (lc_run env' cs s1)) = Inl e)"
proof -
  have "turn_agrees s1" "only_pending a s1" "approvals_recorded s1"
    using keepsD [OF agreeing_turn.decideApproval_keeps assms(1), of env a decision p]
      keepsD [OF only_pending_decide assms(2), of env decision p]
      keepsD [OF recorded_decide assms(3), of env a decision p] assms(5) by simp_all
  then have "orphaned_wait s1"
    using assms(4,6,7)
    by (auto simp: orphaned_wait_def only_pending_def list_all_iff dest: eq_key_imp_eq_value)
  from orphaned_run [OF this assms(8)] have o: "orphaned_wait (lc_run env' cs s1)" .
  then show ?thesis
    using orphaned_throws [OF o] by (auto simp: orphaned_wait_def intro!: wp_never_returns)
qed

text \<open>A sink that refuses exactly the unblocking event, on the turn that waits.\<close>

definition refusing_options :: "unit lc_options" where
  "refusing_options =
     \<lparr>opt_threadId = ''thr_abcdef'', opt_turnId = ''trn_abcdef'', opt_runAttemptId = ''att_abcdef'',
      opt_producerId = ''kernel'', opt_revisionOfTurnId = None, opt_continuationOfTurnId = None,
      opt_originalPromptId = None, opt_executionCapability = None, opt_now = (\<lambda>_. sample_time),
      opt_parseEventId = Some, opt_parseEvent = Some,
      opt_appendBatch = (\<lambda>evs k. if list_ex (\<lambda>ev. etype ev = E_turn_blocking_changed) evs
        then (Inl (PlainError ''unavailable''), k) else (Inr evs, k))\<rparr>"

lemma failed_unblock_wedges_turn_witness:
  "\<exists>s1. snd (decideApproval refusing_options ''apr_aaaaaa'' Ap_approved [] (waiting_state ())) = s1 \<and>
     lc_status (lc_run refusing_options [DecideApproval ''apr_aaaaaa'' Ap_denied [], Interrupt ''stop''] s1) = Ts_awaiting_approval"
proof -
  obtain e s1 where d: "decideApproval refusing_options ''apr_aaaaaa'' Ap_approved [] (waiting_state ()) = (Inl e, s1)"
    and s1: "map_of (lc_approvalStatuses s1) ''apr_aaaaaa'' = Some Ap_approved" "lc_status s1 = Ts_awaiting_approval"
    by (simp add: decideApproval_def op_defs waiting_state_def lc_init_def transition_defs requireApprovalItem_def
        emit_def assertTurnAcceptsLifecycleEvent_def createEvent_def Let_def refusing_options_def
        raw_event_def call_sink_def set_approval_def changeBlocking_def)
  have "turn_agrees (waiting_state ())" "only_pending ''apr_aaaaaa'' (waiting_state ())" "approvals_recorded (waiting_state ())"
    using waiting_interruptible [of "()"]
    by (simp_all add: interruptible_def only_pending_def approvals_recorded_def waiting_state_def)
  from failed_unblock_wedges_turn [OF this _ d s1, of "[DecideApproval ''apr_aaaaaa'' Ap_denied [], Interrupt ''stop'']" refusing_options] d
  show ?thesis by (simp del: lc_run_simps)
qed

end
