(* ===== verification/Lifecycle_Restore.thy ===== *)
theory Lifecycle_Restore
  imports Lifecycle_Liveness
begin

text \<open>
  Restoring a coordinator that waits for an approval from its stored events
  (\<open>restoreForInterruption\<close> and \<open>restoreApprovalWaitState\<close> of RuntimeLifecycleCoordinator.ts): the
  replay of the history, event by event, and the check that the history proves an isolated pending
  approval. A restored coordinator can be interrupted.
\<close>

section \<open>Replaying one event\<close>

text \<open>The coordinator under construction and the local variables of the loop.\<close>

record 'st restore_state =
  rs_lc :: "'st lc_state"
  rs_previousStatus :: TurnStatus
  rs_queued :: bool
  rs_started :: bool
  rs_lastType :: "LifecycleEventType option"

type_synonym 'st restore_step =
  "'st lc_options \<Rightarrow> LifecycleEvent \<Rightarrow> 'st restore_state \<Rightarrow> js_error + 'st restore_state"

text \<open>The fields of an event that its schema makes mandatory for the event's type.\<close>

definition id_of :: "string option \<Rightarrow> string" where
  "id_of x = (case x of None \<Rightarrow> ''undefined'' | Some i \<Rightarrow> i)"

abbreviation turn_error :: "string \<Rightarrow> string \<Rightarrow> string \<Rightarrow> js_error" where
  "turn_error from to reason \<equiv> LifecycleTransitionError Sub_turn from to reason"

abbreviation on_lc :: "('st lc_state \<Rightarrow> 'st lc_state) \<Rightarrow> 'st restore_state \<Rightarrow> 'st restore_state" where
  "on_lc f rs \<equiv> rs\<lparr>rs_lc := f (rs_lc rs)\<rparr>"

definition restore_guard :: "'st lc_options \<Rightarrow> LifecycleEvent \<Rightarrow> 'st restore_state \<Rightarrow> js_error + unit" where
  "restore_guard env ev rs =
     andThen (assertNextLifecycleSequence (lc_sequence (rs_lc rs)) (sequence ev)) (\<lambda>_.
     andThen (throw_if (threadId ev \<noteq> opt_threadId env \<or> turnId ev \<noteq> opt_turnId env \<or>
                        runAttemptId ev \<noteq> opt_runAttemptId env)
                (turn_error (opt_turnId env) (turnId ev)
                   ''lifecycle identity changed during approval-wait restoration'')) (\<lambda>_.
     andThen (assertTurnAcceptsLifecycleEvent (rs_previousStatus rs) (etype ev)) (\<lambda>_.
     throw_if (etype ev \<notin> {E_turn_queued, E_turn_started, E_run_attempt_started} \<and>
               (\<not> rs_started rs \<or> lc_runAttemptStatus (rs_lc rs) \<noteq> Ra_running))
       (turn_error (turn_status_name (rs_previousStatus rs)) (event_type_name (etype ev))
          ''lifecycle work requires a running run attempt''))))"

definition restore_turn_queued :: "'st restore_step" where
  "restore_turn_queued env ev rs =
     andThen (throw_if (rs_queued rs \<or> rs_started rs \<or> sequence ev \<noteq> 1)
                (turn_error (string_of_nat (sequence ev)) ''turn.queued''
                   ''turn acceptance must begin the canonical lifecycle'')) (\<lambda>_.
     Inr (rs\<lparr>rs_queued := True\<rparr>))"

definition payload_string :: "LifecycleEvent \<Rightarrow> string \<Rightarrow> string option" where
  "payload_string ev k = (case map_of (payload ev) k of Some (PStr x) \<Rightarrow> Some x | _ \<Rightarrow> None)"

definition payload_not_string :: "LifecycleEvent \<Rightarrow> string \<Rightarrow> bool" where
  "payload_not_string ev k = (map_of (payload ev) k \<noteq> None \<and> payload_string ev k = None)"

definition restore_turn_started :: "'st restore_step" where
  "restore_turn_started env ev rs =
     andThen (throw_if (\<not> rs_queued rs \<or> rs_started rs)
                (turn_error (turn_status_name (rs_previousStatus rs)) ''turn.started''
                   ''turn must be accepted exactly once before it starts'')) (\<lambda>_.
     andThen (throw_if (payload_not_string ev ''revisionOfTurnId'' \<or>
                        payload_string ev ''revisionOfTurnId'' \<noteq> opt_revisionOfTurnId env)
                (turn_error
                   (case payload_string ev ''revisionOfTurnId'' of None \<Rightarrow> ''missing_revision'' | Some x \<Rightarrow> x)
                   (case opt_revisionOfTurnId env of None \<Rightarrow> ''no_revision'' | Some x \<Rightarrow> x)
                   ''turn revision identity changed during lifecycle restoration'')) (\<lambda>_.
     andThen (throw_if (payload_not_string ev ''continuationOfTurnId'' \<or>
                        payload_string ev ''continuationOfTurnId'' \<noteq> opt_continuationOfTurnId env \<or>
                        payload_not_string ev ''originalPromptId'' \<or>
                        payload_string ev ''originalPromptId'' \<noteq> opt_originalPromptId env)
                (turn_error
                   (case payload_string ev ''continuationOfTurnId'' of None \<Rightarrow> ''no_continuation'' | Some x \<Rightarrow> x)
                   (case opt_continuationOfTurnId env of None \<Rightarrow> ''no_continuation'' | Some x \<Rightarrow> x)
                   ''turn continuation identity changed during lifecycle restoration'')) (\<lambda>_.
     andThen (transitionTurnStatus (rs_previousStatus rs) Ts_in_progress) (\<lambda>nxt.
     Inr (on_lc (\<lambda>s. s\<lparr>lc_accepted := True\<rparr>) (rs\<lparr>rs_previousStatus := nxt, rs_started := True\<rparr>))))))"

text \<open>\<open>TurnBlockingStateSchema.parse\<close>, \<open>ItemKindSchema.parse\<close> and the typed status of a decision.\<close>

definition parse_blocking :: "pval option \<Rightarrow> js_error + TurnBlockingState" where
  "parse_blocking v = (case v of Some (PBlocking b) \<Rightarrow> Inr b | _ \<Rightarrow> Inl ZodError)"

definition parse_kind :: "pval option \<Rightarrow> js_error + ItemKind" where
  "parse_kind v = (case v of Some (PKind k) \<Rightarrow> Inr k | _ \<Rightarrow> Inl ZodError)"

definition restore_blocking :: "'st restore_step" where
  "restore_blocking env ev rs =
     andThen (throw_if (\<not> rs_started rs)
                (turn_error (turn_status_name (rs_previousStatus rs)) ''turn.blocking_changed''
                   ''turn must be started before it can block'')) (\<lambda>_.
     andThen (parse_blocking (map_of (payload ev) ''blockingState'')) (\<lambda>blocking.
     andThen (throw_if (blocking_kind blocking \<noteq> ''none'' \<and> blocking_kind blocking \<noteq> ''waiting_for_approval'')
                (turn_error (blocking_kind blocking) ''waiting_for_approval''
                   ''only approval-wait recovery is supported'')) (\<lambda>_.
     andThen
       (case blocking of
          Waiting_for_approval i a \<Rightarrow>
            andThen (throw_if (map_of (lc_approvalStatuses (rs_lc rs)) a \<noteq> Some Ap_pending \<or>
                               map_of (lc_approvalItems (rs_lc rs)) a \<noteq> Some i)
                       (LifecycleTransitionError Sub_approval ''missing'' ''pending''
                          ''blocking approval does not match a pending approval request'')) (\<lambda>_.
            transitionTurnStatus (rs_previousStatus rs) Ts_awaiting_approval)
        | _ \<Rightarrow>
            if rs_previousStatus rs = Ts_awaiting_approval
            then transitionTurnStatus (rs_previousStatus rs) Ts_in_progress
            else Inr (rs_previousStatus rs)) (\<lambda>nxt.
     Inr (on_lc (\<lambda>s. s\<lparr>lc_blockingState := blocking\<rparr>) (rs\<lparr>rs_previousStatus := nxt\<rparr>))))))"

definition restore_attempt_started :: "'st restore_step" where
  "restore_attempt_started env ev rs =
     andThen (throw_if (\<not> rs_started rs)
                (LifecycleTransitionError Sub_run_attempt ''turn_not_started'' ''running''
                   ''run attempt cannot start before its turn'')) (\<lambda>_.
     andThen (transitionRunAttemptStatus (lc_runAttemptStatus (rs_lc rs)) Ra_running) (\<lambda>nxt.
     Inr (on_lc (\<lambda>s. s\<lparr>lc_runAttemptStatus := nxt\<rparr>) rs)))"

definition restore_attempt_settled :: "'st restore_step" where
  "restore_attempt_settled env ev rs =
     andThen (transitionRunAttemptStatus (lc_runAttemptStatus (rs_lc rs))
                (if etype ev = E_run_attempt_succeeded then Ra_succeeded
                 else if etype ev = E_run_attempt_failed then Ra_failed else Ra_interrupted)) (\<lambda>nxt.
     Inr (on_lc (\<lambda>s. s\<lparr>lc_runAttemptStatus := nxt\<rparr>) rs))"

definition restore_item_started :: "'st restore_step" where
  "restore_item_started env ev rs =
     (let i = id_of (itemId ev) in
      andThen (parse_kind (map_of (payload ev) ''kind'')) (\<lambda>kind.
      andThen (case map_of (lc_itemStatuses (rs_lc rs)) i of
                 Some st \<Rightarrow> Inl (LifecycleTransitionError Sub_item (item_status_name st) ''active''
                                  (''item '' @ i @ '' was started more than once''))
               | None \<Rightarrow> Inr ()) (\<lambda>_.
      andThen (transitionItemStatus Is_not_started Is_active) (\<lambda>nxt.
      Inr (on_lc (\<lambda>s.
        let s' = (set_item i nxt s)\<lparr>lc_itemKinds := AList.update i kind (lc_itemKinds s)\<rparr> in
        if kind = Kind_approval_request \<and> truthy (payload_string ev ''parentItemId'')
        then s'\<lparr>lc_approvalParents :=
                  AList.update i (the (payload_string ev ''parentItemId'')) (lc_approvalParents s')\<rparr>
        else s') rs)))))"

definition event_settled_status :: "LifecycleEventType \<Rightarrow> ItemStatus" where
  "event_settled_status t =
     (if t = E_item_completed \<or> t = E_tool_call_completed then Is_completed
      else if t = E_item_failed \<or> t = E_tool_call_failed then Is_failed
      else if t = E_item_declined \<or> t = E_tool_call_declined then Is_declined
      else Is_interrupted)"

definition restore_item_settled :: "'st restore_step" where
  "restore_item_settled env ev rs =
     (let i = id_of (itemId ev) in
      andThen (transitionItemStatus (item_status (rs_lc rs) i) (event_settled_status (etype ev))) (\<lambda>nxt.
      Inr (on_lc (set_item i nxt) rs)))"

definition tool_call_name :: "'st restore_state \<Rightarrow> string \<Rightarrow> string" where
  "tool_call_name rs c =
     (case map_of (lc_toolCallStatuses (rs_lc rs)) c of None \<Rightarrow> ''missing'' | Some st \<Rightarrow> item_status_name st)"

definition restore_call_started :: "'st restore_step" where
  "restore_call_started env ev rs =
     (let i = id_of (itemId ev); c = id_of (toolCallId ev); s = rs_lc rs in
      andThen (throw_if (map_of (lc_toolCallStatuses s) c \<noteq> None \<or>
                         map_of (lc_itemStatuses s) i \<noteq> Some Is_active \<or>
                         map_of (lc_itemKinds s) i \<noteq> Some Kind_tool_call)
                 (LifecycleTransitionError Sub_tool_call (tool_call_name rs c) ''active''
                    (''tool call '' @ c @ '' has no fresh active item''))) (\<lambda>_.
      andThen (transitionToolCallStatus Is_not_started Is_active) (\<lambda>nxt.
      Inr (on_lc (\<lambda>s. (set_tool_call c nxt s)
             \<lparr>lc_toolCallItems := AList.update c i (lc_toolCallItems s)\<rparr>) rs))))"

definition restore_call_delta :: "'st restore_step" where
  "restore_call_delta env ev rs =
     (let i = id_of (itemId ev); c = id_of (toolCallId ev); s = rs_lc rs in
      andThen (throw_if (map_of (lc_toolCallStatuses s) c \<noteq> Some Is_active \<or>
                         map_of (lc_toolCallItems s) c \<noteq> Some i)
                 (LifecycleTransitionError Sub_tool_call (tool_call_name rs c) ''active''
                    (''tool call '' @ c @ '' is not active on its owning item''))) (\<lambda>_.
      Inr rs))"

definition restore_call_settled :: "'st restore_step" where
  "restore_call_settled env ev rs =
     (let i = id_of (itemId ev); c = id_of (toolCallId ev); s = rs_lc rs in
      andThen (throw_if (map_of (lc_toolCallItems s) c \<noteq> Some i)
                 (LifecycleTransitionError Sub_tool_call ''missing'' (event_type_name (etype ev))
                    (''tool call '' @ c @ '' has no matching owner item''))) (\<lambda>_.
      andThen (transitionToolCallStatus
                 (case map_of (lc_toolCallStatuses s) c of None \<Rightarrow> Is_not_started | Some st \<Rightarrow> st)
                 (event_settled_status (etype ev))) (\<lambda>nxt.
      Inr (on_lc (set_tool_call c nxt) rs))))"

definition restore_approval_requested :: "'st restore_step" where
  "restore_approval_requested env ev rs =
     (let i = id_of (itemId ev); a = id_of (approvalId ev); s = rs_lc rs in
      andThen (throw_if (map_of (lc_itemStatuses s) i \<noteq> Some Is_active \<or> map_of (lc_approvalStatuses s) a \<noteq> None)
                 (LifecycleTransitionError Sub_approval
                    (case map_of (lc_approvalStatuses s) a of None \<Rightarrow> ''missing'' | Some st \<Rightarrow> approval_status_name st)
                    ''pending'' (''approval '' @ a @ '' has no fresh active request item''))) (\<lambda>_.
      Inr (on_lc (\<lambda>s. (set_approval a Ap_pending s)
             \<lparr>lc_approvalItems := AList.update a i (lc_approvalItems s)\<rparr>) rs)))"

definition decided_status :: "LifecycleEvent \<Rightarrow> ApprovalStatus" where
  "decided_status ev = (case map_of (payload ev) ''status'' of Some (PApproval st) \<Rightarrow> st | _ \<Rightarrow> Ap_pending)"

definition restore_approval_decided :: "'st restore_step" where
  "restore_approval_decided env ev rs =
     (let i = id_of (itemId ev); a = id_of (approvalId ev); s = rs_lc rs;
          missing = LifecycleTransitionError Sub_approval ''missing'' (approval_status_name (decided_status ev))
                      (''approval '' @ a @ '' has no matching request'')
      in (case map_of (lc_approvalStatuses s) a of
            None \<Rightarrow> Inl missing
          | Some current \<Rightarrow>
              andThen (throw_if (map_of (lc_approvalItems s) a \<noteq> Some i) missing) (\<lambda>_.
              andThen (transitionApprovalStatus current (decided_status ev)) (\<lambda>nxt.
              Inr (on_lc (set_approval a nxt) rs)))))"

text \<open>Events that belong to another runtime owner.\<close>

definition other_owner_event :: "LifecycleEventType \<Rightarrow> bool" where
  "other_owner_event t \<longleftrightarrow>
     startsWith (event_type_name t) ''user_input.'' \<or> t = E_request_resolved \<or>
     t = E_context_compaction_requested \<or> t = E_context_compaction_started \<or>
     startsWith (event_type_name t) ''hook.invocation.''"

definition restore_dispatch :: "'st restore_step" where
  "restore_dispatch env ev rs =
     (let t = etype ev in
      if t = E_turn_queued then restore_turn_queued env ev rs
      else if t = E_turn_started then restore_turn_started env ev rs
      else if t = E_turn_blocking_changed then restore_blocking env ev rs
      else if t = E_run_attempt_started then restore_attempt_started env ev rs
      else if t \<in> {E_run_attempt_succeeded, E_run_attempt_failed, E_run_attempt_interrupted}
        then restore_attempt_settled env ev rs
      else if t = E_item_started then restore_item_started env ev rs
      else if t \<in> {E_item_completed, E_item_failed, E_item_declined, E_item_interrupted}
        then restore_item_settled env ev rs
      else if t = E_tool_call_started then restore_call_started env ev rs
      else if t \<in> {E_tool_call_input_delta, E_tool_call_output_delta} then restore_call_delta env ev rs
      else if t \<in> {E_tool_call_completed, E_tool_call_failed, E_tool_call_declined, E_tool_call_interrupted}
        then restore_call_settled env ev rs
      else if t = E_approval_requested then restore_approval_requested env ev rs
      else if t = E_approval_decided then restore_approval_decided env ev rs
      else if other_owner_event t
        then Inl (turn_error (event_type_name t) ''awaiting_approval''
                    ''history contains another pending runtime owner'')
      else Inr rs)"

definition restore_event :: "'st restore_step" where
  "restore_event env ev rs =
     andThen (restore_guard env ev rs) (\<lambda>_.
     andThen (restore_dispatch env ev rs) (\<lambda>rs'.
     andThen (throw_if (terminal_event_type (etype ev))
                (turn_error (event_type_name (etype ev)) ''awaiting_approval''
                   ''terminal history cannot be restored for interruption'')) (\<lambda>_.
     Inr (on_lc (\<lambda>s. s\<lparr>lc_sequence := sequence ev\<rparr>) (rs'\<lparr>rs_lastType := Some (etype ev)\<rparr>)))))"

section \<open>The whole history\<close>

definition pending_entries :: "'st lc_state \<Rightarrow> string list" where
  "pending_entries s = map fst (filter (\<lambda>(_, st). st = Ap_pending) (lc_approvalStatuses s))"

definition active_calls :: "'st lc_state \<Rightarrow> string list" where
  "active_calls s = map fst (filter (\<lambda>(_, st). st = Is_active) (lc_toolCallStatuses s))"

definition active_items :: "'st lc_state \<Rightarrow> string list" where
  "active_items s = map fst (filter (\<lambda>(_, st). st = Is_active) (lc_itemStatuses s))"

text \<open>The conjuncts of the final check, in the order of the source.\<close>

definition isolated_wait :: "'st restore_state \<Rightarrow> bool" where
  "isolated_wait rs \<longleftrightarrow>
     (let s = rs_lc rs;
          pendingApprovalId = (case pending_entries s of [] \<Rightarrow> None | a # _ \<Rightarrow> Some a);
          pendingApprovalItemId =
            (if truthy pendingApprovalId then map_of (lc_approvalItems s) (the pendingApprovalId) else None);
          approvalParent =
            (if truthy pendingApprovalItemId
             then map_of (lc_approvalParents s) (the pendingApprovalItemId) else None)
      in lc_accepted s \<and> rs_started rs \<and> lc_runAttemptStatus s = Ra_running \<and>
         rs_previousStatus rs = Ts_awaiting_approval \<and>
         blocking_kind (lc_blockingState s) = ''waiting_for_approval'' \<and>
         length (pending_entries s) = 1 \<and> truthy pendingApprovalId \<and> truthy pendingApprovalItemId \<and>
         lc_blockingState s = Waiting_for_approval (the pendingApprovalItemId) (the pendingApprovalId) \<and>
         truthy approvalParent \<and> length (active_calls s) = 1 \<and>
         list_all (\<lambda>c. map_of (lc_toolCallItems s) c = approvalParent) (active_calls s) \<and>
         length (active_items s) = length (active_calls s) + 1 \<and>
         the approvalParent \<in> set (active_items s) \<and>
         map_of (lc_itemKinds s) (the approvalParent) = Some Kind_tool_call \<and>
         map_of (lc_itemKinds s) (the pendingApprovalItemId) = Some Kind_approval_request \<and>
         the pendingApprovalItemId \<in> set (active_items s) \<and>
         rs_lastType rs = Some E_turn_blocking_changed)"

definition restore_init :: "nat \<Rightarrow> 'st \<Rightarrow> 'st restore_state" where
  "restore_init ticks k =
     \<lparr>rs_lc = lc_init 0 ticks k, rs_previousStatus = Ts_queued, rs_queued = False, rs_started = False,
      rs_lastType = None\<rparr>"

definition restoreApprovalWaitState ::
  "'st lc_options \<Rightarrow> LifecycleEvent list \<Rightarrow> 'st restore_state \<Rightarrow> js_error + 'st lc_state" where
  "restoreApprovalWaitState env evs rs0 =
     andThen (fold_sum (restore_event env) evs rs0) (\<lambda>rs.
     andThen (throw_if (\<not> isolated_wait rs)
                (turn_error (turn_status_name (rs_previousStatus rs)) ''awaiting_approval''
                   ''history does not prove an isolated pending approval gate'')) (\<lambda>_.
     Inr ((rs_lc rs)\<lparr>lc_status := rs_previousStatus rs\<rparr>)))"

definition restoreForInterruption ::
  "'st lc_options \<Rightarrow> LifecycleEvent list \<Rightarrow> nat \<Rightarrow> 'st \<Rightarrow> js_error + 'st lc_state" where
  "restoreForInterruption env history ticks k =
     (if history = []
      then Inl (turn_error ''missing'' ''awaiting_approval''
                  ''recovery requires a canonical approval-wait history'')
      else andThen (parse_all (opt_parseEvent env) history) (\<lambda>evs.
             restoreApprovalWaitState env evs (restore_init ticks k)))"

section \<open>What a replayed history establishes\<close>

definition restore_inv :: "'st restore_state \<Rightarrow> bool" where
  "restore_inv rs \<longleftrightarrow>
     distinct_keys (lc_itemStatuses (rs_lc rs)) \<and> distinct_keys (lc_approvalStatuses (rs_lc rs)) \<and>
     distinct_keys (lc_toolCallStatuses (rs_lc rs)) \<and>
     (\<forall>i. map_of (lc_itemStatuses (rs_lc rs)) i \<noteq> Some Is_not_started)"

definition step_ok :: "'st restore_state \<Rightarrow> js_error + 'st restore_state \<Rightarrow> bool" where
  "step_ok rs r \<longleftrightarrow>
     (case r of Inl e \<Rightarrow> True | Inr rs' \<Rightarrow> restore_inv rs' \<and> lc_sink (rs_lc rs') = lc_sink (rs_lc rs))"

lemma step_ok_andThen: "(\<And>x. m = Inr x \<Longrightarrow> step_ok rs (f x)) \<Longrightarrow> step_ok rs (andThen m f)"
  by (cases m) (simp_all add: step_ok_def)

lemma step_ok_if: "(b \<Longrightarrow> step_ok rs x) \<Longrightarrow> (\<not> b \<Longrightarrow> step_ok rs y) \<Longrightarrow> step_ok rs (if b then x else y)"
  by simp

lemma step_ok_Inl: "step_ok rs (Inl e)"
  by (simp add: step_ok_def)

lemma step_ok_Inr: "restore_inv rs' \<Longrightarrow> lc_sink (rs_lc rs') = lc_sink (rs_lc rs) \<Longrightarrow> step_ok rs (Inr rs')"
  by (simp add: step_ok_def)

lemma step_ok_case:
  "(x = None \<Longrightarrow> step_ok rs m) \<Longrightarrow> (\<And>y. x = Some y \<Longrightarrow> step_ok rs (f y)) \<Longrightarrow>
   step_ok rs (case x of None \<Rightarrow> m | Some y \<Rightarrow> f y)"
  by (cases x) simp_all

lemmas step_ok_rules = step_ok_andThen step_ok_if step_ok_Inl step_ok_Inr step_ok_case

lemma transition_item_settles:
  "transitionItemStatus from to = Inr nxt \<Longrightarrow> nxt \<noteq> Is_not_started"
  by (cases "from"; cases to) (auto simp: transition_defs)

lemma turn_steps_ok:
  assumes inv: "restore_inv rs"
  shows "step_ok rs (restore_turn_queued env ev rs)" "step_ok rs (restore_turn_started env ev rs)"
  "step_ok rs (restore_blocking env ev rs)" "step_ok rs (restore_attempt_started env ev rs)"
  "step_ok rs (restore_attempt_settled env ev rs)"
  unfolding restore_turn_queued_def restore_turn_started_def restore_blocking_def
    restore_attempt_started_def restore_attempt_settled_def
  by (intro step_ok_rules; use inv in \<open>simp add: restore_inv_def\<close>)+

lemma item_steps_ok:
  assumes inv: "restore_inv rs"
  shows "step_ok rs (restore_item_started env ev rs)" "step_ok rs (restore_item_settled env ev rs)"
  unfolding restore_item_started_def restore_item_settled_def Let_def
  by (intro step_ok_rules;
      use inv in \<open>auto simp: restore_inv_def set_item_def distinct_update
        simp del: map_of_eq_Some_iff dest!: transition_item_settles\<close>)+

lemma call_steps_ok:
  assumes inv: "restore_inv rs"
  shows "step_ok rs (restore_call_started env ev rs)" "step_ok rs (restore_call_delta env ev rs)"
  "step_ok rs (restore_call_settled env ev rs)"
  unfolding restore_call_started_def restore_call_delta_def restore_call_settled_def Let_def
  by (intro step_ok_rules; use inv in \<open>simp add: restore_inv_def set_tool_call_def distinct_update\<close>)+

lemma approval_steps_ok:
  assumes inv: "restore_inv rs"
  shows "step_ok rs (restore_approval_requested env ev rs)" "step_ok rs (restore_approval_decided env ev rs)"
  unfolding restore_approval_requested_def restore_approval_decided_def Let_def
  by (intro step_ok_rules; use inv in \<open>simp add: restore_inv_def set_approval_def distinct_update\<close>)+

lemma dispatch_ok:
  assumes "restore_inv rs"
  shows "step_ok rs (restore_dispatch env ev rs)"
  unfolding restore_dispatch_def Let_def
  by (intro step_ok_if turn_steps_ok item_steps_ok call_steps_ok approval_steps_ok step_ok_Inl
      step_ok_Inr assms refl)

lemma restore_event_inv:
  assumes "restore_event env ev rs = Inr rs'" and "restore_inv rs"
  shows "restore_inv rs' \<and> lc_sink (rs_lc rs') = lc_sink (rs_lc rs) \<and>
    lc_sequence (rs_lc rs') = Suc (lc_sequence (rs_lc rs)) \<and> rs_lastType rs' = Some (etype ev)"
proof -
  obtain rs1 where rs1: "restore_dispatch env ev rs = Inr rs1"
    and rs': "rs' = on_lc (\<lambda>s. s\<lparr>lc_sequence := sequence ev\<rparr>) (rs1\<lparr>rs_lastType := Some (etype ev)\<rparr>)"
    using assms(1) by (auto simp: restore_event_def andThen_Inr_iff)
  have "sequence ev = Suc (lc_sequence (rs_lc rs))"
    using assms(1)
    by (auto simp: restore_event_def restore_guard_def andThen_Inr_iff assertNextLifecycleSequence_def split: if_splits)
  moreover have "restore_inv rs1 \<and> lc_sink (rs_lc rs1) = lc_sink (rs_lc rs)"
    using rs1 dispatch_ok [OF assms(2), of env ev] by (simp add: step_ok_def)
  ultimately show ?thesis
    by (simp add: rs' restore_inv_def)
qed

lemma restore_events_inv:
  assumes "fold_sum (restore_event env) evs rs = Inr rs'" and "restore_inv rs"
  shows "restore_inv rs' \<and> lc_sink (rs_lc rs') = lc_sink (rs_lc rs) \<and>
    lc_sequence (rs_lc rs') = lc_sequence (rs_lc rs) + length evs \<and>
    (evs \<noteq> [] \<longrightarrow> rs_lastType rs' = Some (etype (last evs)))"
  using assms
proof (induction evs arbitrary: rs)
  case (Cons ev evs)
  then obtain rs1 where rs1: "restore_event env ev rs = Inr rs1" "fold_sum (restore_event env) evs rs1 = Inr rs'"
    by (auto simp: andThen_Inr_iff)
  note step = restore_event_inv [OF rs1(1) Cons.prems(2)]
  with Cons.IH [OF rs1(2)] show ?case
    using rs1(2) by (cases evs) auto
qed simp

lemma single_filter:
  assumes "distinct_keys r" and "map fst (filter (\<lambda>(_, st). st = v) r) = [k]"
  shows "map_of r j = Some v \<longleftrightarrow> j = k"
proof -
  have "(j, v) \<in> set r \<longleftrightarrow> j \<in> set (map fst (filter (\<lambda>(_, st). st = v) r))"
    by force
  also have "\<dots> \<longleftrightarrow> j = k" using assms(2) by simp
  finally show ?thesis using assms(1) by simp
qed

lemma isolated_interruptible:
  assumes inv: "restore_inv rs" and iso: "isolated_wait rs"
  shows "interruptible ((rs_lc rs)\<lparr>lc_status := rs_previousStatus rs\<rparr>)"
proof -
  let ?s = "(rs_lc rs)\<lparr>lc_status := rs_previousStatus rs\<rparr>"
  let ?lc = "rs_lc rs"
  obtain a where a: "pending_entries ?lc = [a]"
    using iso unfolding isolated_wait_def Let_def by (metis length_0_conv length_Suc_conv One_nat_def)
  obtain c where c: "active_calls ?lc = [c]"
    using iso unfolding isolated_wait_def Let_def by (metis length_0_conv length_Suc_conv One_nat_def)
  obtain i where i: "map_of (lc_approvalItems ?lc) a = Some i" "i \<noteq> []"
    using iso a by (auto simp: isolated_wait_def Let_def elim: truthy.elims split: if_splits)
  obtain p where p: "map_of (lc_approvalParents ?lc) i = Some p" "p \<noteq> []"
    using iso a i by (auto simp: isolated_wait_def Let_def elim: truthy.elims split: if_splits)
  have facts: "lc_accepted ?lc" "lc_runAttemptStatus ?lc = Ra_running" "rs_previousStatus rs = Ts_awaiting_approval"
    "lc_blockingState ?lc = Waiting_for_approval i a" "map_of (lc_toolCallItems ?lc) c = Some p"
    "p \<in> set (active_items ?lc)" "i \<in> set (active_items ?lc)" "i \<noteq> p"
    using iso a c i p by (auto simp: isolated_wait_def Let_def split: if_splits)
  have d: "distinct_keys (lc_itemStatuses ?lc)" "distinct_keys (lc_approvalStatuses ?lc)" "distinct_keys (lc_toolCallStatuses ?lc)"
    using inv by (simp_all add: restore_inv_def)
  have active: "item_status ?s j = Is_active" if "j \<in> set (active_items ?lc)" for j
    using that d(1) by (force simp: active_items_def item_status_def)
  have pend: "pending_approval ?s b \<longleftrightarrow> b = a" for b
    using single_filter [OF d(2)] a by (simp add: pending_approval_def pending_entries_def)
  have call: "active_call ?s b \<longleftrightarrow> b = c" for b
    using single_filter [OF d(3)] c by (simp add: active_call_def active_calls_def)
  show ?thesis
    using facts d active [OF facts(6)] active [OF facts(7)] i p inv
    unfolding interruptible_def pend call
    by (auto simp: turn_agrees_def isTerminal_def owns_active_item_def owner_of_def restore_inv_def)
qed

lemma isolated_open_work:
  assumes "isolated_wait rs"
  shows "open_work (rs_lc rs) = 5"
proof -
  have "length (pending_entries (rs_lc rs)) = 1" "length (active_calls (rs_lc rs)) = 1" "length (active_items (rs_lc rs)) = 2"
    using assms unfolding isolated_wait_def Let_def by simp_all
  then show ?thesis
    by (simp add: open_work_def count_with_def pending_entries_def active_calls_def active_items_def)
qed

lemma parse_all_length: "parse_all parse evs = Inr evs' \<Longrightarrow> length evs' = length evs"
  by (induction evs arbitrary: evs') (auto split: option.splits sum.splits)

lemma parse_all_last:
  assumes "parse_all parse evs = Inr evs'" and "lawful_schema parse" and "evs \<noteq> []"
  shows "etype (last evs') = etype (last evs)"
  using assms(1,3)
proof (induction evs arbitrary: evs')
  case (Cons ev evs)
  then obtain ev' evs1 where "parse ev = Some ev'" "parse_all parse evs = Inr evs1" "evs' = ev' # evs1"
    by (auto split: option.splits sum.splits)
  moreover from this have "etype ev' = etype ev"
    using assms(2) by (auto simp: lawful_schema_def same_envelope_def)
  ultimately show ?case
    using Cons.IH parse_all_length [of parse evs evs1] by (cases "evs = []") auto
qed simp

lemma restored_facts:
  assumes "restoreForInterruption env history ticks k = Inr s"
  shows "interruptible s \<and> lc_status s = Ts_awaiting_approval \<and> lc_sequence s = length history \<and> lc_sink s = k \<and>
    open_work s = 5 \<and> history \<noteq> [] \<and> (\<exists>evs. parse_all (opt_parseEvent env) history = Inr evs \<and> etype (last evs) = E_turn_blocking_changed)"
proof -
  obtain evs rs where ne: "history \<noteq> []" and evs: "parse_all (opt_parseEvent env) history = Inr evs"
    and rs: "fold_sum (restore_event env) evs (restore_init ticks k) = Inr rs" and iso: "isolated_wait rs"
    and s: "s = (rs_lc rs)\<lparr>lc_status := rs_previousStatus rs\<rparr>"
    using assms
    by (auto simp: restoreForInterruption_def restoreApprovalWaitState_def andThen_Inr_iff split: if_splits)
  have "restore_inv (restore_init ticks k)"
    by (simp add: restore_inv_def restore_init_def lc_init_def)
  note inv = restore_events_inv [OF rs this]
  have len: "length evs = length history" "evs \<noteq> []"
    using parse_all_length [OF evs] ne by auto
  have "rs_previousStatus rs = Ts_awaiting_approval" "rs_lastType rs = Some E_turn_blocking_changed"
    using iso by (simp_all add: isolated_wait_def Let_def)
  moreover have "open_work s = 5"
    using isolated_open_work [OF iso] by (simp add: s open_work_def)
  ultimately show ?thesis
    using inv isolated_interruptible [OF _ iso] len ne evs by (simp add: s restore_init_def lc_init_def)
qed

text \<open>The stream of a turn that started a tool call and asked for its approval.\<close>

definition wait_history :: "LifecycleEvent list" where
  "wait_history =
     map (\<lambda>(n, f). raw_event sample_options f n (event_id sample_options n) sample_time) (zip [1..<8]
       [turn_event E_turn_queued [], turn_event E_turn_started [], turn_event E_run_attempt_started [],
        item_event E_item_started ''itm_call_1'' [(''kind'', PKind Kind_tool_call)],
        tool_event E_tool_call_started ''itm_call_1'' ''call_aaaaaa'' [(''toolName'', PStr ''shell'')],
        item_event E_item_started ''itm_appr_1''
          [(''parentItemId'', PStr ''itm_call_1''), (''kind'', PKind Kind_approval_request)],
        approval_event E_approval_requested ''itm_appr_1'' ''apr_aaaaaa'' []]) @
     [raw_event sample_options (turn_event E_turn_blocking_changed
        [(''blockingState'', PBlocking (Waiting_for_approval ''itm_appr_1'' ''apr_aaaaaa''))]) 8
        (event_id sample_options 8) sample_time]"

lemma wait_history_restores: "\<not> isl (restoreForInterruption sample_options wait_history 0 k)"
  by code_simp

lemma wait_history_canonical:
  "list_all canonical_event wait_history" "contiguous_stream ''trn_abcdef'' wait_history"
  by (simp_all add: wait_history_def canonical_event_def contiguous_stream_def raw_event_def event_id_def
      sample_options_def startsWith_def terminal_event_type_def upt_rec)

section \<open>Properties\<close>

text \<open>
  A coordinator restored from stored events awaits approval with everything an interruption needs:
  one pending approval and one active tool call, each owning an active item of its own, the run
  attempt running, and the sequence of the last event.
\<close>
theorem restored_wait_is_interruptible:
  assumes "restoreForInterruption env history ticks k = Inr s"
  shows "interruptible s \<and> lc_status s = Ts_awaiting_approval \<and> lc_sequence s = length history \<and> lc_sink s = k"
  using restored_facts [OF assms] by simp

lemma restored_wait_is_interruptible_witness:
  "\<exists>s. restoreForInterruption sample_options wait_history 0 empty_lifecycle_store = Inr s \<and> interruptible s \<and>
     lc_sequence s = 8"
proof -
  obtain s where s: "restoreForInterruption sample_options wait_history 0 empty_lifecycle_store = Inr s"
    using wait_history_restores by (metis isl_def sum.exhaust)
  from restored_wait_is_interruptible [OF s] s show ?thesis
    by (simp add: wait_history_def)
qed

text \<open>
  C20. A restored wait can be ended. Take a coordinator restored from the stream the memory store holds for
  the turn, with a schema that accepts the events of the settlement and room for the seven of them among the
  safe integers. Then \<open>interrupt\<close> returns, interrupts the turn, settles every item and approval, leaves no tool
  call active and ends the stored stream with the terminal event.
\<close>
theorem restored_turn_can_be_interrupted:
  assumes "opt_appendBatch env = appendBatch (opt_parseEvent env)"
    and "lawful_schema (opt_parseEvent env)" and "lawful_ids (opt_parseEventId env)" and "canonical_store k"
    and "restoreForInterruption env (lifecycle_log k (opt_turnId env)) ticks k = Inr s"
    and "list_all (accepts env) (cancel_events s reason @
      work_events s Is_interrupted [(''reason'', PStr reason)] @ outcome_events (Outcome_interrupted reason))"
    and "safe_sequence (length (lifecycle_log k (opt_turnId env)) + 7)"
  shows "\<exists>s'. interrupt env reason s = (Inr (), s') \<and> lc_status s' = Ts_interrupted \<and> settled_work s' \<and>
    (\<forall>c. \<not> active_call s' c) \<and> log_end (lifecycle_log (lc_sink s') (opt_turnId env)) = Some E_turn_interrupted"
proof -
  let ?h = "lifecycle_log k (opt_turnId env)"
  obtain evs where s: "interruptible s" "lc_sequence s = length ?h" "lc_sink s = k" "?h \<noteq> []"
    "lc_status s = Ts_awaiting_approval" "open_work s = 5"
    and evs: "parse_all (opt_parseEvent env) ?h = Inr evs" "etype (last evs) = E_turn_blocking_changed"
    using restored_facts [OF assms(5)] by blast
  have "etype (last ?h) = E_turn_blocking_changed"
    using parse_all_last [OF evs(1) assms(2) s(4)] evs(2) by simp
  then have sync: "log_synced lifecycle_log canonical_store (opt_turnId env) s"
    using s assms(4) by (simp add: log_synced_def log_end_def isTerminal_def)
  have "safe_sequence (lc_sequence s + open_work s + 2)"
    using assms(7) by (simp add: s(2,6) add.commute)
  from memory_settles [OF assms(1-3) sync s(1) assms(6) this, where c = "Interrupt reason"] settled_status_Some show ?thesis
    by (fastforce simp: interrupt_def isTerminalItemStatus_def simp del: block.simps)
qed

lemma restored_turn_can_be_interrupted_witness:
  "\<exists>k s s'. lifecycle_log k ''trn_abcdef'' = wait_history \<and>
     restoreForInterruption sample_options wait_history 0 k = Inr s \<and>
     interrupt sample_options ''stop'' s = (Inr (), s') \<and> lc_status s' = Ts_interrupted \<and> (\<forall>c. \<not> active_call s' c)"
proof -
  have "lifecycle_log empty_lifecycle_store t = []" for t
    by (simp add: lifecycle_log_def turn_stored_def empty_lifecycle_store_def)
  then obtain k where k: "canonical_store k" "lifecycle_log k ''trn_abcdef'' = wait_history"
    using commitBatch_next [OF canonical_store_empty wait_history_canonical(1), of "''trn_abcdef''"]
      wait_history_canonical(2) by auto
  obtain s where s: "restoreForInterruption sample_options wait_history 0 k = Inr s"
    using wait_history_restores by (metis isl_def sum.exhaust)
  have t: "opt_turnId sample_options = ''trn_abcdef''"
    by (simp add: sample_options_def)
  have room: "safe_sequence (length wait_history + 7)"
    by (simp add: wait_history_def safe_sequence_def MAX_SAFE_INTEGER_def)
  from restored_turn_can_be_interrupted [OF sample_lawful k(1), unfolded t k(2), OF s sample_accepts_all room, of "''stop''"]
  show ?thesis using k s by blast
qed

end
