(* ===== verification/Kernel_Errors.thy ===== *)
theory Kernel_Errors
  imports Lifecycle_Protocol
begin

text \<open>
  The errors of the runtime kernel and their translation to protocol errors,
  packages/runtime-kernel/src/errors.ts: the code table, worker and provider failures, the search for a provider
  status code along the chain of causes, and the sanitising of a provider's message, with its regular expressions
  written out as scanners.
\<close>

section \<open>Error values\<close>

primrec subject_name :: "LifecycleTransitionSubject \<Rightarrow> string" where
  "subject_name Sub_turn = ''turn''"
| "subject_name Sub_run_attempt = ''run_attempt''"
| "subject_name Sub_item = ''item''"
| "subject_name Sub_tool_call = ''tool_call''"
| "subject_name Sub_approval = ''approval''"
| "subject_name Sub_terminal_settlement = ''terminal_settlement''"

primrec terminal_status_name :: "TurnTerminalStatus \<Rightarrow> string" where
  "terminal_status_name Tt_completed = ''completed''"
| "terminal_status_name Tt_interrupted = ''interrupted''"
| "terminal_status_name Tt_failed = ''failed''"

primrec kernel_code_name :: "RuntimeKernelErrorCode \<Rightarrow> string" where
  "kernel_code_name Kc_invalid_turn_identity = ''invalid_turn_identity''"
| "kernel_code_name Kc_workspace_not_found = ''workspace_not_found''"
| "kernel_code_name Kc_workspace_not_executable = ''workspace_not_executable''"
| "kernel_code_name Kc_model_final_missing = ''model_final_missing''"
| "kernel_code_name Kc_provider_failed = ''provider_failed''"
| "kernel_code_name Kc_tool_loop_limit_exceeded = ''tool_loop_limit_exceeded''"
| "kernel_code_name Kc_worker_failed = ''worker_failed''"
| "kernel_code_name Kc_tool_not_registered = ''tool_not_registered''"
| "kernel_code_name Kc_invalid_tool_input = ''invalid_tool_input''"
| "kernel_code_name Kc_tool_policy_denied = ''tool_policy_denied''"
| "kernel_code_name Kc_approval_denied = ''approval_denied''"
| "kernel_code_name Kc_approval_timed_out = ''approval_timed_out''"
| "kernel_code_name Kc_invalid_approval_grant_scope = ''invalid_approval_grant_scope''"
| "kernel_code_name Kc_approval_retry_required = ''approval_retry_required''"
| "kernel_code_name Kc_invalid_approval_item = ''invalid_approval_item''"
| "kernel_code_name Kc_approval_not_active = ''approval_not_active''"
| "kernel_code_name Kc_approval_already_active = ''approval_already_active''"
| "kernel_code_name Kc_turn_not_active = ''turn_not_active''"
| "kernel_code_name Kc_turn_already_owned = ''turn_already_owned''"
| "kernel_code_name Kc_turn_artifact_settlement_failed = ''turn_artifact_settlement_failed''"
| "kernel_code_name Kc_turn_cancelled = ''turn_cancelled''"
| "kernel_code_name Kc_context_compaction_unsupported = ''context_compaction_unsupported''"

text \<open>
  The message of an error object; the text of a schema rejection comes from the schema library, and is an argument.
\<close>

fun js_message :: "string \<Rightarrow> js_error \<Rightarrow> string" where
  "js_message zod (LifecycleTransitionError sub from to reason) =
     ''Illegal '' @ subject_name sub @ '' transition from '' @ from @ '' to '' @ to @ '': '' @ reason"
| "js_message zod ZodError = zod"
| "js_message zod (EventStoreError code m) = m"
| "js_message zod (RuntimeLifecycleSettlementError st cause) =
     ''Runtime lifecycle settlement failed for '' @ terminal_status_name st"
| "js_message zod (RuntimeKernelError code m cause) = m"
| "js_message zod (ProtocolFailure code m r corr details) = m"
| "js_message zod (PlainError m) = m"
| "js_message zod (ThrownObject isError m status link) = m"
| "js_message zod ThrownPrimitive = []"

fun is_Error :: "js_error \<Rightarrow> bool" where
  "is_Error (ProtocolFailure code m r corr details) = False"
| "is_Error (ThrownObject isError m status link) = isError"
| "is_Error ThrownPrimitive = False"
| "is_Error e = True"

text \<open>\<open>record.statusCode\<close> if it is a number, and \<open>record.causeError ?? record.cause ?? record.lastError ?? record.error\<close>.\<close>

fun status_code :: "js_error \<Rightarrow> rat option" where
  "status_code (ThrownObject isError m status link) = status"
| "status_code e = None"

fun next_cause :: "js_error \<Rightarrow> js_error option" where
  "next_cause (RuntimeLifecycleSettlementError st cause) = Some cause"
| "next_cause (RuntimeKernelError code m cause) = cause"
| "next_cause (ThrownObject isError m status link) = link"
| "next_cause e = None"

section \<open>Provider failures\<close>

text \<open>
  The loop of \<open>readProviderStatusCode\<close>; the argument is what is left of the depth of 8. Causes form finite trees
  here; on a cyclic chain of objects the source stops when it meets an object again, or at the depth.
\<close>

primrec status_loop :: "nat \<Rightarrow> js_error option \<Rightarrow> rat option" where
  "status_loop 0 current = None"
| "status_loop (Suc depth) current =
     (case current of
        None \<Rightarrow> None
      | Some e \<Rightarrow>
          if e = ThrownPrimitive then None
          else case status_code e of
            Some n \<Rightarrow> Some n
          | None \<Rightarrow> status_loop depth (next_cause e))"

definition readProviderStatusCode :: "js_error option \<Rightarrow> rat option" where
  "readProviderStatusCode err = status_loop 8 err"

text \<open>\<open>message.replace(/\s+/g, " ")\<close>\<close>

fun collapse_spaces :: "bool \<Rightarrow> string \<Rightarrow> string" where
  "collapse_spaces inside [] = []"
| "collapse_spaces inside (c # cs) =
     (if is_space c then (if inside then collapse_spaces True cs else CHR '' '' # collapse_spaces True cs)
      else c # collapse_spaces False cs)"

text \<open>
  The scanner of \<open>/\b(sk|key|token)-[A-Za-z0-9_-]{12,}\b/gi\<close>. A match starts where the character before is not a
  word character; it takes the longest run of token characters and gives back characters until it ends at a word
  boundary, keeping at least twelve.
\<close>

definition word_char :: "char \<Rightarrow> bool" where
  "word_char c \<longleftrightarrow>
     (let n = of_char c :: nat in 48 \<le> n \<and> n \<le> 57 \<or> 65 \<le> n \<and> n \<le> 90 \<or> n = 95 \<or> 97 \<le> n \<and> n \<le> 122)"

definition token_char :: "char \<Rightarrow> bool" where
  "token_char c \<longleftrightarrow> word_char c \<or> of_char c = (45 :: nat)"

definition word_at :: "char option \<Rightarrow> bool" where
  "word_at c = (case c of None \<Rightarrow> False | Some c \<Rightarrow> word_char c)"

definition char_at :: "string \<Rightarrow> nat \<Rightarrow> char option" where
  "char_at s i = (if i < length s then Some (s ! i) else None)"

definition secret_prefixes :: "string list" where
  "secret_prefixes = [''sk-'', ''key-'', ''token-'']"

definition ends_at :: "string \<Rightarrow> nat \<Rightarrow> bool" where
  "ends_at s k \<longleftrightarrow> word_at (char_at s (k - 1)) \<noteq> word_at (char_at s k)"

definition match_after :: "string \<Rightarrow> nat option" where
  "match_after s = List.find (ends_at s) (rev [12..<Suc (length (takeWhile token_char s))])"

definition match_secret :: "char option \<Rightarrow> string \<Rightarrow> nat option" where
  "match_secret before s =
     (if word_at before then None
      else case List.find (\<lambda>p. startsWith (toLowerCase s) p) secret_prefixes of
        None \<Rightarrow> None
      | Some p \<Rightarrow> map_option (\<lambda>k. length p + k) (match_after (drop (length p) s)))"

lemma match_secret_pos: "match_secret before s = Some n \<Longrightarrow> 0 < n"
  by (auto simp: match_secret_def match_after_def secret_prefixes_def find_Some_iff split: if_splits)

text \<open>\<open>message.replace(\<dots>, "[redacted]")\<close>\<close>

function redact :: "char option \<Rightarrow> string \<Rightarrow> string" where
  "redact before [] = []"
| "redact before (c # cs) =
     (case match_secret before (c # cs) of
        None \<Rightarrow> c # redact (Some c) cs
      | Some n \<Rightarrow> ''[redacted]'' @ redact (char_at (c # cs) (n - 1)) (drop n (c # cs)))"
  by pat_completeness auto
termination
  by (relation "measure (\<lambda>(before, s). length s)") (auto dest: match_secret_pos)

definition PROVIDER_FALLBACK :: string where
  "PROVIDER_FALLBACK = ''The model provider request failed.''"

definition safeRuntimeErrorMessage :: "string \<Rightarrow> js_error option \<Rightarrow> string" where
  "safeRuntimeErrorMessage zod err =
     (case err of
        None \<Rightarrow> PROVIDER_FALLBACK
      | Some e \<Rightarrow>
          if \<not> is_Error e then PROVIDER_FALLBACK
          else let message = trim (collapse_spaces False (js_message zod e)) in
            if message = [] then PROVIDER_FALLBACK else take 500 (redact None message))"

definition RATE_LIMIT_MESSAGE :: string where
  "RATE_LIMIT_MESSAGE = ''The model provider is temporarily rate limited. LegionCode exhausted its bounded cooldown retry; retry later or choose another model.''"

definition mapProviderFailure :: "string \<Rightarrow> js_error option \<Rightarrow> ProtocolError" where
  "mapProviderFailure zod cause =
     (let statusCode = readProviderStatusCode cause in
      \<lparr>pe_code = Pc_provider_unavailable,
       pe_message = (if statusCode = Some 429 then RATE_LIMIT_MESSAGE else safeRuntimeErrorMessage zod cause),
       pe_retryable = True, pe_correlationId = None,
       pe_details = Some ([(''runtimeKernelCode'', PStr (kernel_code_name Kc_provider_failed))] @
         (case statusCode of None \<Rightarrow> [] | Some n \<Rightarrow> [(''providerStatusCode'', PNum n)]))\<rparr>)"

section \<open>Worker failures and the code table\<close>

text \<open>
  \<open>ProtocolErrorSchema.safeParse\<close>: of the error values only a protocol error object has the fields the strict
  schema asks for; its texts must be within bounds and its details JSON.
\<close>

definition parseWorkerFailure :: "js_error option \<Rightarrow> ProtocolError option" where
  "parseWorkerFailure v =
     (case v of
        Some (ProtocolFailure code m r corr details) \<Rightarrow>
          if m \<noteq> [] \<and> length m \<le> 10000 \<and>
             (case corr of None \<Rightarrow> True | Some x \<Rightarrow> x \<noteq> [] \<and> length x \<le> 200) \<and>
             (case details of None \<Rightarrow> True | Some d \<Rightarrow> isJsonRecord (PObj d))
          then Some \<lparr>pe_code = code, pe_message = m, pe_retryable = r, pe_correlationId = corr, pe_details = details\<rparr>
          else None
      | _ \<Rightarrow> None)"

definition mapWorkerFailure :: "string \<Rightarrow> js_error option \<Rightarrow> ProtocolError" where
  "mapWorkerFailure message cause =
     (let code = PStr (kernel_code_name Kc_worker_failed) in
      case parseWorkerFailure cause of
        None \<Rightarrow>
          \<lparr>pe_code = Pc_command_failed, pe_message = message, pe_retryable = True, pe_correlationId = None,
           pe_details = Some [(''runtimeKernelCode'', code)]\<rparr>
      | Some failure \<Rightarrow>
          failure\<lparr>pe_details := Some (AList.update ''runtimeKernelCode'' code
                     (case pe_details failure of None \<Rightarrow> [] | Some d \<Rightarrow> d))\<rparr>)"

primrec mapProtocolErrorCode :: "RuntimeKernelErrorCode \<Rightarrow> ProtocolErrorCode" where
  "mapProtocolErrorCode Kc_workspace_not_found = Pc_not_found"
| "mapProtocolErrorCode Kc_workspace_not_executable = Pc_conflict"
| "mapProtocolErrorCode Kc_invalid_turn_identity = Pc_conflict"
| "mapProtocolErrorCode Kc_worker_failed = Pc_command_failed"
| "mapProtocolErrorCode Kc_provider_failed = Pc_provider_unavailable"
| "mapProtocolErrorCode Kc_tool_not_registered = Pc_not_found"
| "mapProtocolErrorCode Kc_invalid_tool_input = Pc_validation_failed"
| "mapProtocolErrorCode Kc_model_final_missing = Pc_validation_failed"
| "mapProtocolErrorCode Kc_tool_policy_denied = Pc_policy_denied"
| "mapProtocolErrorCode Kc_approval_denied = Pc_policy_denied"
| "mapProtocolErrorCode Kc_approval_timed_out = Pc_policy_denied"
| "mapProtocolErrorCode Kc_approval_retry_required = Pc_approval_required"
| "mapProtocolErrorCode Kc_invalid_approval_item = Pc_conflict"
| "mapProtocolErrorCode Kc_invalid_approval_grant_scope = Pc_conflict"
| "mapProtocolErrorCode Kc_approval_not_active = Pc_conflict"
| "mapProtocolErrorCode Kc_approval_already_active = Pc_conflict"
| "mapProtocolErrorCode Kc_turn_not_active = Pc_conflict"
| "mapProtocolErrorCode Kc_turn_already_owned = Pc_conflict"
| "mapProtocolErrorCode Kc_tool_loop_limit_exceeded = Pc_internal_error"
| "mapProtocolErrorCode Kc_turn_artifact_settlement_failed = Pc_internal_error"
| "mapProtocolErrorCode Kc_context_compaction_unsupported = Pc_internal_error"
| "mapProtocolErrorCode Kc_turn_cancelled = Pc_conflict"

definition isRetryable :: "RuntimeKernelErrorCode \<Rightarrow> bool" where
  "isRetryable code \<longleftrightarrow> code = Kc_worker_failed \<or> code = Kc_provider_failed \<or> code = Kc_approval_retry_required"

definition toProtocolError :: "string \<Rightarrow> js_error \<Rightarrow> ProtocolError" where
  "toProtocolError zod err =
     (case err of
        RuntimeKernelError code message cause \<Rightarrow>
          if code = Kc_worker_failed then mapWorkerFailure message cause
          else if code = Kc_provider_failed then mapProviderFailure zod cause
          else \<lparr>pe_code = mapProtocolErrorCode code, pe_message = message, pe_retryable = isRetryable code,
                pe_correlationId = None,
                pe_details = Some [(''runtimeKernelCode'', PStr (kernel_code_name code))]\<rparr>
      | _ \<Rightarrow>
          \<lparr>pe_code = Pc_internal_error, pe_message = ''Runtime kernel turn execution failed'', pe_retryable = False,
           pe_correlationId = None, pe_details = None\<rparr>)"

section \<open>What the sanitised message keeps\<close>

text \<open>
  What a match means, without the backtracking: behind a prefix, a run of token characters with a word character at
  its twelfth place or later.
\<close>

definition secret_here :: "string \<Rightarrow> bool" where
  "secret_here s \<longleftrightarrow>
     (\<exists>p \<in> set secret_prefixes. startsWith (toLowerCase s) p \<and>
        (\<exists>c \<in> set (drop 11 (takeWhile token_char (drop (length p) s))). word_char c))"

text \<open>\<open>discloses\<close> is what a test of the regular expression on the whole text answers.\<close>

fun discloses :: "char option \<Rightarrow> string \<Rightarrow> bool" where
  "discloses before [] = False"
| "discloses before (c # cs) = (match_secret before (c # cs) \<noteq> None \<or> discloses (Some c) cs)"

lemma token_char_Some: "word_char c \<Longrightarrow> token_char c"
  by (simp add: token_char_def)

lemma char_at_run:
  assumes "word_at (char_at s k)" and "k \<le> length (takeWhile token_char s)"
  shows "k < length (takeWhile token_char s) \<and> takeWhile token_char s ! k = s ! k"
proof -
  have k: "k < length s" "word_char (s ! k)"
    using assms(1) by (auto simp: char_at_def word_at_def split: if_splits)
  have "k < length (takeWhile token_char s)"
  proof (rule ccontr)
    assume "\<not> k < length (takeWhile token_char s)"
    with assms(2) have "k = length (takeWhile token_char s)" by simp
    with k show False
      using nth_length_takeWhile [of token_char s] token_char_Some by auto
  qed
  then show ?thesis by (simp add: takeWhile_nth)
qed

lemma last_place:
  assumes "i < length xs" and "P (xs ! i)"
  shows "\<exists>j \<ge> i. j < length xs \<and> P (xs ! j) \<and> (\<forall>l > j. l < length xs \<longrightarrow> \<not> P (xs ! l))"
proof -
  define S where "S = {j. i \<le> j \<and> j < length xs \<and> P (xs ! j)}"
  have "finite S" "i \<in> S" using assms by (auto simp: S_def)
  then obtain m where m: "m \<in> S" "\<And>j. j \<in> S \<Longrightarrow> j \<le> m" using Max_in [of S] Max_ge [of S] by blast
  moreover have "\<not> P (xs ! l)" if "m < l" "l < length xs" for l
  proof
    assume "P (xs ! l)"
    with that m(1) have "l \<in> S" by (simp add: S_def)
    with m(2) [of l] that show False by simp
  qed
  ultimately show ?thesis by (auto simp: S_def)
qed

lemma match_after_iff:
  "match_after s \<noteq> None \<longleftrightarrow> (\<exists>c \<in> set (drop 11 (takeWhile token_char s)). word_char c)"
proof -
  let ?run = "takeWhile token_char s"
  have found: "match_after s \<noteq> None \<longleftrightarrow> (\<exists>k \<ge> 12. k \<le> length ?run \<and> ends_at s k)"
    by (auto simp: match_after_def find_None_iff)
  have place: "(\<exists>c \<in> set (drop 11 ?run). word_char c) \<longleftrightarrow> (\<exists>j \<ge> 11. j < length ?run \<and> word_char (?run ! j))"
  proof
    assume "\<exists>c \<in> set (drop 11 ?run). word_char c"
    then obtain i where "i < length (drop 11 ?run)" "word_char (drop 11 ?run ! i)" by (auto simp: in_set_conv_nth)
    then show "\<exists>j \<ge> 11. j < length ?run \<and> word_char (?run ! j)" by (intro exI [of _ "11 + i"]) simp
  next
    assume "\<exists>j \<ge> 11. j < length ?run \<and> word_char (?run ! j)"
    then obtain j where "11 \<le> j" "j < length ?run" "word_char (?run ! j)" by blast
    then show "\<exists>c \<in> set (drop 11 ?run). word_char c"
      by (intro bexI [of _ "?run ! j"]) (auto simp: in_set_conv_nth intro!: exI [of _ "j - 11"])
  qed
  show ?thesis unfolding found place
  proof
    assume "\<exists>k \<ge> 12. k \<le> length ?run \<and> ends_at s k"
    then obtain k where k: "12 \<le> k" "k \<le> length ?run" "ends_at s k" by blast
    then consider "word_at (char_at s (k - 1))" | "word_at (char_at s k)" by (auto simp: ends_at_def)
    then show "\<exists>j \<ge> 11. j < length ?run \<and> word_char (?run ! j)"
    proof cases
      case 1
      from char_at_run [OF this] k have "k - 1 < length ?run" "?run ! (k - 1) = s ! (k - 1)" by auto
      with 1 k show ?thesis by (intro exI [of _ "k - 1"]) (auto simp: word_at_def char_at_def split: if_splits)
    next
      case 2
      from char_at_run [OF this k(2)] 2 k(1) show ?thesis
        by (intro exI [of _ k]) (auto simp: word_at_def char_at_def split: if_splits)
    qed
  next
    assume "\<exists>j \<ge> 11. j < length ?run \<and> word_char (?run ! j)"
    then obtain i where "11 \<le> i" "i < length ?run" "word_char (?run ! i)" by blast
    then obtain j where j: "11 \<le> j" "j < length ?run" "word_char (?run ! j)"
      and last: "\<And>l. j < l \<Longrightarrow> l < length ?run \<Longrightarrow> \<not> word_char (?run ! l)"
      using last_place [of i ?run word_char] by (meson order_trans)
    have len: "length ?run \<le> length s" by (rule length_takeWhile_le)
    have "word_at (char_at s j)" using j len by (simp add: word_at_def char_at_def takeWhile_nth)
    moreover have "\<not> word_at (char_at s (Suc j))"
      using char_at_run [of s "Suc j"] last [of "Suc j"] j by (auto simp: word_at_def char_at_def split: if_splits)
    ultimately show "\<exists>k \<ge> 12. k \<le> length ?run \<and> ends_at s k"
      using j by (intro exI [of _ "Suc j"]) (simp add: ends_at_def)
  qed
qed

lemma prefixes_exclusive:
  assumes "p \<in> set secret_prefixes" and "startsWith s p"
  shows "List.find (startsWith s) secret_prefixes = Some p"
proof -
  from assms(2) obtain t where s: "s = p @ t" by (auto simp: startsWith_def elim: prefixE)
  from assms(1) consider "p = ''sk-''" | "p = ''key-''" | "p = ''token-''" by (auto simp: secret_prefixes_def)
  then show ?thesis by cases (simp_all add: s startsWith_def secret_prefixes_def)
qed

lemma match_secret_iff: "match_secret before s \<noteq> None \<longleftrightarrow> \<not> word_at before \<and> secret_here s"
proof (cases "\<exists>p \<in> set secret_prefixes. startsWith (toLowerCase s) p")
  case True
  then obtain p where p: "p \<in> set secret_prefixes" "startsWith (toLowerCase s) p" by blast
  have only: "q = p" if "q \<in> set secret_prefixes" "startsWith (toLowerCase s) q" for q
    using prefixes_exclusive [OF that] prefixes_exclusive [OF p] by simp
  have "secret_here s \<longleftrightarrow> (\<exists>c \<in> set (drop 11 (takeWhile token_char (drop (length p) s))). word_char c)"
    unfolding secret_here_def using p only by blast
  then show ?thesis
    using prefixes_exclusive [OF p] match_after_iff [of "drop (length p) s"] by (simp add: match_secret_def)
next
  case False
  then have "List.find (startsWith (toLowerCase s)) secret_prefixes = None" by (simp add: find_None_iff)
  with False show ?thesis by (auto simp: match_secret_def secret_here_def)
qed

lemma takeWhile_prefix_mono: "prefix u w \<Longrightarrow> prefix (takeWhile P u) (takeWhile P w)"
  by (induction u arbitrary: w) (auto simp: Cons_prefix_Cons elim!: prefixE)

lemma set_drop_prefix: "prefix u w \<Longrightarrow> set (drop n u) \<subseteq> set (drop n w)"
  by (auto elim!: prefixE)

lemma secret_here_mono:
  assumes "secret_here u" and "prefix u w"
  shows "secret_here w"
proof -
  from assms(1) obtain p c where p: "p \<in> set secret_prefixes" "startsWith (toLowerCase u) p"
    and c: "c \<in> set (drop 11 (takeWhile token_char (drop (length p) u)))" "word_char c"
    unfolding secret_here_def by blast
  from assms(2) obtain t where w: "w = u @ t" by (rule prefixE)
  have "prefix (drop (length p) u) (drop (length p) w)" by (simp add: w)
  from set_drop_prefix [OF takeWhile_prefix_mono [OF this]] c
  have "c \<in> set (drop 11 (takeWhile token_char (drop (length p) w)))" by blast
  moreover have "startsWith (toLowerCase w) p"
    using p(2) by (simp add: startsWith_def toLowerCase_def w)
  ultimately show ?thesis unfolding secret_here_def using p(1) c(2) by blast
qed

lemma lower_char_token: "lower_char c \<in> set ''sketyon-'' \<Longrightarrow> token_char c"
proof -
  have "of_char c < (256 :: nat)" by simp
  moreover assume "lower_char c \<in> set ''sketyon-''"
  then have "of_char (lower_char c) \<in> (of_char ` set ''sketyon-'' :: nat set)" by blast
  ultimately show ?thesis
    by (auto simp: lower_char_def token_char_def word_char_def Let_def split: if_splits)
qed

text \<open>A secret lies within the leading run of token characters.\<close>

lemma secret_here_tokens:
  assumes "secret_here s"
  shows "secret_here (takeWhile token_char s)"
proof -
  from assms obtain p c where p: "p \<in> set secret_prefixes" "startsWith (toLowerCase s) p"
    and c: "c \<in> set (drop 11 (takeWhile token_char (drop (length p) s)))" "word_char c"
    unfolding secret_here_def by blast
  define u v where "u = take (length p) s" and "v = drop (length p) s"
  have s: "s = u @ v" by (simp add: u_def v_def)
  from p(2) obtain t where t: "toLowerCase s = p @ t" by (auto simp: startsWith_def elim: prefixE)
  then have "length p \<le> length s" by (metis length_append le_add1 length_map toLowerCase_def)
  then have len: "length u = length p" by (simp add: u_def)
  have low: "toLowerCase u = p" using t len by (simp add: s toLowerCase_def append_eq_append_conv)
  have "set p \<subseteq> set ''sketyon-''" using p(1) by (auto simp: secret_prefixes_def)
  then have "\<forall>x \<in> set u. token_char x" using low lower_char_token by (force simp: toLowerCase_def)
  then have "takeWhile token_char s = u @ takeWhile token_char v" by (simp add: s)
  moreover have "startsWith (toLowerCase (u @ x)) p" for x
    using low by (simp add: startsWith_def toLowerCase_def)
  moreover have "takeWhile token_char (takeWhile token_char v) = takeWhile token_char v" by (simp add: takeWhile_takeWhile)
  ultimately show ?thesis
    unfolding secret_here_def using p(1) len c by (intro bexI [of _ p] conjI bexI [of _ c]) (simp_all add: v_def)
qed

lemma redact_tokens: "prefix (takeWhile token_char (redact before s)) s"
proof (induction before s rule: redact.induct)
  case (2 before c cs)
  then show ?case
    by (cases "match_secret before (c # cs)") (simp_all add: token_char_def word_char_def)
qed simp

lemma discloses_Cons:
  "discloses before (c # cs) \<longleftrightarrow> \<not> word_at before \<and> secret_here (c # cs) \<or> discloses (Some c) cs"
  using match_secret_iff [of before "c # cs"] by simp

declare discloses.simps(2) [simp del]

lemma discloses_truncated: "discloses before (take n s) \<Longrightarrow> discloses before s"
proof (induction before s arbitrary: n rule: discloses.induct)
  case (2 before c cs)
  show ?case
  proof (cases n)
    case (Suc m)
    have "prefix (c # take m cs) (c # cs)" by (simp add: take_is_prefix)
    from secret_here_mono [OF _ this] "2.prems" "2.IH" [of m] Suc show ?thesis by (auto simp: discloses_Cons)
  qed (use "2.prems" in simp)
qed simp

lemma match_secret_ends:
  assumes "match_secret before s = Some n"
  shows "word_at (char_at s (n - 1)) \<noteq> word_at (char_at s n)"
proof -
  have open_start: "\<not> word_at before" using assms by (auto simp: match_secret_def split: if_splits)
  obtain p where p: "List.find (\<lambda>p. startsWith (toLowerCase s) p) secret_prefixes = Some p"
    using assms open_start by (cases "List.find (\<lambda>p. startsWith (toLowerCase s) p) secret_prefixes") (auto simp: match_secret_def)
  then obtain k where n: "n = length p + k" and k: "match_after (drop (length p) s) = Some k"
    using assms open_start by (auto simp: match_secret_def)
  have at: "char_at (drop (length p) s) i = char_at s (length p + i)" for i
    by (auto simp: char_at_def)
  from k have "ends_at (drop (length p) s) k" "12 \<le> k"
    by (auto simp: match_after_def find_Some_iff rev_nth simp del: upt_Suc)
  then show ?thesis by (simp add: ends_at_def at n)
qed

lemma secret_here_word: "secret_here (c # cs) \<Longrightarrow> word_char c"
proof -
  assume "secret_here (c # cs)"
  then have "lower_char c \<in> {CHR ''s'', CHR ''k'', CHR ''t''}"
    by (auto simp: secret_here_def secret_prefixes_def startsWith_def toLowerCase_def)
  then have "of_char (lower_char c) \<in> {107, 115, 116 :: nat}" by auto
  moreover have "of_char c < (256 :: nat)" by simp
  ultimately show ?thesis by (auto simp: lower_char_def word_char_def Let_def split: if_splits)
qed

lemma discloses_marker: "discloses before (''[redacted]'' @ w) \<longleftrightarrow> discloses (Some CHR '']'') w"
  by (simp add: discloses_Cons secret_here_def secret_prefixes_def startsWith_def toLowerCase_def lower_char_def
      Let_def word_at_def word_char_def)

lemma discloses_before:
  assumes "discloses b w" and "word_at b' \<Longrightarrow> \<not> word_at (char_at w 0)"
  shows "discloses b' w"
  using assms
proof (cases w)
  case (Cons c cs)
  with assms secret_here_word [of c cs] show ?thesis
    by (auto simp: discloses_Cons char_at_def word_at_def split: option.splits)
qed simp

lemma redact_head: "word_at before \<Longrightarrow> char_at (redact before s) 0 = char_at s 0"
  by (cases s) (simp_all add: match_secret_def char_at_def)

lemma redact_clean: "\<not> discloses before (redact before s)"
proof (induction before s rule: redact.induct)
  case (2 before c cs)
  show ?case
  proof (cases "match_secret before (c # cs)")
    case None
    have "secret_here (c # cs)" if "secret_here (c # redact (Some c) cs)"
      using secret_here_mono [OF secret_here_tokens [OF that]] redact_tokens [of before "c # cs"] None by simp
    with "2.IH"(1) [OF None] None match_secret_iff [of before "c # cs"] show ?thesis by (auto simp: discloses_Cons)
  next
    case (Some n)
    let ?z = "char_at (c # cs) (n - 1)" and ?rest = "drop n (c # cs)"
    have "\<not> word_at (char_at (redact ?z ?rest) 0)" if "word_at ?z"
    proof -
      have "char_at ?rest 0 = char_at (c # cs) n" by (simp add: char_at_def)
      with redact_head [OF that, of ?rest] match_secret_ends [OF Some] that show ?thesis by metis
    qed
    with "2.IH"(2) [OF Some] discloses_before [of "Some CHR '']''" "redact ?z ?rest" ?z]
    have "\<not> discloses (Some CHR '']'') (redact ?z ?rest)" by blast
    with Some show ?thesis by (simp add: discloses_marker [simplified])
  qed
qed simp

lemma redact_nonempty: "s \<noteq> [] \<Longrightarrow> redact before s \<noteq> []"
  by (cases s) (simp_all split: option.splits)

lemma secret_here_dash: "secret_here s \<Longrightarrow> CHR ''-'' \<in> set s"
proof -
  assume "secret_here s"
  then obtain p where "p \<in> set secret_prefixes" "prefix p (toLowerCase s)"
    by (auto simp: secret_here_def startsWith_def)
  then have "CHR ''-'' \<in> set (toLowerCase s)"
    by (auto simp: secret_prefixes_def elim!: prefixE)
  then obtain c where c: "c \<in> set s" "lower_char c = CHR ''-''" by (auto simp: toLowerCase_def)
  then have "of_char (lower_char c) = (45 :: nat)" by simp
  moreover have "of_char c < (256 :: nat)" by simp
  ultimately have "lower_char c = c" by (auto simp: lower_char_def Let_def split: if_splits)
  with c show ?thesis by simp
qed

lemma discloses_dash: "discloses before s \<Longrightarrow> CHR ''-'' \<in> set s"
  by (induction before s rule: discloses.induct) (auto simp: discloses_Cons dest: secret_here_dash)

lemma fallback_clean: "\<not> discloses None PROVIDER_FALLBACK" "\<not> discloses None RATE_LIMIT_MESSAGE"
  by (auto simp: PROVIDER_FALLBACK_def RATE_LIMIT_MESSAGE_def dest!: discloses_dash)

lemma safe_message:
  "safeRuntimeErrorMessage zod cause \<noteq> [] \<and> length (safeRuntimeErrorMessage zod cause) \<le> 500 \<and>
   \<not> discloses None (safeRuntimeErrorMessage zod cause)"
proof -
  have "\<not> discloses None (take 500 (redact None m))" for m
    using discloses_truncated redact_clean by blast
  then show ?thesis
    using redact_nonempty [of _ None] fallback_clean(1)
    by (auto simp: safeRuntimeErrorMessage_def Let_def PROVIDER_FALLBACK_def split: option.splits)
qed

text \<open>
  C30. A provider failure reaches the client as a sanitised protocol error, whatever the provider threw: it is reported
  as the provider being unavailable and retryable, its message is not empty and has at most 500 characters, and no
  credential the redaction pattern covers is left in it, also after the cut.
\<close>
theorem provider_failure_is_sanitised:
  "let failure = toProtocolError zod (RuntimeKernelError Kc_provider_failed message cause) in
   pe_code failure = Pc_provider_unavailable \<and> pe_retryable failure \<and> pe_message failure \<noteq> [] \<and>
   length (pe_message failure) \<le> 500 \<and> \<not> discloses None (pe_message failure)"
  using safe_message [of zod cause] fallback_clean(2)
  by (simp add: toProtocolError_def mapProviderFailure_def Let_def RATE_LIMIT_MESSAGE_def)

end
