(* ===== verification/Worker_Results.thy ===== *)
theory Worker_Results
  imports Kernel_Errors
begin

text \<open>
  What a completed tool call of the worker contributes to the turn,
  packages/runtime-kernel/src/WorkerResultEventMapper.ts: the output deltas and artifacts among its events, the
  command output in its result, and an artifact in its result, either already in the protocol's shape or in the shape
  of the artifact store. The schema of artifact metadata is run by the schema library: its \<open>safeParse\<close> is an
  argument. A worker sends plain JSON, so a record is an object value.
\<close>

type_synonym artifact_schema = "pval option \<Rightarrow> pval option"

datatype WorkerToolRuntimeEvent = Tool_output_delta string | Artifact_created pval

record WorkerResultEventProjection =
  wp_outputDeltas :: "string list"
  wp_artifacts :: "pval list"

section \<open>Reading fields\<close>

definition record_of :: "pval option \<Rightarrow> JsonRecord option" where
  "record_of v = (case v of Some (PObj r) \<Rightarrow> Some r | _ \<Rightarrow> None)"

definition readString :: "JsonRecord \<Rightarrow> string \<Rightarrow> string option" where
  "readString r k = (case map_of r k of Some (PStr s) \<Rightarrow> Some s | _ \<Rightarrow> None)"

definition hasContent :: "string option \<Rightarrow> bool" where
  "hasContent v = (case v of None \<Rightarrow> False | Some s \<Rightarrow> 0 < length s)"

definition readRequiredString :: "JsonRecord \<Rightarrow> string \<Rightarrow> string option" where
  "readRequiredString r k = (case map_of r k of Some (PStr s) \<Rightarrow> if 0 < length s then Some s else None | _ \<Rightarrow> None)"

definition MAX_SAFE_INTEGER :: int where
  "MAX_SAFE_INTEGER = 9007199254740991"

definition readRequiredNumber :: "JsonRecord \<Rightarrow> string \<Rightarrow> int option" where
  "readRequiredNumber r k =
     (case map_of r k of
        Some (PNum n) \<Rightarrow>
          (case quotient_of n of
             (num, den) \<Rightarrow> if den = 1 \<and> num \<le> MAX_SAFE_INTEGER \<and> 0 \<le> num then Some num else None)
      | _ \<Rightarrow> None)"

definition parseJsonRecord :: "pval option \<Rightarrow> JsonRecord option" where
  "parseJsonRecord v = (case record_of v of None \<Rightarrow> None | Some r \<Rightarrow> if isJsonRecord (PObj r) then Some r else None)"

definition readLabel :: "JsonRecord \<Rightarrow> string \<Rightarrow> string" where
  "readLabel properties kind =
     (case map_of properties ''label'' of Some (PStr label) \<Rightarrow> if 0 < length label then label else kind | _ \<Rightarrow> kind)"

section \<open>Artifacts in the shape of the artifact store\<close>

record CanonicalOwnership =
  ow_createdBy :: string
  ow_workspaceId :: string
  ow_threadId :: string
  ow_runId :: string

record CanonicalPayload =
  pl_backend :: string
  pl_storageKey :: string
  pl_contentType :: string
  pl_byteSize :: int
  pl_sha256 :: string

record CanonicalArtifactMetadata =
  ca_artifactId :: string
  ca_kind :: string
  ca_ownership :: CanonicalOwnership
  ca_visibility :: string
  ca_payload :: CanonicalPayload
  ca_properties :: JsonRecord
  ca_createdAt :: string

definition parseCanonicalOwnership :: "pval option \<Rightarrow> CanonicalOwnership option" where
  "parseCanonicalOwnership v =
     Option.bind (record_of v) (\<lambda>r.
     Option.bind (readRequiredString r ''createdBy'') (\<lambda>creator.
     Option.bind (readRequiredString r ''workspaceId'') (\<lambda>workspace.
     Option.bind (readRequiredString r ''threadId'') (\<lambda>thread.
     Option.bind (readRequiredString r ''runId'') (\<lambda>run.
     Some \<lparr>ow_createdBy = creator, ow_workspaceId = workspace, ow_threadId = thread, ow_runId = run\<rparr>)))))"

definition parseCanonicalPayload :: "pval option \<Rightarrow> CanonicalPayload option" where
  "parseCanonicalPayload v =
     Option.bind (record_of v) (\<lambda>r.
     Option.bind (readRequiredString r ''backend'') (\<lambda>backend.
     Option.bind (readRequiredString r ''storageKey'') (\<lambda>storageKey.
     Option.bind (readRequiredString r ''contentType'') (\<lambda>contentType.
     Option.bind (readRequiredNumber r ''byteSize'') (\<lambda>byteSize.
     Option.bind (readRequiredString r ''sha256'') (\<lambda>sha256.
     Some \<lparr>pl_backend = backend, pl_storageKey = storageKey, pl_contentType = contentType,
           pl_byteSize = byteSize, pl_sha256 = sha256\<rparr>))))))"

text \<open>\<open>parseCanonicalArtifact\<close> with \<open>hasCanonicalArtifactFields\<close>: every field was read.\<close>

definition parseCanonicalArtifact :: "pval option \<Rightarrow> CanonicalArtifactMetadata option" where
  "parseCanonicalArtifact v =
     Option.bind (record_of v) (\<lambda>r.
     Option.bind (readRequiredString r ''artifactId'') (\<lambda>artifactId.
     Option.bind (readRequiredString r ''kind'') (\<lambda>kind.
     Option.bind (parseCanonicalOwnership (map_of r ''ownership'')) (\<lambda>ownership.
     Option.bind (readRequiredString r ''visibility'') (\<lambda>visibility.
     Option.bind (parseCanonicalPayload (map_of r ''payload'')) (\<lambda>stored.
     Option.bind (parseJsonRecord (map_of r ''properties'')) (\<lambda>properties.
     Option.bind (readRequiredString r ''createdAt'') (\<lambda>created.
     Some \<lparr>ca_artifactId = artifactId, ca_kind = kind, ca_ownership = ownership, ca_visibility = visibility,
           ca_payload = stored, ca_properties = properties, ca_createdAt = created\<rparr>))))))))"

text \<open>The object \<open>parseArtifactProjection\<close> builds from a stored artifact.\<close>

definition projected_artifact :: "nat \<Rightarrow> string \<Rightarrow> CanonicalArtifactMetadata \<Rightarrow> pval" where
  "projected_artifact lastEventSequence i a =
     PObj [(''artifactId'', PStr (ca_artifactId a)),
           (''threadId'', PStr (ow_threadId (ca_ownership a))),
           (''runId'', PStr (ow_runId (ca_ownership a))),
           (''workspaceId'', PStr (ow_workspaceId (ca_ownership a))),
           (''itemId'', PStr i),
           (''kind'', PStr (if ca_kind a = ''patch'' then ''git_patch'' else ca_kind a)),
           (''label'', PStr (readLabel (ca_properties a) (ca_kind a))),
           (''payloadRef'', PObj [
             (''backend'', PStr (if pl_backend (ca_payload a) = ''memory'' then ''local_blob''
                                 else pl_backend (ca_payload a))),
             (''objectKey'', PStr (pl_storageKey (ca_payload a))),
             (''uri'', PNull),
             (''contentType'', PStr (pl_contentType (ca_payload a))),
             (''sizeBytes'', PNum (of_int (pl_byteSize (ca_payload a)))),
             (''sha256'', PStr (pl_sha256 (ca_payload a)))]),
           (''changedFiles'', PArr []),
           (''metadata'', PObj (fold (\<lambda>(k, v). AList.update k v)
              [(''visibility'', PStr (ca_visibility a)), (''createdBy'', PStr (ow_createdBy (ca_ownership a))),
               (''source'', PStr ''artifact_store'')] (ca_properties a))),
           (''createdAt'', PStr (ca_createdAt a)),
           (''eventSequence'', PNum (of_nat lastEventSequence))]"

definition parseArtifactProjection ::
  "artifact_schema \<Rightarrow> nat \<Rightarrow> string \<Rightarrow> pval option \<Rightarrow> js_error + pval option" where
  "parseArtifactProjection safeParse lastEventSequence i v =
     (case safeParse v of
        Some artifact \<Rightarrow> Inr (Some artifact)
      | None \<Rightarrow>
          (case parseCanonicalArtifact v of
             None \<Rightarrow> Inr None
           | Some canonical \<Rightarrow>
               (case safeParse (Some (projected_artifact lastEventSequence i canonical)) of
                  None \<Rightarrow> Inl ZodError
                | Some artifact \<Rightarrow> Inr (Some artifact))))"

section \<open>The projection\<close>

definition collectCommandOutputDeltas :: "JsonRecord \<Rightarrow> string list" where
  "collectCommandOutputDeltas out = map the (filter hasContent [readString out ''stdout'', readString out ''stderr''])"

definition collectOutputDeltas :: "JsonRecord \<Rightarrow> WorkerToolRuntimeEvent list \<Rightarrow> string list" where
  "collectOutputDeltas out events =
     filter (\<lambda>s. hasContent (Some s))
       (concat (map (\<lambda>e. case e of Tool_output_delta d \<Rightarrow> [d] | _ \<Rightarrow> []) events) @ collectCommandOutputDeltas out)"

definition collectOutputArtifacts :: "artifact_schema \<Rightarrow> nat \<Rightarrow> string \<Rightarrow> JsonRecord \<Rightarrow> js_error + pval list" where
  "collectOutputArtifacts safeParse lastEventSequence i out =
     andThen (parseArtifactProjection safeParse lastEventSequence i (Some (PObj out))) (\<lambda>direct.
     case direct of
       Some artifact \<Rightarrow> Inr [artifact]
     | None \<Rightarrow>
         andThen (parseArtifactProjection safeParse lastEventSequence i (map_of out ''artifact'')) (\<lambda>nested.
         Inr (case nested of None \<Rightarrow> [] | Some artifact \<Rightarrow> [artifact])))"

definition collectArtifacts ::
  "artifact_schema \<Rightarrow> nat \<Rightarrow> string \<Rightarrow> JsonRecord \<Rightarrow> WorkerToolRuntimeEvent list \<Rightarrow> js_error + pval list" where
  "collectArtifacts safeParse lastEventSequence i out events =
     andThen (collectOutputArtifacts safeParse lastEventSequence i out) (\<lambda>found.
     Inr (concat (map (\<lambda>e. case e of Artifact_created a \<Rightarrow> [a] | _ \<Rightarrow> []) events) @ found))"

definition mapWorkerResultEvents ::
  "artifact_schema \<Rightarrow> nat \<Rightarrow> string \<Rightarrow> JsonRecord \<Rightarrow> WorkerToolRuntimeEvent list \<Rightarrow>
     js_error + WorkerResultEventProjection" where
  "mapWorkerResultEvents safeParse lastEventSequence i out events =
     andThen (collectArtifacts safeParse lastEventSequence i out events) (\<lambda>artifacts.
     Inr \<lparr>wp_outputDeltas = collectOutputDeltas out events, wp_artifacts = artifacts\<rparr>)"

section \<open>Reading back what the artifact store writes\<close>

text \<open>The JSON of a stored artifact, and the artifacts the store can hold.\<close>

definition artifact_json :: "CanonicalArtifactMetadata \<Rightarrow> JsonRecord" where
  "artifact_json a =
     [(''artifactId'', PStr (ca_artifactId a)), (''kind'', PStr (ca_kind a)),
      (''ownership'', PObj [(''createdBy'', PStr (ow_createdBy (ca_ownership a))),
                            (''workspaceId'', PStr (ow_workspaceId (ca_ownership a))),
                            (''threadId'', PStr (ow_threadId (ca_ownership a))),
                            (''runId'', PStr (ow_runId (ca_ownership a)))]),
      (''visibility'', PStr (ca_visibility a)),
      (''payload'', PObj [(''backend'', PStr (pl_backend (ca_payload a))),
                          (''storageKey'', PStr (pl_storageKey (ca_payload a))),
                          (''contentType'', PStr (pl_contentType (ca_payload a))),
                          (''byteSize'', PNum (of_int (pl_byteSize (ca_payload a)))),
                          (''sha256'', PStr (pl_sha256 (ca_payload a)))]),
      (''properties'', PObj (ca_properties a)),
      (''createdAt'', PStr (ca_createdAt a))]"

definition stored_artifact :: "CanonicalArtifactMetadata \<Rightarrow> bool" where
  "stored_artifact a \<longleftrightarrow>
     list_all (\<lambda>s. s \<noteq> []) [ca_artifactId a, ca_kind a, ow_createdBy (ca_ownership a), ow_workspaceId (ca_ownership a),
       ow_threadId (ca_ownership a), ow_runId (ca_ownership a), ca_visibility a, pl_backend (ca_payload a),
       pl_storageKey (ca_payload a), pl_contentType (ca_payload a), pl_sha256 (ca_payload a), ca_createdAt a] \<and>
     0 \<le> pl_byteSize (ca_payload a) \<and> pl_byteSize (ca_payload a) \<le> MAX_SAFE_INTEGER \<and> isJsonRecord (PObj (ca_properties a))"

lemma readRequiredString_PStr: "map_of r k = Some (PStr s) \<Longrightarrow> s \<noteq> [] \<Longrightarrow> readRequiredString r k = Some s"
  by (simp add: readRequiredString_def)

lemma readRequiredNumber_PNum:
  "map_of r k = Some (PNum (of_int n)) \<Longrightarrow> 0 \<le> n \<Longrightarrow> n \<le> MAX_SAFE_INTEGER \<Longrightarrow> readRequiredNumber r k = Some n"
  by (simp add: readRequiredNumber_def)

lemma parse_artifact_json:
  assumes "stored_artifact a"
  shows "parseCanonicalArtifact (Some (PObj (artifact_json a))) = Some a"
  using assms
  by (simp add: parseCanonicalArtifact_def parseCanonicalOwnership_def parseCanonicalPayload_def parseJsonRecord_def
      record_of_def artifact_json_def stored_artifact_def readRequiredString_PStr readRequiredNumber_PNum)

text \<open>
  An artifact a tool leaves in the artifact store is reported whole: when the result carries the store's JSON of
  an artifact under \<open>artifact\<close> and the result itself is no artifact, exactly one artifact comes from the result, it is
  what the schema makes of the projection of that very artifact, and a projection the schema refuses is an error.
  The output deltas are the event deltas followed by the command output, without the empty ones.
\<close>
theorem stored_artifact_is_reported:
  assumes "stored_artifact a" and "map_of out ''artifact'' = Some (PObj (artifact_json a))"
    and "safeParse (Some (PObj out)) = None" and "parseCanonicalArtifact (Some (PObj out)) = None"
    and "safeParse (Some (PObj (artifact_json a))) = None"
  shows "mapWorkerResultEvents safeParse n i out events =
    (case safeParse (Some (projected_artifact n i a)) of
       None \<Rightarrow> Inl ZodError
     | Some artifact \<Rightarrow> Inr
         \<lparr>wp_outputDeltas = filter (\<lambda>s. s \<noteq> [])
            ([d. Tool_output_delta d \<leftarrow> events] @ [s. Some s \<leftarrow> [readString out ''stdout'', readString out ''stderr'']]),
          wp_artifacts = [v. Artifact_created v \<leftarrow> events] @ [artifact]\<rparr>)"
proof -
  have deltas: "concat (map (\<lambda>e. case e of Tool_output_delta d \<Rightarrow> [d] | _ \<Rightarrow> []) events) = [d. Tool_output_delta d \<leftarrow> events]"
    by (induction events) (auto split: WorkerToolRuntimeEvent.splits)
  have "filter (\<lambda>s. s \<noteq> []) (collectCommandOutputDeltas out) =
      filter (\<lambda>s. s \<noteq> []) [s. Some s \<leftarrow> [readString out ''stdout'', readString out ''stderr'']]"
    by (cases "readString out ''stdout''"; cases "readString out ''stderr''")
      (simp_all add: collectCommandOutputDeltas_def hasContent_def)
  with assms parse_artifact_json [OF assms(1)] show ?thesis
    by (simp add: mapWorkerResultEvents_def collectArtifacts_def collectOutputArtifacts_def parseArtifactProjection_def
        collectOutputDeltas_def hasContent_def split: option.splits)
qed

definition sample_artifact :: CanonicalArtifactMetadata where
  "sample_artifact =
     \<lparr>ca_artifactId = ''art_1'', ca_kind = ''patch'',
      ca_ownership = \<lparr>ow_createdBy = ''usr_1'', ow_workspaceId = ''wsp_1'', ow_threadId = ''thr_1'', ow_runId = ''run_1''\<rparr>,
      ca_visibility = ''private'',
      ca_payload = \<lparr>pl_backend = ''memory'', pl_storageKey = ''k'', pl_contentType = ''text/plain'', pl_byteSize = 3, pl_sha256 = ''ab''\<rparr>,
      ca_properties = [(''label'', PStr ''fix'')], ca_createdAt = ''2026-01-01''\<rparr>"

definition sample_artifact_schema :: artifact_schema where
  "sample_artifact_schema v = (case record_of v of None \<Rightarrow> None | Some r \<Rightarrow> if map_of r ''payloadRef'' = None then None else v)"

lemma stored_artifact_is_reported_witness:
  "mapWorkerResultEvents sample_artifact_schema 7 ''itm_1''
     [(''stdout'', PStr ''ok''), (''artifact'', PObj (artifact_json sample_artifact))] [Tool_output_delta ''x''] =
   Inr \<lparr>wp_outputDeltas = [''x'', ''ok''], wp_artifacts = [projected_artifact 7 ''itm_1'' sample_artifact]\<rparr>"
proof -
  let ?out = "[(''stdout'', PStr ''ok''), (''artifact'', PObj (artifact_json sample_artifact))]"
  have "stored_artifact sample_artifact"
    by (simp add: stored_artifact_def sample_artifact_def MAX_SAFE_INTEGER_def)
  moreover have "sample_artifact_schema (Some (PObj (artifact_json sample_artifact))) = None"
    by (simp add: sample_artifact_schema_def record_of_def artifact_json_def)
  moreover have "sample_artifact_schema (Some (projected_artifact 7 ''itm_1'' sample_artifact)) =
      Some (projected_artifact 7 ''itm_1'' sample_artifact)"
    by (simp add: sample_artifact_schema_def record_of_def projected_artifact_def)
  ultimately show ?thesis
    using stored_artifact_is_reported [of sample_artifact ?out sample_artifact_schema 7 "''itm_1''" "[Tool_output_delta ''x'']"]
    by (simp add: sample_artifact_schema_def record_of_def parseCanonicalArtifact_def readRequiredString_def readString_def)
qed

end
