(* ===== verification/Approval_Coordinator.thy ===== *)
theory Approval_Coordinator
  imports Worker_Results Lifecycle_Liveness
begin

text \<open>
  Waiting for an approval, packages/runtime-kernel/src/ApprovalCoordinator.ts: the pending map with its memoised
  settlements, \<open>requestAndWait\<close>, \<open>resolve\<close> and \<open>settle\<close>. The object's state is the pending map, beside the lifecycle
  coordinator it shares with the tool loop and the state of the ports.

  While the coordinator awaits a port, other callers act on the same turn. A port call therefore answers, besides its
  own result, with the commands those callers issue meanwhile, in their order; nothing is assumed of them.
\<close>

section \<open>Requests, resolutions and state\<close>

record ApprovalRequestedPayload =
  rq_approvalId :: string
  rq_itemId :: "string option"
  rq_question :: string
  rq_options :: "JsonRecord list"
  rq_metadata :: JsonRecord

datatype ApprovalDecision = Dec_approved | Dec_denied | Dec_cancelled

record ApprovalResolution =
  ar_decision :: ApprovalDecision
  ar_decidedBy :: "string option"
  ar_reason :: "string option"
  ar_timedOut :: bool
  ar_grantScope :: "string option"

text \<open>\<open>pa_resolution\<close> is the value the promise was resolved with, \<open>pa_settlement\<close> the outcome of the settlement.\<close>

record PendingApprovalResolution =
  pa_request :: ApprovalRequestedPayload
  pa_resolution :: "ApprovalResolution option"
  pa_settlement :: "(js_error + unit) option"

record ('st, 'w) tool_state =
  tx_lc :: "'st lc_state"
  tx_pending :: "PendingApprovalResolution js_record"
  tx_world :: 'w

type_synonym ('st, 'w, 'm, 'a) tool_op = "(('st, 'w, 'm) tool_state_scheme, js_error, 'a) op"

definition lcE :: "('st, 'a) lc_op \<Rightarrow> ('st, 'w, 'm, 'a) tool_op" where
  "lcE m s = (case m (tx_lc s) of (r, l) \<Rightarrow> (r, s\<lparr>tx_lc := l\<rparr>))"

definition worldE :: "('w \<Rightarrow> 'a \<times> 'w) \<Rightarrow> ('st, 'w, 'm, 'a) tool_op" where
  "worldE f s = (case f (tx_world s) of (x, w) \<Rightarrow> (Inr x, s\<lparr>tx_world := w\<rparr>))"

section \<open>Settling an approval\<close>

definition kernel_error :: "RuntimeKernelErrorCode \<Rightarrow> string \<Rightarrow> js_error" where
  "kernel_error code message = RuntimeKernelError code message None"

definition createPending :: "ApprovalRequestedPayload \<Rightarrow> ('st, 'w, 'm, PendingApprovalResolution) tool_op" where
  "createPending request =
     (let a = rq_approvalId request;
          entry = \<lparr>pa_request = request, pa_resolution = None, pa_settlement = None\<rparr> in
      bindE (getE (\<lambda>s. map_of (tx_pending s) a)) (\<lambda>existing.
      if existing \<noteq> None
      then throwE (kernel_error Kc_approval_already_active (''Approval '' @ a @ '' is already active in this runtime kernel''))
      else bindE (modifyE (\<lambda>s. s\<lparr>tx_pending := AList.update a entry (tx_pending s)\<rparr>)) (\<lambda>_. returnE entry)))"

text \<open>The checks on a reusable grant.\<close>

definition check_grant :: "ApprovalRequestedPayload \<Rightarrow> ApprovalResolution \<Rightarrow> js_error + unit" where
  "check_grant request r =
     (if truthy (ar_grantScope r) then
        if ar_decision r \<noteq> Dec_approved \<or> ar_timedOut r
        then Inl (kernel_error Kc_invalid_approval_grant_scope ''A reusable approval scope requires an approved decision.'')
        else if \<not> list_ex (\<lambda>option. map_of option ''id'' = Some (PStr ''allow_matching_in_chat'')) (rq_options request)
        then Inl (kernel_error Kc_invalid_approval_grant_scope
                    ''The approval request did not offer matching-in-chat permission.'')
        else Inr ()
      else Inr ())"

definition decision_status :: "ApprovalResolution \<Rightarrow> ApprovalStatus" where
  "decision_status r =
     (if ar_timedOut r then Ap_timed_out
      else case ar_decision r of Dec_approved \<Rightarrow> Ap_approved | Dec_denied \<Rightarrow> Ap_denied | Dec_cancelled \<Rightarrow> Ap_cancelled)"

definition decision_payload :: "ApprovalResolution \<Rightarrow> JsonRecord" where
  "decision_payload r =
     [(''decidedBy'', nullable (ar_decidedBy r)), (''reason'', nullable (ar_reason r))] @
     (if ar_decision r = Dec_approved \<and> \<not> ar_timedOut r \<and> truthy (ar_grantScope r)
      then [(''grantScope'', PStr (the (ar_grantScope r)))] else [])"

definition settlement_of :: "('st, 'w, 'm) tool_state_scheme \<Rightarrow> string \<Rightarrow> (js_error + unit) option" where
  "settlement_of s a = Option.bind (map_of (tx_pending s) a) pa_settlement"

definition update_pending ::
  "string \<Rightarrow> (PendingApprovalResolution \<Rightarrow> PendingApprovalResolution) \<Rightarrow>
     ('st, 'w, 'm) tool_state_scheme \<Rightarrow> ('st, 'w, 'm) tool_state_scheme" where
  "update_pending a f s =
     (case map_of (tx_pending s) a of
        None \<Rightarrow> s
      | Some entry \<Rightarrow> s\<lparr>tx_pending := AList.update a (f entry) (tx_pending s)\<rparr>)"

definition start_settlement :: "'st lc_options \<Rightarrow> string \<Rightarrow> ApprovalResolution \<Rightarrow> ('st, 'w, 'm, unit) tool_op" where
  "start_settlement env a r s =
     (case lcE (decideApproval env a (decision_status r) (decision_payload r)) s of
        (outcome, s') \<Rightarrow> (outcome, update_pending a (\<lambda>p. p\<lparr>pa_settlement := Some outcome\<rparr>) s'))"

text \<open>
  \<open>settle\<close>: the first valid call starts the decision, every call awaits that one. The request is that of the pending
  object the source passes.
\<close>

definition settle ::
  "'st lc_options \<Rightarrow> string \<Rightarrow> ApprovalRequestedPayload \<Rightarrow> ApprovalResolution \<Rightarrow> ('st, 'w, 'm, unit) tool_op" where
  "settle env a request r =
     bindE (liftE (check_grant request r)) (\<lambda>_.
     bindE (getE (\<lambda>s. settlement_of s a)) (\<lambda>settlement.
     case settlement of
       Some outcome \<Rightarrow> liftE outcome
     | None \<Rightarrow> start_settlement env a r))"

text \<open>\<open>resolve\<close>; a promise keeps the first value it is resolved with.\<close>

definition require_pending :: "string \<Rightarrow> ('st, 'w, 'm, PendingApprovalResolution) tool_op" where
  "require_pending a =
     bindE (getE (\<lambda>s. map_of (tx_pending s) a)) (\<lambda>entry.
     case entry of
       None \<Rightarrow> throwE (kernel_error Kc_approval_not_active (''Approval '' @ a @ '' is not active in this runtime kernel''))
     | Some p \<Rightarrow> returnE p)"

definition wake :: "ApprovalResolution \<Rightarrow> PendingApprovalResolution \<Rightarrow> PendingApprovalResolution" where
  "wake r p = p\<lparr>pa_resolution := (case pa_resolution p of None \<Rightarrow> Some r | Some first \<Rightarrow> Some first)\<rparr>"

definition resolve_settle :: "'st lc_options \<Rightarrow> string \<Rightarrow> ApprovalResolution \<Rightarrow> ('st, 'w, 'm, unit) tool_op" where
  "resolve_settle env a r = bindE (require_pending a) (\<lambda>p. settle env a (pa_request p) r)"

definition resolve :: "'st lc_options \<Rightarrow> string \<Rightarrow> ApprovalResolution \<Rightarrow> ('st, 'w, 'm, unit) tool_op" where
  "resolve env a r = bindE (resolve_settle env a r) (\<lambda>_. modifyE (update_pending a (wake r)))"

section \<open>Waiting\<close>

text \<open>
  What other callers do meanwhile: an operation of the lifecycle coordinator (an interrupt, an accepted input), a
  \<open>resolve\<close> that runs to its end, or a \<open>resolve\<close> whose settlement is made but whose wake-up comes after the wait is
  over.
\<close>

datatype tool_command =
    Lifecycle_operation lc_command
  | Resolve string ApprovalResolution
  | Resolve_late string ApprovalResolution

primrec tool_exec :: "'st lc_options \<Rightarrow> tool_command \<Rightarrow> ('st, 'w, 'm, unit) tool_op" where
  "tool_exec env (Lifecycle_operation c) = lcE (lc_exec env c)"
| "tool_exec env (Resolve a r) = resolve env a r"
| "tool_exec env (Resolve_late a r) = resolve_settle env a r"

definition tool_run :: "'st lc_options \<Rightarrow> tool_command list \<Rightarrow> ('st, 'w, 'm) tool_state_scheme \<Rightarrow> ('st, 'w, 'm) tool_state_scheme" where
  "tool_run env cs s = fold (\<lambda>c s. snd (tool_exec env c s)) cs s"

text \<open>How the port's promise or the abort signal ends the race, unless the pending resolution wins it earlier.\<close>

datatype wait_outcome = Port_decided "js_error + ApprovalResolution" | Signal_aborted

definition turn_cancelled_error :: js_error where
  "turn_cancelled_error = kernel_error Kc_turn_cancelled ''Turn cancelled by user.''"

primrec race :: "'st lc_options \<Rightarrow> string \<Rightarrow> tool_command list \<Rightarrow> wait_outcome \<Rightarrow> ('st, 'w, 'm, ApprovalResolution) tool_op" where
  "race env a [] outcome =
     (case outcome of Port_decided d \<Rightarrow> liftE d | Signal_aborted \<Rightarrow> throwE turn_cancelled_error)"
| "race env a (c # cs) outcome = (\<lambda>s.
     let s' = snd (tool_exec env c s) in
     case Option.bind (map_of (tx_pending s') a) pa_resolution of
       Some r \<Rightarrow> (Inr r, s')
     | None \<Rightarrow> race env a cs outcome s')"

definition raceApprovalResolution ::
  "'st lc_options \<Rightarrow> string \<Rightarrow> bool \<Rightarrow> tool_command list \<times> wait_outcome \<Rightarrow> ('st, 'w, 'm, ApprovalResolution) tool_op" where
  "raceApprovalResolution env a aborted wait =
     (if aborted then throwE turn_cancelled_error else race env a (fst wait) (snd wait))"

type_synonym 'w wait_port = "ApprovalRequestedPayload \<Rightarrow> 'w \<Rightarrow> (tool_command list \<times> wait_outcome) \<times> 'w"

definition DENIED_MESSAGE :: string where
  "DENIED_MESSAGE = ''The user denied this action, so it was not executed. Do not repeat it or bypass the permission policy. Continue with permitted work, or explain what is blocked.''"

definition granted :: "ApprovalResolution \<Rightarrow> bool" where
  "granted r \<longleftrightarrow> ar_decision r = Dec_approved \<and> \<not> ar_timedOut r"

text \<open>The last part of \<open>requestAndWait\<close>: only a granted resolution is returned.\<close>

definition check_resolution :: "string \<Rightarrow> ApprovalResolution \<Rightarrow> js_error + ApprovalResolution" where
  "check_resolution a r =
     (if ar_timedOut r
      then Inl (kernel_error Kc_approval_timed_out (''Approval '' @ a @ '' timed out before a decision was recorded.''))
      else if ar_decision r = Dec_cancelled
      then Inl (kernel_error Kc_turn_cancelled (''Approval '' @ a @ '' was cancelled by the user.''))
      else if ar_decision r = Dec_denied then Inl (kernel_error Kc_approval_denied DENIED_MESSAGE)
      else Inr r)"

text \<open>The body of the \<open>try\<close> statement.\<close>

definition await_decision ::
  "'st lc_options \<Rightarrow> 'w wait_port \<Rightarrow> ('w \<Rightarrow> bool) \<Rightarrow> string \<Rightarrow> string \<Rightarrow> ApprovalRequestedPayload \<Rightarrow>
     PendingApprovalResolution \<Rightarrow> ('st, 'w, 'm, ApprovalResolution) tool_op" where
  "await_decision env waitForDecision aborted parentItemId i request pending =
     (let a = rq_approvalId request in
      bindE (lcE (requestApproval env parentItemId a i
               [(''question'', PStr (rq_question request)), (''options'', PArr (map PObj (rq_options request))),
                (''metadata'', PObj (rq_metadata request))])) (\<lambda>_.
      bindE (worldE (waitForDecision request)) (\<lambda>wait.
      bindE (getE (\<lambda>s. aborted (tx_world s))) (\<lambda>b.
      bindE (raceApprovalResolution env a b wait) (\<lambda>r.
      bindE (settle env a (pa_request pending) r) (\<lambda>_.
      liftE (check_resolution a r)))))))"

definition requestAndWait ::
  "'st lc_options \<Rightarrow> 'w wait_port \<Rightarrow> ('w \<Rightarrow> bool) \<Rightarrow> string \<Rightarrow> ApprovalRequestedPayload \<Rightarrow>
     ('st, 'w, 'm, ApprovalResolution) tool_op" where
  "requestAndWait env waitForDecision aborted parentItemId request =
     (let a = rq_approvalId request in
      if rq_itemId request = None \<or> rq_itemId request = Some parentItemId
      then throwE (kernel_error Kc_invalid_approval_item (''Approval '' @ a @ '' requires a distinct approval item''))
      else
        bindE (createPending request) (\<lambda>pending.
        finallyE (await_decision env waitForDecision aborted parentItemId (the (rq_itemId request)) request pending)
          (\<lambda>s. s\<lparr>tx_pending := AList.delete a (tx_pending s)\<rparr>)))"

section \<open>Operations on the lifecycle and on the ports\<close>

lemma wpE_lcE [wp_simps]:
  "wpE (lcE m) Q E s = wpE m (\<lambda>x l. Q x (s\<lparr>tx_lc := l\<rparr>)) (\<lambda>e l. E e (s\<lparr>tx_lc := l\<rparr>)) (tx_lc s)"
  by (auto simp: wpE_def lcE_def split: prod.splits sum.splits)

lemma wpE_worldE [wp_simps]:
  "wpE (worldE f) Q E s = (case f (tx_world s) of (x, w) \<Rightarrow> Q x (s\<lparr>tx_world := w\<rparr>))"
  by (simp add: wpE_def worldE_def split: prod.splits)

lemma keeps_lcE: "(\<And>s l. P (s\<lparr>tx_lc := l\<rparr>) = P s) \<Longrightarrow> keeps P (lcE m)"
  by (simp add: keeps_def lcE_def split: prod.splits)

lemma keeps_worldE: "(\<And>s w. P (s\<lparr>tx_world := w\<rparr>) = P s) \<Longrightarrow> keeps P (worldE f)"
  by (simp add: keeps_def worldE_def split: prod.splits)

lemma keeps_finally: "keeps P m \<Longrightarrow> (\<And>s. P s \<Longrightarrow> P (f s)) \<Longrightarrow> keeps P (finallyE m f)"
  by (simp add: keeps_def finallyE_def split: prod.splits) (metis snd_conv)

section \<open>The pending map\<close>

text \<open>The approvals that are pending, with their requests, without what is memoised for them.\<close>

definition pending_view :: "('st, 'w, 'm) tool_state_scheme \<Rightarrow> (string \<times> ApprovalRequestedPayload) list" where
  "pending_view s = map (\<lambda>(a, p). (a, pa_request p)) (tx_pending s)"

lemma map_update_same:
  "map_of r k = Some v \<Longrightarrow> g v' = g v \<Longrightarrow> map (\<lambda>(k, v). (k, g v)) (AList.update k v' r) = map (\<lambda>(k, v). (k, g v)) r"
  by (induction r) auto

lemma pending_view_updates [simp]:
  "pending_view (s\<lparr>tx_lc := l\<rparr>) = pending_view s" "pending_view (s\<lparr>tx_world := w\<rparr>) = pending_view s"
  "(\<And>p. pa_request (f p) = pa_request p) \<Longrightarrow> pending_view (update_pending a f s) = pending_view s"
  by (simp_all add: pending_view_def update_pending_def map_update_same split: option.splits)

lemma update_pending_fields [simp]:
  "tx_lc (update_pending a f s) = tx_lc s" "tx_world (update_pending a f s) = tx_world s"
  "map_of (tx_pending (update_pending a f s)) b =
     (if b = a then map_option f (map_of (tx_pending s) a) else map_of (tx_pending s) b)"
  by (auto simp: update_pending_def split: option.splits)

lemma wake_request [simp]: "pa_request (wake r p) = pa_request p" "pa_settlement (wake r p) = pa_settlement p"
  by (simp_all add: wake_def)

lemma wpE_start_settlement [wp_simps]:
  "wpE (start_settlement env a r) Q E s =
     wpE (lcE (decideApproval env a (decision_status r) (decision_payload r)))
       (\<lambda>x s'. Q x (update_pending a (\<lambda>p. p\<lparr>pa_settlement := Some (Inr x)\<rparr>) s'))
       (\<lambda>e s'. E e (update_pending a (\<lambda>p. p\<lparr>pa_settlement := Some (Inl e)\<rparr>) s')) s"
  by (auto simp: wpE_def start_settlement_def split: prod.splits sum.splits)

lemma settle_keeps_pending: "keeps (\<lambda>s. pending_view s = V) (settle env a rq r)"
proof -
  have "keeps (\<lambda>s. pending_view s = V) (start_settlement env a r)"
    by (simp add: keeps_def start_settlement_def lcE_def split: prod.splits)
  then show ?thesis unfolding settle_def by (intro keeps_rules)
qed

lemma tool_exec_keeps_pending: "keeps (\<lambda>s. pending_view s = V) (tool_exec env c)"
proof -
  have settle: "keeps (\<lambda>s. pending_view s = V) (resolve_settle env a r)" for a r
    unfolding resolve_settle_def require_pending_def by (intro keeps_rules settle_keeps_pending)
  then show ?thesis
    by (cases c) (auto simp: resolve_def intro!: keeps_rules keeps_lcE keeps_modify)
qed

lemma race_keeps:
  assumes "\<And>c. keeps P (tool_exec env c)"
  shows "keeps P (race env a cs outcome)"
proof (induction cs)
  case Nil
  then show ?case by (cases outcome) (simp_all add: keeps_rules)
next
  case (Cons c cs)
  show ?case
    unfolding keeps_def
  proof (intro allI impI)
    fix s assume "P s"
    then have "P (snd (tool_exec env c s))" by (rule keepsD [OF assms])
    with Cons show "P (snd (race env a (c # cs) outcome s))"
      by (auto simp: Let_def keeps_def split: option.splits)
  qed
qed

lemma tool_run_keeps: "(\<And>c. keeps P (tool_exec env c)) \<Longrightarrow> P s \<Longrightarrow> P (tool_run env cs s)"
  unfolding tool_run_def by (induction cs arbitrary: s) (auto intro: keepsD)

lemma pending_view_delete: "map_of V a = None \<Longrightarrow> pending_view s = V @ [(a, rq)] \<Longrightarrow>
    pending_view (s\<lparr>tx_pending := AList.delete a (tx_pending s)\<rparr>) = V"
proof -
  assume V: "map_of V a = None" and s: "pending_view s = V @ [(a, rq)]"
  have "map (\<lambda>(a, p). (a, pa_request p)) (AList.delete a r) = filter (\<lambda>(k, _). k \<noteq> a) (map (\<lambda>(a, p). (a, pa_request p)) r)"
    for r :: "PendingApprovalResolution js_record"
    by (induction r) (auto simp: AList.delete_eq)
  with s have "pending_view (s\<lparr>tx_pending := AList.delete a (tx_pending s)\<rparr>) = filter (\<lambda>(k, _). k \<noteq> a) (V @ [(a, rq)])"
    by (simp add: pending_view_def)
  also have "\<dots> = V" using V by (force simp: map_of_eq_None_iff intro!: filter_True)
  finally show ?thesis .
qed

lemma await_keeps_pending: "keeps (\<lambda>s. pending_view s = V) (await_decision env wt ab par i rq p)"
  unfolding await_decision_def raceApprovalResolution_def Let_def
  by (intro keeps_rules keeps_lcE keeps_worldE settle_keeps_pending race_keeps tool_exec_keeps_pending) simp_all

text \<open>The state in which the wait starts.\<close>

definition new_pending :: "ApprovalRequestedPayload \<Rightarrow> PendingApprovalResolution" where
  "new_pending rq = \<lparr>pa_request = rq, pa_resolution = None, pa_settlement = None\<rparr>"

definition with_pending ::
  "ApprovalRequestedPayload \<Rightarrow> ('st, 'w, 'm) tool_state_scheme \<Rightarrow> ('st, 'w, 'm) tool_state_scheme" where
  "with_pending rq s = s\<lparr>tx_pending := AList.update (rq_approvalId rq) (new_pending rq) (tx_pending s)\<rparr>"

definition without_pending :: "string \<Rightarrow> ('st, 'w, 'm) tool_state_scheme \<Rightarrow> ('st, 'w, 'm) tool_state_scheme" where
  "without_pending a s = s\<lparr>tx_pending := AList.delete a (tx_pending s)\<rparr>"

lemma wpE_requestAndWait:
  "wpE (requestAndWait env wt ab par rq) Q E s =
     (if rq_itemId rq = None \<or> rq_itemId rq = Some par
      then E (kernel_error Kc_invalid_approval_item (''Approval '' @ rq_approvalId rq @ '' requires a distinct approval item'')) s
      else if map_of (tx_pending s) (rq_approvalId rq) \<noteq> None
      then E (kernel_error Kc_approval_already_active (''Approval '' @ rq_approvalId rq @ '' is already active in this runtime kernel'')) s
      else wpE (await_decision env wt ab par (the (rq_itemId rq)) rq (new_pending rq))
             (\<lambda>x s'. Q x (without_pending (rq_approvalId rq) s')) (\<lambda>e s'. E e (without_pending (rq_approvalId rq) s'))
             (with_pending rq s))"
  by (simp add: requestAndWait_def createPending_def Let_def wp_simps new_pending_def with_pending_def without_pending_def)

lemma requestAndWait_keeps_pending:
  fixes env :: "'st lc_options" and wt :: "'w wait_port"
  shows "keeps (\<lambda>s :: ('st, 'w, 'm) tool_state_scheme. pending_view s = V) (requestAndWait env wt ab par rq)"
proof (rule keeps_via_wp)
  fix s :: "('st, 'w, 'm) tool_state_scheme"
  assume V: "pending_view s = V"
  let ?a = "rq_approvalId rq"
  show "wpE (requestAndWait env wt ab par rq) (\<lambda>_ s. pending_view s = V) (\<lambda>_ s. pending_view s = V) s"
  proof (cases "map_of (tx_pending s) ?a")
    case None
    then have fresh: "map_of V ?a = None" "?a \<notin> fst ` set (tx_pending s)"
      using V by (force simp: pending_view_def map_of_eq_None_iff)+
    have "pending_view (with_pending rq s) = V @ [(?a, rq)]"
      using V fresh(2) by (simp add: pending_view_def with_pending_def new_pending_def update_fresh)
    from keeps_wp [THEN iffD1, OF await_keeps_pending, rule_format, OF this, of env wt ab par "the (rq_itemId rq)" rq "new_pending rq"]
    have "wpE (await_decision env wt ab par (the (rq_itemId rq)) rq (new_pending rq))
        (\<lambda>_ s'. pending_view (without_pending ?a s') = V) (\<lambda>_ s'. pending_view (without_pending ?a s') = V) (with_pending rq s)"
      by (rule wpE_mono) (simp_all add: without_pending_def pending_view_delete [OF fresh(1)])
    with V None show ?thesis by (simp add: wpE_requestAndWait)
  qed (use V in \<open>simp add: wpE_requestAndWait\<close>)
qed

section \<open>An approval is decided once\<close>

lemma settle_memoised:
  "settlement_of s a = Some outcome \<Longrightarrow> check_grant rq r = Inr () \<Longrightarrow> settle env a rq r s = (outcome, s)"
  "check_grant rq r = Inl e \<Longrightarrow> settle env a rq r s = (Inl e, s)"
  by (simp_all add: settle_def op_defs)

lemma settle_first:
  assumes "map_of (tx_pending s) a = Some p" and "pa_settlement p = None" and "check_grant rq r = Inr ()"
  shows "settle env a rq r s = start_settlement env a r s"
  using assms by (simp add: settle_def settlement_of_def op_defs)

lemma start_settlement_memo:
  assumes "map_of (tx_pending s) a = Some p"
  shows "settlement_of (snd (start_settlement env a r s)) a =
    Some (fst (decideApproval env a (decision_status r) (decision_payload r) (tx_lc s)))"
    "fst (start_settlement env a r s) = fst (decideApproval env a (decision_status r) (decision_payload r) (tx_lc s))"
    "tx_lc (snd (start_settlement env a r s)) = snd (decideApproval env a (decision_status r) (decision_payload r) (tx_lc s))"
  using assms by (simp_all add: start_settlement_def lcE_def settlement_of_def split: prod.splits)

lemma settled_resolve:
  assumes "map_of (tx_pending s) a = Some p" and "pa_settlement p = Some outcome"
  shows "fst (resolve env a r s) = (case check_grant (pa_request p) r of Inl e \<Rightarrow> Inl e | Inr _ \<Rightarrow> outcome)"
    and "tx_lc (snd (resolve env a r s)) = tx_lc s" and "tx_lc (snd (resolve_settle env a r s)) = tx_lc s"
    and "\<exists>p'. map_of (tx_pending (snd (resolve env a r s))) a = Some p' \<and> pa_settlement p' = Some outcome \<and> pa_request p' = pa_request p"
    and "\<exists>p'. map_of (tx_pending (snd (resolve_settle env a r s))) a = Some p' \<and> pa_settlement p' = Some outcome \<and> pa_request p' = pa_request p"
proof -
  have memo: "settle env a (pa_request p) r s = (case check_grant (pa_request p) r of Inl e \<Rightarrow> (Inl e, s) | Inr _ \<Rightarrow> (outcome, s))"
    using assms settle_memoised(1) [of s a outcome "pa_request p" r env]
    by (auto simp: settlement_of_def settle_memoised(2) split: sum.splits)
  then show "fst (resolve env a r s) = (case check_grant (pa_request p) r of Inl e \<Rightarrow> Inl e | Inr _ \<Rightarrow> outcome)"
    and "tx_lc (snd (resolve env a r s)) = tx_lc s" and "tx_lc (snd (resolve_settle env a r s)) = tx_lc s"
    and "\<exists>p'. map_of (tx_pending (snd (resolve env a r s))) a = Some p' \<and> pa_settlement p' = Some outcome \<and> pa_request p' = pa_request p"
    and "\<exists>p'. map_of (tx_pending (snd (resolve_settle env a r s))) a = Some p' \<and> pa_settlement p' = Some outcome \<and> pa_request p' = pa_request p"
    using assms
    by (auto simp: resolve_def resolve_settle_def require_pending_def op_defs split: sum.splits)
qed

definition resolves :: "string \<Rightarrow> tool_command \<Rightarrow> bool" where
  "resolves a c \<longleftrightarrow> (\<exists>r. c = Resolve a r \<or> c = Resolve_late a r)"

lemma settled_run:
  assumes "map_of (tx_pending s) a = Some p" and "pa_settlement p = Some outcome" and "list_all (resolves a) cs"
  shows "tx_lc (tool_run env cs s) = tx_lc s \<and>
    (\<exists>p'. map_of (tx_pending (tool_run env cs s)) a = Some p' \<and> pa_settlement p' = Some outcome \<and> pa_request p' = pa_request p)"
  using assms
proof (induction cs arbitrary: s p)
  case (Cons c cs)
  let ?s = "snd (tool_exec env c s)"
  have "tx_lc ?s = tx_lc s \<and> (\<exists>p'. map_of (tx_pending ?s) a = Some p' \<and> pa_settlement p' = Some outcome \<and> pa_request p' = pa_request p)"
    using settled_resolve [OF Cons.prems(1,2)] Cons.prems(3) by (auto simp: resolves_def)
  then obtain p' where "tx_lc ?s = tx_lc s" "map_of (tx_pending ?s) a = Some p'" "pa_settlement p' = Some outcome" "pa_request p' = pa_request p"
    by blast
  with Cons.IH [OF this(2,3)] Cons.prems(3) show ?case by (simp add: tool_run_def)
qed (simp add: tool_run_def)

text \<open>
  However many callers resolve a pending approval, it is decided once: after the first resolution that passes the
  grant check, any further resolutions leave the lifecycle as the first one left it, and each of them that passes the
  grant check answers with the outcome of that first decision, an error of the event store included.
\<close>
theorem approval_is_decided_once:
  assumes "map_of (tx_pending s) a = Some p" and "pa_settlement p = None" and "check_grant (pa_request p) r = Inr ()"
    and "list_all (resolves a) cs"
    and "decideApproval env a (decision_status r) (decision_payload r) (tx_lc s) = (outcome, l)"
  shows "tx_lc (tool_run env (Resolve a r # cs) s) = l \<and>
    (\<forall>r'. check_grant (pa_request p) r' = Inr () \<longrightarrow> fst (resolve env a r' (tool_run env (Resolve a r # cs) s)) = outcome)"
proof -
  let ?s = "snd (resolve env a r s)"
  have settle: "settle env a (pa_request p) r s = start_settlement env a r s"
    by (rule settle_first [OF assms(1-3)])
  have "tx_lc ?s = l \<and>
      (\<exists>p'. map_of (tx_pending ?s) a = Some p' \<and> pa_settlement p' = Some outcome \<and> pa_request p' = pa_request p)"
    using assms(1,5) settle
    by (auto simp: resolve_def resolve_settle_def require_pending_def op_defs start_settlement_def lcE_def
        split: prod.splits sum.splits)
  then obtain p' where p': "tx_lc ?s = l" "map_of (tx_pending ?s) a = Some p'"
    "pa_settlement p' = Some outcome" "pa_request p' = pa_request p" by blast
  from settled_run [OF p'(2,3) assms(4), of env] obtain q where
    q: "tx_lc (tool_run env cs ?s) = l" "map_of (tx_pending (tool_run env cs ?s)) a = Some q"
      "pa_settlement q = Some outcome" "pa_request q = pa_request p" using p'(1,4) by metis
  have "tool_run env (Resolve a r # cs) s = tool_run env cs ?s" by (simp add: tool_run_def)
  with q settled_resolve(1) [OF q(2,3), of env] show ?thesis by simp
qed

section \<open>A granted approval is recorded as approved\<close>

text \<open>\<open>ensures Q m\<close>: when \<open>m\<close> returns, it returns in a state with \<open>Q\<close>.\<close>

definition ensures :: "('s \<Rightarrow> bool) \<Rightarrow> ('s, 'e, 'a) op \<Rightarrow> bool" where
  "ensures Q m \<longleftrightarrow> (\<forall>s x s'. m s = (Inr x, s') \<longrightarrow> Q s')"

lemma ensures_bind: "(\<And>x. ensures Q (f x)) \<Longrightarrow> ensures Q (bindE m f)"
  by (auto simp: ensures_def bindE_def split: prod.splits sum.splits)

lemma ensures_lift: "(\<And>x. r = Inr x \<Longrightarrow> ensures Q (f x)) \<Longrightarrow> ensures Q (bindE (liftE r) f)"
  by (cases r) (auto simp: ensures_def bindE_def liftE_def)

lemma ensures_then_keeps: "ensures Q m \<Longrightarrow> (\<And>x. keeps Q (f x)) \<Longrightarrow> ensures Q (bindE m f)"
  by (auto simp: ensures_def keeps_def bindE_def split: prod.splits sum.splits) (metis snd_conv)

lemma ensures_block: "ensures Q (block ms) \<Longrightarrow> ensures Q (block (m # ms))"
  by (simp add: ensures_bind)

lemma ensures_modify: "(\<And>s. Q (f s)) \<Longrightarrow> ensures Q (modifyE f)"
  by (simp add: ensures_def modifyE_def)

lemma ensures_wp: "ensures Q m \<Longrightarrow> wpE m (\<lambda>_. Q) (\<lambda>_ _. True) s"
  by (auto simp: ensures_def wpE_def split: prod.splits sum.splits)

lemma decideApproval_records: "ensures (\<lambda>s. map_of (lc_approvalStatuses s) a = Some st) (decideApproval env a st p)"
proof -
  let ?P = "\<lambda>s. map_of (lc_approvalStatuses s) a = Some st"
  have ins: "insensitive ?P" by (simp add: insensitive_def)
  have blocking: "keeps ?P (changeBlocking env b)" for b
    unfolding changeBlocking_def by (intro keeps_rules keeps_emit ins keeps_modify) simp_all
  have item: "keeps ?P (settleItem env i x q)" for i x q
    unfolding settleItem_def by (intro keeps_rules keeps_emit ins keeps_modify) (simp_all add: set_item_def)
  have next_st: "transitionApprovalStatus c st = Inr n \<Longrightarrow> n = st" for c n
    by (auto simp: transitionApprovalStatus_def transition_def split: if_splits)
  have tail: "ensures ?P (block [modifyE (set_approval a st), changeBlocking env Blocking_none,
      bindE (requireApprovalItem a) (\<lambda>i. settleItem env i x q)])" for x q
    unfolding block.simps
    by (intro ensures_then_keeps ensures_modify keeps_rules blocking item keeps_require) (simp add: set_approval_def)
  show ?thesis
    unfolding decideApproval_def
    by (rule ensures_bind, rule ensures_lift, rule ensures_bind, rule ensures_block, drule next_st, simp only: tail)
qed

text \<open>The two states a wait can be in: not decided yet, or decided by the resolution that wakes it.\<close>

definition undecided :: "string \<Rightarrow> ('st, 'w, 'm) tool_state_scheme \<Rightarrow> bool" where
  "undecided a s \<longleftrightarrow>
     (\<exists>p. map_of (tx_pending s) a = Some p \<and> pa_resolution p = None \<and> (\<forall>x. pa_settlement p \<noteq> Some (Inr x)))"

definition recorded :: "string \<Rightarrow> ApprovalResolution \<Rightarrow> ('st, 'w, 'm) tool_state_scheme \<Rightarrow> bool" where
  "recorded a r s \<longleftrightarrow>
     settlement_of s a = Some (Inr ()) \<and> map_of (lc_approvalStatuses (tx_lc s)) a = Some (decision_status r)"

lemma start_settlement_pending:
  "map_of (tx_pending (snd (start_settlement env b r s))) a =
     (if a = b then map_option (\<lambda>p. p\<lparr>pa_settlement := Some (fst (start_settlement env b r s))\<rparr>) (map_of (tx_pending s) b)
      else map_of (tx_pending s) a)"
  by (simp add: start_settlement_def lcE_def split: prod.splits)

lemma start_settlement_records:
  "start_settlement env a r s = (Inr x, s') \<Longrightarrow> map_of (lc_approvalStatuses (tx_lc s')) a = Some (decision_status r)"
  using decideApproval_records [of a "decision_status r" env "decision_payload r"]
  by (auto simp: start_settlement_def lcE_def ensures_def split: prod.splits)

lemma settle_other: "b \<noteq> a \<Longrightarrow> map_of (tx_pending (snd (settle env b rq r s))) a = map_of (tx_pending s) a"
  using start_settlement_pending [of env b r s a]
  by (cases "check_grant rq r"; cases "settlement_of s b") (simp_all add: settle_def op_defs)

lemma resolve_other:
  assumes "b \<noteq> a"
  shows "map_of (tx_pending (snd (resolve_settle env b r s))) a = map_of (tx_pending s) a"
    and "map_of (tx_pending (snd (resolve env b r s))) a = map_of (tx_pending s) a"
proof -
  show late: "map_of (tx_pending (snd (resolve_settle env b r s))) a = map_of (tx_pending s) a"
    using settle_other [OF assms]
    by (cases "map_of (tx_pending s) b") (simp_all add: resolve_settle_def require_pending_def op_defs)
  show "map_of (tx_pending (snd (resolve env b r s))) a = map_of (tx_pending s) a"
    using late assms by (cases "resolve_settle env b r s"; cases "fst (resolve_settle env b r s)") (auto simp: resolve_def op_defs)
qed

lemma not_Inr_cases: "(\<And>x. v \<noteq> Some (Inr x)) \<Longrightarrow> v = None \<or> (\<exists>e. v = Some (Inl e))"
  by (cases v; cases "the v") auto

lemma undecided_resolve:
  assumes "undecided a s"
  shows "undecided a (snd (resolve env a r s)) \<or>
    (\<exists>p. map_of (tx_pending (snd (resolve env a r s))) a = Some p \<and> pa_resolution p = Some r \<and>
       recorded a r (snd (resolve env a r s)))"
proof -
  obtain p where p: "map_of (tx_pending s) a = Some p" "pa_resolution p = None" "\<And>x. pa_settlement p \<noteq> Some (Inr x)"
    using assms by (auto simp: undecided_def)
  have run: "resolve env a r s = bindE (settle env a (pa_request p) r) (\<lambda>_. modifyE (update_pending a (wake r))) s"
    using p(1) by (simp add: resolve_def resolve_settle_def require_pending_def op_defs)
  consider e where "check_grant (pa_request p) r = Inl e" | e where "check_grant (pa_request p) r = Inr ()" "pa_settlement p = Some (Inl e)"
    | "check_grant (pa_request p) r = Inr ()" "pa_settlement p = None"
    using not_Inr_cases [of "pa_settlement p"] p(3) by (cases "check_grant (pa_request p) r") auto
  then show ?thesis
  proof cases
    case 3
    have st: "settle env a (pa_request p) r s = start_settlement env a r s" by (rule settle_first [OF p(1) 3(2,1)])
    show ?thesis
    proof (cases "start_settlement env a r s")
      case (Pair res s')
      from start_settlement_pending [of env a r s a] p(1) Pair
      have m: "map_of (tx_pending s') a = Some (p\<lparr>pa_settlement := Some res\<rparr>)" by simp
      show ?thesis
      proof (cases res)
        case (Inl e)
        with m p(2) st Pair run show ?thesis by (simp add: undecided_def op_defs)
      next
        case (Inr x)
        with start_settlement_records [of env a r s] Pair
        have "map_of (lc_approvalStatuses (tx_lc s')) a = Some (decision_status r)" by simp
        with m p(2) st Pair Inr run show ?thesis
          by (simp add: op_defs recorded_def settlement_of_def wake_def)
      qed
    qed
  qed (use assms p run in \<open>simp_all add: settle_memoised op_defs settlement_of_def\<close>)
qed

definition late_for :: "string \<Rightarrow> tool_command \<Rightarrow> bool" where
  "late_for a c \<longleftrightarrow> (\<exists>r. c = Resolve_late a r)"

lemma undecided_exec:
  assumes "undecided a s" and "\<not> late_for a c"
  shows "undecided a (snd (tool_exec env c s)) \<or>
    (\<exists>p r. map_of (tx_pending (snd (tool_exec env c s))) a = Some p \<and> pa_resolution p = Some r \<and>
       recorded a r (snd (tool_exec env c s)))"
proof (cases c)
  case (Lifecycle_operation x)
  with assms(1) show ?thesis by (simp add: undecided_def lcE_def split: prod.splits)
next
  case (Resolve b r)
  with assms(1) undecided_resolve [of a s env r] resolve_other(2) [of b a env r s] show ?thesis
    by (cases "b = a") (auto simp: undecided_def)
next
  case (Resolve_late b r)
  with assms resolve_other(1) [of b a env r s] show ?thesis
    by (auto simp: late_for_def undecided_def)
qed

lemma race_decides:
  assumes "undecided a s" and "list_all (\<lambda>c. \<not> late_for a c) cs"
  shows "wpE (race env a cs outcome) (\<lambda>r s'. undecided a s' \<or> recorded a r s') (\<lambda>_ _. True) s"
  using assms
proof (induction cs arbitrary: s)
  case Nil
  then show ?case by (cases outcome) (simp_all add: wpE_def op_defs split: sum.splits)
next
  case (Cons c cs)
  let ?s = "snd (tool_exec env c s)"
  from undecided_exec [OF Cons.prems(1), of c env] Cons.prems(2)
  consider "undecided a ?s" | p r where "map_of (tx_pending ?s) a = Some p" "pa_resolution p = Some r" "recorded a r ?s" by auto
  then show ?case
  proof cases
    case 1
    then have "Option.bind (map_of (tx_pending ?s) a) pa_resolution = None" by (auto simp: undecided_def)
    with Cons.IH [OF 1] Cons.prems(2) show ?thesis by (simp add: wpE_def Let_def)
  qed (simp add: wpE_def Let_def)
qed

lemma settle_decided:
  assumes "undecided a s \<or> recorded a r s"
  shows "wpE (settle env a rq r) (\<lambda>_ s'. map_of (lc_approvalStatuses (tx_lc s')) a = Some (decision_status r)) (\<lambda>_ _. True) s"
proof (cases "check_grant rq r")
  case (Inr u)
  from assms show ?thesis
  proof
    assume "recorded a r s"
    with Inr settle_memoised(1) [of s a "Inr ()" rq r env] show ?thesis by (simp add: recorded_def wpE_def)
  next
    assume "undecided a s"
    then obtain p where p: "map_of (tx_pending s) a = Some p" "\<And>x. pa_settlement p \<noteq> Some (Inr x)"
      by (auto simp: undecided_def)
    show ?thesis
    proof (cases "pa_settlement p")
      case None
      with settle_first [OF p(1)] Inr start_settlement_records [of env a r s] show ?thesis
        by (auto simp: wpE_def split: prod.splits sum.splits)
    next
      case (Some outcome)
      then obtain e where "outcome = Inl e" using p(2) by (cases outcome) auto
      with settle_memoised(1) [of s a outcome rq r env] Some p(1) Inr show ?thesis
        by (simp add: wpE_def settlement_of_def)
    qed
  qed
qed (simp add: settle_memoised(2) wpE_def)

lemma await_records:
  assumes "map_of (tx_pending s) (rq_approvalId rq) = Some (new_pending rq)"
    and "list_all (\<lambda>c. \<not> late_for (rq_approvalId rq) c) (fst (fst (wt rq (tx_world s))))"
  shows "wpE (await_decision env wt ab par i rq p)
    (\<lambda>r s'. granted r \<and> map_of (lc_approvalStatuses (tx_lc s')) (rq_approvalId rq) = Some Ap_approved) (\<lambda>_ _. True) s"
proof -
  let ?a = "rq_approvalId rq"
  have start: "undecided ?a (s\<lparr>tx_lc := l, tx_world := w\<rparr>)" for l w
    using assms(1) by (simp add: undecided_def new_pending_def)
  have grant: "check_resolution ?a r = Inr r' \<Longrightarrow> granted r' \<and> r' = r \<and> decision_status r = Ap_approved" for r r'
    by (cases "ar_decision r") (auto simp: check_resolution_def granted_def decision_status_def split: if_splits)
  have finish: "wpE (bindE (settle env ?a (pa_request p) r) (\<lambda>_. liftE (check_resolution ?a r)))
      (\<lambda>r s'. granted r \<and> map_of (lc_approvalStatuses (tx_lc s')) ?a = Some Ap_approved) (\<lambda>_ _. True) s'"
    if "undecided ?a s' \<or> recorded ?a r s'" for r s'
    unfolding wpE_bind
    by (rule wpE_mono [OF settle_decided [OF that]]) (auto simp: wpE_lift split: sum.splits dest!: grant)
  have wait: "wpE (bindE (raceApprovalResolution env ?a b w) (\<lambda>r.
        bindE (settle env ?a (pa_request p) r) (\<lambda>_. liftE (check_resolution ?a r))))
      (\<lambda>r s'. granted r \<and> map_of (lc_approvalStatuses (tx_lc s')) ?a = Some Ap_approved) (\<lambda>_ _. True) s'"
    if "undecided ?a s'" "list_all (\<lambda>c. \<not> late_for ?a c) (fst w)" for b w s'
  proof (cases b)
    case False
    have "wpE (race env ?a (fst w) (snd w)) (\<lambda>r. wpE (bindE (settle env ?a (pa_request p) r) (\<lambda>_. liftE (check_resolution ?a r)))
        (\<lambda>r s'. granted r \<and> map_of (lc_approvalStatuses (tx_lc s')) ?a = Some Ap_approved) (\<lambda>_ _. True)) (\<lambda>_ _. True) s'"
      by (rule wpE_mono [OF race_decides [OF that]]) (simp_all only: finish)
    then show ?thesis using False by (simp only: raceApprovalResolution_def if_False wpE_bind [of "race _ _ _ _"])
  qed (simp add: raceApprovalResolution_def wpE_bind wpE_throw)
  have lists: "list_all (\<lambda>c. \<not> late_for ?a c) (fst v)" if "wt rq (tx_world s) = (v, w')" for v w'
    using assms(2) that by simp
  have all: "wpE m (\<lambda>x. Q) (\<lambda>_ _. True) t" if "\<And>t. Q t" for m :: "('a, unit) lc_op" and Q t
    using that by (auto simp: wpE_def split: prod.splits sum.splits)
  show ?thesis
    unfolding await_decision_def Let_def wpE_bind [of "lcE _"] wpE_lcE wpE_bind [of "worldE _"] wpE_worldE
      wpE_bind [of "getE _"] wpE_get
    by (rule all) (auto split: prod.split simp del: split_paired_All intro!: wait lists start)
qed

lemma wpE_anything: "(\<And>x s'. Q x s') \<Longrightarrow> wpE m Q (\<lambda>_ _. True) s"
  by (auto simp: wpE_def split: prod.splits sum.splits)

lemma wpE_bind_returns: "(\<And>x s'. wpE (f x) Q (\<lambda>_ _. True) s') \<Longrightarrow> wpE (bindE m f) Q (\<lambda>_ _. True) s"
  unfolding wpE_bind by (rule wpE_anything)

lemma await_granted: "wpE (await_decision env wt ab par i rq p) (\<lambda>r _. granted r) (\<lambda>_ _. True) s"
  unfolding await_decision_def Let_def
  by (intro wpE_bind_returns)
    (auto simp: wpE_lift check_resolution_def granted_def split: sum.splits if_splits intro: ApprovalDecision.exhaust)

lemma requestAndWait_granted: "requestAndWait env wt ab par rq s = (Inr r, s') \<Longrightarrow> granted r"
proof -
  have "wpE (requestAndWait env wt ab par rq) (\<lambda>r _. granted r) (\<lambda>_ _. True) s"
    by (simp add: wpE_requestAndWait await_granted)
  moreover assume "requestAndWait env wt ab par rq s = (Inr r, s')"
  ultimately show ?thesis by (simp add: wpE_def)
qed

text \<open>
  C8. Only a granted approval is returned: whatever other callers do during the wait, a denied, cancelled or timed out
  resolution never comes back from \<open>requestAndWait\<close>. When it returns, the approval is no longer pending, and the
  lifecycle has recorded it as approved, unless a \<open>resolve\<close> of the same approval ran during the wait whose settlement
  was made but whose wake-up came after the wait was over (\<open>late_for\<close>); what happens then is the next theorem.
\<close>
theorem granted_approval_is_recorded:
  assumes "requestAndWait env wt ab par rq s = (Inr r, s')"
  shows "granted r \<and> pending_view s' = pending_view s \<and>
    (map_of (lc_approvalStatuses (tx_lc s')) (rq_approvalId rq) = Some Ap_approved \<or>
     list_ex (late_for (rq_approvalId rq)) (fst (fst (wt rq (tx_world s)))))"
proof -
  let ?late = "list_ex (late_for (rq_approvalId rq)) (fst (fst (wt rq (tx_world s))))"
  have "granted r" using assms by (rule requestAndWait_granted)
  moreover have "map_of (lc_approvalStatuses (tx_lc s')) (rq_approvalId rq) = Some Ap_approved" if "\<not> ?late"
  proof -
    have "map_of (tx_pending (with_pending rq s)) (rq_approvalId rq) = Some (new_pending rq)"
      by (simp add: with_pending_def)
    from await_records [OF this, of wt env ab par "the (rq_itemId rq)" "new_pending rq"] that
    have "wpE (requestAndWait env wt ab par rq)
        (\<lambda>r s'. granted r \<and> map_of (lc_approvalStatuses (tx_lc s')) (rq_approvalId rq) = Some Ap_approved) (\<lambda>_ _. True) s"
      by (simp add: wpE_requestAndWait without_pending_def with_pending_def list_all_iff list_ex_iff)
    with assms show ?thesis by (simp add: wpE_def)
  qed
  moreover have "pending_view s' = pending_view s"
    using keepsD [OF requestAndWait_keeps_pending, of s "pending_view s" env wt ab par rq] assms by simp
  ultimately show ?thesis by blast
qed

text \<open>
  A late resolution is recorded but not obeyed. Suppose a \<open>resolve\<close> with the decision \<open>late\<close> settles the approval during
  the wait, but the port's promise, granted with \<open>won\<close>, wins the race before the pending promise is resolved. The second
  \<open>settle\<close> awaits the memoised settlement of \<open>late\<close>, and \<open>requestAndWait\<close> returns \<open>won\<close>: with a denial for \<open>late\<close> the tool
  loop goes on with an approval that the lifecycle has recorded as denied.
\<close>
theorem late_resolution_is_not_obeyed:
  assumes "rq_itemId rq = Some i" and "i \<noteq> par" and "map_of (tx_pending s) (rq_approvalId rq) = None"
    and "requestApproval env par (rq_approvalId rq) i
        [(''question'', PStr (rq_question rq)), (''options'', PArr (map PObj (rq_options rq))),
         (''metadata'', PObj (rq_metadata rq))] (tx_lc s) = (Inr (), l)"
    and "wt rq (tx_world s) = (([Resolve_late (rq_approvalId rq) late], Port_decided (Inr won)), w)" and "\<not> ab w"
    and "check_grant rq late = Inr ()" and "check_grant rq won = Inr ()" and "granted won"
    and "decideApproval env (rq_approvalId rq) (decision_status late) (decision_payload late) l = (Inr (), l')"
  shows "\<exists>s'. requestAndWait env wt ab par rq s = (Inr won, s') \<and>
    map_of (lc_approvalStatuses (tx_lc s')) (rq_approvalId rq) = Some (decision_status late)"
proof -
  let ?a = "rq_approvalId rq"
  have "map_of (lc_approvalStatuses l') ?a = Some (decision_status late)"
    using decideApproval_records [of ?a "decision_status late" env "decision_payload late"] assms(10)
    by (auto simp: ensures_def)
  moreover have "check_resolution ?a won = Inr won"
    using assms(9) by (cases "ar_decision won") (simp_all add: granted_def check_resolution_def)
  ultimately show ?thesis
    using assms
    by (simp add: requestAndWait_def createPending_def await_decision_def Let_def op_defs finallyE_def lcE_def worldE_def
        raceApprovalResolution_def resolve_settle_def require_pending_def settle_def
        settlement_of_def start_settlement_def update_pending_def)
qed

section \<open>A turn that asks for an approval\<close>

text \<open>A sink that accepts every event, and a turn in progress on it.\<close>

definition open_options :: "unit lc_options" where
  "open_options = refusing_options\<lparr>opt_appendBatch := \<lambda>evs k. (Inr evs, k)\<rparr>"

definition running_state :: "(unit, unit) tool_state" where
  "running_state =
     \<lparr>tx_lc = (lc_init 0 0 ())\<lparr>lc_status := Ts_in_progress, lc_runAttemptStatus := Ra_running, lc_accepted := True\<rparr>,
      tx_pending = [], tx_world = ()\<rparr>"

definition sample_request :: ApprovalRequestedPayload where
  "sample_request =
     \<lparr>rq_approvalId = ''apr_1'', rq_itemId = Some ''itm_2'', rq_question = ''Run it?'',
      rq_options = [[(''id'', PStr ''allow_once'')]], rq_metadata = []\<rparr>"

definition sample_resolution :: "ApprovalDecision \<Rightarrow> ApprovalResolution" where
  "sample_resolution d =
     \<lparr>ar_decision = d, ar_decidedBy = Some ''usr_1'', ar_reason = None, ar_timedOut = False, ar_grantScope = None\<rparr>"

lemmas open_eval =
  op_defs lcE_def emit_def createEvent_def call_sink_def raw_event_def Let_def open_options_def refusing_options_def
  assertTurnAcceptsLifecycleEvent_def transition_defs

lemmas wait_eval =
  requestAndWait_def createPending_def await_decision_def requestApproval_def startItem_def changeBlocking_def
  raceApprovalResolution_def resolve_def resolve_settle_def require_pending_def settle_def settlement_of_def
  start_settlement_def decideApproval_def requireApprovalItem_def settleItem_def item_status_def set_item_def
  set_approval_def update_pending_def wake_def check_grant_def check_resolution_def decision_status_def
  decision_payload_def worldE_def sample_request_def sample_resolution_def running_state_def lc_init_def

lemma granted_approval_is_recorded_witness:
  "\<exists>r s'. requestAndWait open_options (\<lambda>_ w. (([Resolve ''apr_1'' (sample_resolution Dec_approved)], Signal_aborted), w))
      (\<lambda>_. False) ''itm_1'' sample_request running_state = (Inr r, s') \<and>
    map_of (lc_approvalStatuses (tx_lc s')) ''apr_1'' = Some Ap_approved"
proof -
  let ?wt = "\<lambda>_ w. (([Resolve ''apr_1'' (sample_resolution Dec_approved)], Signal_aborted), w) :: (_ \<times> _) \<times> unit"
  have "\<exists>r s'. requestAndWait open_options ?wt (\<lambda>_. False) ''itm_1'' sample_request running_state = (Inr r, s')"
    by (simp add: wait_eval open_eval)
  then obtain r s' where run: "requestAndWait open_options ?wt (\<lambda>_. False) ''itm_1'' sample_request running_state = (Inr r, s')"
    by blast
  from granted_approval_is_recorded [OF this] run show ?thesis
    by (auto simp: late_for_def sample_request_def)
qed

lemma late_resolution_is_not_obeyed_witness:
  "\<exists>s'. requestAndWait open_options (\<lambda>_ w. (([Resolve_late ''apr_1'' (sample_resolution Dec_denied)],
        Port_decided (Inr (sample_resolution Dec_approved))), w)) (\<lambda>_. False) ''itm_1'' sample_request running_state =
      (Inr (sample_resolution Dec_approved), s') \<and>
    map_of (lc_approvalStatuses (tx_lc s')) ''apr_1'' = Some Ap_denied"
proof -
  let ?q = "[(''question'', PStr (rq_question sample_request)), (''options'', PArr (map PObj (rq_options sample_request))),
         (''metadata'', PObj (rq_metadata sample_request))]"
  let ?d = "sample_resolution Dec_denied"
  obtain l l' where run: "requestApproval open_options ''itm_1'' ''apr_1'' ''itm_2'' ?q (tx_lc running_state) = (Inr (), l)"
    "decideApproval open_options ''apr_1'' (decision_status ?d) (decision_payload ?d) l = (Inr (), l')"
    by (simp add: wait_eval open_eval)
  have "check_grant sample_request (sample_resolution d) = Inr ()" "granted (sample_resolution Dec_approved)" for d
    by (simp_all add: check_grant_def sample_resolution_def granted_def)
  note grants = this
  show ?thesis
    using late_resolution_is_not_obeyed [where rq = sample_request and i = "''itm_2''" and par = "''itm_1''" and s = running_state
        and env = open_options and l = l and l' = l' and w = "()" and ab = "\<lambda>_. False" and late = ?d
        and won = "sample_resolution Dec_approved" and wt = "\<lambda>_ w. (([Resolve_late ''apr_1'' ?d],
          Port_decided (Inr (sample_resolution Dec_approved))), w)"] run grants
    by (simp add: sample_request_def running_state_def) (simp add: decision_status_def sample_resolution_def)
qed

lemma approval_is_decided_once_witness:
  "\<exists>l. tx_lc (tool_run open_options [Resolve ''apr_1'' (sample_resolution Dec_denied), Resolve ''apr_1'' (sample_resolution Dec_approved)]
        (with_pending sample_request running_state)) = l \<and>
    l = snd (decideApproval open_options ''apr_1'' Ap_denied (decision_payload (sample_resolution Dec_denied)) (tx_lc running_state))"
proof -
  have "map_of (tx_pending (with_pending sample_request running_state)) ''apr_1'' = Some (new_pending sample_request)"
    by (simp add: with_pending_def sample_request_def)
  moreover have "check_grant (pa_request (new_pending sample_request)) (sample_resolution Dec_denied) = Inr ()"
    by (simp add: check_grant_def sample_resolution_def)
  moreover obtain outcome l where "decideApproval open_options ''apr_1'' (decision_status (sample_resolution Dec_denied))
      (decision_payload (sample_resolution Dec_denied)) (tx_lc (with_pending sample_request running_state)) = (outcome, l)"
    by fastforce
  ultimately show ?thesis
    using approval_is_decided_once [of "with_pending sample_request running_state" "''apr_1''" "new_pending sample_request"
        "sample_resolution Dec_denied" "[Resolve ''apr_1'' (sample_resolution Dec_approved)]" open_options]
    by (simp add: new_pending_def resolves_def decision_status_def sample_resolution_def with_pending_def)
qed

end
