(* ===== verification/Tool_Execution.thy ===== *)
theory Tool_Execution
  imports Approval_Coordinator
begin

text \<open>
  One tool call of the model, packages/runtime-kernel/src/ToolExecutionCoordinator.ts: authorization, the started tool
  call, the approval if one is required before or by the worker, the call of the worker with its single approved
  retry, the events of a completed call, and the settlement of the tool call on every path. Authorization, the
  worker, the approval port and the abort signal are parameters; an authorization and a worker call answer with what other callers do to
  the turn meanwhile.
\<close>

section \<open>Calls, answers and ports\<close>

record ToolCallItemContent =
  tc_toolCallId :: string
  tc_toolName :: string
  tc_input :: JsonRecord
  tc_callBatchId :: "string option"
  tc_display :: "pval option"

datatype ToolAuthorizationResult =
    Authorized ToolCallItemContent
  | Approval_required ToolCallItemContent ApprovalRequestedPayload
  | Rejected RuntimeKernelErrorCode string

datatype WorkerToolResult =
    Worker_completed JsonRecord "WorkerToolRuntimeEvent list"
  | Worker_failed ProtocolError bool
  | Worker_cancelled string
  | Worker_needs_approval ApprovalRequestedPayload

text \<open>The flag of \<open>Worker_failed\<close> is \<open>disposition === "terminal"\<close>. \<open>tool_end\<close> is the result narrowed to its first two kinds.\<close>

datatype tool_end = Tool_completed JsonRecord "WorkerToolRuntimeEvent list" | Tool_failed ProtocolError bool

record ToolResult =
  tl_toolCallId :: string
  tl_output :: JsonRecord
  tl_failure :: "ProtocolError option"

type_synonym 'w worker = "ToolCallItemContent \<Rightarrow> ApprovalResolution option \<Rightarrow> 'w \<Rightarrow> (tool_command list \<times> (js_error + WorkerToolResult)) \<times> 'w"

record ('st, 'w) tool_ports =
  tp_lifecycle :: "'st lc_options"
  tp_authorize :: "string \<Rightarrow> ToolCallItemContent \<Rightarrow> 'w \<Rightarrow> (tool_command list \<times> (js_error + ToolAuthorizationResult)) \<times> 'w"
  tp_executeTool :: "'w worker"
  tp_waitForDecision :: "'w wait_port"
  tp_aborted :: "'w \<Rightarrow> bool"
  tp_artifactSchema :: artifact_schema
  tp_lastEventSequence :: nat
  tp_zodMessage :: string

primrec protocol_code_name :: "ProtocolErrorCode \<Rightarrow> string" where
  "protocol_code_name Pc_validation_failed = ''validation_failed''"
| "protocol_code_name Pc_unauthorized = ''unauthorized''"
| "protocol_code_name Pc_forbidden = ''forbidden''"
| "protocol_code_name Pc_not_found = ''not_found''"
| "protocol_code_name Pc_conflict = ''conflict''"
| "protocol_code_name Pc_rate_limited = ''rate_limited''"
| "protocol_code_name Pc_provider_unavailable = ''provider_unavailable''"
| "protocol_code_name Pc_model_unavailable = ''model_unavailable''"
| "protocol_code_name Pc_worker_unavailable = ''worker_unavailable''"
| "protocol_code_name Pc_workspace_prepare_failed = ''workspace_prepare_failed''"
| "protocol_code_name Pc_command_failed = ''command_failed''"
| "protocol_code_name Pc_command_timed_out = ''command_timed_out''"
| "protocol_code_name Pc_command_cancelled = ''command_cancelled''"
| "protocol_code_name Pc_file_not_found = ''file_not_found''"
| "protocol_code_name Pc_path_denied = ''path_denied''"
| "protocol_code_name Pc_artifact_upload_failed = ''artifact_upload_failed''"
| "protocol_code_name Pc_git_command_failed = ''git_command_failed''"
| "protocol_code_name Pc_capability_unsupported = ''capability_unsupported''"
| "protocol_code_name Pc_tool_unavailable_in_backend = ''tool_unavailable_in_backend''"
| "protocol_code_name Pc_policy_denied = ''policy_denied''"
| "protocol_code_name Pc_approval_required = ''approval_required''"
| "protocol_code_name Pc_illegal_lifecycle_transition = ''illegal_lifecycle_transition''"
| "protocol_code_name Pc_internal_error = ''internal_error''"

text \<open>The result of a call that failed but lets the model go on.\<close>

definition failed_result :: "string \<Rightarrow> ProtocolError \<Rightarrow> ToolResult" where
  "failed_result c failure =
     \<lparr>tl_toolCallId = c,
      tl_output = [(''error'', PObj [
        (''code'', PStr (protocol_code_name (pe_code failure))), (''message'', PStr (pe_message failure)),
        (''details'', case pe_details failure of None \<Rightarrow> PNull | Some d \<Rightarrow> PObj d),
        (''retryable'', PBool (pe_retryable failure))])],
      tl_failure = Some failure\<rparr>"

section \<open>The worker\<close>

text \<open>\<open>callWorker\<close>, with what happens to the turn while the worker runs.\<close>

definition callWorker ::
  "('st, 'w) tool_ports \<Rightarrow> ToolCallItemContent \<Rightarrow> ApprovalResolution option \<Rightarrow> ('st, 'w, 'm, WorkerToolResult) tool_op" where
  "callWorker ports call approval =
     bindE (worldE (tp_executeTool ports call approval)) (\<lambda>(meanwhile, answer).
     bindE (modifyE (tool_run (tp_lifecycle ports) meanwhile)) (\<lambda>_.
     liftE answer))"

definition retry_required_error :: "ToolCallItemContent \<Rightarrow> js_error" where
  "retry_required_error call =
     kernel_error Kc_approval_retry_required (''Worker requested approval again for '' @ tc_toolCallId call)"

definition tool_requestAndWait ::
  "('st, 'w) tool_ports \<Rightarrow> string \<Rightarrow> ApprovalRequestedPayload \<Rightarrow> ('st, 'w, 'm, ApprovalResolution) tool_op" where
  "tool_requestAndWait ports i request =
     requestAndWait (tp_lifecycle ports) (tp_waitForDecision ports) (tp_aborted ports) i request"

text \<open>\<open>resolveApprovedRetry\<close>: the one call after an approval the worker asked for.\<close>

definition resolveApprovedRetry ::
  "('st, 'w) tool_ports \<Rightarrow> ToolCallItemContent \<Rightarrow> ApprovalResolution \<Rightarrow> ('st, 'w, 'm, tool_end) tool_op" where
  "resolveApprovedRetry ports call approval =
     bindE (callWorker ports call (Some approval)) (\<lambda>result.
     case result of
       Worker_needs_approval request \<Rightarrow> throwE (retry_required_error call)
     | Worker_failed failure terminal \<Rightarrow> returnE (Tool_failed failure terminal)
     | Worker_cancelled reason \<Rightarrow> throwE (kernel_error Kc_turn_cancelled reason)
     | Worker_completed out events \<Rightarrow> returnE (Tool_completed out events))"

definition executeToCompletion ::
  "('st, 'w) tool_ports \<Rightarrow> string \<Rightarrow> ToolCallItemContent \<Rightarrow> ApprovalResolution option \<Rightarrow> ('st, 'w, 'm, tool_end) tool_op" where
  "executeToCompletion ports i call approval =
     bindE (callWorker ports call approval) (\<lambda>initial.
     case initial of
       Worker_completed out events \<Rightarrow> returnE (Tool_completed out events)
     | Worker_failed failure terminal \<Rightarrow> returnE (Tool_failed failure terminal)
     | Worker_cancelled reason \<Rightarrow> throwE (kernel_error Kc_turn_cancelled reason)
     | Worker_needs_approval request \<Rightarrow>
         if approval \<noteq> None then throwE (retry_required_error call)
         else bindE (tool_requestAndWait ports i request) (\<lambda>workerApproval.
              resolveApprovedRetry ports call workerApproval))"

section \<open>Executing a tool call\<close>

definition emitWorkerResultEvents ::
  "('st, 'w) tool_ports \<Rightarrow> string \<Rightarrow> ToolCallItemContent \<Rightarrow> JsonRecord \<Rightarrow> WorkerToolRuntimeEvent list \<Rightarrow> ('st, 'w, 'm, unit) tool_op" where
  "emitWorkerResultEvents ports i call out events =
     bindE (liftE (mapWorkerResultEvents (tp_artifactSchema ports) (tp_lastEventSequence ports) i out events)) (\<lambda>projection.
     block [
       forE (wp_outputDeltas projection) (\<lambda>delta. lcE (appendToolOutput (tp_lifecycle ports) (tc_toolCallId call) delta)),
       forE (wp_artifacts projection) (\<lambda>artifact. lcE (createArtifact (tp_lifecycle ports) i artifact))])"

definition workerFailure :: "ProtocolError \<Rightarrow> js_error" where
  "workerFailure failure =
     RuntimeKernelError Kc_worker_failed (pe_message failure)
       (Some (ProtocolFailure (pe_code failure) (pe_message failure) (pe_retryable failure) (pe_correlationId failure)
                (pe_details failure)))"

definition interrupted_before_completion :: js_error where
  "interrupted_before_completion =
     LifecycleTransitionError Sub_tool_call ''active'' ''interrupted'' ''turn was interrupted before tool completion''"

text \<open>The part of \<open>executeAuthorizedTool\<close> after the approval: run the worker to its end and settle the call.\<close>

definition finish_tool ::
  "('st, 'w) tool_ports \<Rightarrow> string \<Rightarrow> ToolCallItemContent \<Rightarrow> ApprovalResolution option \<Rightarrow> ('st, 'w, 'm, ToolResult) tool_op" where
  "finish_tool ports i call approval =
     bindE (executeToCompletion ports i call approval) (\<lambda>result.
     case result of
       Tool_failed failure terminal \<Rightarrow>
         if terminal then throwE (workerFailure failure)
         else bindE (lcE (failToolCall (tp_lifecycle ports) (tc_toolCallId call) failure)) (\<lambda>_.
              returnE (failed_result (tc_toolCallId call) failure))
     | Tool_completed out events \<Rightarrow>
         bindE (getE (\<lambda>s. tp_aborted ports (tx_world s) \<or> isTerminal (tx_lc s))) (\<lambda>interrupted.
         if interrupted then throwE interrupted_before_completion
         else bindE (emitWorkerResultEvents ports i call out events) (\<lambda>_.
              bindE (lcE (completeToolCall (tp_lifecycle ports) (tc_toolCallId call) out)) (\<lambda>_.
              returnE \<lparr>tl_toolCallId = tc_toolCallId call, tl_output = out, tl_failure = None\<rparr>))))"

definition executeAuthorizedTool ::
  "('st, 'w) tool_ports \<Rightarrow> string \<Rightarrow> ToolAuthorizationResult \<Rightarrow> ('st, 'w, 'm, ToolResult) tool_op" where
  "executeAuthorizedTool ports i authorization =
     (case authorization of
        Rejected code reason \<Rightarrow> throwE (kernel_error code reason)
      | Approval_required call request \<Rightarrow>
          bindE (tool_requestAndWait ports i request) (\<lambda>approval. finish_tool ports i call (Some approval))
      | Authorized call \<Rightarrow> finish_tool ports i call None)"

definition canonical_call :: "ToolCallItemContent \<Rightarrow> ToolAuthorizationResult \<Rightarrow> ToolCallItemContent" where
  "canonical_call call authorization =
     (case authorization of Rejected code reason \<Rightarrow> call | Approval_required c request \<Rightarrow> c | Authorized c \<Rightarrow> c)"

text \<open>The \<open>catch\<close> block of \<open>execute\<close>.\<close>

definition tool_failed :: "('st, 'w) tool_ports \<Rightarrow> ToolCallItemContent \<Rightarrow> js_error \<Rightarrow> ('st, 'w, 'm, ToolResult) tool_op" where
  "tool_failed ports call err =
     (let c = tc_toolCallId call; failure = toProtocolError (tp_zodMessage ports) err in
      case err of
        RuntimeKernelError code message cause \<Rightarrow>
          if code = Kc_turn_cancelled then throwE err
          else if code = Kc_approval_denied
          then bindE (lcE (declineToolCall (tp_lifecycle ports) c message)) (\<lambda>_.
               returnE (failed_result c (failure\<lparr>pe_retryable := False\<rparr>)))
          else bindE (lcE (failToolCall (tp_lifecycle ports) c failure)) (\<lambda>_. throwE err)
      | _ \<Rightarrow> bindE (lcE (failToolCall (tp_lifecycle ports) c failure)) (\<lambda>_. throwE err))"

text \<open>The call of the authorization port, with what happens to the turn until it answers.\<close>

definition authorizeTool ::
  "('st, 'w) tool_ports \<Rightarrow> string \<Rightarrow> ToolCallItemContent \<Rightarrow> ('st, 'w, 'm, ToolAuthorizationResult) tool_op" where
  "authorizeTool ports i call =
     bindE (worldE (tp_authorize ports i call)) (\<lambda>(meanwhile, answer).
     bindE (modifyE (tool_run (tp_lifecycle ports) meanwhile)) (\<lambda>_.
     liftE answer))"

definition tool_execute ::
  "('st, 'w) tool_ports \<Rightarrow> string \<Rightarrow> ToolCallItemContent \<Rightarrow> ('st, 'w, 'm, ToolResult) tool_op" where
  "tool_execute ports i call =
     bindE (authorizeTool ports i call) (\<lambda>authorization.
     let canonical = canonical_call call authorization in
     bindE (lcE (startToolCall (tp_lifecycle ports) i (tc_toolCallId canonical) (tc_toolName canonical) (tc_input canonical)
              (tc_callBatchId canonical) (tc_display canonical))) (\<lambda>_.
     catchE (executeAuthorizedTool ports i authorization) (tool_failed ports call)))"

section \<open>A result means a settled call\<close>

lemma settleToolCall_records: "ensures (\<lambda>s. map_of (lc_toolCallStatuses s) c = Some st) (settleToolCall env c st p)"
proof -
  let ?P = "\<lambda>s. map_of (lc_toolCallStatuses s) c = Some st"
  have ins: "insensitive ?P" by (simp add: insensitive_def)
  have item: "keeps ?P (settleItem env i x q)" for i x q
    unfolding settleItem_def by (intro keeps_rules keeps_emit ins keeps_modify) (simp_all add: set_item_def)
  have next_st: "transitionToolCallStatus c' st = Inr n \<Longrightarrow> n = st" for c' n
    by (auto simp: transition_defs split: if_splits)
  have tail: "ensures ?P (block [modifyE (set_tool_call c st), settleItem env i st q])" for i q
    unfolding block.simps
    by (intro ensures_then_keeps ensures_modify keeps_rules item) (simp add: set_tool_call_def)
  show ?thesis
    unfolding settleToolCall_def
    by (rule ensures_bind, rule ensures_lift, rule ensures_bind, rule ensures_bind, rule ensures_block, drule next_st, simp only: tail)
qed

text \<open>The status a result stands for.\<close>

definition settled_result :: "ToolResult \<Rightarrow> ('st, 'w, 'm) tool_state_scheme \<Rightarrow> bool" where
  "settled_result res s \<longleftrightarrow>
     (\<exists>st. map_of (lc_toolCallStatuses (tx_lc s)) (tl_toolCallId res) = Some st \<and>
        (if tl_failure res = None then st = Is_completed else st = Is_failed \<or> st = Is_declined))"

lemma settle_then_return:
  assumes "ensures (\<lambda>s. map_of (lc_toolCallStatuses s) c = Some st) m" and "tl_toolCallId res = c"
    and "if tl_failure res = None then st = Is_completed else st = Is_failed \<or> st = Is_declined"
  shows "wpE (bindE (lcE m) (\<lambda>_. returnE res)) settled_result (\<lambda>_ _. True) s"
  unfolding wpE_bind wpE_lcE wpE_return
  by (rule wpE_mono [OF ensures_wp [OF assms(1)]]) (use assms(2,3) in \<open>auto simp: settled_result_def\<close>)

lemmas settled_rules = settle_then_return [OF settleToolCall_records]

lemma finish_tool_settles: "wpE (finish_tool ports i call approval) settled_result (\<lambda>_ _. True) s"
  unfolding finish_tool_def
proof (rule wpE_bind_returns)
  fix result s'
  have failed: "wpE (bindE (lcE (failToolCall (tp_lifecycle ports) (tc_toolCallId call) failure))
      (\<lambda>_. returnE (failed_result (tc_toolCallId call) failure))) settled_result (\<lambda>_ _. True) s'" for failure s'
    unfolding failToolCall_def by (rule settled_rules) (simp_all add: failed_result_def)
  have completed: "wpE (bindE (lcE (completeToolCall (tp_lifecycle ports) (tc_toolCallId call) out))
      (\<lambda>_. returnE \<lparr>tl_toolCallId = tc_toolCallId call, tl_output = out, tl_failure = None\<rparr>)) settled_result (\<lambda>_ _. True) s'" for out s'
    unfolding completeToolCall_def by (rule settled_rules) simp_all
  show "wpE (case result of
      Tool_completed out events \<Rightarrow>
        bindE (getE (\<lambda>s. tp_aborted ports (tx_world s) \<or> isTerminal (tx_lc s))) (\<lambda>interrupted.
        if interrupted then throwE interrupted_before_completion
        else bindE (emitWorkerResultEvents ports i call out events) (\<lambda>_.
             bindE (lcE (completeToolCall (tp_lifecycle ports) (tc_toolCallId call) out)) (\<lambda>_.
             returnE \<lparr>tl_toolCallId = tc_toolCallId call, tl_output = out, tl_failure = None\<rparr>)))
    | Tool_failed failure terminal \<Rightarrow>
        if terminal then throwE (workerFailure failure)
        else bindE (lcE (failToolCall (tp_lifecycle ports) (tc_toolCallId call) failure)) (\<lambda>_.
             returnE (failed_result (tc_toolCallId call) failure))) settled_result (\<lambda>_ _. True) s'"
    by (cases result) (simp_all add: wpE_throw wpE_bind [of "getE _"] wpE_get failed wpE_bind_returns completed)
qed

lemma tool_failed_settles:
  fixes ports :: "('a, 'b) tool_ports" and s :: "('a, 'b, 'c) tool_state_scheme"
  shows "wpE (tool_failed ports call err) settled_result (\<lambda>_ _. True) s"
proof -
  have rethrow: "wpE (bindE m (\<lambda>_. throwE e)) settled_result (\<lambda>_ _. True) s" for m :: "('a, 'b, 'c, unit) tool_op" and e
    by (rule wpE_bind_returns) (simp add: wpE_throw)
  have declined: "wpE (bindE (lcE (declineToolCall (tp_lifecycle ports) c r)) (\<lambda>_. returnE (failed_result c failure)))
      settled_result (\<lambda>_ _. True) s" for c r failure
    unfolding declineToolCall_def by (rule settled_rules) (simp_all add: failed_result_def)
  show ?thesis
    by (cases err) (simp_all add: tool_failed_def Let_def wpE_throw rethrow declined)
qed

lemma tool_execute_settles: "wpE (tool_execute ports i call) settled_result (\<lambda>_ _. True) s"
proof -
  have "wpE (executeAuthorizedTool ports i authorization) settled_result (\<lambda>_ _. True) s'" for authorization s'
    unfolding executeAuthorizedTool_def
    by (cases authorization) (auto simp: wpE_throw intro!: wpE_bind_returns finish_tool_settles)
  then have "wpE (catchE (executeAuthorizedTool ports i authorization) (tool_failed ports call)) settled_result (\<lambda>_ _. True) s'"
    for authorization s'
    unfolding wpE_catch by (rule wpE_mono) (auto intro: tool_failed_settles)
  then show ?thesis unfolding tool_execute_def Let_def by (intro wpE_bind_returns)
qed

section \<open>What a tool call keeps\<close>

text \<open>
  A predicate kept by the lifecycle operations, by settlements and by waits is kept by a whole tool call and by
  whatever other callers do meanwhile.
\<close>

locale tool_predicate =
  fixes env :: "'st lc_options" and P :: "('st, 'w, 'm) tool_state_scheme \<Rightarrow> bool"
  assumes world_free: "P (s\<lparr>tx_world := w\<rparr>) = P s"
    and operation_keeps: "keeps P (lcE (lc_exec env c))"
    and settle_keeps: "keeps P (settle env a rq r)"
    and wake_keeps: "P s \<Longrightarrow> P (update_pending a (wake r) s)"
    and wait_keeps: "keeps P (requestAndWait env wt ab par rq)"
begin

lemma operations:
  "keeps P (lcE (startToolCall env i c n inp b d))" "keeps P (lcE (failToolCall env c f))"
  "keeps P (lcE (completeToolCall env c r))" "keeps P (lcE (declineToolCall env c x))"
  "keeps P (lcE (appendToolOutput env c x))" "keeps P (lcE (createArtifact env i v))"
  using operation_keeps [of "StartToolCall i c n inp b d"] operation_keeps [of "FailToolCall c f"]
    operation_keeps [of "CompleteToolCall c r"] operation_keeps [of "DeclineToolCall c x"]
    operation_keeps [of "AppendToolOutput c x"] operation_keeps [of "CreateArtifact i v"]
  by simp_all

lemma command_keeps: "keeps P (tool_exec env c)"
proof -
  have "keeps P (resolve_settle env a r)" for a r
    unfolding resolve_settle_def require_pending_def by (intro keeps_rules settle_keeps)
  then show ?thesis
    by (cases c) (auto simp: resolve_def intro!: keeps_rules operation_keeps keeps_modify wake_keeps)
qed

lemma worker_keeps:
  assumes "tp_lifecycle ports = env"
  shows "keeps P (callWorker ports c ap)"
  unfolding callWorker_def assms
  by (intro keeps_rules keeps_worldE keeps_modify world_free) (auto intro: tool_run_keeps [OF command_keeps])

lemma authorize_keeps:
  assumes "tp_lifecycle ports = env"
  shows "keeps P (authorizeTool ports i c)"
  unfolding authorizeTool_def assms
  by (intro keeps_rules keeps_worldE keeps_modify world_free) (auto intro: tool_run_keeps [OF command_keeps])

lemma completion_keeps:
  assumes "tp_lifecycle ports = env"
  shows "keeps P (executeToCompletion ports i c ap)"
proof -
  have "keeps P (resolveApprovedRetry ports c r)" for r
    unfolding resolveApprovedRetry_def
    by (intro keeps_rules worker_keeps assms) (auto intro!: keeps_rules split: WorkerToolResult.split)
  then show ?thesis
    unfolding executeToCompletion_def tool_requestAndWait_def assms
    by (intro keeps_rules worker_keeps assms) (auto intro!: keeps_rules wait_keeps split: WorkerToolResult.split)
qed

lemma execute_keeps:
  assumes "tp_lifecycle ports = env"
  shows "keeps P (tool_execute ports i call)"
proof -
  have events: "keeps P (emitWorkerResultEvents ports i c out evs)" for c out evs
    unfolding emitWorkerResultEvents_def assms by (intro keeps_rules operations)
  have finish: "keeps P (finish_tool ports i c ap)" for c ap
    unfolding finish_tool_def assms
    by (intro keeps_rules completion_keeps assms) (auto intro!: keeps_rules operations events split: tool_end.split)
  have "keeps P (executeAuthorizedTool ports i au)" for au
    unfolding executeAuthorizedTool_def tool_requestAndWait_def assms
    by (cases au) (auto intro!: keeps_rules finish wait_keeps)
  moreover have "keeps P (tool_failed ports call err)" for err
    unfolding tool_failed_def Let_def assms by (cases err) (auto intro!: keeps_rules operations)
  ultimately show ?thesis
    unfolding tool_execute_def Let_def assms by (intro keeps_rules authorize_keeps assms operations)
qed

end

interpretation tool_pending: tool_predicate env "\<lambda>s. pending_view s = V" for env V
  by unfold_locales (simp_all add: keeps_lcE settle_keeps_pending requestAndWait_keeps_pending)

text \<open>In particular the invariants of the lifecycle coordinator, and its agreement with the stored stream.\<close>

lemma keeps_lcE_inv: "keeps Q m \<Longrightarrow> keeps (\<lambda>s. Q (tx_lc s)) (lcE m)"
  by (simp add: keeps_def lcE_def split: prod.splits) (metis snd_conv)

locale lifecycle_invariant =
  fixes env :: "'st lc_options" and Q :: "'st lc_state \<Rightarrow> bool"
  assumes exec_keeps: "keeps Q (lc_exec env c)"
begin

lemma settle_keeps_inv: "keeps (\<lambda>s. Q (tx_lc s)) (settle env a rq r)"
proof -
  have "keeps Q (decideApproval env a st p)" for st p
    using exec_keeps [of "DecideApproval a st p"] by simp
  note decide = keeps_wp [THEN iffD1, OF keeps_lcE_inv [OF this], rule_format]
  have "keeps (\<lambda>s. Q (tx_lc s)) (start_settlement env a r)"
    by (rule keeps_via_wp) (simp add: wpE_start_settlement decide)
  then show ?thesis unfolding settle_def by (intro keeps_rules)
qed

lemma command_keeps_inv: "keeps (\<lambda>s. Q (tx_lc s)) (tool_exec env c)"
proof -
  have "keeps (\<lambda>s. Q (tx_lc s)) (resolve_settle env a r)" for a r
    unfolding resolve_settle_def require_pending_def by (intro keeps_rules settle_keeps_inv)
  then show ?thesis
    by (cases c) (auto simp: resolve_def intro!: keeps_rules keeps_lcE_inv exec_keeps keeps_modify)
qed

lemma wait_keeps_inv: "keeps (\<lambda>s. Q (tx_lc s)) (requestAndWait env wt ab par rq)"
proof -
  have "keeps Q (requestApproval env par a i p)" for a i p
    using exec_keeps [of "RequestApproval par a i p"] by simp
  then have "keeps (\<lambda>s. Q (tx_lc s)) (await_decision env wt ab par i rq p)" for i p
    unfolding await_decision_def raceApprovalResolution_def Let_def
    by (intro keeps_rules keeps_lcE_inv keeps_worldE settle_keeps_inv race_keeps command_keeps_inv) simp_all
  then show ?thesis
    unfolding requestAndWait_def createPending_def Let_def
    by (intro keeps_rules keeps_finally keeps_modify) simp_all
qed

end

sublocale lifecycle_invariant \<subseteq> on_tools: tool_predicate env "\<lambda>s. Q (tx_lc s)"
  by unfold_locales (simp_all add: keeps_lcE_inv exec_keeps settle_keeps_inv wait_keeps_inv)

interpretation agreeing_tools: lifecycle_invariant env turn_agrees for env
  by unfold_locales (rule agreeing.exec_keeps)

interpretation settled_tools: lifecycle_invariant env terminal_settled for env
  by unfold_locales (rule exec_terminal_settled)

section \<open>The worker acts only on what was granted\<close>

lemma bindE_cong:
  assumes "m s = n s" and "\<And>x s'. n s = (Inr x, s') \<Longrightarrow> f x s' = g x s'"
  shows "bindE m f s = bindE n g s"
  using assms by (auto simp: bindE_def split: prod.splits sum.splits)

definition agree_when_granted :: "'w worker \<Rightarrow> 'w worker \<Rightarrow> bool" where
  "agree_when_granted wk wk' \<longleftrightarrow> (\<forall>c r. granted r \<longrightarrow> wk c (Some r) = wk' c (Some r))"

abbreviation with_worker :: "('st, 'w) tool_ports \<Rightarrow> 'w worker \<Rightarrow> ('st, 'w) tool_ports" where
  "with_worker ports wk \<equiv> ports\<lparr>tp_executeTool := wk\<rparr>"

lemma with_worker_same [simp]:
  "tool_requestAndWait (with_worker ports wk) = tool_requestAndWait ports"
  "emitWorkerResultEvents (with_worker ports wk) = emitWorkerResultEvents ports"
  "tool_failed (with_worker ports wk) = tool_failed ports"
  by (simp_all add: fun_eq_iff tool_requestAndWait_def emitWorkerResultEvents_def tool_failed_def Let_def split: js_error.split)

lemma callWorker_same: "wk c ap = tp_executeTool ports c ap \<Longrightarrow> callWorker (with_worker ports wk) c ap = callWorker ports c ap"
  by (simp add: callWorker_def)

lemma retry_same:
  "agree_when_granted wk (tp_executeTool ports) \<Longrightarrow> granted r \<Longrightarrow>
   resolveApprovedRetry (with_worker ports wk) c r = resolveApprovedRetry ports c r"
  by (simp add: resolveApprovedRetry_def agree_when_granted_def callWorker_same)

lemma completion_same:
  fixes ports :: "('st, 'w) tool_ports" and s :: "('st, 'w, 'm) tool_state_scheme"
  assumes "agree_when_granted wk (tp_executeTool ports)"
    and "case ap of None \<Rightarrow> wk c None = tp_executeTool ports c None | Some r \<Rightarrow> granted r"
  shows "executeToCompletion (with_worker ports wk) i c ap s = executeToCompletion ports i c ap s"
proof -
  have ask: "bindE (tool_requestAndWait ports i rq) (resolveApprovedRetry (with_worker ports wk) c) s' =
      bindE (tool_requestAndWait ports i rq) (resolveApprovedRetry ports c) s'"
    for rq and s' :: "('st, 'w, 'm) tool_state_scheme"
    by (rule bindE_cong) (auto simp: tool_requestAndWait_def retry_same [OF assms(1)] dest!: requestAndWait_granted)
  have "callWorker (with_worker ports wk) c ap s = callWorker ports c ap s"
    using assms by (cases ap) (simp_all add: agree_when_granted_def callWorker_same)
  then show ?thesis
    unfolding executeToCompletion_def by (rule bindE_cong) (simp add: ask cong: if_cong split: WorkerToolResult.split)
qed

lemma finish_same:
  assumes "agree_when_granted wk (tp_executeTool ports)"
    and "case ap of None \<Rightarrow> wk c None = tp_executeTool ports c None | Some r \<Rightarrow> granted r"
  shows "finish_tool (with_worker ports wk) i c ap s = finish_tool ports i c ap s"
  unfolding finish_tool_def
  by (rule bindE_cong [OF completion_same [OF assms]]) (simp cong: if_cong split: tool_end.split)

text \<open>
  C6. The worker acts only on what was authorized and granted. Two workers that agree on every call with a granted
  approval, and on calls without one where the policy authorized the call outright, cannot be told apart by a tool
  call, whatever the policy, the approvers and other callers do: no other request ever reaches the worker.
\<close>
theorem worker_sees_only_granted_calls:
  fixes ports :: "('st, 'w) tool_ports" and s :: "('st, 'w, 'm) tool_state_scheme"
  assumes "agree_when_granted wk (tp_executeTool ports)"
    and "\<And>cs c w. tp_authorize ports i call (tx_world s) = ((cs, Inr (Authorized c)), w) \<Longrightarrow> wk c None = tp_executeTool ports c None"
  shows "tool_execute (with_worker ports wk) i call s = tool_execute ports i call s"
proof -
  obtain cs answer w where au: "tp_authorize ports i call (tx_world s) = ((cs, answer), w)" by (metis surj_pair)
  have run: "executeAuthorizedTool (with_worker ports wk) i x s' = executeAuthorizedTool ports i x s'"
    if "answer = Inr x" for x and s' :: "('st, 'w, 'm) tool_state_scheme"
  proof (cases x)
    case (Authorized c)
    with assms(2) au that have "wk c None = tp_executeTool ports c None" by simp
    then show ?thesis using Authorized finish_same [OF assms(1), of c None i s'] by (simp add: executeAuthorizedTool_def)
  next
    case (Approval_required c rq)
    have "bindE (tool_requestAndWait ports i rq) (\<lambda>r. finish_tool (with_worker ports wk) i c (Some r)) s' =
        bindE (tool_requestAndWait ports i rq) (\<lambda>r. finish_tool ports i c (Some r)) s'"
      by (rule bindE_cong) (auto simp: tool_requestAndWait_def dest!: requestAndWait_granted intro!: finish_same [OF assms(1)])
    then show ?thesis using Approval_required by (simp add: executeAuthorizedTool_def)
  qed (simp add: executeAuthorizedTool_def)
  have "catchE (executeAuthorizedTool (with_worker ports wk) i x) (tool_failed ports call) s' =
      catchE (executeAuthorizedTool ports i x) (tool_failed ports call) s'"
    if "answer = Inr x" for x and s' :: "('st, 'w, 'm) tool_state_scheme"
    using run [OF that, of s'] by (simp add: catchE_def)
  then show ?thesis
    unfolding tool_execute_def Let_def
    by (simp add: authorizeTool_def bindE_def worldE_def modifyE_def au liftE_def split: sum.splits prod.splits)
qed

definition sample_call :: ToolCallItemContent where
  "sample_call = \<lparr>tc_toolCallId = ''tcl_1'', tc_toolName = ''shell'', tc_input = [], tc_callBatchId = None, tc_display = None\<rparr>"

definition sample_ports :: "ApprovalDecision \<Rightarrow> (unit, unit) tool_ports" where
  "sample_ports d =
     \<lparr>tp_lifecycle = open_options, tp_authorize = \<lambda>i c w. (([], Inr (Approval_required c sample_request)), w),
      tp_executeTool = \<lambda>c ap w. (([], Inr (Worker_completed [(''ok'', PBool True)] [])), w),
      tp_waitForDecision = \<lambda>rq w. (([Resolve ''apr_1'' (sample_resolution d)], Signal_aborted), w),
      tp_aborted = \<lambda>w. False, tp_artifactSchema = \<lambda>v. None, tp_lastEventSequence = 0, tp_zodMessage = ''invalid''\<rparr>"

lemma worker_sees_only_granted_calls_witness:
  "tool_execute (with_worker (sample_ports Dec_denied) (\<lambda>c ap w. if (\<exists>r. ap = Some r \<and> granted r)
      then (([], Inr (Worker_completed [(''ok'', PBool True)] [])), w) else (([], Inl (PlainError ''never'')), w)))
      ''itm_1'' sample_call running_state =
   tool_execute (sample_ports Dec_denied) ''itm_1'' sample_call running_state"
  by (rule worker_sees_only_granted_calls) (auto simp: agree_when_granted_def sample_ports_def)

text \<open>
  C7. When a tool call returns a result, the lifecycle has settled it: the tool call is recorded as completed if the
  result carries no failure, and as failed or declined if it does. No approval it asked for is left pending, and the
  turn, its attempt and its blocking state agree if they did before, whatever happened to the turn meanwhile.
\<close>
theorem tool_result_means_settled:
  assumes "tool_execute ports i call s = (Inr res, s')"
  shows "settled_result res s' \<and> pending_view s' = pending_view s \<and> (turn_agrees (tx_lc s) \<longrightarrow> turn_agrees (tx_lc s'))"
proof -
  have "settled_result res s'" using tool_execute_settles [of ports i call s] assms by (simp add: wpE_def)
  moreover have "pending_view s' = pending_view s"
    using keepsD [OF tool_pending.execute_keeps [OF refl], of s "pending_view s" ports i call] assms by simp
  moreover have "turn_agrees (tx_lc s')" if "turn_agrees (tx_lc s)"
    using keepsD [OF agreeing_tools.on_tools.execute_keeps [OF refl], of s ports i call] assms that by simp
  ultimately show ?thesis by blast
qed

lemma tool_result_means_settled_witness:
  "\<exists>res s'. tool_execute (sample_ports Dec_approved) ''itm_1'' sample_call running_state = (Inr res, s') \<and>
    settled_result res s' \<and> pending_view s' = []"
proof -
  have "\<exists>res s'. tool_execute (sample_ports Dec_approved) ''itm_1'' sample_call running_state = (Inr res, s')"
    by (simp add: tool_execute_def authorizeTool_def sample_ports_def sample_call_def canonical_call_def startToolCall_def executeAuthorizedTool_def
        tool_requestAndWait_def finish_tool_def executeToCompletion_def callWorker_def tool_run_def emitWorkerResultEvents_def
        mapWorkerResultEvents_def collectArtifacts_def collectOutputArtifacts_def parseArtifactProjection_def
        parseCanonicalArtifact_def record_of_def readRequiredString_def collectOutputDeltas_def collectCommandOutputDeltas_def
        readString_def hasContent_def completeToolCall_def settleToolCall_def requireActiveToolCall_def requireToolCallItem_def
        isTerminal_def set_tool_call_def optional_entry_def spread_def wait_eval open_eval)
  then obtain res s' where run: "tool_execute (sample_ports Dec_approved) ''itm_1'' sample_call running_state = (Inr res, s')" by blast
  from tool_result_means_settled [OF this] run show ?thesis by (auto simp: running_state_def pending_view_def)
qed

end
