(* ===== verification/Artifact_Settlement.thy ===== *)
theory Artifact_Settlement
  imports Tool_Execution
begin

text \<open>
  The workspace snapshots and the diff of a turn, packages/runtime-kernel/src/TurnArtifactSettlementCoordinator.ts:
  the start snapshot, the terminal snapshot with the progress kept for a resume, the diff between them and the
  artifacts stored for each, settled once and best effort when the turn is interrupted. Git, the artifact store and
  the clock are ports.
\<close>

section \<open>Snapshots and diffs\<close>

record RuntimeGitWorkspaceSnapshot =
  gs_runId :: string
  gs_filesystemRoot :: string
  gs_headSha :: string
  gs_treeId :: string

record ResumeWorkspaceSnapshotRef =
  rs_schemaVersion :: nat
  rs_artifactId :: string
  rs_payloadObjectKey :: string
  rs_userId :: string
  rs_workspaceId :: string
  rs_threadId :: string
  rs_sourceRunId :: string
  rs_sourceTurnId :: string
  rs_sourceRunAttemptId :: string
  rs_baseSnapshotId :: string
  rs_baseCommitSha :: string
  rs_terminalTreeSha :: string
  rs_patchSha256 :: string
  rs_byteLength :: nat

datatype ResumeWorkspaceUnavailableReason = Worker_not_quiescent | Snapshot_unavailable | Snapshot_too_large

datatype snapshot_phase = Phase_start | Phase_terminal

record TurnWorkspaceSnapshot =
  sn_turnId :: string
  sn_snapshotKey :: string
  sn_treeId :: string
  sn_headSha :: string
  sn_phase :: snapshot_phase
  sn_capturedAt :: string
  sn_resumeSnapshotRef :: "ResumeWorkspaceSnapshotRef option"
  sn_resumeUnavailableReason :: "ResumeWorkspaceUnavailableReason option"

datatype git_file_status =
    Gf_added | Gf_copied | Gf_deleted | Gf_modified | Gf_renamed | Gf_type_changed | Gf_unmerged | Gf_untracked

record RuntimeGitDiffFile =
  df_path :: string
  df_previousPath :: "string option"
  df_status :: git_file_status
  df_additions :: nat
  df_deletions :: nat

datatype changed_file_status = Cf_added | Cf_modified | Cf_deleted | Cf_renamed | Cf_copied | Cf_unchanged

record ArtifactChangedFile =
  cf_path :: string
  cf_status :: changed_file_status
  cf_additions :: "nat option"
  cf_deletions :: "nat option"
  cf_previousPath :: "string option"

record TurnDiffPayload =
  td_turnId :: string
  td_startSnapshot :: TurnWorkspaceSnapshot
  td_terminalSnapshot :: TurnWorkspaceSnapshot
  td_files :: "ArtifactChangedFile list"
  td_patch :: string

text \<open>An artifact a port returns is an unknown value; \<open>None\<close> is \<open>undefined\<close>.\<close>

record TurnArtifactSettlementResult =
  sr_terminalSnapshot :: "TurnWorkspaceSnapshot option"
  sr_terminalSnapshotArtifact :: "pval option"
  sr_resumeWorkspaceArtifact :: "pval option"
  sr_turnDiff :: "TurnDiffPayload option"
  sr_turnDiffArtifact :: "pval option"
  sr_resumeUnavailableReason :: "ResumeWorkspaceUnavailableReason option"

definition no_settlement :: TurnArtifactSettlementResult where
  "no_settlement =
     \<lparr>sr_terminalSnapshot = None, sr_terminalSnapshotArtifact = None, sr_resumeWorkspaceArtifact = None,
      sr_turnDiff = None, sr_turnDiffArtifact = None, sr_resumeUnavailableReason = None\<rparr>"

section \<open>State and ports\<close>

text \<open>
  A port call awaits code outside the kernel: it changes the world, and other callers act on the turn meanwhile. The
  state of the artifact coordinator extends that of the tool layer.
\<close>

type_synonym ('w, 'a) port = "'w \<Rightarrow> (tool_command list \<times> (js_error + 'a)) \<times> 'w"

definition portE :: "'st lc_options \<Rightarrow> ('w, 'a) port \<Rightarrow> ('st, 'w, 'm, 'a) tool_op" where
  "portE env f =
     bindE (worldE f) (\<lambda>(meanwhile, answer).
     bindE (modifyE (tool_run env meanwhile)) (\<lambda>_.
     liftE answer))"

record ('st, 'w) artifact_state = "('st, 'w) tool_state" +
  ta_startSnapshot :: "TurnWorkspaceSnapshot option"
  ta_startSnapshotArtifact :: "pval option"
  ta_settlement :: "TurnArtifactSettlementResult option"

type_synonym ('st, 'w, 'm, 'a) artifact_op = "(('st, 'w, 'm) artifact_state_scheme, js_error, 'a) op"

record ArtifactAccess =
  aa_userId :: string
  aa_workspaceId :: string
  aa_threadId :: string
  aa_runId :: string

record ('st, 'w) artifact_ports =
  ap_lifecycle :: "'st lc_options"
  ap_turnId :: string
  ap_runId :: string
  ap_threadId :: string
  ap_workspaceId :: string
  ap_userId :: string
  ap_filesystemRoot :: string
  ap_zodMessage :: string
  ap_captureSnapshot :: "string \<times> string \<Rightarrow> string \<Rightarrow> ('w, RuntimeGitWorkspaceSnapshot) port"
  ap_captureResumeSnapshot :: "(string \<times> string \<Rightarrow> RuntimeGitWorkspaceSnapshot \<Rightarrow> ('w, ResumeWorkspaceSnapshotRef) port) option"
  ap_getSnapshotDiff :: "string \<times> string \<Rightarrow> RuntimeGitWorkspaceSnapshot \<Rightarrow> RuntimeGitWorkspaceSnapshot \<Rightarrow>
     ('w, RuntimeGitDiffFile list \<times> string) port"
  ap_putSnapshot :: "TurnWorkspaceSnapshot \<Rightarrow> CanonicalOwnership \<Rightarrow> ArtifactAccess \<Rightarrow> ('w, pval option) port"
  ap_putTurnDiff :: "TurnDiffPayload \<Rightarrow> CanonicalOwnership \<Rightarrow> ArtifactAccess \<Rightarrow> ('w, pval option) port"
  ap_now :: "'w \<Rightarrow> string \<times> 'w"

definition gitWorkspace :: "('st, 'w) artifact_ports \<Rightarrow> string \<times> string" where
  "gitWorkspace ap = (ap_runId ap, ap_filesystemRoot ap)"

definition ownership :: "('st, 'w) artifact_ports \<Rightarrow> CanonicalOwnership" where
  "ownership ap =
     \<lparr>ow_createdBy = ap_userId ap, ow_workspaceId = ap_workspaceId ap, ow_threadId = ap_threadId ap, ow_runId = ap_runId ap\<rparr>"

definition access :: "('st, 'w) artifact_ports \<Rightarrow> ArtifactAccess" where
  "access ap =
     \<lparr>aa_userId = ap_userId ap, aa_workspaceId = ap_workspaceId ap, aa_threadId = ap_threadId ap, aa_runId = ap_runId ap\<rparr>"

definition toGitSnapshot :: "('st, 'w) artifact_ports \<Rightarrow> TurnWorkspaceSnapshot \<Rightarrow> RuntimeGitWorkspaceSnapshot" where
  "toGitSnapshot ap sn =
     \<lparr>gs_runId = ap_runId ap, gs_filesystemRoot = ap_filesystemRoot ap, gs_headSha = sn_headSha sn, gs_treeId = sn_treeId sn\<rparr>"

section \<open>Capturing a snapshot\<close>

abbreviation settlement_failed :: "string \<Rightarrow> js_error" where
  "settlement_failed message \<equiv> kernel_error Kc_turn_artifact_settlement_failed message"

definition captureResumeSnapshot ::
  "('st, 'w) artifact_ports \<Rightarrow> RuntimeGitWorkspaceSnapshot \<Rightarrow> ('st, 'w, 'm, ResumeWorkspaceSnapshotRef) artifact_op" where
  "captureResumeSnapshot ap terminal =
     (case ap_captureResumeSnapshot ap of
        None \<Rightarrow> throwE (settlement_failed ''Interrupted turn workspace progress cannot be stored for resume.'')
      | Some f \<Rightarrow> portE (ap_lifecycle ap) (f (gitWorkspace ap) terminal))"

text \<open>\<open>/size limit|too large/iu.test(\<dots>)\<close>\<close>

definition capture_failure_reason :: "string \<Rightarrow> js_error \<Rightarrow> ResumeWorkspaceUnavailableReason" where
  "capture_failure_reason zod err =
     (let message = toLowerCase (if is_Error err then js_message zod err else []) in
      if str_includes message ''size limit'' \<or> str_includes message ''too large''
      then Snapshot_too_large else Snapshot_unavailable)"

definition capture ::
  "('st, 'w) artifact_ports \<Rightarrow> snapshot_phase \<Rightarrow> bool \<Rightarrow> ResumeWorkspaceUnavailableReason option \<Rightarrow>
     ('st, 'w, 'm, TurnWorkspaceSnapshot) artifact_op" where
  "capture ap phase preserveWorkspaceProgress resumeUnavailableReason =
     bindE (catchE (portE (ap_lifecycle ap) (ap_captureSnapshot ap (gitWorkspace ap) (ap_turnId ap)))
       (\<lambda>_. throwE (settlement_failed
          (if phase = Phase_terminal then ''Terminal workspace snapshot is unavailable.''
           else ''Start workspace snapshot is unavailable.'')))) (\<lambda>snapshot.
     bindE (if phase = Phase_terminal \<and> preserveWorkspaceProgress \<and> resumeUnavailableReason = None
            then catchE (bindE (captureResumeSnapshot ap snapshot) (\<lambda>ref. returnE (Some ref, None)))
                   (\<lambda>err. returnE (None, Some (capture_failure_reason (ap_zodMessage ap) err)))
            else returnE (None, resumeUnavailableReason)) (\<lambda>(ref, unavailableReason).
     bindE (worldE (ap_now ap)) (\<lambda>capturedAt.
     returnE
       \<lparr>sn_turnId = ap_turnId ap, sn_snapshotKey = ap_turnId ap, sn_treeId = gs_treeId snapshot,
        sn_headSha = gs_headSha snapshot, sn_phase = phase, sn_capturedAt = capturedAt, sn_resumeSnapshotRef = ref,
        sn_resumeUnavailableReason = (if phase = Phase_terminal then unavailableReason else None)\<rparr>)))"

definition begin_artifacts ::
  "('st, 'w) artifact_ports \<Rightarrow> ('st, 'w, 'm, TurnWorkspaceSnapshot \<times> pval option) artifact_op" where
  "begin_artifacts ap =
     bindE (getE (\<lambda>s. (ta_startSnapshot s, ta_startSnapshotArtifact s))) (\<lambda>(started, stored).
     case (started, stored) of
       (Some snapshot, Some artifact) \<Rightarrow> returnE (snapshot, Some artifact)
     | _ \<Rightarrow>
         bindE (capture ap Phase_start False None) (\<lambda>snapshot.
         bindE (portE (ap_lifecycle ap) (ap_putSnapshot ap snapshot (ownership ap) (access ap))) (\<lambda>artifact.
         bindE (modifyE (\<lambda>s. s\<lparr>ta_startSnapshot := Some snapshot, ta_startSnapshotArtifact := artifact\<rparr>)) (\<lambda>_.
         returnE (snapshot, artifact)))))"

section \<open>Settling the artifacts of a turn\<close>

definition toArtifactChangedFile :: "RuntimeGitDiffFile \<Rightarrow> js_error + ArtifactChangedFile" where
  "toArtifactChangedFile f =
     (let changed = (\<lambda>st. Inr \<lparr>cf_path = df_path f, cf_status = st, cf_additions = Some (df_additions f),
             cf_deletions = Some (df_deletions f), cf_previousPath = df_previousPath f\<rparr>) in
      case df_status f of
        Gf_unmerged \<Rightarrow> Inl (settlement_failed (''Snapshot diff cannot contain an unmerged file: '' @ df_path f))
      | Gf_type_changed \<Rightarrow> changed Cf_modified
      | Gf_untracked \<Rightarrow> changed Cf_added
      | Gf_added \<Rightarrow> changed Cf_added
      | Gf_copied \<Rightarrow> changed Cf_copied
      | Gf_deleted \<Rightarrow> changed Cf_deleted
      | Gf_modified \<Rightarrow> changed Cf_modified
      | Gf_renamed \<Rightarrow> changed Cf_renamed)"

primrec changed_files :: "RuntimeGitDiffFile list \<Rightarrow> js_error + ArtifactChangedFile list" where
  "changed_files [] = Inr []"
| "changed_files (f # fs) =
     andThen (toArtifactChangedFile f) (\<lambda>c. andThen (changed_files fs) (\<lambda>cs. Inr (c # cs)))"

definition resume_artifact :: "('st, 'w) artifact_ports \<Rightarrow> TurnWorkspaceSnapshot \<Rightarrow> ResumeWorkspaceSnapshotRef \<Rightarrow> pval" where
  "resume_artifact ap terminal ref =
     PObj [(''artifactId'', PStr (rs_artifactId ref)), (''kind'', PStr ''workspace_snapshot''),
       (''threadId'', PStr (ap_threadId ap)), (''runId'', PStr (ap_runId ap)), (''workspaceId'', PStr (ap_workspaceId ap)),
       (''itemId'', PNull), (''label'', PStr ''Interrupted workspace progress''),
       (''payloadRef'', PObj [(''backend'', PStr ''r2''), (''objectKey'', PStr (rs_payloadObjectKey ref)), (''uri'', PNull),
          (''contentType'', PStr ''application/vnd.git.patch''), (''sizeBytes'', PNum (of_nat (rs_byteLength ref))),
          (''sha256'', PStr (rs_patchSha256 ref))]),
       (''changedFiles'', PArr []),
       (''metadata'', PObj [(''role'', PStr ''resume_workspace_progress''), (''sourceUserId'', PStr (rs_userId ref)),
          (''sourceRunId'', PStr (rs_sourceRunId ref)), (''sourceTurnId'', PStr (rs_sourceTurnId ref)),
          (''sourceRunAttemptId'', PStr (rs_sourceRunAttemptId ref)), (''baseSnapshotId'', PStr (rs_baseSnapshotId ref)),
          (''baseCommitSha'', PStr (rs_baseCommitSha ref)), (''terminalTreeSha'', PStr (rs_terminalTreeSha ref)),
          (''patchSha256'', PStr (rs_patchSha256 ref)), (''byteLength'', PNum (of_nat (rs_byteLength ref)))]),
       (''createdAt'', PStr (sn_capturedAt terminal))]"

record settle_input =
  si_interrupted :: bool
  si_preserveWorkspaceProgress :: bool
  si_resumeUnavailableReason :: "ResumeWorkspaceUnavailableReason option"

text \<open>
  \<open>try { x = await m } catch { if (!interrupted) throw \<dots>; return partial }\<close> followed by the rest: an interrupted
  settlement ends with what it has, any other one fails.
\<close>

definition attempt ::
  "bool \<Rightarrow> string \<Rightarrow> TurnArtifactSettlementResult \<Rightarrow> ('st, 'w, 'm, 'a) artifact_op \<Rightarrow>
     ('a \<Rightarrow> ('st, 'w, 'm, TurnArtifactSettlementResult) artifact_op) \<Rightarrow> ('st, 'w, 'm, TurnArtifactSettlementResult) artifact_op" where
  "attempt interrupted message partial m rest s =
     (case m s of
        (Inl e, s') \<Rightarrow> (if \<not> interrupted then (Inl (settlement_failed message), s') else (Inr partial, s'))
      | (Inr x, s') \<Rightarrow> rest x s')"

definition settleNow ::
  "('st, 'w) artifact_ports \<Rightarrow> TurnWorkspaceSnapshot \<Rightarrow> settle_input \<Rightarrow> ('st, 'w, 'm, TurnArtifactSettlementResult) artifact_op" where
  "settleNow ap startSnapshot inp =
     (if si_resumeUnavailableReason inp = Some Worker_not_quiescent
      then returnE (no_settlement\<lparr>sr_resumeUnavailableReason := Some Worker_not_quiescent\<rparr>)
      else
        let unavailable = no_settlement\<lparr>sr_resumeUnavailableReason := Some Snapshot_unavailable\<rparr> in
        attempt (si_interrupted inp) ''Terminal workspace snapshot is unavailable.'' unavailable
          (capture ap Phase_terminal (si_preserveWorkspaceProgress inp) (si_resumeUnavailableReason inp)) (\<lambda>terminal.
        attempt (si_interrupted inp) ''Terminal workspace diff is unavailable.'' (unavailable\<lparr>sr_terminalSnapshot := Some terminal\<rparr>)
          (portE (ap_lifecycle ap)
             (ap_getSnapshotDiff ap (gitWorkspace ap) (toGitSnapshot ap startSnapshot) (toGitSnapshot ap terminal))) (\<lambda>(files, patch).
        attempt (si_interrupted inp) ''Terminal workspace snapshot artifact could not be persisted.'' (unavailable\<lparr>sr_terminalSnapshot := Some terminal\<rparr>)
          (portE (ap_lifecycle ap) (ap_putSnapshot ap terminal (ownership ap) (access ap))) (\<lambda>terminalArtifact.
        bindE (liftE (changed_files files)) (\<lambda>changed.
        let turnDiff = \<lparr>td_turnId = ap_turnId ap, td_startSnapshot = startSnapshot, td_terminalSnapshot = terminal,
                        td_files = changed, td_patch = patch\<rparr> in
        attempt (si_interrupted inp) ''Terminal workspace diff artifact could not be persisted.''
          (unavailable\<lparr>sr_terminalSnapshot := Some terminal, sr_terminalSnapshotArtifact := terminalArtifact\<rparr>)
          (portE (ap_lifecycle ap) (ap_putTurnDiff ap turnDiff (ownership ap) (access ap))) (\<lambda>diffArtifact.
        returnE
          \<lparr>sr_terminalSnapshot = Some terminal, sr_terminalSnapshotArtifact = terminalArtifact,
           sr_resumeWorkspaceArtifact = map_option (resume_artifact ap terminal) (sn_resumeSnapshotRef terminal),
           sr_turnDiff = Some turnDiff, sr_turnDiffArtifact = diffArtifact,
           sr_resumeUnavailableReason = sn_resumeUnavailableReason terminal\<rparr>))))))"

definition settle_artifacts ::
  "('st, 'w) artifact_ports \<Rightarrow> settle_input \<Rightarrow> ('st, 'w, 'm, TurnArtifactSettlementResult) artifact_op" where
  "settle_artifacts ap inp =
     bindE (getE (\<lambda>s. (ta_startSnapshot s, ta_settlement s))) (\<lambda>(started, settled).
     case started of
       None \<Rightarrow> throwE (settlement_failed (''Turn '' @ ap_turnId ap @ '' has no start snapshot''))
     | Some startSnapshot \<Rightarrow>
         (case settled of
            Some result \<Rightarrow> returnE result
          | None \<Rightarrow>
              bindE (settleNow ap startSnapshot inp) (\<lambda>result.
              bindE (modifyE (\<lambda>s. s\<lparr>ta_settlement := Some result\<rparr>)) (\<lambda>_.
              returnE result))))"

section \<open>What a settlement reports\<close>

lemma wpE_attempt [wp_simps]:
  "wpE (attempt interrupted message partial m rest) Q E s =
     wpE m (\<lambda>x. wpE (rest x) Q E) (\<lambda>e s'. if interrupted then Q partial s' else E (settlement_failed message) s') s"
  by (simp add: wpE_def attempt_def split: prod.splits sum.splits)

lemma wpE_free: "(\<And>x s'. Q x s') \<Longrightarrow> (\<And>e s'. E e s') \<Longrightarrow> wpE m Q E s"
  by (auto simp: wpE_def split: prod.splits sum.splits)

lemma wpE_attempt_interrupted:
  "interrupted \<Longrightarrow> (\<And>s'. Q partial s') \<Longrightarrow> (\<And>x s'. wpE (rest x) Q E s') \<Longrightarrow>
   wpE (attempt interrupted message partial m rest) Q E s"
  by (simp add: wpE_attempt wpE_free)

lemma wpE_bind_lift:
  "(\<And>x. r = Inr x \<Longrightarrow> wpE (f x) Q E s) \<Longrightarrow> (\<And>e. r = Inl e \<Longrightarrow> E e s) \<Longrightarrow> wpE (bindE (liftE r) f) Q E s"
  by (cases r) (simp_all add: wpE_bind wpE_lift)

lemma wpE_case_prod: "(\<And>a b. wpE (f a b) Q E s) \<Longrightarrow> wpE (case x of (a, b) \<Rightarrow> f a b) Q E s"
  by (cases x) simp

text \<open>
  A snapshot says what a resume can rely on: a start snapshot says nothing, a terminal one never both names stored
  progress and a reason against it, and it does one of the two whenever progress was asked for or ruled out.
\<close>

definition resume_explained :: "TurnWorkspaceSnapshot \<Rightarrow> bool" where
  "resume_explained sn \<longleftrightarrow> (sn_resumeSnapshotRef sn = None) \<noteq> (sn_resumeUnavailableReason sn = None)"

lemma capture_explains:
  "wpE (capture ap phase preserve why)
     (\<lambda>sn _. phase = Phase_terminal \<and> (preserve \<or> why \<noteq> None) \<longrightarrow> resume_explained sn) (\<lambda>_ _. True) s"
  unfolding capture_def
proof (rule wpE_bind_returns, unfold wpE_bind [of "if _ then _ else _"], rule wpE_mono)
  fix snapshot s'
  show "wpE (if phase = Phase_terminal \<and> preserve \<and> why = None
        then catchE (bindE (captureResumeSnapshot ap snapshot) (\<lambda>ref. returnE (Some ref, None)))
               (\<lambda>err. returnE (None, Some (capture_failure_reason (ap_zodMessage ap) err)))
        else returnE (None, why))
      (\<lambda>(ref, reason) _. phase = Phase_terminal \<and> (preserve \<or> why \<noteq> None) \<longrightarrow> (ref = None) \<noteq> (reason = None)) (\<lambda>_ _. True) s'"
    by (auto simp: wp_simps intro: wpE_free)
qed (auto simp: wp_simps resume_explained_def split: prod.splits)

lemma changed_files_error:
  "changed_files fs = Inl e \<Longrightarrow> \<exists>f. df_status f = Gf_unmerged \<and> toArtifactChangedFile f = Inl e"
proof (induction fs)
  case (Cons f fs)
  show ?case
  proof (cases "toArtifactChangedFile f")
    case (Inl e')
    then have "df_status f = Gf_unmerged" by (cases "df_status f") (simp_all add: toArtifactChangedFile_def Let_def)
    with Inl Cons.prems show ?thesis by auto
  next
    case (Inr c)
    with Cons.prems have "changed_files fs = Inl e" by (cases "changed_files fs") simp_all
    then show ?thesis by (rule Cons.IH)
  qed
qed simp

abbreviation says_one :: "TurnArtifactSettlementResult \<Rightarrow> bool" where
  "says_one res \<equiv> (sr_resumeWorkspaceArtifact res = None) \<noteq> (sr_resumeUnavailableReason res = None)"

lemma settleNow_interrupted:
  assumes "si_interrupted inp"
  shows "wpE (settleNow ap start_snapshot inp)
    (\<lambda>res _. si_preserveWorkspaceProgress inp \<or> si_resumeUnavailableReason inp \<noteq> None \<longrightarrow> says_one res)
    (\<lambda>e _. \<exists>f. df_status f = Gf_unmerged \<and> toArtifactChangedFile f = Inl e) s"
proof (cases "si_resumeUnavailableReason inp = Some Worker_not_quiescent")
  case True
  then show ?thesis by (simp add: settleNow_def wp_simps no_settlement_def)
next
  case False
  note steps = wpE_attempt_interrupted [OF assms] wpE_case_prod wpE_bind_lift
  show ?thesis
    unfolding settleNow_def if_not_P [OF False] Let_def wpE_attempt [of _ _ _ "capture _ _ _ _"]
    by (rule wpE_mono [OF capture_explains], intro steps)
      (auto simp: assms no_settlement_def wpE_return resume_explained_def dest: changed_files_error)
qed

text \<open>
  Settling the artifacts of an interrupted turn is best effort: it fails only on an unmerged file in the diff,
  however Git, the artifact store or the stored progress fail. The result it keeps for the turn tells a resume either
  where the progress is stored or why there is none, and never both.
\<close>
theorem interrupted_settlement_explains_resume:
  assumes "settle_artifacts ap inp s = (r, s')"
    and "si_interrupted inp" and "si_preserveWorkspaceProgress inp \<or> si_resumeUnavailableReason inp \<noteq> None"
    and "ta_startSnapshot s = Some start_snapshot" and "ta_settlement s = None"
  shows "case r of
      Inl e \<Rightarrow> \<exists>f. df_status f = Gf_unmerged \<and> toArtifactChangedFile f = Inl e
    | Inr res \<Rightarrow> ta_settlement s' = Some res \<and>
        (sr_resumeWorkspaceArtifact res = None) \<noteq> (sr_resumeUnavailableReason res = None)"
proof -
  have "wpE (settle_artifacts ap inp) (\<lambda>res s'. ta_settlement s' = Some res \<and> says_one res)
      (\<lambda>e _. \<exists>f. df_status f = Gf_unmerged \<and> toArtifactChangedFile f = Inl e) s"
    unfolding settle_artifacts_def wpE_bind [of "getE _"] wpE_get
    using assms(3) by (auto simp: assms(4,5) wp_simps intro: wpE_mono [OF settleNow_interrupted [OF assms(2)]])
  then show ?thesis using assms(1) by (auto simp: wpE_def split: sum.splits)
qed

text \<open>A repository whose snapshots can be taken, with a diff of the given files and no store for the progress.\<close>

definition sample_artifacts :: "RuntimeGitDiffFile list \<Rightarrow> (unit, unit) artifact_ports" where
  "sample_artifacts files =
     \<lparr>ap_lifecycle = open_options, ap_turnId = ''trn_1'', ap_runId = ''run_1'', ap_threadId = ''thr_1'',
      ap_workspaceId = ''wsp_1'', ap_userId = ''usr_1'', ap_filesystemRoot = ''/work'', ap_zodMessage = ''invalid'',
      ap_captureSnapshot = \<lambda>ws key w. (([], Inr \<lparr>gs_runId = ''run_1'', gs_filesystemRoot = ''/work'', gs_headSha = ''h'',
        gs_treeId = ''t''\<rparr>), w),
      ap_captureResumeSnapshot = None, ap_getSnapshotDiff = \<lambda>ws a b w. (([], Inr (files, ''patch'')), w),
      ap_putSnapshot = \<lambda>sn o' a w. (([], Inr None), w), ap_putTurnDiff = \<lambda>d o' a w. (([], Inr None), w),
      ap_now = \<lambda>w. (''now'', w)\<rparr>"

definition sample_snapshot :: TurnWorkspaceSnapshot where
  "sample_snapshot =
     \<lparr>sn_turnId = ''trn_1'', sn_snapshotKey = ''trn_1'', sn_treeId = ''t'', sn_headSha = ''h'', sn_phase = Phase_start,
      sn_capturedAt = ''now'', sn_resumeSnapshotRef = None, sn_resumeUnavailableReason = None\<rparr>"

definition unmerged_file :: RuntimeGitDiffFile where
  "unmerged_file =
     \<lparr>df_path = ''a.txt'', df_previousPath = None, df_status = Gf_unmerged, df_additions = 1, df_deletions = 0\<rparr>"

definition started_state :: "(unit, unit) artifact_state" where
  "started_state =
     \<lparr>tx_lc = tx_lc running_state, tx_pending = [], tx_world = (), ta_startSnapshot = Some sample_snapshot,
      ta_startSnapshotArtifact = None, ta_settlement = None\<rparr>"

lemmas artifact_eval =
  settle_artifacts_def settleNow_def attempt_def capture_def portE_def captureResumeSnapshot_def capture_failure_reason_def
  tool_run_def worldE_def no_settlement_def sample_artifacts_def started_state_def op_defs Let_def

lemma interrupted_settlement_explains_resume_witness:
  "\<exists>res s'. settle_artifacts (sample_artifacts []) \<lparr>si_interrupted = True, si_preserveWorkspaceProgress = True,
      si_resumeUnavailableReason = None\<rparr> started_state = (Inr res, s') \<and> ta_settlement s' = Some res \<and>
    (sr_resumeWorkspaceArtifact res = None) \<noteq> (sr_resumeUnavailableReason res = None)"
proof -
  let ?inp = "\<lparr>si_interrupted = True, si_preserveWorkspaceProgress = True, si_resumeUnavailableReason = None\<rparr>"
  have "\<exists>res s'. settle_artifacts (sample_artifacts []) ?inp started_state = (Inr res, s')"
    by (simp add: artifact_eval)
  then obtain res s' where run: "settle_artifacts (sample_artifacts []) ?inp started_state = (Inr res, s')" by blast
  have "ta_startSnapshot started_state = Some sample_snapshot" and "ta_settlement started_state = None"
    by (simp_all add: started_state_def)
  from interrupted_settlement_explains_resume [OF run _ _ this] run show ?thesis by simp
qed

end
