(* ===== verification/Context_Budget.thy ===== *)
theory Context_Budget
  imports Lifecycle_Coordinator
begin

text \<open>
  Context budgets: the schemas of budget and usage snapshots in packages/platform-protocol/src/lifecycle.ts and
  \<open>reconcileProviderContextBudget\<close> of packages/runtime-kernel/src/ProviderContextBudget.ts, which replaces the
  estimate of the occupied context by what the provider measured. Token counts are integers and percentages are
  rationals, where the program has floating point numbers.
\<close>

section \<open>Budget and usage snapshots\<close>

datatype ContextMeasurementSource = Measured_provider | Measured_tokenizer | Measured_estimate

primrec measurement_name :: "ContextMeasurementSource \<Rightarrow> string" where
  "measurement_name Measured_provider = ''provider''"
| "measurement_name Measured_tokenizer = ''tokenizer''"
| "measurement_name Measured_estimate = ''estimate''"

record ContextBudgetSnapshot =
  cb_providerId :: string
  cb_modelId :: string
  cb_contextWindowLimit :: int
  cb_systemTokens :: "int option"
  cb_conversationTokens :: "int option"
  cb_toolDefinitionTokens :: "int option"
  cb_attachmentTokens :: "int option"
  cb_repositoryContextTokens :: "int option"
  cb_reservedOutputTokens :: int
  cb_safetyReserveTokens :: int
  cb_effectiveInputBudget :: int
  cb_tokensUsed :: int
  cb_tokensRemaining :: int
  cb_utilizationPercent :: rat
  cb_warningThresholdPercent :: rat
  cb_automaticCompactionThresholdPercent :: rat
  cb_measurementSource :: ContextMeasurementSource

record UsageCostSnapshot =
  us_providerId :: string
  us_modelId :: string
  us_inputTokens :: int
  us_outputTokens :: int
  us_cachedInputTokens :: "int option"
  us_reasoningTokens :: "int option"
  us_totalTokens :: int
  us_currentTurnCost :: "rat option"
  us_cumulativeThreadTokens :: int
  us_cumulativeThreadCost :: "rat option"
  us_currency :: string
  us_measurementSource :: string

definition nullable_number :: "rat option \<Rightarrow> pval" where
  "nullable_number v = (case v of None \<Rightarrow> PNull | Some x \<Rightarrow> PNum x)"

abbreviation nullable_tokens :: "int option \<Rightarrow> pval" where
  "nullable_tokens v \<equiv> nullable_number (map_option of_int v)"

definition budget_json :: "ContextBudgetSnapshot \<Rightarrow> pval" where
  "budget_json b = PObj
     [(''providerId'', PStr (cb_providerId b)), (''modelId'', PStr (cb_modelId b)),
      (''contextWindowLimit'', PNum (of_int (cb_contextWindowLimit b))),
      (''systemTokens'', nullable_tokens (cb_systemTokens b)),
      (''conversationTokens'', nullable_tokens (cb_conversationTokens b)),
      (''toolDefinitionTokens'', nullable_tokens (cb_toolDefinitionTokens b)),
      (''attachmentTokens'', nullable_tokens (cb_attachmentTokens b)),
      (''repositoryContextTokens'', nullable_tokens (cb_repositoryContextTokens b)),
      (''reservedOutputTokens'', PNum (of_int (cb_reservedOutputTokens b))),
      (''safetyReserveTokens'', PNum (of_int (cb_safetyReserveTokens b))),
      (''effectiveInputBudget'', PNum (of_int (cb_effectiveInputBudget b))),
      (''tokensUsed'', PNum (of_int (cb_tokensUsed b))), (''tokensRemaining'', PNum (of_int (cb_tokensRemaining b))),
      (''utilizationPercent'', PNum (cb_utilizationPercent b)),
      (''warningThresholdPercent'', PNum (cb_warningThresholdPercent b)),
      (''automaticCompactionThresholdPercent'', PNum (cb_automaticCompactionThresholdPercent b)),
      (''measurementSource'', PStr (measurement_name (cb_measurementSource b)))]"

definition usage_json :: "UsageCostSnapshot \<Rightarrow> pval" where
  "usage_json u = PObj
     [(''providerId'', PStr (us_providerId u)), (''modelId'', PStr (us_modelId u)),
      (''inputTokens'', PNum (of_int (us_inputTokens u))), (''outputTokens'', PNum (of_int (us_outputTokens u))),
      (''cachedInputTokens'', nullable_tokens (us_cachedInputTokens u)),
      (''reasoningTokens'', nullable_tokens (us_reasoningTokens u)),
      (''totalTokens'', PNum (of_int (us_totalTokens u))), (''currentTurnCost'', nullable_number (us_currentTurnCost u)),
      (''cumulativeThreadTokens'', PNum (of_int (us_cumulativeThreadTokens u))),
      (''cumulativeThreadCost'', nullable_number (us_cumulativeThreadCost u)), (''currency'', PStr (us_currency u)),
      (''measurementSource'', PStr (us_measurementSource u))]"

section \<open>The budget schema\<close>

text \<open>\<open>NonNegativeTokenSchema\<close>: a safe integer that is not negative.\<close>

definition token_count :: "int \<Rightarrow> bool" where
  "token_count n \<longleftrightarrow> 0 \<le> n \<and> n \<le> 9007199254740991"

definition nullable_token_count :: "int option \<Rightarrow> bool" where
  "nullable_token_count v = (case v of None \<Rightarrow> True | Some n \<Rightarrow> token_count n)"

definition percentage :: "rat \<Rightarrow> bool" where
  "percentage p \<longleftrightarrow> 0 \<le> p \<and> p \<le> 100"

definition short_name :: "string \<Rightarrow> bool" where
  "short_name x \<longleftrightarrow> 1 \<le> length x \<and> length x \<le> 160"

definition parseContextBudget :: "ContextBudgetSnapshot \<Rightarrow> js_error + ContextBudgetSnapshot" where
  "parseContextBudget b =
     (if short_name (cb_providerId b) \<and> short_name (cb_modelId b) \<and>
         list_all token_count [cb_contextWindowLimit b, cb_reservedOutputTokens b, cb_safetyReserveTokens b,
           cb_effectiveInputBudget b, cb_tokensUsed b, cb_tokensRemaining b] \<and>
         list_all nullable_token_count [cb_systemTokens b, cb_conversationTokens b, cb_toolDefinitionTokens b,
           cb_attachmentTokens b, cb_repositoryContextTokens b] \<and>
         list_all percentage [cb_utilizationPercent b, cb_warningThresholdPercent b, cb_automaticCompactionThresholdPercent b] \<and>
         \<not> (cb_tokensRemaining b \<noteq> cb_effectiveInputBudget b - cb_tokensUsed b \<and> cb_tokensUsed b \<le> cb_effectiveInputBudget b) \<and>
         \<not> cb_warningThresholdPercent b > cb_automaticCompactionThresholdPercent b
      then Inr b else Inl ZodError)"

section \<open>Measured budgets\<close>

text \<open>
  \<open>Math.min(100, (tokensUsed / effectiveInputBudget) * 100)\<close>: by zero the quotient is infinite, so that the minimum is
  100, unless it is not a number or negative, which the schema refuses (\<open>None\<close>).
\<close>

definition utilization :: "int \<Rightarrow> int \<Rightarrow> rat option" where
  "utilization used whole =
     (if whole = 0 then (if 0 < used then Some 100 else None)
      else Some (min 100 (of_int used / of_int whole * 100)))"

definition reconcileProviderContextBudget ::
  "ContextBudgetSnapshot option \<Rightarrow> UsageCostSnapshot \<Rightarrow> js_error + ContextBudgetSnapshot option" where
  "reconcileProviderContextBudget budget usage =
     (case budget of
        None \<Rightarrow> Inr None
      | Some b \<Rightarrow>
          let tokensUsed = us_totalTokens usage in
          (case utilization tokensUsed (cb_effectiveInputBudget b) of
             None \<Rightarrow> Inl ZodError
           | Some percent \<Rightarrow>
               andThen (parseContextBudget
                 (b\<lparr>cb_tokensUsed := tokensUsed, cb_tokensRemaining := max 0 (cb_effectiveInputBudget b - tokensUsed),
                    cb_utilizationPercent := percent, cb_measurementSource := Measured_provider\<rparr>)) (\<lambda>b'.
               Inr (Some b'))))"

lemma utilization_bounds:
  assumes "utilization used whole = Some p" and "0 \<le> used" and "0 \<le> whole"
  shows "percentage p" and "p = 100 \<longleftrightarrow> whole \<le> used"
proof -
  have "0 \<le> of_int used / (of_int whole :: rat) * 100" using assms(2,3) by simp
  moreover have "100 \<le> of_int used / of_int whole * (100 :: rat) \<longleftrightarrow> whole \<le> used" if "0 < whole"
    using that by (simp add: field_simps)
  ultimately show "percentage p" and "p = 100 \<longleftrightarrow> whole \<le> used"
    using assms by (auto simp: utilization_def percentage_def min_def split: if_splits)
qed

text \<open>
  A measured budget replaces a valid estimate: it is accepted, except when both the budget and the measured usage
  are zero. It counts what the provider measured, leaves the rest of the budget (nothing when it is overrun), has a
  percentage between 0 and 100 that is 100 exactly when the budget is used up, and keeps the model's limits and thresholds.
\<close>
theorem measured_budget_is_consistent:
  assumes "parseContextBudget b = Inr b" and "token_count (us_totalTokens u)"
  shows "(case reconcileProviderContextBudget (Some b) u of
      Inl e \<Rightarrow> cb_effectiveInputBudget b = 0 \<and> us_totalTokens u = 0
    | Inr None \<Rightarrow> False
    | Inr (Some b') \<Rightarrow>
        cb_tokensUsed b' = us_totalTokens u \<and> cb_tokensRemaining b' = max 0 (cb_effectiveInputBudget b - us_totalTokens u) \<and>
        percentage (cb_utilizationPercent b') \<and>
        (cb_utilizationPercent b' = 100 \<longleftrightarrow> cb_effectiveInputBudget b \<le> us_totalTokens u) \<and>
        parseContextBudget b' = Inr b' \<and>
        b'\<lparr>cb_tokensUsed := cb_tokensUsed b, cb_tokensRemaining := cb_tokensRemaining b,
           cb_utilizationPercent := cb_utilizationPercent b, cb_measurementSource := cb_measurementSource b\<rparr> = b)"
proof (cases "utilization (us_totalTokens u) (cb_effectiveInputBudget b)")
  case None
  then show ?thesis
    using assms(2) by (auto simp: reconcileProviderContextBudget_def utilization_def token_count_def split: if_splits)
next
  case (Some p)
  have whole: "token_count (cb_effectiveInputBudget b)"
    using assms(1) by (auto simp: parseContextBudget_def split: if_splits)
  note p = utilization_bounds [OF Some]
  let ?b' = "b\<lparr>cb_tokensUsed := us_totalTokens u, cb_tokensRemaining := max 0 (cb_effectiveInputBudget b - us_totalTokens u),
       cb_utilizationPercent := p, cb_measurementSource := Measured_provider\<rparr>"
  have "parseContextBudget ?b' = Inr ?b'"
    using assms whole p(1) by (auto simp: parseContextBudget_def token_count_def split: if_splits)
  then show ?thesis
    using Some p assms(2) whole by (simp add: reconcileProviderContextBudget_def token_count_def Let_def)
qed

text \<open>The refused case: the quotient is not a number.\<close>

lemma zero_budget_is_refused:
  "cb_effectiveInputBudget b = 0 \<Longrightarrow> us_totalTokens u = 0 \<Longrightarrow> reconcileProviderContextBudget (Some b) u = Inl ZodError"
  by (simp add: reconcileProviderContextBudget_def utilization_def)

definition sample_budget :: ContextBudgetSnapshot where
  "sample_budget =
     \<lparr>cb_providerId = ''openai'', cb_modelId = ''m'', cb_contextWindowLimit = 1000, cb_systemTokens = None,
      cb_conversationTokens = Some 10, cb_toolDefinitionTokens = None, cb_attachmentTokens = None,
      cb_repositoryContextTokens = None, cb_reservedOutputTokens = 100, cb_safetyReserveTokens = 100,
      cb_effectiveInputBudget = 800, cb_tokensUsed = 10, cb_tokensRemaining = 790, cb_utilizationPercent = 5 / 4,
      cb_warningThresholdPercent = 70, cb_automaticCompactionThresholdPercent = 80, cb_measurementSource = Measured_estimate\<rparr>"

definition sample_usage :: "int \<Rightarrow> UsageCostSnapshot" where
  "sample_usage n =
     \<lparr>us_providerId = ''openai'', us_modelId = ''m'', us_inputTokens = n, us_outputTokens = 0, us_cachedInputTokens = None,
      us_reasoningTokens = None, us_totalTokens = n, us_currentTurnCost = None, us_cumulativeThreadTokens = n,
      us_cumulativeThreadCost = None, us_currency = ''USD'', us_measurementSource = ''provider''\<rparr>"

lemma measured_budget_is_consistent_witness:
  "\<exists>b'. reconcileProviderContextBudget (Some sample_budget) (sample_usage 900) = Inr (Some b') \<and>
     cb_tokensRemaining b' = 0 \<and> cb_utilizationPercent b' = 100"
proof -
  have b: "parseContextBudget sample_budget = Inr sample_budget" and u: "token_count (us_totalTokens (sample_usage 900))"
    by (simp_all add: parseContextBudget_def sample_budget_def sample_usage_def short_name_def token_count_def
        nullable_token_count_def percentage_def)
  from measured_budget_is_consistent [OF b u] show ?thesis
    by (auto simp: sample_budget_def sample_usage_def split: sum.splits option.splits)
qed

end
