(* ===== verification/Runtime_Kernel.thy ===== *)
theory Runtime_Kernel
  imports Artifact_Settlement Context_Budget
begin

text \<open>
  The execution of one turn, packages/runtime-kernel/src/RuntimeKernel.ts: the model and tool loop with its context
  assembly and compaction, the settlement of artifacts, and the \<open>catch\<close> block that fails or interrupts the turn. The
  kernel's maps are keyed by the turn, so the state here is the entry of one turn in each of them. The provider, the
  context assembly, the compaction, the hooks and the abort signal are parameters; every port call may let other
  callers act on the turn meanwhile.
\<close>

section \<open>Context\<close>

record RuntimeContext =
  cx_instructions :: string
  cx_metadata :: JsonRecord
  cx_budgetSnapshot :: "ContextBudgetSnapshot option"
  cx_usage :: "UsageCostSnapshot option"

section \<open>Provider steps, ports and state\<close>

record step_reasoning =
  sg_text :: string
  sg_displaySafe :: bool

datatype ProviderStep =
    Step_complete string string "step_reasoning option" "UsageCostSnapshot option"
  | Step_tool_call string ToolCallItemContent "string option" "step_reasoning option" "UsageCostSnapshot option"

primrec step_usage :: "ProviderStep \<Rightarrow> UsageCostSnapshot option" where
  "step_usage (Step_complete i out r u) = u"
| "step_usage (Step_tool_call i call c r u) = u"

text \<open>
  The calls a provider makes back into the kernel before it answers, each with the flag whether the provider lets a
  failure of it through. The \<open>callBatchId\<close> of a tool call step is not read by the loop.
\<close>

datatype provider_callback =
    Refresh_context
  | Thread_inputs_applied "(string \<times> nat \<times> nat \<times> nat) list"

datatype abort_reason = Reason_error string | Reason_string string | Reason_other

type_synonym 'w provider =
  "RuntimeContext \<Rightarrow> ToolResult list \<Rightarrow> 'w \<Rightarrow> (tool_command list \<times> (provider_callback \<times> bool) list \<times> (js_error + ProviderStep)) \<times> 'w"

record ('st, 'w) kernel_ports =
  kp_tools :: "('st, 'w) tool_ports"
  kp_artifacts :: "('st, 'w) artifact_ports option"
  kp_turnId :: string
  kp_maxToolCalls :: nat
  kp_assemble :: "ToolResult list \<Rightarrow> ('w, RuntimeContext) port"
  kp_compact :: "(RuntimeContext \<Rightarrow> string \<Rightarrow> ('w, RuntimeContext \<times> string \<times> string) port) option"
  kp_generateNext :: "'w provider"
  kp_hasPendingThreadInputs :: "'w \<Rightarrow> bool"
  kp_flushThreadInputs :: "('w, bool) port"
  kp_awaitQuiescence :: "('w, bool) port"
  kp_hooks :: "((string \<Rightarrow> ('w, unit) port) \<times> (string \<Rightarrow> ('w, unit) port)) option"
  kp_pendingInterrupt :: "'w \<Rightarrow> string option"
  kp_abortReason :: "'w \<Rightarrow> abort_reason"
  kp_parseItemId :: "string \<Rightarrow> string option"

record ('st, 'w) kernel_state = "('st, 'w) artifact_state" +
  rk_emission :: "(js_error + TurnArtifactSettlementResult) option"
  rk_activeContext :: "RuntimeContext option"
  rk_compacted :: bool
  rk_automaticCompaction :: bool

type_synonym ('st, 'w, 'm, 'a) kernel_op = "(('st, 'w, 'm) kernel_state_scheme, js_error, 'a) op"

abbreviation kp_lifecycle :: "('st, 'w) kernel_ports \<Rightarrow> 'st lc_options" where
  "kp_lifecycle kp \<equiv> tp_lifecycle (kp_tools kp)"

abbreviation kp_aborted :: "('st, 'w) kernel_ports \<Rightarrow> 'w \<Rightarrow> bool" where
  "kp_aborted kp \<equiv> tp_aborted (kp_tools kp)"

definition kportE :: "('st, 'w) kernel_ports \<Rightarrow> ('w, 'a) port \<Rightarrow> ('st, 'w, 'm, 'a) kernel_op" where
  "kportE kp f = portE (kp_lifecycle kp) f"

definition parseItemId :: "('st, 'w) kernel_ports \<Rightarrow> string \<Rightarrow> js_error + string" where
  "parseItemId kp x = (case kp_parseItemId kp x of None \<Rightarrow> Inl ZodError | Some i \<Rightarrow> Inr i)"

section \<open>Context assembly and compaction\<close>

definition update_budget :: "('st, 'w) kernel_ports \<Rightarrow> ContextBudgetSnapshot option \<Rightarrow> ('st, 'w, 'm, unit) kernel_op" where
  "update_budget kp budget =
     (case budget of None \<Rightarrow> returnE () | Some b \<Rightarrow> lcE (updateContextBudget (kp_lifecycle kp) (budget_json b)))"

definition assembleContext :: "('st, 'w) kernel_ports \<Rightarrow> ToolResult list \<Rightarrow> ('st, 'w, 'm, RuntimeContext) kernel_op" where
  "assembleContext kp toolResults =
     bindE (kportE kp (kp_assemble kp toolResults)) (\<lambda>ctx.
     bindE (update_budget kp (cx_budgetSnapshot ctx)) (\<lambda>_.
     bindE (case cx_usage ctx of None \<Rightarrow> returnE () | Some u \<Rightarrow> lcE (updateUsage (kp_lifecycle kp) (usage_json u))) (\<lambda>_.
     returnE ctx)))"

definition set_context :: "RuntimeContext \<Rightarrow> ('st, 'w, 'm, unit) kernel_op" where
  "set_context ctx = modifyE (\<lambda>s. s\<lparr>rk_activeContext := Some ctx\<rparr>)"

definition active_context :: "RuntimeContext \<Rightarrow> ('st, 'w, 'm, RuntimeContext) kernel_op" where
  "active_context fallback = getE (\<lambda>s. case rk_activeContext s of None \<Rightarrow> fallback | Some c \<Rightarrow> c)"

definition compactPreparedTurn :: "('st, 'w) kernel_ports \<Rightarrow> RuntimeContext \<Rightarrow> string \<Rightarrow> ('st, 'w, 'm, unit) kernel_op" where
  "compactPreparedTurn kp ctx mode =
     (case kp_compact kp of
        None \<Rightarrow> throwE (kernel_error Kc_context_compaction_unsupported ''The active runtime does not support context compaction'')
      | Some compaction \<Rightarrow>
          let suffix = (if mode = ''automatic'' then ''automatic'' else ''manual'') in
          bindE (liftE (parseItemId kp (''itm_'' @ drop 4 (kp_turnId kp) @ ''_context_compaction_'' @ suffix))) (\<lambda>i.
          let base = \<lparr>cc_compactionId = ''cmp_'' @ drop 4 (kp_turnId kp) @ ''_'' @ suffix, cc_itemId = i, cc_mode = mode,
                      cc_phase = ''compacting'', cc_preservedContextReference = None, cc_summary = None, cc_error = None\<rparr> in
          bindE (lcE (requestContextCompaction (kp_lifecycle kp) base)) (\<lambda>_.
          catchE
            (bindE (kportE kp (compaction ctx mode)) (\<lambda>(compacted, reference, summary).
             bindE (set_context compacted) (\<lambda>_.
             bindE (modifyE (\<lambda>s. s\<lparr>rk_compacted := True\<rparr>)) (\<lambda>_.
             bindE (update_budget kp (cx_budgetSnapshot compacted)) (\<lambda>_.
             lcE (settleContextCompaction (kp_lifecycle kp)
               (base\<lparr>cc_phase := ''compacted'', cc_preservedContextReference := Some reference, cc_summary := Some summary\<rparr>)))))))
            (\<lambda>err.
             bindE (lcE (settleContextCompaction (kp_lifecycle kp)
               (base\<lparr>cc_phase := ''failed'',
                 cc_error := Some (if is_Error err then js_message (tp_zodMessage (kp_tools kp)) err
                                   else ''Context compaction failed'')\<rparr>))) (\<lambda>_.
             throwE err)))))"

definition maybeAutomaticallyCompact :: "('st, 'w) kernel_ports \<Rightarrow> RuntimeContext \<Rightarrow> ('st, 'w, 'm, unit) kernel_op" where
  "maybeAutomaticallyCompact kp ctx =
     bindE (getE rk_automaticCompaction) (\<lambda>already.
     case cx_budgetSnapshot ctx of
       None \<Rightarrow> returnE ()
     | Some budget \<Rightarrow>
         if cb_utilizationPercent budget < cb_automaticCompactionThresholdPercent budget \<or> already then returnE ()
         else
           bindE (modifyE (\<lambda>s. s\<lparr>rk_automaticCompaction := True\<rparr>)) (\<lambda>_.
           compactPreparedTurn kp ctx ''automatic''))"

section \<open>The model and tool loop\<close>

definition refreshContext :: "('st, 'w) kernel_ports \<Rightarrow> ToolResult list \<Rightarrow> ('st, 'w, 'm, unit) kernel_op" where
  "refreshContext kp toolResults =
     bindE (assembleContext kp toolResults) (\<lambda>refreshed.
     bindE (set_context refreshed) (\<lambda>_.
     maybeAutomaticallyCompact kp refreshed))"

primrec provider_callback_op ::
  "('st, 'w) kernel_ports \<Rightarrow> ToolResult list \<Rightarrow> provider_callback \<Rightarrow> ('st, 'w, 'm, unit) kernel_op" where
  "provider_callback_op kp toolResults Refresh_context = refreshContext kp toolResults"
| "provider_callback_op kp toolResults (Thread_inputs_applied inputs) =
     forE inputs (\<lambda>(i, acceptedSequence, modelStep, contextRevision).
       lcE (voidE (applyThreadInput (kp_lifecycle kp) i acceptedSequence modelStep contextRevision)))"

definition provider_error :: "('st, 'w) kernel_ports \<Rightarrow> js_error \<Rightarrow> js_error" where
  "provider_error kp err =
     (case err of
        RuntimeKernelError code message cause \<Rightarrow> err
      | _ \<Rightarrow>
          RuntimeKernelError Kc_provider_failed
            (let message = js_message (tp_zodMessage (kp_tools kp)) err in
             if is_Error err \<and> trim message \<noteq> [] then message else ''Model provider request failed'') (Some err))"

definition generateNext ::
  "('st, 'w) kernel_ports \<Rightarrow> RuntimeContext \<Rightarrow> ToolResult list \<Rightarrow> ('st, 'w, 'm, ProviderStep) kernel_op" where
  "generateNext kp ctx toolResults =
     catchE
       (bindE (worldE (kp_generateNext kp ctx toolResults)) (\<lambda>(meanwhile, callbacks, answer).
        bindE (modifyE (tool_run (kp_lifecycle kp) meanwhile)) (\<lambda>_.
        bindE (forE callbacks (\<lambda>(callback, through).
          if through then provider_callback_op kp toolResults callback
          else catchE (provider_callback_op kp toolResults callback) (\<lambda>_. returnE ()))) (\<lambda>_.
        liftE answer))))
       (\<lambda>err. throwE (provider_error kp err))"

definition account_usage :: "('st, 'w) kernel_ports \<Rightarrow> RuntimeContext \<Rightarrow> UsageCostSnapshot option \<Rightarrow> ('st, 'w, 'm, unit) kernel_op" where
  "account_usage kp effectiveContext usage =
     (case usage of
        None \<Rightarrow> returnE ()
      | Some u \<Rightarrow>
          bindE (lcE (updateUsage (kp_lifecycle kp) (usage_json u))) (\<lambda>_.
          bindE (active_context effectiveContext) (\<lambda>latest.
          bindE (liftE (reconcileProviderContextBudget (cx_budgetSnapshot latest) u)) (\<lambda>budget.
          case budget of
            None \<Rightarrow> returnE ()
          | Some b \<Rightarrow>
              bindE (set_context (latest\<lparr>cx_budgetSnapshot := Some b\<rparr>)) (\<lambda>_.
              lcE (updateContextBudget (kp_lifecycle kp) (budget_json b)))))))"

definition append_reasoning :: "('st, 'w) kernel_ports \<Rightarrow> nat \<Rightarrow> step_reasoning option \<Rightarrow> ('st, 'w, 'm, unit) kernel_op" where
  "append_reasoning kp toolCallCount reasoning =
     (case reasoning of
        None \<Rightarrow> returnE ()
      | Some r \<Rightarrow>
          bindE (liftE (parseItemId kp (''itm_'' @ drop 4 (kp_turnId kp) @ ''_reasoning_'' @ string_of_nat toolCallCount))) (\<lambda>i.
          lcE (appendAssistantReasoning (kp_lifecycle kp) i (sg_text r) (sg_displaySafe r))))"

definition append_commentary :: "('st, 'w) kernel_ports \<Rightarrow> nat \<Rightarrow> string option \<Rightarrow> ('st, 'w, 'm, unit) kernel_op" where
  "append_commentary kp toolCallCount commentary =
     (if truthy commentary then
        bindE (liftE (parseItemId kp (''itm_'' @ drop 4 (kp_turnId kp) @ ''_commentary_'' @ string_of_nat toolCallCount))) (\<lambda>i.
        lcE (appendAssistantCommentary (kp_lifecycle kp) i (the commentary)))
      else returnE ())"

record loop_result =
  lr_output :: string
  lr_toolCallCount :: nat
  lr_finalItemId :: string

datatype loop_step = Loop_done loop_result | Loop_again nat "ToolResult list"

text \<open>A \<open>complete\<close> step: reserve the completion, or hand the pending inputs to the provider and go round again.\<close>

definition complete_step ::
  "('st, 'w) kernel_ports \<Rightarrow> nat \<Rightarrow> ToolResult list \<Rightarrow> string \<Rightarrow> string \<Rightarrow> step_reasoning option \<Rightarrow> ('st, 'w, 'm, loop_step) kernel_op" where
  "complete_step kp toolCallCount toolResults i out reasoning =
     bindE (getE (\<lambda>s. kp_hasPendingThreadInputs kp (tx_world s))) (\<lambda>pending.
     bindE (lcE (reserveCompletion pending)) (\<lambda>reserved.
     if \<not> reserved then
       bindE (kportE kp (kp_flushThreadInputs kp)) (\<lambda>flushed.
       if flushed then returnE (Loop_again toolCallCount toolResults)
       else throwE (kernel_error Kc_turn_not_active (''Turn '' @ kp_turnId kp @ '' could not reserve terminal settlement'')))
     else
       bindE (append_reasoning kp toolCallCount reasoning) (\<lambda>_.
       returnE (Loop_done \<lparr>lr_output = out, lr_toolCallCount = toolCallCount, lr_finalItemId = i\<rparr>))))"

definition tool_step ::
  "('st, 'w) kernel_ports \<Rightarrow> nat \<Rightarrow> ToolResult list \<Rightarrow> string \<Rightarrow> ToolCallItemContent \<Rightarrow> string option \<Rightarrow>
     step_reasoning option \<Rightarrow> ('st, 'w, 'm, loop_step) kernel_op" where
  "tool_step kp toolCallCount toolResults i call commentary reasoning =
     (if toolCallCount = kp_maxToolCalls kp
      then throwE (kernel_error Kc_tool_loop_limit_exceeded
             (''Turn '' @ kp_turnId kp @ '' exceeded '' @ string_of_nat (kp_maxToolCalls kp) @ '' tool calls''))
      else
        bindE (append_commentary kp toolCallCount commentary) (\<lambda>_.
        bindE (append_reasoning kp toolCallCount reasoning) (\<lambda>_.
        if kp_artifacts kp = None
        then throwE (kernel_error Kc_tool_policy_denied ''Select a project before using repository tools.'')
        else
          bindE (tool_execute (kp_tools kp) i call) (\<lambda>result.
          returnE (Loop_again (toolCallCount + 1) (toolResults @ [result]))))))"

definition loop_iteration ::
  "('st, 'w) kernel_ports \<Rightarrow> RuntimeContext \<Rightarrow> nat \<Rightarrow> ToolResult list \<Rightarrow> ('st, 'w, 'm, loop_step) kernel_op" where
  "loop_iteration kp initial toolCallCount toolResults =
     bindE (active_context initial) (\<lambda>current.
     bindE (getE rk_compacted) (\<lambda>compacted.
     bindE (if compacted then returnE current else assembleContext kp toolResults) (\<lambda>effective.
     bindE (set_context effective) (\<lambda>_.
     bindE (maybeAutomaticallyCompact kp effective) (\<lambda>_.
     bindE (active_context effective) (\<lambda>ctx.
     bindE (generateNext kp ctx toolResults) (\<lambda>step.
     bindE (account_usage kp effective (step_usage step)) (\<lambda>_.
     case step of
       Step_complete i out reasoning usage \<Rightarrow> complete_step kp toolCallCount toolResults i out reasoning
     | Step_tool_call i call commentary reasoning usage \<Rightarrow>
         tool_step kp toolCallCount toolResults i call commentary reasoning))))))))"

text \<open>
  The loop itself. A provider that completes with pending inputs and flushes them each time keeps the count where it
  is, so the loop may run for ever: \<open>None\<close>.
\<close>

definition loop_limit_error :: "('st, 'w) kernel_ports \<Rightarrow> js_error" where
  "loop_limit_error kp = kernel_error Kc_tool_loop_limit_exceeded (''Turn '' @ kp_turnId kp @ '' exceeded its tool loop limit'')"

partial_function (option) executeLoop ::
  "('st, 'w) kernel_ports \<Rightarrow> RuntimeContext \<Rightarrow> nat \<Rightarrow> ToolResult list \<Rightarrow> ('st, 'w, 'm) kernel_state_scheme \<Rightarrow>
     ((js_error + loop_result) \<times> ('st, 'w, 'm) kernel_state_scheme) option" where
  "executeLoop kp initial toolCallCount toolResults s =
     (if toolCallCount \<le> kp_maxToolCalls kp
      then case loop_iteration kp initial toolCallCount toolResults s of
          (Inl e, s') \<Rightarrow> Some (Inl e, s')
        | (Inr step, s') \<Rightarrow>
            (case step of
               Loop_done result \<Rightarrow> Some (Inr result, s')
             | Loop_again count results \<Rightarrow> executeLoop kp initial count results s')
      else Some (Inl (loop_limit_error kp), s))"

section \<open>Settling the artifacts of the turn\<close>

primrec reason_name :: "ResumeWorkspaceUnavailableReason \<Rightarrow> string" where
  "reason_name Worker_not_quiescent = ''worker_not_quiescent''"
| "reason_name Snapshot_unavailable = ''snapshot_unavailable''"
| "reason_name Snapshot_too_large = ''snapshot_too_large''"

definition resume_ref_json :: "ResumeWorkspaceSnapshotRef \<Rightarrow> pval" where
  "resume_ref_json r =
     PObj [(''schemaVersion'', PNum (of_nat (rs_schemaVersion r))), (''artifactId'', PStr (rs_artifactId r)),
       (''payloadObjectKey'', PStr (rs_payloadObjectKey r)), (''userId'', PStr (rs_userId r)),
       (''workspaceId'', PStr (rs_workspaceId r)), (''threadId'', PStr (rs_threadId r)), (''sourceRunId'', PStr (rs_sourceRunId r)), (''sourceTurnId'', PStr (rs_sourceTurnId r)),
       (''sourceRunAttemptId'', PStr (rs_sourceRunAttemptId r)), (''baseSnapshotId'', PStr (rs_baseSnapshotId r)),
       (''baseCommitSha'', PStr (rs_baseCommitSha r)), (''terminalTreeSha'', PStr (rs_terminalTreeSha r)),
       (''patchSha256'', PStr (rs_patchSha256 r)), (''byteLength'', PNum (of_nat (rs_byteLength r)))]"

definition snapshot_json :: "TurnWorkspaceSnapshot \<Rightarrow> pval" where
  "snapshot_json sn =
     PObj ([(''turnId'', PStr (sn_turnId sn)), (''snapshotKey'', PStr (sn_snapshotKey sn)), (''treeId'', PStr (sn_treeId sn)),
        (''headSha'', PStr (sn_headSha sn)), (''phase'', PStr (if sn_phase sn = Phase_start then ''start'' else ''terminal'')),
        (''capturedAt'', PStr (sn_capturedAt sn))] @
       (case sn_resumeSnapshotRef sn of None \<Rightarrow> [] | Some r \<Rightarrow> [(''resumeSnapshotRef'', resume_ref_json r)]) @
       (case sn_resumeUnavailableReason sn of None \<Rightarrow> [] | Some r \<Rightarrow> [(''resumeUnavailableReason'', PStr (reason_name r))]))"

primrec file_status_name :: "changed_file_status \<Rightarrow> string" where
  "file_status_name Cf_added = ''added''"
| "file_status_name Cf_modified = ''modified''"
| "file_status_name Cf_deleted = ''deleted''"
| "file_status_name Cf_renamed = ''renamed''"
| "file_status_name Cf_copied = ''copied''"
| "file_status_name Cf_unchanged = ''unchanged''"

definition diff_json :: "TurnDiffPayload \<Rightarrow> pval" where
  "diff_json d =
     PObj [(''turnId'', PStr (td_turnId d)), (''startSnapshot'', snapshot_json (td_startSnapshot d)),
       (''terminalSnapshot'', snapshot_json (td_terminalSnapshot d)),
       (''files'', PArr (map (\<lambda>f. PObj [(''path'', PStr (cf_path f)), (''previousPath'', nullable (cf_previousPath f)),
          (''status'', PStr (file_status_name (cf_status f))), (''additions'', nullable_number (map_option of_nat (cf_additions f))),
          (''deletions'', nullable_number (map_option of_nat (cf_deletions f)))]) (td_files d))),
       (''patch'', PStr (td_patch d))]"

text \<open>JavaScript's truthiness of an unknown value.\<close>

fun truthy_value :: "pval option \<Rightarrow> bool" where
  "truthy_value None = False"
| "truthy_value (Some PNull) = False"
| "truthy_value (Some (PBool b)) = b"
| "truthy_value (Some (PNum n)) = (n \<noteq> 0)"
| "truthy_value (Some (PStr x)) = (x \<noteq> [])"
| "truthy_value (Some v) = True"

definition emit_settlement ::
  "('st, 'w) kernel_ports \<Rightarrow> TurnArtifactSettlementResult \<Rightarrow> ('st, 'w, 'm, unit) kernel_op" where
  "emit_settlement kp settlement =
     (let env = kp_lifecycle kp in
      case sr_terminalSnapshot settlement of
        None \<Rightarrow>
          lcE (markWorkspaceSnapshotUnavailable env
            (reason_name (case sr_resumeUnavailableReason settlement of None \<Rightarrow> Snapshot_unavailable | Some r \<Rightarrow> r)))
      | Some terminal \<Rightarrow> block [
          (if truthy_value (sr_resumeWorkspaceArtifact settlement)
           then lcE (createTurnArtifact env (the (sr_resumeWorkspaceArtifact settlement))) else returnE ()),
          lcE (captureWorkspaceSnapshot env (PObj ([(''snapshot'', snapshot_json terminal)] @
            (case sr_terminalSnapshotArtifact settlement of None \<Rightarrow> [] | Some v \<Rightarrow> [(''artifact'', v)])))),
          (case sr_turnDiff settlement of None \<Rightarrow> returnE () | Some d \<Rightarrow> lcE (updateTurnDiff env (diff_json d))),
          (if truthy_value (sr_turnDiffArtifact settlement)
           then lcE (createTurnArtifact env (the (sr_turnDiffArtifact settlement))) else returnE ())])"

definition settleArtifactsNow ::
  "('st, 'w) kernel_ports \<Rightarrow> ('st, 'w) artifact_ports \<Rightarrow> settle_input \<Rightarrow> ('st, 'w, 'm, TurnArtifactSettlementResult) kernel_op" where
  "settleArtifactsNow kp ap inp =
     catchE
       (bindE (settle_artifacts ap inp) (\<lambda>settlement.
        bindE (emit_settlement kp settlement) (\<lambda>_.
        returnE settlement)))
       (\<lambda>err. throwE (RuntimeKernelError Kc_turn_artifact_settlement_failed
                ''Turn artifacts could not be settled before the terminal event'' (Some err)))"

text \<open>\<open>settleArtifacts\<close> keeps the promise of the first settlement, whether it is fulfilled or rejected.\<close>

definition settleArtifacts :: "('st, 'w) kernel_ports \<Rightarrow> settle_input \<Rightarrow> ('st, 'w, 'm, TurnArtifactSettlementResult) kernel_op" where
  "settleArtifacts kp inp =
     (case kp_artifacts kp of
        None \<Rightarrow> returnE no_settlement
      | Some ap \<Rightarrow>
          bindE (getE rk_emission) (\<lambda>existing.
          case existing of
            Some outcome \<Rightarrow> liftE outcome
          | None \<Rightarrow> (\<lambda>s. case settleArtifactsNow kp ap inp s of (r, s') \<Rightarrow> (r, s'\<lparr>rk_emission := Some r\<rparr>))))"

section \<open>Executing and interrupting a prepared turn\<close>

record StartTurnResult =
  st_output :: string
  st_toolCallCount :: nat

definition isTurnCancelled :: "js_error \<Rightarrow> bool" where
  "isTurnCancelled err \<longleftrightarrow> (\<exists>m c. err = RuntimeKernelError Kc_turn_cancelled m c)"

definition isArtifactSettlementError :: "js_error \<Rightarrow> bool" where
  "isArtifactSettlementError err \<longleftrightarrow> (\<exists>m c. err = RuntimeKernelError Kc_turn_artifact_settlement_failed m c)"

definition cancellationReason :: "abort_reason \<Rightarrow> string option" where
  "cancellationReason reason =
     (case reason of
        Reason_error m \<Rightarrow> if trim m \<noteq> [] then Some m else None
      | Reason_string m \<Rightarrow> if trim m \<noteq> [] then Some m else None
      | Reason_other \<Rightarrow> None)"

definition interrupt_reason :: "('st, 'w) kernel_ports \<Rightarrow> js_error \<Rightarrow> 'w \<Rightarrow> string" where
  "interrupt_reason kp err w =
     (case kp_pendingInterrupt kp w of
        Some r \<Rightarrow> r
      | None \<Rightarrow>
          (case cancellationReason (kp_abortReason kp w) of
             Some r \<Rightarrow> r
           | None \<Rightarrow> if is_Error err then js_message (tp_zodMessage (kp_tools kp)) err else ''Run interrupted''))"

definition recoverFailedTurn :: "('st, 'w) kernel_ports \<Rightarrow> js_error \<Rightarrow> ('st, 'w, 'm, unit) kernel_op" where
  "recoverFailedTurn kp err =
     catchE (lcE (fail (kp_lifecycle kp) (toProtocolError (tp_zodMessage (kp_tools kp)) err)))
       (\<lambda>settlementError. throwE
          (case settlementError of
             RuntimeLifecycleSettlementError st c \<Rightarrow> settlementError
           | _ \<Rightarrow> RuntimeLifecycleSettlementError Tt_failed settlementError))"

definition runHooks :: "('st, 'w) kernel_ports \<Rightarrow> string \<times> string \<Rightarrow> ('st, 'w, 'm, unit) kernel_op" where
  "runHooks kp triggers =
     (case (kp_hooks kp, kp_artifacts kp) of
        (Some (runSessionStart, runUserPromptSubmit), Some _) \<Rightarrow> block [
          kportE kp (runSessionStart (fst triggers)), kportE kp (runUserPromptSubmit (snd triggers))]
      | _ \<Rightarrow> returnE ())"

text \<open>The \<open>try\<close> block of \<open>executePreparedTurn\<close>, before and after the loop.\<close>

definition prepare_context :: "('st, 'w) kernel_ports \<Rightarrow> string \<times> string \<Rightarrow> ('st, 'w, 'm, RuntimeContext) kernel_op" where
  "prepare_context kp triggers =
     bindE (runHooks kp triggers) (\<lambda>_.
     bindE (assembleContext kp []) (\<lambda>ctx.
     bindE (set_context ctx) (\<lambda>_.
     returnE ctx)))"

abbreviation plain_settlement :: settle_input where
  "plain_settlement \<equiv> \<lparr>si_interrupted = False, si_preserveWorkspaceProgress = False, si_resumeUnavailableReason = None\<rparr>"

definition finish_turn :: "('st, 'w) kernel_ports \<Rightarrow> loop_result \<Rightarrow> ('st, 'w, 'm, StartTurnResult) kernel_op" where
  "finish_turn kp result =
     bindE (getE (\<lambda>s. kp_aborted kp (tx_world s) \<or> isTerminal (tx_lc s))) (\<lambda>interrupted.
     if interrupted
     then throwE (LifecycleTransitionError Sub_turn ''interrupted'' ''completed'' ''turn was interrupted before successful settlement'')
     else
       bindE (settleArtifacts kp plain_settlement) (\<lambda>_.
       bindE (lcE (complete (kp_lifecycle kp) (lr_output result) (lr_finalItemId result))) (\<lambda>_.
       returnE \<lparr>st_output = lr_output result, st_toolCallCount = lr_toolCallCount result\<rparr>)))"

text \<open>The \<open>catch\<close> block: settle the artifacts, then interrupt or fail the turn, then throw the error on.\<close>

definition settle_failed_artifacts :: "('st, 'w) kernel_ports \<Rightarrow> js_error \<Rightarrow> ('st, 'w, 'm, unit) kernel_op" where
  "settle_failed_artifacts kp err =
     (if isArtifactSettlementError err then returnE ()
      else
        bindE (getE (\<lambda>s. isTurnCancelled err \<or> kp_aborted kp (tx_world s))) (\<lambda>interrupted.
        bindE (if interrupted then kportE kp (kp_awaitQuiescence kp) else returnE False) (\<lambda>resumeQuiescent.
        bindE (settleArtifacts kp
          \<lparr>si_interrupted = True, si_preserveWorkspaceProgress = resumeQuiescent,
           si_resumeUnavailableReason = (if interrupted \<and> \<not> resumeQuiescent then Some Worker_not_quiescent else None)\<rparr>) (\<lambda>_.
        returnE ()))))"

definition turn_failed :: "('st, 'w) kernel_ports \<Rightarrow> js_error \<Rightarrow> ('st, 'w, 'm, StartTurnResult) kernel_op" where
  "turn_failed kp err =
     bindE (getE (\<lambda>s. isTerminal (tx_lc s))) (\<lambda>terminal.
     if terminal then throwE err
     else
       bindE (settle_failed_artifacts kp err) (\<lambda>_.
       bindE (getE (\<lambda>s. (isTurnCancelled err \<or> kp_aborted kp (tx_world s), interrupt_reason kp err (tx_world s)))) (\<lambda>(interrupted, reason).
       bindE (if interrupted then lcE (interrupt (kp_lifecycle kp) reason) else recoverFailedTurn kp err) (\<lambda>_.
       throwE err))))"

definition forget_turn :: "('st, 'w, 'm) kernel_state_scheme \<Rightarrow> ('st, 'w, 'm) kernel_state_scheme" where
  "forget_turn s = s\<lparr>rk_activeContext := None, rk_compacted := False, rk_automaticCompaction := False\<rparr>"

definition executePreparedTurn ::
  "('st, 'w) kernel_ports \<Rightarrow> string \<times> string \<Rightarrow> ('st, 'w, 'm) kernel_state_scheme \<Rightarrow>
     ((js_error + StartTurnResult) \<times> ('st, 'w, 'm) kernel_state_scheme) option" where
  "executePreparedTurn kp triggers s =
     map_option (\<lambda>(r, s'). (r, forget_turn s'))
       (if isTerminal (tx_lc s) then Some (Inr \<lparr>st_output = [], st_toolCallCount = 0\<rparr>, s)
        else case prepare_context kp triggers s of
            (Inl e, s1) \<Rightarrow> Some (turn_failed kp e s1)
          | (Inr ctx, s1) \<Rightarrow>
              (case executeLoop kp ctx 0 [] s1 of
                 None \<Rightarrow> None
               | Some (Inl e, s2) \<Rightarrow> Some (turn_failed kp e s2)
               | Some (Inr result, s2) \<Rightarrow> Some (catchE (finish_turn kp result) (turn_failed kp) s2)))"

definition interruptPreparedTurn :: "('st, 'w) kernel_ports \<Rightarrow> string \<Rightarrow> bool \<Rightarrow> ('st, 'w, 'm, unit) kernel_op" where
  "interruptPreparedTurn kp reason resumeWorkspaceQuiescent =
     bindE (settleArtifacts kp
       \<lparr>si_interrupted = True, si_preserveWorkspaceProgress = resumeWorkspaceQuiescent,
        si_resumeUnavailableReason = (if resumeWorkspaceQuiescent then None else Some Worker_not_quiescent)\<rparr>) (\<lambda>_.
     lcE (interrupt (kp_lifecycle kp) reason))"

section \<open>An executed turn is settled\<close>

text \<open>A lifecycle operation that settles the turn ends in a terminal state when it returns.\<close>

lemma settleTurn_ends:
  "wpE (settleTurn env outcome)
     (\<lambda>_ s'. isTerminal s' \<and> (\<not> isTerminal s \<longrightarrow> lc_status s' = turn_of_terminal (outcome_status outcome))) (\<lambda>_ _. True) s"
proof -
  have next_st: "n = t" if "transitionTurnStatus c t = Inr n" for c t n
    using that by (auto simp: transition_defs split: if_splits)
  show ?thesis
  proof (cases "isTerminal s")
    case False
    have "isTerminalTurnStatus (turn_of_terminal st)" for st by (cases st) simp_all
    then show ?thesis
      unfolding settleTurn_def wpE_bind [of "getE _"] wpE_get id_apply if_not_P [OF False] Let_def
      by (intro wpE_bind_lift [of "transitionTurnStatus _ _"] wpE_bind_returns)
        (auto simp: wpE_modify isTerminal_def dest!: next_st)
  qed (simp add: settleTurn_def wp_simps)
qed

lemma settleItem_needs_open_turn: "wpE (settleItem env i st p) (\<lambda>_ s'. \<not> isTerminal s') (\<lambda>_ _. True) s"
proof (cases "isTerminal s")
  case True
  then obtain e where "settleItem env i st p s = (Inl e, s)" using stuck_settleItem [of env i st p] by (auto simp: stuck_def)
  then show ?thesis by (simp add: wpE_def)
next
  case False
  have ins: "insensitive (\<lambda>s. \<not> isTerminal s)" by (simp add: insensitive_def isTerminal_def)
  have "keeps (\<lambda>s. \<not> isTerminal s) (settleItem env i st p)"
    unfolding settleItem_def
    by (intro keeps_rules keeps_emit ins keeps_modify) (simp_all add: set_item_def isTerminal_def)
  with False have "wpE (settleItem env i st p) (\<lambda>_ s'. \<not> isTerminal s') (\<lambda>_ s'. \<not> isTerminal s') s"
    by (simp add: keeps_wp)
  then show ?thesis by (rule wpE_mono) simp_all
qed

lemma settling_operations:
  "wpE (interrupt env reason) (\<lambda>_. isTerminal) (\<lambda>_ _. True) l"
  "wpE (fail env failure) (\<lambda>_. isTerminal) (\<lambda>_ _. True) l"
  "wpE (complete env out i) (\<lambda>_ l'. lc_status l' = Ts_completed) (\<lambda>_ _. True) l"
proof -
  have settle: "wpE (bindE (settleTurn env outcome) (\<lambda>_. returnE ())) (\<lambda>_. isTerminal) (\<lambda>_ _. True) l" for outcome l
    unfolding wpE_bind wpE_return by (rule wpE_mono [OF settleTurn_ends]) simp_all
  show "wpE (interrupt env reason) (\<lambda>_. isTerminal) (\<lambda>_ _. True) l"
    and "wpE (fail env failure) (\<lambda>_. isTerminal) (\<lambda>_ _. True) l"
    unfolding interrupt_def fail_def block.simps
    by (rule wpE_bind_returns, rule wpE_bind_returns, rule settle)+
  have "wpE (bindE (settleItem env i st p) (\<lambda>_. bindE (settleTurn env Outcome_completed) (\<lambda>_. returnE ())))
      (\<lambda>_ l'. lc_status l' = Ts_completed) (\<lambda>_ _. True) l" for st p l
    unfolding wpE_bind wpE_return
    by (rule wpE_mono [OF settleItem_needs_open_turn], rule wpE_mono [OF settleTurn_ends]) simp_all
  then show "wpE (complete env out i) (\<lambda>_ l'. lc_status l' = Ts_completed) (\<lambda>_ _. True) l"
    unfolding complete_def block.simps by (rule wpE_bind_returns [OF wpE_bind_returns])
qed

text \<open>
  The ways a turn can be left open: its artifact settlement was rejected, its failure could not be recorded, it could
  not be interrupted, or the worker could not be asked whether it is quiescent.
\<close>

definition left_open :: "('st, 'w) kernel_ports \<Rightarrow> js_error \<Rightarrow> ('st, 'w, 'm) kernel_state_scheme \<Rightarrow> bool" where
  "left_open kp e s \<longleftrightarrow>
     rk_emission s = Some (Inl e) \<or>
     (\<exists>st c. e = RuntimeLifecycleSettlementError st c) \<or>
     (\<exists>reason l. interrupt (kp_lifecycle kp) reason l = (Inl e, tx_lc s)) \<or>
     (\<exists>w. snd (fst (kp_awaitQuiescence kp w)) = Inl e)"

lemma wpE_portE:
  "wpE (portE env f) Q E s =
     (case f (tx_world s) of ((meanwhile, answer), w) \<Rightarrow>
        wpE (liftE answer) Q E (tool_run env meanwhile (s\<lparr>tx_world := w\<rparr>)))"
  by (simp add: portE_def wp_simps split: prod.splits)

lemma settleArtifacts_keeps_failure:
  "wpE (settleArtifacts kp inp) (\<lambda>_ _. True) (\<lambda>e s'. rk_emission s' = Some (Inl e)) s"
  unfolding settleArtifacts_def
  by (auto simp: wpE_def op_defs split: option.splits sum.splits prod.splits)

lemma settle_failed_artifacts_end: "wpE (settle_failed_artifacts kp err) (\<lambda>_ _. True) (left_open kp) s"
proof -
  have quiescence: "wpE (kportE kp (kp_awaitQuiescence kp)) (\<lambda>_ _. True) (left_open kp) s'" for s' :: "('a, 'b, 'c) kernel_state_scheme"
    by (auto simp: kportE_def wpE_portE wpE_lift left_open_def split: prod.split sum.split) (metis fst_conv snd_conv)
  have settle: "wpE (bindE (settleArtifacts kp inp) (\<lambda>_. returnE ())) (\<lambda>_ _. True) (left_open kp) s'"
    for inp and s' :: "('a, 'b, 'c) kernel_state_scheme"
    unfolding wpE_bind wpE_return by (rule wpE_mono [OF settleArtifacts_keeps_failure]) (simp_all add: left_open_def)
  show ?thesis
    unfolding settle_failed_artifacts_def
    by (auto simp: wpE_return wpE_bind [of "getE _"] wpE_bind [of "if _ then _ else _"] wpE_get wpE_if settle
        intro!: wpE_mono [OF quiescence])
qed

lemma turn_failed_ends:
  "wpE (turn_failed kp err) (\<lambda>_ _. False) (\<lambda>e s'. isTerminal (tx_lc s') \<or> left_open kp e s') s"
proof -
  have interrupted: "wpE (lcE (interrupt (kp_lifecycle kp) reason)) (\<lambda>_ s'. isTerminal (tx_lc s')) (left_open kp) s'"
    for reason and s' :: "('a, 'b, 'c) kernel_state_scheme"
  proof -
    obtain r l where run: "interrupt (kp_lifecycle kp) reason (tx_lc s') = (r, l)" by fastforce
    with settling_operations(1) [of "kp_lifecycle kp" reason "tx_lc s'"] show ?thesis
      by (cases r) (auto simp: wpE_def lcE_def left_open_def)
  qed
  have failed: "wpE (recoverFailedTurn kp err) (\<lambda>_ s'. isTerminal (tx_lc s')) (left_open kp) s'" for s' :: "('a, 'b, 'c) kernel_state_scheme"
    unfolding recoverFailedTurn_def wpE_catch wpE_lcE
    by (rule wpE_mono [OF settling_operations(2)]) (auto simp: wpE_throw left_open_def split: js_error.splits)
  show ?thesis
    unfolding turn_failed_def wpE_bind [of "getE _"] wpE_get
    by (auto simp: wpE_throw wpE_bind wpE_if wpE_get intro!: wpE_mono [OF settle_failed_artifacts_end]
        wpE_mono [OF interrupted] wpE_mono [OF failed])
qed

lemma forget_turn_fields [simp]:
  "tx_lc (forget_turn s) = tx_lc s" "rk_emission (forget_turn s) = rk_emission s"
  by (simp_all add: forget_turn_def)

lemma left_open_forget [simp]: "left_open kp e (forget_turn s) = left_open kp e s"
  by (simp add: left_open_def)

lemma finish_turn_ends:
  "wpE (catchE (finish_turn kp result) (turn_failed kp))
     (\<lambda>_ s'. lc_status (tx_lc s') = Ts_completed) (\<lambda>e s'. isTerminal (tx_lc s') \<or> left_open kp e s') s"
proof -
  let ?Q = "\<lambda>_ s'. lc_status (tx_lc s') = Ts_completed" and ?E = "\<lambda>e s'. isTerminal (tx_lc s') \<or> left_open kp e s'"
  have failed: "wpE (turn_failed kp err) ?Q ?E s'" for err and s' :: "('a, 'b, 'c) kernel_state_scheme"
    by (rule wpE_mono [OF turn_failed_ends]) simp_all
  have completed: "wpE (bindE (lcE (complete env out i)) (\<lambda>_. returnE res)) ?Q (\<lambda>e. wpE (turn_failed kp e) ?Q ?E) s'"
    for env out i res and s' :: "('a, 'b, 'c) kernel_state_scheme"
    unfolding wpE_bind wpE_return wpE_lcE by (rule wpE_mono [OF settling_operations(3)]) (simp_all add: failed)
  show ?thesis
    unfolding finish_turn_def wpE_catch wpE_bind [of "getE _"] wpE_bind [of "settleArtifacts _ _"] wpE_get
    by (simp add: wpE_bind [of "settleArtifacts _ _"] wpE_throw failed completed wpE_free)
qed

definition settled_outcome ::
  "('st, 'w) kernel_ports \<Rightarrow> (js_error + StartTurnResult) \<times> ('st, 'w, 'm) kernel_state_scheme \<Rightarrow> bool" where
  "settled_outcome kp = (\<lambda>(r, s'). case r of
      Inr res \<Rightarrow> lc_status (tx_lc s') = Ts_completed
    | Inl e \<Rightarrow> isTerminal (tx_lc s') \<or> left_open kp e s')"

lemma settled_outcomes:
  "settled_outcome kp (turn_failed kp e s)" "settled_outcome kp (catchE (finish_turn kp result) (turn_failed kp) s)"
  using turn_failed_ends [of kp e s] finish_turn_ends [of kp result s]
  by (auto simp: settled_outcome_def wpE_def split: prod.splits sum.splits)

lemma execution_settles:
  assumes "executePreparedTurn kp triggers s = Some (r, s')" and "\<not> isTerminal (tx_lc s)"
  shows "settled_outcome kp (r, s')"
proof -
  have settled: "pred_option (settled_outcome kp)
      (case prepare_context kp triggers s of
         (Inl e, s1) \<Rightarrow> Some (turn_failed kp e s1)
       | (Inr ctx, s1) \<Rightarrow>
           (case executeLoop kp ctx 0 [] s1 of
              None \<Rightarrow> None
            | Some (Inl e, s2) \<Rightarrow> Some (turn_failed kp e s2)
            | Some (Inr result, s2) \<Rightarrow> Some (catchE (finish_turn kp result) (turn_failed kp) s2)))"
    by (simp add: settled_outcomes split: prod.split sum.split option.split)
  show ?thesis
    using assms settled by (auto simp: executePreparedTurn_def settled_outcome_def split: sum.splits)
qed

text \<open>
  C2. Executing a prepared turn settles it. When the execution answers, the turn is completed; when it throws, the turn
  is terminal, unless one of the steps that settle it failed itself: the artifact settlement was rejected, recording
  the failure or the interruption failed, or the worker could not be asked for quiescence. Nothing the provider, the
  tools, the hooks, the context assembly or the compaction do, and nothing other callers do meanwhile, leaves a turn open.
\<close>
theorem executed_turn_is_settled:
  assumes "executePreparedTurn kp triggers s = Some (r, s')" and "\<not> isTerminal (tx_lc s)"
  shows "case r of
      Inr res \<Rightarrow> lc_status (tx_lc s') = Ts_completed
    | Inl e \<Rightarrow> isTerminal (tx_lc s') \<or> left_open kp e s'"
  using execution_settles [OF assms] by (simp add: settled_outcome_def)

section \<open>A rejected settlement stays rejected\<close>

text \<open>
  The kernel keeps the promise of a turn's first artifact settlement even when it is rejected: once it is, every
  later interrupt of the prepared turn throws that same error and does nothing, so the turn stays as it is. The
  artifact coordinator itself forgets a failed settlement in order to try again; the kernel never lets it.
\<close>
theorem rejected_settlement_blocks_interrupts:
  assumes "settleArtifacts kp inp s = (Inl e, s1)"
  shows "interruptPreparedTurn kp reason quiescent s1 = (Inl e, s1) \<and>
    fold (\<lambda>(r, q) s. snd (interruptPreparedTurn kp r q s)) requests s1 = s1"
proof -
  have "kp_artifacts kp \<noteq> None" using assms by (auto simp: settleArtifacts_def returnE_def split: option.splits)
  moreover have "rk_emission s1 = Some (Inl e)"
    using settleArtifacts_keeps_failure [of kp inp s] assms by (simp add: wpE_def)
  ultimately have blocked: "interruptPreparedTurn kp r q s1 = (Inl e, s1)" for r q
    by (auto simp: interruptPreparedTurn_def settleArtifacts_def op_defs)
  moreover have "fold (\<lambda>(r, q) s. snd (interruptPreparedTurn kp r q s)) requests s1 = s1"
    by (induction requests) (auto simp: blocked)
  ultimately show ?thesis by blast
qed

section \<open>The loop ends\<close>

text \<open>Each round either ends the loop or executes one more tool, unless the provider flushes pending inputs.\<close>

lemma portE_not: "(\<And>w. snd (fst (f w)) \<noteq> Inr x) \<Longrightarrow> wpE (portE env f) (\<lambda>y _. y \<noteq> x) (\<lambda>_ _. True) s"
  by (auto simp: wpE_portE wpE_lift split: prod.split sum.split) (metis fst_conv snd_conv)

lemma complete_step_ends:
  fixes kp :: "('st, 'w) kernel_ports" and s :: "('st, 'w, 'm) kernel_state_scheme"
  assumes "\<And>w. snd (fst (kp_flushThreadInputs kp w)) \<noteq> Inr True"
  shows "wpE (complete_step kp n results i out reasoning)
    (\<lambda>step _. \<exists>res. step = Loop_done res \<and> lr_toolCallCount res = n) (\<lambda>_ _. True) s"
  unfolding complete_step_def
proof (rule wpE_bind_returns, rule wpE_bind_returns)
  fix reserved and s' :: "('st, 'w, 'm) kernel_state_scheme"
  have "wpE (kportE kp (kp_flushThreadInputs kp)) (\<lambda>flushed _. flushed \<noteq> True) (\<lambda>_ _. True) s'"
    unfolding kportE_def by (rule portE_not [OF assms])
  then have flush: "wpE (kportE kp (kp_flushThreadInputs kp)) (\<lambda>flushed. wpE
        (if flushed then returnE (Loop_again n results)
         else throwE (kernel_error Kc_turn_not_active (''Turn '' @ kp_turnId kp @ '' could not reserve terminal settlement'')))
        (\<lambda>step _. \<exists>res. step = Loop_done res \<and> lr_toolCallCount res = n) (\<lambda>_ _. True)) (\<lambda>_ _. True) s'"
    by (rule wpE_mono) (simp_all add: wpE_throw)
  show "wpE (if \<not> reserved
      then bindE (kportE kp (kp_flushThreadInputs kp)) (\<lambda>flushed.
             if flushed then returnE (Loop_again n results)
             else throwE (kernel_error Kc_turn_not_active (''Turn '' @ kp_turnId kp @ '' could not reserve terminal settlement'')))
      else bindE (append_reasoning kp n reasoning) (\<lambda>_. returnE (Loop_done \<lparr>lr_output = out, lr_toolCallCount = n, lr_finalItemId = i\<rparr>)))
      (\<lambda>step _. \<exists>res. step = Loop_done res \<and> lr_toolCallCount res = n) (\<lambda>_ _. True) s'"
    by (cases reserved) (simp_all add: wpE_bind flush wpE_return wpE_free)
qed

lemma tool_step_counts:
  "wpE (tool_step kp n results i call commentary reasoning)
     (\<lambda>step _. n \<noteq> kp_maxToolCalls kp \<and> (\<exists>more'. step = Loop_again (n + 1) more')) (\<lambda>_ _. True) s"
  unfolding tool_step_def
  by (cases "n = kp_maxToolCalls kp") (simp_all add: wpE_throw wpE_bind wpE_if wpE_return wpE_free)

lemma loop_iteration_counts:
  assumes "\<And>w. snd (fst (kp_flushThreadInputs kp w)) \<noteq> Inr True"
  shows "wpE (loop_iteration kp initial n results)
    (\<lambda>step _. (\<exists>res. step = Loop_done res \<and> lr_toolCallCount res = n) \<or>
       n \<noteq> kp_maxToolCalls kp \<and> (\<exists>more'. step = Loop_again (n + 1) more')) (\<lambda>_ _. True) s"
  unfolding loop_iteration_def
  by (intro wpE_bind_returns)
    (auto split: ProviderStep.split intro: wpE_mono [OF complete_step_ends [OF assms]] wpE_mono [OF tool_step_counts])

lemma executeLoop_ends:
  assumes "\<And>w. snd (fst (kp_flushThreadInputs kp w)) \<noteq> Inr True" and "n \<le> kp_maxToolCalls kp"
  shows "\<exists>r s'. executeLoop kp initial n results s = Some (r, s') \<and>
    (\<forall>res. r = Inr res \<longrightarrow> lr_toolCallCount res \<le> kp_maxToolCalls kp)"
  using assms(2)
proof (induction "kp_maxToolCalls kp - n" arbitrary: n results s)
  case 0
  then show ?case
    using loop_iteration_counts [OF assms(1), of initial n results s]
    by (subst executeLoop.simps) (auto simp: wpE_def split: prod.split sum.split loop_step.split)
next
  case (Suc k)
  show ?case
    using loop_iteration_counts [OF assms(1), of initial n results s] Suc
    by (subst executeLoop.simps) (auto simp: wpE_def split: prod.split sum.split loop_step.split)
qed

lemma turn_failed_throws: "wpE (turn_failed kp e) (\<lambda>_ _. False) (\<lambda>_ _. True) s"
  by (rule wpE_mono [OF turn_failed_ends]) simp_all

lemma finish_turn_counts:
  fixes kp :: "('st, 'w) kernel_ports" and s :: "('st, 'w, 'm) kernel_state_scheme"
  shows "wpE (catchE (finish_turn kp result) (turn_failed kp))
    (\<lambda>res _. st_toolCallCount res = lr_toolCallCount result) (\<lambda>_ _. True) s"
proof -
  have failed: "wpE (turn_failed kp e) (\<lambda>res _. st_toolCallCount res = lr_toolCallCount result) (\<lambda>_ _. True) s'"
    for e and s' :: "('st, 'w, 'm) kernel_state_scheme"
    by (rule wpE_mono [OF turn_failed_throws]) simp_all
  show ?thesis
    unfolding finish_turn_def wpE_catch
    by (simp add: wpE_bind [of "getE _"] wpE_get wpE_bind wpE_throw failed wpE_return wpE_free)
qed

lemma execution_returns:
  assumes "\<And>w. snd (fst (kp_flushThreadInputs kp w)) \<noteq> Inr True"
  shows "\<exists>r s'. executePreparedTurn kp triggers s = Some (r, s') \<and>
    (\<forall>res. r = Inr res \<longrightarrow> st_toolCallCount res \<le> kp_maxToolCalls kp)"
proof (cases "isTerminal (tx_lc s)")
  case False
  have failed: "\<exists>r s'. (case turn_failed kp e s1 of (r, s') \<Rightarrow> (r, forget_turn s')) = (r, s') \<and>
      (\<forall>res. r = Inr res \<longrightarrow> st_toolCallCount res \<le> kp_maxToolCalls kp)" for e s1
    using turn_failed_throws [of kp e s1] by (auto simp: wpE_def split: prod.splits sum.splits)
  have finished: "\<exists>r s'. (case catchE (finish_turn kp result) (turn_failed kp) s1 of (r, s') \<Rightarrow> (r, forget_turn s')) = (r, s') \<and>
      (\<forall>res. r = Inr res \<longrightarrow> st_toolCallCount res \<le> kp_maxToolCalls kp)" if "lr_toolCallCount result \<le> kp_maxToolCalls kp"
    for result s1
    using finish_turn_counts [of kp result s1] that by (auto simp: wpE_def split: prod.splits sum.splits)
  obtain r1 s1 where prep: "prepare_context kp triggers s = (r1, s1)" by fastforce
  show ?thesis
  proof (cases r1)
    case (Inl e)
    then show ?thesis using prep False failed [of e s1] by (simp add: executePreparedTurn_def)
  next
    case (Inr ctx)
    obtain r2 s2 where loop: "executeLoop kp ctx 0 [] s1 = Some (r2, s2)"
      and count: "\<And>res. r2 = Inr res \<Longrightarrow> lr_toolCallCount res \<le> kp_maxToolCalls kp"
      using executeLoop_ends [OF assms, of 0 ctx "[]" s1] by auto
    then show ?thesis
      using Inr prep False failed [of _ s2] finished [OF count, of _ s2] by (cases r2) (simp_all add: executePreparedTurn_def)
  qed
qed (simp add: executePreparedTurn_def)

section \<open>A turn on sample ports\<close>

text \<open>A provider that answers at once, on a repository with the given diff; the diff is asked for with progress kept.\<close>

definition sample_context :: RuntimeContext where
  "sample_context = \<lparr>cx_instructions = [], cx_metadata = [], cx_budgetSnapshot = None, cx_usage = None\<rparr>"

definition sample_kernel :: "RuntimeGitDiffFile list \<Rightarrow> (unit, unit) kernel_ports" where
  "sample_kernel files =
     \<lparr>kp_tools = sample_ports Dec_approved, kp_artifacts = Some (sample_artifacts files), kp_turnId = ''trn_1'',
      kp_maxToolCalls = 32, kp_assemble = \<lambda>results w. (([], Inr sample_context), w), kp_compact = None,
      kp_generateNext = \<lambda>ctx results w. (([], [], Inr (Step_complete ''itm_9'' ''ok'' None None)), w),
      kp_hasPendingThreadInputs = \<lambda>w. False, kp_flushThreadInputs = \<lambda>w. (([], Inr False), w),
      kp_awaitQuiescence = \<lambda>w. (([], Inr True), w), kp_hooks = None, kp_pendingInterrupt = \<lambda>w. None,
      kp_abortReason = \<lambda>w. Reason_other, kp_parseItemId = Some\<rparr>"

definition prepared_state :: "(unit, unit) kernel_state" where
  "prepared_state =
     \<lparr>tx_lc = tx_lc running_state, tx_pending = [], tx_world = (), ta_startSnapshot = Some sample_snapshot,
      ta_startSnapshotArtifact = None, ta_settlement = None, rk_emission = None, rk_activeContext = None,
      rk_compacted = False, rk_automaticCompaction = False\<rparr>"

lemmas kernel_eval =
  executePreparedTurn_def prepare_context_def runHooks_def assembleContext_def set_context_def active_context_def
  update_budget_def kportE_def portE_def worldE_def tool_run_def sample_kernel_def sample_context_def sample_ports_def
  prepared_state_def running_state_def lc_init_def isTerminal_def

lemmas loop_eval =
  loop_iteration_def maybeAutomaticallyCompact_def generateNext_def account_usage_def complete_step_def
  reserveCompletion_def append_reasoning_def

lemmas finish_eval =
  finish_turn_def settleArtifacts_def settleArtifactsNow_def emit_settlement_def settle_artifacts_def settleNow_def
  attempt_def capture_def captureResumeSnapshot_def capture_failure_reason_def no_settlement_def sample_artifacts_def
  captureWorkspaceSnapshot_def updateTurnDiff_def createTurnArtifact_def complete_def startItem_def settleItem_def
  settleTurn_def appendTerminalBatch_def splitLifecycleOutput_def item_status_def set_item_def validateTerminalSettlement_def
  gitWorkspace_def snapshot_json_def diff_json_def JsonRecordSchema_parse_def sample_snapshot_def chunks_from.simps
  MAX_LIFECYCLE_OUTPUT_LENGTH_def assertAllSettled_def isTerminalItemStatus_def

lemma executed_turn_is_settled_witness:
  "\<exists>res s'. executePreparedTurn (sample_kernel []) (''evt_1'', ''evt_2'') prepared_state = Some (Inr res, s') \<and>
     lc_status (tx_lc s') = Ts_completed"
proof -
  have "\<exists>res s'. executePreparedTurn (sample_kernel []) (''evt_1'', ''evt_2'') prepared_state = Some (Inr res, s')"
    by (simp add: kernel_eval loop_eval finish_eval open_eval executeLoop.simps [of _ _ 0 "[]"])
  then obtain res s' where run: "executePreparedTurn (sample_kernel []) (''evt_1'', ''evt_2'') prepared_state = Some (Inr res, s')"
    by blast
  have "\<not> isTerminal (tx_lc prepared_state)" by (simp add: kernel_eval)
  from executed_turn_is_settled [OF run this] run show ?thesis by simp
qed

text \<open>An unmerged file in the diff rejects the settlement of an interrupted turn, and the turn cannot be interrupted.\<close>

lemma rejected_settlement_blocks_interrupts_witness:
  "\<exists>e s1. settleArtifacts (sample_kernel [unmerged_file]) \<lparr>si_interrupted = True, si_preserveWorkspaceProgress = True,
      si_resumeUnavailableReason = None\<rparr> prepared_state = (Inl e, s1) \<and>
    lc_status (tx_lc s1) = Ts_in_progress \<and>
    lc_status (tx_lc (snd (interruptPreparedTurn (sample_kernel [unmerged_file]) ''stop'' False s1))) = Ts_in_progress"
proof -
  let ?inp = "\<lparr>si_interrupted = True, si_preserveWorkspaceProgress = True, si_resumeUnavailableReason = None\<rparr>"
  have "\<exists>e s1. settleArtifacts (sample_kernel [unmerged_file]) ?inp prepared_state = (Inl e, s1) \<and>
      lc_status (tx_lc s1) = Ts_in_progress"
    by (simp add: kernel_eval finish_eval open_eval unmerged_file_def toArtifactChangedFile_def)
  then obtain e s1 where run: "settleArtifacts (sample_kernel [unmerged_file]) ?inp prepared_state = (Inl e, s1)"
    and "lc_status (tx_lc s1) = Ts_in_progress" by blast
  with rejected_settlement_blocks_interrupts [OF run, of "''stop''" False "[]"] show ?thesis by simp
qed

end
