(* ===== verification/Kernel_Invariants.thy ===== *)
theory Kernel_Invariants
  imports Runtime_Kernel
begin

text \<open>
  What the execution of a whole turn keeps: any predicate that the lifecycle operations, settlements and waits keep and
  that does not look at the kernel's own fields is kept by the loop, by the artifact settlement and by the settling
  of a failed turn, and by whatever other callers do meanwhile. In particular the invariants of the lifecycle coordinator.
\<close>

section \<open>Predicates kept by the kernel\<close>

lemma keeps_void:
  fixes P :: "('st, 'w, 'm) tool_state_scheme \<Rightarrow> bool"
  shows "keeps P (lcE (voidE m)) \<longleftrightarrow> keeps P (lcE m)"
proof -
  have "snd (lcE (voidE m) s) = snd (lcE m s)" for s :: "('st, 'w, 'm) tool_state_scheme"
    by (simp add: lcE_def voidE_def op_defs split: prod.split sum.split)
  then show ?thesis by (simp add: keeps_def)
qed

lemma keeps_attempt:
  assumes "keeps P m" and "\<And>x. keeps P (rest x)"
  shows "keeps P (attempt b message partial m rest)"
  unfolding keeps_wp wpE_attempt
proof (intro allI impI)
  fix s assume "P s"
  then have "wpE m (\<lambda>_. P) (\<lambda>_. P) s" using assms(1) by (simp add: keeps_wp)
  then show "wpE m (\<lambda>x. wpE (rest x) (\<lambda>_. P) (\<lambda>_. P)) (\<lambda>e s'. if b then P s' else P s') s"
    by (rule wpE_mono) (use assms(2) in \<open>auto simp: keeps_wp\<close>)
qed

locale kernel_predicate = tool_predicate env P
  for env :: "'st lc_options" and P :: "('st, 'w, 'm) kernel_state_scheme \<Rightarrow> bool" +
  assumes artifact_free: "P (s\<lparr>ta_startSnapshot := a, ta_startSnapshotArtifact := b\<rparr>) = P s"
    and settlement_free: "P (s\<lparr>ta_settlement := c\<rparr>) = P s"
    and emission_free: "P (s\<lparr>rk_emission := e\<rparr>) = P s"
    and context_free: "P (s\<lparr>rk_activeContext := x\<rparr>) = P s" "P (s\<lparr>rk_compacted := y\<rparr>) = P s"
      "P (s\<lparr>rk_automaticCompaction := z\<rparr>) = P s"
begin

lemmas field_free = world_free artifact_free settlement_free emission_free context_free

lemma port_keeps: "keeps P (portE env f)"
  unfolding portE_def
  by (intro keeps_rules keeps_worldE keeps_modify world_free) (auto intro: tool_run_keeps [OF command_keeps])

lemma kernel_operations:
  "keeps P (lcE (updateContextBudget env v))" "keeps P (lcE (updateUsage env v))"
  "keeps P (lcE (requestContextCompaction env p))" "keeps P (lcE (settleContextCompaction env p))"
  "keeps P (lcE (appendAssistantReasoning env i t d))" "keeps P (lcE (appendAssistantCommentary env i t))"
  "keeps P (lcE (captureWorkspaceSnapshot env v))" "keeps P (lcE (markWorkspaceSnapshotUnavailable env t))"
  "keeps P (lcE (createTurnArtifact env v))" "keeps P (lcE (updateTurnDiff env v))"
  "keeps P (lcE (interrupt env t))" "keeps P (lcE (fail env failure))" "keeps P (lcE (complete env t i))"
  "keeps P (lcE (voidE (applyThreadInput env i m n k)))" "keeps P (lcE (voidE (start env)))"
  "keeps P (lcE (voidE (acceptThreadInput env ti f)))" "keeps P (lcE (voidE (reserveCompletion d)))"
  using operation_keeps [of "UpdateContextBudget v"] operation_keeps [of "UpdateUsage v"]
    operation_keeps [of "RequestContextCompaction p"] operation_keeps [of "SettleContextCompaction p"]
    operation_keeps [of "AppendAssistantReasoning i t d"] operation_keeps [of "AppendAssistantCommentary i t"]
    operation_keeps [of "CaptureWorkspaceSnapshot v"] operation_keeps [of "MarkWorkspaceSnapshotUnavailable t"]
    operation_keeps [of "CreateTurnArtifact v"] operation_keeps [of "UpdateTurnDiff v"]
    operation_keeps [of "Interrupt t"] operation_keeps [of "Fail failure"] operation_keeps [of "Complete t i"]
    operation_keeps [of "ApplyThreadInput i m n k"] operation_keeps [of Start]
    operation_keeps [of "AcceptThreadInput ti f"] operation_keeps [of "ReserveCompletion d"]
  by simp_all

lemma reserve_keeps: "keeps P (lcE (reserveCompletion d))"
  using kernel_operations(17) by (simp only: keeps_void)

lemma settings_keep:
  "keeps P (set_context c)" "keeps P (modifyE (\<lambda>s. s\<lparr>rk_compacted := y\<rparr>))"
  "keeps P (modifyE (\<lambda>s. s\<lparr>rk_automaticCompaction := z\<rparr>))" "keeps P (active_context c)"
  by (auto simp: set_context_def active_context_def context_free intro!: keeps_rules keeps_modify)

lemma artifacts_keep:
  assumes "ap_lifecycle ap = env"
  shows "keeps P (begin_artifacts ap)" and "keeps P (settle_artifacts ap inp)"
proof -
  have capture: "keeps P (capture ap phase keep why)" for phase keep why
    unfolding capture_def captureResumeSnapshot_def assms
    by (intro keeps_rules port_keeps keeps_worldE world_free)
  then show "keeps P (begin_artifacts ap)"
    unfolding begin_artifacts_def assms
    by (auto intro!: keeps_rules port_keeps keeps_modify split: option.split simp: artifact_free)
  have "keeps P (settleNow ap sn inp)" for sn
    unfolding settleNow_def Let_def assms by (intro keeps_rules keeps_attempt capture port_keeps)
  then show "keeps P (settle_artifacts ap inp)"
    unfolding settle_artifacts_def
    by (auto intro!: keeps_rules keeps_modify split: option.split simp: settlement_free)
qed


text \<open>The ports of a turn talk to one lifecycle.\<close>

abbreviation on_turn :: "('st, 'w) kernel_ports \<Rightarrow> bool" where
  "on_turn kp \<equiv> kp_lifecycle kp = env \<and> (\<forall>ap. kp_artifacts kp = Some ap \<longrightarrow> ap_lifecycle ap = env)"

lemma context_keeps:
  assumes "on_turn kp"
  shows "keeps P (assembleContext kp results)" and "keeps P (maybeAutomaticallyCompact kp c)"
    and "keeps P (account_usage kp c u)"
proof -
  have env: "kp_lifecycle kp = env" using assms by simp
  have budget: "keeps P (update_budget kp b)" for b
    unfolding update_budget_def env by (intro keeps_rules kernel_operations)
  then show "keeps P (assembleContext kp results)"
    unfolding assembleContext_def kportE_def env by (intro keeps_rules port_keeps kernel_operations)
  have "keeps P (compactPreparedTurn kp c mode)" for mode
    unfolding compactPreparedTurn_def kportE_def env Let_def
    by (intro keeps_rules port_keeps kernel_operations budget settings_keep)
  then show "keeps P (maybeAutomaticallyCompact kp c)"
    unfolding maybeAutomaticallyCompact_def by (intro keeps_rules settings_keep)
  show "keeps P (account_usage kp c u)"
    unfolding account_usage_def env by (intro keeps_rules kernel_operations settings_keep)
qed

lemma iteration_keeps:
  assumes "on_turn kp"
  shows "keeps P (loop_iteration kp c n results)"
proof -
  have env: "kp_lifecycle kp = env" using assms by simp
  have callback: "keeps P (provider_callback_op kp results cb)" for cb
    by (cases cb) (auto simp: refreshContext_def env intro!: keeps_rules context_keeps [OF assms] settings_keep kernel_operations)
  have provider: "keeps P (generateNext kp c' results)" for c'
    unfolding generateNext_def env
    by (intro keeps_rules callback keeps_worldE keeps_modify world_free) (auto intro: tool_run_keeps [OF command_keeps])
  have reasoning: "keeps P (append_reasoning kp n r)" for r
    unfolding append_reasoning_def env by (intro keeps_rules kernel_operations)
  have completion: "keeps P (complete_step kp n results i out r)" for i out r
    unfolding complete_step_def kportE_def env by (intro keeps_rules reserve_keeps port_keeps reasoning)
  have tool: "keeps P (tool_step kp n results i call cm r)" for i call cm r
    unfolding tool_step_def append_commentary_def env
    by (intro keeps_rules reasoning kernel_operations execute_keeps env)
  show ?thesis
    unfolding loop_iteration_def
    by (intro keeps_rules context_keeps [OF assms] settings_keep provider)
      (auto intro!: completion tool split: ProviderStep.split)
qed

lemma loop_keeps:
  assumes "executeLoop kp c n results s = Some (r, s')" and "on_turn kp" and "P s"
  shows "P s'"
proof -
  have "on_turn kp \<longrightarrow> P s \<longrightarrow> P (snd (r, s'))"
  proof (rule executeLoop.raw_induct [OF _ assms(1), where P = "\<lambda>kp c n results s y. on_turn kp \<longrightarrow> P s \<longrightarrow> P (snd y)"])
    fix loop kp c n results s y
    assume IH: "\<And>kp c n results s y. loop kp c n results s = Some y \<Longrightarrow> on_turn kp \<longrightarrow> P s \<longrightarrow> P (snd y)"
      and body: "(if n \<le> kp_maxToolCalls kp
        then case loop_iteration kp c n results s of
            (Inl e, s') \<Rightarrow> Some (Inl e, s')
          | (Inr step, s') \<Rightarrow> (case step of Loop_done result \<Rightarrow> Some (Inr result, s') | Loop_again k more' \<Rightarrow> loop kp c k more' s')
        else Some (Inl (loop_limit_error kp), s)) = Some y"
    have "P (snd (loop_iteration kp c n results s))" if "on_turn kp" and "P s"
      using keepsD [OF iteration_keeps] that by blast
    then show "on_turn kp \<longrightarrow> P s \<longrightarrow> P (snd y)"
      using body IH by (auto split: if_splits prod.splits sum.splits loop_step.splits)
  qed
  with assms show ?thesis by simp
qed

lemma settlement_keeps:
  assumes "on_turn kp"
  shows "keeps P (settleArtifacts kp inp)"
proof -
  have env: "kp_lifecycle kp = env" using assms by simp
  have emit: "keeps P (emit_settlement kp res)" for res
    unfolding emit_settlement_def Let_def env by (intro keeps_rules kernel_operations)
  have now: "keeps P (settleArtifactsNow kp ap inp)" if "kp_artifacts kp = Some ap" for ap
  proof -
    have "keeps P (settle_artifacts ap inp)" using artifacts_keep(2) assms that by blast
    then show ?thesis unfolding settleArtifactsNow_def by (intro keeps_rules emit)
  qed
  have memo: "keeps P (\<lambda>s. case settleArtifactsNow kp ap inp s of (r, s') \<Rightarrow> (r, s'\<lparr>rk_emission := Some r\<rparr>))"
    if "kp_artifacts kp = Some ap" for ap
    using keepsD [OF now [OF that]] by (auto simp: keeps_def emission_free split: prod.split) (metis snd_conv)
  show ?thesis
    unfolding settleArtifacts_def by (intro keeps_rules) (use memo in auto)
qed

lemma failure_keeps:
  assumes "on_turn kp"
  shows "keeps P (turn_failed kp e)" and "keeps P (interruptPreparedTurn kp reason q)" and "keeps P (finish_turn kp result)"
proof -
  have env: "kp_lifecycle kp = env" using assms by simp
  have "keeps P (recoverFailedTurn kp e)"
    unfolding recoverFailedTurn_def env by (intro keeps_rules kernel_operations)
  moreover have "keeps P (settle_failed_artifacts kp e)"
    unfolding settle_failed_artifacts_def kportE_def env by (intro keeps_rules port_keeps settlement_keeps [OF assms])
  ultimately show "keeps P (turn_failed kp e)"
    unfolding turn_failed_def env by (intro keeps_rules kernel_operations)
  show "keeps P (interruptPreparedTurn kp reason q)" and "keeps P (finish_turn kp result)"
    unfolding interruptPreparedTurn_def finish_turn_def env
    by (intro keeps_rules kernel_operations settlement_keeps [OF assms])+
qed

lemma execution_keeps:
  assumes "executePreparedTurn kp triggers s = Some (r, s')" and "on_turn kp" and "P s"
  shows "P s'"
proof -
  have env: "kp_lifecycle kp = env" using assms(2) by simp
  have forget: "P (forget_turn s) = P s" for s unfolding forget_turn_def by (simp only: context_free)
  have hooks: "keeps P (runHooks kp triggers)"
    unfolding runHooks_def kportE_def env by (auto intro!: keeps_rules port_keeps split: option.split)
  have "keeps P (prepare_context kp triggers)"
    unfolding prepare_context_def by (intro keeps_rules hooks context_keeps [OF assms(2)] settings_keep)
  then have prep: "P (snd (prepare_context kp triggers s))" using assms(3) by (rule keepsD)
  have finish: "keeps P (catchE (finish_turn kp result) (turn_failed kp))" for result
    by (intro keeps_rules failure_keeps [OF assms(2)])
  have "pred_option (\<lambda>y. P (snd y)) (case prepare_context kp triggers s of
        (Inl e, s1) \<Rightarrow> Some (turn_failed kp e s1)
      | (Inr ctx, s1) \<Rightarrow>
          (case executeLoop kp ctx 0 [] s1 of
             None \<Rightarrow> None
           | Some (Inl e, s2) \<Rightarrow> Some (turn_failed kp e s2)
           | Some (Inr result, s2) \<Rightarrow> Some (catchE (finish_turn kp result) (turn_failed kp) s2)))"
    using prep loop_keeps [OF _ assms(2)] keepsD [OF failure_keeps(1) [OF assms(2)]] keepsD [OF finish]
    by (auto split: prod.split sum.split option.split)
  then show ?thesis
    using assms(1,3) by (cases "isTerminal (tx_lc s)") (auto simp: executePreparedTurn_def forget)
qed

end

sublocale lifecycle_invariant \<subseteq> on_kernel: kernel_predicate env "\<lambda>s. Q (tx_lc s)"
  by unfold_locales simp_all

context lifecycle_invariant
begin

lemma turn_keeps:
  assumes "executePreparedTurn kp triggers s = Some (r, s')"
    and "kp_lifecycle kp = env" and "\<And>ap. kp_artifacts kp = Some ap \<Longrightarrow> ap_lifecycle ap = env" and "Q (tx_lc s)"
  shows "Q (tx_lc s')"
  using on_kernel.execution_keeps [OF assms(1)] assms(2-4) by blast

end

section \<open>An executed turn and its stream\<close>

text \<open>
  C1. The stream of an executed turn is what its coordinator says, for the whole kernel: when the execution of a turn
  over the memory store ends, normally or not, whatever the provider, the tools and the other callers did, the stored
  stream is contiguous, as long as the coordinator's sequence, and ends with the terminal event of the turn's status
  exactly when the turn is settled. The run attempt and the blocking state agree with the turn, and a settled turn has
  no open item and no pending approval.
\<close>
theorem executed_turn_matches_stream:
  assumes "opt_appendBatch env = appendBatch (opt_parseEvent env)"
    and "lawful_schema (opt_parseEvent env)" and "lawful_ids (opt_parseEventId env)"
    and "kp_lifecycle kp = env" and "\<And>ap. kp_artifacts kp = Some ap \<Longrightarrow> ap_lifecycle ap = env"
    and "tx_lc s = lc_run env cs (lc_init 0 ticks empty_lifecycle_store)"
    and "executePreparedTurn kp triggers s = Some (r, s')"
    and "evs = lifecycle_log (lc_sink (tx_lc s')) (opt_turnId env)"
  shows "contiguous_stream (opt_turnId env) evs \<and> length evs = lc_sequence (tx_lc s') \<and>
    settled_status (log_end evs) = (if isTerminal (tx_lc s') then Some (lc_status (tx_lc s')) else None) \<and>
    turn_agrees (tx_lc s') \<and> (isTerminal (tx_lc s') \<longrightarrow> settled_work (tx_lc s'))"
proof -
  have sink: "lifecycle_sink (appendBatch (opt_parseEvent env)) lifecycle_log canonical_store
      (admissible_event (opt_parseEvent env))"
    using reliable_sink_memory by (rule reliable_sink.axioms(1))
  let ?synced = "log_synced lifecycle_log canonical_store (opt_turnId env)"
  note synced = lifecycle_sink.synced_predicate [OF sink lawful_writer_memory [OF assms(1-3)]]
  have inv: "lifecycle_invariant env ?synced"
    by unfold_locales (rule settling_predicate.exec_keeps [OF synced])
  have start: "?synced (tx_lc s)" "turn_agrees (tx_lc s)" "terminal_settled (tx_lc s)"
    unfolding assms(6)
    by (rule settling_predicate.run_keeps [OF synced fresh_synced],
        rule agreeing.run_keeps, simp add: turn_agrees_def lc_init_def,
        rule lc_run_inv [OF exec_terminal_settled], simp add: terminal_settled_def lc_init_def isTerminal_def)
  have "?synced (tx_lc s')"
    by (rule lifecycle_invariant.turn_keeps [OF inv assms(7,4,5) start(1)])
  moreover have "turn_agrees (tx_lc s')" by (rule agreeing_tools.turn_keeps [OF assms(7,4,5) start(2)])
  moreover have "terminal_settled (tx_lc s')" by (rule settled_tools.turn_keeps [OF assms(7,4,5) start(3)])
  ultimately show ?thesis
    unfolding assms(8) by (simp add: log_synced_def canonical_store_def store_inv_def terminal_settled_def)
qed

text \<open>The sample turn over the memory store.\<close>

definition stored_kernel :: "(MemoryLifecycleEventStore, unit) kernel_ports" where
  "stored_kernel =
     \<lparr>kp_tools = \<lparr>tp_lifecycle = sample_options, tp_authorize = \<lambda>i c w. (([], Inr (Authorized c)), w),
        tp_executeTool = \<lambda>c ap w. (([], Inr (Worker_completed [] [])), w),
        tp_waitForDecision = \<lambda>rq w. (([], Signal_aborted), w),
        tp_aborted = \<lambda>w. False, tp_artifactSchema = \<lambda>v. None, tp_lastEventSequence = 0, tp_zodMessage = ''invalid''\<rparr>,
      kp_artifacts = None, kp_turnId = ''trn_abcdef'', kp_maxToolCalls = 2,
      kp_assemble = \<lambda>results w. (([Lifecycle_operation (Interrupt ''stop'')], Inr sample_context), w), kp_compact = None,
      kp_generateNext = \<lambda>c results w. (([], [], Inr (Step_complete ''itm_9'' ''ok'' None None)), w),
      kp_hasPendingThreadInputs = \<lambda>w. False, kp_flushThreadInputs = \<lambda>w. (([], Inr False), w),
      kp_awaitQuiescence = \<lambda>w. (([], Inr True), w), kp_hooks = None, kp_pendingInterrupt = \<lambda>w. None,
      kp_abortReason = \<lambda>w. Reason_other, kp_parseItemId = Some\<rparr>"

definition stored_state :: "(MemoryLifecycleEventStore, unit) kernel_state" where
  "stored_state =
     \<lparr>tx_lc = lc_run sample_options [Start] fresh_lc, tx_pending = [], tx_world = (), ta_startSnapshot = None,
      ta_startSnapshotArtifact = None, ta_settlement = None, rk_emission = None, rk_activeContext = None,
      rk_compacted = False, rk_automaticCompaction = False\<rparr>"

lemma executed_turn_matches_stream_witness:
  "\<exists>r s'. executePreparedTurn stored_kernel (''evt_1'', ''evt_2'') stored_state = Some (r, s') \<and>
     contiguous_stream ''trn_abcdef'' (lifecycle_log (lc_sink (tx_lc s')) ''trn_abcdef'') \<and> turn_agrees (tx_lc s')"
proof -
  obtain r s' where run: "executePreparedTurn stored_kernel (''evt_1'', ''evt_2'') stored_state = Some (r, s')"
    using execution_returns [of stored_kernel "(''evt_1'', ''evt_2'')" stored_state] by (auto simp: stored_kernel_def)
  have "kp_lifecycle stored_kernel = sample_options" and "kp_artifacts stored_kernel = None"
    and "tx_lc stored_state = lc_run sample_options [Start] (lc_init 0 0 empty_lifecycle_store)"
    by (simp_all add: stored_kernel_def stored_state_def fresh_lc_def)
  from executed_turn_matches_stream [OF sample_lawful this(1) _ this(3) run refl] this(2) run show ?thesis
    by (auto simp: sample_options_def)
qed

end
