(* ===== verification/Turn_Limits.thy ===== *)
theory Turn_Limits
  imports Kernel_Invariants
begin

text \<open>
  How often a turn calls its tools. An observer counts the calls of the authorization port, with which every tool
  call begins; it need not be computable by the kernel, which never looks at it. The loop limit of
  packages/runtime-kernel/src/RuntimeKernel.ts bounds what it counts in a whole turn, however the turn ends.
\<close>

section \<open>Counting the tool calls\<close>

definition quiet :: "('w \<Rightarrow> nat) \<Rightarrow> ('w \<Rightarrow> 'a \<times> 'w) \<Rightarrow> bool" where
  "quiet calls f \<longleftrightarrow> (\<forall>w. calls (snd (f w)) = calls w)"

definition quiet_artifacts :: "('w \<Rightarrow> nat) \<Rightarrow> ('st, 'w) artifact_ports \<Rightarrow> bool" where
  "quiet_artifacts calls ap \<longleftrightarrow>
     (\<forall>g t. quiet calls (ap_captureSnapshot ap g t)) \<and>
     (\<forall>f g sn. ap_captureResumeSnapshot ap = Some f \<longrightarrow> quiet calls (f g sn)) \<and>
     (\<forall>g a b. quiet calls (ap_getSnapshotDiff ap g a b)) \<and>
     (\<forall>sn ow aa. quiet calls (ap_putSnapshot ap sn ow aa)) \<and>
     (\<forall>d ow aa. quiet calls (ap_putTurnDiff ap d ow aa)) \<and> quiet calls (ap_now ap)"

text \<open>A call of the authorization port adds at most one, and no other port is counted.\<close>

definition counts_tool_calls :: "('w \<Rightarrow> nat) \<Rightarrow> ('st, 'w) kernel_ports \<Rightarrow> bool" where
  "counts_tool_calls calls kp \<longleftrightarrow>
     (\<forall>i c w. calls (snd (tp_authorize (kp_tools kp) i c w)) \<le> calls w + 1) \<and>
     (\<forall>c a. quiet calls (tp_executeTool (kp_tools kp) c a)) \<and>
     (\<forall>rq. quiet calls (tp_waitForDecision (kp_tools kp) rq)) \<and>
     (\<forall>rs. quiet calls (kp_assemble kp rs)) \<and>
     (\<forall>f c m. kp_compact kp = Some f \<longrightarrow> quiet calls (f c m)) \<and>
     (\<forall>c rs. quiet calls (kp_generateNext kp c rs)) \<and>
     quiet calls (kp_flushThreadInputs kp) \<and> quiet calls (kp_awaitQuiescence kp) \<and>
     (\<forall>f g t. kp_hooks kp = Some (f, g) \<longrightarrow> quiet calls (f t) \<and> quiet calls (g t)) \<and>
     (\<forall>ap. kp_artifacts kp = Some ap \<longrightarrow> quiet_artifacts calls ap)"

definition calls_upto :: "('w \<Rightarrow> nat) \<Rightarrow> nat \<Rightarrow> ('st, 'w, 'm) tool_state_scheme \<Rightarrow> bool" where
  "calls_upto calls n s \<longleftrightarrow> calls (tx_world s) \<le> n"

lemma calls_upto_same: "tx_world s' = tx_world s \<Longrightarrow> calls_upto calls n s' = calls_upto calls n s"
  by (simp add: calls_upto_def)

lemma calls_upto_fields [simp]:
  "calls_upto calls n (s\<lparr>tx_lc := l\<rparr>) = calls_upto calls n s" "calls_upto calls n (s\<lparr>tx_pending := p\<rparr>) = calls_upto calls n s"
  "calls_upto calls n (update_pending a g s) = calls_upto calls n s"
  by (simp_all add: calls_upto_def)

section \<open>Operations that call no tool\<close>

lemma within_lcE: "keeps (calls_upto calls n) (lcE m)"
  by (rule keeps_lcE) simp

lemma within_worldE: "quiet calls f \<Longrightarrow> keeps (calls_upto calls n) (worldE f)"
  by (auto simp: keeps_def worldE_def quiet_def calls_upto_def split: prod.split) (metis snd_conv)

lemma within_settle: "keeps (calls_upto calls n) (settle env a rq r)"
proof -
  have "keeps (calls_upto calls n) (start_settlement env a r)"
    by (simp add: keeps_def start_settlement_def lcE_def split: prod.split)
  then show ?thesis unfolding settle_def by (intro keeps_rules)
qed

lemma within_command: "keeps (calls_upto calls n) (tool_exec env c)"
proof -
  have "keeps (calls_upto calls n) (resolve_settle env a r)" for a r
    unfolding resolve_settle_def require_pending_def by (intro keeps_rules within_settle)
  then show ?thesis
    by (cases c) (auto simp: resolve_def intro!: keeps_rules within_lcE keeps_modify)
qed

lemma within_meanwhile: "keeps (calls_upto calls n) (modifyE (tool_run env cs))"
  by (rule keeps_modify) (rule tool_run_keeps [OF within_command])

lemma within_port: "quiet calls f \<Longrightarrow> keeps (calls_upto calls n) (portE env f)"
  unfolding portE_def by (intro keeps_rules within_worldE within_meanwhile)

lemma within_wait:
  assumes "quiet calls (wt rq)"
  shows "keeps (calls_upto calls n) (requestAndWait env wt ab par rq)"
proof -
  have "keeps (calls_upto calls n) (await_decision env wt ab par i rq p)" for i p
    unfolding await_decision_def raceApprovalResolution_def Let_def
    by (intro keeps_rules within_lcE within_worldE assms race_keeps within_command within_settle)
  then show ?thesis
    unfolding requestAndWait_def createPending_def Let_def
    by (intro keeps_rules keeps_finally keeps_modify) simp_all
qed

section \<open>One tool call\<close>

lemma within_authorized:
  assumes "counts_tool_calls calls kp"
  shows "keeps (calls_upto calls n) (catchE (executeAuthorizedTool (kp_tools kp) i au) (tool_failed (kp_tools kp) call))"
proof -
  have quiet: "quiet calls (tp_executeTool (kp_tools kp) c a)" "quiet calls (tp_waitForDecision (kp_tools kp) rq)" for c a rq
    using assms by (simp_all add: counts_tool_calls_def)
  have worker: "keeps (calls_upto calls n) (callWorker (kp_tools kp) c a)" for c a
    unfolding callWorker_def by (intro keeps_rules within_worldE quiet within_meanwhile)
  have retry: "keeps (calls_upto calls n) (resolveApprovedRetry (kp_tools kp) c r)" for c r
    unfolding resolveApprovedRetry_def
    by (intro keeps_rules worker) (auto intro!: keeps_rules split: WorkerToolResult.split)
  have completion: "keeps (calls_upto calls n) (executeToCompletion (kp_tools kp) i c a)" for c a
    unfolding executeToCompletion_def tool_requestAndWait_def
    by (intro keeps_rules worker) (auto intro!: keeps_rules within_wait quiet retry split: WorkerToolResult.split)
  have events: "keeps (calls_upto calls n) (emitWorkerResultEvents (kp_tools kp) i c out evs)" for c out evs
    unfolding emitWorkerResultEvents_def by (intro keeps_rules within_lcE)
  have finish: "keeps (calls_upto calls n) (finish_tool (kp_tools kp) i c a)" for c a
    unfolding finish_tool_def
    by (intro keeps_rules completion) (auto intro!: keeps_rules within_lcE events split: tool_end.split)
  have "keeps (calls_upto calls n) (executeAuthorizedTool (kp_tools kp) i au)"
    unfolding executeAuthorizedTool_def tool_requestAndWait_def
    by (cases au) (auto intro!: keeps_rules finish within_wait quiet)
  moreover have "keeps (calls_upto calls n) (tool_failed (kp_tools kp) call err)" for err
    unfolding tool_failed_def Let_def by (cases err) (auto intro!: keeps_rules within_lcE)
  ultimately show ?thesis by (intro keeps_rules)
qed

lemma within_execute:
  fixes kp :: "('st, 'w) kernel_ports" and s :: "('st, 'w, 'm) tool_state_scheme"
  assumes "counts_tool_calls calls kp" and "calls_upto calls n s"
  shows "calls_upto calls (n + 1) (snd (tool_execute (kp_tools kp) i call s))"
proof -
  obtain cs answer w where au: "tp_authorize (kp_tools kp) i call (tx_world s) = ((cs, answer), w)" by (metis surj_pair)
  have "calls (snd (tp_authorize (kp_tools kp) i call (tx_world s))) \<le> calls (tx_world s) + 1"
    using assms(1) by (simp add: counts_tool_calls_def)
  then have "calls w \<le> calls (tx_world s) + 1" by (simp add: au)
  then have "calls_upto calls (n + 1) (tool_run (kp_lifecycle kp) cs (s\<lparr>tx_world := w\<rparr>))"
    using assms(2) by (intro tool_run_keeps [OF within_command]) (simp add: calls_upto_def)
  then have "wpE (authorizeTool (kp_tools kp) i call) (\<lambda>_. calls_upto calls (n + 1)) (\<lambda>_. calls_upto calls (n + 1)) s"
    by (simp add: authorizeTool_def wp_simps au split: sum.split)
  moreover have "keeps (calls_upto calls (n + 1)) (bindE (lcE m) (\<lambda>_. catchE (executeAuthorizedTool (kp_tools kp) i x)
      (tool_failed (kp_tools kp) call)))" for x and m :: "('st, unit) lc_op"
    by (intro keeps_rules within_lcE within_authorized assms(1))
  ultimately have "wpE (tool_execute (kp_tools kp) i call) (\<lambda>_. calls_upto calls (n + 1)) (\<lambda>_. calls_upto calls (n + 1)) s"
    unfolding tool_execute_def Let_def wpE_bind [of "authorizeTool _ _ _"] keeps_wp by (blast intro: wpE_mono)
  then show ?thesis by (simp only: wpE_same)
qed

section \<open>One round of the loop\<close>

lemma within_context:
  assumes "counts_tool_calls calls kp"
  shows "keeps (calls_upto calls n) (assembleContext kp rs)" and "keeps (calls_upto calls n) (maybeAutomaticallyCompact kp c)"
    and "keeps (calls_upto calls n) (set_context c)" and "keeps (calls_upto calls n) (active_context c)"
    and "keeps (calls_upto calls n) (account_usage kp c u)"
proof -
  have quiet: "quiet calls (kp_assemble kp rs)" "\<And>f c m. kp_compact kp = Some f \<Longrightarrow> quiet calls (f c m)"
    using assms by (simp_all add: counts_tool_calls_def)
  show set: "keeps (calls_upto calls n) (set_context c)" and active: "keeps (calls_upto calls n) (active_context c)" for c
    by (auto simp: set_context_def active_context_def intro!: keeps_rules keeps_modify simp: calls_upto_def)
  have budget: "keeps (calls_upto calls n) (update_budget kp b)" for b
    unfolding update_budget_def by (intro keeps_rules within_lcE)
  then show "keeps (calls_upto calls n) (assembleContext kp rs)"
    unfolding assembleContext_def kportE_def by (intro keeps_rules within_port quiet(1) within_lcE)
  have flag: "keeps (calls_upto calls n) (modifyE (\<lambda>s. s\<lparr>rk_compacted := b\<rparr>))"
    "keeps (calls_upto calls n) (modifyE (\<lambda>s. s\<lparr>rk_automaticCompaction := b\<rparr>))" for b
    by (rule keeps_modify, simp add: calls_upto_def)+
  have "keeps (calls_upto calls n) (compactPreparedTurn kp c mode)" for mode
  proof (cases "kp_compact kp")
    case (Some f)
    show ?thesis
      unfolding compactPreparedTurn_def kportE_def Let_def Some option.case
      by (intro keeps_rules within_port quiet(2) [OF Some] within_lcE budget set flag)
  qed (simp add: compactPreparedTurn_def keeps_rules)
  then show "keeps (calls_upto calls n) (maybeAutomaticallyCompact kp c)"
    unfolding maybeAutomaticallyCompact_def by (intro keeps_rules flag)
  show "keeps (calls_upto calls n) (account_usage kp c u)"
    unfolding account_usage_def by (intro keeps_rules within_lcE set active)
qed

lemma within_provider:
  assumes "counts_tool_calls calls kp"
  shows "keeps (calls_upto calls n) (generateNext kp c rs)"
proof -
  have quiet: "quiet calls (kp_generateNext kp c rs)"
    using assms by (simp add: counts_tool_calls_def)
  have callback: "keeps (calls_upto calls n) (provider_callback_op kp rs cb)" for cb
    by (cases cb) (auto simp: refreshContext_def intro!: keeps_rules within_context [OF assms] within_lcE)
  show ?thesis
    unfolding generateNext_def by (intro keeps_rules within_worldE quiet within_meanwhile callback)
qed

definition round_limit :: "('w \<Rightarrow> nat) \<Rightarrow> nat \<Rightarrow> nat \<Rightarrow> loop_step \<Rightarrow> ('st, 'w, 'm) tool_state_scheme \<Rightarrow> bool" where
  "round_limit calls k limit step s \<longleftrightarrow>
     (case step of
        Loop_done res \<Rightarrow> lr_toolCallCount res \<le> limit \<and> calls_upto calls (k + limit) s
      | Loop_again m more' \<Rightarrow> m \<le> limit \<and> calls_upto calls (k + m) s)"

lemma keeps_then:
  assumes "P s" and "keeps P m" and "\<And>x t. P t \<Longrightarrow> wpE (f x) Q E t" and "\<And>e t. P t \<Longrightarrow> E e t"
  shows "wpE (bindE m f) Q E s"
proof -
  have "wpE m (\<lambda>_. P) (\<lambda>_. P) s" using assms(1,2) by (simp add: keeps_wp)
  then show ?thesis unfolding wpE_bind by (rule wpE_mono) (use assms(3,4) in auto)
qed

lemma within_more: "calls_upto calls (k + n) s \<Longrightarrow> n \<le> limit \<Longrightarrow> calls_upto calls (k + limit) s"
  by (simp add: calls_upto_def)

lemma reasoning_within:
  "keeps (calls_upto calls n) (append_reasoning kp c r)" "keeps (calls_upto calls n) (append_commentary kp c x)"
  unfolding append_reasoning_def append_commentary_def by (intro keeps_rules within_lcE)+

lemma complete_step_limit:
  assumes "counts_tool_calls calls kp" and "n \<le> limit" and "calls_upto calls (k + n) s"
  shows "wpE (complete_step kp n rs i out r) (round_limit calls k limit) (\<lambda>_. calls_upto calls (k + limit)) s"
proof -
  have "quiet calls (kp_flushThreadInputs kp)" using assms(1) by (simp add: counts_tool_calls_def)
  note keeps = within_port [OF this] within_lcE reasoning_within keeps_get
  show ?thesis
    unfolding complete_step_def kportE_def
    by (intro keeps_then [where P = "calls_upto calls (k + n)"] assms(3) keeps)
      (auto simp: wpE_return wpE_throw round_limit_def assms(2)
        intro!: keeps_then [where P = "calls_upto calls (k + n)"] keeps intro: within_more [OF _ assms(2)])
qed

lemma tool_step_limit:
  assumes "counts_tool_calls calls kp" and "n \<le> kp_maxToolCalls kp" and "calls_upto calls (k + n) s"
  shows "wpE (tool_step kp n rs i call cm r) (round_limit calls k (kp_maxToolCalls kp))
    (\<lambda>_. calls_upto calls (k + kp_maxToolCalls kp)) s"
proof (cases "n = kp_maxToolCalls kp")
  case False
  then have next_n: "k + n + 1 \<le> k + kp_maxToolCalls kp" "n + 1 \<le> kp_maxToolCalls kp" using assms(2) by simp_all
  have call: "wpE (tool_execute (kp_tools kp) i call) (\<lambda>_. calls_upto calls (k + n + 1)) (\<lambda>_. calls_upto calls (k + n + 1)) t"
    if "calls_upto calls (k + n) t" for t
    using within_execute [OF assms(1) that] by (simp only: wpE_same)
  have run: "wpE (if kp_artifacts kp = None
        then throwE (kernel_error Kc_tool_policy_denied ''Select a project before using repository tools.'')
        else bindE (tool_execute (kp_tools kp) i call) (\<lambda>result. returnE (Loop_again (n + 1) (rs @ [result]))))
      (round_limit calls k (kp_maxToolCalls kp)) (\<lambda>_. calls_upto calls (k + kp_maxToolCalls kp)) t"
    if "calls_upto calls (k + n) t" for t
    using that next_n
    by (auto simp: wpE_if wpE_throw wpE_bind wpE_return round_limit_def calls_upto_def add.assoc
        intro!: wpE_mono [OF call [OF that]])
  show ?thesis
    unfolding tool_step_def if_not_P [OF False]
    by (intro keeps_then [where P = "calls_upto calls (k + n)"] assms(3) reasoning_within run)
      (auto intro: within_more [OF _ assms(2)])
qed (use assms(3) in \<open>simp add: tool_step_def wpE_throw\<close>)

lemma loop_iteration_limit:
  assumes "counts_tool_calls calls kp" and "n \<le> kp_maxToolCalls kp" and "calls_upto calls (k + n) s"
  shows "wpE (loop_iteration kp initial n rs) (round_limit calls k (kp_maxToolCalls kp))
    (\<lambda>_. calls_upto calls (k + kp_maxToolCalls kp)) s"
proof -
  note pre = within_context [OF assms(1)] within_provider [OF assms(1)]
  show ?thesis
    unfolding loop_iteration_def
    by (intro keeps_then [where P = "calls_upto calls (k + n)"] assms(3) pre keeps_rules)
      (auto split: ProviderStep.split intro: complete_step_limit [OF assms(1,2)] tool_step_limit [OF assms(1,2)]
        within_more [OF _ assms(2)])
qed

section \<open>The whole turn\<close>

definition loop_limit :: "('w \<Rightarrow> nat) \<Rightarrow> nat \<Rightarrow> nat \<Rightarrow> (js_error + loop_result) \<times> ('st, 'w, 'm) tool_state_scheme \<Rightarrow> bool" where
  "loop_limit calls k limit = (\<lambda>(r, s). calls_upto calls (k + limit) s \<and> (\<forall>res. r = Inr res \<longrightarrow> lr_toolCallCount res \<le> limit))"

lemma executeLoop_limit:
  fixes calls :: "'w \<Rightarrow> nat" and s :: "('st, 'w, 'm) kernel_state_scheme"
  assumes "executeLoop kp c n rs s = Some y" and "counts_tool_calls calls kp" and "n \<le> kp_maxToolCalls kp"
    and "calls_upto calls (k + n) s"
  shows "loop_limit calls k (kp_maxToolCalls kp) y"
proof -
  let ?R = "\<lambda>kp c n rs s y. counts_tool_calls calls kp \<longrightarrow> n \<le> kp_maxToolCalls kp \<longrightarrow> calls_upto calls (k + n) s \<longrightarrow>
    loop_limit calls k (kp_maxToolCalls kp) y"
  have "?R kp c n rs s y"
  proof (rule executeLoop.raw_induct [OF _ assms(1), where P = ?R])
    fix loop and kp :: "('st, 'w) kernel_ports" and c n rs y and s :: "('st, 'w, 'm) kernel_state_scheme"
    assume IH: "\<And>kp c n rs s y. loop kp c n rs s = Some y \<Longrightarrow> ?R kp c n rs s y"
      and body: "(if n \<le> kp_maxToolCalls kp
        then case loop_iteration kp c n rs s of
            (Inl e, s') \<Rightarrow> Some (Inl e, s')
          | (Inr step, s') \<Rightarrow> (case step of Loop_done result \<Rightarrow> Some (Inr result, s') | Loop_again m more' \<Rightarrow> loop kp c m more' s')
        else Some (Inl (loop_limit_error kp), s)) = Some y"
    show "?R kp c n rs s y"
    proof (intro impI)
      assume *: "counts_tool_calls calls kp" "n \<le> kp_maxToolCalls kp" "calls_upto calls (k + n) s"
      from body loop_iteration_limit [OF this, of c rs] *(1,2) show "loop_limit calls k (kp_maxToolCalls kp) y"
        by (auto simp: wpE_def round_limit_def loop_limit_def split: prod.splits sum.splits loop_step.splits
            dest!: IH)
    qed
  qed
  with assms(2-4) show ?thesis by blast
qed

lemma within_artifacts:
  assumes "quiet_artifacts calls ap"
  shows "keeps (calls_upto calls n) (settle_artifacts ap inp)"
proof -
  have quiet: "quiet calls (ap_captureSnapshot ap g t)" "ap_captureResumeSnapshot ap = Some f \<Longrightarrow> quiet calls (f g sn)"
    "quiet calls (ap_getSnapshotDiff ap g a b)" "quiet calls (ap_putSnapshot ap sn' ow aa)"
    "quiet calls (ap_putTurnDiff ap d ow aa)" "quiet calls (ap_now ap)" for g t f sn a b sn' ow aa d
    using assms unfolding quiet_artifacts_def by blast+
  have resume: "keeps (calls_upto calls n) (captureResumeSnapshot ap sn)" for sn
    unfolding captureResumeSnapshot_def by (intro keeps_rules within_port) (rule quiet)
  have capture: "keeps (calls_upto calls n) (capture ap phase keep why)" for phase keep why
    unfolding capture_def by (intro keeps_rules within_port within_worldE quiet resume)
  have "keeps (calls_upto calls n) (settleNow ap sn inp)" for sn
    unfolding settleNow_def Let_def by (intro keeps_rules keeps_attempt capture within_port quiet)
  then show ?thesis
    unfolding settle_artifacts_def
    by (auto intro!: keeps_rules keeps_modify split: option.split simp: calls_upto_def)
qed

lemma within_settlement:
  fixes kp :: "('st, 'w) kernel_ports"
  assumes "counts_tool_calls calls kp"
  shows "keeps (calls_upto calls n) (settleArtifacts kp inp :: ('st, 'w, 'm, _) kernel_op)"
proof -
  have emit: "keeps (calls_upto calls n) (emit_settlement kp res)" for res
    unfolding emit_settlement_def Let_def by (intro keeps_rules within_lcE)
  have now: "keeps (calls_upto calls n) (settleArtifactsNow kp ap inp)" if "kp_artifacts kp = Some ap" for ap
  proof -
    have "quiet_artifacts calls ap" using assms that by (simp add: counts_tool_calls_def)
    then show ?thesis unfolding settleArtifactsNow_def by (intro keeps_rules emit within_artifacts)
  qed
  have memo: "keeps (calls_upto calls n) (\<lambda>s :: ('st, 'w, 'm) kernel_state_scheme. case settleArtifactsNow kp ap inp s of (r, s') \<Rightarrow> (r, s'\<lparr>rk_emission := Some r\<rparr>))"
    if "kp_artifacts kp = Some ap" for ap
    unfolding keeps_def
  proof (intro allI impI)
    fix s :: "('st, 'w, 'm) kernel_state_scheme"
    assume "calls_upto calls n s"
    then have "calls_upto calls n (snd (settleArtifactsNow kp ap inp s))" by (rule keepsD [OF now [OF that]])
    then show "calls_upto calls n (snd (case settleArtifactsNow kp ap inp s of (r, s') \<Rightarrow> (r, s'\<lparr>rk_emission := Some r\<rparr>)))"
      by (auto simp: calls_upto_def split: prod.split)
  qed
  show ?thesis
    unfolding settleArtifacts_def by (intro keeps_rules) (use memo in auto)
qed

lemma within_ends:
  assumes "counts_tool_calls calls kp"
  shows "keeps (calls_upto calls n) (turn_failed kp e)" and "keeps (calls_upto calls n) (finish_turn kp result)"
    and "keeps (calls_upto calls n) (prepare_context kp triggers)"
proof -
  have quiet: "quiet calls (kp_awaitQuiescence kp)" "kp_hooks kp = Some (f, g) \<Longrightarrow> quiet calls (f t)"
    "kp_hooks kp = Some (f, g) \<Longrightarrow> quiet calls (g t)" for f g t
    using assms by (simp_all add: counts_tool_calls_def)
  have "keeps (calls_upto calls n) (recoverFailedTurn kp e)"
    unfolding recoverFailedTurn_def by (intro keeps_rules within_lcE)
  moreover have "keeps (calls_upto calls n) (settle_failed_artifacts kp e)"
    unfolding settle_failed_artifacts_def kportE_def by (intro keeps_rules within_port quiet within_settlement [OF assms])
  ultimately show "keeps (calls_upto calls n) (turn_failed kp e)"
    unfolding turn_failed_def by (intro keeps_rules within_lcE)
  show "keeps (calls_upto calls n) (finish_turn kp result)"
    unfolding finish_turn_def by (intro keeps_rules within_lcE within_settlement [OF assms])
  have "keeps (calls_upto calls n) (runHooks kp triggers)"
    unfolding runHooks_def kportE_def
    by (auto intro!: keeps_rules within_port intro: quiet(2,3) split: option.split)
  then show "keeps (calls_upto calls n) (prepare_context kp triggers)"
    unfolding prepare_context_def by (intro keeps_rules within_context [OF assms])
qed

definition turn_limit :: "('w \<Rightarrow> nat) \<Rightarrow> nat \<Rightarrow> nat \<Rightarrow> (js_error + StartTurnResult) \<times> ('st, 'w, 'm) tool_state_scheme \<Rightarrow> bool" where
  "turn_limit calls k limit = (\<lambda>(r, s). calls_upto calls (k + limit) s \<and> (\<forall>res. r = Inr res \<longrightarrow> st_toolCallCount res \<le> limit))"

lemma turn_limits:
  fixes s :: "('st, 'w, 'm) kernel_state_scheme"
  assumes "counts_tool_calls calls kp" and "calls_upto calls (k + kp_maxToolCalls kp) s"
  shows "turn_limit calls k (kp_maxToolCalls kp) (turn_failed kp e s)"
    and "lr_toolCallCount result \<le> kp_maxToolCalls kp \<Longrightarrow>
      turn_limit calls k (kp_maxToolCalls kp) (catchE (finish_turn kp result) (turn_failed kp) s)"
proof -
  have finish: "keeps (calls_upto calls (k + kp_maxToolCalls kp)) (catchE (finish_turn kp result) (turn_failed kp))"
    by (intro keeps_rules within_ends [OF assms(1)])
  show "turn_limit calls k (kp_maxToolCalls kp) (turn_failed kp e s)"
    using keepsD [OF within_ends(1) [OF assms(1)] assms(2), of e] turn_failed_throws [of kp e s]
    by (auto simp: turn_limit_def wpE_def split: prod.splits sum.splits)
  show "turn_limit calls k (kp_maxToolCalls kp) (catchE (finish_turn kp result) (turn_failed kp) s)"
    if "lr_toolCallCount result \<le> kp_maxToolCalls kp"
    using keepsD [OF finish assms(2)] finish_turn_counts [of kp result s] that
    by (auto simp: turn_limit_def wpE_def split: prod.splits sum.splits)
qed

lemma execution_limit:
  fixes kp :: "('st, 'w) kernel_ports" and s :: "('st, 'w, 'm) kernel_state_scheme"
  assumes "counts_tool_calls calls kp" and "executePreparedTurn kp triggers s = Some y"
  shows "turn_limit calls (calls (tx_world s)) (kp_maxToolCalls kp) y"
proof -
  let ?k = "calls (tx_world s)" and ?limit = "kp_maxToolCalls kp"
  have start: "calls_upto calls (?k + 0) s" by (simp add: calls_upto_def)
  then have prep: "calls_upto calls (?k + 0) (snd (prepare_context kp triggers s))"
    by (rule keepsD [OF within_ends(3) [OF assms(1)]])
  have "pred_option (turn_limit calls ?k ?limit) (case prepare_context kp triggers s of
        (Inl e, s1) \<Rightarrow> Some (turn_failed kp e s1)
      | (Inr ctx, s1) \<Rightarrow>
          (case executeLoop kp ctx 0 [] s1 of
             None \<Rightarrow> None
           | Some (Inl e, s2) \<Rightarrow> Some (turn_failed kp e s2)
           | Some (Inr result, s2) \<Rightarrow> Some (catchE (finish_turn kp result) (turn_failed kp) s2)))"
    using prep within_more [OF prep, of ?limit]
    by (auto simp: loop_limit_def split: prod.split sum.split option.split
        intro!: turn_limits [OF assms(1)] dest!: executeLoop_limit [OF _ assms(1)])
  moreover have "turn_limit calls ?k ?limit (r, forget_turn t) = turn_limit calls ?k ?limit (r, t)" for r and t :: "('st, 'w, 'm) kernel_state_scheme"
    by (simp add: turn_limit_def calls_upto_def forget_turn_def)
  moreover have "turn_limit calls ?k ?limit (Inr \<lparr>st_output = [], st_toolCallCount = 0\<rparr>, s)"
    by (simp add: turn_limit_def calls_upto_def)
  ultimately show ?thesis
    using assms(2) by (cases "isTerminal (tx_lc s)") (auto simp: executePreparedTurn_def)
qed

text \<open>
  C3. A turn calls its tools at most \<open>maxToolCalls\<close> times. Take any observer of the ports that only the call of the
  authorization port, with which each tool call begins, advances, and by at most one. However the execution of the turn
  ends, with an answer or with an error, the observer has advanced by at most \<open>maxToolCalls\<close>, and an answer reports no
  more tool calls than that. And the execution does end if the provider does not flush pending thread inputs to go
  round again without a tool call.
\<close>
theorem turn_execution_ends:
  assumes "counts_tool_calls calls kp"
  shows "(\<forall>r s'. executePreparedTurn kp triggers s = Some (r, s') \<longrightarrow>
      calls (tx_world s') \<le> calls (tx_world s) + kp_maxToolCalls kp \<and>
      (\<forall>res. r = Inr res \<longrightarrow> st_toolCallCount res \<le> kp_maxToolCalls kp)) \<and>
    ((\<forall>w. snd (fst (kp_flushThreadInputs kp w)) \<noteq> Inr True) \<longrightarrow> executePreparedTurn kp triggers s \<noteq> None)"
proof (intro conjI allI impI)
  fix r s' assume "executePreparedTurn kp triggers s = Some (r, s')"
  from execution_limit [OF assms this]
  show "calls (tx_world s') \<le> calls (tx_world s) + kp_maxToolCalls kp"
    and "r = Inr res \<Longrightarrow> st_toolCallCount res \<le> kp_maxToolCalls kp" for res
    by (auto simp: turn_limit_def calls_upto_def)
next
  assume "\<forall>w. snd (fst (kp_flushThreadInputs kp w)) \<noteq> Inr True"
  then show "executePreparedTurn kp triggers s \<noteq> None" using execution_returns [of kp triggers s] by auto
qed

text \<open>A provider that asks for a tool call in every round, on ports that count the authorizations.\<close>

definition counted_artifacts :: "(unit, nat) artifact_ports" where
  "counted_artifacts =
     \<lparr>ap_lifecycle = open_options, ap_turnId = ''trn_1'', ap_runId = ''run_1'', ap_threadId = ''thr_1'',
      ap_workspaceId = ''wsp_1'', ap_userId = ''usr_1'', ap_filesystemRoot = ''/work'', ap_zodMessage = ''invalid'',
      ap_captureSnapshot = \<lambda>ws key w. (([], Inr \<lparr>gs_runId = ''run_1'', gs_filesystemRoot = ''/work'', gs_headSha = ''h'',
        gs_treeId = ''t''\<rparr>), w),
      ap_captureResumeSnapshot = None, ap_getSnapshotDiff = \<lambda>ws a b w. (([], Inr ([], ''patch'')), w),
      ap_putSnapshot = \<lambda>sn o' a w. (([], Inr None), w), ap_putTurnDiff = \<lambda>d o' a w. (([], Inr None), w),
      ap_now = \<lambda>w. (''now'', w)\<rparr>"

definition counted_kernel :: "(unit, nat) kernel_ports" where
  "counted_kernel =
     \<lparr>kp_tools = \<lparr>tp_lifecycle = open_options, tp_authorize = \<lambda>i c w. (([], Inr (Authorized c)), w + 1),
        tp_executeTool = \<lambda>c ap w. (([], Inr (Worker_completed [] [])), w),
        tp_waitForDecision = \<lambda>rq w. (([], Signal_aborted), w),
        tp_aborted = \<lambda>w. False, tp_artifactSchema = \<lambda>v. None, tp_lastEventSequence = 0, tp_zodMessage = ''invalid''\<rparr>,
      kp_artifacts = Some counted_artifacts, kp_turnId = ''trn_1'', kp_maxToolCalls = 2,
      kp_assemble = \<lambda>results w. (([], Inr sample_context), w), kp_compact = None,
      kp_generateNext = \<lambda>c results w. (([], [], Inr (Step_tool_call ''itm_7'' sample_call None None None)), w),
      kp_hasPendingThreadInputs = \<lambda>w. False, kp_flushThreadInputs = \<lambda>w. (([], Inr False), w),
      kp_awaitQuiescence = \<lambda>w. (([], Inr True), w), kp_hooks = None, kp_pendingInterrupt = \<lambda>w. None,
      kp_abortReason = \<lambda>w. Reason_other, kp_parseItemId = Some\<rparr>"

definition counted_state :: "(unit, nat) kernel_state" where
  "counted_state =
     \<lparr>tx_lc = tx_lc running_state, tx_pending = [], tx_world = 0, ta_startSnapshot = Some sample_snapshot,
      ta_startSnapshotArtifact = None, ta_settlement = None, rk_emission = None, rk_activeContext = None,
      rk_compacted = False, rk_automaticCompaction = False\<rparr>"

lemma turn_execution_ends_witness:
  "\<exists>r s'. executePreparedTurn counted_kernel (''evt_1'', ''evt_2'') counted_state = Some (r, s') \<and> tx_world s' \<le> 2"
proof -
  have "counts_tool_calls id counted_kernel"
    by (simp add: counts_tool_calls_def quiet_artifacts_def quiet_def counted_kernel_def counted_artifacts_def)
  from turn_execution_ends [OF this, of "(''evt_1'', ''evt_2'')" counted_state] show ?thesis
    by (fastforce simp: counted_kernel_def counted_state_def)
qed

end
