(* ===== verification/Permission_Policy.thy ===== *)
theory Permission_Policy
  imports Prelude
begin

text \<open>
  The permission policy of packages/permission-policy/src: the wildcard matcher of patterns.ts and
  the evaluation of requests in evaluate.ts. The matcher is a greedy loop with one backtracking
  point; it is compared with the declarative meaning of a pattern. \<open>new URL\<close> is the platform's URL
  parser: its result is a parameter of the evaluation of a network request.
\<close>

section \<open>The matcher\<close>

text \<open>
  The loop of \<open>matchesWildcardPattern\<close>. \<open>star\<close> holds \<open>starIndex\<close> and \<open>starValueIndex\<close> (\<open>None\<close> for -1);
  the result is the pattern index at which the value was exhausted, \<open>None\<close> for \<open>return false\<close>.
\<close>

function wildcard_loop :: "string \<Rightarrow> string \<Rightarrow> nat \<Rightarrow> nat \<Rightarrow> (nat \<times> nat) option \<Rightarrow> nat option" where
  "wildcard_loop p v i j star =
     (if j < length v
      then
        (let token = (if i < length p then Some (p ! i) else None) in
         if token = Some CHR ''?'' \<or> token = Some (v ! j) then wildcard_loop p v (Suc i) (Suc j) star
         else if token = Some CHR ''*'' then wildcard_loop p v (Suc i) j (Some (i, j))
         else (case star of
                 Some (si, sj) \<Rightarrow> wildcard_loop p v (Suc si) (Suc sj) (Some (si, Suc sj))
               | None \<Rightarrow> None))
      else Some i)"
  by pat_completeness auto

termination
proof (relation "measures
    [\<lambda>(p, v, i, j, star). case star of None \<Rightarrow> length v + 1 | Some (si, sj) \<Rightarrow> length v - min sj j,
     \<lambda>(p, v, i, j, star). (length p - i) + (length v - j)]")
qed (auto split: if_splits option.splits)

declare wildcard_loop.simps [simp del]

function skip_stars :: "string \<Rightarrow> nat \<Rightarrow> nat" where
  "skip_stars p i = (if i < length p \<and> p ! i = CHR ''*'' then skip_stars p (Suc i) else i)"
  by pat_completeness auto
termination
  by (relation "measure (\<lambda>(p, i). length p - i)") auto

declare skip_stars.simps [simp del]

definition matchesWildcardPattern :: "string \<Rightarrow> string \<Rightarrow> bool" where
  "matchesWildcardPattern p v =
     (case wildcard_loop p v 0 0 None of None \<Rightarrow> False | Some i \<Rightarrow> skip_stars p i = length p)"

section \<open>What a pattern means\<close>

text \<open>\<open>*\<close> stands for any text, \<open>?\<close> for any character, every other character for itself.\<close>

fun glob :: "string \<Rightarrow> string \<Rightarrow> bool" where
  "glob [] v = (v = [])"
| "glob (c # p) [] = (c = CHR ''*'' \<and> glob p [])"
| "glob (c # p) (d # v) =
     (if c = CHR ''*'' then glob p (d # v) \<or> glob (c # p) v
      else (c = CHR ''?'' \<or> c = d) \<and> glob p v)"

text \<open>What follows a \<open>*\<close>: the rest of the pattern matches some rest of the value.\<close>

definition glob_star :: "string \<Rightarrow> string \<Rightarrow> bool" where
  "glob_star p v \<longleftrightarrow> (\<exists>k. glob p (drop k v))"

lemma glob_star_Nil: "glob_star p [] = glob p []"
  by (simp add: glob_star_def)

lemma glob_star_Cons: "glob_star p (d # v) \<longleftrightarrow> glob p (d # v) \<or> glob_star p v"
proof
  assume "glob_star p (d # v)"
  then obtain k where "glob p (drop k (d # v))" by (auto simp: glob_star_def)
  then show "glob p (d # v) \<or> glob_star p v"
    by (cases k) (auto simp: glob_star_def)
next
  assume "glob p (d # v) \<or> glob_star p v"
  then show "glob_star p (d # v)"
    unfolding glob_star_def by (metis drop0 drop_Suc_Cons)
qed

lemma glob_star: "glob (CHR ''*'' # p) v = glob_star p v"
  by (induction v) (simp_all add: glob_star_Nil glob_star_Cons)

lemma glob_star_drop: "glob_star p (drop k v) \<Longrightarrow> glob_star p v"
  unfolding glob_star_def by (metis drop_drop)

text \<open>A stretch of pattern characters that consumed a stretch of the value one for one.\<close>

definition step_match :: "char \<Rightarrow> char \<Rightarrow> bool" where
  "step_match c d \<longleftrightarrow> c = CHR ''?'' \<or> c = d"

lemma glob_step: "list_all2 step_match s w \<Longrightarrow> glob p v \<Longrightarrow> glob (s @ p) (w @ v)"
proof (induction s w rule: list_all2_induct)
  case (Cons c s d w)
  show ?case
  proof (cases "c = CHR ''*''")
    case True
    then have "glob (CHR ''*'' # s @ p) (w @ v)"
      unfolding glob_star glob_star_def using Cons by (intro exI [of _ 0]) simp
    with True Cons show ?thesis by (simp add: step_match_def)
  next
    case False
    with Cons show ?thesis by (auto simp: step_match_def)
  qed
qed simp

lemma glob_step_iff:
  assumes "list_all2 step_match s w" and "CHR ''*'' \<notin> set s"
  shows "glob (s @ p) (w @ v) = glob p v"
  using assms by (induction s w rule: list_all2_induct) (auto simp: step_match_def)

lemma glob_prefix_split:
  "glob (s @ p) v \<Longrightarrow> CHR ''*'' \<notin> set s \<Longrightarrow> \<exists>v'. v' = drop (length s) v \<and> glob p v' \<and> length s \<le> length v"
proof (induction s arbitrary: v)
  case (Cons c s)
  then show ?case by (cases v) auto
qed simp

lemma glob_stars: "list_all (\<lambda>c. c = CHR ''*'') p \<longleftrightarrow> glob p []"
  by (induction p) auto

lemma skip_stars_end: "i \<le> length p \<Longrightarrow> skip_stars p i = length p \<longleftrightarrow> glob (drop i p) []"
proof (induction p i rule: skip_stars.induct)
  case (1 p i)
  show ?case
  proof (cases "i < length p \<and> p ! i = CHR ''*''")
    case True
    then have "drop i p = CHR ''*'' # drop (Suc i) p"
      using Cons_nth_drop_Suc [of i p] by simp
    with "1.IH" [OF True] True show ?thesis by (simp add: skip_stars.simps [of p i])
  next
    case False
    then have stop: "skip_stars p i = i"
      by (subst skip_stars.simps) auto
    show ?thesis
    proof (cases "i < length p")
      case True
      then have "drop i p = p ! i # drop (Suc i) p" by (simp add: Cons_nth_drop_Suc)
      with False True stop show ?thesis by simp
    qed (use stop "1.prems" in simp)
  qed
qed

section \<open>The loop against the meaning\<close>

definition loop_result :: "string \<Rightarrow> nat option \<Rightarrow> bool" where
  "loop_result p r = (case r of None \<Rightarrow> False | Some i \<Rightarrow> skip_stars p i = length p)"

definition star_inv :: "string \<Rightarrow> string \<Rightarrow> nat \<Rightarrow> nat \<Rightarrow> (nat \<times> nat) option \<Rightarrow> bool" where
  "star_inv p v i j star \<longleftrightarrow> i \<le> length p \<and> j \<le> length v \<and>
     (case star of None \<Rightarrow> True
      | Some (si, sj) \<Rightarrow> si < length p \<and> (\<exists>s w. drop (Suc si) p = s @ drop i p \<and> drop sj v = w @ drop j v \<and>
          list_all2 step_match s w \<and> (CHR ''*'' \<notin> set v \<longrightarrow> CHR ''*'' \<notin> set s)))"

definition star_spec :: "string \<Rightarrow> string \<Rightarrow> nat \<Rightarrow> nat \<Rightarrow> (nat \<times> nat) option \<Rightarrow> bool" where
  "star_spec p v i j star =
     (case star of None \<Rightarrow> glob (drop i p) (drop j v)
      | Some (si, sj) \<Rightarrow> glob_star (drop (Suc si) p) (drop sj v))"

lemma star_inv_Some:
  assumes "star_inv p v i j (Some (si, sj))"
  shows "\<exists>s w. drop (Suc si) p = s @ drop i p \<and> drop sj v = w @ drop j v \<and> list_all2 step_match s w \<and>
    (CHR ''*'' \<notin> set v \<longrightarrow> CHR ''*'' \<notin> set s) \<and> length s = length w"
  using assms unfolding star_inv_def by (auto dest: list_all2_lengthD)

text \<open>Each of the four moves of the loop keeps the invariant and the meaning.\<close>

lemma consume_inv:
  assumes inv: "star_inv p v i j star" and i: "i < length p" and j: "j < length v" and m: "step_match (p ! i) (v ! j)"
  shows "star_inv p v (Suc i) (Suc j) star"
proof (cases star)
  case (Some x)
  obtain si sj where x: "x = (si, sj)" by force
  from inv Some x obtain s w where s: "drop (Suc si) p = s @ drop i p" "drop sj v = w @ drop j v"
    "list_all2 step_match s w" "CHR ''*'' \<notin> set v \<Longrightarrow> CHR ''*'' \<notin> set s"
    using star_inv_Some by blast
  have "drop (Suc si) p = (s @ [p ! i]) @ drop (Suc i) p" "drop sj v = (w @ [v ! j]) @ drop (Suc j) v"
    using s i j by (simp_all add: Cons_nth_drop_Suc)
  moreover have "list_all2 step_match (s @ [p ! i]) (w @ [v ! j])"
    using s(3) m by (simp add: list_all2_appendI)
  moreover have "CHR ''*'' \<notin> set v \<longrightarrow> CHR ''*'' \<notin> set (s @ [p ! i])"
    using s(4) m nth_mem [OF j] by (auto simp: step_match_def)
  ultimately show ?thesis
    using inv Some x i j unfolding star_inv_def by (auto intro!: exI)
qed (use inv i j in \<open>simp add: star_inv_def\<close>)

lemma star_move_inv:
  assumes "star_inv p v i j star" and "i < length p"
  shows "star_inv p v (Suc i) j (Some (i, j))"
  using assms by (auto simp: star_inv_def intro!: exI [of _ "[]"])

lemma backtrack_inv:
  assumes inv: "star_inv p v i j (Some (si, sj))" and j: "j < length v"
  shows "star_inv p v (Suc si) (Suc sj) (Some (si, Suc sj))" and "sj < length v"
proof -
  from inv obtain s w where "drop sj v = w @ drop j v" using star_inv_Some by blast
  then have "drop sj v \<noteq> []" using j by auto
  then show "sj < length v" by simp
  with inv show "star_inv p v (Suc si) (Suc sj) (Some (si, Suc sj))"
    by (auto simp: star_inv_def intro!: exI [of _ "[]"])
qed

lemma end_spec:
  assumes inv: "star_inv p v i j star" and j: "\<not> j < length v"
  shows "loop_result p (Some i) \<Longrightarrow> star_spec p v i j star"
    and "CHR ''*'' \<notin> set v \<Longrightarrow> star_spec p v i j star \<Longrightarrow> loop_result p (Some i)"
proof -
  have nil: "drop j v = []" using j by simp
  have res: "loop_result p (Some i) \<longleftrightarrow> glob (drop i p) []"
    using inv skip_stars_end [of i p] by (simp add: loop_result_def star_inv_def)
  show "star_spec p v i j star" if "loop_result p (Some i)"
  proof (cases star)
    case (Some x)
    obtain si sj where x: "x = (si, sj)" by force
    from inv Some x obtain s w where s: "drop (Suc si) p = s @ drop i p" "drop sj v = w @ drop j v"
      "list_all2 step_match s w" using star_inv_Some by blast
    have "glob (s @ drop i p) (w @ [])"
      using glob_step [OF s(3)] that res by blast
    then show ?thesis
      using Some x s nil by (auto simp: star_spec_def glob_star_def intro!: exI [of _ 0])
  qed (use that res nil in \<open>simp add: star_spec_def\<close>)
  show "loop_result p (Some i)" if v: "CHR ''*'' \<notin> set v" and spec: "star_spec p v i j star"
  proof (cases star)
    case (Some x)
    obtain si sj where x: "x = (si, sj)" by force
    from inv Some x obtain s w where s: "drop (Suc si) p = s @ drop i p" "drop sj v = w @ drop j v"
      "CHR ''*'' \<notin> set s" "length s = length w" using v using star_inv_Some by blast
    obtain k where "glob (s @ drop i p) (drop k w)"
      using spec Some x s nil by (auto simp: star_spec_def glob_star_def)
    from glob_prefix_split [OF this s(3)] show ?thesis
      using s(4) by (auto simp: res)
  qed (use spec nil res in \<open>simp add: star_spec_def\<close>)
qed

lemma consume_spec:
  assumes i: "i < length p" and j: "j < length v" and m: "step_match (p ! i) (v ! j)"
  shows "star_spec p v (Suc i) (Suc j) star \<Longrightarrow> star_spec p v i j star"
    and "CHR ''*'' \<notin> set v \<Longrightarrow> star_spec p v i j star \<Longrightarrow> star_spec p v (Suc i) (Suc j) star"
proof -
  have d: "drop i p = [p ! i] @ drop (Suc i) p" "drop j v = [v ! j] @ drop (Suc j) v"
    using i j by (simp_all add: Cons_nth_drop_Suc)
  have l: "list_all2 step_match [p ! i] [v ! j]" using m by simp
  have "glob (drop i p) (drop j v)" if "glob (drop (Suc i) p) (drop (Suc j) v)"
    unfolding d by (rule glob_step [OF l that])
  then show "star_spec p v i j star" if "star_spec p v (Suc i) (Suc j) star"
    using that by (cases star) (auto simp: star_spec_def)
  show "star_spec p v (Suc i) (Suc j) star" if "CHR ''*'' \<notin> set v" "star_spec p v i j star"
  proof -
    have "CHR ''*'' \<notin> set [p ! i]"
      using that(1) m nth_mem [OF j] by (auto simp: step_match_def)
    then have "glob (drop i p) (drop j v) = glob (drop (Suc i) p) (drop (Suc j) v)"
      unfolding d by (rule glob_step_iff [OF l])
    with that(2) show ?thesis
      by (cases star) (auto simp: star_spec_def)
  qed
qed

lemma star_move_spec:
  assumes inv: "star_inv p v i j star" and i: "i < length p" "p ! i = CHR ''*''"
  shows "star_spec p v (Suc i) j (Some (i, j)) \<Longrightarrow> star_spec p v i j star"
    and "CHR ''*'' \<notin> set v \<Longrightarrow> star_spec p v i j star \<Longrightarrow> star_spec p v (Suc i) j (Some (i, j))"
proof -
  have d: "drop i p = CHR ''*'' # drop (Suc i) p"
    using i Cons_nth_drop_Suc [of i p] by simp
  have eq: "star_spec p v (Suc i) j (Some (i, j)) = glob (drop i p) (drop j v)"
    by (simp add: star_spec_def d glob_star)
  show "star_spec p v i j star" if new: "star_spec p v (Suc i) j (Some (i, j))"
  proof (cases star)
    case (Some x)
    obtain si sj where x: "x = (si, sj)" by force
    from inv Some x obtain s w where s: "drop (Suc si) p = s @ drop i p" "drop sj v = w @ drop j v"
      "list_all2 step_match s w" using star_inv_Some by blast
    have "glob (s @ drop i p) (w @ drop j v)"
      using glob_step [OF s(3)] new eq by blast
    then have "glob_star (drop (Suc si) p) (drop sj v)"
      unfolding glob_star_def s by (intro exI [of _ 0]) simp
    then show ?thesis using Some x by (simp add: star_spec_def)
  qed (use new eq in \<open>simp add: star_spec_def\<close>)
  show "star_spec p v (Suc i) j (Some (i, j))" if v: "CHR ''*'' \<notin> set v" and spec: "star_spec p v i j star"
  proof (cases star)
    case (Some x)
    obtain si sj where x: "x = (si, sj)" by force
    from inv Some x obtain s w where s: "drop (Suc si) p = s @ drop i p" "drop sj v = w @ drop j v"
      "CHR ''*'' \<notin> set s" "length s = length w" using v star_inv_Some by blast
    have "glob_star (s @ drop i p) (w @ drop j v)"
      using spec Some x s(1,2) by (simp add: star_spec_def)
    then obtain k where "glob (s @ drop i p) (drop k (w @ drop j v))"
      unfolding glob_star_def by blast
    from glob_prefix_split [OF this s(3)]
    have "glob (drop i p) (drop (length s) (drop k (w @ drop j v)))" by simp
    moreover have "drop (length s) (drop k (w @ drop j v)) = drop k (drop j v)"
      using s(4) by (metis add.commute append_eq_conv_conj drop_drop)
    ultimately have "glob_star (drop (Suc i) p) (drop k (drop j v))"
      unfolding d glob_star by simp
    from glob_star_drop [OF this] show ?thesis by (simp add: star_spec_def)
  qed (use spec eq in \<open>simp add: star_spec_def\<close>)
qed

lemma mismatch_not_glob:
  assumes "j < length v" and "\<not> (i < length p \<and> (p ! i = CHR ''?'' \<or> p ! i = v ! j \<or> p ! i = CHR ''*''))"
  shows "\<not> glob (drop i p) (drop j v)"
proof -
  have v: "drop j v = v ! j # drop (Suc j) v" using assms(1) by (simp add: Cons_nth_drop_Suc)
  show ?thesis
  proof (cases "i < length p")
    case True
    then have "drop i p = p ! i # drop (Suc i) p" by (simp add: Cons_nth_drop_Suc)
    with True assms(2) v show ?thesis by simp
  qed (use v in simp)
qed

lemma backtrack_spec:
  assumes inv: "star_inv p v i j (Some (si, sj))" and j: "j < length v"
    and no: "\<not> (i < length p \<and> (p ! i = CHR ''?'' \<or> p ! i = v ! j \<or> p ! i = CHR ''*''))"
  shows "star_spec p v (Suc si) (Suc sj) (Some (si, Suc sj)) \<Longrightarrow> star_spec p v i j (Some (si, sj))"
    and "CHR ''*'' \<notin> set v \<Longrightarrow> star_spec p v i j (Some (si, sj)) \<Longrightarrow>
      star_spec p v (Suc si) (Suc sj) (Some (si, Suc sj))"
proof -
  have d: "drop sj v = v ! sj # drop (Suc sj) v"
    using backtrack_inv(2) [OF inv j] by (simp add: Cons_nth_drop_Suc)
  show "star_spec p v i j (Some (si, sj))" if "star_spec p v (Suc si) (Suc sj) (Some (si, Suc sj))"
    using that d glob_star_Cons [of "drop (Suc si) p" "v ! sj" "drop (Suc sj) v"] by (simp add: star_spec_def)
  show "star_spec p v (Suc si) (Suc sj) (Some (si, Suc sj))"
    if v: "CHR ''*'' \<notin> set v" and spec: "star_spec p v i j (Some (si, sj))"
  proof -
    from inv obtain s w where s: "drop (Suc si) p = s @ drop i p" "drop sj v = w @ drop j v"
      "list_all2 step_match s w" "CHR ''*'' \<notin> set s" using v star_inv_Some by blast
    have "\<not> glob (drop (Suc si) p) (drop sj v)"
      unfolding s glob_step_iff [OF s(3,4)] by (rule mismatch_not_glob [OF j no])
    then show ?thesis
      using spec glob_star_Cons [of "drop (Suc si) p" "v ! sj" "drop (Suc sj) v"] d by (simp add: star_spec_def)
  qed
qed

lemma wildcard_loop_spec:
  assumes "star_inv p v i j star"
  shows "(loop_result p (wildcard_loop p v i j star) \<longrightarrow> star_spec p v i j star) \<and>
    (CHR ''*'' \<notin> set v \<longrightarrow> star_spec p v i j star \<longrightarrow> loop_result p (wildcard_loop p v i j star))"
  using assms
proof (induction p v i j star rule: wildcard_loop.induct)
  case (1 p v i j star)
  let ?token = "if i < length p then Some (p ! i) else None"
  consider (finished) "\<not> j < length v"
    | (consume) "j < length v" "i < length p" "step_match (p ! i) (v ! j)"
    | (star) "j < length v" "i < length p" "\<not> step_match (p ! i) (v ! j)" "p ! i = CHR ''*''"
    | (miss) "j < length v" "\<not> (i < length p \<and> (p ! i = CHR ''?'' \<or> p ! i = v ! j \<or> p ! i = CHR ''*''))"
    unfolding step_match_def by metis
  then show ?case
  proof cases
    case finished
    then show ?thesis
      using end_spec [OF "1.prems" finished] by (simp add: wildcard_loop.simps [of p v i j])
  next
    case consume
    then have eq: "wildcard_loop p v i j star = wildcard_loop p v (Suc i) (Suc j) star"
      by (simp add: wildcard_loop.simps [of p v i j] step_match_def)
    have "?token = Some CHR ''?'' \<or> ?token = Some (v ! j)"
      using consume by (simp add: step_match_def)
    from "1.IH"(1) [OF consume(1) refl this consume_inv [OF "1.prems" consume(2,1,3)]]
    show ?thesis
      unfolding eq using consume_spec [OF consume(2,1,3), of star] by blast
  next
    case star
    then have eq: "wildcard_loop p v i j star = wildcard_loop p v (Suc i) j (Some (i, j))"
      by (simp add: wildcard_loop.simps [of p v i j star] step_match_def)
    have "\<not> (?token = Some CHR ''?'' \<or> ?token = Some (v ! j))" "?token = Some CHR ''*''"
      using star by (auto simp: step_match_def)
    from "1.IH"(2) [OF star(1) refl this star_move_inv [OF "1.prems" star(2)]]
    show ?thesis
      unfolding eq using star_move_spec [OF "1.prems" star(2,4)] by blast
  next
    case miss
    have no: "\<not> (?token = Some CHR ''?'' \<or> ?token = Some (v ! j))" "?token \<noteq> Some CHR ''*''"
      using miss(2) by auto
    show ?thesis
    proof (cases star)
      case None
      then have "wildcard_loop p v i j star = None"
        using miss(1) no by (simp add: wildcard_loop.simps [of p v i j])
      then show ?thesis
        using mismatch_not_glob [OF miss] None by (simp add: loop_result_def star_spec_def)
    next
      case (Some x)
      obtain si sj where x: "x = (si, sj)" by force
      have eq: "wildcard_loop p v i j (Some (si, sj)) = wildcard_loop p v (Suc si) (Suc sj) (Some (si, Suc sj))"
        using miss(1) no by (simp add: wildcard_loop.simps [of p v i j])
      have inv: "star_inv p v i j (Some (si, sj))" using "1.prems" Some x by simp
      from "1.IH"(3) [OF miss(1) refl no Some x [symmetric] backtrack_inv(1) [OF inv miss(1)]]
      show ?thesis
        unfolding Some x eq using backtrack_spec [OF inv miss] by blast
    qed
  qed
qed

section \<open>Rules, policies and requests\<close>

datatype PermissionEffect = Eff_allow | Eff_ask | Eff_deny

datatype PermissionRiskLevel = Risk_low | Risk_medium | Risk_high | Risk_critical

datatype PolicyDomain =
    Dom_command | Dom_path | Dom_network | Dom_git | Dom_package_manager | Dom_secret
  | Dom_external_service | Dom_tool

primrec domain_name :: "PolicyDomain \<Rightarrow> string" where
  "domain_name Dom_command = ''command''"
| "domain_name Dom_path = ''path''"
| "domain_name Dom_network = ''network''"
| "domain_name Dom_git = ''git''"
| "domain_name Dom_package_manager = ''package_manager''"
| "domain_name Dom_secret = ''secret''"
| "domain_name Dom_external_service = ''external_service''"
| "domain_name Dom_tool = ''tool''"

primrec effect_name :: "PermissionEffect \<Rightarrow> string" where
  "effect_name Eff_allow = ''allow''"
| "effect_name Eff_ask = ''ask''"
| "effect_name Eff_deny = ''deny''"

record PermissionRule =
  rule_id :: string
  rule_pattern :: string
  rule_effect :: PermissionEffect
  rule_reason :: "string option"
  rule_riskLevel :: "PermissionRiskLevel option"
  rule_approvalPrompt :: "string option"

record RuleSetPolicy =
  defaultEffect :: PermissionEffect
  defaultRiskLevel :: PermissionRiskLevel
  rules :: "PermissionRule list"

record PermissionPolicy =
  pol_commands :: RuleSetPolicy
  pol_paths :: RuleSetPolicy
  pol_network :: RuleSetPolicy
  pol_git :: RuleSetPolicy
  pol_packageManagers :: RuleSetPolicy
  pol_secrets :: RuleSetPolicy
  pol_externalServices :: RuleSetPolicy
  pol_tools :: RuleSetPolicy

datatype PermissionRequest =
    Command_request string
  | Path_request string string
  | Network_request string string
  | Git_request string
  | Package_manager_request string string
  | Secret_request string string
  | External_service_request string string
  | Tool_request string "string option"

record PolicyDecisionResult =
  dec_domain :: PolicyDomain
  dec_subject :: string
  dec_effect :: PermissionEffect
  dec_reason :: string
  dec_riskLevel :: PermissionRiskLevel
  dec_matchedRule :: "PermissionRule option"
  dec_approval :: "string option"

text \<open>What the evaluation uses of a parsed URL.\<close>

record policy_url =
  url_hostname :: string
  url_href :: string

section \<open>Evaluation\<close>

definition last_rule :: "(PermissionRule \<Rightarrow> bool) \<Rightarrow> PermissionRule list \<Rightarrow> PermissionRule option" where
  "last_rule matches rs = fold (\<lambda>r found. if matches r then Some r else found) rs None"

definition findLastMatchingRule :: "PermissionRule list \<Rightarrow> string \<Rightarrow> PermissionRule option" where
  "findLastMatchingRule rs subject = last_rule (\<lambda>r. matchesWildcardPattern (rule_pattern r) subject) rs"

definition normalizePolicySubject :: "string \<Rightarrow> string" where
  "normalizePolicySubject subject =
     (let s = map (\<lambda>c. if c = CHR 0x5C then CHR ''/'' else c) subject
      in if startsWith s ''./'' then drop 2 s else s)"

definition defaultReason :: "PolicyDomain \<Rightarrow> PermissionEffect \<Rightarrow> PermissionRule option \<Rightarrow> string" where
  "defaultReason domain effect matched =
     (case matched of
        Some r \<Rightarrow> ''Matched '' @ domain_name domain @ '' policy rule '' @ [CHR 0x22] @ rule_id r @ [CHR 0x22] @ ''.''
      | None \<Rightarrow> ''Applied '' @ domain_name domain @ '' default policy '' @ [CHR 0x22] @ effect_name effect @ [CHR 0x22] @ ''.'')"

definition buildApprovalRequest :: "PolicyDomain \<Rightarrow> string \<Rightarrow> PermissionRule option \<Rightarrow> string \<Rightarrow> string" where
  "buildApprovalRequest domain subject matched reason =
     (case Option.bind matched rule_approvalPrompt of
        Some prompt \<Rightarrow> prompt
      | None \<Rightarrow> ''Allow '' @ domain_name domain @ '' action for '' @ [CHR 0x22] @ subject @ [CHR 0x22] @ ''? '' @ reason)"

definition createDecision ::
  "PolicyDomain \<Rightarrow> string \<Rightarrow> PermissionEffect \<Rightarrow> PermissionRule option \<Rightarrow> PermissionRiskLevel \<Rightarrow> PolicyDecisionResult" where
  "createDecision domain subject effect matched risk =
     (let reason = (case Option.bind matched rule_reason of
                      Some r \<Rightarrow> r | None \<Rightarrow> defaultReason domain effect matched)
      in \<lparr>dec_domain = domain, dec_subject = subject, dec_effect = effect, dec_reason = reason,
          dec_riskLevel = risk, dec_matchedRule = matched,
          dec_approval =
            (if effect = Eff_ask then Some (buildApprovalRequest domain subject matched reason) else None)\<rparr>)"

definition deny :: "PolicyDomain \<Rightarrow> string \<Rightarrow> string \<Rightarrow> PolicyDecisionResult" where
  "deny domain subject reason =
     \<lparr>dec_domain = domain, dec_subject = subject, dec_effect = Eff_deny, dec_reason = reason,
      dec_riskLevel = Risk_critical, dec_matchedRule = None, dec_approval = None\<rparr>"

definition effect_of :: "RuleSetPolicy \<Rightarrow> PermissionRule option \<Rightarrow> PermissionEffect" where
  "effect_of policy matched = (case matched of Some r \<Rightarrow> rule_effect r | None \<Rightarrow> defaultEffect policy)"

definition risk_of :: "RuleSetPolicy \<Rightarrow> PermissionRule option \<Rightarrow> PermissionRiskLevel" where
  "risk_of policy matched =
     (case Option.bind matched rule_riskLevel of Some l \<Rightarrow> l | None \<Rightarrow> defaultRiskLevel policy)"

definition evaluateRuleSet :: "PolicyDomain \<Rightarrow> string \<Rightarrow> RuleSetPolicy \<Rightarrow> PolicyDecisionResult" where
  "evaluateRuleSet domain rawSubject policy =
     (let subject = normalizePolicySubject rawSubject;
          matched = findLastMatchingRule (rules policy) subject
      in createDecision domain subject (effect_of policy matched) matched (risk_of policy matched))"

definition isPathTraversal :: "string \<Rightarrow> bool" where
  "isPathTraversal path \<longleftrightarrow> path = ''..'' \<or> startsWith path ''../'' \<or> str_includes path ''/../''"

definition evaluatePathPermission :: "RuleSetPolicy \<Rightarrow> string \<Rightarrow> string \<Rightarrow> PolicyDecisionResult" where
  "evaluatePathPermission policy rawPath operation =
     (let subject = normalizePolicySubject rawPath in
      if isPathTraversal subject
      then deny Dom_path subject ''Path traversal outside the workspace is denied.''
      else
        let operationSubject = operation @ '':'' @ subject;
            matched = findLastMatchingRule (rules policy) operationSubject
        in createDecision Dom_path operationSubject (effect_of policy matched) matched (risk_of policy matched))"

definition findLastMatchingNetworkRule :: "PermissionRule list \<Rightarrow> policy_url \<Rightarrow> string \<Rightarrow> PermissionRule option" where
  "findLastMatchingNetworkRule rs url operation =
     last_rule (\<lambda>r. matchesWildcardPattern (rule_pattern r) (operation @ '':'' @ url_hostname url) \<or>
                    matchesWildcardPattern (rule_pattern r) (operation @ '':'' @ url_href url)) rs"

definition findLastMatchingToolRule :: "PermissionRule list \<Rightarrow> string \<Rightarrow> string \<Rightarrow> PermissionRule option" where
  "findLastMatchingToolRule rs toolName subject =
     last_rule (\<lambda>r. matchesWildcardPattern (rule_pattern r) toolName \<or>
                    matchesWildcardPattern (rule_pattern r) subject) rs"

definition normalized_host :: "string \<Rightarrow> string" where
  "normalized_host hostname =
     (let h1 = toLowerCase hostname;
          h2 = (if startsWith h1 ''['' then drop 1 h1 else h1);
          h3 = (if h2 \<noteq> [] \<and> endsWith h2 '']'' then butlast h2 else h2)
      in if endsWith h3 ''.'' then butlast h3 else h3)"

text \<open>The host tests, with \<open>/^172\.(1[6-9]|2\d|3[0-1])\./\<close> and \<open>/^fe[89ab]/\<close> written out.\<close>

definition private_172 :: "string \<Rightarrow> bool" where
  "private_172 h \<longleftrightarrow>
     startsWith h ''172.'' \<and> 7 \<le> length h \<and> h ! 6 = CHR ''.'' \<and>
     ((h ! 4 = CHR ''1'' \<and> h ! 5 \<in> set ''6789'') \<or> (h ! 4 = CHR ''2'' \<and> h ! 5 \<in> set ''0123456789'') \<or>
      (h ! 4 = CHR ''3'' \<and> h ! 5 \<in> set ''01''))"

definition isLocalNetworkHost :: "string \<Rightarrow> bool" where
  "isLocalNetworkHost hostname \<longleftrightarrow>
     (let h = normalized_host hostname in
      h = ''localhost'' \<or> endsWith h ''.localhost'' \<or> h = ''0.0.0.0'' \<or> startsWith h ''10.'' \<or>
      startsWith h ''127.'' \<or> startsWith h ''169.254.'' \<or> startsWith h ''192.168.'' \<or> private_172 h \<or>
      h = ''::'' \<or> h = ''::1'' \<or> startsWith h ''fc'' \<or> startsWith h ''fd'' \<or>
      (startsWith h ''fe'' \<and> 3 \<le> length h \<and> h ! 2 \<in> set ''89ab''))"

definition evaluateNetworkPermission ::
  "(string \<Rightarrow> policy_url option) \<Rightarrow> RuleSetPolicy \<Rightarrow> string \<Rightarrow> string \<Rightarrow> PolicyDecisionResult" where
  "evaluateNetworkPermission parseUrl policy rawUrl operation =
     (case parseUrl rawUrl of
        None \<Rightarrow> deny Dom_network rawUrl ''Invalid URLs are denied.''
      | Some url \<Rightarrow>
          let matched = findLastMatchingNetworkRule (rules policy) url operation;
              subject = operation @ '':'' @ url_href url
          in if isLocalNetworkHost (url_hostname url) \<and> map_option rule_effect matched \<noteq> Some Eff_allow
             then deny Dom_network subject ''Local network access requires an allow rule.''
             else createDecision Dom_network subject (effect_of policy matched) matched (risk_of policy matched))"

definition evaluateToolPermission :: "RuleSetPolicy \<Rightarrow> string \<Rightarrow> string option \<Rightarrow> PolicyDecisionResult" where
  "evaluateToolPermission policy toolName action =
     (let subject = normalizePolicySubject
            (if truthy action then toolName @ '':'' @ the action else toolName);
          matched = findLastMatchingToolRule (rules policy) toolName subject
      in createDecision Dom_tool subject (effect_of policy matched) matched (risk_of policy matched))"

primrec evaluatePermission ::
  "(string \<Rightarrow> policy_url option) \<Rightarrow> PermissionPolicy \<Rightarrow> PermissionRequest \<Rightarrow> PolicyDecisionResult" where
  "evaluatePermission parseUrl policy (Command_request command) =
     evaluateRuleSet Dom_command command (pol_commands policy)"
| "evaluatePermission parseUrl policy (Path_request path operation) =
     evaluatePathPermission (pol_paths policy) path operation"
| "evaluatePermission parseUrl policy (Network_request url operation) =
     evaluateNetworkPermission parseUrl (pol_network policy) url operation"
| "evaluatePermission parseUrl policy (Git_request operation) =
     evaluateRuleSet Dom_git operation (pol_git policy)"
| "evaluatePermission parseUrl policy (Package_manager_request manager operation) =
     evaluateRuleSet Dom_package_manager (manager @ '':'' @ operation) (pol_packageManagers policy)"
| "evaluatePermission parseUrl policy (Secret_request secretRef operation) =
     evaluateRuleSet Dom_secret (operation @ '':'' @ secretRef) (pol_secrets policy)"
| "evaluatePermission parseUrl policy (External_service_request service operation) =
     evaluateRuleSet Dom_external_service (service @ '':'' @ operation) (pol_externalServices policy)"
| "evaluatePermission parseUrl policy (Tool_request toolName action) =
     evaluateToolPermission (pol_tools policy) toolName action"

section \<open>Properties of the matcher\<close>

lemma matches_loop_result: "matchesWildcardPattern p v = loop_result p (wildcard_loop p v 0 0 None)"
  by (simp add: matchesWildcardPattern_def loop_result_def)

text \<open>
  The matcher is sound: whenever the loop accepts a value, the pattern describes it, with \<open>*\<close> for any
  text and \<open>?\<close> for any character.
\<close>
theorem wildcard_match_sound:
  assumes "matchesWildcardPattern p v"
  shows "glob p v"
  using assms wildcard_loop_spec [of p v 0 0 None]
  by (simp add: matches_loop_result star_inv_def star_spec_def)

lemma wildcard_match_sound_witness:
  "matchesWildcardPattern ''git *'' ''git st'' \<and> glob ''git *'' ''git st''"
proof -
  have m: "matchesWildcardPattern ''git *'' ''git st''"
    by (simp add: matchesWildcardPattern_def wildcard_loop.simps skip_stars.simps)
  with wildcard_match_sound [OF m] show ?thesis by simp
qed

text \<open>
  C21. On a value without asterisks the greedy loop with its single backtracking point accepts exactly
  the values the pattern describes.
\<close>
theorem wildcard_match_complete:
  assumes "CHR ''*'' \<notin> set v"
  shows "matchesWildcardPattern p v \<longleftrightarrow> glob p v"
  using assms wildcard_loop_spec [of p v 0 0 None]
  by (auto simp: matches_loop_result star_inv_def star_spec_def)

lemma wildcard_match_complete_witness:
  "matchesWildcardPattern ''a*b?c'' ''abxbzc'' \<longleftrightarrow> glob ''a*b?c'' ''abxbzc''"
  by (rule wildcard_match_complete) simp

text \<open>
  On a value that contains an asterisk the matcher misses matches: an asterisk of the pattern that
  meets an asterisk of the value is consumed as a literal, so the pattern \<open>rm *\<close> does not match the
  command \<open>rm *.txt\<close>, and a policy that denies \<open>rm *\<close> and allows the rest allows it.
\<close>
theorem wildcard_misses_literal_asterisk:
  "glob ''rm *'' ''rm *.txt'' \<and> \<not> matchesWildcardPattern ''rm *'' ''rm *.txt'' \<and>
   dec_effect (evaluateRuleSet Dom_command ''rm *.txt''
     \<lparr>defaultEffect = Eff_allow, defaultRiskLevel = Risk_low,
      rules = [\<lparr>rule_id = ''no-rm'', rule_pattern = ''rm *'', rule_effect = Eff_deny, rule_reason = None,
                rule_riskLevel = None, rule_approvalPrompt = None\<rparr>]\<rparr>) = Eff_allow"
  by (simp add: matchesWildcardPattern_def wildcard_loop.simps skip_stars.simps evaluateRuleSet_def Let_def
      normalizePolicySubject_def startsWith_def findLastMatchingRule_def last_rule_def createDecision_def effect_of_def)

section \<open>Properties of the evaluation\<close>

lemma last_rule_filter: "last_rule f rs = (if filter f rs = [] then None else Some (last (filter f rs)))"
  unfolding last_rule_def by (induction rs rule: rev_induct) auto

text \<open>
  The last rule that matches decides: a rule set without a matching rule gives its default effect
  and risk, otherwise the last matching rule gives its effect, and an approval prompt is attached
  exactly to the decision to ask.
\<close>
theorem last_matching_rule_decides:
  assumes "d = evaluateRuleSet domain raw policy"
    and "ms = filter (\<lambda>r. matchesWildcardPattern (rule_pattern r) (normalizePolicySubject raw)) (rules policy)"
  shows "dec_effect d = (if ms = [] then defaultEffect policy else rule_effect (last ms)) \<and>
    dec_matchedRule d = (if ms = [] then None else Some (last ms)) \<and>
    (dec_approval d \<noteq> None \<longleftrightarrow> dec_effect d = Eff_ask)"
  unfolding assms
  by (simp add: evaluateRuleSet_def Let_def createDecision_def findLastMatchingRule_def last_rule_filter effect_of_def)

definition sample_policy :: RuleSetPolicy where
  "sample_policy =
     \<lparr>defaultEffect = Eff_ask, defaultRiskLevel = Risk_medium,
      rules = [\<lparr>rule_id = ''default'', rule_pattern = ''git *'', rule_effect = Eff_allow, rule_reason = None,
                rule_riskLevel = None, rule_approvalPrompt = None\<rparr>,
               \<lparr>rule_id = ''push'', rule_pattern = ''git push*'', rule_effect = Eff_deny, rule_reason = None,
                rule_riskLevel = Some Risk_high, rule_approvalPrompt = None\<rparr>]\<rparr>"

lemma last_matching_rule_decides_witness:
  "dec_effect (evaluateRuleSet Dom_command ''git push'' sample_policy) = Eff_deny"
  using last_matching_rule_decides [OF refl refl, of Dom_command "''git push''" sample_policy]
  by (simp add: sample_policy_def normalizePolicySubject_def startsWith_def matchesWildcardPattern_def
      wildcard_loop.simps skip_stars.simps)

text \<open>
  Access to a local network host (loopback, private, link-local, unique-local) is never allowed or
  asked by default: the decision is a denial unless the last matching rule allows it.
\<close>
theorem local_network_needs_allow_rule:
  assumes "parseUrl raw = Some url" and "isLocalNetworkHost (url_hostname url)"
    and "d = evaluateNetworkPermission parseUrl policy raw operation"
  shows "dec_effect d = Eff_deny \<or>
    (\<exists>r. dec_effect d = Eff_allow \<and> dec_matchedRule d = Some r \<and> r \<in> set (rules policy) \<and> rule_effect r = Eff_allow)"
proof -
  let ?f = "\<lambda>r. matchesWildcardPattern (rule_pattern r) (operation @ '':'' @ url_hostname url) \<or>
      matchesWildcardPattern (rule_pattern r) (operation @ '':'' @ url_href url)"
  have "last (filter ?f (rules policy)) \<in> set (rules policy)" if "filter ?f (rules policy) \<noteq> []"
    using last_in_set [OF that] by auto
  then show ?thesis
    using assms(1,2) unfolding assms(3)
    by (auto simp: evaluateNetworkPermission_def Let_def deny_def createDecision_def effect_of_def
        findLastMatchingNetworkRule_def last_rule_filter)
qed

lemma local_network_needs_allow_rule_witness:
  "dec_effect (evaluateNetworkPermission (\<lambda>_. Some \<lparr>url_hostname = ''127.0.0.1'', url_href = ''http://127.0.0.1/''\<rparr>)
     \<lparr>defaultEffect = Eff_allow, defaultRiskLevel = Risk_low, rules = []\<rparr> ''http://127.0.0.1/'' ''fetch'') = Eff_deny"
  using local_network_needs_allow_rule [where parseUrl = "\<lambda>_. Some \<lparr>url_hostname = ''127.0.0.1'', url_href = ''http://127.0.0.1/''\<rparr>"
      and policy = "\<lparr>defaultEffect = Eff_allow, defaultRiskLevel = Risk_low, rules = []\<rparr>"
      and raw = "''http://127.0.0.1/''" and operation = "''fetch''", OF refl _ refl]
  by (simp add: isLocalNetworkHost_def normalized_host_def Let_def lower_char_def toLowerCase_def startsWith_def endsWith_def suffix_def)

section \<open>Paths that leave the workspace\<close>

text \<open>
  The meaning of a relative path: walking its segments from the workspace root, with the current
  depth below it. \<open>escapes\<close> holds when some \<open>..\<close> is taken at the root.
\<close>

fun escapes :: "nat \<Rightarrow> string list \<Rightarrow> bool" where
  "escapes d [] = False"
| "escapes d (s # ss) =
     (if s = [] \<or> s = ''.'' then escapes d ss
      else if s = ''..'' then (case d of 0 \<Rightarrow> True | Suc n \<Rightarrow> escapes n ss)
      else escapes (Suc d) ss)"

fun join_path :: "string list \<Rightarrow> string" where
  "join_path [] = []"
| "join_path [s] = s"
| "join_path (s # ss) = s @ ''/'' @ join_path ss"

lemma join_path_Cons: "ss \<noteq> [] \<Longrightarrow> join_path (s # ss) = s @ ''/'' @ join_path ss"
  by (cases ss) simp_all

lemma join_path_append: "xs \<noteq> [] \<Longrightarrow> ys \<noteq> [] \<Longrightarrow> join_path (xs @ ys) = join_path xs @ ''/'' @ join_path ys"
  by (induction xs rule: join_path.induct) (simp_all add: join_path_Cons)

definition plain_segment :: "string \<Rightarrow> bool" where
  "plain_segment s \<longleftrightarrow> s \<noteq> [] \<and> s \<noteq> ''.'' \<and> CHR ''/'' \<notin> set s \<and> CHR 0x5C \<notin> set s"

lemma escapes_split:
  assumes "escapes d ss" and "list_all plain_segment ss"
  shows "\<exists>xs ys. ss = xs @ ''..'' # ys \<and> (xs = [] \<and> d = 0 \<or> ys \<noteq> [] \<or> length xs + d = 0)"
  using assms
proof (induction d ss rule: escapes.induct)
  case (2 d s ss)
  show ?case
  proof (cases "s = ''..''")
    case True
    then show ?thesis
    proof (cases d)
      case 0
      then show ?thesis using True by (intro exI [of _ "[]"] exI [of _ ss]) simp
    next
      case (Suc n)
      then have "escapes n ss" using 2(4) True by simp
      then have "ss \<noteq> []" by auto
      then show ?thesis using True by (intro exI [of _ "[]"] exI [of _ ss]) simp
    qed
  next
    case False
    then have "escapes (Suc d) ss" "s \<noteq> []" "s \<noteq> ''.''"
      using 2(4,5) by (auto simp: plain_segment_def)
    from 2(3) [OF _ False this(1)] this(2,3) 2(5) obtain xs ys where "ss = xs @ ''..'' # ys" "ys \<noteq> []"
      by auto
    then show ?thesis by (intro exI [of _ "s # xs"] exI [of _ ys]) simp
  qed
qed simp

lemma join_path_traversal:
  assumes "segs = xs @ ''..'' # ys" and "xs = [] \<or> ys \<noteq> []"
  shows "isPathTraversal (join_path segs)"
proof (cases "xs = []")
  case True
  then show ?thesis
    using assms(1) by (cases "ys = []") (auto simp: join_path_Cons isPathTraversal_def startsWith_def prefix_def)
next
  case False
  then have "ys \<noteq> []" using assms(2) by simp
  with False have "join_path segs = join_path xs @ ''/../'' @ join_path ys"
    using assms(1) by (simp add: join_path_append join_path_Cons)
  then have "sublist ''/../'' (join_path segs)" by (auto simp: sublist_def)
  then show ?thesis by (simp add: isPathTraversal_def str_includes_sublist)
qed

lemma normalize_plain:
  assumes "list_all plain_segment segs"
  shows "normalizePolicySubject (join_path segs) = join_path segs"
proof -
  have "CHR 0x5C \<notin> set (join_path segs)"
    using assms by (induction segs rule: join_path.induct) (auto simp: plain_segment_def)
  then have "map (\<lambda>c. if c = CHR 0x5C then CHR ''/'' else c) (join_path segs) = join_path segs"
    by (auto intro: map_idI)
  moreover have "\<not> startsWith (join_path segs) ''./''"
  proof
    assume st: "startsWith (join_path segs) ''./''"
    then obtain rest where r: "join_path segs = CHR ''.'' # CHR ''/'' # rest"
      by (auto simp: startsWith_def prefix_def)
    obtain s ss where segs: "segs = s # ss" using r by (cases segs) auto
    have s: "s \<noteq> []" "s \<noteq> ''.''" "CHR ''/'' \<notin> set s"
      using assms segs by (simp_all add: plain_segment_def)
    obtain tail where tl: "join_path segs = s @ tail \<and> (tail = [] \<or> hd tail = CHR ''/'')"
      using segs by (cases "ss = []") (auto simp: join_path_Cons)
    show False
    proof (cases s)
      case (Cons c cs)
      then have "c = CHR ''.''" "cs @ tail = CHR ''/'' # rest" using r tl by auto
      then have "cs = []" using s(3) Cons by (cases cs) auto
      then show False using Cons s(2) \<open>c = CHR ''.''\<close> by simp
    qed (use s in simp)
  qed
  ultimately show ?thesis by (simp add: normalizePolicySubject_def Let_def)
qed

text \<open>
  C22. A path that leaves the workspace is denied whatever the policy says, when it is written without
  empty and dot segments: if walking its segments takes a \<open>..\<close> at the workspace root, the decision is
  a critical denial.
\<close>
theorem escaping_path_is_denied:
  assumes "list_all plain_segment segs" and "escapes 0 segs"
  shows "dec_effect (evaluatePathPermission policy (join_path segs) operation) = Eff_deny \<and>
    dec_riskLevel (evaluatePathPermission policy (join_path segs) operation) = Risk_critical"
proof -
  obtain xs ys where "segs = xs @ ''..'' # ys" "xs = [] \<or> ys \<noteq> []"
    using escapes_split [OF assms(2,1)] by auto
  from join_path_traversal [OF this] show ?thesis
    by (simp add: evaluatePathPermission_def Let_def normalize_plain [OF assms(1)] deny_def)
qed

lemma escaping_path_is_denied_witness:
  "dec_effect (evaluatePathPermission \<lparr>defaultEffect = Eff_allow, defaultRiskLevel = Risk_low, rules = []\<rparr>
     (join_path [''src'', ''..'', ''..'', ''etc'']) ''read'') = Eff_deny"
  using escaping_path_is_denied [of "[''src'', ''..'', ''..'', ''etc'']"] by (simp add: plain_segment_def)

text \<open>
  Paths with dot segments. The subject of the decision is the path without one leading dot segment.
\<close>

definition path_segment :: "string \<Rightarrow> bool" where
  "path_segment s \<longleftrightarrow> s \<noteq> [] \<and> CHR ''/'' \<notin> set s \<and> CHR 0x5C \<notin> set s"

definition strip_dot :: "string list \<Rightarrow> string list" where
  "strip_dot segs = (if segs \<noteq> [] \<and> hd segs = ''.'' \<and> tl segs \<noteq> [] then tl segs else segs)"

lemma startsWith_dot_slash:
  assumes "path_segment s"
  shows "startsWith (join_path (s # ss)) ''./'' \<longleftrightarrow> s = ''.'' \<and> ss \<noteq> []"
proof (cases "ss = []")
  case True
  then show ?thesis using assms by (auto simp: startsWith_def path_segment_def dest!: set_mono_prefix)
next
  case False
  obtain c cs where "s = c # cs" "CHR ''/'' \<notin> set (c # cs)" using assms by (cases s) (auto simp: path_segment_def)
  with False show ?thesis by (cases cs) (auto simp: startsWith_def join_path_Cons)
qed

lemma normalize_segments:
  assumes "list_all path_segment segs"
  shows "normalizePolicySubject (join_path segs) = join_path (strip_dot segs)"
proof -
  have "CHR 0x5C \<notin> set (join_path segs)"
    using assms by (induction segs rule: join_path.induct) (auto simp: path_segment_def)
  then have slashes: "map (\<lambda>c. if c = CHR 0x5C then CHR ''/'' else c) (join_path segs) = join_path segs"
    by (auto intro: map_idI)
  show ?thesis
  proof (cases segs)
    case (Cons s ss)
    with assms have "startsWith (join_path segs) ''./'' \<longleftrightarrow> s = ''.'' \<and> ss \<noteq> []" by (simp add: startsWith_dot_slash)
    then show ?thesis using Cons slashes by (auto simp: normalizePolicySubject_def strip_dot_def join_path_Cons)
  qed (simp add: normalizePolicySubject_def strip_dot_def startsWith_def)
qed

lemma escapes_at_end:
  assumes "escapes d ss" and "list_all path_segment ss"
  shows "\<exists>xs ys. ss = xs @ ''..'' # ys \<and> (ys \<noteq> [] \<or> d = 0 \<and> xs = replicate (length xs) ''.'')"
  using assms
proof (induction d ss rule: escapes.induct)
  case (2 d s ss)
  then have "path_segment s" and ss: "list_all path_segment ss" by simp_all
  then have s: "s \<noteq> []" "list_all path_segment ss" by (simp add: path_segment_def, simp)
  consider (skip) "s = ''.''" | (up) "s = ''..''" | (down) "s \<noteq> ''.''" "s \<noteq> ''..''" by blast
  then show ?case
  proof cases
    case skip
    then have "escapes d ss" using 2(4) by simp
    from 2(1) [OF _ this s(2)] skip obtain xs ys where
      "ss = xs @ ''..'' # ys" "ys \<noteq> [] \<or> d = 0 \<and> xs = replicate (length xs) ''.''" by blast
    with skip show ?thesis by (intro exI [of _ "s # xs"] exI [of _ ys]) simp
  next
    case up
    have "d = 0 \<or> ss \<noteq> []" using 2(4) up by (auto split: nat.splits)
    with up show ?thesis by (intro exI [of _ "[]"] exI [of _ ss]) auto
  next
    case down
    then have "escapes (Suc d) ss" using 2(4) s(1) by simp
    from 2(3) [OF _ down(2) this s(2)] s(1) down obtain xs ys where "ss = xs @ ''..'' # ys" "ys \<noteq> []" by blast
    then show ?thesis by (intro exI [of _ "s # xs"] exI [of _ ys]) simp
  qed
qed simp

lemma dots_pass_check: "\<not> isPathTraversal (join_path (replicate (Suc k) ''.'' @ [''..'']))"
proof -
  let ?path = "\<lambda>k. join_path (replicate k ''.'' @ [''..''])"
  have step: "?path (Suc k) = CHR ''.'' # CHR ''/'' # ?path k" for k by (simp add: join_path_Cons)
  have "\<not> prefix ''../'' (?path k)" for k by (cases k) (simp_all add: join_path_Cons)
  then have "\<not> sublist ''/../'' (?path k)" for k
    by (induction k) (simp_all add: step sublist_Cons_right del: replicate_Suc)
  from this [of "Suc k"] show ?thesis
    unfolding isPathTraversal_def str_includes_sublist startsWith_def by (simp add: step del: replicate_Suc)
qed

text \<open>
  C23. Exactly the escaping paths of two or more dot segments and a final \<open>..\<close> (\<open>././..\<close>, \<open>./././..\<close>, and so on)
  bypass the traversal check. Take any path of non-empty segments without slashes and backslashes, dot segments
  included, that takes a \<open>..\<close> at the workspace root. If it has that form, the effect is the one of the last rule that
  matches, or the default of the policy, so a policy that allows paths by default allows it: only one leading \<open>./\<close> is
  removed before the check. Otherwise the decision is a critical denial for every policy.
\<close>
theorem dot_segments_bypass_traversal_check:
  assumes segs: "list_all path_segment segs" and leaves: "escapes 0 segs"
  shows "let decision = evaluatePathPermission policy (join_path segs) operation in
    if \<exists>k. segs = replicate (k + 2) ''.'' @ [''..'']
    then dec_effect decision = effect_of policy (findLastMatchingRule (rules policy) (operation @ '':'' @ join_path (tl segs)))
    else dec_effect decision = Eff_deny \<and> dec_riskLevel decision = Risk_critical"
proof -
  obtain xs ys where split: "segs = xs @ ''..'' # ys" "ys \<noteq> [] \<or> xs = replicate (length xs) ''.''"
    using escapes_at_end [OF leaves segs] by blast
  show ?thesis
  proof (cases "\<exists>k. segs = replicate (k + 2) ''.'' @ [''..'']")
    case True
    then obtain k where k: "segs = replicate (k + 2) ''.'' @ [''..'']" by blast
    then have "strip_dot segs = replicate (Suc k) ''.'' @ [''..'']" "tl segs = replicate (Suc k) ''.'' @ [''..'']"
      by (simp_all add: strip_dot_def)
    with True dots_pass_check [of k] show ?thesis
      by (simp add: evaluatePathPermission_def normalize_segments [OF segs] createDecision_def Let_def del: replicate_Suc)
  next
    case False
    have "isPathTraversal (join_path (strip_dot segs))"
    proof (cases "ys = []")
      case True
      then have "segs = replicate (length xs) ''.'' @ [''..'']" using split by simp
      moreover have "length xs = 0 \<or> length xs = 1"
      proof (rule ccontr)
        assume "\<not> (length xs = 0 \<or> length xs = 1)"
        then have "length xs = length xs - 2 + 2" by linarith
        with False calculation show False by metis
      qed
      ultimately have "segs = [''..''] \<or> segs = [''.'', ''..'']" by (elim disjE) simp_all
      then have "strip_dot segs = [''..'']" by (auto simp: strip_dot_def)
      then show ?thesis by (simp add: isPathTraversal_def)
    next
      case ys: False
      have "\<exists>zs. strip_dot segs = zs @ ''..'' # ys" using split(1) by (cases xs) (auto simp: strip_dot_def)
      with ys show ?thesis using join_path_traversal by blast
    qed
    with False show ?thesis
      by (simp add: evaluatePathPermission_def normalize_segments [OF segs] deny_def Let_def)
  qed
qed

lemma dot_segments_bypass_traversal_check_witness:
  "dec_effect (evaluatePathPermission \<lparr>defaultEffect = Eff_allow, defaultRiskLevel = Risk_low, rules = []\<rparr>
     (join_path [''.'', ''.'', ''..'']) ''list'') = Eff_allow"
proof -
  have "\<exists>k. [''.'', ''.'', ''..''] = replicate (k + 2) ''.'' @ [''..'']" by (rule exI [of _ 0]) simp
  then show ?thesis
    using dot_segments_bypass_traversal_check [of "[''.'', ''.'', ''..'']" "\<lparr>defaultEffect = Eff_allow, defaultRiskLevel = Risk_low, rules = []\<rparr>" "''list''"]
    by (simp add: path_segment_def findLastMatchingRule_def last_rule_def effect_of_def)
qed

end
