(* ===== verification/Run_Tasks.thy ===== *)
theory Run_Tasks
  imports Lifecycle_Protocol
begin

text \<open>
  Runs and tasks of the execution engine (packages/execution-engine/src/runtime): the two state
  machines (run/RunStateMachine.ts, run/Run.ts, task/TaskState.ts, task/Task.ts), their repositories
  over durable object storage (run/RunRepository.ts, task/TaskRepository.ts), the policy that derives
  a run's final status from its tasks (engine/RunStatusPolicy.ts) and the recovery of an interrupted
  run (orchestration/RunRecovery.ts). The clock is an argument of the operations whose stamps are
  read (those of a run); the creation and update stamps of a task, which nothing reads, are left out,
  and so are the log lines.
\<close>

section \<open>Tasks\<close>

datatype TaskStatus =
    Tk_PENDING | Tk_READY | Tk_RUNNING | Tk_DONE | Tk_FAILED | Tk_BLOCKED | Tk_CANCELLED | Tk_RETRYING

primrec task_status_name :: "TaskStatus \<Rightarrow> string" where
  "task_status_name Tk_PENDING = ''PENDING''"
| "task_status_name Tk_READY = ''READY''"
| "task_status_name Tk_RUNNING = ''RUNNING''"
| "task_status_name Tk_DONE = ''DONE''"
| "task_status_name Tk_FAILED = ''FAILED''"
| "task_status_name Tk_BLOCKED = ''BLOCKED''"
| "task_status_name Tk_CANCELLED = ''CANCELLED''"
| "task_status_name Tk_RETRYING = ''RETRYING''"

datatype RunStatus =
    Rn_CREATED | Rn_PLANNING | Rn_RUNNING | Rn_PAUSED | Rn_COMPLETED | Rn_FAILED | Rn_CANCELLED

primrec run_status_name :: "RunStatus \<Rightarrow> string" where
  "run_status_name Rn_CREATED = ''CREATED''"
| "run_status_name Rn_PLANNING = ''PLANNING''"
| "run_status_name Rn_RUNNING = ''RUNNING''"
| "run_status_name Rn_PAUSED = ''PAUSED''"
| "run_status_name Rn_COMPLETED = ''COMPLETED''"
| "run_status_name Rn_FAILED = ''FAILED''"
| "run_status_name Rn_CANCELLED = ''CANCELLED''"

text \<open>
  The errors the engine throws. \<open>Thrown_value\<close> is what a caller's function throws: an \<open>Error\<close> with its
  message, or something else.
\<close>

datatype engine_error =
    InvalidTaskStateTransitionError TaskStatus TaskStatus
  | InvalidStateTransitionError RunStatus RunStatus
  | TaskStateError string
  | StateMachineError string
  | SchedulerError string
  | SchedulerTaskResultError string string string
  | RunRecoveryError string
  | Thrown_value "string option"

fun join_with :: "string \<Rightarrow> string list \<Rightarrow> string" where
  "join_with sep [] = []"
| "join_with sep [s] = s"
| "join_with sep (s # ss) = s @ sep @ join_with sep ss"

text \<open>\<open>error instanceof Error ? error.message : "Unknown error"\<close>\<close>

primrec error_message :: "engine_error \<Rightarrow> string" where
  "error_message (InvalidTaskStateTransitionError from to) =
     ''[task/state] Invalid transition from '' @ task_status_name from @ '' to '' @ task_status_name to"
| "error_message (InvalidStateTransitionError from to) =
     ''[run/state] Invalid transition from '' @ run_status_name from @ '' to '' @ run_status_name to"
| "error_message (TaskStateError msg) = ''[task/state] '' @ msg"
| "error_message (StateMachineError msg) = msg"
| "error_message (SchedulerError msg) = ''[task/scheduler] '' @ msg"
| "error_message (SchedulerTaskResultError taskId status msg) =
     ''[task/scheduler] Task '' @ taskId @ '' returned '' @ status @ '': '' @ msg"
| "error_message (RunRecoveryError msg) = ''[recovery/run] '' @ msg"
| "error_message (Thrown_value v) = (case v of None \<Rightarrow> ''Unknown error'' | Some msg \<Rightarrow> msg)"

primrec TASK_VALID_TRANSITIONS :: "TaskStatus \<Rightarrow> TaskStatus list" where
  "TASK_VALID_TRANSITIONS Tk_PENDING = [Tk_READY, Tk_FAILED, Tk_CANCELLED]"
| "TASK_VALID_TRANSITIONS Tk_READY = [Tk_RUNNING, Tk_BLOCKED, Tk_CANCELLED]"
| "TASK_VALID_TRANSITIONS Tk_RUNNING = [Tk_DONE, Tk_FAILED, Tk_CANCELLED]"
| "TASK_VALID_TRANSITIONS Tk_DONE = []"
| "TASK_VALID_TRANSITIONS Tk_FAILED = [Tk_RETRYING, Tk_CANCELLED]"
| "TASK_VALID_TRANSITIONS Tk_BLOCKED = [Tk_READY, Tk_CANCELLED]"
| "TASK_VALID_TRANSITIONS Tk_CANCELLED = []"
| "TASK_VALID_TRANSITIONS Tk_RETRYING = [Tk_RUNNING]"

definition task_isValidTransition :: "TaskStatus \<Rightarrow> TaskStatus \<Rightarrow> bool" where
  "task_isValidTransition from to = (to \<in> set (TASK_VALID_TRANSITIONS from))"

definition task_status_isTerminal :: "TaskStatus \<Rightarrow> bool" where
  "task_status_isTerminal st = (st \<in> {Tk_DONE, Tk_CANCELLED, Tk_FAILED})"

definition task_status_isActive :: "TaskStatus \<Rightarrow> bool" where
  "task_status_isActive st = (st \<in> {Tk_PENDING, Tk_READY, Tk_RUNNING, Tk_BLOCKED, Tk_RETRYING})"

definition canStart :: "TaskStatus \<Rightarrow> bool" where
  "canStart st = (st = Tk_READY \<or> st = Tk_RETRYING)"

definition validateTaskStateTransition :: "TaskStatus \<Rightarrow> TaskStatus \<Rightarrow> engine_error + unit" where
  "validateTaskStateTransition from to =
     throw_if (\<not> task_isValidTransition from to)
       (TaskStateError
          (''Invalid transition from \"'' @ task_status_name from @ ''\" to \"'' @ task_status_name to @ ''\". '' @
           ''Valid transitions from \"'' @ task_status_name from @ ''\" are: '' @
           (let names = join_with '', '' (map task_status_name (TASK_VALID_TRANSITIONS from)) in
            if names = [] then ''none (terminal state)'' else names)))"

record TaskOutput =
  to_content :: string
  to_artifacts :: "string list option"
  to_metadata :: "JsonRecord option"

record TaskError =
  te_message :: string
  te_code :: "string option"
  te_stack :: "string option"

abbreviation task_error :: "string \<Rightarrow> TaskError" where
  "task_error msg \<equiv> \<lparr>te_message = msg, te_code = None, te_stack = None\<rparr>"

record Task =
  tk_id :: string
  tk_runId :: string
  tk_type :: string
  tk_status :: TaskStatus
  tk_dependencies :: "string list"
  tk_input :: JsonRecord
  tk_output :: "TaskOutput option"
  tk_error :: "TaskError option"
  tk_retryCount :: nat
  tk_maxRetries :: nat

definition task_transition ::
  "TaskStatus \<Rightarrow> TaskOutput option \<Rightarrow> TaskError option \<Rightarrow> Task \<Rightarrow> engine_error + Task" where
  "task_transition newStatus outp err t =
     andThen (throw_if (\<not> task_isValidTransition (tk_status t) newStatus)
                (InvalidTaskStateTransitionError (tk_status t) newStatus)) (\<lambda>_.
     Inr (t\<lparr>tk_status := newStatus,
            tk_output := (if outp \<noteq> None then outp else tk_output t),
            tk_error := (if err \<noteq> None then err else tk_error t)\<rparr>))"

definition canRetry :: "Task \<Rightarrow> bool" where
  "canRetry t = (tk_retryCount t < tk_maxRetries t \<and> tk_status t = Tk_FAILED)"

definition incrementRetry :: "Task \<Rightarrow> Task" where
  "incrementRetry t = t\<lparr>tk_retryCount := tk_retryCount t + 1\<rparr>"

definition isReady :: "Task \<Rightarrow> bool" where
  "isReady t = (tk_status t = Tk_READY \<or> tk_status t = Tk_PENDING \<and> length (tk_dependencies t) = 0)"

section \<open>Runs\<close>

primrec RUN_VALID_TRANSITIONS :: "RunStatus \<Rightarrow> RunStatus list" where
  "RUN_VALID_TRANSITIONS Rn_CREATED = [Rn_PLANNING, Rn_RUNNING, Rn_CANCELLED]"
| "RUN_VALID_TRANSITIONS Rn_PLANNING = [Rn_RUNNING, Rn_FAILED, Rn_CANCELLED]"
| "RUN_VALID_TRANSITIONS Rn_RUNNING = [Rn_PAUSED, Rn_COMPLETED, Rn_FAILED, Rn_CANCELLED]"
| "RUN_VALID_TRANSITIONS Rn_PAUSED = []"
| "RUN_VALID_TRANSITIONS Rn_COMPLETED = []"
| "RUN_VALID_TRANSITIONS Rn_FAILED = []"
| "RUN_VALID_TRANSITIONS Rn_CANCELLED = []"

definition run_isValidTransition :: "RunStatus \<Rightarrow> RunStatus \<Rightarrow> bool" where
  "run_isValidTransition from to = (to \<in> set (RUN_VALID_TRANSITIONS from))"

definition isTerminalState :: "RunStatus \<Rightarrow> bool" where
  "isTerminalState st = (st \<in> {Rn_PAUSED, Rn_COMPLETED, Rn_FAILED, Rn_CANCELLED})"

definition isActiveState :: "RunStatus \<Rightarrow> bool" where
  "isActiveState st = (st \<in> {Rn_CREATED, Rn_PLANNING, Rn_RUNNING})"

definition validateStateTransition :: "RunStatus \<Rightarrow> RunStatus \<Rightarrow> engine_error + unit" where
  "validateStateTransition from to =
     throw_if (\<not> run_isValidTransition from to)
       (StateMachineError
          (''Invalid transition from \"'' @ run_status_name from @ ''\" to \"'' @ run_status_name to @ ''\". '' @
           ''Valid transitions from \"'' @ run_status_name from @ ''\" are: '' @
           (let names = join_with '', '' (map run_status_name (RUN_VALID_TRANSITIONS from)) in
            if names = [] then ''none (terminal state)'' else names)))"

text \<open>The fields of the metadata the operations below touch, and the rest of the object.\<close>

record RunMetadata =
  rm_startedAt :: "string option"
  rm_completedAt :: "string option"
  rm_error :: "string option"
  rm_rest :: JsonRecord

record Run =
  rn_id :: string
  rn_sessionId :: string
  rn_status :: RunStatus
  rn_agentType :: string
  rn_input :: JsonRecord
  rn_output :: "JsonRecord option"
  rn_metadata :: RunMetadata
  rn_createdAt :: string
  rn_updatedAt :: string

definition stamp_metadata :: "string \<Rightarrow> RunStatus \<Rightarrow> RunMetadata \<Rightarrow> RunMetadata" where
  "stamp_metadata now newStatus md =
     (let md = (if newStatus = Rn_RUNNING \<and> \<not> truthy (rm_startedAt md)
                then md\<lparr>rm_startedAt := Some now\<rparr> else md)
      in if newStatus \<in> {Rn_PAUSED, Rn_COMPLETED, Rn_FAILED, Rn_CANCELLED}
         then md\<lparr>rm_completedAt := Some now\<rparr> else md)"

definition run_transition :: "string \<Rightarrow> RunStatus \<Rightarrow> Run \<Rightarrow> engine_error + Run" where
  "run_transition now newStatus r =
     andThen (throw_if (\<not> run_isValidTransition (rn_status r) newStatus)
                (InvalidStateTransitionError (rn_status r) newStatus)) (\<lambda>_.
     Inr (r\<lparr>rn_status := newStatus, rn_updatedAt := now,
            rn_metadata := stamp_metadata now newStatus (rn_metadata r)\<rparr>))"

section \<open>Repositories\<close>

text \<open>
  The storage of a durable object: keys to serialized tasks and runs and to lists of identifiers.
  Each repository reads back at a key what it put there.
\<close>

datatype stored = St_task Task | St_run Run | St_ids "string list"

type_synonym storage = "string \<rightharpoonup> stored"

definition getTaskKey :: "string \<Rightarrow> string \<Rightarrow> string" where
  "getTaskKey taskId runId = ''task:'' @ runId @ '':'' @ taskId"

definition getRunTasksKey :: "string \<Rightarrow> string" where
  "getRunTasksKey runId = ''run_tasks:'' @ runId"

definition getRunKey :: "string \<Rightarrow> string" where
  "getRunKey runId = ''run:'' @ runId"

definition getSessionRunsKey :: "string \<Rightarrow> string" where
  "getSessionRunsKey sessionId = ''session_runs:'' @ sessionId"

definition stored_ids :: "storage \<Rightarrow> string \<Rightarrow> string list" where
  "stored_ids st key = (case st key of Some (St_ids ids) \<Rightarrow> ids | _ \<Rightarrow> [])"

definition task_create :: "Task \<Rightarrow> storage \<Rightarrow> storage" where
  "task_create t st =
     (let st = st(getTaskKey (tk_id t) (tk_runId t) \<mapsto> St_task t);
          key = getRunTasksKey (tk_runId t);
          existing = stored_ids st key
      in if tk_id t \<notin> set existing then st(key \<mapsto> St_ids (existing @ [tk_id t])) else st)"

definition task_getById :: "storage \<Rightarrow> string \<Rightarrow> string \<Rightarrow> Task option" where
  "task_getById st taskId runId = (case st (getTaskKey taskId runId) of Some (St_task t) \<Rightarrow> Some t | _ \<Rightarrow> None)"

definition getByIds :: "storage \<Rightarrow> string list \<Rightarrow> string \<Rightarrow> Task list" where
  "getByIds st taskIds runId = List.map_filter (\<lambda>taskId. task_getById st taskId runId) taskIds"

definition getByRun :: "storage \<Rightarrow> string \<Rightarrow> Task list" where
  "getByRun st runId = List.map_filter (\<lambda>taskId. task_getById st taskId runId) (stored_ids st (getRunTasksKey runId))"

definition getByRunAndStatus :: "storage \<Rightarrow> string \<Rightarrow> TaskStatus \<Rightarrow> Task list" where
  "getByRunAndStatus st runId status = filter (\<lambda>t. tk_status t = status) (getByRun st runId)"

definition task_update :: "Task \<Rightarrow> storage \<Rightarrow> storage" where
  "task_update t st = st(getTaskKey (tk_id t) (tk_runId t) \<mapsto> St_task t)"

definition updateMany :: "Task list \<Rightarrow> storage \<Rightarrow> storage" where
  "updateMany ts st = fold (\<lambda>t st. st(getTaskKey (tk_id t) (tk_runId t) \<mapsto> St_task t)) ts st"

definition deleteByRun :: "string \<Rightarrow> storage \<Rightarrow> storage" where
  "deleteByRun runId st =
     (let key = getRunTasksKey runId;
          st' = fold (\<lambda>taskId st. st(getTaskKey taskId runId := None)) (stored_ids st key) st
      in st'(key := None))"

definition run_create :: "Run \<Rightarrow> storage \<Rightarrow> storage" where
  "run_create r st =
     (let st = st(getRunKey (rn_id r) \<mapsto> St_run r);
          key = getSessionRunsKey (rn_sessionId r);
          existing = stored_ids st key
      in if rn_id r \<notin> set existing then st(key \<mapsto> St_ids (existing @ [rn_id r])) else st)"

definition run_getById :: "storage \<Rightarrow> string \<Rightarrow> Run option" where
  "run_getById st runId = (case st (getRunKey runId) of Some (St_run r) \<Rightarrow> Some r | _ \<Rightarrow> None)"

definition getBySession :: "storage \<Rightarrow> string \<Rightarrow> Run list" where
  "getBySession st sessionId = List.map_filter (run_getById st) (stored_ids st (getSessionRunsKey sessionId))"

definition run_update :: "Run \<Rightarrow> storage \<Rightarrow> storage" where
  "run_update r st = st(getRunKey (rn_id r) \<mapsto> St_run r)"

definition updateUnlessStatus :: "Run \<Rightarrow> RunStatus list \<Rightarrow> storage \<Rightarrow> bool \<times> storage" where
  "updateUnlessStatus r blocked st =
     (case run_getById st (rn_id r) of
        Some current \<Rightarrow>
          if rn_status current \<in> set blocked then (False, st)
          else (True, st(getRunKey (rn_id r) \<mapsto> St_run r))
      | None \<Rightarrow> (True, st(getRunKey (rn_id r) \<mapsto> St_run r)))"

section \<open>The final status of a run\<close>

definition determineRunStatusFromTasks :: "Task list \<Rightarrow> RunStatus" where
  "determineRunStatusFromTasks tasks =
     (if list_ex (\<lambda>t. tk_status t = Tk_CANCELLED) tasks then Rn_CANCELLED
      else if list_ex (\<lambda>t. tk_status t = Tk_FAILED) tasks then Rn_FAILED
      else if list_ex (\<lambda>t. tk_status t \<noteq> Tk_DONE) tasks then Rn_RUNNING
      else Rn_COMPLETED)"

definition ensureRunReadyForTerminalTransition :: "string \<Rightarrow> Run \<Rightarrow> engine_error + Run" where
  "ensureRunReadyForTerminalTransition now r =
     (if rn_status r = Rn_CREATED \<or> rn_status r = Rn_PLANNING then run_transition now Rn_RUNNING r else Inr r)"

definition transitionRunToCompleted :: "string \<Rightarrow> Run \<Rightarrow> engine_error + Run" where
  "transitionRunToCompleted now r =
     (if rn_status r = Rn_COMPLETED then Inr r
      else if rn_status r = Rn_PAUSED \<or> rn_status r = Rn_FAILED \<or> rn_status r = Rn_CANCELLED then Inr r
      else andThen (ensureRunReadyForTerminalTransition now r) (\<lambda>r.
           if rn_status r = Rn_RUNNING then run_transition now Rn_COMPLETED r else Inr r))"

definition transitionRunToPaused :: "string \<Rightarrow> Run \<Rightarrow> engine_error + Run" where
  "transitionRunToPaused now r =
     (if rn_status r = Rn_PAUSED \<or> rn_status r = Rn_CANCELLED then Inr r
      else if rn_status r = Rn_COMPLETED \<or> rn_status r = Rn_FAILED then Inr r
      else andThen (ensureRunReadyForTerminalTransition now r) (\<lambda>r.
           if rn_status r = Rn_RUNNING then run_transition now Rn_PAUSED r else Inr r))"

definition transitionRunToFailed :: "string \<Rightarrow> Run \<Rightarrow> engine_error + Run" where
  "transitionRunToFailed now r =
     (if rn_status r = Rn_PAUSED \<or> rn_status r = Rn_FAILED \<or> rn_status r = Rn_CANCELLED then Inr r
      else if rn_status r = Rn_COMPLETED then Inr r
      else andThen (ensureRunReadyForTerminalTransition now r) (\<lambda>r.
           if rn_status r = Rn_RUNNING then run_transition now Rn_FAILED r else Inr r))"

definition failure_summary :: "Task list \<Rightarrow> string" where
  "failure_summary tasks =
     (let failed = filter (\<lambda>t. tk_status t = Tk_FAILED) tasks;
          summary = join_with ''; ''
            (map (\<lambda>t. tk_id t @ '': '' @ (case tk_error t of None \<Rightarrow> ''Task failed'' | Some e \<Rightarrow> te_message e)) failed)
      in if summary = [] then ''One or more tasks failed'' else summary)"

definition applyFinalRunStatus :: "string \<Rightarrow> Run \<Rightarrow> RunStatus \<Rightarrow> Task list \<Rightarrow> engine_error + Run" where
  "applyFinalRunStatus now r finalRunStatus tasks =
     (if finalRunStatus = Rn_RUNNING then Inr r
      else if finalRunStatus = Rn_COMPLETED then transitionRunToCompleted now r
      else if finalRunStatus = Rn_FAILED then
        andThen (transitionRunToFailed now r) (\<lambda>r.
        Inr (r\<lparr>rn_metadata := (rn_metadata r)\<lparr>rm_error := Some (failure_summary tasks)\<rparr>\<rparr>))
      else if rn_status r = Rn_PAUSED \<or> rn_status r = Rn_FAILED \<or> rn_status r = Rn_COMPLETED then Inr r
      else andThen (ensureRunReadyForTerminalTransition now r) (\<lambda>r.
           if rn_status r = Rn_RUNNING then run_transition now Rn_CANCELLED r else Inr r))"

section \<open>Recovery of a run\<close>

definition count_status :: "TaskStatus \<Rightarrow> Task list \<Rightarrow> nat" where
  "count_status st tasks = length (filter (\<lambda>t. tk_status t = st) tasks)"

definition move_run :: "string \<Rightarrow> RunStatus \<Rightarrow> (RunMetadata \<Rightarrow> RunMetadata) \<Rightarrow> Run \<Rightarrow> (storage, engine_error, Run) op" where
  "move_run now status note r =
     bindE (liftE (run_transition now status r)) (\<lambda>r.
     bindE (returnE (r\<lparr>rn_metadata := note (rn_metadata r)\<rparr>)) (\<lambda>r.
     bindE (modifyE (run_update r)) (\<lambda>_. returnE r)))"

definition reconstructState :: "string \<Rightarrow> Run \<Rightarrow> (storage, engine_error, Run) op" where
  "reconstructState now r =
     bindE (getE (\<lambda>st. getByRun st (rn_id r))) (\<lambda>tasks.
     if length tasks = 0 then returnE r
     else
       let doneCount = count_status Tk_DONE tasks;
           failedCount = count_status Tk_FAILED tasks;
           cancelledCount = count_status Tk_CANCELLED tasks;
           terminalCount = doneCount + failedCount + cancelledCount
       in if cancelledCount > 0 then
            (if rn_status r \<noteq> Rn_CANCELLED then move_run now Rn_CANCELLED id r else returnE r)
          else if failedCount > 0 then
            (if rn_status r \<noteq> Rn_FAILED
             then move_run now Rn_FAILED (\<lambda>md. md\<lparr>rm_error := Some (string_of_nat failedCount @ '' task(s) failed'')\<rparr>) r
             else returnE r)
          else if terminalCount = length tasks \<and> failedCount = 0 then
            (if rn_status r \<noteq> Rn_COMPLETED then move_run now Rn_COMPLETED id r else returnE r)
          else if rn_status r \<notin> {Rn_PLANNING, Rn_RUNNING} then move_run now Rn_RUNNING id r
          else returnE r)"

definition resumeRun :: "string \<Rightarrow> string \<Rightarrow> (storage, engine_error, Run) op" where
  "resumeRun now runId =
     bindE (getE (\<lambda>st. run_getById st runId)) (\<lambda>found.
     case found of
       None \<Rightarrow> throwE (RunRecoveryError (''Run '' @ runId @ '' not found''))
     | Some r \<Rightarrow>
         bindE (reconstructState now r) (\<lambda>r.
         if rn_status r \<in> {Rn_COMPLETED, Rn_FAILED, Rn_CANCELLED}
         then throwE (RunRecoveryError (''Cannot resume run '' @ runId @ '' - status is '' @ run_status_name (rn_status r)))
         else returnE r))"

definition findLastIncompleteTask :: "storage \<Rightarrow> string \<Rightarrow> Task option" where
  "findLastIncompleteTask st runId =
     List.find (\<lambda>t. tk_status t \<notin> {Tk_DONE, Tk_FAILED, Tk_CANCELLED}) (rev (getByRun st runId))"

section \<open>Laws of the repositories\<close>

text \<open>Every listed task is stored under its own identifiers, and no other task is stored.\<close>

definition wf_tasks :: "(string \<Rightarrow> Task option) \<Rightarrow> string list \<Rightarrow> string \<Rightarrow> bool" where
  "wf_tasks get ids run \<longleftrightarrow> distinct ids \<and> (\<forall>i. get i \<noteq> None \<longleftrightarrow> i \<in> set ids) \<and>
     (\<forall>i t. get i = Some t \<longrightarrow> tk_id t = i \<and> tk_runId t = run)"

text \<open>What the clients of the task repository rely on, for the tasks of one run.\<close>

locale task_repository =
  fixes get :: "'st \<Rightarrow> string \<Rightarrow> string \<Rightarrow> Task option"
    and by_run :: "'st \<Rightarrow> string \<Rightarrow> Task list"
    and ids :: "'st \<Rightarrow> string \<Rightarrow> string list"
    and upd :: "Task \<Rightarrow> 'st \<Rightarrow> 'st"
  assumes get_upd: "tk_runId t = run \<Longrightarrow> get (upd t st) i run = (if i = tk_id t then Some t else get st i run)"
    and ids_upd: "ids (upd t st) run = ids st run"
    and by_run_ids: "by_run st run = List.map_filter (\<lambda>i. get st i run) (ids st run)"
begin

abbreviation wf :: "'st \<Rightarrow> string \<Rightarrow> bool" where
  "wf st run \<equiv> wf_tasks (\<lambda>i. get st i run) (ids st run) run"

lemma wf_get: "wf st run \<Longrightarrow> get st i run = Some t \<Longrightarrow> tk_id t = i \<and> tk_runId t = run \<and> i \<in> set (ids st run)"
  unfolding wf_tasks_def by (metis option.discI)

lemma wf_upd:
  assumes "wf st run" and "get st (tk_id t) run \<noteq> None" and "tk_runId t = run"
  shows "wf (upd t st) run"
  using assms unfolding wf_tasks_def by (simp add: get_upd ids_upd)

lemma in_by_run: "wf st run \<Longrightarrow> t \<in> set (by_run st run) \<longleftrightarrow> (\<exists>i. get st i run = Some t)"
  using wf_get by (auto simp: by_run_ids map_filter_def) force

lemma by_run_own: "wf st run \<Longrightarrow> t \<in> set (by_run st run) \<longleftrightarrow> get st (tk_id t) run = Some t"
  using in_by_run wf_get by metis

lemma by_run_upd:
  assumes "wf st run" and "get st (tk_id t) run \<noteq> None" and "tk_runId t = run"
  shows "by_run (upd t st) run = map (\<lambda>u. if tk_id u = tk_id t then t else u) (by_run st run)"
proof -
  have "List.map_filter (\<lambda>i. get (upd t st) i run) is =
      map (\<lambda>u. if tk_id u = tk_id t then t else u) (List.map_filter (\<lambda>i. get st i run) is)" for "is"
    using assms wf_get [OF assms(1)]
    by (induction "is") (auto simp: map_filter_simps get_upd split: option.splits)
  then show ?thesis by (simp add: by_run_ids ids_upd)
qed

end

lemma task_key_inject [simp]: "getTaskKey i run = getTaskKey j run \<longleftrightarrow> i = j"
  by (simp add: getTaskKey_def)

lemma key_kinds_differ [simp]:
  "getTaskKey i run \<noteq> getRunTasksKey run'" "getRunTasksKey run' \<noteq> getTaskKey i run"
  "getTaskKey i run \<noteq> getRunKey run'" "getRunKey run' \<noteq> getTaskKey i run"
  "getRunTasksKey run \<noteq> getRunKey run'" "getRunKey run' \<noteq> getRunTasksKey run"
  by (simp_all add: getTaskKey_def getRunTasksKey_def getRunKey_def)

abbreviation task_ids :: "storage \<Rightarrow> string \<Rightarrow> string list" where
  "task_ids st run \<equiv> stored_ids st (getRunTasksKey run)"

interpretation tasks: task_repository task_getById getByRun task_ids task_update
  by unfold_locales (auto simp: task_getById_def task_update_def getByRun_def stored_ids_def)

abbreviation wf_run :: "storage \<Rightarrow> string \<Rightarrow> bool" where
  "wf_run st run \<equiv> wf_tasks (\<lambda>i. task_getById st i run) (task_ids st run) run"

section \<open>Final status and recovery\<close>

lemma run_transition_cases:
  "run_transition now st r =
    (if run_isValidTransition (rn_status r) st
     then Inr (r\<lparr>rn_status := st, rn_updatedAt := now, rn_metadata := stamp_metadata now st (rn_metadata r)\<rparr>)
     else Inl (InvalidStateTransitionError (rn_status r) st))"
  by (simp add: run_transition_def throw_if_def)

lemmas final_status_defs = applyFinalRunStatus_def transitionRunToCompleted_def transitionRunToFailed_def
  ensureRunReadyForTerminalTransition_def run_transition_cases run_isValidTransition_def isTerminalState_def

lemma determined_status:
  "determineRunStatusFromTasks tasks \<in> {Rn_CANCELLED, Rn_FAILED, Rn_RUNNING, Rn_COMPLETED}"
  by (simp add: determineRunStatusFromTasks_def)

lemma stamped_completion:
  "st \<in> {Rn_PAUSED, Rn_COMPLETED, Rn_FAILED, Rn_CANCELLED} \<Longrightarrow> rm_completedAt (stamp_metadata now st md) = Some now"
  by (auto simp: stamp_metadata_def)

lemma final_status_applied:
  assumes "final \<in> {Rn_CANCELLED, Rn_FAILED, Rn_RUNNING, Rn_COMPLETED}"
  shows "\<exists>r'. applyFinalRunStatus now r final tasks = Inr r' \<and>
    rn_status r' = (if isTerminalState (rn_status r) \<or> final = Rn_RUNNING then rn_status r else final) \<and>
    (\<not> isTerminalState (rn_status r) \<and> final \<noteq> Rn_RUNNING \<longrightarrow> rm_completedAt (rn_metadata r') = Some now)"
  using assms by (cases "rn_status r"; elim insertE emptyE) (simp_all add: final_status_defs stamped_completion)

definition sample_task :: "string \<Rightarrow> string list \<Rightarrow> TaskStatus \<Rightarrow> Task" where
  "sample_task i deps status =
     \<lparr>tk_id = i, tk_runId = ''r'', tk_type = ''edit'', tk_status = status, tk_dependencies = deps, tk_input = [],
      tk_output = None, tk_error = None, tk_retryCount = 0, tk_maxRetries = 3\<rparr>"

definition sample_run :: "RunStatus \<Rightarrow> Run" where
  "sample_run status =
     \<lparr>rn_id = ''r'', rn_sessionId = ''s'', rn_status = status, rn_agentType = ''coding'', rn_input = [], rn_output = None,
      rn_metadata = \<lparr>rm_startedAt = None, rm_completedAt = None, rm_error = None, rm_rest = []\<rparr>,
      rn_createdAt = ''t0'', rn_updatedAt = ''t0''\<rparr>"

text \<open>
  Applying the status derived from the tasks never throws. A run in a terminal state keeps it; any other run
  takes the derived status and its completion stamp, except when work remains, where it is left as it is.
\<close>
theorem final_run_status_is_total:
  "\<exists>r'. applyFinalRunStatus now r (determineRunStatusFromTasks tasks) tasks = Inr r' \<and>
    rn_status r' = (if isTerminalState (rn_status r) \<or> determineRunStatusFromTasks tasks = Rn_RUNNING
                    then rn_status r else determineRunStatusFromTasks tasks) \<and>
    (rn_status r' = Rn_COMPLETED \<longrightarrow> rn_status r = Rn_COMPLETED \<or> list_all (\<lambda>t. tk_status t = Tk_DONE) tasks) \<and>
    (\<not> isTerminalState (rn_status r) \<and> isTerminalState (rn_status r') \<longrightarrow>
       rm_completedAt (rn_metadata r') = Some now)"
proof -
  let ?d = "determineRunStatusFromTasks tasks"
  obtain r' where r': "applyFinalRunStatus now r ?d tasks = Inr r'"
    "rn_status r' = (if isTerminalState (rn_status r) \<or> ?d = Rn_RUNNING then rn_status r else ?d)"
    "\<not> isTerminalState (rn_status r) \<and> ?d \<noteq> Rn_RUNNING \<longrightarrow> rm_completedAt (rn_metadata r') = Some now"
    using final_status_applied [OF determined_status] by blast
  moreover have "?d = Rn_COMPLETED \<longrightarrow> list_all (\<lambda>t. tk_status t = Tk_DONE) tasks"
    by (auto simp: determineRunStatusFromTasks_def list_ex_iff list_all_iff)
  ultimately show ?thesis
    by (auto simp: isTerminalState_def split: if_splits)
qed

lemma final_run_status_is_total_witness:
  "\<exists>r'. applyFinalRunStatus ''t1'' (sample_run Rn_PLANNING) (determineRunStatusFromTasks [sample_task ''a'' [] Tk_DONE])
      [sample_task ''a'' [] Tk_DONE] = Inr r' \<and> rn_status r' = Rn_COMPLETED"
  using final_run_status_is_total [of "''t1''" "sample_run Rn_PLANNING" "[sample_task ''a'' [] Tk_DONE]"]
  by (auto simp: sample_task_def sample_run_def determineRunStatusFromTasks_def isTerminalState_def)

lemma move_run_run:
  "move_run now status note r st =
    (if run_isValidTransition (rn_status r) status
     then (let r' = r\<lparr>rn_status := status, rn_updatedAt := now,
                      rn_metadata := note (stamp_metadata now status (rn_metadata r))\<rparr>
           in (Inr r', run_update r' st))
     else (Inl (InvalidStateTransitionError (rn_status r) status), st))"
  by (simp add: move_run_def op_defs run_transition_cases Let_def)

text \<open>
  A paused run that has tasks cannot be resumed: whatever the tasks are, recovery tries a transition out of
  \<open>PAUSED\<close>, which the state machine refuses, and leaves the storage as it was.
\<close>
theorem paused_run_is_not_resumable:
  assumes "run_getById st runId = Some r" and "rn_status r = Rn_PAUSED" and "getByRun st (rn_id r) \<noteq> []"
  shows "\<exists>to. resumeRun now runId st = (Inl (InvalidStateTransitionError Rn_PAUSED to), st)"
  using assms
  by (simp add: resumeRun_def reconstructState_def op_defs Let_def move_run_run run_isValidTransition_def)

definition sample_storage :: "RunStatus \<Rightarrow> Task list \<Rightarrow> storage" where
  "sample_storage status ts = fold task_create ts (run_create (sample_run status) Map.empty)"

lemma paused_run_is_not_resumable_witness:
  "\<exists>to. resumeRun ''t1'' ''r'' (sample_storage Rn_PAUSED [sample_task ''a'' [] Tk_PENDING]) =
     (Inl (InvalidStateTransitionError Rn_PAUSED to), sample_storage Rn_PAUSED [sample_task ''a'' [] Tk_PENDING])"
  by (rule paused_run_is_not_resumable [of _ _ "sample_run Rn_PAUSED"])
    (simp_all add: sample_storage_def run_create_def task_create_def Let_def run_getById_def getByRun_def
      task_getById_def stored_ids_def sample_run_def sample_task_def getSessionRunsKey_def getRunKey_def getTaskKey_def
      getRunTasksKey_def map_filter_simps)

lemma count_status_pos: "0 < count_status st tasks \<longleftrightarrow> list_ex (\<lambda>t. tk_status t = st) tasks"
  by (induction tasks) (auto simp: count_status_def)

lemma all_done_count:
  "count_status Tk_DONE tasks = length tasks \<longleftrightarrow> \<not> list_ex (\<lambda>t. tk_status t \<noteq> Tk_DONE) tasks"
  unfolding count_status_def by (induction tasks) (auto simp: le_imp_less_Suc less_imp_neq)

text \<open>
  Recovering a running run that has tasks never throws, gives it the status that the final policy derives from its
  tasks, and stores the run exactly when that status is new.
\<close>
theorem recovery_derives_final_status:
  assumes "rn_status r = Rn_RUNNING" and "getByRun st (rn_id r) \<noteq> []"
  shows "\<exists>r'. reconstructState now r st =
      (Inr r', if determineRunStatusFromTasks (getByRun st (rn_id r)) = Rn_RUNNING then st else run_update r' st) \<and>
    rn_id r' = rn_id r \<and> rn_status r' = determineRunStatusFromTasks (getByRun st (rn_id r))"
proof -
  let ?ts = "getByRun st (rn_id r)"
  consider "0 < count_status Tk_CANCELLED ?ts"
    | "count_status Tk_CANCELLED ?ts = 0" "0 < count_status Tk_FAILED ?ts"
    | "count_status Tk_CANCELLED ?ts = 0" "count_status Tk_FAILED ?ts = 0" by blast
  then show ?thesis
    by cases
      (use assms in \<open>auto simp: reconstructState_def op_defs Let_def move_run_run run_isValidTransition_def
        determineRunStatusFromTasks_def count_status_pos [symmetric] all_done_count\<close>)
qed

lemma recovery_derives_final_status_witness:
  "\<exists>r'. reconstructState ''t1'' (sample_run Rn_RUNNING) (sample_storage Rn_RUNNING [sample_task ''a'' [] Tk_DONE]) =
      (Inr r', if determineRunStatusFromTasks (getByRun (sample_storage Rn_RUNNING [sample_task ''a'' [] Tk_DONE]) ''r'') = Rn_RUNNING
        then sample_storage Rn_RUNNING [sample_task ''a'' [] Tk_DONE]
        else run_update r' (sample_storage Rn_RUNNING [sample_task ''a'' [] Tk_DONE])) \<and>
    rn_id r' = ''r'' \<and>
    rn_status r' = determineRunStatusFromTasks (getByRun (sample_storage Rn_RUNNING [sample_task ''a'' [] Tk_DONE]) ''r'')"
  using recovery_derives_final_status [of "sample_run Rn_RUNNING" "sample_storage Rn_RUNNING [sample_task ''a'' [] Tk_DONE]" "''t1''"]
  by (simp add: sample_storage_def run_create_def task_create_def Let_def getByRun_def task_getById_def stored_ids_def
      sample_run_def sample_task_def getSessionRunsKey_def getRunKey_def getTaskKey_def getRunTasksKey_def map_filter_simps)

end
