(* ===== verification/Dependency_Resolver.thy ===== *)
theory Dependency_Resolver
  imports Run_Tasks "HOL-Library.Multiset"
begin

text \<open>
  The dependency graph of a plan (packages/execution-engine/src/runtime/orchestration/DependencyResolver.ts):
  validation by depth-first search, Kahn's topological sort, and the readiness test. The search is
  written with a bound on its recursion depth; \<open>validateDAG\<close> runs it with one more than the number of
  tasks, and \<open>validateDAG_total\<close> shows that the bound is never reached.
\<close>

section \<open>Validation\<close>

record ValidationResult =
  vr_valid :: bool
  vr_error :: "string option"
  vr_cycle :: "string list option"

type_synonym task_map = "string \<rightharpoonup> Task"

text \<open>\<open>new Map(tasks.map((t) => [t.id, t]))\<close>: a later task replaces an earlier one of the same identifier.\<close>

definition taskMap :: "Task list \<Rightarrow> task_map" where
  "taskMap tasks = fold (\<lambda>t m. m(tk_id t \<mapsto> t)) tasks Map.empty"

text \<open>The two sets that the search shares between its calls.\<close>

type_synonym dfs_state = "string set \<times> string set"

fun detectCycleDFS :: "nat \<Rightarrow> task_map \<Rightarrow> string \<Rightarrow> dfs_state \<Rightarrow> (string list option \<times> dfs_state) option"
  and detect_deps :: "nat \<Rightarrow> task_map \<Rightarrow> string \<Rightarrow> string list \<Rightarrow> dfs_state \<Rightarrow> (string list option \<times> dfs_state) option"
where
  "detectCycleDFS 0 tm nodeId s = None"
| "detectCycleDFS (Suc k) tm nodeId (visited, recStack) =
     (let visited = insert nodeId visited; recStack = insert nodeId recStack in
      case tm nodeId of
        None \<Rightarrow> Some (None, (visited, recStack))
      | Some task \<Rightarrow> detect_deps k tm nodeId (tk_dependencies task) (visited, recStack))"
| "detect_deps k tm nodeId [] (visited, recStack) = Some (None, (visited, recStack - {nodeId}))"
| "detect_deps k tm nodeId (depId # rest) (visited, recStack) =
     (if depId \<notin> visited then
        (case detectCycleDFS k tm depId (visited, recStack) of
           None \<Rightarrow> None
         | Some (Some cycle, s) \<Rightarrow> Some (Some cycle, s)
         | Some (None, s) \<Rightarrow> detect_deps k tm nodeId rest s)
      else if depId \<in> recStack then Some (Some [depId, nodeId], (visited, recStack))
      else detect_deps k tm nodeId rest (visited, recStack))"

text \<open>The arrow of the message in its UTF-8 encoding.\<close>

definition cycle_message :: "string list \<Rightarrow> string" where
  "cycle_message cycle =
     ''Cycle detected: '' @ join_with ('' '' @ [CHR 0xE2, CHR 0x86, CHR 0x92] @ '' '') cycle"

primrec validate_loop :: "nat \<Rightarrow> task_map \<Rightarrow> Task list \<Rightarrow> dfs_state \<Rightarrow> ValidationResult option" where
  "validate_loop k tm [] s = Some \<lparr>vr_valid = True, vr_error = None, vr_cycle = None\<rparr>"
| "validate_loop k tm (t # ts) s =
     (if tk_id t \<notin> fst s then
        (case detectCycleDFS k tm (tk_id t) s of
           None \<Rightarrow> None
         | Some (Some cycle, _) \<Rightarrow>
             Some \<lparr>vr_valid = False, vr_error = Some (cycle_message cycle), vr_cycle = Some cycle\<rparr>
         | Some (None, s) \<Rightarrow> validate_loop k tm ts s)
      else validate_loop k tm ts s)"

definition validateDAG :: "Task list \<Rightarrow> ValidationResult option" where
  "validateDAG tasks =
     (case List.find (\<lambda>t. tk_id t \<in> set (tk_dependencies t)) tasks of
        Some t \<Rightarrow> Some \<lparr>vr_valid = False, vr_error = Some (''Task '' @ tk_id t @ '' has self-reference''),
                        vr_cycle = Some [tk_id t]\<rparr>
      | None \<Rightarrow> validate_loop (length tasks + 1) (taskMap tasks) tasks ({}, {}))"

section \<open>Readiness\<close>

definition areMet :: "storage \<Rightarrow> string list \<Rightarrow> string \<Rightarrow> bool" where
  "areMet st dependencies runId =
     (if length dependencies = 0 then True
      else let depTasks = getByIds st dependencies runId in
        if length depTasks \<noteq> length dependencies then False
        else list_all (\<lambda>t. tk_status t = Tk_DONE) depTasks)"

section \<open>Topological sort\<close>

definition release :: "string \<Rightarrow> Task \<Rightarrow> (string \<rightharpoonup> int) \<times> string list \<Rightarrow> (string \<rightharpoonup> int) \<times> string list" where
  "release taskId candidate s =
     (if taskId \<in> set (tk_dependencies candidate) then
        let degree = (case fst s (tk_id candidate) of None \<Rightarrow> 0 | Some d \<Rightarrow> d) - 1 in
        ((fst s)(tk_id candidate \<mapsto> degree), if degree = 0 then snd s @ [tk_id candidate] else snd s)
      else s)"

definition pending_ids :: "Task list \<Rightarrow> (string \<rightharpoonup> int) \<Rightarrow> string set" where
  "pending_ids tasks deg = {i \<in> tk_id ` set tasks. \<exists>d. deg i = Some d \<and> d > 0}"

lemma release_measure:
  assumes "c \<in> set tasks"
  shows "length (snd (release i c s)) + card (pending_ids tasks (fst (release i c s))) \<le>
    length (snd s) + card (pending_ids tasks (fst s))"
proof (cases "i \<in> set (tk_dependencies c)")
  case True
  let ?j = "tk_id c"
  let ?d = "(case fst s ?j of None \<Rightarrow> 0 | Some d \<Rightarrow> d) - 1"
  let ?P = "pending_ids tasks (fst s)" and ?Q = "pending_ids tasks ((fst s)(?j \<mapsto> ?d))"
  have fin: "finite ?P" by (simp add: pending_ids_def)
  have sub: "?Q \<subseteq> ?P"
    by (auto simp: pending_ids_def split: if_splits option.splits)
  have "?d = 0 \<Longrightarrow> ?j \<in> ?P \<and> ?j \<notin> ?Q"
    using assms by (auto simp: pending_ids_def split: option.splits)
  then have "?d = 0 \<Longrightarrow> card ?Q < card ?P"
    using psubset_card_mono [OF fin] sub by blast
  with card_mono [OF fin sub] True show ?thesis
    by (auto simp: release_def Let_def Suc_le_eq)
qed (simp add: release_def)

lemma release_fold_measure:
  assumes "set cs \<subseteq> set tasks"
  shows "length (snd (fold (release i) cs s)) + card (pending_ids tasks (fst (fold (release i) cs s))) \<le>
    length (snd s) + card (pending_ids tasks (fst s))"
  using assms
proof (induction cs arbitrary: s)
  case (Cons c cs)
  then have "c \<in> set tasks" "set cs \<subseteq> set tasks" by auto
  then show ?case
    using release_measure [of c tasks i s] Cons.IH [of "release i c s"] by simp
qed simp

function kahn :: "Task list \<Rightarrow> task_map \<Rightarrow> string list \<Rightarrow> (string \<rightharpoonup> int) \<Rightarrow> Task list \<Rightarrow> Task list" where
  "kahn tasks tm [] deg result = result"
| "kahn tasks tm (taskId # queue) deg result =
     (let result' = (case tm taskId of None \<Rightarrow> result | Some task \<Rightarrow> result @ [task]);
          s = fold (release taskId) tasks (deg, queue)
      in kahn tasks tm (snd s) (fst s) result')"
  by pat_completeness auto
termination
proof (relation "measure (\<lambda>(tasks, tm, queue, deg, result). length queue + card (pending_ids tasks deg))")
  fix tasks tm taskId queue deg result x s
  assume "s = fold (release taskId) tasks (deg, queue)"
  then show "((tasks, tm, snd s, fst s, x), tasks, tm, taskId # queue, deg, result) \<in>
      measure (\<lambda>(tasks, tm, queue, deg, result). length queue + card (pending_ids tasks deg))"
    using release_fold_measure [of tasks tasks taskId "(deg, queue)"] by simp
qed simp

definition topologicalSort :: "Task list \<Rightarrow> Task list" where
  "topologicalSort tasks =
     (let inDegree = fold (\<lambda>t m. m(tk_id t \<mapsto> int (length (tk_dependencies t)))) tasks Map.empty;
          queue = map tk_id (filter (\<lambda>t. length (tk_dependencies t) = 0) tasks)
      in kahn tasks (taskMap tasks) queue inDegree [])"

section \<open>The dependency graph\<close>

definition dep_edges :: "task_map \<Rightarrow> (string \<times> string) set" where
  "dep_edges tm = {(n, d). \<exists>t. tm n = Some t \<and> d \<in> set (tk_dependencies t)}"

lemma taskMap_fold: "fold (\<lambda>t m. m(tk_id t \<mapsto> t)) ts m = m ++ fold (\<lambda>t m. m(tk_id t \<mapsto> t)) ts Map.empty"
proof (induction ts arbitrary: m)
  case (Cons t ts)
  show ?case
    using Cons [of "m(tk_id t \<mapsto> t)"] Cons [of "[tk_id t \<mapsto> t]"]
    by (simp add: map_add_upd [symmetric] map_add_assoc [symmetric] del: map_add_upd map_add_assoc) (simp add: map_add_def fun_eq_iff split: option.splits)
qed simp

lemma taskMap_Cons: "taskMap (t # ts) = [tk_id t \<mapsto> t] ++ taskMap ts"
  using taskMap_fold [of ts "[tk_id t \<mapsto> t]"] by (simp add: taskMap_def)

lemma dom_taskMap: "dom (taskMap tasks) = tk_id ` set tasks"
  by (induction tasks) (auto simp: taskMap_Cons taskMap_def [of "[]"])

lemma taskMap_Some: "taskMap tasks i = Some t \<Longrightarrow> t \<in> set tasks \<and> tk_id t = i"
  by (induction tasks) (auto simp: taskMap_Cons taskMap_def [of "[]"] map_add_def split: option.splits if_splits)

lemma taskMap_distinct: "distinct (map tk_id tasks) \<Longrightarrow> taskMap tasks i = Some t \<longleftrightarrow> t \<in> set tasks \<and> tk_id t = i"
proof (induction tasks)
  case (Cons u tasks)
  then have "tk_id u \<notin> dom (taskMap tasks)" by (simp add: dom_taskMap)
  then have "taskMap tasks (tk_id u) = None" by (simp add: domIff)
  with Cons show ?case
    by (auto simp: taskMap_Cons map_add_Some_iff split: if_splits)
qed (simp add: taskMap_def)

section \<open>The search always returns\<close>

lemma dfs_total:
  "finite (dom tm) \<Longrightarrow> card (dom tm - fst s) < k \<Longrightarrow> n \<notin> fst s \<Longrightarrow>
     \<exists>c s'. detectCycleDFS k tm n s = Some (c, s') \<and> insert n (fst s) \<subseteq> fst s'"
  "finite (dom tm) \<Longrightarrow> card (dom tm - fst s) < k \<Longrightarrow>
     \<exists>c s'. detect_deps k tm n ds s = Some (c, s') \<and> fst s \<subseteq> fst s'"
proof (induction k tm n s and k tm n ds s rule: detectCycleDFS_detect_deps.induct)
  case (2 k tm n V R)
  show ?case
  proof (cases "tm n")
    case (Some t)
    have "card (dom tm - insert n V) < card (dom tm - V)"
      using 2 Some by (intro psubset_card_mono) auto
    with 2 Some show ?thesis by fastforce
  qed auto
next
  case (4 k tm n d ds V R)
  show ?case
  proof (cases "d \<in> V")
    case False
    with 4 obtain c s' where s': "detectCycleDFS k tm d (V, R) = Some (c, s')" "insert d V \<subseteq> fst s'"
      by auto
    have "card (dom tm - fst s') \<le> card (dom tm - V)"
      using s' 4(4) by (intro card_mono) auto
    with 4 s' False show ?thesis
      by (cases s'; cases c) fastforce+
  qed (use 4 in auto)
qed simp_all

lemma validate_loop_total:
  "finite (dom tm) \<Longrightarrow> card (dom tm) < k \<Longrightarrow> \<exists>r. validate_loop k tm ts s = Some r"
proof (induction ts arbitrary: s)
  case (Cons t ts)
  have "card (dom tm - fst s) \<le> card (dom tm)"
    using Cons.prems by (intro card_mono) auto
  with Cons.prems have k: "card (dom tm - fst s) < k" by simp
  show ?case
  proof (cases "tk_id t \<in> fst s")
    case False
    then obtain c s' where "detectCycleDFS k tm (tk_id t) s = Some (c, s')"
      using dfs_total(1) [OF Cons.prems(1) k] by blast
    then show ?thesis using Cons False by (cases c) simp_all
  qed (use Cons in simp)
qed simp

lemma validateDAG_total: "\<exists>r. validateDAG tasks = Some r"
proof -
  have "card (tk_id ` set tasks) \<le> length tasks"
    using card_image_le [of "set tasks" tk_id] card_length [of tasks] by simp
  then show ?thesis
    using validate_loop_total [of "taskMap tasks" "length tasks + 1" tasks "({}, {})"]
    by (auto simp: validateDAG_def dom_taskMap split: option.splits)
qed

section \<open>What the search proves\<close>

text \<open>The tasks whose search is over, and the invariant of the two sets.\<close>

definition finished :: "task_map \<Rightarrow> dfs_state \<Rightarrow> string set" where
  "finished tm s = fst s \<inter> dom tm - snd s"

definition search_inv :: "task_map \<Rightarrow> dfs_state \<Rightarrow> bool" where
  "search_inv tm s \<longleftrightarrow> snd s \<subseteq> fst s \<and> fst s - dom tm \<subseteq> snd s \<and>
     (\<forall>n \<in> finished tm s. \<forall>d. (n, d) \<in> dep_edges tm \<longrightarrow> d \<in> finished tm s \<union> - dom tm) \<and>
     (\<forall>n \<in> finished tm s. (n, n) \<notin> (dep_edges tm)\<^sup>+)"

lemma finished_closed:
  assumes "search_inv tm s" and "n \<in> finished tm s" and "(n, m) \<in> (dep_edges tm)\<^sup>*"
  shows "m \<in> finished tm s \<union> - dom tm"
  using assms(3,2)
proof (induction rule: rtrancl_induct)
  case (step y z)
  show ?case
  proof (cases "y \<in> finished tm s")
    case True
    with assms(1) step(2) show ?thesis unfolding search_inv_def by blast
  next
    case False
    with step have "tm y = None" by (auto simp: domIff)
    with step(2) show ?thesis by (simp add: dep_edges_def)
  qed
qed simp

lemma search_inv_finish:
  assumes inv: "search_inv tm (V, R)" and n: "n \<in> R" "tm n = Some t"
    and deps: "set (tk_dependencies t) \<subseteq> finished tm (V, R) \<union> - dom tm"
  shows "search_inv tm (V, R - {n})"
proof -
  have fin: "finished tm (V, R - {n}) = insert n (finished tm (V, R))"
    using inv n by (auto simp: finished_def search_inv_def)
  have succ: "d \<in> finished tm (V, R) \<union> - dom tm" if "(n, d) \<in> dep_edges tm" for d
    using that n deps by (auto simp: dep_edges_def)
  have "(n, n) \<notin> (dep_edges tm)\<^sup>+"
  proof
    assume "(n, n) \<in> (dep_edges tm)\<^sup>+"
    then obtain d where d: "(n, d) \<in> dep_edges tm" "(d, n) \<in> (dep_edges tm)\<^sup>*" by (meson tranclD)
    show False
    proof (cases "d \<in> finished tm (V, R)")
      case True
      then show False using finished_closed [OF inv True d(2)] n by (auto simp: finished_def)
    next
      case False
      then have "tm d = None" using succ [OF d(1)] by (auto simp: domIff)
      with d(2) n(2) show False by (auto simp: dep_edges_def elim: converse_rtranclE)
    qed
  qed
  moreover have "V - dom tm \<subseteq> R - {n}" and "R - {n} \<subseteq> V"
    using inv n by (auto simp: search_inv_def)
  ultimately show ?thesis
    using inv succ unfolding search_inv_def fin by auto
qed

lemma dfs_sound:
  "search_inv tm s \<Longrightarrow> n \<notin> fst s \<Longrightarrow> detectCycleDFS k tm n s = Some (None, s') \<Longrightarrow>
     search_inv tm s' \<and> insert n (fst s) \<subseteq> fst s' \<and> snd s' \<inter> dom tm = snd s \<inter> dom tm"
  "search_inv tm s \<Longrightarrow> n \<in> snd s \<Longrightarrow> tm n = Some t \<Longrightarrow>
     set (tk_dependencies t) \<subseteq> finished tm s \<union> - dom tm \<union> set ds \<Longrightarrow>
     detect_deps k tm n ds s = Some (None, s') \<Longrightarrow>
     search_inv tm s' \<and> fst s \<subseteq> fst s' \<and> snd s' \<inter> dom tm = snd s \<inter> dom tm - {n}"
proof (induction k tm n s and k tm n ds s arbitrary: s' and s' t rule: detectCycleDFS_detect_deps.induct)
  case (2 k tm n V R)
  have n: "n \<notin> V" "n \<notin> R" using 2(2,3) by (auto simp: search_inv_def)
  show ?case
  proof (cases "tm n")
    case None
    then have "finished tm (insert n V, insert n R) = finished tm (V, R)" by (auto simp: finished_def)
    with None 2(2,4) show ?thesis by (auto simp: search_inv_def domIff)
  next
    case (Some t)
    then have fin: "finished tm (insert n V, insert n R) = finished tm (V, R)" using n by (auto simp: finished_def)
    then have "search_inv tm (insert n V, insert n R)" using 2(2) Some by (auto simp: search_inv_def)
    moreover have "set (tk_dependencies t) \<subseteq> finished tm (insert n V, insert n R) \<union> - dom tm \<union> set (tk_dependencies t)"
      by blast
    ultimately have "search_inv tm s' \<and> insert n V \<subseteq> fst s' \<and> snd s' \<inter> dom tm = insert n R \<inter> dom tm - {n}"
      using 2(1) [OF refl refl Some, of t s'] 2(4) Some by auto
    then show ?thesis using n by auto
  qed
next
  case (3 k tm n V R)
  then show ?case using search_inv_finish [OF 3(1) _ 3(3)] by auto
next
  case (4 k tm n d ds V R)
  note inv = 4(4) and n = 4(5,6) and deps = 4(7) and run = 4(8)
  show ?case
  proof (cases "d \<in> V")
    case True
    with run have d: "d \<notin> R" by (auto split: if_splits)
    with True inv have "d \<in> finished tm (V, R)" by (auto simp: search_inv_def finished_def)
    with deps have "set (tk_dependencies t) \<subseteq> finished tm (V, R) \<union> - dom tm \<union> set ds" by auto
    then show ?thesis using 4(3) [OF _ d inv n] run True d by simp
  next
    case False
    with run obtain s1 where s1: "detectCycleDFS k tm d (V, R) = Some (None, s1)"
      "detect_deps k tm n ds s1 = Some (None, s')"
      by (auto split: option.splits prod.splits)
    have r1: "search_inv tm s1" "insert d V \<subseteq> fst s1" "snd s1 \<inter> dom tm = R \<inter> dom tm"
      using 4(1) [OF False inv _ s1(1)] False by auto
    have n1: "n \<in> snd s1" using r1(3) n by auto
    have "d \<notin> R" using inv False by (auto simp: search_inv_def)
    then have "d \<in> finished tm s1 \<union> - dom tm" and "finished tm (V, R) \<subseteq> finished tm s1"
      using r1 by (auto simp: finished_def)
    with deps have "set (tk_dependencies t) \<subseteq> finished tm s1 \<union> - dom tm \<union> set ds" by auto
    from 4(2) [OF False s1(1) refl refl r1(1) n1 n(2) this s1(2)] r1(2,3) show ?thesis by auto
  qed
qed simp

lemma validate_loop_sound:
  "search_inv tm s \<Longrightarrow> snd s \<inter> dom tm = {} \<Longrightarrow> validate_loop k tm ts s = Some r \<Longrightarrow> vr_valid r \<Longrightarrow>
    \<exists>s'. search_inv tm s' \<and> snd s' \<inter> dom tm = {} \<and> fst s \<union> tk_id ` set ts \<subseteq> fst s'"
proof (induction ts arbitrary: s)
  case (Cons t ts)
  show ?case
  proof (cases "tk_id t \<in> fst s")
    case True
    with Cons.IH [OF Cons.prems(1,2)] Cons.prems obtain s' where
      "search_inv tm s'" "snd s' \<inter> dom tm = {}" "fst s \<union> tk_id ` set ts \<subseteq> fst s'" by auto
    with True show ?thesis by (intro exI [of _ s']) auto
  next
    case False
    with Cons.prems(3,4) obtain s1 where s1: "detectCycleDFS k tm (tk_id t) s = Some (None, s1)"
      "validate_loop k tm ts s1 = Some r"
      by (auto split: option.splits prod.splits)
    from dfs_sound(1) [OF Cons.prems(1) False s1(1)] Cons.prems(2)
    have r1: "search_inv tm s1" "snd s1 \<inter> dom tm = {}" "insert (tk_id t) (fst s) \<subseteq> fst s1" by auto
    from Cons.IH [OF r1(1,2) s1(2) Cons.prems(4)] obtain s' where
      "search_inv tm s'" "snd s' \<inter> dom tm = {}" "fst s1 \<union> tk_id ` set ts \<subseteq> fst s'" by auto
    with r1(3) show ?thesis by (intro exI [of _ s']) auto
  qed
next
  case Nil
  then show ?case by (intro exI [of _ s]) simp
qed

lemma validateDAG_sound:
  assumes "validateDAG tasks = Some r" and "vr_valid r"
  shows "acyclic (dep_edges (taskMap tasks))"
proof -
  let ?tm = "taskMap tasks"
  have "validate_loop (length tasks + 1) ?tm tasks ({}, {}) = Some r"
    using assms by (auto simp: validateDAG_def split: option.splits)
  moreover have "search_inv ?tm ({}, {})" by (simp add: search_inv_def finished_def)
  ultimately obtain s' where s': "search_inv ?tm s'" "snd s' \<inter> dom ?tm = {}" "tk_id ` set tasks \<subseteq> fst s'"
    using validate_loop_sound [of ?tm "({}, {})"] assms(2) by force
  then have fin: "finished ?tm s' = dom ?tm" by (auto simp: finished_def dom_taskMap)
  show ?thesis
    unfolding acyclic_def
  proof
    fix n
    show "(n, n) \<notin> (dep_edges ?tm)\<^sup>+"
    proof (cases "n \<in> dom ?tm")
      case True
      with s'(1) fin show ?thesis by (simp add: search_inv_def)
    next
      case False
      then show ?thesis by (auto simp: dep_edges_def domIff dest!: tranclD)
    qed
  qed
qed

section \<open>What a reported cycle means\<close>

lemma dfs_complete:
  "\<forall>(n, d) \<in> dep_edges tm. d \<in> dom tm \<Longrightarrow> n \<in> dom tm \<Longrightarrow> \<forall>r \<in> snd s. (r, n) \<in> (dep_edges tm)\<^sup>* \<Longrightarrow>
     detectCycleDFS k tm n s = Some (c, s') \<Longrightarrow>
     (c = None \<longrightarrow> snd s' \<subseteq> snd s) \<and> (c \<noteq> None \<longrightarrow> (\<exists>x. (x, x) \<in> (dep_edges tm)\<^sup>+))"
  "\<forall>(n, d) \<in> dep_edges tm. d \<in> dom tm \<Longrightarrow> tm n = Some t \<Longrightarrow> set ds \<subseteq> set (tk_dependencies t) \<Longrightarrow>
     \<forall>r \<in> snd s. (r, n) \<in> (dep_edges tm)\<^sup>* \<Longrightarrow> detect_deps k tm n ds s = Some (c, s') \<Longrightarrow>
     (c = None \<longrightarrow> snd s' \<subseteq> snd s - {n}) \<and> (c \<noteq> None \<longrightarrow> (\<exists>x. (x, x) \<in> (dep_edges tm)\<^sup>+))"
proof (induction k tm n s and k tm n ds s arbitrary: c s' and c s' t rule: detectCycleDFS_detect_deps.induct)
  case (2 k tm n V R)
  from 2(3) obtain t where t: "tm n = Some t" by auto
  with 2(1) [OF refl refl t 2(2) t subset_refl, of c s'] 2(4,5) show ?case by auto
next
  case (4 k tm n d ds V R)
  note closed = 4(4) and n = 4(5) and ds = 4(6) and reach = 4(7) and run = 4(8)
  have edge: "(n, d) \<in> dep_edges tm" using n ds by (auto simp: dep_edges_def)
  have d: "d \<in> dom tm" using closed edge by blast
  have ds': "set ds \<subseteq> set (tk_dependencies t)" using ds by simp
  show ?case
  proof (cases "d \<in> V")
    case True
    show ?thesis
    proof (cases "d \<in> R")
      case False
      then show ?thesis using 4(3) [OF _ False closed n ds' reach] run True by simp
    next
      case True
      with reach edge have "(d, d) \<in> (dep_edges tm)\<^sup>+" by (auto intro: rtrancl_into_trancl1)
      with True \<open>d \<in> V\<close> run show ?thesis by auto
    qed
  next
    case False
    from reach edge have reach': "\<forall>r \<in> snd (V, R). (r, d) \<in> (dep_edges tm)\<^sup>*"
      by (auto intro: rtrancl_into_rtrancl)
    from run False obtain c1 s1 where s1: "detectCycleDFS k tm d (V, R) = Some (c1, s1)"
      by (auto split: option.splits)
    note r1 = 4(1) [OF False closed d reach' s1]
    show ?thesis
    proof (cases c1)
      case None
      have "\<forall>r \<in> snd s1. (r, n) \<in> (dep_edges tm)\<^sup>*" using r1 None reach by auto
      from 4(2) [OF False s1 refl None closed n ds' this] r1 run s1 False None show ?thesis by auto
    qed (use r1 run s1 False in auto)
  qed
qed auto

lemma validate_loop_complete:
  assumes "\<forall>(n, d) \<in> dep_edges tm. d \<in> dom tm" and "acyclic (dep_edges tm)"
  shows "tk_id ` set ts \<subseteq> dom tm \<Longrightarrow> snd s = {} \<Longrightarrow> validate_loop k tm ts s = Some r \<Longrightarrow> vr_valid r"
proof (induction ts arbitrary: s)
  case (Cons t ts)
  show ?case
  proof (cases "tk_id t \<in> fst s")
    case False
    with Cons.prems(3) obtain c s1 where s1: "detectCycleDFS k tm (tk_id t) s = Some (c, s1)"
      by (auto split: option.splits)
    have "c = None" "snd s1 \<subseteq> {}"
      using dfs_complete(1) [OF assms(1) _ _ s1] assms(2) Cons.prems(1,2) by (auto simp: acyclic_def)
    with s1 False Cons show ?thesis by simp
  qed (use Cons in simp)
qed auto

section \<open>Kahn's algorithm\<close>

text \<open>One round of releases in closed form.\<close>

lemma release_fold:
  assumes "distinct (map tk_id cs)"
  shows "fold (release i) cs (deg, q) =
    (\<lambda>j. if \<exists>c \<in> set cs. tk_id c = j \<and> i \<in> set (tk_dependencies c)
         then Some ((case deg j of None \<Rightarrow> 0 | Some d \<Rightarrow> d) - 1) else deg j,
     q @ map tk_id (filter (\<lambda>c. i \<in> set (tk_dependencies c) \<and> (case deg (tk_id c) of None \<Rightarrow> 0 | Some d \<Rightarrow> d) = 1) cs))"
  using assms
proof (induction cs arbitrary: deg q)
  case (Cons c cs)
  let ?deg = "deg(tk_id c \<mapsto> (case deg (tk_id c) of None \<Rightarrow> 0 | Some d \<Rightarrow> d) - 1)"
  have same: "filter (\<lambda>c'. i \<in> set (tk_dependencies c') \<and> (case ?deg (tk_id c') of None \<Rightarrow> 0 | Some d \<Rightarrow> d) = 1) cs =
      filter (\<lambda>c'. i \<in> set (tk_dependencies c') \<and> (case deg (tk_id c') of None \<Rightarrow> 0 | Some d \<Rightarrow> d) = 1) cs"
    using Cons.prems by (intro filter_cong) (auto simp: image_iff)
  show ?case
  proof (cases "i \<in> set (tk_dependencies c)")
    case True
    have "fold (release i) (c # cs) (deg, q) =
        fold (release i) cs (?deg, if (case deg (tk_id c) of None \<Rightarrow> 0 | Some d \<Rightarrow> d) = 1 then q @ [tk_id c] else q)"
      using True by (simp add: release_def Let_def)
    also have "\<dots> = (\<lambda>j. if \<exists>c \<in> set cs. tk_id c = j \<and> i \<in> set (tk_dependencies c)
         then Some ((case ?deg j of None \<Rightarrow> 0 | Some d \<Rightarrow> d) - 1) else ?deg j,
       (if (case deg (tk_id c) of None \<Rightarrow> 0 | Some d \<Rightarrow> d) = 1 then q @ [tk_id c] else q) @
       map tk_id (filter (\<lambda>c. i \<in> set (tk_dependencies c) \<and> (case deg (tk_id c) of None \<Rightarrow> 0 | Some d \<Rightarrow> d) = 1) cs))"
      using Cons.IH Cons.prems same by simp
    finally show ?thesis
      using True Cons.prems by (auto simp: fun_eq_iff image_iff)
  next
    case False
    then show ?thesis using Cons by (simp add: release_def)
  qed
qed simp

definition plan_wf :: "Task list \<Rightarrow> bool" where
  "plan_wf tasks \<longleftrightarrow> distinct (map tk_id tasks) \<and>
     (\<forall>t \<in> set tasks. distinct (tk_dependencies t) \<and> set (tk_dependencies t) \<subseteq> tk_id ` set tasks)"

text \<open>Every task comes after the tasks it depends on.\<close>

definition deps_before :: "Task list \<Rightarrow> bool" where
  "deps_before ts \<longleftrightarrow> (\<forall>k < length ts. set (tk_dependencies (ts ! k)) \<subseteq> tk_id ` set (take k ts))"

lemma deps_before_snoc:
  "deps_before ts \<Longrightarrow> set (tk_dependencies t) \<subseteq> tk_id ` set ts \<Longrightarrow> deps_before (ts @ [t])"
  by (auto simp: deps_before_def nth_append less_Suc_eq)

definition kahn_inv :: "Task list \<Rightarrow> string list \<Rightarrow> (string \<rightharpoonup> int) \<Rightarrow> Task list \<Rightarrow> bool" where
  "kahn_inv tasks q deg result \<longleftrightarrow>
     set result \<subseteq> set tasks \<and> distinct (map tk_id result @ q) \<and> deps_before result \<and>
     set q \<subseteq> tk_id ` set tasks \<and>
     (\<forall>t \<in> set tasks. deg (tk_id t) = Some (int (card (set (tk_dependencies t) - tk_id ` set result)))) \<and>
     (\<forall>t \<in> set tasks. tk_id t \<in> tk_id ` set result \<union> set q \<longleftrightarrow> set (tk_dependencies t) \<subseteq> tk_id ` set result)"

lemma card_one_mem: "i \<in> A \<Longrightarrow> card A = 1 \<longleftrightarrow> A = {i}"
  by (metis card_1_singletonE singletonD is_singletonI is_singleton_altdef)

lemma kahn_step:
  assumes wf: "plan_wf tasks" and inv: "kahn_inv tasks (i # q) deg result"
  shows "\<exists>t. taskMap tasks i = Some t \<and>
    kahn_inv tasks (snd (fold (release i) tasks (deg, q))) (fst (fold (release i) tasks (deg, q))) (result @ [t])"
proof -
  have dist: "distinct (map tk_id tasks)" using wf by (simp add: plan_wf_def)
  from inv obtain t where t: "t \<in> set tasks" "tk_id t = i" by (auto simp: kahn_inv_def)
  let ?S = "tk_id ` set result"
  let ?new = "filter (\<lambda>c. i \<in> set (tk_dependencies c) \<and> (case deg (tk_id c) of None \<Rightarrow> 0 | Some d \<Rightarrow> d) = 1) tasks"
  have i: "i \<notin> ?S" "i \<notin> set q" using inv by (auto simp: kahn_inv_def)
  have same: "u = c" if "u \<in> set tasks" "c \<in> set tasks" "tk_id u = tk_id c" for u c
    using that dist by (auto simp: distinct_map dest: inj_onD)
  have deg: "deg (tk_id c) = Some (int (card (set (tk_dependencies c) - ?S)))" if "c \<in> set tasks" for c
    using inv that by (simp add: kahn_inv_def)
  have ready: "tk_id c \<in> insert i (?S \<union> set q) \<longleftrightarrow> set (tk_dependencies c) \<subseteq> ?S" if "c \<in> set tasks" for c
    using inv that by (auto simp: kahn_inv_def)
  have drop: "set (tk_dependencies c) - insert i ?S = (set (tk_dependencies c) - ?S) - {i}" for c by auto
  have one: "card (set (tk_dependencies c) - ?S) = 1 \<longleftrightarrow> set (tk_dependencies c) \<subseteq> insert i ?S"
    if "i \<in> set (tk_dependencies c)" for c
  proof -
    have "i \<in> set (tk_dependencies c) - ?S" using that i by simp
    then show ?thesis unfolding card_one_mem [OF \<open>i \<in> set (tk_dependencies c) - ?S\<close>] by auto
  qed
  have new: "c \<in> set ?new \<longleftrightarrow> c \<in> set tasks \<and> i \<in> set (tk_dependencies c) \<and> set (tk_dependencies c) \<subseteq> insert i ?S" for c
    using deg [of c] one [of c] by (cases "c \<in> set tasks") auto
  have "kahn_inv tasks (q @ map tk_id ?new)
    (\<lambda>j. if \<exists>c \<in> set tasks. tk_id c = j \<and> i \<in> set (tk_dependencies c)
         then Some ((case deg j of None \<Rightarrow> 0 | Some d \<Rightarrow> d) - 1) else deg j) (result @ [t])"
    (is "kahn_inv _ ?q ?deg _")
    unfolding kahn_inv_def
  proof (intro conjI ballI)
    show "set (result @ [t]) \<subseteq> set tasks" using inv t by (simp add: kahn_inv_def)
    have "distinct (map tk_id ?new)" using dist by (rule distinct_map_filter)
    moreover have "tk_id c \<notin> insert i (?S \<union> set q)" if "c \<in> set ?new" for c
      using that new [of c] ready [of c] i by auto
    then have "set (map tk_id ?new) \<inter> insert i (?S \<union> set q) = {}" unfolding set_map by blast
    moreover have "distinct (map tk_id result @ q)" using inv by (simp add: kahn_inv_def)
    ultimately have "distinct (map tk_id result @ [i] @ q @ map tk_id ?new)"
      using i unfolding distinct_append set_append set_map by auto
    then show "distinct (map tk_id (result @ [t]) @ ?q)"
      using t(2) unfolding map_append append_assoc list.map by (simp only:)
    show "deps_before (result @ [t])"
      using inv ready [OF t(1)] t by (intro deps_before_snoc) (auto simp: kahn_inv_def)
    show "set ?q \<subseteq> tk_id ` set tasks" using inv by (auto simp: kahn_inv_def)
  next
    fix c assume c: "c \<in> set tasks"
    have dec: "(\<exists>u \<in> set tasks. tk_id u = tk_id c \<and> i \<in> set (tk_dependencies u)) \<longleftrightarrow> i \<in> set (tk_dependencies c)"
      using same c by blast
    have "i \<in> set (tk_dependencies c) \<Longrightarrow> 0 < card (set (tk_dependencies c) - ?S)"
      using i by (auto simp: card_gt_0_iff)
    then show "?deg (tk_id c) = Some (int (card (set (tk_dependencies c) - tk_id ` set (result @ [t]))))"
      using deg [OF c] i t by (auto simp: dec drop card_Diff_singleton_if of_nat_diff)
    have "tk_id c \<in> tk_id ` set ?new \<longleftrightarrow> c \<in> set ?new"
      using same c by auto
    then show "tk_id c \<in> tk_id ` set (result @ [t]) \<union> set ?q \<longleftrightarrow>
        set (tk_dependencies c) \<subseteq> tk_id ` set (result @ [t])"
      using ready [OF c] new [of c] c t by auto
  qed
  moreover have "taskMap tasks i = Some t" using taskMap_distinct [OF dist] t by simp
  ultimately show ?thesis by (simp add: release_fold [OF dist])
qed

lemma kahn_correct:
  assumes "plan_wf tasks" and "kahn_inv tasks q deg result"
  shows "\<exists>deg'. kahn_inv tasks [] deg' (kahn tasks (taskMap tasks) q deg result)"
  using assms(2)
proof (induction "length q + card (pending_ids tasks deg)" arbitrary: q deg result rule: less_induct)
  case less
  show ?case
  proof (cases q)
    case (Cons i q')
    from kahn_step [OF assms(1)] less(2) Cons obtain t where t: "taskMap tasks i = Some t"
      "kahn_inv tasks (snd (fold (release i) tasks (deg, q'))) (fst (fold (release i) tasks (deg, q'))) (result @ [t])"
      by blast
    have "length (snd (fold (release i) tasks (deg, q'))) + card (pending_ids tasks (fst (fold (release i) tasks (deg, q'))))
        < length q + card (pending_ids tasks deg)"
      using release_fold_measure [of tasks tasks i "(deg, q')"] Cons by simp
    from less(1) [OF this t(2)] Cons t(1) show ?thesis by (simp add: Let_def)
  qed (use less in auto)
qed

lemma fold_upd_other: "j \<notin> k ` set xs \<Longrightarrow> fold (\<lambda>x m. m(k x \<mapsto> v x)) xs m j = m j"
  by (induction xs arbitrary: m) auto

lemma fold_upd_distinct:
  "distinct (map k xs) \<Longrightarrow> x \<in> set xs \<Longrightarrow> fold (\<lambda>x m. m(k x \<mapsto> v x)) xs m (k x) = Some (v x)"
proof (induction xs arbitrary: m)
  case (Cons y xs)
  show ?case
  proof (cases "x \<in> set xs")
    case False
    with Cons.prems have "x = y" "k y \<notin> k ` set xs" by auto
    then show ?thesis using fold_upd_other [of "k y" k xs v "m(k y \<mapsto> v y)"] by (simp del: fun_upd_apply) simp
  qed (use Cons in auto)
qed simp

lemma kahn_start:
  assumes "plan_wf tasks"
  shows "kahn_inv tasks (map tk_id (filter (\<lambda>t. length (tk_dependencies t) = 0) tasks))
    (fold (\<lambda>t m. m(tk_id t \<mapsto> int (length (tk_dependencies t)))) tasks Map.empty) []"
proof -
  have dist: "distinct (map tk_id tasks)" using assms by (simp add: plan_wf_def)
  note deg = fold_upd_distinct [OF dist, of _ "\<lambda>t. int (length (tk_dependencies t))"]
  have "length (tk_dependencies t) = card (set (tk_dependencies t))" if "t \<in> set tasks" for t
    using assms that by (simp add: plan_wf_def distinct_card)
  moreover have "tk_id t \<in> tk_id ` set (filter (\<lambda>t. tk_dependencies t = []) tasks) \<longleftrightarrow> tk_dependencies t = []"
    if "t \<in> set tasks" for t
    using that dist by (auto simp: distinct_map dest: inj_onD)
  ultimately show ?thesis
    using dist deg by (auto simp: kahn_inv_def deps_before_def distinct_map_filter)
qed

lemma all_sorted:
  assumes "plan_wf tasks" and "acyclic (dep_edges (taskMap tasks))" and inv: "kahn_inv tasks [] deg result"
  shows "tk_id ` set tasks \<subseteq> tk_id ` set result"
proof -
  let ?E = "dep_edges (taskMap tasks)"
  have dist: "distinct (map tk_id tasks)" using assms(1) by (simp add: plan_wf_def)
  have "?E \<subseteq> tk_id ` set tasks \<times> tk_id ` set tasks"
    using assms(1) taskMap_Some by (fastforce simp: dep_edges_def plan_wf_def)
  then have "finite ?E" by (rule finite_subset) simp
  then have "wf (?E\<inverse>)" using assms(2) by (simp add: finite_acyclic_wf_converse)
  then have "\<forall>t \<in> set tasks. tk_id t = n \<longrightarrow> n \<in> tk_id ` set result" for n
  proof (induction n rule: wf_induct_rule)
    case (less n)
    show ?case
    proof (intro ballI impI)
      fix t assume t: "t \<in> set tasks" "tk_id t = n"
      have "d \<in> tk_id ` set result" if "d \<in> set (tk_dependencies t)" for d
      proof -
        have "(n, d) \<in> ?E" using that t taskMap_distinct [OF dist] by (auto simp: dep_edges_def)
        moreover have "d \<in> tk_id ` set tasks" using assms(1) t that by (auto simp: plan_wf_def)
        ultimately show ?thesis using less by auto
      qed
      then show "n \<in> tk_id ` set result"
        using inv t by (auto simp: kahn_inv_def)
    qed
  qed
  then show ?thesis by blast
qed

section \<open>Properties\<close>

text \<open>
  C27. Validation always returns. It accepts a plan only if its dependency graph has no cycle, and it accepts every plan
  of distinct identifiers, all of whose dependencies are tasks of the plan, whose graph has no cycle.
\<close>
theorem validateDAG_decides_acyclicity:
  assumes "distinct (map tk_id tasks)"
  shows "\<exists>r. validateDAG tasks = Some r \<and>
    (vr_valid r \<longrightarrow> acyclic (dep_edges (taskMap tasks))) \<and>
    (acyclic (dep_edges (taskMap tasks)) \<and> (\<forall>t \<in> set tasks. set (tk_dependencies t) \<subseteq> tk_id ` set tasks) \<longrightarrow> vr_valid r)"
proof -
  let ?tm = "taskMap tasks"
  obtain r where r: "validateDAG tasks = Some r" using validateDAG_total by blast
  have "vr_valid r" if ac: "acyclic (dep_edges ?tm)" and closed: "\<forall>t \<in> set tasks. set (tk_dependencies t) \<subseteq> tk_id ` set tasks"
  proof -
    have "tk_id t \<notin> set (tk_dependencies t)" if "t \<in> set tasks" for t
    proof
      assume "tk_id t \<in> set (tk_dependencies t)"
      then have "(tk_id t, tk_id t) \<in> dep_edges ?tm"
        using that taskMap_distinct [OF assms] by (auto simp: dep_edges_def)
      with ac show False by (auto simp: acyclic_def)
    qed
    then have "validate_loop (length tasks + 1) ?tm tasks ({}, {}) = Some r"
      using r by (simp add: validateDAG_def find_None_iff split: option.splits) (metis find_Some_iff nth_mem)
    moreover have "\<forall>(n, d) \<in> dep_edges ?tm. d \<in> dom ?tm"
      using closed by (auto simp: dep_edges_def dom_taskMap dest!: taskMap_Some)
    ultimately show ?thesis
      by (intro validate_loop_complete [OF _ ac, of tasks "({}, {})"]) (simp_all add: dom_taskMap)
  qed
  with r validateDAG_sound show ?thesis by blast
qed

definition chain_plan :: "Task list" where
  "chain_plan = [sample_task ''b'' [''a''] Tk_PENDING, sample_task ''a'' [] Tk_PENDING]"

lemma chain_plan_wf: "plan_wf chain_plan"
  by (simp add: chain_plan_def plan_wf_def sample_task_def)

lemma chain_plan_valid: "validateDAG chain_plan = Some \<lparr>vr_valid = True, vr_error = None, vr_cycle = None\<rparr>"
  by (simp add: chain_plan_def validateDAG_def sample_task_def taskMap_def eval_nat_numeral)

lemma validateDAG_decides_acyclicity_witness:
  "acyclic (dep_edges (taskMap chain_plan)) \<and> validateDAG chain_plan \<noteq> None"
  using validateDAG_decides_acyclicity [of chain_plan] chain_plan_wf
  by (auto simp: chain_plan_valid plan_wf_def)

lemma topologicalSort_sorts:
  assumes "plan_wf tasks" and "acyclic (dep_edges (taskMap tasks))"
  shows "mset (topologicalSort tasks) = mset tasks \<and> deps_before (topologicalSort tasks)"
proof -
  obtain deg where inv: "kahn_inv tasks [] deg (topologicalSort tasks)"
    using kahn_correct [OF assms(1) kahn_start [OF assms(1)]] by (auto simp: topologicalSort_def Let_def)
  have dist: "distinct (map tk_id tasks)" "distinct (map tk_id (topologicalSort tasks))"
    using assms(1) inv by (simp_all add: plan_wf_def kahn_inv_def)
  have sub: "set (topologicalSort tasks) \<subseteq> set tasks" using inv by (simp add: kahn_inv_def)
  have "t \<in> set (topologicalSort tasks)" if "t \<in> set tasks" for t
  proof -
    have "tk_id t \<in> tk_id ` set (topologicalSort tasks)"
      using all_sorted [OF assms inv] that by blast
    then obtain u where "u \<in> set (topologicalSort tasks)" "tk_id u = tk_id t" by (elim imageE) simp
    moreover from this have "u = t"
      using that sub dist(1) by (intro inj_onD [of tk_id "set tasks"]) (auto simp: distinct_map)
    ultimately show ?thesis by simp
  qed
  with sub have "set (topologicalSort tasks) = set tasks" by blast
  then have "mset (topologicalSort tasks) = mset tasks"
    using dist by (simp add: set_eq_iff_mset_eq_distinct distinct_map)
  with inv show ?thesis by (simp add: kahn_inv_def)
qed

text \<open>
  C28. On a plan of distinct identifiers without duplicate, missing or cyclic dependencies, the sort returns every task of
  the plan exactly once, each after all the tasks it depends on.
\<close>
theorem topologicalSort_orders_plan:
  assumes "plan_wf tasks" and "acyclic (dep_edges (taskMap tasks))"
  shows "mset (topologicalSort tasks) = mset tasks \<and> deps_before (topologicalSort tasks)"
  by (rule topologicalSort_sorts [OF assms])

lemma topologicalSort_orders_plan_witness:
  "mset (topologicalSort chain_plan) = mset chain_plan \<and> deps_before (topologicalSort chain_plan)"
  using topologicalSort_orders_plan [OF chain_plan_wf] validateDAG_sound [OF chain_plan_valid] by simp

text \<open>
  Two tasks that name the same dependency, which is not a task of the plan, are reported as a cycle although the
  graph has none: the search leaves a missing task on its stack.
\<close>
theorem shared_missing_dependency_is_called_cycle:
  "(let plan = [sample_task ''a'' [''x''] Tk_PENDING, sample_task ''b'' [''x''] Tk_PENDING] in
    acyclic (dep_edges (taskMap plan)) \<and>
    validateDAG plan = Some \<lparr>vr_valid = False, vr_error = Some (cycle_message [''x'', ''b'']),
      vr_cycle = Some [''x'', ''b'']\<rparr>)"
proof -
  let ?plan = "[sample_task ''a'' [''x''] Tk_PENDING, sample_task ''b'' [''x''] Tk_PENDING]"
  have x: "dep_edges (taskMap ?plan) \<subseteq> {''a'', ''b''} \<times> {''x''}"
    by (auto simp: dep_edges_def taskMap_def sample_task_def split: if_splits)
  have "acyclic (dep_edges (taskMap ?plan))"
    unfolding acyclic_def
  proof (intro allI notI)
    fix n assume "(n, n) \<in> (dep_edges (taskMap ?plan))\<^sup>+"
    from tranclD [OF this] tranclD2 [OF this] x show False by auto
  qed
  moreover have "validateDAG ?plan = Some \<lparr>vr_valid = False, vr_error = Some (cycle_message [''x'', ''b'']),
      vr_cycle = Some [''x'', ''b'']\<rparr>"
    by (simp add: validateDAG_def sample_task_def taskMap_def eval_nat_numeral Let_def)
  ultimately show ?thesis by (simp add: Let_def)
qed

text \<open>
  A plan that validation accepts can lose a task when it is sorted: a dependency listed twice counts twice towards
  the in-degree and is released once.
\<close>
theorem repeated_dependency_loses_task:
  "(let plan = [sample_task ''a'' [] Tk_PENDING, sample_task ''b'' [''a'', ''a''] Tk_PENDING] in
    validateDAG plan = Some \<lparr>vr_valid = True, vr_error = None, vr_cycle = None\<rparr> \<and>
    topologicalSort plan = [sample_task ''a'' [] Tk_PENDING])"
  by (simp add: validateDAG_def sample_task_def taskMap_def eval_nat_numeral topologicalSort_def release_def)

lemma getByIds_length: "length (getByIds st ds run) = length ds \<longleftrightarrow> (\<forall>d \<in> set ds. task_getById st d run \<noteq> None)"
proof (induction ds)
  case (Cons d ds)
  have "length (List.map_filter (\<lambda>i. task_getById st i run) ds) \<le> length ds"
    by (simp add: map_filter_def)
  with Cons show ?case by (auto simp: getByIds_def map_filter_simps split: option.splits)
qed (simp add: getByIds_def map_filter_simps)

lemma set_getByIds: "t \<in> set (getByIds st ds run) \<longleftrightarrow> (\<exists>d \<in> set ds. task_getById st d run = Some t)"
  by (force simp: getByIds_def map_filter_def)

text \<open>The dependencies of a task are met exactly when each of them is stored for the run and done.\<close>

lemma areMet_iff_all_done:
  "areMet st ds run \<longleftrightarrow> (\<forall>d \<in> set ds. \<exists>t. task_getById st d run = Some t \<and> tk_status t = Tk_DONE)"
proof -
  have "areMet st ds run \<longleftrightarrow> (\<forall>d \<in> set ds. task_getById st d run \<noteq> None) \<and>
      (\<forall>t \<in> set (getByIds st ds run). tk_status t = Tk_DONE)"
    unfolding areMet_def getByIds_length [symmetric]
    by (auto simp: Let_def list_all_iff getByIds_def map_filter_simps)
  also have "\<dots> \<longleftrightarrow> (\<forall>d \<in> set ds. \<exists>t. task_getById st d run = Some t \<and> tk_status t = Tk_DONE)"
    by (simp add: Ball_def set_getByIds) (metis option.inject)
  finally show ?thesis .
qed

end
