(* ===== verification/Task_Scheduler.thy ===== *)
theory Task_Scheduler
  imports Dependency_Resolver
begin

text \<open>
  The scheduler of a run's tasks and its retry classification
  (packages/execution-engine/src/runtime/orchestration/TaskScheduler.ts, RetryClassifier.ts) over the
  task repository. The executor and the hooks are parameters: an answer or an error for each task
  object they are given. Since every attempt of a task has its own retry count, this covers every
  sequence of outcomes of the executor. The tasks of a batch run one after the other in the model;
  \<open>batch_order_is_irrelevant\<close> shows that each of them reads and writes its own record only and that
  the order makes no difference. The hook \<open>onRetryDecision\<close>, whose errors are caught and logged, has no
  effect here.
\<close>

section \<open>Which failures are retried\<close>

datatype re_item = RLit char | RWordBoundary | RNotQuotePlus | RAnyStar

definition is_word_char :: "char \<Rightarrow> bool" where
  "is_word_char c \<longleftrightarrow>
     (let n = of_char c :: nat in 97 \<le> n \<and> n \<le> 122 \<or> 65 \<le> n \<and> n \<le> 90 \<or> 48 \<le> n \<and> n \<le> 57 \<or> n = 95)"

definition at_word :: "char option \<Rightarrow> bool" where
  "at_word c = (case c of None \<Rightarrow> False | Some c \<Rightarrow> is_word_char c)"

definition first_char :: "string \<Rightarrow> char option" where
  "first_char s = (case s of [] \<Rightarrow> None | c # _ \<Rightarrow> Some c)"

text \<open>
  Whether a sequence of pattern items matches at the start of a string, given the character before
  it: case-insensitive literals, \<open>\b\<close>, \<open>[^']+\<close> and \<open>.*\<close>.
\<close>

fun re_match :: "re_item list \<Rightarrow> char option \<Rightarrow> string \<Rightarrow> bool" where
  "re_match [] prev s = True"
| "re_match (RLit c # items) prev [] = False"
| "re_match (RLit c # items) prev (x # s) = (lower_char x = lower_char c \<and> re_match items (Some x) s)"
| "re_match (RWordBoundary # items) prev s = (at_word prev \<noteq> at_word (first_char s) \<and> re_match items prev s)"
| "re_match (RNotQuotePlus # items) prev [] = False"
| "re_match (RNotQuotePlus # items) prev (x # s) =
     (x \<noteq> CHR 0x27 \<and> (re_match items (Some x) s \<or> re_match (RNotQuotePlus # items) (Some x) s))"
| "re_match (RAnyStar # items) prev [] = re_match items prev []"
| "re_match (RAnyStar # items) prev (x # s) =
     (re_match items prev (x # s) \<or>
      x \<noteq> CHR 0x0A \<and> x \<noteq> CHR 0x0D \<and> re_match (RAnyStar # items) (Some x) s)"

fun re_search :: "re_item list \<Rightarrow> char option \<Rightarrow> string \<Rightarrow> bool" where
  "re_search items prev [] = re_match items prev []"
| "re_search items prev (x # s) = (re_match items prev (x # s) \<or> re_search items (Some x) s)"

definition re_test :: "re_item list list \<Rightarrow> string \<Rightarrow> bool" where
  "re_test alternatives s = list_ex (\<lambda>items. re_search items None s) alternatives"

abbreviation lits :: "string \<Rightarrow> re_item list" where
  "lits s \<equiv> map RLit s"

definition re_words :: "string \<Rightarrow> re_item list" where
  "re_words s = [RWordBoundary] @ lits s @ [RWordBoundary]"

datatype RetryReasonCode =
    DETERMINISTIC_COMMAND_POLICY | DETERMINISTIC_PATH_VALIDATION | DETERMINISTIC_INPUT_VALIDATION
  | DETERMINISTIC_INVALID_TARGET | TRANSIENT_OR_UNKNOWN

record RetryClassification =
  rc_retryable :: bool
  rc_reasonCode :: RetryReasonCode

definition DETERMINISTIC_RULES :: "(re_item list list \<times> RetryReasonCode) list" where
  "DETERMINISTIC_RULES =
    [([lits ''command not allowed'', lits ''git shell commands are not allowed'', lits ''unsafe shell token''],
      DETERMINISTIC_COMMAND_POLICY),
     ([lits ''path traversal detected'', lits ''absolute paths are not allowed'', lits ''path cannot be empty''],
      DETERMINISTIC_PATH_VALIDATION),
     ([[RWordBoundary] @ lits (''missing '' @ [CHR 0x27]) @ [RNotQuotePlus] @ lits ([CHR 0x27] @ '' field'') @ [RWordBoundary],
       re_words ''must be a concrete non-empty'', re_words ''invalid git action'', re_words ''invalid payload'',
       re_words ''schema validation''],
      DETERMINISTIC_INPUT_VALIDATION),
     ([re_words ''is a directory'', re_words ''no such file or directory'', re_words ''file does not exist'',
       [RWordBoundary] @ lits ''path '' @ [RAnyStar] @ lits '' not found'' @ [RWordBoundary],
       [RWordBoundary] @ lits ''target '' @ [RAnyStar] @ lits '' ambiguous'' @ [RWordBoundary],
       re_words ''no files matched glob pattern'', re_words ''no matches found for''],
      DETERMINISTIC_INVALID_TARGET)]"

definition classifyRetryability :: "string \<Rightarrow> RetryClassification" where
  "classifyRetryability message =
     (case List.find (\<lambda>(pattern, _). re_test pattern message) DETERMINISTIC_RULES of
        Some (_, code) \<Rightarrow> \<lparr>rc_retryable = False, rc_reasonCode = code\<rparr>
      | None \<Rightarrow> \<lparr>rc_retryable = True, rc_reasonCode = TRANSIENT_OR_UNKNOWN\<rparr>)"

section \<open>Configuration\<close>

record TaskResult =
  tr_taskId :: string
  tr_status :: TaskStatus
  tr_output :: "TaskOutput option"
  tr_error :: "TaskError option"

text \<open>The scheduler object, the executor and the hooks it is called with.\<close>

record scheduler =
  sc_concurrencyLimit :: nat
  sc_enforceReadOnlyParallel :: bool
  sc_readOnlyTaskTypes :: "string list"
  sc_executor :: "Task \<Rightarrow> engine_error + TaskResult"
  sc_beforeTask :: "Task \<Rightarrow> engine_error option"
  sc_afterTask :: "Task \<Rightarrow> TaskResult \<Rightarrow> engine_error option"
  sc_onTaskError :: "Task \<Rightarrow> engine_error \<Rightarrow> engine_error option"

definition TaskScheduler ::
  "(Task \<Rightarrow> engine_error + TaskResult) \<Rightarrow> nat option \<Rightarrow> bool option \<Rightarrow> string list option \<Rightarrow> engine_error + scheduler" where
  "TaskScheduler executor limit enforce readOnlyTypes =
     (let n = (case limit of None \<Rightarrow> 1 | Some n \<Rightarrow> n) in
      andThen (throw_if (n < 1) (SchedulerError ''concurrencyLimit must be >= 1'')) (\<lambda>_.
      Inr \<lparr>sc_concurrencyLimit = n,
           sc_enforceReadOnlyParallel = (case enforce of None \<Rightarrow> True | Some b \<Rightarrow> b),
           sc_readOnlyTaskTypes = map toLowerCase (case readOnlyTypes of None \<Rightarrow> [''analyze'', ''review''] | Some ts \<Rightarrow> ts),
           sc_executor = executor, sc_beforeTask = (\<lambda>_. None), sc_afterTask = (\<lambda>_ _. None),
           sc_onTaskError = (\<lambda>_ _. None)\<rparr>))"

section \<open>One task\<close>

datatype failure_step = Give_up TaskResult | Retry_call string string

definition handleTaskFailure :: "Task \<Rightarrow> engine_error \<Rightarrow> (storage, engine_error, failure_step \<times> Task) op" where
  "handleTaskFailure task err =
     (let errorMessage = error_message err in
      bindE (liftE (task_transition Tk_FAILED None (Some (task_error errorMessage)) task)) (\<lambda>task.
      if canRetry task \<and> rc_retryable (classifyRetryability errorMessage) then
        bindE (liftE (task_transition Tk_RETRYING None None (incrementRetry task))) (\<lambda>task.
        bindE (modifyE (task_update task)) (\<lambda>_.
        returnE (Retry_call (tk_id task) (tk_runId task), task)))
      else
        bindE (modifyE (task_update task)) (\<lambda>_.
        returnE (Give_up \<lparr>tr_taskId = tk_id task, tr_status = Tk_FAILED, tr_output = None,
                          tr_error = Some (task_error errorMessage)\<rparr>, task))))"

text \<open>The body of the try block: the result, or the error with the task object as it was left.\<close>

definition run_attempt :: "scheduler \<Rightarrow> Task \<Rightarrow> storage \<Rightarrow> ((engine_error \<times> Task) + TaskResult) \<times> storage" where
  "run_attempt env task st =
     (case sc_executor env task of
        Inl e \<Rightarrow> (Inl (e, task), st)
      | Inr result \<Rightarrow>
          if tr_status result \<noteq> Tk_DONE then
            (Inl (SchedulerTaskResultError (tk_id task) (task_status_name (tr_status result))
                    (case tr_error result of
                       None \<Rightarrow> ''Task '' @ tk_id task @ '' returned non-success status: '' @ task_status_name (tr_status result)
                     | Some e \<Rightarrow> te_message e), task), st)
          else
            (case task_transition Tk_DONE (tr_output result) None task of
               Inl e \<Rightarrow> (Inl (e, task), st)
             | Inr task \<Rightarrow>
                 let st = task_update task st in
                 case sc_afterTask env task result of
                   Some e \<Rightarrow> (Inl (e, task), st)
                 | None \<Rightarrow> (Inr result, st)))"

definition after_failure :: "scheduler \<Rightarrow> Task \<Rightarrow> TaskResult \<Rightarrow> storage \<Rightarrow> (engine_error + TaskResult) \<times> storage" where
  "after_failure env task failed st =
     (case sc_afterTask env task failed of Some e \<Rightarrow> (Inl e, st) | None \<Rightarrow> (Inr failed, st))"

definition start_task :: "scheduler \<Rightarrow> string \<Rightarrow> string \<Rightarrow> (storage, engine_error, Task) op" where
  "start_task env taskId runId =
     bindE (getE (\<lambda>st. task_getById st taskId runId)) (\<lambda>found.
     case found of
       None \<Rightarrow> throwE (SchedulerError (''Task '' @ taskId @ '' not found in run '' @ runId))
     | Some task \<Rightarrow>
         if tk_status task \<notin> {Tk_READY, Tk_RETRYING}
         then throwE (SchedulerError (''Task '' @ taskId @ '' is not ready for execution (status: '' @
                task_status_name (tk_status task) @ '')''))
         else (case sc_beforeTask env task of
                 Some e \<Rightarrow> throwE e
               | None \<Rightarrow>
                   bindE (liftE (task_transition Tk_RUNNING None None task)) (\<lambda>task.
                   bindE (modifyE (task_update task)) (\<lambda>_. returnE task))))"

lemma handleTaskFailure_retry:
  assumes "handleTaskFailure task e st = (Inr (Retry_call i run, task'), st')"
  shows "tk_retryCount task < tk_maxRetries task \<and> task_getById st' i run = Some task' \<and>
    tk_retryCount task' = Suc (tk_retryCount task) \<and> tk_maxRetries task' = tk_maxRetries task"
  using assms
  by (auto simp: handleTaskFailure_def op_defs Let_def task_transition_def throw_if_def andThen_def canRetry_def
      incrementRetry_def task_update_def task_getById_def split: if_splits)

lemma start_task_same:
  "start_task env i run st = (Inr task, st') \<Longrightarrow>
    \<exists>t. task_getById st i run = Some t \<and> tk_retryCount task = tk_retryCount t \<and> tk_maxRetries task = tk_maxRetries t"
  by (auto simp: start_task_def op_defs task_transition_def throw_if_def andThen_def split: if_splits option.splits)

lemma run_attempt_error:
  "run_attempt env task st = (Inl (e, task'), st') \<Longrightarrow>
    tk_retryCount task' = tk_retryCount task \<and> tk_maxRetries task' = tk_maxRetries task"
  by (auto simp: run_attempt_def Let_def task_transition_def throw_if_def andThen_def split: if_splits option.splits sum.splits)

text \<open>The calls that follow each other: an attempt, and the retry that its failure asks for.\<close>

function executeSingleWithHooks :: "scheduler \<Rightarrow> string \<Rightarrow> string \<Rightarrow> storage \<Rightarrow> (engine_error + TaskResult) \<times> storage" where
  "executeSingleWithHooks env taskId runId st =
     (case start_task env taskId runId st of
        (Inl e, st) \<Rightarrow> (Inl e, st)
      | (Inr task, st) \<Rightarrow>
          (case run_attempt env task st of
             (Inr result, st) \<Rightarrow> (Inr result, st)
           | (Inl (err, task), st) \<Rightarrow>
               (case sc_onTaskError env task err of
                  Some e \<Rightarrow> (Inl e, st)
                | None \<Rightarrow>
                    (case handleTaskFailure task err st of
                       (Inl e, st) \<Rightarrow> (Inl e, st)
                     | (Inr (Give_up failed, task), st) \<Rightarrow> after_failure env task failed st
                     | (Inr (Retry_call i run, task), st) \<Rightarrow>
                         (case executeSingleWithHooks env i run st of
                            (Inl e, st) \<Rightarrow> (Inl e, st)
                          | (Inr failed, st) \<Rightarrow> after_failure env task failed st)))))"
  by pat_completeness auto
termination
  by (relation "measure (\<lambda>(env, i, run, st). case task_getById st i run of None \<Rightarrow> 0
        | Some t \<Rightarrow> tk_maxRetries t - tk_retryCount t)")
    (auto dest!: handleTaskFailure_retry [OF sym] start_task_same [OF sym] run_attempt_error [OF sym])

declare executeSingleWithHooks.simps [simp del]

definition executeSingle :: "scheduler \<Rightarrow> string \<Rightarrow> string \<Rightarrow> storage \<Rightarrow> (engine_error + TaskResult) \<times> storage" where
  "executeSingle env taskId runId =
     executeSingleWithHooks (env\<lparr>sc_beforeTask := (\<lambda>_. None), sc_afterTask := (\<lambda>_ _. None), sc_onTaskError := (\<lambda>_ _. None)\<rparr>)
       taskId runId"

definition bestEffortFinalizeRunningTask :: "string \<Rightarrow> string \<Rightarrow> engine_error \<Rightarrow> storage \<Rightarrow> storage" where
  "bestEffortFinalizeRunningTask taskId runId err st =
     (case task_getById st taskId runId of
        None \<Rightarrow> st
      | Some t \<Rightarrow>
          if tk_status t \<noteq> Tk_RUNNING then st
          else (case task_transition Tk_FAILED None (Some (task_error (error_message err))) t of
                  Inl _ \<Rightarrow> st
                | Inr t \<Rightarrow> task_update t st))"

section \<open>Batches\<close>

definition batch_task :: "scheduler \<Rightarrow> string \<Rightarrow> Task \<Rightarrow> storage \<Rightarrow> storage" where
  "batch_task env runId t st =
     (case executeSingleWithHooks env (tk_id t) runId st of
        (Inr _, st) \<Rightarrow> st
      | (Inl e, st) \<Rightarrow> bestEffortFinalizeRunningTask (tk_id t) runId e st)"

definition executeBatch :: "scheduler \<Rightarrow> Task list \<Rightarrow> string \<Rightarrow> storage \<Rightarrow> storage" where
  "executeBatch env tasks runId st = fold (batch_task env runId) tasks st"

definition isReadOnlyTask :: "scheduler \<Rightarrow> string \<Rightarrow> bool" where
  "isReadOnlyTask env taskType = (toLowerCase taskType \<in> set (sc_readOnlyTaskTypes env))"

definition selectExecutionBatch :: "scheduler \<Rightarrow> Task list \<Rightarrow> Task list" where
  "selectExecutionBatch env readyTasks =
     (if length readyTasks = 0 then []
      else if sc_concurrencyLimit env = 1 \<or> \<not> sc_enforceReadOnlyParallel env
      then take (sc_concurrencyLimit env) readyTasks
      else let readOnlyTasks = filter (\<lambda>t. isReadOnlyTask env (tk_type t)) readyTasks in
        if length readOnlyTasks > 0 then take (sc_concurrencyLimit env) readOnlyTasks
        else [readyTasks ! 0])"

section \<open>Readiness of the pending tasks\<close>

definition mark_task :: "TaskStatus \<Rightarrow> TaskError option \<Rightarrow> Task \<Rightarrow> (storage, engine_error, Task) op" where
  "mark_task status err task =
     bindE (liftE (task_transition status None err task)) (\<lambda>task.
     bindE (modifyE (task_update task)) (\<lambda>_. returnE task))"

definition failTaskMissingDeps :: "Task \<Rightarrow> string list \<Rightarrow> (storage, engine_error, Task) op" where
  "failTaskMissingDeps task missingIds =
     mark_task Tk_FAILED (Some (task_error (''Missing dependencies: '' @ join_with '', '' missingIds))) task"

definition failTaskDependencyFailed :: "Task \<Rightarrow> Task \<Rightarrow> (storage, engine_error, Task) op" where
  "failTaskDependencyFailed task failedDep =
     mark_task Tk_FAILED (Some (task_error (''Dependency task '' @ tk_id failedDep @ '' failed''))) task"

text \<open>The task object when it became ready, \<open>None\<close> for the answer false.\<close>

definition checkDependencies :: "Task \<Rightarrow> string \<Rightarrow> (storage, engine_error, Task option) op" where
  "checkDependencies task runId =
     bindE (getE (\<lambda>st. getByIds st (tk_dependencies task) runId)) (\<lambda>dependencies.
     if length dependencies \<noteq> length (tk_dependencies task) then
       let foundIds = tk_id ` set dependencies;
           missingIds = filter (\<lambda>i. i \<notin> foundIds) (tk_dependencies task)
       in bindE (failTaskMissingDeps task missingIds) (\<lambda>_. returnE None)
     else case List.find (\<lambda>d. tk_status d = Tk_FAILED) dependencies of
         Some failedDep \<Rightarrow> bindE (failTaskDependencyFailed task failedDep) (\<lambda>_. returnE None)
       | None \<Rightarrow>
           if list_all (\<lambda>d. tk_status d = Tk_DONE) dependencies
           then bindE (mark_task Tk_READY None task) (\<lambda>task. returnE (Some task))
           else returnE None)"

definition preparePendingTask :: "Task \<Rightarrow> string \<Rightarrow> (storage, engine_error, Task option) op" where
  "preparePendingTask task runId =
     (if length (tk_dependencies task) = 0
      then bindE (mark_task Tk_READY None task) (\<lambda>task. returnE (Some task))
      else checkDependencies task runId)"

primrec find_ready :: "string \<Rightarrow> Task list \<Rightarrow> (storage, engine_error, Task list) op" where
  "find_ready runId [] = returnE []"
| "find_ready runId (task # rest) =
     (if tk_status task = Tk_READY then bindE (find_ready runId rest) (\<lambda>ready. returnE (task # ready))
      else if tk_status task \<noteq> Tk_PENDING then find_ready runId rest
      else
        bindE (preparePendingTask task runId) (\<lambda>prepared.
        bindE (find_ready runId rest) (\<lambda>ready.
        returnE (case prepared of None \<Rightarrow> ready | Some task \<Rightarrow> task # ready))))"

definition findAllReadyTasks :: "string \<Rightarrow> (storage, engine_error, Task list) op" where
  "findAllReadyTasks runId = bindE (getE (\<lambda>st. getByRun st runId)) (find_ready runId)"

section \<open>The loop\<close>

definition hasExecutableTasks :: "storage \<Rightarrow> string \<Rightarrow> bool" where
  "hasExecutableTasks st runId = list_ex (\<lambda>t. tk_status t = Tk_READY \<or> tk_status t = Tk_PENDING) (getByRun st runId)"

definition hasPendingTasks :: "storage \<Rightarrow> string \<Rightarrow> bool" where
  "hasPendingTasks st runId =
     list_ex (\<lambda>t. tk_status t = Tk_PENDING \<or> tk_status t = Tk_READY \<or> tk_status t = Tk_RUNNING \<or> tk_status t = Tk_RETRYING)
       (getByRun st runId)"

abbreviation deadlock_error :: engine_error where
  "deadlock_error \<equiv> SchedulerError ''Task dependency deadlock detected''"

partial_function (option) execute :: "scheduler \<Rightarrow> string \<Rightarrow> storage \<Rightarrow> ((engine_error + unit) \<times> storage) option" where
  "execute env runId st =
     (if \<not> hasExecutableTasks st runId then Some (Inr (), st)
      else case findAllReadyTasks runId st of
          (Inl e, st) \<Rightarrow> Some (Inl e, st)
        | (Inr readyTasks, st) \<Rightarrow>
            if length readyTasks = 0 then
              (if hasPendingTasks st runId then Some (Inl deadlock_error, st) else Some (Inr (), st))
            else execute env runId (executeBatch env (selectExecutionBatch env readyTasks) runId st))"

end
