(* ===== verification/Scheduler_Correctness.thy ===== *)
theory Scheduler_Correctness
  imports Task_Scheduler
begin

text \<open>
  Correctness of the task scheduler: what one execution of a task does to the storage, the steps a run
  takes as a transition relation with its invariant, termination of the loop, and the cases in which
  the loop reports a deadlock or does not end.
\<close>

section \<open>One task\<close>

definition same_task :: "Task \<Rightarrow> Task \<Rightarrow> bool" where
  "same_task t t' \<longleftrightarrow> tk_id t' = tk_id t \<and> tk_runId t' = tk_runId t \<and> tk_type t' = tk_type t \<and>
     tk_dependencies t' = tk_dependencies t \<and> tk_input t' = tk_input t \<and> tk_maxRetries t' = tk_maxRetries t"

lemma same_task_refl [simp]: "same_task t t"
  by (simp add: same_task_def)

lemma same_task_trans: "same_task a b \<Longrightarrow> same_task b c \<Longrightarrow> same_task a c"
  by (simp add: same_task_def)

lemma task_update_twice [simp]:
  "tk_id a = tk_id b \<Longrightarrow> tk_runId a = tk_runId b \<Longrightarrow> task_update a (task_update b st) = task_update a st"
  by (simp add: task_update_def)

lemma task_update_idem: "task_getById st (tk_id t) (tk_runId t) = Some t \<Longrightarrow> task_update t st = st"
  by (auto simp: task_update_def task_getById_def split: option.splits stored.splits)

lemma get_update_own [simp]: "task_getById (task_update t st) (tk_id t) (tk_runId t) = Some t"
  by (simp add: task_update_def task_getById_def)

lemma task_transition_run:
  "task_transition new outp err t =
    (if task_isValidTransition (tk_status t) new
     then Inr (t\<lparr>tk_status := new, tk_output := (if outp \<noteq> None then outp else tk_output t),
                 tk_error := (if err \<noteq> None then err else tk_error t)\<rparr>)
     else Inl (InvalidTaskStateTransitionError (tk_status t) new))"
  by (simp add: task_transition_def throw_if_def)

lemma start_task_run:
  assumes "task_getById st (tk_id t) (tk_runId t) = Some t" and "tk_status t \<in> {Tk_READY, Tk_RETRYING}"
  shows "start_task env (tk_id t) (tk_runId t) st =
    (case sc_beforeTask env t of
       Some e \<Rightarrow> (Inl e, st)
     | None \<Rightarrow> (Inr (t\<lparr>tk_status := Tk_RUNNING\<rparr>), task_update (t\<lparr>tk_status := Tk_RUNNING\<rparr>) st))"
proof -
  have "task_transition Tk_RUNNING None None t = Inr (t\<lparr>tk_status := Tk_RUNNING\<rparr>)"
    using assms(2) by (auto simp: task_transition_run task_isValidTransition_def)
  with assms show ?thesis
    by (simp add: start_task_def op_defs split: option.splits)
qed

lemma task_transition_obtain:
  assumes "task_isValidTransition (tk_status t) new"
  obtains u where "task_transition new outp err t = Inr u" and "same_task t u"
    and "tk_retryCount u = tk_retryCount t" and "tk_status u = new"
  using assms by (simp add: task_transition_run same_task_def)

lemma run_attempt_run:
  assumes "tk_status t = Tk_RUNNING"
  obtains x t' where "\<forall>st. task_getById st (tk_id t) (tk_runId t) = Some t \<longrightarrow> run_attempt env t st = (x, task_update t' st)"
    and "same_task t t'" and "tk_retryCount t' = tk_retryCount t"
    and "(\<exists>r. x = Inr r) \<and> tk_status t' = Tk_DONE \<or> (\<exists>e. x = Inl (e, t')) \<and> (t' = t \<or> tk_status t' = Tk_DONE)"
proof -
  note result = that
  have err: thesis if "\<And>st. run_attempt env t st = (Inl (e, t), st)" for e
    by (rule result [of "Inl (e, t)" t]) (simp_all add: that task_update_idem)
  show thesis
  proof (cases "sc_executor env t")
    case (Inl e)
    then show thesis by (intro err [of e]) (simp add: run_attempt_def)
  next
    case (Inr r)
    show thesis
    proof (cases "tr_status r = Tk_DONE")
      case True
      obtain u where u: "task_transition Tk_DONE (tr_output r) None t = Inr u" "same_task t u"
        "tk_retryCount u = tk_retryCount t" "tk_status u = Tk_DONE"
        by (rule task_transition_obtain [of t Tk_DONE]) (use assms in \<open>simp add: task_isValidTransition_def\<close>)
      have "run_attempt env t st = (case sc_afterTask env u r of None \<Rightarrow> Inr r | Some e \<Rightarrow> Inl (e, u), task_update u st)" for st
        using Inr True u(1) by (simp add: run_attempt_def Let_def split: option.splits)
      then show thesis
        using result [of "case sc_afterTask env u r of None \<Rightarrow> Inr r | Some e \<Rightarrow> Inl (e, u)" u] u
        by (auto split: option.splits)
    next
      case False
      with Inr show thesis by (intro err) (simp add: run_attempt_def)
    qed
  qed
qed

lemma handleTaskFailure_run:
  assumes "tk_status t = Tk_RUNNING"
  obtains s t' where "\<forall>st. handleTaskFailure t e st = (Inr (s, t'), task_update t' st)" and "same_task t t'"
    and "(\<exists>r. s = Give_up r) \<and> tk_status t' = Tk_FAILED \<and> tk_retryCount t' = tk_retryCount t \<or>
      s = Retry_call (tk_id t') (tk_runId t') \<and> tk_status t' = Tk_RETRYING \<and>
      tk_retryCount t' = Suc (tk_retryCount t) \<and> tk_retryCount t < tk_maxRetries t"
proof -
  obtain f where f: "task_transition Tk_FAILED None (Some (task_error (error_message e))) t = Inr f" "same_task t f"
    "tk_retryCount f = tk_retryCount t" "tk_status f = Tk_FAILED"
    by (rule task_transition_obtain [of t Tk_FAILED]) (use assms in \<open>simp add: task_isValidTransition_def\<close>)
  obtain u where u: "task_transition Tk_RETRYING None None (incrementRetry f) = Inr u" "same_task (incrementRetry f) u"
    "tk_retryCount u = tk_retryCount (incrementRetry f)" "tk_status u = Tk_RETRYING"
    by (rule task_transition_obtain [of "incrementRetry f" Tk_RETRYING])
      (use f(4) in \<open>simp add: task_isValidTransition_def incrementRetry_def\<close>)
  show thesis
  proof (cases "canRetry f \<and> rc_retryable (classifyRetryability (error_message e))")
    case True
    have "handleTaskFailure t e st = (Inr (Retry_call (tk_id u) (tk_runId u), u), task_update u st)" for st
      using True by (simp add: handleTaskFailure_def f(1) u(1) op_defs Let_def)
    with that [of "Retry_call (tk_id u) (tk_runId u)" u] f u True show thesis
      by (auto simp: same_task_def incrementRetry_def canRetry_def)
  next
    case False
    then have "\<exists>r. \<forall>st. handleTaskFailure t e st = (Inr (Give_up r, f), task_update f st)"
      by (auto simp: handleTaskFailure_def f(1) op_defs Let_def)
    with f show thesis by (auto intro: that)
  qed
qed

lemma handleTaskFailure_done:
  "tk_status t = Tk_DONE \<Longrightarrow> handleTaskFailure t e st = (Inl (InvalidTaskStateTransitionError Tk_DONE Tk_FAILED), st)"
  by (simp add: handleTaskFailure_def op_defs Let_def task_transition_run task_isValidTransition_def)

text \<open>What is left of a task when its execution returns or throws.\<close>

definition attempted :: "scheduler \<Rightarrow> Task \<Rightarrow> engine_error + TaskResult \<Rightarrow> Task \<Rightarrow> bool" where
  "attempted env t res t' \<longleftrightarrow> same_task t t' \<and> tk_retryCount t \<le> tk_retryCount t' \<and>
     tk_retryCount t' \<le> max (tk_retryCount t) (tk_maxRetries t) \<and>
     (tk_status t' = Tk_DONE \<or> tk_status t' = Tk_FAILED \<or> tk_status t' = Tk_RUNNING \<and> isl res \<or>
      isl res \<and> (\<exists>u e. sc_beforeTask env u = Some e) \<and> tk_status t' \<in> {Tk_READY, Tk_RETRYING})"

text \<open>The catch block.\<close>

definition failed_attempt :: "scheduler \<Rightarrow> engine_error \<Rightarrow> Task \<Rightarrow> storage \<Rightarrow> (engine_error + TaskResult) \<times> storage" where
  "failed_attempt env err task st =
     (case sc_onTaskError env task err of
        Some e \<Rightarrow> (Inl e, st)
      | None \<Rightarrow>
          (case handleTaskFailure task err st of
             (Inl e, st) \<Rightarrow> (Inl e, st)
           | (Inr (Give_up failed, task), st) \<Rightarrow> after_failure env task failed st
           | (Inr (Retry_call i run, task), st) \<Rightarrow>
               (case executeSingleWithHooks env i run st of
                  (Inl e, st) \<Rightarrow> (Inl e, st)
                | (Inr failed, st) \<Rightarrow> after_failure env task failed st)))"

lemma executeSingle_unfold:
  "executeSingleWithHooks env i run st =
    (case start_task env i run st of
       (Inl e, st) \<Rightarrow> (Inl e, st)
     | (Inr task, st) \<Rightarrow>
         (case run_attempt env task st of
            (Inr result, st) \<Rightarrow> (Inr result, st)
          | (Inl (err, task), st) \<Rightarrow> failed_attempt env err task st))"
  by (subst executeSingleWithHooks.simps) (simp add: failed_attempt_def split: prod.splits sum.splits)

lemma after_failure_run: "\<exists>res. \<forall>st. after_failure env t failed st = (res, st)"
  by (cases "sc_afterTask env t failed") (simp_all add: after_failure_def)

text \<open>That an execution of a task changes its own record only, in a way that does not depend on the rest.\<close>

definition runs_alone :: "scheduler \<Rightarrow> Task \<Rightarrow> (storage \<Rightarrow> (engine_error + TaskResult) \<times> storage) \<Rightarrow> bool" where
  "runs_alone env t f \<longleftrightarrow> (\<exists>res t'. attempted env t res t' \<and>
     (\<forall>st. task_getById st (tk_id t) (tk_runId t) = Some t \<longrightarrow> f st = (res, task_update t' st)))"

lemma runs_aloneI:
  "attempted env t res t' \<Longrightarrow>
   (\<And>st. task_getById st (tk_id t) (tk_runId t) = Some t \<Longrightarrow> f st = (res, task_update t' st)) \<Longrightarrow> runs_alone env t f"
  unfolding runs_alone_def by blast

lemma retried_run:
  assumes t: "same_task t u" "tk_retryCount u = Suc (tk_retryCount t)" "tk_retryCount t < tk_maxRetries t"
    and run: "runs_alone env u (executeSingleWithHooks env (tk_id u) (tk_runId u))"
  shows "\<exists>res t'. attempted env t res t' \<and>
    (\<forall>st. (case executeSingleWithHooks env (tk_id u) (tk_runId u) (task_update u st) of
        (Inl e, st) \<Rightarrow> (Inl e, st)
      | (Inr failed, st) \<Rightarrow> after_failure env u failed st) = (res, task_update t' st))"
proof -
  from run obtain res t' where t': "attempted env u res t'"
    "\<And>st. task_getById st (tk_id u) (tk_runId u) = Some u \<Longrightarrow>
       executeSingleWithHooks env (tk_id u) (tk_runId u) st = (res, task_update t' st)"
    unfolding runs_alone_def by blast
  have eq: "executeSingleWithHooks env (tk_id u) (tk_runId u) (task_update u st) = (res, task_update t' st)" for st
    using t'(2) [OF get_update_own] t'(1) by (simp add: attempted_def same_task_def)
  have att: "attempted env t res t'"
    using t'(1) t by (auto simp: attempted_def same_task_def)
  show ?thesis
  proof (cases res)
    case (Inl e)
    with att eq show ?thesis by (intro exI [of _ "Inl e"] exI [of _ t']) simp
  next
    case (Inr failed)
    obtain res' where "\<forall>st. after_failure env u failed st = (res', st)" using after_failure_run by blast
    with att eq Inr show ?thesis
      by (intro exI [of _ res'] exI [of _ t']) (auto simp: attempted_def)
  qed
qed

lemma failed_attempt_run:
  assumes t: "tk_status t = Tk_RUNNING"
    and retry: "\<And>u. same_task t u \<Longrightarrow> tk_status u = Tk_RETRYING \<Longrightarrow> tk_retryCount u = Suc (tk_retryCount t) \<Longrightarrow>
      tk_retryCount t < tk_maxRetries t \<Longrightarrow> runs_alone env u (executeSingleWithHooks env (tk_id u) (tk_runId u))"
  shows "runs_alone env t (failed_attempt env e t)"
proof (cases "sc_onTaskError env t e")
  case (Some e')
  show ?thesis
    by (rule runs_aloneI [of env t "Inl e'" t]) (use Some t in \<open>simp_all add: failed_attempt_def attempted_def task_update_idem\<close>)
next
  case None
  obtain step u where h: "\<forall>st. handleTaskFailure t e st = (Inr (step, u), task_update u st)" and same: "same_task t u"
    and u: "(\<exists>r. step = Give_up r) \<and> tk_status u = Tk_FAILED \<and> tk_retryCount u = tk_retryCount t \<or>
      step = Retry_call (tk_id u) (tk_runId u) \<and> tk_status u = Tk_RETRYING \<and>
      tk_retryCount u = Suc (tk_retryCount t) \<and> tk_retryCount t < tk_maxRetries t"
    by (rule handleTaskFailure_run [OF t, where e = e])
  from u show ?thesis
  proof (elim disjE conjE exE)
    fix r assume give_up: "step = Give_up r" "tk_status u = Tk_FAILED" "tk_retryCount u = tk_retryCount t"
    obtain res where "\<forall>st. after_failure env u r st = (res, st)" using after_failure_run by blast
    with give_up h None same show ?thesis
      by (intro runs_aloneI [of env t res u]) (simp_all add: failed_attempt_def attempted_def)
  next
    assume u: "step = Retry_call (tk_id u) (tk_runId u)" "tk_status u = Tk_RETRYING"
      "tk_retryCount u = Suc (tk_retryCount t)" "tk_retryCount t < tk_maxRetries t"
    from retried_run [OF same u(3,4) retry [OF same u(2-4)]] h u(1) None show ?thesis
      by (auto simp: runs_alone_def failed_attempt_def)
  qed
qed

lemma executeSingle_run:
  assumes "tk_status t \<in> {Tk_READY, Tk_RETRYING}"
  shows "runs_alone env t (executeSingleWithHooks env (tk_id t) (tk_runId t))"
  using assms
proof (induction "tk_maxRetries t - tk_retryCount t" arbitrary: t rule: less_induct)
  case less
  note start = start_task_run [OF _ less.prems, of _ env]
  show ?case
  proof (cases "sc_beforeTask env t")
    case (Some e)
    with less.prems have "attempted env t (Inl e) t" by (auto simp: attempted_def)
    moreover have "executeSingleWithHooks env (tk_id t) (tk_runId t) st = (Inl e, task_update t st)"
      if "task_getById st (tk_id t) (tk_runId t) = Some t" for st
      using start [OF that] task_update_idem [OF that] Some by (simp add: executeSingle_unfold)
    ultimately show ?thesis by (rule runs_aloneI)
  next
    case None
    let ?t1 = "t\<lparr>tk_status := Tk_RUNNING\<rparr>"
    obtain x t2 where run: "\<forall>st. task_getById st (tk_id ?t1) (tk_runId ?t1) = Some ?t1 \<longrightarrow> run_attempt env ?t1 st = (x, task_update t2 st)"
      and same: "same_task ?t1 t2" and retries: "tk_retryCount t2 = tk_retryCount ?t1"
      and x: "(\<exists>r. x = Inr r) \<and> tk_status t2 = Tk_DONE \<or> (\<exists>e. x = Inl (e, t2)) \<and> (t2 = ?t1 \<or> tk_status t2 = Tk_DONE)"
      by (rule run_attempt_run [of ?t1 env]) simp
    have ids: "tk_id t2 = tk_id t" "tk_runId t2 = tk_runId t" "same_task t t2" "tk_retryCount t2 = tk_retryCount t"
      using same retries by (simp_all add: same_task_def)
    have eq: "executeSingleWithHooks env (tk_id t) (tk_runId t) st =
        (case x of Inr r \<Rightarrow> (Inr r, task_update t2 st) | Inl (err, task) \<Rightarrow> failed_attempt env err task (task_update t2 st))"
      if "task_getById st (tk_id t) (tk_runId t) = Some t" for st
      using run [rule_format, OF get_update_own, of st] start [OF that] None ids
      by (simp add: executeSingle_unfold split: sum.splits)
    consider (ok) r where "x = Inr r" "tk_status t2 = Tk_DONE"
      | (done_task) e where "x = Inl (e, t2)" "tk_status t2 = Tk_DONE"
      | (failed) e where "x = Inl (e, t2)" "t2 = ?t1"
      using x by blast
    then show ?thesis
    proof cases
      case ok
      with ids eq show ?thesis
        by (intro runs_aloneI [of env t "Inr r" t2]) (auto simp: attempted_def)
    next
      case done_task
      obtain e' where "failed_attempt env e t2 st = (Inl e', st)" for st
        using done_task by (cases "sc_onTaskError env t2 e") (auto simp: failed_attempt_def handleTaskFailure_done)
      with done_task ids eq show ?thesis
        by (intro runs_aloneI [of env t "Inl e'" t2]) (auto simp: attempted_def)
    next
      case failed
      have "runs_alone env t2 (failed_attempt env e t2)"
      proof (rule failed_attempt_run)
        fix u assume u: "same_task t2 u" "tk_status u = Tk_RETRYING" "tk_retryCount u = Suc (tk_retryCount t2)"
          "tk_retryCount t2 < tk_maxRetries t2"
        then have "tk_maxRetries u - tk_retryCount u < tk_maxRetries t - tk_retryCount t"
          using ids by (auto simp: same_task_def)
        with less.hyps u(2) show "runs_alone env u (executeSingleWithHooks env (tk_id u) (tk_runId u))" by simp
      qed (simp add: failed)
      then obtain res t' where t': "attempted env t2 res t'"
        "\<And>st. task_getById st (tk_id t2) (tk_runId t2) = Some t2 \<Longrightarrow> failed_attempt env e t2 st = (res, task_update t' st)"
        unfolding runs_alone_def by blast
      have "attempted env t res t'" "tk_id t' = tk_id t2" "tk_runId t' = tk_runId t2"
        using t'(1) ids by (auto simp: attempted_def same_task_def)
      with t'(2) [OF get_update_own] failed ids eq show ?thesis
        by (intro runs_aloneI [of env t res t']) simp_all
    qed
  qed
qed

section \<open>Batches\<close>

lemma batch_task_run:
  assumes "tk_status t \<in> {Tk_READY, Tk_RETRYING}"
  obtains t' where "same_task t t'" and "tk_retryCount t \<le> tk_retryCount t'"
    and "tk_retryCount t' \<le> max (tk_retryCount t) (tk_maxRetries t)"
    and "tk_status t' \<in> {Tk_DONE, Tk_FAILED} \<or> (\<exists>u e. sc_beforeTask env u = Some e) \<and> tk_status t' \<in> {Tk_READY, Tk_RETRYING}"
    and "\<forall>st. task_getById st (tk_id t) (tk_runId t) = Some t \<longrightarrow> batch_task env (tk_runId t) t st = task_update t' st"
proof -
  from executeSingle_run [OF assms, of env] obtain res u where u: "attempted env t res u"
    "\<And>st. task_getById st (tk_id t) (tk_runId t) = Some t \<Longrightarrow>
      executeSingleWithHooks env (tk_id t) (tk_runId t) st = (res, task_update u st)"
    unfolding runs_alone_def by blast
  have ids: "tk_id t = tk_id u" "tk_runId t = tk_runId u" using u(1) by (auto simp: attempted_def same_task_def)
  show thesis
  proof (cases "tk_status u = Tk_RUNNING")
    case True
    then obtain e where e: "res = Inl e" using u(1) by (cases res) (auto simp: attempted_def)
    obtain f where f: "task_transition Tk_FAILED None (Some (task_error (error_message e))) u = Inr f" "same_task u f"
      "tk_retryCount f = tk_retryCount u" "tk_status f = Tk_FAILED"
      by (rule task_transition_obtain [of u Tk_FAILED]) (use True in \<open>simp add: task_isValidTransition_def\<close>)
    have "batch_task env (tk_runId t) t st = task_update f st" if "task_getById st (tk_id t) (tk_runId t) = Some t" for st
      using u(2) [OF that] True f e ids by (simp add: batch_task_def bestEffortFinalizeRunningTask_def same_task_def)
    with that [of f] f u(1) show thesis
      by (auto simp: attempted_def intro: same_task_trans)
  next
    case False
    have "batch_task env (tk_runId t) t st = task_update u st" if "task_getById st (tk_id t) (tk_runId t) = Some t" for st
      using u(2) [OF that] False ids
      by (cases res) (simp_all add: batch_task_def bestEffortFinalizeRunningTask_def)
    with that [of u] u(1) False show thesis by (auto simp: attempted_def)
  qed
qed

lemma fold_upd_perm:
  assumes "distinct (map k xs)" and "distinct (map k ys)" and "set xs = set ys"
  shows "fold (\<lambda>x m. m(k x \<mapsto> v x)) xs m = fold (\<lambda>x m. m(k x \<mapsto> v x)) ys m"
proof
  fix j
  show "fold (\<lambda>x m. m(k x \<mapsto> v x)) xs m j = fold (\<lambda>x m. m(k x \<mapsto> v x)) ys m j"
  proof (cases "\<exists>x \<in> set xs. k x = j")
    case True
    then obtain x where "x \<in> set xs" "k x = j" by blast
    with fold_upd_distinct [OF assms(1), of x v m] fold_upd_distinct [OF assms(2), of x v m] assms(3) show ?thesis by simp
  next
    case False
    with assms(3) have "j \<notin> k ` set xs" "j \<notin> k ` set ys" by auto
    then show ?thesis by (simp add: fold_upd_other)
  qed
qed

text \<open>The tasks of a batch: distinct, of the run, ready, and as the storage has them.\<close>

definition batch_ok :: "storage \<Rightarrow> string \<Rightarrow> Task list \<Rightarrow> bool" where
  "batch_ok st run ts \<longleftrightarrow> distinct (map tk_id ts) \<and>
     (\<forall>t \<in> set ts. tk_runId t = run \<and> tk_status t = Tk_READY \<and> task_getById st (tk_id t) run = Some t)"

lemma batch_ok_tail:
  assumes "batch_ok st run (t # ts)" and "same_task t t'"
  shows "batch_ok (task_update t' st) run ts"
proof -
  have t': "tk_runId t' = run" "tk_id t' = tk_id t" using assms by (simp_all add: batch_ok_def same_task_def)
  have t: "tk_id t \<notin> tk_id ` set ts" using assms(1) by (simp add: batch_ok_def)
  show ?thesis
    unfolding batch_ok_def
  proof (intro conjI ballI)
    show "distinct (map tk_id ts)" using assms(1) by (simp add: batch_ok_def)
  next
    fix u assume u: "u \<in> set ts"
    then have "tk_id u \<noteq> tk_id t" using t by (metis imageI)
    moreover have "tk_runId u = run \<and> tk_status u = Tk_READY \<and> task_getById st (tk_id u) run = Some u"
      using assms(1) u unfolding batch_ok_def by (meson list.set_intros(2))
    ultimately show "tk_runId u = run" "tk_status u = Tk_READY" "task_getById (task_update t' st) (tk_id u) run = Some u"
      using tasks.get_upd [OF t'(1), of st "tk_id u"] t'(2) by simp_all
  qed
qed

lemma executeBatch_updates:
  assumes g: "\<And>t st. tk_status t = Tk_READY \<Longrightarrow> task_getById st (tk_id t) (tk_runId t) = Some t \<Longrightarrow>
      batch_task env (tk_runId t) t st = task_update (g t) st"
    and same: "\<And>t. tk_status t = Tk_READY \<Longrightarrow> same_task t (g t)"
  shows "batch_ok st run ts \<Longrightarrow>
    executeBatch env ts run st = fold (\<lambda>t m. m(getTaskKey (tk_id t) run \<mapsto> St_task (g t))) ts st"
proof (induction ts arbitrary: st)
  case (Cons t ts)
  then have t: "tk_status t = Tk_READY" "tk_runId t = run" "task_getById st (tk_id t) run = Some t"
    by (auto simp: batch_ok_def)
  have "batch_task env run t st = task_update (g t) st" using g [of t st] t by simp
  moreover have "task_update (g t) st = st(getTaskKey (tk_id t) run \<mapsto> St_task (g t))"
    using same [of t] t by (simp add: task_update_def same_task_def)
  ultimately show ?case
    using Cons.IH [OF batch_ok_tail [OF Cons.prems same [OF t(1)]]] by (simp add: executeBatch_def del: fun_upd_apply)
qed (simp add: executeBatch_def)

lemma batch_result_obtain:
  obtains g where "\<And>t st. tk_status t = Tk_READY \<Longrightarrow> task_getById st (tk_id t) (tk_runId t) = Some t \<Longrightarrow>
      batch_task env (tk_runId t) t st = task_update (g t) st"
    and "\<And>t. tk_status t = Tk_READY \<Longrightarrow> same_task t (g t)"
proof -
  have "\<exists>t'. tk_status t = Tk_READY \<longrightarrow> same_task t t' \<and>
      (\<forall>st. task_getById st (tk_id t) (tk_runId t) = Some t \<longrightarrow> batch_task env (tk_runId t) t st = task_update t' st)" for t
  proof (cases "tk_status t = Tk_READY")
    case True
    then have "tk_status t \<in> {Tk_READY, Tk_RETRYING}" by simp
    then show ?thesis by (rule batch_task_run [where env = env]) blast
  qed simp
  then show thesis using that by metis
qed

lemma executeBatch_perm:
  assumes "batch_ok st run ts" and "batch_ok st run us" and "set ts = set us"
  shows "executeBatch env ts run st = executeBatch env us run st"
proof -
  obtain g where g: "\<And>t st. tk_status t = Tk_READY \<Longrightarrow> task_getById st (tk_id t) (tk_runId t) = Some t \<Longrightarrow>
      batch_task env (tk_runId t) t st = task_update (g t) st"
    and same: "\<And>t. tk_status t = Tk_READY \<Longrightarrow> same_task t (g t)"
    using batch_result_obtain by blast
  have "distinct (map (\<lambda>t. getTaskKey (tk_id t) run) xs)" if "batch_ok st run xs" for xs
    using that by (auto simp: batch_ok_def distinct_map inj_on_def)
  with assms show ?thesis
    by (simp add: executeBatch_updates [OF g same] fold_upd_perm [of "\<lambda>t. getTaskKey (tk_id t) run" ts us])
qed

section \<open>The steps of a run\<close>

definition deps_done :: "storage \<Rightarrow> string \<Rightarrow> Task \<Rightarrow> bool" where
  "deps_done st run t \<longleftrightarrow> (\<forall>d \<in> set (tk_dependencies t). \<exists>u. task_getById st d run = Some u \<and> tk_status u = Tk_DONE)"

inductive sched_step :: "string \<Rightarrow> storage \<Rightarrow> storage \<Rightarrow> bool" for run where
  Make_ready: "task_getById st (tk_id t) run = Some t \<Longrightarrow> tk_status t = Tk_PENDING \<Longrightarrow> deps_done st run t \<Longrightarrow>
    same_task t t' \<Longrightarrow> tk_retryCount t' = tk_retryCount t \<Longrightarrow> tk_status t' = Tk_READY \<Longrightarrow>
    sched_step run st (task_update t' st)"
| Give_up_pending: "task_getById st (tk_id t) run = Some t \<Longrightarrow> tk_status t = Tk_PENDING \<Longrightarrow>
    same_task t t' \<Longrightarrow> tk_retryCount t' = tk_retryCount t \<Longrightarrow> tk_status t' = Tk_FAILED \<Longrightarrow>
    sched_step run st (task_update t' st)"
| Settle: "task_getById st (tk_id t) run = Some t \<Longrightarrow> tk_status t = Tk_READY \<Longrightarrow>
    same_task t t' \<Longrightarrow> tk_retryCount t' \<le> max (tk_retryCount t) (tk_maxRetries t) \<Longrightarrow>
    tk_status t' = Tk_DONE \<or> tk_status t' = Tk_FAILED \<Longrightarrow>
    sched_step run st (task_update t' st)"

definition sched_inv :: "storage \<Rightarrow> string \<Rightarrow> bool" where
  "sched_inv st run \<longleftrightarrow> wf_run st run \<and>
     (\<forall>i t. task_getById st i run = Some t \<longrightarrow>
        tk_status t \<in> {Tk_PENDING, Tk_READY, Tk_DONE, Tk_FAILED} \<and> tk_retryCount t \<le> tk_maxRetries t \<and>
        (tk_status t = Tk_READY \<or> tk_status t = Tk_DONE \<longrightarrow> deps_done st run t))"

lemma sched_inv_wf: "sched_inv st run \<Longrightarrow> wf_run st run"
  by (simp add: sched_inv_def)

lemma sched_step_shape:
  assumes "sched_step run st st'"
  obtains t t' where "task_getById st (tk_id t) run = Some t" and "same_task t t'" and "st' = task_update t' st"
    and "tk_status t \<in> {Tk_PENDING, Tk_READY}" and "tk_status t' \<in> {Tk_READY, Tk_DONE, Tk_FAILED}"
    and "tk_retryCount t' \<le> max (tk_retryCount t) (tk_maxRetries t)"
    and "tk_status t' = Tk_READY \<or> tk_status t' = Tk_DONE \<longrightarrow> tk_status t = Tk_READY \<or> deps_done st run t"
  using assms by cases (auto intro: that)

lemma deps_done_update:
  assumes "deps_done st run u" and "task_getById st (tk_id t) run = Some t" and "tk_status t \<noteq> Tk_DONE"
    and "same_task t t'" and "tk_runId t = run"
  shows "deps_done (task_update t' st) run u"
  using assms tasks.get_upd [of t' run st] unfolding deps_done_def same_task_def by force

lemma sched_step_inv:
  assumes step: "sched_step run st st'" and inv: "sched_inv st run"
  shows "sched_inv st' run"
proof -
  obtain t t' where t: "task_getById st (tk_id t) run = Some t" "same_task t t'" "st' = task_update t' st"
    "tk_status t \<in> {Tk_PENDING, Tk_READY}" "tk_status t' \<in> {Tk_READY, Tk_DONE, Tk_FAILED}"
    "tk_retryCount t' \<le> max (tk_retryCount t) (tk_maxRetries t)"
    "tk_status t' = Tk_READY \<or> tk_status t' = Tk_DONE \<longrightarrow> tk_status t = Tk_READY \<or> deps_done st run t"
    by (rule sched_step_shape [OF step])
  have wf: "wf_run st run" using inv by (simp add: sched_inv_def)
  have run: "tk_runId t = run" "tk_runId t' = run" "tk_id t' = tk_id t"
    using tasks.wf_get [OF wf t(1)] t(2) by (auto simp: same_task_def)
  have keep: "deps_done st' run u" if "deps_done st run u" for u
    using deps_done_update [OF that t(1) _ t(2) run(1)] t(3,4) by auto
  have same: "deps_done st' run t' = deps_done st' run t" using t(2) by (simp add: deps_done_def same_task_def)
  have "wf_run st' run"
    using tasks.wf_upd [OF wf, of t'] t(1,3) run by auto
  moreover have "tk_status u \<in> {Tk_PENDING, Tk_READY, Tk_DONE, Tk_FAILED} \<and> tk_retryCount u \<le> tk_maxRetries u \<and>
      (tk_status u = Tk_READY \<or> tk_status u = Tk_DONE \<longrightarrow> deps_done st' run u)"
    if "task_getById st' i run = Some u" for i u
  proof (cases "i = tk_id t")
    case True
    then have u: "u = t'" using that t(3) tasks.get_upd [OF run(2), of st i] run(3) by simp
    have "tk_retryCount t \<le> tk_maxRetries t" "tk_status t = Tk_READY \<longrightarrow> deps_done st run t"
      using inv t(1) unfolding sched_inv_def by blast+
    with u t same keep show ?thesis by (auto simp: same_task_def)
  next
    case False
    then have "task_getById st i run = Some u" using that t(3) tasks.get_upd [OF run(2), of st i] run(3) by simp
    with inv keep show ?thesis unfolding sched_inv_def by blast
  qed
  ultimately show ?thesis by (simp add: sched_inv_def)
qed

lemma sched_steps_inv: "(sched_step run)\<^sup>*\<^sup>* st st' \<Longrightarrow> sched_inv st run \<Longrightarrow> sched_inv st' run"
  by (induction rule: rtranclp_induct) (auto intro: sched_step_inv)

section \<open>One round of the loop\<close>

abbreviation open_status :: "TaskStatus \<Rightarrow> bool" where
  "open_status s \<equiv> s = Tk_PENDING \<or> s = Tk_READY"

definition open_ids :: "storage \<Rightarrow> string \<Rightarrow> string set" where
  "open_ids st run = {i. \<exists>t. task_getById st i run = Some t \<and> open_status (tk_status t)}"

lemma open_ids_finite: "wf_run st run \<Longrightarrow> finite (open_ids st run)"
  by (rule finite_subset [of _ "set (task_ids st run)"]) (auto simp: open_ids_def dest: tasks.wf_get)

lemma sched_step_open:
  assumes "sched_step run st st'" and "wf_run st run"
  shows "open_ids st' run \<subseteq> open_ids st run"
proof -
  obtain t t' where t: "task_getById st (tk_id t) run = Some t" "same_task t t'" "st' = task_update t' st"
    "tk_status t \<in> {Tk_PENDING, Tk_READY}"
    by (rule sched_step_shape [OF assms(1)])
  moreover have "tk_runId t' = run" using tasks.wf_get [OF assms(2) t(1)] t(2) by (simp add: same_task_def)
  ultimately show ?thesis
    by (auto simp: open_ids_def tasks.get_upd same_task_def split: if_splits)
qed

lemma sched_steps_open: "(sched_step run)\<^sup>*\<^sup>* st st' \<Longrightarrow> sched_inv st run \<Longrightarrow> open_ids st' run \<subseteq> open_ids st run"
proof (induction rule: rtranclp_induct)
  case (step y z)
  then have "wf_run y run" using sched_inv_wf [OF sched_steps_inv] by blast
  from sched_step_open [OF step(2) this] step.IH [OF step.prems] show ?case by (rule subset_trans)
qed simp

lemma sched_inv_get:
  assumes "sched_inv st run" and "task_getById st i run = Some t"
  shows "tk_id t = i" and "tk_runId t = run" and "tk_status t \<in> {Tk_PENDING, Tk_READY, Tk_DONE, Tk_FAILED}"
    and "tk_status t = Tk_READY \<or> tk_status t = Tk_DONE \<Longrightarrow> deps_done st run t"
proof -
  have wf: "wf_run st run" using assms(1) by (simp add: sched_inv_def)
  show "tk_id t = i" "tk_runId t = run" using tasks.wf_get [OF wf assms(2)] by simp_all
  show "tk_status t \<in> {Tk_PENDING, Tk_READY, Tk_DONE, Tk_FAILED}"
    and "tk_status t = Tk_READY \<or> tk_status t = Tk_DONE \<Longrightarrow> deps_done st run t"
    using assms unfolding sched_inv_def by blast+
qed

lemma executeBatch_steps:
  assumes "\<And>u. sc_beforeTask env u = None"
  shows "sched_inv st run \<Longrightarrow> batch_ok st run ts \<Longrightarrow>
    (sched_step run)\<^sup>*\<^sup>* st (executeBatch env ts run st) \<and> tk_id ` set ts \<inter> open_ids (executeBatch env ts run st) run = {}"
proof (induction ts arbitrary: st)
  case (Cons t ts)
  have t: "tk_status t = Tk_READY" "tk_runId t = run" "task_getById st (tk_id t) run = Some t"
    using Cons.prems(2) by (simp_all add: batch_ok_def)
  then have "tk_status t \<in> {Tk_READY, Tk_RETRYING}" by simp
  then obtain t' where t': "same_task t t'" "tk_retryCount t' \<le> max (tk_retryCount t) (tk_maxRetries t)"
    "tk_status t' \<in> {Tk_DONE, Tk_FAILED}" "batch_task env run t st = task_update t' st"
    using assms t by (rule_tac batch_task_run [where env = env]) auto
  have step: "sched_step run st (task_update t' st)"
    using sched_step.Settle [OF t(3,1) t'(1,2)] t'(3) by simp
  note rest = Cons.IH [OF sched_step_inv [OF step Cons.prems(1)] batch_ok_tail [OF Cons.prems(2) t'(1)]]
  have eq: "executeBatch env (t # ts) run st = executeBatch env ts run (task_update t' st)"
    by (simp add: executeBatch_def t'(4))
  have "tk_id t \<notin> open_ids (task_update t' st) run"
    using t'(1,3) t(2) by (auto simp: open_ids_def tasks.get_upd same_task_def)
  then have "tk_id t \<notin> open_ids (executeBatch env ts run (task_update t' st)) run"
    using sched_steps_open rest sched_step_inv [OF step Cons.prems(1)] by blast
  with rest step show ?case
    unfolding eq by (auto intro: converse_rtranclp_into_rtranclp)
qed (simp add: executeBatch_def)

lemma batch_ok_take: "batch_ok st run ts \<Longrightarrow> batch_ok st run (take n ts)"
  unfolding batch_ok_def take_map [symmetric] by (blast intro: distinct_take dest: in_set_takeD)

lemma batch_ok_filter: "batch_ok st run ts \<Longrightarrow> batch_ok st run (filter P ts)"
  unfolding batch_ok_def by (auto intro: distinct_map_filter)

lemma selectExecutionBatch_ok:
  assumes "batch_ok st run ready"
  shows "batch_ok st run (selectExecutionBatch env ready)"
proof -
  have "ready \<noteq> [] \<Longrightarrow> [ready ! 0] = take 1 ready" by (cases ready) simp_all
  then show ?thesis
    using batch_ok_take [OF assms] batch_ok_take [OF batch_ok_filter [OF assms]] batch_ok_take [OF assms, of 0]
    by (simp add: selectExecutionBatch_def Let_def)
qed

lemma selectExecutionBatch_nonempty:
  "ready \<noteq> [] \<Longrightarrow> 0 < sc_concurrencyLimit env \<Longrightarrow> selectExecutionBatch env ready \<noteq> []"
  by (auto simp: selectExecutionBatch_def Let_def)

lemma mark_task_run:
  assumes "task_isValidTransition (tk_status t) new"
  obtains t' where "\<forall>st. mark_task new err t st = (Inr t', task_update t' st)" and "same_task t t'"
    and "tk_retryCount t' = tk_retryCount t" and "tk_status t' = new"
proof -
  obtain u where u: "task_transition new None err t = Inr u" "same_task t u" "tk_retryCount u = tk_retryCount t" "tk_status u = new"
    by (rule task_transition_obtain [OF assms])
  then show thesis by (intro that [of u]) (simp_all add: mark_task_def op_defs)
qed

text \<open>The three outcomes of preparing a pending task.\<close>

lemma failed_pending_run:
  assumes "tk_status t = Tk_PENDING"
  obtains t' where "\<forall>st. mark_task Tk_FAILED err t st = (Inr t', task_update t' st)" and "same_task t t'"
    and "tk_retryCount t' = tk_retryCount t" and "tk_status t' = Tk_FAILED"
  by (rule mark_task_run [of t Tk_FAILED]) (use assms in \<open>auto simp: task_isValidTransition_def intro: that\<close>)

lemma preparePendingTask_run:
  assumes t: "tk_status t = Tk_PENDING"
  obtains (Ready) t' where "preparePendingTask t run st = (Inr (Some t'), task_update t' st)" "deps_done st run t"
      "same_task t t'" "tk_retryCount t' = tk_retryCount t" "tk_status t' = Tk_READY"
    | (Failed) t' where "preparePendingTask t run st = (Inr None, task_update t' st)"
      "same_task t t'" "tk_retryCount t' = tk_retryCount t" "tk_status t' = Tk_FAILED"
    | (Waiting) d u where "preparePendingTask t run st = (Inr None, st)" "d \<in> set (tk_dependencies t)"
      "task_getById st d run = Some u" "tk_status u \<noteq> Tk_DONE" "tk_status u \<noteq> Tk_FAILED"
proof -
  obtain r where r: "\<forall>st. mark_task Tk_READY None t st = (Inr r, task_update r st)" "same_task t r"
    "tk_retryCount r = tk_retryCount t" "tk_status r = Tk_READY"
    by (rule mark_task_run [of t Tk_READY None]) (use t in \<open>simp add: task_isValidTransition_def\<close>)
  let ?ds = "tk_dependencies t" and ?deps = "getByIds st (tk_dependencies t) run"
  consider (none) "?ds = []" | (missing) "?ds \<noteq> []" "length ?deps \<noteq> length ?ds"
    | (failed) f where "?ds \<noteq> []" "length ?deps = length ?ds" "List.find (\<lambda>d. tk_status d = Tk_FAILED) ?deps = Some f"
    | (complete) "?ds \<noteq> []" "length ?deps = length ?ds" "List.find (\<lambda>d. tk_status d = Tk_FAILED) ?deps = None"
    by (cases "List.find (\<lambda>d. tk_status d = Tk_FAILED) ?deps") auto
  then show thesis
  proof cases
    case none
    with r show thesis by (intro Ready [of r]) (simp_all add: preparePendingTask_def op_defs deps_done_def)
  next
    case missing
    obtain f where "\<forall>st. failTaskMissingDeps t (filter (\<lambda>i. i \<notin> tk_id ` set ?deps) ?ds) st = (Inr f, task_update f st)"
      "same_task t f" "tk_retryCount f = tk_retryCount t" "tk_status f = Tk_FAILED"
      unfolding failTaskMissingDeps_def by (rule failed_pending_run [OF t])
    with missing show thesis
      by (intro Failed [of f]) (simp_all add: preparePendingTask_def checkDependencies_def op_defs Let_def)
  next
    case (failed d)
    obtain f where "\<forall>st. failTaskDependencyFailed t d st = (Inr f, task_update f st)"
      "same_task t f" "tk_retryCount f = tk_retryCount t" "tk_status f = Tk_FAILED"
      unfolding failTaskDependencyFailed_def by (rule failed_pending_run [OF t])
    with failed show thesis
      by (intro Failed [of f]) (simp_all add: preparePendingTask_def checkDependencies_def op_defs)
  next
    case complete
    show thesis
    proof (cases "list_all (\<lambda>d. tk_status d = Tk_DONE) ?deps")
      case True
      have "areMet st ?ds run" using complete True by (simp add: areMet_def)
      then have "deps_done st run t" by (simp add: areMet_iff_all_done deps_done_def)
      with r complete True show thesis
        by (intro Ready [of r]) (simp_all add: preparePendingTask_def checkDependencies_def op_defs)
    next
      case False
      then obtain u where "u \<in> set ?deps" "tk_status u \<noteq> Tk_DONE" by (auto simp: list_all_iff)
      moreover have "tk_status u \<noteq> Tk_FAILED" using calculation complete(3) by (auto simp: find_None_iff)
      ultimately show thesis
        using complete False by (auto simp: set_getByIds preparePendingTask_def checkDependencies_def op_defs intro: Waiting)
    qed
  qed
qed

text \<open>That no listed task depends on itself or on a task listed after it.\<close>

fun no_forward :: "Task list \<Rightarrow> bool" where
  "no_forward [] = True"
| "no_forward (t # ts) = (set (tk_dependencies t) \<inter> tk_id ` set (t # ts) = {} \<and> no_forward ts)"

definition waits_inside :: "storage \<Rightarrow> string \<Rightarrow> Task list \<Rightarrow> bool" where
  "waits_inside st run ts \<longleftrightarrow> no_forward ts \<and>
     (\<forall>t \<in> set ts. set (tk_dependencies t) \<inter> open_ids st run \<subseteq> tk_id ` set ts)"

lemma waits_inside_tail:
  assumes "waits_inside st run (t # ts)" and "open_ids st' run \<subseteq> open_ids st run" and "tk_id t \<notin> open_ids st' run"
  shows "waits_inside st' run ts"
  using assms unfolding waits_inside_def by auto blast

definition stored_tasks :: "storage \<Rightarrow> string \<Rightarrow> Task list \<Rightarrow> bool" where
  "stored_tasks st run ts \<longleftrightarrow> distinct (map tk_id ts) \<and> (\<forall>t \<in> set ts. task_getById st (tk_id t) run = Some t)"

lemma stored_tasks_Cons:
  "stored_tasks st run (t # ts) \<longleftrightarrow> tk_id t \<notin> tk_id ` set ts \<and> task_getById st (tk_id t) run = Some t \<and> stored_tasks st run ts"
  by (auto simp: stored_tasks_def)

lemma stored_tasks_cong:
  assumes "stored_tasks st run ts" and "\<And>i. i \<in> tk_id ` set ts \<Longrightarrow> task_getById st' i run = task_getById st i run"
  shows "stored_tasks st' run ts"
  using assms unfolding stored_tasks_def by simp

text \<open>What the search for ready tasks does, from a list of tasks as they are stored.\<close>

definition ready_round :: "string \<Rightarrow> Task list \<Rightarrow> storage \<Rightarrow> Task list \<Rightarrow> storage \<Rightarrow> bool" where
  "ready_round run ts st ready st' \<longleftrightarrow> (sched_step run)\<^sup>*\<^sup>* st st' \<and> batch_ok st' run ready \<and>
     tk_id ` set ready \<subseteq> tk_id ` set ts \<and>
     (\<forall>i. i \<notin> tk_id ` set ts \<longrightarrow> task_getById st' i run = task_getById st i run) \<and>
     (waits_inside st run ts \<and> ready = [] \<longrightarrow> tk_id ` set ts \<inter> open_ids st' run = {})"

lemma batch_ok_Cons:
  assumes "batch_ok st run ts" and "tk_id t \<notin> tk_id ` set ts" and "tk_runId t = run" and "tk_status t = Tk_READY"
    and "task_getById st (tk_id t) run = Some t"
  shows "batch_ok st run (t # ts)"
  using assms unfolding batch_ok_def by auto

lemma ready_round_keep:
  assumes st: "sched_inv st run" "stored_tasks st run (t # ts)" and round: "ready_round run ts st ready st'"
  shows "tk_status t = Tk_READY \<Longrightarrow> ready_round run (t # ts) st (t # ready) st'"
    and "tk_id t \<notin> open_ids st run \<Longrightarrow> ready_round run (t # ts) st ready st'"
    and "d \<in> set (tk_dependencies t) \<inter> open_ids st run \<Longrightarrow> ready_round run (t # ts) st ready st'"
proof -
  have t: "tk_id t \<notin> tk_id ` set ts" "task_getById st (tk_id t) run = Some t"
    using st(2) by (simp_all add: stored_tasks_Cons)
  have r: "(sched_step run)\<^sup>*\<^sup>* st st'" "batch_ok st' run ready" "tk_id ` set ready \<subseteq> tk_id ` set ts"
    "\<And>i. i \<notin> tk_id ` set ts \<Longrightarrow> task_getById st' i run = task_getById st i run"
    "waits_inside st run ts \<Longrightarrow> ready = [] \<Longrightarrow> tk_id ` set ts \<inter> open_ids st' run = {}"
    using round unfolding ready_round_def by blast+
  show "ready_round run (t # ts) st (t # ready) st'" if "tk_status t = Tk_READY"
  proof -
    have "batch_ok st' run (t # ready)"
      using r(3) t that sched_inv_get(2) [OF st(1) t(2)] r(4) [OF t(1)] by (intro batch_ok_Cons [OF r(2)]) auto
    with r show ?thesis unfolding ready_round_def by auto
  qed
  show "ready_round run (t # ts) st ready st'" if "tk_id t \<notin> open_ids st run"
  proof -
    have "tk_id t \<notin> open_ids st' run" using that sched_steps_open [OF r(1) st(1)] by blast
    moreover have "waits_inside st run ts" if "waits_inside st run (t # ts)"
      using waits_inside_tail [OF that subset_refl] \<open>tk_id t \<notin> open_ids st run\<close> by blast
    ultimately show ?thesis using r unfolding ready_round_def by auto
  qed
  show "ready_round run (t # ts) st ready st'" if "d \<in> set (tk_dependencies t) \<inter> open_ids st run"
  proof -
    have "\<not> waits_inside st run (t # ts)" using that by (auto simp: waits_inside_def)
    with r show ?thesis unfolding ready_round_def by auto
  qed
qed

lemma ready_round_update:
  assumes st: "sched_inv st run" "stored_tasks st run (t # ts)"
    and step: "sched_step run st (task_update t' st)" "same_task t t'"
    and round: "ready_round run ts (task_update t' st) ready st'"
  shows "tk_status t' = Tk_READY \<Longrightarrow> ready_round run (t # ts) st (t' # ready) st'"
    and "tk_status t' = Tk_FAILED \<Longrightarrow> ready_round run (t # ts) st ready st'"
proof -
  let ?s = "task_update t' st"
  have t: "tk_id t \<notin> tk_id ` set ts" "task_getById st (tk_id t) run = Some t"
    using st(2) by (simp_all add: stored_tasks_Cons)
  have t': "tk_id t' = tk_id t" "tk_runId t' = run"
    using step(2) sched_inv_get(2) [OF st(1) t(2)] by (auto simp: same_task_def)
  have r: "(sched_step run)\<^sup>*\<^sup>* ?s st'" "batch_ok st' run ready" "tk_id ` set ready \<subseteq> tk_id ` set ts"
    "\<And>i. i \<notin> tk_id ` set ts \<Longrightarrow> task_getById st' i run = task_getById ?s i run"
    "waits_inside ?s run ts \<Longrightarrow> ready = [] \<Longrightarrow> tk_id ` set ts \<inter> open_ids st' run = {}"
    using round unfolding ready_round_def by blast+
  have get: "task_getById ?s i run = (if i = tk_id t then Some t' else task_getById st i run)" for i
    using tasks.get_upd [OF t'(2), of st i] t'(1) by simp
  have path: "(sched_step run)\<^sup>*\<^sup>* st st'" using step(1) r(1) by (rule converse_rtranclp_into_rtranclp)
  have keep: "task_getById st' i run = task_getById st i run" if "i \<notin> tk_id ` set (t # ts)" for i
    using that r(4) [of i] get [of i] by simp
  show "ready_round run (t # ts) st (t' # ready) st'" if "tk_status t' = Tk_READY"
  proof -
    have "batch_ok st' run (t' # ready)"
      using r(3) t t' that r(4) [OF t(1)] get by (intro batch_ok_Cons [OF r(2)]) auto
    with path keep r(3) t'(1) show ?thesis unfolding ready_round_def by auto
  qed
  show "ready_round run (t # ts) st ready st'" if "tk_status t' = Tk_FAILED"
  proof -
    have closed: "tk_id t \<notin> open_ids ?s run" using that get by (simp add: open_ids_def)
    then have "tk_id t \<notin> open_ids st' run"
      using sched_steps_open [OF r(1) sched_step_inv [OF step(1) st(1)]] by blast
    moreover have "waits_inside ?s run ts" if "waits_inside st run (t # ts)"
      using waits_inside_tail [OF that sched_step_open [OF step(1) sched_inv_wf [OF st(1)]] closed] .
    ultimately show ?thesis using path keep r(2,3,5) unfolding ready_round_def by auto
  qed
qed

lemma find_ready_run:
  "sched_inv st run \<Longrightarrow> stored_tasks st run ts \<Longrightarrow> \<exists>ready st'. find_ready run ts st = (Inr ready, st') \<and> ready_round run ts st ready st'"
proof (induction ts arbitrary: st)
  case Nil
  show ?case by (simp add: op_defs ready_round_def batch_ok_def)
next
  case (Cons t ts)
  have t: "task_getById st (tk_id t) run = Some t" and ts: "stored_tasks st run ts" and fresh: "tk_id t \<notin> tk_id ` set ts"
    using Cons.prems(2) by (simp_all add: stored_tasks_Cons)
  note same = Cons.IH [OF Cons.prems(1) ts]
  have upd: "\<exists>ready st'. find_ready run ts (task_update t' st) = (Inr ready, st') \<and> ready_round run ts (task_update t' st) ready st'"
    if "sched_step run st (task_update t' st)" "same_task t t'" for t'
  proof (rule Cons.IH [OF sched_step_inv [OF that(1) Cons.prems(1)] stored_tasks_cong [OF ts]])
    fix i assume "i \<in> tk_id ` set ts"
    then have "i \<noteq> tk_id t'" using fresh that(2) unfolding same_task_def by metis
    moreover have "tk_runId t' = run" using that(2) sched_inv_get(2) [OF Cons.prems(1) t] by (simp add: same_task_def)
    ultimately show "task_getById (task_update t' st) i run = task_getById st i run" by (simp add: tasks.get_upd)
  qed
  consider (ready) "tk_status t = Tk_READY" | (settled) "tk_status t \<noteq> Tk_READY" "tk_status t \<noteq> Tk_PENDING"
    | (pending) "tk_status t = Tk_PENDING" by blast
  then show ?case
  proof cases
    case ready
    from same obtain ready st' where "find_ready run ts st = (Inr ready, st')" "ready_round run ts st ready st'" by blast
    with ready_round_keep(1) [OF Cons.prems] ready show ?thesis by (auto simp: op_defs)
  next
    case settled
    have "tk_id t \<notin> open_ids st run" using settled t by (simp add: open_ids_def)
    with same ready_round_keep(2) [OF Cons.prems] settled show ?thesis by (auto simp: op_defs)
  next
    case pending
    show ?thesis
    proof (cases rule: preparePendingTask_run [OF pending, of run st, case_names Ready Failed Waiting])
      case (Ready t')
      note step = sched_step.Make_ready [OF t pending Ready(2-5)]
      from upd [OF step Ready(3)] obtain ready st' where
        "find_ready run ts (task_update t' st) = (Inr ready, st')" "ready_round run ts (task_update t' st) ready st'" by blast
      with ready_round_update(1) [OF Cons.prems step Ready(3)] Ready(1,5) pending show ?thesis by (auto simp: op_defs)
    next
      case (Failed t')
      note step = sched_step.Give_up_pending [OF t pending Failed(2-4)]
      from upd [OF step Failed(2)] obtain ready st' where
        "find_ready run ts (task_update t' st) = (Inr ready, st')" "ready_round run ts (task_update t' st) ready st'" by blast
      with ready_round_update(2) [OF Cons.prems step Failed(2)] Failed(1,4) pending show ?thesis by (auto simp: op_defs)
    next
      case (Waiting d u)
      have "d \<in> set (tk_dependencies t) \<inter> open_ids st run"
        using Waiting sched_inv_get(3) [OF Cons.prems(1) Waiting(3)] by (auto simp: open_ids_def)
      with same ready_round_keep(3) [OF Cons.prems] Waiting(1) pending show ?thesis by (auto simp: op_defs)
    qed
  qed
qed

section \<open>The loop\<close>

lemma ids_getByRun:
  assumes "wf_run st run"
  shows "map tk_id (getByRun st run) = task_ids st run"
proof -
  have "\<exists>t. task_getById st i run = Some t \<and> tk_id t = i" if "i \<in> set (task_ids st run)" for i
    using assms that unfolding wf_tasks_def by (metis not_None_eq)
  then have "set is \<subseteq> set (task_ids st run) \<Longrightarrow> map tk_id (List.map_filter (\<lambda>i. task_getById st i run) is) = is" for "is"
    by (induction "is") (auto simp: map_filter_simps split: option.splits, (metis option.distinct(1) option.inject)+)
  then show ?thesis by (simp add: getByRun_def)
qed

lemma stored_getByRun: "wf_run st run \<Longrightarrow> stored_tasks st run (getByRun st run)"
  unfolding stored_tasks_def ids_getByRun by (auto simp: tasks.by_run_own) (simp add: wf_tasks_def)

lemma open_ids_listed: "wf_run st run \<Longrightarrow> open_ids st run = tk_id ` {t \<in> set (getByRun st run). open_status (tk_status t)}"
  by (auto simp: open_ids_def tasks.by_run_own dest: tasks.wf_get)

lemma hasExecutableTasks_iff: "wf_run st run \<Longrightarrow> hasExecutableTasks st run \<longleftrightarrow> open_ids st run \<noteq> {}"
  by (auto simp: hasExecutableTasks_def open_ids_listed list_ex_iff)

lemma hasPendingTasks_iff: "sched_inv st run \<Longrightarrow> hasPendingTasks st run \<longleftrightarrow> open_ids st run \<noteq> {}"
proof -
  assume inv: "sched_inv st run"
  have "tk_status t \<in> {Tk_PENDING, Tk_READY, Tk_DONE, Tk_FAILED}" if "t \<in> set (getByRun st run)" for t
    using that sched_inv_get(3) [OF inv] tasks.by_run_own [OF sched_inv_wf [OF inv]] by blast
  then have "tk_status t \<noteq> Tk_RUNNING \<and> tk_status t \<noteq> Tk_RETRYING" if "t \<in> set (getByRun st run)" for t
    using that by fastforce
  then show ?thesis
    by (auto simp: hasPendingTasks_def open_ids_listed [OF sched_inv_wf [OF inv]] list_ex_iff)
qed

lemma no_forward_map:
  "(\<And>t. t \<in> set ts \<Longrightarrow> tk_id (f t) = tk_id t \<and> tk_dependencies (f t) = tk_dependencies t) \<Longrightarrow>
    no_forward (map f ts) = no_forward ts"
proof (induction ts)
  case (Cons t ts)
  then have "tk_id ` set (map f (t # ts)) = tk_id ` set (t # ts)" by (auto simp: image_iff) 
  with Cons show ?case by simp
qed simp

lemma sched_step_order:
  assumes "sched_step run st st'" and "sched_inv st run"
  shows "no_forward (getByRun st' run) = no_forward (getByRun st run)"
proof -
  obtain t t' where t: "task_getById st (tk_id t) run = Some t" "same_task t t'" "st' = task_update t' st"
    by (rule sched_step_shape [OF assms(1)])
  note wf = sched_inv_wf [OF assms(2)]
  have ids: "tk_id t' = tk_id t" "tk_runId t' = run" "tk_dependencies t' = tk_dependencies t"
    using t(2) tasks.wf_get [OF wf t(1)] by (auto simp: same_task_def)
  have "getByRun st' run = map (\<lambda>u. if tk_id u = tk_id t' then t' else u) (getByRun st run)"
    using tasks.by_run_upd [OF wf, of t'] t(1,3) ids by simp
  moreover have "u = t" if "u \<in> set (getByRun st run)" "tk_id u = tk_id t" for u
    using that t(1) tasks.by_run_own [OF wf, of u] by simp
  then have "no_forward (map (\<lambda>u. if tk_id u = tk_id t' then t' else u) (getByRun st run)) = no_forward (getByRun st run)"
    using ids by (intro no_forward_map) auto
  ultimately show ?thesis by simp
qed

lemma sched_steps_order:
  "(sched_step run)\<^sup>*\<^sup>* st st' \<Longrightarrow> sched_inv st run \<Longrightarrow> no_forward (getByRun st' run) = no_forward (getByRun st run)"
proof (induction rule: rtranclp_induct)
  case (step y z)
  with sched_step_order [OF step(2) sched_steps_inv [OF step(1) step.prems]] show ?case by simp
qed simp

definition env_ok :: "scheduler \<Rightarrow> bool" where
  "env_ok env \<longleftrightarrow> 0 < sc_concurrencyLimit env \<and> (\<forall>t. sc_beforeTask env t = None)"

lemma findAllReadyTasks_run:
  assumes "sched_inv st run"
  obtains ready st' where "findAllReadyTasks run st = (Inr ready, st')" and "(sched_step run)\<^sup>*\<^sup>* st st'"
    and "batch_ok st' run ready" and "no_forward (getByRun st run) \<and> ready = [] \<longrightarrow> open_ids st' run = {}"
proof -
  note wf = sched_inv_wf [OF assms]
  from find_ready_run [OF assms stored_getByRun [OF wf]] obtain ready st' where
    r: "find_ready run (getByRun st run) st = (Inr ready, st')" "ready_round run (getByRun st run) st ready st'" by blast
  have path: "(sched_step run)\<^sup>*\<^sup>* st st'" using r(2) by (simp add: ready_round_def)
  have "open_ids st' run \<subseteq> tk_id ` set (getByRun st run)"
    using sched_steps_open [OF path assms] open_ids_listed [OF wf] by auto
  moreover have "no_forward (getByRun st run) \<Longrightarrow> waits_inside st run (getByRun st run)"
    using open_ids_listed [OF wf] by (auto simp: waits_inside_def)
  moreover have "waits_inside st run (getByRun st run) \<and> ready = [] \<longrightarrow> tk_id ` set (getByRun st run) \<inter> open_ids st' run = {}"
    using r(2) by (simp add: ready_round_def)
  ultimately have "no_forward (getByRun st run) \<and> ready = [] \<longrightarrow> open_ids st' run = {}"
    by (metis inf.absorb2)
  with r path that show thesis
    by (simp add: findAllReadyTasks_def op_defs ready_round_def)
qed

lemma execute_run:
  assumes env: "env_ok env"
  shows "sched_inv st run \<Longrightarrow> \<exists>res st'. execute env run st = Some (res, st') \<and> (sched_step run)\<^sup>*\<^sup>* st st' \<and>
    (res = Inr () \<and> open_ids st' run = {} \<or>
     res = Inl deadlock_error \<and> open_ids st' run \<noteq> {} \<and> \<not> no_forward (getByRun st run))"
proof (induction "card (open_ids st run)" arbitrary: st rule: less_induct)
  case less
  note inv = less.prems and wf = sched_inv_wf [OF less.prems]
  show ?case
  proof (cases "hasExecutableTasks st run")
    case False
    then show ?thesis
      using hasExecutableTasks_iff [OF wf] by (subst execute.simps) auto
  next
    case True
    obtain ready st1 where r: "findAllReadyTasks run st = (Inr ready, st1)" "(sched_step run)\<^sup>*\<^sup>* st st1"
      "batch_ok st1 run ready" "no_forward (getByRun st run) \<and> ready = [] \<longrightarrow> open_ids st1 run = {}"
      by (rule findAllReadyTasks_run [OF inv])
    note inv1 = sched_steps_inv [OF r(2) inv]
    show ?thesis
    proof (cases "ready = []")
      case empty: True
      then show ?thesis
        using r True hasPendingTasks_iff [OF inv1] by (subst execute.simps) auto
    next
      case False
      let ?batch = "selectExecutionBatch env ready"
      let ?st2 = "executeBatch env ?batch run st1"
      have batch: "batch_ok st1 run ?batch" "?batch \<noteq> []"
        using selectExecutionBatch_ok [OF r(3)] selectExecutionBatch_nonempty [OF False] env by (simp_all add: env_ok_def)
      have s2: "(sched_step run)\<^sup>*\<^sup>* st1 ?st2" "tk_id ` set ?batch \<inter> open_ids ?st2 run = {}"
        using executeBatch_steps [OF _ inv1 batch(1), of env] env by (simp_all add: env_ok_def)
      have "hd ?batch \<in> set ?batch" using batch(2) by simp
      then have "tk_id (hd ?batch) \<in> open_ids st1 run" "tk_id (hd ?batch) \<notin> open_ids ?st2 run"
        using batch(1) s2(2) by (auto simp: batch_ok_def open_ids_def)
      then have "open_ids ?st2 run \<subset> open_ids st run"
        using sched_steps_open [OF s2(1) inv1] sched_steps_open [OF r(2) inv] by blast
      then have "card (open_ids ?st2 run) < card (open_ids st run)"
        by (rule psubset_card_mono [OF open_ids_finite [OF wf]])
      from less.hyps [OF this sched_steps_inv [OF s2(1) inv1]] obtain res st' where
        st': "execute env run ?st2 = Some (res, st')" "(sched_step run)\<^sup>*\<^sup>* ?st2 st'"
          "res = Inr () \<and> open_ids st' run = {} \<or>
           res = Inl deadlock_error \<and> open_ids st' run \<noteq> {} \<and> \<not> no_forward (getByRun ?st2 run)" by blast
      have "execute env run st = Some (res, st')"
        using True r(1) False st'(1) by (subst execute.simps) simp
      moreover have "(sched_step run)\<^sup>*\<^sup>* st st'" using r(2) s2(1) st'(2) by (meson rtranclp_trans)
      moreover have "no_forward (getByRun ?st2 run) = no_forward (getByRun st run)"
        using sched_steps_order [OF rtranclp_trans [OF r(2) s2(1)] inv] .
      ultimately show ?thesis using st'(3) by blast
    qed
  qed
qed

section \<open>Storing a plan\<close>

definition fresh_run :: "storage \<Rightarrow> string \<Rightarrow> bool" where
  "fresh_run st run \<longleftrightarrow> task_ids st run = [] \<and> (\<forall>i. task_getById st i run = None)"

lemma task_create_run:
  assumes "tk_runId t = run" and "tk_id t \<notin> set (task_ids st run)"
  shows "task_ids (task_create t st) run = task_ids st run @ [tk_id t]"
    and "task_getById (task_create t st) i run = (if i = tk_id t then Some t else task_getById st i run)"
  using assms by (auto simp: task_create_def Let_def stored_ids_def task_getById_def split: option.splits stored.splits)

lemma stored_plan:
  assumes "\<And>t. t \<in> set ts \<Longrightarrow> tk_runId t = run"
  shows "distinct (map tk_id ts) \<Longrightarrow> fresh_run st run \<Longrightarrow>
    wf_run (fold task_create ts st) run \<and> getByRun (fold task_create ts st) run = ts \<and> task_ids (fold task_create ts st) run = map tk_id ts"
  using assms
proof (induction ts rule: rev_induct)
  case Nil
  then show ?case by (simp add: wf_tasks_def fresh_run_def getByRun_def map_filter_simps)
next
  case (snoc t ts)
  let ?st = "fold task_create ts st"
  have wf: "wf_run ?st run" and ts: "getByRun ?st run = ts" and ids: "task_ids ?st run = map tk_id ts"
    using snoc by auto
  have t: "tk_runId t = run" "tk_id t \<notin> set (task_ids ?st run)" using snoc.prems ids by auto
  note new = task_create_run [OF t]
  have "wf_run (task_create t ?st) run"
    using wf t unfolding wf_tasks_def new by auto
  moreover have "List.map_filter (\<lambda>i. task_getById (task_create t ?st) i run) (map tk_id ts) = ts"
  proof -
    have "List.map_filter (\<lambda>i. task_getById (task_create t ?st) i run) (map tk_id ts) =
        List.map_filter (\<lambda>i. task_getById ?st i run) (map tk_id ts)"
      unfolding map_filter_def new(2) using t ids by (intro map_cong filter_cong) (auto intro: rev_image_eqI)
    then show ?thesis using ts ids by (simp add: getByRun_def)
  qed
  then have "getByRun (task_create t ?st) run = ts @ [t]"
    unfolding getByRun_def new(1) ids by (simp add: map_filter_def new(2))
  ultimately show ?case by (simp add: new(1) ids)
qed

lemma no_forward_nth: "no_forward ts \<longleftrightarrow> (\<forall>k < length ts. set (tk_dependencies (ts ! k)) \<inter> tk_id ` set (drop k ts) = {})"
proof (induction ts)
  case (Cons t ts)
  have "(\<forall>k < length (t # ts). set (tk_dependencies ((t # ts) ! k)) \<inter> tk_id ` set (drop k (t # ts)) = {}) \<longleftrightarrow>
      set (tk_dependencies t) \<inter> tk_id ` set (t # ts) = {} \<and>
      (\<forall>k < length ts. set (tk_dependencies (ts ! k)) \<inter> tk_id ` set (drop k ts) = {})"
    by (simp only: length_Cons All_less_Suc2) simp
  with Cons show ?case by simp
qed simp

lemma deps_before_no_forward:
  assumes "deps_before ts" and "distinct (map tk_id ts)"
  shows "no_forward ts"
  unfolding no_forward_nth
proof (intro allI impI)
  fix k assume k: "k < length ts"
  have "distinct (map tk_id (take k ts) @ map tk_id (drop k ts))"
    using assms(2) by (simp add: map_append [symmetric] del: map_append)
  then have "tk_id ` set (take k ts) \<inter> tk_id ` set (drop k ts) = {}" by simp
  moreover have "set (tk_dependencies (ts ! k)) \<subseteq> tk_id ` set (take k ts)"
    using assms(1) k by (simp add: deps_before_def)
  ultimately show "set (tk_dependencies (ts ! k)) \<inter> tk_id ` set (drop k ts) = {}" by blast
qed

definition fresh_tasks :: "Task list \<Rightarrow> string \<Rightarrow> bool" where
  "fresh_tasks ts run \<longleftrightarrow> list_all (\<lambda>t. tk_runId t = run \<and> tk_status t = Tk_PENDING \<and> tk_retryCount t \<le> tk_maxRetries t) ts"

lemma stored_plan_inv:
  assumes "fresh_tasks ts run" and "distinct (map tk_id ts)" and "fresh_run st run"
  shows "sched_inv (fold task_create ts st) run"
proof -
  have plan: "wf_run (fold task_create ts st) run" "getByRun (fold task_create ts st) run = ts"
    using stored_plan [of ts run st] assms by (auto simp: fresh_tasks_def list_all_iff)
  have "t \<in> set ts" if "task_getById (fold task_create ts st) i run = Some t" for i t
  proof -
    have "t \<in> set (getByRun (fold task_create ts st) run)" using tasks.in_by_run [OF plan(1)] that by blast
    then show ?thesis by (simp only: plan(2))
  qed
  with plan(1) assms(1) show ?thesis
    unfolding sched_inv_def by (fastforce simp: fresh_tasks_def list_all_iff)
qed

section \<open>Properties\<close>

text \<open>The final state of a run whose tasks are all settled.\<close>

definition all_settled :: "storage \<Rightarrow> string \<Rightarrow> bool" where
  "all_settled st run \<longleftrightarrow> list_all (\<lambda>t. (tk_status t = Tk_DONE \<and> deps_done st run t \<or> tk_status t = Tk_FAILED) \<and>
     tk_retryCount t \<le> tk_maxRetries t) (getByRun st run)"

lemma settled_when_closed:
  assumes "sched_inv st run" and "open_ids st run = {}"
  shows "all_settled st run"
proof -
  note wf = sched_inv_wf [OF assms(1)]
  have "(tk_status t = Tk_DONE \<and> deps_done st run t \<or> tk_status t = Tk_FAILED) \<and> tk_retryCount t \<le> tk_maxRetries t"
    if t: "t \<in> set (getByRun st run)" for t
  proof -
    have get: "task_getById st (tk_id t) run = Some t" using tasks.by_run_own [OF wf] t by blast
    have "\<not> open_status (tk_status t)" using assms(2) get unfolding open_ids_def by blast
    moreover have "tk_retryCount t \<le> tk_maxRetries t" using assms(1) get unfolding sched_inv_def by blast
    ultimately show ?thesis using sched_inv_get(3,4) [OF assms(1) get] by auto
  qed
  then show ?thesis by (simp add: all_settled_def list_all_iff)
qed

lemma steps_keep_ids:
  "(sched_step run)\<^sup>*\<^sup>* st st' \<Longrightarrow> sched_inv st run \<Longrightarrow> map tk_id (getByRun st' run) = map tk_id (getByRun st run)"
proof (induction rule: rtranclp_induct)
  case (step y z)
  have inv: "sched_inv y run" "sched_inv z run"
    using sched_steps_inv [OF step(1) step.prems] sched_step_inv [OF step(2)] by blast+
  obtain t t' where "z = task_update t' y" by (rule sched_step_shape [OF step(2)])
  then have "task_ids z run = task_ids y run" by (simp add: tasks.ids_upd)
  then have "map tk_id (getByRun z run) = map tk_id (getByRun y run)"
    using ids_getByRun [OF sched_inv_wf [OF inv(1)]] ids_getByRun [OF sched_inv_wf [OF inv(2)]] by simp
  with step.IH [OF step.prems] show ?case by simp
qed simp

definition sample_scheduler :: scheduler where
  "sample_scheduler =
     \<lparr>sc_concurrencyLimit = 1, sc_enforceReadOnlyParallel = True, sc_readOnlyTaskTypes = [''analyze'', ''review''],
      sc_executor = (\<lambda>t. Inr \<lparr>tr_taskId = tk_id t, tr_status = Tk_DONE, tr_output = None, tr_error = None\<rparr>),
      sc_beforeTask = (\<lambda>_. None), sc_afterTask = (\<lambda>_ _. None), sc_onTaskError = (\<lambda>_ _. None)\<rparr>"

lemma sample_scheduler_ok: "env_ok sample_scheduler"
  by (simp add: env_ok_def sample_scheduler_def)

definition sample_plan :: "Task list" where
  "sample_plan = [sample_task ''a'' [] Tk_PENDING, sample_task ''b'' [''a''] Tk_PENDING]"

lemma sample_plan_ok:
  "fresh_tasks sample_plan ''r''" "distinct (map tk_id sample_plan)" "no_forward sample_plan"
  by (simp_all add: sample_plan_def fresh_tasks_def sample_task_def)

lemma empty_fresh: "fresh_run Map.empty run"
  by (simp add: fresh_run_def stored_ids_def task_getById_def)

lemma execute_plan:
  assumes "fresh_tasks plan run" and "distinct (map tk_id plan)" and "no_forward plan" and "fresh_run st run" and "env_ok env"
  shows "\<exists>st'. execute env run (fold task_create plan st) = Some (Inr (), st') \<and>
    map tk_id (getByRun st' run) = map tk_id plan \<and> all_settled st' run"
proof -
  note inv = stored_plan_inv [OF assms(1,2,4)]
  have plan: "getByRun (fold task_create plan st) run = plan"
    using stored_plan [of plan run st] assms by (auto simp: fresh_tasks_def list_all_iff)
  from execute_run [OF assms(5) inv] assms(3) obtain st' where
    st': "execute env run (fold task_create plan st) = Some (Inr (), st')"
      "(sched_step run)\<^sup>*\<^sup>* (fold task_create plan st) st'" "open_ids st' run = {}"
    by (auto simp: plan)
  with settled_when_closed [OF sched_steps_inv [OF st'(2) inv] st'(3)] steps_keep_ids [OF st'(2) inv] plan
  show ?thesis by simp
qed

text \<open>
  Let a plan of distinct pending tasks be stored for a fresh run in an order in which no task precedes one of its
  dependencies, and let the \<open>beforeTask\<close> hook never throw. Then, whatever the executor and the other hooks answer,
  the scheduler returns without error, and every task of the plan is done, with all its dependencies done, or failed,
  within its retry limit.
\<close>
theorem scheduler_settles_every_task:
  assumes "fresh_tasks plan run" and "distinct (map tk_id plan)" and "no_forward plan" and "fresh_run st run" and "env_ok env"
  shows "\<exists>st'. execute env run (fold task_create plan st) = Some (Inr (), st') \<and>
    map tk_id (getByRun st' run) = map tk_id plan \<and> all_settled st' run"
  by (rule execute_plan [OF assms])

lemma scheduler_settles_every_task_witness:
  "\<exists>st'. execute sample_scheduler ''r'' (fold task_create sample_plan Map.empty) = Some (Inr (), st') \<and>
    map tk_id (getByRun st' ''r'') = map tk_id sample_plan \<and> all_settled st' ''r''"
  by (rule scheduler_settles_every_task [OF sample_plan_ok empty_fresh sample_scheduler_ok])

text \<open>
  C26. For a \<open>beforeTask\<close> hook that never throws, a concurrency limit above zero and a plan of pending tasks within their retry limits, with
  distinct identifiers that is stored for a fresh run, in whatever order, the scheduler returns: either normally, with every
  task settled, or with the deadlock error. In both cases no task is done before its dependencies are and no retry limit
  is exceeded.
\<close>
theorem scheduler_returns:
  assumes "fresh_tasks plan run" and "distinct (map tk_id plan)" and "fresh_run st run" and "env_ok env"
  shows "\<exists>res st'. execute env run (fold task_create plan st) = Some (res, st') \<and>
    (res = Inr () \<and> all_settled st' run \<or> res = Inl deadlock_error) \<and>
    (\<forall>t \<in> set (getByRun st' run). tk_retryCount t \<le> tk_maxRetries t \<and>
       (tk_status t = Tk_DONE \<longrightarrow> deps_done st' run t))"
proof -
  note inv = stored_plan_inv [OF assms(1-3)]
  obtain res st' where r: "execute env run (fold task_create plan st) = Some (res, st')"
    "(sched_step run)\<^sup>*\<^sup>* (fold task_create plan st) st'"
    "res = Inr () \<and> open_ids st' run = {} \<or> res = Inl deadlock_error"
    using execute_run [OF assms(4) inv] by blast
  note inv' = sched_steps_inv [OF r(2) inv]
  have "tk_retryCount t \<le> tk_maxRetries t \<and> (tk_status t = Tk_DONE \<longrightarrow> deps_done st' run t)"
    if "t \<in> set (getByRun st' run)" for t
    using that inv' tasks.by_run_own [OF sched_inv_wf [OF inv'], of t] unfolding sched_inv_def by blast
  moreover have "open_ids st' run = {} \<Longrightarrow> all_settled st' run" by (rule settled_when_closed [OF inv'])
  ultimately show ?thesis using r(1,3) by blast
qed

lemma scheduler_returns_witness:
  "\<exists>res st'. execute sample_scheduler ''r'' (fold task_create sample_plan Map.empty) = Some (res, st') \<and>
    (res = Inr () \<and> all_settled st' ''r'' \<or> res = Inl deadlock_error) \<and>
    (\<forall>t \<in> set (getByRun st' ''r''). tk_retryCount t \<le> tk_maxRetries t \<and> (tk_status t = Tk_DONE \<longrightarrow> deps_done st' ''r'' t))"
  by (rule scheduler_returns [OF sample_plan_ok(1,2) empty_fresh sample_scheduler_ok])

text \<open>
  The ready tasks of a batch can run in any order: whatever the executor and the hooks answer for each of them, the
  storage after the batch is the same.
\<close>
theorem batch_order_is_irrelevant:
  assumes "batch_ok st run ts" and "mset us = mset ts"
  shows "executeBatch env us run st = executeBatch env ts run st"
proof (rule executeBatch_perm)
  have "mset (map tk_id us) = mset (map tk_id ts)" using assms(2) by simp
  then have "distinct (map tk_id us) = distinct (map tk_id ts)" by (rule mset_eq_imp_distinct_iff)
  moreover show "set us = set ts" using assms(2) by (rule mset_eq_setD)
  ultimately show "batch_ok st run us" using assms(1) by (simp add: batch_ok_def)
qed (rule assms(1))

lemma batch_order_is_irrelevant_witness:
  "executeBatch sample_scheduler [sample_task ''b'' [] Tk_READY, sample_task ''a'' [] Tk_READY] ''r''
     (fold task_create [sample_task ''a'' [] Tk_READY, sample_task ''b'' [] Tk_READY] Map.empty) =
   executeBatch sample_scheduler [sample_task ''a'' [] Tk_READY, sample_task ''b'' [] Tk_READY] ''r''
     (fold task_create [sample_task ''a'' [] Tk_READY, sample_task ''b'' [] Tk_READY] Map.empty)"
  by (rule batch_order_is_irrelevant)
    (auto simp: batch_ok_def sample_task_def task_create_def Let_def task_getById_def stored_ids_def)

lemmas storage_eval = task_create_def Let_def task_getById_def stored_ids_def getByRun_def getByIds_def map_filter_simps
  getTaskKey_def getRunTasksKey_def task_update_def

lemmas scheduler_eval = storage_eval sample_task_def sample_scheduler_def hasExecutableTasks_def hasPendingTasks_def
  findAllReadyTasks_def preparePendingTask_def checkDependencies_def failTaskMissingDeps_def failTaskDependencyFailed_def
  mark_task_def task_transition_run task_isValidTransition_def op_defs

definition late_plan :: "Task list" where
  "late_plan = [sample_task ''b'' [''a''] Tk_PENDING, sample_task ''a'' [''x''] Tk_PENDING]"

definition failed_a :: Task where
  "failed_a = (sample_task ''a'' [''x''] Tk_PENDING)
     \<lparr>tk_status := Tk_FAILED, tk_error := Some (task_error ''Missing dependencies: x'')\<rparr>"

lemma late_plan_round:
  "findAllReadyTasks ''r'' (fold task_create late_plan Map.empty) =
    (Inr [], task_update failed_a (fold task_create late_plan Map.empty))"
  by (simp add: late_plan_def failed_a_def scheduler_eval)

lemma late_plan_execute:
  "execute sample_scheduler ''r'' (fold task_create late_plan Map.empty) =
    Some (Inl deadlock_error, task_update failed_a (fold task_create late_plan Map.empty))"
  by (subst execute.simps, subst late_plan_round)
    (simp add: late_plan_def failed_a_def storage_eval sample_task_def hasExecutableTasks_def hasPendingTasks_def)

lemma late_plan_resume:
  "\<exists>st'. execute sample_scheduler ''r'' (task_update failed_a (fold task_create late_plan Map.empty)) = Some (Inr (), st') \<and>
    all_settled st' ''r''"
  by (subst execute.simps)
    (simp add: late_plan_def failed_a_def scheduler_eval all_settled_def)

text \<open>
  The deadlock error is also raised when there is no deadlock: a task listed before the dependency it waits for is
  still pending at the end of the round in which that dependency fails, and calling the scheduler again on the storage
  it leaves settles it.
\<close>
theorem deadlock_error_without_deadlock:
  "\<exists>st' a b. execute sample_scheduler ''r'' (fold task_create late_plan Map.empty) = Some (Inl deadlock_error, st') \<and>
     task_getById st' ''a'' ''r'' = Some a \<and> tk_status a = Tk_FAILED \<and>
     task_getById st' ''b'' ''r'' = Some b \<and> tk_status b = Tk_PENDING \<and> tk_dependencies b = [''a''] \<and>
     (\<exists>st''. execute sample_scheduler ''r'' st' = Some (Inr (), st'') \<and> all_settled st'' ''r'')"
  using late_plan_execute late_plan_resume
  by (intro exI [of _ "task_update failed_a (fold task_create late_plan Map.empty)"] exI [of _ failed_a]
      exI [of _ "sample_task ''b'' [''a''] Tk_PENDING"])
    (simp add: late_plan_def failed_a_def storage_eval sample_task_def)

section \<open>A hook that keeps the loop from ending\<close>

definition startable :: "Task \<Rightarrow> bool" where
  "startable t \<longleftrightarrow> tk_status t = Tk_READY \<or> tk_status t = Tk_PENDING \<and> tk_dependencies t = []"

lemma find_ready_nonempty:
  "find_ready run ts st = (Inr ready, st') \<Longrightarrow> t \<in> set ts \<Longrightarrow> startable t \<Longrightarrow> ready \<noteq> []"
proof (induction ts arbitrary: st ready)
  case (Cons u ts)
  then show ?case
    by (auto simp: op_defs startable_def preparePendingTask_def mark_task_def task_transition_run task_isValidTransition_def
        split: if_splits sum.splits prod.splits option.splits)
qed simp

lemma refused_batch:
  assumes "\<And>t. sc_beforeTask env t \<noteq> None"
  shows "batch_ok st run ts \<Longrightarrow> executeBatch env ts run st = st"
proof (induction ts)
  case (Cons t ts)
  have t: "tk_runId t = run" "tk_status t = Tk_READY" "task_getById st (tk_id t) run = Some t"
    using Cons.prems by (simp_all add: batch_ok_def)
  obtain e where "sc_beforeTask env t = Some e" using assms [of t] by auto
  then have "batch_task env run t st = st"
    using start_task_run [of st t env] t by (simp add: batch_task_def executeSingle_unfold bestEffortFinalizeRunningTask_def)
  moreover have "batch_ok st run ts" using Cons.prems by (auto simp: batch_ok_def)
  ultimately show ?case using Cons.IH by (simp add: executeBatch_def)
qed (simp add: executeBatch_def)

definition stuck :: "storage \<Rightarrow> string \<Rightarrow> bool" where
  "stuck st run \<longleftrightarrow> sched_inv st run \<and> (\<exists>t \<in> set (getByRun st run). startable t)"

lemma stuck_round:
  assumes "stuck st run" and "\<And>t. sc_beforeTask env t \<noteq> None"
  obtains ready st' where "hasExecutableTasks st run" and "findAllReadyTasks run st = (Inr ready, st')" and "ready \<noteq> []"
    and "stuck (executeBatch env (selectExecutionBatch env ready) run st') run"
proof -
  have inv: "sched_inv st run" using assms(1) by (simp add: stuck_def)
  obtain t where t: "t \<in> set (getByRun st run)" "startable t" using assms(1) by (auto simp: stuck_def)
  obtain ready st' where r: "findAllReadyTasks run st = (Inr ready, st')" "(sched_step run)\<^sup>*\<^sup>* st st'" "batch_ok st' run ready"
    by (rule findAllReadyTasks_run [OF inv])
  have ne: "ready \<noteq> []"
    using r(1) t by (intro find_ready_nonempty [of run "getByRun st run" st ready st' t]) (simp_all add: findAllReadyTasks_def op_defs)
  note inv' = sched_steps_inv [OF r(2) inv]
  have hd: "tk_status (hd ready) = Tk_READY" "task_getById st' (tk_id (hd ready)) run = Some (hd ready)"
    using r(3) ne by (simp_all add: batch_ok_def)
  then have "hd ready \<in> set (getByRun st' run)" using tasks.by_run_own [OF sched_inv_wf [OF inv']] by blast
  with hd(1) inv' have "stuck st' run" unfolding stuck_def startable_def by blast
  then have "stuck (executeBatch env (selectExecutionBatch env ready) run st') run"
    using refused_batch [OF assms(2) selectExecutionBatch_ok [OF r(3)]] by simp
  moreover have "hasExecutableTasks st run"
    using t by (auto simp: hasExecutableTasks_def startable_def list_ex_iff)
  ultimately show thesis using that r(1) ne by blast
qed

lemma returned_not_stuck:
  "execute env run st = Some y \<Longrightarrow> (\<forall>t. sc_beforeTask env t \<noteq> None) \<longrightarrow> \<not> stuck st run"
proof (rule execute.raw_induct [where P = "\<lambda>env run st _. (\<forall>t. sc_beforeTask env t \<noteq> None) \<longrightarrow> \<not> stuck st run"])
  fix exec :: "scheduler \<Rightarrow> string \<Rightarrow> storage \<Rightarrow> ((engine_error + unit) \<times> storage) option" and env run st y
  assume rec: "\<And>env run st y. exec env run st = Some y \<Longrightarrow> (\<forall>t. sc_beforeTask env t \<noteq> None) \<longrightarrow> \<not> stuck st run"
    and body: "(if \<not> hasExecutableTasks st run then Some (Inr (), st)
      else case findAllReadyTasks run st of
          (Inl e, st) \<Rightarrow> Some (Inl e, st)
        | (Inr readyTasks, st) \<Rightarrow>
            if length readyTasks = 0 then
              (if hasPendingTasks st run then Some (Inl deadlock_error, st) else Some (Inr (), st))
            else exec env run (executeBatch env (selectExecutionBatch env readyTasks) run st)) = Some y"
  show "(\<forall>t. sc_beforeTask env t \<noteq> None) \<longrightarrow> \<not> stuck st run"
  proof (intro impI notI)
    assume hook: "\<forall>t. sc_beforeTask env t \<noteq> None" and stuck: "stuck st run"
    obtain ready st' where r: "hasExecutableTasks st run" "findAllReadyTasks run st = (Inr ready, st')" "ready \<noteq> []"
      "stuck (executeBatch env (selectExecutionBatch env ready) run st') run"
      by (rule stuck_round [OF stuck, of env]) (use hook in auto)
    with body have "exec env run (executeBatch env (selectExecutionBatch env ready) run st') = Some y" by simp
    from rec [OF this] hook r(4) show False by blast
  qed
qed

lemma stuck_never_returns:
  assumes "\<And>t. sc_beforeTask env t \<noteq> None" and "stuck st run"
  shows "execute env run st = None"
proof (cases "execute env run st")
  case (Some y)
  from returned_not_stuck [OF this] assms show ?thesis by blast
qed

text \<open>
  C29. If the \<open>beforeTask\<close> hook throws for every task, the scheduler never returns on a fresh run with a task that has no
  dependencies: the error is logged, the task stays ready, and the loop starts it again.
\<close>
theorem failing_beforeTask_hook_livelocks:
  assumes "\<And>t. sc_beforeTask env t \<noteq> None" and "fresh_tasks plan run" and "distinct (map tk_id plan)" and "fresh_run st run"
    and "t \<in> set plan" and "tk_dependencies t = []"
  shows "execute env run (fold task_create plan st) = None"
proof (rule stuck_never_returns [OF assms(1)])
  have "getByRun (fold task_create plan st) run = plan"
    using stored_plan [of plan run st] assms(2-4) by (auto simp: fresh_tasks_def list_all_iff)
  moreover have "startable t" using assms(2,5,6) by (simp add: startable_def fresh_tasks_def list_all_iff)
  ultimately show "stuck (fold task_create plan st) run"
    using stored_plan_inv [OF assms(2-4)] assms(5) by (auto simp: stuck_def)
qed

lemma failing_beforeTask_hook_livelocks_witness:
  "execute (sample_scheduler\<lparr>sc_beforeTask := (\<lambda>_. Some (Thrown_value None))\<rparr>) ''r'' (fold task_create sample_plan Map.empty) = None"
  by (rule failing_beforeTask_hook_livelocks [OF _ sample_plan_ok(1,2) empty_fresh, of _ "sample_task ''a'' [] Tk_PENDING"])
    (simp_all add: sample_plan_def sample_task_def)

end
