(* ===== verification/Workspace_Core.thy ===== *)
theory Workspace_Core
  imports Lifecycle_Protocol
begin

text \<open>
  The durable workspace manifests of packages/workspace-core/src (state-machine.ts, manifest.ts,
  repository.ts, errors.ts) and their only reader in the runtime kernel, WorkspaceCoordinator.ts.
  \<open>WorkspaceManifestSchema.safeParse\<close> is the parameter \<open>safeParse\<close>: it answers the issues of a
  rejected input or the parsed manifest.
\<close>

section \<open>States and transitions\<close>

datatype WorkspaceState =
    Ws_empty | Ws_preparing | Ws_cloning | Ws_ready | Ws_dirty | Ws_committed | Ws_pushed
  | Ws_pr_opened | Ws_failed | Ws_closed

primrec workspace_state_name :: "WorkspaceState \<Rightarrow> string" where
  "workspace_state_name Ws_empty = ''empty''"
| "workspace_state_name Ws_preparing = ''preparing''"
| "workspace_state_name Ws_cloning = ''cloning''"
| "workspace_state_name Ws_ready = ''ready''"
| "workspace_state_name Ws_dirty = ''dirty''"
| "workspace_state_name Ws_committed = ''committed''"
| "workspace_state_name Ws_pushed = ''pushed''"
| "workspace_state_name Ws_pr_opened = ''pr_opened''"
| "workspace_state_name Ws_failed = ''failed''"
| "workspace_state_name Ws_closed = ''closed''"

datatype WorkspaceCloseUnresolvedChangesPolicy = Close_reject | Close_allow_close

type_synonym WorkspaceTransitionOptions = "WorkspaceCloseUnresolvedChangesPolicy option"

datatype WorkspaceCoreErrorCode =
    We_manifest_already_exists | We_manifest_not_found | We_immutable_field_changed
  | We_manifest_invalid | We_missing_run_id | We_transition_invalid

text \<open>The error class, with its context as an object whose values are lists of strings.\<close>

record WorkspaceCoreError =
  we_code :: WorkspaceCoreErrorCode
  we_message :: string
  we_context :: "string list js_record"

definition createInvalidManifestError :: "string list \<Rightarrow> WorkspaceCoreError" where
  "createInvalidManifestError issues =
     \<lparr>we_code = We_manifest_invalid, we_message = ''Workspace manifest is invalid'',
      we_context = [(''issues'', issues)]\<rparr>"

definition createManifestAlreadyExistsError :: "string \<Rightarrow> WorkspaceCoreError" where
  "createManifestAlreadyExistsError workspaceId =
     \<lparr>we_code = We_manifest_already_exists, we_message = ''Workspace manifest already exists'',
      we_context = [(''workspaceId'', [workspaceId])]\<rparr>"

definition createManifestNotFoundError :: "string \<Rightarrow> WorkspaceCoreError" where
  "createManifestNotFoundError workspaceId =
     \<lparr>we_code = We_manifest_not_found, we_message = ''Workspace manifest does not exist'',
      we_context = [(''workspaceId'', [workspaceId])]\<rparr>"

definition createMissingRunIdError :: WorkspaceCoreError where
  "createMissingRunIdError =
     \<lparr>we_code = We_missing_run_id, we_message = ''Workspace manifest requires a runId'', we_context = []\<rparr>"

definition createImmutableFieldChangedError :: "string list \<Rightarrow> WorkspaceCoreError" where
  "createImmutableFieldChangedError changedFields =
     \<lparr>we_code = We_immutable_field_changed, we_message = ''Workspace manifest immutable fields changed'',
      we_context = [(''changedFields'', changedFields)]\<rparr>"

definition createInvalidTransitionError :: "string \<Rightarrow> string \<Rightarrow> string \<Rightarrow> WorkspaceCoreError" where
  "createInvalidTransitionError fromState toState reason =
     \<lparr>we_code = We_transition_invalid, we_message = ''Workspace state transition is invalid'',
      we_context = [(''fromState'', [fromState]), (''reason'', [reason]), (''toState'', [toState])]\<rparr>"

primrec DIRECT_TRANSITIONS :: "WorkspaceState \<Rightarrow> WorkspaceState list" where
  "DIRECT_TRANSITIONS Ws_empty = [Ws_preparing]"
| "DIRECT_TRANSITIONS Ws_preparing = [Ws_cloning]"
| "DIRECT_TRANSITIONS Ws_cloning = [Ws_ready]"
| "DIRECT_TRANSITIONS Ws_ready = [Ws_dirty, Ws_closed]"
| "DIRECT_TRANSITIONS Ws_dirty = [Ws_committed]"
| "DIRECT_TRANSITIONS Ws_committed = [Ws_pushed]"
| "DIRECT_TRANSITIONS Ws_pushed = [Ws_pr_opened]"
| "DIRECT_TRANSITIONS Ws_pr_opened = []"
| "DIRECT_TRANSITIONS Ws_failed = []"
| "DIRECT_TRANSITIONS Ws_closed = []"

definition assertDirtyClosePolicy ::
  "WorkspaceState \<Rightarrow> WorkspaceState \<Rightarrow> WorkspaceTransitionOptions \<Rightarrow> WorkspaceCoreError + unit" where
  "assertDirtyClosePolicy fromState toState opts =
     (if opts = Some Close_allow_close then Inr ()
      else Inl (createInvalidTransitionError (workspace_state_name fromState) (workspace_state_name toState)
             ''dirty workspaces require an explicit unresolved-change policy to close''))"

definition assertValidWorkspaceTransition ::
  "WorkspaceState \<Rightarrow> WorkspaceState \<Rightarrow> WorkspaceTransitionOptions \<Rightarrow> WorkspaceCoreError + unit" where
  "assertValidWorkspaceTransition fromState toState opts =
     (let failure = (\<lambda>reason. Inl (createInvalidTransitionError (workspace_state_name fromState)
                                  (workspace_state_name toState) reason)) in
      if fromState = toState then failure ''no state change''
      else if toState = Ws_failed then Inr ()
      else if fromState = Ws_dirty \<and> toState = Ws_closed
      then assertDirtyClosePolicy fromState toState opts
      else if toState \<notin> set (DIRECT_TRANSITIONS fromState) then failure ''transition is not allowed''
      else Inr ())"

definition isValidWorkspaceTransition ::
  "WorkspaceState \<Rightarrow> WorkspaceState \<Rightarrow> WorkspaceTransitionOptions \<Rightarrow> bool" where
  "isValidWorkspaceTransition fromState toState opts =
     (case assertValidWorkspaceTransition fromState toState opts of Inl _ \<Rightarrow> False | Inr _ \<Rightarrow> True)"

section \<open>Manifests\<close>

record WorkspaceManifest =
  wm_runId :: string
  wm_workspaceId :: string
  wm_repoOwner :: string
  wm_repoName :: string
  wm_repoUrl :: string
  wm_baseBranch :: string
  wm_workingBranch :: string
  wm_baseSha :: string
  wm_headSha :: string
  wm_executionLocation :: string
  wm_workerId :: string
  wm_filesystemRoot :: string
  wm_artifactNamespace :: string
  wm_permissionProfileId :: string
  wm_state :: WorkspaceState
  wm_lastError :: "string option"
  wm_createdAt :: string
  wm_updatedAt :: string

definition IMMUTABLE_WORKSPACE_MANIFEST_FIELDS :: "(string \<times> (WorkspaceManifest \<Rightarrow> string)) list" where
  "IMMUTABLE_WORKSPACE_MANIFEST_FIELDS =
     [(''runId'', wm_runId), (''workspaceId'', wm_workspaceId), (''repoOwner'', wm_repoOwner),
      (''repoName'', wm_repoName), (''repoUrl'', wm_repoUrl), (''baseBranch'', wm_baseBranch),
      (''workingBranch'', wm_workingBranch), (''baseSha'', wm_baseSha),
      (''executionLocation'', wm_executionLocation), (''workerId'', wm_workerId),
      (''filesystemRoot'', wm_filesystemRoot), (''artifactNamespace'', wm_artifactNamespace),
      (''permissionProfileId'', wm_permissionProfileId), (''createdAt'', wm_createdAt)]"

text \<open>What the code reads of an issue of the schema library.\<close>

record ZodIssue =
  zi_path :: "string list"
  zi_code :: string
  zi_received :: "string option"
  zi_message :: string

type_synonym manifest_schema = "WorkspaceManifest \<Rightarrow> ZodIssue list + WorkspaceManifest"

definition isMissingRunIdIssue :: "ZodIssue \<Rightarrow> bool" where
  "isMissingRunIdIssue issue \<longleftrightarrow>
     length (zi_path issue) = 1 \<and> hd (zi_path issue) = ''runId'' \<and> zi_code issue = ''invalid_type'' \<and>
     zi_received issue = Some ''undefined''"

definition hasMissingRunIdIssue :: "ZodIssue list \<Rightarrow> bool" where
  "hasMissingRunIdIssue issues = list_ex isMissingRunIdIssue issues"

fun join_dots :: "string list \<Rightarrow> string" where
  "join_dots [] = []"
| "join_dots [s] = s"
| "join_dots (s # ss) = s @ ''.'' @ join_dots ss"

definition formatIssue :: "ZodIssue \<Rightarrow> string" where
  "formatIssue issue =
     (let path = join_dots (zi_path issue) in
      if path = [] then zi_message issue else path @ '': '' @ zi_message issue)"

definition parseWorkspaceManifest :: "manifest_schema \<Rightarrow> WorkspaceManifest \<Rightarrow> WorkspaceCoreError + WorkspaceManifest" where
  "parseWorkspaceManifest safeParse inp =
     (case safeParse inp of
        Inr m \<Rightarrow> Inr m
      | Inl issues \<Rightarrow>
          if hasMissingRunIdIssue issues then Inl createMissingRunIdError
          else Inl (createInvalidManifestError (map formatIssue issues)))"

definition findChangedImmutableFields :: "WorkspaceManifest \<Rightarrow> WorkspaceManifest \<Rightarrow> string list" where
  "findChangedImmutableFields current nxt =
     map fst (filter (\<lambda>(_, f). f current \<noteq> f nxt) IMMUTABLE_WORKSPACE_MANIFEST_FIELDS)"

definition assertWorkspaceManifestImmutableFieldsUnchanged ::
  "WorkspaceManifest \<Rightarrow> WorkspaceManifest \<Rightarrow> WorkspaceCoreError + unit" where
  "assertWorkspaceManifestImmutableFieldsUnchanged current nxt =
     (let changed = findChangedImmutableFields current nxt in
      if length changed > 0 then Inl (createImmutableFieldChangedError changed) else Inr ())"

definition validateWorkspaceManifestUpdate ::
  "manifest_schema \<Rightarrow> WorkspaceManifest \<Rightarrow> WorkspaceManifest \<Rightarrow> WorkspaceTransitionOptions \<Rightarrow>
     WorkspaceCoreError + WorkspaceManifest" where
  "validateWorkspaceManifestUpdate safeParse currentInput nextInput opts =
     andThen (parseWorkspaceManifest safeParse currentInput) (\<lambda>current.
     andThen (parseWorkspaceManifest safeParse nextInput) (\<lambda>nxt.
     andThen (assertWorkspaceManifestImmutableFieldsUnchanged current nxt) (\<lambda>_.
     andThen (if wm_state current \<noteq> wm_state nxt
              then assertValidWorkspaceTransition (wm_state current) (wm_state nxt) opts else Inr ()) (\<lambda>_.
     Inr nxt))))"

section \<open>The memory repository\<close>

record MemoryWorkspaceManifestRepository =
  manifestsByWorkspaceId :: "WorkspaceManifest js_record"
  workspaceIdsByRunId :: "string list js_record"

type_synonym 'a repo_op = "(MemoryWorkspaceManifestRepository, WorkspaceCoreError, 'a) op"

definition appendRunWorkspaceId ::
  "string \<Rightarrow> string \<Rightarrow> MemoryWorkspaceManifestRepository \<Rightarrow> MemoryWorkspaceManifestRepository" where
  "appendRunWorkspaceId runId workspaceId r =
     r\<lparr>workspaceIdsByRunId :=
         AList.update runId
           ((case map_of (workspaceIdsByRunId r) runId of None \<Rightarrow> [] | Some ids \<Rightarrow> ids) @ [workspaceId])
           (workspaceIdsByRunId r)\<rparr>"

definition create_manifest :: "manifest_schema \<Rightarrow> WorkspaceManifest \<Rightarrow> WorkspaceManifest repo_op" where
  "create_manifest safeParse m =
     bindE (liftE (parseWorkspaceManifest safeParse m)) (\<lambda>parsed.
     bindE (getE (\<lambda>r. map_of (manifestsByWorkspaceId r) (wm_workspaceId parsed))) (\<lambda>existing.
     if existing \<noteq> None then throwE (createManifestAlreadyExistsError (wm_workspaceId parsed))
     else
       bindE (modifyE (\<lambda>r. r\<lparr>manifestsByWorkspaceId :=
                AList.update (wm_workspaceId parsed) parsed (manifestsByWorkspaceId r)\<rparr>)) (\<lambda>_.
       bindE (modifyE (appendRunWorkspaceId (wm_runId parsed) (wm_workspaceId parsed))) (\<lambda>_.
       returnE parsed))))"

definition update_manifest ::
  "manifest_schema \<Rightarrow> WorkspaceManifest \<Rightarrow> WorkspaceTransitionOptions \<Rightarrow> WorkspaceManifest repo_op" where
  "update_manifest safeParse m opts =
     bindE (getE (\<lambda>r. map_of (manifestsByWorkspaceId r) (wm_workspaceId m))) (\<lambda>existing.
     case existing of
       None \<Rightarrow> throwE (createManifestNotFoundError (wm_workspaceId m))
     | Some current \<Rightarrow>
         bindE (liftE (validateWorkspaceManifestUpdate safeParse current m opts)) (\<lambda>nxt.
         bindE (modifyE (\<lambda>r. r\<lparr>manifestsByWorkspaceId :=
                  AList.update (wm_workspaceId nxt) nxt (manifestsByWorkspaceId r)\<rparr>)) (\<lambda>_.
         returnE nxt)))"

definition getByWorkspaceId :: "MemoryWorkspaceManifestRepository \<Rightarrow> string \<Rightarrow> WorkspaceManifest option" where
  "getByWorkspaceId r workspaceId = map_of (manifestsByWorkspaceId r) workspaceId"

definition getLatestByRunId :: "MemoryWorkspaceManifestRepository \<Rightarrow> string \<Rightarrow> WorkspaceManifest option" where
  "getLatestByRunId r runId =
     (let ids = (case map_of (workspaceIdsByRunId r) runId of None \<Rightarrow> [] | Some ids \<Rightarrow> ids);
          latest = (if ids = [] then None else Some (last ids))
      in if truthy latest then getByWorkspaceId r (the latest) else None)"

definition empty_repository :: MemoryWorkspaceManifestRepository where
  "empty_repository = \<lparr>manifestsByWorkspaceId = [], workspaceIdsByRunId = []\<rparr>"

section \<open>The reader in the runtime kernel\<close>

definition EXECUTABLE_STATES :: "WorkspaceState list" where
  "EXECUTABLE_STATES = [Ws_ready, Ws_dirty, Ws_committed, Ws_pushed, Ws_pr_opened]"

definition loadExecutableManifest ::
  "(string \<Rightarrow> WorkspaceManifest option) \<Rightarrow> string \<Rightarrow> js_error + WorkspaceManifest" where
  "loadExecutableManifest latestByRunId runId =
     (case latestByRunId runId of
        None \<Rightarrow> Inl (RuntimeKernelError Kc_workspace_not_found
                      (''No durable workspace manifest exists for run '' @ runId) None)
      | Some m \<Rightarrow>
          if wm_state m \<notin> set EXECUTABLE_STATES
          then Inl (RuntimeKernelError Kc_workspace_not_executable
                      (''Workspace '' @ wm_workspaceId m @ '' is not executable in state '' @
                       workspace_state_name (wm_state m)) None)
          else Inr m)"

section \<open>Progress of a workspace\<close>

primrec state_rank :: "WorkspaceState \<Rightarrow> nat" where
  "state_rank Ws_empty = 0"
| "state_rank Ws_preparing = 1"
| "state_rank Ws_cloning = 2"
| "state_rank Ws_ready = 3"
| "state_rank Ws_dirty = 4"
| "state_rank Ws_committed = 5"
| "state_rank Ws_pushed = 6"
| "state_rank Ws_pr_opened = 7"
| "state_rank Ws_closed = 8"
| "state_rank Ws_failed = 9"

lemma transition_increases_rank:
  "assertValidWorkspaceTransition s s' opts = Inr u \<Longrightarrow> state_rank s < state_rank s'"
  by (cases s; cases s')
    (auto simp: assertValidWorkspaceTransition_def assertDirtyClosePolicy_def Let_def split: if_splits)

definition same_immutable :: "WorkspaceManifest \<Rightarrow> WorkspaceManifest \<Rightarrow> bool" where
  "same_immutable m m' \<longleftrightarrow> list_all (\<lambda>(_, f). f m = f m') IMMUTABLE_WORKSPACE_MANIFEST_FIELDS"

lemma same_immutable_refl: "same_immutable m m"
  by (simp add: same_immutable_def list_all_iff split: prod.splits)

lemma same_immutable_trans: "same_immutable a b \<Longrightarrow> same_immutable b c \<Longrightarrow> same_immutable a c"
  by (simp add: same_immutable_def IMMUTABLE_WORKSPACE_MANIFEST_FIELDS_def)

lemma same_immutable_ids:
  assumes "same_immutable m m'"
  shows "wm_workspaceId m' = wm_workspaceId m" and "wm_runId m' = wm_runId m"
  using assms by (simp_all add: same_immutable_def IMMUTABLE_WORKSPACE_MANIFEST_FIELDS_def)

lemma unchanged_fields:
  "assertWorkspaceManifestImmutableFieldsUnchanged m m' = Inr u \<Longrightarrow> same_immutable m m'"
  by (auto simp: assertWorkspaceManifestImmutableFieldsUnchanged_def findChangedImmutableFields_def
      same_immutable_def list_all_iff Let_def filter_empty_conv split: if_splits)

text \<open>
  What the code relies on of the schema: it answers the object it was given, and workspace
  identifiers are not empty.
\<close>

definition lawful_manifest_schema :: "manifest_schema \<Rightarrow> bool" where
  "lawful_manifest_schema safeParse \<longleftrightarrow>
     (\<forall>m m'. safeParse m = Inr m' \<longrightarrow> m' = m \<and> wm_workspaceId m \<noteq> [])"

lemma parse_lawful:
  "lawful_manifest_schema safeParse \<Longrightarrow> parseWorkspaceManifest safeParse m = Inr m' \<Longrightarrow> m' = m \<and> wm_workspaceId m \<noteq> []"
  by (auto simp: lawful_manifest_schema_def parseWorkspaceManifest_def split: sum.splits if_splits)

lemma update_valid:
  assumes "lawful_manifest_schema safeParse"
    and "validateWorkspaceManifestUpdate safeParse current m opts = Inr nxt"
  shows "nxt = m \<and> same_immutable current m \<and>
    (wm_state current = wm_state m \<or> assertValidWorkspaceTransition (wm_state current) (wm_state m) opts = Inr ())"
  using assms(2) parse_lawful [OF assms(1), of current] parse_lawful [OF assms(1), of m]
  by (auto simp: validateWorkspaceManifestUpdate_def andThen_Inr_iff dest!: unchanged_fields split: if_splits)

section \<open>The repository's invariant\<close>

definition run_ids :: "MemoryWorkspaceManifestRepository \<Rightarrow> string \<Rightarrow> string list" where
  "run_ids r run = (case map_of (workspaceIdsByRunId r) run of None \<Rightarrow> [] | Some ids \<Rightarrow> ids)"

definition repo_inv :: "MemoryWorkspaceManifestRepository \<Rightarrow> bool" where
  "repo_inv r \<longleftrightarrow>
     (\<forall>w m. getByWorkspaceId r w = Some m \<longrightarrow> wm_workspaceId m = w \<and> w \<noteq> [] \<and> w \<in> set (run_ids r (wm_runId m))) \<and>
     (\<forall>run w. w \<in> set (run_ids r run) \<longrightarrow> (\<exists>m. getByWorkspaceId r w = Some m \<and> wm_runId m = run)) \<and>
     (\<forall>run. distinct (run_ids r run))"

lemma repo_invD:
  assumes "repo_inv r"
  shows "getByWorkspaceId r w = Some m \<Longrightarrow> wm_workspaceId m = w"
    and "getByWorkspaceId r w = Some m \<Longrightarrow> w \<noteq> []"
    and "getByWorkspaceId r w = Some m \<Longrightarrow> wm_runId m = run \<Longrightarrow> w \<in> set (run_ids r run)"
    and "w \<in> set (run_ids r run) \<Longrightarrow> \<exists>m. getByWorkspaceId r w = Some m \<and> wm_runId m = run"
    and "distinct (run_ids r run)"
  using assms unfolding repo_inv_def by blast+

lemma repo_inv_empty: "repo_inv empty_repository"
  by (simp add: repo_inv_def empty_repository_def run_ids_def getByWorkspaceId_def)

definition store_created :: "WorkspaceManifest \<Rightarrow> MemoryWorkspaceManifestRepository \<Rightarrow> MemoryWorkspaceManifestRepository" where
  "store_created m r = appendRunWorkspaceId (wm_runId m) (wm_workspaceId m)
     (r\<lparr>manifestsByWorkspaceId := AList.update (wm_workspaceId m) m (manifestsByWorkspaceId r)\<rparr>)"

lemma create_run:
  assumes "lawful_manifest_schema safeParse"
  shows "create_manifest safeParse m r =
    (case parseWorkspaceManifest safeParse m of
       Inl e \<Rightarrow> (Inl e, r)
     | Inr _ \<Rightarrow> if getByWorkspaceId r (wm_workspaceId m) \<noteq> None
         then (Inl (createManifestAlreadyExistsError (wm_workspaceId m)), r)
         else (Inr m, store_created m r))"
  using parse_lawful [OF assms]
  by (auto simp: create_manifest_def op_defs getByWorkspaceId_def store_created_def split: sum.splits)

lemma store_created_get:
  "getByWorkspaceId (store_created m r) w = (if w = wm_workspaceId m then Some m else getByWorkspaceId r w)"
  "run_ids (store_created m r) run =
     (if run = wm_runId m then run_ids r run @ [wm_workspaceId m] else run_ids r run)"
  by (simp_all add: store_created_def getByWorkspaceId_def run_ids_def appendRunWorkspaceId_def)

lemma store_created_inv:
  assumes "repo_inv r" and "getByWorkspaceId r (wm_workspaceId m) = None" and "wm_workspaceId m \<noteq> []"
  shows "repo_inv (store_created m r)"
proof -
  note inv = repo_invD [OF assms(1)]
  have "wm_workspaceId m \<notin> set (run_ids r run)" for run
    using assms(2) inv(4) by fastforce
  with assms(2,3) show ?thesis
    unfolding repo_inv_def store_created_get
    by (intro conjI allI impI) (auto split: if_splits dest: inv(1-4) intro: inv(5))
qed

definition store_updated :: "WorkspaceManifest \<Rightarrow> MemoryWorkspaceManifestRepository \<Rightarrow> MemoryWorkspaceManifestRepository" where
  "store_updated m r = r\<lparr>manifestsByWorkspaceId := AList.update (wm_workspaceId m) m (manifestsByWorkspaceId r)\<rparr>"

lemma update_run:
  assumes "lawful_manifest_schema safeParse"
  shows "update_manifest safeParse m opts r =
    (case getByWorkspaceId r (wm_workspaceId m) of
       None \<Rightarrow> (Inl (createManifestNotFoundError (wm_workspaceId m)), r)
     | Some current \<Rightarrow>
         (case validateWorkspaceManifestUpdate safeParse current m opts of
            Inl e \<Rightarrow> (Inl e, r) | Inr _ \<Rightarrow> (Inr m, store_updated m r)))"
  using update_valid [OF assms]
  by (auto simp: update_manifest_def op_defs getByWorkspaceId_def store_updated_def split: sum.splits option.splits)

lemma store_updated_get:
  "getByWorkspaceId (store_updated m r) w = (if w = wm_workspaceId m then Some m else getByWorkspaceId r w)"
  "run_ids (store_updated m r) run = run_ids r run"
  by (simp_all add: store_updated_def getByWorkspaceId_def run_ids_def)

lemma store_updated_inv:
  assumes "repo_inv r" and "getByWorkspaceId r (wm_workspaceId m) = Some current" and "same_immutable current m"
  shows "repo_inv (store_updated m r)"
proof -
  note ids = same_immutable_ids [OF assms(3)]
  note inv = repo_invD [OF assms(1)]
  have own: "wm_runId m = run" if "wm_workspaceId m \<in> set (run_ids r run)" for run
    using inv(4) [OF that] assms(2) ids by auto
  have cur: "wm_workspaceId m \<noteq> []" "wm_workspaceId m \<in> set (run_ids r (wm_runId m))"
    using inv(2) [OF assms(2)] inv(3) [OF assms(2)] ids by simp_all
  show ?thesis
    unfolding repo_inv_def store_updated_get
    by (intro conjI allI impI) (auto simp: cur own split: if_splits dest: inv(1-4) intro: inv(5))
qed

section \<open>Histories of the repository\<close>

datatype repo_command = Create_manifest WorkspaceManifest | Update_manifest WorkspaceManifest WorkspaceTransitionOptions

primrec repo_exec :: "manifest_schema \<Rightarrow> repo_command \<Rightarrow> WorkspaceManifest repo_op" where
  "repo_exec safeParse (Create_manifest m) = create_manifest safeParse m"
| "repo_exec safeParse (Update_manifest m opts) = update_manifest safeParse m opts"

definition repo_history ::
  "manifest_schema \<Rightarrow> repo_command list \<Rightarrow> MemoryWorkspaceManifestRepository \<Rightarrow> MemoryWorkspaceManifestRepository" where
  "repo_history safeParse cs r = fold (\<lambda>c r. snd (repo_exec safeParse c r)) cs r"

text \<open>What a command can do to a stored manifest.\<close>

definition evolved :: "WorkspaceManifest \<Rightarrow> WorkspaceManifest \<Rightarrow> bool" where
  "evolved m m' \<longleftrightarrow> same_immutable m m' \<and> (wm_state m = wm_state m' \<or> state_rank (wm_state m) < state_rank (wm_state m'))"

lemma evolved_trans: "evolved a b \<Longrightarrow> evolved b c \<Longrightarrow> evolved a c"
  by (auto simp: evolved_def intro: same_immutable_trans)

lemma repo_exec_step:
  assumes "lawful_manifest_schema safeParse" and "repo_inv r"
  shows "repo_inv (snd (repo_exec safeParse c r)) \<and>
    (\<forall>w m. getByWorkspaceId r w = Some m \<longrightarrow>
       (\<exists>m'. getByWorkspaceId (snd (repo_exec safeParse c r)) w = Some m' \<and> evolved m m'))"
proof (cases c)
  case (Create_manifest m)
  show ?thesis
  proof (cases "\<exists>m'. parseWorkspaceManifest safeParse m = Inr m' \<and> getByWorkspaceId r (wm_workspaceId m) = None")
    case True
    then have ne: "wm_workspaceId m \<noteq> []" using parse_lawful [OF assms(1)] by blast
    have "snd (repo_exec safeParse c r) = store_created m r"
      using True Create_manifest by (auto simp: create_run [OF assms(1)])
    moreover have "repo_inv (store_created m r)"
      using True ne assms(2) by (intro store_created_inv) auto
    ultimately show ?thesis
      using True by (auto simp: store_created_get evolved_def same_immutable_refl)
  next
    case False
    then have "snd (repo_exec safeParse c r) = r"
      using Create_manifest by (auto simp: create_run [OF assms(1)] split: sum.splits)
    then show ?thesis
      using assms(2) by (auto simp: evolved_def same_immutable_refl)
  qed
next
  case (Update_manifest m opts)
  show ?thesis
  proof (cases "\<exists>current. getByWorkspaceId r (wm_workspaceId m) = Some current \<and>
      validateWorkspaceManifestUpdate safeParse current m opts = Inr m")
    case True
    then obtain current where cur: "getByWorkspaceId r (wm_workspaceId m) = Some current"
      "validateWorkspaceManifestUpdate safeParse current m opts = Inr m" by blast
    note v = update_valid [OF assms(1) cur(2)]
    then have ev: "evolved current m"
      by (auto simp: evolved_def dest: transition_increases_rank)
    have "snd (repo_exec safeParse c r) = store_updated m r"
      using cur Update_manifest by (simp add: update_run [OF assms(1)])
    with store_updated_inv [OF assms(2) cur(1)] v ev cur show ?thesis
      by (auto simp: store_updated_get evolved_def same_immutable_refl)
  next
    case False
    then have "snd (repo_exec safeParse c r) = r"
      using Update_manifest update_valid [OF assms(1)]
      by (auto simp: update_run [OF assms(1)] split: sum.splits option.splits)
    then show ?thesis
      using assms(2) by (auto simp: evolved_def same_immutable_refl)
  qed
qed

lemma repo_history_step:
  assumes "lawful_manifest_schema safeParse" and "repo_inv r"
  shows "repo_inv (repo_history safeParse cs r) \<and>
    (\<forall>w m. getByWorkspaceId r w = Some m \<longrightarrow>
       (\<exists>m'. getByWorkspaceId (repo_history safeParse cs r) w = Some m' \<and> evolved m m'))"
  using assms(2)
proof (induction cs arbitrary: r)
  case Nil
  then show ?case by (simp add: repo_history_def evolved_def same_immutable_refl)
next
  case (Cons c cs)
  note step = repo_exec_step [OF assms(1) Cons.prems, of c]
  then have inv: "repo_inv (snd (repo_exec safeParse c r))" by simp
  have eq: "repo_history safeParse (c # cs) r = repo_history safeParse cs (snd (repo_exec safeParse c r))"
    by (simp add: repo_history_def)
  show ?case
    unfolding eq using step Cons.IH [OF inv] evolved_trans by blast
qed

section \<open>What a repository promises its readers\<close>

text \<open>
  The part of the \<open>WorkspaceManifestRepository\<close> interface the kernel reads: the latest manifest of a
  run is a stored manifest of that run, and there is one as soon as one is stored.
\<close>

locale manifest_repository =
  fixes inv :: "'r \<Rightarrow> bool"
    and get :: "'r \<Rightarrow> string \<Rightarrow> WorkspaceManifest option"
    and latest :: "'r \<Rightarrow> string \<Rightarrow> WorkspaceManifest option"
  assumes latest_stored: "inv r \<Longrightarrow> latest r run = Some m \<Longrightarrow> get r (wm_workspaceId m) = Some m \<and> wm_runId m = run"
    and latest_exists: "inv r \<Longrightarrow> get r w = Some m \<Longrightarrow> latest r (wm_runId m) \<noteq> None"
begin

lemma load_returns_stored:
  assumes "inv r" and "loadExecutableManifest (latest r) run = Inr m"
  shows "get r (wm_workspaceId m) = Some m \<and> wm_runId m = run \<and> wm_state m \<in> set EXECUTABLE_STATES"
  using assms latest_stored by (auto simp: loadExecutableManifest_def split: option.splits if_splits)

lemma load_reports_absence:
  assumes "inv r"
  shows "loadExecutableManifest (latest r) run =
      Inl (RuntimeKernelError Kc_workspace_not_found (''No durable workspace manifest exists for run '' @ run) None) \<longleftrightarrow>
    (\<forall>w m. get r w = Some m \<longrightarrow> wm_runId m \<noteq> run)"
proof -
  have "latest r run = None \<longleftrightarrow> (\<forall>w m. get r w = Some m \<longrightarrow> wm_runId m \<noteq> run)"
  proof
    assume "latest r run = None"
    then show "\<forall>w m. get r w = Some m \<longrightarrow> wm_runId m \<noteq> run" using latest_exists [OF assms] by blast
  next
    assume "\<forall>w m. get r w = Some m \<longrightarrow> wm_runId m \<noteq> run"
    then show "latest r run = None" using latest_stored [OF assms] by (cases "latest r run") auto
  qed
  moreover have "loadExecutableManifest (latest r) run =
      Inl (RuntimeKernelError Kc_workspace_not_found (''No durable workspace manifest exists for run '' @ run) None) \<longleftrightarrow>
    latest r run = None"
    by (cases "latest r run") (simp_all add: loadExecutableManifest_def)
  ultimately show ?thesis by simp
qed

end

lemma getLatestByRunId_run_ids:
  assumes "repo_inv r"
  shows "getLatestByRunId r run = (if run_ids r run = [] then None else getByWorkspaceId r (last (run_ids r run)))"
proof (cases "run_ids r run = []")
  case False
  then have "last (run_ids r run) \<in> set (run_ids r run)" by simp
  then obtain m where "getByWorkspaceId r (last (run_ids r run)) = Some m"
    using repo_invD(4) [OF assms] by blast
  then have "last (run_ids r run) \<noteq> []" by (rule repo_invD(2) [OF assms])
  with False show ?thesis
    by (simp add: getLatestByRunId_def run_ids_def [symmetric] Let_def)
qed (simp add: getLatestByRunId_def run_ids_def [symmetric] Let_def)

interpretation memory_manifests: manifest_repository repo_inv getByWorkspaceId getLatestByRunId
proof
  fix r run m assume inv: "repo_inv r" and latest: "getLatestByRunId r run = Some m"
  then have ids: "run_ids r run \<noteq> []" and m: "getByWorkspaceId r (last (run_ids r run)) = Some m"
    by (auto simp: getLatestByRunId_run_ids split: if_splits)
  then show "getByWorkspaceId r (wm_workspaceId m) = Some m \<and> wm_runId m = run"
    using repo_invD(1,4) [OF inv] last_in_set [OF ids] by fastforce
next
  fix r w m assume inv: "repo_inv r" and m: "getByWorkspaceId r w = Some m"
  then have mem: "w \<in> set (run_ids r (wm_runId m))" by (simp add: repo_invD(3))
  then have ids: "run_ids r (wm_runId m) \<noteq> []" by auto
  then show "getLatestByRunId r (wm_runId m) \<noteq> None"
    using repo_invD(4) [OF inv last_in_set [OF ids]] by (auto simp: getLatestByRunId_run_ids [OF inv])
qed

lemma load_latest_iff:
  assumes inv: "repo_inv r"
  shows "loadExecutableManifest (getLatestByRunId r) run = Inr m \<longleftrightarrow>
      run_ids r run \<noteq> [] \<and> getByWorkspaceId r (last (run_ids r run)) = Some m \<and> wm_runId m = run \<and>
      wm_state m \<in> set EXECUTABLE_STATES"
proof
  assume load: "loadExecutableManifest (getLatestByRunId r) run = Inr m"
  then have "getLatestByRunId r run = Some m"
    by (simp add: loadExecutableManifest_def split: if_splits option.splits)
  with memory_manifests.load_returns_stored [OF inv load] show "run_ids r run \<noteq> [] \<and>
    getByWorkspaceId r (last (run_ids r run)) = Some m \<and> wm_runId m = run \<and> wm_state m \<in> set EXECUTABLE_STATES"
    by (simp add: getLatestByRunId_run_ids [OF inv] split: if_splits)
qed (simp add: getLatestByRunId_run_ids [OF inv] loadExecutableManifest_def)

section \<open>Properties\<close>

definition sample_schema :: manifest_schema where
  "sample_schema m = (if wm_workspaceId m \<noteq> [] then Inr m else Inl [])"

lemma sample_schema_lawful: "lawful_manifest_schema sample_schema"
  by (auto simp: lawful_manifest_schema_def sample_schema_def split: if_splits)

definition sample_manifest :: "WorkspaceState \<Rightarrow> WorkspaceManifest" where
  "sample_manifest s =
     \<lparr>wm_runId = ''run'', wm_workspaceId = ''ws'', wm_repoOwner = ''o'', wm_repoName = ''r'', wm_repoUrl = ''u'',
      wm_baseBranch = ''main'', wm_workingBranch = ''w'', wm_baseSha = ''b'', wm_headSha = ''h'',
      wm_executionLocation = ''cloud'', wm_workerId = ''k'', wm_filesystemRoot = ''/'', wm_artifactNamespace = ''a'',
      wm_permissionProfileId = ''p'', wm_state = s, wm_lastError = None, wm_createdAt = ''t'', wm_updatedAt = ''t''\<rparr>"

text \<open>
  C24. Under any history of creates and updates of the memory repository, a stored manifest stays stored: its
  fourteen immutable fields never change, and its state is the same or strictly further along (a workspace never
  returns to an earlier state, and never leaves \<open>failed\<close>).
\<close>
theorem stored_manifest_only_advances:
  assumes "lawful_manifest_schema safeParse"
    and "getByWorkspaceId (repo_history safeParse cs empty_repository) w = Some m"
  shows "\<exists>m'. getByWorkspaceId (repo_history safeParse (cs @ cs') empty_repository) w = Some m' \<and>
    same_immutable m m' \<and>
    (wm_state m' = wm_state m \<or> state_rank (wm_state m) < state_rank (wm_state m')) \<and>
    (wm_state m = Ws_failed \<longrightarrow> wm_state m' = Ws_failed)"
proof -
  let ?r = "repo_history safeParse cs empty_repository"
  have "repo_inv ?r"
    using repo_history_step [OF assms(1) repo_inv_empty] by blast
  moreover have "repo_history safeParse (cs @ cs') empty_repository = repo_history safeParse cs' ?r"
    by (simp add: repo_history_def)
  ultimately obtain m' where
    m': "getByWorkspaceId (repo_history safeParse (cs @ cs') empty_repository) w = Some m'" "evolved m m'"
    using repo_history_step [OF assms(1), of ?r cs'] assms(2) by auto
  have "state_rank (wm_state m') \<le> state_rank Ws_failed" by (cases "wm_state m'") simp_all
  with m' show ?thesis by (auto simp: evolved_def)
qed

theorem stored_manifest_only_advances_witness:
  "\<exists>m'. getByWorkspaceId (repo_history sample_schema
        ([Create_manifest (sample_manifest Ws_ready)] @ [Update_manifest (sample_manifest Ws_dirty) None])
        empty_repository) ''ws'' = Some m' \<and>
    same_immutable (sample_manifest Ws_ready) m' \<and>
    (wm_state m' = wm_state (sample_manifest Ws_ready) \<or>
       state_rank (wm_state (sample_manifest Ws_ready)) < state_rank (wm_state m')) \<and>
    (wm_state (sample_manifest Ws_ready) = Ws_failed \<longrightarrow> wm_state m' = Ws_failed)"
  by (rule stored_manifest_only_advances [OF sample_schema_lawful])
    (simp add: repo_history_def create_manifest_def parseWorkspaceManifest_def sample_schema_def sample_manifest_def
      op_defs empty_repository_def getByWorkspaceId_def appendRunWorkspaceId_def)

text \<open>
  After any history of the memory repository, the kernel loads for a run exactly an executable, stored manifest
  of that run, the one created last for it, and reports \<open>workspace_not_found\<close> exactly when no manifest of the run is
  stored.
\<close>
theorem loaded_manifest_is_latest_executable:
  assumes "lawful_manifest_schema safeParse" and "r = repo_history safeParse cs empty_repository"
  shows "(loadExecutableManifest (getLatestByRunId r) run = Inr m \<longleftrightarrow>
      run_ids r run \<noteq> [] \<and> getByWorkspaceId r (last (run_ids r run)) = Some m \<and> wm_runId m = run \<and>
      wm_state m \<in> set EXECUTABLE_STATES) \<and>
    (loadExecutableManifest (getLatestByRunId r) run =
      Inl (RuntimeKernelError Kc_workspace_not_found (''No durable workspace manifest exists for run '' @ run) None) \<longleftrightarrow>
      (\<forall>w m. getByWorkspaceId r w = Some m \<longrightarrow> wm_runId m \<noteq> run))"
proof -
  have inv: "repo_inv r"
    using repo_history_step [OF assms(1) repo_inv_empty] assms(2) by blast
  show ?thesis
    by (rule conjI [OF load_latest_iff [OF inv] memory_manifests.load_reports_absence [OF inv]])
qed

lemma loaded_manifest_is_latest_executable_witness:
  "loadExecutableManifest (getLatestByRunId (repo_history sample_schema
       [Create_manifest (sample_manifest Ws_ready)] empty_repository)) ''run'' = Inr (sample_manifest Ws_ready)"
  unfolding loaded_manifest_is_latest_executable [OF sample_schema_lawful refl, THEN conjunct1]
  by (simp add: repo_history_def create_manifest_def parseWorkspaceManifest_def sample_schema_def sample_manifest_def
      op_defs empty_repository_def getByWorkspaceId_def appendRunWorkspaceId_def run_ids_def EXECUTABLE_STATES_def)

text \<open>
  A workspace state machine has no cycle, \<open>failed\<close> is reachable from every other state in one step and has no
  way out, and work that is not committed is only closed under the explicit policy \<open>allow_close\<close>.
\<close>
theorem workspace_transitions_sound:
  "(isValidWorkspaceTransition s s' opts \<longrightarrow> state_rank s < state_rank s') \<and>
   (isValidWorkspaceTransition s Ws_failed opts \<longleftrightarrow> s \<noteq> Ws_failed) \<and>
   \<not> isValidWorkspaceTransition Ws_failed s' opts \<and>
   (isValidWorkspaceTransition Ws_dirty Ws_closed opts \<longleftrightarrow> opts = Some Close_allow_close)"
proof -
  have "isValidWorkspaceTransition s s' opts \<longrightarrow> state_rank s < state_rank s'"
    by (auto simp: isValidWorkspaceTransition_def split: sum.splits dest: transition_increases_rank)
  moreover have "isValidWorkspaceTransition s Ws_failed opts \<longleftrightarrow> s \<noteq> Ws_failed"
    by (simp add: isValidWorkspaceTransition_def assertValidWorkspaceTransition_def)
  moreover have "\<not> isValidWorkspaceTransition Ws_failed s' opts"
    by (simp add: isValidWorkspaceTransition_def assertValidWorkspaceTransition_def)
  moreover have "isValidWorkspaceTransition Ws_dirty Ws_closed opts \<longleftrightarrow> opts = Some Close_allow_close"
    by (simp add: isValidWorkspaceTransition_def assertValidWorkspaceTransition_def assertDirtyClosePolicy_def)
  ultimately show ?thesis by blast
qed

lemma workspace_transitions_sound_witness:
  "state_rank Ws_ready < state_rank Ws_dirty"
  using workspace_transitions_sound [of Ws_ready Ws_dirty None]
  by (simp add: isValidWorkspaceTransition_def assertValidWorkspaceTransition_def)

end
