(* ===== verification/Turn_Control.thy ===== *)
theory Turn_Control
  imports Kernel_Invariants Workspace_Core
begin

text \<open>
  The entry points of the kernel for one turn, packages/runtime-kernel/src/RuntimeKernel.ts: preparing and starting a
  turn, interrupting it, accepting thread inputs, resolving approvals and compacting its context. The kernel's maps are
  keyed by the turn; here a flag says whether the turn has an entry in each of them. The abort controllers and the
  pending interrupts, which every caller shares, are part of the world.
\<close>

section \<open>Runs, turns and ports\<close>

record PlatformRun =
  pr_id :: string
  pr_threadId :: string
  pr_userId :: string
  pr_workspaceId :: string
  pr_executionCapability :: "string option"

record PlatformTurn =
  pt_id :: string
  pt_threadId :: string
  pt_runId :: string
  pt_parentTurnId :: "string option"
  pt_lastEventSequence :: nat

record StartTurnInput =
  in_run :: PlatformRun
  in_turn :: PlatformTurn
  in_runAttemptId :: string
  in_continuationOfTurnId :: "string option"
  in_originalPromptId :: "string option"

text \<open>
  \<open>ct_base\<close> holds the dependencies of the kernel; the parts of it that depend on the turn are set when the turn is
  prepared. \<open>ct_artifacts\<close> is there when both the Git and the artifact port are.
\<close>

record ('st, 'w) control_ports =
  ct_base :: "('st, 'w) kernel_ports"
  ct_artifacts :: "('st, 'w) artifact_ports option"
  ct_getLatestByRunId :: "(string \<Rightarrow> ('w, WorkspaceManifest option) port) option"
  ct_validRun :: "PlatformRun \<Rightarrow> bool"
  ct_validTurn :: "PlatformTurn \<Rightarrow> bool"
  ct_validAttempt :: "string \<Rightarrow> bool"
  ct_openController :: "'w \<Rightarrow> 'w"
  ct_setPendingInterrupt :: "string option \<Rightarrow> 'w \<Rightarrow> 'w"
  ct_abort :: "string \<Rightarrow> 'w \<Rightarrow> 'w"
  ct_enqueueThreadInput :: "(string \<Rightarrow> nat \<Rightarrow> 'w \<Rightarrow> 'w) option"

record ('st, 'w) control_state = "('st, 'w) kernel_state" +
  tk_lifecycle :: bool
  tk_approvals :: bool
  tk_prepared :: bool
  tk_executing :: bool

type_synonym ('st, 'w, 'm, 'a) control_op = "(('st, 'w, 'm) control_state_scheme, js_error, 'a) op"

definition touchE :: "('w \<Rightarrow> 'w) \<Rightarrow> ('st, 'w, 'm, unit) tool_op" where
  "touchE f = worldE (\<lambda>w. ((), f w))"

section \<open>Preparing a turn\<close>

definition assertTurnIdentity :: "PlatformRun \<Rightarrow> PlatformTurn \<Rightarrow> js_error + unit" where
  "assertTurnIdentity run turn =
     (if pt_runId turn \<noteq> pr_id run \<or> pt_threadId turn \<noteq> pr_threadId run
      then Inl (kernel_error Kc_invalid_turn_identity (''Turn '' @ pt_id turn @ '' does not belong to run '' @ pr_id run))
      else Inr ())"

definition already_owned :: "PlatformTurn \<Rightarrow> js_error" where
  "already_owned turn = kernel_error Kc_turn_already_owned (''Turn '' @ pt_id turn @ '' already has a lifecycle coordinator'')"

definition assertTurnAvailable :: "PlatformTurn \<Rightarrow> ('st, 'w, 'm, unit) control_op" where
  "assertTurnAvailable turn =
     bindE (getE tk_lifecycle) (\<lambda>owned. if owned then throwE (already_owned turn) else returnE ())"

definition assertWorkspaceIdentity :: "PlatformRun \<Rightarrow> WorkspaceManifest \<Rightarrow> js_error + unit" where
  "assertWorkspaceIdentity run workspace =
     (if wm_workspaceId workspace \<noteq> pr_workspaceId run
      then Inl (kernel_error Kc_invalid_turn_identity
             (''Run '' @ pr_id run @ '' workspace does not match durable manifest truth''))
      else Inr ())"

definition lifecycle_options :: "('st, 'w) control_ports \<Rightarrow> StartTurnInput \<Rightarrow> 'st lc_options" where
  "lifecycle_options ct inp =
     (kp_lifecycle (ct_base ct))
       \<lparr>opt_threadId := pr_threadId (in_run inp), opt_turnId := pt_id (in_turn inp), opt_runAttemptId := in_runAttemptId inp,
        opt_executionCapability := pr_executionCapability (in_run inp), opt_revisionOfTurnId := pt_parentTurnId (in_turn inp),
        opt_continuationOfTurnId := in_continuationOfTurnId inp, opt_originalPromptId := in_originalPromptId inp\<rparr>"

definition requireWorkspace :: "('st, 'w) control_ports \<Rightarrow> StartTurnInput \<Rightarrow> ('st, 'w, 'm, WorkspaceManifest) control_op" where
  "requireWorkspace ct inp =
     (case ct_getLatestByRunId ct of
        None \<Rightarrow> throwE (kernel_error Kc_workspace_not_found ''Repository execution requires a workspace owner.'')
      | Some latest \<Rightarrow>
          bindE (portE (lifecycle_options ct inp) (latest (pr_id (in_run inp)))) (\<lambda>manifest.
          bindE (liftE (loadExecutableManifest (\<lambda>_. manifest) (pr_id (in_run inp)))) (\<lambda>workspace.
          bindE (liftE (assertWorkspaceIdentity (in_run inp) workspace)) (\<lambda>_.
          returnE workspace))))"

definition createArtifactSettlement ::
  "('st, 'w) control_ports \<Rightarrow> StartTurnInput \<Rightarrow> WorkspaceManifest \<Rightarrow> js_error + ('st, 'w) artifact_ports" where
  "createArtifactSettlement ct inp workspace =
     (case ct_artifacts ct of
        None \<Rightarrow> Inl (kernel_error Kc_turn_artifact_settlement_failed ''Repository execution requires Git and artifact owners.'')
      | Some ap \<Rightarrow> Inr (ap
          \<lparr>ap_lifecycle := lifecycle_options ct inp, ap_turnId := pt_id (in_turn inp), ap_runId := pr_id (in_run inp),
           ap_threadId := pr_threadId (in_run inp), ap_workspaceId := pr_workspaceId (in_run inp),
           ap_userId := pr_userId (in_run inp), ap_filesystemRoot := wm_filesystemRoot workspace\<rparr>))"

definition createLifecycle :: "PlatformTurn \<Rightarrow> ('st, 'w, 'm, unit) control_op" where
  "createLifecycle turn =
     bindE (assertTurnAvailable turn) (\<lambda>_.
     modifyE (\<lambda>s. s\<lparr>tx_lc := lc_init (pt_lastEventSequence turn) (lc_clock (tx_lc s)) (lc_sink (tx_lc s)), tk_lifecycle := True\<rparr>))"

definition prepared_ports ::
  "('st, 'w) control_ports \<Rightarrow> StartTurnInput \<Rightarrow> ('st, 'w) artifact_ports option \<Rightarrow> ('st, 'w) kernel_ports" where
  "prepared_ports ct inp artifacts =
     (ct_base ct)
       \<lparr>kp_tools := (kp_tools (ct_base ct))\<lparr>tp_lifecycle := lifecycle_options ct inp, tp_lastEventSequence := pt_lastEventSequence (in_turn inp)\<rparr>,
        kp_artifacts := artifacts, kp_turnId := pt_id (in_turn inp)\<rparr>"

record ('st, 'w) PreparedTurn =
  pd_ports :: "('st, 'w) kernel_ports"
  pd_triggers :: "string \<times> string"

text \<open>\<open>lifecycle.captureWorkspaceSnapshot(startArtifacts)\<close>: an \<open>undefined\<close> artifact is no JSON value.\<close>

definition start_snapshot_event ::
  "'st lc_options \<Rightarrow> (TurnWorkspaceSnapshot \<times> pval option) option \<Rightarrow> ('st, 'w, 'm, unit) control_op" where
  "start_snapshot_event env startArtifacts =
     (case startArtifacts of
        None \<Rightarrow> returnE ()
      | Some (snapshot, None) \<Rightarrow> throwE ZodError
      | Some (snapshot, Some artifact) \<Rightarrow>
          lcE (captureWorkspaceSnapshot env (PObj [(''snapshot'', snapshot_json snapshot), (''artifact'', artifact)])))"

definition artifact_setup ::
  "('st, 'w) control_ports \<Rightarrow> StartTurnInput \<Rightarrow>
     ('st, 'w, 'm, ('st, 'w) artifact_ports option \<times> (TurnWorkspaceSnapshot \<times> pval option) option) control_op" where
  "artifact_setup ct inp =
     (if pr_executionCapability (in_run inp) = Some ''conversation'' then returnE (None, None)
      else
        bindE (requireWorkspace ct inp) (\<lambda>workspace.
        bindE (liftE (createArtifactSettlement ct inp workspace)) (\<lambda>ap.
        bindE (begin_artifacts ap) (\<lambda>started.
        returnE (Some ap, Some started)))))"

definition start_lifecycle :: "('st, 'w) control_ports \<Rightarrow> StartTurnInput \<Rightarrow> (TurnWorkspaceSnapshot \<times> pval option) option \<Rightarrow>
     ('st, 'w, 'm, string \<times> string) control_op" where
  "start_lifecycle ct inp startArtifacts =
     bindE (createLifecycle (in_turn inp)) (\<lambda>_.
     bindE (modifyE (\<lambda>s. s\<lparr>tx_pending := [], tk_approvals := True\<rparr>)) (\<lambda>_.
     bindE (touchE (ct_openController ct)) (\<lambda>_.
     bindE (lcE (start (lifecycle_options ct inp))) (\<lambda>(turnStarted, runAttemptStarted).
     bindE (start_snapshot_event (lifecycle_options ct inp) startArtifacts) (\<lambda>_.
     returnE (eventId turnStarted, eventId runAttemptStarted))))))"

definition prepareTurn :: "('st, 'w) control_ports \<Rightarrow> StartTurnInput \<Rightarrow> ('st, 'w, 'm, ('st, 'w) PreparedTurn) control_op" where
  "prepareTurn ct inp =
     (if \<not> (ct_validRun ct (in_run inp) \<and> ct_validTurn ct (in_turn inp) \<and> ct_validAttempt ct (in_runAttemptId inp))
      then throwE ZodError
      else
        bindE (liftE (assertTurnIdentity (in_run inp) (in_turn inp))) (\<lambda>_.
        bindE (assertTurnAvailable (in_turn inp)) (\<lambda>_.
        bindE (artifact_setup ct inp) (\<lambda>(artifacts, startArtifacts).
        bindE (start_lifecycle ct inp startArtifacts) (\<lambda>triggers.
        returnE \<lparr>pd_ports = prepared_ports ct inp artifacts, pd_triggers = triggers\<rparr>)))))"

section \<open>Starting and interrupting a turn\<close>

definition interrupt_prepared :: "('st, 'w) kernel_ports \<Rightarrow> string \<Rightarrow> bool \<Rightarrow> ('st, 'w, 'm, unit) control_op" where
  "interrupt_prepared kp reason quiescent =
     finallyE (interruptPreparedTurn kp reason quiescent) (\<lambda>s. s\<lparr>tk_approvals := False\<rparr>)"

definition start_interrupted ::
  "('st, 'w) control_ports \<Rightarrow> ('st, 'w) PreparedTurn \<Rightarrow> string \<Rightarrow> ('st, 'w, 'm, StartTurnResult) control_op" where
  "start_interrupted ct prepared reason =
     bindE (touchE (ct_setPendingInterrupt ct None)) (\<lambda>_.
     bindE (interrupt_prepared (pd_ports prepared) reason True) (\<lambda>_.
     bindE (modifyE (\<lambda>s. s\<lparr>tk_prepared := False\<rparr>)) (\<lambda>_.
     returnE \<lparr>st_output = [], st_toolCallCount = 0\<rparr>)))"

definition execution_finally :: "('st, 'w, 'm) control_state_scheme \<Rightarrow> ('st, 'w, 'm) control_state_scheme" where
  "execution_finally s = s\<lparr>tk_approvals := False, tk_executing := False, tk_prepared := False\<rparr>"

definition startTurn ::
  "('st, 'w) control_ports \<Rightarrow> StartTurnInput \<Rightarrow> ('st, 'w, 'm) control_state_scheme \<Rightarrow>
     ((js_error + StartTurnResult) \<times> ('st, 'w, 'm) control_state_scheme) option" where
  "startTurn ct inp s =
     (case prepareTurn ct inp s of
        (Inl e, s1) \<Rightarrow> Some (Inl e, s1)
      | (Inr prepared, s1) \<Rightarrow>
          let s2 = s1\<lparr>tk_prepared := True\<rparr>; pendingReason = kp_pendingInterrupt (ct_base ct) (tx_world s2) in
          if truthy pendingReason then Some (start_interrupted ct prepared (the pendingReason) s2)
          else map_option (\<lambda>(r, s'). (r, execution_finally s'))
                 (executePreparedTurn (pd_ports prepared) (pd_triggers prepared) (s2\<lparr>tk_executing := True\<rparr>)))"

text \<open>The last part of \<open>interruptTurn\<close>: the turn is still open after the execution has been aborted.\<close>

definition interrupt_unsettled ::
  "('st, 'w) control_ports \<Rightarrow> ('st, 'w) kernel_ports \<Rightarrow> string \<Rightarrow> bool \<Rightarrow> ('st, 'w, 'm, unit) control_op" where
  "interrupt_unsettled ct kp reason executionSettled =
     bindE (getE (\<lambda>s. (isTerminal (tx_lc s), tk_prepared s))) (\<lambda>(settled, prepared).
     if settled then returnE ()
     else if \<not> prepared
     then throwE (kernel_error Kc_turn_not_active (''Turn '' @ kp_turnId kp @ '' has not reached runtime preparation''))
     else
       bindE (touchE (ct_setPendingInterrupt ct None)) (\<lambda>_.
       bindE (if executionSettled then kportE kp (kp_awaitQuiescence kp) else returnE False) (\<lambda>quiescent.
       interrupt_prepared kp reason quiescent)))"

text \<open>
  \<open>await\<close> is what happens while \<open>interruptTurn\<close> waits for the execution it has aborted, at most two seconds: the
  execution goes on, and it ends or the wait is given up with an error.
\<close>

definition interruptTurn ::
  "('st, 'w) control_ports \<Rightarrow> ('st, 'w) kernel_ports \<Rightarrow> string \<Rightarrow> ('st, 'w, 'm, unit) control_op \<Rightarrow> ('st, 'w, 'm, unit) control_op" where
  "interruptTurn ct kp reason await =
     bindE (getE (\<lambda>s. (tk_lifecycle s, isTerminal (tx_lc s)))) (\<lambda>(owned, terminal).
     if \<not> owned then throwE (kernel_error Kc_turn_not_active (''Turn '' @ kp_turnId kp @ '' is not owned by this runtime kernel''))
     else if terminal then returnE ()
     else
       bindE (touchE (\<lambda>w. ct_abort ct reason (ct_setPendingInterrupt ct (Some reason) w))) (\<lambda>_.
       bindE (getE tk_executing) (\<lambda>executing.
       bindE (if executing
              then catchE (bindE await (\<lambda>_. returnE True))
                     (\<lambda>err. bindE (getE (\<lambda>s. isTerminal (tx_lc s))) (\<lambda>settled.
                        if \<not> isTurnCancelled err \<and> \<not> settled then throwE err else returnE False))
              else returnE True) (\<lambda>executionSettled.
       interrupt_unsettled ct kp reason executionSettled))))"

definition isTurnReady :: "('st, 'w, 'm) control_state_scheme \<Rightarrow> bool" where
  "isTurnReady s \<longleftrightarrow> tk_lifecycle s \<and> tk_executing s"

definition requestInterruptBeforeStart :: "('st, 'w) control_ports \<Rightarrow> string \<Rightarrow> ('st, 'w, 'm, unit) control_op" where
  "requestInterruptBeforeStart ct reason = touchE (ct_setPendingInterrupt ct (Some reason))"

section \<open>Inputs, approvals and compaction of a running turn\<close>

text \<open>The provider gets the input when, and only when, it was appended now.\<close>

definition kernel_acceptThreadInput ::
  "('st, 'w) control_ports \<Rightarrow> ('st, 'w) kernel_ports \<Rightarrow> ThreadInput \<Rightarrow> ('st, 'w, 'm, nat) control_op" where
  "kernel_acceptThreadInput ct kp inp =
     bindE (getE (\<lambda>s. (tk_lifecycle s, map_of (lc_acceptedInputSequences (tx_lc s)) (ti_inputId inp)))) (\<lambda>(owned, existing).
     case (owned, ct_enqueueThreadInput ct) of
       (True, Some enqueue) \<Rightarrow>
         bindE (lcE (acceptThreadInput (kp_lifecycle kp) inp (\<lambda>_. Inr ()))) (\<lambda>acceptedSequence.
         bindE (touchE (if existing = None then enqueue (ti_inputId inp) acceptedSequence else id)) (\<lambda>_.
         returnE acceptedSequence))
     | _ \<Rightarrow> throwE (kernel_error Kc_turn_not_active (''Turn '' @ kp_turnId kp @ '' has no active model input owner'')))"

definition resolveApproval ::
  "('st, 'w) kernel_ports \<Rightarrow> string \<Rightarrow> ApprovalResolution \<Rightarrow> ('st, 'w, 'm, unit) control_op" where
  "resolveApproval kp a resolution =
     bindE (getE tk_approvals) (\<lambda>owned.
     if \<not> owned then throwE (kernel_error Kc_turn_not_active (''Turn '' @ kp_turnId kp @ '' is not owned by this runtime kernel''))
     else resolve (kp_lifecycle kp) a resolution)"

definition compactTurn :: "('st, 'w) kernel_ports \<Rightarrow> string \<Rightarrow> ('st, 'w, 'm, unit) control_op" where
  "compactTurn kp mode =
     bindE (getE (\<lambda>s. (tk_prepared s, rk_activeContext s, isTerminal (tx_lc s)))) (\<lambda>(prepared, ctx, terminal).
     case (prepared, ctx, terminal) of
       (True, Some c, False) \<Rightarrow> compactPreparedTurn kp c mode
     | _ \<Rightarrow> throwE (kernel_error Kc_turn_not_active (''Turn '' @ kp_turnId kp @ '' is not active in the runtime kernel'')))"

section \<open>Interrupts that return have settled the turn\<close>

lemma interrupt_prepared_ends: "wpE (interrupt_prepared kp reason q) (\<lambda>_ s'. isTerminal (tx_lc s')) (\<lambda>_ _. True) s"
  unfolding interrupt_prepared_def interruptPreparedTurn_def wpE_finally wpE_bind wpE_lcE
  by (simp add: wpE_free wpE_mono [OF settling_operations(1)])

text \<open>
  C4. An interrupt that returns has settled the turn: whatever the aborted execution does while the kernel waits for it,
  and whether it ends, fails or is given up, the turn is terminal when \<open>interruptTurn\<close> returns.
\<close>
theorem returned_interrupt_has_settled:
  assumes "interruptTurn ct kp reason await s = (Inr u, s')"
  shows "isTerminal (tx_lc s')"
proof -
  have "wpE (interrupt_unsettled ct kp reason q) (\<lambda>_ s'. isTerminal (tx_lc s')) (\<lambda>_ _. True) s1" for q s1
    unfolding interrupt_unsettled_def
    by (auto simp: wpE_bind [of "getE _"] wpE_get wpE_throw wpE_return intro!: wpE_bind_returns interrupt_prepared_ends)
  then have "wpE (interruptTurn ct kp reason await) (\<lambda>_ s'. isTerminal (tx_lc s')) (\<lambda>_ _. True) s"
    unfolding interruptTurn_def
    by (auto simp: wpE_bind [of "getE _"] wpE_get wpE_throw wpE_return intro!: wpE_bind_returns)
  then show ?thesis using assms by (simp add: wpE_def)
qed

section \<open>The kernel's entries for the turn\<close>

text \<open>A predicate on what extends the state of the tool layer is kept by everything that runs in that layer.\<close>

locale outer_predicate =
  fixes P :: "('st, 'w, 'm) tool_state_scheme \<Rightarrow> bool"
  assumes tool_fields_free: "P (s\<lparr>tx_lc := l\<rparr>) = P s" "P (s\<lparr>tx_pending := p\<rparr>) = P s" "P (s\<lparr>tx_world := w\<rparr>) = P s"
begin

lemma pending_update_free: "P (update_pending a f s) = P s"
  by (simp add: update_pending_def tool_fields_free split: option.split)

lemma outer_settle: "keeps P (settle env a rq r)"
proof -
  have "keeps P (start_settlement env a r)"
    by (simp add: keeps_def start_settlement_def lcE_def pending_update_free tool_fields_free split: prod.split)
  then show ?thesis unfolding settle_def by (intro keeps_rules)
qed

lemma outer_command: "keeps P (tool_exec env c)"
proof -
  have "keeps P (resolve_settle env a r)" for a r
    unfolding resolve_settle_def require_pending_def by (intro keeps_rules outer_settle)
  then show ?thesis
    by (cases c) (auto simp: resolve_def pending_update_free intro!: keeps_rules keeps_lcE keeps_modify tool_fields_free)
qed

lemma outer_wait: "keeps P (requestAndWait env wt ab par rq)"
proof -
  have "keeps P (await_decision env wt ab par i rq p)" for i p
    unfolding await_decision_def raceApprovalResolution_def Let_def
    by (intro keeps_rules keeps_lcE keeps_worldE outer_settle race_keeps outer_command tool_fields_free)
  then show ?thesis
    unfolding requestAndWait_def createPending_def Let_def
    by (intro keeps_rules keeps_finally keeps_modify) (simp_all add: tool_fields_free)
qed

end

sublocale outer_predicate \<subseteq> outer: tool_predicate env P for env
  by unfold_locales (simp_all add: tool_fields_free pending_update_free outer_settle outer_wait keeps_lcE)

interpretation entries: outer_predicate "\<lambda>s :: ('st, 'w, 'm) control_state_scheme. F (tk_lifecycle s, tk_prepared s, tk_executing s)" for F
  by unfold_locales simp_all

interpretation kernel_entries: kernel_predicate env
  "\<lambda>s :: ('st, 'w, 'm) control_state_scheme. F (tk_lifecycle s, tk_prepared s, tk_executing s)" for env F
  by unfold_locales simp_all

lemma touch_keeps: "(\<And>s w. P (s\<lparr>tx_world := w\<rparr>) = P s) \<Longrightarrow> keeps P (touchE f)"
  unfolding touchE_def by (rule keeps_worldE)

lemma setup_keeps_entries:
  "keeps (\<lambda>s. F (tk_lifecycle s, tk_prepared s, tk_executing s)) (artifact_setup ct inp)"
  unfolding artifact_setup_def requireWorkspace_def
  by (intro keeps_rules kernel_entries.port_keeps kernel_entries.artifacts_keep(1) [OF refl])

lemma setup_ports:
  "wpE (artifact_setup ct inp)
     (\<lambda>x _. \<forall>ap. fst x = Some ap \<longrightarrow> ap_lifecycle ap = lifecycle_options ct inp) (\<lambda>_ _. True) s"
proof -
  have "createArtifactSettlement ct inp ws = Inr ap \<Longrightarrow> ap_lifecycle ap = lifecycle_options ct inp" for ws ap
    by (auto simp: createArtifactSettlement_def split: option.splits)
  then show ?thesis
    unfolding artifact_setup_def
    by (cases "pr_executionCapability (in_run inp) = Some ''conversation''")
      (auto simp: wpE_return wpE_bind_returns intro!: wpE_bind_returns [of _ _ "requireWorkspace _ _"] wpE_bind_lift)
qed

lemma wpE_lcE_free: "(\<And>x l. Q x (s\<lparr>tx_lc := l\<rparr>)) \<Longrightarrow> (\<And>e l. E e (s\<lparr>tx_lc := l\<rparr>)) \<Longrightarrow> wpE (lcE m) Q E s"
  unfolding wpE_lcE by (rule wpE_free)

lemma start_lifecycle_entries:
  "wpE (start_lifecycle ct inp st) (\<lambda>_ s'. tk_lifecycle s' \<and> tk_prepared s' = tk_prepared s \<and> tk_executing s' = tk_executing s)
     (\<lambda>_ s'. tk_prepared s' = tk_prepared s \<and> tk_executing s' = tk_executing s) s"
proof -
  have event: "wpE (start_snapshot_event env st) (\<lambda>_ s'. tk_lifecycle s' \<and> tk_prepared s' = a \<and> tk_executing s' = b)
      (\<lambda>_ s'. tk_prepared s' = a \<and> tk_executing s' = b) s'"
    if "tk_lifecycle s'" "tk_prepared s' = a" "tk_executing s' = b" for env a b and s' :: "('a, 'b, 'c) control_state_scheme"
    using that unfolding start_snapshot_event_def
    by (auto simp: wpE_throw wpE_return split: option.split intro!: wpE_lcE_free)
  show ?thesis
    unfolding start_lifecycle_def createLifecycle_def assertTurnAvailable_def touchE_def
    by (cases "tk_lifecycle s")
      (auto simp: wpE_bind wpE_get wpE_throw wpE_return wpE_modify wpE_worldE intro!: wpE_lcE_free wpE_mono [OF event])
qed

text \<open>What preparing a turn leaves in the kernel, on success and on failure.\<close>

lemma prepareTurn_entries:
  "wpE (prepareTurn ct inp)
     (\<lambda>p s'. tk_lifecycle s' \<and> tk_prepared s' = tk_prepared s \<and> tk_executing s' = tk_executing s \<and>
        kp_lifecycle (pd_ports p) = lifecycle_options ct inp \<and>
        (\<forall>ap. kp_artifacts (pd_ports p) = Some ap \<longrightarrow> ap_lifecycle ap = lifecycle_options ct inp))
     (\<lambda>e s'. tk_prepared s' = tk_prepared s \<and> tk_executing s' = tk_executing s) s"
proof -
  let ?same = "\<lambda>s'. (tk_lifecycle s', tk_prepared s', tk_executing s') = (tk_lifecycle s, tk_prepared s, tk_executing s)"
  have ready: "wpE (artifact_setup ct inp)
      (\<lambda>x s'. (\<forall>ap. fst x = Some ap \<longrightarrow> ap_lifecycle ap = lifecycle_options ct inp) \<and> ?same s')
      (\<lambda>_ s'. True \<and> ?same s') s"
    by (rule wpE_conj [OF setup_ports keeps_wp [THEN iffD1, OF setup_keeps_entries
            [of "\<lambda>v. v = (tk_lifecycle s, tk_prepared s, tk_executing s)"], rule_format]]) simp
  show ?thesis
  proof (cases "ct_validRun ct (in_run inp) \<and> ct_validTurn ct (in_turn inp) \<and> ct_validAttempt ct (in_runAttemptId inp)")
    case True
    then show ?thesis
      unfolding prepareTurn_def
      by (auto simp: wp_simps assertTurnAvailable_def prepared_ports_def split: sum.split
          intro!: wpE_mono [OF ready] wpE_mono [OF start_lifecycle_entries])
  qed (auto simp: prepareTurn_def wpE_throw)
qed

lemma owned_start_refused: "tk_lifecycle s \<Longrightarrow> \<exists>e. prepareTurn ct inp s = (Inl e, s)"
  by (auto simp: prepareTurn_def assertTurnAvailable_def op_defs split: sum.split)

lemma start_interrupted_ends:
  "wpE (start_interrupted ct p reason) (\<lambda>_ s'. isTerminal (tx_lc s')) (\<lambda>_ _. True) s"
  unfolding start_interrupted_def
  by (rule wpE_bind_returns) (auto simp: wpE_bind wpE_modify wpE_return intro!: wpE_mono [OF interrupt_prepared_ends])

lemma start_interrupted_owned:
  assumes "\<forall>ap. kp_artifacts (pd_ports p) = Some ap \<longrightarrow> ap_lifecycle ap = kp_lifecycle (pd_ports p)"
  shows "keeps tk_lifecycle (start_interrupted ct p reason)"
  unfolding start_interrupted_def interrupt_prepared_def
  by (intro keeps_rules keeps_finally touch_keeps keeps_modify kernel_entries.failure_keeps(2) [where F = fst, simplified])
    (use assms in auto)

text \<open>
  C5. A turn that was started and answered is settled, and it is started once: it is terminal, it stays with the kernel,
  and every later start of it is refused and changes nothing.
\<close>
theorem answered_turn_is_settled_once:
  assumes "startTurn ct inp s = Some (Inr res, s')"
  shows "isTerminal (tx_lc s') \<and> tk_lifecycle s' \<and> (\<exists>e. startTurn ct inp' s' = Some (Inl e, s'))"
proof -
  obtain p s1 where prep: "prepareTurn ct inp s = (Inr p, s1)"
    using assms by (auto simp: startTurn_def split: prod.splits sum.splits)
  with prepareTurn_entries [of ct inp s] have owned: "tk_lifecycle s1"
    and turn: "kp_lifecycle (pd_ports p) = lifecycle_options ct inp"
      "\<forall>ap. kp_artifacts (pd_ports p) = Some ap \<longrightarrow> ap_lifecycle ap = lifecycle_options ct inp"
    by (auto simp: wpE_def)
  let ?s2 = "s1\<lparr>tk_prepared := True\<rparr>"
  have kept: "isTerminal (tx_lc s') \<and> tk_lifecycle s'"
  proof (cases "truthy (kp_pendingInterrupt (ct_base ct) (tx_world s1))")
    case True
    then have run: "start_interrupted ct p (the (kp_pendingInterrupt (ct_base ct) (tx_world s1))) ?s2 = (Inr res, s')"
      using assms prep by (simp add: startTurn_def)
    show ?thesis
      using start_interrupted_ends [of ct p "the (kp_pendingInterrupt (ct_base ct) (tx_world s1))" ?s2]
        keepsD [OF start_interrupted_owned, of p ?s2 ct "the (kp_pendingInterrupt (ct_base ct) (tx_world s1))"] run owned turn
      by (simp add: wpE_def)
  next
    case False
    then obtain s3 where run: "executePreparedTurn (pd_ports p) (pd_triggers p) (?s2\<lparr>tk_executing := True\<rparr>) = Some (Inr res, s3)"
      and s': "s' = execution_finally s3"
      using assms prep by (auto simp: startTurn_def)
    have "isTerminal (tx_lc s3)"
    proof (cases "isTerminal (tx_lc s1)")
      case True
      then show ?thesis using run by (auto simp: executePreparedTurn_def)
    next
      case False
      then have "settled_outcome (pd_ports p) (Inr res, s3)" using execution_settles [OF run] by simp
      then show ?thesis by (simp add: settled_outcome_def isTerminal_def)
    qed
    moreover have "tk_lifecycle s3"
      using kernel_entries.execution_keeps [OF run, of _ fst] turn owned by simp
    ultimately show ?thesis by (simp add: s' execution_finally_def)
  qed
  moreover have "\<exists>e. startTurn ct inp' s' = Some (Inl e, s')"
    using owned_start_refused [of s' ct inp'] kept by (auto simp: startTurn_def)
  ultimately show ?thesis by blast
qed

text \<open>
  C31. A preparation that fails after the lifecycle was created cannot be repaired: the turn may be running on record,
  but it is never prepared, so a second start is refused because the turn is owned, and an interrupt throws without
  settling anything.
\<close>
theorem failed_preparation_cannot_be_settled:
  assumes "prepareTurn ct inp s = (Inl e, s1)" and "\<not> tk_lifecycle s" and "\<not> tk_prepared s" and "\<not> tk_executing s"
    and "tk_lifecycle s1" and "\<not> isTerminal (tx_lc s1)"
  shows "startTurn ct inp s1 = Some (Inl (already_owned (in_turn inp)), s1) \<and>
    (\<exists>e2 s2. interruptTurn ct kp reason await s1 = (Inl e2, s2) \<and> tx_lc s2 = tx_lc s1)"
proof
  have valid: "ct_validRun ct (in_run inp) \<and> ct_validTurn ct (in_turn inp) \<and> ct_validAttempt ct (in_runAttemptId inp)"
    and identity: "assertTurnIdentity (in_run inp) (in_turn inp) = Inr ()"
    using assms(1,2,5) by (auto simp: prepareTurn_def op_defs split: if_splits sum.splits)
  show "startTurn ct inp s1 = Some (Inl (already_owned (in_turn inp)), s1)"
    using valid identity assms(5) by (simp add: startTurn_def prepareTurn_def assertTurnAvailable_def op_defs)
  have "\<not> tk_prepared s1" "\<not> tk_executing s1"
    using prepareTurn_entries [of ct inp s] assms(1,3,4) by (simp_all add: wpE_def)
  then show "\<exists>e2 s2. interruptTurn ct kp reason await s1 = (Inl e2, s2) \<and> tx_lc s2 = tx_lc s1"
    using assms(5,6) by (simp add: interruptTurn_def interrupt_unsettled_def touchE_def worldE_def op_defs)
qed

section \<open>Sample turns\<close>

text \<open>A conversation turn, and a repository turn whose store answers \<open>undefined\<close> for the start snapshot.\<close>

definition sample_input :: "string \<Rightarrow> StartTurnInput" where
  "sample_input capability =
     \<lparr>in_run = \<lparr>pr_id = ''run_1'', pr_threadId = ''thr_1'', pr_userId = ''usr_1'', pr_workspaceId = ''wsp_1'',
        pr_executionCapability = Some capability\<rparr>,
      in_turn = \<lparr>pt_id = ''trn_1'', pt_threadId = ''thr_1'', pt_runId = ''run_1'', pt_parentTurnId = None,
        pt_lastEventSequence = 0\<rparr>,
      in_runAttemptId = ''att_1'', in_continuationOfTurnId = None, in_originalPromptId = None\<rparr>"

definition sample_manifest :: WorkspaceManifest where
  "sample_manifest =
     \<lparr>wm_runId = ''run_1'', wm_workspaceId = ''wsp_1'', wm_repoOwner = ''o'', wm_repoName = ''r'', wm_repoUrl = ''u'',
      wm_baseBranch = ''main'', wm_workingBranch = ''w'', wm_baseSha = ''b'', wm_headSha = ''h'', wm_executionLocation = ''local'',
      wm_workerId = ''wrk_1'', wm_filesystemRoot = ''/work'', wm_artifactNamespace = ''n'', wm_permissionProfileId = ''p'',
      wm_state = Ws_ready, wm_lastError = None, wm_createdAt = ''now'', wm_updatedAt = ''now''\<rparr>"

definition sample_control :: "string option \<Rightarrow> (unit, unit) control_ports" where
  "sample_control pending =
     \<lparr>ct_base = (sample_kernel [])\<lparr>kp_pendingInterrupt := \<lambda>w. pending\<rparr>, ct_artifacts = Some (sample_artifacts []),
      ct_getLatestByRunId = Some (\<lambda>run w. (([], Inr (Some sample_manifest)), w)),
      ct_validRun = \<lambda>_. True, ct_validTurn = \<lambda>_. True, ct_validAttempt = \<lambda>_. True, ct_openController = id,
      ct_setPendingInterrupt = \<lambda>_ w. w, ct_abort = \<lambda>_ w. w, ct_enqueueThreadInput = None\<rparr>"

definition idle_state :: "(unit, unit) control_state" where
  "idle_state =
     \<lparr>tx_lc = lc_init 0 0 (), tx_pending = [], tx_world = (), ta_startSnapshot = None, ta_startSnapshotArtifact = None,
      ta_settlement = None, rk_emission = None, rk_activeContext = None, rk_compacted = False, rk_automaticCompaction = False,
      tk_lifecycle = False, tk_approvals = False, tk_prepared = False, tk_executing = False\<rparr>"

lemmas control_eval =
  prepareTurn_def assertTurnIdentity_def assertTurnAvailable_def artifact_setup_def start_lifecycle_def createLifecycle_def
  touchE_def start_snapshot_event_def prepared_ports_def lifecycle_options_def start_def optional_entry_def
  sample_input_def sample_control_def idle_state_def

lemmas repository_eval =
  requireWorkspace_def loadExecutableManifest_def EXECUTABLE_STATES_def assertWorkspaceIdentity_def
  createArtifactSettlement_def begin_artifacts_def sample_manifest_def

lemma failed_preparation_cannot_be_settled_witness:
  "\<exists>e s1. prepareTurn (sample_control None) (sample_input ''repository'') idle_state = (Inl e, s1) \<and>
     lc_status (tx_lc s1) = Ts_in_progress \<and>
     startTurn (sample_control None) (sample_input ''repository'') s1 =
       Some (Inl (already_owned (in_turn (sample_input ''repository''))), s1)"
proof -
  have "\<exists>e s1. prepareTurn (sample_control None) (sample_input ''repository'') idle_state = (Inl e, s1) \<and>
      lc_status (tx_lc s1) = Ts_in_progress \<and> tk_lifecycle s1"
    by (simp add: control_eval repository_eval kernel_eval finish_eval open_eval)
  then obtain e s1 where run: "prepareTurn (sample_control None) (sample_input ''repository'') idle_state = (Inl e, s1)"
    and s1: "lc_status (tx_lc s1) = Ts_in_progress" "tk_lifecycle s1" by blast
  have "\<not> isTerminal (tx_lc s1)" using s1(1) by (simp add: isTerminal_def)
  from failed_preparation_cannot_be_settled [OF run _ _ _ s1(2) this] run s1 show ?thesis by (simp add: idle_state_def)
qed

lemma answered_turn_is_settled_once_witness:
  "\<exists>res s'. startTurn (sample_control (Some ''stop'')) (sample_input ''conversation'') idle_state = Some (Inr res, s') \<and>
     isTerminal (tx_lc s')"
proof -
  have "\<exists>res s'. startTurn (sample_control (Some ''stop'')) (sample_input ''conversation'') idle_state = Some (Inr res, s')"
    by (simp add: startTurn_def start_interrupted_def interrupt_prepared_def interruptPreparedTurn_def interrupt_def
        cancelPendingApprovals_def settleOpenWork_def control_eval kernel_eval finish_eval open_eval)
  then obtain res s' where run: "startTurn (sample_control (Some ''stop'')) (sample_input ''conversation'') idle_state = Some (Inr res, s')"
    by blast
  from answered_turn_is_settled_once [OF run] run show ?thesis by simp
qed

lemma returned_interrupt_has_settled_witness:
  "\<exists>s'. interruptTurn (sample_control None) ((sample_kernel [])\<lparr>kp_artifacts := None\<rparr>) ''stop'' (throwE turn_cancelled_error)
     (idle_state\<lparr>tx_lc := tx_lc running_state, tk_lifecycle := True, tk_prepared := True, tk_executing := True\<rparr>) = (Inr (), s') \<and>
   isTerminal (tx_lc s')"
proof -
  let ?s = "idle_state\<lparr>tx_lc := tx_lc running_state, tk_lifecycle := True, tk_prepared := True, tk_executing := True\<rparr>"
  have "\<exists>s'. interruptTurn (sample_control None) ((sample_kernel [])\<lparr>kp_artifacts := None\<rparr>) ''stop'' (throwE turn_cancelled_error) ?s =
      (Inr (), s')"
    by (simp add: interruptTurn_def interrupt_unsettled_def interrupt_prepared_def interruptPreparedTurn_def interrupt_def
        turn_cancelled_error_def kernel_error_def isTurnCancelled_def
        cancelPendingApprovals_def settleOpenWork_def control_eval kernel_eval finish_eval open_eval)
  then obtain s' where run: "interruptTurn (sample_control None) ((sample_kernel [])\<lparr>kp_artifacts := None\<rparr>) ''stop''
      (throwE turn_cancelled_error) ?s = (Inr (), s')" by blast
  from returned_interrupt_has_settled [OF run] run show ?thesis by blast
qed

end
