(* ===== verification/Client_Continuation.thy ===== *)
theory Client_Continuation
  imports Lifecycle_Store
begin

text \<open>
  How a client follows the lifecycle stream of a turn, packages/platform-client-sdk/src/platform: the errors of a
  client operation (errors.ts), the ordering state (lifecycle-ordering.ts), the generator that replays the stored pages
  and then polls for live events (lifecycle-continuation.ts), and the client methods that start it (client.ts). The
  transport, the abort signal, the timer and the code that consumes the generator are ports over a world \<open>'w\<close>.
\<close>

section \<open>Errors of a client operation\<close>

datatype (plugins only: code size) PlatformClientOperationErrorCode =
    Oc_protocol ProtocolErrorCode
  | Oc_ABORTED | Oc_NETWORK_ERROR | Oc_INVALID_REQUEST_CONTRACT | Oc_INVALID_RESPONSE_CONTRACT
  | Oc_INVALID_RESPONSE_FORMAT | Oc_INVALID_ERROR_RESPONSE | Oc_API_ERROR | Oc_UNKNOWN_OPERATION_ERROR

datatype (plugins only: code size) LifecycleContinuationErrorCode =
    Lifecycle_turn_mismatch | Lifecycle_sequence_gap | Lifecycle_sequence_regression

datatype contract_phase = Phase_request | Phase_response

text \<open>
  The values a client operation may throw. \<open>OtherError\<close> is any further \<open>Error\<close>, with its name and message;
  \<open>ThrownRecord\<close> an object that is no \<open>Error\<close>, \<open>ThrownText\<close> a string and \<open>ThrownOther\<close> any other value.
\<close>

datatype (plugins only: code size) client_error =
    LifecycleContinuationError LifecycleContinuationErrorCode string "nat option" "nat option"
  | PlatformClientOperationError PlatformClientOperationErrorCode string bool "string option" "nat option"
  | PlatformClientContractError contract_phase string string
  | OtherError string string
  | ThrownRecord "(string \<times> client_error) list"
  | ThrownText string
  | ThrownOther

primrec error_name :: "client_error \<Rightarrow> string option" where
  "error_name (LifecycleContinuationError c m x r) = Some ''LifecycleContinuationError''"
| "error_name (PlatformClientOperationError c m r i st) = Some ''PlatformClientOperationError''"
| "error_name (PlatformClientContractError ph operation m) = Some ''PlatformClientContractError''"
| "error_name (OtherError n m) = Some n"
| "error_name (ThrownRecord r) = None"
| "error_name (ThrownText t) = None"
| "error_name ThrownOther = None"

primrec getErrorMessage :: "client_error \<Rightarrow> string" where
  "getErrorMessage (LifecycleContinuationError c m x r) = m"
| "getErrorMessage (PlatformClientOperationError c m r i st) = m"
| "getErrorMessage (PlatformClientContractError ph operation m) = m"
| "getErrorMessage (OtherError n m) = m"
| "getErrorMessage (ThrownRecord r) = ''Platform operation failed''"
| "getErrorMessage (ThrownText t) = (if length t > 0 then t else ''Platform operation failed'')"
| "getErrorMessage ThrownOther = ''Platform operation failed''"

definition isAbortError :: "client_error \<Rightarrow> bool" where
  "isAbortError e \<longleftrightarrow> error_name e = Some ''AbortError''"

definition isNetworkError :: "client_error \<Rightarrow> bool" where
  "isNetworkError e =
     (if error_name e = None then False
      else if error_name e = Some ''TypeError'' then True
      else let message = toLowerCase (getErrorMessage e) in
        str_includes message ''network'' \<or> str_includes message ''failed to fetch'')"

definition fromProtocolError :: "ProtocolError \<Rightarrow> nat option \<Rightarrow> client_error" where
  "fromProtocolError e statusCode =
     PlatformClientOperationError (Oc_protocol (pe_code e)) (pe_message e) (pe_retryable e) (pe_correlationId e) statusCode"

text \<open>\<open>schema\<close> is \<open>ProtocolErrorSchema.safeParse\<close>; an \<open>Error\<close> has no field \<open>error\<close>, and no schema accepts \<open>undefined\<close>.\<close>

primrec raw_error_field :: "client_error \<Rightarrow> client_error option" where
  "raw_error_field (ThrownRecord r) = map_of r ''error''"
| "raw_error_field (LifecycleContinuationError c m x r) = None"
| "raw_error_field (PlatformClientOperationError c m r i st) = None"
| "raw_error_field (PlatformClientContractError ph operation m) = None"
| "raw_error_field (OtherError n m) = None"
| "raw_error_field (ThrownText t) = None"
| "raw_error_field ThrownOther = None"

definition parseProtocolErrorEnvelope :: "(client_error \<Rightarrow> ProtocolError option) \<Rightarrow> client_error \<Rightarrow> ProtocolError option" where
  "parseProtocolErrorEnvelope schema err =
     (case schema err of
        Some e \<Rightarrow> Some e
      | None \<Rightarrow> (case raw_error_field err of None \<Rightarrow> None | Some nested \<Rightarrow> schema nested))"

primrec is_operation_error :: "client_error \<Rightarrow> bool" where
  "is_operation_error (PlatformClientOperationError c m r i st) = True"
| "is_operation_error (LifecycleContinuationError c m x r) = False"
| "is_operation_error (PlatformClientContractError ph operation m) = False"
| "is_operation_error (OtherError n m) = False"
| "is_operation_error (ThrownRecord r) = False"
| "is_operation_error (ThrownText t) = False"
| "is_operation_error ThrownOther = False"

definition normalizePlatformClientOperationError ::
  "(client_error \<Rightarrow> ProtocolError option) \<Rightarrow> client_error \<Rightarrow> string \<Rightarrow> client_error" where
  "normalizePlatformClientOperationError schema err operation =
     (if is_operation_error err then err
      else case parseProtocolErrorEnvelope schema err of
        Some protocolError \<Rightarrow> fromProtocolError protocolError None
      | None \<Rightarrow>
          if isAbortError err then PlatformClientOperationError Oc_ABORTED ''Operation aborted'' True None (Some 0)
          else if isNetworkError err
            then PlatformClientOperationError Oc_NETWORK_ERROR (operation @ '': '' @ getErrorMessage err) True None (Some 0)
          else PlatformClientOperationError Oc_UNKNOWN_OPERATION_ERROR (operation @ '': '' @ getErrorMessage err) False None (Some 500))"

text \<open>The codes as the wire spells them.\<close>

primrec protocol_code_name :: "ProtocolErrorCode \<Rightarrow> string" where
  "protocol_code_name Pc_validation_failed = ''validation_failed''"
| "protocol_code_name Pc_unauthorized = ''unauthorized''"
| "protocol_code_name Pc_forbidden = ''forbidden''"
| "protocol_code_name Pc_not_found = ''not_found''"
| "protocol_code_name Pc_conflict = ''conflict''"
| "protocol_code_name Pc_rate_limited = ''rate_limited''"
| "protocol_code_name Pc_provider_unavailable = ''provider_unavailable''"
| "protocol_code_name Pc_model_unavailable = ''model_unavailable''"
| "protocol_code_name Pc_worker_unavailable = ''worker_unavailable''"
| "protocol_code_name Pc_workspace_prepare_failed = ''workspace_prepare_failed''"
| "protocol_code_name Pc_command_failed = ''command_failed''"
| "protocol_code_name Pc_command_timed_out = ''command_timed_out''"
| "protocol_code_name Pc_command_cancelled = ''command_cancelled''"
| "protocol_code_name Pc_file_not_found = ''file_not_found''"
| "protocol_code_name Pc_path_denied = ''path_denied''"
| "protocol_code_name Pc_artifact_upload_failed = ''artifact_upload_failed''"
| "protocol_code_name Pc_git_command_failed = ''git_command_failed''"
| "protocol_code_name Pc_capability_unsupported = ''capability_unsupported''"
| "protocol_code_name Pc_tool_unavailable_in_backend = ''tool_unavailable_in_backend''"
| "protocol_code_name Pc_policy_denied = ''policy_denied''"
| "protocol_code_name Pc_approval_required = ''approval_required''"
| "protocol_code_name Pc_illegal_lifecycle_transition = ''illegal_lifecycle_transition''"
| "protocol_code_name Pc_internal_error = ''internal_error''"

definition protocol_codes :: "ProtocolErrorCode list" where
  "protocol_codes =
     [Pc_validation_failed, Pc_unauthorized, Pc_forbidden, Pc_not_found, Pc_conflict, Pc_rate_limited,
      Pc_provider_unavailable, Pc_model_unavailable, Pc_worker_unavailable, Pc_workspace_prepare_failed,
      Pc_command_failed, Pc_command_timed_out, Pc_command_cancelled, Pc_file_not_found, Pc_path_denied,
      Pc_artifact_upload_failed, Pc_git_command_failed, Pc_capability_unsupported, Pc_tool_unavailable_in_backend,
      Pc_policy_denied, Pc_approval_required, Pc_illegal_lifecycle_transition, Pc_internal_error]"

definition transport_codes :: "(string \<times> PlatformClientOperationErrorCode) list" where
  "transport_codes =
     [(''ABORTED'', Oc_ABORTED), (''NETWORK_ERROR'', Oc_NETWORK_ERROR),
      (''INVALID_REQUEST_CONTRACT'', Oc_INVALID_REQUEST_CONTRACT), (''INVALID_RESPONSE_CONTRACT'', Oc_INVALID_RESPONSE_CONTRACT),
      (''INVALID_RESPONSE_FORMAT'', Oc_INVALID_RESPONSE_FORMAT), (''INVALID_ERROR_RESPONSE'', Oc_INVALID_ERROR_RESPONSE),
      (''API_ERROR'', Oc_API_ERROR), (''UNKNOWN_OPERATION_ERROR'', Oc_UNKNOWN_OPERATION_ERROR)]"

definition parsePlatformOperationErrorCode :: "string \<Rightarrow> PlatformClientOperationErrorCode" where
  "parsePlatformOperationErrorCode name =
     (case List.find (\<lambda>c. protocol_code_name c = name) protocol_codes of
        Some c \<Rightarrow> Oc_protocol c
      | None \<Rightarrow> (case map_of transport_codes name of Some c \<Rightarrow> c | None \<Rightarrow> Oc_UNKNOWN_OPERATION_ERROR))"

section \<open>The ordering of the events\<close>

record LifecycleOrderingState =
  os_turnId :: string
  os_currentSequence :: nat
  os_eventIds :: "string set"
  os_idempotencyKeys :: "string set"

definition createLifecycleOrderingState :: "string \<Rightarrow> nat option \<Rightarrow> LifecycleOrderingState" where
  "createLifecycleOrderingState t afterSequence =
     \<lparr>os_turnId = t, os_currentSequence = (case afterSequence of None \<Rightarrow> 0 | Some n \<Rightarrow> n),
      os_eventIds = {}, os_idempotencyKeys = {}\<rparr>"

type_synonym 'a ordering_op = "(LifecycleOrderingState, client_error, 'a) op"

definition assertTurn :: "LifecycleEvent \<Rightarrow> unit ordering_op" where
  "assertTurn ev =
     bindE (getE os_turnId) (\<lambda>t.
     if turnId ev \<noteq> t
     then throwE (LifecycleContinuationError Lifecycle_turn_mismatch
            (''Received lifecycle event for '' @ turnId ev @ ''; expected '' @ t) None (Some (sequence ev)))
     else returnE ())"

definition acceptDuplicateOrThrow :: "LifecycleEvent \<Rightarrow> bool ordering_op" where
  "acceptDuplicateOrThrow ev =
     bindE (getE id) (\<lambda>s.
     if eventId ev \<in> os_eventIds s \<or> idempotencyKey ev \<in> os_idempotencyKeys s then returnE False
     else throwE (LifecycleContinuationError Lifecycle_sequence_regression
            (''Received unknown lifecycle event at sequence '' @ string_of_nat (sequence ev))
            (Some (os_currentSequence s + 1)) (Some (sequence ev))))"

definition assertNext :: "LifecycleEvent \<Rightarrow> unit ordering_op" where
  "assertNext ev =
     bindE (getE (\<lambda>s. os_currentSequence s + 1)) (\<lambda>expected.
     if sequence ev \<noteq> expected
     then throwE (LifecycleContinuationError Lifecycle_sequence_gap
            (''Expected lifecycle sequence '' @ string_of_nat expected @ ''; received '' @ string_of_nat (sequence ev))
            (Some expected) (Some (sequence ev)))
     else returnE ())"

definition remember :: "LifecycleEvent \<Rightarrow> unit ordering_op" where
  "remember ev = modifyE (\<lambda>s. s\<lparr>os_eventIds := insert (eventId ev) (os_eventIds s),
     os_idempotencyKeys := insert (idempotencyKey ev) (os_idempotencyKeys s)\<rparr>)"

definition accept :: "LifecycleEvent \<Rightarrow> bool ordering_op" where
  "accept ev =
     bindE (assertTurn ev) (\<lambda>_.
     bindE (getE os_currentSequence) (\<lambda>current.
     if sequence ev \<le> current then acceptDuplicateOrThrow ev
     else
       bindE (assertNext ev) (\<lambda>_.
       bindE (remember ev) (\<lambda>_.
       bindE (modifyE (\<lambda>s. s\<lparr>os_currentSequence := sequence ev\<rparr>)) (\<lambda>_.
       returnE True)))))"

lemmas accept_defs = accept_def assertTurn_def acceptDuplicateOrThrow_def assertNext_def remember_def op_defs


section \<open>Requests and ports\<close>

record ReplayLifecycleEventsRequest =
  rq_turnId :: string
  rq_afterSequence :: "nat option"
  rq_limit :: "nat option"

record ReplayLifecycleEventsResponse =
  rp_events :: "LifecycleEvent list"
  rp_nextSequence :: "nat option"

record FollowLifecycleRequest =
  fr_turnId :: string
  fr_afterSequence :: "nat option"
  fr_replayLimit :: "nat option"

datatype continuation_status = Cs_replaying | Cs_following | Cs_reconnecting

text \<open>
  \<open>fp_replay\<close> is the \<open>replay\<close> of the continuation input, \<open>fp_aborted\<close> the state of the signal, \<open>fp_timer\<close> the wait of a
  delay until its timeout or the abort, \<open>fp_status\<close> the caller's \<open>onLifecycleContinuationStatus\<close> and \<open>fp_consume\<close> what
  happens while the generator is suspended at a \<open>yield\<close>. The callbacks do not throw.
\<close>

record 'w follow_ports =
  fp_replay :: "ReplayLifecycleEventsRequest \<Rightarrow> ('w, client_error, ReplayLifecycleEventsResponse) op"
  fp_aborted :: "'w \<Rightarrow> bool"
  fp_timer :: "nat \<Rightarrow> 'w \<Rightarrow> 'w"
  fp_status :: "continuation_status \<Rightarrow> 'w \<Rightarrow> 'w"
  fp_consume :: "LifecycleEvent \<Rightarrow> 'w \<Rightarrow> 'w"

text \<open>\<open>fs_yielded\<close> are the events the generator has yielded so far.\<close>

record 'w follow_state =
  fs_order :: LifecycleOrderingState
  fs_yielded :: "LifecycleEvent list"
  fs_world :: 'w

type_synonym ('w, 'a) follow_op = "('w follow_state, client_error, 'a) op"

definition at_world :: "('w \<Rightarrow> 'w) \<Rightarrow> ('w, unit) follow_op" where
  "at_world f = modifyE (\<lambda>s. s\<lparr>fs_world := f (fs_world s)\<rparr>)"

definition is_aborted :: "'w follow_ports \<Rightarrow> 'w follow_state \<Rightarrow> bool" where
  "is_aborted fp s = fp_aborted fp (fs_world s)"

definition call_replay ::
  "'w follow_ports \<Rightarrow> ReplayLifecycleEventsRequest \<Rightarrow> ('w, ReplayLifecycleEventsResponse) follow_op" where
  "call_replay fp request s =
     (case fp_replay fp request (fs_world s) of (r, w) \<Rightarrow> (r, s\<lparr>fs_world := w\<rparr>))"

definition report :: "'w follow_ports \<Rightarrow> continuation_status \<Rightarrow> ('w, unit) follow_op" where
  "report fp status = at_world (fp_status fp status)"

definition yieldE :: "'w follow_ports \<Rightarrow> LifecycleEvent \<Rightarrow> ('w, unit) follow_op" where
  "yieldE fp ev = modifyE (\<lambda>s. s\<lparr>fs_yielded := fs_yielded s @ [ev], fs_world := fp_consume fp ev (fs_world s)\<rparr>)"

definition acceptE :: "LifecycleEvent \<Rightarrow> ('w, bool) follow_op" where
  "acceptE ev s = (case accept ev (fs_order s) of (r, o') \<Rightarrow> (r, s\<lparr>fs_order := o'\<rparr>))"

definition delay :: "'w follow_ports \<Rightarrow> nat \<Rightarrow> ('w, unit) follow_op" where
  "delay fp ms =
     bindE (getE (is_aborted fp)) (\<lambda>aborted. if aborted then returnE () else at_world (fp_timer fp ms))"

section \<open>Retrying\<close>

definition DEFAULT_POLL_INTERVAL_MS :: nat where
  "DEFAULT_POLL_INTERVAL_MS = 500"

definition MAX_RETRY_DELAY_MS :: nat where
  "MAX_RETRY_DELAY_MS = 2000"

text \<open>The set also names \<open>MISSING_RUN_ID\<close>, which is no code of an operation error.\<close>

definition NON_RETRYABLE_LIFECYCLE_ERROR_CODES :: "PlatformClientOperationErrorCode list" where
  "NON_RETRYABLE_LIFECYCLE_ERROR_CODES =
     [Oc_ABORTED, Oc_INVALID_REQUEST_CONTRACT, Oc_INVALID_RESPONSE_CONTRACT, Oc_INVALID_RESPONSE_FORMAT,
      Oc_INVALID_ERROR_RESPONSE, Oc_protocol Pc_unauthorized, Oc_protocol Pc_forbidden,
      Oc_protocol Pc_validation_failed, Oc_protocol Pc_not_found, Oc_protocol Pc_conflict,
      Oc_protocol Pc_model_unavailable, Oc_protocol Pc_capability_unsupported,
      Oc_protocol Pc_tool_unavailable_in_backend, Oc_protocol Pc_policy_denied, Oc_protocol Pc_approval_required,
      Oc_protocol Pc_illegal_lifecycle_transition, Oc_protocol Pc_path_denied, Oc_protocol Pc_file_not_found,
      Oc_protocol Pc_command_failed, Oc_protocol Pc_command_cancelled]"

fun isRetryableLifecycleTransportError :: "client_error \<Rightarrow> bool" where
  "isRetryableLifecycleTransportError (PlatformClientOperationError code m retryable i statusCode) =
     (if \<not> retryable \<or> statusCode = Some 401 \<or> statusCode = Some 403 \<or>
         code \<in> set NON_RETRYABLE_LIFECYCLE_ERROR_CODES then False
      else if code = Oc_UNKNOWN_OPERATION_ERROR
        then statusCode = Some 429 \<or> (case statusCode of None \<Rightarrow> 0 | Some n \<Rightarrow> n) \<ge> 500
      else True)"
| "isRetryableLifecycleTransportError e = False"

definition retry_delay :: "nat \<Rightarrow> nat" where
  "retry_delay attempt = min (DEFAULT_POLL_INTERVAL_MS * 2 ^ attempt) MAX_RETRY_DELAY_MS"

definition replay_aborted_error :: client_error where
  "replay_aborted_error = PlatformClientOperationError Oc_ABORTED ''Lifecycle replay was aborted'' False None None"

definition reconnect :: "'w follow_ports \<Rightarrow> nat \<Rightarrow> ('w, unit) follow_op" where
  "reconnect fp attempt = bindE (report fp Cs_reconnecting) (\<lambda>_. delay fp (retry_delay attempt))"

partial_function (option) replayLifecycleEventsWithRetry ::
  "'w follow_ports \<Rightarrow> ReplayLifecycleEventsRequest \<Rightarrow> nat \<Rightarrow> 'w follow_state \<Rightarrow>
     ((client_error + ReplayLifecycleEventsResponse) \<times> 'w follow_state) option" where
  "replayLifecycleEventsWithRetry fp request attempt s =
     (if is_aborted fp s then Some (Inl replay_aborted_error, s)
      else case call_replay fp request s of
          (Inr response, s') \<Rightarrow> Some (Inr response, s')
        | (Inl e, s') \<Rightarrow>
            if is_aborted fp s' \<or> \<not> isRetryableLifecycleTransportError e then Some (Inl e, s')
            else replayLifecycleEventsWithRetry fp request (attempt + 1) (snd (reconnect fp (attempt + 1) s')))"

section \<open>Following a turn\<close>

definition page_request :: "FollowLifecycleRequest \<Rightarrow> 'w follow_state \<Rightarrow> ReplayLifecycleEventsRequest" where
  "page_request fr s =
     \<lparr>rq_turnId = fr_turnId fr, rq_afterSequence = Some (os_currentSequence (fs_order s)), rq_limit = fr_replayLimit fr\<rparr>"

definition accept_page :: "'w follow_ports \<Rightarrow> LifecycleEvent list \<Rightarrow> ('w, unit) follow_op" where
  "accept_page fp evs = forE evs (\<lambda>ev. bindE (acceptE ev) (\<lambda>ok. whenE ok (yieldE fp ev)))"

definition stalled_error :: "'w follow_state \<Rightarrow> ReplayLifecycleEventsResponse \<Rightarrow> client_error" where
  "stalled_error s response =
     LifecycleContinuationError Lifecycle_sequence_regression
       ''Lifecycle replay page did not advance the sequence cursor''
       (Some (os_currentSequence (fs_order s) + 1)) (rp_nextSequence response)"

partial_function (option) replay_pages ::
  "'w follow_ports \<Rightarrow> FollowLifecycleRequest \<Rightarrow> 'w follow_state \<Rightarrow>
     ((client_error + unit) \<times> 'w follow_state) option" where
  "replay_pages fp fr s =
     (case replayLifecycleEventsWithRetry fp (page_request fr s) 0 s of
        None \<Rightarrow> None
      | Some (Inl e, s') \<Rightarrow> Some (Inl e, s')
      | Some (Inr response, s') \<Rightarrow>
          (case accept_page fp (rp_events response) s' of
             (Inl e, s'') \<Rightarrow> Some (Inl e, s'')
           | (Inr _, s'') \<Rightarrow>
               if length (rp_events response) = 0 then Some (Inr (), s'')
               else if (case fr_replayLimit fr of None \<Rightarrow> True | Some limit \<Rightarrow> length (rp_events response) < limit)
                 then Some (Inr (), s'')
               else if os_currentSequence (fs_order s'') > os_currentSequence (fs_order s) then replay_pages fp fr s''
               else Some (Inl (stalled_error s'' response), s'')))"

definition replayPaged ::
  "'w follow_ports \<Rightarrow> FollowLifecycleRequest \<Rightarrow> 'w follow_state \<Rightarrow>
     ((client_error + unit) \<times> 'w follow_state) option" where
  "replayPaged fp fr s = replay_pages fp fr (snd (report fp Cs_replaying s))"

text \<open>One page of live events: whether the terminal event was yielded, and whether any event was new.\<close>

primrec poll_page :: "'w follow_ports \<Rightarrow> LifecycleEvent list \<Rightarrow> bool \<Rightarrow> ('w, bool \<times> bool) follow_op" where
  "poll_page fp [] hasNew = returnE (False, hasNew)"
| "poll_page fp (ev # evs) hasNew =
     bindE (acceptE ev) (\<lambda>ok.
     if ok then
       bindE (yieldE fp ev) (\<lambda>_.
       if terminal_event_type (etype ev) then bindE (report fp Cs_following) (\<lambda>_. returnE (True, True))
       else poll_page fp evs True)
     else poll_page fp evs hasNew)"

text \<open>One turn of the polling loop: \<open>None\<close> when the generator returns, otherwise the next value of \<open>attempt\<close>.\<close>

definition poll_step :: "'w follow_ports \<Rightarrow> FollowLifecycleRequest \<Rightarrow> nat \<Rightarrow> ('w, nat option) follow_op" where
  "poll_step fp fr attempt =
     catchE
       (bindE (getE (page_request fr)) (\<lambda>request.
        bindE (call_replay fp request) (\<lambda>response.
        bindE (report fp Cs_following) (\<lambda>_.
        bindE (poll_page fp (rp_events response) False) (\<lambda>(terminal, hasNew).
        if terminal then returnE None
        else bindE (delay fp DEFAULT_POLL_INTERVAL_MS) (\<lambda>_. returnE (Some (if hasNew then 0 else attempt))))))))
       (\<lambda>e. bindE (getE (is_aborted fp)) (\<lambda>aborted.
        if aborted then returnE None
        else if isRetryableLifecycleTransportError e
          then bindE (reconnect fp (attempt + 1)) (\<lambda>_. returnE (Some (attempt + 1)))
        else throwE e))"

partial_function (option) poll_loop ::
  "'w follow_ports \<Rightarrow> FollowLifecycleRequest \<Rightarrow> nat \<Rightarrow> 'w follow_state \<Rightarrow>
     ((client_error + unit) \<times> 'w follow_state) option" where
  "poll_loop fp fr attempt s =
     (if is_aborted fp s then Some (Inr (), s)
      else case poll_step fp fr attempt s of
          (Inl e, s') \<Rightarrow> Some (Inl e, s')
        | (Inr nxt, s') \<Rightarrow>
            (case nxt of None \<Rightarrow> Some (Inr (), s') | Some attempt' \<Rightarrow> poll_loop fp fr attempt' s'))"

definition pollLiveEvents ::
  "'w follow_ports \<Rightarrow> FollowLifecycleRequest \<Rightarrow> 'w follow_state \<Rightarrow>
     ((client_error + unit) \<times> 'w follow_state) option" where
  "pollLiveEvents fp fr s = poll_loop fp fr 0 (snd (report fp Cs_following s))"

definition followLifecycleEvents ::
  "'w follow_ports \<Rightarrow> FollowLifecycleRequest \<Rightarrow> 'w \<Rightarrow> ((client_error + unit) \<times> 'w follow_state) option" where
  "followLifecycleEvents fp fr w =
     (let s = \<lparr>fs_order = createLifecycleOrderingState (fr_turnId fr) (fr_afterSequence fr), fs_yielded = [], fs_world = w\<rparr> in
      case replayPaged fp fr s of
        None \<Rightarrow> None
      | Some (Inl e, s') \<Rightarrow> Some (Inl e, s')
      | Some (Inr _, s') \<Rightarrow>
          if list_ex (\<lambda>ev. terminal_event_type (etype ev)) (fs_yielded s')
          then Some (Inr (), snd (report fp Cs_following s'))
          else pollLiveEvents fp fr s')"

section \<open>The client\<close>

text \<open>
  \<open>tr_replay\<close> is the transport's operation, whose payload \<open>'p\<close> is unknown until the response schema accepts it; the
  schemas are run by the schema library.
\<close>

record ('p, 'w) client_transport =
  tr_replay :: "ReplayLifecycleEventsRequest \<Rightarrow> ('w, client_error, 'p) op"
  tr_protocolError :: "client_error \<Rightarrow> ProtocolError option"
  tr_parseReplayRequest :: "ReplayLifecycleEventsRequest \<Rightarrow> ReplayLifecycleEventsRequest option"
  tr_parseReplayResponse :: "'p \<Rightarrow> ReplayLifecycleEventsResponse option"
  tr_parseFollowRequest :: "FollowLifecycleRequest \<Rightarrow> FollowLifecycleRequest option"

primrec phase_name :: "contract_phase \<Rightarrow> string" where
  "phase_name Phase_request = ''request''"
| "phase_name Phase_response = ''response''"

definition parseContract :: "('x \<Rightarrow> 'y option) \<Rightarrow> contract_phase \<Rightarrow> string \<Rightarrow> 'x \<Rightarrow> client_error + 'y" where
  "parseContract schema phase operation v =
     (case schema v of
        None \<Rightarrow> Inl (PlatformClientContractError phase operation
                 (''Invalid '' @ phase_name phase @ '' contract for '' @ operation))
      | Some parsed \<Rightarrow> Inr parsed)"

definition invoke :: "('p, 'w) client_transport \<Rightarrow> string \<Rightarrow> ('w, client_error, 'a) op \<Rightarrow> ('w, client_error, 'a) op" where
  "invoke tr operation run =
     catchE run (\<lambda>e. throwE (normalizePlatformClientOperationError (tr_protocolError tr) e operation))"

definition client_replayLifecycleEvents ::
  "('p, 'w) client_transport \<Rightarrow> ReplayLifecycleEventsRequest \<Rightarrow> ('w, client_error, ReplayLifecycleEventsResponse) op" where
  "client_replayLifecycleEvents tr request =
     bindE (liftE (parseContract (tr_parseReplayRequest tr) Phase_request ''replayLifecycleEvents'' request)) (\<lambda>normalized.
     bindE (invoke tr ''replayLifecycleEvents'' (tr_replay tr normalized)) (\<lambda>data.
     liftE (parseContract (tr_parseReplayResponse tr) Phase_response ''replayLifecycleEvents'' data)))"

definition followTurnLifecycle ::
  "('p, 'w) client_transport \<Rightarrow> 'w follow_ports \<Rightarrow> FollowLifecycleRequest \<Rightarrow> 'w \<Rightarrow>
     (client_error + (client_error + unit) \<times> 'w follow_state) option" where
  "followTurnLifecycle tr fp request w =
     (case parseContract (tr_parseFollowRequest tr) Phase_request ''followTurnLifecycle'' request of
        Inl e \<Rightarrow> Some (Inl e)
      | Inr normalized \<Rightarrow>
          map_option Inr
            (followLifecycleEvents (fp\<lparr>fp_replay := client_replayLifecycleEvents tr\<rparr>) normalized w))"

end
