(* ===== verification/Client_Following.thy ===== *)
theory Client_Following
  imports Client_Continuation
begin

text \<open>
  What a client sees that follows a turn, whatever the transport answers: the yielded events are events of the turn, in
  sequence order and without a gap.
\<close>

section \<open>What is retried\<close>

lemma operation_error_codes: "parsePlatformOperationErrorCode (protocol_code_name c) = Oc_protocol c"
  by (cases c) (simp_all add: parsePlatformOperationErrorCode_def protocol_codes_def)

text \<open>
  A failure of the transport that carries no protocol error is retried exactly when it is a network failure and not an
  abort; one that carries a protocol error is retried exactly when the server marks it retryable and its code is none of
  those that a retry cannot mend.
\<close>
theorem retried_failures:
  assumes "\<not> is_operation_error err"
  shows "isRetryableLifecycleTransportError (normalizePlatformClientOperationError schema err operation) \<longleftrightarrow>
    (case parseProtocolErrorEnvelope schema err of
       None \<Rightarrow> isNetworkError err \<and> \<not> isAbortError err
     | Some e \<Rightarrow> pe_retryable e \<and> Oc_protocol (pe_code e) \<notin> set NON_RETRYABLE_LIFECYCLE_ERROR_CODES)"
  using assms
  by (auto simp: normalizePlatformClientOperationError_def fromProtocolError_def NON_RETRYABLE_LIFECYCLE_ERROR_CODES_def split: option.splits)

lemma retried_failures_witness:
  "isRetryableLifecycleTransportError (normalizePlatformClientOperationError (\<lambda>_. None) (OtherError ''TypeError'' ''fetch failed'') ''replay'')"
  using retried_failures [of "OtherError ''TypeError'' ''fetch failed''" "\<lambda>_. None" "''replay''"]
  by (simp add: parseProtocolErrorEnvelope_def isNetworkError_def isAbortError_def)

section \<open>Order, whatever the transport answers\<close>

definition follow_ordered :: "string \<Rightarrow> nat \<Rightarrow> 'w follow_state \<Rightarrow> bool" where
  "follow_ordered t after s \<longleftrightarrow>
     os_turnId (fs_order s) = t \<and> list_all (\<lambda>ev. turnId ev = t) (fs_yielded s) \<and>
     map sequence (fs_yielded s) = [Suc after..<Suc after + length (fs_yielded s)] \<and>
     os_currentSequence (fs_order s) = after + length (fs_yielded s)"

lemma accept_yield_ordered: "keeps (follow_ordered t after) (bindE (acceptE ev) (\<lambda>ok. whenE ok (yieldE fp ev)))"
  by (auto simp: keeps_def follow_ordered_def acceptE_def yieldE_def accept_defs)

lemma world_ordered [keeps_rules]: "keeps (follow_ordered t after) (at_world f)"
  by (auto simp: keeps_def follow_ordered_def at_world_def op_defs)

lemma report_ordered [keeps_rules]: "keeps (follow_ordered t after) (report fp status)"
  unfolding report_def by (rule world_ordered)

lemma delay_ordered [keeps_rules]: "keeps (follow_ordered t after) (delay fp ms)"
  unfolding delay_def by (intro keeps_rules)

lemma reconnect_ordered [keeps_rules]: "keeps (follow_ordered t after) (reconnect fp n)"
  unfolding reconnect_def by (intro keeps_rules)

lemma call_replay_ordered [keeps_rules]: "keeps (follow_ordered t after) (call_replay fp rq)"
  by (auto simp: keeps_def follow_ordered_def call_replay_def split: prod.splits)

lemma accept_page_ordered [keeps_rules]: "keeps (follow_ordered t after) (accept_page fp evs)"
  unfolding accept_page_def by (intro keeps_rules accept_yield_ordered)

lemma poll_accept_ordered:
  assumes "\<And>s. follow_ordered t after s \<Longrightarrow> follow_ordered t after (snd (m s))"
    and "\<And>s. follow_ordered t after s \<Longrightarrow> follow_ordered t after (snd (n s))"
  shows "keeps (follow_ordered t after) (bindE (acceptE ev) (\<lambda>ok. if ok then bindE (yieldE fp ev) (\<lambda>_. m) else n))"
proof (rule keepsI)
  fix s :: "'a follow_state"
  assume s: "follow_ordered t after s"
  have "follow_ordered t after (snd (bindE (acceptE ev) (\<lambda>ok. whenE ok (yieldE fp ev)) s))"
    by (rule keepsD [OF accept_yield_ordered s])
  then show "follow_ordered t after (snd (bindE (acceptE ev) (\<lambda>ok. if ok then bindE (yieldE fp ev) (\<lambda>_. m) else n) s))"
    using assms by (auto simp: bindE_def whenE_def returnE_def yieldE_def modifyE_def split: prod.splits sum.splits if_splits)
qed

lemma poll_page_ordered [keeps_rules]: "keeps (follow_ordered t after) (poll_page fp evs hasNew)"
proof (induction evs arbitrary: hasNew)
  case (Cons ev evs)
  have "keeps (follow_ordered t after) (bindE (report fp Cs_following) (\<lambda>_. returnE (True, True)))"
    by (intro keeps_rules)
  then show ?case
    unfolding poll_page.simps by (intro poll_accept_ordered) (auto intro: keepsD Cons.IH)
qed (simp add: keeps_return)

lemma poll_step_ordered: "keeps (follow_ordered t after) (poll_step fp fr n)"
  unfolding poll_step_def by (intro keeps_rules)

lemma retry_ordered:
  assumes "replayLifecycleEventsWithRetry fp rq n s = Some y" and "follow_ordered t after s"
  shows "follow_ordered t after (snd y)"
proof -
  have "follow_ordered t after s \<longrightarrow> follow_ordered t after (snd y)"
  proof (rule replayLifecycleEventsWithRetry.raw_induct [OF _ assms(1), where P = "\<lambda>fp rq n s y. follow_ordered t after s \<longrightarrow> follow_ordered t after (snd y)"])
    fix f :: "'a follow_ports \<Rightarrow> ReplayLifecycleEventsRequest \<Rightarrow> nat \<Rightarrow> 'a follow_state \<Rightarrow> ((client_error + ReplayLifecycleEventsResponse) \<times> 'a follow_state) option"
      and fp rq n s y
    assume rec: "\<And>fp rq n s y. f fp rq n s = Some y \<Longrightarrow> follow_ordered t after s \<longrightarrow> follow_ordered t after (snd y)"
      and body: "(if is_aborted fp s then Some (Inl replay_aborted_error, s)
        else case call_replay fp rq s of (Inl e, s') \<Rightarrow> if is_aborted fp s' \<or> \<not> isRetryableLifecycleTransportError e then Some (Inl e, s')
            else f fp rq (n + 1) (snd (reconnect fp (n + 1) s'))
          | (Inr response, s') \<Rightarrow> Some (Inr response, s')) = Some y"
    show "follow_ordered t after s \<longrightarrow> follow_ordered t after (snd y)"
    proof
      assume s: "follow_ordered t after s"
      obtain r s' where call: "call_replay fp rq s = (r, s')" by force
      have s': "follow_ordered t after s'" using keepsD [OF call_replay_ordered s] call by (metis snd_conv)
      have "follow_ordered t after (snd (reconnect fp (n + 1) s'))" by (rule keepsD [OF reconnect_ordered s'])
      with s s' call body rec [of fp rq "n + 1" "snd (reconnect fp (n + 1) s')" y] show "follow_ordered t after (snd y)"
        by (cases r; cases y) (auto split: if_splits)
    qed
  qed
  with assms(2) show ?thesis by blast
qed

lemma replay_pages_ordered:
  assumes "replay_pages fp fr s = Some y" and "follow_ordered t after s"
  shows "follow_ordered t after (snd y)"
proof -
  have "follow_ordered t after s \<longrightarrow> follow_ordered t after (snd y)"
  proof (rule replay_pages.raw_induct [OF _ assms(1), where P = "\<lambda>fp fr s y. follow_ordered t after s \<longrightarrow> follow_ordered t after (snd y)"],
      intro impI)
    fix f :: "'a follow_ports \<Rightarrow> FollowLifecycleRequest \<Rightarrow> 'a follow_state \<Rightarrow> ((client_error + unit) \<times> 'a follow_state) option"
      and fp fr s y
    assume rec: "\<And>fp fr s y. f fp fr s = Some y \<Longrightarrow> follow_ordered t after s \<longrightarrow> follow_ordered t after (snd y)"
      and s: "follow_ordered t after s"
      and body: "(case replayLifecycleEventsWithRetry fp (page_request fr s) 0 s of None \<Rightarrow> None
        | Some (Inl e, s') \<Rightarrow> Some (Inl e, s')
        | Some (Inr response, s') \<Rightarrow>
            (case accept_page fp (rp_events response) s' of (Inl e, s'') \<Rightarrow> Some (Inl e, s'')
            | (Inr _, s'') \<Rightarrow>
                if length (rp_events response) = 0 then Some (Inr (), s'')
                else if (case fr_replayLimit fr of None \<Rightarrow> True | Some limit \<Rightarrow> length (rp_events response) < limit) then Some (Inr (), s'')
                else if os_currentSequence (fs_order s'') > os_currentSequence (fs_order s) then f fp fr s''
                else Some (Inl (stalled_error s'' response), s''))) = Some y"
    obtain r s' where call: "replayLifecycleEventsWithRetry fp (page_request fr s) 0 s = Some (r, s')"
      using body by (auto split: option.splits)
    have s': "follow_ordered t after s'" using retry_ordered [OF call s] by simp
    show "follow_ordered t after (snd y)"
    proof (cases r)
      case (Inr response)
      obtain r2 s2 where page: "accept_page fp (rp_events response) s' = (r2, s2)" by force
      have "follow_ordered t after s2" using keepsD [OF accept_page_ordered s'] page by (metis snd_conv)
      then show ?thesis using rec [of fp fr s2 y] call Inr page body by (cases r2; cases y) (auto split: if_splits)
    qed (use call s' body in auto)
  qed
  with assms(2) show ?thesis by blast
qed

lemma poll_loop_ordered:
  assumes "poll_loop fp fr n s = Some y" and "follow_ordered t after s"
  shows "follow_ordered t after (snd y)"
proof -
  have "follow_ordered t after s \<longrightarrow> follow_ordered t after (snd y)"
  proof (rule poll_loop.raw_induct [OF _ assms(1), where P = "\<lambda>fp fr n s y. follow_ordered t after s \<longrightarrow> follow_ordered t after (snd y)"],
      intro impI)
    fix f :: "'a follow_ports \<Rightarrow> FollowLifecycleRequest \<Rightarrow> nat \<Rightarrow> 'a follow_state \<Rightarrow> ((client_error + unit) \<times> 'a follow_state) option"
      and fp fr n s y
    assume rec: "\<And>fp fr n s y. f fp fr n s = Some y \<Longrightarrow> follow_ordered t after s \<longrightarrow> follow_ordered t after (snd y)"
      and s: "follow_ordered t after s"
      and body: "(if is_aborted fp s then Some (Inr (), s)
        else case poll_step fp fr n s of (Inl e, s') \<Rightarrow> Some (Inl e, s')
          | (Inr nxt, s') \<Rightarrow> (case nxt of None \<Rightarrow> Some (Inr (), s') | Some attempt' \<Rightarrow> f fp fr attempt' s')) = Some y"
    obtain r s' where step: "poll_step fp fr n s = (r, s')" by force
    have "follow_ordered t after s'" using keepsD [OF poll_step_ordered s] step by (metis snd_conv)
    then show "follow_ordered t after (snd y)"
      using s step body rec [of fp fr _ s' y] by (cases r; cases y) (auto split: if_splits option.splits)
  qed
  with assms(2) show ?thesis by blast
qed

definition cursor :: "FollowLifecycleRequest \<Rightarrow> nat" where
  "cursor fr = (case fr_afterSequence fr of None \<Rightarrow> 0 | Some n \<Rightarrow> n)"

text \<open>
  Whatever the transport answers, when the generator has ended (by returning, or with an error) the events it yielded
  belong to the requested turn and carry the sequence numbers directly after the cursor, in order and without a gap.
\<close>
theorem followed_events_in_order:
  assumes "followLifecycleEvents fp fr w = Some (r, s)"
  shows "list_all (\<lambda>ev. turnId ev = fr_turnId fr) (fs_yielded s) \<and>
    map sequence (fs_yielded s) = [Suc (cursor fr)..<Suc (cursor fr) + length (fs_yielded s)]"
proof -
  let ?P = "\<lambda>s :: 'a follow_state. follow_ordered (fr_turnId fr) (cursor fr) s"
  let ?s = "\<lparr>fs_order = createLifecycleOrderingState (fr_turnId fr) (fr_afterSequence fr), fs_yielded = [], fs_world = w\<rparr>"
  have report: "?P (snd (report fp st s))" if "?P s" for st s by (rule keepsD [OF report_ordered that])
  have "?P ?s" by (simp add: follow_ordered_def createLifecycleOrderingState_def cursor_def)
  then have init: "?P (snd (report fp Cs_replaying ?s))" by (rule report)
  obtain r1 s1 where replay: "replay_pages fp fr (snd (report fp Cs_replaying ?s)) = Some (r1, s1)"
    using assms by (auto simp: followLifecycleEvents_def replayPaged_def split: option.splits)
  have s1: "?P s1" using replay_pages_ordered [OF replay init] by simp
  have "?P s"
  proof (cases "r1 = Inr () \<and> \<not> list_ex (\<lambda>ev. terminal_event_type (etype ev)) (fs_yielded s1)")
    case True
    then have "poll_loop fp fr 0 (snd (report fp Cs_following s1)) = Some (r, s)"
      using assms replay by (auto simp: followLifecycleEvents_def replayPaged_def pollLiveEvents_def)
    from poll_loop_ordered [OF this report [OF s1]] show ?thesis by simp
  next
    case False
    then show ?thesis using assms replay s1 report [OF s1, of Cs_following]
      by (cases r1) (auto simp: followLifecycleEvents_def replayPaged_def)
  qed
  then show ?thesis by (simp add: follow_ordered_def)
qed



definition sample_event :: "nat \<Rightarrow> LifecycleEventType \<Rightarrow> LifecycleEvent" where
  "sample_event n e =
     \<lparr>eventId = ''evt_'' @ string_of_nat n, threadId = ''thr'', turnId = ''trn'', runAttemptId = ''att'', sequence = n,
      idempotencyKey = string_of_nat n, producerId = ''kernel'', schemaVersion = 1, createdAt = ''now'', etype = e,
      itemId = None, toolCallId = None, approvalId = None, payload = []\<rparr>"

definition sample_ports :: "unit follow_ports" where
  "sample_ports =
     \<lparr>fp_replay = (\<lambda>rq w. (Inr \<lparr>rp_events = [sample_event 4 E_run_attempt_failed, sample_event 5 E_turn_failed], rp_nextSequence = Some 5\<rparr>, w)),
      fp_aborted = (\<lambda>w. False), fp_timer = (\<lambda>ms w. w), fp_status = (\<lambda>status w. w), fp_consume = (\<lambda>ev w. w)\<rparr>"

definition sample_cursor :: FollowLifecycleRequest where
  "sample_cursor = \<lparr>fr_turnId = ''trn'', fr_afterSequence = Some 3, fr_replayLimit = None\<rparr>"

lemma bind_run: "m s = (Inr x, s') \<Longrightarrow> bindE m f s = f x s'"
  by (simp add: bindE_def)

lemma sample_event_fields:
  "turnId (sample_event n e) = ''trn''" "sequence (sample_event n e) = n" "etype (sample_event n e) = e"
  by (simp_all add: sample_event_def)

lemma sample_retry:
  "replayLifecycleEventsWithRetry sample_ports rq n s =
     Some (Inr \<lparr>rp_events = [sample_event 4 E_run_attempt_failed, sample_event 5 E_turn_failed], rp_nextSequence = Some 5\<rparr>, s)"
  by (subst replayLifecycleEventsWithRetry.simps) (simp add: is_aborted_def call_replay_def sample_ports_def)

lemma sample_accept:
  assumes "os_turnId (fs_order s) = ''trn''" and "Suc (os_currentSequence (fs_order s)) = n"
  shows "\<exists>s'. bindE (acceptE (sample_event n e)) (\<lambda>ok. whenE ok (yieldE sample_ports (sample_event n e))) s = (Inr (), s') \<and>
    os_turnId (fs_order s') = ''trn'' \<and> os_currentSequence (fs_order s') = n \<and> fs_yielded s' = fs_yielded s @ [sample_event n e]"
  using assms by (auto simp: acceptE_def yieldE_def accept_defs sample_event_fields)

lemma followed_events_in_order_witness:
  "\<exists>s. followLifecycleEvents sample_ports sample_cursor () = Some (Inr (), s) \<and> map sequence (fs_yielded s) = [4, 5]"
proof -
  let ?s = "\<lparr>fs_order = createLifecycleOrderingState ''trn'' (Some 3), fs_yielded = [], fs_world = ()\<rparr>"
  let ?page = "[sample_event 4 E_run_attempt_failed, sample_event 5 E_turn_failed]"
  have report: "snd (report sample_ports st s) = s" for st s by (simp add: report_def at_world_def modifyE_def)
  obtain s1 where s1: "bindE (acceptE (sample_event 4 E_run_attempt_failed)) (\<lambda>ok. whenE ok (yieldE sample_ports (sample_event 4 E_run_attempt_failed))) ?s = (Inr (), s1)"
    "os_turnId (fs_order s1) = ''trn''" "os_currentSequence (fs_order s1) = 4" "fs_yielded s1 = [sample_event 4 E_run_attempt_failed]"
    using sample_accept [of ?s 4 E_run_attempt_failed] by (auto simp: createLifecycleOrderingState_def)
  obtain s2 where s2: "bindE (acceptE (sample_event 5 E_turn_failed)) (\<lambda>ok. whenE ok (yieldE sample_ports (sample_event 5 E_turn_failed))) s1 = (Inr (), s2)"
    "fs_yielded s2 = ?page"
    using sample_accept [of s1 5 E_turn_failed] s1 by auto
  have page: "accept_page sample_ports ?page ?s = (Inr (), s2)"
    using s1(1) s2(1) by (simp only: accept_page_def forE.simps bind_run returnE_def)
  have "replay_pages sample_ports sample_cursor ?s = Some (Inr (), s2)"
    by (subst replay_pages.simps) (simp add: sample_retry page sample_cursor_def)
  then have s: "followLifecycleEvents sample_ports sample_cursor () = Some (Inr (), s2)"
    using s2(2) by (simp add: followLifecycleEvents_def replayPaged_def report sample_cursor_def sample_event_fields terminal_event_type_def)
  have "map sequence (fs_yielded s2) = [4, 5]"
    using followed_events_in_order [OF s] s2(2) by (simp add: sample_cursor_def cursor_def)
  then show ?thesis by (intro exI [of _ s2] conjI s)
qed

end
