(* ===== verification/Client_Server.thy ===== *)
theory Client_Server
  imports Client_Following
begin

text \<open>
  Following a turn to its end: over a server that answers with pages of a growing stream and fails only for a while, the
  client yields exactly the stream after its cursor and returns at the terminal event. The laws of such a server are the
  locale \<open>lifecycle_server\<close>; it is interpreted for the memory store of the lifecycle events, to which others append.
\<close>

section \<open>A server with a growing stream\<close>

definition ended :: "LifecycleEvent list \<Rightarrow> bool" where
  "ended evs \<longleftrightarrow> evs \<noteq> [] \<and> terminal_event_type (etype (last evs))"

lemma contiguous_terminal_last:
  assumes "contiguous_stream t evs" and "n < length evs" and "terminal_event_type (etype (evs ! n))"
  shows "Suc n = length evs"
proof (rule ccontr)
  assume "Suc n \<noteq> length evs"
  with assms(2) have "n < length (butlast evs)" by simp
  then have "\<not> terminal_event_type (etype (butlast evs ! n))"
    using assms(1) by (simp add: contiguous_stream_def list_all_length)
  with assms(3) \<open>n < length (butlast evs)\<close> show False by (simp add: nth_butlast)
qed

lemma contiguous_nth:
  assumes "contiguous_stream t evs" and "n < length evs"
  shows "sequence (evs ! n) = Suc n" "turnId (evs ! n) = t"
proof -
  have "map sequence evs ! n = [1..<Suc (length evs)] ! n" using assms(1) by (simp add: contiguous_stream_def)
  then show "sequence (evs ! n) = Suc n" using assms(2) by (simp del: upt_Suc)
  show "turnId (evs ! n) = t" using assms by (simp add: contiguous_stream_def list_all_length)
qed

lemma contiguous_no_extension:
  assumes "contiguous_stream t evs'" and "prefix evs evs'" and "ended evs"
  shows "evs' = evs"
proof -
  obtain zs where zs: "evs' = evs @ zs" using assms(2) by (auto simp: prefix_def)
  have "evs \<noteq> []" "terminal_event_type (etype (evs' ! (length evs - 1)))"
    using assms(3) zs by (auto simp: ended_def last_conv_nth nth_append)
  then have "Suc (length evs - 1) = length evs'" using zs by (intro contiguous_terminal_last [OF assms(1)]) (auto simp: neq_Nil_conv)
  with zs \<open>evs \<noteq> []\<close> show ?thesis by simp
qed

text \<open>
  \<open>slog\<close> is the stored stream of the turn, which other parties extend while the client works. \<open>rank\<close> bounds the
  failures and extensions still to come: whatever happens does not raise it, and it falls when a request fails, when
  the stream grows, and while a client waits for a stream that has not ended.
\<close>

locale lifecycle_server =
  fixes fp :: "'w follow_ports" and t :: string and limit :: "nat option"
    and slog :: "'w \<Rightarrow> LifecycleEvent list" and rank :: "'w \<Rightarrow> nat" and ok :: "'w \<Rightarrow> bool" and advances :: "'w \<Rightarrow> 'w \<Rightarrow> bool"
  assumes advances_def: "advances w w' \<longleftrightarrow>
      ok w' \<and> prefix (slog w) (slog w') \<and> rank w' \<le> rank w \<and> (rank w' = rank w \<longrightarrow> slog w' = slog w)"
    and stream: "ok w \<Longrightarrow> contiguous_stream t (slog w)"
    and not_aborted: "ok w \<Longrightarrow> \<not> fp_aborted fp w"
    and status_advances: "ok w \<Longrightarrow> advances w (fp_status fp status w)"
    and consume_advances: "ok w \<Longrightarrow> advances w (fp_consume fp ev w)"
    and timer_advances: "ok w \<Longrightarrow> advances w (fp_timer fp ms w)"
    and timer_progress: "ok w \<Longrightarrow> \<not> ended (slog w) \<Longrightarrow> rank (fp_timer fp ms w) < rank w"
    and replay_advances: "ok w \<Longrightarrow> n \<le> length (slog w) \<Longrightarrow>
      fp_replay fp \<lparr>rq_turnId = t, rq_afterSequence = Some n, rq_limit = limit\<rparr> w = (r, w') \<Longrightarrow> advances w w'"
    and replay_fails: "ok w \<Longrightarrow> n \<le> length (slog w) \<Longrightarrow>
      fp_replay fp \<lparr>rq_turnId = t, rq_afterSequence = Some n, rq_limit = limit\<rparr> w = (Inl e, w') \<Longrightarrow>
      isRetryableLifecycleTransportError e \<and> rank w' < rank w"
    and replay_answers: "ok w \<Longrightarrow> n \<le> length (slog w) \<Longrightarrow>
      fp_replay fp \<lparr>rq_turnId = t, rq_afterSequence = Some n, rq_limit = limit\<rparr> w = (Inr response, w') \<Longrightarrow>
      \<exists>k > 0. rp_events response = take k (drop n (slog w'))"
begin

lemma advances_refl: "ok w \<Longrightarrow> advances w w"
  by (simp add: advances_def)

lemma advances_trans: "advances w1 w2 \<Longrightarrow> advances w2 w3 \<Longrightarrow> advances w1 w3"
  by (auto simp: advances_def)

lemma advances_ok: "advances w w' \<Longrightarrow> ok w'"
  by (simp add: advances_def)

lemma ended_stays: "advances w w' \<Longrightarrow> ended (slog w) \<Longrightarrow> slog w' = slog w"
  using contiguous_no_extension [OF stream] unfolding advances_def by blast

text \<open>The client has yielded the stream from its cursor on to \<open>os_currentSequence\<close>.\<close>

definition following :: "nat \<Rightarrow> 'w follow_state \<Rightarrow> bool" where
  "following after s \<longleftrightarrow> ok (fs_world s) \<and> os_turnId (fs_order s) = t \<and>
     after \<le> os_currentSequence (fs_order s) \<and> os_currentSequence (fs_order s) \<le> length (slog (fs_world s)) \<and>
     fs_yielded s = drop after (take (os_currentSequence (fs_order s)) (slog (fs_world s)))"

abbreviation position :: "'w follow_state \<Rightarrow> nat" where
  "position s \<equiv> os_currentSequence (fs_order s)"

lemma following_world:
  assumes "following after s" and "advances (fs_world s) w"
  shows "following after (s\<lparr>fs_world := w\<rparr>)"
  using assms by (auto simp: following_def advances_def prefix_def)

text \<open>The next event of the stream is accepted and yielded.\<close>

lemma accept_next:
  assumes "following after s" and "position s < length (slog (fs_world s))" and "ev = slog (fs_world s) ! position s"
  obtains s' where "acceptE ev s = (Inr True, s')" and "fs_world s' = fs_world s" and "following after (snd (yieldE fp ev s'))"
    and "position (snd (yieldE fp ev s')) = Suc (position s)" and "advances (fs_world s) (fs_world (snd (yieldE fp ev s')))"
proof -
  have st: "contiguous_stream t (slog (fs_world s))" and ok: "ok (fs_world s)"
    using assms(1) stream by (auto simp: following_def)
  have ev: "sequence ev = Suc (position s)" "turnId ev = t" using contiguous_nth [OF st assms(2)] assms(3) by simp_all
  let ?o = "(fs_order s)\<lparr>os_eventIds := insert (eventId ev) (os_eventIds (fs_order s)),
    os_idempotencyKeys := insert (idempotencyKey ev) (os_idempotencyKeys (fs_order s)), os_currentSequence := sequence ev\<rparr>"
  let ?s' = "s\<lparr>fs_order := ?o\<rparr>" and ?w = "fp_consume fp ev (fs_world s)"
  have acc: "acceptE ev s = (Inr True, ?s')"
    using ev assms(1) by (simp add: acceptE_def accept_defs following_def)
  have adv: "advances (fs_world s) ?w" by (rule consume_advances [OF ok])
  then obtain zs where zs: "slog ?w = slog (fs_world s) @ zs" by (auto simp: advances_def prefix_def)
  have y: "snd (yieldE fp ev ?s') = \<lparr>fs_order = ?o, fs_yielded = fs_yielded s @ [ev], fs_world = ?w\<rparr>"
    by (simp add: yieldE_def op_defs)
  have "take (Suc (position s)) (slog (fs_world s)) = take (position s) (slog (fs_world s)) @ [ev]"
    using assms(2,3) by (simp add: take_Suc_conv_app_nth)
  then have "following after (snd (yieldE fp ev ?s'))"
    unfolding y using assms(1,2) ev(1) advances_ok [OF adv] zs by (auto simp: following_def)
  with that [OF acc] y ev(1) adv show ?thesis by simp
qed

definition page_at :: "'w follow_state \<Rightarrow> LifecycleEvent list \<Rightarrow> bool" where
  "page_at s evs \<longleftrightarrow> prefix evs (drop (position s) (slog (fs_world s)))"

lemma page_at_Cons:
  assumes "page_at s (ev # evs)"
  shows "position s < length (slog (fs_world s))" "ev = slog (fs_world s) ! position s"
    "prefix evs (drop (Suc (position s)) (slog (fs_world s)))"
proof -
  obtain zs where zs: "drop (position s) (slog (fs_world s)) = ev # evs @ zs" using assms by (auto simp: page_at_def prefix_def)
  then show lt: "position s < length (slog (fs_world s))" by (metis drop_all list.distinct(1) not_less)
  show "ev = slog (fs_world s) ! position s" using zs lt by (metis hd_drop_conv_nth list.sel(1))
  show "prefix evs (drop (Suc (position s)) (slog (fs_world s)))" using zs by (metis drop_Suc list.sel(3) prefixI tl_drop)
qed

lemma page_at_next:
  assumes "page_at s (ev # evs)" and "advances (fs_world s) (fs_world s')" and "position s' = Suc (position s)"
  shows "page_at s' evs"
proof -
  obtain zs where "slog (fs_world s') = slog (fs_world s) @ zs" using assms(2) by (auto simp: advances_def prefix_def)
  then have "prefix (drop (Suc (position s)) (slog (fs_world s))) (drop (Suc (position s)) (slog (fs_world s')))" by simp
  with page_at_Cons(3) [OF assms(1)] assms(3) show ?thesis
    unfolding page_at_def by (metis prefix_order.trans)
qed

lemma accept_page_follows:
  assumes "following after s" and "page_at s evs"
  obtains s' where "accept_page fp evs s = (Inr (), s')" and "following after s'"
    and "position s' = position s + length evs" and "advances (fs_world s) (fs_world s')"
  using assms
proof (induction evs arbitrary: s thesis)
  case Nil
  have "advances (fs_world s) (fs_world s)" using Nil.prems(2) by (simp add: following_def advances_refl)
  then show ?case by (intro Nil.prems(1) [of s] Nil.prems(2)) (simp_all add: accept_page_def returnE_def)
next
  case (Cons ev evs)
  note page = page_at_Cons [OF Cons.prems(3)]
  obtain s1 where s1: "acceptE ev s = (Inr True, s1)" "following after (snd (yieldE fp ev s1))"
    "position (snd (yieldE fp ev s1)) = Suc (position s)" "advances (fs_world s) (fs_world (snd (yieldE fp ev s1)))"
    by (rule accept_next [OF Cons.prems(2) page(1,2)])
  obtain s2 where s2: "accept_page fp evs (snd (yieldE fp ev s1)) = (Inr (), s2)" "following after s2"
    "position s2 = position (snd (yieldE fp ev s1)) + length evs" "advances (fs_world (snd (yieldE fp ev s1))) (fs_world s2)"
    by (rule Cons.IH [OF _ s1(2) page_at_next [OF Cons.prems(3) s1(4,3)]])
  have run: "accept_page fp (ev # evs) s = (Inr (), s2)"
    using s1(1) s2(1) by (simp add: accept_page_def bindE_def whenE_def yieldE_def modifyE_def)
  show ?case using Cons.prems(1) [OF run s2(2)] s2(3) s1(3) advances_trans [OF s1(4) s2(4)] by simp
qed


text \<open>A terminal event closes the stream, so on a page of live events it is the last one.\<close>

lemma poll_page_follows:
  assumes "following after s" and "page_at s evs"
  obtains b s' where "poll_page fp evs h s = (Inr (b, h \<or> evs \<noteq> []), s')" and "following after s'"
    and "position s' = position s + length evs" and "advances (fs_world s) (fs_world s')"
    and "fs_yielded s' = fs_yielded s @ evs" and "b \<longleftrightarrow> list_ex (\<lambda>ev. terminal_event_type (etype ev)) evs"
    and "b \<longrightarrow> ended (slog (fs_world s')) \<and> position s' = length (slog (fs_world s'))"
  using assms
proof (induction evs arbitrary: s h thesis)
  case Nil
  have "advances (fs_world s) (fs_world s)" using Nil.prems(2) by (simp add: following_def advances_refl)
  then show ?case by (intro Nil.prems(1) [of False s] Nil.prems(2)) (simp_all add: returnE_def)
next
  case (Cons ev evs)
  note page = page_at_Cons [OF Cons.prems(3)]
  obtain s1 where acc: "acceptE ev s = (Inr True, s1)" "fs_world s1 = fs_world s"
    and s1: "following after (snd (yieldE fp ev s1))" "position (snd (yieldE fp ev s1)) = Suc (position s)"
      "advances (fs_world s) (fs_world (snd (yieldE fp ev s1)))"
    by (rule accept_next [OF Cons.prems(2) page(1,2)])
  define s2 where "s2 = snd (yieldE fp ev s1)"
  have y: "yieldE fp ev s1 = (Inr (), s2)" by (simp add: s2_def yieldE_def modifyE_def)
  have yielded: "fs_yielded s2 = fs_yielded s @ [ev]"
    using acc(1) by (auto simp: s2_def yieldE_def modifyE_def acceptE_def split: prod.splits)
  note s2 = s1 [folded s2_def]
  show ?case
  proof (cases "terminal_event_type (etype ev)")
    case True
    have st: "contiguous_stream t (slog (fs_world s))" using Cons.prems(2) stream by (simp add: following_def)
    have len: "Suc (position s) = length (slog (fs_world s))"
      using contiguous_terminal_last [OF st page(1)] page(2) True by simp
    then have "last (slog (fs_world s)) = ev" using page by (metis diff_Suc_1 last_conv_nth list.size(3) nat.distinct(1))
    then have fin: "ended (slog (fs_world s))" using page(1) True by (auto simp: ended_def)
    have nil: "evs = []" using page(3) len by simp
    define s3 where "s3 = s2\<lparr>fs_world := fp_status fp Cs_following (fs_world s2)\<rparr>"
    have adv: "advances (fs_world s2) (fs_world s3)" using s2(1) by (simp add: s3_def following_def status_advances)
    have f: "following after s3" unfolding s3_def using following_world [OF s2(1)] adv by (simp add: s3_def)
    have "slog (fs_world s3) = slog (fs_world s)" using ended_stays [OF s2(3) fin] ended_stays [OF adv] fin by simp
    then show ?thesis
      using acc y s2 yielded nil True f adv advances_trans [OF s2(3) adv] fin len
      by (intro Cons.prems(1) [of True s3]) (simp_all add: bindE_def returnE_def report_def at_world_def modifyE_def s3_def)
  next
    case False
    obtain b s3 where s3: "poll_page fp evs True s2 = (Inr (b, True \<or> evs \<noteq> []), s3)" "following after s3"
      "position s3 = position s2 + length evs" "advances (fs_world s2) (fs_world s3)" "fs_yielded s3 = fs_yielded s2 @ evs"
      "b \<longleftrightarrow> list_ex (\<lambda>ev. terminal_event_type (etype ev)) evs"
      "b \<longrightarrow> ended (slog (fs_world s3)) \<and> position s3 = length (slog (fs_world s3))"
      by (rule Cons.IH [OF _ s2(1) page_at_next [OF Cons.prems(3) s2(3,2)]])
    show ?thesis
      using acc y s2 yielded False s3 advances_trans [OF s2(3) s3(4)]
      by (intro Cons.prems(1) [of b s3]) (simp_all add: bindE_def)
  qed
qed

section \<open>Termination\<close>

definition remaining :: "('w follow_state \<times> 'w follow_state) set" where
  "remaining = measures [\<lambda>s. rank (fs_world s), \<lambda>s. length (slog (fs_world s)) - position s]"

lemma remaining_rank: "rank (fs_world s') < rank (fs_world s) \<Longrightarrow> (s', s) \<in> remaining"
  by (simp add: remaining_def)

lemma remaining_position:
  assumes "advances (fs_world s) (fs_world s')" and "following after s'" and "position s < position s'"
  shows "(s', s) \<in> remaining"
  using assms by (cases "rank (fs_world s') = rank (fs_world s)") (auto simp: remaining_def advances_def following_def)

lemma delay_run:
  assumes "following after s"
  shows "delay fp ms s = (Inr (), s\<lparr>fs_world := fp_timer fp ms (fs_world s)\<rparr>)"
  using assms not_aborted by (simp add: delay_def is_aborted_def at_world_def op_defs following_def)

lemma reconnect_run:
  assumes "following after s"
  obtains w where "reconnect fp n s = (Inr (), s\<lparr>fs_world := w\<rparr>)" and "advances (fs_world s) w"
proof -
  let ?w = "fp_status fp Cs_reconnecting (fs_world s)"
  have ok: "ok (fs_world s)" using assms by (simp add: following_def)
  have adv: "advances (fs_world s) ?w" by (rule status_advances [OF ok])
  have run: "reconnect fp n s = delay fp (retry_delay n) (s\<lparr>fs_world := ?w\<rparr>)"
    by (simp add: reconnect_def report_def at_world_def modifyE_def bindE_def)
  have "advances ?w (fp_timer fp (retry_delay n) ?w)" by (rule timer_advances [OF advances_ok [OF adv]])
  then show ?thesis
    using that [of "fp_timer fp (retry_delay n) ?w"] run delay_run [OF following_world [OF assms adv]] advances_trans [OF adv] by simp
qed

definition asks :: "FollowLifecycleRequest \<Rightarrow> bool" where
  "asks fr \<longleftrightarrow> fr_turnId fr = t \<and> fr_replayLimit fr = limit"

lemma call_replay_run:
  assumes "following after s" and "asks fr"
  obtains r w where "call_replay fp (page_request fr s) s = (r, s\<lparr>fs_world := w\<rparr>)" and "advances (fs_world s) w"
    and "following after (s\<lparr>fs_world := w\<rparr>)"
    and "case r of Inl e \<Rightarrow> isRetryableLifecycleTransportError e \<and> rank w < rank (fs_world s)
      | Inr response \<Rightarrow> \<exists>k > 0. rp_events response = take k (drop (position s) (slog w))"
proof -
  have s: "ok (fs_world s)" "position s \<le> length (slog (fs_world s))" using assms(1) by (simp_all add: following_def)
  have rq: "page_request fr s = \<lparr>rq_turnId = t, rq_afterSequence = Some (position s), rq_limit = limit\<rparr>"
    using assms(2) by (simp add: page_request_def asks_def)
  obtain r w where call: "fp_replay fp (page_request fr s) (fs_world s) = (r, w)" by force
  note law = call [unfolded rq]
  have adv: "advances (fs_world s) w" by (rule replay_advances [OF s law])
  show ?thesis
  proof (rule that [of r w])
    show "call_replay fp (page_request fr s) s = (r, s\<lparr>fs_world := w\<rparr>)" using call by (simp add: call_replay_def)
    show "case r of Inl e \<Rightarrow> isRetryableLifecycleTransportError e \<and> rank w < rank (fs_world s)
      | Inr response \<Rightarrow> \<exists>k > 0. rp_events response = take k (drop (position s) (slog w))"
      using replay_fails [OF s] replay_answers [OF s] law by (cases r) auto
  qed (rule adv following_world [OF assms(1) adv])+
qed

lemma page_request_world [simp]: "page_request fr (s\<lparr>fs_world := w\<rparr>) = page_request fr s"
  by (simp add: page_request_def)

lemma retry_answers:
  assumes "following after s" and "asks fr"
  shows "\<exists>response w k. replayLifecycleEventsWithRetry fp (page_request fr s) n s = Some (Inr response, s\<lparr>fs_world := w\<rparr>) \<and>
    advances (fs_world s) w \<and> following after (s\<lparr>fs_world := w\<rparr>) \<and> k > 0 \<and> rp_events response = take k (drop (position s) (slog w))"
  using assms(1)
proof (induction "rank (fs_world s)" arbitrary: s n rule: less_induct)
  case less
  have na: "\<not> is_aborted fp s" using less.prems not_aborted by (simp add: is_aborted_def following_def)
  obtain r w where call: "call_replay fp (page_request fr s) s = (r, s\<lparr>fs_world := w\<rparr>)" "advances (fs_world s) w"
    "following after (s\<lparr>fs_world := w\<rparr>)"
    and answer: "case r of Inl e \<Rightarrow> isRetryableLifecycleTransportError e \<and> rank w < rank (fs_world s)
      | Inr response \<Rightarrow> \<exists>k > 0. rp_events response = take k (drop (position s) (slog w))"
    by (rule call_replay_run [OF less.prems assms(2)])
  show ?case
  proof (cases r)
    case (Inl e)
    obtain w2 where rec: "reconnect fp (n + 1) (s\<lparr>fs_world := w\<rparr>) = (Inr (), s\<lparr>fs_world := w\<rparr>\<lparr>fs_world := w2\<rparr>)"
      "advances (fs_world (s\<lparr>fs_world := w\<rparr>)) w2" by (rule reconnect_run [OF call(3)])
    have adv: "advances w w2" using rec(2) by simp
    have f: "following after (s\<lparr>fs_world := w2\<rparr>)" using following_world [OF call(3), of w2] adv by simp
    have "\<not> is_aborted fp (s\<lparr>fs_world := w\<rparr>)" using call(3) not_aborted by (simp add: is_aborted_def following_def)
    then have step: "replayLifecycleEventsWithRetry fp (page_request fr s) n s =
        replayLifecycleEventsWithRetry fp (page_request fr s) (n + 1) (s\<lparr>fs_world := w2\<rparr>)"
      using na call(1) Inl answer rec(1) by (subst replayLifecycleEventsWithRetry.simps) simp
    have "rank (fs_world (s\<lparr>fs_world := w2\<rparr>)) < rank (fs_world s)"
      using adv Inl answer unfolding advances_def by auto
    from less.hyps [OF this f, of "n + 1"] obtain response w3 k where
      "replayLifecycleEventsWithRetry fp (page_request fr s) (n + 1) (s\<lparr>fs_world := w2\<rparr>) = Some (Inr response, s\<lparr>fs_world := w3\<rparr>)"
      "advances w2 w3" "following after (s\<lparr>fs_world := w3\<rparr>)" "k > 0" "rp_events response = take k (drop (position s) (slog w3))"
      by auto
    then show ?thesis using step advances_trans [OF call(2) advances_trans [OF adv]] by metis
  next
    case (Inr response)
    then have "replayLifecycleEventsWithRetry fp (page_request fr s) n s = Some (Inr response, s\<lparr>fs_world := w\<rparr>)"
      using na call(1) by (subst replayLifecycleEventsWithRetry.simps) simp
    then show ?thesis using call(2,3) Inr answer by auto
  qed
qed

lemma replay_pages_end:
  assumes "following after s" and "asks fr"
  shows "\<exists>s'. replay_pages fp fr s = Some (Inr (), s') \<and> following after s' \<and> advances (fs_world s) (fs_world s')"
  using assms(1)
proof (induction s rule: wf_induct_rule [OF wf_measures [of "[\<lambda>s. rank (fs_world s), \<lambda>s. length (slog (fs_world s)) - position s]"]])
  case (1 s)
  obtain response w k where r: "replayLifecycleEventsWithRetry fp (page_request fr s) 0 s = Some (Inr response, s\<lparr>fs_world := w\<rparr>)"
    "advances (fs_world s) w" "following after (s\<lparr>fs_world := w\<rparr>)" "rp_events response = take k (drop (position s) (slog w))"
    using retry_answers [OF "1.prems" assms(2)] by blast
  have "page_at (s\<lparr>fs_world := w\<rparr>) (rp_events response)" using r(4) by (simp add: page_at_def take_is_prefix)
  from accept_page_follows [OF r(3) this] obtain s2 where s2: "accept_page fp (rp_events response) (s\<lparr>fs_world := w\<rparr>) = (Inr (), s2)"
    "following after s2" "position s2 = position s + length (rp_events response)" "advances w (fs_world s2)" by auto
  have adv: "advances (fs_world s) (fs_world s2)" by (rule advances_trans [OF r(2) s2(4)])
  show ?case
  proof (cases "rp_events response = [] \<or> (case fr_replayLimit fr of None \<Rightarrow> True | Some limit \<Rightarrow> length (rp_events response) < limit)")
    case True
    then have "replay_pages fp fr s = Some (Inr (), s2)" using r(1) s2(1) by (subst replay_pages.simps) auto
    with s2(2) adv show ?thesis by blast
  next
    case False
    then have lt: "position s < position s2" using s2(3) by simp
    then have step: "replay_pages fp fr s = replay_pages fp fr s2" using r(1) s2(1) False by (subst replay_pages.simps) auto
    have "(s2, s) \<in> remaining" by (rule remaining_position [OF adv s2(2) lt])
    from "1.IH" [OF this [unfolded remaining_def] s2(2)] step advances_trans [OF adv] show ?thesis by metis
  qed
qed


text \<open>A client that has not yet seen the terminal event, and whose cursor was not behind it.\<close>

definition open_follow :: "nat \<Rightarrow> 'w follow_state \<Rightarrow> bool" where
  "open_follow after s \<longleftrightarrow> following after s \<and> \<not> list_ex (\<lambda>ev. terminal_event_type (etype ev)) (fs_yielded s) \<and>
     (ended (slog (fs_world s)) \<longrightarrow> after < length (slog (fs_world s)))"

lemma open_position:
  assumes "open_follow after s" and "ended (slog (fs_world s))"
  shows "position s < length (slog (fs_world s))"
proof (rule ccontr)
  assume "\<not> position s < length (slog (fs_world s))"
  then have y: "fs_yielded s = drop after (slog (fs_world s))" using assms(1) by (simp add: open_follow_def following_def)
  have lt: "after < length (slog (fs_world s))" using assms by (simp add: open_follow_def)
  then have "last (slog (fs_world s)) \<in> set (fs_yielded s)" unfolding y by (metis drop_eq_Nil last_drop last_in_set not_le)
  then show False using assms by (auto simp: open_follow_def ended_def list_ex_iff)
qed

lemma open_world:
  assumes "open_follow after s" and "advances (fs_world s) w"
  shows "open_follow after (s\<lparr>fs_world := w\<rparr>)"
proof -
  have f: "following after (s\<lparr>fs_world := w\<rparr>)" using following_world assms by (simp add: open_follow_def)
  have "after < length (slog w)" if "ended (slog w)"
  proof (cases "slog w = slog (fs_world s)")
    case False
    have "prefix (slog (fs_world s)) (slog w)" using assms(2) by (simp add: advances_def)
    then have "length (slog (fs_world s)) < length (slog w)" using False by (auto simp: prefix_def)
    then show ?thesis using assms(1) by (simp add: open_follow_def following_def)
  qed (use that assms in \<open>simp add: open_follow_def\<close>)
  with f assms(1) show ?thesis by (simp add: open_follow_def)
qed

lemma open_page:
  assumes "open_follow after s" and "following after s'" and "fs_yielded s' = fs_yielded s @ evs"
    and "\<not> list_ex (\<lambda>ev. terminal_event_type (etype ev)) evs" and "advances (fs_world s) (fs_world s')"
  shows "open_follow after s'"
proof -
  have "ended (slog (fs_world s')) \<longrightarrow> after < length (slog (fs_world s'))"
    using open_world [OF assms(1,5)] by (simp add: open_follow_def)
  with assms show ?thesis by (simp add: open_follow_def)
qed

lemma waiting_ranks:
  assumes "open_follow after s" and "drop (position s) (slog (fs_world s)) = []" and "advances (fs_world s) w"
  shows "rank (fp_timer fp ms w) < rank (fs_world s)"
proof -
  have ok: "ok w" by (rule advances_ok [OF assms(3)])
  have "rank (fp_timer fp ms w) \<le> rank w" using timer_advances [OF ok] by (simp add: advances_def)
  moreover have "\<not> ended (slog (fs_world s))" using open_position [OF assms(1)] assms(2) by auto
  then have "rank w < rank (fs_world s) \<or> rank (fp_timer fp ms w) < rank w"
    using assms(3) timer_progress [OF ok] by (auto simp: advances_def)
  moreover have "rank w \<le> rank (fs_world s)" using assms(3) by (simp add: advances_def)
  ultimately show ?thesis by auto
qed

lemma page_at_prefix: "prefix evs (drop (position s) (slog (fs_world s))) \<Longrightarrow> advances (fs_world s) w \<Longrightarrow> page_at (s\<lparr>fs_world := w\<rparr>) evs"
  by (auto simp: page_at_def advances_def prefix_def)

lemma poll_step_run:
  assumes "open_follow after s" and "asks fr"
  shows "\<exists>nxt s'. poll_step fp fr n s = (Inr nxt, s') \<and> advances (fs_world s) (fs_world s') \<and>
    (case nxt of
       None \<Rightarrow> following after s' \<and> ended (slog (fs_world s')) \<and> position s' = length (slog (fs_world s'))
     | Some n' \<Rightarrow> open_follow after s' \<and> (s', s) \<in> remaining)"
proof -
  have f: "following after s" using assms(1) by (simp add: open_follow_def)
  obtain r w where call: "call_replay fp (page_request fr s) s = (r, s\<lparr>fs_world := w\<rparr>)" "advances (fs_world s) w"
    "following after (s\<lparr>fs_world := w\<rparr>)"
    and answer: "case r of Inl e \<Rightarrow> isRetryableLifecycleTransportError e \<and> rank w < rank (fs_world s)
      | Inr response \<Rightarrow> \<exists>k > 0. rp_events response = take k (drop (position s) (slog w))"
    by (rule call_replay_run [OF f assms(2)])
  note o1 = open_world [OF assms(1) call(2)]
  show ?thesis
  proof (cases r)
    case (Inl e)
    obtain w2 where rec: "reconnect fp (n + 1) (s\<lparr>fs_world := w\<rparr>) = (Inr (), s\<lparr>fs_world := w\<rparr>\<lparr>fs_world := w2\<rparr>)"
      "advances (fs_world (s\<lparr>fs_world := w\<rparr>)) w2" by (rule reconnect_run [OF call(3)])
    have na: "\<not> is_aborted fp (s\<lparr>fs_world := w\<rparr>)" using call(3) not_aborted by (simp add: is_aborted_def following_def)
    have step: "poll_step fp fr n s = (Inr (Some (n + 1)), s\<lparr>fs_world := w2\<rparr>)"
      using call(1) Inl answer rec(1) na by (simp add: poll_step_def op_defs)
    have adv: "advances (fs_world s) w2" using rec(2) advances_trans [OF call(2)] by simp
    have "rank (fs_world (s\<lparr>fs_world := w2\<rparr>)) < rank (fs_world s)" using rec(2) Inl answer by (auto simp: advances_def)
    then show ?thesis using step adv open_world [OF assms(1) adv] remaining_rank by auto
  next
    case (Inr response)
    obtain k where k: "k > 0" "rp_events response = take k (drop (position s) (slog w))" using Inr answer by auto
    define s2 where "s2 = s\<lparr>fs_world := fp_status fp Cs_following w\<rparr>"
    have adv2: "advances w (fs_world s2)" using advances_ok [OF call(2)] by (simp add: s2_def status_advances)
    have adv02: "advances (fs_world s) (fs_world s2)" by (rule advances_trans [OF call(2) adv2])
    have o2: "open_follow after s2" using open_world [OF assms(1) adv02] by (simp add: s2_def)
    have page: "page_at s2 (rp_events response)"
      using page_at_prefix [of "rp_events response" "s\<lparr>fs_world := w\<rparr>" "fs_world s2"] adv2 k(2) by (simp add: s2_def take_is_prefix)
    have f2: "following after s2" using o2 by (simp add: open_follow_def)
    obtain b s3 where s3: "poll_page fp (rp_events response) False s2 = (Inr (b, False \<or> rp_events response \<noteq> []), s3)" "following after s3"
      "position s3 = position s2 + length (rp_events response)" "advances (fs_world s2) (fs_world s3)"
      "fs_yielded s3 = fs_yielded s2 @ rp_events response" "b \<longleftrightarrow> list_ex (\<lambda>ev. terminal_event_type (etype ev)) (rp_events response)"
      "b \<longrightarrow> ended (slog (fs_world s3)) \<and> position s3 = length (slog (fs_world s3))"
      by (rule poll_page_follows [OF f2 page, where h = False])
    have adv3: "advances (fs_world s) (fs_world s3)" by (rule advances_trans [OF adv02 s3(4)])
    have run: "poll_step fp fr n s = (if b then (Inr None, s3)
        else (Inr (Some (if rp_events response \<noteq> [] then 0 else n)), s3\<lparr>fs_world := fp_timer fp DEFAULT_POLL_INTERVAL_MS (fs_world s3)\<rparr>))"
      using call(1) Inr s3(1) delay_run [OF s3(2)] by (simp add: poll_step_def op_defs report_def at_world_def flip: s2_def)
    show ?thesis
    proof (cases b)
      case True
      then show ?thesis using run s3(2,7) adv3 by auto
    next
      case False
      define s4 where "s4 = s3\<lparr>fs_world := fp_timer fp DEFAULT_POLL_INTERVAL_MS (fs_world s3)\<rparr>"
      have t4: "advances (fs_world s3) (fs_world s4)" using advances_ok [OF adv3] by (simp add: s4_def timer_advances)
      have adv4: "advances (fs_world s) (fs_world s4)" by (rule advances_trans [OF adv3 t4])
      have o3: "open_follow after s3" using open_page [OF o2 s3(2,5) _ s3(4)] False s3(6) by simp
      have o4: "open_follow after s4" using open_world [OF o3, of "fs_world s4"] t4 by (simp add: s4_def)
      have "(s4, s) \<in> remaining"
      proof (cases "rp_events response = []")
        case True
        then have "drop (position (s\<lparr>fs_world := w\<rparr>)) (slog (fs_world (s\<lparr>fs_world := w\<rparr>))) = []" using k by simp
        moreover have "advances (fs_world (s\<lparr>fs_world := w\<rparr>)) (fs_world s3)" using advances_trans [OF adv2 s3(4)] by simp
        ultimately have "rank (fs_world s4) < rank w" using waiting_ranks [OF o1] by (simp add: s4_def)
        then show ?thesis using call(2) by (intro remaining_rank) (auto simp: advances_def)
      next
        case False
        have "following after s4" using o4 by (simp add: open_follow_def)
        moreover have "position s < position s4" using s3(3) False by (simp add: s2_def s4_def)
        ultimately show ?thesis by (rule remaining_position [OF adv4])
      qed
      then show ?thesis using run False adv4 o4 by (auto simp: s4_def)
    qed
  qed
qed

lemma poll_loop_end:
  assumes "open_follow after s" and "asks fr"
  shows "\<exists>s'. poll_loop fp fr n s = Some (Inr (), s') \<and> following after s' \<and> ended (slog (fs_world s')) \<and>
    position s' = length (slog (fs_world s')) \<and> advances (fs_world s) (fs_world s')"
  using assms(1)
proof (induction s arbitrary: n rule: wf_induct_rule [OF wf_measures [of "[\<lambda>s. rank (fs_world s), \<lambda>s. length (slog (fs_world s)) - position s]"]])
  case (1 s)
  have na: "\<not> is_aborted fp s" using "1.prems" not_aborted by (simp add: is_aborted_def open_follow_def following_def)
  obtain nxt s2 where step: "poll_step fp fr n s = (Inr nxt, s2)" "advances (fs_world s) (fs_world s2)"
    and out: "case nxt of None \<Rightarrow> following after s2 \<and> ended (slog (fs_world s2)) \<and> position s2 = length (slog (fs_world s2))
      | Some n' \<Rightarrow> open_follow after s2 \<and> (s2, s) \<in> remaining"
    using poll_step_run [OF "1.prems" assms(2)] by blast
  show ?case
  proof (cases nxt)
    case None
    then have "poll_loop fp fr n s = Some (Inr (), s2)" using na step(1) by (subst poll_loop.simps) simp
    with None out step(2) show ?thesis by auto
  next
    case (Some n')
    then have run: "poll_loop fp fr n s = poll_loop fp fr n' s2" using na step(1) by (subst poll_loop.simps) simp
    have "open_follow after s2" "(s2, s) \<in> remaining" using Some out by simp_all
    from "1.IH" [OF this(2) [unfolded remaining_def] this(1), of n'] run advances_trans [OF step(2)] show ?thesis by metis
  qed
qed

theorem follow_reaches_the_end:
  assumes "ok w" and "asks fr" and "cursor fr \<le> length (slog w)" and "ended (slog w) \<longrightarrow> cursor fr < length (slog w)"
  shows "\<exists>s. followLifecycleEvents fp fr w = Some (Inr (), s) \<and> advances w (fs_world s) \<and> ended (slog (fs_world s)) \<and>
    fs_yielded s = drop (cursor fr) (slog (fs_world s))"
proof -
  let ?s = "\<lparr>fs_order = createLifecycleOrderingState (fr_turnId fr) (fr_afterSequence fr), fs_yielded = [], fs_world = w\<rparr>"
  have start: "open_follow (cursor fr) ?s"
    using assms by (simp add: open_follow_def following_def createLifecycleOrderingState_def cursor_def asks_def)
  have report: "report fp st s = (Inr (), s\<lparr>fs_world := fp_status fp st (fs_world s)\<rparr>)" for st s
    by (simp add: report_def at_world_def modifyE_def)
  have adv1: "advances w (fp_status fp Cs_replaying w)" by (rule status_advances [OF assms(1)])
  have "open_follow (cursor fr) (snd (report fp Cs_replaying ?s))" using open_world [OF start, of "fp_status fp Cs_replaying w"] adv1 by (simp add: report)
  then have f1: "following (cursor fr) (snd (report fp Cs_replaying ?s))" by (simp add: open_follow_def)
  obtain s2 where s2: "replayPaged fp fr ?s = Some (Inr (), s2)" "following (cursor fr) s2" "advances w (fs_world s2)"
    using replay_pages_end [OF f1 assms(2)] advances_trans [OF adv1] by (auto simp: replayPaged_def report)
  have cur: "ended (slog (fs_world s2)) \<longrightarrow> cursor fr < length (slog (fs_world s2))"
    using open_world [OF start, of "fs_world s2"] s2(3) by (simp add: open_follow_def)
  have st2: "contiguous_stream t (slog (fs_world s2))" using s2(2) stream by (simp add: following_def)
  have y2: "fs_yielded s2 = drop (cursor fr) (take (position s2) (slog (fs_world s2)))" "position s2 \<le> length (slog (fs_world s2))"
    using s2(2) by (simp_all add: following_def)
  have adv3: "advances (fs_world s2) (fp_status fp Cs_following (fs_world s2))" using advances_ok [OF s2(3)] by (rule status_advances)
  show ?thesis
  proof (cases "list_ex (\<lambda>ev. terminal_event_type (etype ev)) (fs_yielded s2)")
    case True
    then obtain ev where "ev \<in> set (take (position s2) (slog (fs_world s2)))" "terminal_event_type (etype ev)"
      using y2(1) by (auto simp: list_ex_iff dest: in_set_dropD)
    then obtain i where i: "i < position s2" "i < length (slog (fs_world s2))" "terminal_event_type (etype (slog (fs_world s2) ! i))"
      by (auto simp: in_set_conv_nth)
    have len: "Suc i = length (slog (fs_world s2))" by (rule contiguous_terminal_last [OF st2 i(2,3)])
    then have pos: "position s2 = length (slog (fs_world s2))" using i y2(2) by simp
    have "last (slog (fs_world s2)) = slog (fs_world s2) ! i" using len by (metis diff_Suc_1 last_conv_nth list.size(3) nat.distinct(1))
    then have fin: "ended (slog (fs_world s2))" using i(2,3) by (auto simp: ended_def)
    have same: "slog (fp_status fp Cs_following (fs_world s2)) = slog (fs_world s2)" by (rule ended_stays [OF adv3 fin])
    have "followLifecycleEvents fp fr w = Some (Inr (), s2\<lparr>fs_world := fp_status fp Cs_following (fs_world s2)\<rparr>)"
      using s2(1) True by (simp add: followLifecycleEvents_def report)
    then show ?thesis using y2(1) pos fin same advances_trans [OF s2(3) adv3] by simp
  next
    case False
    then have "open_follow (cursor fr) s2" using s2(2) cur by (simp add: open_follow_def)
    note opened = open_world [OF this adv3]
    obtain s3 where s3: "pollLiveEvents fp fr s2 = Some (Inr (), s3)" "following (cursor fr) s3"
      "ended (slog (fs_world s3))" "position s3 = length (slog (fs_world s3))" "advances (fp_status fp Cs_following (fs_world s2)) (fs_world s3)"
      using poll_loop_end [OF opened assms(2), of 0] by (auto simp: pollLiveEvents_def report)
    have "followLifecycleEvents fp fr w = Some (Inr (), s3)" using s2(1) s3(1) False by (simp add: followLifecycleEvents_def)
    moreover have "fs_yielded s3 = drop (cursor fr) (slog (fs_world s3))" using s3(2,4) by (simp add: following_def)
    ultimately show ?thesis using s3(3) advances_trans [OF s2(3) advances_trans [OF adv3 s3(5)]] by blast
  qed
qed


section \<open>A cursor at the terminal event\<close>

definition past_end :: "'w follow_state \<Rightarrow> bool" where
  "past_end s \<longleftrightarrow> following (position s) s \<and> ended (slog (fs_world s)) \<and> position s = length (slog (fs_world s))"

lemma past_end_following: "past_end s \<Longrightarrow> following (position s) s"
  unfolding past_end_def by blast

lemma past_end_world: "past_end s \<Longrightarrow> advances (fs_world s) w \<Longrightarrow> past_end (s\<lparr>fs_world := w\<rparr>)"
  using following_world [of "position s" s w] ended_stays [of "fs_world s" w] unfolding past_end_def by simp (metis)

lemma past_end_polls_on:
  assumes "past_end s" and "asks fr"
  shows "\<exists>n' s'. poll_step fp fr n s = (Inr (Some n'), s') \<and> past_end s'"
proof -
  note f = past_end_following [OF assms(1)]
  obtain r w where call: "call_replay fp (page_request fr s) s = (r, s\<lparr>fs_world := w\<rparr>)" "advances (fs_world s) w"
    "following (position s) (s\<lparr>fs_world := w\<rparr>)"
    and answer: "case r of Inl e \<Rightarrow> isRetryableLifecycleTransportError e \<and> rank w < rank (fs_world s)
      | Inr response \<Rightarrow> \<exists>k > 0. rp_events response = take k (drop (position s) (slog w))"
    by (rule call_replay_run [OF f assms(2)])
  note p1 = past_end_world [OF assms(1) call(2)]
  show ?thesis
  proof (cases r)
    case (Inl e)
    obtain w2 where rec: "reconnect fp (n + 1) (s\<lparr>fs_world := w\<rparr>) = (Inr (), s\<lparr>fs_world := w\<rparr>\<lparr>fs_world := w2\<rparr>)"
      "advances (fs_world (s\<lparr>fs_world := w\<rparr>)) w2" by (rule reconnect_run [OF call(3)])
    have "\<not> is_aborted fp (s\<lparr>fs_world := w\<rparr>)" using call(3) not_aborted by (simp add: is_aborted_def following_def)
    then have "poll_step fp fr n s = (Inr (Some (n + 1)), s\<lparr>fs_world := w\<rparr>\<lparr>fs_world := w2\<rparr>)"
      using call(1) Inl answer rec(1) by (simp add: poll_step_def op_defs)
    then show ?thesis using past_end_world [OF p1 rec(2)] by blast
  next
    case (Inr response)
    then have empty: "rp_events response = []" using answer p1 by (auto simp: past_end_def)
    let ?w2 = "fp_status fp Cs_following w"
    let ?w3 = "fp_timer fp DEFAULT_POLL_INTERVAL_MS ?w2"
    have adv2: "advances (fs_world (s\<lparr>fs_world := w\<rparr>)) ?w2" using advances_ok [OF call(2)] by (simp add: status_advances)
    note p2 = past_end_world [OF p1 adv2]
    have "advances (fs_world (s\<lparr>fs_world := w\<rparr>\<lparr>fs_world := ?w2\<rparr>)) ?w3"
      using advances_ok [OF adv2] by (simp add: timer_advances)
    note p3 = past_end_world [OF p2 this]
    have "poll_step fp fr n s = (Inr (Some n), s\<lparr>fs_world := ?w3\<rparr>)"
      using call(1) Inr empty delay_run [OF past_end_following [OF p2]]
      by (simp add: poll_step_def op_defs report_def at_world_def)
    with p3 show ?thesis by auto
  qed
qed

lemma poll_loop_result_open:
  assumes "poll_loop fp' fr n s = Some y"
  shows "fp' = fp \<longrightarrow> asks fr \<longrightarrow> \<not> past_end s"
proof (rule poll_loop.raw_induct [OF _ assms, where P = "\<lambda>fp' fr n s y. fp' = fp \<longrightarrow> asks fr \<longrightarrow> \<not> past_end s"], intro impI notI)
  fix f :: "'w follow_ports \<Rightarrow> FollowLifecycleRequest \<Rightarrow> nat \<Rightarrow> 'w follow_state \<Rightarrow> ((client_error + unit) \<times> 'w follow_state) option"
    and fp' fr n s y
  assume rec: "\<And>fp' fr n s y. f fp' fr n s = Some y \<Longrightarrow> fp' = fp \<longrightarrow> asks fr \<longrightarrow> \<not> past_end s"
    and body: "(if is_aborted fp' s then Some (Inr (), s)
      else case poll_step fp' fr n s of (Inl e, s') \<Rightarrow> Some (Inl e, s')
        | (Inr nxt, s') \<Rightarrow> (case nxt of None \<Rightarrow> Some (Inr (), s') | Some attempt' \<Rightarrow> f fp' fr attempt' s')) = Some y"
    and fp': "fp' = fp" and fr: "asks fr" and s: "past_end s"
  have "\<not> is_aborted fp s" using s not_aborted by (simp add: past_end_def following_def is_aborted_def)
  moreover obtain n' s' where step: "poll_step fp fr n s = (Inr (Some n'), s')" "past_end s'" using past_end_polls_on [OF s fr] by blast
  ultimately have "f fp' fr n' s' = Some y" using body fp' by simp
  with rec [OF this] fp' fr step(2) show False by blast
qed

theorem follow_past_the_end:
  assumes "ok w" and "asks fr" and "ended (slog w)" and "cursor fr = length (slog w)"
  shows "followLifecycleEvents fp fr w = None"
proof -
  let ?s = "\<lparr>fs_order = createLifecycleOrderingState (fr_turnId fr) (fr_afterSequence fr), fs_yielded = [], fs_world = w\<rparr>"
  have start: "following (cursor fr) ?s"
    using assms by (simp add: following_def createLifecycleOrderingState_def cursor_def asks_def)
  have report: "report fp st s = (Inr (), s\<lparr>fs_world := fp_status fp st (fs_world s)\<rparr>)" for st s
    by (simp add: report_def at_world_def modifyE_def)
  have adv1: "advances w (fp_status fp Cs_replaying w)" by (rule status_advances [OF assms(1)])
  have f1: "following (cursor fr) (snd (report fp Cs_replaying ?s))"
    using following_world [OF start, of "fp_status fp Cs_replaying w"] adv1 by (simp add: report)
  obtain s2 where s2: "replayPaged fp fr ?s = Some (Inr (), s2)" "following (cursor fr) s2" "advances w (fs_world s2)"
    using replay_pages_end [OF f1 assms(2)] advances_trans [OF adv1] by (auto simp: replayPaged_def report)
  have "slog (fs_world s2) = slog w" by (rule ended_stays [OF s2(3) assms(3)])
  then have pos: "position s2 = cursor fr" "fs_yielded s2 = []" "past_end s2"
    using s2(2) assms(3,4) by (auto simp: following_def past_end_def)
  have adv3: "advances (fs_world s2) (fp_status fp Cs_following (fs_world s2))" using advances_ok [OF s2(3)] by (rule status_advances)
  from past_end_world [OF pos(3) adv3] have "past_end (snd (report fp Cs_following s2))" by (simp add: report)
  then have "poll_loop fp fr 0 (snd (report fp Cs_following s2)) = None"
    using poll_loop_result_open [of fp fr 0 "snd (report fp Cs_following s2)"] assms(2) by (cases "poll_loop fp fr 0 (snd (report fp Cs_following s2))") auto
  then show ?thesis using s2(1) pos(2) by (simp add: followLifecycleEvents_def pollLiveEvents_def)
qed

end

section \<open>The memory store as the server\<close>

text \<open>
  The server answers from a memory store of lifecycle events. While a client waits in a delay, the runtime appends the
  next of the batches \<open>sw_pending\<close>, which may be empty; \<open>sw_arrivals\<close> says for each of the next steps in between, a request
  under way or an event handed to the consumer, whether the next batch arrives then; \<open>sw_outages\<close> says for each of the
  next requests whether the network fails. \<open>defaultLimit\<close> is the page size when the request names none.
\<close>

record server_world =
  sw_store :: MemoryLifecycleEventStore
  sw_pending :: "LifecycleEvent list list"
  sw_arrivals :: "bool list"
  sw_outages :: "bool list"

definition network_error :: client_error where
  "network_error = PlatformClientOperationError Oc_NETWORK_ERROR ''replayLifecycleEvents: failed to fetch'' True None (Some 0)"

definition store_error :: client_error where
  "store_error = PlatformClientOperationError (Oc_protocol Pc_validation_failed) ''Invalid lifecycle replay'' False None (Some 400)"

definition replay_input :: "nat \<Rightarrow> ReplayLifecycleEventsRequest \<Rightarrow> ReplayLifecycleEventsInput" where
  "replay_input defaultLimit rq =
     \<lparr>ri_turnId = rq_turnId rq, ri_afterSequence = map_option int (rq_afterSequence rq),
      ri_limit = (case rq_limit rq of None \<Rightarrow> int defaultLimit | Some n \<Rightarrow> int n)\<rparr>"

definition append_pending :: "event_schema \<Rightarrow> server_world \<Rightarrow> server_world" where
  "append_pending parse w =
     (case sw_pending w of
        [] \<Rightarrow> w
      | batch # rest \<Rightarrow> w\<lparr>sw_store := snd (appendBatch parse batch (sw_store w)), sw_pending := rest\<rparr>)"

definition maybe_arrives :: "event_schema \<Rightarrow> server_world \<Rightarrow> server_world" where
  "maybe_arrives parse w =
     (if sw_arrivals w \<noteq> [] \<and> hd (sw_arrivals w) then append_pending parse w else w)\<lparr>sw_arrivals := tl (sw_arrivals w)\<rparr>"

definition server_replay ::
  "event_schema \<Rightarrow> nat \<Rightarrow> ReplayLifecycleEventsRequest \<Rightarrow> (server_world, client_error, ReplayLifecycleEventsResponse) op" where
  "server_replay parse defaultLimit rq w =
     (let w' = (maybe_arrives parse w)\<lparr>sw_outages := tl (sw_outages w)\<rparr> in
      if sw_outages w \<noteq> [] \<and> hd (sw_outages w) then (Inl network_error, w')
      else case replay (sw_store w') (replay_input defaultLimit rq) of
        Inl e \<Rightarrow> (Inl store_error, w')
      | Inr (evs, nxt) \<Rightarrow> (Inr \<lparr>rp_events = evs, rp_nextSequence = nxt\<rparr>, w'))"

text \<open>The rest of the client's world; the client is never aborted.\<close>

definition server_ports :: "event_schema \<Rightarrow> nat \<Rightarrow> server_world follow_ports" where
  "server_ports parse defaultLimit =
     \<lparr>fp_replay = server_replay parse defaultLimit, fp_aborted = (\<lambda>w. False), fp_timer = (\<lambda>ms. append_pending parse),
      fp_status = (\<lambda>status. maybe_arrives parse), fp_consume = (\<lambda>ev. maybe_arrives parse)\<rparr>"

type_synonym server_transport = "(ReplayLifecycleEventsResponse, server_world) client_transport"

definition client_ports :: "server_transport \<Rightarrow> event_schema \<Rightarrow> nat \<Rightarrow> server_world follow_ports" where
  "client_ports tr parse d = (server_ports parse d)\<lparr>fp_replay := client_replayLifecycleEvents tr\<rparr>"

text \<open>
  The client talks to this server. Its schemas accept the requests of the follower with a cursor that is a safe integer,
  and every page whose events the event schema accepts as they are and whose next sequence is a safe integer
  (\<open>ReplayLifecycleEventsRequestSchema\<close> and \<open>ReplayLifecycleEventsResponseSchema\<close> of
  packages/platform-client-sdk/src/platform/lifecycle-types.ts).
\<close>

definition accepted_events :: "event_schema \<Rightarrow> LifecycleEvent list \<Rightarrow> bool" where
  "accepted_events parse evs \<longleftrightarrow> list_all (\<lambda>ev. parse ev = Some ev) evs"

definition speaks_protocol :: "server_transport \<Rightarrow> event_schema \<Rightarrow> nat \<Rightarrow> nat option \<Rightarrow> string \<Rightarrow> bool" where
  "speaks_protocol tr parse d limit t \<longleftrightarrow> tr_replay tr = server_replay parse d \<and>
     (\<forall>n. safe_sequence n \<longrightarrow> (let rq = \<lparr>rq_turnId = t, rq_afterSequence = Some n, rq_limit = limit\<rparr> in
        tr_parseReplayRequest tr rq = Some rq)) \<and>
     (\<forall>response. accepted_events parse (rp_events response) \<and> pred_option safe_sequence (rp_nextSequence response) \<longrightarrow>
        tr_parseReplayResponse tr response = Some response)"

definition final_store :: "event_schema \<Rightarrow> server_world \<Rightarrow> MemoryLifecycleEventStore" where
  "final_store parse w = fold (\<lambda>batch st. snd (appendBatch parse batch st)) (sw_pending w) (sw_store w)"

definition server_stream :: "string \<Rightarrow> server_world \<Rightarrow> LifecycleEvent list" where
  "server_stream t w = lifecycle_log (sw_store w) t"

definition server_rank :: "server_world \<Rightarrow> nat" where
  "server_rank w = length (sw_pending w) + length (sw_outages w)"

definition server_limit :: "nat \<Rightarrow> nat option \<Rightarrow> nat" where
  "server_limit defaultLimit limit = (case limit of None \<Rightarrow> defaultLimit | Some n \<Rightarrow> n)"

definition server_ok :: "server_transport \<Rightarrow> event_schema \<Rightarrow> nat \<Rightarrow> nat option \<Rightarrow> string \<Rightarrow> LifecycleEvent list \<Rightarrow> server_world \<Rightarrow> bool" where
  "server_ok tr parse d limit t final w \<longleftrightarrow>
     speaks_protocol tr parse d limit t \<and> 0 < server_limit d limit \<and> server_limit d limit \<le> 1000 \<and>
     store_inv (sw_store w) \<and> lifecycle_log (final_store parse w) t = final \<and>
     ended final \<and> accepted_events parse final \<and> safe_sequence (length final)"

definition server_advances :: "server_transport \<Rightarrow> event_schema \<Rightarrow> nat \<Rightarrow> nat option \<Rightarrow> string \<Rightarrow> LifecycleEvent list \<Rightarrow> server_world \<Rightarrow> server_world \<Rightarrow> bool" where
  "server_advances tr parse d limit t final w w' \<longleftrightarrow>
     server_ok tr parse d limit t final w' \<and> prefix (server_stream t w) (server_stream t w') \<and> server_rank w' \<le> server_rank w \<and>
     (server_rank w' = server_rank w \<longrightarrow> server_stream t w' = server_stream t w)"

lemma appendOne_grows: "prefix (lifecycle_log st t) (lifecycle_log (snd (appendOne ev st)) t)"
  by (auto simp: appendOne_def log_store_event split: option.splits sum.splits)

lemma mapE_appendOne_grows: "prefix (lifecycle_log st t) (lifecycle_log (snd (mapE appendOne evs st)) t)"
proof (induction evs arbitrary: st)
  case (Cons ev evs)
  have "prefix (lifecycle_log (snd (appendOne ev st)) t) (lifecycle_log (snd (mapE appendOne evs (snd (appendOne ev st)))) t)"
    by (rule Cons.IH)
  with appendOne_grows [of st t ev] show ?case
    by (auto simp: bindE_def returnE_def split: prod.splits sum.splits intro: prefix_order.trans)
qed (simp add: returnE_def)

lemma appendBatch_grows: "prefix (lifecycle_log st t) (lifecycle_log (snd (appendBatch parse evs st)) t)"
proof (cases "parse_all parse evs")
  case (Inr parsed)
  then show ?thesis
    using mapE_appendOne_grows [of st t parsed] by (auto simp: appendBatch_def commitBatch_def split: prod.splits sum.splits)
qed (simp add: appendBatch_def)

lemma fold_appendBatch_grows:
  "prefix (lifecycle_log st t) (lifecycle_log (fold (\<lambda>batch st. snd (appendBatch parse batch st)) batches st) t)"
proof (induction batches arbitrary: st)
  case (Cons b bs)
  from appendBatch_grows [of st t parse b] Cons.IH [of "snd (appendBatch parse b st)"] show ?case
    by (simp add: prefix_order.trans)
qed simp

lemma fold_appendBatch_inv: "store_inv st \<Longrightarrow> store_inv (fold (\<lambda>batch st. snd (appendBatch parse batch st)) batches st)"
  by (induction batches arbitrary: st) (simp_all add: appendBatch_inv)

lemma append_pending_advances:
  assumes "server_ok tr parse d limit t final w"
  shows "server_advances tr parse d limit t final w (append_pending parse w)"
proof (cases "sw_pending w")
  case Nil
  then show ?thesis using assms by (simp add: append_pending_def server_advances_def)
next
  case (Cons b bs)
  then show ?thesis
    using assms appendBatch_grows [of "sw_store w" t parse b]
    by (auto simp: append_pending_def server_advances_def server_ok_def final_store_def server_stream_def server_rank_def appendBatch_inv)
qed

lemma maybe_arrives_advances:
  assumes "server_ok tr parse d limit t final w"
  shows "server_advances tr parse d limit t final w (maybe_arrives parse w)"
proof -
  have "server_advances tr parse d limit t final w (if b then append_pending parse w else w)" for b
    using append_pending_advances [OF assms] assms by (simp add: server_advances_def)
  then show ?thesis
    by (simp add: maybe_arrives_def server_advances_def server_ok_def final_store_def server_stream_def server_rank_def)
qed

definition after_request :: "event_schema \<Rightarrow> server_world \<Rightarrow> server_world" where
  "after_request parse w = (maybe_arrives parse w)\<lparr>sw_outages := tl (sw_outages w)\<rparr>"

lemma maybe_arrives_outages [simp]: "sw_outages (maybe_arrives parse w) = sw_outages w"
  by (simp add: maybe_arrives_def append_pending_def split: list.split)

lemma after_request_advances:
  assumes "server_ok tr parse d limit t final w"
  shows "server_advances tr parse d limit t final w (after_request parse w)"
    and "sw_outages w \<noteq> [] \<Longrightarrow> server_rank (after_request parse w) < server_rank w"
proof -
  have step: "server_advances tr parse d limit t final w (maybe_arrives parse w)"
    by (rule maybe_arrives_advances [OF assms])
  have rank: "server_rank (after_request parse w) + (length (sw_outages w) - length (tl (sw_outages w))) = server_rank (maybe_arrives parse w)"
    by (cases "sw_outages w") (simp_all add: after_request_def server_rank_def)
  from rank step show "sw_outages w \<noteq> [] \<Longrightarrow> server_rank (after_request parse w) < server_rank w"
    by (cases "sw_outages w") (simp_all add: server_advances_def)
  from rank step show "server_advances tr parse d limit t final w (after_request parse w)"
    by (auto simp: server_advances_def after_request_def server_ok_def final_store_def server_stream_def)
qed

lemma server_stream_final:
  assumes "server_ok tr parse d limit t final w"
  shows "prefix (server_stream t w) final"
proof -
  have "final = lifecycle_log (final_store parse w) t" using assms by (simp add: server_ok_def)
  then show ?thesis
    unfolding final_store_def server_stream_def by (simp add: fold_appendBatch_grows)
qed

lemma accepted_page:
  assumes "accepted_events parse final" and "prefix evs final"
  shows "accepted_events parse (take k (drop n evs))"
proof -
  have "set (take k (drop n evs)) \<subseteq> set final"
    using set_take_subset [of k "drop n evs"] set_drop_subset [of n evs] set_mono_prefix [OF assms(2)] by blast
  then show ?thesis using assms(1) by (auto simp: accepted_events_def list_all_iff)
qed

lemma client_replay_run:
  assumes "server_ok tr parse d limit t final w" and "n \<le> length (server_stream t w)"
    and "rq = \<lparr>rq_turnId = t, rq_afterSequence = Some n, rq_limit = limit\<rparr>"
  obtains "client_replayLifecycleEvents tr rq w = (Inl network_error, after_request parse w)" and "sw_outages w \<noteq> []"
  | nxt where "client_replayLifecycleEvents tr rq w = (Inr \<lparr>rp_events = take (server_limit d limit) (drop n (server_stream t (after_request parse w))),
      rp_nextSequence = nxt\<rparr>, after_request parse w)"
proof -
  let ?w = "after_request parse w" and ?page = "take (server_limit d limit) (drop n (server_stream t (after_request parse w)))"
  have ok: "server_ok tr parse d limit t final ?w" and grown: "prefix (server_stream t w) (server_stream t ?w)"
    using after_request_advances(1) [OF assms(1)] by (simp_all add: server_advances_def)
  have safe: "safe_sequence (length final)" and final: "accepted_events parse final"
    using ok by (simp_all add: server_ok_def)
  have len: "length (server_stream t ?w) \<le> length final" "n \<le> length (server_stream t ?w)"
    using prefix_length_le [OF server_stream_final [OF ok]] prefix_length_le [OF grown] assms(2) by simp_all
  then have n: "safe_sequence n" by (intro safe_sequence_le [OF safe]) simp
  have lim: "ri_limit (replay_input d rq) = int (server_limit d limit)"
    using assms(3) by (auto simp: replay_input_def server_limit_def split: option.splits)
  have "validateReplay (replay_input d rq) = Inr ()"
    using ok assms(3) n lim
    by (simp add: validateReplay_def MAX_REPLAY_LIMIT_def server_ok_def is_safe_integer_def)
      (simp add: replay_input_def is_safe_integer_def safe_sequence_def MAX_SAFE_INTEGER_def)
  from replay_page [OF _ this, of "sw_store ?w"] ok assms(3) lim
  have page: "replay (sw_store ?w) (replay_input d rq) = Inr (?page, if ?page = [] then None else Some (n + length ?page))"
    by (simp add: server_ok_def server_stream_def replay_input_def Let_def)
  define nxt where "nxt = (if ?page = [] then None else Some (n + length ?page))"
  have "n + length ?page \<le> length final" using len by simp
  then have next_safe: "pred_option safe_sequence nxt"
    by (auto simp: nxt_def intro: safe_sequence_le [OF safe])
  have accepted: "tr_replay tr = server_replay parse d" "tr_parseReplayRequest tr rq = Some rq"
    "tr_parseReplayResponse tr \<lparr>rp_events = ?page, rp_nextSequence = nxt\<rparr> = Some \<lparr>rp_events = ?page, rp_nextSequence = nxt\<rparr>"
    using ok n next_safe accepted_page [OF final server_stream_final [OF ok]]
    by (simp_all add: server_ok_def speaks_protocol_def assms(3) Let_def)
  have answer: "server_replay parse d rq w = (if sw_outages w \<noteq> [] \<and> hd (sw_outages w) then (Inl network_error, ?w)
      else (Inr \<lparr>rp_events = ?page, rp_nextSequence = nxt\<rparr>, ?w))"
    unfolding server_replay_def Let_def after_request_def [symmetric] by (simp only: page nxt_def sum.case prod.case)
  show ?thesis
  proof (cases "sw_outages w \<noteq> [] \<and> hd (sw_outages w)")
    case True
    then show ?thesis
      by (intro that(1)) (simp_all add: client_replayLifecycleEvents_def invoke_def accepted(1,2) answer parseContract_def op_defs
        normalizePlatformClientOperationError_def network_error_def)
  next
    case False
    show ?thesis
      by (intro that(2) [of nxt])
        (simp add: client_replayLifecycleEvents_def invoke_def accepted answer if_not_P [OF False] parseContract_def op_defs)
  qed
qed

lemma server_contiguous: "server_ok tr parse d limit t final w \<Longrightarrow> contiguous_stream t (server_stream t w)"
  by (simp add: server_ok_def server_stream_def store_inv_def)

interpretation server: lifecycle_server "client_ports tr parse d" t limit "server_stream t" server_rank
  "server_ok tr parse d limit t final" "server_advances tr parse d limit t final" for tr parse d limit t final
proof unfold_locales
  fix w w' n r
  assume ok: "server_ok tr parse d limit t final w" and n: "n \<le> length (server_stream t w)"
    and call: "fp_replay (client_ports tr parse d) \<lparr>rq_turnId = t, rq_afterSequence = Some n, rq_limit = limit\<rparr> w = (r, w')"
  show "server_advances tr parse d limit t final w w'"
    by (rule client_replay_run [OF ok n refl]) (use call after_request_advances(1) [OF ok] in \<open>auto simp: client_ports_def server_ports_def\<close>)
next
  fix w w' n e
  assume ok: "server_ok tr parse d limit t final w" and n: "n \<le> length (server_stream t w)"
    and call: "fp_replay (client_ports tr parse d) \<lparr>rq_turnId = t, rq_afterSequence = Some n, rq_limit = limit\<rparr> w = (Inl e, w')"
  show "isRetryableLifecycleTransportError e \<and> server_rank w' < server_rank w"
    by (rule client_replay_run [OF ok n refl])
      (use call after_request_advances(2) [OF ok] in
        \<open>auto simp: client_ports_def server_ports_def network_error_def NON_RETRYABLE_LIFECYCLE_ERROR_CODES_def\<close>)
next
  fix w w' n response
  assume ok: "server_ok tr parse d limit t final w" and n: "n \<le> length (server_stream t w)"
    and call: "fp_replay (client_ports tr parse d) \<lparr>rq_turnId = t, rq_afterSequence = Some n, rq_limit = limit\<rparr> w = (Inr response, w')"
  have "0 < server_limit d limit" using ok by (simp add: server_ok_def)
  then show "\<exists>k > 0. rp_events response = take k (drop n (server_stream t w'))"
    by (intro exI conjI, assumption) (rule client_replay_run [OF ok n refl], use call in \<open>auto simp: client_ports_def server_ports_def\<close>)
next
  fix w ms
  assume ok: "server_ok tr parse d limit t final w" and open_stream: "\<not> ended (server_stream t w)"
  then have "sw_pending w \<noteq> []" by (auto simp: server_ok_def final_store_def server_stream_def)
  then show "server_rank (fp_timer (client_ports tr parse d) ms w) < server_rank w"
    by (cases "sw_pending w") (simp_all add: client_ports_def server_ports_def append_pending_def server_rank_def)
qed (rule server_advances_def, simp_all add: client_ports_def server_ports_def maybe_arrives_advances append_pending_advances server_contiguous)


lemma ended_server_stream:
  assumes "server_ok tr parse d limit t final w" and "ended (server_stream t w)"
  shows "server_stream t w = final"
proof -
  have final: "final = lifecycle_log (final_store parse w) t" and inv: "store_inv (sw_store w)"
    using assms(1) by (simp_all add: server_ok_def)
  have "contiguous_stream t final"
    using fold_appendBatch_inv [OF inv, of parse "sw_pending w"] unfolding final final_store_def by (simp add: store_inv_def)
  moreover note server_stream_final [OF assms(1)]
  ultimately show ?thesis using contiguous_no_extension assms(2) by metis
qed

lemma follows_to_the_end:
  assumes "speaks_protocol tr parse d (fr_replayLimit fr) (fr_turnId fr)" and "tr_parseFollowRequest tr fr = Some fr"
    and "0 < server_limit d (fr_replayLimit fr)" "server_limit d (fr_replayLimit fr) \<le> 1000"
    and "store_inv (sw_store w)" and "final = lifecycle_log (final_store parse w) (fr_turnId fr)"
    and "ended final" and "accepted_events parse final" and "safe_sequence (length final)"
    and "cursor fr \<le> length (lifecycle_log (sw_store w) (fr_turnId fr))" and "cursor fr < length final"
  shows "\<exists>s. followTurnLifecycle tr (server_ports parse d) fr w = Some (Inr (Inr (), s)) \<and>
    fs_yielded s = drop (cursor fr) final"
proof -
  let ?t = "fr_turnId fr" and ?l = "fr_replayLimit fr"
  have ok: "server_ok tr parse d ?l ?t final w" using assms by (simp add: server_ok_def)
  have asks: "server.asks ?t ?l fr" by (simp add: server.asks_def)
  have cur: "ended (server_stream ?t w) \<longrightarrow> cursor fr < length (server_stream ?t w)"
    using ended_server_stream [OF ok] assms(11) by auto
  obtain s where s: "followLifecycleEvents (client_ports tr parse d) fr w = Some (Inr (), s)"
    "server_advances tr parse d ?l ?t final w (fs_world s)" "ended (server_stream ?t (fs_world s))"
    "fs_yielded s = drop (cursor fr) (server_stream ?t (fs_world s))"
    using server.follow_reaches_the_end [OF ok asks _ cur] assms(10) unfolding server_stream_def by blast
  have "followTurnLifecycle tr (server_ports parse d) fr w = Some (Inr (Inr (), s))"
    using s(1) assms(2) by (simp add: followTurnLifecycle_def parseContract_def client_ports_def)
  moreover have "server_stream ?t (fs_world s) = final"
    using ended_server_stream [OF server.advances_ok [OF s(2)] s(3)] .
  ultimately show ?thesis using s(4) by metis
qed

text \<open>
  A client that is not aborted follows a turn to its end. The server answers from a memory store, its network fails on
  any of the first requests, and the runtime appends batches while the client waits, asks or hands over an event, until
  the stream has its terminal event; the event schema accepts the events of the final stream. Then
  \<open>followTurnLifecycle\<close> returns, and it has yielded exactly the events of the final stream after the client's cursor: each
  one once, in order, up to the terminal event.
\<close>
theorem client_follows_turn_to_its_end:
  assumes "speaks_protocol tr parse d (fr_replayLimit fr) (fr_turnId fr)" and "tr_parseFollowRequest tr fr = Some fr"
    and "0 < server_limit d (fr_replayLimit fr)" "server_limit d (fr_replayLimit fr) \<le> 1000"
    and "store_inv (sw_store w)" and "final = lifecycle_log (final_store parse w) (fr_turnId fr)"
    and "ended final" and "accepted_events parse final" and "safe_sequence (length final)"
    and "cursor fr \<le> length (lifecycle_log (sw_store w) (fr_turnId fr))" and "cursor fr < length final"
  shows "\<exists>s. followTurnLifecycle tr (server_ports parse d) fr w = Some (Inr (Inr (), s)) \<and>
    fs_yielded s = drop (cursor fr) final"
  by (rule follows_to_the_end [OF assms])

definition sample_final_event :: LifecycleEvent where
  "sample_final_event =
     \<lparr>eventId = ''evt_abcdef_2'', threadId = ''thr_abcdef'', turnId = ''trn_abcdef'', runAttemptId = ''att_abcdef'', sequence = 2,
      idempotencyKey = ''trn_abcdef:2:turn.failed'', producerId = ''kernel'', schemaVersion = 1, createdAt = sample_time,
      etype = E_turn_failed, itemId = None, toolCallId = None, approvalId = None, payload = []\<rparr>"

text \<open>An event schema that checks the sequence and the identifier of the turn, and response schemas built on an event schema.\<close>

definition strict_schema :: event_schema where
  "strict_schema ev = (if safe_sequence (sequence ev) \<and> startsWith (turnId ev) ''trn_'' then Some ev else None)"

definition sample_transport :: "event_schema \<Rightarrow> server_transport" where
  "sample_transport parse = \<lparr>tr_replay = server_replay parse 100, tr_protocolError = (\<lambda>_. None),
     tr_parseReplayRequest = (\<lambda>rq. if pred_option safe_sequence (rq_afterSequence rq) then Some rq else None),
     tr_parseReplayResponse = (\<lambda>response. if accepted_events parse (rp_events response) \<and>
       pred_option safe_sequence (rp_nextSequence response) then Some response else None), tr_parseFollowRequest = Some\<rparr>"

definition sample_world :: server_world where
  "sample_world = \<lparr>sw_store = sample_store, sw_pending = [[], [sample_final_event]], sw_arrivals = [False, True], sw_outages = [True]\<rparr>"

definition sample_follow :: FollowLifecycleRequest where
  "sample_follow = \<lparr>fr_turnId = ''trn_abcdef'', fr_afterSequence = Some 1, fr_replayLimit = None\<rparr>"

lemma sample_speaks: "speaks_protocol (sample_transport parse) parse 100 None ''trn_abcdef''"
  by (simp add: speaks_protocol_def sample_transport_def Let_def)

lemma sample_fields:
  "fr_turnId sample_follow = ''trn_abcdef''" "fr_replayLimit sample_follow = None" "cursor sample_follow = 1"
  "cursor (sample_follow\<lparr>fr_afterSequence := Some 2\<rparr>) = 2" "tr_parseFollowRequest (sample_transport parse) fr = Some fr"
  "sw_store sample_world = sample_store" "turnId sample_final_event = ''trn_abcdef''"
  "terminal_event_type (etype sample_final_event)" "server_limit 100 None = 100"
  by (simp_all add: sample_follow_def sample_transport_def sample_world_def sample_final_event_def cursor_def terminal_event_type_def
      server_limit_def)

lemma sample_accepted: "strict_schema sample_final_event = Some sample_final_event"
  "strict_schema (stored_event (hd (turn_stored sample_store ''trn_abcdef''))) = Some (stored_event (hd (turn_stored sample_store ''trn_abcdef'')))"
  by (simp_all add: strict_schema_def sample_final_event_def safe_sequence_def MAX_SAFE_INTEGER_def startsWith_def
      turn_stored_def sample_store_def store_event_def empty_lifecycle_store_def Let_def)

lemma sample_append: "appendBatch strict_schema [sample_final_event] sample_store = (Inr [sample_final_event], store_event sample_final_event sample_store)"
  "appendBatch strict_schema [] st = (Inr [], st)"
proof -
  have "parse_all strict_schema [sample_final_event] = Inr [sample_final_event]" by (simp add: sample_accepted)
  then have "appendBatch strict_schema [sample_final_event] sample_store = appendBatch Some [sample_final_event] sample_store"
    by (simp add: appendBatch_def)
  then show "appendBatch strict_schema [sample_final_event] sample_store = (Inr [sample_final_event], store_event sample_final_event sample_store)"
    by (simp add: appendBatch_def commitBatch_def bindE_def returnE_def appendOne_def assertAppendable_def Let_def
        turn_stored_def sample_store_def store_event_def empty_lifecycle_store_def idempotency_index_def sample_final_event_def terminal_event_type_def)
qed (simp add: appendBatch_def commitBatch_def returnE_def)

lemma sample_log: "lifecycle_log sample_store ''trn_abcdef'' = [stored_event (hd (turn_stored sample_store ''trn_abcdef''))]"
  by (simp add: lifecycle_log_def turn_stored_def sample_store_def store_event_def empty_lifecycle_store_def Let_def)

lemma sample_final_log:
  "lifecycle_log (final_store strict_schema sample_world) ''trn_abcdef'' =
     [stored_event (hd (turn_stored sample_store ''trn_abcdef'')), sample_final_event]"
  using sample_log
  by (simp add: final_store_def sample_world_def sample_append log_store_event) (simp add: sample_final_event_def)

lemma sample_room: "safe_sequence 2" "safe_sequence (Suc (Suc 0))"
  by (simp_all add: safe_sequence_def MAX_SAFE_INTEGER_def)

lemma client_follows_turn_to_its_end_witness:
  "\<exists>s. followTurnLifecycle (sample_transport strict_schema) (server_ports strict_schema 100) sample_follow sample_world = Some (Inr (Inr (), s)) \<and>
    fs_yielded s = [sample_final_event]"
proof -
  have "\<exists>s. followTurnLifecycle (sample_transport strict_schema) (server_ports strict_schema 100) sample_follow sample_world = Some (Inr (Inr (), s)) \<and>
    fs_yielded s = drop (cursor sample_follow) (lifecycle_log (final_store strict_schema sample_world) ''trn_abcdef'')"
    by (rule client_follows_turn_to_its_end)
      (simp_all add: sample_fields sample_speaks sample_final_log ended_def sample_store_inv sample_log accepted_events_def
        sample_accepted sample_room)
  then show ?thesis by (simp add: sample_final_log sample_fields)
qed

text \<open>
  C33. A client whose cursor is already at the terminal event of the turn is answered with empty pages only: as long as it
  is not aborted, \<open>followTurnLifecycle\<close> polls the server and never returns. The stream is that of a memory store whose
  events the event schema accepts, the client's schemas accept the follower's requests and the pages of such events, and
  the page size is within the server's limits.
\<close>
theorem client_at_terminal_event_polls_for_ever:
  assumes "speaks_protocol tr parse d (fr_replayLimit fr) (fr_turnId fr)" and "tr_parseFollowRequest tr fr = Some fr"
    and "0 < server_limit d (fr_replayLimit fr)" "server_limit d (fr_replayLimit fr) \<le> 1000"
    and "store_inv (sw_store w)" and "stream = lifecycle_log (sw_store w) (fr_turnId fr)"
    and "ended stream" and "accepted_events parse stream" and "safe_sequence (length stream)" and "cursor fr = length stream"
  shows "followTurnLifecycle tr (server_ports parse d) fr w = None"
proof -
  let ?t = "fr_turnId fr" and ?l = "fr_replayLimit fr"
  have "contiguous_stream ?t (lifecycle_log (final_store parse w) ?t)"
    using fold_appendBatch_inv [OF assms(5)] by (simp add: final_store_def store_inv_def)
  then have final: "lifecycle_log (final_store parse w) ?t = stream"
    using contiguous_no_extension fold_appendBatch_grows assms(6,7) unfolding final_store_def by metis
  have ok: "server_ok tr parse d ?l ?t stream w" using assms final by (simp add: server_ok_def)
  have "followLifecycleEvents (client_ports tr parse d) fr w = None"
    using assms(6-10) by (intro server.follow_past_the_end [OF ok]) (simp_all add: server.asks_def server_stream_def)
  then show ?thesis using assms(2) by (simp add: followTurnLifecycle_def parseContract_def client_ports_def)
qed

lemma client_at_terminal_event_polls_for_ever_witness:
  "followTurnLifecycle (sample_transport strict_schema) (server_ports strict_schema 100) (sample_follow\<lparr>fr_afterSequence := Some 2\<rparr>)
     (sample_world\<lparr>sw_store := store_event sample_final_event sample_store\<rparr>) = None"
proof (rule client_at_terminal_event_polls_for_ever)
  show "store_inv (sw_store (sample_world\<lparr>sw_store := store_event sample_final_event sample_store\<rparr>))"
    using appendBatch_inv [OF sample_store_inv, of strict_schema "[sample_final_event]"] by (simp add: sample_append)
qed (simp_all add: sample_fields sample_speaks ended_def log_store_event sample_log accepted_events_def sample_accepted sample_room,
    simp_all add: sample_fields sample_room sample_accepted)

end
