(* ===== verification/Workflow_Projection.thy ===== *)
theory Workflow_Projection
  imports Client_Continuation
begin

text \<open>
  What a client shows of a turn: the reducer over lifecycle events of packages/platform-client-sdk/src/workflow
  (turn-workflow-projection.ts, workflow-request-projection.ts and workflow-item-operations.ts). The reducer is a pure
  function that throws when an event lacks an identifier it needs. Schemas of the protocol library and the parsing of
  dates are parameters.
\<close>

section \<open>Events and JSON values as the reducer reads them\<close>

text \<open>The events of user input requests also carry the identifier of the request.\<close>

record ClientEvent = LifecycleEvent +
  requestId :: "string option"

definition client_event :: "LifecycleEvent \<Rightarrow> ClientEvent" where
  "client_event ev =
     \<lparr>eventId = eventId ev, threadId = threadId ev, turnId = turnId ev, runAttemptId = runAttemptId ev, sequence = sequence ev,
      idempotencyKey = idempotencyKey ev, producerId = producerId ev, schemaVersion = schemaVersion ev, createdAt = createdAt ev,
      etype = etype ev, itemId = itemId ev, toolCallId = toolCallId ev, approvalId = approvalId ev, payload = payload ev,
      requestId = None\<rparr>"

primrec item_kind_name :: "ItemKind \<Rightarrow> string" where
  "item_kind_name Kind_user_message = ''user_message''"
| "item_kind_name Kind_commentary = ''commentary''"
| "item_kind_name Kind_reasoning = ''reasoning''"
| "item_kind_name Kind_plan = ''plan''"
| "item_kind_name Kind_assistant_message = ''assistant_message''"
| "item_kind_name Kind_tool_call = ''tool_call''"
| "item_kind_name Kind_command_execution = ''command_execution''"
| "item_kind_name Kind_file_change = ''file_change''"
| "item_kind_name Kind_git_operation = ''git_operation''"
| "item_kind_name Kind_approval_request = ''approval_request''"
| "item_kind_name Kind_user_input_request = ''user_input_request''"
| "item_kind_name Kind_artifact = ''artifact''"
| "item_kind_name Kind_context_compaction = ''context_compaction''"
| "item_kind_name Kind_warning = ''warning''"

text \<open>The string, and the fields, of a value that the runtime holds typed.\<close>

fun json_string :: "pval \<Rightarrow> string option" where
  "json_string (PStr s) = Some s"
| "json_string (PKind k) = Some (item_kind_name k)"
| "json_string (PApproval st) = Some (approval_status_name st)"
| "json_string v = None"

primrec blocking_fields :: "TurnBlockingState \<Rightarrow> JsonRecord" where
  "blocking_fields Blocking_none = []"
| "blocking_fields (Waiting_for_approval i a) = [(''itemId'', PStr i), (''approvalId'', PStr a)]"
| "blocking_fields (Waiting_for_user_input i r) = [(''itemId'', PStr i), (''requestId'', PStr r)]"
| "blocking_fields (Retry_scheduled r) = [(''runAttemptId'', PStr r)]"

fun readRecord :: "pval option \<Rightarrow> JsonRecord option" where
  "readRecord (Some (PObj r)) = Some r"
| "readRecord (Some (PFailure c m r i d)) =
     Some [(''code'', PStr (protocol_code_name c)), (''message'', PStr m), (''retryable'', PBool r),
       (''correlationId'', case i of None \<Rightarrow> PNull | Some x \<Rightarrow> PStr x), (''details'', case d of None \<Rightarrow> PNull | Some x \<Rightarrow> PObj x)]"
| "readRecord (Some (POutcome st r)) = Some ((''status'', PStr (turn_status_name (turn_of_terminal st))) # r)"
| "readRecord (Some (PBlocking b)) = Some ((''kind'', PStr (blocking_kind b)) # blocking_fields b)"
| "readRecord v = None"

definition readString :: "JsonRecord \<Rightarrow> string \<Rightarrow> string option" where
  "readString p key =
     (case Option.bind (map_of p key) json_string of
        None \<Rightarrow> None
      | Some s \<Rightarrow> if trim s = [] then None else Some s)"

text \<open>\<open>x ?? y\<close>, and \<open>record?.key\<close>.\<close>

definition orElse :: "'a option \<Rightarrow> 'a option \<Rightarrow> 'a option" where
  "orElse x y = (case x of None \<Rightarrow> y | Some v \<Rightarrow> Some v)"

definition field_of :: "JsonRecord option \<Rightarrow> string \<Rightarrow> pval option" where
  "field_of r key = (case r of None \<Rightarrow> None | Some kvs \<Rightarrow> map_of kvs key)"

definition non_null :: "pval option \<Rightarrow> pval option" where
  "non_null v = (if v = Some PNull then None else v)"

definition readTextPayload :: "JsonRecord \<Rightarrow> string" where
  "readTextPayload p =
     (case orElse (readString p ''delta'') (orElse (readString p ''text'')
            (orElse (readString p ''content'') (readString p ''summary''))) of
        None \<Rightarrow> [] | Some s \<Rightarrow> s)"

definition readBoundedString :: "pval option \<Rightarrow> nat \<Rightarrow> string option" where
  "readBoundedString v maxLength =
     (case Option.bind v json_string of
        None \<Rightarrow> None
      | Some s \<Rightarrow> if trim s = [] then None else Some (take maxLength (trim s)))"

definition readFiniteNumber :: "pval option \<Rightarrow> rat option" where
  "readFiniteNumber v = (case v of Some (PNum n) \<Rightarrow> Some n | _ \<Rightarrow> None)"

section \<open>The projection\<close>

datatype WorkflowPhase =
    Ph_starting | Ph_working | Ph_waiting_for_approval | Ph_waiting_for_user_input | Ph_completed | Ph_failed | Ph_interrupted

datatype WorkflowItemStatus = Ws_active | Ws_completed | Ws_failed | Ws_declined | Ws_interrupted

datatype (plugins only: code size) WorkflowItemKind =
    Wk_reasoning | Wk_commentary | Wk_plan | Wk_user_message | Wk_assistant_message | Wk_tool_call | Wk_command_execution
  | Wk_file_change | Wk_approval_request | Wk_user_input_request | Wk_context_compaction | Wk_warning | Wk_unknown

datatype compaction_phase = Cp_compacting | Cp_compacted | Cp_failed

datatype edit_change = Ec_created | Ec_modified

record PlanWorkflowStep =
  ps_stepId :: string
  ps_title :: string
  ps_status :: pval

record WorkflowRequestQuestion =
  wq_id :: string
  wq_question :: string

record WorkflowRequestAnswer =
  wa_questionId :: string
  wa_value :: string

text \<open>The state of a request is one of the strings of its union type; an approval puts its decision there.\<close>

record WorkflowRequest =
  wr_requestId :: string
  wr_questions :: "WorkflowRequestQuestion list"
  wr_answers :: "WorkflowRequestAnswer list"
  wr_state :: string

record WorkflowToolDetails =
  td_toolName :: "string option"
  td_filePath :: "string option"
  td_command :: "string option"
  td_outputContent :: "string option"
  td_diffPreview :: "string option"
  td_additions :: "rat option"
  td_deletions :: "rat option"
  td_editChange :: "edit_change option"

record WorkflowItem =
  wi_itemId :: string
  wi_sequence :: nat
  wi_kind :: WorkflowItemKind
  wi_status :: WorkflowItemStatus
  wi_text :: string
  wi_detail :: "string option"
  wi_toolFamily :: "string option"
  wi_safeSummary :: "string option"
  wi_inputSummary :: "string option"
  wi_outputSummary :: "string option"
  wi_details :: WorkflowToolDetails
  wi_planSteps :: "PlanWorkflowStep list"
  wi_compactionPhase :: "compaction_phase option"
  wi_startedAt :: string
  wi_completedAt :: "string option"
  wi_request :: "WorkflowRequest option"

record WorkflowApprovalOption =
  ao_id :: string
  ao_label :: string
  ao_description :: "string option"

record WorkflowApproval =
  wp_approvalId :: string
  wp_itemId :: string
  wp_question :: string
  wp_metadata :: JsonRecord
  wp_options :: "WorkflowApprovalOption list"
  wp_requestedAt :: string
  wp_decidedAt :: "string option"
  wp_decision :: "string option"

record WorkflowTerminal =
  wt_state :: TurnTerminalStatus
  wt_eventId :: string
  wt_content :: string
  wt_errorCode :: "string option"
  wt_occurredAt :: string

datatype snapshot_state = Ss_unknown | Ss_captured | Ss_unavailable

record TurnWorkflowProjection =
  tp_turnId :: string
  tp_revisionOfTurnId :: "string option"
  tp_continuationOfTurnId :: "string option"
  tp_originalPromptId :: "string option"
  tp_workspaceSnapshotState :: snapshot_state
  tp_resumeSnapshotAvailable :: "bool option"
  tp_executionCapability :: "string option"
  tp_workspaceSnapshotUnavailableReason :: "string option"
  tp_resumeUnavailableReason :: "string option"
  tp_lastSequence :: nat
  tp_items :: "WorkflowItem list"
  tp_pendingApproval :: "WorkflowApproval option"
  tp_terminal :: "WorkflowTerminal option"
  tp_turnDiff :: "pval option"
  tp_activeThinking :: bool
  tp_assistantText :: string
  tp_phase :: WorkflowPhase
  tp_startedAt :: "string option"
  tp_settledAt :: "string option"
  tp_contextBudget :: "pval option"
  tp_usage :: "pval option"

definition createTurnWorkflowProjection :: "string \<Rightarrow> TurnWorkflowProjection" where
  "createTurnWorkflowProjection t =
     \<lparr>tp_turnId = t, tp_revisionOfTurnId = None, tp_continuationOfTurnId = None, tp_originalPromptId = None,
      tp_workspaceSnapshotState = Ss_unknown, tp_resumeSnapshotAvailable = None, tp_executionCapability = None,
      tp_workspaceSnapshotUnavailableReason = None, tp_resumeUnavailableReason = None, tp_lastSequence = 0, tp_items = [],
      tp_pendingApproval = None, tp_terminal = None, tp_turnDiff = None, tp_activeThinking = False, tp_assistantText = [],
      tp_phase = Ph_starting, tp_startedAt = None, tp_settledAt = None, tp_contextBudget = None, tp_usage = None\<rparr>"

section \<open>Reading payloads\<close>

definition item_kinds :: "(string \<times> WorkflowItemKind) list" where
  "item_kinds =
     [(''reasoning'', Wk_reasoning), (''commentary'', Wk_commentary), (''assistant_message'', Wk_assistant_message),
      (''plan'', Wk_plan), (''tool_call'', Wk_tool_call), (''command_execution'', Wk_command_execution),
      (''file_change'', Wk_file_change), (''approval_request'', Wk_approval_request),
      (''user_input_request'', Wk_user_input_request), (''context_compaction'', Wk_context_compaction),
      (''warning'', Wk_warning), (''user_message'', Wk_user_message)]"

definition readItemKind :: "JsonRecord \<Rightarrow> WorkflowItemKind" where
  "readItemKind p =
     (case Option.bind (readString p ''kind'') (map_of item_kinds) of None \<Rightarrow> Wk_unknown | Some k \<Rightarrow> k)"

definition readToolFamily :: "JsonRecord \<Rightarrow> string option" where
  "readToolFamily p =
     orElse (readBoundedString (map_of p ''toolFamily'') 80)
       (readBoundedString (field_of (readRecord (map_of p ''display'')) ''family'') 80)"

definition readDisplayInput :: "JsonRecord \<Rightarrow> string option" where
  "readDisplayInput p =
     orElse (readBoundedString (map_of p ''inputSummary'') 280)
       (readBoundedString (field_of (readRecord (map_of p ''display'')) ''inputSummary'') 280)"

definition readDisplayTitle :: "JsonRecord \<Rightarrow> string option" where
  "readDisplayTitle p = readBoundedString (field_of (readRecord (map_of p ''display'')) ''title'') 160"

definition readDisplayOutput :: "JsonRecord \<Rightarrow> string option" where
  "readDisplayOutput p =
     orElse (readBoundedString (map_of p ''outputSummary'') 280)
       (readBoundedString (field_of (readRecord (map_of p ''display'')) ''outputSummary'') 280)"

definition readDisplayDetail :: "JsonRecord \<Rightarrow> string option" where
  "readDisplayDetail p =
     (let display = readRecord (map_of p ''display'') in
      orElse (readBoundedString (map_of p ''detail'') 280)
        (orElse (readBoundedString (field_of display ''inputSummary'') 280)
          (readBoundedString (field_of display ''outputSummary'') 280)))"

definition readCompactionPhase :: "JsonRecord \<Rightarrow> compaction_phase option" where
  "readCompactionPhase p =
     (let v = Option.bind (orElse (non_null (map_of p ''compactionPhase'')) (map_of p ''phase'')) json_string in
      if v = Some ''compacting'' then Some Cp_compacting
      else if v = Some ''compacted'' then Some Cp_compacted
      else if v = Some ''failed'' then Some Cp_failed
      else None)"

definition readEditChange :: "pval option \<Rightarrow> edit_change option" where
  "readEditChange v =
     (case Option.bind v json_string of
        None \<Rightarrow> None
      | Some s \<Rightarrow> if s = ''created'' then Some Ec_created else if s = ''modified'' then Some Ec_modified else None)"

definition readToolDetails :: "JsonRecord \<Rightarrow> WorkflowToolDetails" where
  "readToolDetails p =
     (let display = readRecord (map_of p ''display''); inp = readRecord (map_of p ''input'');
          result = readRecord (map_of p ''result''); metadata = readRecord (field_of result ''metadata'');
          activity = orElse (readRecord (field_of metadata ''activity'')) metadata in
      \<lparr>td_toolName = readBoundedString (field_of display ''namespace'') 120,
       td_filePath = orElse (readBoundedString (field_of inp ''path'') 500) (readBoundedString (field_of activity ''filePath'') 500),
       td_command = readBoundedString (field_of inp ''command'') 4000,
       td_outputContent = readBoundedString (field_of result ''content'') 16000,
       td_diffPreview = readBoundedString (field_of activity ''diffPreview'') 16000,
       td_additions = readFiniteNumber (field_of activity ''additions''),
       td_deletions = readFiniteNumber (field_of activity ''deletions''),
       td_editChange = readEditChange (field_of activity ''change'')\<rparr>)"

definition mergeToolDetails :: "WorkflowToolDetails \<Rightarrow> WorkflowToolDetails \<Rightarrow> WorkflowToolDetails" where
  "mergeToolDetails current nxt =
     \<lparr>td_toolName = orElse (td_toolName nxt) (td_toolName current), td_filePath = orElse (td_filePath nxt) (td_filePath current),
      td_command = orElse (td_command nxt) (td_command current), td_outputContent = orElse (td_outputContent nxt) (td_outputContent current),
      td_diffPreview = orElse (td_diffPreview nxt) (td_diffPreview current), td_additions = orElse (td_additions nxt) (td_additions current),
      td_deletions = orElse (td_deletions nxt) (td_deletions current), td_editChange = orElse (td_editChange nxt) (td_editChange current)\<rparr>"

definition no_details :: WorkflowToolDetails where
  "no_details = \<lparr>td_toolName = None, td_filePath = None, td_command = None, td_outputContent = None, td_diffPreview = None,
     td_additions = None, td_deletions = None, td_editChange = None\<rparr>"

text \<open>\<open>String(status)\<close> is one of the three statuses for such a string, and for an array of one such value.\<close>

fun plan_status :: "pval \<Rightarrow> bool" where
  "plan_status (PStr s) \<longleftrightarrow> s \<in> {''pending'', ''in_progress'', ''completed''}"
| "plan_status (PArr [v]) \<longleftrightarrow> plan_status v"
| "plan_status v \<longleftrightarrow> False"

definition read_plan_step :: "pval \<Rightarrow> PlanWorkflowStep list" where
  "read_plan_step step =
     (case readRecord (Some step) of
        None \<Rightarrow> []
      | Some r \<Rightarrow>
          (case (readString r ''stepId'', readString r ''title'', map_of r ''status'') of
             (Some stepId, Some title, Some status) \<Rightarrow>
               if plan_status status then [\<lparr>ps_stepId = stepId, ps_title = title, ps_status = status\<rparr>] else []
           | _ \<Rightarrow> []))"

definition readPlanSteps :: "JsonRecord \<Rightarrow> PlanWorkflowStep list" where
  "readPlanSteps p = (case map_of p ''steps'' of Some (PArr steps) \<Rightarrow> concat (map read_plan_step steps) | _ \<Rightarrow> [])"

definition appendBounded :: "string option \<Rightarrow> string \<Rightarrow> string option" where
  "appendBounded current nxt =
     (if nxt = [] then current else Some (take 4000 ((case current of None \<Rightarrow> [] | Some c \<Rightarrow> c) @ nxt)))"


section \<open>Operations on items\<close>

definition upsertItem :: "TurnWorkflowProjection \<Rightarrow> WorkflowItem \<Rightarrow> TurnWorkflowProjection" where
  "upsertItem p item =
     p\<lparr>tp_items :=
        (if list_ex (\<lambda>candidate. wi_itemId candidate = wi_itemId item) (tp_items p)
         then map (\<lambda>candidate. if wi_itemId candidate = wi_itemId item then item else candidate) (tp_items p)
         else tp_items p @ [item])\<rparr>"

definition updateItem :: "TurnWorkflowProjection \<Rightarrow> string \<Rightarrow> (WorkflowItem \<Rightarrow> WorkflowItem) \<Rightarrow> TurnWorkflowProjection" where
  "updateItem p i f = p\<lparr>tp_items := map (\<lambda>item. if wi_itemId item = i then f item else item) (tp_items p)\<rparr>"

text \<open>The error that the reducer throws: which identifier the event of which type lacks.\<close>

datatype projection_error = Missing_itemId LifecycleEventType | Missing_approvalId LifecycleEventType | Missing_requestId LifecycleEventType

definition requireItemId :: "ClientEvent \<Rightarrow> projection_error + string" where
  "requireItemId ev = (if truthy (itemId ev) then Inr (the (itemId ev)) else Inl (Missing_itemId (etype ev)))"

definition requireApprovalId :: "ClientEvent \<Rightarrow> projection_error + string" where
  "requireApprovalId ev = (case approvalId ev of Some a \<Rightarrow> Inr a | None \<Rightarrow> Inl (Missing_approvalId (etype ev)))"

definition requireRequestId :: "ClientEvent \<Rightarrow> projection_error + string" where
  "requireRequestId ev = (case requestId ev of Some r \<Rightarrow> Inr r | None \<Rightarrow> Inl (Missing_requestId (etype ev)))"

definition find_item :: "TurnWorkflowProjection \<Rightarrow> string \<Rightarrow> WorkflowItem option" where
  "find_item p i = List.find (\<lambda>item. wi_itemId item = i) (tp_items p)"

definition emptyWorkflowItem :: "string \<Rightarrow> nat \<Rightarrow> string \<Rightarrow> WorkflowItem" where
  "emptyWorkflowItem i seq now =
     \<lparr>wi_itemId = i, wi_sequence = seq, wi_kind = Wk_unknown, wi_status = Ws_active, wi_text = [], wi_detail = None,
      wi_toolFamily = None, wi_safeSummary = None, wi_inputSummary = None, wi_outputSummary = None, wi_details = no_details,
      wi_planSteps = [], wi_compactionPhase = None, wi_startedAt = now, wi_completedAt = None, wi_request = None\<rparr>"

definition createStartedItem :: "ClientEvent \<Rightarrow> projection_error + WorkflowItem" where
  "createStartedItem ev =
     (let p = payload ev in
      andThen (requireItemId ev) (\<lambda>i. Inr
        \<lparr>wi_itemId = i, wi_sequence = sequence ev, wi_kind = readItemKind p, wi_status = Ws_active, wi_text = readTextPayload p,
         wi_detail = readDisplayDetail p, wi_toolFamily = readToolFamily p,
         wi_safeSummary = orElse (readString p ''safeSummary'') (readDisplayTitle p),
         wi_inputSummary = orElse (readString p ''inputSummary'') (readDisplayInput p),
         wi_outputSummary = orElse (readString p ''outputSummary'') (readDisplayOutput p),
         wi_details = readToolDetails p, wi_planSteps = readPlanSteps p, wi_compactionPhase = readCompactionPhase p,
         wi_startedAt = createdAt ev, wi_completedAt = None, wi_request = None\<rparr>))"

definition appendItemText :: "TurnWorkflowProjection \<Rightarrow> string \<Rightarrow> string \<Rightarrow> TurnWorkflowProjection" where
  "appendItemText p i s =
     (if s = [] then p else updateItem p i (\<lambda>item. item\<lparr>wi_text := (if wi_text item = [] then s else wi_text item @ s)\<rparr>))"

definition appendReasoningText :: "TurnWorkflowProjection \<Rightarrow> ClientEvent \<Rightarrow> projection_error + TurnWorkflowProjection" where
  "appendReasoningText p ev =
     (if map_of (payload ev) ''displaySafe'' = Some (PBool True)
      then andThen (requireItemId ev) (\<lambda>i. Inr (appendItemText p i (readTextPayload (payload ev))))
      else Inr p)"

definition updatePlanItem :: "TurnWorkflowProjection \<Rightarrow> ClientEvent \<Rightarrow> projection_error + TurnWorkflowProjection" where
  "updatePlanItem p ev =
     andThen (requireItemId ev) (\<lambda>i. Inr (updateItem p i (\<lambda>item.
       item\<lparr>wi_detail := orElse (readString (payload ev) ''explanation'') (wi_detail item),
            wi_planSteps := readPlanSteps (payload ev)\<rparr>)))"

definition updateItemFromPayload :: "TurnWorkflowProjection \<Rightarrow> ClientEvent \<Rightarrow> projection_error + TurnWorkflowProjection" where
  "updateItemFromPayload p ev =
     (let d = payload ev in
      andThen (requireItemId ev) (\<lambda>i. Inr (updateItem p i (\<lambda>item.
        item\<lparr>wi_text := (if readTextPayload d = [] then wi_text item else readTextPayload d),
             wi_detail := orElse (readDisplayDetail d) (wi_detail item),
             wi_inputSummary := orElse (readString d ''inputSummary'') (wi_inputSummary item),
             wi_outputSummary := orElse (readString d ''outputSummary'') (wi_outputSummary item),
             wi_details := mergeToolDetails (wi_details item) (readToolDetails d),
             wi_compactionPhase := orElse (readCompactionPhase d) (wi_compactionPhase item),
             wi_planSteps := (if readPlanSteps d = [] then wi_planSteps item else readPlanSteps d)\<rparr>))))"

text \<open>The status in the type of a settling event, for an item and for a tool call.\<close>

definition settled_item_status :: "LifecycleEventType \<Rightarrow> WorkflowItemStatus" where
  "settled_item_status e =
     (if e = E_item_failed \<or> e = E_tool_call_failed then Ws_failed
      else if e = E_item_declined \<or> e = E_tool_call_declined then Ws_declined
      else if e = E_item_interrupted \<or> e = E_tool_call_interrupted then Ws_interrupted
      else Ws_completed)"

definition projection_settleItem :: "TurnWorkflowProjection \<Rightarrow> ClientEvent \<Rightarrow> TurnWorkflowProjection" where
  "projection_settleItem p ev =
     (let resultText = (if etype ev = E_item_completed then readTextPayload (payload ev) else []) in
      if \<not> truthy (itemId ev) then p
      else updateItem p (the (itemId ev)) (\<lambda>item.
        item\<lparr>wi_status := settled_item_status (etype ev), wi_text := (if resultText = [] then wi_text item else resultText),
             wi_completedAt := Some (createdAt ev)\<rparr>))"

definition started_tool_item :: "string \<Rightarrow> ClientEvent \<Rightarrow> WorkflowItem" where
  "started_tool_item i ev =
     (let p = payload ev in
      \<lparr>wi_itemId = i, wi_sequence = sequence ev, wi_kind = Wk_tool_call, wi_status = Ws_active, wi_text = readTextPayload p,
       wi_detail = readDisplayDetail p, wi_toolFamily = readToolFamily p, wi_safeSummary = readDisplayTitle p,
       wi_inputSummary = readDisplayInput p, wi_outputSummary = readDisplayOutput p, wi_details = readToolDetails p,
       wi_planSteps = [], wi_compactionPhase = None, wi_startedAt = createdAt ev, wi_completedAt = None, wi_request = None\<rparr>)"

definition handleToolCallEvent :: "TurnWorkflowProjection \<Rightarrow> ClientEvent \<Rightarrow> TurnWorkflowProjection" where
  "handleToolCallEvent p ev =
     (let d = payload ev in
      if \<not> truthy (itemId ev) then p
      else let i = the (itemId ev) in
        if etype ev = E_tool_call_started then (upsertItem p (started_tool_item i ev))\<lparr>tp_phase := Ph_working\<rparr>
        else if etype ev = E_tool_call_input_delta then updateItem p i (\<lambda>item.
          item\<lparr>wi_inputSummary := appendBounded (wi_inputSummary item) (readTextPayload d),
               wi_details := mergeToolDetails (wi_details item) (readToolDetails d)\<rparr>)
        else if etype ev = E_tool_call_output_delta then updateItem p i (\<lambda>item.
          item\<lparr>wi_outputSummary := appendBounded (wi_outputSummary item) (readTextPayload d)\<rparr>)
        else
          let resultText = (if etype ev = E_tool_call_completed then readTextPayload d else []) in
          updateItem p i (\<lambda>item.
            item\<lparr>wi_status := settled_item_status (etype ev),
                 wi_text := (if resultText = [] then wi_text item else resultText),
                 wi_details := mergeToolDetails (wi_details item) (readToolDetails d),
                 wi_completedAt := Some (createdAt ev)\<rparr>))"

definition upsertCompactionItem :: "TurnWorkflowProjection \<Rightarrow> ClientEvent \<Rightarrow> projection_error + TurnWorkflowProjection" where
  "upsertCompactionItem p ev =
     (let d = payload ev; phase = readCompactionPhase d in
      andThen (requireItemId ev) (\<lambda>i.
        let existing = find_item p i in
        Inr (upsertItem p ((emptyWorkflowItem i (case existing of None \<Rightarrow> sequence ev | Some item \<Rightarrow> wi_sequence item) (createdAt ev))\<lparr>
          wi_kind := Wk_context_compaction,
          wi_status := (if etype ev = E_context_compaction_completed then Ws_completed
                        else if etype ev = E_context_compaction_failed then Ws_failed else Ws_active),
          wi_text := (if etype ev = E_context_compaction_failed
                      then (case readString d ''error'' of None \<Rightarrow> ''Context compaction failed'' | Some e \<Rightarrow> e)
                      else if phase = Some Cp_compacted then ''Context compacted'' else ''Context compacting''),
          wi_compactionPhase := phase,
          wi_startedAt := (case existing of None \<Rightarrow> createdAt ev | Some item \<Rightarrow> wi_startedAt item),
          wi_completedAt := (if etype ev = E_context_compaction_completed \<or> etype ev = E_context_compaction_failed
                             then Some (createdAt ev) else None)\<rparr>))))"

section \<open>Requests\<close>

definition read_approval_option :: "pval \<Rightarrow> WorkflowApprovalOption list" where
  "read_approval_option entry =
     (case readRecord (Some entry) of
        None \<Rightarrow> []
      | Some r \<Rightarrow>
          (case (Option.bind (map_of r ''id'') json_string, Option.bind (map_of r ''label'') json_string, map_of r ''description'') of
             (Some i, Some l, Some PNull) \<Rightarrow> [\<lparr>ao_id = i, ao_label = l, ao_description = None\<rparr>]
           | (Some i, Some l, Some d) \<Rightarrow>
               (case json_string d of None \<Rightarrow> [] | Some s \<Rightarrow> [\<lparr>ao_id = i, ao_label = l, ao_description = Some s\<rparr>])
           | _ \<Rightarrow> []))"

definition readApprovalOptions :: "JsonRecord \<Rightarrow> WorkflowApprovalOption list" where
  "readApprovalOptions p = (case map_of p ''options'' of Some (PArr xs) \<Rightarrow> concat (map read_approval_option xs) | _ \<Rightarrow> [])"

text \<open>\<open>{ ...emptyWorkflowItem(...), ...existing, itemId, sequence: existing?.sequence ?? event.sequence }\<close>\<close>

definition request_base :: "TurnWorkflowProjection \<Rightarrow> string \<Rightarrow> ClientEvent \<Rightarrow> WorkflowItem" where
  "request_base p i ev = (case find_item p i of None \<Rightarrow> emptyWorkflowItem i (sequence ev) (createdAt ev) | Some item \<Rightarrow> item)"

definition projection_requestApproval :: "TurnWorkflowProjection \<Rightarrow> ClientEvent \<Rightarrow> projection_error + TurnWorkflowProjection" where
  "projection_requestApproval p ev =
     (let d = payload ev in
      andThen (requireApprovalId ev) (\<lambda>a.
      andThen (requireItemId ev) (\<lambda>i.
      let question = (case orElse (readString d ''question'') (readString d ''reason'') of
                        None \<Rightarrow> ''Approval requested.'' | Some q \<Rightarrow> q);
          item = (request_base p i ev)\<lparr>wi_kind := Wk_approval_request, wi_status := Ws_active, wi_text := question,
                   wi_completedAt := None,
                   wi_request := Some \<lparr>wr_requestId = a, wr_questions = [\<lparr>wq_id = a, wq_question = question\<rparr>],
                     wr_answers = [], wr_state = ''pending''\<rparr>\<rparr> in
      Inr ((upsertItem p item)\<lparr>
        tp_pendingApproval := Some \<lparr>wp_approvalId = a, wp_itemId = i, wp_question = question,
          wp_metadata = (case readRecord (map_of d ''metadata'') of None \<Rightarrow> [] | Some r \<Rightarrow> r),
          wp_options = readApprovalOptions d, wp_requestedAt = createdAt ev, wp_decidedAt = None, wp_decision = None\<rparr>,
        tp_phase := Ph_waiting_for_approval\<rparr>))))"

definition approvalDecisionLabel :: "string \<Rightarrow> string option \<Rightarrow> string" where
  "approvalDecisionLabel state grantScope =
     (if state = ''approved''
      then (if grantScope = Some ''matching_in_chat'' then ''Accepted for matching actions in this chat'' else ''Accepted'')
      else if state = ''denied'' then ''Denied''
      else if state = ''timed_out'' then ''Expired''
      else ''Cancelled'')"

text \<open>The schema of \<open>approval.decided\<close> has a status; a value that is no string would reach the request as it is.\<close>

definition decided_state :: "JsonRecord \<Rightarrow> string" where
  "decided_state d = (case Option.bind (map_of d ''status'') json_string of None \<Rightarrow> ''undefined'' | Some s \<Rightarrow> s)"

definition projection_decideApproval :: "TurnWorkflowProjection \<Rightarrow> ClientEvent \<Rightarrow> projection_error + TurnWorkflowProjection" where
  "projection_decideApproval p ev =
     andThen (requireApprovalId ev) (\<lambda>a.
       case List.find (\<lambda>item. wi_kind item = Wk_approval_request \<and> Some (wi_itemId item) = itemId ev \<and>
                         map_option wr_requestId (wi_request item) = Some a) (tp_items p) of
         None \<Rightarrow> Inr p
       | Some item \<Rightarrow>
           let state = decided_state (payload ev);
               answer = approvalDecisionLabel state (Option.bind (map_of (payload ev) ''grantScope'') json_string);
               questions = (case wi_request item of None \<Rightarrow> [] | Some r \<Rightarrow> wr_questions r);
               answers = (case wi_request item of
                            None \<Rightarrow> [\<lparr>wa_questionId = a, wa_value = answer\<rparr>]
                          | Some r \<Rightarrow> map (\<lambda>q. \<lparr>wa_questionId = wq_id q, wa_value = answer\<rparr>) (wr_questions r));
               settled = updateItem p (wi_itemId item) (\<lambda>current.
                 current\<lparr>wi_status := (if state = ''approved'' then Ws_completed else Ws_declined),
                         wi_completedAt := Some (createdAt ev),
                         wi_request := Some \<lparr>wr_requestId = a, wr_questions = questions, wr_answers = answers, wr_state = state\<rparr>\<rparr>);
               matchingPending = (map_option wp_approvalId (tp_pendingApproval p) = Some a) in
           Inr (if matchingPending then settled\<lparr>tp_pendingApproval := None, tp_phase := Ph_working\<rparr> else settled))"

fun read_questions :: "nat \<Rightarrow> pval list \<Rightarrow> WorkflowRequestQuestion list" where
  "read_questions n [] = []"
| "read_questions n (entry # rest) =
     (case readRecord (Some entry) of
        None \<Rightarrow> []
      | Some r \<Rightarrow>
          (case readString r ''question'' of
             None \<Rightarrow> []
           | Some q \<Rightarrow>
               [\<lparr>wq_id = (case readString r ''id'' of None \<Rightarrow> ''question-'' @ string_of_nat (n + 1) | Some i \<Rightarrow> i), wq_question = q\<rparr>]))
     @ read_questions (n + 1) rest"

definition readRequestQuestions :: "JsonRecord \<Rightarrow> WorkflowRequestQuestion list" where
  "readRequestQuestions p = (case map_of p ''questions'' of Some (PArr xs) \<Rightarrow> read_questions 0 xs | _ \<Rightarrow> [])"

text \<open>\<open>xs.join(sep)\<close>\<close>

fun join_strings :: "string \<Rightarrow> string list \<Rightarrow> string" where
  "join_strings sep [] = []"
| "join_strings sep [x] = x"
| "join_strings sep (x # y # ys) = x @ sep @ join_strings sep (y # ys)"

definition newline :: string where
  "newline = [char_of (10 :: nat)]"

definition answer_values :: "pval option \<Rightarrow> string list" where
  "answer_values answer =
     (case Option.bind answer json_string of
        Some s \<Rightarrow> [s]
      | None \<Rightarrow> (case field_of (readRecord answer) ''answers'' of
          Some (PArr xs) \<Rightarrow> List.map_filter json_string xs
        | _ \<Rightarrow> []))"

definition answers_by_question :: "JsonRecord \<Rightarrow> WorkflowRequestQuestion list \<Rightarrow> WorkflowRequestAnswer list" where
  "answers_by_question response questions =
     (let answers = (case readRecord (map_of response ''answers'') of None \<Rightarrow> response | Some r \<Rightarrow> r) in
      concat (map (\<lambda>q.
        let resolved = filter (\<lambda>s. s \<noteq> []) (map trim (answer_values (map_of answers (wq_id q)))) in
        if resolved = [] then [] else [\<lparr>wa_questionId = wq_id q, wa_value = join_strings newline resolved\<rparr>]) questions))"

definition readRequestAnswers :: "JsonRecord \<Rightarrow> WorkflowRequestQuestion list \<Rightarrow> WorkflowRequestAnswer list" where
  "readRequestAnswers p questions =
     (let response = (case readRecord (map_of p ''response'') of None \<Rightarrow> p | Some r \<Rightarrow> r) in
      case Option.bind (map_of response ''value'') json_string of
        Some v \<Rightarrow>
          if trim v \<noteq> [] then
            (case questions of [] \<Rightarrow> [] | q # _ \<Rightarrow> if wq_id q = [] then [] else [\<lparr>wa_questionId = wq_id q, wa_value = trim v\<rparr>])
          else answers_by_question response questions
      | None \<Rightarrow> answers_by_question response questions)"


definition requestUserInput :: "TurnWorkflowProjection \<Rightarrow> ClientEvent \<Rightarrow> projection_error + TurnWorkflowProjection" where
  "requestUserInput p ev =
     andThen (requireRequestId ev) (\<lambda>r.
     andThen (requireItemId ev) (\<lambda>i.
     let questions = readRequestQuestions (payload ev); prompt = readString (payload ev) ''prompt'';
         joined = join_strings newline (map wq_question questions);
         item = (request_base p i ev)\<lparr>wi_kind := Wk_user_input_request, wi_status := Ws_active,
           wi_text := (if joined \<noteq> [] then joined else case prompt of Some s \<Rightarrow> s | None \<Rightarrow> ''Input requested.''),
           wi_completedAt := None,
           wi_request := Some \<lparr>wr_requestId = r,
             wr_questions = (if questions \<noteq> [] then questions
               else [\<lparr>wq_id = r, wq_question = (case prompt of Some s \<Rightarrow> s | None \<Rightarrow> ''Input requested.'')\<rparr>]),
             wr_answers = [], wr_state = ''pending''\<rparr>\<rparr> in
     Inr ((upsertItem p item)\<lparr>tp_phase := Ph_waiting_for_user_input\<rparr>)))"

definition find_request :: "TurnWorkflowProjection \<Rightarrow> string \<Rightarrow> string \<Rightarrow> WorkflowItem option" where
  "find_request p i r =
     List.find (\<lambda>item. wi_itemId item = i \<and> map_option wr_requestId (wi_request item) = Some r) (tp_items p)"

definition respondToUserInput :: "TurnWorkflowProjection \<Rightarrow> ClientEvent \<Rightarrow> projection_error + TurnWorkflowProjection" where
  "respondToUserInput p ev =
     andThen (requireRequestId ev) (\<lambda>r.
     andThen (requireItemId ev) (\<lambda>i.
     case find_request p i r of
       None \<Rightarrow> Inr p
     | Some item \<Rightarrow>
         (case wi_request item of
            None \<Rightarrow> Inr p
          | Some request \<Rightarrow>
              if wi_kind item \<noteq> Wk_user_input_request then Inr p
              else
                let answers = readRequestAnswers (payload ev) (wr_questions request) in
                Inr ((updateItem p (wi_itemId item) (\<lambda>current.
                  current\<lparr>wi_status := Ws_completed, wi_completedAt := Some (createdAt ev),
                          wi_request := Some (request\<lparr>wr_answers := answers, wr_state := ''answered''\<rparr>)\<rparr>))\<lparr>tp_phase := Ph_working\<rparr>))))"

definition resolveRequest :: "TurnWorkflowProjection \<Rightarrow> ClientEvent \<Rightarrow> projection_error + TurnWorkflowProjection" where
  "resolveRequest p ev =
     andThen (requireRequestId ev) (\<lambda>r.
     andThen (requireItemId ev) (\<lambda>i.
     case find_request p i r of
       None \<Rightarrow> Inr p
     | Some item \<Rightarrow>
         (case wi_request item of
            None \<Rightarrow> Inr p
          | Some request \<Rightarrow>
              if wi_kind item \<noteq> Wk_user_input_request then Inr p
              else
                let status = readString (payload ev) ''status'';
                    state = (if wr_state request \<noteq> ''pending'' then wr_state request
                             else if status = Some ''cancelled'' \<or> status = Some ''timed_out'' then the status
                             else ''resolved'') in
                Inr ((updateItem p (wi_itemId item) (\<lambda>current.
                  current\<lparr>wi_status := (if wi_status current = Ws_active then Ws_completed else wi_status current),
                          wi_completedAt := (case wi_completedAt current of None \<Rightarrow> Some (createdAt ev) | Some c \<Rightarrow> Some c),
                          wi_request := Some (request\<lparr>wr_state := state\<rparr>)\<rparr>))\<lparr>tp_phase := Ph_working\<rparr>))))"

definition cancel_request :: "ClientEvent \<Rightarrow> WorkflowItem \<Rightarrow> WorkflowItem" where
  "cancel_request ev item =
     (case wi_request item of
        None \<Rightarrow> item
      | Some request \<Rightarrow>
          if wr_state request \<noteq> ''pending'' then item
          else item\<lparr>wi_status := Ws_interrupted, wi_completedAt := Some (createdAt ev),
                    wi_request := Some (request\<lparr>wr_state := ''cancelled''\<rparr>)\<rparr>)"

definition cancelPendingRequests :: "WorkflowItem list \<Rightarrow> ClientEvent \<Rightarrow> WorkflowItem list" where
  "cancelPendingRequests items ev = map (cancel_request ev) items"

section \<open>The reducer\<close>

text \<open>
  \<open>sc_resumeRef\<close>, \<open>sc_turnDiff\<close>, \<open>sc_contextBudget\<close> and \<open>sc_usage\<close> are \<open>safeParse\<close> of the protocol's schemas, and
  \<open>sc_before a b\<close> is \<open>Date.parse(a) < Date.parse(b)\<close>.
\<close>

record projection_schemas =
  sc_resumeRef :: "pval option \<Rightarrow> bool"
  sc_turnDiff :: "pval \<Rightarrow> pval option"
  sc_contextBudget :: "pval option \<Rightarrow> pval option"
  sc_usage :: "pval option \<Rightarrow> pval option"
  sc_before :: "string \<Rightarrow> string \<Rightarrow> bool"

definition earlierTimestamp :: "projection_schemas \<Rightarrow> string option \<Rightarrow> string \<Rightarrow> string" where
  "earlierTimestamp sc current candidate =
     (if \<not> truthy current then candidate else if sc_before sc candidate (the current) then candidate else the current)"

definition readTurnDiff :: "projection_schemas \<Rightarrow> JsonRecord \<Rightarrow> pval option" where
  "readTurnDiff sc p = sc_turnDiff sc (case non_null (map_of p ''diff'') of None \<Rightarrow> PObj p | Some d \<Rightarrow> d)"

definition terminal_phase :: "TurnTerminalStatus \<Rightarrow> WorkflowPhase" where
  "terminal_phase st = (case st of Tt_completed \<Rightarrow> Ph_completed | Tt_failed \<Rightarrow> Ph_failed | Tt_interrupted \<Rightarrow> Ph_interrupted)"

definition projection_settleTurn :: "TurnWorkflowProjection \<Rightarrow> TurnTerminalStatus \<Rightarrow> ClientEvent \<Rightarrow> TurnWorkflowProjection" where
  "projection_settleTurn p state ev =
     (let outcome = (case readRecord (map_of (payload ev) ''outcome'') of None \<Rightarrow> [] | Some r \<Rightarrow> r);
          failure = readRecord (map_of outcome ''failure'') in
      p\<lparr>tp_items := cancelPendingRequests (tp_items p) ev, tp_pendingApproval := None,
        tp_terminal := Some \<lparr>wt_state = state, wt_eventId = eventId ev,
          wt_content = (case orElse (readString outcome ''summary'') (Option.bind failure (\<lambda>f. readString f ''message'')) of
             None \<Rightarrow> turn_status_name (turn_of_terminal state) | Some c \<Rightarrow> c),
          wt_errorCode = orElse (readString outcome ''code'') (Option.bind failure (\<lambda>f. readString f ''code'')),
          wt_occurredAt = createdAt ev\<rparr>,
        tp_phase := terminal_phase state, tp_settledAt := Some (createdAt ev)\<rparr>)"

definition snapshot_captured :: "projection_schemas \<Rightarrow> TurnWorkflowProjection \<Rightarrow> ClientEvent \<Rightarrow> TurnWorkflowProjection" where
  "snapshot_captured sc p ev =
     (let bundle = readRecord (map_of (payload ev) ''snapshot''); snapshot = readRecord (field_of bundle ''snapshot'') in
      case snapshot of
        None \<Rightarrow> p
      | Some sn \<Rightarrow>
          if readString sn ''phase'' \<noteq> Some ''terminal'' then p
          else
            let resumable = sc_resumeRef sc (map_of sn ''resumeSnapshotRef'');
                reason = readString sn ''resumeUnavailableReason'' in
            p\<lparr>tp_workspaceSnapshotState := Ss_captured, tp_resumeSnapshotAvailable := Some resumable,
              tp_workspaceSnapshotUnavailableReason := None,
              tp_resumeUnavailableReason := (if resumable then None
                else Some (case reason of None \<Rightarrow> ''snapshot_unavailable'' | Some r \<Rightarrow> r))\<rparr>)"

definition snapshot_unavailable :: "TurnWorkflowProjection \<Rightarrow> ClientEvent \<Rightarrow> TurnWorkflowProjection" where
  "snapshot_unavailable p ev =
     (let reason = (case readString (payload ev) ''reason'' of None \<Rightarrow> ''snapshot_unavailable'' | Some r \<Rightarrow> r) in
      p\<lparr>tp_workspaceSnapshotState := Ss_unavailable, tp_resumeSnapshotAvailable := Some False,
        tp_workspaceSnapshotUnavailableReason := Some reason, tp_resumeUnavailableReason := Some reason\<rparr>)"

definition payload_string :: "ClientEvent \<Rightarrow> string \<Rightarrow> string option" where
  "payload_string ev key = Option.bind (map_of (payload ev) key) json_string"

definition working :: "projection_error + TurnWorkflowProjection \<Rightarrow> projection_error + TurnWorkflowProjection" where
  "working r = andThen r (\<lambda>p. Inr (p\<lparr>tp_phase := Ph_working\<rparr>))"

definition item_settled_types :: "LifecycleEventType set" where
  "item_settled_types = {E_item_completed, E_item_failed, E_item_declined, E_item_interrupted}"

definition tool_call_types :: "LifecycleEventType set" where
  "tool_call_types = {E_tool_call_started, E_tool_call_input_delta, E_tool_call_output_delta, E_tool_call_completed,
     E_tool_call_failed, E_tool_call_declined, E_tool_call_interrupted}"

definition compaction_types :: "LifecycleEventType set" where
  "compaction_types = {E_context_compaction_requested, E_context_compaction_started, E_context_compaction_completed,
     E_context_compaction_failed}"

definition applyKnownEvent ::
  "projection_schemas \<Rightarrow> TurnWorkflowProjection \<Rightarrow> ClientEvent \<Rightarrow> projection_error + TurnWorkflowProjection" where
  "applyKnownEvent sc p ev =
     (let e = etype ev in
      if e = E_turn_started then Inr (p\<lparr>tp_revisionOfTurnId := payload_string ev ''revisionOfTurnId'',
        tp_continuationOfTurnId := payload_string ev ''continuationOfTurnId'',
        tp_originalPromptId := payload_string ev ''originalPromptId'', tp_phase := Ph_starting,
        tp_startedAt := Some (earlierTimestamp sc (tp_startedAt p) (createdAt ev))\<rparr>)
      else if e = E_workspace_snapshot_captured then Inr (snapshot_captured sc p ev)
      else if e = E_workspace_snapshot_unavailable then Inr (snapshot_unavailable p ev)
      else if e = E_run_attempt_started then Inr (p\<lparr>tp_executionCapability :=
          Some (if readString (payload ev) ''executionCapability'' = Some ''conversation'' then ''conversation'' else ''repository''),
        tp_phase := Ph_working, tp_startedAt := Some (earlierTimestamp sc (tp_startedAt p) (createdAt ev))\<rparr>)
      else if e = E_item_started then working (andThen (createStartedItem ev) (\<lambda>item. Inr (upsertItem p item)))
      else if e = E_assistant_message_delta then
        working (andThen (requireItemId ev) (\<lambda>i. Inr (appendItemText p i (readTextPayload (payload ev)))))
      else if e = E_reasoning_summary_delta then working (appendReasoningText p ev)
      else if e = E_plan_updated then working (updatePlanItem p ev)
      else if e = E_item_updated then working (updateItemFromPayload p ev)
      else if e \<in> item_settled_types then working (Inr (projection_settleItem p ev))
      else if e \<in> tool_call_types then working (Inr (handleToolCallEvent p ev))
      else if e = E_approval_requested then projection_requestApproval p ev
      else if e = E_approval_decided then projection_decideApproval p ev
      else if e = E_user_input_requested then requestUserInput p ev
      else if e = E_user_input_responded then respondToUserInput p ev
      else if e = E_request_resolved then resolveRequest p ev
      else if e = E_turn_diff_updated then Inr (p\<lparr>tp_turnDiff := readTurnDiff sc (payload ev), tp_phase := Ph_working\<rparr>)
      else if e = E_context_budget_updated then Inr (p\<lparr>tp_contextBudget := sc_contextBudget sc (map_of (payload ev) ''snapshot'')\<rparr>)
      else if e = E_usage_updated then Inr (p\<lparr>tp_usage := sc_usage sc (map_of (payload ev) ''usage'')\<rparr>)
      else if e \<in> compaction_types then
        andThen (upsertCompactionItem p ev) (\<lambda>p'. Inr (p'\<lparr>tp_phase := (if e = E_context_compaction_failed then Ph_failed else Ph_working)\<rparr>))
      else if e = E_turn_completed then Inr (projection_settleTurn p Tt_completed ev)
      else if e = E_turn_failed then Inr (projection_settleTurn p Tt_failed ev)
      else if e = E_turn_interrupted then Inr (projection_settleTurn p Tt_interrupted ev)
      else Inr p)"

definition deriveWaitingPhase :: "TurnWorkflowProjection \<Rightarrow> TurnWorkflowProjection" where
  "deriveWaitingPhase p =
     (if tp_terminal p \<noteq> None then p
      else if tp_pendingApproval p \<noteq> None then p\<lparr>tp_phase := Ph_waiting_for_approval\<rparr>
      else if list_ex (\<lambda>item. wi_kind item = Wk_user_input_request \<and> wi_status item = Ws_active \<and>
                map_option wr_state (wi_request item) = Some ''pending'') (tp_items p)
        then p\<lparr>tp_phase := Ph_waiting_for_user_input\<rparr>
      else p)"

definition hasActiveThinking :: "TurnWorkflowProjection \<Rightarrow> bool" where
  "hasActiveThinking p =
     (if tp_terminal p \<noteq> None then False
      else list_ex (\<lambda>item. wi_status item = Ws_active \<and> (wi_kind item = Wk_reasoning \<or> wi_kind item = Wk_plan)) (tp_items p))"

definition collectAssistantText :: "WorkflowItem list \<Rightarrow> string" where
  "collectAssistantText items =
     join_strings (newline @ newline)
       (filter (\<lambda>s. s \<noteq> []) (map (\<lambda>item. trim (wi_text item)) (filter (\<lambda>item. wi_kind item = Wk_assistant_message) items)))"

definition projection_apply ::
  "projection_schemas \<Rightarrow> TurnWorkflowProjection \<Rightarrow> ClientEvent \<Rightarrow> projection_error + TurnWorkflowProjection" where
  "projection_apply sc p ev =
     (if turnId ev \<noteq> tp_turnId p then Inr p
      else andThen (applyKnownEvent sc p ev) (\<lambda>nxt.
        let withPhase = deriveWaitingPhase nxt in
        Inr (withPhase\<lparr>tp_lastSequence := max (tp_lastSequence withPhase) (sequence ev),
          tp_activeThinking := hasActiveThinking withPhase,
          tp_assistantText := collectAssistantText (tp_items withPhase)\<rparr>)))"

definition replayTurnWorkflowProjection ::
  "projection_schemas \<Rightarrow> string \<Rightarrow> ClientEvent list \<Rightarrow> projection_error + TurnWorkflowProjection" where
  "replayTurnWorkflowProjection sc t evs = fold_sum (\<lambda>ev p. projection_apply sc p ev) evs (createTurnWorkflowProjection t)"

primrec workflowPhaseLabel :: "WorkflowPhase \<Rightarrow> string" where
  "workflowPhaseLabel Ph_starting = ''Starting''"
| "workflowPhaseLabel Ph_working = ''Working''"
| "workflowPhaseLabel Ph_waiting_for_approval = ''Waiting for approval''"
| "workflowPhaseLabel Ph_waiting_for_user_input = ''Waiting for your input''"
| "workflowPhaseLabel Ph_completed = ''Completed''"
| "workflowPhaseLabel Ph_failed = ''Failed''"
| "workflowPhaseLabel Ph_interrupted = ''Interrupted''"

end
