(* ===== verification/Projection_Properties.thy ===== *)
theory Projection_Properties
  imports Workflow_Projection
begin

text \<open>
  Properties of the workflow projection: the reducer keeps a well-formed projection and refuses an event only for want of
  an identifier, and the projection of a stream tells whether and how the turn has ended.
\<close>

section \<open>Well-formed projections\<close>

definition item_wf :: "WorkflowItem \<Rightarrow> bool" where
  "item_wf item \<longleftrightarrow> wi_itemId item \<noteq> [] \<and> (wi_status item = Ws_active \<longleftrightarrow> wi_completedAt item = None) \<and>
     (wi_request item \<noteq> None \<longrightarrow> wi_kind item = Wk_approval_request \<or> wi_kind item = Wk_user_input_request)"

definition items_wf :: "WorkflowItem list \<Rightarrow> bool" where
  "items_wf items \<longleftrightarrow> distinct (map wi_itemId items) \<and> list_all item_wf items"

definition projection_wf :: "TurnWorkflowProjection \<Rightarrow> bool" where
  "projection_wf p \<longleftrightarrow> items_wf (tp_items p) \<and> list_all (\<lambda>item. wi_sequence item \<le> tp_lastSequence p) (tp_items p) \<and>
     (tp_terminal p = None \<longleftrightarrow> tp_settledAt p = None) \<and>
     tp_activeThinking p = hasActiveThinking p \<and> tp_assistantText p = collectAssistantText (tp_items p)"

text \<open>An event is identified when it carries the identifiers that the reducer needs for its type.\<close>

definition needs_itemId :: "LifecycleEventType set" where
  "needs_itemId = {E_item_started, E_assistant_message_delta, E_reasoning_summary_delta, E_plan_updated, E_item_updated,
     E_approval_requested, E_user_input_requested, E_user_input_responded, E_request_resolved} \<union> compaction_types"

definition identified :: "ClientEvent \<Rightarrow> bool" where
  "identified ev \<longleftrightarrow> (etype ev \<in> needs_itemId \<longrightarrow> truthy (itemId ev)) \<and>
     (etype ev \<in> {E_approval_requested, E_approval_decided} \<longrightarrow> approvalId ev \<noteq> None) \<and>
     (etype ev \<in> {E_user_input_requested, E_user_input_responded, E_request_resolved} \<longrightarrow> requestId ev \<noteq> None)"

text \<open>
  The items of a projection after an update: well formed, and started at the latest by event \<open>n\<close>.
\<close>

definition items_at :: "nat \<Rightarrow> WorkflowItem list \<Rightarrow> bool" where
  "items_at n items \<longleftrightarrow> items_wf items \<and> list_all (\<lambda>item. wi_sequence item \<le> n) items"

lemma items_at_mono: "items_at m items \<Longrightarrow> m \<le> n \<Longrightarrow> items_at n items"
  by (auto simp: items_at_def list_all_iff)

lemma items_at_map:
  assumes "items_at n items"
    and "\<And>item. item \<in> set items \<Longrightarrow> item_wf item \<Longrightarrow> wi_itemId (f item) = wi_itemId item \<and> wi_sequence (f item) \<le> n \<and> item_wf (f item)"
  shows "items_at n (map f items)"
proof -
  have "map wi_itemId (map f items) = map wi_itemId items"
    using assms by (auto simp: items_at_def items_wf_def list_all_iff)
  moreover have "list_all item_wf (map f items)" "list_all (\<lambda>item. wi_sequence item \<le> n) (map f items)"
    using assms by (auto simp: items_at_def items_wf_def list_all_iff)
  ultimately show ?thesis using assms(1) by (simp only: items_at_def items_wf_def)
qed

lemma updateItem_at:
  assumes "items_at n (tp_items p)"
    and "\<And>item. item_wf item \<Longrightarrow> wi_itemId item = i \<Longrightarrow> wi_itemId (f item) = i \<and> wi_sequence (f item) = wi_sequence item \<and> item_wf (f item)"
  shows "items_at n (tp_items (updateItem p i f))"
  unfolding updateItem_def
  by (simp, rule items_at_map [OF assms(1)]) (use assms in \<open>auto simp: items_at_def list_all_iff\<close>)

lemma upsertItem_at:
  assumes "items_at n (tp_items p)" and "item_wf item" and "wi_sequence item \<le> n"
  shows "items_at n (tp_items (upsertItem p item))"
proof (cases "list_ex (\<lambda>candidate. wi_itemId candidate = wi_itemId item) (tp_items p)")
  case True
  then show ?thesis
    unfolding upsertItem_def by (simp, intro items_at_map [OF assms(1)]) (use assms in \<open>auto simp: items_at_def list_all_iff\<close>)
next
  case False
  then show ?thesis using assms by (auto simp: upsertItem_def items_at_def items_wf_def list_ex_iff)
qed

lemma find_item_at: "items_at n (tp_items p) \<Longrightarrow> find_item p i = Some item \<Longrightarrow> item_wf item \<and> wi_sequence item \<le> n \<and> wi_itemId item = i"
  by (auto simp: find_item_def find_Some_iff items_at_def items_wf_def list_all_length)

lemma request_base_at:
  assumes "items_at n (tp_items p)" and "sequence ev \<le> n"
  shows "wi_itemId (request_base p i ev) = i" "wi_sequence (request_base p i ev) \<le> n"
  using find_item_at [OF assms(1)] assms(2) by (auto simp: request_base_def emptyWorkflowItem_def split: option.splits)


section \<open>One event\<close>

text \<open>What every update of the projection keeps, apart from the settlement of the turn.\<close>

definition step_ok :: "nat \<Rightarrow> TurnWorkflowProjection \<Rightarrow> TurnWorkflowProjection \<Rightarrow> bool" where
  "step_ok n p p' \<longleftrightarrow> items_at n (tp_items p') \<and> tp_turnId p' = tp_turnId p \<and> tp_lastSequence p' = tp_lastSequence p \<and>
     tp_terminal p' = tp_terminal p \<and> tp_settledAt p' = tp_settledAt p"

lemma step_ok_refl: "items_at n (tp_items p) \<Longrightarrow> step_ok n p p"
  by (simp add: step_ok_def)

lemma step_ok_update:
  assumes "items_at n (tp_items p)"
    and "\<And>item. item_wf item \<Longrightarrow> wi_itemId item = i \<Longrightarrow> wi_itemId (f item) = i \<and> wi_sequence (f item) = wi_sequence item \<and> item_wf (f item)"
  shows "step_ok n p (updateItem p i f)"
  using updateItem_at [OF assms] by (simp add: step_ok_def) (simp add: updateItem_def)

lemma step_ok_upsert:
  "items_at n (tp_items p) \<Longrightarrow> item_wf item \<Longrightarrow> wi_sequence item \<le> n \<Longrightarrow> step_ok n p (upsertItem p item)"
  using upsertItem_at by (simp add: step_ok_def) (simp add: upsertItem_def)

lemma step_ok_fields [simp]:
  "step_ok n p (p'\<lparr>tp_phase := ph\<rparr>) = step_ok n p p'" "step_ok n p (p'\<lparr>tp_pendingApproval := a\<rparr>) = step_ok n p p'"
  "step_ok n p (p'\<lparr>tp_revisionOfTurnId := x\<rparr>) = step_ok n p p'" "step_ok n p (p'\<lparr>tp_continuationOfTurnId := x\<rparr>) = step_ok n p p'"
  "step_ok n p (p'\<lparr>tp_originalPromptId := x\<rparr>) = step_ok n p p'" "step_ok n p (p'\<lparr>tp_startedAt := x\<rparr>) = step_ok n p p'"
  "step_ok n p (p'\<lparr>tp_executionCapability := x\<rparr>) = step_ok n p p'" "step_ok n p (p'\<lparr>tp_turnDiff := v\<rparr>) = step_ok n p p'"
  "step_ok n p (p'\<lparr>tp_contextBudget := v\<rparr>) = step_ok n p p'" "step_ok n p (p'\<lparr>tp_usage := v\<rparr>) = step_ok n p p'"
  by (simp_all add: step_ok_def)

lemma requireItemId_Inr [simp]: "requireItemId ev = Inr i \<longleftrightarrow> itemId ev = Some i \<and> i \<noteq> []"
  by (cases "itemId ev") (auto simp: requireItemId_def)

lemma working_Inr [simp]: "working r = Inr p' \<longleftrightarrow> (\<exists>q. r = Inr q \<and> p' = q\<lparr>tp_phase := Ph_working\<rparr>)"
  by (cases r) (auto simp: working_def)

lemma step_ok_started:
  assumes "items_at n (tp_items p)" and "sequence ev \<le> n" and "createStartedItem ev = Inr item"
  shows "step_ok n p (upsertItem p item)"
  using assms(3,2) by (intro step_ok_upsert assms(1)) (auto simp: createStartedItem_def andThen_Inr_iff Let_def item_wf_def)

lemma step_ok_text: "items_at n (tp_items p) \<Longrightarrow> step_ok n p (appendItemText p i s)"
  by (auto simp: appendItemText_def item_wf_def intro!: step_ok_refl step_ok_update)

lemma step_ok_reasoning: "items_at n (tp_items p) \<Longrightarrow> appendReasoningText p ev = Inr p' \<Longrightarrow> step_ok n p p'"
  by (auto simp: appendReasoningText_def andThen_Inr_iff intro!: step_ok_refl step_ok_text split: if_splits)

lemma step_ok_plan: "items_at n (tp_items p) \<Longrightarrow> updatePlanItem p ev = Inr p' \<Longrightarrow> step_ok n p p'"
  by (auto simp: updatePlanItem_def andThen_Inr_iff item_wf_def intro!: step_ok_update)

lemma step_ok_item_updated: "items_at n (tp_items p) \<Longrightarrow> updateItemFromPayload p ev = Inr p' \<Longrightarrow> step_ok n p p'"
  by (auto simp: updateItemFromPayload_def andThen_Inr_iff Let_def item_wf_def intro!: step_ok_update)

lemma settled_item_active: "settled_item_status e \<noteq> Ws_active"
  by (simp add: settled_item_status_def)

lemma step_ok_settle: "items_at n (tp_items p) \<Longrightarrow> step_ok n p (projection_settleItem p ev)"
  by (auto simp: projection_settleItem_def Let_def item_wf_def settled_item_active intro!: step_ok_refl step_ok_update)

lemma step_ok_tool_call:
  assumes "items_at n (tp_items p)" and "sequence ev \<le> n"
  shows "step_ok n p (handleToolCallEvent p ev)"
proof (cases "truthy (itemId ev)")
  case True
  then obtain i where i: "itemId ev = Some i" "i \<noteq> []" by (cases "itemId ev") auto
  have "step_ok n p (upsertItem p (started_tool_item i ev))"
    using i assms(2) by (intro step_ok_upsert assms(1)) (simp_all add: started_tool_item_def Let_def item_wf_def)
  moreover have "step_ok n p (updateItem p i f)"
    if "\<And>item. item_wf item \<Longrightarrow> wi_itemId (f item) = wi_itemId item \<and> wi_sequence (f item) = wi_sequence item \<and> item_wf (f item)" for f
    using that by (intro step_ok_update assms(1)) simp
  ultimately show ?thesis
    using i by (simp add: handleToolCallEvent_def Let_def item_wf_def settled_item_active)
qed (simp add: handleToolCallEvent_def Let_def step_ok_refl assms)

lemma step_ok_compaction:
  assumes "items_at n (tp_items p)" and "sequence ev \<le> n" and "upsertCompactionItem p ev = Inr p'"
  shows "step_ok n p p'"
proof -
  obtain i where i: "itemId ev = Some i" "i \<noteq> []" using assms(3) by (auto simp: upsertCompactionItem_def Let_def andThen_Inr_iff)
  from assms(3) i find_item_at [OF assms(1), of i] assms(2) show ?thesis
    by (auto simp: upsertCompactionItem_def Let_def requireItemId_def emptyWorkflowItem_def item_wf_def
        intro!: step_ok_upsert assms(1) split: option.splits)
qed

lemma step_ok_requestApproval:
  assumes "items_at n (tp_items p)" and "sequence ev \<le> n" and "projection_requestApproval p ev = Inr p'"
  shows "step_ok n p p'"
  using assms(3) request_base_at [OF assms(1,2)]
  by (auto simp: projection_requestApproval_def Let_def andThen_Inr_iff item_wf_def intro!: step_ok_upsert assms(1))

text \<open>Identifiers of items are distinct, so an update of a found item changes that item only.\<close>

lemma step_ok_found:
  assumes "items_at n (tp_items p)" and "item \<in> set (tp_items p)" and "wi_itemId (f item) = wi_itemId item"
    and "wi_sequence (f item) = wi_sequence item" and "item_wf item \<Longrightarrow> item_wf (f item)"
  shows "step_ok n p (updateItem p (wi_itemId item) f)"
proof -
  have same: "current = item" if "current \<in> set (tp_items p)" "wi_itemId current = wi_itemId item" for current
    using that assms(1,2) by (auto simp: items_at_def items_wf_def distinct_map inj_on_def)
  have "items_at n (map (\<lambda>current. if wi_itemId current = wi_itemId item then f current else current) (tp_items p))"
  proof (rule items_at_map [OF assms(1)])
    fix current
    assume current: "current \<in> set (tp_items p)" "item_wf current"
    let ?g = "if wi_itemId current = wi_itemId item then f current else current"
    have "wi_sequence current \<le> n" using current(1) assms(1) by (simp add: items_at_def list_all_iff)
    then show "wi_itemId ?g = wi_itemId current \<and> wi_sequence ?g \<le> n \<and> item_wf ?g"
      using same [OF current(1)] current(2) assms(3-5) by (cases "wi_itemId current = wi_itemId item") auto
  qed
  then show ?thesis by (simp add: step_ok_def updateItem_def)
qed

lemma step_ok_decideApproval:
  assumes "items_at n (tp_items p)" and "projection_decideApproval p ev = Inr p'"
  shows "step_ok n p p'"
proof -
  obtain a where a: "approvalId ev = Some a" using assms(2) by (auto simp: projection_decideApproval_def requireApprovalId_def split: option.splits)
  show ?thesis
  proof (cases "List.find (\<lambda>item. wi_kind item = Wk_approval_request \<and> Some (wi_itemId item) = itemId ev \<and>
      map_option wr_requestId (wi_request item) = Some a) (tp_items p)")
    case None
    then show ?thesis using assms a by (simp add: projection_decideApproval_def requireApprovalId_def step_ok_refl)
  next
    case (Some item)
    then have item: "item \<in> set (tp_items p)" "wi_kind item = Wk_approval_request" by (auto simp: find_Some_iff)
    have "step_ok n p (updateItem p (wi_itemId item) (\<lambda>current. current\<lparr>wi_status := st, wi_completedAt := Some c, wi_request := Some r\<rparr>))"
      if "st \<noteq> Ws_active" for st c r
      using that item by (intro step_ok_found assms(1)) (simp_all add: item_wf_def)
    then show ?thesis using assms(2) a Some by (auto simp: projection_decideApproval_def requireApprovalId_def Let_def)
  qed
qed

lemma step_ok_requestUserInput:
  assumes "items_at n (tp_items p)" and "sequence ev \<le> n" and "requestUserInput p ev = Inr p'"
  shows "step_ok n p p'"
  using assms(3) request_base_at [OF assms(1,2)]
  by (auto simp: requestUserInput_def Let_def andThen_Inr_iff item_wf_def intro!: step_ok_upsert assms(1))

lemma find_request_Some:
  "find_request p i r = Some item \<Longrightarrow> item \<in> set (tp_items p)"
  by (auto simp: find_request_def find_Some_iff)

text \<open>The item a response or a resolution applies to, if there is one.\<close>

definition input_request :: "TurnWorkflowProjection \<Rightarrow> string \<Rightarrow> string \<Rightarrow> (WorkflowItem \<times> WorkflowRequest) option" where
  "input_request p i r =
     (case find_request p i r of
        None \<Rightarrow> None
      | Some item \<Rightarrow> (case wi_request item of
          None \<Rightarrow> None
        | Some request \<Rightarrow> if wi_kind item = Wk_user_input_request then Some (item, request) else None))"

lemma input_request_Some: "input_request p i r = Some (item, request) \<Longrightarrow> item \<in> set (tp_items p) \<and> wi_kind item = Wk_user_input_request"
  by (auto simp: input_request_def dest: find_request_Some split: option.splits if_splits)

lemma respond_cases:
  assumes "respondToUserInput p ev = Inr p'"
  obtains "p' = p" | item request answers where "item \<in> set (tp_items p)" and "wi_kind item = Wk_user_input_request"
    and "p' = (updateItem p (wi_itemId item) (\<lambda>current. current\<lparr>wi_status := Ws_completed, wi_completedAt := Some (createdAt ev),
      wi_request := Some (request\<lparr>wr_answers := answers, wr_state := ''answered''\<rparr>)\<rparr>))\<lparr>tp_phase := Ph_working\<rparr>"
proof -
  obtain r i where ri: "requireRequestId ev = Inr r" "requireItemId ev = Inr i"
    using assms unfolding respondToUserInput_def andThen_Inr_iff by blast
  show ?thesis
  proof (cases "input_request p i r")
    case None
    then have "p' = p" using assms ri by (auto simp: respondToUserInput_def input_request_def Let_def requireItemId_def split: option.splits if_splits)
    then show ?thesis by (rule that(1))
  next
    case (Some x)
    obtain item request where x: "x = (item, request)" by force
    note item = input_request_Some [OF Some [unfolded x]]
    have "find_request p i r = Some item" "wi_request item = Some request"
      using Some x by (auto simp: input_request_def split: option.splits if_splits)
    then show ?thesis
      using assms ri item by (intro that(2) [of item "readRequestAnswers (payload ev) (wr_questions request)" request])
        (auto simp: respondToUserInput_def Let_def)
  qed
qed

lemma resolve_cases:
  assumes "resolveRequest p ev = Inr p'"
  obtains "p' = p" | item request where "item \<in> set (tp_items p)" and "wi_kind item = Wk_user_input_request"
    and "p' = (updateItem p (wi_itemId item) (\<lambda>current.
      current\<lparr>wi_status := if wi_status current = Ws_active then Ws_completed else wi_status current,
        wi_completedAt := case wi_completedAt current of None \<Rightarrow> Some (createdAt ev) | Some d \<Rightarrow> Some d, wi_request := Some request\<rparr>))\<lparr>tp_phase := Ph_working\<rparr>"
proof -
  obtain r i where ri: "requireRequestId ev = Inr r" "requireItemId ev = Inr i"
    using assms unfolding resolveRequest_def andThen_Inr_iff by blast
  show ?thesis
  proof (cases "input_request p i r")
    case None
    then have "p' = p" using assms ri by (auto simp: resolveRequest_def input_request_def Let_def requireItemId_def split: option.splits if_splits)
    then show ?thesis by (rule that(1))
  next
    case (Some x)
    obtain item request where x: "x = (item, request)" by force
    note item = input_request_Some [OF Some [unfolded x]]
    have req: "find_request p i r = Some item" "wi_request item = Some request"
      using Some x by (auto simp: input_request_def split: option.splits if_splits)
    show ?thesis
      using assms ri item req by (intro that(2) [of item]) (auto simp: resolveRequest_def Let_def)
  qed
qed

lemma step_ok_respond:
  assumes "items_at n (tp_items p)" and "respondToUserInput p ev = Inr p'"
  shows "step_ok n p p'"
  by (rule respond_cases [OF assms(2)])
    (auto simp: step_ok_refl assms(1) item_wf_def intro!: step_ok_found)

lemma step_ok_resolve:
  assumes "items_at n (tp_items p)" and "resolveRequest p ev = Inr p'"
  shows "step_ok n p p'"
  by (rule resolve_cases [OF assms(2)])
    (auto simp: step_ok_refl assms(1) item_wf_def intro!: step_ok_found split: option.splits)

lemma cancelled_at:
  assumes "items_at n items"
  shows "items_at n (cancelPendingRequests items ev)"
  unfolding cancelPendingRequests_def
  by (rule items_at_map [OF assms]) (use assms in \<open>auto simp: cancel_request_def item_wf_def items_at_def list_all_iff split: option.splits\<close>)

definition terminal_status_of :: "LifecycleEventType \<Rightarrow> TurnTerminalStatus option" where
  "terminal_status_of e =
     (if e = E_turn_completed then Some Tt_completed else if e = E_turn_failed then Some Tt_failed
      else if e = E_turn_interrupted then Some Tt_interrupted else None)"

lemmas known_types = item_settled_types_def tool_call_types_def compaction_types_def

definition yields_ok :: "nat \<Rightarrow> TurnWorkflowProjection \<Rightarrow> projection_error + TurnWorkflowProjection \<Rightarrow> bool" where
  "yields_ok n p r \<longleftrightarrow> (\<forall>p'. r = Inr p' \<longrightarrow> step_ok n p p')"

lemma yields_if: "(b \<Longrightarrow> yields_ok n p x) \<Longrightarrow> (\<not> b \<Longrightarrow> yields_ok n p y) \<Longrightarrow> yields_ok n p (if b then x else y)"
  by simp

lemma yields_Inr: "step_ok n p q \<Longrightarrow> yields_ok n p (Inr q)"
  by (simp add: yields_ok_def)

lemma yields_andThen: "(\<And>x. r = Inr x \<Longrightarrow> yields_ok n p (f x)) \<Longrightarrow> yields_ok n p (andThen r f)"
  by (auto simp: yields_ok_def andThen_Inr_iff)

lemma yields_working: "yields_ok n p r \<Longrightarrow> yields_ok n p (working r)"
  by (auto simp: yields_ok_def)

lemma applyKnownEvent_open:
  assumes "items_at n (tp_items p)" and "sequence ev \<le> n" and "applyKnownEvent sc p ev = Inr p'"
    and "terminal_status_of (etype ev) = None"
  shows "step_ok n p p'"
proof -
  have partial: "yields_ok n p (appendReasoningText p ev)" "yields_ok n p (updatePlanItem p ev)" "yields_ok n p (updateItemFromPayload p ev)"
    "yields_ok n p (projection_requestApproval p ev)" "yields_ok n p (projection_decideApproval p ev)" "yields_ok n p (requestUserInput p ev)"
    "yields_ok n p (respondToUserInput p ev)" "yields_ok n p (resolveRequest p ev)" "yields_ok n p (upsertCompactionItem p ev)"
    using step_ok_reasoning [OF assms(1)] step_ok_plan [OF assms(1)] step_ok_item_updated [OF assms(1)]
      step_ok_requestApproval [OF assms(1,2)] step_ok_decideApproval [OF assms(1)] step_ok_requestUserInput [OF assms(1,2)]
      step_ok_respond [OF assms(1)] step_ok_resolve [OF assms(1)] step_ok_compaction [OF assms(1,2)]
    unfolding yields_ok_def by blast+
  have plain: "step_ok n p (snapshot_captured sc p ev)" "step_ok n p (snapshot_unavailable p ev)"
    using assms(1) by (auto simp: snapshot_captured_def snapshot_unavailable_def Let_def step_ok_def split: option.splits)
  have compacted: "yields_ok n p (andThen (upsertCompactionItem p ev) (\<lambda>q. Inr (q\<lparr>tp_phase := ph\<rparr>)))" for ph
    using partial(9) by (auto simp: yields_ok_def andThen_Inr_iff)
  have "yields_ok n p (applyKnownEvent sc p ev)"
    unfolding applyKnownEvent_def Let_def
    by (intro yields_if yields_working partial compacted;
        (intro yields_andThen yields_Inr step_ok_started [OF assms(1,2)] step_ok_text [OF assms(1)] step_ok_settle [OF assms(1)]
          step_ok_tool_call [OF assms(1,2)] plain; simp)?)
      (use assms(4) step_ok_refl [OF assms(1)] in \<open>simp_all add: terminal_status_of_def yields_ok_def\<close>)
  with assms(3) show ?thesis by (simp add: yields_ok_def)
qed

lemma requireItemId_total: "truthy (itemId ev) \<Longrightarrow> requireItemId ev = Inr (the (itemId ev))"
  by (simp add: requireItemId_def)

lemma isl_andThen: "\<not> isl r \<Longrightarrow> (\<And>x. r = Inr x \<Longrightarrow> \<not> isl (f x)) \<Longrightarrow> \<not> isl (andThen r f)"
  by (cases r) simp_all

lemma isl_if: "(b \<Longrightarrow> \<not> isl x) \<Longrightarrow> (\<not> b \<Longrightarrow> \<not> isl y) \<Longrightarrow> \<not> isl (if b then x else y)"
  by simp

lemma isl_working: "\<not> isl r \<Longrightarrow> \<not> isl (working r)"
  unfolding working_def by (rule isl_andThen) simp_all

lemma item_operations_total:
  assumes "\<not> isl (requireItemId ev)"
  shows "\<not> isl (createStartedItem ev)" "\<not> isl (appendReasoningText p ev)" "\<not> isl (updatePlanItem p ev)"
    "\<not> isl (updateItemFromPayload p ev)" "\<not> isl (upsertCompactionItem p ev)"
  unfolding createStartedItem_def appendReasoningText_def updatePlanItem_def updateItemFromPayload_def upsertCompactionItem_def Let_def
  by (intro isl_if isl_andThen assms; simp)+

lemma approval_operations_total:
  assumes "\<not> isl (requireApprovalId ev)"
  shows "\<not> isl (projection_decideApproval p ev)" "\<not> isl (requireItemId ev) \<Longrightarrow> \<not> isl (projection_requestApproval p ev)"
  unfolding projection_decideApproval_def projection_requestApproval_def Let_def
  by (intro isl_andThen assms; simp split: option.split)+

lemma request_operations_total:
  assumes "\<not> isl (requireRequestId ev)" and "\<not> isl (requireItemId ev)"
  shows "\<not> isl (requestUserInput p ev)" "\<not> isl (respondToUserInput p ev)" "\<not> isl (resolveRequest p ev)"
  unfolding requestUserInput_def respondToUserInput_def resolveRequest_def Let_def
  by (intro isl_andThen assms; simp split: option.split)+

lemma applyKnownEvent_total:
  assumes "identified ev"
  shows "\<exists>p'. applyKnownEvent sc p ev = Inr p'"
proof -
  have i: "\<not> isl (requireItemId ev)" if "etype ev \<in> needs_itemId"
    using assms that by (simp add: identified_def requireItemId_def)
  have a: "\<not> isl (requireApprovalId ev)" if "etype ev \<in> {E_approval_requested, E_approval_decided}"
    using assms that by (auto simp: identified_def requireApprovalId_def split: option.splits)
  have r: "\<not> isl (requireRequestId ev)" if "etype ev \<in> {E_user_input_requested, E_user_input_responded, E_request_resolved}"
    using assms that by (auto simp: identified_def requireRequestId_def split: option.splits)
  have "\<not> isl (applyKnownEvent sc p ev)"
    unfolding applyKnownEvent_def Let_def
    by (intro isl_if isl_working isl_andThen item_operations_total approval_operations_total request_operations_total i a r;
        simp add: needs_itemId_def)
  then show ?thesis by (cases "applyKnownEvent sc p ev") simp_all
qed

lemma applyKnownEvent_terminal:
  assumes "terminal_status_of (etype ev) = Some st"
  shows "applyKnownEvent sc p ev = Inr (projection_settleTurn p st ev)"
  using assms by (auto simp: terminal_status_of_def applyKnownEvent_def Let_def known_types split: if_splits)

lemma derive_fields [simp]:
  "tp_items (deriveWaitingPhase p) = tp_items p" "tp_terminal (deriveWaitingPhase p) = tp_terminal p"
  "tp_settledAt (deriveWaitingPhase p) = tp_settledAt p" "tp_lastSequence (deriveWaitingPhase p) = tp_lastSequence p"
  "tp_turnId (deriveWaitingPhase p) = tp_turnId p" "tp_pendingApproval (deriveWaitingPhase p) = tp_pendingApproval p"
  by (simp_all add: deriveWaitingPhase_def)

lemma thinking_cong: "tp_items p = tp_items q \<Longrightarrow> tp_terminal p = tp_terminal q \<Longrightarrow> hasActiveThinking p = hasActiveThinking q"
  by (simp add: hasActiveThinking_def)

lemma settleTurn_fields [simp]:
  "tp_items (projection_settleTurn p st ev) = cancelPendingRequests (tp_items p) ev"
  "tp_pendingApproval (projection_settleTurn p st ev) = None" "tp_phase (projection_settleTurn p st ev) = terminal_phase st"
  "map_option wt_state (tp_terminal (projection_settleTurn p st ev)) = Some st"
  "tp_settledAt (projection_settleTurn p st ev) = Some (createdAt ev)" "tp_turnId (projection_settleTurn p st ev) = tp_turnId p"
  "tp_lastSequence (projection_settleTurn p st ev) = tp_lastSequence p"
  by (simp_all add: projection_settleTurn_def Let_def)

lemma settleTurn_terminal: "tp_terminal (projection_settleTurn p st ev) \<noteq> None"
  by (simp add: projection_settleTurn_def Let_def)

text \<open>What one event of the turn does to a well-formed projection.\<close>

definition ended_as :: "TurnWorkflowProjection \<Rightarrow> TurnTerminalStatus \<Rightarrow> bool" where
  "ended_as p st \<longleftrightarrow> map_option wt_state (tp_terminal p) = Some st \<and> tp_phase p = terminal_phase st \<and> tp_pendingApproval p = None \<and>
     \<not> tp_activeThinking p \<and> list_all (\<lambda>item. map_option wr_state (wi_request item) \<noteq> Some ''pending'') (tp_items p)"

lemma cancelled_requests: "list_all (\<lambda>item. map_option wr_state (wi_request item) \<noteq> Some ''pending'') (cancelPendingRequests items ev)"
  by (auto simp: cancelPendingRequests_def cancel_request_def list_all_iff split: option.splits)

lemma projection_apply_step:
  assumes "projection_wf p" and "identified ev" and "turnId ev = tp_turnId p"
  obtains p' where "projection_apply sc p ev = Inr p'" and "projection_wf p'" and "tp_turnId p' = tp_turnId p"
    and "tp_lastSequence p' = max (tp_lastSequence p) (sequence ev)"
    and "case terminal_status_of (etype ev) of None \<Rightarrow> tp_terminal p' = tp_terminal p | Some st \<Rightarrow> ended_as p' st"
proof -
  obtain q where q: "applyKnownEvent sc p ev = Inr q" using applyKnownEvent_total [OF assms(2)] by blast
  let ?n = "max (tp_lastSequence p) (sequence ev)"
  have at: "items_at ?n (tp_items p)"
    by (rule items_at_mono [where m = "tp_lastSequence p"]) (use assms(1) in \<open>simp_all add: projection_wf_def items_at_def\<close>)
  define p' where "p' = (deriveWaitingPhase q)\<lparr>tp_lastSequence := max (tp_lastSequence q) (sequence ev),
    tp_activeThinking := hasActiveThinking (deriveWaitingPhase q), tp_assistantText := collectAssistantText (tp_items q)\<rparr>"
  have app: "projection_apply sc p ev = Inr p'" using q assms(3) by (simp add: projection_apply_def p'_def Let_def)
  have thinking: "tp_activeThinking p' = hasActiveThinking p'" unfolding p'_def by (simp add: hasActiveThinking_def)
  have settled: "tp_terminal p = None \<longleftrightarrow> tp_settledAt p = None" using assms(1) by (simp add: projection_wf_def)
  show ?thesis
  proof (cases "terminal_status_of (etype ev)")
    case None
    have "step_ok ?n p q" by (rule applyKnownEvent_open [OF at _ q None]) simp
    then show ?thesis
      using None thinking settled by (intro that [OF app]) (simp_all add: p'_def step_ok_def projection_wf_def items_at_def)
  next
    case (Some st)
    have qs: "q = projection_settleTurn p st ev" using applyKnownEvent_terminal [OF Some, of sc p] q by simp
    have "items_at ?n (tp_items q)" using cancelled_at [OF at] qs by simp
    moreover have "tp_phase p' = terminal_phase st" using settleTurn_terminal [of p st ev] qs by (simp add: p'_def deriveWaitingPhase_def)
    moreover have "\<not> tp_activeThinking p'" using settleTurn_terminal [of p st ev] qs by (simp add: p'_def hasActiveThinking_def)
    ultimately show ?thesis
      using Some thinking settleTurn_terminal [of p st ev] cancelled_requests [of "tp_items p" ev]
      by (intro that [OF app]) (simp_all add: p'_def qs projection_wf_def items_at_def ended_as_def)
  qed
qed

lemma projection_apply_other: "turnId ev \<noteq> tp_turnId p \<Longrightarrow> projection_apply sc p ev = Inr p"
  by (simp add: projection_apply_def)

lemma projection_wf_init: "projection_wf (createTurnWorkflowProjection t)"
  by (simp add: projection_wf_def createTurnWorkflowProjection_def items_wf_def hasActiveThinking_def collectAssistantText_def)

lemma fold_projection_wf:
  assumes "projection_wf p" and "list_all identified evs"
  shows "\<exists>p'. fold_sum (\<lambda>ev p. projection_apply sc p ev) evs p = Inr p' \<and> projection_wf p' \<and> tp_turnId p' = tp_turnId p"
  using assms
proof (induction evs arbitrary: p)
  case (Cons ev evs)
  obtain p1 where p1: "projection_apply sc p ev = Inr p1" "projection_wf p1" "tp_turnId p1 = tp_turnId p"
  proof (cases "turnId ev = tp_turnId p")
    case True
    show ?thesis by (rule projection_apply_step [OF Cons.prems(1) _ True, of sc]) (use Cons.prems(2) that in auto)
  qed (use Cons.prems(1) that projection_apply_other in auto)
  from Cons.IH [OF p1(2)] Cons.prems(2) p1 show ?case by simp
qed simp

text \<open>
  C32. The reducer is total on identified events and keeps the shape of the projection. Whatever identified events it is
  given, in whatever order and for whatever turns, the replay returns a projection in which the identifiers of the items
  are distinct and not empty, an item is active exactly as long as it has no completion time, only approval and input
  requests carry a request, no item is newer than the last sequence, the turn is terminal exactly when it is settled, and
  the derived fields are those of the items.
\<close>
theorem replayed_projection_is_well_formed:
  assumes "list_all identified evs"
  shows "\<exists>p. replayTurnWorkflowProjection sc t evs = Inr p \<and> projection_wf p \<and> tp_turnId p = t"
  using fold_projection_wf [OF projection_wf_init assms, of sc t]
  by (simp add: replayTurnWorkflowProjection_def) (simp add: createTurnWorkflowProjection_def)


definition sample_item_event :: "nat \<Rightarrow> LifecycleEventType \<Rightarrow> JsonRecord \<Rightarrow> ClientEvent" where
  "sample_item_event n e d =
     \<lparr>eventId = ''evt'', threadId = ''thr'', turnId = ''trn'', runAttemptId = ''att'', sequence = n, idempotencyKey = ''key'',
      producerId = ''kernel'', schemaVersion = 1, createdAt = ''now'', etype = e, itemId = Some ''itm'', toolCallId = None,
      approvalId = Some ''apr'', payload = d, requestId = None\<rparr>"

definition sample_schemas :: projection_schemas where
  "sample_schemas = \<lparr>sc_resumeRef = (\<lambda>_. False), sc_turnDiff = Some, sc_contextBudget = id, sc_usage = id, sc_before = (\<le>)\<rparr>"

lemma replayed_projection_is_well_formed_witness:
  "\<exists>p. replayTurnWorkflowProjection sample_schemas ''trn''
     [sample_item_event 1 E_item_started [(''kind'', PKind Kind_approval_request)], sample_item_event 2 E_approval_requested [],
      sample_item_event 3 E_turn_failed []] = Inr p \<and> projection_wf p \<and> tp_turnId p = ''trn''"
  by (rule replayed_projection_is_well_formed) (simp add: identified_def sample_item_event_def needs_itemId_def)

section \<open>A stream and its end\<close>

lemma client_event_fields [simp]:
  "turnId (client_event ev) = turnId ev" "sequence (client_event ev) = sequence ev" "etype (client_event ev) = etype ev"
  "itemId (client_event ev) = itemId ev" "approvalId (client_event ev) = approvalId ev" "payload (client_event ev) = payload ev"
  "createdAt (client_event ev) = createdAt ev"
  by (simp_all add: client_event_def)

lemma terminal_status_of_None: "terminal_status_of e = None \<longleftrightarrow> \<not> terminal_event_type e"
  by (auto simp: terminal_status_of_def terminal_event_type_def)

text \<open>The status with which a stream ends, if it has its terminal event.\<close>

definition stream_end :: "LifecycleEvent list \<Rightarrow> TurnTerminalStatus option" where
  "stream_end evs = (if evs = [] then None else terminal_status_of (etype (last evs)))"

lemma contiguous_butlast:
  assumes "contiguous_stream t (evs @ [ev])"
  shows "contiguous_stream t evs" "turnId ev = t" "sequence ev = Suc (length evs)" "\<And>e. e \<in> set evs \<Longrightarrow> \<not> terminal_event_type (etype e)"
proof -
  have open_evs: "list_all (\<lambda>e. \<not> terminal_event_type (etype e)) evs" using assms by (simp add: contiguous_stream_def)
  then show "\<And>e. e \<in> set evs \<Longrightarrow> \<not> terminal_event_type (etype e)" by (simp add: list_all_iff)
  have "list_all (\<lambda>e. \<not> terminal_event_type (etype e)) (butlast evs)" using open_evs by (auto simp: list_all_iff dest: in_set_butlastD)
  then show "contiguous_stream t evs" "turnId ev = t" "sequence ev = Suc (length evs)"
    using assms by (simp_all add: contiguous_stream_def)
qed

lemma projection_of_stream:
  assumes "contiguous_stream t evs" and "list_all (\<lambda>ev. identified (client_event ev)) evs"
  shows "\<exists>p. replayTurnWorkflowProjection sc t (map client_event evs) = Inr p \<and> projection_wf p \<and> tp_turnId p = t \<and>
    tp_lastSequence p = length evs \<and> (case stream_end evs of None \<Rightarrow> tp_terminal p = None | Some st \<Rightarrow> ended_as p st)"
  using assms
proof (induction evs rule: rev_induct)
  case Nil
  show ?case
    using projection_wf_init [of t] by (simp add: replayTurnWorkflowProjection_def stream_end_def) (simp add: createTurnWorkflowProjection_def)
next
  case (snoc ev evs)
  note parts = contiguous_butlast [OF snoc.prems(1)]
  have open_evs: "stream_end evs = None" using parts(4) by (simp add: stream_end_def terminal_status_of_None)
  obtain p where p: "replayTurnWorkflowProjection sc t (map client_event evs) = Inr p" "projection_wf p" "tp_turnId p = t"
    "tp_lastSequence p = length evs" "tp_terminal p = None"
    using snoc.IH [OF parts(1)] snoc.prems(2) open_evs by auto
  obtain p' where p': "projection_apply sc p (client_event ev) = Inr p'" "projection_wf p'" "tp_turnId p' = tp_turnId p"
    "tp_lastSequence p' = max (tp_lastSequence p) (sequence (client_event ev))"
    "case terminal_status_of (etype (client_event ev)) of None \<Rightarrow> tp_terminal p' = tp_terminal p | Some st \<Rightarrow> ended_as p' st"
    by (rule projection_apply_step [OF p(2), of "client_event ev" sc]) (use snoc.prems(2) p(3) parts(2) in auto)
  have "replayTurnWorkflowProjection sc t (map client_event (evs @ [ev])) = Inr p'"
    using p(1) p'(1) by (simp add: replayTurnWorkflowProjection_def fold_sum_append)
  then show ?case using p' p parts(3) by (auto simp: stream_end_def split: option.splits)
qed

end
