(* ===== verification/Client_View.thy ===== *)
theory Client_View
  imports Client_Server Projection_Properties Lifecycle_Liveness
begin

text \<open>
  The kernel's coordinator and the client's projection together: what the client makes of the stream that the coordinator
  has written, whether it reads the stored events or follows the turn while it runs.
\<close>

section \<open>What is stored is identified\<close>

text \<open>
  The schema of a lifecycle event requires the identifiers that the projection needs, so an accepted event has them
  (platform-protocol/src/lifecycle.ts: every branch of the union for these types has them as required fields; an event of
  the coordinator has no \<open>requestId\<close>, so the schema refuses user input requests from it).
\<close>

definition identifying_schema :: "event_schema \<Rightarrow> bool" where
  "identifying_schema parse \<longleftrightarrow> (\<forall>ev ev'. parse ev = Some ev' \<longrightarrow> identified (client_event ev'))"

definition identified_store :: "event_schema \<Rightarrow> MemoryLifecycleEventStore \<Rightarrow> bool" where
  "identified_store parse k \<longleftrightarrow> canonical_store k \<and>
     (\<forall>t. accepted_events parse (lifecycle_log k t) \<and> list_all (\<lambda>ev. identified (client_event ev)) (lifecycle_log k t))"

lemma identified_store_empty: "identified_store parse empty_lifecycle_store"
  using canonical_store_empty
  by (simp add: identified_store_def accepted_events_def lifecycle_log_def turn_stored_def empty_lifecycle_store_def)

lemma identified_sink:
  assumes "identifying_schema parse"
  shows "lifecycle_sink (appendBatch parse) lifecycle_log (identified_store parse) (admissible_event parse)"
proof -
  have sink: "lifecycle_sink (appendBatch parse) lifecycle_log canonical_store (admissible_event parse)"
    using reliable_sink_memory by (rule reliable_sink.axioms(1))
  have ids: "accepted_events parse evs \<and> list_all (\<lambda>ev. identified (client_event ev)) evs"
    if "list_all (admissible_event parse) evs" for evs
    using that assms by (auto simp: accepted_events_def list_all_iff admissible_event_def identifying_schema_def)
  show ?thesis
  proof unfold_locales
    fix k evs t rs k'
    assume k: "identified_store parse k" and ev: "list_all (admissible_event parse) evs"
      and c: "contiguous_stream t (lifecycle_log k t @ evs)" "appendBatch parse evs k = (Inr rs, k')"
    then have "canonical_store k' \<and> lifecycle_log k' = (lifecycle_log k)(t := lifecycle_log k t @ evs)"
      using lifecycle_sink.append_next [OF sink _ ev c] by (simp add: identified_store_def)
    then show "identified_store parse k' \<and> lifecycle_log k' = (lifecycle_log k)(t := lifecycle_log k t @ evs)"
      using k ids [OF ev] by (simp add: identified_store_def accepted_events_def)
  next
    fix k evs e k'
    assume k: "identified_store parse k" and "appendBatch parse evs k = (Inl e, k')"
    then have "canonical_store k' \<and> lifecycle_log k' = lifecycle_log k"
      by (intro lifecycle_sink.append_error [OF sink]) (simp_all add: identified_store_def)
    with k show "identified_store parse k' \<and> lifecycle_log k' = lifecycle_log k" by (simp add: identified_store_def)
  next
    fix k t
    assume "identified_store parse k"
    then show "contiguous_stream t (lifecycle_log k t)"
      using lifecycle_sink.log_contiguous [OF sink] by (simp add: identified_store_def)
  qed
qed

lemma identified_reliable_sink:
  assumes "identifying_schema parse"
  shows "reliable_sink (appendBatch parse) lifecycle_log (identified_store parse) (admissible_event parse)"
  using identified_sink [OF assms] reliable_sink.append_progress [OF reliable_sink_memory]
  by (intro reliable_sink.intro reliable_sink_axioms.intro) (auto simp: identified_store_def)

lemma run_identified:
  assumes "opt_appendBatch env = appendBatch (opt_parseEvent env)"
    and "lawful_schema (opt_parseEvent env)" and "lawful_ids (opt_parseEventId env)"
    and "identifying_schema (opt_parseEvent env)"
  shows "log_synced lifecycle_log (identified_store (opt_parseEvent env)) (opt_turnId env) (lc_run env cs (lc_init 0 ticks empty_lifecycle_store))"
proof (rule settling_predicate.run_keeps
    [OF lifecycle_sink.synced_predicate [OF identified_sink [OF assms(4)] lawful_writer_memory [OF assms(1-3)]]])
  show "log_synced lifecycle_log (identified_store (opt_parseEvent env)) (opt_turnId env) (lc_init 0 ticks empty_lifecycle_store)"
    using fresh_synced [of "opt_turnId env" ticks] identified_store_empty
    by (auto simp: log_synced_def identified_store_def lc_init_def [of _ _ empty_lifecycle_store] isTerminal_def)
qed

section \<open>The view of the client\<close>

lemma settled_stream_end: "settled_status (log_end evs) = map_option turn_of_terminal (stream_end evs)"
  by (simp add: log_end_def stream_end_def terminal_status_of_def)

text \<open>
  C11. The client sees what the coordinator knows. Whatever operations run on a fresh coordinator over the memory store, the
  replay of the stored events of the turn by the client succeeds with a well-formed projection whose last sequence is the
  coordinator's; while the turn is open the projection has no outcome, and once the coordinator has settled the turn the
  projection has ended with the same status, shows the phase of that status, waits for no approval, shows no active
  thinking and has no pending request.
\<close>
theorem client_projection_refines_coordinator:
  assumes "opt_appendBatch env = appendBatch (opt_parseEvent env)"
    and "lawful_schema (opt_parseEvent env)" and "lawful_ids (opt_parseEventId env)"
    and "identifying_schema (opt_parseEvent env)"
    and "s = lc_run env cs (lc_init 0 ticks empty_lifecycle_store)"
  shows "\<exists>p. replayTurnWorkflowProjection sc (opt_turnId env) (map client_event (lifecycle_log (lc_sink s) (opt_turnId env))) = Inr p \<and>
    projection_wf p \<and> tp_turnId p = opt_turnId env \<and> tp_lastSequence p = lc_sequence s \<and>
    (if isTerminal s then \<exists>st. turn_of_terminal st = lc_status s \<and> ended_as p st else tp_terminal p = None)"
proof -
  let ?evs = "lifecycle_log (lc_sink s) (opt_turnId env)"
  have sync: "log_synced lifecycle_log (identified_store (opt_parseEvent env)) (opt_turnId env) s"
    unfolding assms(5) by (rule run_identified [OF assms(1-4)])
  then have evs: "contiguous_stream (opt_turnId env) ?evs" "list_all (\<lambda>ev. identified (client_event ev)) ?evs"
    by (simp_all add: log_synced_def identified_store_def canonical_store_def store_inv_def)
  obtain p where p: "replayTurnWorkflowProjection sc (opt_turnId env) (map client_event ?evs) = Inr p" "projection_wf p"
    "tp_turnId p = opt_turnId env" "tp_lastSequence p = length ?evs"
    "case stream_end ?evs of None \<Rightarrow> tp_terminal p = None | Some st \<Rightarrow> ended_as p st"
    using projection_of_stream [OF evs, of sc] by blast
  have "map_option turn_of_terminal (stream_end ?evs) = (if isTerminal s then Some (lc_status s) else None)"
    using sync by (simp add: log_synced_def flip: settled_stream_end)
  then have "if isTerminal s then \<exists>st. turn_of_terminal st = lc_status s \<and> ended_as p st else tp_terminal p = None"
    using p(5) by (auto split: if_splits option.splits)
  moreover have "tp_lastSequence p = lc_sequence s" using p(4) sync by (simp add: log_synced_def)
  ultimately show ?thesis using p by blast
qed

definition identified_sample_schema :: event_schema where
  "identified_sample_schema ev = (if identified (client_event ev) then sample_schema ev else None)"

definition identified_options :: "MemoryLifecycleEventStore lc_options" where
  "identified_options = sample_options\<lparr>opt_parseEvent := identified_sample_schema, opt_appendBatch := appendBatch identified_sample_schema\<rparr>"

lemma identified_lawful:
  "opt_appendBatch identified_options = appendBatch (opt_parseEvent identified_options)"
  "lawful_schema (opt_parseEvent identified_options)" "lawful_ids (opt_parseEventId identified_options)"
  "identifying_schema (opt_parseEvent identified_options)"
  by (auto simp: identified_options_def sample_options_def lawful_schema_def lawful_ids_def sample_schema_def identified_sample_schema_def
      same_envelope_def identifying_schema_def split: if_splits)

lemma client_projection_refines_coordinator_witness:
  "\<exists>p. replayTurnWorkflowProjection sample_schemas ''trn_abcdef'' (map client_event
      (lifecycle_log (lc_sink (lc_run identified_options [Start, Interrupt ''stop''] (lc_init 0 0 empty_lifecycle_store))) ''trn_abcdef'')) = Inr p \<and>
    projection_wf p"
  using client_projection_refines_coordinator [OF identified_lawful refl, of sample_schemas "[Start, Interrupt ''stop'']" 0]
  by (auto simp: identified_options_def sample_options_def simp del: lc_run_simps)

section \<open>Following a turn that the coordinator runs\<close>

lemma stream_ended: "ended evs \<longleftrightarrow> stream_end evs \<noteq> None"
  using terminal_status_of_None [of "etype (last evs)"] by (auto simp: ended_def stream_end_def)

text \<open>
  C12. The reader of a running turn sees how it ends. A client has replayed the turn up to its cursor and follows it over an
  unreliable network, without being aborted, while the coordinator's events arrive in the store of the server, in batches
  that come between and during the client's requests and delays. The store and the client validate with the coordinator's
  event schema, the client's request and response schemas accept safe sequence numbers and pages of accepted events, and
  the final stream has fewer events than there are safe integers. If the coordinator settles the turn, the client returns,
  and the projection to which it has applied the events it yielded is the one a replay of the whole stream gives: it has
  seen every event and has ended with the coordinator's status.
\<close>
theorem followed_turn_is_seen_to_its_end:
  assumes "opt_appendBatch env = appendBatch (opt_parseEvent env)"
    and "lawful_schema (opt_parseEvent env)" and "lawful_ids (opt_parseEventId env)" and "identifying_schema (opt_parseEvent env)"
    and "s = lc_run env cs (lc_init 0 ticks empty_lifecycle_store)" and "isTerminal s"
    and "final = lifecycle_log (lc_sink s) (opt_turnId env)" and "fr_turnId fr = opt_turnId env" and "parse = opt_parseEvent env"
    and "speaks_protocol tr parse d (fr_replayLimit fr) (fr_turnId fr)" and "tr_parseFollowRequest tr fr = Some fr"
    and "0 < server_limit d (fr_replayLimit fr)" "server_limit d (fr_replayLimit fr) \<le> 1000"
    and "store_inv (sw_store w)" and "final = lifecycle_log (final_store parse w) (fr_turnId fr)" and "safe_sequence (length final)"
    and "cursor fr \<le> length (lifecycle_log (sw_store w) (fr_turnId fr))" and "cursor fr < length final"
    and "replayTurnWorkflowProjection sc (fr_turnId fr) (map client_event (take (cursor fr) final)) = Inr p"
  shows "\<exists>c p' st. followTurnLifecycle tr (server_ports parse d) fr w = Some (Inr (Inr (), c)) \<and>
    fold_sum (\<lambda>ev p. projection_apply sc p ev) (map client_event (fs_yielded c)) p = Inr p' \<and>
    replayTurnWorkflowProjection sc (fr_turnId fr) (map client_event final) = Inr p' \<and>
    tp_lastSequence p' = lc_sequence s \<and> ended_as p' st \<and> turn_of_terminal st = lc_status s"
proof -
  have sync: "log_synced lifecycle_log (identified_store (opt_parseEvent env)) (opt_turnId env) s"
    unfolding assms(5) by (rule run_identified [OF assms(1-4)])
  then have evs: "contiguous_stream (fr_turnId fr) final" "list_all (\<lambda>ev. identified (client_event ev)) final"
    "length final = lc_sequence s" "accepted_events parse final"
    unfolding assms(7,8,9)
    by (simp_all add: log_synced_def identified_store_def canonical_store_def store_inv_def)
  have st: "map_option turn_of_terminal (stream_end final) = Some (lc_status s)"
    using sync assms(6) unfolding assms(7) by (simp add: log_synced_def flip: settled_stream_end)
  then have "ended final" by (auto simp: stream_ended)
  from follows_to_the_end [OF assms(10-15) this evs(4) assms(16-18)]
  obtain c where c: "followTurnLifecycle tr (server_ports parse d) fr w = Some (Inr (Inr (), c))" "fs_yielded c = drop (cursor fr) final" by blast
  obtain p' where p': "replayTurnWorkflowProjection sc (fr_turnId fr) (map client_event final) = Inr p'" "tp_lastSequence p' = length final"
    "case stream_end final of None \<Rightarrow> tp_terminal p' = None | Some st \<Rightarrow> ended_as p' st"
    using projection_of_stream [OF evs(1,2), of sc] by blast
  have "map client_event final = map client_event (take (cursor fr) final) @ map client_event (fs_yielded c)"
    by (simp add: c(2) flip: map_append)
  then have "fold_sum (\<lambda>ev p. projection_apply sc p ev) (map client_event (fs_yielded c)) p = Inr p'"
    using p'(1) assms(19) by (simp add: replayTurnWorkflowProjection_def fold_sum_append)
  with c(1) p' evs(3) st show ?thesis by auto
qed

definition interrupted_lc :: "MemoryLifecycleEventStore lc_state" where
  "interrupted_lc = lc_run identified_options [Interrupt ''stop''] (lc_init 0 0 empty_lifecycle_store)"

definition interrupted_world :: server_world where
  "interrupted_world = \<lparr>sw_store = lc_sink interrupted_lc, sw_pending = [], sw_arrivals = [], sw_outages = [True]\<rparr>"

lemma interrupted_lc_run: "(lc_status interrupted_lc, lc_sequence interrupted_lc) = (Ts_interrupted, 2)"
  by code_simp

lemma followed_turn_is_seen_to_its_end_witness:
  "\<exists>c p' st. followTurnLifecycle (sample_transport identified_sample_schema) (server_ports identified_sample_schema 100) (sample_follow\<lparr>fr_afterSequence := Some 0\<rparr>) interrupted_world
      = Some (Inr (Inr (), c)) \<and>
    fold_sum (\<lambda>ev p. projection_apply sample_schemas p ev) (map client_event (fs_yielded c)) (createTurnWorkflowProjection ''trn_abcdef'') = Inr p' \<and>
    replayTurnWorkflowProjection sample_schemas ''trn_abcdef'' (map client_event (lifecycle_log (lc_sink interrupted_lc) ''trn_abcdef'')) = Inr p' \<and>
    tp_lastSequence p' = 2 \<and> ended_as p' st \<and> turn_of_terminal st = Ts_interrupted"
proof -
  have sync: "log_synced lifecycle_log (identified_store identified_sample_schema) ''trn_abcdef'' interrupted_lc"
    using run_identified [OF identified_lawful, of "[Interrupt ''stop'']" 0] unfolding interrupted_lc_def
    by (simp add: identified_options_def sample_options_def del: lc_run_simps)
  have run: "lc_status interrupted_lc = Ts_interrupted" "lc_sequence interrupted_lc = 2" using interrupted_lc_run by simp_all
  have opt: "opt_turnId identified_options = ''trn_abcdef''" "opt_parseEvent identified_options = identified_sample_schema" by (simp_all add: identified_options_def sample_options_def)
  let ?fr = "sample_follow\<lparr>fr_afterSequence := Some 0\<rparr>"
  have fr: "fr_turnId ?fr = ''trn_abcdef''" "cursor ?fr = 0" "fr_replayLimit ?fr = None" by (simp_all add: sample_follow_def cursor_def)
  have len: "length (lifecycle_log (lc_sink interrupted_lc) ''trn_abcdef'') = 2" using sync run by (simp add: log_synced_def)
  have world: "sw_store interrupted_world = lc_sink interrupted_lc" "final_store identified_sample_schema interrupted_world = lc_sink interrupted_lc"
    by (simp_all add: interrupted_world_def final_store_def)
  have "\<exists>c p' st. followTurnLifecycle (sample_transport identified_sample_schema) (server_ports identified_sample_schema 100) ?fr interrupted_world = Some (Inr (Inr (), c)) \<and>
    fold_sum (\<lambda>ev p. projection_apply sample_schemas p ev) (map client_event (fs_yielded c)) (createTurnWorkflowProjection ''trn_abcdef'') = Inr p' \<and>
    replayTurnWorkflowProjection sample_schemas (fr_turnId ?fr) (map client_event (lifecycle_log (lc_sink interrupted_lc) ''trn_abcdef'')) = Inr p' \<and>
    tp_lastSequence p' = lc_sequence interrupted_lc \<and> ended_as p' st \<and> turn_of_terminal st = lc_status interrupted_lc"
  proof (rule followed_turn_is_seen_to_its_end [OF identified_lawful interrupted_lc_def])
    show "isTerminal interrupted_lc" using run by (simp add: isTerminal_def)
    show "store_inv (sw_store interrupted_world)"
      using sync unfolding world by (simp add: log_synced_def identified_store_def canonical_store_def)
    show "replayTurnWorkflowProjection sample_schemas (fr_turnId ?fr) (map client_event (take (cursor ?fr)
        (lifecycle_log (lc_sink interrupted_lc) ''trn_abcdef''))) = Inr (createTurnWorkflowProjection ''trn_abcdef'')"
      by (simp only: fr take_0 list.map replayTurnWorkflowProjection_def fold_sum.simps)
  qed (simp_all only: fr opt world len sample_speaks sample_fields sample_room, (simp_all)?)
  then show ?thesis by (simp only: fr run)
qed

end
