(* ===== verification/Client_Answer.thy ===== *)
theory Client_Answer
  imports Client_View
begin

text \<open>
  The answer of a turn on its way to the reader: the coordinator splits it into deltas, and the client's projection puts
  them together again.
\<close>

section \<open>What the client shows of an item\<close>

text \<open>
  The schema keeps the plain fields of a payload as they are. Names are trimmed, and fields that the schema does not know
  are refused, so only these fields are listed.
\<close>

definition text_keys :: "string set" where
  "text_keys = {''kind'', ''delta'', ''text'', ''content'', ''summary''}"

definition text_preserving :: "event_schema \<Rightarrow> bool" where
  "text_preserving parse \<longleftrightarrow> (\<forall>ev ev'. parse ev = Some ev' \<longrightarrow> (\<forall>k\<in>text_keys. map_of (payload ev') k = map_of (payload ev) k))"

text \<open>An event as the client gets it, for the fields the coordinator put into it.\<close>

definition carries :: "'st lc_options \<Rightarrow> EventFields \<Rightarrow> LifecycleEvent \<Rightarrow> bool" where
  "carries env f ev \<longleftrightarrow> turnId ev = opt_turnId env \<and> etype ev = f_type f \<and> itemId ev = f_itemId f \<and>
     (\<forall>k\<in>text_keys. map_of (payload ev) k = map_of (f_payload f) k)"

text \<open>An item as the client shows it.\<close>

definition shown_item :: "TurnWorkflowProjection \<Rightarrow> string \<Rightarrow> (WorkflowItemKind \<times> WorkflowItemStatus \<times> string) option" where
  "shown_item p i = map_option (\<lambda>item. (wi_kind item, wi_status item, wi_text item)) (find_item p i)"

lemma find_upsert: "find_item (upsertItem p item) (wi_itemId item) = Some item"
proof (cases "list_ex (\<lambda>candidate. wi_itemId candidate = wi_itemId item) (tp_items p)")
  case True
  have "List.find (\<lambda>x. wi_itemId x = wi_itemId item) (map (\<lambda>candidate. if wi_itemId candidate = wi_itemId item then item else candidate) items) = Some item"
    if "list_ex (\<lambda>candidate. wi_itemId candidate = wi_itemId item) items" for items
    using that by (induction items) auto
  then show ?thesis using True by (simp add: find_item_def upsertItem_def)
next
  case False
  have "List.find (\<lambda>x. wi_itemId x = wi_itemId item) (items @ [item]) = Some item"
    if "\<not> list_ex (\<lambda>candidate. wi_itemId candidate = wi_itemId item) items" for items
    using that by (induction items) auto
  then show ?thesis using False by (simp add: find_item_def upsertItem_def)
qed

lemma find_update:
  assumes "\<And>item. wi_itemId item = i \<Longrightarrow> wi_itemId (f item) = i"
  shows "find_item (updateItem p i f) i = map_option f (find_item p i)"
proof -
  have "List.find (\<lambda>x. wi_itemId x = i) (map (\<lambda>item. if wi_itemId item = i then f item else item) items) =
      map_option f (List.find (\<lambda>x. wi_itemId x = i) items)" for items
    by (induction items) (auto simp: assms)
  then show ?thesis by (simp add: find_item_def updateItem_def)
qed

text \<open>One event of the answer.\<close>

lemma apply_shown:
  assumes "projection_apply sc p ev = Inr p'" and "turnId ev = tp_turnId p" and "applyKnownEvent sc p ev = Inr q"
  shows "shown_item p' i = shown_item q i"
proof -
  have "tp_items p' = tp_items q" using assms by (simp add: projection_apply_def Let_def) (drule sym, simp)
  then show ?thesis by (simp add: shown_item_def find_item_def)
qed

lemma text_carried:
  assumes "carries env f ev"
  shows "readTextPayload (payload (client_event ev)) = readTextPayload (f_payload f)" "readItemKind (payload (client_event ev)) = readItemKind (f_payload f)"
  using assms by (simp_all add: carries_def text_keys_def readTextPayload_def readItemKind_def readString_def)

lemma shown_started:
  assumes "projection_apply sc p (client_event ev) = Inr p'" and "opt_turnId env = tp_turnId p"
    and "carries env (item_event E_item_started i d) ev" and "i \<noteq> []"
  shows "shown_item p' i = Some (readItemKind d, Ws_active, readTextPayload d)"
proof -
  have ev: "turnId ev = tp_turnId p" "etype ev = E_item_started" "itemId ev = Some i" using assms(2,3) by (simp_all add: carries_def)
  obtain item where item: "createStartedItem (client_event ev) = Inr item" "wi_itemId item = i"
    "wi_kind item = readItemKind d" "wi_status item = Ws_active" "wi_text item = readTextPayload d"
    using ev assms(4) text_carried [OF assms(3)] by (auto simp: createStartedItem_def requireItemId_def Let_def)
  have "applyKnownEvent sc p (client_event ev) = Inr ((upsertItem p item)\<lparr>tp_phase := Ph_working\<rparr>)"
    using ev item(1) by (simp add: applyKnownEvent_def working_def)
  from apply_shown [OF assms(1) _ this, of i] ev(1) have "shown_item p' i = shown_item (upsertItem p item) i"
    by (simp add: shown_item_def find_item_def)
  then show ?thesis using find_upsert [of p item] item by (simp add: shown_item_def)
qed

lemma shown_delta:
  assumes "projection_apply sc p (client_event ev) = Inr p'" and "opt_turnId env = tp_turnId p"
    and "carries env (item_event E_assistant_message_delta i d) ev" and "i \<noteq> []"
    and "shown_item p i = Some (k, st, s)"
  shows "shown_item p' i = Some (k, st, s @ readTextPayload d)"
proof -
  have ev: "turnId ev = tp_turnId p" "etype ev = E_assistant_message_delta" "itemId ev = Some i" using assms(2,3) by (simp_all add: carries_def)
  have "applyKnownEvent sc p (client_event ev) = Inr ((appendItemText p i (readTextPayload d))\<lparr>tp_phase := Ph_working\<rparr>)"
    using ev assms(4) text_carried [OF assms(3)] by (simp add: applyKnownEvent_def working_def requireItemId_def)
  from apply_shown [OF assms(1) _ this, of i] ev(1) have "shown_item p' i = shown_item (appendItemText p i (readTextPayload d)) i"
    by (simp add: shown_item_def find_item_def)
  then show ?thesis using assms(5) by (cases "find_item p i") (simp_all add: shown_item_def appendItemText_def find_update)
qed

lemma shown_completed:
  assumes "projection_apply sc p (client_event ev) = Inr p'" and "opt_turnId env = tp_turnId p"
    and "carries env (item_event E_item_completed i d) ev" and "i \<noteq> []" and "readTextPayload d = []"
    and "shown_item p i = Some (k, st, s)"
  shows "shown_item p' i = Some (k, Ws_completed, s)"
proof -
  have ev: "turnId ev = tp_turnId p" "etype ev = E_item_completed" "itemId ev = Some i" using assms(2,3) by (simp_all add: carries_def)
  have "applyKnownEvent sc p (client_event ev) = Inr ((projection_settleItem p (client_event ev))\<lparr>tp_phase := Ph_working\<rparr>)"
    using ev by (simp add: applyKnownEvent_def working_def item_settled_types_def)
  from apply_shown [OF assms(1) _ this, of i] ev(1) have "shown_item p' i = shown_item (projection_settleItem p (client_event ev)) i"
    by (simp add: shown_item_def find_item_def)
  then show ?thesis
    using assms(4-6) ev text_carried [OF assms(3)]
    by (auto simp: shown_item_def projection_settleItem_def find_update settled_item_status_def)
qed

lemma shown_attempt:
  assumes "projection_apply sc p (client_event ev) = Inr p'" and "turnId ev = tp_turnId p" and "etype ev = attempt_terminal_event st"
  shows "shown_item p' i = shown_item p i"
proof -
  have "applyKnownEvent sc p (client_event ev) = Inr p"
    using assms(3) by (cases st) (simp_all add: applyKnownEvent_def known_types)
  from apply_shown [OF assms(1) _ this] assms(2) show ?thesis by simp
qed

lemma shown_turn_end:
  assumes "projection_apply sc p (client_event ev) = Inr p'" and "turnId ev = tp_turnId p" and "etype ev = turn_terminal_event st"
    and "projection_wf p" and "shown_item p i = Some (Wk_assistant_message, x)"
  shows "shown_item p' i = shown_item p i"
proof -
  obtain item where item: "find_item p i = Some item" "wi_kind item = Wk_assistant_message" using assms(5) by (auto simp: shown_item_def)
  have "items_at (tp_lastSequence p) (tp_items p)" using assms(4) by (simp add: projection_wf_def items_at_def)
  then have "wi_request item = None" using find_item_at [of _ p i item] item by (auto simp: item_wf_def)
  moreover have "find_item (projection_settleTurn p st (client_event ev)) i = map_option (\<lambda>item. cancel_request (client_event ev) item) (find_item p i)"
    for st
  proof -
    have "wi_itemId (cancel_request (client_event ev) x) = wi_itemId x" for x by (simp add: cancel_request_def split: option.split)
    then have "List.find (\<lambda>x. wi_itemId x = i) (map (cancel_request (client_event ev)) items) =
        map_option (cancel_request (client_event ev)) (List.find (\<lambda>x. wi_itemId x = i) items)" for items
      by (induction items) simp_all
    then show ?thesis by (simp add: find_item_def cancelPendingRequests_def)
  qed
  moreover have "applyKnownEvent sc p (client_event ev) = Inr (projection_settleTurn p st (client_event ev))"
    by (rule applyKnownEvent_terminal) (use assms(3) in \<open>cases st; simp add: terminal_status_of_def\<close>)
  ultimately show ?thesis
    using apply_shown [OF assms(1)] assms(2) item by (simp add: shown_item_def cancel_request_def)
qed

section \<open>What the coordinator writes\<close>

definition client_options :: "MemoryLifecycleEventStore lc_options \<Rightarrow> bool" where
  "client_options env \<longleftrightarrow> opt_appendBatch env = appendBatch (opt_parseEvent env) \<and> lawful_schema (opt_parseEvent env) \<and>
     lawful_ids (opt_parseEventId env) \<and> identifying_schema (opt_parseEvent env) \<and> text_preserving (opt_parseEvent env)"

abbreviation stored :: "MemoryLifecycleEventStore lc_options \<Rightarrow> MemoryLifecycleEventStore lc_state \<Rightarrow> LifecycleEvent list" where
  "stored env s \<equiv> lifecycle_log (lc_sink s) (opt_turnId env)"

abbreviation in_step :: "MemoryLifecycleEventStore lc_options \<Rightarrow> MemoryLifecycleEventStore lc_state \<Rightarrow> bool" where
  "in_step env s \<equiv> log_synced lifecycle_log (identified_store (opt_parseEvent env)) (opt_turnId env) s"

lemma client_options_sink:
  assumes "client_options env"
  shows "lifecycle_sink (appendBatch (opt_parseEvent env)) lifecycle_log (identified_store (opt_parseEvent env)) (admissible_event (opt_parseEvent env))"
    "lawful_writer (appendBatch (opt_parseEvent env)) (admissible_event (opt_parseEvent env)) env"
  using assms identified_sink lawful_writer_memory by (simp_all add: client_options_def)

lemma wpE_createEvent_carries:
  assumes "client_options env"
    and "\<And>ev t. admissible_event (opt_parseEvent env) ev \<Longrightarrow> sequence ev = lc_sequence s + n \<Longrightarrow> carries env f ev \<Longrightarrow> Q ev (s\<lparr>lc_clock := t\<rparr>)"
    and "\<And>t. E ZodError (s\<lparr>lc_clock := t\<rparr>)"
  shows "wpE (createEvent env f n) Q E s"
proof -
  note writer = client_options_sink(2) [OF assms(1)]
  have *: "Q ev (s\<lparr>lc_clock := t\<rparr>)"
    if eid: "opt_parseEventId env (event_id env (lc_sequence s + n)) = Some eid"
      and ev: "opt_parseEvent env (raw_event env f (lc_sequence s + n) eid now) = Some ev" for eid now ev t
  proof (rule assms(2))
    have "same_envelope (raw_event env f (lc_sequence s + n) eid now) ev"
      "\<forall>k\<in>text_keys. map_of (payload ev) k = map_of (payload (raw_event env f (lc_sequence s + n) eid now)) k"
      using assms(1) ev by (auto simp: client_options_def lawful_schema_def text_preserving_def)
    then show "carries env f ev" by (simp add: carries_def same_envelope_def raw_event_def)
  qed (use writer eid ev in \<open>auto simp: lawful_writer_def\<close>)
  show ?thesis
    using * assms(3) assms(3) [of "lc_clock s"] by (auto simp: wpE_def createEvent_def Let_def event_id_def split: option.splits)
qed

lemma emit_appends:
  assumes "client_options env" and "in_step env s" and "\<not> terminal_event_type (f_type f)"
  shows "wpE (emit env f) (\<lambda>_ s'. in_step env s' \<and> (\<exists>ev. carries env f ev \<and> stored env s' = stored env s @ [ev])) (\<lambda>_ _. True) s"
proof -
  note sink = client_options_sink [OF assms(1)]
  have "wpE (emit env f) (\<lambda>_ s'. \<exists>ev. carries env f ev \<and> stored env s' = stored env s @ [ev]) (\<lambda>_ _. True) s"
  proof (cases "isTerminal s")
    case True
    then show ?thesis by (simp add: emit_def wp_simps assertTurnAcceptsLifecycleEvent_def isTerminal_def)
  next
    case False
    have c: "contiguous_stream (opt_turnId env) (stored env s @ [ev])" if "carries env f ev" "sequence ev = Suc (lc_sequence s)" for ev
      using that by (intro lifecycle_sink.contiguous_next [OF sink(1) assms(2) False]) (simp_all add: carries_def)
    show ?thesis
      unfolding emit_def wp_simps
      using False assms(2) c
      by (auto simp: assertTurnAcceptsLifecycleEvent_def isTerminal_def wp_simps log_synced_def
          intro!: wpE_createEvent_carries [OF assms(1)] lifecycle_sink.wpE_call_sink_next [OF sink, where t = "opt_turnId env"])
  qed
  moreover have "wpE (emit env f) (\<lambda>_. in_step env) (\<lambda>_. in_step env) s"
    using lifecycle_sink.emit_synced [OF sink assms(3)] assms(2) by (simp add: keeps_wp)
  ultimately show ?thesis by (rule wpE_mono [OF wpE_conj]) auto
qed

lemma settleTurn_appends:
  assumes "client_options env" and "in_step env s" and "\<not> isTerminal s"
  shows "wpE (settleTurn env outcome) (\<lambda>_ s'. in_step env s' \<and> isTerminal s' \<and>
      (\<exists>ev1 ev2. stored env s' = stored env s @ [ev1, ev2] \<and> turnId ev1 = opt_turnId env \<and> turnId ev2 = opt_turnId env \<and>
        etype ev1 = attempt_terminal_event (outcome_status outcome) \<and> etype ev2 = turn_terminal_event (outcome_status outcome)))
    (\<lambda>_ _. True) s"
proof -
  note sink = client_options_sink [OF assms(1)]
  have c: "contiguous_stream (opt_turnId env) (stored env s @ [ev1, ev2])"
    if "turnId ev1 = opt_turnId env" "turnId ev2 = opt_turnId env" "sequence ev1 = Suc (lc_sequence s)"
      "sequence ev2 = Suc (Suc (lc_sequence s))" "etype ev1 = attempt_terminal_event st" for ev1 ev2 st
    using that by (intro lifecycle_sink.contiguous_next [OF sink(1) assms(2,3)])
      (cases st; auto simp: terminal_event_type_def upt_rec)+
  have "wpE (settleTurn env outcome) (\<lambda>_ s'. isTerminal s' \<and>
      (\<exists>ev1 ev2. stored env s' = stored env s @ [ev1, ev2] \<and> turnId ev1 = opt_turnId env \<and> turnId ev2 = opt_turnId env \<and>
        etype ev1 = attempt_terminal_event (outcome_status outcome) \<and> etype ev2 = turn_terminal_event (outcome_status outcome)))
    (\<lambda>_ _. True) s"
    unfolding settleTurn_def wp_simps Let_def
    using assms(2,3) c
    by (auto simp: wp_simps transition_defs log_synced_def isTerminal_def carries_def split: sum.splits
        intro!: wpE_createEvent_carries [OF assms(1)] lifecycle_sink.wpE_appendTerminalBatch_next [OF sink, where t = "opt_turnId env"])
  moreover have "wpE (settleTurn env outcome) (\<lambda>_. in_step env) (\<lambda>_. in_step env) s"
    using lifecycle_sink.settleTurn_synced [OF sink] assms(2) by (simp add: keeps_wp)
  ultimately show ?thesis by (rule wpE_mono [OF wpE_conj]) auto
qed

section \<open>The view along a run\<close>

definition replayed ::
  "projection_schemas \<Rightarrow> MemoryLifecycleEventStore lc_options \<Rightarrow> MemoryLifecycleEventStore lc_state \<Rightarrow> projection_error + TurnWorkflowProjection" where
  "replayed sc env s = replayTurnWorkflowProjection sc (opt_turnId env) (map client_event (stored env s))"

definition client_item ::
  "projection_schemas \<Rightarrow> MemoryLifecycleEventStore lc_options \<Rightarrow> MemoryLifecycleEventStore lc_state \<Rightarrow> string \<Rightarrow>
     (WorkflowItemKind \<times> WorkflowItemStatus \<times> string) option" where
  "client_item sc env s i = (case replayed sc env s of Inl _ \<Rightarrow> None | Inr p \<Rightarrow> shown_item p i)"

lemma replayed_wf:
  assumes "in_step env s"
  obtains p where "replayed sc env s = Inr p" "projection_wf p" "tp_turnId p = opt_turnId env"
proof -
  have "contiguous_stream (opt_turnId env) (stored env s)" "list_all (\<lambda>ev. identified (client_event ev)) (stored env s)"
    using assms by (simp_all add: log_synced_def identified_store_def canonical_store_def store_inv_def)
  from projection_of_stream [OF this, of sc] that show ?thesis by (auto simp: replayed_def)
qed

lemma replayed_next:
  assumes "in_step env s" and "in_step env s'" and "stored env s' = stored env s @ [ev]"
  obtains p p' where "replayed sc env s = Inr p" "projection_wf p" "tp_turnId p = opt_turnId env"
    "projection_apply sc p (client_event ev) = Inr p'" "replayed sc env s' = Inr p'"
proof -
  obtain p where p: "replayed sc env s = Inr p" "projection_wf p" "tp_turnId p = opt_turnId env" using assms(1) by (rule replayed_wf)
  obtain p' where p': "replayed sc env s' = Inr p'" using assms(2) by (rule replayed_wf)
  have "projection_apply sc p (client_event ev) = Inr p'"
    using p(1) p' by (cases "projection_apply sc p (client_event ev)") (simp_all add: replayed_def assms(3) replayTurnWorkflowProjection_def fold_sum_append)
  with p p' that show ?thesis by blast
qed

lemma emit_view:
  assumes "client_options env" and "in_step env s" and "\<not> terminal_event_type (f_type f)"
    and "\<And>p p' ev. projection_apply sc p (client_event ev) = Inr p' \<Longrightarrow> opt_turnId env = tp_turnId p \<Longrightarrow> carries env f ev \<Longrightarrow>
      shown_item p i = client_item sc env s i \<Longrightarrow> shown_item p' i = Some v"
  shows "wpE (emit env f) (\<lambda>_ s'. in_step env s' \<and> client_item sc env s' i = Some v) (\<lambda>_ _. True) s"
proof (rule wpE_mono [OF emit_appends [OF assms(1-3)]])
  fix x s'
  assume "in_step env s' \<and> (\<exists>ev. carries env f ev \<and> stored env s' = stored env s @ [ev])"
  then obtain ev where ev: "in_step env s'" "carries env f ev" "stored env s' = stored env s @ [ev]" by blast
  show "in_step env s' \<and> client_item sc env s' i = Some v"
    by (rule replayed_next [OF assms(2) ev(1,3), of sc]) (use assms(4) ev(1,2) in \<open>simp add: client_item_def\<close>)
qed simp

section \<open>The answer\<close>

lemma answer_payloads [simp]:
  "readItemKind [(''kind'', PKind Kind_assistant_message)] = Wk_assistant_message" "readTextPayload [(''kind'', PKind k)] = []"
  "readTextPayload [(''phase'', PStr ph), (''delta'', PStr d)] = (if trim d = [] then [] else d)"
  "readTextPayload [(''result'', v)] = []"
  by (simp_all add: readItemKind_def readTextPayload_def readString_def orElse_def item_kinds_def trim_empty_iff is_space_def)

text \<open>The deltas that the projection keeps: those that are not white space only.\<close>

definition kept_deltas :: "string list \<Rightarrow> string list" where
  "kept_deltas ds = filter (\<lambda>d. trim d \<noteq> []) ds"

lemma set_item_view [simp]:
  "in_step env (set_item j ist s) = in_step env s" "client_item sc env (set_item j ist s) i = client_item sc env s i"
  by (simp_all add: log_synced_def isTerminal_def set_item_def client_item_def replayed_def)

lemma startItem_view:
  assumes "client_options env" and "in_step env s" and "i \<noteq> []"
  shows "wpE (startItem env i Kind_assistant_message []) (\<lambda>_ s'. in_step env s' \<and> client_item sc env s' i = Some (Wk_assistant_message, Ws_active, []))
    (\<lambda>_ _. True) s"
proof -
  have *: "wpE (emit env (item_event E_item_started i [(''kind'', PKind Kind_assistant_message)]))
      (\<lambda>_ s'. in_step env s' \<and> client_item sc env s' i = Some (Wk_assistant_message, Ws_active, [])) (\<lambda>_ _. True) s"
    by (rule emit_view [OF assms(1,2)]) (simp_all add: terminal_event_type_def shown_started [OF _ _ _ assms(3)])
  show ?thesis
    unfolding startItem_def
    by (simp add: wp_simps transition_defs) (rule wpE_mono [OF *], simp_all add: wp_simps)
qed

lemma deltas_view:
  assumes "client_options env" and "i \<noteq> []" and "in_step env s" and "client_item sc env s i = Some (k, st, x)"
  shows "wpE (forE ds (\<lambda>delta. emit env (item_event E_assistant_message_delta i [(''phase'', PStr ''final_answer''), (''delta'', PStr delta)])))
    (\<lambda>_ s'. in_step env s' \<and> client_item sc env s' i = Some (k, st, x @ concat (kept_deltas ds))) (\<lambda>_ _. True) s"
  using assms(3,4)
proof (induction ds arbitrary: s x)
  case (Cons d ds)
  have "wpE (emit env (item_event E_assistant_message_delta i [(''phase'', PStr ''final_answer''), (''delta'', PStr d)]))
    (\<lambda>_ s'. in_step env s' \<and> client_item sc env s' i = Some (k, st, x @ (if trim d = [] then [] else d))) (\<lambda>_ _. True) s"
  proof (rule emit_view [OF assms(1) Cons.prems(1)])
    fix p p' ev
    assume "projection_apply sc p (client_event ev) = Inr p'" "opt_turnId env = tp_turnId p"
      "carries env (item_event E_assistant_message_delta i [(''phase'', PStr ''final_answer''), (''delta'', PStr d)]) ev"
      "shown_item p i = client_item sc env s i"
    with shown_delta [OF this(1-3) assms(2)] Cons.prems(2)
    show "shown_item p' i = Some (k, st, x @ (if trim d = [] then [] else d))" by simp
  qed (simp add: terminal_event_type_def)
  then show ?case
    unfolding wpE_for_Cons by (rule wpE_mono) (use Cons.IH in \<open>force simp: kept_deltas_def\<close>)+
qed (simp add: wp_simps kept_deltas_def)

lemma settleItem_view:
  assumes "client_options env" and "i \<noteq> []" and "in_step env s" and "client_item sc env s i = Some (k, st, x)"
  shows "wpE (settleItem env i Is_completed [(''result'', v)])
    (\<lambda>_ s'. in_step env s' \<and> client_item sc env s' i = Some (k, Ws_completed, x)) (\<lambda>_ _. True) s"
proof -
  have *: "wpE (emit env (item_event E_item_completed i [(''result'', v)]))
      (\<lambda>_ s'. in_step env s' \<and> client_item sc env s' i = Some (k, Ws_completed, x)) (\<lambda>_ _. True) s"
  proof (rule emit_view [OF assms(1,3)])
    fix p p' ev
    assume "projection_apply sc p (client_event ev) = Inr p'" "opt_turnId env = tp_turnId p"
      "carries env (item_event E_item_completed i [(''result'', v)]) ev" "shown_item p i = client_item sc env s i"
    with shown_completed [OF this(1-3) assms(2)] assms(4) show "shown_item p' i = Some (k, Ws_completed, x)" by simp
  qed (simp add: terminal_event_type_def)
  show ?thesis
    unfolding settleItem_def
    by (simp add: wp_simps split: sum.split) (auto simp: wp_simps intro!: wpE_mono [OF *])
qed

lemma open_answer:
  "keeps (\<lambda>s. \<not> isTerminal s) (block [startItem env i k p, forE ds (\<lambda>delta. emit env (item_event E_assistant_message_delta i (g delta))), settleItem env i st q])"
  by (intro keeps_rules open_turn.startItem_keeps open_turn.settleItem_keeps open_turn.turn_emit)

lemma answer_view:
  assumes "client_options env" and "i \<noteq> []" and "in_step env s"
  shows "wpE (block [startItem env i Kind_assistant_message [],
      forE (splitLifecycleOutput out) (\<lambda>delta. emit env (item_event E_assistant_message_delta i [(''phase'', PStr ''final_answer''), (''delta'', PStr delta)])),
      settleItem env i Is_completed [(''result'', PObj [(''output'', PStr out)])]])
    (\<lambda>_ s'. in_step env s' \<and> client_item sc env s' i = Some (Wk_assistant_message, Ws_completed, concat (kept_deltas (splitLifecycleOutput out))))
    (\<lambda>_ _. True) s"
  unfolding wpE_block_Cons wpE_block_Nil
proof (rule wpE_mono [OF startItem_view [OF assms(1,3,2), of sc]])
  fix x s1
  assume s1: "in_step env s1 \<and> client_item sc env s1 i = Some (Wk_assistant_message, Ws_active, [])"
  show "wpE (forE (splitLifecycleOutput out) (\<lambda>delta. emit env (item_event E_assistant_message_delta i [(''phase'', PStr ''final_answer''), (''delta'', PStr delta)])))
    (\<lambda>_. wpE (settleItem env i Is_completed [(''result'', PObj [(''output'', PStr out)])])
      (\<lambda>_ s'. in_step env s' \<and> client_item sc env s' i = Some (Wk_assistant_message, Ws_completed, concat (kept_deltas (splitLifecycleOutput out)))) (\<lambda>_ _. True))
    (\<lambda>_ _. True) s1"
    by (rule wpE_mono [OF deltas_view [OF assms(1,2) conjunct1 [OF s1] conjunct2 [OF s1]]])
      (auto intro!: settleItem_view [OF assms(1,2)])
qed simp

lemma settled_view:
  assumes "in_step env s" and "in_step env s'" and "client_item sc env s i = Some (Wk_assistant_message, x)"
    and "stored env s' = stored env s @ [ev1, ev2]" and "turnId ev1 = opt_turnId env" and "turnId ev2 = opt_turnId env"
    and "etype ev1 = attempt_terminal_event st" and "etype ev2 = turn_terminal_event st"
  shows "\<exists>p. replayed sc env s' = Inr p \<and> shown_item p i = Some (Wk_assistant_message, x) \<and> ended_as p st"
proof -
  obtain p where p: "replayed sc env s = Inr p" "projection_wf p" "tp_turnId p = opt_turnId env" using assms(1) by (rule replayed_wf)
  have "list_all (\<lambda>ev. identified (client_event ev)) (stored env s')" using assms(2) by (simp add: log_synced_def identified_store_def)
  then have ids: "identified (client_event ev1)" "identified (client_event ev2)" using assms(4) by simp_all
  obtain p1 where p1: "projection_apply sc p (client_event ev1) = Inr p1" "projection_wf p1" "tp_turnId p1 = tp_turnId p"
    by (rule projection_apply_step [OF p(2) ids(1), of sc]) (use assms(5) p(3) in auto)
  obtain p2 where p2: "projection_apply sc p1 (client_event ev2) = Inr p2"
    "case terminal_status_of (etype (client_event ev2)) of None \<Rightarrow> tp_terminal p2 = tp_terminal p1 | Some st \<Rightarrow> ended_as p2 st"
    by (rule projection_apply_step [OF p1(2) ids(2), of sc]) (use assms(6) p(3) p1(3) in auto)
  have "terminal_status_of (turn_terminal_event st) = Some st" by (cases st) (simp_all add: terminal_status_of_def)
  then have "ended_as p2 st" using p2(2) assms(8) by simp
  moreover have s1: "shown_item p1 i = shown_item p i" using shown_attempt [OF p1(1) _ assms(7)] assms(5) p(3) by simp
  moreover have "shown_item p2 i = shown_item p1 i"
    using shown_turn_end [OF p2(1) _ assms(8) p1(2)] assms(3,6) p p1(3) s1 by (simp add: client_item_def)
  moreover have "replayed sc env s' = Inr p2"
    using p(1) p1(1) p2(1) by (simp add: replayed_def assms(4) replayTurnWorkflowProjection_def fold_sum_append)
  ultimately show ?thesis using assms(3) p(1) by (simp add: client_item_def)
qed

lemma concat_filter_eq: "concat (filter P xs) = concat xs \<longleftrightarrow> (\<forall>x \<in> set xs. \<not> P x \<longrightarrow> x = [])"
proof (induction xs)
  case (Cons x xs)
  have "length (concat (filter P xs)) \<le> length (concat xs)" by (induction xs) auto
  then have "concat (filter P xs) \<noteq> x @ concat xs" if "x \<noteq> []"
    using that by (metis add_le_same_cancel2 le_zero_eq length_0_conv length_append)
  with Cons.IH show ?case by auto
qed simp

lemma split_concat: "concat (splitLifecycleOutput out) = out"
  by (simp add: splitLifecycleOutput_def chunks_from_concat)

text \<open>
  C13. The answer reaches the reader. Take a turn that is in progress, with no open item and no pending approval, whose
  coordinator is in step with its stored stream, with a schema that accepts the events of its answer, keeps their text and
  requires their identifiers, and with room for them among the safe integers. Then \<open>complete\<close> returns, and the client that
  replays the stored stream sees the turn completed and the answer as one completed assistant message. Its text is the
  output without the deltas that are white space only, so it is the output exactly when none of the output's pieces of
  4000 characters is blank.
\<close>
theorem answer_reaches_the_client:
  assumes "client_options env" and "log_synced lifecycle_log (identified_store (opt_parseEvent env)) (opt_turnId env) s" and "i \<noteq> []"
    and "turn_agrees s" and "settled_work s" and "lc_status s = Ts_in_progress" and "list_all (accepts env) (answer_events out i)"
    and "safe_sequence (lc_sequence s + length (answer_events out i))"
  shows "\<exists>s' p x. complete env out i s = (Inr (), s') \<and> replayTurnWorkflowProjection sc (opt_turnId env) (map client_event (lifecycle_log (lc_sink s') (opt_turnId env))) = Inr p \<and>
    ended_as p Tt_completed \<and> shown_item p i = Some (Wk_assistant_message, Ws_completed, x) \<and>
    x = concat (kept_deltas (splitLifecycleOutput out)) \<and>
    (x = out \<longleftrightarrow> list_all (\<lambda>d. d = [] \<or> trim d \<noteq> []) (splitLifecycleOutput out))"
proof -
  let ?x = "concat (kept_deltas (splitLifecycleOutput out))"
  let ?v = "(Wk_assistant_message, Ws_completed, ?x)"
  let ?b = "block [startItem env i Kind_assistant_message [],
      forE (splitLifecycleOutput out) (\<lambda>delta. emit env (item_event E_assistant_message_delta i [(''phase'', PStr ''final_answer''), (''delta'', PStr delta)])),
      settleItem env i Is_completed [(''result'', PObj [(''output'', PStr out)])]]"
  have "identifying_schema (opt_parseEvent env)" using assms(1) by (simp add: client_options_def)
  from reliable_sink.complete_ok [OF identified_reliable_sink [OF this] client_options_sink(2) [OF assms(1)] assms(2,4-8)]
  obtain s' where run: "complete env out i s = (Inr (), s')" by blast
  have "\<not> isTerminal s" using assms(6) by (simp add: isTerminal_def)
  then have "wpE ?b (\<lambda>_ s1. \<not> isTerminal s1) (\<lambda>_ s1. \<not> isTerminal s1) s"
    by (rule open_answer [unfolded keeps_wp, rule_format])
  note wpE_conj [OF this answer_view [OF assms(1,3,2), of out sc]]
  then have "wpE ?b (\<lambda>_. wpE (settleTurn env Outcome_completed)
      (\<lambda>_ s'. \<exists>p. replayed sc env s' = Inr p \<and> shown_item p i = Some ?v \<and> ended_as p Tt_completed) (\<lambda>_ _. True)) (\<lambda>_ _. True) s"
    by (rule wpE_mono) (rule wpE_mono [OF settleTurn_appends [OF assms(1)]], auto intro: settled_view)
  then have "wpE (complete env out i) (\<lambda>_ s'. \<exists>p. replayed sc env s' = Inr p \<and> shown_item p i = Some ?v \<and> ended_as p Tt_completed) (\<lambda>_ _. True) s"
    unfolding complete_def wpE_block_Cons wpE_block_Nil .
  then obtain p where "replayed sc env s' = Inr p" "shown_item p i = Some ?v" "ended_as p Tt_completed"
    using run by (auto simp: wpE_def)
  moreover have "?x = out \<longleftrightarrow> list_all (\<lambda>d. d = [] \<or> trim d \<noteq> []) (splitLifecycleOutput out)"
    using concat_filter_eq [of "\<lambda>d. trim d \<noteq> []" "splitLifecycleOutput out"]
    by (auto simp: kept_deltas_def split_concat list_all_iff)
  ultimately show ?thesis using run by (auto simp: replayed_def)
qed


definition running_lc :: "MemoryLifecycleEventStore lc_state" where
  "running_lc = (lc_init 0 0 empty_lifecycle_store)\<lparr>lc_status := Ts_in_progress, lc_runAttemptStatus := Ra_running, lc_accepted := True\<rparr>"

lemma identified_client_options: "client_options identified_options"
  using identified_lawful
  by (auto simp: client_options_def text_preserving_def identified_options_def identified_sample_schema_def sample_schema_def split: if_splits)

lemma running_lc_in_step:
  "in_step identified_options running_lc" "turn_agrees running_lc" "settled_work running_lc" "lc_status running_lc = Ts_in_progress"
  using fresh_synced [of "opt_turnId identified_options" 0] identified_store_empty
  by (simp_all add: running_lc_def log_synced_def lc_init_def isTerminal_def turn_agrees_def settled_work_def log_end_def)

lemma identified_accepts:
  assumes "f_type f \<in> {E_item_started, E_assistant_message_delta, E_item_completed, E_run_attempt_succeeded, E_turn_completed}"
    and "f_itemId f \<noteq> Some []" and "f_itemId f = None \<longrightarrow> f_type f \<in> {E_run_attempt_succeeded, E_turn_completed}"
  shows "accepts identified_options f"
  using assms
  by (cases "f_itemId f") (auto simp: accepts_def identified_options_def sample_options_def identified_sample_schema_def sample_schema_def
      raw_event_def startsWith_def identified_def needs_itemId_def compaction_types_def)

lemma answer_reaches_the_client_witness:
  "\<exists>s' p x. complete identified_options ''ok'' ''itm_a'' running_lc = (Inr (), s') \<and>
    replayTurnWorkflowProjection sample_schemas ''trn_abcdef'' (map client_event (lifecycle_log (lc_sink s') ''trn_abcdef'')) = Inr p \<and>
    ended_as p Tt_completed \<and> shown_item p ''itm_a'' = Some (Wk_assistant_message, Ws_completed, ''ok'')"
proof -
  have split: "splitLifecycleOutput ''ok'' = [''ok'']"
    by (simp add: splitLifecycleOutput_def chunks_from.simps MAX_LIFECYCLE_OUTPUT_LENGTH_def)
  have acc: "list_all (accepts identified_options) (answer_events ''ok'' ''itm_a'')"
    by (simp add: answer_events_def outcome_events_def split identified_accepts)
  have t: "opt_turnId identified_options = ''trn_abcdef''" by (simp add: identified_options_def sample_options_def)
  have room: "safe_sequence (lc_sequence running_lc + length (answer_events ''ok'' ''itm_a''))"
    by (simp add: answer_events_def outcome_events_def split running_lc_def lc_init_def safe_sequence_def MAX_SAFE_INTEGER_def)
  from answer_reaches_the_client [OF identified_client_options running_lc_in_step(1) _ running_lc_in_step(2-4) acc room, of sample_schemas]
  show ?thesis by (auto simp: split t kept_deltas_def trim_empty_iff is_space_def)
qed

section \<open>Streamed tool output\<close>

lemma updateItem_same:
  assumes "\<And>item. f item = item"
  shows "updateItem p i f = p"
proof -
  have "map (\<lambda>item. if wi_itemId item = i then f item else item) items = items" for items
    by (induction items) (simp_all add: assms)
  then show ?thesis by (simp add: updateItem_def)
qed

lemma output_delta_items:
  assumes "projection_apply sc p (client_event ev) = Inr p'" and "opt_turnId env = tp_turnId p"
    and "carries env (tool_event E_tool_call_output_delta i c [(''output'', v)]) ev"
  shows "tp_items p' = tp_items p"
proof -
  have ev: "turnId ev = tp_turnId p" "etype ev = E_tool_call_output_delta" "itemId ev = Some i" using assms(2,3) by (simp_all add: carries_def)
  have "readTextPayload [(''output'', v)] = []" by (simp add: readTextPayload_def readString_def orElse_def)
  then have "readTextPayload (payload ev) = []" using text_carried(1) [OF assms(3)] by simp
  then have "handleToolCallEvent p (client_event ev) = p"
    using ev by (simp add: handleToolCallEvent_def Let_def appendBounded_def updateItem_same)
  then have "applyKnownEvent sc p (client_event ev) = Inr (p\<lparr>tp_phase := Ph_working\<rparr>)"
    using ev by (simp add: applyKnownEvent_def working_def known_types)
  then show ?thesis using assms(1) ev(1) by (simp add: projection_apply_def Let_def) (drule sym, simp)
qed

text \<open>
  Streamed tool output does not reach the reader. The coordinator writes the output of a running tool call into the field
  \<open>output\<close> of an output delta, and the client's projection reads the fields \<open>delta\<close>, \<open>text\<close>, \<open>content\<close> and \<open>summary\<close>:
  \<open>appendToolOutput\<close> returns and one event more is stored, but the client shows the same items as before, whatever the
  output is.
\<close>
theorem streamed_tool_output_is_not_shown:
  assumes "client_options env" and "log_synced lifecycle_log (identified_store (opt_parseEvent env)) (opt_turnId env) s" and "\<not> isTerminal s"
    and "map_of (lc_toolCallStatuses s) c = Some Is_active" and "map_of (lc_toolCallItems s) c = Some i" and "i \<noteq> []"
    and "accepts env (tool_event E_tool_call_output_delta i c [(''output'', PStr (take MAX_LIFECYCLE_OUTPUT_LENGTH out))])"
    and "safe_sequence (lc_sequence s + 1)"
  shows "\<exists>s' p p'. appendToolOutput env c out s = (Inr (), s') \<and> length (stored env s') = Suc (length (stored env s)) \<and>
    replayed sc env s = Inr p \<and> replayed sc env s' = Inr p' \<and> tp_items p' = tp_items p"
proof -
  let ?f = "tool_event E_tool_call_output_delta i c [(''output'', PStr (take MAX_LIFECYCLE_OUTPUT_LENGTH out))]"
  have open_f: "\<not> terminal_event_type (f_type ?f)" by (simp add: terminal_event_type_def)
  have "identifying_schema (opt_parseEvent env)" using assms(1) by (simp add: client_options_def)
  from reliable_sink.emit_ok [OF identified_reliable_sink [OF this] client_options_sink(2) [OF assms(1)] assms(2,3,7) open_f assms(8)]
  obtain s' where s': "emit env ?f s = (Inr (), s')" by blast
  obtain ev where ev: "in_step env s'" "carries env ?f ev" "stored env s' = stored env s @ [ev]"
    using emit_appends [OF assms(1,2) open_f] s' by (auto simp: wpE_def)
  have run: "appendToolOutput env c out s = (Inr (), s')"
    using s' assms(4-6) by (simp add: appendToolOutput_def requireActiveToolCall_def requireToolCallItem_def op_defs)
  obtain p p' where p: "replayed sc env s = Inr p" "tp_turnId p = opt_turnId env"
    "projection_apply sc p (client_event ev) = Inr p'" "replayed sc env s' = Inr p'"
    using assms(2) ev(1,3) by (rule replayed_next)
  have "tp_items p' = tp_items p" using output_delta_items [OF p(3) _ ev(2)] p(2) by simp
  with run ev(3) p show ?thesis by auto
qed

definition calling_lc :: "MemoryLifecycleEventStore lc_state" where
  "calling_lc = running_lc\<lparr>lc_itemStatuses := [(''itm_a'', Is_active)], lc_toolCallStatuses := [(''tc_a'', Is_active)],
     lc_toolCallItems := [(''tc_a'', ''itm_a'')]\<rparr>"

lemma streamed_tool_output_is_not_shown_witness:
  "\<exists>s' p p'. appendToolOutput identified_options ''tc_a'' ''42 tests passed'' calling_lc = (Inr (), s') \<and>
     length (stored identified_options s') = Suc (length (stored identified_options calling_lc)) \<and>
     replayed sample_schemas identified_options calling_lc = Inr p \<and> replayed sample_schemas identified_options s' = Inr p' \<and> tp_items p' = tp_items p"
proof (rule streamed_tool_output_is_not_shown [OF identified_client_options])
  show "in_step identified_options calling_lc" "\<not> isTerminal calling_lc"
    using running_lc_in_step by (simp_all add: calling_lc_def log_synced_def isTerminal_def)
  show "accepts identified_options (tool_event E_tool_call_output_delta ''itm_a'' ''tc_a''
      [(''output'', PStr (take MAX_LIFECYCLE_OUTPUT_LENGTH ''42 tests passed''))])"
    by (simp add: accepts_def identified_options_def sample_options_def identified_sample_schema_def sample_schema_def
        raw_event_def startsWith_def identified_def needs_itemId_def compaction_types_def)
qed (simp_all add: calling_lc_def running_lc_def lc_init_def safe_sequence_def MAX_SAFE_INTEGER_def)

end
