(* ===== verification/Lifecycle_Projector.thy ===== *)
theory Lifecycle_Projector
  imports Workflow_Projection
begin

text \<open>
  Model of persistence/src/lifecycle-projections (LifecycleProjector.ts, types.ts): the projection of a turn's lifecycle
  events that is kept in the database, with which the state of a turn is rebuilt from its events.
\<close>

section \<open>Projections\<close>

record LifecycleItemProjection =
  ip_itemId :: string
  ip_kind :: ItemKind
  ip_status :: ItemStatus
  ip_text :: string
  ip_lastSequence :: nat

record LifecycleToolCallProjection =
  cp_toolCallId :: string
  cp_itemId :: string
  cp_status :: ToolCallStatus
  cp_outputText :: string
  cp_lastSequence :: nat

record LifecycleApprovalProjection =
  ap_approvalId :: string
  ap_itemId :: string
  ap_status :: ApprovalStatus
  ap_lastSequence :: nat

datatype request_status = Rq_pending | Rq_resolved

record LifecycleRequestProjection =
  qp_requestId :: string
  qp_itemId :: string
  qp_status :: request_status
  qp_lastSequence :: nat

record MutableProjection =
  mp_turnId :: string
  mp_revisionOfTurnId :: "string option"
  mp_status :: TurnStatus
  mp_blockingState :: TurnBlockingState
  mp_terminalOutcome :: "TurnTerminalOutcome option"
  mp_items :: "LifecycleItemProjection js_record"
  mp_toolCalls :: "LifecycleToolCallProjection js_record"
  mp_approvals :: "LifecycleApprovalProjection js_record"
  mp_requests :: "LifecycleRequestProjection js_record"
  mp_lastSequence :: nat

definition createState :: "string \<Rightarrow> MutableProjection" where
  "createState t =
     \<lparr>mp_turnId = t, mp_revisionOfTurnId = None, mp_status = Ts_queued, mp_blockingState = Blocking_none, mp_terminalOutcome = None,
      mp_items = [], mp_toolCalls = [], mp_approvals = [], mp_requests = [], mp_lastSequence = 0\<rparr>"

text \<open>
  What the projector throws: errors of the lifecycle protocol, errors of its own, a value that a schema refuses, and the
  \<open>TypeError\<close> of a field of a missing outcome.
\<close>

datatype projector_code = Sequence_gap | Identity_mismatch | Corrupt_event

datatype projector_error =
    Thrown js_error
  | LifecycleProjectionError projector_code string
  | Schema_refused
  | Missing_outcome

type_synonym 'a projector_op = "(MutableProjection, projector_error, 'a) op"

definition liftP :: "js_error + 'a \<Rightarrow> 'a projector_op" where
  "liftP r = (case r of Inl e \<Rightarrow> throwE (Thrown e) | Inr x \<Rightarrow> returnE x)"

definition schemaP :: "'a option \<Rightarrow> 'a projector_op" where
  "schemaP r = (case r of None \<Rightarrow> throwE Schema_refused | Some x \<Rightarrow> returnE x)"


section \<open>Reading events\<close>

definition read_plain_string :: "pval option \<Rightarrow> string" where
  "read_plain_string v = (case Option.bind v json_string of None \<Rightarrow> [] | Some s \<Rightarrow> s)"

definition readItemDelta :: "ClientEvent \<Rightarrow> string option" where
  "readItemDelta ev =
     (if etype ev = E_assistant_message_delta \<or> etype ev = E_reasoning_summary_delta
      then Some (read_plain_string (map_of (payload ev) ''delta'')) else None)"

definition itemTerminalStatus :: "LifecycleEventType \<Rightarrow> ItemStatus option" where
  "itemTerminalStatus e =
     (if e = E_item_completed then Some Is_completed else if e = E_item_failed then Some Is_failed
      else if e = E_item_declined then Some Is_declined else if e = E_item_interrupted then Some Is_interrupted else None)"

definition toolTerminalStatus :: "LifecycleEventType \<Rightarrow> ToolCallStatus option" where
  "toolTerminalStatus e =
     (if e = E_tool_call_completed then Some Is_completed else if e = E_tool_call_failed then Some Is_failed
      else if e = E_tool_call_declined then Some Is_declined else if e = E_tool_call_interrupted then Some Is_interrupted else None)"

text \<open>\<open>ItemKindSchema\<close> and the names of the decisions.\<close>

definition all_item_kinds :: "ItemKind list" where
  "all_item_kinds =
     [Kind_user_message, Kind_commentary, Kind_reasoning, Kind_plan, Kind_assistant_message, Kind_tool_call,
      Kind_command_execution, Kind_file_change, Kind_git_operation, Kind_approval_request, Kind_user_input_request,
      Kind_artifact, Kind_context_compaction, Kind_warning]"

definition parse_item_kind :: "pval option \<Rightarrow> ItemKind option" where
  "parse_item_kind v = Option.bind (Option.bind v json_string) (\<lambda>s. List.find (\<lambda>k. item_kind_name k = s) all_item_kinds)"

definition all_approval_statuses :: "ApprovalStatus list" where
  "all_approval_statuses = [Ap_pending, Ap_approved, Ap_denied, Ap_timed_out, Ap_cancelled]"

text \<open>The status of a decision is cast, not parsed: a transition to anything else than a status is refused.\<close>

definition transition_decision :: "ApprovalStatus \<Rightarrow> pval option \<Rightarrow> js_error + ApprovalStatus" where
  "transition_decision current v =
     (let s = (case Option.bind v json_string of None \<Rightarrow> ''undefined'' | Some s \<Rightarrow> s) in
      case List.find (\<lambda>st. approval_status_name st = s) all_approval_statuses of
        Some st \<Rightarrow> transitionApprovalStatus current st
      | None \<Rightarrow> Inl (LifecycleTransitionError Sub_approval (approval_status_name current) s
                       ''the target state is not legal from the current state''))"

fun read_outcome :: "pval option \<Rightarrow> TurnTerminalOutcome option" where
  "read_outcome (Some (POutcome Tt_completed fs)) = Some Outcome_completed"
| "read_outcome (Some (POutcome Tt_interrupted fs)) =
     (case map_of fs ''reason'' of Some (PStr r) \<Rightarrow> Some (Outcome_interrupted r) | _ \<Rightarrow> None)"
| "read_outcome (Some (POutcome Tt_failed fs)) =
     (case map_of fs ''failure'' of
        Some (PFailure code m r i d) \<Rightarrow>
          Some (Outcome_failed \<lparr>pe_code = code, pe_message = m, pe_retryable = r, pe_correlationId = i, pe_details = d\<rparr>)
      | _ \<Rightarrow> None)"
| "read_outcome v = None"


section \<open>One event\<close>

definition assertEnvelope :: "ClientEvent \<Rightarrow> unit projector_op" where
  "assertEnvelope ev =
     bindE (getE id) (\<lambda>m.
     if turnId ev \<noteq> mp_turnId m then throwE (LifecycleProjectionError Identity_mismatch ''Event belongs to another turn'')
     else if sequence ev \<noteq> mp_lastSequence m + 1
       then throwE (LifecycleProjectionError Sequence_gap ''Projection sequence is not contiguous'')
     else if mp_terminalOutcome m \<noteq> None
       then throwE (LifecycleProjectionError Corrupt_event ''Event appears after terminal outcome'')
     else returnE ())"

definition unsettled_call :: "LifecycleToolCallProjection \<Rightarrow> bool" where
  "unsettled_call tool \<longleftrightarrow> cp_status tool = Is_active \<or> cp_status tool = Is_not_started"

definition assertNoActiveToolsOrRequests :: "unit projector_op" where
  "assertNoActiveToolsOrRequests =
     bindE (getE id) (\<lambda>m.
     case List.find unsettled_call (map snd (mp_toolCalls m)) of
       Some tool \<Rightarrow> throwE (LifecycleProjectionError Corrupt_event (''Tool call '' @ cp_toolCallId tool @ '' survives terminal settlement''))
     | None \<Rightarrow> (case List.find (\<lambda>request. qp_status request = Rq_pending) (map snd (mp_requests m)) of
         Some request \<Rightarrow> throwE (LifecycleProjectionError Corrupt_event (''Request '' @ qp_requestId request @ '' survives terminal settlement''))
       | None \<Rightarrow> returnE ()))"

definition item_statuses :: "MutableProjection \<Rightarrow> ItemStatus js_record" where
  "item_statuses m = map (map_prod id ip_status) (mp_items m)"

definition approval_statuses :: "MutableProjection \<Rightarrow> ApprovalStatus js_record" where
  "approval_statuses m = map (map_prod id ap_status) (mp_approvals m)"

definition applyTerminal :: "ClientEvent \<Rightarrow> unit projector_op" where
  "applyTerminal ev =
     (case read_outcome (map_of (payload ev) ''outcome'') of
        None \<Rightarrow> throwE Missing_outcome
      | Some outcome \<Rightarrow>
          bindE (getE id) (\<lambda>m.
          bindE (liftP (transitionTurnStatus (mp_status m) (turn_of_terminal (outcome_status outcome)))) (\<lambda>nxt.
          bindE (liftP (validateTerminalSettlement
                   \<lparr>ts_turnStatus = nxt, ts_terminalOutcome = Some outcome, ts_blockingState = mp_blockingState m,
                    ts_itemStatuses = item_statuses m, ts_approvalStatuses = approval_statuses m\<rparr>)) (\<lambda>_.
          bindE assertNoActiveToolsOrRequests (\<lambda>_.
          modifyE (\<lambda>m. m\<lparr>mp_status := nxt, mp_terminalOutcome := Some outcome\<rparr>))))))"

definition blocked_status :: "TurnBlockingState \<Rightarrow> TurnStatus \<Rightarrow> js_error + TurnStatus" where
  "blocked_status blocking status =
     (if blocking_kind blocking = ''waiting_for_approval'' then transitionTurnStatus status Ts_awaiting_approval
      else if status = Ts_awaiting_approval then transitionTurnStatus status Ts_in_progress
      else Inr status)"

text \<open>\<open>parseBlocking\<close> is the schema of a blocking state.\<close>

definition applyTurn :: "(pval option \<Rightarrow> TurnBlockingState option) \<Rightarrow> ClientEvent \<Rightarrow> unit projector_op" where
  "applyTurn parseBlocking ev =
     (let e = etype ev in
      if e = E_turn_started then
        bindE (getE mp_status) (\<lambda>status.
        bindE (liftP (transitionTurnStatus status Ts_in_progress)) (\<lambda>nxt.
        bindE (modifyE (\<lambda>m. m\<lparr>mp_status := nxt\<rparr>)) (\<lambda>_.
        let revision = read_plain_string (map_of (payload ev) ''revisionOfTurnId'') in
        whenE (revision \<noteq> []) (modifyE (\<lambda>m. m\<lparr>mp_revisionOfTurnId := Some revision\<rparr>)))))
      else if e = E_turn_blocking_changed then
        bindE (schemaP (parseBlocking (map_of (payload ev) ''blockingState''))) (\<lambda>blocking.
        bindE (modifyE (\<lambda>m. m\<lparr>mp_blockingState := blocking\<rparr>)) (\<lambda>_.
        bindE (getE mp_status) (\<lambda>status.
        bindE (liftP (blocked_status blocking status)) (\<lambda>nxt.
        modifyE (\<lambda>m. m\<lparr>mp_status := nxt\<rparr>)))))
      else if terminal_event_type e then applyTerminal ev
      else returnE ())"

definition applyItem :: "ClientEvent \<Rightarrow> unit projector_op" where
  "applyItem ev =
     (if \<not> truthy (itemId ev) then returnE ()
      else let i = the (itemId ev) in
        if etype ev = E_item_started then
          bindE (schemaP (parse_item_kind (map_of (payload ev) ''kind''))) (\<lambda>kind.
          modifyE (\<lambda>m. m\<lparr>mp_items := AList.update i \<lparr>ip_itemId = i, ip_kind = kind, ip_status = Is_active, ip_text = [],
            ip_lastSequence = sequence ev\<rparr> (mp_items m)\<rparr>))
        else bindE (getE (\<lambda>m. map_of (mp_items m) i)) (\<lambda>existing.
          case existing of
            None \<Rightarrow> returnE ()
          | Some item \<Rightarrow>
              bindE (liftP (case itemTerminalStatus (etype ev) of
                       None \<Rightarrow> Inr (ip_status item) | Some st \<Rightarrow> transitionItemStatus (ip_status item) st)) (\<lambda>status.
              modifyE (\<lambda>m. m\<lparr>mp_items := AList.update i (item\<lparr>ip_status := status,
                ip_text := (case readItemDelta ev of None \<Rightarrow> ip_text item | Some s \<Rightarrow> ip_text item @ s),
                ip_lastSequence := sequence ev\<rparr>) (mp_items m)\<rparr>))))"

definition applyToolCall :: "ClientEvent \<Rightarrow> unit projector_op" where
  "applyToolCall ev =
     (if \<not> truthy (toolCallId ev) \<or> itemId ev = None then returnE ()
      else let c = the (toolCallId ev) in
        if etype ev = E_tool_call_started then
          modifyE (\<lambda>m. m\<lparr>mp_toolCalls := AList.update c \<lparr>cp_toolCallId = c, cp_itemId = the (itemId ev), cp_status = Is_active,
            cp_outputText = [], cp_lastSequence = sequence ev\<rparr> (mp_toolCalls m)\<rparr>)
        else bindE (getE (\<lambda>m. map_of (mp_toolCalls m) c)) (\<lambda>existing.
          case existing of
            None \<Rightarrow> returnE ()
          | Some tool \<Rightarrow>
              bindE (liftP (case toolTerminalStatus (etype ev) of
                       None \<Rightarrow> Inr (cp_status tool) | Some st \<Rightarrow> transitionToolCallStatus (cp_status tool) st)) (\<lambda>status.
              modifyE (\<lambda>m. m\<lparr>mp_toolCalls := AList.update c (tool\<lparr>cp_status := status,
                cp_outputText := cp_outputText tool @
                  (if etype ev = E_tool_call_output_delta then read_plain_string (map_of (payload ev) ''output'') else []),
                cp_lastSequence := sequence ev\<rparr>) (mp_toolCalls m)\<rparr>))))"

definition applyApproval :: "ClientEvent \<Rightarrow> unit projector_op" where
  "applyApproval ev =
     (if \<not> truthy (approvalId ev) \<or> itemId ev = None then returnE ()
      else let a = the (approvalId ev) in
        if etype ev = E_approval_requested then
          modifyE (\<lambda>m. m\<lparr>mp_approvals := AList.update a \<lparr>ap_approvalId = a, ap_itemId = the (itemId ev), ap_status = Ap_pending,
            ap_lastSequence = sequence ev\<rparr> (mp_approvals m)\<rparr>)
        else if etype ev = E_approval_decided then
          bindE (getE (\<lambda>m. map_of (mp_approvals m) a)) (\<lambda>existing.
          case existing of
            None \<Rightarrow> returnE ()
          | Some current \<Rightarrow>
              bindE (liftP (transition_decision (ap_status current) (map_of (payload ev) ''status''))) (\<lambda>status.
              modifyE (\<lambda>m. m\<lparr>mp_approvals := AList.update a (current\<lparr>ap_status := status, ap_lastSequence := sequence ev\<rparr>)
                (mp_approvals m)\<rparr>)))
        else returnE ())"

definition applyRequest :: "ClientEvent \<Rightarrow> unit projector_op" where
  "applyRequest ev =
     (if \<not> truthy (requestId ev) \<or> itemId ev = None then returnE ()
      else let r = the (requestId ev) in
        if etype ev = E_user_input_requested then
          modifyE (\<lambda>m. m\<lparr>mp_requests := AList.update r \<lparr>qp_requestId = r, qp_itemId = the (itemId ev), qp_status = Rq_pending,
            qp_lastSequence = sequence ev\<rparr> (mp_requests m)\<rparr>)
        else if etype ev = E_request_resolved then
          bindE (getE (\<lambda>m. map_of (mp_requests m) r)) (\<lambda>existing.
          case existing of
            None \<Rightarrow> returnE ()
          | Some request \<Rightarrow> modifyE (\<lambda>m. m\<lparr>mp_requests := AList.update r (request\<lparr>qp_status := Rq_resolved,
              qp_lastSequence := sequence ev\<rparr>) (mp_requests m)\<rparr>))
        else returnE ())"

definition applyLifecycleProjectionEvent :: "(pval option \<Rightarrow> TurnBlockingState option) \<Rightarrow> ClientEvent \<Rightarrow> unit projector_op" where
  "applyLifecycleProjectionEvent parseBlocking ev = block [
     assertEnvelope ev,
     applyTurn parseBlocking ev,
     applyItem ev,
     applyToolCall ev,
     applyApproval ev,
     applyRequest ev,
     modifyE (\<lambda>m. m\<lparr>mp_lastSequence := sequence ev\<rparr>)]"


section \<open>Snapshots\<close>

definition LIFECYCLE_PROJECTION_VERSION :: nat where
  "LIFECYCLE_PROJECTION_VERSION = 1"

record LifecycleProjectionSnapshot =
  sn_turnId :: string
  sn_revisionOfTurnId :: "string option"
  sn_status :: TurnStatus
  sn_blockingState :: TurnBlockingState
  sn_terminalOutcome :: "TurnTerminalOutcome option"
  sn_items :: "LifecycleItemProjection list"
  sn_toolCalls :: "LifecycleToolCallProjection list"
  sn_approvals :: "LifecycleApprovalProjection list"
  sn_requests :: "LifecycleRequestProjection list"
  sn_lastSequence :: nat
  sn_projectionVersion :: nat

text \<open>
  What the schema of a snapshot checks beyond the types: no identifier is empty. The blocking state and the outcome come
  out of schemas already, the one of a blocking state and the one of an event.
\<close>

definition snapshot_accepted :: "LifecycleProjectionSnapshot \<Rightarrow> bool" where
  "snapshot_accepted sn \<longleftrightarrow> sn_turnId sn \<noteq> [] \<and> sn_revisionOfTurnId sn \<noteq> Some [] \<and>
     list_all (\<lambda>item. ip_itemId item \<noteq> []) (sn_items sn) \<and>
     list_all (\<lambda>tool. cp_toolCallId tool \<noteq> [] \<and> cp_itemId tool \<noteq> []) (sn_toolCalls sn) \<and>
     list_all (\<lambda>approval. ap_approvalId approval \<noteq> [] \<and> ap_itemId approval \<noteq> []) (sn_approvals sn) \<and>
     list_all (\<lambda>request. qp_requestId request \<noteq> [] \<and> qp_itemId request \<noteq> []) (sn_requests sn)"

definition snapshot :: "MutableProjection \<Rightarrow> projector_error + LifecycleProjectionSnapshot" where
  "snapshot m =
     (let sn = \<lparr>sn_turnId = mp_turnId m, sn_revisionOfTurnId = (if truthy (mp_revisionOfTurnId m) then mp_revisionOfTurnId m else None),
        sn_status = mp_status m, sn_blockingState = mp_blockingState m, sn_terminalOutcome = mp_terminalOutcome m,
        sn_items = map snd (mp_items m), sn_toolCalls = map snd (mp_toolCalls m), sn_approvals = map snd (mp_approvals m),
        sn_requests = map snd (mp_requests m), sn_lastSequence = mp_lastSequence m,
        sn_projectionVersion = LIFECYCLE_PROJECTION_VERSION\<rparr>
      in if snapshot_accepted sn then Inr sn else Inl Schema_refused)"

definition project_from ::
  "(pval option \<Rightarrow> TurnBlockingState option) \<Rightarrow> ClientEvent list \<Rightarrow> unit projector_op" where
  "project_from parseBlocking evs = forE evs (applyLifecycleProjectionEvent parseBlocking)"

definition projectLifecycleEvents ::
  "(pval option \<Rightarrow> TurnBlockingState option) \<Rightarrow> ClientEvent list \<Rightarrow> projector_error + LifecycleProjectionSnapshot option" where
  "projectLifecycleEvents parseBlocking evs =
     (case evs of
        [] \<Rightarrow> Inr None
      | ev # _ \<Rightarrow> (case project_from parseBlocking evs (createState (turnId ev)) of
          (Inl e, _) \<Rightarrow> Inl e
        | (Inr _, m) \<Rightarrow> (case snapshot m of Inl e \<Rightarrow> Inl e | Inr sn \<Rightarrow> Inr (Some sn))))"

text \<open>\<open>LifecycleProjector.apply\<close>: the projector keeps what it has changed even when it throws.\<close>

definition projector_apply ::
  "(pval option \<Rightarrow> TurnBlockingState option) \<Rightarrow> ClientEvent \<Rightarrow> LifecycleProjectionSnapshot projector_op" where
  "projector_apply parseBlocking ev =
     bindE (applyLifecycleProjectionEvent parseBlocking ev) (\<lambda>_.
     bindE (getE snapshot) (\<lambda>sn. case sn of Inl e \<Rightarrow> throwE e | Inr x \<Rightarrow> returnE x))"

end
