(* ===== verification/Lifecycle_Contract.thy ===== *)
theory Lifecycle_Contract
  imports Lifecycle_Projector
begin

text \<open>
  Model of contract-conformance/src/lifecycle.ts: the reducer with which the repository states what a legal lifecycle
  stream is. It is pure and throws on the first event that breaks the contract.
\<close>

section \<open>State\<close>

record ReplayState =
  cs_threadId :: "string option"
  cs_turnId :: "string option"
  cs_status :: TurnStatus
  cs_blockingState :: TurnBlockingState
  cs_terminalOutcome :: "TurnTerminalOutcome option"
  cs_runAttempts :: "RunAttemptStatus js_record"
  cs_items :: "ItemStatus js_record"
  cs_toolCalls :: "ToolCallStatus js_record"
  cs_approvals :: "ApprovalStatus js_record"
  cs_lastSequence :: nat
  cs_accepted :: bool
  cs_started :: bool
  cs_terminalEvents :: nat
  cs_itemKinds :: "ItemKind js_record"
  cs_toolCallItems :: "string js_record"
  cs_requests :: "request_status js_record"

definition createInitialState :: ReplayState where
  "createInitialState =
     \<lparr>cs_threadId = None, cs_turnId = None, cs_status = Ts_queued, cs_blockingState = Blocking_none, cs_terminalOutcome = None,
      cs_runAttempts = [], cs_items = [], cs_toolCalls = [], cs_approvals = [], cs_lastSequence = 0, cs_accepted = False,
      cs_started = False, cs_terminalEvents = 0, cs_itemKinds = [], cs_toolCallItems = [], cs_requests = []\<rparr>"

type_synonym contract_step = "js_error + ReplayState"

definition throwTransition :: "LifecycleTransitionSubject \<Rightarrow> string \<Rightarrow> string \<Rightarrow> string \<Rightarrow> js_error + 'a" where
  "throwTransition subject from to reason = Inl (LifecycleTransitionError subject from to reason)"

definition advance :: "ReplayState \<Rightarrow> nat \<Rightarrow> ReplayState" where
  "advance cs seq = cs\<lparr>cs_lastSequence := seq\<rparr>"

text \<open>A field of the event as a property name, and a name that is shown or called missing.\<close>

definition property_key :: "string option \<Rightarrow> string" where
  "property_key k = (case k of None \<Rightarrow> ''undefined'' | Some s \<Rightarrow> s)"

definition or_missing :: "('a \<Rightarrow> string) \<Rightarrow> 'a option \<Rightarrow> string" where
  "or_missing name v = (case v of None \<Rightarrow> ''missing'' | Some x \<Rightarrow> name x)"


section \<open>Guards\<close>

definition requireAccepted :: "ReplayState \<Rightarrow> js_error + unit" where
  "requireAccepted cs = (if \<not> cs_accepted cs then throwTransition Sub_turn ''missing'' ''accepted'' ''turn was not accepted'' else Inr ())"

definition requireStarted :: "ReplayState \<Rightarrow> js_error + unit" where
  "requireStarted cs = andThen (requireAccepted cs) (\<lambda>_.
     if \<not> cs_started cs then throwTransition Sub_turn (turn_status_name (cs_status cs)) ''in_progress'' ''turn has not started'' else Inr ())"

definition requireActiveItem :: "ReplayState \<Rightarrow> string \<Rightarrow> nat \<Rightarrow> contract_step" where
  "requireActiveItem cs i seq =
     (if map_of (cs_items cs) i \<noteq> Some Is_active
      then throwTransition Sub_item (or_missing item_status_name (map_of (cs_items cs) i)) ''active'' ''item is not active''
      else Inr (advance cs seq))"

definition requireActiveItemKind :: "ReplayState \<Rightarrow> string \<Rightarrow> ItemKind \<Rightarrow> nat \<Rightarrow> contract_step" where
  "requireActiveItemKind cs i kind seq = andThen (requireActiveItem cs i seq) (\<lambda>_.
     if map_of (cs_itemKinds cs) i \<noteq> Some kind
     then throwTransition Sub_item (or_missing item_kind_name (map_of (cs_itemKinds cs) i)) (item_kind_name kind) ''item kind mismatch''
     else Inr (advance cs seq))"

definition contract_requireActiveToolCall :: "ReplayState \<Rightarrow> string \<Rightarrow> nat \<Rightarrow> contract_step" where
  "contract_requireActiveToolCall cs c seq =
     (if map_of (cs_toolCalls cs) c \<noteq> Some Is_active
      then throwTransition Sub_tool_call (or_missing item_status_name (map_of (cs_toolCalls cs) c)) ''active'' ''tool call is not active''
      else Inr (advance cs seq))"

primrec request_status_name :: "request_status \<Rightarrow> string" where
  "request_status_name Rq_pending = ''pending''"
| "request_status_name Rq_resolved = ''resolved''"

definition requirePendingRequest :: "ReplayState \<Rightarrow> string \<Rightarrow> nat \<Rightarrow> contract_step" where
  "requirePendingRequest cs r seq =
     (if map_of (cs_requests cs) r \<noteq> Some Rq_pending
      then throwTransition Sub_turn (or_missing request_status_name (map_of (cs_requests cs) r)) r ''request is not pending''
      else Inr (advance cs seq))"


section \<open>Settlement\<close>

definition assertNoActiveRunAttempts :: "ReplayState \<Rightarrow> js_error + unit" where
  "assertNoActiveRunAttempts cs =
     (case List.find (\<lambda>(_, st). st = Ra_queued \<or> st = Ra_running) (cs_runAttempts cs) of
        Some (r, st) \<Rightarrow> throwTransition Sub_run_attempt (run_attempt_status_name st) ''terminal'' (r @ '' remains active'')
      | None \<Rightarrow> Inr ())"

definition assertNoActiveToolCalls :: "ReplayState \<Rightarrow> js_error + unit" where
  "assertNoActiveToolCalls cs =
     (case List.find (\<lambda>(_, st). st = Is_not_started \<or> st = Is_active) (cs_toolCalls cs) of
        Some (c, st) \<Rightarrow> throwTransition Sub_tool_call (item_status_name st) ''terminal'' (c @ '' remains active'')
      | None \<Rightarrow> Inr ())"

definition assertNoPendingRequests :: "ReplayState \<Rightarrow> js_error + unit" where
  "assertNoPendingRequests cs =
     (case List.find (\<lambda>(_, st). st = Rq_pending) (cs_requests cs) of
        Some (r, st) \<Rightarrow> throwTransition Sub_turn (request_status_name st) ''resolved'' (r @ '' remains pending'')
      | None \<Rightarrow> Inr ())"

definition assertTerminalSettlement :: "ReplayState \<Rightarrow> js_error + unit" where
  "assertTerminalSettlement cs =
     andThen (validateTerminalSettlement
       \<lparr>ts_turnStatus = cs_status cs, ts_terminalOutcome = cs_terminalOutcome cs, ts_blockingState = cs_blockingState cs,
        ts_itemStatuses = cs_items cs, ts_approvalStatuses = cs_approvals cs\<rparr>) (\<lambda>_.
     andThen (assertNoActiveRunAttempts cs) (\<lambda>_.
     andThen (assertNoActiveToolCalls cs) (\<lambda>_.
     assertNoPendingRequests cs)))"

definition assertAcceptedTurnSettled :: "ReplayState \<Rightarrow> js_error + unit" where
  "assertAcceptedTurnSettled cs =
     (if \<not> cs_accepted cs \<or> cs_terminalEvents cs \<noteq> 1
      then throwTransition Sub_turn (string_of_nat (cs_terminalEvents cs)) ''1'' ''accepted turn must settle exactly once''
      else assertTerminalSettlement cs)"

text \<open>The loop over the tool calls of a settled tool item.\<close>

definition assertToolItemSettled :: "ReplayState \<Rightarrow> string \<Rightarrow> ItemStatus \<Rightarrow> js_error + unit" where
  "assertToolItemSettled cs i st =
     (if map_of (cs_itemKinds cs) i \<noteq> Some Kind_tool_call \<or> \<not> isTerminalItemStatus st then Inr ()
      else let toolCalls = filter (\<lambda>(_, parent). parent = i) (cs_toolCallItems cs) in
        if toolCalls = [] then throwTransition Sub_tool_call ''missing'' ''terminal'' ''tool item has no tool call''
        else (case List.find (\<lambda>(c, _). map_of (cs_toolCalls cs) c = Some Is_active) toolCalls of
          Some (c, _) \<Rightarrow> throwTransition Sub_tool_call ''active'' ''terminal'' (c @ '' remains active'')
        | None \<Rightarrow> Inr ()))"


section \<open>Status changes\<close>

definition setRunAttemptStatus :: "ReplayState \<Rightarrow> string \<Rightarrow> RunAttemptStatus \<Rightarrow> contract_step" where
  "setRunAttemptStatus cs r st =
     andThen (transitionRunAttemptStatus (case map_of (cs_runAttempts cs) r of None \<Rightarrow> Ra_queued | Some x \<Rightarrow> x) st) (\<lambda>nxt.
     Inr ((advance cs (cs_lastSequence cs + 1))\<lparr>cs_runAttempts := AList.update r nxt (cs_runAttempts cs)\<rparr>))"

definition setItemStatus :: "ReplayState \<Rightarrow> string \<Rightarrow> ItemStatus \<Rightarrow> contract_step" where
  "setItemStatus cs i st =
     andThen (transitionItemStatus (case map_of (cs_items cs) i of None \<Rightarrow> Is_not_started | Some x \<Rightarrow> x) st) (\<lambda>nxt.
     let cs' = (advance cs (cs_lastSequence cs + 1))\<lparr>cs_items := AList.update i nxt (cs_items cs)\<rparr> in
     andThen (assertToolItemSettled cs' i st) (\<lambda>_. Inr cs'))"

definition setToolCallStatus :: "ReplayState \<Rightarrow> string \<Rightarrow> ToolCallStatus \<Rightarrow> contract_step" where
  "setToolCallStatus cs c st =
     andThen (transitionToolCallStatus (case map_of (cs_toolCalls cs) c of None \<Rightarrow> Is_not_started | Some x \<Rightarrow> x) st) (\<lambda>nxt.
     Inr ((advance cs (cs_lastSequence cs + 1))\<lparr>cs_toolCalls := AList.update c nxt (cs_toolCalls cs)\<rparr>))"

definition setApprovalStatus :: "ReplayState \<Rightarrow> string \<Rightarrow> ApprovalStatus \<Rightarrow> contract_step" where
  "setApprovalStatus cs a st =
     andThen (transitionApprovalStatus (case map_of (cs_approvals cs) a of None \<Rightarrow> Ap_pending | Some x \<Rightarrow> x) st) (\<lambda>nxt.
     Inr ((advance cs (cs_lastSequence cs + 1))\<lparr>cs_approvals := AList.update a nxt (cs_approvals cs)\<rparr>))"

definition setRequestResolved :: "ReplayState \<Rightarrow> string \<Rightarrow> contract_step" where
  "setRequestResolved cs r = andThen (requirePendingRequest cs r (cs_lastSequence cs + 1)) (\<lambda>_.
     Inr ((advance cs (cs_lastSequence cs + 1))\<lparr>cs_requests := AList.update r Rq_resolved (cs_requests cs)\<rparr>))"


section \<open>Events\<close>

definition applyTurnQueued :: "ReplayState \<Rightarrow> contract_step" where
  "applyTurnQueued cs =
     (if cs_accepted cs then throwTransition Sub_turn ''queued'' ''turn.queued'' ''turn accepted twice''
      else Inr ((advance cs (cs_lastSequence cs + 1))\<lparr>cs_accepted := True\<rparr>))"

definition applyTurnStarted :: "ReplayState \<Rightarrow> contract_step" where
  "applyTurnStarted cs = andThen (requireAccepted cs) (\<lambda>_.
     if cs_started cs then throwTransition Sub_turn (turn_status_name (cs_status cs)) ''turn.started'' ''turn started twice''
     else andThen (transitionTurnStatus (cs_status cs) Ts_in_progress) (\<lambda>nxt.
       Inr ((advance cs (cs_lastSequence cs + 1))\<lparr>cs_started := True, cs_status := nxt\<rparr>)))"

text \<open>\<open>zod\<close> turns an optional result of a schema into an error.\<close>

definition zod :: "'a option \<Rightarrow> js_error + 'a" where
  "zod r = (case r of None \<Rightarrow> Inl ZodError | Some x \<Rightarrow> Inr x)"

definition applyBlockingChanged :: "(pval option \<Rightarrow> TurnBlockingState option) \<Rightarrow> ReplayState \<Rightarrow> JsonRecord \<Rightarrow> contract_step" where
  "applyBlockingChanged parseBlocking cs p = andThen (requireStarted cs) (\<lambda>_.
     andThen (zod (parseBlocking (map_of p ''blockingState''))) (\<lambda>blocking.
     Inr ((advance cs (cs_lastSequence cs + 1))\<lparr>cs_blockingState := blocking\<rparr>)))"

definition applyItemStarted :: "ReplayState \<Rightarrow> string \<Rightarrow> JsonRecord \<Rightarrow> contract_step" where
  "applyItemStarted cs i p = andThen (requireStarted cs) (\<lambda>_.
     andThen (zod (parse_item_kind (map_of p ''kind''))) (\<lambda>kind.
     andThen (setItemStatus cs i Is_active) (\<lambda>cs'.
     Inr (cs'\<lparr>cs_itemKinds := AList.update i kind (cs_itemKinds cs)\<rparr>))))"

definition applyToolCallStarted :: "ReplayState \<Rightarrow> string \<Rightarrow> string \<Rightarrow> contract_step" where
  "applyToolCallStarted cs i c = andThen (requireActiveItemKind cs i Kind_tool_call (cs_lastSequence cs + 1)) (\<lambda>_.
     andThen (setToolCallStatus cs c Is_active) (\<lambda>cs'.
     Inr (cs'\<lparr>cs_toolCallItems := AList.update c i (cs_toolCallItems cs)\<rparr>)))"

definition applyApprovalRequested :: "ReplayState \<Rightarrow> string \<Rightarrow> string \<Rightarrow> contract_step" where
  "applyApprovalRequested cs i a = andThen (requireActiveItemKind cs i Kind_approval_request (cs_lastSequence cs + 1)) (\<lambda>_.
     Inr ((advance cs (cs_lastSequence cs + 1))\<lparr>cs_approvals := AList.update a Ap_pending (cs_approvals cs)\<rparr>))"

definition parse_decision :: "pval option \<Rightarrow> ApprovalStatus option" where
  "parse_decision v = Option.bind (Option.bind v json_string)
     (\<lambda>s. List.find (\<lambda>st. approval_status_name st = s) [Ap_approved, Ap_denied, Ap_timed_out, Ap_cancelled])"

definition applyApprovalDecided :: "ReplayState \<Rightarrow> string \<Rightarrow> JsonRecord \<Rightarrow> contract_step" where
  "applyApprovalDecided cs a p = andThen (zod (parse_decision (map_of p ''status''))) (setApprovalStatus cs a)"

definition applyUserInputRequested :: "ReplayState \<Rightarrow> string \<Rightarrow> string \<Rightarrow> contract_step" where
  "applyUserInputRequested cs i r = andThen (requireActiveItemKind cs i Kind_user_input_request (cs_lastSequence cs + 1)) (\<lambda>_.
     Inr ((advance cs (cs_lastSequence cs + 1))\<lparr>cs_requests := AList.update r Rq_pending (cs_requests cs)\<rparr>))"

definition applyTerminalTurn :: "ReplayState \<Rightarrow> TurnStatus \<Rightarrow> TurnTerminalOutcome option \<Rightarrow> contract_step" where
  "applyTerminalTurn cs st outcome = andThen (requireStarted cs) (\<lambda>_.
     andThen (transitionTurnStatus (cs_status cs) st) (\<lambda>nxt.
     let cs' = (advance cs (cs_lastSequence cs + 1))\<lparr>cs_status := nxt, cs_terminalOutcome := outcome,
                 cs_terminalEvents := cs_terminalEvents cs + 1\<rparr> in
     andThen (assertTerminalSettlement cs') (\<lambda>_. Inr cs')))"


section \<open>Dispatch\<close>

text \<open>\<open>None\<close> is \<open>null\<close>: the event is not of the group.\<close>

definition applyTurnEvent :: "(pval option \<Rightarrow> TurnBlockingState option) \<Rightarrow> ReplayState \<Rightarrow> ClientEvent \<Rightarrow> contract_step option" where
  "applyTurnEvent parseBlocking cs ev =
     (let e = etype ev; outcome = read_outcome (map_of (payload ev) ''outcome'') in
      if e = E_turn_queued then Some (applyTurnQueued cs)
      else if e = E_turn_started then Some (applyTurnStarted cs)
      else if e = E_turn_blocking_changed then Some (applyBlockingChanged parseBlocking cs (payload ev))
      else if e = E_turn_completed then Some (applyTerminalTurn cs Ts_completed outcome)
      else if e = E_turn_interrupted then Some (applyTerminalTurn cs Ts_interrupted outcome)
      else if e = E_turn_failed then Some (applyTerminalTurn cs Ts_failed outcome)
      else None)"

definition applyRunAttemptEvent :: "ReplayState \<Rightarrow> ClientEvent \<Rightarrow> contract_step option" where
  "applyRunAttemptEvent cs ev =
     (let e = etype ev; r = runAttemptId ev in
      if e = E_run_attempt_started then Some (setRunAttemptStatus cs r Ra_running)
      else if e = E_run_attempt_succeeded then Some (setRunAttemptStatus cs r Ra_succeeded)
      else if e = E_run_attempt_interrupted then Some (setRunAttemptStatus cs r Ra_interrupted)
      else if e = E_run_attempt_failed then Some (setRunAttemptStatus cs r Ra_failed)
      else None)"

definition applyItemEvent :: "ReplayState \<Rightarrow> ClientEvent \<Rightarrow> contract_step option" where
  "applyItemEvent cs ev =
     (let e = etype ev; i = property_key (itemId ev); seq = sequence ev in
      if e = E_item_started then Some (applyItemStarted cs i (payload ev))
      else if e = E_item_updated then Some (requireActiveItem cs i seq)
      else if e = E_reasoning_summary_delta then Some (requireActiveItemKind cs i Kind_reasoning seq)
      else if e = E_assistant_message_delta then Some (requireActiveItemKind cs i Kind_assistant_message seq)
      else if e = E_plan_updated then Some (requireActiveItemKind cs i Kind_plan seq)
      else if e = E_command_execution_output_delta then Some (requireActiveItemKind cs i Kind_command_execution seq)
      else if e = E_file_change_patch_updated then Some (requireActiveItemKind cs i Kind_file_change seq)
      else if e = E_item_completed then Some (setItemStatus cs i Is_completed)
      else if e = E_item_failed then Some (setItemStatus cs i Is_failed)
      else if e = E_item_declined then Some (setItemStatus cs i Is_declined)
      else if e = E_item_interrupted then Some (setItemStatus cs i Is_interrupted)
      else None)"

definition applyToolCallEvent :: "ReplayState \<Rightarrow> ClientEvent \<Rightarrow> contract_step option" where
  "applyToolCallEvent cs ev =
     (let e = etype ev; c = property_key (toolCallId ev) in
      if e = E_tool_call_started then Some (applyToolCallStarted cs (property_key (itemId ev)) c)
      else if e = E_tool_call_input_delta \<or> e = E_tool_call_output_delta then Some (contract_requireActiveToolCall cs c (sequence ev))
      else if e = E_tool_call_completed then Some (setToolCallStatus cs c Is_completed)
      else if e = E_tool_call_failed then Some (setToolCallStatus cs c Is_failed)
      else if e = E_tool_call_declined then Some (setToolCallStatus cs c Is_declined)
      else if e = E_tool_call_interrupted then Some (setToolCallStatus cs c Is_interrupted)
      else None)"

definition applyApprovalEvent :: "ReplayState \<Rightarrow> ClientEvent \<Rightarrow> contract_step option" where
  "applyApprovalEvent cs ev =
     (let e = etype ev; a = property_key (approvalId ev) in
      if e = E_approval_requested then Some (applyApprovalRequested cs (property_key (itemId ev)) a)
      else if e = E_approval_decided then Some (applyApprovalDecided cs a (payload ev))
      else None)"

definition applyRequestEvent :: "ReplayState \<Rightarrow> ClientEvent \<Rightarrow> contract_step option" where
  "applyRequestEvent cs ev =
     (let e = etype ev; r = property_key (requestId ev) in
      if e = E_user_input_requested then Some (applyUserInputRequested cs (property_key (itemId ev)) r)
      else if e = E_user_input_responded then Some (requirePendingRequest cs r (sequence ev))
      else if e = E_request_resolved then Some (setRequestResolved cs r)
      else None)"

definition assertMatchingScope :: "string \<Rightarrow> string option \<Rightarrow> string \<Rightarrow> js_error + unit" where
  "assertMatchingScope label current nxt =
     (if current \<noteq> Some nxt
      then throwTransition Sub_turn (or_missing id current) nxt (label @ '' changed within lifecycle replay'') else Inr ())"

definition bindReplayScope :: "ReplayState \<Rightarrow> ClientEvent \<Rightarrow> contract_step" where
  "bindReplayScope cs ev =
     (if cs_turnId cs = None then Inr (cs\<lparr>cs_threadId := Some (threadId ev), cs_turnId := Some (turnId ev)\<rparr>)
      else andThen (assertMatchingScope ''threadId'' (cs_threadId cs) (threadId ev)) (\<lambda>_.
        andThen (assertMatchingScope ''turnId'' (cs_turnId cs) (turnId ev)) (\<lambda>_. Inr cs)))"

text \<open>\<open>a ?? b\<close>\<close>

definition or_else :: "'a option \<Rightarrow> 'a option \<Rightarrow> 'a option" where
  "or_else a b = (case a of None \<Rightarrow> b | Some x \<Rightarrow> Some x)"

definition contract_event :: "(pval option \<Rightarrow> TurnBlockingState option) \<Rightarrow> ReplayState \<Rightarrow> ClientEvent \<Rightarrow> contract_step" where
  "contract_event parseBlocking cs ev =
     (case or_else (applyTurnEvent parseBlocking cs ev) (or_else (applyRunAttemptEvent cs ev) (or_else (applyItemEvent cs ev)
        (or_else (applyToolCallEvent cs ev) (or_else (applyApprovalEvent cs ev) (applyRequestEvent cs ev))))) of
        Some r \<Rightarrow> r | None \<Rightarrow> Inr (advance cs (sequence ev)))"

definition contract_apply :: "(pval option \<Rightarrow> TurnBlockingState option) \<Rightarrow> ClientEvent \<Rightarrow> ReplayState \<Rightarrow> contract_step" where
  "contract_apply parseBlocking ev cs =
     andThen (assertNextLifecycleSequence (cs_lastSequence cs) (sequence ev)) (\<lambda>_.
     andThen (bindReplayScope cs ev) (\<lambda>scoped.
     andThen (if cs_terminalEvents scoped > 0 then assertTurnAcceptsLifecycleEvent (cs_status scoped) (etype ev) else Inr ()) (\<lambda>_.
     contract_event parseBlocking scoped ev)))"

definition contract_replay :: "(pval option \<Rightarrow> TurnBlockingState option) \<Rightarrow> ClientEvent list \<Rightarrow> contract_step" where
  "contract_replay parseBlocking evs =
     andThen (fold_sum (contract_apply parseBlocking) evs createInitialState) (\<lambda>cs.
     andThen (assertAcceptedTurnSettled cs) (\<lambda>_. Inr cs))"

end
