(* ===== verification/Lifecycle_Rebuild.thy ===== *)
theory Lifecycle_Rebuild
  imports Lifecycle_Projector Lifecycle_Liveness
begin

text \<open>
  The projector against the coordinator: the state of a turn can be rebuilt from the events that the coordinator has
  stored, as long as its callers use every item for one purpose and request one approval at a time.
\<close>

section \<open>What the projector does with an event\<close>

lemma projected_update [simp]:
  "map (map_prod id f) (AList.update k v al) = AList.update k (f v) (map (map_prod id f) al)"
  by (induction al) auto

lemma map_of_projected [simp]: "map_of (map (map_prod id f) al) k = map_option f (map_of al k)"
  by (induction al) auto

lemma update_same [simp]: "map_of al k = Some v \<Longrightarrow> AList.update k v al = al"
  by (induction al) auto

text \<open>The part of the projection that the coordinator knows too.\<close>

definition skeleton where
  "skeleton m = (mp_status m, mp_blockingState m, item_statuses m, map (map_prod id cp_status) (mp_toolCalls m),
     map (map_prod id cp_itemId) (mp_toolCalls m), approval_statuses m, map (map_prod id ap_itemId) (mp_approvals m))"

definition coordinator_view where
  "coordinator_view s = (lc_status s, lc_blockingState s, lc_itemStatuses s, lc_toolCallStatuses s, lc_toolCallItems s,
     lc_approvalStatuses s, lc_approvalItems s)"

definition well_named :: "MutableProjection \<Rightarrow> bool" where
  "well_named m \<longleftrightarrow> mp_requests m = [] \<and> mp_revisionOfTurnId m \<noteq> Some [] \<and>
     list_all (\<lambda>(i, item). ip_itemId item = i \<and> i \<noteq> []) (mp_items m) \<and>
     list_all (\<lambda>(c, tool). cp_toolCallId tool = c \<and> c \<noteq> [] \<and> cp_itemId tool \<noteq> []) (mp_toolCalls m) \<and>
     list_all (\<lambda>(a, approval). ap_approvalId approval = a \<and> a \<noteq> [] \<and> ap_itemId approval \<noteq> []) (mp_approvals m)"

definition mirrors :: "'st lc_state \<Rightarrow> MutableProjection \<Rightarrow> bool" where
  "mirrors s m \<longleftrightarrow> skeleton m = coordinator_view s \<and> (mp_terminalOutcome m = None \<longleftrightarrow> \<not> isTerminal s) \<and> well_named m"

lemma list_all_update: "list_all P al \<Longrightarrow> P (k, v) \<Longrightarrow> list_all P (AList.update k v al)"
  using set_update_subset [of k v al] by (auto simp: list_all_iff)

text \<open>Events that concern one part only pass through the others.\<close>

lemma applyTurn_other: "etype ev \<noteq> E_turn_started \<Longrightarrow> etype ev \<noteq> E_turn_blocking_changed \<Longrightarrow> \<not> terminal_event_type (etype ev) \<Longrightarrow>
  applyTurn pb ev m = (Inr (), m)"
  by (simp add: applyTurn_def op_defs)

lemma applyRequest_none [simp]: "applyRequest (client_event ev) m = (Inr (), m)"
  by (simp add: applyRequest_def client_event_def op_defs)

lemma applyItem_none: "itemId ev = None \<Longrightarrow> applyItem ev m = (Inr (), m)"
  by (simp add: applyItem_def op_defs)

lemma applyToolCall_none: "toolCallId ev = None \<Longrightarrow> applyToolCall ev m = (Inr (), m)"
  by (simp add: applyToolCall_def op_defs)

lemma applyApproval_none: "approvalId ev = None \<Longrightarrow> applyApproval ev m = (Inr (), m)"
  by (simp add: applyApproval_def op_defs)

lemma applyItem_touch:
  assumes "etype ev \<noteq> E_item_started" and "itemTerminalStatus (etype ev) = None" and "well_named m"
  shows "\<exists>items. applyItem ev m = (Inr (), m\<lparr>mp_items := items\<rparr>) \<and> map (map_prod id ip_status) items = item_statuses m \<and>
    list_all (\<lambda>(i, item). ip_itemId item = i \<and> i \<noteq> []) items"
proof (cases "truthy (itemId ev) \<and> map_of (mp_items m) (the (itemId ev)) \<noteq> None")
  case True
  then obtain i item where i: "itemId ev = Some i" "i \<noteq> []" "map_of (mp_items m) i = Some item" by (cases "itemId ev") auto
  let ?item = "item\<lparr>ip_text := (case readItemDelta ev of None \<Rightarrow> ip_text item | Some s \<Rightarrow> ip_text item @ s), ip_lastSequence := sequence ev\<rparr>"
  have named: "list_all (\<lambda>(i, item). ip_itemId item = i \<and> i \<noteq> []) (mp_items m)" using assms(3) by (simp add: well_named_def)
  moreover from this have "ip_itemId item = i" using map_of_SomeD [OF i(3)] by (auto simp: list_all_iff)
  ultimately have "list_all (\<lambda>(i, item). ip_itemId item = i \<and> i \<noteq> []) (AList.update i ?item (mp_items m))"
    using i(2) by (intro list_all_update) simp_all
  moreover have "applyItem ev m = (Inr (), m\<lparr>mp_items := AList.update i ?item (mp_items m)\<rparr>)"
    using i assms(1,2) by (simp add: applyItem_def op_defs liftP_def)
  ultimately show ?thesis using i(3) by (auto simp: item_statuses_def)
next
  case False
  then have "applyItem ev m = (Inr (), m)"
    using assms(1) by (cases "itemId ev") (auto simp: applyItem_def op_defs)
  then show ?thesis using assms(3) by (intro exI [where x = "mp_items m"]) (simp add: item_statuses_def well_named_def)
qed

definition apply_parts :: "(pval option \<Rightarrow> TurnBlockingState option) \<Rightarrow> ClientEvent \<Rightarrow> unit projector_op" where
  "apply_parts pb ev = block [applyTurn pb ev, applyItem ev, applyToolCall ev, applyApproval ev, applyRequest ev]"

lemma apply_event:
  assumes "turnId ev = mp_turnId m" and "sequence ev = Suc (mp_lastSequence m)" and "mp_terminalOutcome m = None"
    and "apply_parts pb ev m = (Inr (), m')"
  shows "applyLifecycleProjectionEvent pb ev m = (Inr (), m'\<lparr>mp_lastSequence := sequence ev\<rparr>)"
proof -
  have "wpE (applyLifecycleProjectionEvent pb ev) Q E m = wpE (apply_parts pb ev) (\<lambda>_ x. Q () (x\<lparr>mp_lastSequence := sequence ev\<rparr>)) E m" for Q E
    unfolding apply_parts_def applyLifecycleProjectionEvent_def wp_simps using assms(1-3) by (simp add: assertEnvelope_def wp_simps)
  from this [of "\<lambda>_ x. x = m'\<lparr>mp_lastSequence := sequence ev\<rparr>" "\<lambda>_ _. False"] assms(4) show ?thesis
    by (simp add: wpE_def split: prod.splits sum.splits)
qed

section \<open>Stored events\<close>

text \<open>
  What is assumed of the schemas: an accepted event has the identifiers that its type requires, the fields from which the
  projector reads statuses are kept, and the identifiers of an approval event are accepted in a blocking state.
\<close>

definition item_types :: "LifecycleEventType set" where
  "item_types = insert E_item_started item_settled_types"

definition approval_types :: "LifecycleEventType set" where
  "approval_types = {E_approval_requested, E_approval_decided}"

definition addressed :: "LifecycleEvent \<Rightarrow> bool" where
  "addressed ev \<longleftrightarrow> (etype ev \<in> item_types \<union> tool_call_types \<union> approval_types \<longrightarrow> truthy (itemId ev)) \<and>
     (etype ev \<in> tool_call_types \<longrightarrow> truthy (toolCallId ev)) \<and> (etype ev \<in> approval_types \<longrightarrow> truthy (approvalId ev))"

definition status_keys :: "string set" where
  "status_keys = {''kind'', ''blockingState'', ''status'', ''outcome''}"

definition projector_schema :: "event_schema \<Rightarrow> (pval option \<Rightarrow> TurnBlockingState option) \<Rightarrow> bool" where
  "projector_schema parse pb \<longleftrightarrow> pb (Some (PBlocking Blocking_none)) = Some Blocking_none \<and>
     (\<forall>ev ev'. parse ev = Some ev' \<longrightarrow> addressed ev' \<and> (\<forall>k\<in>status_keys. map_of (payload ev') k = map_of (payload ev) k) \<and>
        (\<forall>i a. etype ev' = E_approval_requested \<and> itemId ev' = Some i \<and> approvalId ev' = Some a \<longrightarrow>
           pb (Some (PBlocking (Waiting_for_approval i a))) = Some (Waiting_for_approval i a)))"

definition rebuild_options :: "MemoryLifecycleEventStore lc_options \<Rightarrow> (pval option \<Rightarrow> TurnBlockingState option) \<Rightarrow> bool" where
  "rebuild_options env pb \<longleftrightarrow> opt_appendBatch env = appendBatch (opt_parseEvent env) \<and> lawful_schema (opt_parseEvent env) \<and>
     lawful_ids (opt_parseEventId env) \<and> projector_schema (opt_parseEvent env) pb"

text \<open>An event of the coordinator as it is stored.\<close>

definition recorded ::
  "MemoryLifecycleEventStore lc_options \<Rightarrow> (pval option \<Rightarrow> TurnBlockingState option) \<Rightarrow> EventFields \<Rightarrow> LifecycleEvent \<Rightarrow> bool" where
  "recorded env pb f ev \<longleftrightarrow> threadId ev = opt_threadId env \<and> turnId ev = opt_turnId env \<and>
     runAttemptId ev = opt_runAttemptId env \<and> etype ev = f_type f \<and> itemId ev = f_itemId f \<and> toolCallId ev = f_toolCallId f \<and>
     approvalId ev = f_approvalId f \<and> addressed ev \<and> (\<forall>k\<in>status_keys. map_of (payload ev) k = map_of (f_payload f) k) \<and>
     (\<forall>i a. f_type f = E_approval_requested \<and> f_itemId f = Some i \<and> f_approvalId f = Some a \<longrightarrow>
        pb (Some (PBlocking (Waiting_for_approval i a))) = Some (Waiting_for_approval i a))"

lemma rebuild_sink:
  assumes "rebuild_options env pb"
  shows "lifecycle_sink (appendBatch (opt_parseEvent env)) lifecycle_log canonical_store (admissible_event (opt_parseEvent env))"
    "lawful_writer (appendBatch (opt_parseEvent env)) (admissible_event (opt_parseEvent env)) env"
  using assms reliable_sink.axioms(1) [OF reliable_sink_memory] lawful_writer_memory by (simp_all add: rebuild_options_def)

lemma wpE_createEvent_recorded:
  assumes "rebuild_options env pb"
    and "\<And>ev t. admissible_event (opt_parseEvent env) ev \<Longrightarrow> sequence ev = lc_sequence s + n \<Longrightarrow> recorded env pb f ev \<Longrightarrow> Q ev (s\<lparr>lc_clock := t\<rparr>)"
    and "\<And>t. E ZodError (s\<lparr>lc_clock := t\<rparr>)"
  shows "wpE (createEvent env f n) Q E s"
proof -
  note writer = rebuild_sink(2) [OF assms(1)]
  have *: "Q ev (s\<lparr>lc_clock := t\<rparr>)"
    if eid: "opt_parseEventId env (event_id env (lc_sequence s + n)) = Some eid"
      and ev: "opt_parseEvent env (raw_event env f (lc_sequence s + n) eid now) = Some ev" for eid now ev t
  proof (rule assms(2))
    let ?raw = "raw_event env f (lc_sequence s + n) eid now"
    have "same_envelope ?raw ev" using assms(1) ev by (auto simp: rebuild_options_def lawful_schema_def)
    moreover have "addressed ev" "\<forall>k\<in>status_keys. map_of (payload ev) k = map_of (payload ?raw) k"
      "\<forall>i a. etype ev = E_approval_requested \<and> itemId ev = Some i \<and> approvalId ev = Some a \<longrightarrow>
         pb (Some (PBlocking (Waiting_for_approval i a))) = Some (Waiting_for_approval i a)"
      using assms(1) ev unfolding rebuild_options_def projector_schema_def by blast+
    ultimately show "recorded env pb f ev" by (simp add: recorded_def same_envelope_def raw_event_def)
  qed (use writer eid ev in \<open>auto simp: lawful_writer_def\<close>)
  show ?thesis
    using * assms(3) assms(3) [of "lc_clock s"] by (auto simp: wpE_def createEvent_def Let_def event_id_def split: option.splits)
qed

abbreviation turn_log :: "MemoryLifecycleEventStore lc_options \<Rightarrow> MemoryLifecycleEventStore lc_state \<Rightarrow> LifecycleEvent list" where
  "turn_log env s \<equiv> lifecycle_log (lc_sink s) (opt_turnId env)"

abbreviation in_sync :: "MemoryLifecycleEventStore lc_options \<Rightarrow> MemoryLifecycleEventStore lc_state \<Rightarrow> bool" where
  "in_sync env s \<equiv> log_synced lifecycle_log canonical_store (opt_turnId env) s"

lemma emit_records:
  assumes "rebuild_options env pb" and "in_sync env s" and "\<not> terminal_event_type (f_type f)"
  shows "wpE (emit env f) (\<lambda>_ s'. in_sync env s' \<and> work s' = work s \<and> \<not> isTerminal s \<and> (\<exists>ev. recorded env pb f ev \<and>
        sequence ev = Suc (lc_sequence s) \<and> turn_log env s' = turn_log env s @ [ev]))
    (\<lambda>_ s'. in_sync env s' \<and> work s' = work s \<and> turn_log env s' = turn_log env s) s"
proof -
  note sink = rebuild_sink [OF assms(1)]
  have "wpE (emit env f) (\<lambda>_ s'. work s' = work s \<and> \<not> isTerminal s \<and> (\<exists>ev. recorded env pb f ev \<and>
        sequence ev = Suc (lc_sequence s) \<and> turn_log env s' = turn_log env s @ [ev]))
    (\<lambda>_ s'. work s' = work s \<and> turn_log env s' = turn_log env s) s"
  proof (cases "isTerminal s")
    case True
    then show ?thesis by (simp add: emit_def wp_simps assertTurnAcceptsLifecycleEvent_def isTerminal_def)
  next
    case False
    have c: "contiguous_stream (opt_turnId env) (turn_log env s @ [ev])" if "recorded env pb f ev" "sequence ev = Suc (lc_sequence s)" for ev
      using that by (intro lifecycle_sink.contiguous_next [OF sink(1) assms(2) False]) (simp_all add: recorded_def)
    show ?thesis
      unfolding emit_def wp_simps
      using False assms(2) c
      by (auto simp: assertTurnAcceptsLifecycleEvent_def isTerminal_def wp_simps log_synced_def
          intro!: wpE_createEvent_recorded [OF assms(1)] lifecycle_sink.wpE_call_sink_next [OF sink, where t = "opt_turnId env"])
  qed
  moreover have "wpE (emit env f) (\<lambda>_. in_sync env) (\<lambda>_. in_sync env) s"
    using lifecycle_sink.emit_synced [OF sink assms(3)] assms(2) by (simp add: keeps_wp)
  ultimately show ?thesis by (rule wpE_mono [OF wpE_conj]) auto
qed

section \<open>The rebuilt state\<close>

definition rebuilds ::
  "(pval option \<Rightarrow> TurnBlockingState option) \<Rightarrow> MemoryLifecycleEventStore lc_options \<Rightarrow> LifecycleEvent list \<Rightarrow> 'st lc_state \<Rightarrow> bool" where
  "rebuilds pb env evs s \<longleftrightarrow> (\<exists>m. project_from pb (map client_event evs) (createState (opt_turnId env)) = (Inr (), m) \<and>
     mp_turnId m = opt_turnId env \<and> mp_lastSequence m = length evs \<and> mirrors s m)"

lemma mirrors_work: "mirrors (work s) m = mirrors s m"
  by (simp add: mirrors_def coordinator_view_def)

lemma rebuilds_work: "rebuilds pb env evs (work s) = rebuilds pb env evs s"
  by (simp add: rebuilds_def mirrors_work)

definition absorbs ::
  "(pval option \<Rightarrow> TurnBlockingState option) \<Rightarrow> MemoryLifecycleEventStore lc_options \<Rightarrow> EventFields \<Rightarrow> 'st lc_state \<Rightarrow> 'st lc_state \<Rightarrow> bool" where
  "absorbs pb env f s s' \<longleftrightarrow> (\<forall>m ev. mirrors s m \<longrightarrow> recorded env pb f ev \<longrightarrow>
     (\<exists>m'. apply_parts pb (client_event ev) m = (Inr (), m') \<and> mp_turnId m' = mp_turnId m \<and> mirrors s' m'))"


lemma projected_event_fields [simp]:
  "threadId (client_event ev) = threadId ev" "turnId (client_event ev) = turnId ev" "runAttemptId (client_event ev) = runAttemptId ev"
  "sequence (client_event ev) = sequence ev" "etype (client_event ev) = etype ev"
  "itemId (client_event ev) = itemId ev" "toolCallId (client_event ev) = toolCallId ev"
  "approvalId (client_event ev) = approvalId ev" "payload (client_event ev) = payload ev"
  by (simp_all add: client_event_def)

lemma apply_partsI:
  assumes "applyTurn pb (client_event ev) m = (Inr (), m1)" and "applyItem (client_event ev) m1 = (Inr (), m2)"
    and "applyToolCall (client_event ev) m2 = (Inr (), m3)" and "applyApproval (client_event ev) m3 = (Inr (), m4)"
  shows "apply_parts pb (client_event ev) m = (Inr (), m4)"
  using assms by (simp add: apply_parts_def bindE_def returnE_def)

lemma rebuilds_snoc:
  assumes "rebuilds pb env evs s" and "\<not> isTerminal s" and "absorbs pb env f s s'" and "recorded env pb f ev"
    and "sequence ev = Suc (length evs)"
  shows "rebuilds pb env (evs @ [ev]) s'"
proof -
  obtain m where m: "project_from pb (map client_event evs) (createState (opt_turnId env)) = (Inr (), m)"
    "mp_turnId m = opt_turnId env" "mp_lastSequence m = length evs" "mirrors s m"
    using assms(1) by (auto simp: rebuilds_def)
  obtain m' where m': "apply_parts pb (client_event ev) m = (Inr (), m')" "mp_turnId m' = mp_turnId m" "mirrors s' m'"
    using assms(3,4) m(4) unfolding absorbs_def by blast
  have run: "applyLifecycleProjectionEvent pb (client_event ev) m = (Inr (), m'\<lparr>mp_lastSequence := sequence ev\<rparr>)"
    using apply_event [of "client_event ev" m pb m'] assms(2,4,5) m m'(1) by (simp add: recorded_def mirrors_def)
  have snoc: "forE (xs @ [x]) g k = (case forE xs g k of (Inl e, k') \<Rightarrow> (Inl e, k') | (Inr _, k') \<Rightarrow> g x k')"
    for xs :: "ClientEvent list" and x g and k :: MutableProjection
    by (induction xs arbitrary: k) (auto simp: op_defs split: prod.splits sum.splits)
  have "mirrors s' (m'\<lparr>mp_lastSequence := sequence ev\<rparr>)"
    using m'(3) by (simp add: mirrors_def skeleton_def item_statuses_def approval_statuses_def well_named_def)
  then show ?thesis
    using m m'(2) run assms(5) by (simp add: rebuilds_def project_from_def snoc)
qed

section \<open>What each event does to the rebuilt state\<close>

lemma applyToolCall_touch:
  assumes "etype ev \<noteq> E_tool_call_started" and "toolTerminalStatus (etype ev) = None" and "well_named m"
  shows "\<exists>calls. applyToolCall ev m = (Inr (), m\<lparr>mp_toolCalls := calls\<rparr>) \<and>
    map (map_prod id cp_status) calls = map (map_prod id cp_status) (mp_toolCalls m) \<and>
    map (map_prod id cp_itemId) calls = map (map_prod id cp_itemId) (mp_toolCalls m) \<and>
    list_all (\<lambda>(c, tool). cp_toolCallId tool = c \<and> c \<noteq> [] \<and> cp_itemId tool \<noteq> []) calls"
proof (cases "truthy (toolCallId ev) \<and> itemId ev \<noteq> None \<and> map_of (mp_toolCalls m) (the (toolCallId ev)) \<noteq> None")
  case True
  then obtain c tool where c: "toolCallId ev = Some c" "c \<noteq> []" "map_of (mp_toolCalls m) c = Some tool" "itemId ev \<noteq> None"
    by (cases "toolCallId ev") auto
  let ?tool = "tool\<lparr>cp_outputText := cp_outputText tool @
    (if etype ev = E_tool_call_output_delta then read_plain_string (map_of (payload ev) ''output'') else []), cp_lastSequence := sequence ev\<rparr>"
  have named: "list_all (\<lambda>(c, tool). cp_toolCallId tool = c \<and> c \<noteq> [] \<and> cp_itemId tool \<noteq> []) (mp_toolCalls m)"
    using assms(3) by (simp add: well_named_def)
  moreover from this have "cp_toolCallId tool = c" "cp_itemId tool \<noteq> []" using map_of_SomeD [OF c(3)] by (auto simp: list_all_iff)
  ultimately have "list_all (\<lambda>(c, tool). cp_toolCallId tool = c \<and> c \<noteq> [] \<and> cp_itemId tool \<noteq> []) (AList.update c ?tool (mp_toolCalls m))"
    using c(2) by (intro list_all_update) simp_all
  moreover have "applyToolCall ev m = (Inr (), m\<lparr>mp_toolCalls := AList.update c ?tool (mp_toolCalls m)\<rparr>)"
    using c assms(1,2) by (auto simp: applyToolCall_def op_defs liftP_def)
  ultimately show ?thesis using c(3) by auto
next
  case False
  then have "applyToolCall ev m = (Inr (), m)"
    using assms(1) by (cases "toolCallId ev") (auto simp: applyToolCall_def op_defs)
  then show ?thesis using assms(3) by (intro exI [where x = "mp_toolCalls m"]) (simp add: well_named_def)
qed

lemma applyApproval_other: "etype ev \<notin> approval_types \<Longrightarrow> applyApproval ev m = (Inr (), m)"
  by (simp add: applyApproval_def approval_types_def op_defs)

text \<open>Events that change no status.\<close>

definition plain_type :: "LifecycleEventType \<Rightarrow> bool" where
  "plain_type e \<longleftrightarrow> e \<notin> {E_turn_started, E_turn_blocking_changed, E_tool_call_started} \<union> item_types \<union> approval_types \<and>
     \<not> terminal_event_type e \<and> toolTerminalStatus e = None"

lemmas mirror_defs = mirrors_def skeleton_def coordinator_view_def well_named_def item_statuses_def approval_statuses_def

lemma item_terminal_none: "itemTerminalStatus e = None \<longleftrightarrow> e \<notin> item_settled_types"
  by (auto simp: itemTerminalStatus_def item_settled_types_def)

lemma absorbs_plain:
  assumes "plain_type (f_type f)"
  shows "absorbs pb env f s s"
  unfolding absorbs_def
proof (intro allI impI)
  fix m ev
  assume m: "mirrors s m" and ev: "recorded env pb f ev"
  let ?ev = "client_event ev"
  have type: "plain_type (etype ?ev)" using ev assms by (simp add: recorded_def)
  then have turn: "applyTurn pb ?ev m = (Inr (), m)" by (intro applyTurn_other) (auto simp: plain_type_def)
  have wn: "well_named m" using m by (simp add: mirrors_def)
  obtain items where items: "applyItem ?ev m = (Inr (), m\<lparr>mp_items := items\<rparr>)"
    "map (map_prod id ip_status) items = item_statuses m" "list_all (\<lambda>(i, item). ip_itemId item = i \<and> i \<noteq> []) items"
    using applyItem_touch [OF _ _ wn, of ?ev] type by (auto simp: plain_type_def item_types_def item_terminal_none)
  let ?m = "m\<lparr>mp_items := items\<rparr>"
  have wn2: "well_named ?m" using wn items(3) by (simp add: well_named_def)
  obtain calls where calls: "applyToolCall ?ev ?m = (Inr (), ?m\<lparr>mp_toolCalls := calls\<rparr>)"
    "map (map_prod id cp_status) calls = map (map_prod id cp_status) (mp_toolCalls m)"
    "map (map_prod id cp_itemId) calls = map (map_prod id cp_itemId) (mp_toolCalls m)"
    "list_all (\<lambda>(c, tool). cp_toolCallId tool = c \<and> c \<noteq> [] \<and> cp_itemId tool \<noteq> []) calls"
    using applyToolCall_touch [OF _ _ wn2, of ?ev] type by (auto simp: plain_type_def)
  have "applyApproval ?ev (?m\<lparr>mp_toolCalls := calls\<rparr>) = (Inr (), ?m\<lparr>mp_toolCalls := calls\<rparr>)"
    using type by (intro applyApproval_other) (simp add: plain_type_def)
  from apply_partsI [OF turn items(1) calls(1) this]
  show "\<exists>m'. apply_parts pb ?ev m = (Inr (), m') \<and> mp_turnId m' = mp_turnId m \<and> mirrors s m'"
    using m items calls by (auto simp: mirror_defs)
qed


text \<open>Items.\<close>

lemma parse_item_kind [simp]: "parse_item_kind (Some (PKind k)) = Some k"
  by (cases k) (simp_all add: parse_item_kind_def all_item_kinds_def)

lemma named_item: "well_named m \<Longrightarrow> map_of (mp_items m) i = Some item \<Longrightarrow> ip_itemId item = i \<and> i \<noteq> []"
  by (auto simp: well_named_def list_all_iff dest!: map_of_SomeD)

lemma item_status_mirrored:
  assumes "mirrors s m" and "item_status s i = Is_active"
  shows "\<exists>item. map_of (mp_items m) i = Some item \<and> ip_status item = Is_active"
proof -
  have "lc_itemStatuses s = map (map_prod id ip_status) (mp_items m)" using assms(1) by (simp add: mirror_defs)
  with assms(2) show ?thesis by (auto simp: item_status_def split: option.splits)
qed

lemma absorbs_item_started:
  assumes "map_of p ''kind'' = Some (PKind k)"
  shows "absorbs pb env (item_event E_item_started i p) s (set_item i Is_active s)"
  unfolding absorbs_def
proof (intro allI impI)
  fix m ev
  assume m: "mirrors s m" and ev: "recorded env pb (item_event E_item_started i p) ev"
  let ?ev = "client_event ev"
  let ?item = "\<lparr>ip_itemId = i, ip_kind = k, ip_status = Is_active, ip_text = [], ip_lastSequence = sequence ev\<rparr>"
  let ?m = "m\<lparr>mp_items := AList.update i ?item (mp_items m)\<rparr>"
  have f: "etype ev = E_item_started" "itemId ev = Some i" "i \<noteq> []" "toolCallId ev = None" "approvalId ev = None"
    "map_of (payload ev) ''kind'' = Some (PKind k)"
    using ev assms by (auto simp: recorded_def addressed_def item_types_def status_keys_def)
  have "applyTurn pb ?ev m = (Inr (), m)" using f by (intro applyTurn_other) (simp_all add: terminal_event_type_def)
  moreover have "applyItem ?ev m = (Inr (), ?m)" using f by (simp add: applyItem_def op_defs schemaP_def)
  ultimately have "apply_parts pb ?ev m = (Inr (), ?m)" using f by (intro apply_partsI) (simp_all add: applyToolCall_none applyApproval_none)
  moreover have "mirrors (set_item i Is_active s) ?m" using m f(3) by (auto simp: mirror_defs set_item_def isTerminal_def intro!: list_all_update)
  ultimately show "\<exists>m'. apply_parts pb ?ev m = (Inr (), m') \<and> mp_turnId m' = mp_turnId m \<and> mirrors (set_item i Is_active s) m'" by auto
qed

lemma item_settled_facts:
  assumes "isTerminalItemStatus st"
  shows "itemTerminalStatus (item_settled_event st) = Some st" "item_settled_event st \<in> item_types"
    "item_settled_event st \<noteq> E_item_started" "item_settled_event st \<notin> {E_turn_started, E_turn_blocking_changed}"
    "\<not> terminal_event_type (item_settled_event st)" "transitionItemStatus Is_active st = Inr st"
  using assms by (cases st; simp add: isTerminalItemStatus_def itemTerminalStatus_def item_types_def item_settled_types_def
    terminal_event_type_def transition_defs)+

lemma absorbs_item_settled:
  assumes st: "isTerminalItemStatus st" and i: "item_status s i = Is_active"
  shows "absorbs pb env (item_event (item_settled_event st) i p) s (set_item i st s)"
  unfolding absorbs_def
proof (intro allI impI)
  fix m ev
  assume m: "mirrors s m" and ev: "recorded env pb (item_event (item_settled_event st) i p) ev"
  let ?ev = "client_event ev"
  obtain item where item: "map_of (mp_items m) i = Some item" "ip_status item = Is_active"
    using item_status_mirrored [OF m i] by blast
  have name: "ip_itemId item = i" "i \<noteq> []" using named_item [OF _ item(1)] m by (auto simp: mirrors_def)
  let ?item = "item\<lparr>ip_status := st, ip_text := (case readItemDelta ?ev of None \<Rightarrow> ip_text item | Some s \<Rightarrow> ip_text item @ s),
    ip_lastSequence := sequence ev\<rparr>"
  let ?m = "m\<lparr>mp_items := AList.update i ?item (mp_items m)\<rparr>"
  note facts = item_settled_facts [OF st]
  have f: "etype ev = item_settled_event st" "itemId ev = Some i" "toolCallId ev = None" "approvalId ev = None"
    using ev by (simp_all add: recorded_def)
  have "applyTurn pb ?ev m = (Inr (), m)" using f facts by (intro applyTurn_other) simp_all
  moreover have "applyItem ?ev m = (Inr (), ?m)" using f facts name(2) item by (simp add: applyItem_def op_defs liftP_def)
  ultimately have "apply_parts pb ?ev m = (Inr (), ?m)" using f by (intro apply_partsI) (simp_all add: applyToolCall_none applyApproval_none)
  moreover have "mirrors (set_item i st s) ?m" using m name by (auto simp: mirror_defs set_item_def isTerminal_def intro!: list_all_update)
  ultimately show "\<exists>m'. apply_parts pb ?ev m = (Inr (), m') \<and> mp_turnId m' = mp_turnId m \<and> mirrors (set_item i st s) m'" by auto
qed

text \<open>Tool calls: their events also touch the item that owns them.\<close>

lemma tool_event_parts:
  assumes "mirrors s m" and "etype ev \<in> tool_call_types"
  shows "\<exists>m'. applyTurn pb (client_event ev) m = (Inr (), m) \<and> applyItem (client_event ev) m = (Inr (), m') \<and>
    mp_turnId m' = mp_turnId m \<and> mp_toolCalls m' = mp_toolCalls m \<and> mirrors s m'"
proof -
  have "applyTurn pb (client_event ev) m = (Inr (), m)"
    using assms(2) by (intro applyTurn_other) (auto simp: terminal_event_type_def tool_call_types_def)
  moreover have "\<exists>items. applyItem (client_event ev) m = (Inr (), m\<lparr>mp_items := items\<rparr>) \<and>
      map (map_prod id ip_status) items = item_statuses m \<and> list_all (\<lambda>(i, item). ip_itemId item = i \<and> i \<noteq> []) items"
    using assms by (intro applyItem_touch) (auto simp: mirrors_def tool_call_types_def itemTerminalStatus_def)
  ultimately show ?thesis using assms(1) by (auto simp: mirror_defs)
qed

lemma recorded_tool:
  assumes "recorded env pb (tool_event t i c p) ev" and "t \<in> tool_call_types"
  shows "etype ev = t" "itemId ev = Some i" "toolCallId ev = Some c" "approvalId ev = None" "i \<noteq> []" "c \<noteq> []"
proof -
  have "etype ev = t" "itemId ev = Some i" "toolCallId ev = Some c" "approvalId ev = None" "addressed ev"
    using assms(1) unfolding recorded_def by simp_all
  then show "etype ev = t" "itemId ev = Some i" "toolCallId ev = Some c" "approvalId ev = None" "i \<noteq> []" "c \<noteq> []"
    using assms(2) by (simp_all add: addressed_def)
qed

definition own_call :: "string \<Rightarrow> string \<Rightarrow> 'st lc_state \<Rightarrow> 'st lc_state" where
  "own_call c i s = s\<lparr>lc_toolCallItems := AList.update c i (lc_toolCallItems s)\<rparr>"

lemma absorbs_call_started:
  "absorbs pb env (tool_event E_tool_call_started i c p) s (own_call c i (set_tool_call c Is_active s))"
  unfolding absorbs_def
proof (intro allI impI)
  fix m ev
  assume m: "mirrors s m" and ev: "recorded env pb (tool_event E_tool_call_started i c p) ev"
  let ?ev = "client_event ev" and ?s = "own_call c i (set_tool_call c Is_active s)"
  have type: "E_tool_call_started \<in> tool_call_types" by (simp add: tool_call_types_def)
  note f = recorded_tool [OF ev type]
  obtain m1 where m1: "applyTurn pb ?ev m = (Inr (), m)" "applyItem ?ev m = (Inr (), m1)"
    "mp_turnId m1 = mp_turnId m" "mirrors s m1" using tool_event_parts [OF m, of ev pb] type f(1) by auto
  let ?m = "m1\<lparr>mp_toolCalls := AList.update c \<lparr>cp_toolCallId = c, cp_itemId = i, cp_status = Is_active, cp_outputText = [],
    cp_lastSequence = sequence ev\<rparr> (mp_toolCalls m1)\<rparr>"
  have "applyToolCall ?ev m1 = (Inr (), ?m)" using f by (simp add: applyToolCall_def op_defs)
  with m1 f have "apply_parts pb ?ev m = (Inr (), ?m)" by (intro apply_partsI) (simp_all add: applyApproval_none)
  moreover have "mirrors ?s ?m"
    using m1(4) f by (auto simp: mirror_defs set_tool_call_def own_call_def isTerminal_def intro!: list_all_update)
  ultimately show "\<exists>m'. apply_parts pb ?ev m = (Inr (), m') \<and> mp_turnId m' = mp_turnId m \<and> mirrors ?s m'" using m1(3) by auto
qed

lemma tool_settled_facts:
  assumes "isTerminalItemStatus st"
  shows "toolTerminalStatus (tool_call_settled_event st) = Some st" "tool_call_settled_event st \<in> tool_call_types"
    "tool_call_settled_event st \<noteq> E_tool_call_started" "transitionToolCallStatus Is_active st = Inr st"
  using assms by (cases st; simp add: isTerminalItemStatus_def toolTerminalStatus_def tool_call_types_def transition_defs)+

lemma absorbs_call_settled:
  assumes st: "isTerminalItemStatus st" and c: "active_call s c" "map_of (lc_toolCallItems s) c = Some i"
  shows "absorbs pb env (tool_event (tool_call_settled_event st) i c p) s (set_tool_call c st s)"
  unfolding absorbs_def
proof (intro allI impI)
  fix m ev
  assume m: "mirrors s m" and ev: "recorded env pb (tool_event (tool_call_settled_event st) i c p) ev"
  let ?ev = "client_event ev" and ?s = "set_tool_call c st s"
  note facts = tool_settled_facts [OF st]
  note f = recorded_tool [OF ev facts(2)]
  have type: "etype ev \<in> tool_call_types" using f facts by simp
  obtain m1 where m1: "applyTurn pb ?ev m = (Inr (), m)" "applyItem ?ev m = (Inr (), m1)"
    "mp_turnId m1 = mp_turnId m" "mirrors s m1" using tool_event_parts [OF m type] by blast
  obtain tool where tool: "map_of (mp_toolCalls m1) c = Some tool" "cp_status tool = Is_active" "cp_itemId tool = i"
  proof -
    have "lc_toolCallStatuses s = map (map_prod id cp_status) (mp_toolCalls m1)"
      "lc_toolCallItems s = map (map_prod id cp_itemId) (mp_toolCalls m1)" using m1(4) by (simp_all add: mirror_defs)
    with c that show ?thesis by (auto simp: active_call_def)
  qed
  have named: "cp_toolCallId tool = c" "i \<noteq> []"
    using m1(4) map_of_SomeD [OF tool(1)] tool(3) by (auto simp: mirror_defs list_all_iff)
  let ?tool = "tool\<lparr>cp_status := st, cp_outputText := cp_outputText tool @
    (if etype ev = E_tool_call_output_delta then read_plain_string (map_of (payload ev) ''output'') else []), cp_lastSequence := sequence ev\<rparr>"
  let ?m = "m1\<lparr>mp_toolCalls := AList.update c ?tool (mp_toolCalls m1)\<rparr>"
  have "applyToolCall ?ev m1 = (Inr (), ?m)" using f facts tool by (simp add: applyToolCall_def op_defs liftP_def)
  with m1 f have "apply_parts pb ?ev m = (Inr (), ?m)" by (intro apply_partsI) (simp_all add: applyApproval_none)
  moreover have "mirrors ?s ?m"
    using m1(4) f(6) tool(3) named update_same [OF c(2)] by (auto simp: mirror_defs set_tool_call_def isTerminal_def intro!: list_all_update)
  ultimately show "\<exists>m'. apply_parts pb ?ev m = (Inr (), m') \<and> mp_turnId m' = mp_turnId m \<and> mirrors ?s m'" using m1(3) by auto
qed


text \<open>Approvals.\<close>

lemma recorded_approval:
  assumes "recorded env pb (approval_event t i a p) ev" and "t \<in> approval_types"
  shows "etype ev = t" "itemId ev = Some i" "approvalId ev = Some a" "toolCallId ev = None" "i \<noteq> []" "a \<noteq> []"
    "map_of (payload ev) ''status'' = map_of p ''status''"
proof -
  have "etype ev = t" "itemId ev = Some i" "approvalId ev = Some a" "toolCallId ev = None" "addressed ev"
    "\<forall>k\<in>status_keys. map_of (payload ev) k = map_of p k"
    using assms(1) unfolding recorded_def by simp_all
  then show "etype ev = t" "itemId ev = Some i" "approvalId ev = Some a" "toolCallId ev = None" "i \<noteq> []" "a \<noteq> []"
    "map_of (payload ev) ''status'' = map_of p ''status''"
    using assms(2) by (simp_all add: addressed_def status_keys_def)
qed

lemma approval_event_parts:
  assumes "mirrors s m" and "etype ev \<in> approval_types"
  shows "\<exists>m'. applyTurn pb (client_event ev) m = (Inr (), m) \<and> applyItem (client_event ev) m = (Inr (), m') \<and>
    mp_turnId m' = mp_turnId m \<and> mirrors s m'"
proof -
  have "applyTurn pb (client_event ev) m = (Inr (), m)"
    using assms(2) by (intro applyTurn_other) (auto simp: terminal_event_type_def approval_types_def)
  moreover have "\<exists>items. applyItem (client_event ev) m = (Inr (), m\<lparr>mp_items := items\<rparr>) \<and>
      map (map_prod id ip_status) items = item_statuses m \<and> list_all (\<lambda>(i, item). ip_itemId item = i \<and> i \<noteq> []) items"
    using assms by (intro applyItem_touch) (auto simp: mirrors_def approval_types_def itemTerminalStatus_def)
  ultimately show ?thesis using assms(1) by (auto simp: mirror_defs)
qed

definition own_approval :: "string \<Rightarrow> string \<Rightarrow> 'st lc_state \<Rightarrow> 'st lc_state" where
  "own_approval a i s = s\<lparr>lc_approvalItems := AList.update a i (lc_approvalItems s)\<rparr>"

lemma absorbs_requested:
  "absorbs pb env (approval_event E_approval_requested i a p) s (own_approval a i (set_approval a Ap_pending s))"
  unfolding absorbs_def
proof (intro allI impI)
  fix m ev
  assume m: "mirrors s m" and ev: "recorded env pb (approval_event E_approval_requested i a p) ev"
  let ?ev = "client_event ev" and ?s = "own_approval a i (set_approval a Ap_pending s)"
  have type: "E_approval_requested \<in> approval_types" by (simp add: approval_types_def)
  note f = recorded_approval [OF ev type]
  obtain m1 where m1: "applyTurn pb ?ev m = (Inr (), m)" "applyItem ?ev m = (Inr (), m1)"
    "mp_turnId m1 = mp_turnId m" "mirrors s m1" using approval_event_parts [OF m, of ev pb] type f(1) by auto
  let ?m = "m1\<lparr>mp_approvals := AList.update a \<lparr>ap_approvalId = a, ap_itemId = i, ap_status = Ap_pending,
    ap_lastSequence = sequence ev\<rparr> (mp_approvals m1)\<rparr>"
  have "applyApproval ?ev m1 = (Inr (), ?m)" using f by (simp add: applyApproval_def op_defs)
  with m1 f have "apply_parts pb ?ev m = (Inr (), ?m)" by (intro apply_partsI) (simp_all add: applyToolCall_none)
  moreover have "mirrors ?s ?m"
    using m1(4) f(5,6) by (auto simp: mirror_defs set_approval_def own_approval_def isTerminal_def intro!: list_all_update)
  ultimately show "\<exists>m'. apply_parts pb ?ev m = (Inr (), m') \<and> mp_turnId m' = mp_turnId m \<and> mirrors ?s m'" using m1(3) by auto
qed

lemma transition_decision_name: "transition_decision current (Some (PApproval st)) = transitionApprovalStatus current st"
  by (cases st) (simp_all add: transition_decision_def all_approval_statuses_def Let_def)

lemma absorbs_decided:
  assumes st: "transitionApprovalStatus Ap_pending st = Inr st" and a: "pending_approval s a" "map_of (lc_approvalItems s) a = Some i"
    and p: "map_of p ''status'' = Some (PApproval st)"
  shows "absorbs pb env (approval_event E_approval_decided i a p) s (set_approval a st s)"
  unfolding absorbs_def
proof (intro allI impI)
  fix m ev
  assume m: "mirrors s m" and ev: "recorded env pb (approval_event E_approval_decided i a p) ev"
  let ?ev = "client_event ev" and ?s = "set_approval a st s"
  have type: "E_approval_decided \<in> approval_types" by (simp add: approval_types_def)
  note f = recorded_approval [OF ev type]
  obtain m1 where m1: "applyTurn pb ?ev m = (Inr (), m)" "applyItem ?ev m = (Inr (), m1)"
    "mp_turnId m1 = mp_turnId m" "mirrors s m1" using approval_event_parts [OF m, of ev pb] type f(1) by auto
  obtain cur where cur: "map_of (mp_approvals m1) a = Some cur" "ap_status cur = Ap_pending" "ap_itemId cur = i"
  proof -
    have "lc_approvalStatuses s = map (map_prod id ap_status) (mp_approvals m1)"
      "lc_approvalItems s = map (map_prod id ap_itemId) (mp_approvals m1)" using m1(4) by (simp_all add: mirror_defs)
    with a that show ?thesis by (auto simp: pending_approval_def)
  qed
  have named: "ap_approvalId cur = a"
    using m1(4) map_of_SomeD [OF cur(1)] by (auto simp: mirror_defs list_all_iff)
  let ?m = "m1\<lparr>mp_approvals := AList.update a (cur\<lparr>ap_status := st, ap_lastSequence := sequence ev\<rparr>) (mp_approvals m1)\<rparr>"
  have "applyApproval ?ev m1 = (Inr (), ?m)"
    using f cur st p by (simp add: applyApproval_def op_defs liftP_def transition_decision_name)
  with m1 f have "apply_parts pb ?ev m = (Inr (), ?m)" by (intro apply_partsI) (simp_all add: applyToolCall_none)
  moreover have "mirrors ?s ?m"
    using m1(4) f(5,6) cur(3) named update_same [OF a(2)]
    by (auto simp: mirror_defs set_approval_def isTerminal_def intro!: list_all_update)
  ultimately show "\<exists>m'. apply_parts pb ?ev m = (Inr (), m') \<and> mp_turnId m' = mp_turnId m \<and> mirrors ?s m'" using m1(3) by auto
qed

text \<open>The turn.\<close>

lemma turn_event_parts:
  assumes "recorded env pb (turn_event t p) ev" and "t \<notin> approval_types"
    and "applyTurn pb (client_event ev) m = (Inr (), m1)"
  shows "apply_parts pb (client_event ev) m = (Inr (), m1)"
  using assms by (intro apply_partsI) (auto simp: recorded_def applyItem_none applyToolCall_none applyApproval_none)

lemma absorbs_blocking:
  assumes "pb (Some (PBlocking b)) = Some b" and "blocked_status b (lc_status s) = Inr nxt" and "isTerminalTurnStatus nxt = isTerminal s"
  shows "absorbs pb env (turn_event E_turn_blocking_changed [(''blockingState'', PBlocking b)]) s (s\<lparr>lc_status := nxt, lc_blockingState := b\<rparr>)"
  unfolding absorbs_def
proof (intro allI impI)
  fix m ev
  let ?f = "turn_event E_turn_blocking_changed [(''blockingState'', PBlocking b)]"
  assume m: "mirrors s m" and ev: "recorded env pb ?f ev"
  let ?m = "m\<lparr>mp_blockingState := b, mp_status := nxt\<rparr>"
  have "etype ev = E_turn_blocking_changed" "map_of (payload ev) ''blockingState'' = Some (PBlocking b)"
    using ev by (simp_all add: recorded_def status_keys_def)
  moreover have "mp_status m = lc_status s" using m by (simp add: mirror_defs)
  ultimately have "applyTurn pb (client_event ev) m = (Inr (), ?m)"
    using assms(1,2) by (simp add: applyTurn_def op_defs schemaP_def liftP_def)
  then have "apply_parts pb (client_event ev) m = (Inr (), ?m)"
    by (intro turn_event_parts [OF ev]) (simp_all add: approval_types_def)
  moreover have "mirrors (s\<lparr>lc_status := nxt, lc_blockingState := b\<rparr>) ?m"
    using m assms(3) by (auto simp: mirror_defs isTerminal_def)
  ultimately show "\<exists>m'. apply_parts pb (client_event ev) m = (Inr (), m') \<and> mp_turnId m' = mp_turnId m \<and>
    mirrors (s\<lparr>lc_status := nxt, lc_blockingState := b\<rparr>) m'" by auto
qed

lemma absorbs_started:
  assumes "transitionTurnStatus (lc_status s) Ts_in_progress = Inr Ts_in_progress" and "\<not> isTerminal s"
  shows "absorbs pb env (turn_event E_turn_started p) s (s\<lparr>lc_status := Ts_in_progress\<rparr>)"
  unfolding absorbs_def
proof (intro allI impI)
  fix m ev
  assume m: "mirrors s m" and ev: "recorded env pb (turn_event E_turn_started p) ev"
  let ?r = "read_plain_string (map_of (payload ev) ''revisionOfTurnId'')"
  let ?m = "if ?r = [] then m\<lparr>mp_status := Ts_in_progress\<rparr> else m\<lparr>mp_status := Ts_in_progress, mp_revisionOfTurnId := Some ?r\<rparr>"
  have "etype ev = E_turn_started" using ev by (simp add: recorded_def)
  moreover have "mp_status m = lc_status s" using m by (simp add: mirror_defs)
  ultimately have "applyTurn pb (client_event ev) m = (Inr (), ?m)"
    using assms(1) by (simp add: applyTurn_def op_defs liftP_def Let_def)
  then have "apply_parts pb (client_event ev) m = (Inr (), ?m)"
    by (intro turn_event_parts [OF ev]) (simp_all add: approval_types_def)
  moreover have "mirrors (s\<lparr>lc_status := Ts_in_progress\<rparr>) ?m" "mp_turnId ?m = mp_turnId m"
    using m assms(2) by (auto simp: mirror_defs isTerminal_def)
  ultimately show "\<exists>m'. apply_parts pb (client_event ev) m = (Inr (), m') \<and> mp_turnId m' = mp_turnId m \<and>
    mirrors (s\<lparr>lc_status := Ts_in_progress\<rparr>) m'" by auto
qed

lemma read_outcome_value [simp]: "read_outcome (Some (outcome_value outcome)) = Some outcome"
  by (cases outcome) (simp_all add: failure_value_def)

lemma absorbs_terminal:
  assumes tr: "transitionTurnStatus (lc_status s) (turn_of_terminal (outcome_status outcome)) = Inr (turn_of_terminal (outcome_status outcome))"
    and settled: "settled_work s" and calls: "list_all (\<lambda>(c, st). isTerminalItemStatus st) (lc_toolCallStatuses s)"
  shows "absorbs pb env (turn_event (turn_terminal_event (outcome_status outcome)) [(''outcome'', outcome_value outcome)]) s
    (s\<lparr>lc_status := turn_of_terminal (outcome_status outcome)\<rparr>)"
  unfolding absorbs_def
proof (intro allI impI)
  fix m ev
  let ?st = "outcome_status outcome" and ?t = "turn_of_terminal (outcome_status outcome)"
  assume m: "mirrors s m" and ev: "recorded env pb (turn_event (turn_terminal_event ?st) [(''outcome'', outcome_value outcome)]) ev"
  let ?m = "m\<lparr>mp_status := ?t, mp_terminalOutcome := Some outcome\<rparr>"
  have f: "etype ev = turn_terminal_event ?st" "map_of (payload ev) ''outcome'' = Some (outcome_value outcome)"
    using ev by (simp_all add: recorded_def status_keys_def)
  have view: "mp_status m = lc_status s" "mp_blockingState m = lc_blockingState s" "item_statuses m = lc_itemStatuses s"
    "approval_statuses m = lc_approvalStatuses s" "mp_requests m = []"
    using m by (simp_all add: mirrors_def skeleton_def coordinator_view_def well_named_def)
  have "\<not> unsettled_call tool" if "tool \<in> set (map snd (mp_toolCalls m))" for tool
  proof -
    obtain c where "(c, tool) \<in> set (mp_toolCalls m)" using \<open>tool \<in> _\<close> by auto
    moreover have "lc_toolCallStatuses s = map (map_prod id cp_status) (mp_toolCalls m)" using m by (simp add: mirror_defs)
    ultimately have "(c, cp_status tool) \<in> set (lc_toolCallStatuses s)" by force
    then show ?thesis using calls by (auto simp: list_all_iff unsettled_call_def isTerminalItemStatus_def)
  qed
  then have "List.find unsettled_call (map snd (mp_toolCalls m)) = None" by (simp only: find_None_iff) blast
  then have idle: "assertNoActiveToolsOrRequests m = (Inr (), m)"
    using view(5) by (simp add: assertNoActiveToolsOrRequests_def op_defs)
  have valid: "validateTerminalSettlement \<lparr>ts_turnStatus = ?t, ts_terminalOutcome = Some outcome, ts_blockingState = mp_blockingState m,
      ts_itemStatuses = item_statuses m, ts_approvalStatuses = approval_statuses m\<rparr> = Inr ()"
    using settled view by (simp add: validateTerminalSettlement_Inr settled_work_def)
  have "applyTerminal (client_event ev) m = (Inr (), ?m)"
    using f(2) tr view(1) valid idle by (simp add: applyTerminal_def op_defs liftP_def)
  then have "applyTurn pb (client_event ev) m = (Inr (), ?m)"
    using f(1) by (cases ?st) (simp_all add: applyTurn_def terminal_event_type_def)
  then have "apply_parts pb (client_event ev) m = (Inr (), ?m)"
    by (intro turn_event_parts [OF ev]) (cases ?st; simp add: approval_types_def)+
  moreover have "mirrors (s\<lparr>lc_status := ?t\<rparr>) ?m" using m by (simp add: mirror_defs isTerminal_def)
  ultimately show "\<exists>m'. apply_parts pb (client_event ev) m = (Inr (), m') \<and> mp_turnId m' = mp_turnId m \<and>
    mirrors (s\<lparr>lc_status := ?t\<rparr>) m'" by auto
qed

end
