(* ===== verification/Rebuild_Runs.thy ===== *)
theory Rebuild_Runs
  imports Lifecycle_Rebuild
begin

text \<open>
  Runs of the coordinator whose stored events rebuild the turn: every operation keeps the coordinator and the projection
  of its events in step, as long as the callers do not settle the item of a tool call behind its back.
\<close>

section \<open>Owners of items\<close>

definition holds_call :: "'st lc_state \<Rightarrow> string \<Rightarrow> string \<Rightarrow> bool" where
  "holds_call s c i \<longleftrightarrow> active_call s c \<and> map_of (lc_toolCallItems s) c = Some i"

definition holds_approval :: "'st lc_state \<Rightarrow> string \<Rightarrow> string \<Rightarrow> bool" where
  "holds_approval s a i \<longleftrightarrow> pending_approval s a \<and> map_of (lc_approvalItems s) a = Some i"

definition in_use :: "'st lc_state \<Rightarrow> string \<Rightarrow> bool" where
  "in_use s i \<longleftrightarrow> list_ex (\<lambda>(c, _). holds_call s c i) (lc_toolCallStatuses s)"

definition awaited :: "'st lc_state \<Rightarrow> string \<Rightarrow> bool" where
  "awaited s i \<longleftrightarrow> list_ex (\<lambda>(a, _). holds_approval s a i) (lc_approvalStatuses s)"

lemma in_use_iff: "in_use s i \<longleftrightarrow> (\<exists>c. holds_call s c i)"
  by (auto simp: in_use_def list_ex_iff holds_call_def active_call_def dest: map_of_SomeD)

lemma awaited_iff: "awaited s i \<longleftrightarrow> (\<exists>a. holds_approval s a i)"
  by (auto simp: awaited_def list_ex_iff holds_approval_def pending_approval_def dest: map_of_SomeD)

text \<open>An active call has an active item of its own, and no approval waits on that item.\<close>

definition owned :: "'st lc_state \<Rightarrow> bool" where
  "owned s \<longleftrightarrow> distinct_keys (lc_toolCallStatuses s) \<and> (\<forall>c. map_of (lc_toolCallStatuses s) c \<noteq> Some Is_not_started) \<and>
     (\<forall>c. active_call s c \<longrightarrow> map_of (lc_toolCallItems s) c \<noteq> None) \<and> (\<forall>c i. holds_call s c i \<longrightarrow> item_status s i = Is_active) \<and>
     (\<forall>c d i. holds_call s c i \<longrightarrow> holds_call s d i \<longrightarrow> c = d) \<and> (\<forall>i. in_use s i \<longrightarrow> \<not> awaited s i) \<and>
     (\<forall>a. map_of (lc_approvalItems s) a \<noteq> None \<longrightarrow> map_of (lc_approvalStatuses s) a \<noteq> None)"

lemmas holds_defs = holds_call_def holds_approval_def active_call_def pending_approval_def

lemma own_fields [simp]:
  "lc_status (own_call c i s) = lc_status s" "lc_itemStatuses (own_call c i s) = lc_itemStatuses s"
  "lc_toolCallStatuses (own_call c i s) = lc_toolCallStatuses s" "lc_toolCallItems (own_call c i s) = AList.update c i (lc_toolCallItems s)"
  "lc_approvalStatuses (own_call c i s) = lc_approvalStatuses s" "lc_approvalItems (own_call c i s) = lc_approvalItems s"
  "lc_blockingState (own_call c i s) = lc_blockingState s" "item_status (own_call c i s) j = item_status s j"
  "lc_status (own_approval a i s) = lc_status s" "lc_itemStatuses (own_approval a i s) = lc_itemStatuses s"
  "lc_toolCallStatuses (own_approval a i s) = lc_toolCallStatuses s" "lc_toolCallItems (own_approval a i s) = lc_toolCallItems s"
  "lc_approvalStatuses (own_approval a i s) = lc_approvalStatuses s" "lc_approvalItems (own_approval a i s) = AList.update a i (lc_approvalItems s)"
  "lc_blockingState (own_approval a i s) = lc_blockingState s" "item_status (own_approval a i s) j = item_status s j"
  by (simp_all add: own_call_def own_approval_def item_status_def)

lemma holds_simps [simp]:
  "holds_call (set_item i st s) = holds_call s" "holds_approval (set_item i st s) = holds_approval s"
  "holds_approval (set_tool_call c ist s) = holds_approval s" "holds_approval (own_call c i s) = holds_approval s"
  "holds_call (set_approval a ap s) = holds_call s" "holds_call (own_approval a i s) = holds_call s"
  "holds_call (s\<lparr>lc_status := ts\<rparr>) = holds_call s" "holds_call (s\<lparr>lc_blockingState := b\<rparr>) = holds_call s"
  by (simp_all add: holds_defs fun_eq_iff)

lemma active_simps [simp]:
  "active_call (set_item i st s) = active_call s" "active_call (set_approval a ap s) = active_call s"
  "active_call (own_approval a i s) = active_call s" "active_call (own_call c i s) = active_call s"
  by (simp_all add: active_call_def fun_eq_iff)

lemma owned_view: "coordinator_view s = coordinator_view s' \<Longrightarrow> owned s = owned s'"
  by (simp add: coordinator_view_def owned_def in_use_iff awaited_iff holds_defs item_status_def)

lemma owned_start_item: "owned s \<Longrightarrow> owned (set_item i Is_active s)"
  by (auto simp: owned_def in_use_iff awaited_iff)

lemma owned_settle_item: "owned s \<Longrightarrow> \<not> in_use s i \<Longrightarrow> owned (set_item i st s)"
  by (auto simp: owned_def in_use_iff awaited_iff)

lemma owned_start_call:
  assumes "owned s" and "\<not> in_use s i" and "\<not> awaited s i" and "item_status s i = Is_active"
  shows "owned (own_call c i (set_tool_call c Is_active s))"
proof -
  have "holds_call (own_call c i (set_tool_call c Is_active s)) d j \<longleftrightarrow> (if d = c then j = i else holds_call s d j)" for d j
    by (auto simp: holds_defs)
  moreover have "active_call (own_call c i (set_tool_call c Is_active s)) d \<longleftrightarrow> d = c \<or> active_call s d" for d
    by (auto simp: active_call_def)
  ultimately show ?thesis using assms by (auto simp: owned_def in_use_iff awaited_iff split: if_splits)
qed

lemma holds_settled: "st \<noteq> Is_active \<Longrightarrow> holds_call (set_tool_call c st s) d i \<longleftrightarrow> d \<noteq> c \<and> holds_call s d i"
  by (auto simp: holds_defs)

lemma owned_settle_call: "owned s \<Longrightarrow> isTerminalItemStatus st \<Longrightarrow> owned (set_tool_call c st s)"
proof -
  assume s: "owned s" and "isTerminalItemStatus st"
  then have st: "st \<noteq> Is_active" "st \<noteq> Is_not_started" by (auto simp: isTerminalItemStatus_def)
  then have "active_call (set_tool_call c st s) d \<longleftrightarrow> d \<noteq> c \<and> active_call s d" for d by (auto simp: active_call_def)
  with s st show ?thesis by (auto simp: owned_def in_use_iff awaited_iff holds_settled)
qed

lemma owned_request: "owned s \<Longrightarrow> \<not> in_use s i \<Longrightarrow> owned (own_approval a i (set_approval a Ap_pending s))"
proof -
  assume *: "owned s" "\<not> in_use s i"
  have "holds_approval (own_approval a i (set_approval a Ap_pending s)) b j \<longleftrightarrow> (if b = a then j = i else holds_approval s b j)" for b j
    by (auto simp: holds_defs)
  then show ?thesis using * by (auto simp: owned_def in_use_iff awaited_iff split: if_splits)
qed

lemma owned_decide: "owned s \<Longrightarrow> ap \<noteq> Ap_pending \<Longrightarrow> owned (set_approval a ap s)"
proof -
  assume *: "owned s" "ap \<noteq> Ap_pending"
  have "holds_approval (set_approval a ap s) b j \<longleftrightarrow> b \<noteq> a \<and> holds_approval s b j" for b j using *(2) by (auto simp: holds_defs)
  then show ?thesis using * by (auto simp: owned_def in_use_iff awaited_iff split: if_splits)
qed

lemma owned_turn: "owned (s\<lparr>lc_status := ts\<rparr>) = owned s" "owned (s\<lparr>lc_blockingState := b\<rparr>) = owned s"
  by (simp_all add: owned_def in_use_iff awaited_iff holds_defs item_status_def)

section \<open>A coordinator in step with its events\<close>

definition tracked :: "MemoryLifecycleEventStore lc_options \<Rightarrow> (pval option \<Rightarrow> TurnBlockingState option) \<Rightarrow> MemoryLifecycleEventStore lc_state \<Rightarrow> bool" where
  "tracked env pb s \<longleftrightarrow> in_sync env s \<and> rebuilds pb env (turn_log env s) s \<and> owned s"

lemma tracked_owned: "tracked env pb s \<Longrightarrow> owned s"
  by (simp add: tracked_def)

lemma view_work: "work s = work s' \<Longrightarrow> coordinator_view s = coordinator_view s'"
  by (drule arg_cong [where f = coordinator_view]) (simp add: coordinator_view_def)

lemma view_terminal: "coordinator_view s = coordinator_view s' \<Longrightarrow> isTerminal s = isTerminal s'"
  by (simp add: coordinator_view_def isTerminal_def)

lemma rebuilds_view: "coordinator_view s = coordinator_view s' \<Longrightarrow> rebuilds pb env evs s = rebuilds pb env evs s'"
  using view_terminal [of s s'] by (simp add: rebuilds_def mirrors_def)

text \<open>Emitting an event and recording what it says.\<close>

lemma emit_tracks:
  assumes env: "rebuild_options env pb" and s: "tracked env pb s" and f: "\<not> terminal_event_type (f_type f)"
    and w: "absorbs pb env f s w" "owned w"
    and g: "\<And>s'. coordinator_view s' = coordinator_view s \<Longrightarrow> coordinator_view (g s') = coordinator_view w"
      "\<And>s'. coordinator_view s' = coordinator_view s \<Longrightarrow> in_sync env s' \<Longrightarrow> in_sync env (g s')" "\<And>s'. lc_sink (g s') = lc_sink s'"
    and Q: "\<And>s' ev. tracked env pb s' \<Longrightarrow> coordinator_view s' = coordinator_view w \<Longrightarrow> \<not> isTerminal s \<Longrightarrow> recorded env pb f ev \<Longrightarrow> Q s'"
    and E: "\<And>e s'. tracked env pb s' \<Longrightarrow> E e s'"
  shows "wpE (emit env f) (\<lambda>_ s'. coordinator_view s' = coordinator_view s \<and> Q (g s')) E s"
proof (rule wpE_mono [OF emit_records [OF env _ f]])
  show "in_sync env s" using s by (simp add: tracked_def)
  have log: "rebuilds pb env (turn_log env s) s" "length (turn_log env s) = lc_sequence s"
    using s by (simp_all add: tracked_def log_synced_def)
  show "coordinator_view s' = coordinator_view s \<and> Q (g s')"
    if *: "in_sync env s' \<and> work s' = work s \<and> \<not> isTerminal s \<and> (\<exists>ev. recorded env pb f ev \<and>
      sequence ev = Suc (lc_sequence s) \<and> turn_log env s' = turn_log env s @ [ev])" for s'
  proof -
    obtain ev where ev: "recorded env pb f ev" "sequence ev = Suc (lc_sequence s)" "turn_log env s' = turn_log env s @ [ev]"
      using * by blast
    have same: "coordinator_view s' = coordinator_view s" using * by (intro view_work) simp
    note view = g(1) [OF same]
    have "rebuilds pb env (turn_log env s') w"
      using rebuilds_snoc [OF log(1) _ w(1) ev(1)] ev(2,3) log(2) * by simp
    then have "tracked env pb (g s')"
      using * g(2) [OF same] w(2) g(3) rebuilds_view [OF view] owned_view [OF view] by (simp add: tracked_def)
    then have "Q (g s')" using view _ ev(1) by (rule Q) (use * in simp)
    with same show ?thesis by simp
  qed
  show "E e s'" if *: "in_sync env s' \<and> work s' = work s \<and> turn_log env s' = turn_log env s" for e s'
  proof (rule E)
    have "coordinator_view s' = coordinator_view s" using * by (intro view_work) simp
    from rebuilds_view [OF this, of pb env] owned_view [OF this] show "tracked env pb s'" using s * by (simp add: tracked_def)
  qed
qed

lemma emit_tracked:
  assumes "rebuild_options env pb" and "tracked env pb s" and "\<not> terminal_event_type (f_type f)"
    and "absorbs pb env f s w" "owned w"
    and "\<And>s'. coordinator_view s' = coordinator_view s \<Longrightarrow> coordinator_view (g s') = coordinator_view w"
      "\<And>s'. in_sync env (g s') = in_sync env s'" "\<And>s'. lc_sink (g s') = lc_sink s'"
    and "\<And>s' ev. tracked env pb s' \<Longrightarrow> coordinator_view s' = coordinator_view w \<Longrightarrow> \<not> isTerminal s \<Longrightarrow> recorded env pb f ev \<Longrightarrow> Q s'"
    and "\<And>e s'. tracked env pb s' \<Longrightarrow> E e s'"
  shows "wpE (emit env f) (\<lambda>_ s'. Q (g s')) E s"
proof -
  have "wpE (emit env f) (\<lambda>_ s'. coordinator_view s' = coordinator_view s \<and> Q (g s')) E s"
    using assms(7) by (intro emit_tracks [OF assms(1-5), where g = g and Q = Q]) (assumption | erule assms(6) | blast | rule assms(8-10))+
  then show ?thesis by (rule wpE_mono) simp_all
qed

lemmas emit_only = emit_tracked [where g = "\<lambda>x. x", simplified]


section \<open>Operations\<close>

lemma wp_eta:
  "wpE (returnE x) Q E = Q x" "wpE (throwE e) Q E = E e" "wpE (modifyE g) R E = (\<lambda>s. R () (g s))"
  "wpE (getE h) Q E = (\<lambda>s. Q (h s) s)" "wpE (bindE m f) Q' E = wpE m (\<lambda>x. wpE (f x) Q' E) E"
  "wpE (liftE r) Q E = (case r of Inl e \<Rightarrow> E e | Inr x \<Rightarrow> Q x)" "wpE (whenE b n) R E = (if b then wpE n R E else R ())"
  by (auto simp: fun_eq_iff wp_simps split: sum.splits)

lemma update_views:
  assumes "coordinator_view s' = coordinator_view s"
  shows "coordinator_view (set_item i st s') = coordinator_view (set_item i st s)"
    "coordinator_view (set_tool_call c st s') = coordinator_view (set_tool_call c st s)"
    "coordinator_view (set_approval a ap s') = coordinator_view (set_approval a ap s)"
    "coordinator_view (own_approval a i s') = coordinator_view (own_approval a i s)"
    "coordinator_view (own_call c i s') = coordinator_view (own_call c i s)"
    "coordinator_view (s'\<lparr>lc_status := ts\<rparr>) = coordinator_view (s\<lparr>lc_status := ts\<rparr>)"
    "coordinator_view (s'\<lparr>lc_blockingState := b\<rparr>) = coordinator_view (s\<lparr>lc_blockingState := b\<rparr>)"
  using assms by (simp_all add: coordinator_view_def)

lemma update_frames [simp]:
  "log_synced slog sinv t (own_call c i s) = log_synced slog sinv t s" "log_synced slog sinv t (own_approval a i s) = log_synced slog sinv t s"
  "log_synced slog sinv t (set_item i st s) = log_synced slog sinv t s" "log_synced slog sinv t (set_tool_call c st s) = log_synced slog sinv t s"
  "log_synced slog sinv t (set_approval a ap s) = log_synced slog sinv t s"
  "lc_sink (own_call c i s) = lc_sink s" "lc_sink (own_approval a i s) = lc_sink s" "lc_sink (set_item i st s) = lc_sink s"
  "lc_sink (set_tool_call c st s) = lc_sink s" "lc_sink (set_approval a ap s) = lc_sink s"
  by (simp_all add: log_synced_def isTerminal_def own_call_def own_approval_def set_item_def set_tool_call_def set_approval_def)

lemma view_in_use: "coordinator_view s' = coordinator_view s \<Longrightarrow> in_use s' = in_use s"
  by (simp add: coordinator_view_def in_use_iff holds_defs fun_eq_iff)

lemma view_awaited: "coordinator_view s' = coordinator_view s \<Longrightarrow> awaited s' = awaited s"
  by (simp add: coordinator_view_def awaited_iff holds_defs fun_eq_iff)

lemma use_simps [simp]:
  "in_use (set_item i st s) = in_use s" "awaited (set_item i st s) = awaited s" "in_use (set_approval a ap s) = in_use s"
  "in_use (own_approval a i s) = in_use s" "in_use (s\<lparr>lc_status := ts\<rparr>) = in_use s" "in_use (s\<lparr>lc_blockingState := b\<rparr>) = in_use s"
  by (simp_all add: fun_eq_iff in_use_iff awaited_iff)

lemma emit_plain:
  assumes "rebuild_options env pb" and "tracked env pb s" and "plain_type (f_type f)"
    and "\<And>s'. tracked env pb s' \<Longrightarrow> coordinator_view s' = coordinator_view s \<Longrightarrow> Q () s'" and "\<And>e s'. tracked env pb s' \<Longrightarrow> E e s'"
  shows "wpE (emit env f) Q E s"
proof -
  have "owned s" "\<not> terminal_event_type (f_type f)" using assms(2,3) by (simp_all add: tracked_def plain_type_def)
  from emit_only [OF assms(1,2) this(2) absorbs_plain [OF assms(3)] this(1), of "Q ()" E] assms(4,5)
  have "wpE (emit env f) (\<lambda>_. Q ()) E s" by blast
  then show ?thesis by (rule wpE_mono) simp_all
qed

lemma startItem_tracked:
  assumes "rebuild_options env pb" and "tracked env pb s"
    and "\<And>s'. tracked env pb s' \<Longrightarrow> coordinator_view s' = coordinator_view (set_item i Is_active s) \<Longrightarrow> Q () s'"
    and "\<And>e s'. tracked env pb s' \<Longrightarrow> E e s'"
  shows "wpE (startItem env i kind p) Q E s"
proof -
  let ?f = "item_event E_item_started i (AList.update ''kind'' (PKind kind) p)"
  have "wpE (emit env ?f) (\<lambda>_ s'. Q () (set_item i Is_active s')) E s"
    by (rule emit_tracked [OF assms(1,2) _ absorbs_item_started owned_start_item, where Q = "Q ()" and g = "set_item i Is_active"])
      (rule update_views assms(3,4) tracked_owned [OF assms(2)] | assumption | simp add: terminal_event_type_def)+
  then show ?thesis by (simp add: startItem_def wp_eta transition_defs)
qed

lemma settleItem_tracked:
  assumes "rebuild_options env pb" and "tracked env pb s" and st: "isTerminalItemStatus st" and "\<not> in_use s i"
    and "\<And>s'. tracked env pb s' \<Longrightarrow> coordinator_view s' = coordinator_view (set_item i st s) \<Longrightarrow> Q () s'"
    and "\<And>e s'. tracked env pb s' \<Longrightarrow> E e s'"
  shows "wpE (settleItem env i st p) Q E s"
proof (cases "item_status s i = Is_active")
  case True
  have "wpE (emit env (item_event (item_settled_event st) i p)) (\<lambda>_ s'. Q () (set_item i st s')) E s"
    by (rule emit_tracked [OF assms(1,2) _ absorbs_item_settled [OF st True] owned_settle_item, where Q = "Q ()" and g = "set_item i st"])
      (rule update_views assms(4-6) tracked_owned [OF assms(2)] | assumption | simp add: settled_event_types)+
  then show ?thesis using True by (simp add: settleItem_def wp_eta item_settled_facts [OF st])
next
  case False
  then have "\<exists>e. transitionItemStatus (item_status s i) st = Inl e"
    using st by (cases "item_status s i"; cases st) (simp_all add: transition_defs isTerminalItemStatus_def)
  then show ?thesis using assms(2,6) by (auto simp: settleItem_def wp_simps)
qed

lemma requireActiveToolCall_wp:
  assumes "active_call s c \<Longrightarrow> Q Is_active s" and "\<And>e. E e s"
  shows "wpE (requireActiveToolCall c) Q E s"
proof -
  have "\<exists>e. transitionToolCallStatus st Is_completed = Inl e" if "st \<noteq> Is_active" for st
    using that by (cases st) (simp_all add: transition_defs)
  then show ?thesis using assms
    by (cases "map_of (lc_toolCallStatuses s) c") (fastforce simp: wpE_def requireActiveToolCall_def op_defs active_call_def)+
qed

lemma settleToolCall_tracked:
  assumes "rebuild_options env pb" and s: "tracked env pb s" and st: "isTerminalItemStatus st"
    and Q: "\<And>s'. tracked env pb s' \<Longrightarrow> (\<And>d. active_call s' d \<longleftrightarrow> d \<noteq> c \<and> active_call s d) \<Longrightarrow> Q () s'"
    and E: "\<And>e s'. tracked env pb s' \<Longrightarrow> E e s'"
  shows "wpE (settleToolCall env c st p) Q E s"
proof -
  have own: "owned s" by (rule tracked_owned [OF s])
  have settled: "wpE (emit env (tool_event (tool_call_settled_event st) i c q)) (\<lambda>_ s'. wpE (settleItem env i st p) Q E (set_tool_call c st s')) E s"
    if c: "active_call s c" "map_of (lc_toolCallItems s) c = Some i" for i q
  proof -
    let ?s = "set_tool_call c st s"
    have item: "wpE (settleItem env i st p) Q E s1" if s1: "tracked env pb s1" "coordinator_view s1 = coordinator_view ?s" for s1
    proof (rule settleItem_tracked [OF assms(1) s1(1) st])
      have "holds_call s c i" using c by (simp add: holds_call_def)
      then have "\<not> in_use ?s i" using own st by (auto simp: in_use_iff holds_settled isTerminalItemStatus_def owned_def)
      then show "\<not> in_use s1 i" using view_in_use [OF s1(2)] by simp
      fix s2
      assume s2: "tracked env pb s2" "coordinator_view s2 = coordinator_view (set_item i st s1)"
      then have "lc_toolCallStatuses s2 = AList.update c st (lc_toolCallStatuses s)" using s1(2) by (simp add: coordinator_view_def)
      then show "Q () s2" using st by (intro Q s2) (auto simp: active_call_def isTerminalItemStatus_def)
    qed (rule E)
    show ?thesis
      by (rule emit_tracked [OF assms(1) s _ absorbs_call_settled [OF st c] owned_settle_call [OF own st],
            where Q = "wpE (settleItem env i st p) Q E" and g = "set_tool_call c st"])
        (rule update_views item E | assumption | simp add: settled_event_types)+
  qed
  show ?thesis
    unfolding settleToolCall_def wpE_bind
    by (rule requireActiveToolCall_wp; cases "map_of (lc_toolCallItems s) c")
      (use settled E [OF s] in \<open>auto simp: requireToolCallItem_def tool_settled_facts [OF st] wp_eta\<close>)
qed


lemma changeBlocking_wp:
  "wpE (changeBlocking env b) Q E s = wpE (emit env (turn_event E_turn_blocking_changed [(''blockingState'', PBlocking b)]))
     (\<lambda>_ s'. case blocked_status b (lc_status s') of Inl e \<Rightarrow> E e s' | Inr n \<Rightarrow> Q () (s'\<lparr>lc_status := n, lc_blockingState := b\<rparr>)) E s"
proof -
  have same: "s'\<lparr>lc_status := lc_status s', lc_blockingState := b\<rparr> = s'\<lparr>lc_blockingState := b\<rparr>" for s' :: "'a lc_state" by simp
  have "wpE (block [bindE (getE lc_status) (\<lambda>status.
       if blocking_kind b = ''waiting_for_approval''
       then bindE (liftE (transitionTurnStatus status Ts_awaiting_approval)) (\<lambda>nxt. modifyE (\<lambda>s. s\<lparr>lc_status := nxt\<rparr>))
       else whenE (status = Ts_awaiting_approval)
              (bindE (liftE (transitionTurnStatus status Ts_in_progress)) (\<lambda>nxt. modifyE (\<lambda>s. s\<lparr>lc_status := nxt\<rparr>)))),
     modifyE (\<lambda>s. s\<lparr>lc_blockingState := b\<rparr>)]) Q E = (\<lambda>s'. case blocked_status b (lc_status s') of
       Inl e \<Rightarrow> E e s' | Inr n \<Rightarrow> Q () (s'\<lparr>lc_status := n, lc_blockingState := b\<rparr>))"
    by (rule ext) (simp add: wp_eta wp_simps blocked_status_def same split: sum.splits)
  then show ?thesis by (simp add: changeBlocking_def wpE_block_Cons del: block.simps)
qed

lemma changeBlocking_tracked:
  assumes env: "rebuild_options env pb" and s: "tracked env pb s" and pb: "pb (Some (PBlocking b)) = Some b"
    and nxt: "blocked_status b (lc_status s) = Inr nxt" "isTerminalTurnStatus nxt = isTerminal s"
    and Q: "\<And>s'. tracked env pb s' \<Longrightarrow> coordinator_view s' = coordinator_view (s\<lparr>lc_status := nxt, lc_blockingState := b\<rparr>) \<Longrightarrow> Q () s'"
    and E: "\<And>e s'. tracked env pb s' \<Longrightarrow> E e s'"
  shows "wpE (changeBlocking env b) Q E s"
proof -
  let ?g = "\<lambda>s. s\<lparr>lc_status := if isTerminal s then lc_status s else nxt, lc_blockingState := b\<rparr>"
  let ?w = "s\<lparr>lc_status := nxt, lc_blockingState := b\<rparr>"
  have fixed: "nxt = lc_status s" if "isTerminal s"
    using nxt that by (cases "lc_status s") (auto simp: isTerminal_def blocked_status_def transition_defs split: if_splits)
  have "wpE (emit env (turn_event E_turn_blocking_changed [(''blockingState'', PBlocking b)]))
      (\<lambda>_ s'. coordinator_view s' = coordinator_view s \<and> Q () (?g s')) E s"
  proof (rule emit_tracks [OF env s _ absorbs_blocking [where pb = pb, OF pb nxt], where Q = "Q ()" and g = ?g])
    fix s' :: "MemoryLifecycleEventStore lc_state"
    assume view: "coordinator_view s' = coordinator_view s"
    then have "isTerminal s' = isTerminal s" "lc_status s' = lc_status s" using view_terminal by (auto simp: coordinator_view_def)
    then show "coordinator_view (?g s') = coordinator_view ?w" and "in_sync env s' \<Longrightarrow> in_sync env (?g s')"
      using view fixed nxt(2) by (auto simp: coordinator_view_def log_synced_def isTerminal_def)
  qed (use Q E tracked_owned [OF s] in \<open>simp_all add: terminal_event_type_def owned_turn\<close>)
  then show ?thesis
    unfolding changeBlocking_wp
  proof (rule wpE_mono)
    fix s' :: "MemoryLifecycleEventStore lc_state"
    assume *: "coordinator_view s' = coordinator_view s \<and> Q () (?g s')"
    then have "isTerminal s' = isTerminal s" "lc_status s' = lc_status s" using view_terminal by (auto simp: coordinator_view_def)
    then have "?g s' = s'\<lparr>lc_status := nxt, lc_blockingState := b\<rparr>" using fixed by auto
    with * nxt(1) \<open>lc_status s' = lc_status s\<close> show "case blocked_status b (lc_status s') of Inl e \<Rightarrow> E e s'
      | Inr n \<Rightarrow> Q () (s'\<lparr>lc_status := n, lc_blockingState := b\<rparr>)" by simp
  qed
qed


lemma requestApproval_tracked:
  assumes env: "rebuild_options env pb" and s: "tracked env pb s" and i: "\<not> in_use s i" and st: "isTerminal s \<or> lc_status s = Ts_in_progress"
  shows "wpE (requestApproval env parent a i p) (\<lambda>_. tracked env pb) (\<lambda>_. tracked env pb) s"
proof -
  let ?T = "\<lambda>_. tracked env pb" and ?b = "Waiting_for_approval i a"
  have "wpE (emit env (approval_event E_approval_requested i a p))
      (\<lambda>_ s'. wpE (changeBlocking env ?b) ?T ?T (own_approval a i (set_approval a Ap_pending s'))) ?T s1"
    if s1: "tracked env pb s1" "coordinator_view s1 = coordinator_view (set_item i Is_active s)" for s1
  proof (rule emit_tracked [OF env s1(1) _ absorbs_requested, where Q = "wpE (changeBlocking env ?b) ?T ?T"
        and g = "\<lambda>s. own_approval a i (set_approval a Ap_pending s)"])
    show "owned (own_approval a i (set_approval a Ap_pending s1))"
      using i view_in_use [OF s1(2)] by (intro owned_request tracked_owned [OF s1(1)]) simp
    fix s2 ev
    assume s2: "tracked env pb s2" "coordinator_view s2 = coordinator_view (own_approval a i (set_approval a Ap_pending s1))"
      "\<not> isTerminal s1" "recorded env pb (approval_event E_approval_requested i a p) ev"
    have "lc_status s1 = Ts_in_progress" using st s1(2) s2(3) by (auto simp: coordinator_view_def isTerminal_def)
    then have status: "lc_status s2 = Ts_in_progress" using s2(2) by (simp add: coordinator_view_def)
    show "wpE (changeBlocking env ?b) ?T ?T s2"
      using s2(4) status by (intro changeBlocking_tracked [OF env s2(1), where nxt = Ts_awaiting_approval])
        (simp_all add: recorded_def blocked_status_def transition_defs isTerminal_def)
  qed ((intro update_views, assumption) | simp add: terminal_event_type_def)+
  then show ?thesis
    unfolding requestApproval_def wpE_block_Cons
    by (intro startItem_tracked [OF env s]) (simp_all add: wp_eta own_approval_def)
qed

lemma requireApprovalItem_wp:
  "wpE (requireApprovalItem a) Q E s \<longleftrightarrow> (case map_of (lc_approvalItems s) a of
     Some i \<Rightarrow> if i = [] then E (LifecycleTransitionError Sub_approval ''missing'' ''decided'' (''approval '' @ a @ '' has no owning item'')) s else Q i s
   | None \<Rightarrow> E (LifecycleTransitionError Sub_approval ''missing'' ''decided'' (''approval '' @ a @ '' has no owning item'')) s)"
  by (simp add: requireApprovalItem_def wp_simps split: option.splits)

lemma unblocked_status:
  "blocked_status Blocking_none ts = Inr (if ts = Ts_awaiting_approval then Ts_in_progress else ts)"
  by (simp add: blocked_status_def transition_defs)

text \<open>The two ways out of \<open>decideApproval\<close>: it throws at once, or it records a decision of a pending approval.\<close>

lemma decideApproval_wp:
  assumes own: "owned s" and E: "\<And>e. E e s"
    and decided: "\<And>i. pending_approval s a \<Longrightarrow> map_of (lc_approvalItems s) a = Some i \<Longrightarrow> transitionApprovalStatus Ap_pending st = Inr st \<Longrightarrow>
      wpE (emit env (approval_event E_approval_decided i a (AList.update ''status'' (PApproval st) p)))
        (\<lambda>_ s'. wpE (changeBlocking env Blocking_none) (\<lambda>_. wpE (requireApprovalItem a)
          (\<lambda>i. wpE (settleItem env i (if st = Ap_approved then Is_completed else Is_declined)
            (if st = Ap_approved then [(''result'', PObj [])] else [(''reason'', PStr (''Approval '' @ approval_status_name st))])) Q E) E) E
          (set_approval a st s')) E s"
  shows "wpE (decideApproval env a st p) Q E s"
proof -
  have pending: "map_of (lc_approvalStatuses s) a = None \<Longrightarrow> map_of (lc_approvalItems s) a = None"
    using own by (auto simp: owned_def)
  have target: "cur = Ap_pending \<and> nxt = st" if "transitionApprovalStatus cur st = Inr nxt" for cur nxt
    using that by (cases cur) (auto simp: transition_defs split: if_splits)
  let ?cur = "case map_of (lc_approvalStatuses s) a of None \<Rightarrow> Ap_pending | Some x \<Rightarrow> x"
  show ?thesis
  proof (cases "transitionApprovalStatus ?cur st")
    case (Inl e)
    then show ?thesis using E by (simp add: decideApproval_def wp_eta)
  next
    case (Inr nxt)
    note t = target [OF this]
    show ?thesis
    proof (cases "truthy (map_of (lc_approvalItems s) a)")
      case True
      then obtain i where i: "map_of (lc_approvalItems s) a = Some i" "i \<noteq> []" by (cases "map_of (lc_approvalItems s) a") auto
      have "pending_approval s a" using t i(1) pending by (auto simp: pending_approval_def split: option.splits)
      moreover have "transitionApprovalStatus Ap_pending st = Inr st" using t Inr by simp
      ultimately show ?thesis
        using decided [OF _ i(1)] i t Inr by (simp add: decideApproval_def wp_eta requireApprovalItem_wp)
    next
      case False
      then show ?thesis using E Inr
        by (cases "map_of (lc_approvalItems s) a") (simp_all add: decideApproval_def wp_eta requireApprovalItem_wp)
    qed
  qed
qed

lemma decideApproval_tracked:
  assumes env: "rebuild_options env pb" and s: "tracked env pb s"
  shows "wpE (decideApproval env a st p) (\<lambda>_. tracked env pb) (\<lambda>_. tracked env pb) s"
proof -
  let ?T = "\<lambda>_. tracked env pb"
  let ?ist = "if st = Ap_approved then Is_completed else Is_declined"
  have own: "owned s" by (rule tracked_owned [OF s])
  have item: "wpE (settleItem env i ?ist q) ?T ?T s'" if "tracked env pb s'" "\<not> in_use s' i" for s' i q
    using that by (intro settleItem_tracked [OF env]) (simp_all add: isTerminalItemStatus_def)
  have tail: "wpE (changeBlocking env Blocking_none) (\<lambda>_. wpE (requireApprovalItem a) (\<lambda>i. wpE (settleItem env i ?ist q) ?T ?T) ?T) ?T s'"
    if s': "tracked env pb s'" "map_of (lc_approvalItems s') a = Some i" "\<not> in_use s' i" for s' i q
  proof (rule changeBlocking_tracked [OF env s'(1) _ unblocked_status])
    show "pb (Some (PBlocking Blocking_none)) = Some Blocking_none" using env by (simp add: rebuild_options_def projector_schema_def)
    fix s2
    assume s2: "tracked env pb s2" "coordinator_view s2 = coordinator_view (s'\<lparr>lc_status := if lc_status s' = Ts_awaiting_approval
      then Ts_in_progress else lc_status s', lc_blockingState := Blocking_none\<rparr>)"
    have "\<not> in_use s2 i" using view_in_use [OF s2(2)] s'(3) by simp
    moreover have "map_of (lc_approvalItems s2) a = Some i" using s2(2) s'(2) by (simp add: coordinator_view_def)
    ultimately show "wpE (requireApprovalItem a) (\<lambda>i. wpE (settleItem env i ?ist q) ?T ?T) ?T s2"
      using s2(1) item by (simp add: requireApprovalItem_wp)
  qed (auto simp: isTerminal_def)
  have decided: "wpE (emit env (approval_event E_approval_decided i a (AList.update ''status'' (PApproval st) p)))
      (\<lambda>_ s'. wpE (changeBlocking env Blocking_none) (\<lambda>_. wpE (requireApprovalItem a) (\<lambda>i. wpE (settleItem env i ?ist q) ?T ?T) ?T) ?T
        (set_approval a st s')) ?T s"
    if a: "pending_approval s a" "map_of (lc_approvalItems s) a = Some i" and tr: "transitionApprovalStatus Ap_pending st = Inr st" for i q
  proof (rule emit_tracked [OF env s _ absorbs_decided [OF tr a], where g = "set_approval a st" and
        Q = "wpE (changeBlocking env Blocking_none) (\<lambda>_. wpE (requireApprovalItem a) (\<lambda>i. wpE (settleItem env i ?ist q) ?T ?T) ?T) ?T"])
    have "st \<noteq> Ap_pending" using tr by (auto simp: transition_defs)
    then show "owned (set_approval a st s)" by (rule owned_decide [OF own])
    have "awaited s i" using a by (auto simp: awaited_iff holds_approval_def)
    then have free: "\<not> in_use s i" using own by (auto simp: owned_def)
    fix s'
    assume s': "tracked env pb s'" "coordinator_view s' = coordinator_view (set_approval a st s)"
    show "wpE (changeBlocking env Blocking_none) (\<lambda>_. wpE (requireApprovalItem a) (\<lambda>i. wpE (settleItem env i ?ist q) ?T ?T) ?T) ?T s'"
      using s' free view_in_use [OF s'(2)] a(2) by (intro tail) (simp_all add: coordinator_view_def)
  qed ((intro update_views, assumption) | simp add: terminal_event_type_def)+
  show ?thesis by (rule decideApproval_wp [OF own]) (use s decided in simp_all)
qed


lemma cancelPendingApprovals_tracked:
  "rebuild_options env pb \<Longrightarrow> keeps (tracked env pb) (cancelPendingApprovals env r)"
  unfolding cancelPendingApprovals_def
  by (intro keeps_rules) (simp add: keeps_wp decideApproval_tracked)

text \<open>Open calls are settled before open items, so no item is settled while a call uses it.\<close>

lemma settleOpenWork_wp:
  assumes s: "I s"
    and calls: "\<And>c s'. I s' \<Longrightarrow> wpE (settleToolCall env c st p) (\<lambda>_ s''. I s'' \<and> (\<forall>d. active_call s'' d \<longleftrightarrow> d \<noteq> c \<and> active_call s' d)) E s'"
    and items: "\<And>i s'. I s' \<Longrightarrow> \<forall>c. \<not> active_call s' c \<Longrightarrow> wpE (settleItem env i st p) (\<lambda>_ s''. I s'' \<and> (\<forall>c. \<not> active_call s'' c)) E s'"
    and Q: "\<And>s'. I s' \<Longrightarrow> Q () s'"
  shows "wpE (settleOpenWork env st p) Q E s"
proof -
  let ?call = "\<lambda>(c, current). whenE (current = Is_active) (settleToolCall env c st p)"
  let ?item = "\<lambda>(i, current). whenE (current = Is_active) (settleItem env i st p)"
  have all_calls: "wpE (forE (lc_toolCallStatuses s) ?call) (\<lambda>_ s'. I s' \<and> (\<forall>c. \<not> active_call s' c)) E s"
  proof (rule wpE_for_inv [where I = "\<lambda>zs s'. I s' \<and> (\<forall>c. active_call s' c \<longrightarrow> (c, Is_active) \<in> set zs)"])
    fix y :: "string \<times> ItemStatus" and zs s'
    assume inv: "I s' \<and> (\<forall>c. active_call s' c \<longrightarrow> (c, Is_active) \<in> set (y # zs))"
    obtain c x where y: "y = (c, x)" by force
    show "wpE (?call y) (\<lambda>_ s'. I s' \<and> (\<forall>c. active_call s' c \<longrightarrow> (c, Is_active) \<in> set zs)) E s'"
    proof (cases "x = Is_active")
      case True
      have "wpE (settleToolCall env c st p) (\<lambda>_ s'. I s' \<and> (\<forall>c. active_call s' c \<longrightarrow> (c, Is_active) \<in> set zs)) E s'"
        by (rule wpE_mono [OF calls]) (use inv y in auto)
      then show ?thesis using y True by (simp add: wpE_when)
    qed (use inv y in \<open>auto simp: wpE_when\<close>)
  qed (use s in \<open>auto simp: active_call_def dest: map_of_SomeD\<close>)
  have all_items: "wpE (forE is ?item) (\<lambda>_ s'. I s' \<and> (\<forall>c. \<not> active_call s' c)) E s1"
    if "I s1 \<and> (\<forall>c. \<not> active_call s1 c)" for "is" s1
    by (rule wpE_for_inv [where I = "\<lambda>_ s'. I s' \<and> (\<forall>c. \<not> active_call s' c)"])
      (use that items in \<open>auto simp: wpE_when split: prod.splits\<close>)
  show ?thesis
    unfolding settleOpenWork_def wpE_block_Cons wpE_block_Nil wpE_bind wpE_get
    by (rule wpE_mono [OF all_calls], rule wpE_mono [OF all_items]) (use Q in auto)
qed

lemma idle_free: "\<forall>c. \<not> active_call s c \<Longrightarrow> \<not> in_use s i"
  by (simp add: in_use_iff holds_call_def)

lemma view_active: "coordinator_view s' = coordinator_view s \<Longrightarrow> active_call s' = active_call s"
  by (simp add: coordinator_view_def active_call_def fun_eq_iff)

lemma settleOpenWork_tracked:
  assumes env: "rebuild_options env pb" and s: "tracked env pb s" and st: "isTerminalItemStatus st"
  shows "wpE (settleOpenWork env st p) (\<lambda>_. tracked env pb) (\<lambda>_. tracked env pb) s"
proof (rule settleOpenWork_wp [where I = "tracked env pb"])
  fix i :: string and s'
  assume "tracked env pb s'" "\<forall>c. \<not> active_call s' c"
  then show "wpE (settleItem env i st p) (\<lambda>_ s''. tracked env pb s'' \<and> (\<forall>c. \<not> active_call s'' c)) (\<lambda>_. tracked env pb) s'"
    by (intro settleItem_tracked [OF env _ st idle_free]) (auto dest: view_active)
qed (use s settleToolCall_tracked [OF env _ st] in simp_all)

text \<open>The batches that start and settle the turn.\<close>

lemma settleTurn_records:
  assumes env: "rebuild_options env pb" and s: "in_sync env s" "\<not> isTerminal s"
  shows "wpE (settleTurn env outcome) (\<lambda>_ s'. settled_work s \<and> (\<exists>ev1 ev2. let st = outcome_status outcome in
      transitionTurnStatus (lc_status s) (turn_of_terminal st) = Inr (turn_of_terminal st) \<and>
      recorded env pb (turn_event (attempt_terminal_event st) (attempt_payload outcome)) ev1 \<and>
      recorded env pb (turn_event (turn_terminal_event st) [(''outcome'', outcome_value outcome)]) ev2 \<and>
      sequence ev1 = Suc (lc_sequence s) \<and> sequence ev2 = Suc (Suc (lc_sequence s)) \<and>
      turn_log env s' = turn_log env s @ [ev1, ev2] \<and> coordinator_view s' = coordinator_view (s\<lparr>lc_status := turn_of_terminal st\<rparr>)))
    (\<lambda>_ s'. coordinator_view s' = coordinator_view s \<and> turn_log env s' = turn_log env s) s"
proof -
  note sink = rebuild_sink [OF env]
  let ?st = "outcome_status outcome"
  have c: "contiguous_stream (opt_turnId env) (turn_log env s @ [ev1, ev2])"
    if "recorded env pb (turn_event (attempt_terminal_event ?st) (attempt_payload outcome)) ev1"
      "recorded env pb (turn_event (turn_terminal_event ?st) [(''outcome'', outcome_value outcome)]) ev2"
      "sequence ev1 = Suc (lc_sequence s)" "sequence ev2 = Suc (Suc (lc_sequence s))" for ev1 ev2
    using that by (intro lifecycle_sink.contiguous_next [OF sink(1) s])
      (cases ?st; auto simp: recorded_def terminal_event_type_def upt_rec)+
  have inv: "canonical_store (lc_sink s)" using s(1) by (simp add: log_synced_def)
  show ?thesis
    unfolding settleTurn_def wp_simps Let_def
    using s(2) inv
    by (auto simp: wp_simps transition_def transitionTurnStatus_def transitionRunAttemptStatus_def validateTerminalSettlement_Inr settled_work_def coordinator_view_def
        split: sum.splits if_splits intro!: wpE_createEvent_recorded [OF env]
        lifecycle_sink.wpE_appendTerminalBatch_next [OF sink, where t = "opt_turnId env"] c)
qed


lemma settled_calls:
  assumes "owned s" and "settled_work s"
  shows "list_all (\<lambda>(c, st). isTerminalItemStatus st) (lc_toolCallStatuses s)"
proof (simp only: list_all_iff, clarify)
  fix c st
  assume "(c, st) \<in> set (lc_toolCallStatuses s)"
  then have c: "map_of (lc_toolCallStatuses s) c = Some st" using assms(1) by (simp add: owned_def)
  have "st \<noteq> Is_active"
  proof
    assume "st = Is_active"
    then have "active_call s c" using c by (simp add: active_call_def)
    moreover from this obtain i where "map_of (lc_toolCallItems s) c = Some i" using assms(1) by (auto simp: owned_def)
    ultimately have "item_status s i = Is_active" using assms(1) by (auto simp: owned_def holds_call_def)
    then have "(i, Is_active) \<in> set (lc_itemStatuses s)" by (auto simp: item_status_def split: option.splits dest: map_of_SomeD)
    then show False using assms(2) by (auto simp: settled_work_def list_all_iff isTerminalItemStatus_def)
  qed
  then show "isTerminalItemStatus st" using c assms(1) by (auto simp: owned_def isTerminalItemStatus_def)
qed

lemma attempt_plain: "plain_type (attempt_terminal_event st)"
  by (cases st) (simp_all add: plain_type_def item_types_def item_settled_types_def approval_types_def terminal_event_type_def toolTerminalStatus_def)

lemma trackedE:
  assumes "tracked env pb s"
  obtains "in_sync env s" and "rebuilds pb env (turn_log env s) s" and "owned s" and "length (turn_log env s) = lc_sequence s"
  using assms by (auto simp: tracked_def log_synced_def)

lemma settleTurn_tracked:
  assumes env: "rebuild_options env pb"
  shows "keeps (tracked env pb) (settleTurn env outcome)"
proof (rule keeps_via_wp)
  fix s
  assume s: "tracked env pb s"
  show "wpE (settleTurn env outcome) (\<lambda>_. tracked env pb) (\<lambda>_. tracked env pb) s"
  proof (cases "isTerminal s")
    case True
    then show ?thesis using s by (simp add: settleTurn_def wp_simps)
  next
    case False
    have sync: "wpE (settleTurn env outcome) (\<lambda>_. in_sync env) (\<lambda>_. in_sync env) s"
      using lifecycle_sink.settleTurn_synced [OF rebuild_sink [OF env]] s by (simp add: keeps_wp tracked_def)
    from s obtain "in_sync env s" and log: "rebuilds pb env (turn_log env s) s" "owned s" "length (turn_log env s) = lc_sequence s"
      by (rule trackedE)
    note records = settleTurn_records [OF env \<open>in_sync env s\<close> False, where outcome = outcome, unfolded Let_def]
    let ?st = "outcome_status outcome" and ?s = "s\<lparr>lc_status := turn_of_terminal (outcome_status outcome)\<rparr>"
    have rebuilt: "rebuilds pb env (turn_log env s @ [ev1, ev2]) ?s"
      if "settled_work s" and tr: "transitionTurnStatus (lc_status s) (turn_of_terminal ?st) = Inr (turn_of_terminal ?st)"
        and ev: "recorded env pb (turn_event (attempt_terminal_event ?st) (attempt_payload outcome)) ev1"
          "recorded env pb (turn_event (turn_terminal_event ?st) [(''outcome'', outcome_value outcome)]) ev2"
          "sequence ev1 = Suc (lc_sequence s)" "sequence ev2 = Suc (Suc (lc_sequence s))" for ev1 ev2
    proof -
      have "rebuilds pb env (turn_log env s @ [ev1]) s"
        using log ev(3) by (intro rebuilds_snoc [OF log(1) False absorbs_plain ev(1)]) (simp_all add: attempt_plain)
      moreover have "absorbs pb env (turn_event (turn_terminal_event ?st) [(''outcome'', outcome_value outcome)]) s ?s"
        using that(1) settled_calls [OF log(2)] by (intro absorbs_terminal tr) simp_all
      ultimately have "rebuilds pb env ((turn_log env s @ [ev1]) @ [ev2]) ?s"
        using ev(4) log(3) by (intro rebuilds_snoc [OF _ False _ ev(2)]) simp_all
      then show ?thesis by simp
    qed
    show ?thesis
    proof (rule wpE_mono [OF wpE_conj [OF records sync]])
      fix s'
      assume "(settled_work s \<and> (\<exists>ev1 ev2. transitionTurnStatus (lc_status s) (turn_of_terminal ?st) = Inr (turn_of_terminal ?st) \<and>
        recorded env pb (turn_event (attempt_terminal_event ?st) (attempt_payload outcome)) ev1 \<and>
        recorded env pb (turn_event (turn_terminal_event ?st) [(''outcome'', outcome_value outcome)]) ev2 \<and>
        sequence ev1 = Suc (lc_sequence s) \<and> sequence ev2 = Suc (Suc (lc_sequence s)) \<and>
        turn_log env s' = turn_log env s @ [ev1, ev2] \<and> coordinator_view s' = coordinator_view ?s)) \<and> in_sync env s'"
      then have "rebuilds pb env (turn_log env s') ?s" and view: "coordinator_view s' = coordinator_view ?s" and "in_sync env s'"
        using rebuilt by auto
      then show "tracked env pb s'"
        using rebuilds_view [OF view, of pb env] owned_view [OF view] log(2) by (simp add: tracked_def owned_turn)
    next
      fix s'
      assume *: "(coordinator_view s' = coordinator_view s \<and> turn_log env s' = turn_log env s) \<and> in_sync env s'"
      then have view: "coordinator_view s' = coordinator_view s" by simp
      from rebuilds_view [OF view, of pb env] owned_view [OF view] * log show "tracked env pb s'" by (simp add: tracked_def)
    qed
  qed
qed

lemma start_records:
  assumes env: "rebuild_options env pb" and s: "in_sync env s"
  shows "wpE (start env) (\<lambda>_ s'. \<exists>p1 p2 p3 ev1 ev2 ev3. \<not> isTerminal s \<and> transitionTurnStatus (lc_status s) Ts_in_progress = Inr Ts_in_progress \<and>
      recorded env pb (turn_event E_turn_queued p1) ev1 \<and> recorded env pb (turn_event E_turn_started p2) ev2 \<and>
      recorded env pb (turn_event E_run_attempt_started p3) ev3 \<and>
      sequence ev1 = Suc (lc_sequence s) \<and> sequence ev2 = Suc (Suc (lc_sequence s)) \<and> sequence ev3 = Suc (Suc (Suc (lc_sequence s))) \<and>
      turn_log env s' = turn_log env s @ [ev1, ev2, ev3] \<and> coordinator_view s' = coordinator_view (s\<lparr>lc_status := Ts_in_progress\<rparr>))
    (\<lambda>_ s'. coordinator_view s' = coordinator_view s \<and> turn_log env s' = turn_log env s) s"
proof (cases "isTerminal s")
  case True
  then show ?thesis by (cases "lc_status s") (simp_all add: start_def wp_simps transition_defs isTerminal_def)
next
  case False
  note sink = rebuild_sink [OF env]
  have c: "contiguous_stream (opt_turnId env) (turn_log env s @ [ev1, ev2, ev3])"
    if "recorded env pb (turn_event E_turn_queued p1) ev1" "recorded env pb (turn_event E_turn_started p2) ev2"
      "recorded env pb (turn_event E_run_attempt_started p3) ev3"
      "sequence ev1 = Suc (lc_sequence s)" "sequence ev2 = Suc (Suc (lc_sequence s))"
      "sequence ev3 = Suc (Suc (Suc (lc_sequence s)))" for ev1 ev2 ev3 p1 p2 p3
    using that by (intro lifecycle_sink.contiguous_next [OF sink(1) s False]) (auto simp: recorded_def terminal_event_type_def upt_rec)
  have inv: "canonical_store (lc_sink s)" using s(1) by (simp add: log_synced_def)
  show ?thesis
    unfolding start_def wp_simps
    using False inv
    by (auto simp: wp_simps transition_def transitionTurnStatus_def transitionRunAttemptStatus_def coordinator_view_def eval_nat_numeral
        split: if_splits intro!: wpE_createEvent_recorded [OF env] lifecycle_sink.wpE_call_sink_next [OF sink, where t = "opt_turnId env"] intro: c)
qed


lemma same_view_tracked:
  "tracked env pb s \<Longrightarrow> coordinator_view s' = coordinator_view s \<Longrightarrow> turn_log env s' = turn_log env s \<Longrightarrow> in_sync env s' \<Longrightarrow> tracked env pb s'"
  using rebuilds_view [of s' s pb env] owned_view [of s' s] by (simp add: tracked_def)

lemma start_tracked:
  assumes env: "rebuild_options env pb"
  shows "keeps (tracked env pb) (start env)"
proof (rule keeps_via_wp)
  fix s
  assume s: "tracked env pb s"
  then obtain sync: "in_sync env s" and log: "rebuilds pb env (turn_log env s) s" "owned s" "length (turn_log env s) = lc_sequence s"
    by (rule trackedE)
  let ?s = "s\<lparr>lc_status := Ts_in_progress\<rparr>"
  have rebuilt: "rebuilds pb env (turn_log env s @ [ev1, ev2, ev3]) ?s"
    if "\<not> isTerminal s" and tr: "transitionTurnStatus (lc_status s) Ts_in_progress = Inr Ts_in_progress"
      and ev: "recorded env pb (turn_event E_turn_queued p1) ev1" "recorded env pb (turn_event E_turn_started p2) ev2"
        "recorded env pb (turn_event E_run_attempt_started p3) ev3" "sequence ev1 = Suc (lc_sequence s)"
        "sequence ev2 = Suc (Suc (lc_sequence s))" "sequence ev3 = Suc (Suc (Suc (lc_sequence s)))" for ev1 ev2 ev3 p1 p2 p3
  proof -
    have plain: "plain_type E_turn_queued" "plain_type E_run_attempt_started"
      by (simp_all add: plain_type_def item_types_def item_settled_types_def approval_types_def terminal_event_type_def toolTerminalStatus_def)
    have "rebuilds pb env (turn_log env s @ [ev1]) s"
      using log ev(4) plain by (intro rebuilds_snoc [OF log(1) that(1) absorbs_plain ev(1)]) simp_all
    then have "rebuilds pb env ((turn_log env s @ [ev1]) @ [ev2]) ?s"
      using ev(5) log(3) by (intro rebuilds_snoc [OF _ that(1) absorbs_started [OF tr that(1)] ev(2)]) simp_all
    then have "rebuilds pb env (((turn_log env s @ [ev1]) @ [ev2]) @ [ev3]) ?s"
      using ev(6) log(3) plain by (intro rebuilds_snoc [OF _ _ absorbs_plain ev(3)]) (simp_all add: isTerminal_def)
    then show ?thesis by simp
  qed
  have kept: "wpE (start env) (\<lambda>_. in_sync env) (\<lambda>_. in_sync env) s"
    using lifecycle_sink.start_synced [OF rebuild_sink [OF env]] sync by (simp add: keeps_wp)
  show "wpE (start env) (\<lambda>_. tracked env pb) (\<lambda>_. tracked env pb) s"
  proof (rule wpE_mono [OF wpE_conj [OF start_records [OF env sync] kept]])
    fix s' :: "MemoryLifecycleEventStore lc_state"
    assume "(\<exists>p1 p2 p3 ev1 ev2 ev3. \<not> isTerminal s \<and> transitionTurnStatus (lc_status s) Ts_in_progress = Inr Ts_in_progress \<and>
      recorded env pb (turn_event E_turn_queued p1) ev1 \<and> recorded env pb (turn_event E_turn_started p2) ev2 \<and>
      recorded env pb (turn_event E_run_attempt_started p3) ev3 \<and>
      sequence ev1 = Suc (lc_sequence s) \<and> sequence ev2 = Suc (Suc (lc_sequence s)) \<and> sequence ev3 = Suc (Suc (Suc (lc_sequence s))) \<and>
      turn_log env s' = turn_log env s @ [ev1, ev2, ev3] \<and> coordinator_view s' = coordinator_view ?s) \<and> in_sync env s'"
    then have "rebuilds pb env (turn_log env s') ?s" and view: "coordinator_view s' = coordinator_view ?s" and "in_sync env s'"
      using rebuilt by auto
    then show "tracked env pb s'"
      using rebuilds_view [OF view, of pb env] owned_view [OF view] log(2) by (simp add: tracked_def owned_turn)
  qed (use s same_view_tracked in blast)
qed

section \<open>Every operation\<close>

lemma plain_types:
  "plain_type E_turn_input_accepted" "plain_type E_turn_input_applied" "plain_type E_assistant_message_delta" "plain_type E_reasoning_summary_delta"
  "plain_type E_tool_call_input_delta" "plain_type E_tool_call_output_delta" "plain_type E_artifact_created" "plain_type E_workspace_snapshot_captured"
  "plain_type E_workspace_snapshot_unavailable" "plain_type E_turn_diff_updated" "plain_type E_context_budget_updated" "plain_type E_usage_updated"
  "plain_type E_context_compaction_requested" "plain_type E_context_compaction_started" "plain_type E_context_compaction_completed"
  "plain_type E_context_compaction_failed" "t \<in> set RUNTIME_HOOK_AUDIT_EVENT_TYPES \<Longrightarrow> plain_type t"
  by (auto simp: plain_type_def item_types_def item_settled_types_def approval_types_def terminal_event_type_def toolTerminalStatus_def
    RUNTIME_HOOK_AUDIT_EVENT_TYPES_def)

lemma emit_keeps_tracked: "rebuild_options env pb \<Longrightarrow> plain_type (f_type f) \<Longrightarrow> keeps (tracked env pb) (emit env f)"
  by (auto simp: keeps_wp intro: emit_plain)

lemma startItem_keeps_tracked: "rebuild_options env pb \<Longrightarrow> keeps (tracked env pb) (startItem env i k p)"
  by (auto simp: keeps_wp intro: startItem_tracked)

lemma bookkeeping_tracked:
  "tracked env pb (s\<lparr>lc_acceptedInputSequences := q\<rparr>) = tracked env pb s" "tracked env pb (s\<lparr>lc_completionReserved := r\<rparr>) = tracked env pb s"
  using rebuilds_view [of "s\<lparr>lc_acceptedInputSequences := q\<rparr>" s pb env] owned_view [of "s\<lparr>lc_acceptedInputSequences := q\<rparr>" s]
    rebuilds_view [of "s\<lparr>lc_completionReserved := r\<rparr>" s pb env] owned_view [of "s\<lparr>lc_completionReserved := r\<rparr>" s]
  by (simp_all add: tracked_def coordinator_view_def log_synced_def isTerminal_def)

lemma deltas_tracked:
  assumes "rebuild_options env pb" and "tracked env pb s" and "\<And>d. plain_type (f_type (g d))"
    and "\<And>s'. tracked env pb s' \<Longrightarrow> coordinator_view s' = coordinator_view s \<Longrightarrow> Q () s'" and "\<And>e s'. tracked env pb s' \<Longrightarrow> E e s'"
  shows "wpE (forE ds (\<lambda>d. emit env (g d))) Q E s"
proof (rule wpE_for_inv [where I = "\<lambda>_ s'. tracked env pb s' \<and> coordinator_view s' = coordinator_view s"])
  fix y s'
  assume "tracked env pb s' \<and> coordinator_view s' = coordinator_view s"
  then show "wpE (emit env (g y)) (\<lambda>_ s'. tracked env pb s' \<and> coordinator_view s' = coordinator_view s) E s'"
    using assms(3,5) by (intro emit_plain [OF assms(1)]) simp_all
qed (use assms in auto)

lemma message_tracked:
  assumes env: "rebuild_options env pb" and s: "tracked env pb s" and i: "\<not> in_use s i" and g: "\<And>d. plain_type (f_type (g d))"
    and rest: "\<And>s'. tracked env pb s' \<Longrightarrow> wpE (block ms) (\<lambda>_. tracked env pb) (\<lambda>_. tracked env pb) s'"
  shows "wpE (block (startItem env i k p # forE ds (\<lambda>d. emit env (g d)) # settleItem env i Is_completed q # ms))
    (\<lambda>_. tracked env pb) (\<lambda>_. tracked env pb) s"
  unfolding wpE_block_Cons
proof (rule startItem_tracked [OF env s], rule deltas_tracked [OF env _ g])
  let ?T = "\<lambda>_. tracked env pb"
  fix s1 s2 :: "MemoryLifecycleEventStore lc_state"
  assume *: "coordinator_view s1 = coordinator_view (set_item i Is_active s)" "tracked env pb s2" "coordinator_view s2 = coordinator_view s1"
  have "\<not> in_use s2 i" using i view_in_use [OF *(3)] view_in_use [OF *(1)] by simp
  then show "wpE (settleItem env i Is_completed q) (\<lambda>_. wpE (block ms) ?T ?T) ?T s2"
    using rest by (intro settleItem_tracked [OF env *(2)]) (simp_all add: isTerminalItemStatus_def)
qed


lemma startToolCall_tracked:
  assumes env: "rebuild_options env pb" and s: "tracked env pb s" and i: "\<not> in_use s i" "\<not> awaited s i"
  shows "wpE (startToolCall env i c n inp b d) (\<lambda>_. tracked env pb) (\<lambda>_. tracked env pb) s"
proof -
  let ?T = "\<lambda>_. tracked env pb"
  let ?g = "\<lambda>s. let s1 = (set_tool_call c Is_active s)\<lparr>lc_toolCallNames := AList.update c n (lc_toolCallNames s)\<rparr>;
      s2 = (if truthy b then s1\<lparr>lc_toolCallBatches := AList.update c (the b) (lc_toolCallBatches s)\<rparr> else s1) in
    s2\<lparr>lc_toolCallItems := AList.update c i (lc_toolCallItems s)\<rparr>"
  let ?last = "tool_event E_tool_call_input_delta i c [(''input'', PObj inp)]"
  have started: "wpE (emit env (tool_event E_tool_call_started i c q)) (\<lambda>_ s'. wpE (emit env ?last) ?T ?T (?g s')) ?T s1"
    if s1: "tracked env pb s1" "coordinator_view s1 = coordinator_view (set_item i Is_active s)" for s1 q
  proof (rule emit_tracked [OF env s1(1) _ absorbs_call_started, where g = ?g and Q = "wpE (emit env ?last) ?T ?T"])
    have "item_status s1 i = Is_active" using s1(2) by (simp add: coordinator_view_def item_status_def)
    then show "owned (own_call c i (set_tool_call c Is_active s1))"
      using i view_in_use [OF s1(2)] view_awaited [OF s1(2)] by (intro owned_start_call tracked_owned [OF s1(1)]) simp_all
    show "wpE (emit env ?last) ?T ?T s2" if "tracked env pb s2" for s2
      using that by (intro emit_plain [OF env]) (simp_all add: plain_types)
  qed (auto simp: Let_def coordinator_view_def own_call_def terminal_event_type_def log_synced_def isTerminal_def set_tool_call_def)
  show ?thesis
    unfolding startToolCall_def Let_def wpE_block_Cons
    by (rule startItem_tracked [OF env s]; cases "truthy b")
      (use started in \<open>simp_all add: wp_eta transition_defs Let_def set_tool_call_def\<close>)
qed

section \<open>Disciplined callers\<close>

text \<open>
  What the coordinator does not check of its callers. An item that an active tool call uses is not settled by other means
  and not used for another call or an approval, and an approval is requested in a running turn that awaits none.
\<close>

primrec disciplined :: "'st lc_state \<Rightarrow> lc_command \<Rightarrow> bool" where
  "disciplined s Start = True"
| "disciplined s (StartToolCall i c n inp b d) = (\<not> in_use s i \<and> \<not> awaited s i)"
| "disciplined s (AppendAssistantCommentary i x) = (\<not> in_use s i)"
| "disciplined s (AppendAssistantReasoning i x ds) = (\<not> in_use s i)"
| "disciplined s (AppendToolOutput c x) = True"
| "disciplined s (CreateArtifact i v) = True"
| "disciplined s (CaptureWorkspaceSnapshot v) = True"
| "disciplined s (MarkWorkspaceSnapshotUnavailable r) = True"
| "disciplined s (AppendHookAudit t p) = True"
| "disciplined s (CreateTurnArtifact v) = True"
| "disciplined s (UpdateTurnDiff v) = True"
| "disciplined s (UpdateContextBudget v) = True"
| "disciplined s (UpdateUsage v) = True"
| "disciplined s (RequestContextCompaction p) = True"
| "disciplined s (SettleContextCompaction p) = (\<not> in_use s (cc_itemId p))"
| "disciplined s (CompleteToolCall c r) = True"
| "disciplined s (FailToolCall c f) = True"
| "disciplined s (DeclineToolCall c r) = True"
| "disciplined s (RequestApproval parent a i p) = (\<not> in_use s i \<and> (isTerminal s \<or> lc_status s = Ts_in_progress))"
| "disciplined s (DecideApproval a st p) = True"
| "disciplined s (Complete x i) = (\<not> in_use s i)"
| "disciplined s (AcceptThreadInput inp after_append) = True"
| "disciplined s (ReserveCompletion b) = True"
| "disciplined s (ApplyThreadInput i a m r) = True"
| "disciplined s (Fail f) = True"
| "disciplined s (Interrupt r) = True"

primrec disciplined_run :: "'st lc_options \<Rightarrow> lc_command list \<Rightarrow> 'st lc_state \<Rightarrow> bool" where
  "disciplined_run env [] s = True"
| "disciplined_run env (c # cs) s = (disciplined s c \<and> disciplined_run env cs (snd (lc_exec env c s)))"

lemma keeps_wpD: "keeps P m \<Longrightarrow> P s \<Longrightarrow> wpE m (\<lambda>_. P) (\<lambda>_. P) s"
  by (simp add: keeps_wp)

lemma settleOpenWork_keeps_tracked:
  "rebuild_options env pb \<Longrightarrow> isTerminalItemStatus st \<Longrightarrow> keeps (tracked env pb) (settleOpenWork env st p)"
  by (auto simp: keeps_wp intro: settleOpenWork_tracked)

lemma settleToolCall_keeps_tracked:
  "rebuild_options env pb \<Longrightarrow> isTerminalItemStatus st \<Longrightarrow> keeps (tracked env pb) (settleToolCall env c st p)"
  by (auto simp: keeps_wp intro: settleToolCall_tracked)

lemmas tracked_keeps =
  emit_keeps_tracked startItem_keeps_tracked start_tracked settleToolCall_keeps_tracked cancelPendingApprovals_tracked
  settleOpenWork_keeps_tracked settleTurn_tracked


lemma settleContextCompaction_tracked:
  assumes env: "rebuild_options env pb" and s: "tracked env pb s" and i: "\<not> in_use s (cc_itemId p)"
  shows "wpE (settleContextCompaction env p) (\<lambda>_. tracked env pb) (\<lambda>_. tracked env pb) s"
proof -
  have "wpE (block [emit env (item_event t (cc_itemId p) q), settleItem env (cc_itemId p) st r]) (\<lambda>_. tracked env pb) (\<lambda>_. tracked env pb) s"
    if "plain_type t" "isTerminalItemStatus st" for t q st r
    unfolding wpE_block_Cons wpE_block_Nil
  proof (rule emit_plain [OF env s])
    show "wpE (settleItem env (cc_itemId p) st r) (\<lambda>_. tracked env pb) (\<lambda>_. tracked env pb) s'"
      if "tracked env pb s'" "coordinator_view s' = coordinator_view s" for s'
      using that i view_in_use [OF that(2)] \<open>isTerminalItemStatus st\<close> by (intro settleItem_tracked [OF env]) simp_all
  qed (use that in simp_all)
  then show ?thesis
    unfolding settleContextCompaction_def by (simp add: plain_types isTerminalItemStatus_def del: block.simps)
qed

lemma message_commands_tracked:
  assumes env: "rebuild_options env pb" and s: "tracked env pb s" and i: "\<not> in_use s i"
  shows "wpE (appendAssistantCommentary env i x) (\<lambda>_. tracked env pb) (\<lambda>_. tracked env pb) s"
    "wpE (appendAssistantReasoning env i x ds) (\<lambda>_. tracked env pb) (\<lambda>_. tracked env pb) s"
    "wpE (complete env x i) (\<lambda>_. tracked env pb) (\<lambda>_. tracked env pb) s"
proof -
  show "wpE (appendAssistantCommentary env i x) (\<lambda>_. tracked env pb) (\<lambda>_. tracked env pb) s"
    using s by (auto simp: appendAssistantCommentary_def wp_simps(1) plain_types wpE_block_Nil simp del: block.simps intro!: message_tracked [OF env s i])
  show "wpE (appendAssistantReasoning env i x ds) (\<lambda>_. tracked env pb) (\<lambda>_. tracked env pb) s"
    using s by (auto simp: appendAssistantReasoning_def wp_simps(1) plain_types wpE_block_Nil simp del: block.simps intro!: message_tracked [OF env s i])
  have "wpE (block [settleTurn env Outcome_completed]) (\<lambda>_. tracked env pb) (\<lambda>_. tracked env pb) s'" if "tracked env pb s'" for s'
    using that settleTurn_tracked [OF env] by (intro keeps_wpD keeps_rules)
  then show "wpE (complete env x i) (\<lambda>_. tracked env pb) (\<lambda>_. tracked env pb) s"
    unfolding complete_def by (intro message_tracked [OF env s i]) (simp_all add: plain_types)
qed

lemma keeps_exec_plain:
  assumes env: "rebuild_options env pb"
  shows "keeps (tracked env pb) (voidE (start env))" "keeps (tracked env pb) (appendToolOutput env c x)"
    "keeps (tracked env pb) (createArtifact env i v)" "keeps (tracked env pb) (captureWorkspaceSnapshot env v)"
    "keeps (tracked env pb) (markWorkspaceSnapshotUnavailable env r)" "keeps (tracked env pb) (createTurnArtifact env v)"
    "keeps (tracked env pb) (updateTurnDiff env v)" "keeps (tracked env pb) (updateContextBudget env v)" "keeps (tracked env pb) (updateUsage env v)"
    "keeps (tracked env pb) (requestContextCompaction env p)" "keeps (tracked env pb) (completeToolCall env c result)"
    "keeps (tracked env pb) (failToolCall env c failure)" "keeps (tracked env pb) (declineToolCall env c r)"
    "keeps (tracked env pb) (voidE (applyThreadInput env inputId acc step revision))"
    "keeps (tracked env pb) (fail env failure)" "keeps (tracked env pb) (interrupt env r)"
  unfolding lc_op_defs by (intro keeps_rules keeps_require tracked_keeps [OF env]; simp add: plain_types isTerminalItemStatus_def)+


lemma keeps_exec_inputs:
  assumes env: "rebuild_options env pb"
  shows "keeps (tracked env pb) (voidE (acceptThreadInput env inp after_append))" "keeps (tracked env pb) (voidE (reserveCompletion pending))"
    "keeps (tracked env pb) (appendHookAudit env t q)"
proof -
  show "keeps (tracked env pb) (voidE (acceptThreadInput env inp after_append))"
    unfolding acceptThreadInput_def voidE_def
    by (intro keeps_rules keeps_modify tracked_keeps [OF env]) (simp_all add: plain_types bookkeeping_tracked)
  show "keeps (tracked env pb) (voidE (reserveCompletion pending))"
    unfolding reserveCompletion_def voidE_def by (intro keeps_rules keeps_modify) (simp add: bookkeeping_tracked)
  show "keeps (tracked env pb) (appendHookAudit env t q)"
  proof (cases "t \<in> set RUNTIME_HOOK_AUDIT_EVENT_TYPES")
    case True
    then show ?thesis unfolding appendHookAudit_def by (intro keeps_rules tracked_keeps [OF env]) (simp add: plain_types)
  qed (simp add: appendHookAudit_def keeps_throw)
qed

lemma exec_tracked:
  assumes env: "rebuild_options env pb" and s: "tracked env pb s" and c: "disciplined s c"
  shows "tracked env pb (snd (lc_exec env c s))"
proof -
  have "wpE (lc_exec env c) (\<lambda>_. tracked env pb) (\<lambda>_. tracked env pb) s"
    using c
    by (cases c)
      (simp_all add: keeps_wpD [where P = "tracked env pb", OF _ s] keeps_exec_plain [OF env] keeps_exec_inputs [OF env] message_commands_tracked [OF env s]
        startToolCall_tracked [OF env s] settleContextCompaction_tracked [OF env s] requestApproval_tracked [OF env s]
        decideApproval_tracked [OF env s])
  then show ?thesis by (simp add: wpE_same)
qed

lemma run_tracked:
  "rebuild_options env pb \<Longrightarrow> tracked env pb s \<Longrightarrow> disciplined_run env cs s \<Longrightarrow> tracked env pb (lc_run env cs s)"
  by (induction cs arbitrary: s) (auto intro: exec_tracked)

lemma init_tracked:
  assumes "canonical_store k" and "lifecycle_log k (opt_turnId env) = []"
  shows "tracked env pb (lc_init 0 ticks k)"
  using assms
  by (simp add: tracked_def log_synced_def lc_init_def isTerminal_def log_end_def rebuilds_def project_from_def op_defs createState_def
      mirror_defs owned_def in_use_def active_call_def holds_call_def)

text \<open>What a rebuilt state gives.\<close>

lemma rebuilt_snapshot:
  assumes "rebuilds pb env evs s" and "evs \<noteq> []" and "turnId (hd evs) = opt_turnId env" and "opt_turnId env \<noteq> []"
  shows "\<exists>sn. projectLifecycleEvents pb (map client_event evs) = Inr (Some sn) \<and>
    sn_turnId sn = opt_turnId env \<and> sn_status sn = lc_status s \<and> sn_blockingState sn = lc_blockingState s \<and>
    map (\<lambda>item. (ip_itemId item, ip_status item)) (sn_items sn) = lc_itemStatuses s \<and>
    map (\<lambda>tool. (cp_toolCallId tool, cp_status tool)) (sn_toolCalls sn) = lc_toolCallStatuses s \<and>
    map (\<lambda>approval. (ap_approvalId approval, ap_status approval)) (sn_approvals sn) = lc_approvalStatuses s \<and>
    sn_lastSequence sn = length evs \<and> (sn_terminalOutcome sn \<noteq> None \<longleftrightarrow> isTerminal s)"
proof -
  obtain m where m: "project_from pb (map client_event evs) (createState (opt_turnId env)) = (Inr (), m)"
    "mp_turnId m = opt_turnId env" "mp_lastSequence m = length evs" "mirrors s m"
    using assms(1) by (auto simp: rebuilds_def)
  let ?sn = "\<lparr>sn_turnId = mp_turnId m, sn_revisionOfTurnId = (if truthy (mp_revisionOfTurnId m) then mp_revisionOfTurnId m else None),
        sn_status = mp_status m, sn_blockingState = mp_blockingState m, sn_terminalOutcome = mp_terminalOutcome m,
        sn_items = map snd (mp_items m), sn_toolCalls = map snd (mp_toolCalls m), sn_approvals = map snd (mp_approvals m),
        sn_requests = map snd (mp_requests m), sn_lastSequence = mp_lastSequence m,
        sn_projectionVersion = LIFECYCLE_PROJECTION_VERSION\<rparr>"
  have wn: "well_named m" using m(4) by (simp add: mirrors_def)
  then have "snapshot_accepted ?sn"
    using m(2) assms(4) by (auto simp: snapshot_accepted_def well_named_def list_all_iff)
  then have "snapshot m = Inr ?sn" by (simp add: snapshot_def Let_def)
  then have run: "projectLifecycleEvents pb (map client_event evs) = Inr (Some ?sn)"
    using m(1) assms(2,3) by (cases evs) (simp_all add: projectLifecycleEvents_def)
  have keyed: "map (\<lambda>v. (name v, f v)) (map snd al) = map (map_prod id f) al" if "list_all (\<lambda>(k, v). name v = k) al"
    for name :: "'v \<Rightarrow> string" and f :: "'v \<Rightarrow> 'w" and al
    using that by (induction al) auto
  have names: "list_all (\<lambda>(k, v). ip_itemId v = k) (mp_items m)" "list_all (\<lambda>(k, v). cp_toolCallId v = k) (mp_toolCalls m)"
    "list_all (\<lambda>(k, v). ap_approvalId v = k) (mp_approvals m)"
    using wn by (auto simp: well_named_def list_all_iff)
  show ?thesis
    using run m(2-4) by (intro exI [where x = ?sn]) (simp add: keyed [OF names(1)] keyed [OF names(2)] keyed [OF names(3)] mirror_defs del: map_map)
qed

end
