(* ===== verification/Contract_Runs.thy ===== *)
theory Contract_Runs
  imports Lifecycle_Contract Rebuild_Runs
begin

text \<open>
  The coordinator against the lifecycle contract: the events of a turn are legal when every operation succeeds and the
  callers use every item and every tool call once.
\<close>

section \<open>The state of the reducer\<close>

definition in_progress :: "'st lc_state \<Rightarrow> bool" where
  "in_progress s \<longleftrightarrow> lc_status s = Ts_in_progress \<or> lc_status s = Ts_awaiting_approval"

text \<open>The reducer does not know the awaiting of an approval, and it alone knows the kinds of the items.\<close>

definition contract_state :: "'a lc_options \<Rightarrow> ItemKind js_record \<Rightarrow> 'st lc_state \<Rightarrow> nat \<Rightarrow> ReplayState" where
  "contract_state env ks s n =
     \<lparr>cs_threadId = Some (opt_threadId env), cs_turnId = Some (opt_turnId env), cs_status = Ts_in_progress, cs_blockingState = lc_blockingState s,
      cs_terminalOutcome = None, cs_runAttempts = [(opt_runAttemptId env, Ra_running)], cs_items = lc_itemStatuses s,
      cs_toolCalls = lc_toolCallStatuses s, cs_approvals = lc_approvalStatuses s, cs_lastSequence = n, cs_accepted = True,
      cs_started = True, cs_terminalEvents = 0, cs_itemKinds = ks, cs_toolCallItems = lc_toolCallItems s, cs_requests = []\<rparr>"

lemma contract_state_fields [simp]:
  "cs_threadId (contract_state env ks s n) = Some (opt_threadId env)" "cs_turnId (contract_state env ks s n) = Some (opt_turnId env)"
  "cs_status (contract_state env ks s n) = Ts_in_progress" "cs_blockingState (contract_state env ks s n) = lc_blockingState s"
  "cs_terminalOutcome (contract_state env ks s n) = None" "cs_runAttempts (contract_state env ks s n) = [(opt_runAttemptId env, Ra_running)]"
  "cs_items (contract_state env ks s n) = lc_itemStatuses s" "cs_toolCalls (contract_state env ks s n) = lc_toolCallStatuses s"
  "cs_approvals (contract_state env ks s n) = lc_approvalStatuses s" "cs_lastSequence (contract_state env ks s n) = n"
  "cs_accepted (contract_state env ks s n)" "cs_started (contract_state env ks s n)" "cs_terminalEvents (contract_state env ks s n) = 0"
  "cs_itemKinds (contract_state env ks s n) = ks" "cs_toolCallItems (contract_state env ks s n) = lc_toolCallItems s"
  "cs_requests (contract_state env ks s n) = []"
  by (simp_all add: contract_state_def)

text \<open>Every item of a tool call that is still active has a call, and a call has one item.\<close>

definition kinded :: "ItemKind js_record \<Rightarrow> 'st lc_state \<Rightarrow> bool" where
  "kinded ks s \<longleftrightarrow> distinct_keys (lc_toolCallItems s) \<and>
     (\<forall>c. map_of (lc_toolCallItems s) c \<noteq> None \<longrightarrow> map_of (lc_toolCallStatuses s) c \<noteq> None) \<and>
     (\<forall>i. item_status s i = Is_active \<and> map_of ks i = Some Kind_tool_call \<longrightarrow> i \<in> snd ` set (lc_toolCallItems s))"

definition legal :: "(pval option \<Rightarrow> TurnBlockingState option) \<Rightarrow> MemoryLifecycleEventStore lc_options \<Rightarrow> ItemKind js_record \<Rightarrow>
    LifecycleEvent \<Rightarrow> ItemKind js_record \<Rightarrow> 'st lc_state \<Rightarrow> 'st lc_state \<Rightarrow> bool" where
  "legal pb env ks ev ks' s s' \<longleftrightarrow> (\<forall>n. sequence ev = Suc n \<longrightarrow>
     contract_apply pb (client_event ev) (contract_state env ks s n) = Inr (contract_state env ks' s' (Suc n)))"

lemmas contract_guards = requireAccepted_def requireStarted_def requireActiveItem_def requireActiveItemKind_def
  contract_requireActiveToolCall_def zod_def

lemmas contract_dispatch = contract_event_def applyTurnEvent_def applyRunAttemptEvent_def applyItemEvent_def applyToolCallEvent_def
  applyApprovalEvent_def applyRequestEvent_def or_else_def Let_def

lemma legalI:
  assumes "recorded env pb f ev"
    and "\<And>n. sequence ev = Suc n \<Longrightarrow> contract_event pb (contract_state env ks s n) (client_event ev) = Inr (contract_state env ks' s' (Suc n))"
  shows "legal pb env ks ev ks' s s'"
  using assms by (auto simp: legal_def contract_apply_def assertNextLifecycleSequence_def bindReplayScope_def assertMatchingScope_def recorded_def)

text \<open>Events of which the contract says nothing.\<close>

definition constrained_types :: "LifecycleEventType set" where
  "constrained_types = {E_turn_queued, E_turn_started, E_turn_blocking_changed, E_turn_completed, E_turn_interrupted, E_turn_failed,
     E_run_attempt_started, E_run_attempt_succeeded, E_run_attempt_interrupted, E_run_attempt_failed, E_item_started, E_item_updated,
     E_reasoning_summary_delta, E_assistant_message_delta, E_plan_updated, E_command_execution_output_delta, E_file_change_patch_updated,
     E_item_completed, E_item_failed, E_item_declined, E_item_interrupted, E_tool_call_started, E_tool_call_input_delta,
     E_tool_call_output_delta, E_tool_call_completed, E_tool_call_failed, E_tool_call_declined, E_tool_call_interrupted,
     E_approval_requested, E_approval_decided, E_user_input_requested, E_user_input_responded, E_request_resolved}"

lemma free_types:
  "E_turn_input_accepted \<notin> constrained_types" "E_turn_input_applied \<notin> constrained_types" "E_artifact_created \<notin> constrained_types"
  "E_workspace_snapshot_captured \<notin> constrained_types" "E_workspace_snapshot_unavailable \<notin> constrained_types"
  "E_turn_diff_updated \<notin> constrained_types" "E_context_budget_updated \<notin> constrained_types" "E_usage_updated \<notin> constrained_types"
  "E_context_compaction_requested \<notin> constrained_types" "E_context_compaction_started \<notin> constrained_types"
  "E_context_compaction_completed \<notin> constrained_types" "E_context_compaction_failed \<notin> constrained_types"
  "t \<in> set RUNTIME_HOOK_AUDIT_EVENT_TYPES \<Longrightarrow> t \<notin> constrained_types"
  by (auto simp: constrained_types_def RUNTIME_HOOK_AUDIT_EVENT_TYPES_def)

lemma legal_free:
  assumes "f_type f \<notin> constrained_types" and "recorded env pb f ev"
  shows "legal pb env ks ev ks s s"
proof (rule legalI [OF assms(2)])
  fix n
  assume n: "sequence ev = Suc n"
  have "etype ev \<notin> constrained_types" using assms by (simp add: recorded_def)
  then have "contract_event pb cs (client_event ev) = Inr (advance cs (sequence ev))" for cs
    by (simp add: contract_dispatch constrained_types_def)
  then show "contract_event pb (contract_state env ks s n) (client_event ev) = Inr (contract_state env ks s (Suc n))"
    using n by (simp add: advance_def contract_state_def)
qed

lemma legal_item_started:
  assumes ev: "recorded env pb (item_event E_item_started i (AList.update ''kind'' (PKind kind) p)) ev" and i: "map_of (lc_itemStatuses s) i = None"
  shows "legal pb env ks ev (AList.update i kind ks) s (set_item i Is_active s)"
proof (rule legalI [OF ev])
  fix n
  assume "sequence ev = Suc n"
  moreover have "etype ev = E_item_started" "itemId ev = Some i" "map_of (payload ev) ''kind'' = Some (PKind kind)"
    using ev by (simp_all add: recorded_def status_keys_def)
  ultimately show "contract_event pb (contract_state env ks s n) (client_event ev) = Inr (contract_state env (AList.update i kind ks) (set_item i Is_active s) (Suc n))"
    using i by (simp add: contract_dispatch applyItemStarted_def contract_guards setItemStatus_def transition_defs property_key_def advance_def
        assertToolItemSettled_def isTerminalItemStatus_def contract_state_def set_item_def)
qed

lemma item_settled_unfree:
  assumes "kinded ks s" and "\<not> in_use s i" and "item_status s i = Is_active"
  shows "assertToolItemSettled ((contract_state env ks s n)\<lparr>cs_lastSequence := m, cs_items := items\<rparr>) i st = Inr ()"
proof (cases "map_of ks i = Some Kind_tool_call \<and> isTerminalItemStatus st")
  case True
  let ?calls = "filter (\<lambda>(_, parent). parent = i) (lc_toolCallItems s)"
  have "i \<in> snd ` set (lc_toolCallItems s)" using assms(1,3) True by (auto simp: kinded_def)
  then have "?calls \<noteq> []" by (auto simp: filter_empty_conv)
  moreover have "List.find (\<lambda>(c, _). map_of (lc_toolCallStatuses s) c = Some Is_active) ?calls = None"
  proof -
    have "map_of (lc_toolCallStatuses s) c \<noteq> Some Is_active" if "(c, i) \<in> set (lc_toolCallItems s)" for c
      using that assms(1,2) by (auto simp: kinded_def in_use_iff holds_call_def active_call_def)
    then show ?thesis by (auto simp: find_None_iff)
  qed
  ultimately show ?thesis by (simp add: assertToolItemSettled_def Let_def)
qed (auto simp: assertToolItemSettled_def)

lemma legal_item_settled:
  assumes ev: "recorded env pb (item_event (item_settled_event st) i p) ev" and st: "isTerminalItemStatus st"
    and s: "kinded ks s" "\<not> in_use s i" "item_status s i = Is_active"
  shows "legal pb env ks ev ks s (set_item i st s)"
proof (rule legalI [OF ev])
  fix n
  assume "sequence ev = Suc n"
  moreover have "etype ev = item_settled_event st" "itemId ev = Some i"
    using ev by (simp_all add: recorded_def)
  moreover have i: "map_of (lc_itemStatuses s) i = Some Is_active" using s(3) by (auto simp: item_status_def split: option.splits)
  moreover have "setItemStatus (contract_state env ks s n) i st = Inr (contract_state env ks (set_item i st s) (Suc n))"
    using i item_settled_unfree [OF s, where env = env] item_settled_facts(6) [OF st]
    by (simp add: setItemStatus_def Let_def advance_def contract_state_def set_item_def)
  ultimately show "contract_event pb (contract_state env ks s n) (client_event ev) = Inr (contract_state env ks (set_item i st s) (Suc n))"
    using st by (cases st) (simp_all add: contract_dispatch property_key_def isTerminalItemStatus_def)
qed

text \<open>Deltas of an item and of a call.\<close>

definition delta_kind :: "LifecycleEventType \<Rightarrow> ItemKind \<Rightarrow> bool" where
  "delta_kind t kind \<longleftrightarrow> t = E_reasoning_summary_delta \<and> kind = Kind_reasoning \<or> t = E_assistant_message_delta \<and> kind = Kind_assistant_message"

lemma legal_item_delta:
  assumes ev: "recorded env pb (item_event t i p) ev" and t: "delta_kind t kind"
    and s: "item_status s i = Is_active" "map_of ks i = Some kind"
  shows "legal pb env ks ev ks s s"
proof (rule legalI [OF ev])
  fix n
  assume "sequence ev = Suc n"
  moreover have "etype ev = t" "itemId ev = Some i" using ev by (simp_all add: recorded_def)
  moreover have "map_of (lc_itemStatuses s) i = Some Is_active" using s(1) by (auto simp: item_status_def split: option.splits)
  ultimately show "contract_event pb (contract_state env ks s n) (client_event ev) = Inr (contract_state env ks s (Suc n))"
    using t s(2) unfolding delta_kind_def
    by (elim disjE conjE) (simp_all add: contract_dispatch contract_guards property_key_def advance_def contract_state_def)
qed

lemma legal_call_delta:
  assumes ev: "recorded env pb (tool_event t i c p) ev" and t: "t = E_tool_call_input_delta \<or> t = E_tool_call_output_delta" and s: "active_call s c"
  shows "legal pb env ks ev ks s s"
proof (rule legalI [OF ev])
  fix n
  assume "sequence ev = Suc n"
  moreover have "etype ev = t" "toolCallId ev = Some c" using ev by (simp_all add: recorded_def)
  ultimately show "contract_event pb (contract_state env ks s n) (client_event ev) = Inr (contract_state env ks s (Suc n))"
    using t s by (elim disjE) (simp_all add: contract_dispatch contract_guards property_key_def advance_def contract_state_def active_call_def)
qed

text \<open>Tool calls.\<close>

lemma legal_call_started:
  assumes ev: "recorded env pb (tool_event E_tool_call_started i c p) ev"
    and s: "item_status s i = Is_active" "map_of ks i = Some Kind_tool_call" "map_of (lc_toolCallStatuses s) c = None"
  shows "legal pb env ks ev ks s (own_call c i (set_tool_call c Is_active s))"
proof (rule legalI [OF ev])
  fix n
  assume "sequence ev = Suc n"
  moreover have "etype ev = E_tool_call_started" "itemId ev = Some i" "toolCallId ev = Some c" using ev by (simp_all add: recorded_def)
  moreover have "map_of (lc_itemStatuses s) i = Some Is_active" using s(1) by (auto simp: item_status_def split: option.splits)
  ultimately show "contract_event pb (contract_state env ks s n) (client_event ev) =
      Inr (contract_state env ks (own_call c i (set_tool_call c Is_active s)) (Suc n))"
    using s(2,3) by (simp add: contract_dispatch applyToolCallStarted_def setToolCallStatus_def contract_guards transition_defs property_key_def
        advance_def contract_state_def set_tool_call_def)
qed

lemma legal_call_settled:
  assumes ev: "recorded env pb (tool_event (tool_call_settled_event st) i c p) ev" and st: "isTerminalItemStatus st" and s: "active_call s c"
  shows "legal pb env ks ev ks s (set_tool_call c st s)"
proof (rule legalI [OF ev])
  fix n
  assume "sequence ev = Suc n"
  moreover have "etype ev = tool_call_settled_event st" "toolCallId ev = Some c" using ev by (simp_all add: recorded_def)
  moreover have "setToolCallStatus (contract_state env ks s n) c st = Inr (contract_state env ks (set_tool_call c st s) (Suc n))"
    using s tool_settled_facts(4) [OF st] by (simp add: setToolCallStatus_def active_call_def advance_def contract_state_def set_tool_call_def)
  ultimately show "contract_event pb (contract_state env ks s n) (client_event ev) = Inr (contract_state env ks (set_tool_call c st s) (Suc n))"
    using st by (cases st) (simp_all add: contract_dispatch property_key_def isTerminalItemStatus_def)
qed

text \<open>Approvals.\<close>

lemma legal_requested:
  assumes ev: "recorded env pb (approval_event E_approval_requested i a p) ev"
    and s: "item_status s i = Is_active" "map_of ks i = Some Kind_approval_request"
  shows "legal pb env ks ev ks s (own_approval a i (set_approval a Ap_pending s))"
proof (rule legalI [OF ev])
  fix n
  assume "sequence ev = Suc n"
  moreover have "etype ev = E_approval_requested" "itemId ev = Some i" "approvalId ev = Some a" using ev by (simp_all add: recorded_def)
  moreover have "map_of (lc_itemStatuses s) i = Some Is_active" using s(1) by (auto simp: item_status_def split: option.splits)
  ultimately show "contract_event pb (contract_state env ks s n) (client_event ev) =
      Inr (contract_state env ks (own_approval a i (set_approval a Ap_pending s)) (Suc n))"
    using s(2) by (simp add: contract_dispatch applyApprovalRequested_def contract_guards property_key_def advance_def contract_state_def set_approval_def)
qed

lemma parse_decision_name: "st \<noteq> Ap_pending \<Longrightarrow> parse_decision (Some (PApproval st)) = Some st"
  by (cases st) (simp_all add: parse_decision_def)

lemma legal_decided:
  assumes ev: "recorded env pb (approval_event E_approval_decided i a (AList.update ''status'' (PApproval st) p)) ev"
    and tr: "transitionApprovalStatus Ap_pending st = Inr st" and s: "pending_approval s a"
  shows "legal pb env ks ev ks s (set_approval a st s)"
proof (rule legalI [OF ev])
  fix n
  assume "sequence ev = Suc n"
  moreover have "etype ev = E_approval_decided" "approvalId ev = Some a" "map_of (payload ev) ''status'' = Some (PApproval st)"
    using ev by (simp_all add: recorded_def status_keys_def)
  moreover have "st \<noteq> Ap_pending" using tr by (auto simp: transition_defs)
  ultimately show "contract_event pb (contract_state env ks s n) (client_event ev) = Inr (contract_state env ks (set_approval a st s) (Suc n))"
    using s tr by (simp add: contract_dispatch applyApprovalDecided_def setApprovalStatus_def contract_guards property_key_def advance_def
        contract_state_def set_approval_def pending_approval_def parse_decision_name)
qed

lemma legal_blocking:
  assumes ev: "recorded env pb (turn_event E_turn_blocking_changed [(''blockingState'', PBlocking b)]) ev" and "pb (Some (PBlocking b)) = Some b"
  shows "legal pb env ks ev ks s (s\<lparr>lc_status := ts, lc_blockingState := b\<rparr>)"
proof (rule legalI [OF ev])
  fix n
  assume "sequence ev = Suc n"
  moreover have "etype ev = E_turn_blocking_changed" "map_of (payload ev) ''blockingState'' = Some (PBlocking b)"
    using ev by (simp_all add: recorded_def status_keys_def)
  ultimately show "contract_event pb (contract_state env ks s n) (client_event ev) =
      Inr (contract_state env ks (s\<lparr>lc_status := ts, lc_blockingState := b\<rparr>) (Suc n))"
    using assms(2) by (simp add: contract_dispatch applyBlockingChanged_def contract_guards advance_def contract_state_def)
qed


section \<open>A coordinator in step with the reducer\<close>

abbreviation contract_fold :: "(pval option \<Rightarrow> TurnBlockingState option) \<Rightarrow> LifecycleEvent list \<Rightarrow> contract_step" where
  "contract_fold pb evs \<equiv> fold_sum (contract_apply pb) (map client_event evs) createInitialState"

definition conforms where
  "conforms pb env ks s \<longleftrightarrow> in_sync env s \<and> owned s \<and> in_progress s \<and>
     contract_fold pb (turn_log env s) = Inr (contract_state env ks s (length (turn_log env s)))"

text \<open>What an operation establishes when it succeeds.\<close>

abbreviation okE :: "('s, 'e, 'a) op \<Rightarrow> ('s \<Rightarrow> bool) \<Rightarrow> 's \<Rightarrow> bool" where
  "okE m Q \<equiv> wpE m (\<lambda>_. Q) (\<lambda>_ _. True)"

lemma contract_state_view: "coordinator_view s = coordinator_view s' \<Longrightarrow> contract_state env ks s = contract_state env ks s'"
  by (simp add: coordinator_view_def contract_state_def fun_eq_iff)

lemma kinded_view: "coordinator_view s = coordinator_view s' \<Longrightarrow> kinded ks s = kinded ks s'"
  by (simp add: coordinator_view_def kinded_def item_status_def)

lemma in_progress_view: "coordinator_view s = coordinator_view s' \<Longrightarrow> in_progress s = in_progress s'"
  by (simp add: coordinator_view_def in_progress_def)

lemma in_progress_open: "in_progress s \<Longrightarrow> \<not> isTerminal s"
  by (auto simp: in_progress_def isTerminal_def)

lemma conforms_owned: "conforms pb env ks s \<Longrightarrow> owned s" "conforms pb env ks s \<Longrightarrow> in_progress s" "conforms pb env ks s \<Longrightarrow> in_sync env s"
  by (simp_all add: conforms_def)

lemma conforms_snoc:
  assumes "conforms pb env ks s" and "legal pb env ks ev ks' s w" and "sequence ev = Suc (length (turn_log env s))"
  shows "contract_fold pb (turn_log env s @ [ev]) = Inr (contract_state env ks' w (Suc (length (turn_log env s))))"
  using assms by (simp add: conforms_def fold_sum_append legal_def)

lemma emit_conforms:
  assumes env: "rebuild_options env pb" and s: "conforms pb env ks s" and f: "\<not> terminal_event_type (f_type f)"
    and w: "\<And>ev. recorded env pb f ev \<Longrightarrow> legal pb env ks ev ks' s w" "owned w" "in_progress w"
    and g: "\<And>s'. coordinator_view s' = coordinator_view s \<Longrightarrow> coordinator_view (g s') = coordinator_view w"
      "\<And>s'. coordinator_view s' = coordinator_view s \<Longrightarrow> in_sync env s' \<Longrightarrow> in_sync env (g s')" "\<And>s'. lc_sink (g s') = lc_sink s'"
    and Q: "\<And>s' ev. conforms pb env ks' s' \<Longrightarrow> coordinator_view s' = coordinator_view w \<Longrightarrow> recorded env pb f ev \<Longrightarrow> Q s'"
  shows "okE (emit env f) (\<lambda>s'. coordinator_view s' = coordinator_view s \<and> Q (g s')) s"
proof (rule wpE_mono [OF emit_records [OF env conforms_owned(3) [OF s] f]])
  fix s'
  assume *: "in_sync env s' \<and> work s' = work s \<and> \<not> isTerminal s \<and> (\<exists>ev. recorded env pb f ev \<and>
      sequence ev = Suc (lc_sequence s) \<and> turn_log env s' = turn_log env s @ [ev])"
  then obtain ev where ev: "recorded env pb f ev" "sequence ev = Suc (lc_sequence s)" "turn_log env s' = turn_log env s @ [ev]" by blast
  have same: "coordinator_view s' = coordinator_view s" using * by (intro view_work) simp
  note view = g(1) [OF same]
  have len: "length (turn_log env s) = lc_sequence s" using s by (simp add: conforms_def log_synced_def)
  have "conforms pb env ks' (g s')"
    using conforms_snoc [OF s w(1) [OF ev(1)]] ev(2,3) len * g(2) [OF same] w(2,3) g(3) owned_view [OF view] in_progress_view [OF view]
      contract_state_view [OF view, of env ks']
    by (simp add: conforms_def)
  then show "coordinator_view s' = coordinator_view s \<and> Q (g s')" using same view ev(1) by (blast intro: Q)
qed simp

lemma emit_step:
  assumes "rebuild_options env pb" and "conforms pb env ks s" and "\<not> terminal_event_type (f_type f)"
    and "\<And>ev. recorded env pb f ev \<Longrightarrow> legal pb env ks ev ks' s w" "owned w" "in_progress w"
    and "\<And>s'. coordinator_view s' = coordinator_view s \<Longrightarrow> coordinator_view (g s') = coordinator_view w"
      "\<And>s'. in_sync env (g s') = in_sync env s'" "\<And>s'. lc_sink (g s') = lc_sink s'"
    and "\<And>s' ev. conforms pb env ks' s' \<Longrightarrow> coordinator_view s' = coordinator_view w \<Longrightarrow> recorded env pb f ev \<Longrightarrow> Q s'"
  shows "okE (emit env f) (\<lambda>s'. Q (g s')) s"
proof -
  have "okE (emit env f) (\<lambda>s'. coordinator_view s' = coordinator_view s \<and> Q (g s')) s"
    using assms(8) by (intro emit_conforms [OF assms(1-6), where g = g and Q = Q]) (assumption | erule assms(7) | blast | rule assms(9,10))+
  then show ?thesis by (rule wpE_mono) simp_all
qed

lemma emit_still:
  assumes "rebuild_options env pb" and "conforms pb env ks s" and "\<not> terminal_event_type (f_type f)"
    and "\<And>ev. recorded env pb f ev \<Longrightarrow> legal pb env ks ev ks s s"
    and "\<And>s'. conforms pb env ks s' \<Longrightarrow> coordinator_view s' = coordinator_view s \<Longrightarrow> Q s'"
  shows "okE (emit env f) Q s"
  by (rule emit_step [OF assms(1-4) conforms_owned(1,2) [OF assms(2)], where g = "\<lambda>x. x" and Q = Q]) (simp_all add: assms(2,5))

section \<open>Kinds along the operations\<close>

lemma kinded_settle: "kinded ks s \<Longrightarrow> st \<noteq> Is_active \<Longrightarrow> kinded ks (set_item i st s)"
  by (auto simp: kinded_def)

lemma kinded_start: "kinded ks s \<Longrightarrow> kind \<noteq> Kind_tool_call \<Longrightarrow> kinded (AList.update i kind ks) (set_item i Is_active s)"
  by (auto simp: kinded_def)

lemma kinded_call_settled: "kinded ks s \<Longrightarrow> kinded ks (set_tool_call c st s)"
  by (auto simp: kinded_def set_tool_call_def item_status_def)

lemma kinded_turn [simp]:
  "kinded ks (s\<lparr>lc_status := ts, lc_blockingState := b\<rparr>) = kinded ks s" "kinded ks (set_approval a ap s) = kinded ks s"
  "kinded ks (own_approval a i s) = kinded ks s"
  by (simp_all add: kinded_def item_status_def set_approval_def own_approval_def)


section \<open>Operations\<close>

lemma startItem_conforms:
  assumes "rebuild_options env pb" and "conforms pb env ks s" and "map_of (lc_itemStatuses s) i = None"
    and "\<And>s'. conforms pb env (AList.update i kind ks) s' \<Longrightarrow> coordinator_view s' = coordinator_view (set_item i Is_active s) \<Longrightarrow> Q s'"
  shows "okE (startItem env i kind p) Q s"
proof -
  let ?f = "item_event E_item_started i (AList.update ''kind'' (PKind kind) p)"
  have "in_progress (set_item i Is_active s)" using conforms_owned(2) [OF assms(2)] by (simp add: in_progress_def set_item_def)
  then have "okE (emit env ?f) (\<lambda>s'. Q (set_item i Is_active s')) s"
    by (intro emit_step [OF assms(1,2) _ legal_item_started [OF _ assms(3)] owned_start_item, where Q = Q and g = "set_item i Is_active"])
      (rule update_views assms(4) conforms_owned [OF assms(2)] | assumption | simp add: terminal_event_type_def)+
  then show ?thesis by (simp add: startItem_def wp_eta transition_defs)
qed

lemma settleItem_conforms:
  assumes "rebuild_options env pb" and "conforms pb env ks s" and "kinded ks s" and st: "isTerminalItemStatus st" and "\<not> in_use s i"
    and "\<And>s'. conforms pb env ks s' \<Longrightarrow> kinded ks s' \<Longrightarrow> coordinator_view s' = coordinator_view (set_item i st s) \<Longrightarrow> Q s'"
  shows "okE (settleItem env i st p) Q s"
proof (cases "item_status s i = Is_active")
  case True
  have kept: "in_progress (set_item i st s)" "kinded ks (set_item i st s)"
    using conforms_owned(2) [OF assms(2)] kinded_settle [OF assms(3)] st by (auto simp: in_progress_def set_item_def isTerminalItemStatus_def)
  have "okE (emit env (item_event (item_settled_event st) i p)) (\<lambda>s'. Q (set_item i st s')) s"
  proof (rule emit_step [OF assms(1,2) _ legal_item_settled [OF _ st assms(3,5) True] owned_settle_item kept(1), where Q = Q and g = "set_item i st"])
    show "Q s'" if "conforms pb env ks s'" "coordinator_view s' = coordinator_view (set_item i st s)" for s'
      using that kinded_view [OF that(2)] kept(2) by (intro assms(6)) simp_all
  qed (rule update_views assms(5) conforms_owned [OF assms(2)] | assumption | simp add: settled_event_types)+
  then show ?thesis using True by (simp add: settleItem_def wp_eta item_settled_facts [OF st])
next
  case False
  then have "\<exists>e. transitionItemStatus (item_status s i) st = Inl e"
    using st by (cases "item_status s i"; cases st) (simp_all add: transition_defs isTerminalItemStatus_def)
  then show ?thesis by (auto simp: settleItem_def wp_simps)
qed

lemma settleToolCall_conforms:
  assumes "rebuild_options env pb" and s: "conforms pb env ks s" "kinded ks s" and st: "isTerminalItemStatus st"
    and Q: "\<And>s'. conforms pb env ks s' \<Longrightarrow> kinded ks s' \<Longrightarrow> (\<And>d. active_call s' d \<longleftrightarrow> d \<noteq> c \<and> active_call s d) \<Longrightarrow> Q s'"
  shows "okE (settleToolCall env c st p) Q s"
proof -
  note own = conforms_owned(1) [OF s(1)]
  let ?s = "set_tool_call c st s"
  have kept: "in_progress ?s" using conforms_owned(2) [OF s(1)] by (simp add: in_progress_def set_tool_call_def)
  have settled: "okE (emit env (tool_event (tool_call_settled_event st) i c q)) (\<lambda>s'. okE (settleItem env i st p) Q (set_tool_call c st s')) s"
    if c: "active_call s c" "map_of (lc_toolCallItems s) c = Some i" for i q
  proof (rule emit_step [OF assms(1) s(1) _ legal_call_settled [OF _ st c(1)] owned_settle_call [OF own st] kept,
        where Q = "okE (settleItem env i st p) Q" and g = "set_tool_call c st"])
    fix s1
    assume s1: "conforms pb env ks s1" "coordinator_view s1 = coordinator_view ?s"
    have "holds_call s c i" using c by (simp add: holds_call_def)
    then have "\<not> in_use ?s i" using own st by (auto simp: in_use_iff holds_settled isTerminalItemStatus_def owned_def)
    moreover have "kinded ks s1" using kinded_view [OF s1(2)] kinded_call_settled [OF s(2)] by simp
    ultimately show "okE (settleItem env i st p) Q s1"
    proof (intro settleItem_conforms [OF assms(1) s1(1) _ st])
      fix s2
      assume s2: "conforms pb env ks s2" "kinded ks s2" "coordinator_view s2 = coordinator_view (set_item i st s1)"
      then have "lc_toolCallStatuses s2 = AList.update c st (lc_toolCallStatuses s)" using s1(2) by (simp add: coordinator_view_def)
      then show "Q s2" using st by (intro Q s2) (auto simp: active_call_def isTerminalItemStatus_def)
    qed (use view_in_use [OF s1(2)] in simp_all)
  qed (rule update_views | assumption | simp add: settled_event_types)+
  show ?thesis
    unfolding settleToolCall_def wpE_bind
    by (rule requireActiveToolCall_wp; cases "map_of (lc_toolCallItems s) c")
      (use settled in \<open>auto simp: requireToolCallItem_def tool_settled_facts [OF st] wp_eta\<close>)
qed


lemma changeBlocking_conforms:
  assumes env: "rebuild_options env pb" and s: "conforms pb env ks s" and pb: "pb (Some (PBlocking b)) = Some b"
    and Q: "\<And>s' nxt. conforms pb env ks s' \<Longrightarrow> coordinator_view s' = coordinator_view (s\<lparr>lc_status := nxt, lc_blockingState := b\<rparr>) \<Longrightarrow> Q s'"
  shows "okE (changeBlocking env b) Q s"
proof (cases "blocked_status b (lc_status s)")
  case (Inl e)
  have "okE (emit env (turn_event E_turn_blocking_changed [(''blockingState'', PBlocking b)])) (\<lambda>s'. lc_status s' = lc_status s) s"
    by (rule wpE_mono [OF emit_records [OF env conforms_owned(3) [OF s]]])
      (auto simp: terminal_event_type_def coordinator_view_def dest: view_work)
  then show ?thesis unfolding changeBlocking_wp by (rule wpE_mono) (simp_all add: Inl)
next
  case (Inr nxt)
  let ?g = "\<lambda>s. s\<lparr>lc_status := if isTerminal s then lc_status s else nxt, lc_blockingState := b\<rparr>"
  let ?w = "s\<lparr>lc_status := nxt, lc_blockingState := b\<rparr>"
  note open_s = in_progress_open [OF conforms_owned(2) [OF s]]
  have w: "in_progress ?w" "owned ?w"
    using conforms_owned [OF s] Inr by (auto simp: in_progress_def blocked_status_def transition_defs owned_turn split: if_splits)
  have "okE (emit env (turn_event E_turn_blocking_changed [(''blockingState'', PBlocking b)]))
      (\<lambda>s'. coordinator_view s' = coordinator_view s \<and> Q (?g s')) s"
  proof (rule emit_conforms [OF env s _ legal_blocking [where pb = pb, OF _ pb] w(2,1), where Q = Q and g = ?g])
    fix s' :: "MemoryLifecycleEventStore lc_state"
    assume view: "coordinator_view s' = coordinator_view s"
    then have "\<not> isTerminal s'" using view_terminal [OF view] open_s by simp
    then show "coordinator_view (?g s') = coordinator_view ?w" and "in_sync env s' \<Longrightarrow> in_sync env (?g s')"
      using view in_progress_open [OF w(1)] by (auto simp: coordinator_view_def log_synced_def isTerminal_def)
  qed (use Q in \<open>auto simp: terminal_event_type_def\<close>)
  then show ?thesis
    unfolding changeBlocking_wp
  proof (rule wpE_mono)
    fix s' :: "MemoryLifecycleEventStore lc_state"
    assume *: "coordinator_view s' = coordinator_view s \<and> Q (?g s')"
    then have "isTerminal s' = isTerminal s" "lc_status s' = lc_status s" using view_terminal by (auto simp: coordinator_view_def)
    with * Inr open_s show "case blocked_status b (lc_status s') of Inl e \<Rightarrow> True
      | Inr n \<Rightarrow> Q (s'\<lparr>lc_status := n, lc_blockingState := b\<rparr>)" by simp
  qed simp
qed

definition conforming where
  "conforming pb env s \<longleftrightarrow> (\<exists>ks. conforms pb env ks s \<and> kinded ks s)"

lemma requestApproval_conforms:
  assumes env: "rebuild_options env pb" and s: "conforming pb env s" and i: "map_of (lc_itemStatuses s) i = None" "\<not> in_use s i"
  shows "okE (requestApproval env parent a i p) (conforming pb env) s"
proof -
  let ?b = "Waiting_for_approval i a" and ?g = "\<lambda>s. own_approval a i (set_approval a Ap_pending s)"
  obtain ks where ks: "conforms pb env ks s" "kinded ks s" using s by (auto simp: conforming_def)
  let ?ks = "AList.update i Kind_approval_request ks"
  have "okE (emit env (approval_event E_approval_requested i a p)) (\<lambda>s'. okE (changeBlocking env ?b) (conforming pb env) (?g s')) s1"
    if s1: "conforms pb env ?ks s1" "coordinator_view s1 = coordinator_view (set_item i Is_active s)" for s1
  proof (rule emit_step [OF env s1(1) _ legal_requested, where Q = "okE (changeBlocking env ?b) (conforming pb env)" and g = ?g])
    have kinds: "kinded ?ks s1" using kinded_view [OF s1(2)] kinded_start [OF ks(2)] by simp
    show "item_status s1 i = Is_active" using s1(2) by (simp add: coordinator_view_def item_status_def)
    show "owned (?g s1)" using i view_in_use [OF s1(2)] by (intro owned_request conforms_owned(1) [OF s1(1)]) simp
    show "in_progress (?g s1)" using conforms_owned(2) [OF s1(1)] by (simp add: in_progress_def)
    fix s2 ev
    assume s2: "conforms pb env ?ks s2" "coordinator_view s2 = coordinator_view (?g s1)" "recorded env pb (approval_event E_approval_requested i a p) ev"
    have pb: "pb (Some (PBlocking ?b)) = Some ?b" using s2(3) by (simp add: recorded_def)
    have "kinded ?ks s2" using kinded_view [OF s2(2)] kinds by simp
    then show "okE (changeBlocking env ?b) (conforming pb env) s2"
      by (intro changeBlocking_conforms [OF env s2(1) pb]) (auto simp: conforming_def dest: kinded_view)
  qed ((intro update_views, assumption) | simp add: terminal_event_type_def)+
  then show ?thesis
    unfolding requestApproval_def wpE_block_Cons
    by (intro startItem_conforms [OF env ks(1) i(1)]) (simp_all add: wp_eta own_approval_def)
qed


lemma decideApproval_conforms:
  assumes env: "rebuild_options env pb" and s: "conforming pb env s"
  shows "okE (decideApproval env a st p) (conforming pb env) s"
proof -
  let ?ist = "if st = Ap_approved then Is_completed else Is_declined"
  obtain ks where ks: "conforms pb env ks s" "kinded ks s" using s by (auto simp: conforming_def)
  note own = conforms_owned(1) [OF ks(1)]
  have none: "pb (Some (PBlocking Blocking_none)) = Some Blocking_none" using env by (simp add: rebuild_options_def projector_schema_def)
  let ?tail = "\<lambda>q. okE (changeBlocking env Blocking_none) (wpE (requireApprovalItem a) (\<lambda>i. okE (settleItem env i ?ist q) (conforming pb env)) (\<lambda>_ _. True))"
  have tail: "?tail q s'"
    if s': "conforms pb env ks s'" "kinded ks s'" "map_of (lc_approvalItems s') a = Some i" "\<not> in_use s' i" for s' i q
  proof (rule changeBlocking_conforms [where pb = pb, OF env s'(1) none])
    fix s2 nxt
    assume s2: "conforms pb env ks s2" "coordinator_view s2 = coordinator_view (s'\<lparr>lc_status := nxt, lc_blockingState := Blocking_none\<rparr>)"
    have "\<not> in_use s2 i" using view_in_use [OF s2(2)] s'(4) by simp
    moreover have "kinded ks s2" using kinded_view [OF s2(2)] s'(2) by simp
    ultimately have "okE (settleItem env i ?ist q) (conforming pb env) s2"
      by (intro settleItem_conforms [OF env s2(1)]) (auto simp: isTerminalItemStatus_def conforming_def)
    moreover have "map_of (lc_approvalItems s2) a = Some i" using s2(2) s'(3) by (simp add: coordinator_view_def)
    ultimately show "wpE (requireApprovalItem a) (\<lambda>i. okE (settleItem env i ?ist q) (conforming pb env)) (\<lambda>_ _. True) s2"
      by (simp add: requireApprovalItem_wp)
  qed
  have decided: "okE (emit env (approval_event E_approval_decided i a (AList.update ''status'' (PApproval st) p))) (\<lambda>s'. ?tail q (set_approval a st s')) s"
    if a: "pending_approval s a" "map_of (lc_approvalItems s) a = Some i" and tr: "transitionApprovalStatus Ap_pending st = Inr st" for i q
  proof (rule emit_step [OF env ks(1) _ legal_decided [OF _ tr a(1)], where g = "set_approval a st" and Q = "?tail q"])
    have "st \<noteq> Ap_pending" using tr by (auto simp: transition_defs)
    then show "owned (set_approval a st s)" by (rule owned_decide [OF own])
    show "in_progress (set_approval a st s)" using conforms_owned(2) [OF ks(1)] by (simp add: in_progress_def set_approval_def)
    have "awaited s i" using a by (auto simp: awaited_iff holds_approval_def)
    then have free: "\<not> in_use s i" using own by (auto simp: owned_def)
    fix s'
    assume s': "conforms pb env ks s'" "coordinator_view s' = coordinator_view (set_approval a st s)"
    show "?tail q s'"
      using s' free view_in_use [OF s'(2)] kinded_view [OF s'(2)] ks(2) a(2) by (intro tail) (simp_all add: coordinator_view_def)
  qed ((intro update_views, assumption) | simp add: terminal_event_type_def)+
  show ?thesis by (rule decideApproval_wp [OF own]) (use decided in simp_all)
qed


lemma cancelPendingApprovals_conforms:
  assumes "rebuild_options env pb" and "conforming pb env s"
  shows "okE (cancelPendingApprovals env r) (conforming pb env) s"
  unfolding cancelPendingApprovals_def wpE_bind wpE_get
  by (rule wpE_for_inv [where I = "\<lambda>_. conforming pb env"])
    (use assms decideApproval_conforms [OF assms(1)] in \<open>auto simp: wpE_when split: prod.splits\<close>)

lemma settleOpenWork_conforms:
  assumes env: "rebuild_options env pb" and s: "conforming pb env s" and st: "isTerminalItemStatus st"
  shows "okE (settleOpenWork env st p) (conforming pb env) s"
proof (rule settleOpenWork_wp [where I = "conforming pb env", OF s])
  fix i c :: string and s'
  assume s': "conforming pb env s'"
  then obtain ks where ks: "conforms pb env ks s'" "kinded ks s'" by (auto simp: conforming_def)
  show "okE (settleToolCall env c st p) (\<lambda>s''. conforming pb env s'' \<and> (\<forall>d. active_call s'' d \<longleftrightarrow> d \<noteq> c \<and> active_call s' d)) s'"
    by (rule settleToolCall_conforms [OF env ks st]) (auto simp: conforming_def)
  assume "\<forall>c. \<not> active_call s' c"
  then show "okE (settleItem env i st p) (\<lambda>s''. conforming pb env s'' \<and> (\<forall>c. \<not> active_call s'' c)) s'"
    by (intro settleItem_conforms [OF env ks st idle_free]) (auto simp: conforming_def dest: view_active)
qed

lemma message_conforms:
  assumes env: "rebuild_options env pb" and s: "conforming pb env s" and i: "map_of (lc_itemStatuses s) i = None" "\<not> in_use s i"
    and k: "k \<noteq> Kind_tool_call" and t: "delta_kind t k"
    and rest: "\<And>s'. conforming pb env s' \<Longrightarrow> okE (block ms) Q s'"
  shows "okE (block (startItem env i k p # forE ds (\<lambda>d. emit env (item_event t i (q d))) # settleItem env i Is_completed r # ms)) Q s"
proof -
  obtain ks where ks: "conforms pb env ks s" "kinded ks s" using s by (auto simp: conforming_def)
  let ?ks = "AList.update i k ks" and ?s = "set_item i Is_active s"
  have deltas: "okE (forE ds (\<lambda>d. emit env (item_event t i (q d)))) (\<lambda>s'. conforms pb env ?ks s' \<and> coordinator_view s' = coordinator_view ?s) s1"
    if "conforms pb env ?ks s1" "coordinator_view s1 = coordinator_view ?s" for s1
  proof (rule wpE_for_inv [where I = "\<lambda>_ s'. conforms pb env ?ks s' \<and> coordinator_view s' = coordinator_view ?s"])
    fix d s'
    assume s': "conforms pb env ?ks s' \<and> coordinator_view s' = coordinator_view ?s"
    then have "item_status s' i = Is_active" by (simp add: coordinator_view_def item_status_def)
    then show "okE (emit env (item_event t i (q d))) (\<lambda>s'. conforms pb env ?ks s' \<and> coordinator_view s' = coordinator_view ?s) s'"
      using s' t by (intro emit_still [OF env] legal_item_delta [OF _ t]) (auto simp: delta_kind_def terminal_event_type_def)
  qed (use that in auto)
  have "okE (settleItem env i Is_completed r) (okE (block ms) Q) s2" if s2: "conforms pb env ?ks s2" "coordinator_view s2 = coordinator_view ?s" for s2
    using i view_in_use [OF s2(2)] kinded_view [OF s2(2)] kinded_start [OF ks(2) k] rest
    by (intro settleItem_conforms [OF env s2(1)]) (auto simp: conforming_def isTerminalItemStatus_def)
  then show ?thesis
    unfolding wpE_block_Cons by (intro startItem_conforms [OF env ks(1) i(1)] wpE_mono [OF deltas]) auto
qed


lemma kinded_start_call:
  assumes "kinded ks s" and "map_of (lc_toolCallStatuses s) c = None"
  shows "kinded (AList.update i Kind_tool_call ks) (own_call c i (set_tool_call c Is_active (set_item i Is_active s)))"
proof -
  have "map_of (lc_toolCallItems s) c = None" using assms unfolding kinded_def by blast
  then have fresh: "c \<notin> fst ` set (lc_toolCallItems s)" by (simp only: map_of_eq_None_iff simp_thms)
  then have "AList.update c i (lc_toolCallItems s) = lc_toolCallItems s @ [(c, i)]" by (rule update_fresh)
  then show ?thesis using assms fresh by (auto simp: kinded_def image_iff)
qed

lemma startToolCall_conforms:
  assumes env: "rebuild_options env pb" and s: "conforming pb env s" and i: "map_of (lc_itemStatuses s) i = None" "\<not> in_use s i" "\<not> awaited s i"
    and c: "map_of (lc_toolCallStatuses s) c = None"
  shows "okE (startToolCall env i c n inp b d) (conforming pb env) s"
proof -
  let ?T = "conforming pb env"
  let ?g = "\<lambda>s. let s1 = (set_tool_call c Is_active s)\<lparr>lc_toolCallNames := AList.update c n (lc_toolCallNames s)\<rparr>;
      s2 = (if truthy b then s1\<lparr>lc_toolCallBatches := AList.update c (the b) (lc_toolCallBatches s)\<rparr> else s1) in
    s2\<lparr>lc_toolCallItems := AList.update c i (lc_toolCallItems s)\<rparr>"
  let ?last = "tool_event E_tool_call_input_delta i c [(''input'', PObj inp)]"
  obtain ks where ks: "conforms pb env ks s" "kinded ks s" using s by (auto simp: conforming_def)
  let ?ks = "AList.update i Kind_tool_call ks" and ?own = "\<lambda>s. own_call c i (set_tool_call c Is_active s)"
  have started: "okE (emit env (tool_event E_tool_call_started i c q)) (\<lambda>s'. okE (emit env ?last) ?T (?g s')) s1"
    if s1: "conforms pb env ?ks s1" "coordinator_view s1 = coordinator_view (set_item i Is_active s)" for s1 q
  proof (rule emit_step [OF env s1(1) _ legal_call_started, where g = ?g and Q = "okE (emit env ?last) ?T"])
    show active: "item_status s1 i = Is_active" using s1(2) by (simp add: coordinator_view_def item_status_def)
    show "map_of (lc_toolCallStatuses s1) c = None" using s1(2) c by (simp add: coordinator_view_def)
    show "owned (?own s1)"
      using i active view_in_use [OF s1(2)] view_awaited [OF s1(2)] by (intro owned_start_call conforms_owned [OF s1(1)]) simp_all
    show "in_progress (?own s1)" using conforms_owned(2) [OF s1(1)] by (simp add: in_progress_def)
    fix s2
    assume s2: "conforms pb env ?ks s2" "coordinator_view s2 = coordinator_view (?own s1)"
    have "coordinator_view s2 = coordinator_view (?own (set_item i Is_active s))" unfolding s2(2) by (intro update_views s1(2))
    then have "kinded ?ks s2" "active_call s2 c"
      using kinded_view kinded_start_call [OF ks(2) c] by (blast, simp add: coordinator_view_def active_call_def)
    then show "okE (emit env ?last) ?T s2"
      by (intro emit_still [OF env s2(1)] legal_call_delta) (auto simp: terminal_event_type_def conforming_def dest: kinded_view)
  qed (auto simp: Let_def coordinator_view_def own_call_def terminal_event_type_def log_synced_def isTerminal_def set_tool_call_def)
  show ?thesis
    unfolding startToolCall_def Let_def wpE_block_Cons
    by (rule startItem_conforms [OF env ks(1) i(1)]; cases "truthy b")
      (use started in \<open>simp_all add: wp_eta transition_defs Let_def set_tool_call_def\<close>)
qed

section \<open>The end of the turn\<close>

definition contract_settled where
  "contract_settled pb env s \<longleftrightarrow> isTerminal s \<and> (\<exists>cs. contract_replay pb (map client_event (turn_log env s)) = Inr cs \<and>
     cs_status cs = lc_status s \<and> cs_items cs = lc_itemStatuses s \<and> cs_toolCalls cs = lc_toolCallStatuses s \<and>
     cs_approvals cs = lc_approvalStatuses s \<and> cs_terminalEvents cs = 1)"

lemma legal_attempt_settled:
  assumes "recorded env pb (turn_event (attempt_terminal_event st) p) ev" and "sequence ev = Suc n"
  shows "contract_apply pb (client_event ev) (contract_state env ks s n) =
    Inr ((contract_state env ks s (Suc n))\<lparr>cs_runAttempts := [(opt_runAttemptId env, attempt_of_terminal st)]\<rparr>)"
proof -
  have "etype ev = attempt_terminal_event st" "runAttemptId ev = opt_runAttemptId env" "threadId ev = opt_threadId env" "turnId ev = opt_turnId env"
    using assms(1) by (simp_all add: recorded_def)
  then show ?thesis
    using assms(2) by (cases st) (simp_all add: contract_apply_def assertNextLifecycleSequence_def bindReplayScope_def assertMatchingScope_def
        contract_dispatch setRunAttemptStatus_def transition_defs advance_def contract_state_def)
qed

lemma legal_terminal:
  fixes outcome
  defines "st \<equiv> outcome_status outcome"
  assumes ev: "recorded env pb (turn_event (turn_terminal_event st) [(''outcome'', outcome_value outcome)]) ev" and n: "sequence ev = Suc n"
    and settled: "settled_work s" and calls: "list_all (\<lambda>(c, st). isTerminalItemStatus st) (lc_toolCallStatuses s)"
  shows "\<exists>cs. contract_apply pb (client_event ev)
      ((contract_state env ks s n)\<lparr>cs_runAttempts := [(opt_runAttemptId env, attempt_of_terminal st)]\<rparr>) = Inr cs \<and> assertTerminalSettlement cs = Inr () \<and>
    cs_status cs = turn_of_terminal st \<and> cs_items cs = lc_itemStatuses s \<and> cs_toolCalls cs = lc_toolCallStatuses s \<and>
    cs_approvals cs = lc_approvalStatuses s \<and> cs_terminalEvents cs = 1 \<and> cs_accepted cs"
proof -
  let ?cs = "(contract_state env ks s n)\<lparr>cs_runAttempts := [(opt_runAttemptId env, attempt_of_terminal st)]\<rparr>"
  let ?final = "(advance ?cs (Suc n))\<lparr>cs_status := turn_of_terminal st, cs_terminalOutcome := Some outcome, cs_terminalEvents := 1\<rparr>"
  have f: "etype ev = turn_terminal_event st" "threadId ev = opt_threadId env" "turnId ev = opt_turnId env"
    "map_of (payload ev) ''outcome'' = Some (outcome_value outcome)"
    using ev by (simp_all add: recorded_def status_keys_def)
  have "List.find (\<lambda>(_, st). st = Is_not_started \<or> st = Is_active) (lc_toolCallStatuses s) = None"
    using calls by (auto simp: find_None_iff list_all_iff isTerminalItemStatus_def)
  moreover have "validateTerminalSettlement \<lparr>ts_turnStatus = turn_of_terminal st, ts_terminalOutcome = Some outcome,
      ts_blockingState = lc_blockingState s, ts_itemStatuses = lc_itemStatuses s, ts_approvalStatuses = lc_approvalStatuses s\<rparr> = Inr ()"
    using settled by (simp add: validateTerminalSettlement_Inr settled_work_def st_def)
  ultimately have settlement: "assertTerminalSettlement ?final = Inr ()"
    by (cases st) (simp_all add: assertTerminalSettlement_def advance_def assertNoActiveRunAttempts_def assertNoActiveToolCalls_def
        assertNoPendingRequests_def)
  moreover have "contract_apply pb (client_event ev) ?cs = Inr ?final"
    using f n settlement by (cases st) (simp_all add: contract_apply_def assertNextLifecycleSequence_def bindReplayScope_def assertMatchingScope_def
        contract_dispatch applyTerminalTurn_def contract_guards transition_defs advance_def)
  ultimately show ?thesis by (intro exI [where x = ?final]) (simp add: advance_def)
qed


lemma settleTurn_conforms:
  assumes env: "rebuild_options env pb" and s: "conforming pb env s"
  shows "okE (settleTurn env outcome) (contract_settled pb env) s"
proof -
  let ?st = "outcome_status outcome"
  obtain ks where ks: "conforms pb env ks s" using s by (auto simp: conforming_def)
  note own = conforms_owned [OF ks]
  show ?thesis
  proof (rule wpE_mono [OF settleTurn_records [OF env own(3) in_progress_open [OF own(2)], where outcome = outcome, unfolded Let_def]])
    fix s'
    assume "settled_work s \<and> (\<exists>ev1 ev2. transitionTurnStatus (lc_status s) (turn_of_terminal ?st) = Inr (turn_of_terminal ?st) \<and>
        recorded env pb (turn_event (attempt_terminal_event ?st) (attempt_payload outcome)) ev1 \<and>
        recorded env pb (turn_event (turn_terminal_event ?st) [(''outcome'', outcome_value outcome)]) ev2 \<and>
        sequence ev1 = Suc (lc_sequence s) \<and> sequence ev2 = Suc (Suc (lc_sequence s)) \<and>
        turn_log env s' = turn_log env s @ [ev1, ev2] \<and> coordinator_view s' = coordinator_view (s\<lparr>lc_status := turn_of_terminal ?st\<rparr>))"
    then obtain ev1 ev2 where settled: "settled_work s" and
      ev: "recorded env pb (turn_event (attempt_terminal_event ?st) (attempt_payload outcome)) ev1" "sequence ev1 = Suc (lc_sequence s)"
        "recorded env pb (turn_event (turn_terminal_event ?st) [(''outcome'', outcome_value outcome)]) ev2" "sequence ev2 = Suc (Suc (lc_sequence s))"
      and log: "turn_log env s' = turn_log env s @ [ev1, ev2]" and view: "coordinator_view s' = coordinator_view (s\<lparr>lc_status := turn_of_terminal ?st\<rparr>)"
      by blast
    have len: "length (turn_log env s) = lc_sequence s" using own(3) by (simp add: log_synced_def)
    obtain cs where cs: "contract_apply pb (client_event ev2)
        ((contract_state env ks s (Suc (lc_sequence s)))\<lparr>cs_runAttempts := [(opt_runAttemptId env, attempt_of_terminal ?st)]\<rparr>) = Inr cs"
      "assertTerminalSettlement cs = Inr ()" "cs_status cs = turn_of_terminal ?st" "cs_items cs = lc_itemStatuses s"
      "cs_toolCalls cs = lc_toolCallStatuses s" "cs_approvals cs = lc_approvalStatuses s" "cs_terminalEvents cs = 1" "cs_accepted cs"
      using legal_terminal [OF ev(3,4) settled settled_calls [OF own(1) settled], of ks] by blast
    have "contract_fold pb (turn_log env s') = Inr cs"
      using ks len legal_attempt_settled [OF ev(1,2), where s = s] cs(1) by (simp add: log conforms_def fold_sum_append)
    then have "contract_replay pb (map client_event (turn_log env s')) = Inr cs"
      using cs by (simp add: contract_replay_def assertAcceptedTurnSettled_def)
    moreover have "isTerminal s'" using view by (cases ?st) (simp_all add: coordinator_view_def isTerminal_def)
    ultimately show "contract_settled pb env s'" using cs view by (simp add: contract_settled_def coordinator_view_def)
  qed simp
qed

lemma start_conforms:
  assumes env: "rebuild_options env pb" and k: "canonical_store k" "lifecycle_log k (opt_turnId env) = []"
  shows "okE (start env) (conforming pb env) (lc_init 0 ticks k)"
proof -
  let ?s = "lc_init 0 ticks k"
  have sync: "in_sync env ?s" and own: "owned ?s" using init_tracked [OF k, of pb ticks] by (simp_all add: tracked_def)
  have kept: "wpE (start env) (\<lambda>_. in_sync env) (\<lambda>_. in_sync env) ?s"
    using lifecycle_sink.start_synced [OF rebuild_sink [OF env]] sync by (simp add: keeps_wp)
  show ?thesis
  proof (rule wpE_mono [OF wpE_conj [OF start_records [OF env sync] kept]], elim conjE exE)
    fix s' p1 p2 p3 ev1 ev2 ev3
    assume ev: "recorded env pb (turn_event E_turn_queued p1) ev1" "recorded env pb (turn_event E_turn_started p2) ev2"
        "recorded env pb (turn_event E_run_attempt_started p3) ev3" "sequence ev1 = Suc (lc_sequence ?s)"
        "sequence ev2 = Suc (Suc (lc_sequence ?s))" "sequence ev3 = Suc (Suc (Suc (lc_sequence ?s)))"
      and log: "turn_log env s' = turn_log env ?s @ [ev1, ev2, ev3]" and view: "coordinator_view s' = coordinator_view (?s\<lparr>lc_status := Ts_in_progress\<rparr>)"
      and sync': "in_sync env s'"
    have empty: "lc_itemStatuses s' = []" "lc_toolCallStatuses s' = []" "lc_toolCallItems s' = []" "lc_approvalStatuses s' = []"
      "lc_blockingState s' = Blocking_none" "lc_status s' = Ts_in_progress"
      using view by (simp_all add: coordinator_view_def lc_init_def)
    have f: "etype ev1 = E_turn_queued" "etype ev2 = E_turn_started" "etype ev3 = E_run_attempt_started" "runAttemptId ev3 = opt_runAttemptId env"
      "threadId ev1 = opt_threadId env" "threadId ev2 = opt_threadId env" "threadId ev3 = opt_threadId env"
      "turnId ev1 = opt_turnId env" "turnId ev2 = opt_turnId env" "turnId ev3 = opt_turnId env"
      using ev by (simp_all add: recorded_def)
    have "lc_sequence ?s = 0" "turn_log env ?s = []" using k by (simp_all add: lc_init_def)
    then have "contract_fold pb (turn_log env s') = Inr (contract_state env [] s' (length (turn_log env s')))"
      using ev(4-6) f empty by (simp add: log contract_apply_def assertNextLifecycleSequence_def createInitialState_def bindReplayScope_def
          assertMatchingScope_def contract_dispatch applyTurnQueued_def applyTurnStarted_def contract_guards setRunAttemptStatus_def
          transition_defs advance_def contract_state_def)
    then have "conforms pb env [] s'"
      using sync' own owned_view [OF view] empty(6) by (simp add: conforms_def in_progress_def owned_turn)
    moreover have "kinded [] s'" using empty by (simp add: kinded_def)
    ultimately show "conforming pb env s'" by (auto simp: conforming_def)
  qed simp
qed


section \<open>Clean runs\<close>

text \<open>
  What the contract wants of the callers beyond discipline: no item and no tool call is started twice, and there is no
  commentary, whose deltas the contract allows for an assistant message only.
\<close>

definition unused_item :: "'st lc_state \<Rightarrow> string \<Rightarrow> bool" where
  "unused_item s i \<longleftrightarrow> map_of (lc_itemStatuses s) i = None"

definition orderly :: "'st lc_state \<Rightarrow> lc_command \<Rightarrow> bool" where
  "orderly s c \<longleftrightarrow> disciplined s c \<and> (case c of
     Start \<Rightarrow> lc_status s = Ts_queued
   | StartToolCall i c n inp b d \<Rightarrow> unused_item s i \<and> map_of (lc_toolCallStatuses s) c = None
   | AppendAssistantCommentary i x \<Rightarrow> trim x = []
   | AppendAssistantReasoning i x ds \<Rightarrow> unused_item s i
   | RequestContextCompaction p \<Rightarrow> unused_item s (cc_itemId p)
   | RequestApproval parent a i p \<Rightarrow> unused_item s i
   | Complete x i \<Rightarrow> unused_item s i
   | _ \<Rightarrow> True)"

text \<open>Every operation of a clean run returns.\<close>

primrec clean_run :: "'st lc_options \<Rightarrow> lc_command list \<Rightarrow> 'st lc_state \<Rightarrow> bool" where
  "clean_run env [] s = True"
| "clean_run env (c # cs) s = (orderly s c \<and> \<not> isl (fst (lc_exec env c s)) \<and> clean_run env cs (snd (lc_exec env c s)))"

definition lawful where
  "lawful pb env s \<longleftrightarrow> conforming pb env s \<or> contract_settled pb env s"

lemma free_open: "t \<notin> constrained_types \<Longrightarrow> \<not> terminal_event_type t"
  by (auto simp: constrained_types_def terminal_event_type_def)

lemma emit_free:
  assumes "rebuild_options env pb" and "conforming pb env s" and "f_type f \<notin> constrained_types"
    and "\<And>s'. conforming pb env s' \<Longrightarrow> Q s'"
  shows "okE (emit env f) Q s"
proof -
  obtain ks where ks: "conforms pb env ks s" "kinded ks s" using assms(2) by (auto simp: conforming_def)
  show ?thesis
    using ks(2) free_open [OF assms(3)] by (intro emit_still [OF assms(1) ks(1)] legal_free [OF assms(3)] assms(4)) (auto simp: conforming_def dest: kinded_view)
qed

lemma free_ops_conform:
  assumes env: "rebuild_options env pb" and s: "conforming pb env s"
  shows "okE (createArtifact env i v) (conforming pb env) s" "okE (captureWorkspaceSnapshot env v) (conforming pb env) s"
    "okE (markWorkspaceSnapshotUnavailable env r) (conforming pb env) s" "okE (appendHookAudit env t p) (conforming pb env) s"
    "okE (createTurnArtifact env v) (conforming pb env) s" "okE (updateTurnDiff env v) (conforming pb env) s"
    "okE (updateContextBudget env v) (conforming pb env) s" "okE (updateUsage env v) (conforming pb env) s"
    "okE (voidE (applyThreadInput env inputId acc step revision)) (conforming pb env) s"
  unfolding lc_op_defs using s
  by (auto simp: wp_simps free_types split: sum.splits intro!: emit_free [OF env s])


lemma conforming_bookkeeping [simp]:
  "conforming pb env (s\<lparr>lc_acceptedInputSequences := x\<rparr>) = conforming pb env s"
  "conforming pb env (s\<lparr>lc_completionReserved := b\<rparr>) = conforming pb env s"
  by (simp_all add: conforming_def conforms_def kinded_def contract_state_def in_progress_def log_synced_def isTerminal_def owned_def
      in_use_iff awaited_iff holds_defs item_status_def)

lemma input_ops_conform:
  assumes env: "rebuild_options env pb" and s: "conforming pb env s"
  shows "okE (voidE (acceptThreadInput env inp after_append)) (conforming pb env) s" "okE (voidE (reserveCompletion pending)) (conforming pb env) s"
  unfolding acceptThreadInput_def reserveCompletion_def voidE_def using s
  by (auto simp: wp_simps free_types split: sum.splits option.splits intro!: emit_free [OF env s])

lemma call_ops_conform:
  assumes env: "rebuild_options env pb" and s: "conforming pb env s"
  shows "okE (appendToolOutput env c x) (conforming pb env) s" "okE (completeToolCall env c result) (conforming pb env) s"
    "okE (failToolCall env c failure) (conforming pb env) s" "okE (declineToolCall env c r) (conforming pb env) s"
proof -
  obtain ks where ks: "conforms pb env ks s" "kinded ks s" using s by (auto simp: conforming_def)
  have settled: "okE (settleToolCall env c st p) (conforming pb env) s" if "isTerminalItemStatus st" for st p
    by (rule settleToolCall_conforms [OF env ks that]) (auto simp: conforming_def)
  then show "okE (completeToolCall env c result) (conforming pb env) s" "okE (failToolCall env c failure) (conforming pb env) s"
    "okE (declineToolCall env c r) (conforming pb env) s"
    by (simp_all add: completeToolCall_def failToolCall_def declineToolCall_def isTerminalItemStatus_def)
  have "okE (emit env (tool_event E_tool_call_output_delta i c p)) (conforming pb env) s" if "active_call s c" for i p
    using that ks by (intro emit_still [OF env ks(1)] legal_call_delta) (auto simp: terminal_event_type_def conforming_def dest: kinded_view)
  then show "okE (appendToolOutput env c x) (conforming pb env) s"
    unfolding appendToolOutput_def wpE_bind
    by (intro requireActiveToolCall_wp) (auto simp: requireToolCallItem_def wp_simps)
qed

lemma compaction_ops_conform:
  assumes env: "rebuild_options env pb" and s: "conforming pb env s"
  shows "unused_item s (cc_itemId p) \<Longrightarrow> okE (requestContextCompaction env p) (conforming pb env) s"
    "\<not> in_use s (cc_itemId p) \<Longrightarrow> okE (settleContextCompaction env p) (conforming pb env) s"
proof -
  obtain ks where ks: "conforms pb env ks s" "kinded ks s" using s by (auto simp: conforming_def)
  show "okE (requestContextCompaction env p) (conforming pb env) s" if "unused_item s (cc_itemId p)"
    unfolding requestContextCompaction_def wpE_block_Cons wpE_block_Nil
  proof (rule startItem_conforms [OF env ks(1)])
    fix s'
    let ?ks = "AList.update (cc_itemId p) Kind_context_compaction ks"
    assume s': "conforms pb env ?ks s'" "coordinator_view s' = coordinator_view (set_item (cc_itemId p) Is_active s)"
    then have "conforming pb env s'" using kinded_view [OF s'(2)] kinded_start [OF ks(2)] by (auto simp: conforming_def)
    then show "okE (emit env (item_event E_context_compaction_requested (cc_itemId p) (compaction_json (p\<lparr>cc_phase := ''requested''\<rparr>))))
        (okE (emit env (item_event E_context_compaction_started (cc_itemId p) (compaction_json (p\<lparr>cc_phase := ''compacting''\<rparr>)))) (conforming pb env)) s'"
      by (intro emit_free [OF env]) (simp_all add: free_types)
  qed (use that in \<open>simp add: unused_item_def\<close>)
  have "okE (block [emit env (item_event t (cc_itemId p) q), settleItem env (cc_itemId p) st r]) (conforming pb env) s"
    if free: "\<not> in_use s (cc_itemId p)" and t: "t \<notin> constrained_types" "isTerminalItemStatus st" for t q st r
    unfolding wpE_block_Cons wpE_block_Nil
  proof (rule emit_still [OF env ks(1)])
    show "okE (settleItem env (cc_itemId p) st r) (conforming pb env) s'" if s': "conforms pb env ks s'" "coordinator_view s' = coordinator_view s" for s'
      using free view_in_use [OF s'(2)] kinded_view [OF s'(2)] ks(2) t(2)
      by (intro settleItem_conforms [OF env s'(1)]) (auto simp: conforming_def)
    show "legal pb env ks ev ks s s" if "recorded env pb (item_event t (cc_itemId p) q) ev" for ev
      by (rule legal_free [OF _ that]) (simp add: t)
  qed (simp add: t free_open)
  then show "okE (settleContextCompaction env p) (conforming pb env) s" if "\<not> in_use s (cc_itemId p)"
    using that unfolding settleContextCompaction_def by (simp add: free_types isTerminalItemStatus_def del: block.simps)
qed


lemma message_ops_conform:
  assumes env: "rebuild_options env pb" and s: "conforming pb env s" and i: "unused_item s i" "\<not> in_use s i"
  shows "okE (appendAssistantReasoning env i x ds) (conforming pb env) s" "okE (complete env x i) (contract_settled pb env) s"
proof -
  note message = message_conforms [OF env s i(1) [unfolded unused_item_def] i(2)]
  show "okE (appendAssistantReasoning env i x ds) (conforming pb env) s"
    using s by (auto simp: appendAssistantReasoning_def wp_simps(1) wpE_block_Nil delta_kind_def simp del: block.simps intro!: message)
  have "okE (block [settleTurn env Outcome_completed]) (contract_settled pb env) s'" if "conforming pb env s'" for s'
    unfolding wpE_block_Cons wpE_block_Nil by (rule settleTurn_conforms [OF env that])
  then show "okE (complete env x i) (contract_settled pb env) s"
    unfolding complete_def by (intro message) (simp_all add: delta_kind_def)
qed

lemma closing_ops_conform:
  assumes env: "rebuild_options env pb" and s: "conforming pb env s"
  shows "okE (fail env failure) (contract_settled pb env) s" "okE (interrupt env r) (contract_settled pb env) s"
proof -
  have "okE (block [cancelPendingApprovals env r, settleOpenWork env st p, settleTurn env outcome]) (contract_settled pb env) s"
    if "isTerminalItemStatus st" for r st p outcome
    unfolding wpE_block_Cons wpE_block_Nil
    by (intro wpE_mono [OF cancelPendingApprovals_conforms [OF env s]] wpE_mono [OF settleOpenWork_conforms [OF env _ that]] settleTurn_conforms [OF env]) simp_all
  then show "okE (fail env failure) (contract_settled pb env) s" "okE (interrupt env r) (contract_settled pb env) s"
    by (simp_all only: fail_def interrupt_def isTerminalItemStatus_def) simp_all
qed

lemma exec_lawful:
  assumes env: "rebuild_options env pb" and s: "lawful pb env s" and c: "orderly s c" "\<not> isl (fst (lc_exec env c s))"
  shows "lawful pb env (snd (lc_exec env c s))"
proof (cases "conforming pb env s")
  case True
  note ops = free_ops_conform [OF env True] input_ops_conform [OF env True] call_ops_conform [OF env True] compaction_ops_conform [OF env True]
    decideApproval_conforms [OF env True] startToolCall_conforms [OF env True] requestApproval_conforms [OF env True]
  have started: "lc_status s \<noteq> Ts_queued" using True by (auto simp: conforming_def conforms_def in_progress_def)
  have "okE (lc_exec env c) (conforming pb env) s \<or> okE (lc_exec env c) (contract_settled pb env) s"
    using c(1) started message_ops_conform [OF env True] closing_ops_conform [OF env True]
    by (cases c) (simp_all add: orderly_def ops unused_item_def True appendAssistantCommentary_def wp_simps)
  then have "okE (lc_exec env c) (lawful pb env) s" by (auto simp: lawful_def elim: wpE_mono)
  then show ?thesis using c(2) wpE_run [of "lc_exec env c" "\<lambda>_. lawful pb env" "\<lambda>_ _. True" s] by (auto split: sum.splits)
next
  case False
  then have "isTerminal s" using s by (simp add: lawful_def contract_settled_def)
  then have "snd (lc_exec env c s) = s" using frozen_exec [of env c] by (simp add: frozen_def)
  then show ?thesis using s by simp
qed

lemma run_lawful:
  "rebuild_options env pb \<Longrightarrow> lawful pb env s \<Longrightarrow> clean_run env cs s \<Longrightarrow> lawful pb env (lc_run env cs s)"
  by (induction cs arbitrary: s) (auto intro: exec_lawful)

end
