(* ===== verification/Rebuild_Properties.thy ===== *)
theory Rebuild_Properties
  imports Rebuild_Runs
begin

text \<open>
  Properties of the projector on the streams that the coordinator stores: the projection of a stored stream is the turn
  that the coordinator holds, and what happens when two approvals are requested at once.
\<close>

section \<open>The stored events rebuild the turn\<close>


definition projectable_schema :: event_schema where
  "projectable_schema ev = (if addressed ev then sample_schema ev else None)"

fun parse_blocking :: "pval option \<Rightarrow> TurnBlockingState option" where
  "parse_blocking (Some (PBlocking b)) = Some b"
| "parse_blocking v = None"

definition projectable_options :: "MemoryLifecycleEventStore lc_options" where
  "projectable_options = sample_options\<lparr>opt_parseEvent := projectable_schema, opt_appendBatch := appendBatch projectable_schema\<rparr>"

lemma projectable_rebuild: "rebuild_options projectable_options parse_blocking"
  by (auto simp: rebuild_options_def projectable_options_def sample_options_def lawful_schema_def lawful_ids_def projectable_schema_def sample_schema_def
      projector_schema_def same_envelope_def split: if_splits)


abbreviation projectable_init :: "MemoryLifecycleEventStore lc_state" where
  "projectable_init \<equiv> lc_init 0 0 empty_lifecycle_store"

lemma empty_log: "lifecycle_log empty_lifecycle_store t = []"
  by (simp add: lifecycle_log_def turn_stored_def empty_lifecycle_store_def)

lemma projectable_turn: "opt_turnId projectable_options = ''trn_abcdef''"
  by (simp add: projectable_options_def sample_options_def)




section \<open>Two approvals at once\<close>

text \<open>Whatever is done to a coordinator, its stored stream only grows.\<close>

lemma grows_predicate:
  assumes env: "rebuild_options env pb"
  shows "settling_predicate env (\<lambda>s. in_sync env s \<and> prefix evs (turn_log env s))"
proof -
  let ?P = "\<lambda>s. in_sync env s \<and> prefix evs (turn_log env s)"
  note sink = rebuild_sink [OF env]
  have via: "keeps ?P m" if sync: "keeps (in_sync env) m" and
      grow: "\<And>s. in_sync env s \<Longrightarrow> wpE m (\<lambda>_ s'. prefix (turn_log env s) (turn_log env s')) (\<lambda>_ s'. prefix (turn_log env s) (turn_log env s')) s"
    for m :: "(MemoryLifecycleEventStore, 'x) lc_op"
  proof (rule keeps_via_wp)
    fix s
    assume s: "?P s"
    then have "wpE m (\<lambda>_. in_sync env) (\<lambda>_. in_sync env) s" and "in_sync env s" using sync by (simp_all add: keeps_wp)
    from wpE_conj [OF this(1) grow [OF this(2)]] show "wpE m (\<lambda>_. ?P) (\<lambda>_. ?P) s"
      by (rule wpE_mono) (use s in \<open>auto intro: prefix_order.trans\<close>)
  qed
  have emits: "keeps ?P (emit env f)" if "\<not> terminal_event_type (f_type f)" for f
    using lifecycle_sink.emit_synced [OF sink that]
    by (rule via) (rule wpE_mono [OF emit_records [OF env _ that]], auto)
  have blocking: "keeps ?P (changeBlocking env b)" for b
    unfolding keeps_wp changeBlocking_wp
  proof (intro allI impI)
    fix s
    assume "?P s"
    with emits [of "turn_event E_turn_blocking_changed [(''blockingState'', PBlocking b)]"]
    have "wpE (emit env (turn_event E_turn_blocking_changed [(''blockingState'', PBlocking b)])) (\<lambda>_. ?P) (\<lambda>_. ?P) s"
      by (simp add: keeps_wp terminal_event_type_def)
    moreover have "in_sync env (s'\<lparr>lc_status := n, lc_blockingState := b\<rparr>)" if "in_sync env s'" "blocked_status b (lc_status s') = Inr n" for s' n
      using that by (cases "lc_status s'") (auto simp: log_synced_def isTerminal_def blocked_status_def transition_defs split: if_splits)
    ultimately show "wpE (emit env (turn_event E_turn_blocking_changed [(''blockingState'', PBlocking b)]))
       (\<lambda>_ s'. case blocked_status b (lc_status s') of Inl e \<Rightarrow> ?P s' | Inr n \<Rightarrow> ?P (s'\<lparr>lc_status := n, lc_blockingState := b\<rparr>)) (\<lambda>_. ?P) s"
      by (elim wpE_mono) (auto split: sum.splits)
  qed
  have inputs: "keeps ?P (modifyE (\<lambda>s. s\<lparr>lc_acceptedInputSequences := q s\<rparr>))" "keeps ?P (modifyE (\<lambda>s. s\<lparr>lc_completionReserved := r s\<rparr>))" for q r
    by (rule keeps_modify, simp add: log_synced_def isTerminal_def)+
  show ?thesis
  proof unfold_locales
    show "keeps ?P (start env)"
      using lifecycle_sink.start_synced [OF sink] by (rule via) (rule wpE_mono [OF start_records [OF env]], auto)
    show "keeps ?P (settleTurn env outcome)" for outcome
      using lifecycle_sink.settleTurn_synced [OF sink]
    proof (rule via)
      fix s
      assume "in_sync env s"
      then show "wpE (settleTurn env outcome) (\<lambda>_ s'. prefix (turn_log env s) (turn_log env s')) (\<lambda>_ s'. prefix (turn_log env s) (turn_log env s')) s"
        by (cases "isTerminal s") (simp add: settleTurn_def wp_simps, rule wpE_mono [OF settleTurn_records [OF env]], auto simp: Let_def)
    qed
    show "keeps ?P (acceptThreadInput env inp f)" for inp f
      unfolding acceptThreadInput_def by (intro keeps_rules emits inputs) (simp add: terminal_event_type_def)
    show "keeps ?P (reserveCompletion b)" for b
      unfolding reserveCompletion_def by (intro keeps_rules inputs)
  qed (use emits blocking in \<open>simp_all add: log_synced_def isTerminal_def set_item_def set_tool_call_def set_approval_def\<close>)
qed


lemma wpE_result: "wpE m Q E s \<Longrightarrow> m s = (Inr x, s') \<Longrightarrow> Q x s'"
  by (simp add: wpE_def)

lemma project_from_append:
  "project_from pb (xs @ ys) m = (case project_from pb xs m of (Inl e, m') \<Rightarrow> (Inl e, m') | (Inr _, m') \<Rightarrow> project_from pb ys m')"
  unfolding project_from_def by (induction xs arbitrary: m) (auto simp: op_defs split: prod.splits sum.splits)

text \<open>A stream that goes on with a second wait is refused, and so is every continuation of it.\<close>

lemma second_wait_refused:
  assumes "rebuilds pb env evs s" and "lc_status s = Ts_awaiting_approval"
    and ev: "recorded env pb (turn_event E_turn_blocking_changed [(''blockingState'', PBlocking (Waiting_for_approval i a))]) ev"
      "sequence ev = Suc (length evs)" "pb (Some (PBlocking (Waiting_for_approval i a))) = Some (Waiting_for_approval i a)"
    and "turnId (hd (evs @ [ev])) = opt_turnId env" and "prefix (evs @ [ev]) zs"
  shows "\<exists>e. projectLifecycleEvents pb (map client_event zs) = Inl e"
proof -
  obtain m where m: "project_from pb (map client_event evs) (createState (opt_turnId env)) = (Inr (), m)"
    "mp_turnId m = opt_turnId env" "mp_lastSequence m = length evs" "mirrors s m"
    using assms(1) by (auto simp: rebuilds_def)
  have "mp_status m = Ts_awaiting_approval" "mp_terminalOutcome m = None" using m(4) assms(2) by (simp_all add: mirror_defs isTerminal_def)
  moreover have "turnId ev = opt_turnId env" "etype ev = E_turn_blocking_changed"
    "map_of (payload ev) ''blockingState'' = Some (PBlocking (Waiting_for_approval i a))"
    using ev(1) by (simp_all add: recorded_def status_keys_def)
  ultimately have "\<exists>e m'. applyLifecycleProjectionEvent pb (client_event ev) m = (Inl e, m')"
    using m(2,3) ev(2,3)
    by (simp add: applyLifecycleProjectionEvent_def assertEnvelope_def applyTurn_def blocked_status_def transition_defs op_defs schemaP_def liftP_def)
  then obtain e m' where "project_from pb (map client_event (evs @ [ev])) (createState (opt_turnId env)) = (Inl e, m')"
    using m(1) by (auto simp: project_from_append) (auto simp: project_from_def op_defs)
  moreover obtain ys where zs: "zs = (evs @ [ev]) @ ys" using assms(7) by (auto simp: prefix_def)
  ultimately have "\<exists>m'. project_from pb (map client_event zs) (createState (opt_turnId env)) = (Inl e, m')"
    by (simp only: map_append [of client_event "evs @ [ev]" ys] zs project_from_append [of pb "map client_event (evs @ [ev])"]) simp
  moreover have "turnId (hd zs) = opt_turnId env" "zs \<noteq> []" using assms(6) zs by (cases evs; simp)+
  ultimately show ?thesis by (cases zs) (auto simp: projectLifecycleEvents_def)
qed

definition request_events :: "string \<Rightarrow> string \<Rightarrow> string \<Rightarrow> JsonRecord \<Rightarrow> EventFields list" where
  "request_events parent a i p =
     [item_event E_item_started i (AList.update ''kind'' (PKind Kind_approval_request) [(''parentItemId'', PStr parent)]),
      approval_event E_approval_requested i a p,
      turn_event E_turn_blocking_changed [(''blockingState'', PBlocking (Waiting_for_approval i a))]]"

lemma request_emits:
  assumes env: "rebuild_options env pb" and s: "tracked env pb s" "\<not> isTerminal s" "\<not> in_use s i"
    and f: "list_all (accepts env) (request_events parent a i p)" and room: "safe_sequence (lc_sequence s + 3)"
  shows "\<exists>s2 s3 ev. requestApproval env parent a i p s = (case blocked_status (Waiting_for_approval i a) (lc_status s) of
        Inl e \<Rightarrow> (Inl e, s3) | Inr n \<Rightarrow> (Inr (), s3\<lparr>lc_status := n, lc_blockingState := Waiting_for_approval i a\<rparr>)) \<and>
    tracked env pb s2 \<and> coordinator_view s2 = coordinator_view (own_approval a i (set_approval a Ap_pending (set_item i Is_active s))) \<and>
    in_sync env s3 \<and> coordinator_view s3 = coordinator_view s2 \<and> turn_log env s3 = turn_log env s2 @ [ev] \<and>
    sequence ev = Suc (length (turn_log env s2)) \<and>
    recorded env pb (turn_event E_turn_blocking_changed [(''blockingState'', PBlocking (Waiting_for_approval i a))]) ev \<and>
    pb (Some (PBlocking (Waiting_for_approval i a))) = Some (Waiting_for_approval i a) \<and> lc_sequence s3 = lc_sequence s + 3"
proof -
  note room' = safe_sequence_le [OF room]
  note sink = reliable_sink_memory rebuild_sink(2) [OF env]
  let ?f2 = "approval_event E_approval_requested i a p"
  let ?f3 = "turn_event E_turn_blocking_changed [(''blockingState'', PBlocking (Waiting_for_approval i a))]"
  let ?own = "\<lambda>s. own_approval a i (set_approval a Ap_pending s)"
  have f: "accepts env (item_event E_item_started i (AList.update ''kind'' (PKind Kind_approval_request) [(''parentItemId'', PStr parent)]))"
    "accepts env ?f2" "accepts env ?f3" using f by (simp_all add: request_events_def)
  have sync: "in_sync env s" using s(1) by (simp add: tracked_def)
  obtain s1 where s1: "startItem env i Kind_approval_request [(''parentItemId'', PStr parent)] s = (Inr (), s1)" "lc_sequence s1 = lc_sequence s + 1"
    using reliable_sink.startItem_ok [OF sink sync s(2) f(1) room'] by auto
  have t1: "tracked env pb s1" "coordinator_view s1 = coordinator_view (set_item i Is_active s)"
    using wpE_result [OF startItem_tracked [OF env s(1), where Q = "\<lambda>_ s1. tracked env pb s1 \<and> coordinator_view s1 = coordinator_view (set_item i Is_active s)"
          and E = "\<lambda>_ _. True"] s1(1)] by simp_all
  have st1: "\<not> isTerminal s1" "in_sync env s1" using s(2) view_terminal [OF t1(2)] t1(1) by (simp_all add: tracked_def isTerminal_def)
  obtain s2 where s2: "emit env ?f2 s1 = (Inr (), s2)" "lc_sequence s2 = lc_sequence s + 2"
    using reliable_sink.emit_ok [OF sink st1(2,1) f(2) _ room'] s1(2) by (auto simp: terminal_event_type_def)
  have own: "owned (?own s1)" using t1 s(3) view_in_use [OF t1(2)] by (intro owned_request tracked_owned [of env pb]) auto
  have "wpE (emit env ?f2) (\<lambda>_ s'. tracked env pb (?own s') \<and> coordinator_view (?own s') = coordinator_view (?own s1) \<and> (\<exists>ev. recorded env pb ?f2 ev)) (\<lambda>_ _. True) s1"
    using t1 by (intro emit_tracked [OF env _ _ absorbs_requested own, where g = ?own and
          Q = "\<lambda>x. tracked env pb x \<and> coordinator_view x = coordinator_view (?own s1) \<and> (\<exists>ev. recorded env pb ?f2 ev)"])
      (auto simp: terminal_event_type_def intro!: update_views)
  from wpE_result [OF this s2(1)] have t2: "tracked env pb (?own s2)" "coordinator_view (?own s2) = coordinator_view (?own s1)"
    and pb: "pb (Some (PBlocking (Waiting_for_approval i a))) = Some (Waiting_for_approval i a)" by (auto simp: recorded_def)
  have view: "coordinator_view (?own s2) = coordinator_view (?own (set_item i Is_active s))"
    unfolding t2(2) by (intro update_views t1(2))
  have st2: "\<not> isTerminal (?own s2)" "in_sync env (?own s2)"
    using view_terminal [OF view] s(2) t2(1) by (simp_all add: tracked_def isTerminal_def)
  have "lc_sequence (?own s2) = lc_sequence s + 2" using s2(2) by (simp add: own_approval_def)
  then obtain s3 where s3: "emit env ?f3 (?own s2) = (Inr (), s3)" "lc_sequence s3 = lc_sequence s + 3"
    using reliable_sink.emit_ok [OF sink st2(2,1) f(3) _ room'] by (auto simp: terminal_event_type_def)
  from wpE_result [OF emit_records [OF env st2(2), of ?f3] this(1)] obtain ev where ev: "in_sync env s3" "work s3 = work (?own s2)"
    "recorded env pb ?f3 ev" "sequence ev = Suc (lc_sequence (?own s2))" "turn_log env s3 = turn_log env (?own s2) @ [ev]"
    by (auto simp: terminal_event_type_def)
  have view3: "coordinator_view s3 = coordinator_view (?own s2)" by (rule view_work [OF ev(2)])
  have "lc_status s3 = lc_status s" using view3 view by (simp add: coordinator_view_def)
  moreover have "s3\<lparr>lc_status := lc_status s3\<rparr> = s3" by simp
  ultimately have "requestApproval env parent a i p s = (case blocked_status (Waiting_for_approval i a) (lc_status s) of
      Inl e \<Rightarrow> (Inl e, s3) | Inr n \<Rightarrow> (Inr (), s3\<lparr>lc_status := n, lc_blockingState := Waiting_for_approval i a\<rparr>))"
    using s1(1) s2(1) s3(1) by (simp add: requestApproval_def changeBlocking_def blocked_status_def op_defs own_approval_def split: sum.splits)
  moreover have "length (turn_log env (?own s2)) = lc_sequence (?own s2)" using st2(2) by (simp add: log_synced_def)
  ultimately show ?thesis
    using ev t2(1) view view3 pb s3(2) by (intro exI [where x = "?own s2"] exI [where x = s3] exI [where x = ev]) simp
qed

text \<open>
  C34. One approval at a time is the caller's duty. Take a turn that a disciplined run over the memory store has left
  awaiting an approval, and a second request under an item that is not in use, whose three events the schema accepts and
  have room among the safe integers. The request throws, but only after it has stored that the turn waits again. From then
  on, whatever else is done to the coordinator, the projector refuses the stored events of the turn.
\<close>
theorem second_approval_request_breaks_the_stream:
  assumes env: "rebuild_options env parseBlocking"
    and k: "canonical_store k" "lifecycle_log k (opt_turnId env) = []" and cs: "disciplined_run env cs (lc_init 0 ticks k)"
    and s: "lc_status (lc_run env cs (lc_init 0 ticks k)) = Ts_awaiting_approval" "\<not> in_use (lc_run env cs (lc_init 0 ticks k)) i"
    and f: "list_all (accepts env) (request_events parent a i p)"
    and room: "safe_sequence (lc_sequence (lc_run env cs (lc_init 0 ticks k)) + 3)"
  shows "\<exists>s'. requestApproval env parent a i p (lc_run env cs (lc_init 0 ticks k)) =
      (Inl (LifecycleTransitionError Sub_turn ''awaiting_approval'' ''awaiting_approval''
         ''the target state is not legal from the current state''), s') \<and>
    (\<forall>ds. \<exists>e. projectLifecycleEvents parseBlocking
       (map client_event (lifecycle_log (lc_sink (lc_run env ds s')) (opt_turnId env))) = Inl e)"
proof -
  let ?s = "lc_run env cs (lc_init 0 ticks k)"
  have "tracked env parseBlocking ?s" by (intro run_tracked [OF env] init_tracked k cs)
  moreover have "\<not> isTerminal ?s" using s(1) by (simp add: isTerminal_def)
  ultimately obtain s2 s' ev where view: "coordinator_view s2 = coordinator_view (own_approval a i (set_approval a Ap_pending (set_item i Is_active ?s)))"
    and req: "requestApproval env parent a i p ?s = (case blocked_status (Waiting_for_approval i a) (lc_status ?s) of
        Inl e \<Rightarrow> (Inl e, s') | Inr n \<Rightarrow> (Inr (), s'\<lparr>lc_status := n, lc_blockingState := Waiting_for_approval i a\<rparr>))" "in_sync env s'"
    and log: "turn_log env s' = turn_log env s2 @ [ev]" "tracked env parseBlocking s2" "sequence ev = Suc (length (turn_log env s2))"
      "recorded env parseBlocking (turn_event E_turn_blocking_changed [(''blockingState'', PBlocking (Waiting_for_approval i a))]) ev"
      "parseBlocking (Some (PBlocking (Waiting_for_approval i a))) = Some (Waiting_for_approval i a)"
    using request_emits [OF env _ _ s(2) f room] by blast
  have st2: "lc_status s2 = Ts_awaiting_approval" "rebuilds parseBlocking env (turn_log env s2) s2"
    using view s(1) log(2) by (auto simp: coordinator_view_def tracked_def)
  have "canonical_store (lc_sink s')" using req(2) by (simp add: log_synced_def)
  then have "contiguous_stream (opt_turnId env) (turn_log env s')" by (rule lifecycle_sink.log_contiguous [OF rebuild_sink(1) [OF env]])
  then have head: "turnId (hd (turn_log env s2 @ [ev])) = opt_turnId env"
    unfolding log(1) by (cases "turn_log env s2") (auto simp: contiguous_stream_def)
  have "\<exists>e. projectLifecycleEvents parseBlocking (map client_event (turn_log env (lc_run env ds s'))) = Inl e" for ds
  proof (rule second_wait_refused [OF st2(2,1) log(4,3,5) head])
    have "in_sync env s' \<and> prefix (turn_log env s2 @ [ev]) (turn_log env s')" using req(2) log(1) by simp
    from settling_predicate.run_keeps [OF grows_predicate [OF env] this]
    show "prefix (turn_log env s2 @ [ev]) (turn_log env (lc_run env ds s'))" by simp
  qed
  then show ?thesis using req(1) s(1) by (simp add: blocked_status_def transition_defs)
qed

definition wait_run :: "lc_command list" where
  "wait_run = [Start, RequestApproval ''itm_p'' ''apr_1'' ''itm_1'' []]"

lemma wait_run_running:
  "\<not> in_use (snd (lc_exec projectable_options Start projectable_init)) ''itm_1'' \<and>
   lc_status (snd (lc_exec projectable_options Start projectable_init)) = Ts_in_progress \<and>
   lc_sequence (snd (lc_exec projectable_options Start projectable_init)) = 3"
  by code_simp

lemma wait_run_disciplined: "disciplined_run projectable_options wait_run projectable_init"
  using wait_run_running by (simp add: wait_run_def del: lc_exec.simps)

lemma projectable_request_accepted:
  assumes "i \<noteq> []" and "a \<noteq> []"
  shows "list_all (accepts projectable_options) (request_events parent a i p)"
  using assms
  by (simp add: request_events_def accepts_def projectable_options_def sample_options_def projectable_schema_def sample_schema_def raw_event_def
      startsWith_def addressed_def item_types_def item_settled_types_def tool_call_types_def approval_types_def)

lemma wait_run_waits:
  "lc_status (lc_run projectable_options wait_run projectable_init) = Ts_awaiting_approval"
  "\<not> in_use (lc_run projectable_options wait_run projectable_init) ''itm_2''"
  "safe_sequence (lc_sequence (lc_run projectable_options wait_run projectable_init) + 3)"
proof -
  define s1 where "s1 = snd (lc_exec projectable_options Start projectable_init)"
  have s: "tracked projectable_options parse_blocking s1"
    unfolding s1_def by (rule exec_tracked [OF projectable_rebuild init_tracked]) (simp_all add: canonical_store_empty empty_log)
  have st: "lc_status s1 = Ts_in_progress" "\<not> isTerminal s1" "\<not> in_use s1 ''itm_1''" "lc_sequence s1 = 3"
    using wait_run_running unfolding s1_def [symmetric] by (simp_all add: isTerminal_def)
  have room: "safe_sequence (lc_sequence s1 + 3)" by (simp add: st(4) safe_sequence_def MAX_SAFE_INTEGER_def)
  have free: "\<not> in_use s1 ''itm_2''" unfolding s1_def by code_simp
  have blocked: "blocked_status (Waiting_for_approval ''itm_1'' ''apr_1'') (lc_status s1) = Inr Ts_awaiting_approval"
    by (simp add: st(1) blocked_status_def transition_defs)
  obtain s2 s3 :: "MemoryLifecycleEventStore lc_state" where
    run: "requestApproval projectable_options ''itm_p'' ''apr_1'' ''itm_1'' [] s1 =
        (Inr (), s3\<lparr>lc_status := Ts_awaiting_approval, lc_blockingState := Waiting_for_approval ''itm_1'' ''apr_1''\<rparr>)"
    and view: "coordinator_view s3 = coordinator_view s2"
      "coordinator_view s2 = coordinator_view (own_approval ''apr_1'' ''itm_1'' (set_approval ''apr_1'' Ap_pending (set_item ''itm_1'' Is_active s1)))" "lc_sequence s3 = 6"
    using request_emits [OF projectable_rebuild s st(2,3) projectable_request_accepted room, unfolded st(4), of "''apr_1''" "''itm_p''" "[]", unfolded blocked sum.case] by auto
  have run_eq: "lc_run projectable_options wait_run projectable_init = s3\<lparr>lc_status := Ts_awaiting_approval, lc_blockingState := Waiting_for_approval ''itm_1'' ''apr_1''\<rparr>"
    using run by (simp add: wait_run_def s1_def)
  show "lc_status (lc_run projectable_options wait_run projectable_init) = Ts_awaiting_approval" by (simp add: run_eq)
  show "safe_sequence (lc_sequence (lc_run projectable_options wait_run projectable_init) + 3)"
    by (simp add: run_eq view(3) safe_sequence_def MAX_SAFE_INTEGER_def)
  show "\<not> in_use (lc_run projectable_options wait_run projectable_init) ''itm_2''"
    using free view_in_use [OF view(1)] view_in_use [OF view(2)] by (simp add: run_eq)
qed

theorem second_approval_request_breaks_the_stream_witness:
  "\<exists>e s'. requestApproval projectable_options ''itm_p'' ''apr_2'' ''itm_2'' [] (lc_run projectable_options wait_run projectable_init) = (Inl e, s') \<and>
     (\<exists>e. projectLifecycleEvents parse_blocking (map client_event (lifecycle_log (lc_sink (lc_run projectable_options
        [DecideApproval ''apr_1'' Ap_approved [], Complete ''done'' ''itm_f''] s')) ''trn_abcdef'')) = Inl e)"
  using second_approval_request_breaks_the_stream [OF projectable_rebuild canonical_store_empty empty_log wait_run_disciplined wait_run_waits(1,2)
      projectable_request_accepted wait_run_waits(3), of "''apr_2''" "''itm_p''" "[]"]
  by (auto simp: projectable_turn simp del: lc_run_simps)

end
