(* ===== verification/Contract_Properties.thy ===== *)
theory Contract_Properties
  imports Contract_Runs Rebuild_Properties
begin

text \<open>
  Properties of the lifecycle contract on the streams that the coordinator stores: clean runs satisfy it, a commentary and
  a turn that is settled before it has started do not.
\<close>

section \<open>Clean runs\<close>

lemma conforming_fold:
  "conforming pb env s \<Longrightarrow> \<exists>st. contract_fold pb (turn_log env s) = Inr st \<and> cs_items st = lc_itemStatuses s \<and>
    cs_toolCalls st = lc_toolCallStatuses s \<and> cs_approvals st = lc_approvalStatuses s \<and> \<not> isTerminal s"
  by (auto simp: conforming_def conforms_def in_progress_open)

lemma settled_fold:
  "contract_settled pb env s \<Longrightarrow> \<exists>st. contract_fold pb (turn_log env s) = Inr st \<and> cs_items st = lc_itemStatuses s \<and>
    cs_toolCalls st = lc_toolCallStatuses s \<and> cs_approvals st = lc_approvalStatuses s \<and>
    contract_replay pb (map client_event (turn_log env s)) = Inr st \<and> cs_status st = lc_status s \<and> cs_terminalEvents st = 1"
  by (auto simp: contract_settled_def contract_replay_def andThen_Inr_iff)

text \<open>
  C10. The events of a clean run satisfy the lifecycle contract of the repository. In a clean run the turn is started
  first and only while it is queued, every operation returns, the callers are disciplined (\<open>disciplined\<close>), no item and no
  tool call identifier is used twice, and every commentary is blank, since a commentary that is recorded breaks the
  contract. Then, for a turn with no stored events at its start, the reducer of the contract accepts the stored events
  and agrees with the coordinator on items, tool calls and approvals; once the turn has settled, the whole stream is a
  legal, settled turn with exactly one terminal event and the coordinator's status.
\<close>
theorem clean_runs_satisfy_the_contract:
  assumes env: "rebuild_options env parseBlocking"
    and k: "canonical_store k" "lifecycle_log k (opt_turnId env) = []"
    and cs: "clean_run env (Start # cs) (lc_init 0 ticks k)"
  shows "let s = lc_run env (Start # cs) (lc_init 0 ticks k); evs = map client_event (lifecycle_log (lc_sink s) (opt_turnId env)) in
    \<exists>st. fold_sum (contract_apply parseBlocking) evs createInitialState = Inr st \<and> cs_items st = lc_itemStatuses s \<and>
      cs_toolCalls st = lc_toolCallStatuses s \<and> cs_approvals st = lc_approvalStatuses s \<and>
      (isTerminal s \<longrightarrow> contract_replay parseBlocking evs = Inr st \<and> cs_status st = lc_status s \<and> cs_terminalEvents st = 1)"
proof -
  let ?init = "lc_init 0 ticks k"
  have "okE (voidE (start env)) (conforming parseBlocking env) ?init"
    using start_conforms [OF env k, of ticks] by (simp add: voidE_def wp_eta)
  then have "conforming parseBlocking env (snd (lc_exec env Start ?init))"
    using cs wpE_run [of "lc_exec env Start" "\<lambda>_. conforming parseBlocking env" "\<lambda>_ _. True" ?init] by (auto split: sum.splits)
  then have "lawful parseBlocking env (lc_run env (Start # cs) ?init)"
    using cs unfolding lc_run_simps(2) by (intro run_lawful [OF env]) (simp_all add: lawful_def)
  then show ?thesis
    unfolding lawful_def Let_def by (elim disjE) (use conforming_fold settled_fold in blast)+
qed

definition answer_run :: "lc_command list" where
  "answer_run = [Complete ''done'' ''itm_1'']"

abbreviation projectable_started :: "MemoryLifecycleEventStore lc_state" where
  "projectable_started \<equiv> snd (lc_exec projectable_options Start projectable_init)"

lemma projectable_started_facts:
  "case lc_exec projectable_options Start projectable_init of (r, s) \<Rightarrow> \<not> isl r \<and> lc_runAttemptStatus s = Ra_running \<and>
     lc_blockingState s = Blocking_none \<and> lc_accepted s \<and> settled_work s \<and> lc_status s = Ts_in_progress \<and>
     unused_item s ''itm_1'' \<and> \<not> in_use s ''itm_1'' \<and> lc_sequence s = 3"
  by code_simp

lemma short_answer_room:
  "safe_sequence (3 + length (answer_events ''done'' i))" "safe_sequence (3 + length (splitLifecycleOutput ''hello'') + 2)"
proof -
  have "length (splitLifecycleOutput ''done'') = 1" "length (splitLifecycleOutput ''hello'') = 1" by code_simp+
  then show "safe_sequence (3 + length (answer_events ''done'' i))" "safe_sequence (3 + length (splitLifecycleOutput ''hello'') + 2)"
    by (simp_all add: answer_events_def outcome_events_def safe_sequence_def MAX_SAFE_INTEGER_def)
qed

lemma projectable_answer_accepted: "i \<noteq> [] \<Longrightarrow> list_all (accepts projectable_options) (answer_events out i)"
  by (simp add: answer_events_def accepts_def projectable_options_def sample_options_def projectable_schema_def sample_schema_def raw_event_def list_all_iff outcome_events_def
      startsWith_def addressed_def item_types_def item_settled_types_def tool_call_types_def approval_types_def)

lemma answer_run_clean:
  "clean_run projectable_options (Start # answer_run) projectable_init"
  "isTerminal (lc_run projectable_options (Start # answer_run) projectable_init)"
proof -
  have conf: "conforming parse_blocking projectable_options projectable_started"
    using projectable_started_facts wpE_run [OF start_conforms [OF projectable_rebuild canonical_store_empty empty_log, of 0]]
    by (auto simp: voidE_def bindE_def returnE_def split: sum.splits prod.splits)
  then have sync: "in_sync projectable_options projectable_started" by (auto simp: conforming_def conforms_def)
  have started: "\<not> isl (fst (lc_exec projectable_options Start projectable_init))" "turn_agrees projectable_started" "settled_work projectable_started"
    "lc_status projectable_started = Ts_in_progress" "unused_item projectable_started ''itm_1''" "\<not> in_use projectable_started ''itm_1''"
    "lc_sequence projectable_started = 3"
    using projectable_started_facts by (auto simp: turn_agrees_def split: prod.splits)
  obtain s' where s': "complete projectable_options ''done'' ''itm_1'' projectable_started = (Inr (), s')"
    using reliable_sink.complete_ok [OF reliable_sink_memory rebuild_sink(2) [OF projectable_rebuild] sync started(2-4) projectable_answer_accepted, of "''itm_1''" "''done''"]
      started(7) short_answer_room(1) by auto
  have "contract_settled parse_blocking projectable_options s'"
    using wpE_result [OF message_ops_conform(2) [OF projectable_rebuild conf started(5,6), of "''done''"] s'] .
  then show "isTerminal (lc_run projectable_options (Start # answer_run) projectable_init)"
    using s' by (simp add: answer_run_def contract_settled_def del: lc_exec.simps(1))
  show "clean_run projectable_options (Start # answer_run) projectable_init"
    using started s' by (simp add: answer_run_def orderly_def lc_init_def del: lc_exec.simps(1))
qed

theorem clean_runs_satisfy_the_contract_witness:
  "\<exists>st. contract_replay parse_blocking (map client_event (lifecycle_log
      (lc_sink (lc_run projectable_options (Start # answer_run) projectable_init)) ''trn_abcdef'')) = Inr st \<and> cs_terminalEvents st = 1"
  using clean_runs_satisfy_the_contract [OF projectable_rebuild canonical_store_empty empty_log answer_run_clean(1)] answer_run_clean(2)
  by (auto simp: Let_def projectable_turn simp del: lc_run_simps)

section \<open>Commentary\<close>

lemma item_started_kind:
  assumes "contract_apply pb ev cs = Inr cs'" and "etype ev = E_item_started" and "itemId ev = Some i"
    and "map_of (payload ev) ''kind'' = Some (PKind kind)"
  shows "map_of (cs_itemKinds cs') i = Some kind"
  using assms
  by (auto simp: contract_apply_def andThen_Inr_iff contract_dispatch applyItemStarted_def zod_def property_key_def)

lemma scope_kinds: "bindReplayScope cs ev = Inr cs' \<Longrightarrow> cs_itemKinds cs' = cs_itemKinds cs"
  by (auto simp: bindReplayScope_def andThen_Inr_iff split: if_splits)

lemma message_delta_refused:
  assumes "etype ev = E_assistant_message_delta" and "itemId ev = Some i" and "map_of (cs_itemKinds cs) i = Some kind" and "kind \<noteq> Kind_assistant_message"
  shows "\<exists>e. contract_apply pb ev cs = Inl e"
proof (cases "contract_apply pb ev cs")
  case (Inr cs')
  then obtain scoped where scoped: "bindReplayScope cs ev = Inr scoped" "contract_event pb scoped ev = Inr cs'"
    by (auto simp: contract_apply_def andThen_Inr_iff)
  with scope_kinds [OF scoped(1)] assms show ?thesis
    by (auto simp: contract_dispatch requireActiveItemKind_def property_key_def throwTransition_def andThen_Inr_iff split: if_splits)
qed simp

definition commentary_delta :: "string \<Rightarrow> string \<Rightarrow> EventFields" where
  "commentary_delta i delta = item_event E_assistant_message_delta i [(''phase'', PStr ''commentary''), (''delta'', PStr delta)]"

lemma commentary_refused:
  assumes "recorded env pb (item_event E_item_started i (AList.update ''kind'' (PKind Kind_commentary) [])) ev1"
    and "recorded env pb (commentary_delta i delta) ev2" and "prefix (evs @ [ev1, ev2]) zs"
  shows "\<exists>e. contract_replay pb (map client_event zs) = Inl e"
proof -
  have ev: "etype ev1 = E_item_started" "itemId ev1 = Some i" "map_of (payload ev1) ''kind'' = Some (PKind Kind_commentary)"
    "etype ev2 = E_assistant_message_delta" "itemId ev2 = Some i"
    using assms(1,2) by (simp_all add: recorded_def commentary_delta_def status_keys_def)
  obtain ys where zs: "zs = evs @ ev1 # ev2 # ys" using assms(3) by (auto simp: prefix_def)
  have "\<exists>e. contract_fold pb zs = Inl e"
  proof (cases "contract_fold pb evs")
    case (Inr cs)
    show ?thesis
    proof (cases "contract_apply pb (client_event ev1) cs")
      case (Inr cs1)
      with ev have "\<exists>e. contract_apply pb (client_event ev2) cs1 = Inl e"
        by (intro message_delta_refused [where kind = Kind_commentary]) (auto dest: item_started_kind)
      with Inr \<open>contract_fold pb evs = Inr cs\<close> show ?thesis by (auto simp: zs fold_sum_append)
    qed (use Inr in \<open>simp add: zs fold_sum_append\<close>)
  qed (simp add: zs fold_sum_append)
  then show ?thesis by (auto simp: contract_replay_def)
qed


lemma emit_stores:
  assumes "rebuild_options env pb" and "in_sync env s" and "\<not> terminal_event_type (f_type f)"
    and "\<And>s' ev. in_sync env s' \<Longrightarrow> turn_log env s' = turn_log env s @ [ev] \<Longrightarrow> recorded env pb f ev \<Longrightarrow> Q s'"
  shows "okE (emit env f) Q s"
  by (rule wpE_mono [OF emit_records [OF assms(1-3)]]) (use assms(4) in auto)

lemma commentary_stores:
  assumes env: "rebuild_options env pb" and s: "in_sync env s" and x: "trim x \<noteq> []"
  shows "okE (appendAssistantCommentary env i x) (\<lambda>s'. in_sync env s' \<and> (\<exists>ev1 ev2 delta.
      recorded env pb (item_event E_item_started i (AList.update ''kind'' (PKind Kind_commentary) [])) ev1 \<and>
      recorded env pb (commentary_delta i delta) ev2 \<and> prefix (turn_log env s @ [ev1, ev2]) (turn_log env s'))) s"
    (is "okE _ ?Q s")
proof -
  obtain d ds where split: "splitLifecycleOutput x = d # ds"
    using x by (cases "splitLifecycleOutput x") (auto simp: splitLifecycleOutput_def chunks_from.simps [of x] split: if_splits)
  let ?rest = "block [forE ds (\<lambda>d. emit env (commentary_delta i d)), settleItem env i Is_completed [(''result'', PObj [])]]"
  let ?first = "item_event E_item_started i (AList.update ''kind'' (PKind Kind_commentary) [])"
  have rest: "okE ?rest ?Q s2" if s2: "in_sync env s2" "turn_log env s2 = turn_log env s @ [ev1, ev2]"
      and ev: "recorded env pb ?first ev1" "recorded env pb (commentary_delta i d) ev2" for s2 ev1 ev2
  proof -
    let ?P = "\<lambda>s'. in_sync env s' \<and> prefix (turn_log env s @ [ev1, ev2]) (turn_log env s')"
    note kept = settling_predicate.axioms(1) [OF grows_predicate [OF env, of "turn_log env s @ [ev1, ev2]"]]
    have "keeps ?P ?rest"
      by (intro keeps_rules work_predicate.emit_keeps [OF op_predicate.axioms(1) [OF kept]] work_predicate.settleItem_keeps [OF op_predicate.axioms(1) [OF kept]])
        (simp add: commentary_delta_def terminal_event_type_def)
    then have "wpE ?rest (\<lambda>_. ?P) (\<lambda>_. ?P) s2" using s2 by (simp add: keeps_wpD)
    then show ?thesis by (rule wpE_mono) (use ev in blast, simp)
  qed
  have "okE (emit env ?first) (\<lambda>s'. okE (emit env (commentary_delta i d)) (okE ?rest ?Q) (set_item i Is_active s')) s"
  proof (rule emit_stores [OF env s])
    fix s1 ev1
    assume s1: "in_sync env s1" "turn_log env s1 = turn_log env s @ [ev1]" "recorded env pb ?first ev1"
    show "okE (emit env (commentary_delta i d)) (okE ?rest ?Q) (set_item i Is_active s1)"
      by (rule emit_stores [OF env]) (use s1 rest in \<open>auto simp: commentary_delta_def terminal_event_type_def\<close>)
  qed (simp add: terminal_event_type_def)
  then show ?thesis
    using x split by (simp add: appendAssistantCommentary_def startItem_def wp_eta transition_defs commentary_delta_def)
qed

text \<open>
  C35. Commentary is outside the contract: once a coordinator has recorded a commentary that is not blank, the reducer
  refuses the stored events of the turn, whatever else has been or is going to be done, since the deltas of an
  assistant message belong to an item of that kind.
\<close>
theorem commentary_breaks_the_contract:
  assumes env: "rebuild_options env parseBlocking" and k: "canonical_store k" "lifecycle_log k (opt_turnId env) = []"
    and x: "trim x \<noteq> []" and run: "appendAssistantCommentary env i x (lc_run env cs (lc_init 0 ticks k)) = (Inr (), s')"
  shows "\<exists>e. contract_replay parseBlocking (map client_event (lifecycle_log (lc_sink (lc_run env ds s')) (opt_turnId env))) = Inl e"
proof -
  have "in_sync env (lc_init 0 ticks k)" using init_tracked [OF k, of parseBlocking ticks] by (simp add: tracked_def)
  from settling_predicate.run_keeps [OF grows_predicate [OF env, of "[]"], of "lc_init 0 ticks k" cs] this
  have "in_sync env (lc_run env cs (lc_init 0 ticks k))" by simp
  from wpE_result [OF commentary_stores [OF env this x, of i] run] obtain ev1 ev2 delta where
    ev: "recorded env parseBlocking (item_event E_item_started i (AList.update ''kind'' (PKind Kind_commentary) [])) ev1"
      "recorded env parseBlocking (commentary_delta i delta) ev2"
    and log: "in_sync env s'" "prefix (turn_log env (lc_run env cs (lc_init 0 ticks k)) @ [ev1, ev2]) (turn_log env s')" by auto
  from settling_predicate.run_keeps [OF grows_predicate [OF env], of s' "turn_log env (lc_run env cs (lc_init 0 ticks k)) @ [ev1, ev2]" ds] log
  have "prefix (turn_log env (lc_run env cs (lc_init 0 ticks k)) @ [ev1, ev2]) (turn_log env (lc_run env ds s'))" by simp
  from commentary_refused [OF ev this] show ?thesis .
qed


lemma projectable_started_open:
  "in_sync projectable_options projectable_started" "\<not> isTerminal projectable_started" "lc_sequence projectable_started = 3"
proof -
  show "in_sync projectable_options projectable_started"
    using settling_predicate.run_keeps [OF grows_predicate [OF projectable_rebuild, of "[]"], of projectable_init "[Start]"]
      init_tracked [OF canonical_store_empty empty_log, of projectable_options parse_blocking 0]
    by (simp add: tracked_def del: lc_exec.simps)
  show "\<not> isTerminal projectable_started" using projectable_started_facts by (auto simp: isTerminal_def split: prod.splits)
  show "lc_sequence projectable_started = 3" using projectable_started_facts by (auto split: prod.splits)
qed

lemma projectable_commentary:
  assumes "i \<noteq> []" and "trim x \<noteq> []" and room: "safe_sequence (3 + length (splitLifecycleOutput x) + 2)"
  shows "\<exists>s'. appendAssistantCommentary projectable_options i x projectable_started = (Inr (), s')"
proof -
  note ok = reliable_sink_memory rebuild_sink(2) [OF projectable_rebuild]
  note room' = safe_sequence_le [OF room]
  let ?g = "commentary_delta i"
  have accepted: "accepts projectable_options (item_event E_item_started i (AList.update ''kind'' (PKind Kind_commentary) []))"
    "accepts projectable_options (?g d)" "accepts projectable_options (item_event (item_settled_event Is_completed) i [(''result'', PObj [])])" for d
    using assms(1) by (simp_all add: commentary_delta_def accepts_def projectable_options_def sample_options_def projectable_schema_def sample_schema_def raw_event_def
      startsWith_def addressed_def item_types_def item_settled_types_def tool_call_types_def approval_types_def)
  obtain s1 where s1: "startItem projectable_options i Kind_commentary [] projectable_started = (Inr (), s1)" "in_sync projectable_options s1"
    "work s1 = set_item i Is_active (work projectable_started)" "lc_sequence s1 = 4"
    using reliable_sink.startItem_ok [OF ok projectable_started_open(1,2) accepted(1)] projectable_started_open(3) room' by auto
  have st1: "\<not> isTerminal s1" using arg_cong [OF s1(3), of lc_status] projectable_started_open(2) by (simp add: isTerminal_def set_item_def)
  obtain s2 where s2: "forE (splitLifecycleOutput x) (\<lambda>d. emit projectable_options (?g d)) s1 = (Inr (), s2)" "in_sync projectable_options s2"
    "work s2 = work s1" "lc_sequence s2 = 4 + length (splitLifecycleOutput x)"
    using reliable_sink.emits_ok [OF ok s1(2) st1, of "splitLifecycleOutput x" ?g] accepted(2) s1(4) room'
    by (auto simp: terminal_event_type_def commentary_delta_def)
  have "item_status s2 i = Is_active" "\<not> isTerminal s2"
    using arg_cong [OF s2(3), of lc_itemStatuses] arg_cong [OF s1(3), of lc_itemStatuses] arg_cong [OF s2(3), of lc_status] st1
    by (simp_all add: item_status_def set_item_def isTerminal_def)
  then obtain s3 where "settleItem projectable_options i Is_completed [(''result'', PObj [])] s2 = (Inr (), s3)"
    using reliable_sink.settleItem_ok [OF ok s2(2), of i Is_completed] accepted(3) s2(4) room' by (auto simp: isTerminalItemStatus_def)
  with s1(1) s2(1) assms(2) show ?thesis by (simp add: appendAssistantCommentary_def op_defs commentary_delta_def)
qed

theorem commentary_breaks_the_contract_witness:
  "\<exists>s'. appendAssistantCommentary projectable_options ''itm_1'' ''hello'' (lc_run projectable_options [Start] projectable_init) = (Inr (), s') \<and>
     (\<exists>e. contract_replay parse_blocking (map client_event (lifecycle_log (lc_sink (lc_run projectable_options
        [Complete ''done'' ''itm_2''] s')) ''trn_abcdef'')) = Inl e)"
proof -
  have x: "trim ''hello'' \<noteq> []" by code_simp
  obtain s' where s': "appendAssistantCommentary projectable_options ''itm_1'' ''hello'' (lc_run projectable_options [Start] projectable_init) = (Inr (), s')"
    using projectable_commentary [OF _ x short_answer_room(2), of "''itm_1''"] by (auto simp del: lc_exec.simps)
  from commentary_breaks_the_contract [OF projectable_rebuild canonical_store_empty empty_log x this] s' show ?thesis
    unfolding projectable_turn by blast
qed

section \<open>Settling a queued turn\<close>

lemma unstarted_end_refused:
  assumes "recorded env pb (turn_event (attempt_terminal_event st) p1) ev1" and "recorded env pb (turn_event (turn_terminal_event st) p2) ev2"
  shows "\<exists>e. contract_replay pb (map client_event [ev1, ev2]) = Inl e"
proof -
  have "etype ev1 = attempt_terminal_event st" "etype ev2 = turn_terminal_event st" using assms by (simp_all add: recorded_def)
  then have "\<exists>e. contract_fold pb [ev1, ev2] = Inl e"
    by (cases st) (auto simp: contract_apply_def andThen_def assertNextLifecycleSequence_def createInitialState_def bindReplayScope_def
        assertMatchingScope_def contract_dispatch setRunAttemptStatus_def applyTerminalTurn_def requireStarted_def requireAccepted_def
        throwTransition_def advance_def transition_defs split: sum.splits if_splits)
  then show ?thesis by (auto simp: contract_replay_def)
qed

lemma queued_end:
  assumes env: "rebuild_options env pb" and k: "canonical_store k" "lifecycle_log k (opt_turnId env) = []"
  shows "okE (block [cancelPendingApprovals env r, settleOpenWork env st p, settleTurn env outcome])
    (\<lambda>s'. isTerminal s' \<and> (\<exists>e. contract_replay pb (map client_event (turn_log env s')) = Inl e)) (lc_init 0 ticks k)"
proof -
  let ?s = "lc_init 0 ticks k"
  have empty: "lc_approvalStatuses ?s = []" "lc_toolCallStatuses ?s = []" "lc_itemStatuses ?s = []" "lc_sink ?s = k" "\<not> isTerminal ?s"
    by (simp_all add: lc_init_def isTerminal_def)
  have sync: "in_sync env ?s" using init_tracked [OF k, of pb ticks] by (simp add: tracked_def)
  have "okE (settleTurn env outcome) (\<lambda>s'. isTerminal s' \<and> (\<exists>e. contract_replay pb (map client_event (turn_log env s')) = Inl e)) ?s"
  proof (rule wpE_mono [OF settleTurn_records [OF env sync empty(5)]])
    fix s' :: "MemoryLifecycleEventStore lc_state"
    let ?st = "outcome_status outcome"
    assume "settled_work ?s \<and> (\<exists>ev1 ev2. let st = ?st in
      transitionTurnStatus (lc_status ?s) (turn_of_terminal st) = Inr (turn_of_terminal st) \<and>
      recorded env pb (turn_event (attempt_terminal_event st) (attempt_payload outcome)) ev1 \<and>
      recorded env pb (turn_event (turn_terminal_event st) [(''outcome'', outcome_value outcome)]) ev2 \<and>
      sequence ev1 = Suc (lc_sequence ?s) \<and> sequence ev2 = Suc (Suc (lc_sequence ?s)) \<and>
      turn_log env s' = turn_log env ?s @ [ev1, ev2] \<and> coordinator_view s' = coordinator_view (?s\<lparr>lc_status := turn_of_terminal st\<rparr>))"
    then obtain ev1 ev2 where ev: "recorded env pb (turn_event (attempt_terminal_event ?st) (attempt_payload outcome)) ev1"
        "recorded env pb (turn_event (turn_terminal_event ?st) [(''outcome'', outcome_value outcome)]) ev2"
      and log: "turn_log env s' = [ev1, ev2]" and view: "coordinator_view s' = coordinator_view (?s\<lparr>lc_status := turn_of_terminal ?st\<rparr>)"
      using k empty(4) by (auto simp: Let_def)
    have "isTerminal s'" using view by (cases ?st) (simp_all add: coordinator_view_def isTerminal_def)
    with unstarted_end_refused [OF ev] log show "isTerminal s' \<and> (\<exists>e. contract_replay pb (map client_event (turn_log env s')) = Inl e)" by simp
  qed simp
  then show ?thesis by (simp add: cancelPendingApprovals_def settleOpenWork_def wp_eta empty)
qed

text \<open>
  A turn can end without the contract: failing or interrupting a coordinator that has not started, when it returns,
  settles the turn, and the stored events are refused because the turn was never accepted.
\<close>
theorem ending_a_queued_turn_breaks_the_contract:
  assumes env: "rebuild_options env parseBlocking" and k: "canonical_store k" "lifecycle_log k (opt_turnId env) = []"
    and c: "c = Fail failure \<or> c = Interrupt reason" and run: "lc_exec env c (lc_init 0 ticks k) = (Inr (), s')"
  shows "isTerminal s' \<and> (\<exists>e. contract_replay parseBlocking (map client_event (lifecycle_log (lc_sink s') (opt_turnId env))) = Inl e)"
proof -
  have "okE (lc_exec env c) (\<lambda>s'. isTerminal s' \<and> (\<exists>e. contract_replay parseBlocking (map client_event (turn_log env s')) = Inl e)) (lc_init 0 ticks k)"
    using c queued_end [OF env k] by (elim disjE) (simp_all only: lc_exec.simps fail_def interrupt_def)
  from wpE_result [OF this run] show ?thesis .
qed

lemma projectable_interrupt: "\<not> isl (fst (lc_exec projectable_options (Interrupt ''stop'') projectable_init))"
  by code_simp

theorem ending_a_queued_turn_breaks_the_contract_witness:
  "\<exists>s'. lc_exec projectable_options (Interrupt ''stop'') projectable_init = (Inr (), s') \<and>
     (\<exists>e. contract_replay parse_blocking (map client_event (lifecycle_log (lc_sink s') ''trn_abcdef'')) = Inl e)"
proof -
  obtain s' where s': "lc_exec projectable_options (Interrupt ''stop'') projectable_init = (Inr (), s')"
    using projectable_interrupt by (cases "lc_exec projectable_options (Interrupt ''stop'') projectable_init"; cases "fst (lc_exec projectable_options (Interrupt ''stop'') projectable_init)") auto
  from ending_a_queued_turn_breaks_the_contract [OF projectable_rebuild canonical_store_empty empty_log _ this] s' show ?thesis
    unfolding projectable_turn by blast
qed

end
