(* ===== verification/Artifact_Store.thy ===== *)
theory Artifact_Store
  imports Lifecycle_Protocol "HOL-Library.Word"
begin

text \<open>
  The artifact store of packages/artifact-store (InMemoryArtifactStore.ts with the schemas of types.ts): metadata and
  payloads of artifacts, idempotent puts, and access checks. The digest, the authorizer, the clock and the check of a
  timestamp are parameters; a schema without transformations is a predicate, since an accepted value is returned as it is.
\<close>

section \<open>Data\<close>

datatype ArtifactKind =
    Ak_diff | Ak_patch | Ak_command_log | Ak_screenshot | Ak_generated_file | Ak_context_checkpoint | Ak_workspace_snapshot | Ak_final_report

datatype ArtifactVisibility = Av_private | Av_run | Av_thread | Av_workspace

datatype ArtifactPayloadBackend = Ab_r2 | Ab_local_blob | Ab_memory

record ArtifactOwnership =
  ow_createdBy :: string
  ow_workspaceId :: string
  ow_threadId :: string
  ow_runId :: string

record ArtifactPayloadReference =
  pr_backend :: ArtifactPayloadBackend
  pr_storageKey :: string
  pr_contentType :: string
  pr_byteSize :: nat
  pr_sha256 :: string

record ArtifactMetadata =
  am_artifactId :: string
  am_kind :: ArtifactKind
  am_ownership :: ArtifactOwnership
  am_visibility :: ArtifactVisibility
  am_payload :: ArtifactPayloadReference
  am_properties :: JsonRecord
  am_createdAt :: string

record ArtifactAccessContext =
  ac_userId :: string
  ac_workspaceId :: string
  ac_threadId :: "string option"
  ac_runId :: "string option"

datatype ArtifactAccessOperation = Ao_create | Ao_read_metadata | Ao_read_payload | Ao_list | Ao_delete

primrec operation_name :: "ArtifactAccessOperation \<Rightarrow> string" where
  "operation_name Ao_create = ''create''"
| "operation_name Ao_read_metadata = ''read_metadata''"
| "operation_name Ao_read_payload = ''read_payload''"
| "operation_name Ao_list = ''list''"
| "operation_name Ao_delete = ''delete''"

type_synonym bytes = "8 word list"

record PutArtifactInput =
  pi_artifactId :: "string option"
  pi_idempotencyKey :: string
  pi_kind :: ArtifactKind
  pi_ownership :: ArtifactOwnership
  pi_visibility :: ArtifactVisibility
  pi_contentType :: string
  pi_payload :: bytes
  pi_expectedSha256 :: "string option"
  pi_properties :: "JsonRecord option"

datatype ArtifactStoreErrorCode =
    Artifact_access_denied | Artifact_checksum_mismatch | Artifact_idempotency_conflict | Artifact_not_found
  | Artifact_payload_not_found | Invalid_artifact_input

text \<open>What the store throws: a refusal of a schema, an error of its own, or what the authorizer throws.\<close>

datatype artifact_error = Schema_refused | ArtifactStoreError ArtifactStoreErrorCode string | Authorizer_threw string

text \<open>\<open>as_sequence\<close> counts the created identifiers and \<open>as_clock\<close> the readings of the clock.\<close>

record InMemoryArtifactStore =
  as_records :: "ArtifactMetadata js_record"
  as_idempotency :: "string js_record"
  as_payloads :: "bytes js_record"
  as_sequence :: nat
  as_clock :: nat

record InMemoryArtifactStoreOptions =
  ao_authorize :: "ArtifactAccessOperation \<Rightarrow> ArtifactAccessContext \<Rightarrow> ArtifactMetadata option \<Rightarrow> string + bool"
  ao_now :: "(nat \<Rightarrow> string) option"
  ao_createArtifactId :: "(nat \<Rightarrow> string) option"
  ao_sha256 :: "bytes \<Rightarrow> string"
  ao_timestamp :: "string \<Rightarrow> bool"

type_synonym 'a store_op = "(InMemoryArtifactStore, artifact_error, 'a) op"

definition empty_artifact_store :: InMemoryArtifactStore where
  "empty_artifact_store = \<lparr>as_records = [], as_idempotency = [], as_payloads = [], as_sequence = 0, as_clock = 0\<rparr>"


section \<open>Schemas\<close>

definition char_in :: "char \<Rightarrow> char \<Rightarrow> char \<Rightarrow> bool" where
  "char_in a b c \<longleftrightarrow> (of_char a :: int) \<le> of_char c \<and> (of_char c :: int) \<le> of_char b"

definition id_start :: "char \<Rightarrow> bool" where
  "id_start c \<longleftrightarrow> char_in (CHR ''a'') (CHR ''z'') c \<or> char_in (CHR ''A'') (CHR ''Z'') c \<or> char_in (CHR ''0'') (CHR ''9'') c"

definition createPrefixedIdSchema :: "string \<Rightarrow> string \<Rightarrow> bool" where
  "createPrefixedIdSchema p s \<longleftrightarrow> startsWith s (p @ ''_'') \<and>
     (let suffix_part = drop (length p + 1) s in
      6 \<le> length suffix_part \<and> length suffix_part \<le> 128 \<and> id_start (hd suffix_part) \<and>
      list_all (\<lambda>c. id_start c \<or> c = CHR ''_'' \<or> c = CHR ''-'') suffix_part)"

definition ArtifactSha256Schema :: "string \<Rightarrow> bool" where
  "ArtifactSha256Schema s \<longleftrightarrow> length s = 64 \<and>
     list_all (\<lambda>c. char_in (CHR ''a'') (CHR ''f'') c \<or> char_in (CHR ''0'') (CHR ''9'') c) s"

definition ArtifactOwnershipSchema :: "ArtifactOwnership \<Rightarrow> bool" where
  "ArtifactOwnershipSchema w \<longleftrightarrow> createPrefixedIdSchema ''usr'' (ow_createdBy w) \<and> createPrefixedIdSchema ''wrk'' (ow_workspaceId w) \<and>
     createPrefixedIdSchema ''thr'' (ow_threadId w) \<and> createPrefixedIdSchema ''run'' (ow_runId w)"

definition ArtifactPayloadReferenceSchema :: "ArtifactPayloadReference \<Rightarrow> bool" where
  "ArtifactPayloadReferenceSchema r \<longleftrightarrow> 1 \<le> length (pr_storageKey r) \<and> length (pr_storageKey r) \<le> 1024 \<and>
     1 \<le> length (pr_contentType r) \<and> length (pr_contentType r) \<le> 255 \<and> int (pr_byteSize r) \<le> 2 ^ 53 - 1 \<and> ArtifactSha256Schema (pr_sha256 r)"

definition ArtifactMetadataSchema :: "InMemoryArtifactStoreOptions \<Rightarrow> ArtifactMetadata \<Rightarrow> bool" where
  "ArtifactMetadataSchema env m \<longleftrightarrow> createPrefixedIdSchema ''art'' (am_artifactId m) \<and> ArtifactOwnershipSchema (am_ownership m) \<and>
     ArtifactPayloadReferenceSchema (am_payload m) \<and> isJsonRecord (PObj (am_properties m)) \<and> ao_timestamp env (am_createdAt m)"

definition nullable_schema :: "('a \<Rightarrow> bool) \<Rightarrow> 'a option \<Rightarrow> bool" where
  "nullable_schema ok v = (case v of None \<Rightarrow> True | Some x \<Rightarrow> ok x)"

definition ArtifactAccessContextSchema :: "ArtifactAccessContext \<Rightarrow> bool" where
  "ArtifactAccessContextSchema a \<longleftrightarrow> createPrefixedIdSchema ''usr'' (ac_userId a) \<and> createPrefixedIdSchema ''wrk'' (ac_workspaceId a) \<and>
     nullable_schema (createPrefixedIdSchema ''thr'') (ac_threadId a) \<and> nullable_schema (createPrefixedIdSchema ''run'') (ac_runId a)"

text \<open>\<open>schema.parse(value)\<close>\<close>

definition parsed :: "bool \<Rightarrow> 'a \<Rightarrow> 'a store_op" where
  "parsed ok x = (if ok then returnE x else throwE Schema_refused)"


section \<open>Metadata and payloads\<close>

definition cloneMetadata :: "InMemoryArtifactStoreOptions \<Rightarrow> ArtifactMetadata \<Rightarrow> ArtifactMetadata store_op" where
  "cloneMetadata env m = parsed (ArtifactMetadataSchema env m) m"

definition repository_put :: "InMemoryArtifactStoreOptions \<Rightarrow> ArtifactMetadata \<Rightarrow> string \<Rightarrow> unit store_op" where
  "repository_put env m key = bindE (cloneMetadata env m) (\<lambda>c.
     block [modifyE (\<lambda>s. s\<lparr>as_records := AList.update (am_artifactId m) c (as_records s)\<rparr>),
       modifyE (\<lambda>s. s\<lparr>as_idempotency := AList.update key (am_artifactId m) (as_idempotency s)\<rparr>)])"

definition repository_get :: "InMemoryArtifactStoreOptions \<Rightarrow> string \<Rightarrow> ArtifactMetadata option store_op" where
  "repository_get env i = bindE (getE (\<lambda>s. map_of (as_records s) i)) (\<lambda>r.
     case r of None \<Rightarrow> returnE None | Some m \<Rightarrow> bindE (cloneMetadata env m) (\<lambda>c. returnE (Some c)))"

definition getByIdempotencyKey :: "InMemoryArtifactStoreOptions \<Rightarrow> string \<Rightarrow> ArtifactMetadata option store_op" where
  "getByIdempotencyKey env key = bindE (getE (\<lambda>s. map_of (as_idempotency s) key)) (\<lambda>i.
     if truthy i then repository_get env (the i) else returnE None)"

definition repository_list :: "InMemoryArtifactStoreOptions \<Rightarrow> string \<Rightarrow> ArtifactMetadata list store_op" where
  "repository_list env w = bindE (getE (\<lambda>s. filter (\<lambda>m. ow_workspaceId (am_ownership m) = w) (map snd (as_records s)))) (mapE (cloneMetadata env))"

definition repository_delete :: "string \<Rightarrow> bool store_op" where
  "repository_delete i =
     bindE (modifyE (\<lambda>s. s\<lparr>as_idempotency := filter (\<lambda>(_, v). v \<noteq> i) (as_idempotency s)\<rparr>)) (\<lambda>_.
     bindE (getE (\<lambda>s. map_of (as_records s) i \<noteq> None)) (\<lambda>present.
     bindE (modifyE (\<lambda>s. s\<lparr>as_records := AList.delete i (as_records s)\<rparr>)) (\<lambda>_. returnE present)))"

definition payload_put :: "ArtifactPayloadReference \<Rightarrow> bytes \<Rightarrow> unit store_op" where
  "payload_put r p = modifyE (\<lambda>s. s\<lparr>as_payloads := AList.update (pr_storageKey r) p (as_payloads s)\<rparr>)"

definition payload_get :: "ArtifactPayloadReference \<Rightarrow> bytes option store_op" where
  "payload_get r = getE (\<lambda>s. map_of (as_payloads s) (pr_storageKey r))"

definition payload_delete :: "ArtifactPayloadReference \<Rightarrow> bool store_op" where
  "payload_delete r = bindE (getE (\<lambda>s. map_of (as_payloads s) (pr_storageKey r) \<noteq> None)) (\<lambda>present.
     bindE (modifyE (\<lambda>s. s\<lparr>as_payloads := AList.delete (pr_storageKey r) (as_payloads s)\<rparr>)) (\<lambda>_. returnE present))"


section \<open>Checks\<close>

definition computeSha256 :: "InMemoryArtifactStoreOptions \<Rightarrow> bytes \<Rightarrow> string store_op" where
  "computeSha256 env p = parsed (ArtifactSha256Schema (ao_sha256 env p)) (ao_sha256 env p)"

definition validateIdempotencyKey :: "string \<Rightarrow> string store_op" where
  "validateIdempotencyKey key =
     (if length key < 1 \<or> length key > 256
      then throwE (ArtifactStoreError Invalid_artifact_input ''idempotencyKey must contain between 1 and 256 characters'') else returnE key)"

definition requireMatchingOwnership :: "ArtifactAccessContext \<Rightarrow> ArtifactOwnership \<Rightarrow> unit store_op" where
  "requireMatchingOwnership a w =
     (if ac_userId a = ow_createdBy w \<and> ac_workspaceId a = ow_workspaceId w \<and> ac_threadId a = Some (ow_threadId w) \<and> ac_runId a = Some (ow_runId w)
      then returnE ()
      else throwE (ArtifactStoreError Artifact_access_denied ''Artifact ownership must match the caller access scope''))"

text \<open>\<open>await this.options.authorizer.authorize(...)\<close>\<close>

definition authorized ::
  "InMemoryArtifactStoreOptions \<Rightarrow> ArtifactAccessOperation \<Rightarrow> ArtifactAccessContext \<Rightarrow> ArtifactMetadata option \<Rightarrow> bool store_op" where
  "authorized env operation access m = liftE (map_sum Authorizer_threw id (ao_authorize env operation access m))"

definition requireAuthorized ::
  "InMemoryArtifactStoreOptions \<Rightarrow> ArtifactAccessOperation \<Rightarrow> ArtifactAccessContext \<Rightarrow> ArtifactMetadata option \<Rightarrow> unit store_op" where
  "requireAuthorized env operation access m =
     bindE (parsed (ArtifactAccessContextSchema access) access) (\<lambda>parsedAccess.
     bindE (authorized env operation parsedAccess m) (\<lambda>allowed.
     if \<not> allowed then throwE (ArtifactStoreError Artifact_access_denied (''Artifact operation denied: '' @ operation_name operation)) else returnE ()))"

definition requireIdempotentPayload :: "InMemoryArtifactStoreOptions \<Rightarrow> ArtifactMetadata \<Rightarrow> bytes \<Rightarrow> unit store_op" where
  "requireIdempotentPayload env existing p = bindE (computeSha256 env p) (\<lambda>sha.
     if pr_sha256 (am_payload existing) \<noteq> sha
     then throwE (ArtifactStoreError Artifact_idempotency_conflict ''Idempotency key is already associated with a different payload'')
     else returnE ())"


section \<open>Operations\<close>

definition padStart :: "nat \<Rightarrow> char \<Rightarrow> string \<Rightarrow> string" where
  "padStart n c s = replicate (n - length s) c @ s"

definition createArtifactId :: "InMemoryArtifactStoreOptions \<Rightarrow> string store_op" where
  "createArtifactId env = bindE (modifyE (\<lambda>s. s\<lparr>as_sequence := as_sequence s + 1\<rparr>)) (\<lambda>_.
     bindE (getE as_sequence) (\<lambda>n.
     case ao_createArtifactId env of
       Some create \<Rightarrow> returnE (create n)
     | None \<Rightarrow> let i = ''art_memory_'' @ padStart 6 (CHR ''0'') (string_of_nat n) in parsed (createPrefixedIdSchema ''art'' i) i))"

definition DEFAULT_TIMESTAMP :: string where
  "DEFAULT_TIMESTAMP = ''2026-01-01T00:00:00.000Z''"

definition read_clock :: "InMemoryArtifactStoreOptions \<Rightarrow> string store_op" where
  "read_clock env = (case ao_now env of
     None \<Rightarrow> returnE DEFAULT_TIMESTAMP
   | Some now \<Rightarrow> bindE (getE as_clock) (\<lambda>n. bindE (modifyE (\<lambda>s. s\<lparr>as_clock := n + 1\<rparr>)) (\<lambda>_. returnE (now n))))"

definition storage_key :: "string \<Rightarrow> string" where
  "storage_key i = ''artifacts/'' @ i"

lemma storage_key_eq [simp]: "storage_key i = storage_key j \<longleftrightarrow> i = j"
  by (simp add: storage_key_def)

definition artifact_record :: "PutArtifactInput \<Rightarrow> string \<Rightarrow> string \<Rightarrow> ArtifactOwnership \<Rightarrow> string \<Rightarrow> ArtifactMetadata" where
  "artifact_record inp sha artifactId ownership created =
     \<lparr>am_artifactId = artifactId, am_kind = pi_kind inp, am_ownership = ownership, am_visibility = pi_visibility inp,
      am_payload = \<lparr>pr_backend = Ab_memory, pr_storageKey = storage_key artifactId, pr_contentType = pi_contentType inp,
        pr_byteSize = length (pi_payload inp), pr_sha256 = sha\<rparr>,
      am_properties = (case pi_properties inp of None \<Rightarrow> [] | Some p \<Rightarrow> p), am_createdAt = created\<rparr>"

definition buildMetadata :: "InMemoryArtifactStoreOptions \<Rightarrow> PutArtifactInput \<Rightarrow> ArtifactMetadata store_op" where
  "buildMetadata env inp =
     bindE (computeSha256 env (pi_payload inp)) (\<lambda>sha.
     if truthy (pi_expectedSha256 inp) \<and> pi_expectedSha256 inp \<noteq> Some sha
     then throwE (ArtifactStoreError Artifact_checksum_mismatch ''Artifact payload checksum does not match expectedSha256'')
     else
       bindE (case pi_artifactId inp of Some i \<Rightarrow> returnE i | None \<Rightarrow> createArtifactId env) (\<lambda>artifactId.
       bindE (parsed (ArtifactOwnershipSchema (pi_ownership inp)) (pi_ownership inp)) (\<lambda>ownership.
       bindE (read_clock env) (\<lambda>created.
       let m = artifact_record inp sha artifactId ownership created in parsed (ArtifactMetadataSchema env m) m))))"

definition put_existing :: "InMemoryArtifactStoreOptions \<Rightarrow> PutArtifactInput \<Rightarrow> ArtifactAccessContext \<Rightarrow> ArtifactMetadata \<Rightarrow> ArtifactMetadata store_op" where
  "put_existing env inp access existing =
     bindE (requireAuthorized env Ao_create access (Some existing)) (\<lambda>_.
     bindE (requireIdempotentPayload env existing (pi_payload inp)) (\<lambda>_. cloneMetadata env existing))"

definition put_new :: "InMemoryArtifactStoreOptions \<Rightarrow> PutArtifactInput \<Rightarrow> ArtifactAccessContext \<Rightarrow> ArtifactMetadata store_op" where
  "put_new env inp access =
     bindE (requireAuthorized env Ao_create access None) (\<lambda>_.
     bindE (buildMetadata env inp) (\<lambda>m.
     bindE (payload_put (am_payload m) (pi_payload inp)) (\<lambda>_.
     bindE (repository_put env m (pi_idempotencyKey inp)) (\<lambda>_. cloneMetadata env m))))"

definition artifact_put :: "InMemoryArtifactStoreOptions \<Rightarrow> PutArtifactInput \<Rightarrow> ArtifactAccessContext \<Rightarrow> ArtifactMetadata store_op" where
  "artifact_put env inp access =
     bindE (parsed (ArtifactAccessContextSchema access) access) (\<lambda>parsedAccess.
     bindE (parsed (ArtifactOwnershipSchema (pi_ownership inp)) (pi_ownership inp)) (\<lambda>ownership.
     bindE (requireMatchingOwnership parsedAccess ownership) (\<lambda>_.
     bindE (validateIdempotencyKey (pi_idempotencyKey inp)) (\<lambda>key.
     bindE (getByIdempotencyKey env key) (\<lambda>existing.
     case existing of
       Some m \<Rightarrow> put_existing env inp parsedAccess m
     | None \<Rightarrow> put_new env inp parsedAccess)))))"

definition getMetadata :: "InMemoryArtifactStoreOptions \<Rightarrow> string \<Rightarrow> ArtifactAccessContext \<Rightarrow> ArtifactMetadata option store_op" where
  "getMetadata env i access =
     bindE (parsed (createPrefixedIdSchema ''art'' i) i) (\<lambda>i.
     bindE (repository_get env i) (\<lambda>r.
     case r of
       None \<Rightarrow> returnE None
     | Some m \<Rightarrow> bindE (requireAuthorized env Ao_read_metadata access (Some m)) (\<lambda>_. bindE (cloneMetadata env m) (\<lambda>c. returnE (Some c)))))"

definition getPayload :: "InMemoryArtifactStoreOptions \<Rightarrow> string \<Rightarrow> ArtifactAccessContext \<Rightarrow> bytes option store_op" where
  "getPayload env i access =
     bindE (parsed (createPrefixedIdSchema ''art'' i) i) (\<lambda>i.
     bindE (repository_get env i) (\<lambda>r.
     case r of
       None \<Rightarrow> returnE None
     | Some m \<Rightarrow>
         bindE (requireAuthorized env Ao_read_payload access (Some m)) (\<lambda>_.
         bindE (payload_get (am_payload m)) (\<lambda>p.
         case p of
           None \<Rightarrow> throwE (ArtifactStoreError Artifact_payload_not_found (''Artifact payload not found: '' @ i))
         | Some bytes \<Rightarrow> returnE (Some bytes)))))"

definition artifact_list :: "InMemoryArtifactStoreOptions \<Rightarrow> ArtifactAccessContext \<Rightarrow> ArtifactMetadata list store_op" where
  "artifact_list env access =
     bindE (parsed (ArtifactAccessContextSchema access) access) (\<lambda>parsedAccess.
     bindE (requireAuthorized env Ao_list parsedAccess None) (\<lambda>_.
     bindE (repository_list env (ac_workspaceId parsedAccess)) (\<lambda>ms.
     bindE (mapE (\<lambda>m. bindE (authorized env Ao_read_metadata parsedAccess (Some m)) (\<lambda>allowed.
       if allowed then bindE (cloneMetadata env m) (\<lambda>c. returnE [c]) else returnE [])) ms) (\<lambda>parts.
     returnE (concat parts)))))"

definition artifact_delete :: "InMemoryArtifactStoreOptions \<Rightarrow> string \<Rightarrow> ArtifactAccessContext \<Rightarrow> bool store_op" where
  "artifact_delete env i access =
     bindE (parsed (createPrefixedIdSchema ''art'' i) i) (\<lambda>i.
     bindE (repository_get env i) (\<lambda>r.
     case r of
       None \<Rightarrow> returnE False
     | Some m \<Rightarrow>
         bindE (requireAuthorized env Ao_delete access (Some m)) (\<lambda>_.
         bindE (payload_delete (am_payload m)) (\<lambda>_. repository_delete i))))"



section \<open>Stored artifacts are intact\<close>

definition described :: "InMemoryArtifactStoreOptions \<Rightarrow> string \<Rightarrow> ArtifactMetadata \<Rightarrow> bytes \<Rightarrow> bool" where
  "described env i m p \<longleftrightarrow> am_artifactId m = i \<and> ArtifactMetadataSchema env m \<and> pr_storageKey (am_payload m) = storage_key i \<and>
     pr_byteSize (am_payload m) = length p \<and> pr_sha256 (am_payload m) = ao_sha256 env p"

text \<open>Every record describes a stored payload, and every key and every payload belongs to a record.\<close>

definition intact :: "InMemoryArtifactStoreOptions \<Rightarrow> InMemoryArtifactStore \<Rightarrow> bool" where
  "intact env s \<longleftrightarrow> distinct_keys (as_records s) \<and> distinct_keys (as_idempotency s) \<and> distinct_keys (as_payloads s) \<and>
     (\<forall>i m. map_of (as_records s) i = Some m \<longrightarrow> (\<exists>p. map_of (as_payloads s) (storage_key i) = Some p \<and> described env i m p)) \<and>
     (\<forall>k i. map_of (as_idempotency s) k = Some i \<longrightarrow> map_of (as_records s) i \<noteq> None) \<and>
     (\<forall>k. map_of (as_payloads s) k \<noteq> None \<longrightarrow> (\<exists>i. k = storage_key i \<and> map_of (as_records s) i \<noteq> None))"

lemma wpE_parsed [wp_simps]: "wpE (parsed ok x) Q E s = (if ok then Q x s else E Schema_refused s)"
  by (simp add: parsed_def wp_simps)

lemma wpE_authorized [wp_simps]:
  "wpE (authorized env operation access m) Q E s = (case ao_authorize env operation access m of Inl e \<Rightarrow> E (Authorizer_threw e) s | Inr b \<Rightarrow> Q b s)"
  by (simp add: authorized_def wp_simps split: sum.splits)

lemmas wp_checks = cloneMetadata_def computeSha256_def requireAuthorized_def requireIdempotentPayload_def validateIdempotencyKey_def
  requireMatchingOwnership_def

lemma intactD:
  assumes "intact env s" and "map_of (as_records s) i = Some m"
  obtains p where "map_of (as_payloads s) (storage_key i) = Some p" and "described env i m p"
  using assms unfolding intact_def by blast

lemma repository_get_wp:
  assumes "intact env s"
  shows "wpE (repository_get env i) Q E s = Q (map_of (as_records s) i) s"
proof (cases "map_of (as_records s) i")
  case (Some m)
  with assms have "ArtifactMetadataSchema env m" by (auto elim: intactD simp: described_def)
  with Some show ?thesis by (simp add: repository_get_def wp_simps cloneMetadata_def)
qed (simp add: repository_get_def wp_simps)

lemma intact_idempotency: "intact env s \<Longrightarrow> map_of (as_idempotency s) k = Some i \<Longrightarrow> \<exists>m. map_of (as_records s) i = Some m"
  unfolding intact_def by blast

lemma intact_id:
  assumes "intact env s" and "map_of (as_records s) i = Some m"
  shows "i \<noteq> []"
proof -
  obtain p where "described env i m p" using assms by (rule intactD)
  then show ?thesis by (auto simp: described_def ArtifactMetadataSchema_def createPrefixedIdSchema_def startsWith_def)
qed

text \<open>The artifact a key stands for.\<close>

definition keyed :: "InMemoryArtifactStore \<Rightarrow> string \<Rightarrow> ArtifactMetadata option" where
  "keyed s key = Option.bind (map_of (as_idempotency s) key) (map_of (as_records s))"

lemma getByIdempotencyKey_wp:
  assumes "intact env s"
  shows "wpE (getByIdempotencyKey env key) Q E s = Q (keyed s key) s"
proof (cases "map_of (as_idempotency s) key")
  case (Some i)
  with intact_idempotency [OF assms Some] intact_id [OF assms] have "i \<noteq> []" by auto
  with Some show ?thesis by (simp add: getByIdempotencyKey_def wp_simps repository_get_wp [OF assms] keyed_def)
qed (simp add: getByIdempotencyKey_def wp_simps keyed_def)

definition same_content :: "InMemoryArtifactStore \<Rightarrow> InMemoryArtifactStore \<Rightarrow> bool" where
  "same_content s s' \<longleftrightarrow> as_records s' = as_records s \<and> as_idempotency s' = as_idempotency s \<and> as_payloads s' = as_payloads s"

lemma createArtifactId_wp:
  assumes "\<And>i s'. same_content s s' \<Longrightarrow> Q i s'" and "\<And>e s'. same_content s s' \<Longrightarrow> E e s'"
  shows "wpE (createArtifactId env) Q E s"
  using assms by (simp add: createArtifactId_def wp_simps same_content_def Let_def split: option.splits)

lemma read_clock_wp:
  assumes "\<And>t s'. same_content s s' \<Longrightarrow> Q t s'"
  shows "wpE (read_clock env) Q E s"
  using assms by (simp add: read_clock_def wp_simps same_content_def split: option.splits)

lemma same_content_trans: "same_content s s' \<Longrightarrow> same_content s' s'' \<Longrightarrow> same_content s s''"
  by (simp add: same_content_def)

lemma buildMetadata_wp:
  assumes Q: "\<And>m s'. described env (am_artifactId m) m (pi_payload inp) \<Longrightarrow> pi_artifactId inp \<in> {None, Some (am_artifactId m)} \<Longrightarrow>
      am_ownership m = pi_ownership inp \<Longrightarrow> same_content s s' \<Longrightarrow> Q m s'"
    and E: "\<And>e s'. same_content s s' \<Longrightarrow> E e s'"
  shows "wpE (buildMetadata env inp) Q E s"
proof -
  let ?rest = "\<lambda>i. bindE (parsed (ArtifactOwnershipSchema (pi_ownership inp)) (pi_ownership inp)) (\<lambda>w. bindE (read_clock env) (\<lambda>created.
    let m = artifact_record inp (ao_sha256 env (pi_payload inp)) i w created in parsed (ArtifactMetadataSchema env m) m))"
  have rest: "wpE (?rest i) Q E s'" if s': "same_content s s'" and i: "pi_artifactId inp \<in> {None, Some i}" for s' i
  proof -
    have "wpE (read_clock env) (\<lambda>created. wpE (let m = artifact_record inp (ao_sha256 env (pi_payload inp)) i (pi_ownership inp) created in
        parsed (ArtifactMetadataSchema env m) m) Q E) E s'"
    proof (rule read_clock_wp)
      fix created s''
      let ?m = "artifact_record inp (ao_sha256 env (pi_payload inp)) i (pi_ownership inp) created"
      assume "same_content s' s''"
      then have "same_content s s''" by (rule same_content_trans [OF s'])
      then show "wpE (let m = ?m in parsed (ArtifactMetadataSchema env m) m) Q E s''"
        using Q [of ?m s''] E i by (simp add: wpE_parsed described_def artifact_record_def Let_def)
    qed
    then show ?thesis using E [OF s'] by (simp add: wpE_bind wpE_parsed)
  qed
  have refl: "same_content s s" by (simp add: same_content_def)
  have "wpE (bindE (case pi_artifactId inp of Some i \<Rightarrow> returnE i | None \<Rightarrow> createArtifactId env) ?rest) Q E s"
    unfolding wpE_bind [of "case pi_artifactId inp of Some i \<Rightarrow> returnE i | None \<Rightarrow> createArtifactId env"]
    by (cases "pi_artifactId inp") (auto simp: wpE_return intro!: createArtifactId_wp rest E refl)
  then show ?thesis
    unfolding buildMetadata_def computeSha256_def wpE_bind [of "parsed _ (ao_sha256 env (pi_payload inp))"]
    using E [OF refl] by (simp add: wpE_parsed wpE_throw)
qed

text \<open>The store after a new artifact.\<close>

definition stored_as :: "InMemoryArtifactStore \<Rightarrow> ArtifactMetadata \<Rightarrow> bytes \<Rightarrow> string \<Rightarrow> InMemoryArtifactStore \<Rightarrow> bool" where
  "stored_as s m p key s' \<longleftrightarrow> as_records s' = AList.update (am_artifactId m) m (as_records s) \<and>
     as_idempotency s' = AList.update key (am_artifactId m) (as_idempotency s) \<and>
     as_payloads s' = AList.update (storage_key (am_artifactId m)) p (as_payloads s)"

lemma put_new_wp:
  assumes "\<And>m s'. described env (am_artifactId m) m (pi_payload inp) \<Longrightarrow> pi_artifactId inp \<in> {None, Some (am_artifactId m)} \<Longrightarrow>
      am_ownership m = pi_ownership inp \<Longrightarrow> stored_as s m (pi_payload inp) (pi_idempotencyKey inp) s' \<Longrightarrow> Q m s'"
    and "\<And>e s'. same_content s s' \<Longrightarrow> E e s'"
  shows "wpE (put_new env inp access) Q E s"
proof -
  have E: "E e s" for e using assms(2) by (simp add: same_content_def)
  show ?thesis
    unfolding put_new_def requireAuthorized_def wp_simps
    by (auto simp: wp_simps E repository_put_def payload_put_def cloneMetadata_def described_def stored_as_def same_content_def split: sum.splits
        intro!: buildMetadata_wp assms)
qed

lemma intact_same: "intact env s \<Longrightarrow> same_content s s' \<Longrightarrow> intact env s'"
  unfolding intact_def same_content_def by (elim conjE) (intro conjI; simp only:)

lemma intact_stored:
  assumes s: "intact env s" and m: "described env (am_artifactId m) m p" and s': "stored_as s m p key s'"
  shows "intact env s'"
proof -
  have "\<exists>q. map_of (as_payloads s') (storage_key i) = Some q \<and> described env i x q" if "map_of (as_records s') i = Some x" for i x
  proof (cases "i = am_artifactId m")
    case False
    then have "map_of (as_records s) i = Some x" using that s' by (simp add: stored_as_def)
    with s False s' show ?thesis by (auto elim: intactD simp: stored_as_def)
  qed (use that m s' in \<open>auto simp: stored_as_def\<close>)
  moreover have "map_of (as_records s') i \<noteq> None" if "map_of (as_idempotency s') k = Some i" for k i
    using that s s' intact_idempotency [OF s] by (auto simp: stored_as_def split: if_splits)
  moreover have "\<exists>i. k = storage_key i \<and> map_of (as_records s') i \<noteq> None" if k: "map_of (as_payloads s') k \<noteq> None" for k
  proof (cases "k = storage_key (am_artifactId m)")
    case False
    then have "map_of (as_payloads s) k \<noteq> None" using k s' by (simp add: stored_as_def)
    then obtain i where "k = storage_key i" "map_of (as_records s) i \<noteq> None" using s unfolding intact_def by blast
    then show ?thesis using s' by (auto simp: stored_as_def)
  qed (use s' in \<open>auto simp: stored_as_def\<close>)
  moreover have "distinct_keys (as_records s') \<and> distinct_keys (as_idempotency s') \<and> distinct_keys (as_payloads s')"
    using s s' by (simp add: stored_as_def intact_def)
  ultimately show ?thesis unfolding intact_def by blast
qed


lemma artifact_put_wp:
  assumes s: "intact env s"
    and existing: "\<And>m. keyed s (pi_idempotencyKey inp) = Some m \<Longrightarrow> pr_sha256 (am_payload m) = ao_sha256 env (pi_payload inp) \<Longrightarrow> Q m s"
    and fresh: "\<And>m s'. keyed s (pi_idempotencyKey inp) = None \<Longrightarrow> described env (am_artifactId m) m (pi_payload inp) \<Longrightarrow>
      pi_artifactId inp \<in> {None, Some (am_artifactId m)} \<Longrightarrow> am_ownership m = pi_ownership inp \<Longrightarrow>
      stored_as s m (pi_payload inp) (pi_idempotencyKey inp) s' \<Longrightarrow> Q m s'"
    and E: "\<And>e s'. same_content s s' \<Longrightarrow> E e s'"
  shows "wpE (artifact_put env inp access) Q E s"
proof -
  let ?body = "\<lambda>r. case r of Some m \<Rightarrow> put_existing env inp access m | None \<Rightarrow> put_new env inp access"
  have here: "E e s" for e using E by (simp add: same_content_def)
  have "wpE (?body (keyed s (pi_idempotencyKey inp))) Q E s"
  proof (cases "keyed s (pi_idempotencyKey inp)")
    case None
    then show ?thesis using fresh E by (auto intro!: put_new_wp)
  next
    case (Some m)
    then show ?thesis
      using existing here by (simp add: put_existing_def requireAuthorized_def requireIdempotentPayload_def computeSha256_def cloneMetadata_def wp_simps split: sum.splits)
  qed
  then show ?thesis
    using here by (simp add: artifact_put_def requireMatchingOwnership_def validateIdempotencyKey_def wp_simps getByIdempotencyKey_wp [OF s])
qed

lemma put_keeps_intact: "keeps (intact env) (artifact_put env inp access)"
  unfolding keeps_wp by (intro allI impI artifact_put_wp) (auto intro: intact_stored intact_same)

lemma map_of_drop_value:
  "distinct_keys xs \<Longrightarrow> map_of (filter (\<lambda>(_, v). v \<noteq> i) xs) k = (case map_of xs k of None \<Rightarrow> None | Some v \<Rightarrow> if v = i then None else Some v)"
proof (induction xs)
  case (Cons x xs)
  then show ?case
    by (cases x) (auto split: option.splits simp: map_of_eq_None_iff)
qed simp

lemma map_of_delete: "map_of (AList.delete k al) j = (if j = k then None else map_of al j)"
  by (simp add: delete_conv')

lemma delete_keeps_intact: "keeps (intact env) (artifact_delete env i access)"
  unfolding keeps_wp
proof (intro allI impI)
  fix s
  assume s: "intact env s"
  show "wpE (artifact_delete env i access) (\<lambda>_. intact env) (\<lambda>_. intact env) s"
  proof (cases "map_of (as_records s) i")
    case (Some m)
    with s have key: "pr_storageKey (am_payload m) = storage_key i" by (auto elim: intactD simp: described_def)
    let ?s = "s\<lparr>as_payloads := AList.delete (storage_key i) (as_payloads s), as_idempotency := filter (\<lambda>(_, v). v \<noteq> i) (as_idempotency s),
      as_records := AList.delete i (as_records s)\<rparr>"
    have keys: "distinct_keys (as_idempotency s)" "distinct_keys (as_records s)" "distinct_keys (as_payloads s)" using s by (simp_all only: intact_def)
    have "distinct_keys (as_records ?s) \<and> distinct_keys (as_idempotency ?s) \<and> distinct_keys (as_payloads ?s)"
      using keys distinct_map_filter [OF keys(1)] by (auto simp: distinct_delete)
    moreover have "\<exists>p. map_of (as_payloads ?s) (storage_key j) = Some p \<and> described env j x p" if "map_of (as_records ?s) j = Some x" for j x
      using that s by (auto simp: map_of_delete elim: intactD split: if_splits)
    moreover have "map_of (as_records ?s) j \<noteq> None" if "map_of (as_idempotency ?s) k = Some j" for k j
      using that intact_idempotency [OF s] by (auto simp: map_of_delete map_of_drop_value [OF keys(1)] split: option.splits if_splits)
    moreover have "\<exists>j. k = storage_key j \<and> map_of (as_records ?s) j \<noteq> None" if k: "map_of (as_payloads ?s) k \<noteq> None" for k
    proof -
      have "map_of (as_payloads s) k \<noteq> None" "k \<noteq> storage_key i" using k by (auto simp: map_of_delete split: if_splits)
      then obtain j where "k = storage_key j" "map_of (as_records s) j \<noteq> None" "j \<noteq> i" using s unfolding intact_def by blast
      then show ?thesis by (auto simp: map_of_delete)
    qed
    ultimately have "intact env ?s" unfolding intact_def by blast
    then show ?thesis
      using s Some key by (simp add: artifact_delete_def requireAuthorized_def payload_delete_def repository_delete_def wp_simps repository_get_wp [OF s] split: sum.splits)
  qed (use s in \<open>simp add: artifact_delete_def wp_simps repository_get_wp [OF s]\<close>)
qed


section \<open>Histories\<close>

datatype (plugins only: code size) artifact_command =
    Put_artifact PutArtifactInput ArtifactAccessContext
  | Get_metadata string ArtifactAccessContext
  | Get_payload string ArtifactAccessContext
  | List_artifacts ArtifactAccessContext
  | Delete_artifact string ArtifactAccessContext

primrec artifact_exec :: "InMemoryArtifactStoreOptions \<Rightarrow> artifact_command \<Rightarrow> InMemoryArtifactStore \<Rightarrow> InMemoryArtifactStore" where
  "artifact_exec env (Put_artifact inp access) s = snd (artifact_put env inp access s)"
| "artifact_exec env (Get_metadata i access) s = snd (getMetadata env i access s)"
| "artifact_exec env (Get_payload i access) s = snd (getPayload env i access s)"
| "artifact_exec env (List_artifacts access) s = snd (artifact_list env access s)"
| "artifact_exec env (Delete_artifact i access) s = snd (artifact_delete env i access s)"

definition artifact_run :: "InMemoryArtifactStoreOptions \<Rightarrow> artifact_command list \<Rightarrow> InMemoryArtifactStore" where
  "artifact_run env cs = fold (artifact_exec env) cs empty_artifact_store"

lemma keeps_map: "(\<And>x. keeps P (f x)) \<Longrightarrow> keeps P (mapE f xs)"
  by (induction xs) (auto intro!: keeps_rules)

lemma checks_keep: "keeps P (parsed ok x)" "keeps P (authorized env operation access m)" "keeps P (cloneMetadata env c)"
    "keeps P (requireAuthorized env operation access m)" "keeps P (repository_get env i)" "keeps P (repository_list env w)"
    "keeps P (payload_get r)"
proof -
  show parsed: "keeps P (parsed ok x)" for ok and x :: 'b
    unfolding parsed_def by (intro keeps_rules)
  show authorized: "keeps P (authorized env operation access m)" for access unfolding authorized_def by (intro keeps_rules)
  show clone: "keeps P (cloneMetadata env c)" for c unfolding cloneMetadata_def parsed_def by (intro keeps_rules)
  show "keeps P (requireAuthorized env operation access m)" unfolding requireAuthorized_def parsed_def by (intro keeps_rules authorized)
  show "keeps P (repository_get env i)" unfolding repository_get_def by (intro keeps_rules clone)
  show "keeps P (repository_list env w)" unfolding repository_list_def by (intro keeps_rules keeps_map clone)
  show "keeps P (payload_get r)" unfolding payload_get_def by (intro keeps_rules)
qed

lemma reads_keep: "keeps P (getMetadata env i access)" "keeps P (getPayload env i access)" "keeps P (artifact_list env access)"
  unfolding getMetadata_def getPayload_def artifact_list_def by (intro keeps_rules keeps_map checks_keep)+

lemma exec_keeps_intact: "intact env s \<Longrightarrow> intact env (artifact_exec env c s)"
  by (cases c) (auto intro: keepsD [OF put_keeps_intact] keepsD [OF delete_keeps_intact] keepsD [OF reads_keep(1)] keepsD [OF reads_keep(2)]
      keepsD [OF reads_keep(3)])

lemma run_intact: "intact env (artifact_run env cs)"
proof -
  have "intact env s \<Longrightarrow> intact env (fold (artifact_exec env) cs s)" for s
    by (induction cs arbitrary: s) (auto intro: exec_keeps_intact)
  moreover have "intact env empty_artifact_store" by (simp add: intact_def empty_artifact_store_def)
  ultimately show ?thesis by (simp add: artifact_run_def)
qed

text \<open>
  C17. Stored artifacts stay intact: after any history of puts, reads, listings and deletions, with any outcomes, a payload
  that is read belongs to a stored artifact that the caller may read, and it has the size and the checksum that the
  metadata states. An artifact never lacks its payload, and reading changes nothing.
\<close>
theorem stored_artifacts_stay_intact:
  "let s = artifact_run env cs in case getPayload env i access s of
     (Inr (Some p), s') \<Rightarrow> s' = s \<and> (\<exists>m. map_of (as_records s) i = Some m \<and> ao_authorize env Ao_read_payload access (Some m) = Inr True \<and>
        pr_byteSize (am_payload m) = length p \<and> pr_sha256 (am_payload m) = ao_sha256 env p)
   | (Inr None, s') \<Rightarrow> s' = s \<and> map_of (as_records s) i = None
   | (Inl e, s') \<Rightarrow> s' = s \<and> (\<forall>msg. e \<noteq> ArtifactStoreError Artifact_payload_not_found msg)"
proof -
  let ?s = "artifact_run env cs"
  note s = run_intact [of env cs]
  have "wpE (getPayload env i access) (\<lambda>r s'. s' = ?s \<and> (case r of
      Some p \<Rightarrow> \<exists>m. map_of (as_records ?s) i = Some m \<and> ao_authorize env Ao_read_payload access (Some m) = Inr True \<and>
        pr_byteSize (am_payload m) = length p \<and> pr_sha256 (am_payload m) = ao_sha256 env p
    | None \<Rightarrow> map_of (as_records ?s) i = None))
    (\<lambda>e s'. s' = ?s \<and> (\<forall>msg. e \<noteq> ArtifactStoreError Artifact_payload_not_found msg)) ?s"
  proof (cases "map_of (as_records ?s) i")
    case (Some m)
    then obtain p where "map_of (as_payloads ?s) (storage_key i) = Some p" "described env i m p" using s by (auto elim: intactD)
    with Some show ?thesis
      by (simp add: getPayload_def requireAuthorized_def payload_get_def described_def wp_simps repository_get_wp [OF s] split: sum.splits)
  qed (simp add: getPayload_def wp_simps repository_get_wp [OF s])
  then show ?thesis by (auto simp: Let_def wpE_def split: prod.splits sum.splits option.splits)
qed


section \<open>Repeated and colliding puts\<close>

lemma put_checks:
  assumes "artifact_put env inp access s = (Inr m, s')"
  shows "ArtifactAccessContextSchema access" "ArtifactOwnershipSchema (pi_ownership inp)" "pi_idempotencyKey inp \<noteq> [] \<and> length (pi_idempotencyKey inp) \<le> 256"
    "ac_userId access = ow_createdBy (pi_ownership inp)" "ac_workspaceId access = ow_workspaceId (pi_ownership inp)"
    "ac_threadId access = Some (ow_threadId (pi_ownership inp))" "ac_runId access = Some (ow_runId (pi_ownership inp))"
  using assms
  by (auto simp: artifact_put_def parsed_def requireMatchingOwnership_def validateIdempotencyKey_def op_defs split: if_splits prod.splits sum.splits)

lemma put_outcome:
  assumes s: "intact env s" and put: "artifact_put env inp access s = (Inr m, s')"
  obtains (existing) "keyed s (pi_idempotencyKey inp) = Some m" "pr_sha256 (am_payload m) = ao_sha256 env (pi_payload inp)" "s' = s"
  | (fresh) "keyed s (pi_idempotencyKey inp) = None" "described env (am_artifactId m) m (pi_payload inp)"
      "pi_artifactId inp \<in> {None, Some (am_artifactId m)}" "am_ownership m = pi_ownership inp"
      "stored_as s m (pi_payload inp) (pi_idempotencyKey inp) s'"
proof -
  let ?Q = "\<lambda>m s'. (keyed s (pi_idempotencyKey inp) = Some m \<and> pr_sha256 (am_payload m) = ao_sha256 env (pi_payload inp) \<and> s' = s) \<or>
    (keyed s (pi_idempotencyKey inp) = None \<and> described env (am_artifactId m) m (pi_payload inp) \<and> pi_artifactId inp \<in> {None, Some (am_artifactId m)} \<and>
     am_ownership m = pi_ownership inp \<and> stored_as s m (pi_payload inp) (pi_idempotencyKey inp) s')"
  have "wpE (artifact_put env inp access) ?Q (\<lambda>_ _. True) s" by (rule artifact_put_wp [OF s]) blast+
  then show ?thesis using put that by (auto simp: wpE_def)
qed

lemma put_keyed:
  assumes "intact env s" and "artifact_put env inp access s = (Inr m, s')"
  shows "keyed s' (pi_idempotencyKey inp) = Some m" "pr_sha256 (am_payload m) = ao_sha256 env (pi_payload inp)"
    "map_of (as_records s') (am_artifactId m) = Some m"
  using assms
proof (atomize (full), cases rule: put_outcome)
  case existing
  then obtain i where i: "map_of (as_records s) i = Some m" by (auto simp: keyed_def bind_eq_Some_conv)
  then obtain p where "described env i m p" using assms(1) by (auto elim: intactD)
  with existing i show "keyed s' (pi_idempotencyKey inp) = Some m \<and> pr_sha256 (am_payload m) = ao_sha256 env (pi_payload inp) \<and>
      map_of (as_records s') (am_artifactId m) = Some m" by (simp add: described_def)
qed (auto simp: keyed_def stored_as_def described_def)

text \<open>
  A put can be repeated and read back: after a put has returned, the same put by a caller that may create the artifact
  returns the same metadata and changes nothing, and whoever may read the artifact gets a payload with the checksum of
  the one that was put.
\<close>
theorem put_is_repeatable_and_read_back:
  assumes put: "artifact_put env inp access (artifact_run env cs) = (Inr m, s')"
    and create: "ao_authorize env Ao_create access (Some m) = Inr True"
    and reader: "ArtifactAccessContextSchema reader" "ao_authorize env Ao_read_payload reader (Some m) = Inr True"
  shows "artifact_put env inp access s' = (Inr m, s') \<and>
    (\<exists>p. getPayload env (am_artifactId m) reader s' = (Inr (Some p), s') \<and> ao_sha256 env p = ao_sha256 env (pi_payload inp))"
proof -
  have s': "intact env s'" using keepsD [OF put_keeps_intact run_intact, of env inp access cs] put by simp
  note keyed = put_keyed [OF run_intact put] and checks = put_checks [OF put]
  obtain p where p: "map_of (as_payloads s') (storage_key (am_artifactId m)) = Some p" "described env (am_artifactId m) m p"
    using intactD [OF s' keyed(3)] by blast
  then have m: "ArtifactMetadataSchema env m" "pr_storageKey (am_payload m) = storage_key (am_artifactId m)" "ao_sha256 env p = ao_sha256 env (pi_payload inp)"
    using keyed(2) by (simp_all add: described_def)
  then have ids: "createPrefixedIdSchema ''art'' (am_artifactId m)" "ArtifactSha256Schema (ao_sha256 env (pi_payload inp))"
    using keyed(2) by (simp_all add: ArtifactMetadataSchema_def ArtifactPayloadReferenceSchema_def)
  have "wpE (artifact_put env inp access) (\<lambda>x s''. x = m \<and> s'' = s') (\<lambda>_ _. False) s'"
    using checks create keyed m ids
    by (simp add: artifact_put_def put_existing_def wp_checks wp_simps getByIdempotencyKey_wp [OF s'])
  moreover have "wpE (getPayload env (am_artifactId m) reader) (\<lambda>x s''. x = Some p \<and> s'' = s') (\<lambda>_ _. False) s'"
    using reader keyed(3) m p(1) ids by (simp add: getPayload_def wp_checks payload_get_def wp_simps repository_get_wp [OF s'])
  ultimately show ?thesis using m(3) by (auto elim!: wpE_total)
qed

definition sample_artifact_options :: InMemoryArtifactStoreOptions where
  "sample_artifact_options = \<lparr>ao_authorize = (\<lambda>_ _ _. Inr True), ao_now = None, ao_createArtifactId = None,
     ao_sha256 = (\<lambda>p. replicate 63 (CHR ''a'') @ (if p = [] then ''0'' else ''1'')), ao_timestamp = (\<lambda>_. True)\<rparr>"

definition sample_owner :: "string \<Rightarrow> ArtifactOwnership" where
  "sample_owner user = \<lparr>ow_createdBy = user, ow_workspaceId = ''wrk_000001'', ow_threadId = ''thr_000001'', ow_runId = ''run_000001''\<rparr>"

definition sample_scope :: "string \<Rightarrow> ArtifactAccessContext" where
  "sample_scope user = \<lparr>ac_userId = user, ac_workspaceId = ''wrk_000001'', ac_threadId = Some ''thr_000001'', ac_runId = Some ''run_000001''\<rparr>"

definition sample_put_input :: "string \<Rightarrow> string option \<Rightarrow> string \<Rightarrow> bytes \<Rightarrow> PutArtifactInput" where
  "sample_put_input user i key p = \<lparr>pi_artifactId = i, pi_idempotencyKey = key, pi_kind = Ak_patch, pi_ownership = sample_owner user,
     pi_visibility = Av_run, pi_contentType = ''text/plain'', pi_payload = p, pi_expectedSha256 = None, pi_properties = None\<rparr>"

lemma sample_put_returns:
  "\<not> isl (fst (artifact_put sample_artifact_options (sample_put_input ''usr_000001'' None ''k1'' [1, 2]) (sample_scope ''usr_000001'')
     (artifact_run sample_artifact_options [])))"
  by code_simp

theorem put_is_repeatable_and_read_back_witness:
  "\<exists>m s'. artifact_put sample_artifact_options (sample_put_input ''usr_000001'' None ''k1'' [1, 2]) (sample_scope ''usr_000001'')
      (artifact_run sample_artifact_options []) = (Inr m, s') \<and>
    artifact_put sample_artifact_options (sample_put_input ''usr_000001'' None ''k1'' [1, 2]) (sample_scope ''usr_000001'') s' = (Inr m, s')"
proof -
  let ?put = "artifact_put sample_artifact_options (sample_put_input ''usr_000001'' None ''k1'' [1, 2]) (sample_scope ''usr_000001'')"
  obtain m s' where put: "?put (artifact_run sample_artifact_options []) = (Inr m, s')"
    using sample_put_returns by (cases "?put (artifact_run sample_artifact_options [])"; cases "fst (?put (artifact_run sample_artifact_options []))") auto
  have "ArtifactAccessContextSchema (sample_scope ''usr_000001'')" by code_simp
  with put_is_repeatable_and_read_back [OF put, of "sample_scope ''usr_000001''"] put show ?thesis
    by (auto simp: sample_artifact_options_def)
qed

text \<open>
  C36. A put may name an identifier that is taken, and nobody asks whose it is: a put with a new idempotency key and the
  identifier of a stored artifact, when it returns, has replaced the artifact and its payload by those of the caller, and
  every earlier key of the artifact stands for the new one.
\<close>
theorem put_replaces_stored_artifact:
  assumes old: "map_of (as_records (artifact_run env cs)) i = Some m"
    and inp: "pi_artifactId inp = Some i" "map_of (as_idempotency (artifact_run env cs)) (pi_idempotencyKey inp) = None"
    and put: "artifact_put env inp access (artifact_run env cs) = (Inr m', s')"
  shows "map_of (as_records s') i = Some m' \<and> am_ownership m' = pi_ownership inp \<and> map_of (as_payloads s') (storage_key i) = Some (pi_payload inp) \<and>
    (\<forall>key. map_of (as_idempotency (artifact_run env cs)) key = Some i \<longrightarrow> keyed s' key = Some m')"
  using run_intact put
proof (cases rule: put_outcome)
  case existing
  with inp(2) show ?thesis by (simp add: keyed_def)
next
  case fresh
  then have "am_artifactId m' = i" using inp(1) by simp
  with fresh inp(2) show ?thesis by (auto simp: stored_as_def keyed_def)
qed


definition first_put :: "artifact_command list" where
  "first_put = [Put_artifact (sample_put_input ''usr_000001'' None ''k1'' [1, 2]) (sample_scope ''usr_000001'')]"

definition second_input :: PutArtifactInput where
  "second_input = sample_put_input ''usr_000002'' (Some ''art_memory_000001'') ''k2'' []"

lemma first_put_stores:
  "case artifact_run sample_artifact_options first_put of s \<Rightarrow> map_option (\<lambda>m. ow_createdBy (am_ownership m)) (map_of (as_records s) ''art_memory_000001'') = Some ''usr_000001'' \<and>
     map_of (as_idempotency s) ''k1'' = Some ''art_memory_000001'' \<and> map_of (as_idempotency s) ''k2'' = None \<and>
     \<not> isl (fst (artifact_put sample_artifact_options second_input (sample_scope ''usr_000002'') s))"
  by code_simp

theorem put_replaces_stored_artifact_witness:
  "\<exists>m m' s'. map_of (as_records (artifact_run sample_artifact_options first_put)) ''art_memory_000001'' = Some m \<and>
     ow_createdBy (am_ownership m) = ''usr_000001'' \<and>
     artifact_put sample_artifact_options second_input (sample_scope ''usr_000002'') (artifact_run sample_artifact_options first_put) = (Inr m', s') \<and>
     keyed s' ''k1'' = Some m' \<and> ow_createdBy (am_ownership m') = ''usr_000002''"
proof -
  let ?s = "artifact_run sample_artifact_options first_put"
  let ?put = "artifact_put sample_artifact_options second_input (sample_scope ''usr_000002'')"
  obtain m where m: "map_of (as_records ?s) ''art_memory_000001'' = Some m" "ow_createdBy (am_ownership m) = ''usr_000001''"
    using first_put_stores by auto
  have keys: "map_of (as_idempotency ?s) ''k1'' = Some ''art_memory_000001''" "map_of (as_idempotency ?s) (pi_idempotencyKey second_input) = None"
    "\<not> isl (fst (?put ?s))"
    using first_put_stores by (auto simp: second_input_def sample_put_input_def)
  then obtain m' s' where put: "?put ?s = (Inr m', s')" by (cases "?put ?s"; cases "fst (?put ?s)") auto
  have inp: "pi_artifactId second_input = Some ''art_memory_000001''" "pi_ownership second_input = sample_owner ''usr_000002''"
    by (simp_all add: second_input_def sample_put_input_def)
  from put_replaces_stored_artifact [OF m(1) inp(1) keys(2) put] keys(1) inp(2) m put show ?thesis
    by (auto simp: sample_owner_def)
qed

end
