(* ===== verification/Token_Budgeting.thy ===== *)
theory Token_Budgeting
  imports Lifecycle_Protocol
begin

text \<open>
  The token budget of a prompt, packages/token-budgeting: the estimator, the registry of buckets, the built-in models and
  the checks of a plan. Token counts are integers and characters per token a natural number. \<open>0.95\<close> is exact: the
  nearest double has a relative error below \<open>2\<close> to the power \<open>-54\<close>, so a product that is an integer is rounded to that
  integer. Values are well typed, so the checks of \<open>typeof\<close> and for missing arguments are left out, as are the size
  in bytes and the report, which are only shown.
\<close>

section \<open>Estimating and truncating\<close>

text \<open>\<open>new TokenEstimator(charsPerToken)\<close>; the ratio is the state of the estimator.\<close>

definition new_TokenEstimator :: "nat \<Rightarrow> string + nat" where
  "new_TokenEstimator charsPerToken =
     (if charsPerToken \<le> 0 then Inl (''charsPerToken must be a positive number, received: '' @ string_of_nat charsPerToken) else Inr charsPerToken)"

definition estimate :: "nat \<Rightarrow> string \<Rightarrow> nat" where
  "estimate charsPerToken s = nat \<lceil>rat_of_nat (length s) / rat_of_nat charsPerToken\<rceil>"

definition estimateBatch :: "nat \<Rightarrow> string list \<Rightarrow> nat" where
  "estimateBatch charsPerToken texts = foldl (\<lambda>acc s. acc + estimate charsPerToken s) 0 texts"

definition TRUNCATION_SAFETY_MARGIN :: rat where
  "TRUNCATION_SAFETY_MARGIN = 95 / 100"

definition truncateToTokens :: "nat \<Rightarrow> string \<Rightarrow> int \<Rightarrow> string" where
  "truncateToTokens charsPerToken s maxTokens =
     (if maxTokens \<le> 0 then []
      else if s = [] then []
      else let maxChars = nat maxTokens * charsPerToken in
        if length s \<le> maxChars then s
        else take (nat \<lfloor>rat_of_nat maxChars * TRUNCATION_SAFETY_MARGIN\<rfloor>) s @ ''...'')"

section \<open>Buckets\<close>

datatype BucketKind = SYSTEM | USER | REPO_SUMMARY | TOOLS | AGENT_CONTEXT | OPTIONAL

datatype TruncationPolicy = REJECT | TRUNCATE | DROP

record BucketBudget =
  bb_kind :: BucketKind
  bb_maxTokens :: "int option"
  bb_policy :: TruncationPolicy
  bb_priority :: int

record BucketOverride =
  bo_kind :: "BucketKind option"
  bo_maxTokens :: "int option option"
  bo_policy :: "TruncationPolicy option"
  bo_priority :: "int option"

definition DEFAULT_BUCKETS :: "BucketBudget list" where
  "DEFAULT_BUCKETS =
     [\<lparr>bb_kind = SYSTEM, bb_maxTokens = Some 2000, bb_policy = REJECT, bb_priority = 0\<rparr>,
      \<lparr>bb_kind = USER, bb_maxTokens = Some 2000, bb_policy = REJECT, bb_priority = 1\<rparr>,
      \<lparr>bb_kind = REPO_SUMMARY, bb_maxTokens = Some 3000, bb_policy = DROP, bb_priority = 2\<rparr>,
      \<lparr>bb_kind = TOOLS, bb_maxTokens = Some 4000, bb_policy = TRUNCATE, bb_priority = 3\<rparr>,
      \<lparr>bb_kind = AGENT_CONTEXT, bb_maxTokens = Some 2000, bb_policy = DROP, bb_priority = 4\<rparr>,
      \<lparr>bb_kind = OPTIONAL, bb_maxTokens = Some 1000, bb_policy = DROP, bb_priority = 5\<rparr>]"

type_synonym BucketRegistry = "(BucketKind \<times> BucketBudget) list"

text \<open>\<open>{ ...existing, ...override }\<close>\<close>

definition override_bucket :: "BucketBudget \<Rightarrow> BucketOverride \<Rightarrow> BucketBudget" where
  "override_bucket b over =
     \<lparr>bb_kind = (case bo_kind over of None \<Rightarrow> bb_kind b | Some k \<Rightarrow> k),
      bb_maxTokens = (case bo_maxTokens over of None \<Rightarrow> bb_maxTokens b | Some n \<Rightarrow> n),
      bb_policy = (case bo_policy over of None \<Rightarrow> bb_policy b | Some p \<Rightarrow> p),
      bb_priority = (case bo_priority over of None \<Rightarrow> bb_priority b | Some n \<Rightarrow> n)\<rparr>"

definition apply_override :: "BucketKind \<times> BucketOverride option \<Rightarrow> BucketRegistry \<Rightarrow> BucketRegistry" where
  "apply_override entry r = (case entry of (kind, over) \<Rightarrow>
     case (map_of r kind, over) of (Some existing, Some x) \<Rightarrow> AList.update kind (override_bucket existing x) r | _ \<Rightarrow> r)"

definition new_BucketRegistry :: "(BucketKind \<times> BucketOverride option) list \<Rightarrow> BucketRegistry" where
  "new_BucketRegistry overrides = fold apply_override overrides (fold (\<lambda>b r. AList.update (bb_kind b) b r) DEFAULT_BUCKETS [])"

primrec bucket_name :: "BucketKind \<Rightarrow> string" where
  "bucket_name SYSTEM = ''SYSTEM''"
| "bucket_name USER = ''USER''"
| "bucket_name REPO_SUMMARY = ''REPO_SUMMARY''"
| "bucket_name TOOLS = ''TOOLS''"
| "bucket_name AGENT_CONTEXT = ''AGENT_CONTEXT''"
| "bucket_name OPTIONAL = ''OPTIONAL''"

definition getBucket :: "BucketRegistry \<Rightarrow> BucketKind \<Rightarrow> string + BucketBudget" where
  "getBucket r kind = (case map_of r kind of None \<Rightarrow> Inl (''Unknown bucket kind: '' @ bucket_name kind) | Some b \<Rightarrow> Inr b)"

definition getBuckets :: "BucketRegistry \<Rightarrow> BucketBudget list" where
  "getBuckets r = map snd r"

text \<open>\<open>sort\<close> is stable.\<close>

definition getBucketsByPriority :: "BucketRegistry \<Rightarrow> BucketBudget list" where
  "getBucketsByPriority r = sort_key bb_priority (getBuckets r)"


definition getDefaultBuckets :: "BucketBudget list" where
  "getDefaultBuckets = map id DEFAULT_BUCKETS"

definition createDefault :: BucketRegistry where
  "createDefault = new_BucketRegistry []"

section \<open>Models\<close>

record ModelConfig =
  mc_id :: string
  mc_name :: string
  mc_maxTokens :: int
  mc_supportedMethods :: "string list"

definition getBuiltinModels :: "ModelConfig list" where
  "getBuiltinModels =
     [\<lparr>mc_id = ''gpt-4-turbo'', mc_name = ''GPT-4 Turbo'', mc_maxTokens = 128000, mc_supportedMethods = [''chat'']\<rparr>,
      \<lparr>mc_id = ''gpt-4'', mc_name = ''GPT-4'', mc_maxTokens = 8192, mc_supportedMethods = [''chat'']\<rparr>,
      \<lparr>mc_id = ''gpt-3.5-turbo'', mc_name = ''GPT-3.5 Turbo'', mc_maxTokens = 4096, mc_supportedMethods = [''chat'']\<rparr>,
      \<lparr>mc_id = ''claude-3-5-sonnet'', mc_name = ''Claude 3.5 Sonnet'', mc_maxTokens = 200000, mc_supportedMethods = [''chat'']\<rparr>,
      \<lparr>mc_id = ''claude-3-opus'', mc_name = ''Claude 3 Opus'', mc_maxTokens = 200000, mc_supportedMethods = [''chat'']\<rparr>,
      \<lparr>mc_id = ''claude-3-sonnet'', mc_name = ''Claude 3 Sonnet'', mc_maxTokens = 200000, mc_supportedMethods = [''chat'']\<rparr>,
      \<lparr>mc_id = ''claude-3-haiku'', mc_name = ''Claude 3 Haiku'', mc_maxTokens = 200000, mc_supportedMethods = [''chat'']\<rparr>]"

definition getModelConfig :: "string \<Rightarrow> string + ModelConfig" where
  "getModelConfig modelId = (case List.find (\<lambda>m. mc_id m = modelId) getBuiltinModels of
     None \<Rightarrow> Inl (''Unknown model: '' @ modelId) | Some m \<Rightarrow> Inr m)"

definition createCustomModel :: "string \<Rightarrow> string \<Rightarrow> int \<Rightarrow> ModelConfig" where
  "createCustomModel i n maxTokens = \<lparr>mc_id = i, mc_name = n, mc_maxTokens = maxTokens, mc_supportedMethods = [''chat'']\<rparr>"

section \<open>Checks of a plan\<close>

text \<open>The free-form \<open>metadata\<close> of a component is never read and is left out.\<close>

record ContextComponent =
  cc_bucket :: BucketKind
  cc_content :: string
  cc_label :: "string option"

record ContextWithTokens = ContextComponent +
  cc_estimatedTokens :: int
  cc_allocatedTokens :: int
  cc_truncatedContent :: "string option"
  cc_dropped :: "bool option"

record BucketDecision =
  bd_kind :: BucketKind
  bd_included :: bool
  bd_allocatedTokens :: int
  bd_reason :: string
  bd_truncated :: "bool option"
  bd_truncatedContent :: "string option"

record BudgetedContextPlan =
  bp_modelConfig :: ModelConfig
  bp_totalAvailableTokens :: int
  bp_reservedOutputTokens :: int
  bp_availableForInput :: int
  bp_decisions :: "BucketDecision list"
  bp_totalAllocatedTokens :: int
  bp_remaining :: int
  bp_utilization :: rat
  bp_withinLimit :: bool
  bp_components :: "ContextWithTokens list"
  bp_errors :: "string list"

definition validateModel :: "ModelConfig \<Rightarrow> string + unit" where
  "validateModel m =
     (if mc_id m = [] then Inl ''Model must have valid id''
      else if mc_maxTokens m \<le> 0 then Inl ''Model maxTokens must be positive'' else Inr ())"

definition checkRequiredBucketsWithinLimit :: "ContextWithTokens \<Rightarrow> ContextWithTokens \<Rightarrow> int \<Rightarrow> int option" where
  "checkRequiredBucketsWithinLimit system user available =
     (let required = cc_estimatedTokens system + cc_estimatedTokens user in
      if required > available then Some (required - available) else None)"

definition decisionsByKind :: "BucketDecision list \<Rightarrow> BucketKind \<Rightarrow> BucketDecision option" where
  "decisionsByKind ds = map_of (rev (map (\<lambda>d. (bd_kind d, d)) ds))"

definition check_component :: "BudgetedContextPlan \<Rightarrow> ContextWithTokens \<Rightarrow> string + unit" where
  "check_component plan c = (case decisionsByKind (bp_decisions plan) (cc_bucket c) of
     None \<Rightarrow> Inl (''No decision for bucket: '' @ bucket_name (cc_bucket c))
   | Some d \<Rightarrow> throw_if (bd_included d \<and> cc_content c = []) (''Included component but no content for: '' @ bucket_name (cc_bucket c)))"

definition check_limit :: "BudgetedContextPlan \<Rightarrow> string + unit" where
  "check_limit plan =
     (if \<not> bp_withinLimit plan then Inr ()
      else if bp_totalAllocatedTokens plan > bp_availableForInput plan then Inl (''Plan exceeds available tokens: '' @ string_of_int (bp_totalAllocatedTokens plan) @ '' > '' @ string_of_int (bp_availableForInput plan))
      else if bp_remaining plan < 0 then Inl (''Plan has negative remaining tokens: '' @ string_of_int (bp_remaining plan)) else Inr ())"

definition check_required :: "BudgetedContextPlan \<Rightarrow> string + unit" where
  "check_required plan = (case (decisionsByKind (bp_decisions plan) SYSTEM, decisionsByKind (bp_decisions plan) USER) of
     (None, _) \<Rightarrow> Inl ''No SYSTEM bucket decision''
   | (_, None) \<Rightarrow> Inl ''No USER bucket decision''
   | (Some system, Some user) \<Rightarrow>
       if \<not> bd_included system then Inl ''SYSTEM bucket not included but has REJECT policy''
       else if \<not> bd_included user then Inl ''USER bucket not included but has REJECT policy'' else Inr ())"

definition validatePlan :: "BudgetedContextPlan \<Rightarrow> string + unit" where
  "validatePlan plan =
     andThen (throw_if (\<not> bp_withinLimit plan \<and> bp_errors plan = []) ''Plan is not within limit but has no errors recorded'') (\<lambda>_.
     andThen (check_limit plan) (\<lambda>_.
     andThen (fold_sum (\<lambda>c _. check_component plan c) (bp_components plan) ()) (\<lambda>_.
     check_required plan)))"

definition validateTruncation :: "string \<Rightarrow> string \<Rightarrow> TruncationPolicy \<Rightarrow> string + unit" where
  "validateTruncation original truncated policy =
     (if policy \<noteq> TRUNCATE then Inr ()
      else throw_if (truncated = [] \<or> length truncated \<ge> length original) ''Truncation produced no reduction'')"

section \<open>What truncation achieves\<close>

lemma estimate_le: "0 < c \<Longrightarrow> estimate c s \<le> n \<longleftrightarrow> length s \<le> n * c"
proof -
  assume c: "0 < c"
  have "estimate c s \<le> n \<longleftrightarrow> \<lceil>rat_of_nat (length s) / rat_of_nat c\<rceil> \<le> int n" by (simp add: estimate_def nat_le_iff)
  also have "\<dots> \<longleftrightarrow> rat_of_nat (length s) \<le> rat_of_nat n * rat_of_nat c"
    using c by (simp add: ceiling_le_iff divide_le_eq)
  also have "\<dots> \<longleftrightarrow> length s \<le> n * c" by (metis of_nat_le_iff of_nat_mult)
  finally show ?thesis .
qed

lemma margin: "nat \<lfloor>rat_of_nat m * TRUNCATION_SAFETY_MARGIN\<rfloor> = 19 * m div 20"
proof -
  have "rat_of_nat m * TRUNCATION_SAFETY_MARGIN = rat_of_nat (19 * m) / rat_of_nat 20" by (simp add: TRUNCATION_SAFETY_MARGIN_def)
  then have "\<lfloor>rat_of_nat m * TRUNCATION_SAFETY_MARGIN\<rfloor> = int (19 * m div 20)" by (simp only: floor_divide_of_nat_eq)
  then show ?thesis by simp
qed

lemma margin_room: "19 * m div 20 + 3 \<le> m \<longleftrightarrow> 40 < (m :: nat)"
proof -
  have "19 * m div 20 + 3 \<le> m \<longleftrightarrow> 19 * m div 20 < m - 2 \<and> 2 < m" by linarith
  also have "19 * m div 20 < m - 2 \<longleftrightarrow> 19 * m < (m - 2) * 20" by (rule div_less_iff_less_mult) simp
  finally show ?thesis by linarith
qed

lemma cut_length:
  assumes "0 < n" and "n * c < length s"
  shows "length (truncateToTokens c s (int n)) = 19 * (n * c) div 20 + 3"
  using assms margin [of "n * c"] by (auto simp: truncateToTokens_def Let_def min_def)

text \<open>
  A truncated text fits into its budget exactly when it was not cut or the budget is more than forty characters: below
  that, the three dots take more room than the margin of five per cent leaves.
\<close>
theorem truncation_fits_iff:
  assumes "0 < c" and "0 < n"
  shows "estimate c (truncateToTokens c s (int n)) \<le> n \<longleftrightarrow> length s \<le> n * c \<or> 40 < n * c"
proof (cases "length s \<le> n * c")
  case True
  then show ?thesis using assms by (simp add: estimate_le truncateToTokens_def Let_def)
next
  case False
  then show ?thesis using assms cut_length [of n c s] margin_room [of "n * c"] by (simp add: estimate_le)
qed

theorem cut_text_passes_validation:
  assumes "0 < n" and "n * c < length s" and "40 < n * c"
  shows "validateTruncation s (truncateToTokens c s (int n)) TRUNCATE = Inr ()"
  using cut_length [OF assms(1,2)] margin_room [of "n * c"] assms(2,3) by (auto simp: validateTruncation_def throw_if_def)

lemma truncation_may_grow: "estimate 4 (truncateToTokens 4 ''abcde'' 1) = 2"
  by code_simp

text \<open>An accepted plan within its limit keeps the required buckets and the budget.\<close>

theorem validated_plan_is_safe:
  assumes "validatePlan plan = Inr ()"
  shows "(bp_withinLimit plan \<longrightarrow> bp_totalAllocatedTokens plan \<le> bp_availableForInput plan \<and> 0 \<le> bp_remaining plan) \<and>
    (\<not> bp_withinLimit plan \<longrightarrow> bp_errors plan \<noteq> []) \<and>
    (\<forall>k\<in>{SYSTEM, USER}. \<exists>d\<in>set (bp_decisions plan). bd_kind d = k \<and> bd_included d)"
proof -
  have "check_limit plan = Inr ()" "check_required plan = Inr ()" "bp_withinLimit plan \<or> bp_errors plan \<noteq> []"
    using assms by (auto simp: validatePlan_def andThen_Inr_iff)
  moreover have "\<exists>d\<in>set (bp_decisions plan). bd_kind d = k \<and> bd_included d"
    if "decisionsByKind (bp_decisions plan) k = Some d" "bd_included d" for k d
    using map_of_SomeD [OF that(1) [unfolded decisionsByKind_def]] that(2) by auto
  ultimately show ?thesis by (auto simp: check_limit_def check_required_def split: if_splits option.splits)
qed

lemma registry_kinds: "map fst (new_BucketRegistry overrides) = [SYSTEM, USER, REPO_SUMMARY, TOOLS, AGENT_CONTEXT, OPTIONAL]"
proof -
  have "map fst (AList.update k b r) = map fst r" if "map_of r k = Some x" for k b r x
    using map_of_SomeD [OF that] by (force simp: update_keys)
  then have "map fst (apply_override e r) = map fst r" for e r
    by (auto simp: apply_override_def split: prod.splits option.splits)
  then have "map fst (fold apply_override es r) = map fst r" for es r by (induction es arbitrary: r) simp_all
  then show ?thesis by (simp add: new_BucketRegistry_def DEFAULT_BUCKETS_def)
qed

lemma default_registry: "getBuckets createDefault = getDefaultBuckets" "getBucketsByPriority createDefault = getDefaultBuckets"
  by (simp_all add: createDefault_def getDefaultBuckets_def new_BucketRegistry_def getBuckets_def getBucketsByPriority_def DEFAULT_BUCKETS_def)

text \<open>Whatever is overridden, every bucket kind has a budget, and the buckets are processed by priority.\<close>

theorem every_bucket_is_configured:
  "(\<exists>b. getBucket (new_BucketRegistry overrides) kind = Inr b \<and> b \<in> set (getBucketsByPriority (new_BucketRegistry overrides))) \<and>
   sorted (map bb_priority (getBucketsByPriority (new_BucketRegistry overrides))) \<and>
   length (getBucketsByPriority (new_BucketRegistry overrides)) = 6"
proof -
  let ?r = "new_BucketRegistry overrides"
  have "kind \<in> fst ` set ?r" using registry_kinds [of overrides] by (cases kind) (simp_all flip: set_map)
  then obtain b where "map_of ?r kind = Some b" by (metis map_of_eq_None_iff not_None_eq)
  then have "getBucket ?r kind = Inr b \<and> b \<in> set (getBucketsByPriority ?r)"
    by (force simp: getBucket_def getBucketsByPriority_def getBuckets_def dest: map_of_SomeD)
  moreover have "length ?r = 6" using arg_cong [OF registry_kinds [of overrides], of length] by simp
  ultimately show ?thesis by (auto simp: getBucketsByPriority_def getBuckets_def)
qed

end
