(* ===== verification/Intent_Classifier.thy ===== *)
theory Intent_Classifier
  imports Kernel_Errors "HOL-Library.Product_Lexorder" "HOL-Library.Multiset"
begin

text \<open>
  The rule-based classification of a user's message, packages/intent-classifier: normalisation of the text, keywords and
  patterns with their regular expressions written out as matchers, the signal of the last tool, and the choice of the
  primary intent with its confidence.
\<close>

section \<open>Data\<close>

datatype IntentType = READ_CODE | MODIFY_CODE | DEBUG | SEARCH | PLAN | EXECUTE | META

primrec intent_name :: "IntentType \<Rightarrow> string" where
  "intent_name READ_CODE = ''READ_CODE''"
| "intent_name MODIFY_CODE = ''MODIFY_CODE''"
| "intent_name DEBUG = ''DEBUG''"
| "intent_name SEARCH = ''SEARCH''"
| "intent_name PLAN = ''PLAN''"
| "intent_name EXECUTE = ''EXECUTE''"
| "intent_name META = ''META''"

datatype SignalType = Sig_keyword | Sig_pattern | Sig_context

record IntentSignal =
  sig_type :: SignalType
  sig_value :: string
  sig_intent :: IntentType

datatype Confidence = Conf_low | Conf_medium | Conf_high

record IntentClassification =
  ic_primary :: IntentType
  ic_confidence :: Confidence
  ic_signals :: "IntentSignal list"

record ClassifierInput =
  ci_message :: string
  ci_recentToolCalls :: "string list option"
  ci_agentRole :: "string option"
  ci_runId :: "string option"

section \<open>Rules\<close>

definition INTENT_KEYWORDS :: "(IntentType \<times> string list) list" where
  "INTENT_KEYWORDS =
     [(READ_CODE, [''explain'', ''what'', ''summarize'', ''read'', ''understand'']),
      (MODIFY_CODE, [''refactor'', ''change'', ''update'', ''fix'', ''add'', ''create'']),
      (DEBUG, [''error'', ''fail'', ''broken'', ''bug'', ''why'', ''crash'']),
      (SEARCH, [''find'', ''locate'', ''search'', ''grep'', ''where'']),
      (PLAN, [''plan'', ''how'', ''approach'', ''strategy'']),
      (EXECUTE, [''run'', ''test'', ''build'', ''execute'', ''deploy'']),
      (META, [''system'', ''you'', ''help'', ''version'', ''who''])]"

definition INTENT_PATTERNS :: "(IntentType \<times> string list) list" where
  "INTENT_PATTERNS =
     [(READ_CODE, [''how does .* work'', ''what is the purpose of'']),
      (MODIFY_CODE, [''change .* to'', ''refactor this'']),
      (DEBUG, [''why is .* failing'', ''fix the error in'']),
      (SEARCH, [''where is .* defined'', ''find all occurrences of'']),
      (PLAN, [''how should we'', ''what is the best way to'']),
      (EXECUTE, [''run the tests'', ''build the project'']),
      (META, [''what can you do'', ''how do you work''])]"

definition TOOL_TO_INTENT :: "(string \<times> IntentType) list" where
  "TOOL_TO_INTENT =
     [(''read_file'', READ_CODE), (''read_multiple_files'', READ_CODE), (''glob'', SEARCH), (''grep'', SEARCH),
      (''bash'', EXECUTE), (''execute_code'', EXECUTE), (''write_file'', MODIFY_CODE),
      (''str_replace_based_edit_tool'', MODIFY_CODE)]"

text \<open>\<open>text.replace(/[^\w\s]/g, " ")\<close>\<close>

definition blank_punctuation :: "string \<Rightarrow> string" where
  "blank_punctuation s = map (\<lambda>c. if word_char c \<or> is_space c then c else CHR '' '') s"

definition normalize :: "string \<Rightarrow> string" where
  "normalize s = trim (collapse_spaces False (blank_punctuation (toLowerCase s)))"

definition toolToIntent :: "string \<Rightarrow> IntentType option" where
  "toolToIntent toolName = map_of TOOL_TO_INTENT toolName"

section \<open>Matching\<close>

text \<open>
  \<open>new RegExp(`\b${keyword}\b`).test(s)\<close> for a keyword of word characters; \<open>before\<close> is the character before \<open>s\<close>.
\<close>

definition keyword_here :: "char option \<Rightarrow> string \<Rightarrow> string \<Rightarrow> bool" where
  "keyword_here before keyword s \<longleftrightarrow>
     \<not> word_at before \<and> startsWith s keyword \<and> \<not> word_at (char_at s (length keyword))"

fun keyword_test :: "char option \<Rightarrow> string \<Rightarrow> string \<Rightarrow> bool" where
  "keyword_test before keyword [] = keyword_here before keyword []"
| "keyword_test before keyword (c # s) = (keyword_here before keyword (c # s) \<or> keyword_test (Some c) keyword s)"

text \<open>
  \<open>normalized.match(new RegExp(pattern, "i"))\<close> for the patterns of \<open>INTENT_PATTERNS\<close>, which hold letters, spaces and
  the greedy \<open>.*\<close>: the matched text of a match that starts here, and the first match.
\<close>

fun match_here :: "string \<Rightarrow> string \<Rightarrow> string option" where
  "match_here [] s = Some []"
| "match_here (p # ps) s =
     (if p = CHR ''.'' \<and> ps \<noteq> [] \<and> hd ps = CHR ''*''
      then (case s of [] \<Rightarrow> match_here (tl ps) []
            | c # cs \<Rightarrow>
                if c \<noteq> char_of (10 :: nat) \<and> c \<noteq> char_of (13 :: nat)
                then (case match_here (p # ps) cs of Some m \<Rightarrow> Some (c # m) | None \<Rightarrow> match_here (tl ps) (c # cs))
                else match_here (tl ps) (c # cs))
      else (case s of [] \<Rightarrow> None
            | c # cs \<Rightarrow> if lower_char c = lower_char p then map_option ((#) c) (match_here ps cs) else None))"

fun pattern_match :: "string \<Rightarrow> string \<Rightarrow> string option" where
  "pattern_match p [] = match_here p []"
| "pattern_match p (c # s) = (case match_here p (c # s) of Some m \<Rightarrow> Some m | None \<Rightarrow> pattern_match p s)"

section \<open>Classification\<close>

text \<open>The list of signals and \<open>matchCounts\<close>, which the three steps change.\<close>

type_synonym Counts = "(IntentType \<times> nat) list"

definition add_count :: "IntentType \<Rightarrow> nat \<Rightarrow> Counts \<Rightarrow> Counts" where
  "add_count intent n counts = AList.update intent ((case map_of counts intent of None \<Rightarrow> 0 | Some k \<Rightarrow> k) + n) counts"

definition add_signals :: "IntentSignal list \<Rightarrow> IntentType \<Rightarrow> IntentSignal list \<times> Counts \<Rightarrow> IntentSignal list \<times> Counts" where
  "add_signals found intent st =
     (fst st @ found, if length found > 0 then add_count intent (length found) (snd st) else snd st)"

definition matchKeywords :: "string \<Rightarrow> IntentSignal list \<times> Counts \<Rightarrow> IntentSignal list \<times> Counts" where
  "matchKeywords normalized st =
     fold (\<lambda>(intent, keywords). add_signals
       (map (\<lambda>k. \<lparr>sig_type = Sig_keyword, sig_value = k, sig_intent = intent\<rparr>) (filter (\<lambda>k. keyword_test None k normalized) keywords)) intent)
     INTENT_KEYWORDS st"

definition matchPatterns :: "string \<Rightarrow> IntentSignal list \<times> Counts \<Rightarrow> IntentSignal list \<times> Counts" where
  "matchPatterns normalized st =
     fold (\<lambda>(intent, patterns). add_signals
       (map (\<lambda>m. \<lparr>sig_type = Sig_pattern, sig_value = m, sig_intent = intent\<rparr>) (List.map_filter (\<lambda>p. pattern_match p normalized) patterns)) intent)
     INTENT_PATTERNS st"

definition matchContext :: "string list option \<Rightarrow> IntentSignal list \<times> Counts \<Rightarrow> IntentSignal list \<times> Counts" where
  "matchContext recentToolCalls st =
     (case recentToolCalls of None \<Rightarrow> st
      | Some calls \<Rightarrow>
          if calls = [] \<or> last calls = [] then st
          else case toolToIntent (last calls) of None \<Rightarrow> st
            | Some intent \<Rightarrow>
                (fst st @ [\<lparr>sig_type = Sig_context, sig_value = last calls, sig_intent = intent\<rparr>], add_count intent 1 (snd st)))"

definition SAFETY_PRIORITY :: "IntentType list" where
  "SAFETY_PRIORITY = [READ_CODE, SEARCH, PLAN, META, DEBUG, EXECUTE, MODIFY_CODE]"

fun indexOf :: "'a list \<Rightarrow> 'a \<Rightarrow> int" where
  "indexOf [] x = -1"
| "indexOf (y # ys) x = (if y = x then 0 else let i = indexOf ys x in if i < 0 then i else i + 1)"

text \<open>The comparison of \<open>sort\<close>: the larger count first, then the earlier intent of \<open>SAFETY_PRIORITY\<close>.\<close>

definition intent_key :: "IntentType \<times> nat \<Rightarrow> int \<times> int" where
  "intent_key e = (- int (snd e), indexOf SAFETY_PRIORITY (fst e))"

definition sort_intents :: "Counts \<Rightarrow> Counts" where
  "sort_intents counts = sort_key intent_key counts"

definition selectPrimaryIntent :: "Counts \<Rightarrow> IntentType \<times> int \<times> Counts" where
  "selectPrimaryIntent counts =
     (case sort_intents counts of [] \<Rightarrow> (READ_CODE, -1, [])
      | first # rest \<Rightarrow> (fst first, int (snd first), first # rest))"

definition calculateConfidence :: "Counts \<Rightarrow> int \<Rightarrow> Confidence" where
  "calculateConfidence sortedIntents maxScore =
     (if sortedIntents = [] then Conf_low
      else let secondScore = (if 1 < length sortedIntents then int (snd (sortedIntents ! 1)) else 0);
               diff = maxScore - secondScore in
        if diff > 3 then Conf_high else if diff \<ge> 1 then Conf_medium else Conf_low)"

definition classifyIntent :: "ClassifierInput \<Rightarrow> IntentClassification" where
  "classifyIntent inp =
     (let normalized = normalize (ci_message inp);
          (signals, counts) = matchContext (ci_recentToolCalls inp) (matchPatterns normalized (matchKeywords normalized ([], [])));
          (primary, maxScore, sortedIntents) = selectPrimaryIntent counts
      in \<lparr>ic_primary = primary, ic_confidence = calculateConfidence sortedIntents maxScore, ic_signals = signals\<rparr>)"

section \<open>Keywords are words of the message\<close>

text \<open>The words of a text, the maximal runs of word characters; \<open>w\<close> is the word being read.\<close>

fun words_from :: "string \<Rightarrow> string \<Rightarrow> string list" where
  "words_from w [] = (if w = [] then [] else [w])"
| "words_from w (c # s) = (if word_char c then words_from (w @ [c]) s else (if w = [] then [] else [w]) @ words_from [] s)"

lemma takeWhile_eq_prefix_iff:
  assumes "\<forall>c\<in>set k. word_char c"
  shows "startsWith s k \<and> \<not> word_at (char_at s (length k)) \<longleftrightarrow> k = takeWhile word_char s"
  using assms
proof (induction k arbitrary: s)
  case Nil
  show ?case by (cases s) (auto simp: startsWith_def char_at_def word_at_def)
next
  case (Cons c k)
  note IH = Cons.IH and prems = Cons.prems
  show ?case
  proof (cases s)
    case (Cons d t)
    then have "char_at s (length (c # k)) = char_at t (length k)" by (simp add: char_at_def)
    then show ?thesis using IH [of t] prems Cons by (auto simp: startsWith_def)
  qed (simp add: startsWith_def)
qed

lemma words_from_iff:
  assumes "k \<noteq> []" and "\<forall>c\<in>set k. word_char c" and "word_at b \<longleftrightarrow> w \<noteq> []"
  shows "k \<in> set (words_from w s) \<longleftrightarrow> w \<noteq> [] \<and> k = w @ takeWhile word_char s \<or> keyword_test b k s"
  using assms(3)
proof (induction s arbitrary: w b)
  case Nil
  then show ?case using assms(1) by (auto simp: keyword_here_def startsWith_def)
next
  case (Cons c s)
  have here: "keyword_here b k (c # s) \<longleftrightarrow> w = [] \<and> k = takeWhile word_char (c # s)"
    using Cons.prems takeWhile_eq_prefix_iff [OF assms(2), of "c # s"] by (auto simp: keyword_here_def)
  show ?case
  proof (cases "word_char c")
    case True
    then show ?thesis using Cons.IH [of "Some c" "w @ [c]"] here by (auto simp: word_at_def)
  next
    case False
    then show ?thesis using Cons.IH [of "Some c" "[]"] here assms(1) by (auto simp: word_at_def)
  qed
qed

theorem keyword_test_finds_words:
  assumes "intent_keywords \<in> set INTENT_KEYWORDS" and "k \<in> set (snd intent_keywords)"
  shows "keyword_test None k s \<longleftrightarrow> k \<in> set (words_from [] s)"
proof -
  have "\<forall>e\<in>set INTENT_KEYWORDS. \<forall>k\<in>set (snd e). k \<noteq> [] \<and> (\<forall>c\<in>set k. word_char c)"
    by (simp add: INTENT_KEYWORDS_def word_char_def)
  then show ?thesis using assms words_from_iff [of k None "[]" s] by (auto simp: word_at_def)
qed

text \<open>Normalisation keeps the words of the lower-case text.\<close>

lemma space_not_word: "is_space c \<Longrightarrow> \<not> word_char c"
  by (auto simp: is_space_def word_char_def)

lemma words_blank_punctuation: "words_from w (blank_punctuation s) = words_from w s"
proof -
  have "\<not> word_char (CHR '' '')" by (simp add: word_char_def)
  then show ?thesis by (induction s arbitrary: w) (auto simp: blank_punctuation_def)
qed

lemma words_collapse_spaces: "(inside \<Longrightarrow> w = []) \<Longrightarrow> words_from w (collapse_spaces inside s) = words_from w s"
proof (induction s arbitrary: w inside)
  case (Cons c s)
  have "\<not> word_char (CHR '' '')" by (simp add: word_char_def)
  then show ?case using Cons space_not_word [of c] by auto
qed simp

lemma words_append_spaces: "\<forall>c\<in>set t. \<not> word_char c \<Longrightarrow> words_from w (s @ t) = words_from w s"
proof (induction s arbitrary: w)
  case Nil
  then show ?case by (induction t arbitrary: w) auto
qed auto

lemma words_dropWhile_space: "words_from [] (dropWhile is_space s) = words_from [] s"
  by (induction s) (auto dest: space_not_word)

lemma words_trim: "words_from [] (trim s) = words_from [] s"
proof -
  define d where "d = dropWhile is_space s"
  have "words_from [] d = words_from [] (rev (dropWhile is_space (rev d)) @ rev (takeWhile is_space (rev d)))"
    by (metis rev_append rev_rev_ident takeWhile_dropWhile_id)
  also have "\<dots> = words_from [] (rev (dropWhile is_space (rev d)))"
    by (rule words_append_spaces) (auto dest: set_takeWhileD space_not_word)
  finally show ?thesis by (simp add: trim_def d_def words_dropWhile_space)
qed

lemma words_normalize: "words_from [] (normalize s) = words_from [] (toLowerCase s)"
  by (simp add: normalize_def words_trim words_collapse_spaces words_blank_punctuation)

lemma signals_of_fold: "fst (fold (\<lambda>e. add_signals (found e) (fst e)) es st) = fst st @ concat (map found es)"
  by (induction es arbitrary: st) (auto simp: add_signals_def)

text \<open>The keyword signals are the keywords among the words of the message, in lower case.\<close>

theorem keyword_signals_are_words:
  "\<lparr>sig_type = Sig_keyword, sig_value = k, sig_intent = i\<rparr> \<in> set (ic_signals (classifyIntent inp)) \<longleftrightarrow>
   (\<exists>ks. (i, ks) \<in> set INTENT_KEYWORDS \<and> k \<in> set ks \<and> k \<in> set (words_from [] (toLowerCase (ci_message inp))))"
proof -
  let ?n = "normalize (ci_message inp)"
  let ?g = "\<lparr>sig_type = Sig_keyword, sig_value = k, sig_intent = i\<rparr>"
  have "?g \<in> set (ic_signals (classifyIntent inp)) \<longleftrightarrow>
      ?g \<in> set (fst (matchContext (ci_recentToolCalls inp) (matchPatterns ?n (matchKeywords ?n ([], [])))))"
    by (simp add: classifyIntent_def Let_def case_prod_beta)
  also have "\<dots> \<longleftrightarrow> ?g \<in> set (fst (matchPatterns ?n (matchKeywords ?n ([], []))))"
    by (auto simp: matchContext_def split: option.splits)
  also have "\<dots> \<longleftrightarrow> ?g \<in> set (fst (matchKeywords ?n ([], [])))"
    unfolding matchPatterns_def case_prod_beta signals_of_fold by auto
  also have "\<dots> \<longleftrightarrow> (\<exists>ks. (i, ks) \<in> set INTENT_KEYWORDS \<and> k \<in> set ks \<and> keyword_test None k ?n)"
    unfolding matchKeywords_def case_prod_beta signals_of_fold by force
  also have "\<dots> \<longleftrightarrow> (\<exists>ks. (i, ks) \<in> set INTENT_KEYWORDS \<and> k \<in> set ks \<and> k \<in> set (words_from [] ?n))"
    using keyword_test_finds_words [of "(i, ks)" k ?n for ks] by auto
  finally show ?thesis by (simp add: words_normalize)
qed

section \<open>The primary intent\<close>

abbreviation score :: "IntentSignal list \<Rightarrow> IntentType \<Rightarrow> nat" where
  "score signals i \<equiv> length (filter (\<lambda>g. sig_intent g = i) signals)"

text \<open>The counts are the numbers of signals.\<close>

definition counted :: "IntentSignal list \<times> Counts \<Rightarrow> bool" where
  "counted st \<longleftrightarrow> distinct (map fst (snd st)) \<and>
     (\<forall>i. map_of (snd st) i = (if score (fst st) i = 0 then None else Some (score (fst st) i)))"

lemma counted_add:
  assumes "counted (signals, counts)" and "found \<noteq> []" and "\<forall>g\<in>set found. sig_intent g = i"
  shows "counted (signals @ found, add_count i (length found) counts)"
proof -
  have "filter (\<lambda>g. sig_intent g = j) found = (if j = i then found else [])" for j using assms(3) by (induction found) auto
  then show ?thesis using assms by (auto simp: counted_def add_count_def update_conv distinct_update)
qed

lemma counted_add_signals: "counted st \<Longrightarrow> \<forall>g\<in>set found. sig_intent g = i \<Longrightarrow> counted (add_signals found i st)"
  using counted_add [of "fst st" "snd st" found i] by (auto simp: add_signals_def)

lemma counted_fold:
  assumes "counted st" and "\<And>e. e \<in> set es \<Longrightarrow> \<forall>g\<in>set (found e). sig_intent g = fst e"
  shows "counted (fold (\<lambda>e. add_signals (found e) (fst e)) es st)"
  using assms
proof (induction es arbitrary: st)
  case (Cons e es)
  then have "counted (add_signals (found e) (fst e) st)" by (intro counted_add_signals) simp_all
  with Cons show ?case by simp
qed simp

lemma counted_matchKeywords: "counted st \<Longrightarrow> counted (matchKeywords normalized st)"
  unfolding matchKeywords_def case_prod_beta by (rule counted_fold) auto

lemma counted_matchPatterns: "counted st \<Longrightarrow> counted (matchPatterns normalized st)"
  unfolding matchPatterns_def case_prod_beta by (rule counted_fold) auto

lemma counted_matchContext: "counted st \<Longrightarrow> counted (matchContext calls st)"
  using counted_add [of "fst st" "snd st" "[\<lparr>sig_type = Sig_context, sig_value = v, sig_intent = i\<rparr>]" i for v i]
  by (auto simp: matchContext_def split: option.split)

lemma indexOf_SAFETY_PRIORITY: "0 \<le> indexOf SAFETY_PRIORITY i" "indexOf SAFETY_PRIORITY READ_CODE = 0"
  by (cases i; simp add: SAFETY_PRIORITY_def Let_def)+

lemma sort_intents_props:
  assumes "sort_intents counts = e # rest" and "distinct (map fst counts)"
  shows "set counts = insert e (set rest)" and "\<forall>x\<in>set rest. intent_key e \<le> intent_key x \<and> fst x \<noteq> fst e"
    and "sorted (map intent_key rest)"
proof -
  have s: "sorted (map intent_key (e # rest))" using assms(1) by (metis sort_intents_def sorted_sort_key)
  have m: "mset (e # rest) = mset counts" using assms(1) by (metis mset_sort sort_intents_def)
  then have "distinct (map fst (e # rest))" using assms(2) by (metis mset_eq_imp_distinct_iff mset_map)
  then show "set counts = insert e (set rest)" "\<forall>x\<in>set rest. intent_key e \<le> intent_key x \<and> fst x \<noteq> fst e"
    "sorted (map intent_key rest)"
    using s mset_eq_setD [OF m] by (force simp: image_iff)+
qed

lemma intent_key_le: "intent_key e \<le> intent_key x \<longleftrightarrow>
    snd x < snd e \<or> snd x = snd e \<and> indexOf SAFETY_PRIORITY (fst e) \<le> indexOf SAFETY_PRIORITY (fst x)"
  by (auto simp: intent_key_def less_eq_prod_def)

lemma counted_entry:
  assumes "counted (signals, counts)"
  shows "(j, n) \<in> set counts \<longleftrightarrow> 0 < n \<and> n = score signals j"
  using assms map_of_eq_Some_iff [of counts j n] by (auto simp: counted_def split: if_splits)

lemma leader:
  assumes "counted (signals, counts)" and "sort_intents counts = e # rest"
  shows "snd e = score signals (fst e)" and "0 < snd e"
    and "score signals i < snd e \<or> score signals i = snd e \<and> indexOf SAFETY_PRIORITY (fst e) \<le> indexOf SAFETY_PRIORITY i"
proof -
  have "distinct (map fst counts)" using assms(1) by (simp add: counted_def)
  note props = sort_intents_props [OF assms(2) this]
  show e: "snd e = score signals (fst e)" "0 < snd e" using props(1) counted_entry [OF assms(1), of "fst e" "snd e"] by auto
  show "score signals i < snd e \<or> score signals i = snd e \<and> indexOf SAFETY_PRIORITY (fst e) \<le> indexOf SAFETY_PRIORITY i"
  proof (cases "score signals i = 0 \<or> i = fst e")
    case False
    then have "(i, score signals i) \<in> set rest" using counted_entry [OF assms(1), of i "score signals i"] props(1) by auto
    then show ?thesis using props(2) by (auto simp: intent_key_le)
  qed (use e in auto)
qed

text \<open>The second score is the best of the other intents.\<close>

lemma runner_up:
  assumes "counted (signals, counts)" and "sort_intents counts = e # rest"
  defines "second \<equiv> (case rest of [] \<Rightarrow> 0 | x # _ \<Rightarrow> snd x)"
  shows "i \<noteq> fst e \<Longrightarrow> score signals i \<le> second" and "second = 0 \<or> (\<exists>i. i \<noteq> fst e \<and> score signals i = second)"
proof -
  have "distinct (map fst counts)" using assms(1) by (simp add: counted_def)
  note props = sort_intents_props [OF assms(2) this]
  show "second = 0 \<or> (\<exists>i. i \<noteq> fst e \<and> score signals i = second)"
  proof (cases rest)
    case (Cons x xs)
    then show ?thesis using props(1,2) counted_entry [OF assms(1), of "fst x" "snd x"] by (auto simp: second_def)
  qed (simp add: second_def)
  assume i: "i \<noteq> fst e"
  show "score signals i \<le> second"
  proof (cases "score signals i = 0")
    case False
    then have "(i, score signals i) \<in> set rest" using counted_entry [OF assms(1), of i "score signals i"] props(1) i by auto
    then show ?thesis using props(3) by (cases rest) (auto simp: second_def intent_key_le)
  qed simp
qed

lemma no_counts:
  assumes "counted (signals, counts)" and "sort_intents counts = []"
  shows "score signals i = 0"
proof -
  have "counts = []" using assms(2) by (metis length_0_conv length_sort sort_intents_def)
  then show ?thesis using counted_entry [OF assms(1), of i "score signals i"] by simp
qed

lemma confidence_of_lead:
  assumes "counted (signals, counts)" and "selectPrimaryIntent counts = (p, maxScore, sortedIntents)"
  shows "(calculateConfidence sortedIntents maxScore = Conf_high \<longleftrightarrow> (\<forall>i. i = p \<or> score signals i + 3 < score signals p)) \<and>
    (calculateConfidence sortedIntents maxScore = Conf_low \<longleftrightarrow> (\<exists>i. i \<noteq> p \<and> score signals i = score signals p))"
proof (cases "sort_intents counts")
  case Nil
  then show ?thesis
    using assms(2) no_counts [OF assms(1) Nil] by (auto simp: selectPrimaryIntent_def calculateConfidence_def intro: exI [of _ DEBUG])
next
  case (Cons e rest)
  define second where "second = (case rest of [] \<Rightarrow> 0 | x # _ \<Rightarrow> snd x)"
  have sel: "p = fst e" "maxScore = int (score signals p)" "sortedIntents = e # rest"
    using assms(2) Cons leader(1) [OF assms(1) Cons] by (auto simp: selectPrimaryIntent_def)
  have conf: "calculateConfidence sortedIntents maxScore =
      (if second + 3 < score signals p then Conf_high else if second < score signals p then Conf_medium else Conf_low)"
    using sel by (cases rest) (auto simp: calculateConfidence_def second_def Let_def not_le)
  have others: "\<And>i. i \<noteq> p \<Longrightarrow> score signals i \<le> second" "second = 0 \<or> (\<exists>i. i \<noteq> p \<and> score signals i = second)"
    using runner_up [OF assms(1) Cons] sel(1) by (simp_all add: second_def)
  have lead: "0 < score signals p" "score signals i \<le> score signals p" for i
    using leader [OF assms(1) Cons] sel(1) by (metis, metis less_imp_le order_refl)
  obtain j where "j \<noteq> p" by (metis IntentType.distinct(1))
  then obtain k where k: "k \<noteq> p" "score signals k = second" using others by (metis le_zero_eq)
  have "second + 3 < score signals p \<longleftrightarrow> (\<forall>i. i = p \<or> score signals i + 3 < score signals p)"
    using k others(1) by (meson add_le_mono1 le_less_trans le_refl)
  moreover have "\<not> second < score signals p \<longleftrightarrow> (\<exists>i. i \<noteq> p \<and> score signals i = score signals p)"
    using k others(1) lead(2) [of k] by (metis le_antisym not_less)
  moreover have "calculateConfidence sortedIntents maxScore = Conf_high \<longleftrightarrow> second + 3 < score signals p"
    "calculateConfidence sortedIntents maxScore = Conf_low \<longleftrightarrow> \<not> second < score signals p"
    using conf by simp_all
  ultimately show ?thesis by argo
qed

text \<open>
  C37. Whatever the message and the recent tool calls, the primary intent of a classification is one with the most signals
  and, among those, the safest in the order of \<open>SAFETY_PRIORITY\<close>; without any signal it is \<open>READ_CODE\<close>. The confidence is
  high exactly when every other intent has more than three signals less, and low exactly when another intent has as many
  signals.
\<close>
theorem classifier_picks_best_supported_intent:
  "let c = classifyIntent inp; signals = ic_signals c; p = ic_primary c in
   (\<forall>i. score signals i < score signals p \<or>
      score signals i = score signals p \<and> indexOf SAFETY_PRIORITY p \<le> indexOf SAFETY_PRIORITY i) \<and>
   (ic_confidence c = Conf_high \<longleftrightarrow> (\<forall>i. i = p \<or> score signals i + 3 < score signals p)) \<and>
   (ic_confidence c = Conf_low \<longleftrightarrow> (\<exists>i. i \<noteq> p \<and> score signals i = score signals p))"
proof -
  define n where "n = normalize (ci_message inp)"
  obtain signals counts where st: "matchContext (ci_recentToolCalls inp) (matchPatterns n (matchKeywords n ([], []))) = (signals, counts)"
    by fastforce
  obtain p maxScore sortedIntents where sel: "selectPrimaryIntent counts = (p, maxScore, sortedIntents)" by (metis prod_cases3)
  have c: "classifyIntent inp = \<lparr>ic_primary = p, ic_confidence = calculateConfidence sortedIntents maxScore, ic_signals = signals\<rparr>"
    using st sel by (simp add: classifyIntent_def n_def Let_def)
  have "counted ([], [])" by (simp add: counted_def)
  then have counted: "counted (signals, counts)"
    using st by (metis counted_matchContext counted_matchKeywords counted_matchPatterns)
  have best: "score signals i < score signals p \<or>
      score signals i = score signals p \<and> indexOf SAFETY_PRIORITY p \<le> indexOf SAFETY_PRIORITY i" for i
  proof (cases "sort_intents counts")
    case Nil
    then have "p = READ_CODE" using sel by (simp add: selectPrimaryIntent_def)
    then show ?thesis using no_counts [OF counted Nil] indexOf_SAFETY_PRIORITY by simp
  next
    case (Cons e rest)
    then have "p = fst e" using sel by (simp add: selectPrimaryIntent_def)
    then show ?thesis using leader [OF counted Cons] by metis
  qed
  then show ?thesis using c confidence_of_lead [OF counted sel] by (simp add: Let_def)
qed

lemma sample_classification:
  "classifyIntent \<lparr>ci_message = ''Why?'', ci_recentToolCalls = Some [''bash''], ci_agentRole = None, ci_runId = None\<rparr> =
   \<lparr>ic_primary = DEBUG, ic_confidence = Conf_low,
    ic_signals = [\<lparr>sig_type = Sig_keyword, sig_value = ''why'', sig_intent = DEBUG\<rparr>,
      \<lparr>sig_type = Sig_context, sig_value = ''bash'', sig_intent = EXECUTE\<rparr>]\<rparr>"
  by code_simp

lemma sample_pattern: "pattern_match ''why is .* failing'' ''so why is it failing and failing now'' = Some ''why is it failing and failing''"
  by code_simp

end
