(* ===== verification/Context_Builder.thy ===== *)
theory Context_Builder
  imports Intent_Classifier Run_Tasks
begin

text \<open>
  The prompt of a request, packages/context-builder: the strategy of an intent, the blocks assembled from the summary of the
  repository and the conversation, their allocation to the token budget, and the composed prompt. The tokenizer is a
  parameter, since it is a third-party package; so are the four pictographs of the assembled text, which are no code
  units below 256. Log lines and fields that are never read (the metadata of a block, the cache key of a request and the
  confidence of its intent) are left out.
\<close>

section \<open>Data\<close>

datatype ContextBlockType = REPO_SUMMARY | FILE_LIST | TESTS | DIFFS | CHAT

primrec block_type_name :: "ContextBlockType \<Rightarrow> string" where
  "block_type_name REPO_SUMMARY = ''REPO_SUMMARY''"
| "block_type_name FILE_LIST = ''FILE_LIST''"
| "block_type_name TESTS = ''TESTS''"
| "block_type_name DIFFS = ''DIFFS''"
| "block_type_name CHAT = ''CHAT''"

record ContextBlock =
  blk_id :: string
  blk_type :: ContextBlockType
  blk_priority :: int
  blk_content :: string
  blk_tokenEstimate :: int

datatype BucketType = B_SYSTEM | B_USER | B_REPO_SUMMARY | B_CONTEXT_BLOCKS | B_CHAT_HISTORY | B_OPTIONAL

datatype BucketPolicy = Policy_REJECT | Policy_DROP | Policy_TRUNCATE

record TokenBucket =
  tb_name :: BucketType
  tb_limit :: int
  tb_policy :: BucketPolicy
  tb_current :: int

record TokenBudgetReport =
  tr_totalUsed :: int
  tr_perBucket :: "(BucketType \<times> int) list"
  tr_droppedBlocks :: "string list"
  tr_truncatedBlocks :: "string list"
  tr_warnings :: "string list"

record ContextStrategy =
  cs_intent :: string
  cs_includeRepoSummary :: bool
  cs_includeFileList :: bool
  cs_includeTests :: bool
  cs_includeDiffs :: bool
  cs_includeChat :: bool
  cs_chatDepth :: nat
  cs_blockPriorities :: "ContextBlockType \<Rightarrow> int"

datatype ChatRole = Role_user | Role_assistant

record ChatTurn =
  ct_role :: ChatRole
  ct_content :: string
  ct_timestamp :: "int option"

text \<open>
  What the assembler reads of \<open>repoSummary\<close>, which it casts to \<open>any\<close>: a field that the object lacks is \<open>None\<close>.
\<close>

record TreeEntry =
  te_path :: string
  te_isDir :: bool
  te_isIgnored :: bool

record RepoDiff =
  rd_filePath :: string
  rd_status :: string
  rd_hunks :: "string list"

record RepoView =
  rv_repoName :: "string option"
  rv_branch :: "string option"
  rv_commitHash :: "string option"
  rv_language :: "string option"
  rv_fileCount :: "int option"
  rv_fileTree :: "TreeEntry list option"
  rv_recentDiffs :: "RepoDiff list option"

record ContextBuilderInput =
  cbi_userMessage :: string
  cbi_primary :: string
  cbi_repoSummary :: RepoView
  cbi_chatHistory :: "ChatTurn list option"
  cbi_maxTokens :: "int option"

record ContextBuilderOutput =
  cbo_systemPrompt :: string
  cbo_userPrompt :: string
  cbo_contextBlocks :: "ContextBlock list"
  cbo_tokenReport :: TokenBudgetReport
  cbo_intent :: string
  cbo_strategyUsed :: string
  cbo_timestamp :: int

datatype builder_error =
    ValidationError string string
  | BudgetExceededError string int int
  | Builder_Error string
  | Builder_TypeError string
  | Tokenizer_Error string

primrec builder_message :: "builder_error \<Rightarrow> string" where
  "builder_message (ValidationError f m) = ''Validation error on field '' @ [char_of (39 :: nat)] @ f @ [char_of (39 :: nat)] @ '': '' @ m"
| "builder_message (BudgetExceededError b l n) =
     ''Budget exceeded for '' @ b @ '': limit='' @ string_of_int l @ '', actual='' @ string_of_int n"
| "builder_message (Builder_Error m) = m"
| "builder_message (Builder_TypeError m) = m"
| "builder_message (Tokenizer_Error m) = m"

text \<open>\<open>encode\<close> and \<open>decode\<close> of the tokenizer, which may throw, and the pictographs.\<close>

record Tokenizer =
  tk_encode :: "string \<Rightarrow> string + nat list"
  tk_decode :: "nat list \<Rightarrow> string + string"

record Pictographs =
  pic_folder :: string
  pic_file :: string
  pic_user :: string
  pic_assistant :: string

definition nl :: string where
  "nl = [char_of (10 :: nat)]"

section \<open>Strategies\<close>

definition priorities :: "int \<Rightarrow> int \<Rightarrow> int \<Rightarrow> int \<Rightarrow> int \<Rightarrow> ContextBlockType \<Rightarrow> int" where
  "priorities summary files tests diffList chat t =
     (case t of REPO_SUMMARY \<Rightarrow> summary | FILE_LIST \<Rightarrow> files | TESTS \<Rightarrow> tests | DIFFS \<Rightarrow> diffList | CHAT \<Rightarrow> chat)"

definition strategy :: "string \<Rightarrow> bool \<Rightarrow> bool \<Rightarrow> bool \<Rightarrow> bool \<Rightarrow> bool \<Rightarrow> nat \<Rightarrow> (ContextBlockType \<Rightarrow> int) \<Rightarrow> string \<times> ContextStrategy" where
  "strategy i summary files tests diffList chat depth ps =
     (i, \<lparr>cs_intent = i, cs_includeRepoSummary = summary, cs_includeFileList = files, cs_includeTests = tests,
          cs_includeDiffs = diffList, cs_includeChat = chat, cs_chatDepth = depth, cs_blockPriorities = ps\<rparr>)"

definition buildStrategyMap :: "(string \<times> ContextStrategy) list" where
  "buildStrategyMap =
     [strategy ''explore'' True True False False True 3 (priorities 10 9 0 0 5),
      strategy ''bugfix'' True True True True True 10 (priorities 8 9 8 10 7),
      strategy ''refactor'' True True True True True 5 (priorities 7 10 8 9 5),
      strategy ''implement'' True True True True True 5 (priorities 8 10 7 8 6),
      strategy ''review'' False False False True True 3 (priorities 0 0 0 10 5),
      strategy ''meta'' True False False False True 1 (priorities 10 0 0 0 3)]"

definition getStrategy :: "string \<Rightarrow> ContextStrategy option" where
  "getStrategy intent = map_of buildStrategyMap intent"

definition getAvailableIntents :: "string list" where
  "getAvailableIntents = map fst buildStrategyMap"

definition resolve_strategy :: "string \<Rightarrow> builder_error + ContextStrategy" where
  "resolve_strategy intent = (case map_of buildStrategyMap intent of
     None \<Rightarrow> Inl (Builder_Error (''Unknown intent: '' @ [char_of (34 :: nat)] @ intent @ [char_of (34 :: nat)] @
       ''. Available intents: '' @ join_with '', '' getAvailableIntents))
   | Some s \<Rightarrow> Inr s)"

definition has_intent :: "string \<Rightarrow> bool" where
  "has_intent intent \<longleftrightarrow> map_of buildStrategyMap intent \<noteq> None"

section \<open>Assembling blocks\<close>

text \<open>\<open>text.split(/\s+/).length\<close>: one more than the runs of white space; \<open>inside\<close> a run nothing is counted again.\<close>

fun space_runs :: "bool \<Rightarrow> string \<Rightarrow> nat" where
  "space_runs inside [] = 0"
| "space_runs inside (c # s) = (if is_space c then (if inside then 0 else 1) + space_runs True s else space_runs False s)"

definition estimateTokens :: "string \<Rightarrow> int" where
  "estimateTokens s = \<lceil>rat_of_nat (space_runs False s + 1) * (13 / 10)\<rceil>"

text \<open>A field in a template literal.\<close>

definition show_field :: "string option \<Rightarrow> string" where
  "show_field v = (case v of None \<Rightarrow> ''undefined'' | Some s \<Rightarrow> s)"

text \<open>\<open>path.split("/")\<close>\<close>

fun split_slash :: "string \<Rightarrow> string list" where
  "split_slash [] = [[]]"
| "split_slash (c # s) =
     (case split_slash s of p # ps \<Rightarrow> if c = CHR ''/'' then [] # p # ps else (c # p) # ps | [] \<Rightarrow> [])"

definition tree_line :: "Pictographs \<Rightarrow> TreeEntry \<Rightarrow> string" where
  "tree_line pic f =
     (let parts = split_slash (te_path f);
          indent = (if 1 < length parts then ''  '' else []);
          icon = (if te_isDir f then pic_folder pic else pic_file pic);
          name = (if last parts = [] then te_path f else last parts)
      in indent @ icon @ '' '' @ name)"

definition summary_lines :: "Pictographs \<Rightarrow> RepoView \<Rightarrow> string \<Rightarrow> string list" where
  "summary_lines pic repo commitHash =
     [''Repository: '' @ show_field (rv_repoName repo),
      ''Branch: '' @ show_field (rv_branch repo),
      ''Commit: '' @ take 7 commitHash,
      ''Language: '' @ (case rv_language repo of Some (c # l) \<Rightarrow> c # l | _ \<Rightarrow> ''Unknown''),
      ''Files: '' @ show_field (map_option string_of_int (rv_fileCount repo)),
      '''', ''## Structure'', ''''] @
     (case rv_fileTree repo of None \<Rightarrow> []
      | Some tree \<Rightarrow> map (tree_line pic) (take 50 (filter (\<lambda>f. \<not> te_isIgnored f) tree)))"

definition make_block :: "string \<Rightarrow> ContextBlockType \<Rightarrow> int \<Rightarrow> string list \<Rightarrow> ContextBlock" where
  "make_block i t p lines =
     (let content = join_with nl lines in
      \<lparr>blk_id = i, blk_type = t, blk_priority = p, blk_content = content, blk_tokenEstimate = estimateTokens content\<rparr>)"

definition assembleRepoSummaryBlock :: "Pictographs \<Rightarrow> RepoView \<Rightarrow> builder_error + ContextBlock" where
  "assembleRepoSummaryBlock pic repo = (case rv_commitHash repo of
     None \<Rightarrow> Inl (Builder_TypeError (''Cannot read properties of undefined (reading '' @ [char_of (39 :: nat)] @ ''substring'' @ [char_of (39 :: nat)] @ '')''))
   | Some h \<Rightarrow> Inr (make_block ''repo-summary'' REPO_SUMMARY 10 (summary_lines pic repo h)))"

definition assembleFileListBlock :: "RepoView \<Rightarrow> ContextBlock" where
  "assembleFileListBlock repo = make_block ''file-list'' FILE_LIST 9
     ([''## Recent Files'', ''''] @
      (case rv_fileTree repo of None \<Rightarrow> []
       | Some tree \<Rightarrow> map (\<lambda>f. ''- '' @ te_path f) (take 20 (filter (\<lambda>f. \<not> te_isDir f \<and> \<not> te_isIgnored f) tree))))"

definition code_fence :: string where
  "code_fence = replicate 3 (char_of (96 :: nat))"

definition assembleDiffsBlock :: "RepoView \<Rightarrow> ContextBlock option" where
  "assembleDiffsBlock repo = (case rv_recentDiffs repo of None \<Rightarrow> None
   | Some diffList \<Rightarrow>
       if diffList = [] then None
       else Some (make_block ''diffs'' DIFFS 8
         ([''## Recent Changes'', ''''] @
          concat (map (\<lambda>d. [''### '' @ rd_filePath d, ''Status: '' @ rd_status d, code_fence, join_with nl (rd_hunks d), code_fence, ''''])
            (take 10 diffList)))))"

text \<open>\<open>chatHistory.slice(-depth)\<close>\<close>

definition slice_last :: "nat \<Rightarrow> 'a list \<Rightarrow> 'a list" where
  "slice_last depth xs = (if depth = 0 then xs else drop (length xs - depth) xs)"

definition assembleChatBlock :: "Pictographs \<Rightarrow> ChatTurn list \<Rightarrow> nat \<Rightarrow> ContextBlock option" where
  "assembleChatBlock pic chatHistory depth =
     (if chatHistory = [] then None
      else Some (make_block ''chat'' CHAT 5
        ([''## Conversation History'', ''''] @
         concat (map (\<lambda>m. [(case ct_role m of Role_user \<Rightarrow> pic_user pic @ '' User'' | Role_assistant \<Rightarrow> pic_assistant pic @ '' Assistant'') @ '':'',
             ct_content m, '''']) (slice_last depth chatHistory)))))"

definition opt_list :: "'a option \<Rightarrow> 'a list" where
  "opt_list x = (case x of None \<Rightarrow> [] | Some y \<Rightarrow> [y])"

text \<open>\<open>blocks.sort((a, b) => b.priority - a.priority)\<close> is stable.\<close>

definition by_priority :: "ContextBlock list \<Rightarrow> ContextBlock list" where
  "by_priority blocks = sort_key (\<lambda>b. - blk_priority b) blocks"

definition assemble_summary :: "Pictographs \<Rightarrow> ContextBuilderInput \<Rightarrow> ContextStrategy \<Rightarrow> builder_error + ContextBlock list" where
  "assemble_summary pic inp st =
     (if cs_includeRepoSummary st then map_sum id (\<lambda>b. [b]) (assembleRepoSummaryBlock pic (cbi_repoSummary inp)) else Inr [])"

definition assemble_others :: "Pictographs \<Rightarrow> ContextBuilderInput \<Rightarrow> ContextStrategy \<Rightarrow> ContextBlock list" where
  "assemble_others pic inp st =
     (if cs_includeFileList st then [assembleFileListBlock (cbi_repoSummary inp)] else []) @
     (if cs_includeDiffs st then opt_list (assembleDiffsBlock (cbi_repoSummary inp)) else []) @
     (if cs_includeChat st
      then (case cbi_chatHistory inp of None \<Rightarrow> [] | Some h \<Rightarrow> opt_list (assembleChatBlock pic h (cs_chatDepth st)))
      else [])"

definition apply_priority :: "ContextStrategy \<Rightarrow> ContextBlock \<Rightarrow> ContextBlock" where
  "apply_priority st b = b\<lparr>blk_priority := cs_blockPriorities st (blk_type b)\<rparr>"

definition assemble :: "Pictographs \<Rightarrow> ContextBuilderInput \<Rightarrow> ContextStrategy \<Rightarrow> builder_error + ContextBlock list" where
  "assemble pic inp st =
     andThen (assemble_summary pic inp st) (\<lambda>summary.
     Inr (by_priority (map (apply_priority st) (summary @ assemble_others pic inp st))))"

section \<open>Token budget\<close>

definition DEFAULT_MAX_TOKENS :: int where
  "DEFAULT_MAX_TOKENS = 13500"

primrec BUCKET_LIMITS :: "BucketType \<Rightarrow> int" where
  "BUCKET_LIMITS B_SYSTEM = 2000"
| "BUCKET_LIMITS B_USER = 2000"
| "BUCKET_LIMITS B_REPO_SUMMARY = 3000"
| "BUCKET_LIMITS B_CONTEXT_BLOCKS = 4000"
| "BUCKET_LIMITS B_CHAT_HISTORY = 2000"
| "BUCKET_LIMITS B_OPTIONAL = 1000"

definition countTokens :: "Tokenizer \<Rightarrow> string \<Rightarrow> int" where
  "countTokens tk s = (case tk_encode tk s of Inr tokens \<Rightarrow> int (length tokens) | Inl _ \<Rightarrow> estimateTokens s)"

definition bucket_of :: "BucketType \<Rightarrow> BucketPolicy \<Rightarrow> TokenBucket" where
  "bucket_of b policy = \<lparr>tb_name = b, tb_limit = BUCKET_LIMITS b, tb_policy = policy, tb_current = 0\<rparr>"

definition initializeBuckets :: "BucketType \<Rightarrow> TokenBucket" where
  "initializeBuckets b = bucket_of b (case b of
     B_SYSTEM \<Rightarrow> Policy_REJECT | B_USER \<Rightarrow> Policy_REJECT | B_REPO_SUMMARY \<Rightarrow> Policy_DROP | B_CONTEXT_BLOCKS \<Rightarrow> Policy_TRUNCATE
   | B_CHAT_HISTORY \<Rightarrow> Policy_DROP | B_OPTIONAL \<Rightarrow> Policy_DROP)"

text \<open>A new bucket for every block, whatever earlier blocks of the bucket took.\<close>

definition getBucketForBlockType :: "ContextBlockType \<Rightarrow> TokenBucket" where
  "getBucketForBlockType t = (case t of
     REPO_SUMMARY \<Rightarrow> bucket_of B_REPO_SUMMARY Policy_DROP
   | CHAT \<Rightarrow> bucket_of B_CHAT_HISTORY Policy_DROP
   | _ \<Rightarrow> bucket_of B_CONTEXT_BLOCKS Policy_TRUNCATE)"

text \<open>\<open>tokens.slice(0, limit)\<close>\<close>

definition slice_first :: "int \<Rightarrow> 'a list \<Rightarrow> 'a list" where
  "slice_first n xs = (if n < 0 then take (length xs - nat (- n)) xs else take (nat n) xs)"

definition mark_truncated :: "string \<Rightarrow> string" where
  "mark_truncated s = s @ (if s \<noteq> [] \<and> last s = hd nl then [] else nl) @ ''[... TRUNCATED ...]''"

definition truncateToTokenLimit :: "Tokenizer \<Rightarrow> string \<Rightarrow> int \<Rightarrow> builder_error + string" where
  "truncateToTokenLimit tk s limit =
     andThen (map_sum Tokenizer_Error id (tk_encode tk s)) (\<lambda>tokens.
     if int (length tokens) \<le> limit then Inr s
     else map_sum Tokenizer_Error mark_truncated (tk_decode tk (slice_first limit tokens)))"

definition buildWarnings :: "string list \<Rightarrow> string list \<Rightarrow> string list" where
  "buildWarnings dropped truncated =
     (if length dropped > 0 then [''Dropped '' @ string_of_nat (length dropped) @ '' context block(s) due to budget limits''] else []) @
     (if length truncated > 0 then [''Truncated '' @ string_of_nat (length truncated) @ '' context block(s) to fit budget''] else [])"

text \<open>The variables of the loop over the sorted blocks.\<close>

record allocation =
  al_remaining :: int
  al_blocks :: "ContextBlock list"
  al_dropped :: "string list"
  al_truncated :: "string list"

definition drop_block :: "ContextBlock \<Rightarrow> allocation \<Rightarrow> allocation" where
  "drop_block b al = al\<lparr>al_dropped := al_dropped al @ [blk_id b]\<rparr>"

definition take_block :: "ContextBlock \<Rightarrow> allocation \<Rightarrow> allocation" where
  "take_block b al = al\<lparr>al_blocks := al_blocks al @ [b], al_remaining := al_remaining al - blk_tokenEstimate b\<rparr>"

text \<open>\<open>bucket.current += blockTokens\<close> changes the new bucket of this block only and is left out.\<close>

definition allocate_block :: "Tokenizer \<Rightarrow> ContextBlock \<Rightarrow> allocation \<Rightarrow> builder_error + allocation" where
  "allocate_block tk b al =
     (let blockTokens = countTokens tk (blk_content b); bucket = getBucketForBlockType (blk_type b) in
      if al_remaining al \<le> 0 then Inr (drop_block b al)
      else if blockTokens \<le> tb_limit bucket \<and> tb_current bucket + blockTokens \<le> tb_limit bucket
      then Inr (take_block (b\<lparr>blk_tokenEstimate := blockTokens\<rparr>) al)
      else if tb_policy bucket = Policy_TRUNCATE
      then andThen (truncateToTokenLimit tk (blk_content b) (min (tb_limit bucket - tb_current bucket) (al_remaining al))) (\<lambda>content.
        let truncatedTokens = countTokens tk content in
        if truncatedTokens > 0
        then Inr ((take_block (b\<lparr>blk_content := content, blk_tokenEstimate := truncatedTokens\<rparr>) al)\<lparr>al_truncated := al_truncated al @ [blk_id b]\<rparr>)
        else Inr (drop_block b al))
      else if tb_policy bucket = Policy_DROP then Inr (drop_block b al)
      else Inr al)"

definition BUCKETS :: "BucketType list" where
  "BUCKETS = [B_SYSTEM, B_USER, B_REPO_SUMMARY, B_CONTEXT_BLOCKS, B_CHAT_HISTORY, B_OPTIONAL]"

definition budget_report :: "(BucketType \<Rightarrow> TokenBucket) \<Rightarrow> allocation \<Rightarrow> TokenBudgetReport" where
  "budget_report buckets al =
     \<lparr>tr_totalUsed = tb_current (buckets B_SYSTEM) + tb_current (buckets B_USER) + tb_current (buckets B_REPO_SUMMARY)
        + tb_current (buckets B_CONTEXT_BLOCKS) + tb_current (buckets B_CHAT_HISTORY) + tb_current (buckets B_OPTIONAL),
      tr_perBucket = map (\<lambda>b. (b, tb_current (buckets b))) BUCKETS,
      tr_droppedBlocks = al_dropped al, tr_truncatedBlocks = al_truncated al,
      tr_warnings = buildWarnings (al_dropped al) (al_truncated al)\<rparr>"

definition calculate ::
  "Tokenizer \<Rightarrow> ContextBlock list \<Rightarrow> string \<Rightarrow> string \<Rightarrow> int option \<Rightarrow> builder_error + ContextBlock list \<times> TokenBudgetReport" where
  "calculate tk blocks systemPrompt userMessage maxTokens =
     (let systemTokens = countTokens tk systemPrompt; userTokens = countTokens tk userMessage;
          limit = (case maxTokens of None \<Rightarrow> DEFAULT_MAX_TOKENS | Some n \<Rightarrow> n);
          buckets = initializeBuckets(B_SYSTEM := (initializeBuckets B_SYSTEM)\<lparr>tb_current := systemTokens\<rparr>,
            B_USER := (initializeBuckets B_USER)\<lparr>tb_current := userTokens\<rparr>)
      in andThen (throw_if (systemTokens > tb_limit (buckets B_SYSTEM)) (BudgetExceededError ''SYSTEM'' (tb_limit (buckets B_SYSTEM)) systemTokens)) (\<lambda>_.
         andThen (throw_if (userTokens > tb_limit (buckets B_USER)) (BudgetExceededError ''USER'' (tb_limit (buckets B_USER)) userTokens)) (\<lambda>_.
         andThen (fold_sum (allocate_block tk) (by_priority blocks)
           \<lparr>al_remaining = limit - tb_current (buckets B_SYSTEM) - tb_current (buckets B_USER), al_blocks = [], al_dropped = [], al_truncated = []\<rparr>) (\<lambda>al.
         Inr (al_blocks al, budget_report buckets al)))))"

section \<open>Enforcing a budget\<close>

definition CHARS_PER_TOKEN_ESTIMATE :: int where
  "CHARS_PER_TOKEN_ESTIMATE = 4"

definition DROP_ORDER :: "BucketType list" where
  "DROP_ORDER = [B_OPTIONAL, B_CHAT_HISTORY, B_REPO_SUMMARY, B_CONTEXT_BLOCKS]"

primrec mapBlockTypeToBucket :: "ContextBlockType \<Rightarrow> BucketType" where
  "mapBlockTypeToBucket REPO_SUMMARY = B_REPO_SUMMARY"
| "mapBlockTypeToBucket CHAT = B_CHAT_HISTORY"
| "mapBlockTypeToBucket FILE_LIST = B_CONTEXT_BLOCKS"
| "mapBlockTypeToBucket TESTS = B_CONTEXT_BLOCKS"
| "mapBlockTypeToBucket DIFFS = B_CONTEXT_BLOCKS"

record enforcement =
  en_blocks :: "ContextBlock list"
  en_buckets :: "(BucketType \<times> TokenBucket) list"
  en_dropped :: "string list"
  en_truncated :: "string list"

definition set_current :: "BucketType \<Rightarrow> int \<Rightarrow> (BucketType \<times> TokenBucket) list \<Rightarrow> (BucketType \<times> TokenBucket) list" where
  "set_current k n buckets = map (\<lambda>(j, b). (j, if j = k then b\<lparr>tb_current := n\<rparr> else b)) buckets"

definition excess :: "TokenBucket \<Rightarrow> ContextBlock \<Rightarrow> int" where
  "excess bucket b = max 0 (int (length (blk_content b)) - tb_limit bucket * CHARS_PER_TOKEN_ESTIMATE)"

definition cut_block :: "TokenBucket \<Rightarrow> ContextBlock \<Rightarrow> ContextBlock" where
  "cut_block bucket b = b\<lparr>blk_content := take (nat (int (length (blk_content b)) - excess bucket b)) (blk_content b)\<rparr>"

definition enforce_bucket :: "BucketType \<Rightarrow> enforcement \<Rightarrow> enforcement" where
  "enforce_bucket k en = (case map_of (en_buckets en) k of None \<Rightarrow> en
   | Some bucket \<Rightarrow>
       if tb_current bucket \<le> tb_limit bucket then en
       else let blocksInBucket = filter (\<lambda>b. mapBlockTypeToBucket (blk_type b) = k) (en_blocks en) in
         if tb_policy bucket = Policy_DROP
         then en\<lparr>en_blocks := filter (\<lambda>b. mapBlockTypeToBucket (blk_type b) \<noteq> k) (en_blocks en),
                 en_dropped := en_dropped en @ map blk_id blocksInBucket,
                 en_buckets := set_current k 0 (en_buckets en)\<rparr>
         else if tb_policy bucket = Policy_TRUNCATE
         then let cut = (\<lambda>b. blk_id b \<in> set (map blk_id blocksInBucket) \<and> excess bucket b > 0);
                  truncatedTokens = sum_list (map (\<lambda>b. \<lceil>rat_of_int (excess bucket b) / rat_of_int CHARS_PER_TOKEN_ESTIMATE\<rceil>) (filter cut (en_blocks en)))
              in en\<lparr>en_blocks := map (\<lambda>b. if cut b then cut_block bucket b else b) (en_blocks en),
                    en_truncated := en_truncated en @ map blk_id (filter cut (en_blocks en)),
                    en_buckets := set_current k (tb_current bucket - truncatedTokens) (en_buckets en)\<rparr>
         else en)"

definition enforce :: "ContextBlock list \<Rightarrow> (BucketType \<times> TokenBucket) list \<Rightarrow> BucketType list \<Rightarrow> ContextBlock list \<times> TokenBudgetReport" where
  "enforce blocks buckets dropOrder =
     (let en = fold enforce_bucket DROP_ORDER \<lparr>en_blocks = blocks, en_buckets = buckets, en_dropped = [], en_truncated = []\<rparr> in
      (en_blocks en,
       \<lparr>tr_totalUsed = sum_list (map (tb_current \<circ> snd) (en_buckets en)),
        tr_perBucket = map (\<lambda>(k, b). (k, tb_current b)) (en_buckets en),
        tr_droppedBlocks = en_dropped en, tr_truncatedBlocks = en_truncated en,
        tr_warnings = map (\<lambda>i. ''Dropped block: '' @ i) (en_dropped en) @ map (\<lambda>i. ''Truncated block: '' @ i) (en_truncated en)\<rparr>))"

section \<open>Prompts\<close>

definition SYSTEM_PROMPT :: string where
  "SYSTEM_PROMPT = join_with nl
     [''You are a helpful AI assistant specialized in reading, understanding, and modifying code repositories.'',
      '''',
      ''You have access to the following context about the repository structure, recent changes, and conversation history.'',
      ''Use this information to understand the codebase and respond to the user's requests accurately and thoughtfully.'',
      '''',
      ''Guidelines:'',
      ''- Be concise and direct in your responses'',
      ''- Explain your reasoning and approach'',
      ''- Respect the user's intent and preferences'',
      ''- Ask for clarification if you need more information'',
      ''- Provide code examples when relevant'',
      ''- Consider the impact of changes on the broader codebase'',
      '''',
      ''When making code changes:'',
      ''1. Explain what you're changing and why'',
      ''2. Consider error handling and edge cases'',
      ''3. Follow existing code patterns and conventions'',
      ''4. Test your changes mentally or suggest test cases'']"

definition buildUserPrompt :: "ContextBlock list \<Rightarrow> string \<Rightarrow> string" where
  "buildUserPrompt blocks userMessage = join_with nl
     ((if length blocks > 0
       then [''## Repository Context'' @ nl] @
         concat (map (\<lambda>b. [''### '' @ map (\<lambda>c. if c = CHR ''_'' then CHR '' '' else c) (block_type_name (blk_type b)) @ nl, blk_content b, nl]) blocks) @
         [nl @ ''---'' @ nl]
       else []) @
      [''## Your Request'' @ nl, userMessage])"

definition compose :: "ContextBlock list \<Rightarrow> string \<Rightarrow> string \<times> string" where
  "compose blocks userMessage = (SYSTEM_PROMPT, buildUserPrompt blocks userMessage)"

definition validateInput :: "ContextBuilderInput \<Rightarrow> builder_error + unit" where
  "validateInput inp =
     andThen (throw_if (trim (cbi_userMessage inp) = []) (ValidationError ''userMessage'' ''User message cannot be empty'')) (\<lambda>_.
     throw_if (cbi_primary inp = []) (ValidationError ''intent.primary'' ''Intent primary must be provided''))"

text \<open>\<open>ContextBuilder.build\<close>; \<open>now\<close> is the clock.\<close>

definition build :: "Tokenizer \<Rightarrow> Pictographs \<Rightarrow> int \<Rightarrow> ContextBuilderInput \<Rightarrow> builder_error + ContextBuilderOutput" where
  "build tk pic now inp =
     andThen (validateInput inp) (\<lambda>_.
     andThen (resolve_strategy (cbi_primary inp)) (\<lambda>st.
     andThen (assemble pic inp st) (\<lambda>blocks.
     andThen (calculate tk blocks SYSTEM_PROMPT (cbi_userMessage inp) (cbi_maxTokens inp)) (\<lambda>(allocated, report).
     Inr \<lparr>cbo_systemPrompt = SYSTEM_PROMPT, cbo_userPrompt = snd (compose allocated (cbi_userMessage inp)),
          cbo_contextBlocks = allocated, cbo_tokenReport = report, cbo_intent = cbi_primary inp,
          cbo_strategyUsed = cs_intent st, cbo_timestamp = now\<rparr>))))"


section \<open>What the allocation guarantees\<close>

lemma sorted_subseq: "subseq xs ys \<Longrightarrow> sorted ys \<Longrightarrow> sorted xs"
proof (induction rule: list_emb.induct)
  case (list_emb_Cons2 x y xs ys)
  then show ?case using list_emb_set [of "(=)" xs ys] by auto
qed auto

lemma subset_subseq: "subseq xs ys \<Longrightarrow> set xs \<subseteq> set ys"
  by (induction rule: list_emb.induct) auto

lemma distinct_subseq: "subseq xs ys \<Longrightarrow> distinct ys \<Longrightarrow> distinct xs"
proof (induction rule: list_emb.induct)
  case (list_emb_Cons2 x y xs ys)
  then show ?case using list_emb_set [of "(=)" xs ys] by auto
qed auto

text \<open>
  The state of the loop after the blocks \<open>ps\<close>: the kept blocks are some of them in their order, every block is kept or
  dropped, a kept block that is not marked as truncated is unchanged and within the limit of its bucket, and all kept
  blocks but the last are within the budget.
\<close>

abbreviation block_key :: "ContextBlock \<Rightarrow> string \<times> ContextBlockType \<times> int" where
  "block_key b \<equiv> (blk_id b, blk_type b, blk_priority b)"

definition alloc_inv :: "Tokenizer \<Rightarrow> int \<Rightarrow> ContextBlock list \<Rightarrow> allocation \<Rightarrow> bool" where
  "alloc_inv tk available ps al \<longleftrightarrow>
     subseq (map block_key (al_blocks al)) (map block_key ps) \<and>
     mset (map blk_id (al_blocks al)) + mset (al_dropped al) = mset (map blk_id ps) \<and>
     set (al_truncated al) \<subseteq> set (map blk_id (al_blocks al)) \<and>
     (\<forall>b\<in>set (al_blocks al). blk_tokenEstimate b = countTokens tk (blk_content b) \<and>
        (blk_id b \<in> set (al_truncated al) \<or>
         (\<exists>p\<in>set ps. b = p\<lparr>blk_tokenEstimate := blk_tokenEstimate b\<rparr>) \<and>
         blk_tokenEstimate b \<le> tb_limit (getBucketForBlockType (blk_type b)))) \<and>
     al_remaining al = available - sum_list (map blk_tokenEstimate (al_blocks al)) \<and>
     (al_blocks al = [] \<or> sum_list (map blk_tokenEstimate (butlast (al_blocks al))) < available)"

lemma alloc_inv_drop: "alloc_inv tk available ps al \<Longrightarrow> alloc_inv tk available (ps @ [b]) (drop_block b al)"
  by (auto simp: alloc_inv_def drop_block_def intro: subseq_rev_drop_many)

lemma alloc_inv_take:
  assumes "alloc_inv tk available ps al" and "0 < al_remaining al" and "block_key b' = block_key b"
    and "blk_tokenEstimate b' = countTokens tk (blk_content b')"
    and "truncated = al_truncated al @ [blk_id b] \<or> truncated = al_truncated al \<and>
      b' = b\<lparr>blk_tokenEstimate := blk_tokenEstimate b'\<rparr> \<and> blk_tokenEstimate b' \<le> tb_limit (getBucketForBlockType (blk_type b'))"
  shows "alloc_inv tk available (ps @ [b]) ((take_block b' al)\<lparr>al_truncated := truncated\<rparr>)"
  using assms by (auto simp: alloc_inv_def take_block_def)

lemma block_policy: "tb_policy (getBucketForBlockType t) = Policy_TRUNCATE \<or> tb_policy (getBucketForBlockType t) = Policy_DROP"
  by (simp add: getBucketForBlockType_def bucket_of_def split: ContextBlockType.split)

lemma alloc_inv_step:
  assumes "allocate_block tk b al = Inr al'" and "alloc_inv tk available ps al"
  shows "alloc_inv tk available (ps @ [b]) al'"
proof (cases "al' = drop_block b al")
  case True
  then show ?thesis using alloc_inv_drop [OF assms(2)] by simp
next
  case False
  then have pos: "0 < al_remaining al" using assms(1) by (auto simp: allocate_block_def Let_def split: if_splits)
  show ?thesis
  proof (cases "countTokens tk (blk_content b) \<le> tb_limit (getBucketForBlockType (blk_type b)) \<and>
      tb_current (getBucketForBlockType (blk_type b)) + countTokens tk (blk_content b) \<le> tb_limit (getBucketForBlockType (blk_type b))")
    case True
    let ?b = "b\<lparr>blk_tokenEstimate := countTokens tk (blk_content b)\<rparr>"
    have "al' = take_block ?b al" using True assms(1) pos by (simp add: allocate_block_def Let_def)
    also have "\<dots> = (take_block ?b al)\<lparr>al_truncated := al_truncated al\<rparr>" by (cases al) (simp add: take_block_def)
    finally have "al' = \<dots>" .
    then show ?thesis using alloc_inv_take [OF assms(2) pos, of ?b b] True by simp
  next
    case fits: False
    obtain content where "al' = (take_block (b\<lparr>blk_content := content, blk_tokenEstimate := countTokens tk content\<rparr>) al)
        \<lparr>al_truncated := al_truncated al @ [blk_id b]\<rparr>"
      using assms(1) pos fits False block_policy [of "blk_type b"]
      by (auto simp: allocate_block_def Let_def andThen_Inr_iff split: if_splits)
    then show ?thesis
      using alloc_inv_take [OF assms(2) pos, of "b\<lparr>blk_content := content, blk_tokenEstimate := countTokens tk content\<rparr>" b] by simp
  qed
qed

lemma alloc_inv_fold:
  "fold_sum (allocate_block tk) bs al = Inr al' \<Longrightarrow> alloc_inv tk available ps al \<Longrightarrow> alloc_inv tk available (ps @ bs) al'"
proof (induction bs arbitrary: al ps)
  case (Cons b bs)
  then obtain al1 where "allocate_block tk b al = Inr al1" "fold_sum (allocate_block tk) bs al1 = Inr al'"
    by (auto simp: andThen_Inr_iff)
  then show ?case using Cons.IH [of al1 "ps @ [b]"] alloc_inv_step Cons.prems(2) by fastforce
qed simp

abbreviation token_limit :: "int option \<Rightarrow> int" where
  "token_limit maxTokens \<equiv> (case maxTokens of None \<Rightarrow> DEFAULT_MAX_TOKENS | Some n \<Rightarrow> n)"

lemma calculate_returns:
  assumes "calculate tk blocks systemPrompt userMessage maxTokens = Inr (kept, report)"
  defines "available \<equiv> token_limit maxTokens - countTokens tk systemPrompt - countTokens tk userMessage"
  obtains al where "alloc_inv tk available (by_priority blocks) al" and "kept = al_blocks al"
    and "tr_droppedBlocks report = al_dropped al" and "tr_truncatedBlocks report = al_truncated al"
    and "tr_totalUsed report = countTokens tk systemPrompt + countTokens tk userMessage"
    and "countTokens tk systemPrompt \<le> 2000" and "countTokens tk userMessage \<le> 2000"
proof -
  let ?al0 = "\<lparr>al_remaining = available, al_blocks = [], al_dropped = [], al_truncated = []\<rparr>"
  obtain al where al: "fold_sum (allocate_block tk) (by_priority blocks) ?al0 = Inr al" and kept: "kept = al_blocks al"
    and report: "report = budget_report (initializeBuckets(B_SYSTEM := (initializeBuckets B_SYSTEM)\<lparr>tb_current := countTokens tk systemPrompt\<rparr>,
        B_USER := (initializeBuckets B_USER)\<lparr>tb_current := countTokens tk userMessage\<rparr>)) al"
    and small: "countTokens tk systemPrompt \<le> 2000" "countTokens tk userMessage \<le> 2000"
    using assms by (auto simp: calculate_def Let_def andThen_Inr_iff initializeBuckets_def bucket_of_def)
  have "alloc_inv tk available [] ?al0" by (simp add: alloc_inv_def)
  from alloc_inv_fold [OF al this] have inv: "alloc_inv tk available (by_priority blocks) al" by simp
  show thesis by (rule that [OF inv kept _ _ _ small]) (simp_all add: report budget_report_def initializeBuckets_def bucket_of_def)
qed

text \<open>
  C38. When the budget calculator returns, it has decided on every block: the identifiers of the kept and of the dropped
  blocks are together those of all blocks, and the kept blocks come in descending priority. A kept block carries its own
  token count, and unless it is reported as truncated it is an original block within the limit of its bucket. The system
  prompt and the user's message are within their limits, and together with all kept blocks but the last they stay below
  the token limit.
\<close>
theorem allocation_accounts_for_every_block:
  assumes "calculate tk blocks systemPrompt userMessage maxTokens = Inr (kept, report)"
  shows "mset (map blk_id kept) + mset (tr_droppedBlocks report) = mset (map blk_id blocks) \<and>
    sorted (rev (map blk_priority kept)) \<and>
    set (tr_truncatedBlocks report) \<subseteq> set (map blk_id kept) \<and>
    (\<forall>b\<in>set kept. blk_tokenEstimate b = countTokens tk (blk_content b) \<and>
       (blk_id b \<in> set (tr_truncatedBlocks report) \<or>
        (\<exists>p\<in>set blocks. b = p\<lparr>blk_tokenEstimate := blk_tokenEstimate b\<rparr>) \<and>
        blk_tokenEstimate b \<le> tb_limit (getBucketForBlockType (blk_type b)))) \<and>
    countTokens tk systemPrompt \<le> 2000 \<and> countTokens tk userMessage \<le> 2000 \<and>
    (kept = [] \<or>
     countTokens tk systemPrompt + countTokens tk userMessage + sum_list (map blk_tokenEstimate (butlast kept)) < token_limit maxTokens)"
proof (rule calculate_returns [OF assms])
  fix al
  assume inv: "alloc_inv tk (token_limit maxTokens - countTokens tk systemPrompt - countTokens tk userMessage) (by_priority blocks) al"
    and kept: "kept = al_blocks al" and report: "tr_droppedBlocks report = al_dropped al" "tr_truncatedBlocks report = al_truncated al"
    and small: "countTokens tk systemPrompt \<le> 2000" "countTokens tk userMessage \<le> 2000"
  have s: "set (by_priority blocks) = set blocks" "mset (map blk_id (by_priority blocks)) = mset (map blk_id blocks)"
    by (simp_all add: by_priority_def)
  have "subseq (map block_key kept) (map block_key (by_priority blocks))" using inv kept by (simp add: alloc_inv_def)
  from subseq_map [OF this, of "\<lambda>(i, t, p). - p"] have "subseq (map (\<lambda>b. - blk_priority b) kept) (map (\<lambda>b. - blk_priority b) (by_priority blocks))" by (simp add: comp_def)
  then have "sorted (map (\<lambda>b. - blk_priority b) kept)"
    using sorted_sort_key [of "\<lambda>b. - blk_priority b" blocks] by (metis by_priority_def sorted_subseq)
  then have "sorted (rev (map blk_priority kept))" by (simp add: sorted_wrt_rev sorted_wrt_map)
  moreover have "kept = [] \<or> countTokens tk systemPrompt + countTokens tk userMessage + sum_list (map blk_tokenEstimate (butlast kept)) < token_limit maxTokens"
    using inv kept by (auto simp: alloc_inv_def)
  ultimately show ?thesis using inv small unfolding alloc_inv_def kept report s by blast
qed

text \<open>A tokenizer with one token per character, and blocks of three and two tokens.\<close>

definition char_tokenizer :: Tokenizer where
  "char_tokenizer = \<lparr>tk_encode = (\<lambda>s. Inr (map of_char s)), tk_decode = (\<lambda>ts. Inr (map char_of ts))\<rparr>"

definition sample_blocks :: "ContextBlock list" where
  "sample_blocks =
     [\<lparr>blk_id = ''file-list'', blk_type = FILE_LIST, blk_priority = 1, blk_content = ''abc'', blk_tokenEstimate = 2\<rparr>,
      \<lparr>blk_id = ''chat'', blk_type = CHAT, blk_priority = 2, blk_content = ''de'', blk_tokenEstimate = 2\<rparr>,
      \<lparr>blk_id = ''repo-summary'', blk_type = REPO_SUMMARY, blk_priority = 0, blk_content = ''f'', blk_tokenEstimate = 2\<rparr>]"

lemma sample_calculation: "\<exists>kept report. calculate char_tokenizer sample_blocks ''s'' ''u'' (Some 5) = Inr (kept, report) \<and>
    map blk_id kept = [''chat'', ''file-list''] \<and> tr_droppedBlocks report = [''repo-summary''] \<and> tr_totalUsed report = 2"
proof -
  have "(case calculate char_tokenizer sample_blocks ''s'' ''u'' (Some 5) of Inl _ \<Rightarrow> False
    | Inr (kept, report) \<Rightarrow> map blk_id kept = [''chat'', ''file-list''] \<and> tr_droppedBlocks report = [''repo-summary''] \<and> tr_totalUsed report = 2)"
    by code_simp
  then show ?thesis by (auto split: sum.splits prod.splits)
qed

theorem allocation_accounts_for_every_block_witness:
  "\<exists>kept report. calculate char_tokenizer sample_blocks ''s'' ''u'' (Some 5) = Inr (kept, report) \<and>
     mset (map blk_id kept) + mset (tr_droppedBlocks report) = mset (map blk_id sample_blocks) \<and>
     sorted (rev (map blk_priority kept)) \<and> kept \<noteq> [] \<and>
     countTokens char_tokenizer ''s'' + countTokens char_tokenizer ''u'' + sum_list (map blk_tokenEstimate (butlast kept)) < 5"
proof -
  obtain kept report where *: "calculate char_tokenizer sample_blocks ''s'' ''u'' (Some 5) = Inr (kept, report)"
    and ids: "map blk_id kept = [''chat'', ''file-list'']"
    using sample_calculation by (elim exE conjE)
  then have "kept \<noteq> []" by auto
  then show ?thesis using * allocation_accounts_for_every_block [OF *] by auto
qed

text \<open>The report leaves out what the blocks use.\<close>

theorem report_omits_blocks:
  assumes "calculate tk blocks systemPrompt userMessage maxTokens = Inr (kept, report)"
  shows "tr_totalUsed report = countTokens tk systemPrompt + countTokens tk userMessage"
  using calculate_returns [OF assms] by metis

text \<open>
  C39. A block that fits the limit of its bucket is kept whole even when it needs more tokens than are left: the prompt then
  exceeds the token limit, and the report shows a total below the limit and no warning.
\<close>
theorem fitting_block_overruns_budget:
  assumes "countTokens tk systemPrompt \<le> 2000" and "countTokens tk userMessage \<le> 2000"
    and "countTokens tk (blk_content b) \<le> tb_limit (getBucketForBlockType (blk_type b))"
    and "countTokens tk systemPrompt + countTokens tk userMessage < maxTokens"
    and "maxTokens < countTokens tk systemPrompt + countTokens tk userMessage + countTokens tk (blk_content b)"
  shows "\<exists>report. calculate tk [b] systemPrompt userMessage (Some maxTokens) = Inr ([b\<lparr>blk_tokenEstimate := countTokens tk (blk_content b)\<rparr>], report) \<and>
    tr_totalUsed report < maxTokens \<and> tr_droppedBlocks report = [] \<and> tr_truncatedBlocks report = [] \<and> tr_warnings report = []"
proof -
  have "tb_current (getBucketForBlockType (blk_type b)) = 0"
    by (simp add: getBucketForBlockType_def bucket_of_def split: ContextBlockType.split)
  then show ?thesis using assms
    by (simp add: calculate_def Let_def by_priority_def throw_if_def allocate_block_def take_block_def initializeBuckets_def
        bucket_of_def budget_report_def buildWarnings_def)
qed

theorem fitting_block_overruns_budget_witness:
  "\<exists>report. calculate char_tokenizer [hd sample_blocks] ''s'' ''u'' (Some 4) =
       Inr ([(hd sample_blocks)\<lparr>blk_tokenEstimate := countTokens char_tokenizer (blk_content (hd sample_blocks))\<rparr>], report) \<and>
     tr_totalUsed report < 4 \<and> tr_droppedBlocks report = [] \<and> tr_truncatedBlocks report = [] \<and> tr_warnings report = []"
  by (rule fitting_block_overruns_budget)
    (simp_all add: countTokens_def char_tokenizer_def sample_blocks_def getBucketForBlockType_def bucket_of_def)

section \<open>Building a prompt\<close>

text \<open>
  C40. No intent of the classifier has a strategy: whenever the user message of a request is not blank and its intent is
  the primary intent of a classification, the builder refuses the request as one with an unknown intent.
\<close>
theorem classified_intents_have_no_strategy:
  assumes "cbi_primary inp = intent_name (ic_primary (classifyIntent message))" and "trim (cbi_userMessage inp) \<noteq> []"
  shows "\<exists>m. build tk pic now inp = Inl (Builder_Error (''Unknown intent: '' @ m))"
proof -
  have "intent_name i \<noteq> [] \<and> map_of buildStrategyMap (intent_name i) = None" for i
    by (cases i) (simp_all add: buildStrategyMap_def strategy_def)
  then show ?thesis using assms by (simp add: build_def validateInput_def throw_if_def resolve_strategy_def)
qed

definition sample_view :: RepoView where
  "sample_view = \<lparr>rv_repoName = Some ''repo'', rv_branch = Some ''main'', rv_commitHash = Some ''0123456789'', rv_language = None,
     rv_fileCount = Some 1, rv_fileTree = Some [\<lparr>te_path = ''src/a.ts'', te_isDir = False, te_isIgnored = False\<rparr>], rv_recentDiffs = None\<rparr>"

definition sample_pictographs :: Pictographs where
  "sample_pictographs = \<lparr>pic_folder = ''D'', pic_file = ''F'', pic_user = ''U'', pic_assistant = ''A''\<rparr>"

definition sample_builder_input :: "string \<Rightarrow> ContextBuilderInput" where
  "sample_builder_input primary = \<lparr>cbi_userMessage = ''Explain it'', cbi_primary = primary, cbi_repoSummary = sample_view,
     cbi_chatHistory = Some [\<lparr>ct_role = Role_user, ct_content = ''hello'', ct_timestamp = None\<rparr>], cbi_maxTokens = None\<rparr>"

theorem classified_intents_have_no_strategy_witness:
  "\<exists>m. build char_tokenizer sample_pictographs 0
      (sample_builder_input (intent_name (ic_primary (classifyIntent \<lparr>ci_message = ''Explain it'', ci_recentToolCalls = None, ci_agentRole = None, ci_runId = None\<rparr>)))) =
    Inl (Builder_Error (''Unknown intent: '' @ m))"
  by (rule classified_intents_have_no_strategy [of _ "\<lparr>ci_message = ''Explain it'', ci_recentToolCalls = None, ci_agentRole = None, ci_runId = None\<rparr>"])
    (simp_all add: sample_builder_input_def trim_def is_space_def)

text \<open>
  The summary that packages/repo-awareness produces. Read as \<open>any\<close> it has none of the fields that the assembler expects.
\<close>

datatype FileKind = SOURCE | TEST | DOC | CONFIG | DB | TOOLING | OTHER

record RepoFileMeta =
  rf_path :: string
  rf_ext :: string
  rf_size :: nat
  rf_loc :: "nat option"
  rf_lastModified :: "string option"
  rf_kind :: FileKind
  rf_importance :: rat

record RepoSummary =
  rs_rootPath :: string
  rs_scannedAt :: string
  rs_totalFiles :: nat
  rs_byKind :: "FileKind \<Rightarrow> nat"
  rs_largestFiles :: "RepoFileMeta list"
  rs_entryPoints :: "RepoFileMeta list"
  rs_importantFiles :: "RepoFileMeta list"
  rs_allFiles :: "RepoFileMeta list"

definition as_any :: "RepoSummary \<Rightarrow> RepoView" where
  "as_any _ = \<lparr>rv_repoName = None, rv_branch = None, rv_commitHash = None, rv_language = None, rv_fileCount = None,
     rv_fileTree = None, rv_recentDiffs = None\<rparr>"

text \<open>With such a summary the builder returns for reviews only.\<close>

theorem scanned_summary_only_serves_reviews:
  assumes "build tk pic now inp = Inr out" and "cbi_repoSummary inp = as_any summary"
  shows "cbi_primary inp = ''review''"
proof -
  obtain st where "map_of buildStrategyMap (cbi_primary inp) = Some st" and "\<not> cs_includeRepoSummary st"
    using assms by (auto simp: build_def andThen_Inr_iff resolve_strategy_def assemble_def assemble_summary_def
        assembleRepoSummaryBlock_def as_any_def
        split: option.splits if_splits)
  then show ?thesis by (auto simp: buildStrategyMap_def strategy_def split: if_splits)
qed

lemma join_with_sublist: "x \<in> set xs \<Longrightarrow> sublist x (join_with sep xs)"
proof (induction sep xs rule: join_with.induct)
  case (3 sep y z zs)
  then show ?case by (auto simp: sublist_append intro: sublist_append_rightI prefix_imp_sublist)
qed auto

lemma join_with_suffix: "xs \<noteq> [] \<Longrightarrow> suffix (last xs) (join_with sep xs)"
proof (induction sep xs rule: join_with.induct)
  case (3 sep y z zs)
  then show ?case by (simp add: suffix_append)
qed auto

text \<open>The blocks are at most one of each kind but tests, which no strategy brings into a prompt.\<close>

definition ASSEMBLED :: "(string \<times> ContextBlockType) list" where
  "ASSEMBLED = [(''repo-summary'', REPO_SUMMARY), (''file-list'', FILE_LIST), (''diffs'', DIFFS), (''chat'', CHAT)]"

abbreviation block_kind :: "ContextBlock \<Rightarrow> string \<times> ContextBlockType" where
  "block_kind b \<equiv> (blk_id b, blk_type b)"

lemma make_block_kind [simp]: "blk_id (make_block i t p ls) = i" "blk_type (make_block i t p ls) = t"
  by (simp_all add: make_block_def Let_def)

lemma others_kinds: "subseq (map block_kind (assemble_others pic inp st)) (tl ASSEMBLED)"
proof -
  let ?r = "cbi_repoSummary inp"
  have "subseq (map block_kind (if cs_includeFileList st then [assembleFileListBlock ?r] else [])) [(''file-list'', FILE_LIST)]"
    by (simp add: assembleFileListBlock_def)
  moreover have "subseq (map block_kind (if cs_includeDiffs st then opt_list (assembleDiffsBlock ?r) else [])) [(''diffs'', DIFFS)]"
    by (simp add: assembleDiffsBlock_def opt_list_def split: option.split)
  moreover have "subseq (map block_kind (if cs_includeChat st
      then (case cbi_chatHistory inp of None \<Rightarrow> [] | Some h \<Rightarrow> opt_list (assembleChatBlock pic h (cs_chatDepth st))) else [])) [(''chat'', CHAT)]"
    by (simp add: assembleChatBlock_def opt_list_def split: option.split)
  ultimately have "subseq (map block_kind (assemble_others pic inp st)) ([(''file-list'', FILE_LIST)] @ [(''diffs'', DIFFS)] @ [(''chat'', CHAT)])"
    unfolding assemble_others_def map_append by (intro list_emb_append_mono)
  then show ?thesis by (simp add: ASSEMBLED_def)
qed

lemma summary_kinds: "assemble_summary pic inp st = Inr summary \<Longrightarrow> subseq (map block_kind summary) [hd ASSEMBLED]"
  by (auto simp: assemble_summary_def assembleRepoSummaryBlock_def ASSEMBLED_def split: if_splits option.splits)

lemma assembled_blocks:
  assumes "assemble pic inp st = Inr blocks"
  shows "distinct (map blk_id blocks)" and "blk_type ` set blocks \<subseteq> {REPO_SUMMARY, FILE_LIST, DIFFS, CHAT}"
proof -
  obtain summary where summary: "assemble_summary pic inp st = Inr summary"
    and blocks: "blocks = by_priority (map (apply_priority st) (summary @ assemble_others pic inp st))"
    using assms by (auto simp: assemble_def andThen_Inr_iff)
  let ?parts = "summary @ assemble_others pic inp st"
  have "subseq (map block_kind ?parts) ([hd ASSEMBLED] @ tl ASSEMBLED)"
    unfolding map_append by (intro list_emb_append_mono summary_kinds [OF summary] others_kinds)
  then have kinds: "subseq (map block_kind ?parts) ASSEMBLED" by (simp add: ASSEMBLED_def)
  from subseq_map [OF this, of fst] have "subseq (map blk_id ?parts) (map fst ASSEMBLED)" by (simp add: comp_def)
  then have "distinct (map blk_id ?parts)" by (rule distinct_subseq) (simp add: ASSEMBLED_def)
  moreover have "mset (map blk_id blocks) = mset (map blk_id ?parts)"
    by (simp add: blocks by_priority_def apply_priority_def multiset.map_comp comp_def)
  ultimately show "distinct (map blk_id blocks)" by (metis mset_eq_imp_distinct_iff)
  from subseq_map [OF kinds, of snd] have "subseq (map blk_type ?parts) (map snd ASSEMBLED)" by (simp add: comp_def)
  from subset_subseq [OF this] have "blk_type ` set ?parts \<subseteq> set (map snd ASSEMBLED)" by (simp add: image_Un)
  then show "blk_type ` set blocks \<subseteq> {REPO_SUMMARY, FILE_LIST, DIFFS, CHAT}"
    by (auto simp: blocks by_priority_def apply_priority_def ASSEMBLED_def)
qed

lemma build_returns:
  assumes "build tk pic now inp = Inr out"
  obtains st blocks where "map_of buildStrategyMap (cbi_primary inp) = Some st" and "assemble pic inp st = Inr blocks"
    and "calculate tk blocks SYSTEM_PROMPT (cbi_userMessage inp) (cbi_maxTokens inp) = Inr (cbo_contextBlocks out, cbo_tokenReport out)"
    and "cbo_userPrompt out = buildUserPrompt (cbo_contextBlocks out) (cbi_userMessage inp)" and "cbo_systemPrompt out = SYSTEM_PROMPT"
  using assms by (auto simp: build_def andThen_Inr_iff resolve_strategy_def compose_def split: option.splits prod.splits)

text \<open>
  A returned prompt has the user's message at its end and the whole content of every kept block, each block at most once,
  and nothing of the tests.
\<close>

theorem built_prompt_carries_context:
  assumes "build tk pic now inp = Inr out"
  shows "suffix (cbi_userMessage inp) (cbo_userPrompt out) \<and>
    (\<forall>b\<in>set (cbo_contextBlocks out). sublist (blk_content b) (cbo_userPrompt out) \<and> blk_type b \<noteq> TESTS) \<and>
    distinct (map blk_id (cbo_contextBlocks out)) \<and> cbi_primary inp \<in> set getAvailableIntents"
proof -
  obtain st blocks where st: "map_of buildStrategyMap (cbi_primary inp) = Some st" and blocks: "assemble pic inp st = Inr blocks"
    and calc: "calculate tk blocks SYSTEM_PROMPT (cbi_userMessage inp) (cbi_maxTokens inp) = Inr (cbo_contextBlocks out, cbo_tokenReport out)"
    and prompt: "cbo_userPrompt out = buildUserPrompt (cbo_contextBlocks out) (cbi_userMessage inp)"
    using build_returns [OF assms] by metis
  obtain al available where inv: "alloc_inv tk available (by_priority blocks) al" and kept: "cbo_contextBlocks out = al_blocks al"
    using calculate_returns [OF calc] by metis
  have keys: "subseq (map block_key (cbo_contextBlocks out)) (map block_key (by_priority blocks))"
    using inv kept by (simp add: alloc_inv_def)
  from subseq_map [OF this, of fst] have "subseq (map blk_id (cbo_contextBlocks out)) (map blk_id (by_priority blocks))"
    by (simp add: comp_def)
  moreover have "distinct (map blk_id (by_priority blocks))"
    using assembled_blocks(1) [OF blocks] by (metis by_priority_def mset_eq_imp_distinct_iff mset_map mset_sort)
  ultimately have "distinct (map blk_id (cbo_contextBlocks out))" by (rule distinct_subseq)
  moreover have "blk_type b \<noteq> TESTS" if b: "b \<in> set (cbo_contextBlocks out)" for b
  proof -
    from subseq_map [OF keys, of "fst \<circ> snd"] have "subseq (map blk_type (cbo_contextBlocks out)) (map blk_type (by_priority blocks))"
      by (simp add: comp_def)
    from subset_subseq [OF this] have "blk_type b \<in> set (map blk_type (by_priority blocks))" using b by auto
    then show ?thesis using assembled_blocks(2) [OF blocks] by (auto simp: by_priority_def)
  qed
  moreover have "sublist (blk_content b) (cbo_userPrompt out)" if b: "b \<in> set (cbo_contextBlocks out)" for b
    unfolding prompt buildUserPrompt_def by (rule join_with_sublist) (use b in auto)
  moreover have "suffix (cbi_userMessage inp) (cbo_userPrompt out)"
    unfolding prompt buildUserPrompt_def
    using join_with_suffix [of "xs @ [a, cbi_userMessage inp]" nl for xs a] by simp
  moreover have "cbi_primary inp \<in> set getAvailableIntents"
    using st by (force simp: getAvailableIntents_def dest: map_of_SomeD)
  ultimately show ?thesis by blast
qed

lemma sample_build: "\<exists>out. build char_tokenizer sample_pictographs 0 (sample_builder_input ''explore'') = Inr out \<and>
    map blk_id (cbo_contextBlocks out) = [''repo-summary'', ''file-list'', ''chat'']"
proof -
  have "(case build char_tokenizer sample_pictographs 0 (sample_builder_input ''explore'') of Inl _ \<Rightarrow> False
    | Inr out \<Rightarrow> map blk_id (cbo_contextBlocks out) = [''repo-summary'', ''file-list'', ''chat''])"
    by code_simp
  then show ?thesis by (auto split: sum.splits)
qed

text \<open>The builder returns for a known intent when the summary has a commit and the tokenizer does not throw.\<close>

lemma allocate_returns:
  assumes "\<And>s. \<exists>ts. tk_encode tk s = Inr ts" and "\<And>ts. \<exists>s. tk_decode tk ts = Inr s"
  shows "\<exists>al'. fold_sum (allocate_block tk) bs al = Inr al'"
proof (induction bs arbitrary: al)
  case (Cons b bs)
  have "\<exists>c. truncateToTokenLimit tk s l = Inr c" for s l
    using assms(1) [of s] assms(2) by (auto simp: truncateToTokenLimit_def) (metis map_sum.simps(2))
  then obtain c where "truncateToTokenLimit tk (blk_content b) (min (tb_limit (getBucketForBlockType (blk_type b)) -
      tb_current (getBucketForBlockType (blk_type b))) (al_remaining al)) = Inr c"
    by blast
  then have "\<exists>al1. allocate_block tk b al = Inr al1" by (auto simp: allocate_block_def Let_def)
  then show ?case using Cons by (auto simp: andThen_Inr_iff)
qed simp

theorem known_intents_are_built:
  assumes "has_intent (cbi_primary inp)" and "trim (cbi_userMessage inp) \<noteq> []" and "rv_commitHash (cbi_repoSummary inp) \<noteq> None"
    and "\<And>s. \<exists>ts. tk_encode tk s = Inr ts" and "\<And>ts. \<exists>s. tk_decode tk ts = Inr s"
    and "countTokens tk SYSTEM_PROMPT \<le> 2000" and "countTokens tk (cbi_userMessage inp) \<le> 2000"
  shows "\<exists>out. build tk pic now inp = Inr out"
proof -
  obtain st where st: "resolve_strategy (cbi_primary inp) = Inr st" using assms(1) by (auto simp: has_intent_def resolve_strategy_def)
  have "cbi_primary inp \<noteq> []" using assms(1) by (auto simp: has_intent_def buildStrategyMap_def strategy_def)
  then have valid: "validateInput inp = Inr ()" using assms(2) by (simp add: validateInput_def throw_if_def)
  have "\<exists>summary. assemble_summary pic inp st = Inr summary"
    using assms(3) by (auto simp: assemble_summary_def assembleRepoSummaryBlock_def)
  then obtain blocks where blocks: "assemble pic inp st = Inr blocks" by (auto simp: assemble_def)
  obtain al where "fold_sum (allocate_block tk) (by_priority blocks) \<lparr>al_remaining = token_limit (cbi_maxTokens inp) -
      countTokens tk SYSTEM_PROMPT - countTokens tk (cbi_userMessage inp), al_blocks = [], al_dropped = [], al_truncated = []\<rparr> = Inr al"
    using allocate_returns [OF assms(4,5)] by blast
  then obtain r where "calculate tk blocks SYSTEM_PROMPT (cbi_userMessage inp) (cbi_maxTokens inp) = Inr r"
    using assms(6,7) by (auto simp: calculate_def Let_def throw_if_def initializeBuckets_def bucket_of_def)
  then show ?thesis using st valid blocks by (cases r) (simp add: build_def)
qed

section \<open>What enforcement guarantees\<close>

lemma map_of_set_current: "map_of (set_current k n buckets) j = map_option (\<lambda>b. if j = k then b\<lparr>tb_current := n\<rparr> else b) (map_of buckets j)"
  by (induction buckets) (auto simp: set_current_def)

lemma enforce_other_bucket: "j \<noteq> k \<Longrightarrow> map_of (en_buckets (enforce_bucket k en)) j = map_of (en_buckets en) j"
  by (auto simp: enforce_bucket_def map_of_set_current Let_def option.map_ident split: option.splits)

lemma enforce_dropping_bucket:
  assumes "map_of (en_buckets en) k = Some b" and "tb_policy b = Policy_DROP"
  shows "map_of (en_buckets (enforce_bucket k en)) k = Some (b\<lparr>tb_current := if tb_current b \<le> tb_limit b then tb_current b else 0\<rparr>)"
  using assms by (auto simp: enforce_bucket_def map_of_set_current Let_def)

lemma map_of_currents: "map_of (map (\<lambda>(k, b). (k, tb_current b)) bs) k = map_option tb_current (map_of bs k)"
  by (induction bs) auto

text \<open>A bucket that is dropped when it is full is reported within its limit, and no bucket outside the order changes.\<close>

theorem enforce_bounds_dropping_buckets:
  assumes "map_of buckets k = Some b" and "tb_policy b = Policy_DROP" and "k \<in> set DROP_ORDER" and "0 \<le> tb_limit b"
  shows "\<exists>n. map_of (tr_perBucket (snd (enforce blocks buckets dropOrder))) k = Some n \<and> n \<le> tb_limit b"
proof -
  have "\<exists>n. map_option tb_current (map_of (en_buckets (fold enforce_bucket DROP_ORDER en)) k) = Some n \<and> n \<le> tb_limit b"
    if "en_buckets en = buckets" for en
    using assms that
    by (cases k) (simp_all add: DROP_ORDER_def enforce_other_bucket enforce_dropping_bucket)
  then show ?thesis by (simp add: enforce_def Let_def map_of_currents)
qed

text \<open>
  A bucket that is truncated can stay over its limit: every block is cut on its own, so two blocks that fit alone are both
  left as they are.
\<close>

lemma truncated_bucket_stays_over_limit:
  "let bucket = \<lparr>tb_name = B_CONTEXT_BLOCKS, tb_limit = 2, tb_policy = Policy_TRUNCATE, tb_current = 4\<rparr>;
       b = (\<lambda>i. \<lparr>blk_id = i, blk_type = FILE_LIST, blk_priority = 0, blk_content = ''12345678'', blk_tokenEstimate = 2\<rparr>)
   in enforce [b ''1'', b ''2''] [(B_CONTEXT_BLOCKS, bucket)] DROP_ORDER =
     ([b ''1'', b ''2''], \<lparr>tr_totalUsed = 4, tr_perBucket = [(B_CONTEXT_BLOCKS, 4)], tr_droppedBlocks = [], tr_truncatedBlocks = [], tr_warnings = []\<rparr>)"
  by (simp add: enforce_def DROP_ORDER_def enforce_bucket_def excess_def CHARS_PER_TOKEN_ESTIMATE_def set_current_def Let_def)

end
