(* ===== verification/Spec2Isabelle.thy ===== *)
theory Spec2Isabelle
  imports Lifecycle_Restore Turn_Limits Permission_Policy Scheduler_Correctness Turn_Control Client_Answer Contract_Properties Artifact_Store Token_Budgeting Context_Builder
begin

text \<open>
  LegionCode runs coding agents: a client starts a turn, a runtime kernel drives a model provider and a worker through
  it, and every step is an event of a durable lifecycle stream. This development models the part of the repository
  that decides what is recorded, what may run and what the reader sees: packages/platform-protocol, event-store,
  runtime-kernel, permission-policy, workspace-core, artifact-store, token-budgeting, intent-classifier, context-builder, the lifecycle contract of packages/contract-conformance, the
  lifecycle projector of packages/persistence, the orchestration of packages/execution-engine, and the lifecycle client
  and workflow projection of packages/platform-client-sdk.

  \<^bold>\<open>How the program is modelled.\<close> An object of the program is a record, an enumeration or tagged union a datatype, and a
  method that reads or writes its object a state transformer that answers with a value or a thrown error and keeps the
  state reached before the throw (\<open>op\<close> in Prelude, with \<open>bindE\<close>, \<open>catchE\<close>, \<open>finallyE\<close>, the weakest preconditions \<open>wpE\<close>
  and the preserved predicates \<open>keeps\<close>). \<open>Map\<close> and \<open>Record\<close> objects are association lists in insertion order,
  strings are lists of code units below 256, numbers that the code only counts with are natural numbers or integers,
  percentages are rationals. Schema validation by the library zod, Git, the worker, the model provider, the artifact
  store, the clock and the hooks are parameters. What a theorem needs of a schema is a named hypothesis
  (\<open>lawful_schema\<close>: an accepted event keeps the fields of its envelope; \<open>lawful_ids\<close>; \<open>accepts\<close>: the events an operation
  is going to write are accepted under every sequence number that is a safe integer and every reading of the clock), and
  its witness has a schema for which it holds, which checks the identifiers, the sequence number and the timestamp as the
  schemas of platform-protocol/src/common.ts do. Sequence numbers are natural numbers; where a write has to succeed, the
  theorem asks for room below the largest safe integer (\<open>safe_sequence\<close>).

  The program is one thread with asynchronous calls. Operations of a lifecycle coordinator are queued by the code and
  run one at a time. Between them other callers may act wherever the kernel awaits a port: a port call of the model
  therefore answers with the commands that were issued meanwhile (\<open>tool_command\<close>: any lifecycle operation, or the
  resolution of any approval), which are run before the caller goes on; this includes the authorization of a tool call. The theorems hold for all ports, so for every
  interleaving at those points.

  \<^bold>\<open>The theories.\<close>

  \<^item> Prelude: operations, weakest preconditions, preserved predicates, ordered records, strings and decimal numbers.
  \<^item> Lifecycle_Protocol (platform-protocol/src/lifecycle.ts, errors.ts, common.ts): statuses, transition tables, the
    check of a terminal settlement, snapshot shapes and the event envelope.
  \<^item> Lifecycle_Store (event-store/src/MemoryLifecycleEventStore.ts, fingerprint.ts): contiguous streams, idempotent and
    atomic appends, replay. The laws of a sink are the locales \<open>lifecycle_sink\<close> and \<open>reliable_sink\<close>, proved for the
    memory store.
  \<^item> Lifecycle_Coordinator, Lifecycle_Invariants, Lifecycle_Log, Lifecycle_Liveness, Lifecycle_Restore
    (runtime-kernel/src/RuntimeLifecycleCoordinator.ts): every operation of a turn's lifecycle; invariants by locales of
    preserved predicates (\<open>work_predicate\<close>, \<open>op_predicate\<close>, \<open>settling_predicate\<close>, \<open>turn_predicate\<close>, \<open>input_predicate\<close>) that are
    interpreted for each invariant; the stored stream against the coordinator's state; interrupting and failing a turn
    to its end; and the restoration of a turn that waits for an approval.
  \<^item> Kernel_Errors (errors.ts) and Worker_Results (WorkerResultEventMapper.ts): protocol errors with sanitised provider
    messages, and what a worker result contributes to the turn.
  \<^item> Approval_Coordinator (ApprovalCoordinator.ts) and Tool_Execution (ToolExecutionCoordinator.ts): one approval is
    decided once, and one tool call is authorized, approved, executed and settled. The locales \<open>tool_predicate\<close> and
    \<open>lifecycle_invariant\<close> carry invariants of the lifecycle through a tool call.
  \<^item> Context_Budget (ProviderContextBudget.ts and its schema), Artifact_Settlement
    (TurnArtifactSettlementCoordinator.ts), Runtime_Kernel and Turn_Control (RuntimeKernel.ts): the loop of a turn, its
    artifacts, and starting and interrupting it; Kernel_Invariants carries invariants through a whole turn (locale
    \<open>kernel_predicate\<close>), and Turn_Limits counts the tool calls of a turn.
  \<^item> Client_Continuation, Client_Following, Client_Server (platform-client-sdk/src/platform): the errors of the client,
    the ordering of the events it receives, and the generator that follows a turn with retries. The locale
    \<open>lifecycle_server\<close> says what the client needs of the other side; it is interpreted for a server over the memory
    store whose network fails a bounded number of times and whose stream grows during the requests and the delays of the
    client.
  \<^item> Workflow_Projection, Projection_Properties (platform-client-sdk/src/workflow): the reducer that turns lifecycle
    events into the view of a turn.
  \<^item> Client_View, Client_Answer: the coordinator, the store and the client together. What the store holds is identified
    (an instance of the locale \<open>reliable_sink\<close> with a stronger invariant), so the client can read it.
  \<^item> Lifecycle_Projector (persistence/src/lifecycle-projections): the projection of a turn's events that the database
    keeps. Lifecycle_Rebuild says what each event does to it, Rebuild_Runs carries the agreement of projection and
    coordinator through every operation, and Rebuild_Properties states what follows.
  \<^item> Lifecycle_Contract (contract-conformance/src/lifecycle.ts): the reducer with which the repository states what a legal
    stream is. Contract_Runs carries the agreement of reducer and coordinator through every operation that returns, and
    Contract_Properties states which runs satisfy the contract and which do not.
  \<^item> Permission_Policy (permission-policy/src): the wildcard matcher against its declarative meaning, and the path,
    network and tool decisions.
  \<^item> Workspace_Core (workspace-core/src and WorkspaceCoordinator.ts): workspace manifests and their transitions.
  \<^item> Artifact_Store (artifact-store/src/InMemoryArtifactStore.ts and types.ts): metadata and payloads of artifacts, idempotent
    puts and access checks, with the invariant that every record describes a stored payload.
  \<^item> Token_Budgeting (token-budgeting/src): the token estimator, the buckets of a prompt, the built-in models and the checks
    of a budget plan.
  \<^item> Intent_Classifier (intent-classifier/src): the classification of a message by keywords, patterns and the last tool.
  \<^item> Context_Builder (context-builder/src): strategies, assembled blocks, their allocation to a token budget, and the prompt.
  \<^item> Run_Tasks, Dependency_Resolver, Task_Scheduler, Scheduler_Correctness (execution-engine/src/runtime): runs, tasks
    and their storage, the dependency graph of a plan, and the scheduler.

  \<^bold>\<open>What is shown.\<close> For a turn: the stored stream is contiguous and agrees with the coordinator however the turn is
  driven, from single operations to a whole execution; a turn that answers is completed, one that fails is terminal
  unless a settling step itself failed, an interrupt that returns has settled the turn, and nothing changes a settled
  turn; a turn calls its tools no more often than its limit, however it ends, and its loop ends unless pending inputs
  keep it going. For a tool call: the worker sees only what was authorized
  outright or granted, and a result means a settled call. For the reader: the projection of the stored stream is well
  formed and has ended exactly as the coordinator has settled the turn, a client that follows a turn gets every event
  once and in order to its end, and the answer arrives as it was written, blank pieces apart.
  For the database: the projection of the stored events is the turn the coordinator holds, after any operations of callers that
  respect the items of active tool calls; and the stored events satisfy the contract when every operation returns, no item
  or tool call is started twice and no commentary is recorded. For policies: the matcher decides the glob semantics, the
  last rule decides, and escaping paths and local hosts are denied. For artifacts: a payload that is read has the
  size and checksum of its metadata, and a put can be repeated. For prompts: an accepted budget plan keeps the required buckets
  and stays within its limit, and a text that is cut fits its budget exactly when the budget exceeds forty characters. A message is classified by its best supported intent, and the blocks of a prompt are all accounted
  for, in order of priority. For plans: validation decides acyclicity, sorting
  orders the plan, and the scheduler brings every task to its end. Theorems of the kind \<open>error\<close> state failures the
  code has as it is: a failed unblocking write (until another approval is requested), a rejected artifact settlement or a
  failed preparation leaves a turn that cannot be settled; an approval port that grants while a denial is being recorded
  overrides it (\<open>late_resolution_is_not_obeyed\<close>); two or more dot segments before a final \<open>..\<close> pass the traversal check; the scheduler reports a deadlock without one; a second
  approval request leaves a stream that no projector accepts; a commentary, or the end of a turn that has not started,
  leaves a stream outside the contract; a put replaces a stored artifact whose identifier it names; a context block that fits its bucket overruns the token limit,
  and no intent of the classifier has a strategy in the context builder; streamed tool output is not shown; and a client that reconnects at the terminal event waits for ever.

  \<^bold>\<open>Bounds.\<close> Loops are structural or have a termination proof. The depth-first search of the resolver has a bound one
  above the number of tasks, which \<open>validateDAG_decides_acyclicity\<close> shows to be enough. The scheduling loop, the
  loop of a turn and the loops of a following client are \<open>partial_function\<close>s into \<open>option\<close>, because they can run for
  ever: \<open>sorted_plan_runs_to_its_end\<close>, \<open>scheduler_returns\<close>, \<open>turn_execution_ends\<close> (in Turn_Limits) and \<open>client_follows_turn_to_its_end\<close>
  state when they return, and \<open>failing_beforeTask_hook_livelocks\<close> and \<open>client_at_terminal_event_polls_for_ever\<close> when
  they do not. The tasks of a batch run one after the other;
  \<open>batch_order_is_irrelevant\<close> is the reason why this is enough.

  \<^bold>\<open>Not modelled.\<close> In the kernel: two starts of the same turn that interleave, a manual compaction that joins one in
  flight, and the process signal that aborts all turns. In the execution engine: prompt assembly and streaming around
  the provider SDKs, and the retry delays (floating point with random jitter). In the client: the HTTP transport, the abort signal of a following client
  (the theorems are about clients that are not aborted), the
  operations that only validate a request and pass it on, and the grouping of tool calls for display. In the artifact store:
  the encoding of snapshots and diffs, and operations that interleave at an await. The SQL and Durable
  Object adapters, the Git and GitHub services, the brain and sandbox services and the web applications are input and output
  around external systems; context assembly declares types only. In the token budget the size in
  bytes and the report are left out, which are only shown. Log lines are left out throughout.
\<close>

section \<open>From a plan to its settled tasks\<close>

text \<open>
  C25. A plan that \<open>validateDAG\<close> reports as valid, sorted by the dependency resolver and stored for a fresh run in that
  order, is brought to its end by the scheduler, under these conditions: the tasks are pending, within their retry limits and have
  distinct identifiers, no task names a dependency twice or one outside the plan, at least one task may run at a time,
  and the \<open>beforeTask\<close> hook never throws. The scheduler then returns without error, whatever the executor answers, and every
  task of the plan is stored, either done after all its dependencies or failed.
\<close>
theorem sorted_plan_runs_to_its_end:
  assumes "plan_wf plan" and "validateDAG plan = Some r" and "vr_valid r"
    and "fresh_tasks plan run" and "fresh_run st run" and "env_ok env"
  shows "\<exists>st'. execute env run (fold task_create (topologicalSort plan) st) = Some (Inr (), st') \<and> all_settled st' run \<and>
    set (map tk_id (getByRun st' run)) = tk_id ` set plan"
proof -
  note ac = validateDAG_sound [OF assms(2,3)]
  have sort: "mset (topologicalSort plan) = mset plan" "deps_before (topologicalSort plan)"
    using topologicalSort_sorts [OF assms(1) ac] by auto
  have set: "set (topologicalSort plan) = set plan" using sort(1) by (rule mset_eq_setD)
  have "mset (map tk_id (topologicalSort plan)) = mset (map tk_id plan)" using sort(1) by simp
  then have dist: "distinct (map tk_id (topologicalSort plan))"
    using assms(1) mset_eq_imp_distinct_iff [of "map tk_id (topologicalSort plan)" "map tk_id plan"] by (simp add: plan_wf_def)
  have fresh: "fresh_tasks (topologicalSort plan) run" using assms(4) set by (simp add: fresh_tasks_def list_all_iff)
  from execute_plan [OF fresh dist deps_before_no_forward [OF sort(2) dist] assms(5,6)]
  obtain st' where "execute env run (fold task_create (topologicalSort plan) st) = Some (Inr (), st')"
    "map tk_id (getByRun st' run) = map tk_id (topologicalSort plan)" "all_settled st' run" by blast
  moreover have "set (map tk_id (getByRun st' run)) = tk_id ` set plan" using calculation(2) set by (metis list.set_map)
  ultimately show ?thesis by blast
qed

lemma sorted_plan_runs_to_its_end_witness:
  "\<exists>st'. execute sample_scheduler ''r'' (fold task_create (topologicalSort chain_plan) Map.empty) = Some (Inr (), st') \<and>
    all_settled st' ''r'' \<and> set (map tk_id (getByRun st' ''r'')) = tk_id ` set chain_plan"
  by (rule sorted_plan_runs_to_its_end [OF chain_plan_wf chain_plan_valid _ _ empty_fresh sample_scheduler_ok])
    (simp_all add: fresh_tasks_def chain_plan_def sample_task_def)

end
